(* ===== verification/Prelude.thy ===== *)
theory Prelude
  imports Main "HOL-Library.Word"
begin

text \<open>
  What the components share: the bytes and the errors of the program, the
  sequencing of fallible steps, and the facts on lists, words and results that
  the component proofs use through the simplifier.
\<close>

section \<open>Bytes and results\<close>

type_synonym byte = "8 word"

text \<open>
  An operation of the program returns normally, throws one of the standard
  exceptions the sources throw, or does what the sources never intend: it
  dereferences a null pointer, indexes outside a container, divides by zero,
  shifts by the whole width, runs into a failing assertion (\<open>KIT_ASSERT\<close> aborts) or never returns.
\<close>

datatype exn =
    Out_of_range
  | Logic_error
  | Invalid_argument
  | Assert_failed
  | Null_deref
  | Out_of_bounds
  | Div_by_zero
  | Undefined
  | Diverges

type_synonym 'a res = "exn + 'a"

definition bindE :: "'a res \<Rightarrow> ('a \<Rightarrow> 'b res) \<Rightarrow> 'b res" where
  "bindE r f = (case r of Inl e \<Rightarrow> Inl e | Inr x \<Rightarrow> f x)"

lemma bindE_simps [simp]:
  "bindE (Inl e) f = Inl e"
  "bindE (Inr x) f = f x"
  by (simp_all add: bindE_def)

lemma bindE_Inr_iff:
  "bindE r f = Inr y \<longleftrightarrow> (\<exists>x. r = Inr x \<and> f x = Inr y)"
  by (cases r) simp_all

lemma bindE_cong [fundef_cong]:
  "r = r' \<Longrightarrow> (\<And>x. r' = Inr x \<Longrightarrow> f x = f' x) \<Longrightarrow> bindE r f = bindE r' f'"
  by (cases r') simp_all

text \<open>A loop whose body may fail, and an invariant of such a loop.\<close>

fun foldE :: "('a \<Rightarrow> 's \<Rightarrow> 's res) \<Rightarrow> 'a list \<Rightarrow> 's \<Rightarrow> 's res" where
  "foldE f [] s = Inr s"
| "foldE f (x # xs) s = bindE (f x s) (foldE f xs)"

lemma foldE_append: "foldE f (xs @ ys) s = bindE (foldE f xs s) (foldE f ys)"
  by (induction xs arbitrary: s) (auto simp: bindE_def split: sum.split)

lemma foldE_invariant:
  assumes "\<And>x s. x \<in> set xs \<Longrightarrow> P s \<Longrightarrow> \<exists>s'. f x s = Inr s' \<and> P s'" and "P s"
  shows "\<exists>s'. foldE f xs s = Inr s' \<and> P s'"
  using assms
proof (induction xs arbitrary: s)
  case (Cons x xs)
  obtain s1 where "f x s = Inr s1" "P s1" using Cons.prems(1) [of x s] Cons.prems(2) by auto
  then show ?case using Cons.IH [of s1] Cons.prems(1) by auto
qed simp

section \<open>Overwriting a stretch of a list\<close>

text \<open>
  \<open>splice_at p bs xs\<close> is the memory after a copy of \<open>bs\<close> to offset \<open>p\<close> of \<open>xs\<close>;
  a copy that runs past the end makes the list longer.
\<close>

definition splice_at :: "nat \<Rightarrow> 'a list \<Rightarrow> 'a list \<Rightarrow> 'a list" where
  "splice_at p bs xs = take p xs @ bs @ drop (p + length bs) xs"

named_theorems list_arith \<open>index arithmetic on take, drop and splice\<close>

lemma splice_at_Nil [simp]: "splice_at p [] xs = xs"
  by (simp add: splice_at_def)

lemma length_splice_at [list_arith]:
  "p \<le> length xs \<Longrightarrow> length (splice_at p bs xs) = max (length xs) (p + length bs)"
  by (simp add: splice_at_def max_def)

lemma nth_splice_at [list_arith]:
  "p \<le> length xs \<Longrightarrow> i < length (splice_at p bs xs) \<Longrightarrow>
   splice_at p bs xs ! i = (if p \<le> i \<and> i < p + length bs then bs ! (i - p) else xs ! i)"
  by (auto simp: splice_at_def nth_append min_def)

lemma take_drop_splice_at [list_arith]:
  "p \<le> length xs \<Longrightarrow> take (length bs) (drop p (splice_at p bs xs)) = bs"
  by (simp add: splice_at_def)

lemma splice_at_splice_at:
  "p \<le> length xs \<Longrightarrow>
   splice_at (p + length as) bs (splice_at p as xs) = splice_at p (as @ bs) xs"
  by (auto simp: splice_at_def min_def ac_simps)

lemma splice_at_append:
  "p + length bs \<le> length xs \<Longrightarrow> splice_at p bs (xs @ ys) = splice_at p bs xs @ ys"
  by (simp add: splice_at_def)

lemma take_splice_at:
  "p \<le> length xs \<Longrightarrow> p + length bs \<le> n \<Longrightarrow>
   take n (splice_at p bs xs) = splice_at p bs (take n xs)"
  by (cases "n = p") (auto simp: splice_at_def min_def take_drop)

section \<open>Lists of equally long blocks\<close>

lemma length_concat_blocks [simp]:
  "\<forall>b \<in> set bs. length b = n \<Longrightarrow> length (concat bs) = n * length bs"
  by (induction bs) simp_all

lemma concat_take_blocks:
  "\<forall>b \<in> set bs. length b = n \<Longrightarrow> concat (take k bs) = take (k * n) (concat bs)"
proof (induction bs arbitrary: k)
  case (Cons b bs)
  then show ?case by (cases k) simp_all
qed simp

lemma concat_drop_blocks:
  "\<forall>b \<in> set bs. length b = n \<Longrightarrow> concat (drop k bs) = drop (k * n) (concat bs)"
proof (induction bs arbitrary: k)
  case (Cons b bs)
  then show ?case by (cases k) simp_all
qed simp

lemma concat_update_block:
  assumes "\<forall>b \<in> set bs. length b = n" and "k < length bs" and "p + length as \<le> n"
  shows "concat (bs[k := splice_at p as (bs ! k)]) = splice_at (k * n + p) as (concat bs)"
  using assms
proof (induction bs arbitrary: k)
  case (Cons b bs)
  show ?case
  proof (cases k)
    case 0
    then show ?thesis using Cons.prems by (simp add: splice_at_append)
  next
    case (Suc j)
    then have "concat (bs[j := splice_at p as (bs ! j)]) = splice_at (j * n + p) as (concat bs)"
      using Cons.IH[of j] Cons.prems by simp
    then show ?thesis using Cons.prems Suc by (simp add: splice_at_def add.assoc)
  qed
qed simp

lemma take_drop_block:
  assumes "\<forall>b \<in> set bs. length b = n" and "k < length bs" and "p + m \<le> n"
  shows "take m (drop p (bs ! k)) = take m (drop (k * n + p) (concat bs))"
  using assms
proof (induction bs arbitrary: k)
  case (Cons b bs)
  then show ?case by (cases k) (simp_all add: add.assoc)
qed simp

section \<open>Searching a list\<close>

text \<open>The first index whose element satisfies a predicate, or the length.\<close>

fun first_index :: "('a \<Rightarrow> bool) \<Rightarrow> 'a list \<Rightarrow> nat" where
  "first_index P [] = 0"
| "first_index P (x # xs) = (if P x then 0 else Suc (first_index P xs))"

lemma first_index_le [simp]: "first_index P xs \<le> length xs"
  by (induction xs) simp_all

lemma first_index_less_iff: "first_index P xs < length xs \<longleftrightarrow> (\<exists>x \<in> set xs. P x)"
  by (induction xs) auto

lemma first_index_holds: "first_index P xs < length xs \<Longrightarrow> P (xs ! first_index P xs)"
  by (induction xs) (auto split: if_splits)

lemma first_index_minimal: "i < first_index P xs \<Longrightarrow> \<not> P (xs ! i)"
proof (induction xs arbitrary: i)
  case (Cons x xs)
  then show ?case by (cases i) (auto split: if_splits)
qed simp

section \<open>Decimal output of a stream\<close>

fun dec_digits :: "nat \<Rightarrow> string" where
  "dec_digits n = (if n < 10 then [char_of (48 + n)] else dec_digits (n div 10) @ [char_of (48 + n mod 10)])"

declare dec_digits.simps [simp del]

lemma dec_digits_range: "c \<in> set (dec_digits n) \<Longrightarrow> 48 \<le> (of_char c :: nat) \<and> (of_char c :: nat) \<le> 57"
proof (induction n rule: dec_digits.induct)
  case (1 n)
  have "(of_char (char_of (48 + d) :: char) :: nat) = 48 + d" if "d < 10" for d :: nat
    using that by simp
  then show ?case
    using 1 by (subst (asm) dec_digits.simps) (auto split: if_splits)
qed

end
