(* ===== verification/Endian.thy ===== *)
theory Endian
  imports Prelude
begin

text \<open>
  \<open>endian.h\<close>: byte order. The memory image of an integer on the host is the list
  of its bytes, least significant first, because \<open>KIT_BYTE_ORDER\<close> is
  \<open>KIT_SMALL_ENDIAN\<close> on the little-endian hosts the library is built for;
  \<open>byteswap\<close> reverses that image.
\<close>

unbundle bit_operations_syntax

datatype endian = KIT_SMALL_ENDIAN | KIT_BIG_ENDIAN

definition KIT_BYTE_ORDER :: endian where
  "KIT_BYTE_ORDER = KIT_SMALL_ENDIAN"

section \<open>Memory images\<close>

definition bytes_of :: "nat \<Rightarrow> 'a::len word \<Rightarrow> byte list" where
  "bytes_of n w = map (\<lambda>i. ucast (drop_bit (8 * i) w)) [0..<n]"

fun of_bytes :: "byte list \<Rightarrow> 'a::len word" where
  "of_bytes [] = 0"
| "of_bytes (b # bs) = ucast b OR push_bit 8 (of_bytes bs)"

lemma length_bytes_of [simp]: "length (bytes_of n w) = n"
  by (simp add: bytes_of_def)

lemma bit_of_bytes:
  "bit (of_bytes bs :: 'a::len word) i \<longleftrightarrow>
   i < LENGTH('a) \<and> i < 8 * length bs \<and> bit (bs ! (i div 8)) (i mod 8)"
proof (induction bs arbitrary: i)
  case (Cons b bs)
  show ?case
  proof (cases "i < 8")
    case True
    then show ?thesis
      by (auto simp: bit_or_iff bit_push_bit_iff bit_ucast_iff)
  next
    case False
    then obtain j where j: "i = j + 8"
      by (metis add.commute le_Suc_ex not_less)
    have "(j + 8) div 8 = Suc (j div 8)" by simp
    then show ?thesis
      using Cons[of j] j
      by (auto simp: bit_or_iff bit_push_bit_iff bit_ucast_iff dest: bit_imp_le_length)
  qed
qed simp

lemma bit_nth_bytes_of:
  "k < n \<Longrightarrow> j < 8 \<Longrightarrow> bit (bytes_of n w ! k) j \<longleftrightarrow> bit w (8 * k + j)"
  by (auto simp: bytes_of_def bit_ucast_iff bit_drop_bit_eq dest: bit_imp_le_length)

lemma of_bytes_bytes_of:
  "LENGTH('a::len) \<le> 8 * n \<Longrightarrow> of_bytes (bytes_of n w) = (w :: 'a word)"
  by (rule bit_word_eqI)
    (auto simp: bit_of_bytes bit_nth_bytes_of less_mult_imp_div_less mult.commute)

lemma bytes_of_of_bytes:
  assumes "LENGTH('a::len) = 8 * length bs"
  shows "bytes_of (length bs) (of_bytes bs :: 'a word) = bs"
proof (rule nth_equalityI)
  fix k assume "k < length (bytes_of (length bs) (of_bytes bs :: 'a word))"
  then have k: "k < length bs" by simp
  show "bytes_of (length bs) (of_bytes bs :: 'a word) ! k = bs ! k"
    by (rule bit_word_eqI) (use k assms in \<open>simp add: bit_nth_bytes_of bit_of_bytes\<close>)
qed simp

section \<open>The swaps\<close>

text \<open>The three instances of the template, chosen by the size of the type.\<close>

definition byteswap :: "'a::len word \<Rightarrow> 'a word" where
  "byteswap v = of_bytes (rev (bytes_of (LENGTH('a) div 8) v))"

definition byteswapOnSmallEndian :: "'a::len word \<Rightarrow> 'a word" where
  "byteswapOnSmallEndian t =
     (if KIT_BYTE_ORDER = KIT_BIG_ENDIAN then t else byteswap t)"

definition byteswapOnBigEndian :: "'a::len word \<Rightarrow> 'a word" where
  "byteswapOnBigEndian t =
     (if KIT_BYTE_ORDER = KIT_BIG_ENDIAN then byteswap t else t)"

lemma bytes_of_byteswap:
  assumes "LENGTH('a::len) = 8 * n"
  shows "bytes_of n (byteswap (v :: 'a word)) = rev (bytes_of n v)"
  using bytes_of_of_bytes[of "rev (bytes_of n v)", where 'a = 'a] assms
  by (simp add: byteswap_def)

lemma byteswap_byteswap:
  assumes "LENGTH('a::len) = 8 * n"
  shows "byteswap (byteswap v) = (v :: 'a word)"
proof -
  have n: "LENGTH('a) div 8 = n" using assms by simp
  have "byteswap (byteswap v) = of_bytes (rev (bytes_of n (byteswap v)))"
    by (simp only: byteswap_def [of "byteswap v"] n)
  also have "\<dots> = v"
    by (simp add: bytes_of_byteswap [OF assms] of_bytes_bytes_of assms)
  finally show ?thesis .
qed

lemma byteswapOn_both:
  "byteswapOnBigEndian (byteswapOnSmallEndian t) = byteswap t"
  by (simp add: byteswapOnBigEndian_def byteswapOnSmallEndian_def KIT_BYTE_ORDER_def)

end
