(* ===== verification/Byte_Stream.thy ===== *)
theory Byte_Stream
  imports Endian
begin

text \<open>
  The interface between a store of bytes with a cursor and the codecs that read
  and write values through it. \<open>byte_stream\<close> is what the serialisers of
  \<open>bytearray.cpp\<close> use of the pool; \<open>value_codec\<close> adds an encoding with a reader,
  and \<open>length_prefixed\<close> the strings that are stored behind their length.
\<close>

text \<open>The bytes \<open>bs\<close> stand at offset \<open>p\<close> of \<open>xs\<close>.\<close>

definition stands_at :: "nat \<Rightarrow> byte list \<Rightarrow> byte list \<Rightarrow> bool" where
  "stands_at p bs xs \<longleftrightarrow> p + length bs \<le> length xs \<and> take (length bs) (drop p xs) = bs"

lemma stands_at_append:
  "stands_at p (as @ bs) xs \<longleftrightarrow> stands_at p as xs \<and> stands_at (p + length as) bs xs"
proof -
  have "take (length as + length bs) (drop p xs)
      = take (length as) (drop p xs) @ take (length bs) (drop (p + length as) xs)"
    by (simp add: take_add add.commute)
  moreover have "length (take (length as) (drop p xs)) = length as" if "p + length as \<le> length xs"
    using that by simp
  ultimately show ?thesis
    by (auto simp: stands_at_def append_eq_append_conv)
qed

lemma stands_at_splice: "p \<le> length xs \<Longrightarrow> stands_at p bs (splice_at p bs xs)"
  by (simp add: stands_at_def length_splice_at take_drop_splice_at)

lemma stands_at_splice_after:
  assumes "stands_at p bs xs" and "p + length bs \<le> q" and "q \<le> length xs"
  shows "stands_at p bs (splice_at q cs xs)"
proof -
  have "take (length bs) (drop p (take q xs @ ys)) = take (length bs) (drop p xs)" for ys
    using assms by (simp add: stands_at_def drop_take)
  then show ?thesis
    using assms by (simp add: stands_at_def length_splice_at splice_at_def)
qed

locale byte_stream =
  fixes inv :: "'s \<Rightarrow> bool" and content :: "'s \<Rightarrow> byte list" and pos :: "'s \<Rightarrow> nat"
    and mode :: "'s \<Rightarrow> 'm"
    and put :: "byte list \<Rightarrow> 's \<Rightarrow> 's res"
    and get :: "nat \<Rightarrow> 's \<Rightarrow> (byte list \<times> 's) res"
    and seek :: "nat \<Rightarrow> 's \<Rightarrow> 's res"
  assumes pos_le: "inv s \<Longrightarrow> pos s \<le> length (content s)"
    and put_law: "inv s \<Longrightarrow>
      \<exists>s'. put bs s = Inr s' \<and> inv s' \<and> pos s' = pos s + length bs
         \<and> content s' = splice_at (pos s) bs (content s) \<and> mode s' = mode s"
    and get_law: "inv s \<Longrightarrow> 0 < n \<Longrightarrow> pos s + n \<le> length (content s) \<Longrightarrow>
      \<exists>s'. get n s = Inr (take n (drop (pos s) (content s)), s') \<and> inv s' \<and> pos s' = pos s + n
         \<and> content s' = content s \<and> mode s' = mode s"
    and seek_law: "inv s \<Longrightarrow> p < length (content s) \<Longrightarrow>
      \<exists>s'. seek p s = Inr s' \<and> inv s' \<and> pos s' = p \<and> content s' = content s \<and> mode s' = mode s"
begin

text \<open>The state after a successful read of \<open>n\<close> bytes.\<close>

definition moved :: "'s \<Rightarrow> nat \<Rightarrow> 's \<Rightarrow> bool" where
  "moved s n s' \<longleftrightarrow> inv s' \<and> pos s' = pos s + n \<and> content s' = content s \<and> mode s' = mode s"

lemma moved_trans: "moved s m s' \<Longrightarrow> moved s' n s'' \<Longrightarrow> moved s (m + n) s''"
  by (simp add: moved_def)

lemma get_standing:
  assumes "inv s" and "bs \<noteq> []" and "stands_at (pos s) bs (content s)"
  obtains s' where "get (length bs) s = Inr (bs, s')" and "moved s (length bs) s'"
  using get_law [of s "length bs"] assms by (auto simp: stands_at_def moved_def)

lemma put_then_seek:
  assumes "inv s" and "bs \<noteq> []"
  obtains s1 s2 where "put bs s = Inr s1" and "pos s1 = pos s + length bs" and "seek (pos s) s1 = Inr s2"
    and "inv s2" and "pos s2 = pos s" and "mode s2 = mode s" and "stands_at (pos s) bs (content s2)"
proof -
  obtain s1 where s1: "put bs s = Inr s1" "inv s1" "pos s1 = pos s + length bs"
      "content s1 = splice_at (pos s) bs (content s)" "mode s1 = mode s"
    using put_law [OF assms(1), of bs] by blast
  have "pos s < length (content s1)"
    using assms pos_le [OF assms(1)] s1(4) by (cases bs) (simp_all add: length_splice_at)
  then obtain s2 where "seek (pos s) s1 = Inr s2" "inv s2" "pos s2 = pos s"
      "content s2 = content s1" "mode s2 = mode s1"
    using seek_law [OF s1(2)] by blast
  then show ?thesis
    using s1 that stands_at_splice [OF pos_le [OF assms(1)], of bs] by metis
qed

end

locale value_codec = byte_stream inv content pos mode put get seek
  for inv :: "'s \<Rightarrow> bool" and content :: "'s \<Rightarrow> byte list" and pos :: "'s \<Rightarrow> nat"
    and mode :: "'s \<Rightarrow> 'm" and put :: "byte list \<Rightarrow> 's \<Rightarrow> 's res"
    and get :: "nat \<Rightarrow> 's \<Rightarrow> (byte list \<times> 's) res" and seek :: "nat \<Rightarrow> 's \<Rightarrow> 's res" +
  fixes enc :: "'m \<Rightarrow> 'v \<Rightarrow> byte list" and rd :: "'s \<Rightarrow> ('v \<times> 's) res" and ok :: "'v \<Rightarrow> bool"
  assumes enc_nonempty: "ok v \<Longrightarrow> enc m v \<noteq> []"
    and rd_law: "inv s \<Longrightarrow> ok v \<Longrightarrow> stands_at (pos s) (enc (mode s) v) (content s) \<Longrightarrow>
      \<exists>s'. rd s = Inr (v, s') \<and> inv s' \<and> pos s' = pos s + length (enc (mode s) v)
         \<and> content s' = content s \<and> mode s' = mode s"
begin

lemma round_trip:
  assumes "inv s" and "ok v"
  shows "\<exists>s1 s2 s3. put (enc (mode s) v) s = Inr s1 \<and> seek (pos s) s1 = Inr s2
           \<and> rd s2 = Inr (v, s3) \<and> inv s3 \<and> pos s3 = pos s1"
proof -
  obtain s1 s2 where s: "put (enc (mode s) v) s = Inr s1" "pos s1 = pos s + length (enc (mode s) v)"
      "seek (pos s) s1 = Inr s2" "inv s2" "pos s2 = pos s" "mode s2 = mode s"
      "stands_at (pos s) (enc (mode s) v) (content s2)"
    using put_then_seek [OF assms(1) enc_nonempty [OF assms(2)]] by blast
  then show ?thesis using rd_law [OF s(4) assms(2)] by auto
qed

end

text \<open>A string behind its length: the length is written by the codec, the bytes follow.\<close>

locale length_prefixed = value_codec inv content pos mode put get seek enc rd ok
  for inv :: "'s \<Rightarrow> bool" and content :: "'s \<Rightarrow> byte list" and pos :: "'s \<Rightarrow> nat"
    and mode :: "'s \<Rightarrow> 'm" and put :: "byte list \<Rightarrow> 's \<Rightarrow> 's res"
    and get :: "nat \<Rightarrow> 's \<Rightarrow> (byte list \<times> 's) res" and seek :: "nat \<Rightarrow> 's \<Rightarrow> 's res"
    and enc :: "'m \<Rightarrow> 'v \<Rightarrow> byte list" and rd :: "'s \<Rightarrow> ('v \<times> 's) res" and ok :: "'v \<Rightarrow> bool" +
  fixes of_len :: "nat \<Rightarrow> 'v" and len_of :: "'v \<Rightarrow> nat" and max_len :: nat
  assumes len_inverse: "n < max_len \<Longrightarrow> len_of (of_len n) = n" and len_ok: "n < max_len \<Longrightarrow> ok (of_len n)"
begin

definition put_string :: "byte list \<Rightarrow> 's \<Rightarrow> 's res" where
  "put_string bs s = bindE (put (enc (mode s) (of_len (length bs))) s) (put bs)"

definition get_string :: "'s \<Rightarrow> (byte list \<times> 's) res" where
  "get_string s = bindE (rd s) (\<lambda>(v, s1). get (len_of v) s1)"

lemma string_round_trip:
  assumes s: "inv s" and bs: "bs \<noteq> []" "length bs < max_len"
  shows "\<exists>s1 s2 s3. put_string bs s = Inr s1 \<and> seek (pos s) s1 = Inr s2
           \<and> get_string s2 = Inr (bs, s3) \<and> inv s3 \<and> pos s3 = pos s1"
proof -
  let ?v = "of_len (length bs)"
  let ?e = "enc (mode s) ?v"
  obtain s1 where s1: "put ?e s = Inr s1" "inv s1" "pos s1 = pos s + length ?e"
      "content s1 = splice_at (pos s) ?e (content s)" "mode s1 = mode s"
    using put_law [OF s, of ?e] by blast
  obtain s2 where s2: "put bs s1 = Inr s2" "inv s2" "pos s2 = pos s1 + length bs"
      "content s2 = splice_at (pos s1) bs (content s1)" "mode s2 = mode s1"
    using put_law [OF s1(2), of bs] by blast
  have c: "content s2 = splice_at (pos s) (?e @ bs) (content s)"
    using s1 s2 splice_at_splice_at [OF pos_le [OF s]] by simp
  then have "pos s < length (content s2)"
    using pos_le [OF s] bs by (cases bs) (simp_all add: length_splice_at)
  then obtain s3 where s3: "seek (pos s) s2 = Inr s3" "inv s3" "pos s3 = pos s"
      "content s3 = content s2" "mode s3 = mode s"
    using seek_law [OF s2(2)] s1(5) s2(5) by metis
  have st: "stands_at (pos s) ?e (content s3)" "stands_at (pos s + length ?e) bs (content s3)"
    using stands_at_splice [OF pos_le [OF s], of "?e @ bs"] s3(4) c by (simp_all add: stands_at_append)
  obtain s4 where s4: "rd s3 = Inr (?v, s4)" "inv s4" "pos s4 = pos s + length ?e" "content s4 = content s3"
    using rd_law [OF s3(2) len_ok [OF bs(2)]] st(1) s3 by metis
  obtain s5 where s5: "get (length bs) s4 = Inr (bs, s5)" "moved s4 (length bs) s5"
    using get_standing [OF s4(2) bs(1)] st(2) s4 by metis
  have "put_string bs s = Inr s2" "get_string s3 = Inr (bs, s5)"
    using s1 s2 s4 s5 len_inverse [OF bs(2)] by (simp_all add: put_string_def get_string_def)
  then show ?thesis using s3 s5 s4 s2 s1 by (auto simp: moved_def)
qed

end

end
