(* ===== verification/Byte_Array.thy ===== *)
theory Byte_Array
  imports Byte_Stream
begin

text \<open>
  \<open>bytearray.h\<close> and \<open>bytearray.cpp\<close>: the memory pool. A \<open>ByteArray\<close> is a linked
  list of blocks of \<open>m_baseSize\<close> bytes with a cursor. The list of blocks from
  \<open>m_root\<close> along \<open>next\<close> is a list; \<open>m_cur\<close> is the index of a block in it, and the
  index just past the last one is the null pointer. Sizes are \<open>nat\<close>: they count
  bytes that are allocated, far below \<open>2 ^ 64\<close> (and below \<open>2 ^ 53\<close>, where the
  \<open>ceil\<close> of \<open>addCapacity\<close> is exact). The content of fresh memory is indeterminate
  in C++; \<open>m_fresh\<close> is an arbitrary choice of it.
\<close>

section \<open>The pool\<close>

type_synonym node = "byte list"

record byte_array =
  m_baseSize :: nat
  m_position :: nat
  m_capacity :: nat
  m_size :: nat
  m_endian :: endian
  m_root :: "node list"
  m_cur :: nat
  m_fresh :: "nat \<Rightarrow> byte"

definition new_node :: "(nat \<Rightarrow> byte) \<Rightarrow> nat \<Rightarrow> node" where
  "new_node f n = map f [0..<n]"

definition ByteArray :: "(nat \<Rightarrow> byte) \<Rightarrow> nat \<Rightarrow> byte_array" where
  "ByteArray f base_size =
     \<lparr>m_baseSize = base_size, m_position = 0, m_capacity = base_size, m_size = 0,
      m_endian = KIT_BIG_ENDIAN, m_root = [new_node f base_size], m_cur = 0, m_fresh = f\<rparr>"

definition clear :: "byte_array \<Rightarrow> byte_array" where
  "clear ba = ba\<lparr>m_position := 0, m_size := 0, m_capacity := m_baseSize ba,
                 m_root := take 1 (m_root ba), m_cur := 0\<rparr>"

definition getReadSize :: "byte_array \<Rightarrow> nat" where
  "getReadSize ba = m_size ba - m_position ba"

definition getRemainCapacity :: "byte_array \<Rightarrow> nat" where
  "getRemainCapacity ba = m_capacity ba - m_position ba"

definition isSmallEndian :: "byte_array \<Rightarrow> bool" where
  "isSmallEndian ba = (m_endian ba = KIT_SMALL_ENDIAN)"

definition setSmallEndian :: "bool \<Rightarrow> byte_array \<Rightarrow> byte_array" where
  "setSmallEndian val ba =
     ba\<lparr>m_endian := if val then KIT_SMALL_ENDIAN else KIT_BIG_ENDIAN\<rparr>"

definition addCapacity :: "nat \<Rightarrow> byte_array \<Rightarrow> byte_array" where
  "addCapacity sz ba =
     (if sz = 0 then ba
      else
        let remain_cap = getRemainCapacity ba in
        if remain_cap \<ge> sz then ba
        else
          let count = (sz - remain_cap + m_baseSize ba - 1) div m_baseSize ba;
              old = length (m_root ba)
          in ba\<lparr>m_root := m_root ba @ replicate count (new_node (m_fresh ba) (m_baseSize ba)),
                m_capacity := m_capacity ba + count * m_baseSize ba,
                m_cur := if remain_cap = 0 then old else m_cur ba\<rparr>)"

text \<open>The offset of the cursor in its block; the division traps on an empty block size.\<close>

definition node_pos :: "nat \<Rightarrow> byte_array \<Rightarrow> nat res" where
  "node_pos p ba = (if m_baseSize ba = 0 then Inl Div_by_zero else Inr (p mod m_baseSize ba))"

definition node_size :: "nat \<Rightarrow> byte_array \<Rightarrow> nat res" where
  "node_size k ba =
     (if k < length (m_root ba) then Inr (length (m_root ba ! k)) else Inl Null_deref)"

definition memcpy_to :: "nat \<Rightarrow> nat \<Rightarrow> byte list \<Rightarrow> byte_array \<Rightarrow> byte_array" where
  "memcpy_to k npos bs ba =
     ba\<lparr>m_root := (m_root ba)[k := splice_at npos bs (m_root ba ! k)]\<rparr>"

definition memcpy_from :: "nat \<Rightarrow> nat \<Rightarrow> nat \<Rightarrow> byte_array \<Rightarrow> byte list" where
  "memcpy_from k npos n ba = take n (drop npos (m_root ba ! k))"

section \<open>Raw writes and reads\<close>

function write_loop :: "nat \<Rightarrow> nat \<Rightarrow> byte list \<Rightarrow> byte_array \<Rightarrow> byte_array res" where
  "write_loop npos ncap buf ba =
     (if buf = [] then Inr ba
      else if length (m_root ba) \<le> m_cur ba then Inl Null_deref
      else if ncap \<ge> length buf then
        let cur' = (if length (m_root ba ! m_cur ba) = npos + length buf
                    then Suc (m_cur ba) else m_cur ba)
        in Inr ((memcpy_to (m_cur ba) npos buf ba)
                  \<lparr>m_cur := cur', m_position := m_position ba + length buf\<rparr>)
      else
        let ba1 = (memcpy_to (m_cur ba) npos (take ncap buf) ba)
                    \<lparr>m_cur := Suc (m_cur ba), m_position := m_position ba + ncap\<rparr>
        in if length (m_root ba1) \<le> m_cur ba1 then Inl Null_deref
           else write_loop 0 (length (m_root ba1 ! m_cur ba1)) (drop ncap buf) ba1)"
  by pat_completeness auto
termination
  by (relation "measure (\<lambda>(_, _, _, ba). length (m_root ba) - m_cur ba)")
    (auto simp: memcpy_to_def)

definition write_buf :: "byte list \<Rightarrow> byte_array \<Rightarrow> byte_array res" where
  "write_buf buf ba =
     (if buf = [] then Inr ba
      else
        let ba1 = addCapacity (length buf) ba in
        bindE (node_pos (m_position ba1) ba1) (\<lambda>npos.
        bindE (node_size (m_cur ba1) ba1) (\<lambda>sz.
        bindE (write_loop npos (sz - npos) buf ba1) (\<lambda>ba2.
        Inr (if m_position ba2 > m_size ba2 then ba2\<lparr>m_size := m_position ba2\<rparr> else ba2)))))"

function read_loop ::
  "nat \<Rightarrow> nat \<Rightarrow> nat \<Rightarrow> byte_array \<Rightarrow> byte list \<Rightarrow> (byte list \<times> byte_array) res" where
  "read_loop npos ncap sz ba buf =
     (if sz = 0 then Inr (buf, ba)
      else if length (m_root ba) \<le> m_cur ba then Inl Null_deref
      else if ncap \<ge> sz then
        let cur' = (if length (m_root ba ! m_cur ba) = npos + sz
                    then Suc (m_cur ba) else m_cur ba)
        in Inr (buf @ memcpy_from (m_cur ba) npos sz ba,
                ba\<lparr>m_cur := cur', m_position := m_position ba + sz\<rparr>)
      else
        let buf1 = buf @ memcpy_from (m_cur ba) npos ncap ba;
            ba1 = ba\<lparr>m_cur := Suc (m_cur ba), m_position := m_position ba + ncap\<rparr>
        in if length (m_root ba1) \<le> m_cur ba1 then Inl Null_deref
           else read_loop 0 (length (m_root ba1 ! m_cur ba1)) (sz - ncap) ba1 buf1)"
  by pat_completeness auto
termination
  by (relation "measure (\<lambda>(_, _, _, ba, _). length (m_root ba) - m_cur ba)") auto

definition read_buf :: "nat \<Rightarrow> byte_array \<Rightarrow> (byte list \<times> byte_array) res" where
  "read_buf sz ba =
     (if sz > getReadSize ba then Inl Out_of_range
      else
        bindE (node_pos (m_position ba) ba) (\<lambda>npos.
        bindE (node_size (m_cur ba) ba) (\<lambda>nsz.
        read_loop npos (nsz - npos) sz ba [])))"

text \<open>
  The overload with a position leaves the object alone. It starts at the block
  of the cursor, whatever the position, and takes the capacity of every later
  block from the block of the cursor.
\<close>

function peek_loop ::
  "nat \<Rightarrow> nat \<Rightarrow> nat \<Rightarrow> nat \<Rightarrow> byte_array \<Rightarrow> byte list \<Rightarrow> byte list res" where
  "peek_loop cur npos ncap sz ba buf =
     (if sz = 0 then Inr buf
      else if length (m_root ba) \<le> cur then Inl Null_deref
      else if ncap \<ge> sz then Inr (buf @ memcpy_from cur npos sz ba)
      else bindE (node_size (m_cur ba) ba) (\<lambda>ncap'.
        peek_loop (Suc cur) 0 ncap' (sz - ncap) ba (buf @ memcpy_from cur npos ncap ba)))"
  by pat_completeness auto
termination
  by (relation "measure (\<lambda>(cur, _, _, _, ba, _). length (m_root ba) - cur)") auto

definition read_at :: "nat \<Rightarrow> nat \<Rightarrow> byte_array \<Rightarrow> byte list res" where
  "read_at sz position ba =
     (if sz > getReadSize ba then Inl Out_of_range
      else
        bindE (node_pos position ba) (\<lambda>npos.
        bindE (node_size (m_cur ba) ba) (\<lambda>nsz.
        peek_loop (m_cur ba) npos (nsz - npos) sz ba [])))"

fun seek_loop :: "nat \<Rightarrow> nat \<Rightarrow> node list \<Rightarrow> nat res" where
  "seek_loop val k [] = Inl Null_deref"
| "seek_loop val k (n # ns) =
     (if val \<ge> length n then seek_loop (val - length n) (Suc k) ns else Inr k)"

definition setPosition :: "nat \<Rightarrow> byte_array \<Rightarrow> byte_array res" where
  "setPosition val ba =
     (if val > m_capacity ba then Inl Out_of_range
      else
        bindE (seek_loop val 0 (m_root ba)) (\<lambda>cur.
        Inr (ba\<lparr>m_position := val,
                m_size := if val > m_size ba then val else m_size ba,
                m_cur := cur\<rparr>)))"

definition toString :: "byte_array \<Rightarrow> byte list res" where
  "toString ba =
     (if getReadSize ba = 0 then Inr [] else read_at (getReadSize ba) (m_position ba) ba)"

declare write_loop.simps [simp del] read_loop.simps [simp del] peek_loop.simps [simp del]

section \<open>Well-formed pools\<close>

definition wf_pool :: "byte_array \<Rightarrow> bool" where
  "wf_pool ba \<longleftrightarrow>
     0 < m_baseSize ba \<and> m_root ba \<noteq> [] \<and>
     (\<forall>n \<in> set (m_root ba). length n = m_baseSize ba) \<and>
     m_capacity ba = m_baseSize ba * length (m_root ba) \<and>
     m_position ba \<le> m_size ba \<and> m_size ba \<le> m_capacity ba \<and>
     m_cur ba = m_position ba div m_baseSize ba"

definition memory :: "byte_array \<Rightarrow> byte list" where
  "memory ba = concat (m_root ba)"

definition contents :: "byte_array \<Rightarrow> byte list" where
  "contents ba = take (m_size ba) (memory ba)"

lemma wf_poolD:
  assumes "wf_pool ba"
  shows wf_base: "0 < m_baseSize ba" and wf_blocks: "\<forall>n \<in> set (m_root ba). length n = m_baseSize ba"
    and wf_capacity: "m_capacity ba = m_baseSize ba * length (m_root ba)"
    and wf_position: "m_position ba \<le> m_size ba" and wf_size: "m_size ba \<le> m_capacity ba"
    and wf_cur: "m_cur ba = m_position ba div m_baseSize ba"
  using assms by (simp_all add: wf_pool_def)

lemma length_memory [simp]: "wf_pool ba \<Longrightarrow> length (memory ba) = m_capacity ba"
  by (simp add: memory_def wf_pool_def)

lemma length_contents [simp]: "wf_pool ba \<Longrightarrow> length (contents ba) = m_size ba"
  by (simp add: contents_def wf_size)

lemma length_new_node [simp]: "length (new_node f n) = n"
  by (simp add: new_node_def)

lemma div_less_blocks: "0 < (b::nat) \<Longrightarrow> p < b * n \<Longrightarrow> p div b < n"
  by (simp add: div_less_iff_less_mult mult.commute)

lemma ByteArray_wf: "0 < n \<Longrightarrow> wf_pool (ByteArray f n)"
  by (simp add: ByteArray_def wf_pool_def)

lemma ByteArray_contents [simp]: "contents (ByteArray f n) = []"
  by (simp add: ByteArray_def contents_def)

lemma clear_wf: "wf_pool ba \<Longrightarrow> wf_pool (clear ba)"
  by (cases "m_root ba") (auto simp: wf_pool_def clear_def)

lemma clear_contents [simp]: "contents (clear ba) = []" "m_position (clear ba) = 0"
  by (simp_all add: clear_def contents_def)

subsection \<open>Growing\<close>

lemma ceil_div_ge: "0 < (b::nat) \<Longrightarrow> n \<le> (n + b - 1) div b * b"
  using dividend_less_div_times [of b "n + b - 1"] by simp

lemma addCapacity_unchanged [simp]:
  "m_position (addCapacity n ba) = m_position ba" "m_size (addCapacity n ba) = m_size ba"
  "m_endian (addCapacity n ba) = m_endian ba" "m_baseSize (addCapacity n ba) = m_baseSize ba"
  "m_fresh (addCapacity n ba) = m_fresh ba"
  by (simp_all add: addCapacity_def Let_def)

lemma full_pool_cur:
  assumes "wf_pool ba" and "getRemainCapacity ba = 0"
  shows "m_position ba div m_baseSize ba = length (m_root ba)"
proof -
  have "m_position ba = m_baseSize ba * length (m_root ba)"
    using assms by (simp add: wf_pool_def getRemainCapacity_def)
  then show ?thesis using wf_base [OF assms(1)] by simp
qed

lemma addCapacity_wf: "wf_pool ba \<Longrightarrow> wf_pool (addCapacity n ba)"
  using full_pool_cur [of ba]
  by (auto simp: addCapacity_def Let_def wf_pool_def algebra_simps)

lemma addCapacity_enough:
  assumes "wf_pool ba"
  shows "m_position ba + n \<le> m_capacity (addCapacity n ba)"
proof -
  have "n - getRemainCapacity ba
      \<le> (n - getRemainCapacity ba + m_baseSize ba - 1) div m_baseSize ba * m_baseSize ba"
    using assms by (intro ceil_div_ge) (simp add: wf_base)
  then show ?thesis
    using wf_position [OF assms] wf_size [OF assms]
    by (auto simp: addCapacity_def Let_def getRemainCapacity_def)
qed

lemma addCapacity_memory: "\<exists>ext. memory (addCapacity n ba) = memory ba @ ext"
  by (simp add: addCapacity_def Let_def memory_def)

lemma addCapacity_contents [simp]: "wf_pool ba \<Longrightarrow> contents (addCapacity n ba) = contents ba"
  using addCapacity_memory [of n ba] by (auto simp: contents_def wf_size)

subsection \<open>Writing\<close>

lemma step_div_mod:
  assumes "0 < (b::nat)" and "p mod b + n \<le> b"
  shows "(p + n) div b = (if p mod b + n = b then Suc (p div b) else p div b)"
proof -
  have "p + n = p div b * b + (p mod b + n)" by simp
  then have "(p + n) div b = p div b + (p mod b + n) div b"
    using assms by (metis div_mult_self3 less_numeral_extra(3))
  then show ?thesis using assms by (auto simp: div_eq_0_iff)
qed

definition blocks_of :: "nat \<Rightarrow> byte_array \<Rightarrow> bool" where
  "blocks_of b ba \<longleftrightarrow> (\<forall>n \<in> set (m_root ba). length n = b)"

lemma memcpy_to_memory:
  assumes "blocks_of b ba" and "k < length (m_root ba)" and "npos + length bs \<le> b"
  shows "memory (memcpy_to k npos bs ba) = splice_at (k * b + npos) bs (memory ba)"
  using concat_update_block [of "m_root ba" b k npos bs] assms
  by (simp add: blocks_of_def memory_def memcpy_to_def)

lemma memcpy_to_blocks:
  assumes "blocks_of b ba" and "k < length (m_root ba)" and "npos + length bs \<le> b"
  shows "blocks_of b (memcpy_to k npos bs ba)"
proof -
  have "length (splice_at npos bs (m_root ba ! k)) = b"
    using assms by (simp add: blocks_of_def length_splice_at)
  then show ?thesis
    using assms by (auto simp: blocks_of_def memcpy_to_def dest: set_update_subset_insert [THEN subsetD])
qed

text \<open>The two branches of the loop: the rest fits the block, or it spills into the next.\<close>

lemma write_loop_fits:
  assumes blk: "blocks_of b ba" and k: "m_cur ba < length (m_root ba)" and "buf \<noteq> []"
    and cur: "m_cur ba = m_position ba div b" and b: "0 < b" and fits: "length buf \<le> b - m_position ba mod b"
  shows "\<exists>root'. write_loop (m_position ba mod b) (b - m_position ba mod b) buf ba =
            Inr (ba\<lparr>m_root := root', m_position := m_position ba + length buf,
                     m_cur := (m_position ba + length buf) div b\<rparr>)
          \<and> (\<forall>n \<in> set root'. length n = b) \<and> length root' = length (m_root ba)
          \<and> concat root' = splice_at (m_position ba) buf (memory ba)"
proof -
  let ?npos = "m_position ba mod b" and ?k = "m_cur ba"
  have le: "?npos + length buf \<le> b" using fits b mod_less_divisor [of b "m_position ba"] by linarith
  have pos: "?k * b + ?npos = m_position ba" using cur by simp
  have len: "length (m_root ba ! ?k) = b" using k blk by (simp add: blocks_of_def)
  let ?ba = "memcpy_to ?k ?npos buf ba"
  have "blocks_of b ?ba" "memory ?ba = splice_at (m_position ba) buf (memory ba)"
    using memcpy_to_blocks [OF blk k le] memcpy_to_memory [OF blk k le] pos by simp_all
  then show ?thesis
    using assms len step_div_mod [of b "m_position ba" "length buf"] le
    by (intro exI [of _ "m_root ?ba"])
      (auto simp: write_loop.simps blocks_of_def memory_def memcpy_to_def)
qed

lemma write_loop_spill:
  assumes blk: "blocks_of b ba" and k: "m_cur ba < length (m_root ba)"
    and cur: "m_cur ba = m_position ba div b" and b: "0 < b" and more: "b - m_position ba mod b < length buf"
    and room: "m_position ba + length buf \<le> b * length (m_root ba)"
  defines "ncap \<equiv> b - m_position ba mod b"
  defines "ba1 \<equiv> (memcpy_to (m_cur ba) (m_position ba mod b) (take ncap buf) ba)
                     \<lparr>m_cur := Suc (m_cur ba), m_position := m_position ba + ncap\<rparr>"
  shows "write_loop (m_position ba mod b) ncap buf ba = write_loop 0 b (drop ncap buf) ba1"
    and "blocks_of b ba1" and "m_position ba1 = m_cur ba1 * b"
    and "memory ba1 = splice_at (m_position ba) (take ncap buf) (memory ba)"
proof -
  let ?npos = "m_position ba mod b" and ?k = "m_cur ba"
  have np: "?npos < b" using b by simp
  have pos: "?k * b + ?npos = m_position ba" using cur by simp
  have le: "?npos + length (take ncap buf) \<le> b" using np by (simp add: ncap_def)
  show blk1: "blocks_of b ba1"
    using memcpy_to_blocks [OF blk k le] by (simp add: blocks_of_def ba1_def)
  show "memory ba1 = splice_at (m_position ba) (take ncap buf) (memory ba)"
    using memcpy_to_memory [OF blk k le] pos by (simp add: memory_def ba1_def)
  have "m_position ba + ncap = ?k * b + b" using pos np unfolding ncap_def by linarith
  then show p1: "m_position ba1 = m_cur ba1 * b" by (simp add: ba1_def)
  have "m_position ba1 < b * length (m_root ba)"
    using room more by (simp add: ba1_def ncap_def)
  then have k1: "Suc ?k < length (m_root ba1)"
    using p1 by (simp add: ba1_def memcpy_to_def) (metis mult.commute mult_Suc mult_less_cancel2)
  then have "length (m_root ba1 ! Suc ?k) = b" using blk1 by (simp add: blocks_of_def)
  then show "write_loop ?npos ncap buf ba = write_loop 0 b (drop ncap buf) ba1"
    using k k1 more by (subst write_loop.simps) (cases "buf = []"; simp add: Let_def ba1_def ncap_def)
qed

lemma cur_in_range:
  assumes "0 < b" and "0 < n" and "p + n \<le> b * len"
  shows "p div b < (len :: nat)"
  using assms by (intro div_less_blocks) linarith+

lemma write_loop_correct:
  assumes "blocks_of b ba" and "0 < b" and "m_cur ba = m_position ba div b"
    and "m_position ba + length buf \<le> b * length (m_root ba)"
  shows "\<exists>root'. write_loop (m_position ba mod b) (b - m_position ba mod b) buf ba =
            Inr (ba\<lparr>m_root := root', m_position := m_position ba + length buf,
                     m_cur := (m_position ba + length buf) div b\<rparr>)
          \<and> (\<forall>n \<in> set root'. length n = b) \<and> length root' = length (m_root ba)
          \<and> concat root' = splice_at (m_position ba) buf (memory ba)"
  using assms
proof (induction "length (m_root ba) - m_cur ba" arbitrary: ba buf rule: less_induct)
  case less
  let ?ncap = "b - m_position ba mod b"
  consider "buf = []" | "buf \<noteq> []" "length buf \<le> ?ncap" | "?ncap < length buf" by linarith
  then show ?case
  proof cases
    case 1
    then show ?thesis
      using less.prems by (auto simp: write_loop.simps blocks_of_def memory_def intro: exI [of _ "m_root ba"])
  next
    case 2
    then have "m_cur ba < length (m_root ba)"
      using less.prems cur_in_range [OF less.prems(2) _ less.prems(4)] by simp
    then show ?thesis using less.prems 2 by (intro write_loop_fits) auto
  next
    case 3
    then have k: "m_cur ba < length (m_root ba)"
      using less.prems(3) cur_in_range [OF less.prems(2) _ less.prems(4)] by fastforce
    note sp = write_loop_spill [OF less.prems(1) k less.prems(3,2) 3 less.prems(4)]
    let ?ba = "(memcpy_to (m_cur ba) (m_position ba mod b) (take ?ncap buf) ba)
                 \<lparr>m_cur := Suc (m_cur ba), m_position := m_position ba + ?ncap\<rparr>"
    have nodes: "length (m_root ?ba) = length (m_root ba)" by (simp add: memcpy_to_def)
    have ml: "length (memory ba) = b * length (m_root ba)"
      using less.prems(1) by (simp add: memory_def blocks_of_def)
    have div: "m_cur ?ba = m_position ?ba div b" "m_position ?ba mod b = 0"
      using sp(3) less.prems(2) by simp_all
    obtain root' where r: "write_loop 0 b (drop ?ncap buf) ?ba =
          Inr (?ba\<lparr>m_root := root', m_position := m_position ?ba + length (drop ?ncap buf),
                   m_cur := (m_position ?ba + length (drop ?ncap buf)) div b\<rparr>)"
        "\<forall>n \<in> set root'. length n = b" "length root' = length (m_root ?ba)"
        "concat root' = splice_at (m_position ?ba) (drop ?ncap buf) (memory ?ba)"
    proof -
      have "m_position ?ba + length (drop ?ncap buf) \<le> b * length (m_root ?ba)"
        using less.prems(4) 3 nodes by simp
      moreover have "length (m_root ?ba) - m_cur ?ba < length (m_root ba) - m_cur ba"
        using k nodes by simp
      ultimately show ?thesis
        using less.hyps [OF _ sp(2) less.prems(2) div(1)] that unfolding div(2) diff_zero by blast
    qed
    have "concat root' = splice_at (m_position ba) buf (memory ba)"
      using r(4) sp(4) ml less.prems(4) 3
        splice_at_splice_at [of "m_position ba" "memory ba" "take ?ncap buf" "drop ?ncap buf"]
      by simp
    then show ?thesis
      using r(1-3) sp(1) nodes 3 by (intro exI [of _ root']) (simp add: memcpy_to_def)
  qed
qed

text \<open>
  A write at the cursor splices the bytes into the contents: it never fails, keeps
  the pool well formed and moves the cursor behind what it wrote.
\<close>

definition written :: "byte_array \<Rightarrow> byte list \<Rightarrow> byte_array \<Rightarrow> bool" where
  "written ba buf ba' \<longleftrightarrow>
     wf_pool ba' \<and> m_position ba' = m_position ba + length buf
     \<and> contents ba' = splice_at (m_position ba) buf (contents ba)
     \<and> m_endian ba' = m_endian ba"

lemma write_buf_written:
  assumes wf: "wf_pool ba"
  obtains ba' where "write_buf buf ba = Inr ba'" and "written ba buf ba'"
proof (cases "buf = []")
  case True
  then show ?thesis using that wf by (simp add: write_buf_def written_def)
next
  case False
  let ?ba = "addCapacity (length buf) ba" and ?b = "m_baseSize ba"
  have wf1: "wf_pool ?ba" by (rule addCapacity_wf [OF wf])
  have b: "0 < ?b" by (rule wf_base [OF wf])
  have room: "m_position ba + length buf \<le> ?b * length (m_root ?ba)"
    using addCapacity_enough [OF wf, of "length buf"] wf_capacity [OF wf1] by simp
  have cur: "m_cur ?ba = m_position ba div ?b" using wf_cur [OF wf1] by simp
  have blk: "blocks_of ?b ?ba" using wf_blocks [OF wf1] by (simp add: blocks_of_def)
  have k: "m_cur ?ba < length (m_root ?ba)"
    using False cur cur_in_range [OF b _ room] by simp
  then have sz: "node_size (m_cur ?ba) ?ba = Inr ?b"
    using blk by (simp add: node_size_def blocks_of_def)
  obtain root' where r: "write_loop (m_position ba mod ?b) (?b - m_position ba mod ?b) buf ?ba =
        Inr (?ba\<lparr>m_root := root', m_position := m_position ba + length buf,
                 m_cur := (m_position ba + length buf) div ?b\<rparr>)"
      "\<forall>n \<in> set root'. length n = ?b" "length root' = length (m_root ?ba)"
      "concat root' = splice_at (m_position ba) buf (memory ?ba)"
    using write_loop_correct [OF blk b, of buf] cur room
    by auto
  let ?ba2 = "?ba\<lparr>m_root := root', m_position := m_position ba + length buf,
                  m_cur := (m_position ba + length buf) div ?b\<rparr>"
  let ?ba3 = "if m_position ?ba2 > m_size ?ba2 then ?ba2\<lparr>m_size := m_position ?ba2\<rparr> else ?ba2"
  have run: "write_buf buf ba = Inr ?ba3"
    using False b sz r(1) by (simp add: write_buf_def Let_def node_pos_def)
  have "wf_pool ?ba3"
    using wf1 r(2,3) room False by (auto simp: wf_pool_def)
  moreover have "contents ?ba3 = splice_at (m_position ba) buf (contents ba)"
  proof -
    have p: "m_position ba \<le> m_size ba" "m_size ba \<le> m_capacity ?ba"
      using wf_position [OF wf] wf_size [OF wf1] by simp_all
    have c: "contents ba = take (m_size ba) (memory ?ba)"
      using addCapacity_contents [OF wf, of "length buf"] by (simp add: contents_def)
    have "contents ?ba3 = take (max (m_size ba) (m_position ba + length buf)) (concat root')"
      by (simp add: contents_def memory_def max_def)
    also have "\<dots> = splice_at (m_position ba) buf (take (max (m_size ba) (m_position ba + length buf)) (memory ?ba))"
      unfolding r(4) using p wf1 by (intro take_splice_at) simp_all
    also have "\<dots> = splice_at (m_position ba) buf (take (m_size ba) (memory ?ba))"
      using p by (simp add: splice_at_def max_def min_def)
    finally show ?thesis by (simp add: c)
  qed
  ultimately show ?thesis
    using run by (intro that [of ?ba3]) (simp_all add: written_def)
qed

subsection \<open>Reading\<close>

lemma memcpy_from_memory:
  assumes "blocks_of b ba" and "k < length (m_root ba)" and "npos + n \<le> b"
  shows "memcpy_from k npos n ba = take n (drop (k * b + npos) (memory ba))"
  using take_drop_block [of "m_root ba" b k npos n] assms
  by (simp add: blocks_of_def memory_def memcpy_from_def)

lemma take_drop_split:
  "a \<le> n \<Longrightarrow> take a (drop p xs) @ take (n - a) (drop (p + a) xs) = take n (drop p xs)"
  by (metis add.commute drop_drop le_add_diff_inverse take_add)

lemma next_block:
  assumes "0 < b" and "p + n \<le> b * len" and "b - p mod b < n"
  shows "Suc (p div b) < (len :: nat)" and "p + (b - p mod b) = Suc (p div b) * b"
proof -
  have "p mod b < b" "p div b * b + p mod b = p" using assms(1) by simp_all
  then show eq: "p + (b - p mod b) = Suc (p div b) * b" unfolding mult_Suc by linarith
  then have "Suc (p div b) * b < len * b" using assms by (simp add: mult.commute)
  then show "Suc (p div b) < len" using mult_less_cancel2 by blast
qed

lemma read_loop_correct:
  assumes "blocks_of b ba" and "0 < b" and "m_cur ba = m_position ba div b"
    and "m_position ba + n \<le> b * length (m_root ba)"
  shows "read_loop (m_position ba mod b) (b - m_position ba mod b) n ba acc =
           Inr (acc @ take n (drop (m_position ba) (memory ba)),
                ba\<lparr>m_position := m_position ba + n, m_cur := (m_position ba + n) div b\<rparr>)"
  using assms
proof (induction "length (m_root ba) - m_cur ba" arbitrary: ba n acc rule: less_induct)
  case less
  let ?p = "m_position ba" and ?k = "m_cur ba"
  let ?ncap = "b - ?p mod b"
  have blk: "\<And>k. k < length (m_root ba) \<Longrightarrow> length (m_root ba ! k) = b"
    using less.prems(1) by (simp add: blocks_of_def)
  have np: "?p mod b < b" "?k * b + ?p mod b = ?p" using less.prems by simp_all
  consider "n = 0" | "n \<noteq> 0" "n \<le> ?ncap" | "?ncap < n" by linarith
  then show ?case
  proof cases
    case 1
    then show ?thesis using less.prems by (simp add: read_loop.simps)
  next
    case 2
    then have k: "?k < length (m_root ba)"
      using less.prems(3) cur_in_range [OF less.prems(2) _ less.prems(4)] by simp
    have le: "?p mod b + n \<le> b" using 2 np by linarith
    show ?thesis
      using 2 k less.prems(3) blk [OF k] memcpy_from_memory [OF less.prems(1) k le] np
        step_div_mod [OF less.prems(2) le]
      by (auto simp: read_loop.simps)
  next
    case 3
    note nb = next_block [OF less.prems(2,4) 3]
    let ?ba = "ba\<lparr>m_cur := Suc ?k, m_position := ?p + ?ncap\<rparr>"
    have k: "Suc ?k < length (m_root ba)" and p: "m_position ?ba = Suc ?k * b"
      using nb less.prems(3) by simp_all
    have "read_loop (?p mod b) ?ncap n ba acc =
        read_loop 0 b (n - ?ncap) ?ba (acc @ memcpy_from ?k (?p mod b) ?ncap ba)"
      using 3 k blk [OF k] by (subst read_loop.simps) (simp add: Let_def)
    also have "\<dots> = Inr ((acc @ memcpy_from ?k (?p mod b) ?ncap ba) @ take (n - ?ncap) (drop (m_position ?ba) (memory ?ba)),
        ?ba\<lparr>m_position := m_position ?ba + (n - ?ncap), m_cur := (m_position ?ba + (n - ?ncap)) div b\<rparr>)"
    proof -
      have m: "m_position ?ba mod b = 0" "m_cur ?ba = m_position ?ba div b"
        using p less.prems(2) by simp_all
      have bound: "m_position ?ba + (n - ?ncap) \<le> b * length (m_root ?ba)"
        using less.prems(4) 3 by simp
      have "blocks_of b ?ba" using less.prems(1) by (simp add: blocks_of_def)
      then show ?thesis
        using less.hyps [OF _ _ less.prems(2) m(2) bound] k unfolding m(1) by simp
    qed
    also have "memcpy_from ?k (?p mod b) ?ncap ba = take ?ncap (drop ?p (memory ba))"
      using memcpy_from_memory [OF less.prems(1), of ?k "?p mod b" ?ncap] np k by simp
    finally show ?thesis
      using take_drop_split [of ?ncap n ?p "memory ba"] 3 by (simp add: memory_def)
  qed
qed

text \<open>What a successful read does.\<close>

definition advanced :: "byte_array \<Rightarrow> nat \<Rightarrow> byte_array \<Rightarrow> bool" where
  "advanced ba n ba' \<longleftrightarrow>
     wf_pool ba' \<and> m_position ba' = m_position ba + n \<and> contents ba' = contents ba
     \<and> m_endian ba' = m_endian ba"

lemma cur_node_size:
  assumes "wf_pool ba" and "m_position ba < m_capacity ba"
  shows "node_size (m_cur ba) ba = Inr (m_baseSize ba)"
  using assms div_less_blocks [of "m_baseSize ba" "m_position ba" "length (m_root ba)"]
  by (simp add: node_size_def wf_pool_def)

lemma take_drop_contents:
  assumes "p + n \<le> m_size ba"
  shows "take n (drop p (contents ba)) = take n (drop p (memory ba))"
  using assms by (simp add: contents_def drop_take min_def)

lemma read_buf_advanced:
  assumes wf: "wf_pool ba" and n: "n \<le> getReadSize ba" and pos: "m_position ba < m_capacity ba"
  obtains ba' where "read_buf n ba = Inr (take n (drop (m_position ba) (contents ba)), ba')"
    and "advanced ba n ba'"
proof -
  let ?b = "m_baseSize ba"
  let ?ba = "ba\<lparr>m_position := m_position ba + n, m_cur := (m_position ba + n) div ?b\<rparr>"
  have le: "m_position ba + n \<le> m_size ba"
    using n wf_position [OF wf] by (simp add: getReadSize_def)
  have "blocks_of ?b ba" and room: "m_position ba + n \<le> ?b * length (m_root ba)"
    using wf le by (simp_all add: wf_pool_def blocks_of_def)
  then have "read_loop (m_position ba mod ?b) (?b - m_position ba mod ?b) n ba [] =
      Inr (take n (drop (m_position ba) (memory ba)), ?ba)"
    using read_loop_correct [of ?b ba n "[]"] wf_base [OF wf] wf_cur [OF wf] by simp
  then have "read_buf n ba = Inr (take n (drop (m_position ba) (contents ba)), ?ba)"
    using n wf_base [OF wf] cur_node_size [OF wf pos]
    by (simp add: read_buf_def node_pos_def take_drop_contents [OF le])
  moreover have "advanced ba n ?ba"
    using wf le by (simp add: advanced_def wf_pool_def contents_def memory_def)
  ultimately show ?thesis by (rule that)
qed

subsection \<open>Peeking and seeking\<close>

lemma peek_loop_correct:
  assumes "blocks_of b ba" and "0 < b" and "p + n \<le> b * length (m_root ba)"
    and cur: "node_size (m_cur ba) ba = Inr b"
  shows "peek_loop (p div b) (p mod b) (b - p mod b) n ba acc =
           Inr (acc @ take n (drop p (memory ba)))"
  using assms(3)
proof (induction "length (m_root ba) - p div b" arbitrary: p n acc rule: less_induct)
  case less
  let ?k = "p div b" and ?ncap = "b - p mod b"
  have np: "p mod b < b" "?k * b + p mod b = p" using assms(2) by simp_all
  consider "n = 0" | "n \<noteq> 0" "n \<le> ?ncap" | "?ncap < n" by linarith
  then show ?case
  proof cases
    case 1
    then show ?thesis by (simp add: peek_loop.simps)
  next
    case 2
    then have k: "?k < length (m_root ba)" using cur_in_range [OF assms(2) _ less.prems] by simp
    have "p mod b + n \<le> b" using 2 np by linarith
    then show ?thesis
      using 2 k memcpy_from_memory [OF assms(1) k, of "p mod b" n] np
      by (auto simp: peek_loop.simps)
  next
    case 3
    note nb = next_block [OF assms(2) less.prems 3]
    let ?acc = "acc @ memcpy_from ?k (p mod b) ?ncap ba"
    have q: "(p + ?ncap) div b = Suc ?k" "(p + ?ncap) mod b = 0"
      unfolding nb(2) using assms(2) by simp_all
    have "peek_loop ?k (p mod b) ?ncap n ba acc = peek_loop (Suc ?k) 0 b (n - ?ncap) ba ?acc"
      using 3 nb(1) cur by (subst peek_loop.simps) simp
    also have "\<dots> = Inr (?acc @ take (n - ?ncap) (drop (p + ?ncap) (memory ba)))"
    proof -
      have "length (m_root ba) - (p + ?ncap) div b < length (m_root ba) - ?k"
        using nb(1) q(1) by simp
      moreover have "p + ?ncap + (n - ?ncap) \<le> b * length (m_root ba)" using less.prems 3 by simp
      ultimately show ?thesis
        using less.hyps [of "p + ?ncap" "n - ?ncap" ?acc] unfolding q diff_zero by blast
    qed
    also have "memcpy_from ?k (p mod b) ?ncap ba = take ?ncap (drop p (memory ba))"
      using memcpy_from_memory [OF assms(1), of ?k "p mod b" ?ncap] np nb(1) by simp
    finally show ?thesis using take_drop_split [of ?ncap n p "memory ba"] 3 by simp
  qed
qed

lemma toString_rest:
  assumes wf: "wf_pool ba"
  shows "toString ba = Inr (drop (m_position ba) (contents ba))"
proof (cases "getReadSize ba = 0")
  case True
  then show ?thesis
    using wf wf_position [OF wf] by (simp add: toString_def getReadSize_def)
next
  case False
  let ?b = "m_baseSize ba" and ?n = "getReadSize ba"
  have le: "m_position ba + ?n = m_size ba"
    using wf_position [OF wf] by (simp add: getReadSize_def)
  then have "m_position ba < m_capacity ba" using False wf_size [OF wf] by linarith
  note cur = cur_node_size [OF wf this]
  have "blocks_of ?b ba" "m_position ba + ?n \<le> ?b * length (m_root ba)"
    using wf le by (simp_all add: wf_pool_def blocks_of_def)
  then have "read_at ?n (m_position ba) ba = Inr (take ?n (drop (m_position ba) (memory ba)))"
    using peek_loop_correct [OF _ wf_base [OF wf] _ cur, of "m_position ba" ?n "[]"] cur
      wf_base [OF wf] wf_cur [OF wf] by (simp add: read_at_def node_pos_def)
  also have "\<dots> = Inr (drop (m_position ba) (contents ba))"
    by (simp add: contents_def drop_take getReadSize_def)
  finally show ?thesis using False by (simp add: toString_def)
qed

lemma seek_loop_blocks:
  assumes "0 < b" and "\<forall>n \<in> set ns. length n = b"
  shows "seek_loop val k ns = (if val < b * length ns then Inr (k + val div b) else Inl Null_deref)"
  using assms(2)
proof (induction ns arbitrary: val k)
  case (Cons n ns)
  have n: "length n = b" and ih: "\<And>val k. seek_loop val k ns =
      (if val < b * length ns then Inr (k + val div b) else Inl Null_deref)"
    using Cons by simp_all
  show ?case
  proof (cases "b \<le> val")
    case True
    then have "val div b = Suc ((val - b) div b)" and "val - b < b * length ns \<longleftrightarrow> val < b * Suc (length ns)"
      using assms(1) by (simp_all add: le_div_geq less_diff_conv2 add.commute)
    then show ?thesis using True by (simp add: n ih)
  next
    case False
    then have "val < b * Suc (length ns)" by simp
    then show ?thesis using False by (simp add: n)
  qed
qed simp

lemma setPosition_inside:
  assumes wf: "wf_pool ba" and p: "p < m_capacity ba"
  obtains ba' where "setPosition p ba = Inr ba'" and "wf_pool ba'" and "m_position ba' = p"
    and "m_endian ba' = m_endian ba" and "memory ba' = memory ba"
    and "m_size ba' = max (m_size ba) p"
proof -
  have "seek_loop p 0 (m_root ba) = Inr (p div m_baseSize ba)"
    using seek_loop_blocks [OF wf_base [OF wf] wf_blocks [OF wf]] p wf_capacity [OF wf] by simp
  then have "setPosition p ba =
      Inr (ba\<lparr>m_position := p, m_size := max (m_size ba) p, m_cur := p div m_baseSize ba\<rparr>)"
    using p by (simp add: setPosition_def max_def)
  moreover have "wf_pool (ba\<lparr>m_position := p, m_size := max (m_size ba) p, m_cur := p div m_baseSize ba\<rparr>)"
    using p wf by (simp add: wf_pool_def)
  ultimately show ?thesis by (rule that) (simp_all add: memory_def)
qed

lemma setPosition_end_null:
  "wf_pool ba \<Longrightarrow> setPosition (m_capacity ba) ba = Inl Null_deref"
  using seek_loop_blocks [of "m_baseSize ba" "m_root ba" "m_capacity ba" 0]
  by (simp add: setPosition_def wf_pool_def)

section \<open>The pool is a byte stream\<close>

interpretation pool: byte_stream wf_pool contents m_position m_endian write_buf read_buf setPosition
proof unfold_locales
  show "m_position s \<le> length (contents s)" if "wf_pool s" for s
    using that by (simp add: wf_position)
  show "\<exists>s'. write_buf bs s = Inr s' \<and> wf_pool s' \<and> m_position s' = m_position s + length bs
      \<and> contents s' = splice_at (m_position s) bs (contents s) \<and> m_endian s' = m_endian s"
    if "wf_pool s" for s bs
    using write_buf_written [OF that, of bs] by (auto simp: written_def)
  show "\<exists>s'. read_buf n s = Inr (take n (drop (m_position s) (contents s)), s') \<and> wf_pool s'
      \<and> m_position s' = m_position s + n \<and> contents s' = contents s \<and> m_endian s' = m_endian s"
    if "wf_pool s" "0 < n" "m_position s + n \<le> length (contents s)" for s n
  proof -
    have "n \<le> getReadSize s" "m_position s < m_capacity s"
      using that wf_size [OF that(1)] by (simp_all add: getReadSize_def)
    then show ?thesis using read_buf_advanced [OF that(1)] by (auto simp: advanced_def)
  qed
  show "\<exists>s'. setPosition p s = Inr s' \<and> wf_pool s' \<and> m_position s' = p \<and> contents s' = contents s
      \<and> m_endian s' = m_endian s"
    if "wf_pool s" "p < length (contents s)" for s p
  proof -
    have "p < m_capacity s" "max (m_size s) p = m_size s"
      using that wf_size [OF that(1)] by simp_all
    then show ?thesis by (rule_tac setPosition_inside [OF that(1), of p]) (auto simp: contents_def)
  qed
qed

end
