(* ===== verification/Byte_Codec.thy ===== *)
theory Byte_Codec
  imports Byte_Array
begin

text \<open>
  The typed writers and readers of \<open>bytearray.cpp\<close>: integers of a fixed size in
  the byte order of the pool, variable-length integers (seven bits a byte, the
  highest bit says that more follow), zigzag-coded signed integers and strings
  behind their length. Signed and unsigned integers of one width are the same
  words; the products of the zigzag encoders wrap, as the compiled code does.
  \<open>float\<close> and \<open>double\<close> are stored by their bit patterns.
\<close>

unbundle bit_operations_syntax

section \<open>Integers of a fixed size\<close>

definition to_pool_order :: "byte_array \<Rightarrow> 'a::len word \<Rightarrow> 'a word" where
  "to_pool_order ba value = (if m_endian ba \<noteq> KIT_BYTE_ORDER then byteswap value else value)"

definition writeFuint8 :: "byte \<Rightarrow> byte_array \<Rightarrow> byte_array res" where
  "writeFuint8 value ba = write_buf (bytes_of 1 value) ba"

definition write_fixed :: "'a::len word \<Rightarrow> byte_array \<Rightarrow> byte_array res" where
  "write_fixed value ba = write_buf (bytes_of (LENGTH('a) div 8) (to_pool_order ba value)) ba"

definition readFuint8 :: "byte_array \<Rightarrow> (byte \<times> byte_array) res" where
  "readFuint8 ba = bindE (read_buf 1 ba) (\<lambda>(bs, ba1). Inr (of_bytes bs, ba1))"

definition read_fixed :: "byte_array \<Rightarrow> ('a::len word \<times> byte_array) res" where
  "read_fixed ba =
     bindE (read_buf (LENGTH('a) div 8) ba) (\<lambda>(bs, ba1).
     Inr (to_pool_order ba1 (of_bytes bs), ba1))"

section \<open>Zigzag\<close>

definition EncodeZigzag :: "'a::len word \<Rightarrow> 'a word" where
  "EncodeZigzag v = (if v <s 0 then (- v) * 2 - 1 else v * 2)"

definition DecodeZigzag :: "'a::len word \<Rightarrow> 'a word" where
  "DecodeZigzag v = drop_bit 1 v XOR (- (v AND 1))"

section \<open>Integers of variable length\<close>

lemma unat_drop_bit_div: "unat (drop_bit n v) = unat v div 2 ^ n"
  unfolding unat_drop_bit_eq by (rule drop_bit_eq_div)

function varint :: "'a::len word \<Rightarrow> byte list" where
  "varint value =
     (if 128 \<le> unat value
      then (ucast (value AND 0x7F) OR 0x80) # varint (drop_bit 7 value)
      else [ucast value])"
  by pat_completeness auto
termination
proof (relation "measure unat")
  fix v :: "'a word"
  assume "128 \<le> unat v"
  then have "unat v div 2 ^ 7 < unat v" by simp
  then have "unat (drop_bit 7 v) < unat v"
    by (simp only: unat_drop_bit_div)
  then show "(drop_bit 7 v, v) \<in> measure unat" by (simp only: in_measure)
qed simp

declare varint.simps [simp del]

definition writeUint :: "'a::len word \<Rightarrow> byte_array \<Rightarrow> byte_array res" where
  "writeUint value ba = write_buf (varint value) ba"

definition writeInt :: "'a::len word \<Rightarrow> byte_array \<Rightarrow> byte_array res" where
  "writeInt value ba = writeUint (EncodeZigzag value) ba"

function readUint_loop ::
  "nat \<Rightarrow> 'a::len word \<Rightarrow> byte_array \<Rightarrow> ('a word \<times> byte_array) res" where
  "readUint_loop i result ba =
     (if i < LENGTH('a) then
        bindE (readFuint8 ba) (\<lambda>(b, ba1).
          if b < 0x80 then Inr (result OR push_bit i (ucast b), ba1)
          else readUint_loop (i + 7) (result OR push_bit i (ucast (b AND 0x7F))) ba1)
      else Inr (result, ba))"
  by pat_completeness auto
termination
  by (relation "measure (\<lambda>(i, _ :: 'a word, _). LENGTH('a) - i)") auto

declare readUint_loop.simps [simp del]

definition readUint :: "byte_array \<Rightarrow> ('a::len word \<times> byte_array) res" where
  "readUint ba = readUint_loop 0 0 ba"

definition readInt :: "byte_array \<Rightarrow> ('a::len word \<times> byte_array) res" where
  "readInt ba = bindE (readUint ba) (\<lambda>(v, ba1). Inr (DecodeZigzag v, ba1))"

section \<open>Floating point, by bit pattern\<close>

definition writeFloat :: "32 word \<Rightarrow> byte_array \<Rightarrow> byte_array res" where
  "writeFloat bits ba = write_fixed bits ba"

definition writeDouble :: "64 word \<Rightarrow> byte_array \<Rightarrow> byte_array res" where
  "writeDouble bits ba = write_fixed bits ba"

definition readFloat :: "byte_array \<Rightarrow> (32 word \<times> byte_array) res" where
  "readFloat ba = read_fixed ba"

definition readDouble :: "byte_array \<Rightarrow> (64 word \<times> byte_array) res" where
  "readDouble ba = read_fixed ba"

section \<open>Strings\<close>

definition writeStringF :: "'a::len word \<Rightarrow> byte list \<Rightarrow> byte_array \<Rightarrow> byte_array res" where
  "writeStringF len value ba = bindE (write_fixed len ba) (write_buf value)"

definition writeStringF16 :: "byte list \<Rightarrow> byte_array \<Rightarrow> byte_array res" where
  "writeStringF16 value ba = writeStringF (word_of_nat (length value) :: 16 word) value ba"

definition writeStringF32 :: "byte list \<Rightarrow> byte_array \<Rightarrow> byte_array res" where
  "writeStringF32 value ba = writeStringF (word_of_nat (length value) :: 32 word) value ba"

definition writeStringF64 :: "byte list \<Rightarrow> byte_array \<Rightarrow> byte_array res" where
  "writeStringF64 value ba = writeStringF (word_of_nat (length value) :: 64 word) value ba"

definition writeStringVint :: "byte list \<Rightarrow> byte_array \<Rightarrow> byte_array res" where
  "writeStringVint value ba =
     bindE (writeUint (word_of_nat (length value) :: 64 word) ba) (write_buf value)"

definition writeStringWithoutLen :: "byte list \<Rightarrow> byte_array \<Rightarrow> byte_array res" where
  "writeStringWithoutLen value ba = write_buf value ba"

definition readStringF16 :: "byte_array \<Rightarrow> (byte list \<times> byte_array) res" where
  "readStringF16 ba =
     bindE (read_fixed ba) (\<lambda>(len, ba1). read_buf (unat (len :: 16 word)) ba1)"

definition readStringF32 :: "byte_array \<Rightarrow> (byte list \<times> byte_array) res" where
  "readStringF32 ba =
     bindE (read_fixed ba) (\<lambda>(len, ba1). read_buf (unat (len :: 32 word)) ba1)"

definition readStringF64 :: "byte_array \<Rightarrow> (byte list \<times> byte_array) res" where
  "readStringF64 ba =
     bindE (read_fixed ba) (\<lambda>(len, ba1). read_buf (unat (len :: 64 word)) ba1)"

definition readStringVint :: "byte_array \<Rightarrow> (byte list \<times> byte_array) res" where
  "readStringVint ba =
     bindE (readUint ba) (\<lambda>(len, ba1). read_buf (unat (len :: 64 word)) ba1)"

section \<open>Round trips of the encodings\<close>

lemma to_pool_order_twice:
  assumes "LENGTH('a::len) = 8 * n" and "m_endian ba1 = m_endian ba"
  shows "to_pool_order ba1 (to_pool_order ba v) = (v :: 'a word)"
  using assms by (simp add: to_pool_order_def byteswap_byteswap [OF assms(1)])

lemma sless_zero_iff_bit: "v <s 0 \<longleftrightarrow> bit (v :: 'a::len word) (LENGTH('a) - 1)"
  by (simp add: word_sless_alt bit_last_iff)

lemma bit_bound: "bit (v :: 'a::len word) k \<Longrightarrow> k < LENGTH('a)"
  by (rule bit_imp_le_length)

lemma zigzag_inverse: "DecodeZigzag (EncodeZigzag v) = (v :: 'a::len word)"
proof (cases "v <s 0")
  case False
  then have top: "\<not> bit v (LENGTH('a) - Suc 0)" by (simp add: sless_zero_iff_bit)
  have e: "EncodeZigzag v = push_bit 1 v" using False by (simp add: EncodeZigzag_def push_bit_eq_mult mult.commute)
  have a: "push_bit 1 v AND 1 = 0"
    by (rule bit_word_eqI) (simp only: bit_and_iff bit_push_bit_iff bit_1_iff, auto)
  have d: "DecodeZigzag (EncodeZigzag v) = drop_bit 1 (push_bit 1 v)"
    unfolding DecodeZigzag_def e a by (simp only: minus_zero xor.right_neutral)
  show ?thesis
  proof (rule bit_word_eqI)
    fix k assume "k < LENGTH('a)"
    then have "k = LENGTH('a) - Suc 0 \<or> Suc k < LENGTH('a)" by linarith
    then show "bit (DecodeZigzag (EncodeZigzag v)) k \<longleftrightarrow> bit v k"
      using top unfolding d bit_drop_bit_eq bit_push_bit_iff comp_apply by auto
  qed
next
  case True
  then have top: "bit v (LENGTH('a) - Suc 0)" by (simp add: sless_zero_iff_bit)
  have e: "EncodeZigzag v = NOT (push_bit 1 v)"
    using True by (simp add: EncodeZigzag_def push_bit_eq_mult not_eq_complement mult.commute)
  have a: "NOT (push_bit 1 v) AND 1 = 1"
    by (rule bit_word_eqI) (simp only: bit_and_iff bit_not_iff bit_push_bit_iff bit_1_iff, auto)
  have d: "DecodeZigzag (EncodeZigzag v) = drop_bit 1 (NOT (push_bit 1 v)) XOR - 1"
    unfolding DecodeZigzag_def e a by (rule refl)
  show ?thesis
  proof (rule bit_word_eqI)
    fix k assume k: "k < LENGTH('a)"
    then have "k = LENGTH('a) - Suc 0 \<or> Suc k < LENGTH('a)" by linarith
    then show "bit (DecodeZigzag (EncodeZigzag v)) k \<longleftrightarrow> bit v k"
      using top k
      unfolding d bit_xor_iff bit_minus_1_iff bit_drop_bit_eq bit_not_iff bit_push_bit_iff comp_apply
      by auto
  qed
qed

lemma varint_nonempty [simp]: "varint v \<noteq> []"
  by (subst varint.simps) simp

lemma length_varint:
  assumes "unat v < 2 ^ (7 * Suc k)"
  shows "length (varint v) \<le> Suc k"
  using assms
proof (induction k arbitrary: v)
  case 0
  then show ?case by (subst varint.simps) simp
next
  case (Suc k)
  have "unat (drop_bit 7 v) = unat v div 2 ^ 7"
    by (simp only: unat_drop_bit_div)
  also have "\<dots> < 2 ^ (7 * Suc k)"
  proof (rule less_mult_imp_div_less)
    have "(2::nat) ^ (7 * Suc (Suc k)) = 2 ^ (7 * Suc k) * 2 ^ 7" by (simp add: power_add)
    then show "unat v < 2 ^ (7 * Suc k) * 2 ^ 7" using Suc.prems by (simp only:)
  qed
  finally have "length (varint (drop_bit 7 v)) \<le> Suc k" by (rule Suc.IH)
  then show ?case by (subst varint.simps) simp
qed

lemma septet_mask: "(0x7F :: 'a::len word) = mask 7" by (simp add: mask_eq_exp_minus_1)

lemma bit_seven: "(0x80 :: 'a::len word) = push_bit 7 1" by (simp add: push_bit_eq_mult)

lemma byte_less_iff: "(b :: byte) < 0x80 \<longleftrightarrow> \<not> bit b 7"
proof -
  have u: "unat b < 256" using unsigned_less [of b] by simp
  have "bit b 7 \<longleftrightarrow> bit (unat b) 7" by (simp add: bit_unsigned_iff)
  also have "\<dots> \<longleftrightarrow> odd (unat b div 128)" by (simp add: bit_iff_odd)
  also have "\<dots> \<longleftrightarrow> 128 \<le> unat b"
    using u by (cases "128 \<le> unat b") (simp_all add: le_div_geq)
  finally show ?thesis by (simp add: word_less_nat_alt not_le)
qed

lemma septet_byte:
  fixes v :: "'a::len word"
  assumes "8 \<le> LENGTH('a)"
  shows "\<not> (ucast (v AND 0x7F) OR 0x80 :: byte) < 0x80"
    and "(ucast ((ucast (v AND 0x7F) OR 0x80 :: byte) AND 0x7F) :: 'a word) = v AND 0x7F"
proof -
  show "\<not> (ucast (v AND 0x7F) OR 0x80 :: byte) < 0x80"
    unfolding byte_less_iff by (simp add: bit_seven bit_simps del: push_bit_of_1)
  show "(ucast ((ucast (v AND 0x7F) OR 0x80 :: byte) AND 0x7F) :: 'a word) = v AND 0x7F"
    by (rule bit_word_eqI)
      (use assms in \<open>auto simp: septet_mask bit_seven bit_simps simp del: push_bit_of_1\<close>)
qed

lemma septet_split: "v AND 0x7F OR push_bit 7 (drop_bit 7 v) = (v :: 'a::len word)"
proof (rule bit_word_eqI)
  fix n assume "n < LENGTH('a)"
  then show "bit (v AND 0x7F OR push_bit 7 (drop_bit 7 v)) n \<longleftrightarrow> bit v n"
    by (cases "n < 7") (auto simp: septet_mask bit_simps)
qed

lemma small_byte:
  fixes v :: "'a::len word"
  assumes "unat v < 128" and "8 \<le> LENGTH('a)"
  shows "(ucast v :: byte) < 0x80" and "(ucast (ucast v :: byte) :: 'a word) = v"
proof -
  have "unat (ucast v :: byte) = unat v"
    using assms(1) by (simp add: unsigned_ucast_eq unsigned_take_bit_eq take_bit_nat_eq_self)
  then show "(ucast v :: byte) < 0x80" using assms(1) by (simp add: word_less_nat_alt)
  have "unat (ucast (ucast v :: byte) :: 'a word) = unat v"
    using \<open>unat (ucast v :: byte) = unat v\<close> assms(1)
    by (simp add: unsigned_ucast_eq unsigned_take_bit_eq take_bit_nat_eq_self)
  then show "(ucast (ucast v :: byte) :: 'a word) = v" by (rule unsigned_word_eqI)
qed

subsection \<open>Reading back\<close>

lemma readFuint8_standing:
  assumes "wf_pool ba" and "stands_at (m_position ba) [b] (contents ba)"
  obtains ba1 where "readFuint8 ba = Inr (b, ba1)" and "pool.moved ba 1 ba1"
proof -
  obtain ba1 where "read_buf (length [b]) ba = Inr ([b], ba1)" "pool.moved ba (length [b]) ba1"
    using pool.get_standing [OF assms(1) _ assms(2)] by blast
  then show ?thesis using that by (simp add: readFuint8_def)
qed

lemma readUint_loop_varint:
  fixes v res :: "'a::len word"
  assumes "wf_pool ba" and "8 \<le> LENGTH('a)" and "i + 7 * (length (varint v) - 1) < LENGTH('a)"
    and "stands_at (m_position ba) (varint v) (contents ba)"
  shows "\<exists>ba1. readUint_loop i res ba = Inr (res OR push_bit i v, ba1)
           \<and> pool.moved ba (length (varint v)) ba1"
  using assms
proof (induction v arbitrary: i res ba rule: varint.induct)
  case (1 v)
  show ?case
  proof (cases "128 \<le> unat v")
    case False
    then have vs: "varint v = [ucast v]" by (simp add: varint.simps)
    obtain ba1 where r: "readFuint8 ba = Inr (ucast v, ba1)" "pool.moved ba 1 ba1"
      using readFuint8_standing [OF "1.prems"(1)] "1.prems"(4) unfolding vs by blast
    have "(ucast v :: byte) < 0x80" "(ucast (ucast v :: byte) :: 'a word) = v"
      using small_byte [of v] False "1.prems"(2) by (simp_all add: not_le)
    then show ?thesis
      using r "1.prems"(3) by (subst readUint_loop.simps) (simp add: vs)
  next
    case True
    let ?b = "ucast (v AND 0x7F) OR 0x80 :: byte" and ?v = "drop_bit 7 v"
    have vs: "varint v = ?b # varint ?v" using True by (subst varint.simps) simp
    obtain ba1 where r: "readFuint8 ba = Inr (?b, ba1)" and m: "pool.moved ba 1 ba1"
    proof (rule readFuint8_standing [OF "1.prems"(1)])
      show "stands_at (m_position ba) [?b] (contents ba)"
        using "1.prems"(4) stands_at_append [of _ "[?b]" "varint ?v"] by (simp add: vs)
    qed
    have i: "i + 7 + 7 * (length (varint ?v) - 1) < LENGTH('a)"
      using "1.prems"(3) by (cases "varint ?v") (simp_all add: vs)
    have "wf_pool ba1" "stands_at (m_position ba1) (varint ?v) (contents ba1)"
      using "1.prems"(4) m stands_at_append [of _ "[?b]" "varint ?v"] by (simp_all add: vs pool.moved_def)
    then obtain ba2 where
        "readUint_loop (i + 7) (res OR push_bit i (v AND 0x7F)) ba1 =
           Inr ((res OR push_bit i (v AND 0x7F)) OR push_bit (i + 7) ?v, ba2)"
        "pool.moved ba1 (length (varint ?v)) ba2"
      using "1.IH" [OF True _ "1.prems"(2) i] by blast
    moreover have "push_bit i (v AND 0x7F) OR push_bit (i + 7) ?v = push_bit i v"
      using arg_cong [OF septet_split [of v], of "push_bit i"] by (simp add: push_bit_or)
    ultimately show ?thesis
      using r septet_byte [OF "1.prems"(2), of v] i m pool.moved_trans [OF m]
      by (subst readUint_loop.simps) (simp add: vs or.assoc)
  qed
qed

lemma readUint_varint:
  fixes v :: "'a::len word"
  assumes "wf_pool ba" and "8 \<le> LENGTH('a)" and "stands_at (m_position ba) (varint v) (contents ba)"
  shows "\<exists>ba1. readUint ba = Inr (v, ba1) \<and> pool.moved ba (length (varint v)) ba1"
proof -
  let ?k = "(LENGTH('a) - 1) div 7"
  have "LENGTH('a) \<le> 7 * Suc ?k" by presburger
  then have "(2::nat) ^ LENGTH('a) \<le> 2 ^ (7 * Suc ?k)" by (rule power_increasing) simp
  then have "length (varint v) \<le> Suc ?k"
    using unsigned_less [of v] by (intro length_varint) (rule less_le_trans)
  moreover have "7 * ?k < LENGTH('a)" using assms(2) by presburger
  ultimately have "7 * (length (varint v) - 1) < LENGTH('a)" by linarith
  then show ?thesis
    using readUint_loop_varint [of ba 0 v 0] assms by (simp add: readUint_def)
qed

section \<open>The codecs of the pool\<close>

definition enc_fixed :: "endian \<Rightarrow> 'a::len word \<Rightarrow> byte list" where
  "enc_fixed e v = bytes_of (LENGTH('a) div 8) (if e \<noteq> KIT_BYTE_ORDER then byteswap v else v)"

definition byte_sized :: "'a::len word \<Rightarrow> bool" where
  "byte_sized v \<longleftrightarrow> 8 dvd LENGTH('a)"

definition wide_enough :: "'a::len word \<Rightarrow> bool" where
  "wide_enough v \<longleftrightarrow> 8 \<le> LENGTH('a)"

lemma write_fixed_enc: "write_fixed v ba = write_buf (enc_fixed (m_endian ba) v) ba"
  by (simp add: write_fixed_def enc_fixed_def to_pool_order_def)

lemma byte_sized_length: "byte_sized (v :: 'a::len word) \<Longrightarrow> LENGTH('a) = 8 * (LENGTH('a) div 8)"
  by (simp add: byte_sized_def)

lemma enc_fixed_nonempty: "byte_sized v \<Longrightarrow> enc_fixed e (v :: 'a::len word) \<noteq> []"
proof
  assume "byte_sized v" and "enc_fixed e v = []"
  then have "LENGTH('a) div 8 = 0" by (metis enc_fixed_def length_bytes_of list.size(3))
  then show False using byte_sized_length [OF \<open>byte_sized v\<close>] len_gt_0 [where 'a = 'a] by linarith
qed

lemma moved_iff:
  "pool.moved ba n ba1 \<longleftrightarrow> wf_pool ba1 \<and> m_position ba1 = m_position ba + n
     \<and> contents ba1 = contents ba \<and> m_endian ba1 = m_endian ba"
  by (simp add: pool.moved_def)

lemma read_fixed_standing:
  fixes v :: "'a::len word"
  assumes "wf_pool ba" and v: "byte_sized v"
    and st: "stands_at (m_position ba) (enc_fixed (m_endian ba) v) (contents ba)"
  shows "\<exists>ba1. read_fixed ba = Inr (v, ba1) \<and> pool.moved ba (length (enc_fixed (m_endian ba) v)) ba1"
proof -
  let ?bs = "enc_fixed (m_endian ba) v"
  obtain ba1 where r: "read_buf (length ?bs) ba = Inr (?bs, ba1)" and m: "pool.moved ba (length ?bs) ba1"
    by (rule pool.get_standing [OF assms(1) enc_fixed_nonempty [OF v] st])
  have len: "length ?bs = LENGTH('a) div 8" by (simp add: enc_fixed_def)
  have bs: "?bs = bytes_of (LENGTH('a) div 8) (to_pool_order ba v)"
    by (simp add: enc_fixed_def to_pool_order_def)
  have "(of_bytes ?bs :: 'a word) = to_pool_order ba v"
    unfolding bs using byte_sized_length [OF v] by (intro of_bytes_bytes_of) simp
  then have "to_pool_order ba1 (of_bytes ?bs) = v"
    using to_pool_order_twice [OF byte_sized_length [OF v], of ba1 ba v] m by (simp add: moved_iff)
  then show ?thesis using r m by (auto simp: read_fixed_def len)
qed

interpretation fixed: value_codec wf_pool contents m_position m_endian write_buf read_buf setPosition
  enc_fixed "read_fixed :: byte_array \<Rightarrow> ('a::len word \<times> byte_array) res" byte_sized
  using read_fixed_standing by unfold_locales (auto simp: enc_fixed_nonempty moved_iff)

interpretation uvar: value_codec wf_pool contents m_position m_endian write_buf read_buf setPosition
  "\<lambda>_. varint" "readUint :: byte_array \<Rightarrow> ('a::len word \<times> byte_array) res" wide_enough
  using readUint_varint by unfold_locales (auto simp: wide_enough_def moved_iff)

interpretation ivar: value_codec wf_pool contents m_position m_endian write_buf read_buf setPosition
  "\<lambda>_ v. varint (EncodeZigzag v)" "readInt :: byte_array \<Rightarrow> ('a::len word \<times> byte_array) res" wide_enough
proof unfold_locales
  fix ba and v :: "'a word"
  assume "wf_pool ba" "wide_enough v" "stands_at (m_position ba) (varint (EncodeZigzag v)) (contents ba)"
  then obtain ba1 where "readUint ba = Inr (EncodeZigzag v, ba1)" "pool.moved ba (length (varint (EncodeZigzag v))) ba1"
    using readUint_varint [of ba "EncodeZigzag v"] by (auto simp: wide_enough_def)
  then show "\<exists>ba1. readInt ba = Inr (v, ba1) \<and> wf_pool ba1
      \<and> m_position ba1 = m_position ba + length (varint (EncodeZigzag v))
      \<and> contents ba1 = contents ba \<and> m_endian ba1 = m_endian ba"
    by (simp add: readInt_def zigzag_inverse moved_iff)
qed simp

interpretation str16: length_prefixed wf_pool contents m_position m_endian write_buf read_buf setPosition
  enc_fixed read_fixed byte_sized "word_of_nat :: nat \<Rightarrow> 16 word" unat "2 ^ 16"
  by unfold_locales (simp_all add: byte_sized_def unat_of_nat)

interpretation str32: length_prefixed wf_pool contents m_position m_endian write_buf read_buf setPosition
  enc_fixed read_fixed byte_sized "word_of_nat :: nat \<Rightarrow> 32 word" unat "2 ^ 32"
  by unfold_locales (simp_all add: byte_sized_def unat_of_nat)

interpretation str64: length_prefixed wf_pool contents m_position m_endian write_buf read_buf setPosition
  enc_fixed read_fixed byte_sized "word_of_nat :: nat \<Rightarrow> 64 word" unat "2 ^ 64"
  by unfold_locales (simp_all add: byte_sized_def unat_of_nat)

interpretation strV: length_prefixed wf_pool contents m_position m_endian write_buf read_buf setPosition
  "\<lambda>_. varint" readUint wide_enough "word_of_nat :: nat \<Rightarrow> 64 word" unat "2 ^ 64"
  by unfold_locales (simp_all add: wide_enough_def unat_of_nat)

end
