(* ===== verification/Byte_Buffers.thy ===== *)
theory Byte_Buffers
  imports Byte_Array
begin

text \<open>
  The bulk operations of \<open>bytearray.cpp\<close>: the scatter and gather buffers handed
  to \<open>readv\<close> and \<open>writev\<close>, the hexadecimal dump and the transfer to and from a
  file. An \<open>iovec\<close> points into a block: it is the index of the block, the offset
  and the length.
\<close>

section \<open>Scatter and gather\<close>

record iovec =
  iov_node :: nat
  iov_base :: nat
  iov_len :: nat

function read_iov_loop ::
  "nat \<Rightarrow> nat \<Rightarrow> nat \<Rightarrow> nat \<Rightarrow> byte_array \<Rightarrow> iovec list \<Rightarrow> iovec list res" where
  "read_iov_loop cur npos ncap len ba buffers =
     (if len = 0 then Inr buffers
      else if length (m_root ba) \<le> cur then Inl Null_deref
      else if ncap > len then
        Inr (buffers @ [\<lparr>iov_node = cur, iov_base = npos, iov_len = len\<rparr>])
      else bindE (node_size (Suc cur) ba) (\<lambda>ncap'.
        read_iov_loop (Suc cur) 0 ncap' (len - ncap) ba
          (buffers @ [\<lparr>iov_node = cur, iov_base = npos, iov_len = ncap\<rparr>])))"
  by pat_completeness auto
termination
  by (relation "measure (\<lambda>(cur, _, _, _, ba, _). length (m_root ba) - cur)") auto

declare read_iov_loop.simps [simp del]

definition getReadBuf :: "nat \<Rightarrow> byte_array \<Rightarrow> (nat \<times> iovec list) res" where
  "getReadBuf len ba =
     (let len' = (if len > getReadSize ba then getReadSize ba else len) in
      if len' = 0 then Inr (0, [])
      else
        bindE (node_pos (m_position ba) ba) (\<lambda>npos.
        bindE (node_size (m_cur ba) ba) (\<lambda>nsz.
        bindE (read_iov_loop (m_cur ba) npos (nsz - npos) len' ba []) (\<lambda>buffers.
        Inr (len', buffers)))))"

definition getReadBuf_at :: "nat \<Rightarrow> nat \<Rightarrow> byte_array \<Rightarrow> (nat \<times> iovec list) res" where
  "getReadBuf_at len position ba =
     (let len' = (if len > getReadSize ba then getReadSize ba else len) in
      if len' = 0 then Inr (0, [])
      else
        bindE (node_pos position ba) (\<lambda>npos.
        bindE (node_size (position div m_baseSize ba) ba) (\<lambda>nsz.
        bindE (read_iov_loop (position div m_baseSize ba) npos (nsz - npos) len' ba []) (\<lambda>buffers.
        Inr (len', buffers)))))"

function write_iov_loop ::
  "nat \<Rightarrow> nat \<Rightarrow> nat \<Rightarrow> nat \<Rightarrow> byte_array \<Rightarrow> iovec list \<Rightarrow> iovec list res" where
  "write_iov_loop cur npos ncap len ba buffers =
     (if len = 0 then Inr buffers
      else if length (m_root ba) \<le> cur then Inl Null_deref
      else if ncap \<ge> len then
        Inr (buffers @ [\<lparr>iov_node = cur, iov_base = npos, iov_len = len\<rparr>])
      else bindE (node_size (Suc cur) ba) (\<lambda>ncap'.
        write_iov_loop (Suc cur) 0 ncap' (len - ncap) ba
          (buffers @ [\<lparr>iov_node = cur, iov_base = npos, iov_len = ncap\<rparr>])))"
  by pat_completeness auto
termination
  by (relation "measure (\<lambda>(cur, _, _, _, ba, _). length (m_root ba) - cur)") auto

declare write_iov_loop.simps [simp del]

definition getWriteBuf :: "nat \<Rightarrow> byte_array \<Rightarrow> (nat \<times> iovec list \<times> byte_array) res" where
  "getWriteBuf len ba =
     (if len = 0 then Inr (0, [], ba)
      else
        let ba1 = addCapacity len ba in
        bindE (node_pos (m_position ba1) ba1) (\<lambda>npos.
        bindE (node_size (m_cur ba1) ba1) (\<lambda>nsz.
        bindE (write_iov_loop (m_cur ba1) npos (nsz - npos) len ba1 []) (\<lambda>buffers.
        Inr (len, buffers, ba1)))))"

text \<open>What a gathering system call sees through the buffers.\<close>

definition gather :: "byte_array \<Rightarrow> iovec list \<Rightarrow> byte list" where
  "gather ba vs = concat (map (\<lambda>v. memcpy_from (iov_node v) (iov_base v) (iov_len v) ba) vs)"

lemma gather_append [simp]: "gather ba (vs @ ws) = gather ba vs @ gather ba ws"
  by (simp add: gather_def)

lemma gather_Nil [simp]: "gather ba [] = []"
  by (simp add: gather_def)

lemma gather_one [simp]:
  "gather ba [\<lparr>iov_node = k, iov_base = p, iov_len = n\<rparr>] = memcpy_from k p n ba"
  by (simp add: gather_def)

text \<open>
  The read loop compares with \<open>>\<close>: it also steps to the next block when the
  request ends with the current one, and that needs a block to step to.
\<close>

lemma block_at:
  assumes "blocks_of b ba" and "0 < (b::nat)" and "k < length (m_root ba)"
  shows "node_size k ba = Inr b"
  using assms by (simp add: node_size_def blocks_of_def)

lemma read_iov_loop_correct:
  assumes "blocks_of b ba" and "0 < b" and "p + n \<le> b * length (m_root ba)"
  shows "case read_iov_loop (p div b) (p mod b) (b - p mod b) n ba acc of
           Inr vs \<Rightarrow> gather ba vs = gather ba acc @ take n (drop p (memory ba))
             \<and> (n = 0 \<or> p + n < b * length (m_root ba))
         | Inl e \<Rightarrow> e = Null_deref \<and> n \<noteq> 0 \<and> p + n = b * length (m_root ba)"
  using assms(3)
proof (induction "length (m_root ba) - p div b" arbitrary: p n acc rule: less_induct)
  case less
  let ?k = "p div b" and ?ncap = "b - p mod b"
  have np: "p mod b < b" "?k * b + p mod b = p" using assms(2) by simp_all
  consider "n = 0" | "n \<noteq> 0" "n < ?ncap" | "n \<noteq> 0" "?ncap \<le> n" by linarith
  then show ?case
  proof cases
    case 1
    then show ?thesis by (simp add: read_iov_loop.simps)
  next
    case 2
    then have k: "?k < length (m_root ba)" using cur_in_range [OF assms(2) _ less.prems] by simp
    have "p mod b + n < b" using 2 by linarith
    moreover have "Suc ?k * b \<le> b * length (m_root ba)"
      using k by (metis Suc_leI mult.commute mult_le_mono2)
    ultimately have "p + n < b * length (m_root ba)" using np(2) unfolding mult_Suc by linarith
    then show ?thesis
      using 2 k memcpy_from_memory [OF assms(1) k, of "p mod b" n] np
      by (simp add: read_iov_loop.simps)
  next
    case 3
    have k: "?k < length (m_root ba)"
      using cur_in_range [OF assms(2) _ less.prems] 3 by simp
    have next_p: "p + ?ncap = Suc ?k * b" unfolding mult_Suc using np by linarith
    then have q: "(p + ?ncap) div b = Suc ?k" "(p + ?ncap) mod b = 0"
      using assms(2) by simp_all
    let ?acc = "acc @ [\<lparr>iov_node = ?k, iov_base = p mod b, iov_len = ?ncap\<rparr>]"
    have here: "memcpy_from ?k (p mod b) ?ncap ba = take ?ncap (drop p (memory ba))"
      using memcpy_from_memory [OF assms(1) k, of "p mod b" ?ncap] np by simp
    show ?thesis
    proof (cases "Suc ?k < length (m_root ba)")
      case True
      have "read_iov_loop ?k (p mod b) ?ncap n ba acc = read_iov_loop (Suc ?k) 0 b (n - ?ncap) ba ?acc"
        using 3 k block_at [OF assms(1,2) True] by (subst read_iov_loop.simps) simp
      moreover have "case read_iov_loop (Suc ?k) 0 b (n - ?ncap) ba ?acc of
           Inr vs \<Rightarrow> gather ba vs = gather ba ?acc @ take (n - ?ncap) (drop (p + ?ncap) (memory ba))
             \<and> (n - ?ncap = 0 \<or> p + ?ncap + (n - ?ncap) < b * length (m_root ba))
         | Inl e \<Rightarrow> e = Null_deref \<and> n - ?ncap \<noteq> 0 \<and> p + ?ncap + (n - ?ncap) = b * length (m_root ba)"
        using less.hyps [of "p + ?ncap" "n - ?ncap" ?acc] less.prems 3 k unfolding q diff_zero by simp
      moreover have "Suc ?k * b < b * length (m_root ba)"
        using True assms(2) by (simp only: mult.commute [of b] mult_less_cancel2)
      ultimately show ?thesis
        using 3 next_p here take_drop_split [of ?ncap n p "memory ba"]
        by (auto split: sum.splits)
    next
      case False
      then have "length (m_root ba) = Suc ?k" using k by simp
      then have "p + n = b * length (m_root ba)" using less.prems 3 next_p by (simp add: mult.commute)
      moreover have "read_iov_loop ?k (p mod b) ?ncap n ba acc = Inl Null_deref"
        using 3 k False by (subst read_iov_loop.simps) (simp add: node_size_def)
      ultimately show ?thesis using 3 by simp
    qed
  qed
qed

lemma write_iov_loop_correct:
  assumes "blocks_of b ba" and "0 < b" and "p + n \<le> b * length (m_root ba)"
  shows "\<exists>vs. write_iov_loop (p div b) (p mod b) (b - p mod b) n ba acc = Inr vs
           \<and> gather ba vs = gather ba acc @ take n (drop p (memory ba))
           \<and> sum_list (map iov_len vs) = sum_list (map iov_len acc) + n"
  using assms(3)
proof (induction "length (m_root ba) - p div b" arbitrary: p n acc rule: less_induct)
  case less
  let ?k = "p div b" and ?ncap = "b - p mod b"
  have np: "p mod b < b" "?k * b + p mod b = p" using assms(2) by simp_all
  consider "n = 0" | "n \<noteq> 0" "n \<le> ?ncap" | "?ncap < n" by linarith
  then show ?case
  proof cases
    case 1
    then show ?thesis by (simp add: write_iov_loop.simps)
  next
    case 2
    then have k: "?k < length (m_root ba)" using cur_in_range [OF assms(2) _ less.prems] by simp
    have "p mod b + n \<le> b" using 2 np by linarith
    then show ?thesis
      using 2 k memcpy_from_memory [OF assms(1) k, of "p mod b" n] np
      by (simp add: write_iov_loop.simps)
  next
    case 3
    note nb = next_block [OF assms(2) less.prems 3]
    let ?acc = "acc @ [\<lparr>iov_node = ?k, iov_base = p mod b, iov_len = ?ncap\<rparr>]"
    have q: "(p + ?ncap) div b = Suc ?k" "(p + ?ncap) mod b = 0"
      unfolding nb(2) using assms(2) by simp_all
    have step: "write_iov_loop ?k (p mod b) ?ncap n ba acc = write_iov_loop (Suc ?k) 0 b (n - ?ncap) ba ?acc"
      using 3 nb(1) block_at [OF assms(1,2) nb(1)] by (subst write_iov_loop.simps) simp
    have "memcpy_from ?k (p mod b) ?ncap ba = take ?ncap (drop p (memory ba))"
      using memcpy_from_memory [OF assms(1), of ?k "p mod b" ?ncap] np nb(1) by simp
    then show ?thesis
      using less.hyps [of "p + ?ncap" "n - ?ncap" ?acc] less.prems 3 nb(1)
        take_drop_split [of ?ncap n p "memory ba"]
      unfolding q diff_zero step by auto
  qed
qed

lemma getReadBuf_cases:
  fixes len :: nat
  assumes wf: "wf_pool ba"
  defines "n \<equiv> min len (getReadSize ba)"
  shows "n \<noteq> 0 \<Longrightarrow> m_position ba + n = m_capacity ba \<Longrightarrow> getReadBuf len ba = Inl Null_deref"
    and "m_position ba + n < m_capacity ba \<Longrightarrow>
      \<exists>vs. getReadBuf len ba = Inr (n, vs) \<and> gather ba vs = take n (drop (m_position ba) (contents ba))"
proof -
  let ?b = "m_baseSize ba" and ?p = "m_position ba"
  have le: "?p + n \<le> m_size ba" using wf_position [OF wf] by (simp add: n_def getReadSize_def)
  have room: "?p + n \<le> ?b * length (m_root ba)" and cap: "m_capacity ba = ?b * length (m_root ba)"
    using le wf_size [OF wf] wf_capacity [OF wf] by simp_all
  have blk: "blocks_of ?b ba" using wf_blocks [OF wf] by (simp add: blocks_of_def)
  have n': "(if len > getReadSize ba then getReadSize ba else len) = n" by (simp add: n_def)
  have run: "getReadBuf len ba = bindE (read_iov_loop (?p div ?b) (?p mod ?b) (?b - ?p mod ?b) n ba [])
      (\<lambda>vs. Inr (n, vs))" if "n \<noteq> 0"
  proof -
    have "?p < m_capacity ba" using that room cap by linarith
    then show ?thesis
      using that cur_node_size [OF wf] wf_base [OF wf] wf_cur [OF wf]
      by (simp add: getReadBuf_def n' node_pos_def)
  qed
  note loop = read_iov_loop_correct [OF blk wf_base [OF wf] room, of "[]"]
  show "getReadBuf len ba = Inl Null_deref" if "n \<noteq> 0" "?p + n = m_capacity ba"
    using run [OF that(1)] loop that cap by (auto split: sum.splits)
  show "\<exists>vs. getReadBuf len ba = Inr (n, vs) \<and> gather ba vs = take n (drop ?p (contents ba))"
    if "?p + n < m_capacity ba"
  proof (cases "n = 0")
    case True
    then show ?thesis using n' by (simp add: getReadBuf_def)
  next
    case False
    then show ?thesis
      using run [OF False] loop that cap take_drop_contents [OF le] by (auto split: sum.splits)
  qed
qed

lemma getWriteBuf_correct:
  assumes wf: "wf_pool ba"
  shows "\<exists>vs ba1. getWriteBuf len ba = Inr (len, vs, ba1) \<and> wf_pool ba1
           \<and> contents ba1 = contents ba \<and> m_position ba1 = m_position ba
           \<and> gather ba1 vs = take len (drop (m_position ba) (memory ba1))
           \<and> sum_list (map iov_len vs) = len"
proof (cases "len = 0")
  case True
  then show ?thesis using wf by (simp add: getWriteBuf_def)
next
  case False
  let ?ba = "addCapacity len ba"
  let ?b = "m_baseSize ba" and ?p = "m_position ba"
  have wf1: "wf_pool ?ba" by (rule addCapacity_wf [OF wf])
  have enough: "?p + len \<le> m_capacity ?ba" by (rule addCapacity_enough [OF wf])
  then have room: "?p + len \<le> ?b * length (m_root ?ba)" using wf_capacity [OF wf1] by simp
  have "blocks_of ?b ?ba" using wf_blocks [OF wf1] by (simp add: blocks_of_def)
  from write_iov_loop_correct [OF this wf_base [OF wf] room, of "[]"] obtain vs where
    vs: "write_iov_loop (?p div ?b) (?p mod ?b) (?b - ?p mod ?b) len ?ba [] = Inr vs"
      "gather ?ba vs = take len (drop ?p (memory ?ba))" "sum_list (map iov_len vs) = len"
    by auto
  have "m_position ?ba < m_capacity ?ba" using enough False by simp
  then have "node_size (m_cur ?ba) ?ba = Inr ?b" using cur_node_size [OF wf1] by simp
  then have "getWriteBuf len ba = Inr (len, vs, ?ba)"
    using False vs(1) wf_base [OF wf] wf_cur [OF wf1] by (simp add: getWriteBuf_def node_pos_def)
  then show ?thesis using wf wf1 vs by simp
qed

section \<open>Files\<close>

text \<open>
  \<open>writeToFile\<close> as the bytes that reach the file (the file opened). The length of
  a transfer is an \<open>int64_t\<close> that may be negative, and a negative count is undefined.
  One that runs past the block reads memory the block does not own.
\<close>

function file_out_loop :: "int \<Rightarrow> int \<Rightarrow> nat \<Rightarrow> byte_array \<Rightarrow> byte list \<Rightarrow> byte list res" where
  "file_out_loop remain_size pos cur ba out =
     (if remain_size \<le> 0 then Inr out
      else if m_baseSize ba = 0 then Inl Div_by_zero
      else if length (m_root ba) \<le> cur then Inl Null_deref
      else
        let diff = pos mod int (m_baseSize ba);
            len = (if remain_size > int (m_baseSize ba) then int (m_baseSize ba) else remain_size) - diff
        in if len < 0 then Inl Undefined
           else if diff + len > int (length (m_root ba ! cur)) then Inl Out_of_bounds
           else file_out_loop (remain_size - len) (pos + len) (Suc cur) ba
                  (out @ memcpy_from cur (nat diff) (nat len) ba))"
  by pat_completeness auto
termination
  by (relation "measure (\<lambda>(_, _, cur, ba, _). length (m_root ba) - cur)") auto

declare file_out_loop.simps [simp del]

definition writeToFile :: "byte_array \<Rightarrow> byte list res" where
  "writeToFile ba = file_out_loop (int (getReadSize ba)) (int (m_position ba)) (m_cur ba) ba []"

lemma file_out_loop_aligned:
  assumes "blocks_of b ba" and "0 < b" and "m_baseSize ba = b" and "k * b + n \<le> b * length (m_root ba)"
  shows "file_out_loop (int n) (int (k * b)) k ba out = Inr (out @ take n (drop (k * b) (memory ba)))"
  using assms(4)
proof (induction n arbitrary: k out rule: less_induct)
  case (less n)
  show ?case
  proof (cases "n = 0")
    case True
    then show ?thesis by (simp add: file_out_loop.simps)
  next
    case False
    let ?len = "min n b"
    have k: "k < length (m_root ba)" using cur_in_range [OF assms(2) _ less.prems] False assms(2) by simp
    then have "length (m_root ba ! k) = b" using assms(1) by (simp add: blocks_of_def)
    then have step: "file_out_loop (int n) (int (k * b)) k ba out =
        file_out_loop (int n - int ?len) (int (k * b) + int ?len) (Suc k) ba (out @ memcpy_from k 0 ?len ba)"
      using False k assms(2,3) by (subst file_out_loop.simps) (auto simp: Let_def min_def)
    have here: "memcpy_from k 0 ?len ba = take ?len (drop (k * b) (memory ba))"
      using memcpy_from_memory [OF assms(1) k, of 0 ?len] by simp
    show ?thesis
    proof (cases "n \<le> b")
      case True
      then show ?thesis using step here by (simp add: min_def file_out_loop.simps)
    next
      case more: False
      have "file_out_loop (int (n - b)) (int (Suc k * b)) (Suc k) ba (out @ memcpy_from k 0 b ba) =
          Inr ((out @ memcpy_from k 0 b ba) @ take (n - b) (drop (Suc k * b) (memory ba)))"
        using less.prems more assms(2) by (intro less.IH) auto
      then show ?thesis
        using step here more take_drop_split [of b n "k * b" "memory ba"]
        by (simp add: min_def of_nat_diff add.commute)
    qed
  qed
qed

lemma writeToFile_block_aligned:
  assumes wf: "wf_pool ba" and "m_baseSize ba dvd m_position ba"
  shows "writeToFile ba = Inr (drop (m_position ba) (contents ba))"
proof -
  let ?b = "m_baseSize ba" and ?k = "m_cur ba" and ?n = "getReadSize ba"
  have p: "m_position ba = ?k * ?b" using assms(2) wf_cur [OF wf] by simp
  have le: "m_position ba + ?n = m_size ba" using wf_position [OF wf] by (simp add: getReadSize_def)
  have "blocks_of ?b ba" "?k * ?b + ?n \<le> ?b * length (m_root ba)"
    using wf_blocks [OF wf] le wf_size [OF wf] wf_capacity [OF wf] p by (simp_all add: blocks_of_def)
  then have "writeToFile ba = Inr (take ?n (drop (m_position ba) (memory ba)))"
    using file_out_loop_aligned [OF _ wf_base [OF wf] refl, of ?k ?n "[]"] p by (simp add: writeToFile_def)
  then show ?thesis by (simp add: contents_def drop_take getReadSize_def)
qed

text \<open>
  \<open>readFromFile\<close> on the content of a file that opened. A pool with empty blocks
  never reaches the end of the file.
\<close>

function file_in_loop :: "byte list \<Rightarrow> byte_array \<Rightarrow> byte_array res" where
  "file_in_loop data ba =
     (if m_baseSize ba = 0 then Inl Diverges
      else bindE (write_buf (take (m_baseSize ba) data) ba) (\<lambda>ba1.
        if length data < m_baseSize ba then Inr ba1
        else file_in_loop (drop (m_baseSize ba) data) ba1))"
  by pat_completeness auto
termination
  by (relation "measure (\<lambda>(data, _). length data)") auto

declare file_in_loop.simps [simp del]

definition readFromFile :: "byte list \<Rightarrow> byte_array \<Rightarrow> byte_array res" where
  "readFromFile data ba = file_in_loop data ba"

lemma written_trans:
  assumes "wf_pool ba" and "written ba as ba1" and "written ba1 bs ba2"
  shows "written ba (as @ bs) ba2"
  using assms splice_at_splice_at [of "m_position ba" "contents ba" as bs]
  by (simp add: written_def wf_position)

lemma file_in_loop_written:
  assumes "wf_pool ba"
  shows "\<exists>ba1. file_in_loop data ba = Inr ba1 \<and> written ba data ba1"
  using assms
proof (induction "length data" arbitrary: data ba rule: less_induct)
  case less
  let ?b = "m_baseSize ba"
  have b: "0 < ?b" by (rule wf_base [OF less.prems])
  obtain ba1 where w: "write_buf (take ?b data) ba = Inr ba1" "written ba (take ?b data) ba1"
    using write_buf_written [OF less.prems] by blast
  show ?case
  proof (cases "length data < ?b")
    case True
    then show ?thesis using w b by (subst file_in_loop.simps) simp
  next
    case False
    then have shorter: "length (drop ?b data) < length data" using b by simp
    have "wf_pool ba1" using w(2) by (simp add: written_def)
    from less.hyps [OF shorter this]
    obtain ba2 where "file_in_loop (drop ?b data) ba1 = Inr ba2" "written ba1 (drop ?b data) ba2"
      by blast
    moreover from this have "written ba data ba2"
      using written_trans [OF less.prems w(2), of "drop ?b data" ba2] by simp
    ultimately show ?thesis
      using w b False by (subst file_in_loop.simps) simp
  qed
qed

section \<open>Hexadecimal text\<close>

definition hex_digit :: "nat \<Rightarrow> char" where
  "hex_digit n = ''0123456789abcdef'' ! n"

definition hex_byte :: "byte \<Rightarrow> string" where
  "hex_byte b = [hex_digit (unat b div 16), hex_digit (unat b mod 16), CHR '' '']"

fun hex_from :: "nat \<Rightarrow> byte list \<Rightarrow> string" where
  "hex_from i [] = []"
| "hex_from i (b # bs) =
     (if i > 0 \<and> i mod 32 = 0 then [CHR 0x0A] else []) @ hex_byte b @ hex_from (Suc i) bs"

definition toHexString :: "byte_array \<Rightarrow> string res" where
  "toHexString ba = bindE (toString ba) (\<lambda>s. Inr (hex_from 0 s))"

lemma toHexString_rest:
  "wf_pool ba \<Longrightarrow> toHexString ba = Inr (hex_from 0 (drop (m_position ba) (contents ba)))"
  by (simp add: toHexString_def toString_rest)

end
