(* ===== verification/Stream_Io.thy ===== *)
theory Stream_Io
  imports Byte_Buffers
begin

text \<open>
  \<open>stream.cpp\<close> and \<open>socket_stream.cpp\<close>: transfers of a fixed size on top of a
  transfer of at most a size. What the transfers of the underlying socket return is a
  script: so many bytes, the end of the stream, or an error.
\<close>

datatype 'a io_ret = Got "'a list" | Eof | Err

text \<open>The \<open>int\<close> the transfer returns, as \<open>size_t ret\<close> sees it.\<close>

fun ret_size :: "'a io_ret \<Rightarrow> 64 word" where
  "ret_size (Got bs) = word_of_nat (length bs)"
| "ret_size Eof = 0"
| "ret_size Err = -1"

text \<open>
  \<open>readFixSize\<close> and \<open>writeFixSize\<close> on a buffer: \<open>left\<close> and \<open>offset\<close> are \<open>size_t\<close>, and the
  chunks are recorded with the offset they are put at. \<open>ret <= 0\<close> on an unsigned is
  \<open>ret = 0\<close>. The run is over, stopped by a zero, or it still waits.
\<close>

datatype 'a fix_outcome =
    Complete "(64 word \<times> 'a list) list"
  | Ended "(64 word \<times> 'a list) list"
  | Waits "64 word" "64 word"

fun fix_loop ::
  "64 word \<Rightarrow> 64 word \<Rightarrow> (64 word \<times> 'a list) list \<Rightarrow> 'a io_ret list \<Rightarrow> 'a fix_outcome" where
  "fix_loop left offset out rets =
     (if left = 0 then Complete out
      else case rets of
        [] \<Rightarrow> Waits left offset
      | r # rs \<Rightarrow>
          let ret = ret_size r in
          if ret \<le> 0 then Ended out
          else fix_loop (left - ret) (offset + ret)
                 (case r of Got bs \<Rightarrow> out @ [(offset, bs)] | _ \<Rightarrow> out) rs)"

declare fix_loop.simps [simp del]

definition readFixSize :: "64 word \<Rightarrow> 'a io_ret list \<Rightarrow> 'a fix_outcome" where
  "readFixSize len rets = fix_loop len 0 [] rets"

definition writeFixSize :: "64 word \<Rightarrow> 'a io_ret list \<Rightarrow> 'a fix_outcome" where
  "writeFixSize len rets = fix_loop len 0 [] rets"

text \<open>The overloads on a memory pool have no offset: the pool keeps the position.\<close>

datatype ba_outcome = Ba_complete | Ba_ended | Ba_waits "64 word"

fun fix_loop_ba :: "64 word \<Rightarrow> 'a io_ret list \<Rightarrow> ba_outcome" where
  "fix_loop_ba left rets =
     (if left = 0 then Ba_complete
      else case rets of
        [] \<Rightarrow> Ba_waits left
      | r # rs \<Rightarrow> let ret = ret_size r in if ret \<le> 0 then Ba_ended else fix_loop_ba (left - ret) rs)"

declare fix_loop_ba.simps [simp del]

section \<open>Transfers without errors\<close>

text \<open>Chunks that are not empty and together no longer than asked for land one behind the other.\<close>

fun chunk_offsets :: "nat \<Rightarrow> 'a list list \<Rightarrow> (64 word \<times> 'a list) list" where
  "chunk_offsets off [] = []"
| "chunk_offsets off (c # cs) = (word_of_nat off, c) # chunk_offsets (off + length c) cs"

lemma fix_loop_chunks:
  assumes "left + off < 2 ^ 64" and "\<forall>c \<in> set cs. c \<noteq> []" and "length (concat cs) = left"
  shows "fix_loop (word_of_nat left) (word_of_nat off) out (map Got cs @ rest) = Complete (out @ chunk_offsets off cs)"
  using assms
proof (induction cs arbitrary: left off out)
  case Nil
  then show ?case by (simp add: fix_loop.simps)
next
  case (Cons c cs)
  let ?n = "length c"
  have n: "0 < ?n" "?n \<le> left" "left < 2 ^ 64" using Cons.prems by auto
  have u: "unat (word_of_nat left :: 64 word) = left" "unat (word_of_nat ?n :: 64 word) = ?n"
    using n by (simp_all add: unat_of_nat)
  have nz: "(word_of_nat left :: 64 word) \<noteq> 0" "\<not> (word_of_nat ?n :: 64 word) \<le> 0"
    using n u by (metis unat_0 not_gr_zero less_le_trans, metis unat_0 not_gr_zero word_le_0_iff)
  have l: "word_of_nat left - word_of_nat ?n = (word_of_nat (left - ?n) :: 64 word)"
    using n(2) by (simp add: of_nat_diff)
  have "fix_loop (word_of_nat left) (word_of_nat off) out (map Got (c # cs) @ rest) =
      fix_loop (word_of_nat (left - ?n)) (word_of_nat (off + ?n)) (out @ [(word_of_nat off, c)]) (map Got cs @ rest)"
    using nz by (subst fix_loop.simps) (simp add: Let_def l)
  also have "\<dots> = Complete (out @ (word_of_nat off, c) # chunk_offsets (off + ?n) cs)"
    using Cons.prems by (subst Cons.IH) auto
  finally show ?case by simp
qed

section \<open>Errors are not noticed\<close>

lemma fix_loop_errors:
  assumes "left \<noteq> 0" and "unat left + n < 2 ^ 64"
  shows "fix_loop left offset out (replicate n Err) = Waits (left + word_of_nat n) (offset - word_of_nat n)"
  using assms
proof (induction n arbitrary: left offset)
  case 0
  then show ?case by (simp add: fix_loop.simps)
next
  case (Suc n)
  have "unat (left + 1) = unat left + 1"
    using Suc.prems(2) by (subst unat_add_lem [THEN iffD1]) auto
  then have "left + 1 \<noteq> 0" "unat (left + 1) + n < 2 ^ 64" using Suc.prems(2) by auto
  then have "fix_loop (left + 1) (offset - 1) out (replicate n Err) =
      Waits (left + 1 + word_of_nat n) (offset - 1 - word_of_nat n)"
    by (rule Suc.IH)
  then show ?case
    using Suc.prems(1) by (subst fix_loop.simps) (simp add: Let_def algebra_simps)
qed

section \<open>The socket stream on a pool\<close>

text \<open>
  \<open>SocketStream::read\<close> into a pool: the buffers are filled, then the position is moved.
  \<open>fill\<close> is what the socket receives, at most \<open>len\<close> bytes.
\<close>

text \<open>What a scattering system call leaves in the pool: the bytes go to the buffers in turn.\<close>

fun scatter :: "byte list \<Rightarrow> iovec list \<Rightarrow> byte_array \<Rightarrow> byte_array" where
  "scatter bs [] ba = ba"
| "scatter bs (v # vs) ba =
     (if bs = [] then ba
      else scatter (drop (iov_len v) bs) vs
             (memcpy_to (iov_node v) (iov_base v) (take (iov_len v) bs) ba))"

definition stream_read ::
  "bool \<Rightarrow> nat \<Rightarrow> byte io_ret \<Rightarrow> byte_array \<Rightarrow> (int \<times> byte_array) res" where
  "stream_read connected len got ba =
     (if \<not> connected then Inr (-1, ba)
      else bindE (getWriteBuf len ba) (\<lambda>(_, iovs, ba1).
        if iovs = [] then Inl Out_of_bounds
        else case got of
          Got bs \<Rightarrow>
            let bs' = take len bs; ba2 = scatter bs' iovs ba1 in
            if bs' = [] then Inr (0, ba2)
            else bindE (setPosition (m_position ba2 + length bs') ba2) (\<lambda>ba3. Inr (int (length bs'), ba3))
        | Eof \<Rightarrow> Inr (0, ba1)
        | Err \<Rightarrow> Inr (-1, ba1)))"

text \<open>\<open>SocketStream::write\<close> from a pool: \<open>sent\<close> bytes of what the buffers show are accepted, or an error.\<close>

definition stream_write ::
  "bool \<Rightarrow> nat \<Rightarrow> nat option \<Rightarrow> byte_array \<Rightarrow> (int \<times> byte list \<times> byte_array) res" where
  "stream_write connected len sent ba =
     (if \<not> connected then Inr (-1, [], ba)
      else bindE (getReadBuf len ba) (\<lambda>(_, iovs).
        if iovs = [] then Inl Out_of_bounds
        else case sent of
          None \<Rightarrow> Inr (-1, [], ba)
        | Some n \<Rightarrow>
            let out = take n (gather ba iovs) in
            if out = [] then Inr (0, [], ba)
            else bindE (setPosition (m_position ba + length out) ba) (\<lambda>ba1. Inr (int (length out), out, ba1))))"

lemma stream_write_sends:
  assumes wf: "wf_pool ba" and n: "0 < len" "len < getReadSize ba" and sent: "0 < k" "k \<le> len"
  shows "\<exists>ba1. stream_write True len (Some k) ba
             = Inr (int k, take k (drop (m_position ba) (contents ba)), ba1)
           \<and> wf_pool ba1 \<and> m_position ba1 = m_position ba + k \<and> contents ba1 = contents ba"
proof -
  have le: "m_position ba + len < m_size ba" using n by (simp add: getReadSize_def)
  then have "m_position ba + min len (getReadSize ba) < m_capacity ba"
    using wf_size [OF wf] n by linarith
  from getReadBuf_cases(2) [OF wf this] obtain vs where
    vs: "getReadBuf len ba = Inr (len, vs)" "gather ba vs = take len (drop (m_position ba) (contents ba))"
    using n(2) by auto
  let ?out = "take k (drop (m_position ba) (contents ba))"
  have out: "take k (gather ba vs) = ?out" "length ?out = k"
    using sent le wf by (simp_all add: vs(2))
  have "vs \<noteq> []" using vs(2) out sent by auto
  have p: "m_position ba + k < m_capacity ba" "max (m_size ba) (m_position ba + k) = m_size ba"
    using le sent wf_size [OF wf] by simp_all
  obtain ba1 where ba1: "setPosition (m_position ba + k) ba = Inr ba1" "wf_pool ba1"
      "m_position ba1 = m_position ba + k" "memory ba1 = memory ba" "m_size ba1 = m_size ba"
    by (rule setPosition_inside [OF wf p(1)]) (use p(2) in auto)
  have "stream_write True len (Some k) ba = Inr (int k, ?out, ba1)"
    using vs(1) \<open>vs \<noteq> []\<close> out ba1(1) sent unfolding stream_write_def Let_def by (auto simp: out)
  then show ?thesis using ba1 by (simp add: contents_def)
qed

end
