(* ===== verification/Byte_Properties.thy ===== *)
theory Byte_Properties
  imports Byte_Codec Stream_Io
begin

text \<open>
  What the memory pool, its codecs and the streams on it promise: the properties of
  \<open>bytearray.cpp\<close>, \<open>stream.cpp\<close> and \<open>socket_stream.cpp\<close>, from the lemmas of the
  component theories, each with a run on a small pool.
\<close>

unbundle bit_operations_syntax

text \<open>The pool the examples run on: blocks of four bytes.\<close>

abbreviation small_pool :: byte_array where
  "small_pool \<equiv> ByteArray (\<lambda>_. 0) 4"

lemma small_pool_wf: "wf_pool small_pool"
  by (simp add: ByteArray_wf)

lemma read_buf_at_end:
  assumes "wf_pool ba" and "m_position ba = m_capacity ba"
  shows "read_buf 0 ba = Inl Null_deref"
  using assms by (simp add: read_buf_def node_pos_def node_size_def wf_pool_def)

lemma string_codecs:
  "writeStringF16 bs ba = str16.put_string bs ba" "readStringF16 ba = str16.get_string ba"
  "writeStringF32 bs ba = str32.put_string bs ba" "readStringF32 ba = str32.get_string ba"
  "writeStringF64 bs ba = str64.put_string bs ba" "readStringF64 ba = str64.get_string ba"
  "writeStringVint bs ba = strV.put_string bs ba" "readStringVint ba = strV.get_string ba"
  by (simp_all add: str16.put_string_def str16.get_string_def str32.put_string_def str32.get_string_def
      str64.put_string_def str64.get_string_def strV.put_string_def strV.get_string_def
      writeStringF16_def readStringF16_def writeStringF32_def readStringF32_def writeStringF64_def
      readStringF64_def writeStringVint_def readStringVint_def writeStringF_def write_fixed_enc writeUint_def)

section \<open>Raw bytes\<close>

text \<open>
  C1: A write at the cursor of a well-formed pool never fails, whatever its length: it overwrites
  the content from the cursor on, grows the pool as needed, keeps it well formed and leaves the
  cursor behind the last byte.
\<close>

theorem write_buf_splices:
  assumes "wf_pool ba"
  shows "\<exists>ba'. write_buf buf ba = Inr ba' \<and> wf_pool ba' \<and> m_position ba' = m_position ba + length buf
           \<and> contents ba' = splice_at (m_position ba) buf (contents ba) \<and> m_endian ba' = m_endian ba"
  using write_buf_written [OF assms, of buf] by (auto simp: written_def)

theorem write_buf_splices_witness:
  "\<exists>ba'. write_buf [1, 2, 3, 4, 5] small_pool = Inr ba' \<and> wf_pool ba'
     \<and> m_position ba' = m_position small_pool + length [1, 2, 3, 4, 5 :: byte]
     \<and> contents ba' = splice_at (m_position small_pool) [1, 2, 3, 4, 5] (contents small_pool)
     \<and> m_endian ba' = m_endian small_pool"
  by (rule write_buf_splices [OF small_pool_wf])

text \<open>
  A read returns the bytes behind the cursor and moves it, and fails with \<open>out_of_range\<close>
  exactly when fewer bytes are left; only a read of no bytes with the cursor at the very end of
  the last block dereferences the null pointer.
\<close>

theorem read_buf_outcomes:
  assumes "wf_pool ba"
  shows "if getReadSize ba < n then read_buf n ba = Inl Out_of_range
         else if m_position ba = m_capacity ba then n = 0 \<and> read_buf n ba = Inl Null_deref
         else \<exists>ba'. read_buf n ba = Inr (take n (drop (m_position ba) (contents ba)), ba')
           \<and> wf_pool ba' \<and> m_position ba' = m_position ba + n \<and> contents ba' = contents ba"
proof -
  consider "getReadSize ba < n" | "n \<le> getReadSize ba" "m_position ba = m_capacity ba"
    | "n \<le> getReadSize ba" "m_position ba < m_capacity ba"
    using wf_position [OF assms] wf_size [OF assms] by linarith
  then show ?thesis
  proof cases
    case 1
    then show ?thesis by (simp add: read_buf_def)
  next
    case 2
    then show ?thesis using read_buf_at_end [OF assms] wf_size [OF assms] by (simp add: getReadSize_def)
  next
    case 3
    then show ?thesis using read_buf_advanced [OF assms 3] by (auto simp: advanced_def)
  qed
qed

theorem read_buf_outcomes_witness:
  "if getReadSize small_pool < 1 then read_buf 1 small_pool = Inl Out_of_range
   else if m_position small_pool = m_capacity small_pool then 1 = (0::nat) \<and> read_buf 1 small_pool = Inl Null_deref
   else \<exists>ba'. read_buf 1 small_pool = Inr (take 1 (drop (m_position small_pool) (contents small_pool)), ba')
     \<and> wf_pool ba' \<and> m_position ba' = m_position small_pool + 1 \<and> contents ba' = contents small_pool"
  by (rule read_buf_outcomes [OF small_pool_wf])

text \<open>
  Seeking inside the memory moves the cursor there, keeps the memory and extends the content
  up to the new position; seeking behind the memory throws; seeking to its very end, which the
  guard allows, runs off the list of blocks.
\<close>

theorem setPosition_outcomes:
  assumes "wf_pool ba"
  shows "if m_capacity ba < p then setPosition p ba = Inl Out_of_range
         else if p = m_capacity ba then setPosition p ba = Inl Null_deref
         else \<exists>ba'. setPosition p ba = Inr ba' \<and> wf_pool ba' \<and> m_position ba' = p
           \<and> memory ba' = memory ba \<and> m_size ba' = max (m_size ba) p"
proof -
  consider "m_capacity ba < p" | "p = m_capacity ba" | "p < m_capacity ba" by linarith
  then show ?thesis
  proof cases
    case 1
    then show ?thesis by (simp add: setPosition_def)
  next
    case 2
    then show ?thesis by (simp add: setPosition_end_null [OF assms])
  next
    case 3
    obtain ba' where "setPosition p ba = Inr ba'" "wf_pool ba'" "m_position ba' = p"
        "memory ba' = memory ba" "m_size ba' = max (m_size ba) p"
      by (rule setPosition_inside [OF assms 3])
    then show ?thesis using 3 by simp
  qed
qed

theorem setPosition_outcomes_witness:
  "if m_capacity small_pool < 4 then setPosition 4 small_pool = Inl Out_of_range
   else if 4 = m_capacity small_pool then setPosition 4 small_pool = Inl Null_deref
   else \<exists>ba'. setPosition 4 small_pool = Inr ba' \<and> wf_pool ba' \<and> m_position ba' = 4
     \<and> memory ba' = memory small_pool \<and> m_size ba' = max (m_size small_pool) 4"
  by (rule setPosition_outcomes [OF small_pool_wf])

section \<open>Values\<close>

text \<open>
  C2: An integer of any whole number of bytes written at the cursor, in either byte order of the
  pool, is read back unchanged after seeking to where it was written, and the reader stops where
  the writer did.
\<close>

theorem fixed_round_trip:
  fixes v :: "'a::len word"
  assumes "wf_pool ba" and "8 dvd LENGTH('a)"
  shows "\<exists>s1 s2 s3. write_fixed v ba = Inr s1 \<and> setPosition (m_position ba) s1 = Inr s2
           \<and> read_fixed s2 = Inr (v, s3) \<and> wf_pool s3 \<and> m_position s3 = m_position s1"
  using fixed.round_trip [OF assms(1), of v] assms(2) by (simp add: write_fixed_enc byte_sized_def)

theorem fixed_round_trip_witness:
  "\<exists>s1 s2 s3. write_fixed (0x01020304 :: 32 word) (setSmallEndian True small_pool) = Inr s1
     \<and> setPosition (m_position (setSmallEndian True small_pool)) s1 = Inr s2
     \<and> read_fixed s2 = Inr (0x01020304 :: 32 word, s3) \<and> wf_pool s3 \<and> m_position s3 = m_position s1"
  by (rule fixed_round_trip) (simp_all add: wf_pool_def setSmallEndian_def ByteArray_def new_node_def)

text \<open>
  C3: A signed integer written in zigzag and seven-bit groups is read back unchanged, and so is
  an unsigned one written in seven-bit groups.
\<close>

theorem varint_round_trip:
  fixes v :: "'a::len word"
  assumes "wf_pool ba" and "8 \<le> LENGTH('a)"
  shows "(\<exists>s1 s2 s3. writeInt v ba = Inr s1 \<and> setPosition (m_position ba) s1 = Inr s2
           \<and> readInt s2 = Inr (v, s3) \<and> wf_pool s3 \<and> m_position s3 = m_position s1)
       \<and> (\<exists>s1 s2 s3. writeUint v ba = Inr s1 \<and> setPosition (m_position ba) s1 = Inr s2
           \<and> readUint s2 = Inr (v, s3) \<and> wf_pool s3 \<and> m_position s3 = m_position s1)"
  using ivar.round_trip [OF assms(1), of v] uvar.round_trip [OF assms(1), of v] assms(2)
  by (simp add: writeInt_def writeUint_def wide_enough_def)

theorem varint_round_trip_witness:
  "(\<exists>s1 s2 s3. writeInt (-300 :: 32 word) small_pool = Inr s1
     \<and> setPosition (m_position small_pool) s1 = Inr s2
     \<and> readInt s2 = Inr (-300 :: 32 word, s3) \<and> wf_pool s3 \<and> m_position s3 = m_position s1)
   \<and> (\<exists>s1 s2 s3. writeUint (-300 :: 32 word) small_pool = Inr s1
     \<and> setPosition (m_position small_pool) s1 = Inr s2
     \<and> readUint s2 = Inr (-300 :: 32 word, s3) \<and> wf_pool s3 \<and> m_position s3 = m_position s1)"
  by (rule varint_round_trip [OF small_pool_wf]) simp

text \<open>
  The buffers of the encoders, five bytes for 32 bits and ten for 64, are large enough for
  every value, and a value below 128 takes one byte.
\<close>

theorem varint_fits:
  "length (varint (v :: 32 word)) \<le> 5 \<and> length (varint (w :: 64 word)) \<le> 10
   \<and> (unat v < 128 \<longleftrightarrow> length (varint v) = 1)"
proof -
  have v: "unat v < 2 ^ (7 * Suc 4)" by (rule less_le_trans [OF unsigned_less]) simp
  have w: "unat w < 2 ^ (7 * Suc 9)" by (rule less_le_trans [OF unsigned_less]) simp
  have "unat v < 128 \<longleftrightarrow> length (varint v) = 1"
    by (subst varint.simps) simp
  then show ?thesis using length_varint [OF v] length_varint [OF w] by simp
qed

text \<open>
  A non-empty string written behind its length, in two, four, eight or a variable number of
  bytes, is read back unchanged while its length fits the length field.
\<close>

theorem string_round_trips:
  assumes "wf_pool ba" and "value_bytes \<noteq> []" and "length value_bytes < 2 ^ 16"
  shows "\<forall>(wr, rd) \<in> {(writeStringF16, readStringF16), (writeStringF32, readStringF32),
                        (writeStringF64, readStringF64), (writeStringVint, readStringVint)}.
           \<exists>s1 s2 s3. wr value_bytes ba = Inr s1 \<and> setPosition (m_position ba) s1 = Inr s2
             \<and> rd s2 = Inr (value_bytes, s3) \<and> wf_pool s3 \<and> m_position s3 = m_position s1"
proof -
  note s = assms(1,2)
  have l: "length value_bytes < 2 ^ 32" "length value_bytes < 2 ^ 64" using assms(3) by simp_all
  show ?thesis
    using str16.string_round_trip [OF s assms(3)] str32.string_round_trip [OF s l(1)]
      str64.string_round_trip [OF s l(2)] strV.string_round_trip [OF s l(2)]
    by (simp add: string_codecs)
qed

theorem string_round_trips_witness:
  "\<exists>s1 s2 s3. writeStringVint [104, 105] small_pool = Inr s1 \<and> setPosition (m_position small_pool) s1 = Inr s2
     \<and> readStringVint s2 = Inr ([104, 105], s3) \<and> wf_pool s3 \<and> m_position s3 = m_position s1"
  using string_round_trips [OF small_pool_wf, of "[104, 105]"] by simp

section \<open>Buffers and files\<close>

text \<open>
  The buffers handed out for writing show exactly the bytes behind the cursor, capped at what
  there is, except that a request that ends with the last block steps to a block that is not there.
\<close>

theorem getReadBuf_outcomes:
  assumes "wf_pool ba"
  shows "if min len (getReadSize ba) \<noteq> 0 \<and> m_position ba + min len (getReadSize ba) = m_capacity ba
         then getReadBuf len ba = Inl Null_deref
         else \<exists>vs. getReadBuf len ba = Inr (min len (getReadSize ba), vs)
           \<and> gather ba vs = take len (drop (m_position ba) (contents ba))"
proof -
  let ?n = "min len (getReadSize ba)"
  have le: "m_position ba + ?n \<le> m_capacity ba"
    using wf_position [OF assms] wf_size [OF assms] by (simp add: getReadSize_def)
  have t: "take ?n (drop (m_position ba) (contents ba)) = take len (drop (m_position ba) (contents ba))"
    using assms by (simp add: min_def getReadSize_def)
  consider "?n \<noteq> 0" "m_position ba + ?n = m_capacity ba" | "m_position ba + ?n < m_capacity ba"
    | "?n = 0" using le by linarith
  then show ?thesis
  proof cases
    case 1
    then show ?thesis using getReadBuf_cases(1) [OF assms] by presburger
  next
    case 2
    then show ?thesis using getReadBuf_cases(2) [OF assms 2] t by auto
  next
    case 3
    then have "getReadBuf len ba = Inr (?n, [])" by (auto simp: getReadBuf_def Let_def min_def)
    then show ?thesis using 3 t by (auto simp: min_def split: if_splits)
  qed
qed

theorem getReadBuf_outcomes_witness:
  "if min 3 (getReadSize small_pool) \<noteq> 0 \<and> m_position small_pool + min 3 (getReadSize small_pool) = m_capacity small_pool
   then getReadBuf 3 small_pool = Inl Null_deref
   else \<exists>vs. getReadBuf 3 small_pool = Inr (min 3 (getReadSize small_pool), vs)
     \<and> gather small_pool vs = take 3 (drop (m_position small_pool) (contents small_pool))"
  by (rule getReadBuf_outcomes [OF small_pool_wf])

text \<open>
  A file written from a pool whose cursor stands at the start of a block, and read into any
  pool, puts the bytes behind the first cursor at the second one.
\<close>

theorem file_round_trip:
  assumes "wf_pool ba" and "m_baseSize ba dvd m_position ba" and "wf_pool target"
  shows "\<exists>data target'. writeToFile ba = Inr data \<and> readFromFile data target = Inr target'
           \<and> contents target' = splice_at (m_position target) (drop (m_position ba) (contents ba)) (contents target)"
  using writeToFile_block_aligned [OF assms(1,2)] file_in_loop_written [OF assms(3)]
  by (auto simp: readFromFile_def written_def)

theorem file_round_trip_witness:
  "\<exists>data target'. writeToFile small_pool = Inr data \<and> readFromFile data small_pool = Inr target'
     \<and> contents target' = splice_at (m_position small_pool) (drop (m_position small_pool) (contents small_pool)) (contents small_pool)"
  by (rule file_round_trip [OF small_pool_wf _ small_pool_wf]) (simp add: ByteArray_def)

text \<open>
  With the cursor inside a block the length of the first transfer is wrong: for a remainder no
  longer than a block the distance to the block start is subtracted from it, so six bytes from
  offset one of eight-byte blocks are written as five and the loop then leaves the list of blocks.
\<close>

theorem writeToFile_inside_block:
  "\<exists>ba1 ba2. write_buf [1, 2, 3, 4, 5, 6, 7] (ByteArray (\<lambda>_. 0) 8) = Inr ba1 \<and> setPosition 1 ba1 = Inr ba2
     \<and> writeToFile ba2 = Inl Null_deref"
  by (simp add: write_buf_def ByteArray_def addCapacity_def getRemainCapacity_def node_pos_def node_size_def
      write_loop.simps new_node_def memcpy_to_def splice_at_def setPosition_def writeToFile_def getReadSize_def
      file_out_loop.simps upt_rec)

section \<open>Transfers of a fixed size\<close>

text \<open>
  When the transfers deliver non-empty chunks that add up to the length asked for, a transfer
  of a fixed size is complete and every chunk lies behind the previous one.
\<close>

theorem readFixSize_completes:
  assumes "\<forall>c \<in> set cs. c \<noteq> []" and "length (concat cs) < 2 ^ 64"
  shows "readFixSize (word_of_nat (length (concat cs))) (map Got cs @ rest) = Complete (chunk_offsets 0 cs)"
  using fix_loop_chunks [of "length (concat cs)" 0 cs "[]" rest] assms by (simp add: readFixSize_def)

theorem readFixSize_completes_witness:
  "readFixSize (word_of_nat (length (concat [[1, 2], [3 :: byte]]))) (map Got [[1, 2], [3 :: byte]] @ [Eof])
     = Complete (chunk_offsets 0 [[1, 2], [3 :: byte]])"
  by (rule readFixSize_completes) simp_all

text \<open>
  An error of the transfer is not noticed, since the result is kept in an unsigned variable:
  after any number of errors the loop still waits, asks for one byte more for each and has moved
  the offset back before the buffer.
\<close>

theorem readFixSize_misses_errors:
  assumes "len \<noteq> 0" and "unat len + n < 2 ^ 64"
  shows "readFixSize len (replicate n Err) = Waits (len + word_of_nat n) (- word_of_nat n)"
  using fix_loop_errors [OF assms, of 0 "[]"] by (simp add: readFixSize_def)

theorem readFixSize_misses_errors_witness:
  "readFixSize 4 (replicate 3 Err) = Waits (4 + word_of_nat 3) (- word_of_nat 3)"
  by (rule readFixSize_misses_errors) simp_all

text \<open>
  Sending fewer bytes from a pool than it holds sends the bytes at the cursor and moves the
  cursor by what was accepted; the rest stays in the pool.
\<close>

theorem stream_write_consumes:
  assumes "wf_pool ba" and "0 < len" and "len < getReadSize ba" and "0 < k" and "k \<le> len"
  shows "\<exists>ba1. stream_write True len (Some k) ba
             = Inr (int k, take k (drop (m_position ba) (contents ba)), ba1)
           \<and> wf_pool ba1 \<and> m_position ba1 = m_position ba + k \<and> contents ba1 = contents ba"
  by (rule stream_write_sends [OF assms])

text \<open>A pool that holds three bytes with the cursor at the first.\<close>

abbreviation three_bytes :: byte_array where
  "three_bytes \<equiv> small_pool\<lparr>m_root := [[7, 8, 9, 0]], m_size := 3\<rparr>"

theorem stream_write_consumes_witness:
  "\<exists>ba1. stream_write True 2 (Some 1) three_bytes
       = Inr (int 1, take 1 (drop (m_position three_bytes) (contents three_bytes)), ba1)
     \<and> wf_pool ba1 \<and> m_position ba1 = m_position three_bytes + 1 \<and> contents ba1 = contents three_bytes"
  by (rule stream_write_consumes) (simp_all add: wf_pool_def ByteArray_def getReadSize_def)

end
