(* ===== verification/Coroutine.thy ===== *)
theory Coroutine
  imports Prelude
begin

text \<open>
  \<open>coroutine.h\<close> and \<open>coroutine.cpp\<close>: the coroutines of one thread. A coroutine is an
  address of \<open>th_cors\<close>. \<open>th_this\<close>, \<open>th_init\<close> and \<open>th_main\<close> are the thread-local
  \<open>cor_this\<close>, \<open>init_cor_sp\<close> and the scheduler's \<open>GetMainCor()\<close>; \<open>th_on_cpu\<close> is the
  context that really executes, which \<open>swapcontext\<close> changes. The calls to
  \<open>getcontext\<close> and \<open>swapcontext\<close> are taken to succeed. The stack is its size, and
  size 0 is the null stack of the coroutine a thread starts in.
\<close>

datatype State = INIT | HOLD | EXEC | TERM' | READY | EXCEPTION

type_synonym cor_addr = nat

record 'cb coroutine =
  c_id :: nat
  c_stack_size :: nat
  c_state :: State
  c_cb :: "'cb option"
  c_use_call :: bool

record 'cb co_thread =
  th_cors :: "cor_addr \<Rightarrow> 'cb coroutine"
  th_this :: "cor_addr option"
  th_init :: "cor_addr option"
  th_main :: "cor_addr option"
  th_on_cpu :: "cor_addr option"
  th_cor_id :: nat
  th_cor_sum :: nat

definition assert_that :: "bool \<Rightarrow> 'a res \<Rightarrow> 'a res" where
  "assert_that b r = (if b then r else Inl Assert_failed)"

lemma assert_that_simps [simp]: "assert_that True r = r" "assert_that False r = Inl Assert_failed"
  by (simp_all add: assert_that_def)

abbreviation state_of :: "'cb co_thread \<Rightarrow> cor_addr \<Rightarrow> State" where
  "state_of t c \<equiv> c_state (th_cors t c)"

definition put_cor :: "cor_addr \<Rightarrow> 'cb coroutine \<Rightarrow> 'cb co_thread \<Rightarrow> 'cb co_thread" where
  "put_cor c co t = t\<lparr>th_cors := (th_cors t)(c := co)\<rparr>"

definition setState :: "cor_addr \<Rightarrow> State \<Rightarrow> 'cb co_thread \<Rightarrow> 'cb co_thread" where
  "setState c s t = put_cor c ((th_cors t c)\<lparr>c_state := s\<rparr>) t"

definition SetThis :: "cor_addr option \<Rightarrow> 'cb co_thread \<Rightarrow> 'cb co_thread" where
  "SetThis c t = t\<lparr>th_this := c\<rparr>"

definition switch_to :: "cor_addr \<Rightarrow> 'cb co_thread \<Rightarrow> 'cb co_thread" where
  "switch_to c t = t\<lparr>th_on_cpu := Some c\<rparr>"

section \<open>Construction and destruction\<close>

text \<open>The private constructor adopts the context the thread runs in.\<close>

definition Coroutine_here :: "cor_addr \<Rightarrow> 'cb co_thread \<Rightarrow> 'cb co_thread" where
  "Coroutine_here p t =
     (SetThis (Some p)
       (put_cor p (\<lparr>c_id = 0, c_stack_size = 0, c_state = EXEC, c_cb = None, c_use_call = False\<rparr>) t))
     \<lparr>th_cor_sum := Suc (th_cor_sum t), th_on_cpu := Some p\<rparr>"

definition Coroutine_new ::
  "cor_addr \<Rightarrow> nat \<Rightarrow> 'cb option \<Rightarrow> nat \<Rightarrow> bool \<Rightarrow> 'cb co_thread \<Rightarrow> 'cb co_thread" where
  "Coroutine_new p default_size cb stack_size use_call t =
     (put_cor p (\<lparr>c_id = Suc (th_cor_id t),
                 c_stack_size = (if stack_size \<noteq> 0 then stack_size else default_size),
                 c_state = INIT, c_cb = cb, c_use_call = use_call\<rparr>) t)
     \<lparr>th_cor_id := Suc (th_cor_id t), th_cor_sum := Suc (th_cor_sum t)\<rparr>"

definition Coroutine_destroy :: "cor_addr \<Rightarrow> 'cb co_thread \<Rightarrow> 'cb co_thread res" where
  "Coroutine_destroy p t =
     (let t1 = t\<lparr>th_cor_sum := th_cor_sum t - 1\<rparr>; co = th_cors t p in
      if c_stack_size co \<noteq> 0 then
        assert_that (c_state co \<noteq> EXEC \<or> c_state co \<noteq> HOLD) (Inr t1)
      else
        assert_that (c_cb co = None)
          (assert_that (c_state co = EXEC)
            (Inr (if th_this t1 = Some p then SetThis None t1 else t1))))"

definition reset_cor :: "'cb option \<Rightarrow> cor_addr \<Rightarrow> 'cb co_thread \<Rightarrow> 'cb co_thread res" where
  "reset_cor cb p t =
     (let co = th_cors t p in
      assert_that (c_stack_size co \<noteq> 0)
        (assert_that (c_state co = INIT \<or> c_state co = TERM' \<or> c_state co = EXCEPTION)
          (Inr (put_cor p (co\<lparr>c_cb := cb, c_use_call := False, c_state := INIT\<rparr>) t))))"

section \<open>Switching\<close>

definition swapIn :: "cor_addr \<Rightarrow> 'cb co_thread \<Rightarrow> 'cb co_thread res" where
  "swapIn p t =
     (let t1 = SetThis (Some p) t in
      assert_that (state_of t1 p \<noteq> EXEC)
        (if th_main t1 = None then Inl Null_deref
         else Inr (switch_to p (setState p EXEC t1))))"

definition swapOut :: "cor_addr \<Rightarrow> 'cb co_thread \<Rightarrow> 'cb co_thread res" where
  "swapOut p t =
     (case th_main t of
        None \<Rightarrow> Inl Null_deref
      | Some m \<Rightarrow> Inr (switch_to m (SetThis (Some m) t)))"

definition call :: "cor_addr \<Rightarrow> 'cb co_thread \<Rightarrow> 'cb co_thread res" where
  "call p t =
     (let t1 = setState p EXEC (SetThis (Some p) t) in
      if th_init t1 = None then Inl Null_deref else Inr (switch_to p t1))"

definition swap_back :: "cor_addr \<Rightarrow> 'cb co_thread \<Rightarrow> 'cb co_thread res" where
  "swap_back p t =
     (case th_init t of
        None \<Rightarrow> Inl Null_deref
      | Some i \<Rightarrow> Inr (switch_to i (SetThis (Some i) t)))"

definition Init :: "cor_addr \<Rightarrow> 'cb co_thread \<Rightarrow> 'cb co_thread res" where
  "Init p t =
     (let t1 = Coroutine_here p t
      in assert_that (th_this t1 = Some p) (Inr (t1\<lparr>th_init := Some p\<rparr>)))"

text \<open>\<open>p\<close> is where the coroutine of the thread goes when there is none yet.\<close>

definition GetThis :: "cor_addr \<Rightarrow> 'cb co_thread \<Rightarrow> (cor_addr \<times> 'cb co_thread) res" where
  "GetThis p t =
     (case th_this t of
        Some c \<Rightarrow> Inr (c, t)
      | None \<Rightarrow> bindE (Init p t) (\<lambda>t1.
          case th_this t1 of Some c \<Rightarrow> Inr (c, t1) | None \<Rightarrow> Inl Null_deref))"

definition YieldToReady :: "cor_addr \<Rightarrow> 'cb co_thread \<Rightarrow> 'cb co_thread res" where
  "YieldToReady p t =
     bindE (GetThis p t) (\<lambda>(cur, t1).
       assert_that (state_of t1 cur = EXEC) (swapOut cur (setState cur READY t1)))"

definition YieldToHold :: "cor_addr \<Rightarrow> 'cb co_thread \<Rightarrow> 'cb co_thread res" where
  "YieldToHold p t =
     bindE (GetThis p t) (\<lambda>(cur, t1).
       assert_that (state_of t1 cur = EXEC) (swapOut cur t1))"

text \<open>
  \<open>MainFunc\<close> and \<open>CallMainFunc\<close> from the moment the callback is left, normally or by
  an exception: the first goes back to the scheduler, the second to the coroutine
  the thread started in.
\<close>

datatype ending = Returns | Throws

definition record_ending :: "ending \<Rightarrow> cor_addr \<Rightarrow> 'cb co_thread \<Rightarrow> 'cb co_thread" where
  "record_ending e cur t =
     (let co = th_cors t cur in
      case e of
        Returns \<Rightarrow> put_cor cur (co\<lparr>c_cb := None, c_state := TERM'\<rparr>) t
      | Throws \<Rightarrow> put_cor cur (co\<lparr>c_state := EXCEPTION\<rparr>) t)"

definition MainFunc_end :: "cor_addr \<Rightarrow> ending \<Rightarrow> 'cb co_thread \<Rightarrow> 'cb co_thread res" where
  "MainFunc_end p e t =
     bindE (GetThis p t) (\<lambda>(cur, t1). swapOut cur (record_ending e cur t1))"

definition CallMainFunc_end :: "cor_addr \<Rightarrow> ending \<Rightarrow> 'cb co_thread \<Rightarrow> 'cb co_thread res" where
  "CallMainFunc_end p e t =
     bindE (GetThis p t) (\<lambda>(cur, t1). swap_back cur (record_ending e cur t1))"

section \<open>The life of a coroutine\<close>

text \<open>The switches of a thread whose scheduler coroutine is \<open>th_main\<close>, as labelled steps.\<close>

datatype co_event =
    Swap_in cor_addr
  | Yield_ready
  | Yield_hold
  | Main_ends ending
  | Mark_hold cor_addr

text \<open>
  \<open>Swap_in\<close> and \<open>Mark_hold\<close> happen on the scheduler's coroutine, the others on a
  coroutine it started.
\<close>

fun co_step :: "co_event \<Rightarrow> 'cb co_thread \<Rightarrow> 'cb co_thread res" where
  "co_step (Swap_in c) t = swapIn c t"
| "co_step Yield_ready t = YieldToReady 0 t"
| "co_step Yield_hold t = YieldToHold 0 t"
| "co_step (Main_ends e) t = MainFunc_end 0 e t"
| "co_step (Mark_hold c) t = Inr (setState c HOLD t)"

fun co_enabled :: "co_event \<Rightarrow> 'cb co_thread \<Rightarrow> bool" where
  "co_enabled (Swap_in c) t \<longleftrightarrow> th_on_cpu t = th_main t \<and> th_main t \<noteq> Some c
     \<and> state_of t c \<in> {INIT, HOLD, READY}"
| "co_enabled (Mark_hold c) t \<longleftrightarrow> th_on_cpu t = th_main t \<and> th_main t \<noteq> Some c
     \<and> state_of t c = EXEC"
| "co_enabled _ t \<longleftrightarrow> th_on_cpu t \<noteq> th_main t"

inductive co_run :: "'cb co_thread \<Rightarrow> co_event list \<Rightarrow> 'cb co_thread \<Rightarrow> bool" where
  co_run_Nil: "co_run t [] t"
| co_run_Cons: "co_enabled e t \<Longrightarrow> co_step e t = Inr t1 \<Longrightarrow> co_run t1 es t2 \<Longrightarrow> co_run t (e # es) t2"

inductive_cases co_run_ConsE: "co_run t (e # es) t2"
inductive_simps co_run_Nil_iff [simp]: "co_run t [] t2"

text \<open>
  What is on the processor is what \<open>cor_this\<close> names, and it is running.
\<close>

definition wf_thread :: "'cb co_thread \<Rightarrow> bool" where
  "wf_thread t \<longleftrightarrow>
     th_this t = th_on_cpu t \<and> th_main t \<noteq> None
     \<and> (\<forall>m. th_main t = Some m \<longrightarrow> state_of t m = EXEC)
     \<and> (case th_on_cpu t of None \<Rightarrow> False | Some c \<Rightarrow> state_of t c = EXEC)"

lemmas co_defs =
  swapIn_def swapOut_def YieldToReady_def YieldToHold_def MainFunc_end_def GetThis_def
  record_ending_def setState_def put_cor_def SetThis_def switch_to_def Let_def

lemma co_step_wf:
  assumes "wf_thread t" and "co_enabled e t" and "co_step e t = Inr t1"
  shows "wf_thread t1" and "th_main t1 = th_main t"
  using assms
  by (cases e; auto simp: wf_thread_def co_defs assert_that_def split: option.splits if_splits ending.splits)+

text \<open>An enabled switch of a well-formed thread runs into no assertion.\<close>

lemma co_step_defined:
  assumes "wf_thread t" and "co_enabled e t"
  shows "\<exists>t1. co_step e t = Inr t1"
  using assms
  by (cases e; cases "th_main t"; cases "th_on_cpu t")
    (auto simp: wf_thread_def co_defs assert_that_def split: ending.split)

lemma co_run_wf: "co_run t es t1 \<Longrightarrow> wf_thread t \<Longrightarrow> wf_thread t1"
  by (induction rule: co_run.induct) (blast dest: co_step_wf(1))+

text \<open>The transitions of the state of one coroutine.\<close>

inductive life :: "State \<Rightarrow> State \<Rightarrow> bool" where
  stays: "life s s"
| starts: "s \<in> {INIT, HOLD, READY} \<Longrightarrow> life s EXEC"
| leaves: "s \<in> {READY, TERM', EXCEPTION, HOLD} \<Longrightarrow> life EXEC s"

lemma co_step_life:
  assumes "wf_thread t" and "co_enabled e t" and "co_step e t = Inr t1"
  shows "life (state_of t c) (state_of t1 c)"
  using assms
  by (cases e; auto simp: wf_thread_def co_defs assert_that_def life.simps
        split: option.splits if_splits ending.splits)

lemma life_final: "life s s1 \<Longrightarrow> s \<in> {TERM', EXCEPTION} \<Longrightarrow> s1 = s"
  by (auto elim: life.cases)

lemma co_run_final:
  assumes "co_run t es t1" and "wf_thread t" and "state_of t c \<in> {TERM', EXCEPTION}"
  shows "state_of t1 c = state_of t c"
  using assms
proof (induction rule: co_run.induct)
  case (co_run_Cons e t t1 es t2)
  have "state_of t1 c = state_of t c"
    by (rule life_final [OF co_step_life]) (use co_run_Cons in auto)
  then show ?case using co_run_Cons co_step_wf(1) by fastforce
qed simp

end
