(* ===== verification/Scheduler.thy ===== *)
theory Scheduler
  imports Coroutine
begin

text \<open>
  \<open>scheduler.h\<close> and \<open>scheduler.cpp\<close>: the task queue and the loop each worker thread
  runs. What a thread does between two points where others can see the shared
  state is one step; \<open>s_pc\<close> says where each thread stands in \<open>run\<close>. The threads
  interleave freely, so a run is a list of labelled steps. A coroutine's state is
  the one of \<open>Coroutine\<close>; what its body does while it runs is the label of the step
  that leaves it.
\<close>

type_synonym tid = int

record 'cb task =
  t_cor :: "cor_addr option"
  t_cb :: "'cb option"
  t_thread :: tid

datatype 'cb pc =
    At_top
  | Taken "'cb task"
  | No_task
  | In_cor cor_addr
  | Left_cor cor_addr
  | In_cb cor_addr
  | Left_cb cor_addr
  | Idling
  | Exited

record 'cb sched =
  s_queue :: "'cb task list"
  s_active :: nat
  s_idle :: nat
  s_stopping :: bool
  s_autoStop :: bool
  s_mainThreadId :: tid
  s_threadSum :: nat
  s_threadIds :: "tid list"
  s_mainCor :: "cor_addr option"
  s_tickles :: nat
  s_state :: "cor_addr \<Rightarrow> State"
  s_idle_state :: "tid \<Rightarrow> State"
  s_cb_cor :: "tid \<Rightarrow> cor_addr option"
  s_pc :: "tid \<Rightarrow> 'cb pc"

section \<open>Construction, queue\<close>

text \<open>\<open>caller\<close> is the calling thread and \<open>main_cor\<close> where its scheduling coroutine goes.\<close>

definition Scheduler ::
  "nat \<Rightarrow> bool \<Rightarrow> bool \<Rightarrow> tid \<Rightarrow> cor_addr \<Rightarrow> 'cb sched res" where
  "Scheduler threads_size use_caller has_scheduler caller main_cor =
     assert_that (threads_size > 0)
       (let s = \<lparr>s_queue = [], s_active = 0, s_idle = 0, s_stopping = True, s_autoStop = False,
                 s_mainThreadId = -1, s_threadSum = threads_size, s_threadIds = [], s_mainCor = None,
                 s_tickles = 0, s_state = (\<lambda>_. INIT), s_idle_state = (\<lambda>_. INIT),
                 s_cb_cor = (\<lambda>_. None), s_pc = (\<lambda>_. At_top)\<rparr> in
        if use_caller then
          assert_that (\<not> has_scheduler)
            (Inr (s\<lparr>s_threadSum := threads_size - 1, s_mainThreadId := caller,
                    s_threadIds := [caller], s_mainCor := Some main_cor\<rparr>))
        else Inr s)"

definition start :: "tid list \<Rightarrow> 'cb sched \<Rightarrow> 'cb sched" where
  "start new_ids s =
     (if \<not> s_stopping s then s
      else s\<lparr>s_stopping := False, s_threadIds := s_threadIds s @ take (s_threadSum s) new_ids\<rparr>)"

definition tickle :: "'cb sched \<Rightarrow> 'cb sched" where
  "tickle s = s\<lparr>s_tickles := Suc (s_tickles s)\<rparr>"

definition scheduleNoLock :: "'cb task \<Rightarrow> 'cb sched \<Rightarrow> bool \<times> 'cb sched" where
  "scheduleNoLock co s =
     (s_queue s = [],
      if t_cor co \<noteq> None \<or> t_cb co \<noteq> None then s\<lparr>s_queue := s_queue s @ [co]\<rparr> else s)"

definition schedule :: "'cb task \<Rightarrow> 'cb sched \<Rightarrow> 'cb sched" where
  "schedule co s = (let (isEmpty, s1) = scheduleNoLock co s in if isEmpty then tickle s1 else s1)"

fun schedule_list :: "'cb task list \<Rightarrow> bool \<Rightarrow> 'cb sched \<Rightarrow> bool \<times> 'cb sched" where
  "schedule_list [] isEmpty s = (isEmpty, s)"
| "schedule_list (co # cos) isEmpty s =
     (let (e, s1) = scheduleNoLock co s in schedule_list cos (e \<or> isEmpty) s1)"

definition schedule_all :: "'cb task list \<Rightarrow> 'cb sched \<Rightarrow> 'cb sched" where
  "schedule_all cos s = (let (isEmpty, s1) = schedule_list cos False s in if isEmpty then tickle s1 else s1)"

definition stopping :: "'cb sched \<Rightarrow> bool" where
  "stopping s \<longleftrightarrow> s_autoStop s \<and> s_stopping s \<and> s_queue s = [] \<and> s_active s = 0"

text \<open>
  \<open>stop\<close> up to the point where the caller's own scheduling coroutine takes over:
  the second component says whether it does. \<open>on_own\<close> is \<open>GetThis() == this\<close>.
\<close>

definition stop :: "bool \<Rightarrow> State \<Rightarrow> 'cb sched \<Rightarrow> (bool \<times> 'cb sched) res" where
  "stop on_own main_state s =
     (let s1 = s\<lparr>s_autoStop := True\<rparr>;
          alone = (s_mainCor s1 \<noteq> None \<and> s_threadSum s1 = 0 \<and> main_state \<in> {TERM', INIT});
          s2 = (if alone then s1\<lparr>s_stopping := True\<rparr> else s1)
      in if alone \<and> stopping s2 then Inr (False, s2)
         else
           assert_that (on_own \<longleftrightarrow> s_mainThreadId s2 \<noteq> -1)
             (let s3 = (tickle ^^ (s_threadSum s2 + (if s_mainCor s2 \<noteq> None then 1 else 0)))
                         (s2\<lparr>s_stopping := True\<rparr>)
              in Inr (s_mainCor s3 \<noteq> None \<and> \<not> stopping s3, s3)))"

section \<open>The worker loop\<close>

text \<open>
  The scan of the queue under the lock: the task taken, what stays queued, and
  whether a task of another thread was passed over.
\<close>

fun scan :: "tid \<Rightarrow> (cor_addr \<Rightarrow> State) \<Rightarrow> 'cb task list \<Rightarrow> ('cb task option \<times> 'cb task list \<times> bool) res" where
  "scan me st [] = Inr (None, [], False)"
| "scan me st (it # its) =
     (if t_thread it \<noteq> -1 \<and> t_thread it \<noteq> me then
        bindE (scan me st its) (\<lambda>(co, rest, _). Inr (co, it # rest, True))
      else
        assert_that (t_cor it \<noteq> None \<or> t_cb it \<noteq> None)
          (if (\<exists>c. t_cor it = Some c \<and> st c = EXEC) then
             bindE (scan me st its) (\<lambda>(co, rest, is_tickle). Inr (co, it # rest, is_tickle))
           else Inr (Some it, its, False)))"

text \<open>
  After \<open>erase\<close> the iterator dangles; it compares unequal to \<open>end()\<close>, so a thread that
  took a task always tickles.
\<close>

definition take_task :: "tid \<Rightarrow> 'cb sched \<Rightarrow> 'cb sched res" where
  "take_task me s =
     bindE (scan me (s_state s) (s_queue s)) (\<lambda>(co, rest, is_tickle).
       let s1 = (case co of
                   Some t \<Rightarrow> s\<lparr>s_queue := rest, s_active := Suc (s_active s),
                               s_pc := (s_pc s)(me := Taken t)\<rparr>
                 | None \<Rightarrow> s\<lparr>s_pc := (s_pc s)(me := No_task)\<rparr>)
       in Inr (if is_tickle \<or> co \<noteq> None then tickle s1 else s1))"

definition set_pc :: "tid \<Rightarrow> 'cb pc \<Rightarrow> 'cb sched \<Rightarrow> 'cb sched" where
  "set_pc me p s = s\<lparr>s_pc := (s_pc s)(me := p)\<rparr>"

definition set_state :: "cor_addr \<Rightarrow> State \<Rightarrow> 'cb sched \<Rightarrow> 'cb sched" where
  "set_state c st s = s\<lparr>s_state := (s_state s)(c := st)\<rparr>"

definition finished :: "State \<Rightarrow> bool" where
  "finished st \<longleftrightarrow> st = TERM' \<or> st = EXCEPTION"

text \<open>\<open>fresh\<close> is where a new coroutine for a plain function goes.\<close>

definition enter_cb :: "tid \<Rightarrow> cor_addr \<Rightarrow> 'cb sched \<Rightarrow> 'cb sched res" where
  "enter_cb me fresh s =
     (case s_cb_cor s me of
        Some a \<Rightarrow>
          assert_that (s_state s a = INIT \<or> finished (s_state s a))
            (Inr (set_pc me (In_cb a) (set_state a EXEC s)))
      | None \<Rightarrow>
          Inr (set_pc me (In_cb fresh)
            (set_state fresh EXEC (s\<lparr>s_cb_cor := (s_cb_cor s)(me := Some fresh)\<rparr>))))"

definition enter_task :: "tid \<Rightarrow> cor_addr \<Rightarrow> 'cb task \<Rightarrow> 'cb sched \<Rightarrow> 'cb sched res" where
  "enter_task me fresh co s =
     (case t_cor co of
        Some c \<Rightarrow>
          if \<not> finished (s_state s c) then
            assert_that (s_state s c \<noteq> EXEC) (Inr (set_pc me (In_cor c) (set_state c EXEC s)))
          else if t_cb co \<noteq> None then enter_cb me fresh s
          else Inr (set_pc me At_top (s\<lparr>s_active := s_active s - 1\<rparr>))
      | None \<Rightarrow>
          if t_cb co \<noteq> None then enter_cb me fresh s
          else Inr (set_pc me At_top (s\<lparr>s_active := s_active s - 1\<rparr>)))"

definition leave_cor :: "tid \<Rightarrow> cor_addr \<Rightarrow> State \<Rightarrow> 'cb sched \<Rightarrow> 'cb sched" where
  "leave_cor me c st s =
     set_pc me (Left_cor c) (set_state c st (s\<lparr>s_active := s_active s - 1\<rparr>))"

definition after_cor :: "tid \<Rightarrow> cor_addr \<Rightarrow> 'cb sched \<Rightarrow> 'cb sched" where
  "after_cor me c s =
     set_pc me At_top
       (if s_state s c = READY then schedule \<lparr>t_cor = Some c, t_cb = None, t_thread = -1\<rparr> s
        else if \<not> finished (s_state s c) then set_state c HOLD s
        else s)"

definition leave_cb :: "tid \<Rightarrow> cor_addr \<Rightarrow> State \<Rightarrow> 'cb sched \<Rightarrow> 'cb sched" where
  "leave_cb me a st s =
     set_pc me (Left_cb a) (set_state a st (s\<lparr>s_active := s_active s - 1\<rparr>))"

definition after_cb :: "tid \<Rightarrow> cor_addr \<Rightarrow> 'cb sched \<Rightarrow> 'cb sched" where
  "after_cb me a s =
     set_pc me At_top
       (if s_state s a = READY then
          (schedule \<lparr>t_cor = Some a, t_cb = None, t_thread = -1\<rparr> s)
            \<lparr>s_cb_cor := (s_cb_cor s)(me := None)\<rparr>
        else if finished (s_state s a) then set_state a INIT s
        else (set_state a HOLD s)\<lparr>s_cb_cor := (s_cb_cor s)(me := None)\<rparr>)"

definition enter_idle :: "tid \<Rightarrow> 'cb sched \<Rightarrow> 'cb sched res" where
  "enter_idle me s =
     (if s_idle_state s me = TERM' then Inr (set_pc me Exited s)
      else
        assert_that (s_idle_state s me \<noteq> EXEC)
          (Inr (set_pc me Idling
            (s\<lparr>s_idle := Suc (s_idle s), s_idle_state := (s_idle_state s)(me := EXEC)\<rparr>))))"

text \<open>\<open>Scheduler::idle\<close> yields until the scheduler stops and then ends.\<close>

definition idle_end :: "'cb sched \<Rightarrow> State" where
  "idle_end s = (if stopping s then TERM' else EXEC)"

definition leave_idle :: "tid \<Rightarrow> 'cb sched \<Rightarrow> 'cb sched" where
  "leave_idle me s =
     (let st = idle_end s in
      set_pc me At_top
        (s\<lparr>s_idle := s_idle s - 1,
           s_idle_state := (s_idle_state s)(me := if finished st then st else HOLD)\<rparr>))"

section \<open>Runs\<close>

datatype 'cb sched_event =
    Take tid
  | Enter tid cor_addr
  | Leave tid State
  | After tid
  | Go_idle tid
  | Idle_back tid
  | Submit "'cb task"
  | Stop_request

text \<open>The next step of a thread follows from where it stands; anything else is no step.\<close>

fun sched_step :: "'cb sched_event \<Rightarrow> 'cb sched \<Rightarrow> 'cb sched res option" where
  "sched_step (Take me) s =
     (case s_pc s me of At_top \<Rightarrow> Some (take_task me s) | _ \<Rightarrow> None)"
| "sched_step (Enter me fresh) s =
     (case s_pc s me of Taken co \<Rightarrow> Some (enter_task me fresh co s) | _ \<Rightarrow> None)"
| "sched_step (Leave me st) s =
     (if st \<in> {READY, EXEC, TERM', EXCEPTION} then
        (case s_pc s me of
           In_cor c \<Rightarrow> Some (Inr (leave_cor me c st s))
         | In_cb a \<Rightarrow> Some (Inr (leave_cb me a st s))
         | _ \<Rightarrow> None)
      else None)"
| "sched_step (After me) s =
     (case s_pc s me of
        Left_cor c \<Rightarrow> Some (Inr (after_cor me c s))
      | Left_cb a \<Rightarrow> Some (Inr (after_cb me a s))
      | _ \<Rightarrow> None)"
| "sched_step (Go_idle me) s =
     (case s_pc s me of No_task \<Rightarrow> Some (enter_idle me s) | _ \<Rightarrow> None)"
| "sched_step (Idle_back me) s =
     (case s_pc s me of Idling \<Rightarrow> Some (Inr (leave_idle me s)) | _ \<Rightarrow> None)"
| "sched_step (Submit co) s = Some (Inr (schedule co s))"
| "sched_step Stop_request s = Some (Inr (s\<lparr>s_autoStop := True, s_stopping := True\<rparr>))"

fun event_thread :: "'cb sched_event \<Rightarrow> tid option" where
  "event_thread (Take me) = Some me"
| "event_thread (Enter me _) = Some me"
| "event_thread (Leave me _) = Some me"
| "event_thread (After me) = Some me"
| "event_thread (Go_idle me) = Some me"
| "event_thread (Idle_back me) = Some me"
| "event_thread _ = None"

fun sched_run :: "'cb sched_event list \<Rightarrow> 'cb sched \<Rightarrow> 'cb sched res option" where
  "sched_run [] s = Some (Inr s)"
| "sched_run (e # es) s =
     (if (case event_thread e of Some me \<Rightarrow> me \<in> set (s_threadIds s) | None \<Rightarrow> True) then
        (case sched_step e s of
           Some (Inr s1) \<Rightarrow> sched_run es s1
         | Some (Inl x) \<Rightarrow> Some (Inl x)
         | None \<Rightarrow> None)
      else None)"

section \<open>The scan\<close>

definition takeable :: "tid \<Rightarrow> (cor_addr \<Rightarrow> State) \<Rightarrow> 'cb task \<Rightarrow> bool" where
  "takeable me st t \<longleftrightarrow>
     (t_thread t = -1 \<or> t_thread t = me) \<and> \<not> (\<exists>c. t_cor t = Some c \<and> st c = EXEC)"

definition runnable_task :: "'cb task \<Rightarrow> bool" where
  "runnable_task t \<longleftrightarrow> t_cor t \<noteq> None \<or> t_cb t \<noteq> None"

lemma scan_Cons_takeable:
  "takeable me st t \<Longrightarrow> runnable_task t \<Longrightarrow> scan me st (t # q) = Inr (Some t, q, False)"
  by (auto simp: takeable_def runnable_task_def)

lemma scan_Cons_skip:
  assumes "\<not> takeable me st t" and "runnable_task t" and "scan me st q = Inr (co, rest, tk)"
  shows "\<exists>tk. scan me st (t # q) = Inr (co, t # rest, tk)"
  using assms
  by (intro exI [of _ "(t_thread t \<noteq> -1 \<and> t_thread t \<noteq> me) \<or> tk"])
    (auto simp: takeable_def runnable_task_def)

definition scan_result :: "tid \<Rightarrow> (cor_addr \<Rightarrow> State) \<Rightarrow> 'cb task list \<Rightarrow> 'cb task option \<times> 'cb task list" where
  "scan_result me st q =
     (let i = first_index (takeable me st) q in
      if i < length q then (Some (q ! i), take i q @ drop (Suc i) q) else (None, q))"

lemma scan_result_Cons:
  "scan_result me st (t # q) =
     (if takeable me st t then (Some t, q)
      else (fst (scan_result me st q), t # snd (scan_result me st q)))"
  by (simp add: scan_result_def Let_def)

lemma scan_first:
  assumes "\<forall>t \<in> set q. runnable_task t"
  shows "\<exists>tk. scan me st q = Inr (fst (scan_result me st q), snd (scan_result me st q), tk)"
  using assms
proof (induction q)
  case Nil
  show ?case by (intro exI [of _ False]) (simp add: scan_result_def)
next
  case (Cons t q)
  then obtain tk where "scan me st q = Inr (fst (scan_result me st q), snd (scan_result me st q), tk)"
    by auto
  show ?case
  proof (cases "takeable me st t")
    case True
    then show ?thesis
      using Cons.prems scan_Cons_takeable [of me st t q]
      by (intro exI [of _ False]) (simp add: scan_result_Cons del: scan.simps)
  next
    case False
    then show ?thesis
      using Cons.prems scan_Cons_skip [OF False _ \<open>scan me st q = _\<close>]
      by (simp add: scan_result_Cons del: scan.simps)
  qed
qed

lemma scan_Some:
  assumes "scan me st q = Inr (Some t, rest, tk)"
  obtains xs ys where "q = xs @ t # ys" "rest = xs @ ys" "takeable me st t" "\<forall>x \<in> set xs. \<not> takeable me st x"
  using assms
proof (induction q arbitrary: rest tk thesis)
  case (Cons u q)
  show ?case
  proof (cases "takeable me st u")
    case True
    then have "u = t" "rest = q"
      using Cons.prems(2) by (auto simp: takeable_def assert_that_def split: if_splits)
    then show ?thesis using Cons.prems(1) [of "[]" q] True by simp
  next
    case False
    then obtain rest' tk' where r: "scan me st q = Inr (Some t, rest', tk')" "rest = u # rest'"
      using Cons.prems(2)
      by (auto simp: takeable_def assert_that_def bindE_def split: if_splits sum.splits prod.splits)
    then obtain xs ys where "q = xs @ t # ys" "rest' = xs @ ys" "takeable me st t" "\<forall>x \<in> set xs. \<not> takeable me st x"
      using Cons.IH by metis
    then show ?thesis using Cons.prems(1) [of "u # xs" ys] False r(2) by simp
  qed
qed simp

lemma scan_None: "scan me st q = Inr (None, rest, tk) \<Longrightarrow> rest = q"
  by (induction q arbitrary: rest tk)
    (auto simp: assert_that_def bindE_def split: if_splits sum.splits prod.splits)

section \<open>The counters\<close>

definition count_pc :: "('cb pc \<Rightarrow> bool) \<Rightarrow> 'cb sched \<Rightarrow> nat" where
  "count_pc P s = length (filter (\<lambda>t. P (s_pc s t)) (s_threadIds s))"

fun working :: "'cb pc \<Rightarrow> bool" where
  "working (Taken _) = True"
| "working (In_cor _) = True"
| "working (In_cb _) = True"
| "working _ = False"

definition idling :: "'cb pc \<Rightarrow> bool" where
  "idling p \<longleftrightarrow> p = Idling"

definition wf_sched :: "'cb sched \<Rightarrow> bool" where
  "wf_sched s \<longleftrightarrow>
     distinct (s_threadIds s) \<and> s_active s = count_pc working s \<and> s_idle s = count_pc idling s
     \<and> (\<forall>t \<in> set (s_queue s). runnable_task t)"

lemma count_fun_upd:
  assumes "distinct ids" and "x \<in> set ids"
  shows "length (filter (\<lambda>t. P ((f(x := v)) t)) ids) + (if P (f x) then 1 else 0)
       = length (filter (\<lambda>t. P (f t)) ids) + (if P v then 1 else 0)"
  using assms
proof (induction ids)
  case (Cons y ys)
  show ?case
  proof (cases "x = y")
    case True
    then have "filter (\<lambda>t. P ((f(x := v)) t)) ys = filter (\<lambda>t. P (f t)) ys"
      using Cons.prems by (intro filter_cong) auto
    then show ?thesis using True by simp
  next
    case False
    then show ?thesis using Cons by simp
  qed
qed simp

lemma count_pc_cong: "s_pc s1 = s_pc s \<Longrightarrow> s_threadIds s1 = s_threadIds s \<Longrightarrow> count_pc P s1 = count_pc P s"
  by (simp add: count_pc_def)

lemma count_set_pc:
  assumes "distinct (s_threadIds s)" and "me \<in> set (s_threadIds s)"
    and "s_pc s1 = (s_pc s)(me := p)" and "s_threadIds s1 = s_threadIds s"
  shows "count_pc P s1 + (if P (s_pc s me) then 1 else 0) = count_pc P s + (if P p then 1 else 0)"
  using count_fun_upd [OF assms(1,2), of P "s_pc s" p] assms(3,4) by (simp add: count_pc_def)

text \<open>
  A step moves one thread; the counters and the queue follow if they change by what
  the two places of the thread say.
\<close>

lemma wf_sched_move:
  assumes "wf_sched s" and "me \<in> set (s_threadIds s)"
    and "s_pc s1 = (s_pc s)(me := p)" and "s_threadIds s1 = s_threadIds s"
    and "s_active s1 + (if working (s_pc s me) then 1 else 0) = s_active s + (if working p then 1 else 0)"
    and "s_idle s1 + (if idling (s_pc s me) then 1 else 0) = s_idle s + (if idling p then 1 else 0)"
    and "\<forall>t \<in> set (s_queue s1). runnable_task t"
  shows "wf_sched s1"
proof -
  have d: "distinct (s_threadIds s)" using assms(1) by (simp add: wf_sched_def)
  have "s_active s1 = count_pc working s1"
    using assms(1,5) count_set_pc [OF d assms(2-4), of working] unfolding wf_sched_def by linarith
  moreover have "s_idle s1 = count_pc idling s1"
    using assms(1,6) count_set_pc [OF d assms(2-4), of idling] unfolding wf_sched_def by linarith
  ultimately show ?thesis using d assms(4,7) by (simp add: wf_sched_def)
qed

lemma count_positive: "me \<in> set (s_threadIds s) \<Longrightarrow> P (s_pc s me) \<Longrightarrow> 0 < count_pc P s"
  by (auto simp: count_pc_def filter_empty_conv)

lemma working_positive:
  assumes "wf_sched s" and "me \<in> set (s_threadIds s)"
  shows "working (s_pc s me) \<Longrightarrow> 0 < s_active s" and "idling (s_pc s me) \<Longrightarrow> 0 < s_idle s"
  using assms count_positive [of me s] by (simp_all add: wf_sched_def)

lemma schedule_fields [simp]:
  "s_pc (schedule co s) = s_pc s" "s_threadIds (schedule co s) = s_threadIds s"
  "s_active (schedule co s) = s_active s" "s_idle (schedule co s) = s_idle s"
  "s_state (schedule co s) = s_state s" "s_cb_cor (schedule co s) = s_cb_cor s"
  "s_autoStop (schedule co s) = s_autoStop s" "s_stopping (schedule co s) = s_stopping s"
  by (simp_all add: schedule_def scheduleNoLock_def tickle_def)

lemma schedule_queue [simp]:
  "s_queue (schedule co s) = (if runnable_task co then s_queue s @ [co] else s_queue s)"
  by (simp add: schedule_def scheduleNoLock_def tickle_def runnable_task_def)

section \<open>Preservation\<close>

lemma take_task_wf:
  assumes wf: "wf_sched s" and me: "me \<in> set (s_threadIds s)" and pc: "s_pc s me = At_top"
    and run: "take_task me s = Inr s1"
  shows "wf_sched s1 \<and> s_threadIds s1 = s_threadIds s"
proof -
  obtain co rest tk where sc: "scan me (s_state s) (s_queue s) = Inr (co, rest, tk)"
    using run by (auto simp: take_task_def bindE_Inr_iff)
  have ok: "\<forall>t \<in> set (s_queue s). runnable_task t" using wf by (simp add: wf_sched_def)
  show ?thesis
  proof (cases co)
    case None
    then have "s_pc s1 = (s_pc s)(me := No_task)" "s_threadIds s1 = s_threadIds s"
      "s_active s1 = s_active s" "s_idle s1 = s_idle s" "s_queue s1 = s_queue s"
      using run sc by (auto simp: take_task_def tickle_def Let_def)
    then show ?thesis
      using ok pc by (intro conjI wf_sched_move [OF wf me, of _ No_task]) (simp_all add: idling_def)
  next
    case (Some t)
    then have "set rest \<subseteq> set (s_queue s)"
      using scan_Some [OF sc [unfolded Some]] by (metis Un_mono set_append set_subset_Cons subset_refl)
    moreover have "s_pc s1 = (s_pc s)(me := Taken t)" "s_threadIds s1 = s_threadIds s"
      "s_active s1 = Suc (s_active s)" "s_idle s1 = s_idle s" "s_queue s1 = rest"
      using run sc Some by (auto simp: take_task_def tickle_def Let_def)
    ultimately show ?thesis
      using ok pc by (intro conjI wf_sched_move [OF wf me, of _ "Taken t"]) (auto simp: idling_def)
  qed
qed

lemmas sched_moves =
  set_pc_def set_state_def enter_cb_def enter_task_def leave_cor_def leave_cb_def
  after_cor_def after_cb_def enter_idle_def leave_idle_def Let_def

lemma enter_task_moves:
  assumes "enter_task me fresh co s = Inr s1"
  shows "s_threadIds s1 = s_threadIds s \<and> s_idle s1 = s_idle s \<and> s_queue s1 = s_queue s
       \<and> (\<exists>p. s_pc s1 = (s_pc s)(me := p) \<and> \<not> idling p
            \<and> (if working p then s_active s1 = s_active s else s_active s1 = s_active s - 1))"
  using assms
  by (auto simp: sched_moves assert_that_def idling_def split: option.splits if_splits)

lemma enter_task_wf:
  assumes wf: "wf_sched s" and me: "me \<in> set (s_threadIds s)" and pc: "s_pc s me = Taken co"
    and run: "enter_task me fresh co s = Inr s1"
  shows "wf_sched s1 \<and> s_threadIds s1 = s_threadIds s"
proof -
  from enter_task_moves [OF run] obtain p where p: "s_threadIds s1 = s_threadIds s" "s_idle s1 = s_idle s"
      "s_queue s1 = s_queue s" "s_pc s1 = (s_pc s)(me := p)" "\<not> idling p"
      "if working p then s_active s1 = s_active s else s_active s1 = s_active s - 1"
    by auto
  have "0 < s_active s" using working_positive(1) [OF wf me] pc by simp
  then show ?thesis
    using wf p pc by (intro conjI wf_sched_move [OF wf me p(4,1)])
      (auto simp: idling_def wf_sched_def split: if_splits)
qed

lemma leave_wf:
  assumes wf: "wf_sched s" and me: "me \<in> set (s_threadIds s)"
  shows "s_pc s me = In_cor c \<Longrightarrow> wf_sched (leave_cor me c st s)"
    and "s_pc s me = In_cb c \<Longrightarrow> wf_sched (leave_cb me c st s)"
proof -
  show "wf_sched (leave_cor me c st s)" if pc: "s_pc s me = In_cor c"
    using working_positive(1) [OF wf me] wf pc
    by (intro wf_sched_move [OF wf me, of _ "Left_cor c"])
      (simp_all add: leave_cor_def set_pc_def set_state_def idling_def wf_sched_def)
  show "wf_sched (leave_cb me c st s)" if pc: "s_pc s me = In_cb c"
    using working_positive(1) [OF wf me] wf pc
    by (intro wf_sched_move [OF wf me, of _ "Left_cb c"])
      (simp_all add: leave_cb_def set_pc_def set_state_def idling_def wf_sched_def)
qed

lemma after_wf:
  assumes wf: "wf_sched s" and me: "me \<in> set (s_threadIds s)"
  shows "s_pc s me = Left_cor c \<Longrightarrow> wf_sched (after_cor me c s)"
    and "s_pc s me = Left_cb c \<Longrightarrow> wf_sched (after_cb me c s)"
proof -
  show "wf_sched (after_cor me c s)" if pc: "s_pc s me = Left_cor c"
    using wf pc
    by (intro wf_sched_move [OF wf me, of _ At_top])
      (auto simp: after_cor_def set_pc_def set_state_def idling_def wf_sched_def runnable_task_def)
  show "wf_sched (after_cb me c s)" if pc: "s_pc s me = Left_cb c"
    using wf pc
    by (intro wf_sched_move [OF wf me, of _ At_top])
      (auto simp: after_cb_def set_pc_def set_state_def idling_def wf_sched_def runnable_task_def)
qed

lemma idle_wf:
  assumes wf: "wf_sched s" and me: "me \<in> set (s_threadIds s)"
  shows "s_pc s me = No_task \<Longrightarrow> enter_idle me s = Inr s1 \<Longrightarrow> wf_sched s1 \<and> s_threadIds s1 = s_threadIds s"
    and "s_pc s me = Idling \<Longrightarrow> wf_sched (leave_idle me s)"
proof -
  show "wf_sched s1 \<and> s_threadIds s1 = s_threadIds s"
    if pc: "s_pc s me = No_task" and run: "enter_idle me s = Inr s1"
  proof (cases "s_idle_state s me = TERM'")
    case True
    then show ?thesis
      using wf pc run by (intro conjI wf_sched_move [OF wf me, of _ Exited])
        (auto simp: enter_idle_def set_pc_def idling_def wf_sched_def)
  next
    case False
    then show ?thesis
      using wf pc run by (intro conjI wf_sched_move [OF wf me, of _ Idling])
        (auto simp: enter_idle_def set_pc_def idling_def wf_sched_def assert_that_def split: if_splits)
  qed
  show "wf_sched (leave_idle me s)" if pc: "s_pc s me = Idling"
    using working_positive(2) [OF wf me] wf pc
    by (intro wf_sched_move [OF wf me, of _ At_top])
      (simp_all add: leave_idle_def set_pc_def idling_def wf_sched_def Let_def)
qed

lemma count_pc_schedule [simp]: "count_pc P (schedule co s) = count_pc P s"
  by (rule count_pc_cong) simp_all

lemma moves_threadIds [simp]:
  "s_threadIds (leave_cor me c st s) = s_threadIds s" "s_threadIds (leave_cb me c st s) = s_threadIds s"
  "s_threadIds (after_cor me c s) = s_threadIds s" "s_threadIds (after_cb me c s) = s_threadIds s"
  "s_threadIds (leave_idle me s) = s_threadIds s"
  by (simp_all add: leave_cor_def leave_cb_def after_cor_def after_cb_def leave_idle_def
      set_pc_def set_state_def Let_def)

lemma sched_step_wf:
  assumes wf: "wf_sched s" and run: "sched_step e s = Some (Inr s1)"
    and me: "case event_thread e of Some me \<Rightarrow> me \<in> set (s_threadIds s) | None \<Rightarrow> True"
  shows "wf_sched s1 \<and> s_threadIds s1 = s_threadIds s"
proof (cases e)
  case (Take t)
  then show ?thesis using run me take_task_wf [OF wf] by (auto split: pc.splits)
next
  case (Enter t fresh)
  then show ?thesis using run me enter_task_wf [OF wf] by (auto split: pc.splits)
next
  case (Leave t st)
  then show ?thesis using run me leave_wf [OF wf]
    by (auto split: pc.splits if_splits)
next
  case (After t)
  then show ?thesis using run me after_wf [OF wf]
    by (auto split: pc.splits)
next
  case (Go_idle t)
  then show ?thesis using run me idle_wf(1) [OF wf] by (auto split: pc.splits)
next
  case (Idle_back t)
  then show ?thesis using run me idle_wf(2) [OF wf]
    by (auto split: pc.splits)
next
  case (Submit co)
  then show ?thesis using run wf by (auto simp: wf_sched_def split: if_splits)
next
  case Stop_request
  then show ?thesis using run wf by (auto simp: wf_sched_def count_pc_def)
qed

lemma sched_run_wf:
  "wf_sched s \<Longrightarrow> sched_run es s = Some (Inr s1) \<Longrightarrow> wf_sched s1 \<and> s_threadIds s1 = s_threadIds s"
proof (induction es arbitrary: s)
  case (Cons e es)
  then obtain s2 where "sched_step e s = Some (Inr s2)" "sched_run es s2 = Some (Inr s1)"
      "case event_thread e of Some me \<Rightarrow> me \<in> set (s_threadIds s) | None \<Rightarrow> True"
    by (auto split: if_splits option.splits sum.splits)
  then show ?case using Cons.IH sched_step_wf [OF Cons.prems(1)] by metis
qed simp

section \<open>The scheduler as a sink of tasks\<close>

text \<open>What timers and events rely on: a task handed over is queued last, a null one is dropped.\<close>

locale task_sink =
  fixes tasks :: "'s \<Rightarrow> 'cb task list" and submit :: "'cb task \<Rightarrow> 's \<Rightarrow> 's"
  assumes submit_runnable: "runnable_task t \<Longrightarrow> tasks (submit t s) = tasks s @ [t]"
    and submit_null: "\<not> runnable_task t \<Longrightarrow> tasks (submit t s) = tasks s"
begin

lemma submit_all: "tasks (fold submit ts s) = tasks s @ filter runnable_task ts"
  by (induction ts arbitrary: s) (simp_all add: submit_runnable submit_null)

end

interpretation sched_sink: task_sink s_queue schedule
  by unfold_locales simp_all

lemma schedule_list_queue:
  "s_queue (snd (schedule_list ts e s)) = s_queue s @ filter runnable_task ts"
  by (induction ts arbitrary: e s) (auto simp: scheduleNoLock_def runnable_task_def Let_def)

lemma schedule_all_queue: "s_queue (schedule_all ts s) = s_queue (fold schedule ts s)"
  using schedule_list_queue [of ts False s]
  by (simp add: schedule_all_def tickle_def sched_sink.submit_all split_beta)

end
