(* ===== verification/Timer.thy ===== *)
theory Timer
  imports Prelude "HOL-Library.Product_Lexorder"
begin

text \<open>
  \<open>timer.h\<close> and \<open>timer.cpp\<close>: timers and the manager that keeps them in a
  \<open>std::set\<close> ordered by deadline and then by address. Times are \<open>uint64_t\<close>
  milliseconds, so deadlines wrap. A timer is an address of the store
  \<open>tm_heap\<close>; the set is the list of its elements in the order of the comparator.
  The clock \<open>GetCurrentMs()\<close> is the argument \<open>now\<close>. Callbacks are of a type
  parameter, and a null callback is \<open>None\<close>.
\<close>

type_synonym ms = "64 word"
type_synonym addr = nat

record 'cb timer =
  tr_ms :: ms
  tr_cb :: "'cb option"
  tr_recurring :: bool
  tr_next :: ms

record 'cb timer_manager =
  tm_heap :: "addr \<Rightarrow> 'cb timer"
  tm_timers :: "addr list"
  tm_tickled :: bool
  tm_previousTime :: ms

section \<open>The set of timers\<close>

definition Comparator :: "(addr \<Rightarrow> 'cb timer) \<Rightarrow> addr option \<Rightarrow> addr option \<Rightarrow> bool" where
  "Comparator h lhs rhs =
     (case (lhs, rhs) of
        (None, None) \<Rightarrow> False
      | (None, Some _) \<Rightarrow> True
      | (Some _, None) \<Rightarrow> False
      | (Some l, Some r) \<Rightarrow>
          if tr_next (h l) < tr_next (h r) then True
          else if tr_next (h l) > tr_next (h r) then False
          else l < r)"

abbreviation deadline :: "(addr \<Rightarrow> 'cb timer) \<Rightarrow> addr \<Rightarrow> ms \<times> addr" where
  "deadline h p \<equiv> (tr_next (h p), p)"

lemma Comparator_deadline: "Comparator h (Some p) (Some q) \<longleftrightarrow> deadline h p < deadline h q"
  by (auto simp: Comparator_def)

definition set_insert :: "(addr \<Rightarrow> 'cb timer) \<Rightarrow> addr \<Rightarrow> addr list \<Rightarrow> addr list" where
  "set_insert h p ps = insort_insert_key (deadline h) p ps"

text \<open>The first element that does not come before the probe \<open>Timer(now_ms)\<close> at address \<open>q\<close>.\<close>

definition lower_bound :: "(addr \<Rightarrow> 'cb timer) \<Rightarrow> ms \<Rightarrow> addr \<Rightarrow> addr list \<Rightarrow> nat" where
  "lower_bound h now q ps = first_index (\<lambda>p. \<not> deadline h p < (now, q)) ps"

section \<open>The manager\<close>

definition TimerManager :: "(addr \<Rightarrow> 'cb timer) \<Rightarrow> ms \<Rightarrow> 'cb timer_manager" where
  "TimerManager h now =
     \<lparr>tm_heap = h, tm_timers = [], tm_tickled = False, tm_previousTime = now\<rparr>"

text \<open>\<open>new Timer(ms, cb, recurring, manager)\<close> at the fresh address \<open>p\<close>.\<close>

definition new_timer ::
  "ms \<Rightarrow> addr \<Rightarrow> ms \<Rightarrow> 'cb option \<Rightarrow> bool \<Rightarrow> 'cb timer_manager \<Rightarrow> 'cb timer_manager" where
  "new_timer now p dur cb recurring m =
     m\<lparr>tm_heap := (tm_heap m)(p := \<lparr>tr_ms = dur, tr_cb = cb, tr_recurring = recurring,
                                    tr_next = now + dur\<rparr>)\<rparr>"

text \<open>Inserting: the second component says that \<open>onTimerInsertedAtFront\<close> is called.\<close>

definition insert_timer :: "addr \<Rightarrow> 'cb timer_manager \<Rightarrow> 'cb timer_manager \<times> bool" where
  "insert_timer p m =
     (let ps = set_insert (tm_heap m) p (tm_timers m);
          is_front = (hd ps = p) \<and> \<not> tm_tickled m
      in (m\<lparr>tm_timers := ps, tm_tickled := tm_tickled m \<or> is_front\<rparr>, is_front))"

definition addTimer ::
  "ms \<Rightarrow> addr \<Rightarrow> ms \<Rightarrow> 'cb option \<Rightarrow> bool \<Rightarrow> 'cb timer_manager \<Rightarrow> 'cb timer_manager \<times> bool" where
  "addTimer now p dur cb recurring m = insert_timer p (new_timer now p dur cb recurring m)"

text \<open>
  A conditional timer wraps its callback in \<open>OnTimer\<close>: it runs only while the weak
  reference still resolves.
\<close>

datatype ('c, 'cb) on_timer = OnTimer (weak_cond: 'c) (guarded: 'cb)

fun run_OnTimer :: "('c \<Rightarrow> bool) \<Rightarrow> ('c, 'cb) on_timer \<Rightarrow> 'cb option" where
  "run_OnTimer alive (OnTimer c cb) = (if alive c then Some cb else None)"

definition addConditionTimer ::
  "ms \<Rightarrow> addr \<Rightarrow> ms \<Rightarrow> 'cb \<Rightarrow> 'c \<Rightarrow> bool \<Rightarrow> ('c, 'cb) on_timer timer_manager
     \<Rightarrow> ('c, 'cb) on_timer timer_manager \<times> bool" where
  "addConditionTimer now p dur cb cond recurring m =
     addTimer now p dur (Some (OnTimer cond cb)) recurring m"

definition cancel :: "addr \<Rightarrow> 'cb timer_manager \<Rightarrow> bool \<times> 'cb timer_manager" where
  "cancel p m =
     (if tr_cb (tm_heap m p) \<noteq> None then
        let m1 = m\<lparr>tm_heap := (tm_heap m)(p := (tm_heap m p)\<lparr>tr_cb := None\<rparr>)\<rparr>
        in if p \<notin> set (tm_timers m1) then (False, m1)
           else (True, m1\<lparr>tm_timers := remove1 p (tm_timers m1)\<rparr>)
      else (False, m))"

definition refresh :: "ms \<Rightarrow> addr \<Rightarrow> 'cb timer_manager \<Rightarrow> bool \<times> 'cb timer_manager" where
  "refresh now p m =
     (if tr_cb (tm_heap m p) = None then (False, m)
      else if p \<notin> set (tm_timers m) then (False, m)
      else
        let t = tm_heap m p;
            h = (tm_heap m)(p := t\<lparr>tr_next := now + tr_ms t\<rparr>)
        in (True, m\<lparr>tm_heap := h, tm_timers := set_insert h p (remove1 p (tm_timers m))\<rparr>))"

definition reset ::
  "ms \<Rightarrow> addr \<Rightarrow> ms \<Rightarrow> bool \<Rightarrow> 'cb timer_manager \<Rightarrow> bool \<times> 'cb timer_manager \<times> bool" where
  "reset now p dur from_now m =
     (let t = tm_heap m p in
      if tr_ms t = dur \<and> \<not> from_now then (True, m, False)
      else if tr_cb t = None then (False, m, False)
      else if p \<notin> set (tm_timers m) then (False, m, False)
      else
        let start = (if from_now then now else tr_next t - tr_ms t);
            h = (tm_heap m)(p := t\<lparr>tr_ms := dur, tr_next := start + dur\<rparr>);
            (m1, front) = insert_timer p (m\<lparr>tm_heap := h, tm_timers := remove1 p (tm_timers m)\<rparr>)
        in (True, m1, front))"

definition getNextTime :: "ms \<Rightarrow> 'cb timer_manager \<Rightarrow> ms \<times> 'cb timer_manager" where
  "getNextTime now m =
     (let m1 = m\<lparr>tm_tickled := False\<rparr> in
      case tm_timers m of
        [] \<Rightarrow> (- 1, m1)
      | p # _ \<Rightarrow>
          let next = tr_next (tm_heap m p)
          in (if now \<ge> next then 0 else next - now, m1))"

definition checkClockChange :: "ms \<Rightarrow> 'cb timer_manager \<Rightarrow> bool \<times> 'cb timer_manager" where
  "checkClockChange now_ms m =
     (now_ms < tm_previousTime m \<and> now_ms < tm_previousTime m - 60 * 60 * 1000,
      m\<lparr>tm_previousTime := now_ms\<rparr>)"

text \<open>One round of the loop over the expired timers.\<close>

definition fire :: "ms \<Rightarrow> addr \<Rightarrow> 'cb timer_manager \<Rightarrow> 'cb timer_manager" where
  "fire now_ms x m =
     (let t = tm_heap m x in
      if tr_recurring t then
        let h = (tm_heap m)(x := t\<lparr>tr_next := now_ms + tr_ms t\<rparr>)
        in m\<lparr>tm_heap := h, tm_timers := set_insert h x (tm_timers m)\<rparr>
      else m\<lparr>tm_heap := (tm_heap m)(x := t\<lparr>tr_cb := None\<rparr>)\<rparr>)"

text \<open>
  The end of the expired prefix: \<open>lower_bound\<close>, then on past the timers that are
  due exactly now. \<open>q\<close> is the address of the probe.
\<close>

definition expired_count :: "ms \<Rightarrow> addr \<Rightarrow> bool \<Rightarrow> 'cb timer_manager \<Rightarrow> nat" where
  "expired_count now_ms q changed m =
     (let it = (if changed then length (tm_timers m)
                else lower_bound (tm_heap m) now_ms q (tm_timers m))
      in it + first_index (\<lambda>p. tr_next (tm_heap m p) \<noteq> now_ms) (drop it (tm_timers m)))"

definition listExpiredCb ::
  "ms \<Rightarrow> addr \<Rightarrow> 'cb timer_manager \<Rightarrow> 'cb option list \<times> 'cb timer_manager" where
  "listExpiredCb now_ms q m =
     (if tm_timers m = [] then ([], m)
      else
        let (changed, m1) = checkClockChange now_ms m in
        if \<not> changed \<and> tr_next (tm_heap m1 (hd (tm_timers m1))) < now_ms then ([], m1)
        else
          let n = expired_count now_ms q changed m1;
              expired = take n (tm_timers m1);
              m2 = m1\<lparr>tm_timers := drop n (tm_timers m1)\<rparr>
          in (map (\<lambda>x. tr_cb (tm_heap m1 x)) expired, fold (fire now_ms) expired m2))"

definition isTimersEmpty :: "'cb timer_manager \<Rightarrow> bool" where
  "isTimersEmpty m = (tm_timers m = [])"

section \<open>The invariant\<close>

text \<open>
  The list is strictly ascending in the comparator (so a search by comparator
  finds what is in it), and whatever waits has a callback.
\<close>

definition in_order :: "(addr \<Rightarrow> 'cb timer) \<Rightarrow> addr list \<Rightarrow> bool" where
  "in_order h ps \<longleftrightarrow> sorted (map (deadline h) ps) \<and> distinct ps"

definition wf_timers :: "'cb timer_manager \<Rightarrow> bool" where
  "wf_timers m \<longleftrightarrow>
     in_order (tm_heap m) (tm_timers m) \<and> (\<forall>p \<in> set (tm_timers m). tr_cb (tm_heap m p) \<noteq> None)"

lemma set_set_insert [simp]: "set (set_insert h p ps) = insert p (set ps)"
  by (auto simp: set_insert_def insort_insert_key_def set_insort_key)

lemma in_order_insert: "in_order h ps \<Longrightarrow> in_order h (set_insert h p ps)"
  by (auto simp: in_order_def set_insert_def insort_insert_key_def sorted_insort_key distinct_insort)

lemma in_order_remove: "in_order h ps \<Longrightarrow> in_order h (remove1 p ps)"
  by (auto simp: in_order_def sorted_map_remove1)

lemma in_order_update: "in_order h ps \<Longrightarrow> p \<notin> set ps \<Longrightarrow> in_order (h(p := t)) ps"
proof -
  assume "in_order h ps" "p \<notin> set ps"
  moreover have "map (deadline (h(p := t))) ps = map (deadline h) ps"
    using \<open>p \<notin> set ps\<close> by (intro map_cong) auto
  ultimately show ?thesis by (simp only: in_order_def)
qed

lemma in_order_drop: "in_order h ps \<Longrightarrow> in_order h (drop n ps)"
  by (simp add: in_order_def drop_map [symmetric] sorted_wrt_drop)

lemma in_order_hd: "in_order h ps \<Longrightarrow> p \<in> set ps \<Longrightarrow> deadline h (hd ps) \<le> deadline h p"
  by (cases ps) (auto simp: in_order_def)

lemma in_order_hd_unique:
  assumes "in_order h ps" and "p \<in> set ps" and "\<And>q. q \<in> set ps \<Longrightarrow> deadline h p \<le> deadline h q"
  shows "hd ps = p"
proof -
  have "hd ps \<in> set ps" using assms(2) by (cases ps) auto
  then have "deadline h (hd ps) = deadline h p"
    using assms(3) [of "hd ps"] in_order_hd [OF assms(1,2)] by (intro antisym) simp_all
  then show ?thesis by simp
qed

section \<open>Preservation\<close>

lemma TimerManager_wf: "wf_timers (TimerManager h now)"
  by (simp add: TimerManager_def wf_timers_def in_order_def)

lemma insert_timer_fields:
  "tm_heap (fst (insert_timer p m)) = tm_heap m"
  "set (tm_timers (fst (insert_timer p m))) = insert p (set (tm_timers m))"
  by (simp_all add: insert_timer_def Let_def)

lemma insert_timer_wf:
  "wf_timers m \<Longrightarrow> tr_cb (tm_heap m p) \<noteq> None \<Longrightarrow> wf_timers (fst (insert_timer p m))"
  by (auto simp: insert_timer_def Let_def wf_timers_def in_order_insert)

lemma addTimer_wf:
  assumes "wf_timers m" and "p \<notin> set (tm_timers m)" and "cb \<noteq> None"
  shows "wf_timers (fst (addTimer now p dur cb recurring m))"
  using assms unfolding addTimer_def
  by (intro insert_timer_wf) (auto simp: new_timer_def wf_timers_def in_order_update)

lemma cancel_wf: "wf_timers m \<Longrightarrow> wf_timers (snd (cancel p m))"
proof -
  assume wf: "wf_timers m"
  have "p \<notin> set (remove1 p (tm_timers m))"
    using wf by (simp add: wf_timers_def in_order_def)
  then show ?thesis
    using wf by (auto simp: cancel_def Let_def wf_timers_def in_order_update in_order_remove
        dest: in_set_remove1 [THEN iffD1, rotated] notin_set_remove1)
qed

lemma rearm_wf:
  assumes "wf_timers m" and "tr_cb t \<noteq> None"
  shows "wf_timers (m\<lparr>tm_heap := (tm_heap m)(p := t), tm_timers := remove1 p (tm_timers m)\<rparr>)"
proof -
  have "p \<notin> set (remove1 p (tm_timers m))"
    using assms by (simp add: wf_timers_def in_order_def)
  then show ?thesis
    using assms by (auto simp: wf_timers_def in_order_update in_order_remove dest: notin_set_remove1)
qed

lemma refresh_wf: "wf_timers m \<Longrightarrow> wf_timers (snd (refresh now p m))"
  using rearm_wf [of m "(tm_heap m p)\<lparr>tr_next := now + tr_ms (tm_heap m p)\<rparr>" p]
  by (auto simp: refresh_def Let_def wf_timers_def in_order_insert)

lemma reset_wf:
  assumes "wf_timers m"
  shows "wf_timers (fst (snd (reset now p dur from_now m)))"
  using assms
  by (auto simp: reset_def Let_def split_beta intro!: insert_timer_wf rearm_wf)

lemma getNextTime_wf: "wf_timers m \<Longrightarrow> wf_timers (snd (getNextTime now m))"
  by (auto simp: getNextTime_def Let_def wf_timers_def split: list.splits)

section \<open>Expiry\<close>

definition fired :: "ms \<Rightarrow> 'cb timer \<Rightarrow> 'cb timer" where
  "fired now t = (if tr_recurring t then t\<lparr>tr_next := now + tr_ms t\<rparr> else t\<lparr>tr_cb := None\<rparr>)"

lemma fire_heap [simp]: "tm_heap (fire now x m) = (tm_heap m)(x := fired now (tm_heap m x))"
  by (simp add: fire_def fired_def Let_def)

lemma fire_timers [simp]:
  "set (tm_timers (fire now x m)) =
     (if tr_recurring (tm_heap m x) then insert x (set (tm_timers m)) else set (tm_timers m))"
  by (simp add: fire_def Let_def)

lemma fire_other [simp]:
  "tm_tickled (fire now x m) = tm_tickled m" "tm_previousTime (fire now x m) = tm_previousTime m"
  by (simp_all add: fire_def Let_def)

lemma fire_wf:
  assumes "wf_timers m" and "x \<notin> set (tm_timers m)" and "tr_cb (tm_heap m x) \<noteq> None"
  shows "wf_timers (fire now x m)"
  using assms
  by (auto simp: fire_def Let_def wf_timers_def intro!: in_order_insert in_order_update)

lemma fold_fire:
  assumes "wf_timers m" and "distinct xs" and "set xs \<inter> set (tm_timers m) = {}"
    and "\<forall>x \<in> set xs. tr_cb (tm_heap m x) \<noteq> None"
  shows "wf_timers (fold (fire now) xs m)
       \<and> set (tm_timers (fold (fire now) xs m))
           = set (tm_timers m) \<union> {x \<in> set xs. tr_recurring (tm_heap m x)}
       \<and> tm_heap (fold (fire now) xs m) = (\<lambda>p. if p \<in> set xs then fired now (tm_heap m p) else tm_heap m p)"
  using assms
proof (induction xs arbitrary: m)
  case (Cons x xs)
  have "wf_timers (fire now x m)" using Cons.prems by (intro fire_wf) auto
  moreover have "set xs \<inter> set (tm_timers (fire now x m)) = {}" using Cons.prems by auto
  moreover have "\<forall>y \<in> set xs. tr_cb (tm_heap (fire now x m) y) \<noteq> None" using Cons.prems by auto
  ultimately show ?case using Cons.IH [of "fire now x m"] Cons.prems(2) by (auto simp: fun_eq_iff)
qed auto

lemma first_index_takeWhile: "first_index (\<lambda>x. \<not> P x) xs = length (takeWhile P xs)"
  by (induction xs) simp_all

lemma takeWhile_filter_sorted:
  assumes "in_order h ps"
  shows "takeWhile (\<lambda>p. tr_next (h p) \<le> now) ps = filter (\<lambda>p. tr_next (h p) \<le> now) ps"
  using assms
proof (induction ps)
  case (Cons p ps)
  then have "\<forall>q \<in> set ps. tr_next (h p) \<le> tr_next (h q)"
    by (auto simp: in_order_def less_eq_prod_def intro: less_imp_le)
  then have "filter (\<lambda>p. tr_next (h p) \<le> now) ps = []" if "\<not> tr_next (h p) \<le> now"
    using that by (auto simp: filter_empty_conv dest: order_trans)
  then show ?case using Cons by (auto simp: in_order_def)
qed simp

lemma expired_prefix:
  assumes "in_order (tm_heap m) (tm_timers m)"
  shows "take (expired_count now q False m) (tm_timers m)
           = filter (\<lambda>p. tr_next (tm_heap m p) \<le> now) (tm_timers m)"
proof -
  let ?h = "tm_heap m" and ?ps = "tm_timers m"
  let ?early = "\<lambda>p. deadline ?h p < (now, q)" and ?due = "\<lambda>p. tr_next (?h p) \<le> now"
  let ?A = "takeWhile ?early ?ps" and ?B = "dropWhile ?early ?ps"
  have A: "\<forall>p \<in> set ?A. ?due p"
    by (auto dest!: set_takeWhileD simp: less_prod_def intro: less_imp_le)
  have B: "\<forall>p \<in> set ?B. now \<le> tr_next (?h p)"
  proof (cases ?B)
    case (Cons b bs)
    have "\<not> ?early b" using Cons hd_dropWhile [of ?early ?ps] by simp
    moreover have "\<forall>p \<in> set ?B. deadline ?h b \<le> deadline ?h p"
      using in_order_drop [OF assms, of "length ?A"] in_order_hd [of ?h ?B] Cons
      by (simp add: dropWhile_eq_drop)
    ultimately show ?thesis by (auto simp: less_eq_prod_def less_prod_def not_less not_le)
  next
    case Nil
    then show ?thesis unfolding Nil by simp
  qed
  have "takeWhile (\<lambda>p. tr_next (?h p) = now) ?B = takeWhile ?due ?B"
    using B by (intro takeWhile_cong) (auto intro: antisym)
  moreover have "expired_count now q False m = length ?A + length (takeWhile (\<lambda>p. tr_next (?h p) = now) ?B)"
    by (simp only: expired_count_def lower_bound_def Let_def if_False first_index_takeWhile
        first_index_takeWhile [where P = "\<lambda>p. tr_next (?h p) = now"] dropWhile_eq_drop)
  ultimately have "take (expired_count now q False m) ?ps = ?A @ takeWhile ?due ?B"
    by (simp only: take_add takeWhile_eq_take [symmetric] dropWhile_eq_drop [symmetric] add.commute)
  also have "\<dots> = takeWhile ?due (?A @ ?B)" by (rule takeWhile_append2 [symmetric]) (use A in blast)
  finally show ?thesis using takeWhile_filter_sorted [OF assms] by simp
qed

lemma expired_all: "expired_count now q True m = length (tm_timers m)"
  by (simp add: expired_count_def)

lemma wf_timers_clock [simp]:
  "wf_timers (m\<lparr>tm_previousTime := t\<rparr>) = wf_timers m"
  "wf_timers (m\<lparr>tm_tickled := b\<rparr>) = wf_timers m"
  by (simp_all add: wf_timers_def)

text \<open>Firing the first \<open>n\<close> timers.\<close>

lemma fire_prefix:
  fixes n :: nat and now :: ms
  assumes "wf_timers m"
  defines "m' \<equiv> fold (fire now) (take n (tm_timers m)) (m\<lparr>tm_timers := drop n (tm_timers m)\<rparr>)"
  shows "wf_timers m'"
    and "set (tm_timers m') = set (drop n (tm_timers m))
           \<union> {x \<in> set (take n (tm_timers m)). tr_recurring (tm_heap m x)}"
    and "tm_heap m' = (\<lambda>p. if p \<in> set (take n (tm_timers m)) then fired now (tm_heap m p) else tm_heap m p)"
proof -
  let ?m = "m\<lparr>tm_timers := drop n (tm_timers m)\<rparr>"
  have d: "distinct (tm_timers m)" using assms by (simp add: wf_timers_def in_order_def)
  have "wf_timers ?m"
    using assms by (auto simp: wf_timers_def in_order_drop dest: in_set_dropD)
  moreover have "set (take n (tm_timers m)) \<inter> set (drop n (tm_timers m)) = {}"
    using d by (simp add: set_take_disj_set_drop_if_distinct)
  moreover have "\<forall>x \<in> set (take n (tm_timers m)). tr_cb (tm_heap m x) \<noteq> None"
    using assms by (auto simp: wf_timers_def dest: in_set_takeD)
  ultimately have f: "wf_timers m' \<and> set (tm_timers m') = set (tm_timers ?m)
         \<union> {x \<in> set (take n (tm_timers m)). tr_recurring (tm_heap ?m x)}
      \<and> tm_heap m' = (\<lambda>p. if p \<in> set (take n (tm_timers m)) then fired now (tm_heap ?m p) else tm_heap ?m p)"
    unfolding m'_def using d by (intro fold_fire) auto
  then show "wf_timers m'" by simp
  show "set (tm_timers m') = set (drop n (tm_timers m))
      \<union> {x \<in> set (take n (tm_timers m)). tr_recurring (tm_heap m x)}"
    using f by simp
  show "tm_heap m' = (\<lambda>p. if p \<in> set (take n (tm_timers m)) then fired now (tm_heap m p) else tm_heap m p)"
    using f by (simp cong: if_cong)
qed

lemma listExpiredCb_wf: "wf_timers m \<Longrightarrow> wf_timers (snd (listExpiredCb now q m))"
  using fire_prefix(1) [of "m\<lparr>tm_previousTime := now\<rparr>"]
  by (simp add: listExpiredCb_def checkClockChange_def Let_def)

text \<open>Nothing is past its deadline: the due timers are exactly those that fire.\<close>

lemma listExpiredCb_on_time:
  assumes wf: "wf_timers m" and clock: "\<not> fst (checkClockChange now m)"
    and front: "\<forall>p \<in> set (tm_timers m). now \<le> tr_next (tm_heap m p)"
  defines "due \<equiv> filter (\<lambda>p. tr_next (tm_heap m p) \<le> now) (tm_timers m)"
  shows "fst (listExpiredCb now q m) = map (\<lambda>p. tr_cb (tm_heap m p)) due"
    and "set (tm_timers (snd (listExpiredCb now q m)))
           = {p \<in> set (tm_timers m). now < tr_next (tm_heap m p)} \<union> {p \<in> set due. tr_recurring (tm_heap m p)}"
    and "tm_heap (snd (listExpiredCb now q m)) =
           (\<lambda>p. if p \<in> set due then fired now (tm_heap m p) else tm_heap m p)"
proof -
  let ?m = "m\<lparr>tm_previousTime := now\<rparr>"
  let ?n = "expired_count now q False ?m"
  have take: "take ?n (tm_timers m) = due"
    using expired_prefix [of ?m now q] wf by (simp add: due_def wf_timers_def)
  have d: "distinct (tm_timers m)" using wf by (simp add: wf_timers_def in_order_def)
  have "set (drop ?n (tm_timers m)) = set (tm_timers m) - set (take ?n (tm_timers m))"
  proof -
    have "set (tm_timers m) = set (take ?n (tm_timers m)) \<union> set (drop ?n (tm_timers m))"
      by (metis append_take_drop_id set_append)
    then show ?thesis using set_take_disj_set_drop_if_distinct [OF d, of ?n ?n] by blast
  qed
  also have "\<dots> = {p \<in> set (tm_timers m). now < tr_next (tm_heap m p)}"
    unfolding take unfolding due_def set_filter by (rule set_eqI) (auto simp: not_le)
  finally have drop: "set (drop ?n (tm_timers m)) = {p \<in> set (tm_timers m). now < tr_next (tm_heap m p)}" .
  have run: "listExpiredCb now q m = (map (\<lambda>p. tr_cb (tm_heap m p)) due,
      fold (fire now) (take ?n (tm_timers ?m)) (?m\<lparr>tm_timers := drop ?n (tm_timers ?m)\<rparr>))"
    if "tm_timers m \<noteq> []"
  proof -
    have "\<not> tr_next (tm_heap m (hd (tm_timers m))) < now"
      using front that by (simp add: not_less)
    moreover have "checkClockChange now m = (False, ?m)"
      using clock by (simp add: checkClockChange_def)
    ultimately show ?thesis
      using that take by (simp add: listExpiredCb_def Let_def)
  qed
  have wf': "wf_timers ?m" using wf by simp
  show "fst (listExpiredCb now q m) = map (\<lambda>p. tr_cb (tm_heap m p)) due"
    using run by (cases "tm_timers m = []") (simp_all add: listExpiredCb_def due_def)
  show "set (tm_timers (snd (listExpiredCb now q m)))
      = {p \<in> set (tm_timers m). now < tr_next (tm_heap m p)} \<union> {p \<in> set due. tr_recurring (tm_heap m p)}"
    using run fire_prefix(2) [OF wf', of now ?n] take drop
    by (cases "tm_timers m = []") (simp_all add: listExpiredCb_def due_def)
  show "tm_heap (snd (listExpiredCb now q m)) =
      (\<lambda>p. if p \<in> set due then fired now (tm_heap m p) else tm_heap m p)"
    using run fire_prefix(3) [OF wf', of now ?n] take
    by (cases "tm_timers m = []") (simp_all add: listExpiredCb_def due_def cong: if_cong)
qed

text \<open>A timer whose deadline has passed blocks the whole set until the clock is set back.\<close>

lemma listExpiredCb_late:
  assumes "\<not> fst (checkClockChange now m)" and "tm_timers m = p # ps" and "tr_next (tm_heap m p) < now"
  shows "listExpiredCb now q m = ([], m\<lparr>tm_previousTime := now\<rparr>)"
  using assms by (simp add: listExpiredCb_def checkClockChange_def)

lemma listExpiredCb_clock_set_back:
  assumes wf: "wf_timers m" and clock: "fst (checkClockChange now m)"
  shows "fst (listExpiredCb now q m) = map (\<lambda>p. tr_cb (tm_heap m p)) (tm_timers m)"
    and "set (tm_timers (snd (listExpiredCb now q m))) = {p \<in> set (tm_timers m). tr_recurring (tm_heap m p)}"
proof -
  let ?m = "m\<lparr>tm_previousTime := now\<rparr>"
  have wf': "wf_timers ?m" using wf by simp
  show "fst (listExpiredCb now q m) = map (\<lambda>p. tr_cb (tm_heap m p)) (tm_timers m)"
    using clock by (simp add: listExpiredCb_def checkClockChange_def Let_def expired_all)
  show "set (tm_timers (snd (listExpiredCb now q m))) = {p \<in> set (tm_timers m). tr_recurring (tm_heap m p)}"
    using fire_prefix(2) [OF wf', of now "length (tm_timers m)"] clock
    by (simp add: listExpiredCb_def checkClockChange_def Let_def expired_all)
qed

lemma getNextTime_earliest:
  assumes "wf_timers m" and "p \<in> set (tm_timers m)"
  shows "fst (getNextTime now m) = 0 \<longleftrightarrow> (\<exists>p \<in> set (tm_timers m). tr_next (tm_heap m p) \<le> now)"
    and "now < tr_next (tm_heap m p) \<Longrightarrow> fst (getNextTime now m) \<le> tr_next (tm_heap m p) - now"
proof -
  obtain f ps where f: "tm_timers m = f # ps" using assms(2) by (cases "tm_timers m") auto
  have le: "tr_next (tm_heap m f) \<le> tr_next (tm_heap m p)" if "p \<in> set (tm_timers m)" for p
    using in_order_hd [of "tm_heap m" "tm_timers m" p] assms(1) that f
    by (auto simp: wf_timers_def less_eq_prod_def intro: less_imp_le)
  show "fst (getNextTime now m) = 0 \<longleftrightarrow> (\<exists>p \<in> set (tm_timers m). tr_next (tm_heap m p) \<le> now)"
    using le f by (auto simp: getNextTime_def Let_def dest: order_trans)
  show "fst (getNextTime now m) \<le> tr_next (tm_heap m p) - now" if "now < tr_next (tm_heap m p)"
  proof (cases "now \<ge> tr_next (tm_heap m f)")
    case True
    then show ?thesis using f by (simp add: getNextTime_def Let_def)
  next
    case False
    then have "unat (tr_next (tm_heap m f) - now) = unat (tr_next (tm_heap m f)) - unat now"
      "unat (tr_next (tm_heap m p) - now) = unat (tr_next (tm_heap m p)) - unat now"
      using that by (simp_all add: unat_sub less_imp_le)
    then have "tr_next (tm_heap m f) - now \<le> tr_next (tm_heap m p) - now"
      using le [OF assms(2)] by (simp add: word_le_nat_alt)
    then show ?thesis using False f by (simp add: getNextTime_def Let_def)
  qed
qed

end
