(* ===== verification/Io_Manager.thy ===== *)
theory Io_Manager
  imports Scheduler Timer
begin

text \<open>
  \<open>iomanager.h\<close> and \<open>iomanager.cpp\<close>: the descriptors with the events registered on
  them, on top of a scheduler and a timer manager. Event sets are the bits of the
  \<open>Event\<close> enumeration. \<open>epoll_ctl\<close> is the kernel's and a parameter: it maps an
  operation, a descriptor and the events to the result. What \<open>epoll_wait\<close> brings
  back is an argument of a round of \<open>idle\<close>.
\<close>

unbundle bit_operations_syntax

type_synonym event = "32 word"

definition NONE :: event where "NONE = 0x0"
definition READ :: event where "READ = 0x1"
definition WRITE :: event where "WRITE = 0x4"
definition EPOLLERR :: event where "EPOLLERR = 0x8"
definition EPOLLHUP :: event where "EPOLLHUP = 0x10"

datatype epoll_op = EPOLL_CTL_ADD | EPOLL_CTL_MOD | EPOLL_CTL_DEL

type_synonym epoll = "epoll_op \<Rightarrow> int \<Rightarrow> event \<Rightarrow> int"

section \<open>Events of one descriptor\<close>

text \<open>\<open>ec_scheduler\<close> says whether the pointer to the scheduler is set.\<close>

record 'cb event_ctx =
  ec_scheduler :: bool
  ec_cor :: "cor_addr option"
  ec_cb :: "'cb option"

record 'cb fd_context =
  fc_fd :: int
  fc_read :: "'cb event_ctx"
  fc_write :: "'cb event_ctx"
  fc_events :: event

record 'cb io_manager =
  io_fds :: "'cb fd_context list"
  io_pending :: nat
  io_pipe :: nat
  io_sched :: "'cb sched"
  io_timers :: "'cb timer_manager"

definition empty_ctx :: "'cb event_ctx" where
  "empty_ctx = \<lparr>ec_scheduler = False, ec_cor = None, ec_cb = None\<rparr>"

definition new_fd_context :: "int \<Rightarrow> 'cb fd_context" where
  "new_fd_context fd = \<lparr>fc_fd = fd, fc_read = empty_ctx, fc_write = empty_ctx, fc_events = NONE\<rparr>"

definition getEventContext :: "event \<Rightarrow> 'cb fd_context \<Rightarrow> 'cb event_ctx res" where
  "getEventContext e fc =
     (if e = READ then Inr (fc_read fc) else if e = WRITE then Inr (fc_write fc)
      else Inl Assert_failed)"

definition setEventContext :: "event \<Rightarrow> 'cb event_ctx \<Rightarrow> 'cb fd_context \<Rightarrow> 'cb fd_context" where
  "setEventContext e ctx fc =
     (if e = READ then fc\<lparr>fc_read := ctx\<rparr> else if e = WRITE then fc\<lparr>fc_write := ctx\<rparr> else fc)"

definition resetEventContext :: "'cb event_ctx \<Rightarrow> 'cb event_ctx" where
  "resetEventContext ctx = ctx\<lparr>ec_scheduler := False, ec_cor := None, ec_cb := None\<rparr>"

section \<open>The scheduler underneath\<close>

text \<open>\<open>tickle\<close> of this class writes into the pipe only when a thread is idle.\<close>

definition io_tickle :: "'cb io_manager \<Rightarrow> 'cb io_manager" where
  "io_tickle m = (if s_idle (io_sched m) > 0 then m\<lparr>io_pipe := Suc (io_pipe m)\<rparr> else m)"

definition io_schedule :: "'cb task \<Rightarrow> 'cb io_manager \<Rightarrow> 'cb io_manager" where
  "io_schedule co m =
     (let (isEmpty, s) = scheduleNoLock co (io_sched m); m1 = m\<lparr>io_sched := s\<rparr>
      in if isEmpty then io_tickle m1 else m1)"

definition io_schedule_all :: "'cb task list \<Rightarrow> 'cb io_manager \<Rightarrow> 'cb io_manager" where
  "io_schedule_all cos m =
     (let (isEmpty, s) = schedule_list cos False (io_sched m); m1 = m\<lparr>io_sched := s\<rparr>
      in if isEmpty then io_tickle m1 else m1)"

text \<open>
  \<open>triggerEvent\<close> takes the callback or the coroutine out of the context (the
  scheduler swaps it) and queues it.
\<close>

definition triggerEvent ::
  "event \<Rightarrow> 'cb fd_context \<Rightarrow> 'cb io_manager \<Rightarrow> ('cb fd_context \<times> 'cb io_manager) res" where
  "triggerEvent e fc m =
     assert_that (fc_events fc AND e \<noteq> 0)
       (let fc1 = fc\<lparr>fc_events := fc_events fc AND NOT e\<rparr> in
        bindE (getEventContext e fc1) (\<lambda>ctx.
        assert_that (ec_cb ctx \<noteq> None \<or> ec_cor ctx \<noteq> None)
          (if \<not> ec_scheduler ctx then Inl Null_deref
           else if ec_cb ctx \<noteq> None then
             Inr (setEventContext e (ctx\<lparr>ec_cb := None, ec_scheduler := False\<rparr>) fc1,
                  io_schedule \<lparr>t_cor = None, t_cb = ec_cb ctx, t_thread = -1\<rparr> m)
           else
             Inr (setEventContext e (ctx\<lparr>ec_cor := None, ec_scheduler := False\<rparr>) fc1,
                  io_schedule \<lparr>t_cor = ec_cor ctx, t_cb = None, t_thread = -1\<rparr> m))))"

section \<open>Descriptors\<close>

definition contextResize :: "nat \<Rightarrow> 'cb io_manager \<Rightarrow> 'cb io_manager" where
  "contextResize n m =
     m\<lparr>io_fds := take n (io_fds m) @ map (\<lambda>i. new_fd_context (int i)) [length (io_fds m)..<n]\<rparr>"

definition IOManager :: "'cb sched \<Rightarrow> 'cb timer_manager \<Rightarrow> tid list \<Rightarrow> 'cb io_manager" where
  "IOManager s t new_ids =
     (let m = contextResize 256
                \<lparr>io_fds = [], io_pending = 0, io_pipe = 0, io_sched = s, io_timers = t\<rparr>
      in m\<lparr>io_sched := start new_ids (io_sched m)\<rparr>)"

definition get_fd :: "int \<Rightarrow> 'cb io_manager \<Rightarrow> 'cb fd_context res" where
  "get_fd fd m =
     (if 0 \<le> fd \<and> nat fd < length (io_fds m) then Inr (io_fds m ! nat fd) else Inl Out_of_bounds)"

definition put_fd :: "int \<Rightarrow> 'cb fd_context \<Rightarrow> 'cb io_manager \<Rightarrow> 'cb io_manager" where
  "put_fd fd fc m = m\<lparr>io_fds := (io_fds m)[nat fd := fc]\<rparr>"

text \<open>
  \<open>on_sched\<close> says whether the calling thread has a scheduler, \<open>cur\<close> and \<open>cur_state\<close>
  are its current coroutine. The result is 0 or -1.
\<close>

definition addEvent ::
  "epoll \<Rightarrow> bool \<Rightarrow> cor_addr \<Rightarrow> State \<Rightarrow> int \<Rightarrow> event \<Rightarrow> 'cb option \<Rightarrow> 'cb io_manager
     \<Rightarrow> (int \<times> 'cb io_manager) res" where
  "addEvent epoll_ctl on_sched cur cur_state fd e cb m0 =
     (let m = (if int (length (io_fds m0)) > fd then m0 else contextResize (nat (fd * 3 div 2)) m0) in
      bindE (get_fd fd m) (\<lambda>fc.
      assert_that (fc_events fc AND e = 0)
        (let op = (if fc_events fc \<noteq> 0 then EPOLL_CTL_MOD else EPOLL_CTL_ADD) in
         if epoll_ctl op fd (fc_events fc OR e) < 0 then Inr (-1, m)
         else
           bindE (getEventContext e fc) (\<lambda>ctx.
           assert_that (\<not> ec_scheduler ctx \<and> ec_cor ctx = None \<and> ec_cb ctx = None)
             (let fc1 = fc\<lparr>fc_events := fc_events fc OR e\<rparr>;
                  m1 = m\<lparr>io_pending := Suc (io_pending m)\<rparr>
              in if cb \<noteq> None then
                   Inr (0, put_fd fd (setEventContext e
                             (ctx\<lparr>ec_scheduler := on_sched, ec_cb := cb\<rparr>) fc1) m1)
                 else
                   assert_that (cur_state = EXEC)
                     (Inr (0, put_fd fd (setEventContext e
                             (ctx\<lparr>ec_scheduler := on_sched, ec_cor := Some cur\<rparr>) fc1) m1)))))))"

definition delEvent ::
  "epoll \<Rightarrow> int \<Rightarrow> event \<Rightarrow> 'cb io_manager \<Rightarrow> (bool \<times> 'cb io_manager) res" where
  "delEvent epoll_ctl fd e m =
     (if int (length (io_fds m)) \<le> fd then Inr (False, m)
      else bindE (get_fd fd m) (\<lambda>fc.
        if fc_events fc AND e = 0 then Inr (False, m)
        else
          let left_events = fc_events fc AND NOT e;
              op = (if left_events \<noteq> 0 then EPOLL_CTL_MOD else EPOLL_CTL_DEL)
          in if epoll_ctl op fd left_events < 0 then Inr (False, m)
             else
               let fc1 = fc\<lparr>fc_events := left_events\<rparr> in
               bindE (getEventContext e fc1) (\<lambda>ctx.
               Inr (True, (put_fd fd (setEventContext e (resetEventContext ctx) fc1) m)
                            \<lparr>io_pending := io_pending m - 1\<rparr>))))"

text \<open>Triggering an event of a descriptor in place, with the pending count.\<close>

definition trigger_at :: "int \<Rightarrow> event \<Rightarrow> 'cb io_manager \<Rightarrow> 'cb io_manager res" where
  "trigger_at fd e m =
     bindE (get_fd fd m) (\<lambda>fc.
     bindE (triggerEvent e fc m) (\<lambda>(fc1, m1).
     Inr ((put_fd fd fc1 m1)\<lparr>io_pending := io_pending m1 - 1\<rparr>)))"

definition cancelEvent ::
  "epoll \<Rightarrow> int \<Rightarrow> event \<Rightarrow> 'cb io_manager \<Rightarrow> (bool \<times> 'cb io_manager) res" where
  "cancelEvent epoll_ctl fd e m =
     (if int (length (io_fds m)) \<le> fd then Inr (False, m)
      else bindE (get_fd fd m) (\<lambda>fc.
        if fc_events fc AND e = 0 then Inr (False, m)
        else
          let left_events = fc_events fc AND NOT e;
              op = (if left_events \<noteq> 0 then EPOLL_CTL_MOD else EPOLL_CTL_DEL)
          in if epoll_ctl op fd left_events < 0 then Inr (False, m)
             else bindE (trigger_at fd e m) (\<lambda>m1. Inr (True, m1))))"

definition trigger_if :: "event \<Rightarrow> int \<Rightarrow> event \<Rightarrow> 'cb io_manager \<Rightarrow> 'cb io_manager res" where
  "trigger_if mask_events fd e m =
     (if mask_events AND e \<noteq> 0 then trigger_at fd e m else Inr m)"

definition cancelAll :: "epoll \<Rightarrow> int \<Rightarrow> 'cb io_manager \<Rightarrow> (bool \<times> 'cb io_manager) res" where
  "cancelAll epoll_ctl fd m =
     (if int (length (io_fds m)) \<le> fd then Inr (False, m)
      else bindE (get_fd fd m) (\<lambda>fc.
        if fc_events fc = 0 then Inr (False, m)
        else if epoll_ctl EPOLL_CTL_DEL fd 0 < 0 then Inr (False, m)
        else
          bindE (trigger_if (fc_events fc) fd READ m) (\<lambda>m1.
          bindE (get_fd fd m1) (\<lambda>fc1.
          bindE (trigger_if (fc_events fc1) fd WRITE m1) (\<lambda>m2.
          bindE (get_fd fd m2) (\<lambda>fc2.
          assert_that (fc_events fc2 = 0) (Inr (True, m2))))))))"

section \<open>The idle loop\<close>

definition io_stopping :: "'cb io_manager \<Rightarrow> bool" where
  "io_stopping m \<longleftrightarrow> io_pending m = 0 \<and> isTimersEmpty (io_timers m) \<and> stopping (io_sched m)"

definition wait_timeout :: "ms \<Rightarrow> ms" where
  "wait_timeout next_timeout =
     (if next_timeout \<noteq> - 1 then (if next_timeout > 3000 then 3000 else next_timeout) else 3000)"

datatype ready = Pipe_ready | Fd_ready int event

definition handle_ready :: "epoll \<Rightarrow> ready \<Rightarrow> 'cb io_manager \<Rightarrow> 'cb io_manager res" where
  "handle_ready epoll_ctl r m =
     (case r of
        Pipe_ready \<Rightarrow> Inr (m\<lparr>io_pipe := 0\<rparr>)
      | Fd_ready fd events \<Rightarrow>
          bindE (get_fd fd m) (\<lambda>fc.
          let evs = (if events AND (EPOLLERR OR EPOLLHUP) \<noteq> 0
                     then events OR ((READ OR WRITE) AND fc_events fc) else events);
              real_events = (if evs AND READ \<noteq> 0 then READ else NONE)
                              OR (if evs AND WRITE \<noteq> 0 then WRITE else NONE)
          in if fc_events fc AND real_events = NONE then Inr m
             else
               let left_events = fc_events fc AND NOT real_events;
                   op = (if left_events \<noteq> 0 then EPOLL_CTL_MOD else EPOLL_CTL_DEL)
               in if epoll_ctl op (fc_fd fc) left_events < 0 then Inr m
                  else bindE (trigger_if real_events fd READ m) (trigger_if real_events fd WRITE)))"

fun handle_all :: "epoll \<Rightarrow> ready list \<Rightarrow> 'cb io_manager \<Rightarrow> 'cb io_manager res" where
  "handle_all epoll_ctl [] m = Inr m"
| "handle_all epoll_ctl (r # rs) m = bindE (handle_ready epoll_ctl r m) (handle_all epoll_ctl rs)"

text \<open>
  One round of \<open>idle\<close>: \<open>None\<close> when the loop ends, otherwise the timeout it waited
  with and the state when the coroutine gives up the processor.
\<close>

definition idle_round ::
  "epoll \<Rightarrow> ms \<Rightarrow> ready list \<Rightarrow> ms \<Rightarrow> addr \<Rightarrow> 'cb io_manager \<Rightarrow> (ms \<times> 'cb io_manager) option res" where
  "idle_round epoll_ctl now ready_events now' probe m =
     (if io_stopping m then Inr None
      else
        let (next, t1) = getNextTime now (io_timers m);
            (cbs, t2) = listExpiredCb now' probe t1;
            m1 = m\<lparr>io_timers := t2\<rparr>;
            m2 = (if cbs \<noteq> []
                  then io_schedule_all (map (\<lambda>cb. \<lparr>t_cor = None, t_cb = cb, t_thread = -1\<rparr>) cbs) m1
                  else m1)
        in bindE (handle_all epoll_ctl ready_events m2) (\<lambda>m3.
           Inr (Some (wait_timeout next, m3))))"

definition onTimerInsertedAtFront :: "'cb io_manager \<Rightarrow> 'cb io_manager" where
  "onTimerInsertedAtFront m = io_tickle m"

text \<open>\<open>addTimer\<close> on the manager: it wakes the waiting thread when the new timer is the first.\<close>

definition io_addTimer ::
  "ms \<Rightarrow> addr \<Rightarrow> ms \<Rightarrow> 'cb option \<Rightarrow> bool \<Rightarrow> 'cb io_manager \<Rightarrow> 'cb io_manager" where
  "io_addTimer now p dur cb recurring m =
     (let (t, front) = addTimer now p dur cb recurring (io_timers m); m1 = m\<lparr>io_timers := t\<rparr>
      in if front then onTimerInsertedAtFront m1 else m1)"

section \<open>The invariant\<close>

text \<open>
  A bit of \<open>events\<close> is set exactly when the context of that event is armed, with a
  scheduler and either a callback or a coroutine; the pending count is the number of
  set bits.
\<close>

definition valid_events :: "event set" where
  "valid_events = {0, 1, 4, 5}"

definition has_event :: "event \<Rightarrow> event \<Rightarrow> bool" where
  "has_event v e \<longleftrightarrow> v AND e \<noteq> 0"

definition event_count :: "event \<Rightarrow> nat" where
  "event_count v = (if has_event v READ then 1 else 0) + (if has_event v WRITE then 1 else 0)"

definition ctx_ok :: "bool \<Rightarrow> 'cb event_ctx \<Rightarrow> bool" where
  "ctx_ok armed ctx \<longleftrightarrow>
     (if armed then ec_scheduler ctx \<and> (ec_cor ctx = None \<longleftrightarrow> ec_cb ctx \<noteq> None)
      else \<not> ec_scheduler ctx \<and> ec_cor ctx = None \<and> ec_cb ctx = None)"

definition fc_ok :: "'cb fd_context \<Rightarrow> bool" where
  "fc_ok fc \<longleftrightarrow>
     fc_events fc \<in> valid_events \<and> ctx_ok (has_event (fc_events fc) READ) (fc_read fc)
     \<and> ctx_ok (has_event (fc_events fc) WRITE) (fc_write fc)"

definition pending_sum :: "'cb fd_context list \<Rightarrow> nat" where
  "pending_sum fcs = sum_list (map (\<lambda>fc. event_count (fc_events fc)) fcs)"

definition wf_io :: "'cb io_manager \<Rightarrow> bool" where
  "wf_io m \<longleftrightarrow>
     (\<forall>i < length (io_fds m). fc_ok (io_fds m ! i) \<and> fc_fd (io_fds m ! i) = int i)
     \<and> io_pending m = pending_sum (io_fds m)"

subsection \<open>Event bits\<close>

lemma events_distinct [simp]: "READ \<noteq> WRITE" "WRITE \<noteq> READ"
  by (simp_all add: READ_def WRITE_def)

lemma event_bits:
  assumes "v \<in> valid_events" and "e = READ \<or> e = WRITE"
  shows add_event: "\<not> has_event v e \<Longrightarrow> v OR e \<in> valid_events \<and> event_count (v OR e) = Suc (event_count v)
        \<and> has_event (v OR e) e \<and> (\<forall>e'. e' = READ \<or> e' = WRITE \<longrightarrow> e' \<noteq> e \<longrightarrow> has_event (v OR e) e' = has_event v e')"
    and drop_event: "has_event v e \<Longrightarrow> v AND NOT e \<in> valid_events \<and> Suc (event_count (v AND NOT e)) = event_count v
        \<and> \<not> has_event (v AND NOT e) e
        \<and> (\<forall>e'. e' = READ \<or> e' = WRITE \<longrightarrow> e' \<noteq> e \<longrightarrow> has_event (v AND NOT e) e' = has_event v e')"
  using assms
  by (auto simp: valid_events_def has_event_def event_count_def READ_def WRITE_def)

lemma no_events: "v \<in> valid_events \<Longrightarrow> v \<noteq> 0 \<Longrightarrow> has_event v READ \<or> has_event v WRITE"
  by (auto simp: valid_events_def has_event_def READ_def WRITE_def)

lemma no_events_left: "v \<in> valid_events \<Longrightarrow> \<not> has_event v READ \<Longrightarrow> \<not> has_event v WRITE \<Longrightarrow> v = 0"
  using no_events by blast

subsection \<open>Updating one descriptor\<close>

lemma pending_sum_update:
  "i < length fcs \<Longrightarrow> pending_sum (fcs[i := fc]) + event_count (fc_events (fcs ! i))
     = pending_sum fcs + event_count (fc_events fc)"
proof (induction fcs arbitrary: i)
  case (Cons f fcs)
  then show ?case by (cases i) (simp_all add: pending_sum_def)
qed simp

lemma pending_sum_ge: "i < length fcs \<Longrightarrow> event_count (fc_events (fcs ! i)) \<le> pending_sum fcs"
  using member_le_sum_list [of "event_count (fc_events (fcs ! i))" "map (\<lambda>fc. event_count (fc_events fc)) fcs"]
  by (simp add: pending_sum_def)

lemma wf_io_put:
  assumes wf: "wf_io m" and i: "i < length (io_fds m)" and ok: "fc_ok fc" and fd: "fc_fd fc = int i"
    and fds: "io_fds m1 = (io_fds m)[i := fc]"
    and pend: "io_pending m1 + event_count (fc_events (io_fds m ! i)) = io_pending m + event_count (fc_events fc)"
  shows "wf_io m1"
proof -
  have "io_pending m1 = pending_sum (io_fds m1)"
    using pending_sum_update [OF i, of fc] pend wf unfolding wf_io_def fds by linarith
  then show ?thesis using wf ok fd fds i by (auto simp: wf_io_def nth_list_update)
qed

lemma io_schedule_fields [simp]:
  "io_fds (io_schedule co m) = io_fds m" "io_pending (io_schedule co m) = io_pending m"
  "io_timers (io_schedule co m) = io_timers m"
  "s_queue (io_sched (io_schedule co m)) =
     (if runnable_task co then s_queue (io_sched m) @ [co] else s_queue (io_sched m))"
  by (auto simp: io_schedule_def io_tickle_def scheduleNoLock_def runnable_task_def Let_def)

interpretation io_sink: task_sink "\<lambda>m. s_queue (io_sched m)" io_schedule
  by unfold_locales simp_all

lemma wf_io_schedule [simp]: "wf_io (io_schedule co m) = wf_io m"
  by (simp add: wf_io_def)

lemma get_fd_Inr: "get_fd fd m = Inr fc \<longleftrightarrow> 0 \<le> fd \<and> nat fd < length (io_fds m) \<and> fc = io_fds m ! nat fd"
  by (auto simp: get_fd_def)

lemma get_fd_ok: "wf_io m \<Longrightarrow> get_fd fd m = Inr fc \<Longrightarrow> fc_ok fc \<and> fc_fd fc = fd"
  by (auto simp: get_fd_Inr wf_io_def)

lemma contextResize_wf:
  assumes "wf_io m" and "length (io_fds m) \<le> n"
  shows "wf_io (contextResize n m)"
proof -
  have new: "fc_ok (new_fd_context fd)" "event_count (fc_events (new_fd_context fd)) = 0"
    "fc_fd (new_fd_context fd) = fd" for fd :: int
    by (simp_all add: new_fd_context_def fc_ok_def valid_events_def ctx_ok_def has_event_def
        event_count_def empty_ctx_def NONE_def)
  have "pending_sum (io_fds (contextResize n m)) = pending_sum (io_fds m)"
    using assms(2) by (simp add: contextResize_def pending_sum_def comp_def new)
  then show ?thesis
    using assms new by (auto simp: wf_io_def contextResize_def nth_append)
qed

text \<open>What a context looks like after the event was taken out or put in.\<close>

lemma disarm_ok:
  assumes "fc_ok fc" and "e = READ \<or> e = WRITE" and "has_event (fc_events fc) e"
  shows "fc_ok (setEventContext e empty_ctx (fc\<lparr>fc_events := fc_events fc AND NOT e\<rparr>))"
proof -
  have v: "fc_events fc \<in> valid_events" using assms(1) by (simp add: fc_ok_def)
  note d = drop_event [OF v assms(2,3)]
  show ?thesis
  proof (cases "e = READ")
    case True
    then have "has_event (fc_events fc AND NOT READ) WRITE = has_event (fc_events fc) WRITE" using d by simp
    then show ?thesis
      using assms(1) d True by (simp add: fc_ok_def setEventContext_def ctx_ok_def empty_ctx_def)
  next
    case False
    then have e: "e = WRITE" using assms(2) by simp
    then have "has_event (fc_events fc AND NOT WRITE) READ = has_event (fc_events fc) READ" using d by simp
    then show ?thesis
      using assms(1) d e by (simp add: fc_ok_def setEventContext_def ctx_ok_def empty_ctx_def)
  qed
qed

lemma arm_ok:
  assumes "fc_ok fc" and "e = READ \<or> e = WRITE" and "\<not> has_event (fc_events fc) e"
    and "ctx_ok True ctx"
  shows "fc_ok (setEventContext e ctx (fc\<lparr>fc_events := fc_events fc OR e\<rparr>))"
proof -
  have v: "fc_events fc \<in> valid_events" using assms(1) by (simp add: fc_ok_def)
  note d = add_event [OF v assms(2,3)]
  show ?thesis
  proof (cases "e = READ")
    case True
    then have "has_event (fc_events fc OR READ) WRITE = has_event (fc_events fc) WRITE" using d by simp
    then show ?thesis
      using assms(1,4) d True by (simp add: fc_ok_def setEventContext_def ctx_ok_def)
  next
    case False
    then have e: "e = WRITE" using assms(2) by simp
    then have "has_event (fc_events fc OR WRITE) READ = has_event (fc_events fc) READ" using d by simp
    then show ?thesis
      using assms(1,4) d e by (simp add: fc_ok_def setEventContext_def ctx_ok_def)
  qed
qed

subsection \<open>The operations\<close>

lemma get_ctx: "e = READ \<or> e = WRITE \<Longrightarrow>
   getEventContext e fc = Inr (if e = READ then fc_read fc else fc_write fc)"
  by (auto simp: getEventContext_def)

lemma ctx_of_fc:
  assumes "fc_ok fc" and "e = READ \<or> e = WRITE"
  shows "ctx_ok (has_event (fc_events fc) e) (if e = READ then fc_read fc else fc_write fc)"
  using assms by (auto simp: fc_ok_def)

lemma setEventContext_fields [simp]:
  "fc_fd (setEventContext e ctx fc) = fc_fd fc" "fc_events (setEventContext e ctx fc) = fc_events fc"
  by (simp_all add: setEventContext_def)

lemma disarmed_ctx: "ctx_ok True ctx \<Longrightarrow> ec_cb ctx \<noteq> None \<Longrightarrow>
    ctx\<lparr>ec_cb := None, ec_scheduler := False\<rparr> = empty_ctx"
  "ctx_ok True ctx \<Longrightarrow> ec_cb ctx = None \<Longrightarrow> ctx\<lparr>ec_cor := None, ec_scheduler := False\<rparr> = empty_ctx"
  by (simp_all add: ctx_ok_def empty_ctx_def)

text \<open>The task an armed context stands for.\<close>

definition ctx_task :: "'cb event_ctx \<Rightarrow> 'cb task" where
  "ctx_task ctx = \<lparr>t_cor = ec_cor ctx, t_cb = ec_cb ctx, t_thread = -1\<rparr>"

lemma triggerEvent_armed:
  assumes ok: "fc_ok fc" and e: "e = READ \<or> e = WRITE" and ev: "has_event (fc_events fc) e"
  shows "triggerEvent e fc m =
    Inr (setEventContext e empty_ctx (fc\<lparr>fc_events := fc_events fc AND NOT e\<rparr>),
         io_schedule (ctx_task (if e = READ then fc_read fc else fc_write fc)) m)"
proof -
  let ?ctx = "if e = READ then fc_read fc else fc_write fc"
  have c: "ctx_ok True ?ctx" using ctx_of_fc [OF ok e] ev by simp
  have get: "getEventContext e (fc\<lparr>fc_events := fc_events fc AND NOT e\<rparr>) = Inr ?ctx"
    by (simp add: get_ctx [OF e])
  have armed: "ec_scheduler ?ctx" "ec_cor ?ctx = None \<longleftrightarrow> ec_cb ?ctx \<noteq> None"
    using c unfolding ctx_ok_def by simp_all
  have t: "fc_events fc AND e \<noteq> 0" using ev by (simp add: has_event_def)
  show ?thesis
  proof (cases "ec_cb ?ctx = None")
    case True
    then show ?thesis
      using armed t disarmed_ctx(2) [OF c True]
      unfolding triggerEvent_def Let_def get by (simp add: ctx_task_def)
  next
    case False
    then show ?thesis
      using armed t disarmed_ctx(1) [OF c False]
      unfolding triggerEvent_def Let_def get by (simp add: ctx_task_def)
  qed
qed

lemma trigger_at_ok:
  assumes wf: "wf_io m" and fd: "get_fd fd m = Inr fc" and e: "e = READ \<or> e = WRITE"
    and ev: "has_event (fc_events fc) e"
  shows "\<exists>m1. trigger_at fd e m = Inr m1 \<and> wf_io m1 \<and> Suc (io_pending m1) = io_pending m
    \<and> s_queue (io_sched m1) = s_queue (io_sched m) @ [ctx_task (if e = READ then fc_read fc else fc_write fc)]
    \<and> get_fd fd m1 = Inr (setEventContext e empty_ctx (fc\<lparr>fc_events := fc_events fc AND NOT e\<rparr>))"
proof -
  let ?fc = "setEventContext e empty_ctx (fc\<lparr>fc_events := fc_events fc AND NOT e\<rparr>)"
  let ?task = "ctx_task (if e = READ then fc_read fc else fc_write fc)"
  let ?m = "(put_fd fd ?fc (io_schedule ?task m))\<lparr>io_pending := io_pending m - 1\<rparr>"
  have ok: "fc_ok fc" "fc_fd fc = fd" using get_fd_ok [OF wf fd] by simp_all
  have i: "0 \<le> fd" "nat fd < length (io_fds m)" "fc = io_fds m ! nat fd" using fd by (simp_all add: get_fd_Inr)
  have v: "fc_events fc \<in> valid_events" using ok by (simp add: fc_ok_def)
  have cnt: "Suc (event_count (fc_events fc AND NOT e)) = event_count (fc_events fc)"
    using drop_event [OF v e ev] by simp
  have "event_count (fc_events fc) \<le> io_pending m"
    using pending_sum_ge [OF i(2)] wf i(3) by (simp add: wf_io_def)
  then have pos: "Suc (io_pending m - 1) = io_pending m" using cnt by linarith
  have run: "trigger_at fd e m = Inr ?m"
    using fd triggerEvent_armed [OF ok(1) e ev] by (simp add: trigger_at_def)
  have "wf_io ?m"
    using wf i(2) disarm_ok [OF ok(1) e ev]
  proof (rule wf_io_put)
    show "fc_fd ?fc = int (nat fd)" using ok i by simp
    show "io_fds ?m = (io_fds m)[nat fd := ?fc]" by (simp add: put_fd_def)
    show "io_pending ?m + event_count (fc_events (io_fds m ! nat fd)) = io_pending m + event_count (fc_events ?fc)"
      using pos cnt i(3) by simp
  qed
  moreover have "runnable_task ?task"
    using ctx_of_fc [OF ok(1) e] ev by (auto simp: runnable_task_def ctx_task_def ctx_ok_def)
  moreover have "get_fd fd ?m = Inr ?fc" using i by (simp add: get_fd_def put_fd_def)
  ultimately show ?thesis using run pos by (simp add: put_fd_def)
qed

lemma delEvent_ok:
  assumes wf: "wf_io m" and e: "e = READ \<or> e = WRITE" and fd: "0 \<le> fd"
  shows "\<exists>r m1. delEvent epoll_ctl fd e m = Inr (r, m1) \<and> wf_io m1 \<and> io_sched m1 = io_sched m
    \<and> io_pending m = io_pending m1 + (if r then 1 else 0) \<and> (\<not> r \<longrightarrow> m1 = m)
    \<and> (r \<longrightarrow> (\<exists>fc. get_fd fd m1 = Inr fc \<and> \<not> has_event (fc_events fc) e))"
proof (cases "nat fd < length (io_fds m)")
  case False
  then have "int (length (io_fds m)) \<le> fd" using fd by linarith
  then have "delEvent epoll_ctl fd e m = Inr (False, m)" by (simp add: delEvent_def)
  then show ?thesis using wf by force
next
  case True
  define fc where "fc = io_fds m ! nat fd"
  have get: "get_fd fd m = Inr fc" using True fd by (simp add: get_fd_def fc_def)
  have ok: "fc_ok fc" "fc_fd fc = fd" using get_fd_ok [OF wf get] by simp_all
  have v: "fc_events fc \<in> valid_events" using ok by (simp add: fc_ok_def)
  have "\<not> int (length (io_fds m)) \<le> fd" using True fd by linarith
  note step = delEvent_def [of epoll_ctl fd e m, unfolded if_not_P [OF this] get bindE_simps]
  let ?left = "fc_events fc AND NOT e"
  let ?op = "if ?left \<noteq> 0 then EPOLL_CTL_MOD else EPOLL_CTL_DEL"
  consider "\<not> has_event (fc_events fc) e" | "has_event (fc_events fc) e" "epoll_ctl ?op fd ?left < 0"
    | "has_event (fc_events fc) e" "\<not> epoll_ctl ?op fd ?left < 0" by blast
  then show ?thesis
  proof cases
    case 1
    then have "delEvent epoll_ctl fd e m = Inr (False, m)" unfolding step by (simp add: has_event_def)
    then show ?thesis using wf by force
  next
    case 2
    then have "delEvent epoll_ctl fd e m = Inr (False, m)" unfolding step Let_def by (simp add: has_event_def)
    then show ?thesis using wf by force
  next
    case 3
    let ?fc = "setEventContext e empty_ctx (fc\<lparr>fc_events := ?left\<rparr>)"
    let ?m = "(put_fd fd ?fc m)\<lparr>io_pending := io_pending m - 1\<rparr>"
    note d = drop_event [OF v e 3(1)]
    have reset: "resetEventContext ctx = empty_ctx" for ctx :: "'a event_ctx"
      by (simp add: resetEventContext_def empty_ctx_def)
    have run: "delEvent epoll_ctl fd e m = Inr (True, ?m)"
      using 3 unfolding step Let_def by (simp add: has_event_def get_ctx [OF e] reset)
    have "event_count (fc_events fc) \<le> io_pending m"
      using pending_sum_ge [OF True] wf by (simp add: wf_io_def fc_def)
    then have pos: "Suc (io_pending m - 1) = io_pending m" using d by linarith
    have "wf_io ?m"
      using wf True disarm_ok [OF ok(1) e 3(1)]
    proof (rule wf_io_put)
      show "fc_fd ?fc = int (nat fd)" using ok fd by simp
      show "io_fds ?m = (io_fds m)[nat fd := ?fc]" by (simp add: put_fd_def)
      have "event_count (fc_events fc) = Suc (event_count ?left)" using d by simp
      then have "io_pending m - 1 + event_count (fc_events fc) = io_pending m + event_count ?left"
        using pos by linarith
      then show "io_pending ?m + event_count (fc_events (io_fds m ! nat fd)) = io_pending m + event_count (fc_events ?fc)"
        by (simp add: fc_def)
    qed
    moreover have "get_fd fd ?m = Inr ?fc" using True fd by (simp add: get_fd_def put_fd_def)
    ultimately show ?thesis
      using run pos d by (intro exI [of _ True] exI [of _ ?m]) (simp add: put_fd_def)
  qed
qed

lemma cancelEvent_ok:
  assumes wf: "wf_io m" and e: "e = READ \<or> e = WRITE" and fd: "0 \<le> fd"
  shows "\<exists>r m1. cancelEvent epoll_ctl fd e m = Inr (r, m1) \<and> wf_io m1
    \<and> io_pending m = io_pending m1 + (if r then 1 else 0) \<and> (\<not> r \<longrightarrow> m1 = m)
    \<and> (r \<longrightarrow> (\<exists>fc. get_fd fd m = Inr fc \<and> s_queue (io_sched m1)
          = s_queue (io_sched m) @ [ctx_task (if e = READ then fc_read fc else fc_write fc)]))"
proof (cases "nat fd < length (io_fds m)")
  case False
  then have "int (length (io_fds m)) \<le> fd" using fd by linarith
  then have "cancelEvent epoll_ctl fd e m = Inr (False, m)" by (simp add: cancelEvent_def)
  then show ?thesis using wf by force
next
  case True
  define fc where "fc = io_fds m ! nat fd"
  have get: "get_fd fd m = Inr fc" using True fd by (simp add: get_fd_def fc_def)
  have "\<not> int (length (io_fds m)) \<le> fd" using True fd by linarith
  note step = cancelEvent_def [of epoll_ctl fd e m, unfolded if_not_P [OF this] get bindE_simps]
  let ?left = "fc_events fc AND NOT e"
  let ?op = "if ?left \<noteq> 0 then EPOLL_CTL_MOD else EPOLL_CTL_DEL"
  consider "\<not> has_event (fc_events fc) e" | "has_event (fc_events fc) e" "epoll_ctl ?op fd ?left < 0"
    | "has_event (fc_events fc) e" "\<not> epoll_ctl ?op fd ?left < 0" by blast
  then show ?thesis
  proof cases
    case 1
    then have "cancelEvent epoll_ctl fd e m = Inr (False, m)" unfolding step by (simp add: has_event_def)
    then show ?thesis using wf by force
  next
    case 2
    then have "cancelEvent epoll_ctl fd e m = Inr (False, m)" unfolding step Let_def by (simp add: has_event_def)
    then show ?thesis using wf by force
  next
    case 3
    from trigger_at_ok [OF wf get e 3(1)] obtain m1 where m1: "trigger_at fd e m = Inr m1" "wf_io m1"
        "Suc (io_pending m1) = io_pending m"
        "s_queue (io_sched m1) = s_queue (io_sched m) @ [ctx_task (if e = READ then fc_read fc else fc_write fc)]"
      by blast
    have "cancelEvent epoll_ctl fd e m = Inr (True, m1)"
      using 3 m1(1) unfolding step Let_def by (simp add: has_event_def)
    then show ?thesis using m1 get by force
  qed
qed

lemma trigger_if_ok:
  assumes wf: "wf_io m" and fd: "get_fd fd m = Inr fc" and e: "e = READ \<or> e = WRITE"
    and reg: "has_event v e \<Longrightarrow> has_event (fc_events fc) e"
  shows "\<exists>m1 fc1. trigger_if v fd e m = Inr m1 \<and> wf_io m1 \<and> get_fd fd m1 = Inr fc1
    \<and> io_pending m = io_pending m1 + (if has_event v e then 1 else 0)
    \<and> fc_events fc1 = (if has_event v e then fc_events fc AND NOT e else fc_events fc)"
proof (cases "has_event v e")
  case True
  then show ?thesis
    using trigger_at_ok [OF wf fd e reg [OF True]] by (auto simp: trigger_if_def has_event_def)
next
  case False
  then show ?thesis using wf fd by (simp add: trigger_if_def has_event_def)
qed

lemma cancelAll_ok:
  assumes wf: "wf_io m" and fd: "0 \<le> fd"
  shows "\<exists>r m1. cancelAll epoll_ctl fd m = Inr (r, m1) \<and> wf_io m1 \<and> (\<not> r \<longrightarrow> m1 = m)
    \<and> (r \<longrightarrow> (\<exists>fc fc1. get_fd fd m = Inr fc \<and> get_fd fd m1 = Inr fc1 \<and> fc_events fc1 = 0
          \<and> io_pending m = io_pending m1 + event_count (fc_events fc)))"
proof (cases "nat fd < length (io_fds m)")
  case False
  then have "int (length (io_fds m)) \<le> fd" using fd by linarith
  then have "cancelAll epoll_ctl fd m = Inr (False, m)" by (simp add: cancelAll_def)
  then show ?thesis using wf by force
next
  case True
  define fc where "fc = io_fds m ! nat fd"
  have get: "get_fd fd m = Inr fc" using True fd by (simp add: get_fd_def fc_def)
  have ok: "fc_ok fc" using get_fd_ok [OF wf get] by simp
  then have v: "fc_events fc \<in> valid_events" by (simp add: fc_ok_def)
  have "\<not> int (length (io_fds m)) \<le> fd" using True fd by linarith
  note step = cancelAll_def [of epoll_ctl fd m, unfolded if_not_P [OF this] get bindE_simps]
  consider "fc_events fc = 0 \<or> epoll_ctl EPOLL_CTL_DEL fd 0 < 0"
    | "fc_events fc \<noteq> 0" "\<not> epoll_ctl EPOLL_CTL_DEL fd 0 < 0" by blast
  then show ?thesis
  proof cases
    case 1
    then have "cancelAll epoll_ctl fd m = Inr (False, m)"
      unfolding step by (cases "fc_events fc = 0") simp_all
    then show ?thesis using wf by force
  next
    case 2
    have R: "READ = READ \<or> READ = WRITE" and W: "WRITE = READ \<or> WRITE = WRITE" by simp_all
    from trigger_if_ok [OF wf get R, of "fc_events fc"] obtain m1 fc1 where
      1: "trigger_if (fc_events fc) fd READ m = Inr m1" "wf_io m1" "get_fd fd m1 = Inr fc1"
        "io_pending m = io_pending m1 + (if has_event (fc_events fc) READ then 1 else 0)"
        "fc_events fc1 = (if has_event (fc_events fc) READ then fc_events fc AND NOT READ else fc_events fc)"
      by blast
    from trigger_if_ok [OF 1(2,3) W, of "fc_events fc1"] obtain m2 fc2 where
      m2: "trigger_if (fc_events fc1) fd WRITE m1 = Inr m2" "wf_io m2" "get_fd fd m2 = Inr fc2"
        "io_pending m1 = io_pending m2 + (if has_event (fc_events fc1) WRITE then 1 else 0)"
        "fc_events fc2 = (if has_event (fc_events fc1) WRITE then fc_events fc1 AND NOT WRITE else fc_events fc1)"
      by blast
    have v1: "fc_events fc1 \<in> valid_events" and v2: "fc_events fc2 \<in> valid_events"
      using get_fd_ok [OF 1(2,3)] get_fd_ok [OF m2(2,3)] by (simp_all add: fc_ok_def)
    have r1: "\<not> has_event (fc_events fc1) READ" "has_event (fc_events fc1) WRITE = has_event (fc_events fc) WRITE"
      using 1(5) drop_event [OF v R] by auto
    have "\<not> has_event (fc_events fc2) WRITE" "\<not> has_event (fc_events fc2) READ"
      using m2(5) drop_event [OF v1 W] r1(1) by auto
    then have z: "fc_events fc2 = 0" using no_events_left [OF v2] by simp
    have "cancelAll epoll_ctl fd m = Inr (True, m2)"
      using 2 1 m2 z unfolding step by simp
    moreover have "io_pending m = io_pending m2 + event_count (fc_events fc)"
      using 1(4) m2(4) r1(2) by (simp add: event_count_def)
    ultimately show ?thesis using get m2 z by blast
  qed
qed

lemma addEvent_ok:
  assumes wf: "wf_io m" and len: "2 \<le> length (io_fds m)" and e: "e = READ \<or> e = WRITE" and fd: "0 \<le> fd"
    and free: "nat fd < length (io_fds m) \<Longrightarrow> \<not> has_event (fc_events (io_fds m ! nat fd)) e"
    and cb: "cb \<noteq> None \<or> cur_state = EXEC"
  shows "\<exists>r m1. addEvent epoll_ctl True cur cur_state fd e cb m = Inr (r, m1) \<and> wf_io m1
    \<and> io_sched m1 = io_sched m \<and> (r = 0 \<or> r = -1)
    \<and> io_pending m1 = io_pending m + (if r = 0 then 1 else 0)
    \<and> (r = 0 \<longrightarrow> (\<exists>fc. get_fd fd m1 = Inr fc \<and> has_event (fc_events fc) e
          \<and> ctx_task (if e = READ then fc_read fc else fc_write fc)
              = \<lparr>t_cor = (if cb = None then Some cur else None), t_cb = cb, t_thread = -1\<rparr>))"
proof -
  define m' where "m' = (if int (length (io_fds m)) > fd then m else contextResize (nat (fd * 3 div 2)) m)"
  have wf': "wf_io m'"
  proof (cases "int (length (io_fds m)) > fd")
    case False
    then have "length (io_fds m) \<le> nat (fd * 3 div 2)" using fd by linarith
    then show ?thesis using contextResize_wf [OF wf] False by (simp add: m'_def)
  qed (simp add: m'_def wf)
  have same: "io_pending m' = io_pending m" "io_sched m' = io_sched m"
    by (simp_all add: m'_def contextResize_def)
  have in': "nat fd < length (io_fds m')"
  proof (cases "int (length (io_fds m)) > fd")
    case False
    then have "fd < fd * 3 div 2" using len fd by linarith
    then show ?thesis using False fd len by (simp add: m'_def contextResize_def)
  qed (use fd in \<open>simp add: m'_def\<close>)
  define fc where "fc = io_fds m' ! nat fd"
  have get: "get_fd fd m' = Inr fc" using in' fd by (simp add: get_fd_def fc_def)
  have ok: "fc_ok fc" "fc_fd fc = fd" using get_fd_ok [OF wf' get] by simp_all
  have v: "fc_events fc \<in> valid_events" using ok by (simp add: fc_ok_def)
  have new: "\<not> has_event (fc_events fc) e"
  proof (cases "int (length (io_fds m)) > fd")
    case True
    then show ?thesis using free fd by (simp add: fc_def m'_def)
  next
    case False
    then have "fc_events fc = NONE"
      using in' fd len
      by (auto simp: fc_def m'_def contextResize_def nth_append new_fd_context_def)
    then show ?thesis by (simp add: has_event_def NONE_def)
  qed
  let ?ctx = "if e = READ then fc_read fc else fc_write fc"
  have c: "ctx_ok False ?ctx" using ctx_of_fc [OF ok(1) e] new by simp
  then have idle: "\<not> ec_scheduler ?ctx \<and> ec_cor ?ctx = None \<and> ec_cb ?ctx = None"
    unfolding ctx_ok_def by simp
  let ?op = "if fc_events fc \<noteq> 0 then EPOLL_CTL_MOD else EPOLL_CTL_ADD"
  have clear: "fc_events fc AND e = 0" using new by (simp add: has_event_def)
  have step: "addEvent epoll_ctl True cur cur_state fd e cb m =
    (if epoll_ctl ?op fd (fc_events fc OR e) < 0 then Inr (-1, m')
     else (let fc1 = fc\<lparr>fc_events := fc_events fc OR e\<rparr>; m1 = m'\<lparr>io_pending := Suc (io_pending m')\<rparr>
       in if cb \<noteq> None then
            Inr (0, put_fd fd (setEventContext e (?ctx\<lparr>ec_scheduler := True, ec_cb := cb\<rparr>) fc1) m1)
          else assert_that (cur_state = EXEC)
            (Inr (0, put_fd fd (setEventContext e (?ctx\<lparr>ec_scheduler := True, ec_cor := Some cur\<rparr>) fc1) m1))))"
    unfolding addEvent_def Let_def m'_def [symmetric] get bindE_simps get_ctx [OF e]
    using clear idle by simp
  show ?thesis
  proof (cases "epoll_ctl ?op fd (fc_events fc OR e) < 0")
    case True
    then show ?thesis using step wf' same by simp
  next
    case False
    define ctx where "ctx = (if cb \<noteq> None then ?ctx\<lparr>ec_scheduler := True, ec_cb := cb\<rparr>
      else ?ctx\<lparr>ec_scheduler := True, ec_cor := Some cur\<rparr>)"
    let ?fc = "setEventContext e ctx (fc\<lparr>fc_events := fc_events fc OR e\<rparr>)"
    let ?m = "put_fd fd ?fc (m'\<lparr>io_pending := Suc (io_pending m')\<rparr>)"
    note a = add_event [OF v e new]
    have ctx: "ctx_ok True ctx" "ctx_task ctx = \<lparr>t_cor = (if cb = None then Some cur else None), t_cb = cb, t_thread = -1\<rparr>"
      using idle by (auto simp: ctx_def ctx_ok_def ctx_task_def)
    have run: "addEvent epoll_ctl True cur cur_state fd e cb m = Inr (0, ?m)"
      using step False cb by (auto simp: ctx_def Let_def)
    have "wf_io ?m"
      using wf' in' arm_ok [OF ok(1) e new ctx(1)]
    proof (rule wf_io_put)
      show "fc_fd ?fc = int (nat fd)" using ok fd by simp
      show "io_fds ?m = (io_fds m')[nat fd := ?fc]" by (simp add: put_fd_def)
      show "io_pending ?m + event_count (fc_events (io_fds m' ! nat fd)) = io_pending m' + event_count (fc_events ?fc)"
        using a by (simp add: fc_def put_fd_def)
    qed
    moreover have "get_fd fd ?m = Inr ?fc" using in' fd by (simp add: get_fd_def put_fd_def)
    moreover have "(if e = READ then fc_read ?fc else fc_write ?fc) = ctx"
      using e by (auto simp: setEventContext_def)
    ultimately show ?thesis using run a ctx(2) same by (simp add: put_fd_def)
  qed
qed

subsection \<open>Ready events\<close>

lemma handle_ready_registered:
  assumes wf: "wf_io m" and get: "get_fd fd m = Inr fc"
    and sub: "has_event evs READ \<longrightarrow> has_event (fc_events fc) READ" "has_event evs WRITE \<longrightarrow> has_event (fc_events fc) WRITE"
    and err: "evs AND (EPOLLERR OR EPOLLHUP) = 0"
  shows "\<exists>m1. handle_ready epoll_ctl (Fd_ready fd evs) m = Inr m1 \<and> wf_io m1
    \<and> (m1 = m \<or> io_pending m = io_pending m1 + event_count evs)"
proof -
  define real where "real = (if evs AND READ \<noteq> 0 then READ else NONE) OR (if evs AND WRITE \<noteq> 0 then WRITE else NONE)"
  have real: "has_event real READ = has_event evs READ" "has_event real WRITE = has_event evs WRITE"
    by (auto simp: real_def has_event_def READ_def WRITE_def NONE_def)
  let ?left = "fc_events fc AND NOT real"
  let ?op = "if ?left \<noteq> 0 then EPOLL_CTL_MOD else EPOLL_CTL_DEL"
  have step: "handle_ready epoll_ctl (Fd_ready fd evs) m =
     (if fc_events fc AND real = NONE then Inr m
      else if epoll_ctl ?op (fc_fd fc) ?left < 0 then Inr m
      else bindE (trigger_if real fd READ m) (trigger_if real fd WRITE))"
    using err by (simp add: handle_ready_def get real_def Let_def)
  show ?thesis
  proof (cases "fc_events fc AND real = NONE \<or> epoll_ctl ?op (fc_fd fc) ?left < 0")
    case True
    then have "handle_ready epoll_ctl (Fd_ready fd evs) m = Inr m" unfolding step by auto
    then show ?thesis using wf by blast
  next
    case False
    have R: "READ = READ \<or> READ = WRITE" and W: "WRITE = READ \<or> WRITE = WRITE" by simp_all
    from trigger_if_ok [OF wf get R, of real] sub(1) real obtain m1 fc1 where
      1: "trigger_if real fd READ m = Inr m1" "wf_io m1" "get_fd fd m1 = Inr fc1"
        "io_pending m = io_pending m1 + (if has_event real READ then 1 else 0)"
        "fc_events fc1 = (if has_event real READ then fc_events fc AND NOT READ else fc_events fc)"
      by auto
    have v: "fc_events fc \<in> valid_events" using get_fd_ok [OF wf get] by (simp add: fc_ok_def)
    have "has_event (fc_events fc1) WRITE" if "has_event real WRITE"
      using 1(5) that sub real drop_event [OF v R] by (auto split: if_splits)
    from trigger_if_ok [OF 1(2,3) W this] obtain m2 where
      2: "trigger_if real fd WRITE m1 = Inr m2" "wf_io m2"
        "io_pending m1 = io_pending m2 + (if has_event real WRITE then 1 else 0)"
      by blast
    have "handle_ready epoll_ctl (Fd_ready fd evs) m = Inr m2" using False 1(1) 2(1) unfolding step by auto
    moreover have "io_pending m = io_pending m2 + event_count evs"
      using 1(4) 2(3) real by (simp add: event_count_def)
    ultimately show ?thesis using 2(2) by blast
  qed
qed

text \<open>
  An event that \<open>epoll_wait\<close> brought back but another thread deleted meanwhile, while
  the other event of the descriptor stays registered: the assertion fails.
\<close>

lemma handle_ready_stale:
  assumes get: "get_fd fd m = Inr fc" and w: "fc_events fc = WRITE"
    and evs: "evs = READ OR WRITE" and ep: "epoll_ctl EPOLL_CTL_DEL (fc_fd fc) 0 = 0"
  shows "handle_ready epoll_ctl (Fd_ready fd evs) m = Inl Assert_failed"
  using ep by (simp add: handle_ready_def get w evs Let_def READ_def WRITE_def NONE_def EPOLLERR_def
      EPOLLHUP_def trigger_if_def trigger_at_def triggerEvent_def)

end
