(* ===== verification/Runtime_Properties.thy ===== *)
theory Runtime_Properties
  imports Io_Manager
begin

text \<open>
  What the runtime promises: timers that stay in order and fire, coroutines that live
  once, a scheduler whose counters tell which threads work, and an event manager whose
  registrations agree with the kernel. Each property follows from the lemmas of its
  component and comes with a small run.
\<close>

section \<open>Timers\<close>

text \<open>A manager with one recurring timer of ten milliseconds, due at 110.\<close>

abbreviation one_timer :: "nat timer_manager" where
  "one_timer \<equiv> fst (addTimer 100 0 10 (Some 7) True
     (TimerManager (\<lambda>_. \<lparr>tr_ms = 0, tr_cb = None, tr_recurring = False, tr_next = 0\<rparr>) 0))"

lemma one_timer_eq:
  "tm_timers one_timer = [0]" "tr_next (tm_heap one_timer 0) = 110" "tr_ms (tm_heap one_timer 0) = 10"
  "tr_cb (tm_heap one_timer 0) = Some 7" "tr_recurring (tm_heap one_timer 0)" "tm_previousTime one_timer = 0"
  by (simp_all add: addTimer_def insert_timer_def new_timer_def TimerManager_def set_insert_def
      insort_insert_key_def Let_def)

lemma one_timer_wf: "wf_timers one_timer"
  by (rule addTimer_wf [OF TimerManager_wf]) (simp_all add: TimerManager_def)



text \<open>
  When no timer is past its deadline and the clock was not set back, exactly the timers due now
  hand out their callbacks, in order; the recurring ones wait again, for their whole period, and
  the others are gone.
\<close>

theorem due_timers_fire:
  assumes "wf_timers m" and "\<not> fst (checkClockChange now m)"
    and "\<forall>p \<in> set (tm_timers m). now \<le> tr_next (tm_heap m p)"
  shows "fst (listExpiredCb now q m)
           = map (\<lambda>p. tr_cb (tm_heap m p)) (filter (\<lambda>p. tr_next (tm_heap m p) \<le> now) (tm_timers m))
       \<and> set (tm_timers (snd (listExpiredCb now q m)))
           = {p \<in> set (tm_timers m). now < tr_next (tm_heap m p) \<or> tr_recurring (tm_heap m p)}
       \<and> (\<forall>p \<in> set (tm_timers m). tr_next (tm_heap m p) = now \<longrightarrow> tr_recurring (tm_heap m p) \<longrightarrow>
            tr_next (tm_heap (snd (listExpiredCb now q m)) p) = now + tr_ms (tm_heap m p))"
  using listExpiredCb_on_time [OF assms, of q] assms(3)
  by (auto simp: fired_def not_less intro: order_antisym)

theorem due_timers_fire_witness:
  "fst (listExpiredCb 110 9 one_timer) = [Some 7] \<and> tr_next (tm_heap (snd (listExpiredCb 110 9 one_timer)) 0) = 120"
proof -
  have "\<not> fst (checkClockChange 110 one_timer)" by (simp only: one_timer_eq checkClockChange_def fst_conv) simp
  moreover have "\<forall>p \<in> set (tm_timers one_timer). 110 \<le> tr_next (tm_heap one_timer p)" by (simp add: one_timer_eq)
  ultimately have f: "fst (listExpiredCb 110 9 one_timer) = map (\<lambda>p. tr_cb (tm_heap one_timer p))
        (filter (\<lambda>p. tr_next (tm_heap one_timer p) \<le> 110) (tm_timers one_timer))"
      "0 \<in> set (tm_timers one_timer) \<Longrightarrow> tr_next (tm_heap one_timer 0) = 110 \<Longrightarrow> tr_recurring (tm_heap one_timer 0)
        \<Longrightarrow> tr_next (tm_heap (snd (listExpiredCb 110 9 one_timer)) 0) = 110 + tr_ms (tm_heap one_timer 0)"
    using due_timers_fire [OF one_timer_wf, of 110 9] by blast+
  show ?thesis using f by (simp add: one_timer_eq)
qed

text \<open>
  Once the first timer is past its deadline, no timer fires at all, however late it is, until
  the clock is set back by more than an hour: the guard that should stop early when nothing is due
  compares the wrong way round, while \<open>getNextTime\<close> keeps answering that a timer is due.
\<close>

theorem late_timer_blocks_all:
  assumes "\<not> fst (checkClockChange now m)" and "tm_timers m = p # ps" and "tr_next (tm_heap m p) < now"
  shows "fst (listExpiredCb now q m) = [] \<and> tm_timers (snd (listExpiredCb now q m)) = p # ps
       \<and> tm_heap (snd (listExpiredCb now q m)) = tm_heap m
       \<and> fst (getNextTime now (snd (listExpiredCb now q m))) = 0"
  using assms by (simp add: listExpiredCb_late getNextTime_def Let_def less_imp_le)

theorem late_timer_blocks_all_witness:
  "fst (listExpiredCb 111 9 one_timer) = [] \<and> tm_timers (snd (listExpiredCb 111 9 one_timer)) = 0 # []
   \<and> tm_heap (snd (listExpiredCb 111 9 one_timer)) = tm_heap one_timer
   \<and> fst (getNextTime 111 (snd (listExpiredCb 111 9 one_timer))) = 0"
  by (rule late_timer_blocks_all) (simp_all add: one_timer_eq checkClockChange_def)

text \<open>
  The waiting time reported for the next timer is zero exactly when some timer is due, and
  never longer than the time left to any timer that is not.
\<close>

theorem next_time_is_earliest:
  assumes "wf_timers m" and "p \<in> set (tm_timers m)"
  shows "(fst (getNextTime now m) = 0 \<longleftrightarrow> (\<exists>p \<in> set (tm_timers m). tr_next (tm_heap m p) \<le> now))
       \<and> (now < tr_next (tm_heap m p) \<longrightarrow> fst (getNextTime now m) \<le> tr_next (tm_heap m p) - now)"
  using getNextTime_earliest [OF assms] by blast

theorem next_time_is_earliest_witness:
  "fst (getNextTime 100 one_timer) \<noteq> 0 \<and> fst (getNextTime 100 one_timer) \<le> 10"
  using next_time_is_earliest [OF one_timer_wf, of 0 100] by (simp add: one_timer_eq)

section \<open>Coroutines\<close>

text \<open>A thread that runs its scheduler's coroutine 0, with two fresh coroutines.\<close>

definition two_cors :: "nat co_thread" where
  "two_cors = \<lparr>th_cors = (\<lambda>c. \<lparr>c_id = c, c_stack_size = 1024, c_state = (if c = 0 then EXEC else INIT),
                                c_cb = Some c, c_use_call = False\<rparr>),
               th_this = Some 0, th_init = Some 0, th_main = Some 0, th_on_cpu = Some 0,
               th_cor_id = 2, th_cor_sum = 3\<rparr>"

lemma two_cors_wf: "wf_thread two_cors"
  by (simp add: two_cors_def wf_thread_def)



text \<open>
  A coroutine that has returned or thrown never runs again: whatever the thread does, its state
  stays what it is until the coroutine is reset.
\<close>

theorem finished_stays_finished:
  assumes "co_run t es t1" and "wf_thread t" and "state_of t c \<in> {TERM', EXCEPTION}"
  shows "state_of t1 c = state_of t c \<and> wf_thread t1"
  using co_run_final [OF assms] co_run_wf [OF assms(1,2)] by blast

text \<open>Coroutine 1 has returned.\<close>

definition one_done :: "nat co_thread" where
  "one_done = setState 1 TERM' two_cors"

lemma one_done_wf: "wf_thread one_done" "state_of one_done 1 = TERM'"
  by (simp_all add: one_done_def two_cors_def wf_thread_def setState_def put_cor_def)

definition two_runs :: "nat co_thread" where
  "two_runs = switch_to 2 (setState 2 EXEC (SetThis (Some 2) one_done))"

lemma one_done_run: "co_run one_done [Swap_in 2] two_runs"
  by (rule co_run_Cons [OF _ _ co_run_Nil])
    (simp_all add: two_runs_def one_done_def two_cors_def swapIn_def setState_def put_cor_def SetThis_def Let_def)

theorem finished_stays_finished_witness:
  "state_of two_runs 1 = state_of one_done 1 \<and> wf_thread two_runs"
  by (rule finished_stays_finished [OF one_done_run one_done_wf(1)])
    (simp add: one_done_def two_cors_def setState_def put_cor_def)

section \<open>The scheduler\<close>

lemma started_wf:
  assumes "Scheduler n False h caller mc = Inr s0" and "distinct ids"
  shows "wf_sched (start ids s0)"
  using assms by (auto simp: Scheduler_def start_def wf_sched_def count_pc_def idling_def
      assert_that_def split: if_splits)

text \<open>A scheduler of two threads.\<close>

definition two_threads :: "nat sched" where
  "two_threads = start [1, 2] (case Scheduler 2 False False 0 0 of Inr s \<Rightarrow> s)"

lemma two_threads_eq: "Scheduler 2 False False 0 0 = Inr (case Scheduler 2 False False 0 0 of Inr s \<Rightarrow> s)"
  by (simp add: Scheduler_def Let_def)

lemma two_threads_fields [simp]:
  "s_queue two_threads = []" "s_threadIds two_threads = [1, 2]" "s_active two_threads = 0"
  "s_idle two_threads = 0" "s_pc two_threads t = At_top" "s_state two_threads c = INIT"
  "s_stopping two_threads = False" "s_autoStop two_threads = False" "s_cb_cor two_threads t = None"
  "s_idle_state two_threads t = INIT" "s_tickles two_threads = 0"
  by (simp_all add: two_threads_def start_def Scheduler_def Let_def)


definition taken_one :: "nat sched" where
  "taken_one = (case sched_run [Submit \<lparr>t_cor = Some 5, t_cb = None, t_thread = -1\<rparr>, Take 1] two_threads of
                  Some (Inr s) \<Rightarrow> s)"

lemma taken_one_run:
  "sched_run [Submit \<lparr>t_cor = Some 5, t_cb = None, t_thread = -1\<rparr>, Take 1] two_threads = Some (Inr taken_one)"
  unfolding taken_one_def
  by (simp add: take_task_def schedule_def scheduleNoLock_def tickle_def Let_def)


text \<open>
  A thread takes the first queued task that is meant for it or for any thread and whose
  coroutine does not already run elsewhere; the tasks it passes over keep their order.
\<close>

theorem scan_takes_first:
  assumes "\<forall>t \<in> set q. t_cor t \<noteq> None \<or> t_cb t \<noteq> None"
  shows "\<exists>tk. scan me st q =
    (case filter (takeable me st) q of [] \<Rightarrow> Inr (None, q, tk) | t # _ \<Rightarrow> Inr (Some t, remove1 t q, tk))"
proof -
  obtain co rest tk where r: "scan me st q = Inr (co, rest, tk)"
    using scan_first [of q me st] assms by (auto simp: runnable_task_def)
  show ?thesis
  proof (cases co)
    case None
    then have "rest = q" using r scan_None by blast
    moreover have "filter (takeable me st) q = []"
      using r None scan_first [of q me st] assms first_index_less_iff [of "takeable me st" q]
      by (auto simp: scan_result_def runnable_task_def filter_empty_conv Let_def split: if_splits)
    ultimately show ?thesis using r None by auto
  next
    case (Some t)
    from scan_Some [OF r [unfolded Some]] obtain xs ys where
      q: "q = xs @ t # ys" "rest = xs @ ys" "takeable me st t" "\<forall>x \<in> set xs. \<not> takeable me st x" .
    then have "filter (takeable me st) q = t # filter (takeable me st) ys" by simp
    moreover have "t \<notin> set xs" using q by blast
    then have "remove1 t q = rest" using q by (simp add: remove1_append)
    ultimately show ?thesis using r Some by auto
  qed
qed

theorem scan_takes_first_witness:
  "\<exists>tk. scan 2 (\<lambda>_. HOLD) [\<lparr>t_cor = Some 1, t_cb = None, t_thread = 1\<rparr>, \<lparr>t_cor = None, t_cb = Some (0::nat), t_thread = -1\<rparr>]
     = (case filter (takeable 2 (\<lambda>_. HOLD)) [\<lparr>t_cor = Some 1, t_cb = None, t_thread = 1\<rparr>, \<lparr>t_cor = None, t_cb = Some 0, t_thread = -1\<rparr>] of
          [] \<Rightarrow> Inr (None, [\<lparr>t_cor = Some 1, t_cb = None, t_thread = 1\<rparr>, \<lparr>t_cor = None, t_cb = Some 0, t_thread = -1\<rparr>], tk)
        | t # _ \<Rightarrow> Inr (Some t, remove1 t [\<lparr>t_cor = Some 1, t_cb = None, t_thread = 1\<rparr>, \<lparr>t_cor = None, t_cb = Some 0, t_thread = -1\<rparr>], tk))"
  by (rule scan_takes_first) simp

text \<open>
  When the scheduler reports that it may stop, nothing is queued and no thread holds or runs a
  task.
\<close>

theorem stopping_means_no_work:
  assumes "wf_sched s" and "stopping s"
  shows "s_queue s = [] \<and> (\<forall>t \<in> set (s_threadIds s). \<not> working (s_pc s t))"
  using assms working_positive(1) [OF assms(1)] by (auto simp: stopping_def)

text \<open>The scheduler of two threads after a request to stop.\<close>

definition stopped :: "nat sched" where
  "stopped = two_threads\<lparr>s_autoStop := True, s_stopping := True\<rparr>"

lemma stopped_ok: "wf_sched stopped" "stopping stopped"
  by (simp_all add: stopped_def wf_sched_def stopping_def count_pc_def idling_def)

theorem stopping_means_no_work_witness:
  "s_queue stopped = [] \<and> \<not> working (s_pc stopped 1)"
  using stopping_means_no_work [OF stopped_ok] by (simp add: stopped_def)

text \<open>
  A coroutine that gives up the processor to be run again is for a moment neither counted nor
  queued: the active counter goes down before the coroutine is scheduled. A stop request in between
  lets the scheduler report that it may stop and another thread exit, with work left.
\<close>

theorem stop_overtakes_ready:
  "\<exists>s. sched_run [Submit \<lparr>t_cor = Some 5, t_cb = None, t_thread = -1\<rparr>, Take 1, Enter 1 9, Leave 1 READY,
          Stop_request, Take 2, Go_idle 2, Idle_back 2, Take 2, Go_idle 2] two_threads = Some (Inr s)
     \<and> stopping s \<and> s_pc s 1 = Left_cor 5 \<and> s_state s 5 = READY \<and> s_pc s 2 = Exited
     \<and> s_queue (after_cor 1 5 s) = [\<lparr>t_cor = Some 5, t_cb = None, t_thread = -1\<rparr>]"
  by (simp add: take_task_def schedule_def scheduleNoLock_def tickle_def sched_moves finished_def
      stopping_def idle_end_def)

text \<open>
  A task meant for one thread loses that mark when its coroutine yields to be run again, and
  another thread takes it.
\<close>

theorem yield_loses_thread:
  "\<exists>s. sched_run [Submit \<lparr>t_cor = Some 5, t_cb = None, t_thread = 1\<rparr>, Take 1, Enter 1 9, Leave 1 READY,
          After 1, Take 2] two_threads = Some (Inr s)
     \<and> s_pc s 2 = Taken \<lparr>t_cor = Some 5, t_cb = None, t_thread = -1\<rparr>"
  by (simp add: take_task_def schedule_def scheduleNoLock_def tickle_def sched_moves finished_def)

section \<open>Events\<close>

text \<open>A manager on that scheduler, with eight descriptors.\<close>

definition small_io :: "nat io_manager" where
  "small_io = contextResize 8 \<lparr>io_fds = [], io_pending = 0, io_pipe = 0, io_sched = two_threads, io_timers = one_timer\<rparr>"

lemma small_io_wf: "wf_io small_io"
  unfolding small_io_def by (rule contextResize_wf) (simp_all add: wf_io_def pending_sum_def)

lemma small_io_fields:
  "length (io_fds small_io) = 8" "\<And>i. i < 8 \<Longrightarrow> io_fds small_io ! i = new_fd_context (int i)"
  by (simp_all add: small_io_def contextResize_def)

text \<open>
  Registering an event that is not registered yet either fails in the kernel and leaves the
  counters alone, or arms exactly that event with the callback, or the current coroutine, and counts
  it as pending; in both cases the registered bits, the armed contexts and the pending count agree.
\<close>

theorem addEvent_arms:
  assumes "wf_io m" and "2 \<le> length (io_fds m)" and "e = READ \<or> e = WRITE" and "0 \<le> fd"
    and "nat fd < length (io_fds m) \<Longrightarrow> \<not> has_event (fc_events (io_fds m ! nat fd)) e"
    and "cb \<noteq> None \<or> cur_state = EXEC"
  shows "\<exists>r m1. addEvent epoll_ctl True cur cur_state fd e cb m = Inr (r, m1) \<and> wf_io m1
    \<and> io_sched m1 = io_sched m \<and> (r = 0 \<or> r = -1)
    \<and> io_pending m1 = io_pending m + (if r = 0 then 1 else 0)
    \<and> (r = 0 \<longrightarrow> (\<exists>fc. get_fd fd m1 = Inr fc \<and> has_event (fc_events fc) e
          \<and> ctx_task (if e = READ then fc_read fc else fc_write fc)
              = \<lparr>t_cor = (if cb = None then Some cur else None), t_cb = cb, t_thread = -1\<rparr>))"
  using assms by (rule addEvent_ok)

text \<open>A kernel that accepts every operation.\<close>

definition ep_ok :: epoll where
  "ep_ok op fd ev = 0"

theorem addEvent_arms_witness:
  "\<exists>r m1. addEvent ep_ok True 3 EXEC 20 READ None small_io = Inr (r, m1) \<and> wf_io m1
    \<and> io_sched m1 = io_sched small_io \<and> (r = 0 \<or> r = -1)
    \<and> io_pending m1 = io_pending small_io + (if r = 0 then 1 else 0)
    \<and> (r = 0 \<longrightarrow> (\<exists>fc. get_fd 20 m1 = Inr fc \<and> has_event (fc_events fc) READ
          \<and> ctx_task (if READ = READ then fc_read fc else fc_write fc)
              = \<lparr>t_cor = (if None = (None :: nat option) then Some 3 else None), t_cb = None, t_thread = -1\<rparr>))"
  by (rule addEvent_arms [OF small_io_wf]) (simp_all add: small_io_fields)


definition one_waiter :: "nat io_manager" where
  "one_waiter = (case addEvent ep_ok True 3 EXEC 2 READ None small_io of Inr (_, m) \<Rightarrow> m)"

lemma one_waiter_wf: "wf_io one_waiter"
  using addEvent_ok [OF small_io_wf, of READ 2 "None" EXEC ep_ok 3] small_io_fields
  by (auto simp: one_waiter_def new_fd_context_def has_event_def NONE_def)


text \<open>
  Events that the kernel reports on a descriptor where they are registered wake their tasks
  without an assertion; the manager stays consistent and no event is counted twice.
\<close>

theorem ready_events_wake:
  assumes "wf_io m" and "get_fd fd m = Inr fc"
    and "has_event evs READ \<longrightarrow> has_event (fc_events fc) READ"
    and "has_event evs WRITE \<longrightarrow> has_event (fc_events fc) WRITE"
    and "evs AND (EPOLLERR OR EPOLLHUP) = 0"
  shows "\<exists>m1. handle_ready epoll_ctl (Fd_ready fd evs) m = Inr m1 \<and> wf_io m1
    \<and> (m1 = m \<or> io_pending m = io_pending m1 + event_count evs)"
  by (rule handle_ready_registered [OF assms])

theorem ready_events_wake_witness:
  "\<exists>m1. handle_ready ep_ok (Fd_ready 2 0) small_io = Inr m1 \<and> wf_io m1
    \<and> (m1 = small_io \<or> io_pending small_io = io_pending m1 + event_count 0)"
  by (rule ready_events_wake [OF small_io_wf, where fc = "new_fd_context 2"])
    (simp_all add: get_fd_def small_io_fields has_event_def)

text \<open>
  Both events of a descriptor were reported, but another thread deleted the read event before
  the report is handled: the handler takes the read event for registered because the write event
  still is, and its assertion aborts the program.
\<close>

theorem stale_event_aborts:
  assumes "get_fd fd m = Inr fc" and "fc_events fc = WRITE" and "epoll_ctl EPOLL_CTL_DEL (fc_fd fc) 0 = 0"
  shows "handle_ready epoll_ctl (Fd_ready fd (READ OR WRITE)) m = Inl Assert_failed"
  by (rule handle_ready_stale) (use assms in simp_all)

definition write_waiter :: "nat io_manager" where
  "write_waiter = small_io\<lparr>io_fds := [(new_fd_context 0)\<lparr>fc_events := WRITE\<rparr>]\<rparr>"

theorem stale_event_aborts_witness:
  "handle_ready ep_ok (Fd_ready 0 (READ OR WRITE)) write_waiter = Inl Assert_failed"
  by (rule stale_event_aborts [where fc = "(new_fd_context 0)\<lparr>fc_events := WRITE\<rparr>"])
    (simp_all add: get_fd_def write_waiter_def ep_ok_def)

text \<open>
  When the event manager reports that it may stop, no event is registered on any descriptor, no
  timer waits, and no thread has work.
\<close>

theorem io_stopping_means_idle:
  assumes "wf_io m" and "wf_sched (io_sched m)" and "io_stopping m"
  shows "(\<forall>fc \<in> set (io_fds m). fc_events fc = 0) \<and> tm_timers (io_timers m) = []
       \<and> (\<forall>t \<in> set (s_threadIds (io_sched m)). \<not> working (s_pc (io_sched m) t))"
proof -
  have "fc_events (io_fds m ! i) = 0" if "i < length (io_fds m)" for i
  proof (rule no_events_left)
    have "event_count (fc_events (io_fds m ! i)) = 0"
      using pending_sum_ge [OF that] assms(1,3) by (simp add: wf_io_def io_stopping_def)
    then show "\<not> has_event (fc_events (io_fds m ! i)) READ" "\<not> has_event (fc_events (io_fds m ! i)) WRITE"
      by (auto simp: event_count_def split: if_splits)
    show "fc_events (io_fds m ! i) \<in> valid_events"
      using assms(1) that by (simp add: wf_io_def fc_ok_def)
  qed
  then have "\<forall>fc \<in> set (io_fds m). fc_events fc = 0" by (auto simp: in_set_conv_nth)
  then show ?thesis
    using assms working_positive(1) [OF assms(2)]
    by (auto simp: io_stopping_def isTimersEmpty_def stopping_def)
qed

text \<open>The same manager without a timer, on the stopped scheduler.\<close>

definition quiet_io :: "nat io_manager" where
  "quiet_io = small_io\<lparr>io_sched := stopped, io_timers := TimerManager (tm_heap one_timer) 0\<rparr>"

theorem io_stopping_means_idle_witness:
  "fc_events (io_fds quiet_io ! 3) = 0 \<and> tm_timers (io_timers quiet_io) = []
   \<and> \<not> working (s_pc (io_sched quiet_io) 2)"
proof -
  have "wf_io quiet_io" "wf_sched (io_sched quiet_io)" "io_stopping quiet_io"
    using small_io_wf stopped_ok
    by (simp_all add: quiet_io_def wf_io_def io_stopping_def isTimersEmpty_def TimerManager_def
        small_io_def contextResize_def)
  from io_stopping_means_idle [OF this] show ?thesis
    by (simp add: quiet_io_def small_io_fields stopped_def TimerManager_def new_fd_context_def NONE_def)
qed

end
