(* ===== verification/Fd_Manager.thy ===== *)
theory Fd_Manager
  imports Prelude
begin

text \<open>
  \<open>fdmanager.h\<close> and \<open>fdmanager.cpp\<close>: what the hooks know of a descriptor. The
  kernel's side is \<open>kernel\<close>: whether \<open>fstat\<close> succeeds and finds a socket, and the
  \<open>O_NONBLOCK\<close> flag that \<open>fcntl\<close> reads and sets. A context is shared by pointer; it
  lives in the slot of its descriptor.
\<close>

type_synonym timeout = "64 word"

record fd_ctx =
  m_isInit :: bool
  m_isSocket :: bool
  m_userNonblock :: bool
  m_sysNonblock :: bool
  m_isClosed :: bool
  m_fd :: int
  m_recvTimeout :: timeout
  m_sendTimeout :: timeout

record kernel =
  k_fstat :: "int \<Rightarrow> bool option"
  k_nonblock :: "int \<Rightarrow> bool"

type_synonym fd_manager = "fd_ctx option list"

datatype timeout_opt = SO_RCVTIMEO | SO_SNDTIMEO

definition set_nonblock :: "int \<Rightarrow> bool \<Rightarrow> kernel \<Rightarrow> kernel" where
  "set_nonblock fd b k = k\<lparr>k_nonblock := (k_nonblock k)(fd := b)\<rparr>"

definition init :: "fd_ctx \<Rightarrow> kernel \<Rightarrow> bool \<times> fd_ctx \<times> kernel" where
  "init c k =
     (if m_isInit c then (True, c, k)
      else
        let c1 = (case k_fstat k (m_fd c) of
                    None \<Rightarrow> c\<lparr>m_isInit := False, m_isSocket := False\<rparr>
                  | Some sock \<Rightarrow> c\<lparr>m_isInit := True, m_isSocket := sock\<rparr>);
            k1 = (if m_isSocket c1 \<and> \<not> k_nonblock k (m_fd c) then set_nonblock (m_fd c) True k else k);
            c2 = c1\<lparr>m_sysNonblock := m_isSocket c1, m_userNonblock := False, m_isClosed := False\<rparr>
        in (m_isInit c2, c2, k1))"

definition FdCtx :: "int \<Rightarrow> kernel \<Rightarrow> fd_ctx \<times> kernel" where
  "FdCtx fd k =
     (let (_, c, k1) = init \<lparr>m_isInit = False, m_isSocket = False, m_userNonblock = False,
            m_sysNonblock = False, m_isClosed = False, m_fd = fd, m_recvTimeout = -1, m_sendTimeout = -1\<rparr> k
      in (c, k1))"

definition setTimeout :: "timeout_opt \<Rightarrow> timeout \<Rightarrow> fd_ctx \<Rightarrow> fd_ctx" where
  "setTimeout type time c =
     (if type = SO_RCVTIMEO then c\<lparr>m_recvTimeout := time\<rparr> else c\<lparr>m_sendTimeout := time\<rparr>)"

definition getTimeout :: "timeout_opt \<Rightarrow> fd_ctx \<Rightarrow> timeout" where
  "getTimeout type c = (if type = SO_RCVTIMEO then m_recvTimeout c else m_sendTimeout c)"

definition FdManager :: fd_manager where
  "FdManager = replicate 64 None"

definition resize_fds :: "nat \<Rightarrow> fd_manager \<Rightarrow> fd_manager" where
  "resize_fds n fds = take n fds @ replicate (n - length fds) None"

definition get_ctx_fd ::
  "int \<Rightarrow> bool \<Rightarrow> fd_manager \<Rightarrow> kernel \<Rightarrow> (fd_ctx option \<times> fd_manager \<times> kernel) res" where
  "get_ctx_fd fd auto_create fds k =
     (if fd = -1 then Inr (None, fds, k)
      else if int (length fds) \<le> fd \<and> \<not> auto_create then Inr (None, fds, k)
      else if fd < 0 then Inl Out_of_bounds
      else if fd < int (length fds) \<and> (fds ! nat fd \<noteq> None \<or> \<not> auto_create)
        then Inr (fds ! nat fd, fds, k)
      else
        let (ctx, k1) = FdCtx fd k;
            fds1 = (if fd \<ge> int (length fds) then resize_fds (nat (fd * 3 div 2)) fds else fds)
        in if nat fd < length fds1 then Inr (Some ctx, fds1[nat fd := Some ctx], k1)
           else Inl Out_of_bounds)"

definition del_ctx_fd :: "int \<Rightarrow> fd_manager \<Rightarrow> fd_manager res" where
  "del_ctx_fd fd fds =
     (if int (length fds) \<le> fd then Inr fds
      else if fd < 0 then Inl Out_of_bounds
      else Inr (fds[nat fd := None]))"

text \<open>Storing the context back into its slot after it was changed through the pointer.\<close>

definition put_ctx :: "int \<Rightarrow> fd_ctx \<Rightarrow> fd_manager \<Rightarrow> fd_manager" where
  "put_ctx fd c fds = fds[nat fd := Some c]"

section \<open>Invariant\<close>

text \<open>
  Every slot holds the context of its own descriptor; what is known to be a socket is
  non-blocking in the kernel, which the hooks of the blocking calls rely on.
\<close>

definition slot_ok :: "kernel \<Rightarrow> nat \<Rightarrow> fd_ctx option \<Rightarrow> bool" where
  "slot_ok k i s \<longleftrightarrow>
     (case s of None \<Rightarrow> True
      | Some c \<Rightarrow> m_fd c = int i \<and> m_sysNonblock c = m_isSocket c \<and> (m_isSocket c \<longrightarrow> k_nonblock k (int i)))"

definition wf_fds :: "fd_manager \<Rightarrow> kernel \<Rightarrow> bool" where
  "wf_fds fds k \<longleftrightarrow> 64 \<le> length fds \<and> (\<forall>i < length fds. slot_ok k i (fds ! i))"

lemma slot_ok_None [simp]: "slot_ok k i None"
  by (simp add: slot_ok_def)

lemma FdCtx_fields:
  assumes "FdCtx fd k = (c, k1)"
  shows "m_fd c = fd \<and> m_sysNonblock c = m_isSocket c \<and> (m_isSocket c \<longrightarrow> k_nonblock k1 fd)
       \<and> m_isSocket c = (k_fstat k fd = Some True)
       \<and> k_fstat k1 = k_fstat k \<and> (\<forall>fd'. k_nonblock k fd' \<longrightarrow> k_nonblock k1 fd')
       \<and> m_recvTimeout c = -1 \<and> m_sendTimeout c = -1 \<and> \<not> m_userNonblock c \<and> \<not> m_isClosed c"
  using assms
  by (auto simp: FdCtx_def init_def set_nonblock_def Let_def split: option.splits if_splits)

lemma slot_ok_mono:
  "slot_ok k i s \<Longrightarrow> \<forall>fd'. k_nonblock k fd' \<longrightarrow> k_nonblock k1 fd' \<Longrightarrow> slot_ok k1 i s"
  by (auto simp: slot_ok_def split: option.splits)

lemma wf_fds_put:
  assumes wf: "wf_fds fds k" and s: "slot_ok k1 (nat fd) s"
    and mono: "\<forall>fd'. k_nonblock k fd' \<longrightarrow> k_nonblock k1 fd'"
  shows "wf_fds (fds[nat fd := s]) k1"
proof -
  have "slot_ok k1 i (fds[nat fd := s] ! i)" if "i < length fds" for i
    using that wf s slot_ok_mono [OF _ mono] by (cases "i = nat fd") (simp_all add: wf_fds_def)
  then show ?thesis using wf by (simp add: wf_fds_def)
qed

lemma wf_fds_resize: "wf_fds fds k \<Longrightarrow> length fds \<le> n \<Longrightarrow> wf_fds (resize_fds n fds) k"
  by (auto simp: wf_fds_def resize_fds_def nth_append)

lemma get_ctx_fd_ok:
  assumes wf: "wf_fds fds k" and fd: "-1 \<le> fd"
  shows "\<exists>c fds1 k1. get_ctx_fd fd auto_create fds k = Inr (c, fds1, k1) \<and> wf_fds fds1 k1
    \<and> (auto_create \<and> fd \<noteq> -1 \<longrightarrow> (\<exists>ctx. c = Some ctx \<and> m_fd ctx = fd \<and> nat fd < length fds1 \<and> fds1 ! nat fd = c))
    \<and> (\<not> auto_create \<longrightarrow> fds1 = fds \<and> k1 = k)"
proof -
  consider "fd = -1" | "0 \<le> fd" "int (length fds) \<le> fd" "\<not> auto_create"
    | "0 \<le> fd" "fd < int (length fds)" "fds ! nat fd \<noteq> None \<or> \<not> auto_create"
    | "0 \<le> fd" "auto_create" "fd < int (length fds) \<longrightarrow> fds ! nat fd = None"
    using fd by fastforce
  then show ?thesis
  proof cases
    case 3
    then have "nat fd < length fds" by linarith
    then have "slot_ok k (nat fd) (fds ! nat fd)" using wf by (simp add: wf_fds_def)
    then show ?thesis
      using 3 wf \<open>nat fd < length fds\<close> by (auto simp: get_ctx_fd_def slot_ok_def split: option.splits)
  next
    case 4
    obtain c k1 where c: "FdCtx fd k = (c, k1)" by fastforce
    note f = FdCtx_fields [OF c]
    define fds1 where "fds1 = (if fd \<ge> int (length fds) then resize_fds (nat (fd * 3 div 2)) fds else fds)"
    have "64 \<le> length fds" using wf by (simp add: wf_fds_def)
    then have grow: "length fds \<le> nat (fd * 3 div 2) \<and> fd < fd * 3 div 2" if "fd \<ge> int (length fds)"
      using that by linarith
    then have len: "nat fd < length fds1" using 4 by (auto simp: fds1_def resize_fds_def)
    have "wf_fds fds1 k" using wf wf_fds_resize [OF wf] grow by (simp add: fds1_def)
    then have "wf_fds (fds1[nat fd := Some c]) k1" using f 4(1) by (intro wf_fds_put) (auto simp: slot_ok_def)
    moreover have "get_ctx_fd fd auto_create fds k = Inr (Some c, fds1[nat fd := Some c], k1)"
      using 4 c len fds1_def by (auto simp: get_ctx_fd_def Let_def)
    ultimately show ?thesis using f 4 len by simp
  qed (use wf in \<open>auto simp: get_ctx_fd_def\<close>)
qed

lemma del_ctx_fd_ok:
  assumes "wf_fds fds k" and "0 \<le> fd"
  shows "\<exists>fds1. del_ctx_fd fd fds = Inr fds1 \<and> wf_fds fds1 k \<and> length fds1 = length fds
    \<and> (nat fd < length fds1 \<longrightarrow> fds1 ! nat fd = None)"
  using assms wf_fds_put [OF assms(1), of k fd None] by (auto simp: del_ctx_fd_def)

end
