(* ===== verification/Hook.thy ===== *)
theory Hook
  imports Io_Manager Fd_Manager
begin

text \<open>
  \<open>hook.cpp\<close>: the blocking system calls of a thread under a scheduler. A call that
  would block registers the event and a timeout, gives up the processor and tries
  again when it is resumed. \<open>do_io\<close> is cut where the coroutine is suspended: entering,
  an attempt, and the resumption; what the original functions return is an argument.
  The callbacks the hooks hand to timers are the constructors of \<open>hook_cb\<close>;
  \<open>hk_tinfo\<close> holds the shared \<open>timer_info\<close>, \<open>None\<close> once it is freed.
\<close>

unbundle bit_operations_syntax

datatype hook_cb =
    Io_timeout nat int event
  | Resume cor_addr
  | User_cb nat

record hook =
  hk_enable :: bool
  hk_has_iom :: bool
  hk_cur :: cor_addr
  hk_errno :: int
  hk_io :: "hook_cb io_manager"
  hk_tinfo :: "nat \<Rightarrow> int option"
  hk_fds :: fd_manager
  hk_kernel :: kernel

definition EINTR :: int where "EINTR = 4"
definition EBADF :: int where "EBADF = 9"
definition EAGAIN :: int where "EAGAIN = 11"
definition ETIMEDOUT :: int where "ETIMEDOUT = 110"
definition EINPROGRESS :: int where "EINPROGRESS = 115"

definition set_errno :: "int \<Rightarrow> hook \<Rightarrow> hook" where
  "set_errno e h = h\<lparr>hk_errno := e\<rparr>"

section \<open>Reading and writing\<close>

text \<open>Where a hooked call stands; \<open>Pass_through\<close> leaves everything to the original function.\<close>

datatype io_pc =
    Pass_through
  | Returned int
  | Attempting timeout nat
  | Waiting timeout nat "addr option"

text \<open>Entering: \<open>ti\<close> is where the fresh \<open>timer_info\<close> goes.\<close>

definition do_io_enter :: "int \<Rightarrow> timeout_opt \<Rightarrow> nat \<Rightarrow> hook \<Rightarrow> (io_pc \<times> hook) res" where
  "do_io_enter fd timeout_so ti h =
     (if \<not> hk_enable h then Inr (Pass_through, h)
      else bindE (get_ctx_fd fd False (hk_fds h) (hk_kernel h)) (\<lambda>(ctx, _, _).
        case ctx of
          None \<Rightarrow> Inr (Pass_through, h)
        | Some c \<Rightarrow>
            if m_isClosed c then Inr (Returned (-1), set_errno EBADF h)
            else if \<not> m_isSocket c \<or> m_userNonblock c then Inr (Pass_through, h)
            else Inr (Attempting (getTimeout timeout_so c) ti, h\<lparr>hk_tinfo := (hk_tinfo h)(ti := Some 0)\<rparr>)))"

text \<open>The original function, called again as long as it was interrupted.\<close>

fun skip_eintr :: "(int \<times> int) list \<Rightarrow> (int \<times> int) option" where
  "skip_eintr [] = None"
| "skip_eintr ((n, err) # rs) = (if n = -1 \<and> err = EINTR then skip_eintr rs else Some (n, err))"

text \<open>The end of a call frees the \<open>timer_info\<close> and leaves \<open>errno\<close> as it is.\<close>

definition finish_io :: "int \<Rightarrow> nat \<Rightarrow> hook \<Rightarrow> (io_pc \<times> hook) res" where
  "finish_io n ti h = Inr (Returned n, h\<lparr>hk_tinfo := (hk_tinfo h)(ti := None)\<rparr>)"

definition cancel_timer :: "addr option \<Rightarrow> hook \<Rightarrow> hook" where
  "cancel_timer timer h =
     (case timer of
        None \<Rightarrow> h
      | Some p \<Rightarrow> h\<lparr>hk_io := (hk_io h)\<lparr>io_timers := snd (cancel p (io_timers (hk_io h)))\<rparr>\<rparr>)"

text \<open>\<open>addConditionTimer\<close> and then \<open>addEvent\<close>, as \<open>do_io\<close> and \<open>connect\<close> do; \<open>p\<close> is the fresh timer.\<close>

definition arm_io ::
  "epoll \<Rightarrow> ms \<Rightarrow> addr \<Rightarrow> int \<Rightarrow> event \<Rightarrow> timeout \<Rightarrow> nat \<Rightarrow> hook \<Rightarrow> (int \<times> addr option \<times> hook) res" where
  "arm_io epoll_ctl now p fd event timeout ti h =
     (if \<not> hk_has_iom h then Inl Null_deref
      else
        let (timer, io) =
              (if timeout \<noteq> -1
               then (Some p, io_addTimer now p timeout (Some (Io_timeout ti fd event)) False (hk_io h))
               else (None, hk_io h))
        in bindE (addEvent epoll_ctl True (hk_cur h) EXEC fd event None io) (\<lambda>(ret, io1).
           Inr (ret, timer, h\<lparr>hk_io := io1\<rparr>)))"

definition do_io_attempt ::
  "epoll \<Rightarrow> ms \<Rightarrow> addr \<Rightarrow> int \<Rightarrow> event \<Rightarrow> timeout \<Rightarrow> nat \<Rightarrow> int \<times> int \<Rightarrow> hook \<Rightarrow> (io_pc \<times> hook) res" where
  "do_io_attempt epoll_ctl now p fd event timeout ti r h =
     (let (n, err) = r; h1 = (if n = -1 then set_errno err h else h) in
      if n = -1 \<and> err = EAGAIN then
        bindE (arm_io epoll_ctl now p fd event timeout ti h1) (\<lambda>(ret, timer, h2).
          if ret < 0 then finish_io (-1) ti (cancel_timer timer h2)
          else Inr (Waiting timeout ti timer, h2))
      else finish_io n ti h1)"

definition do_io_resume :: "timeout \<Rightarrow> nat \<Rightarrow> addr option \<Rightarrow> hook \<Rightarrow> (io_pc \<times> hook) res" where
  "do_io_resume timeout ti timer h =
     (let h1 = cancel_timer timer h in
      case hk_tinfo h1 ti of
        None \<Rightarrow> Inl Null_deref
      | Some canceled \<Rightarrow>
          if canceled \<noteq> 0 then finish_io (-1) ti (set_errno canceled h1)
          else Inr (Attempting timeout ti, h1))"

text \<open>The timer's callback: \<open>OnTimer\<close> and the lambda under it.\<close>

definition run_io_timeout :: "epoll \<Rightarrow> nat \<Rightarrow> int \<Rightarrow> event \<Rightarrow> hook \<Rightarrow> hook res" where
  "run_io_timeout epoll_ctl ti fd event h =
     (case hk_tinfo h ti of
        None \<Rightarrow> Inr h
      | Some canceled \<Rightarrow>
          if canceled \<noteq> 0 then Inr h
          else
            let h1 = h\<lparr>hk_tinfo := (hk_tinfo h)(ti := Some ETIMEDOUT)\<rparr> in
            bindE (cancelEvent epoll_ctl fd event (hk_io h1)) (\<lambda>(_, io1). Inr (h1\<lparr>hk_io := io1\<rparr>)))"

text \<open>Which event and which timeout each hooked call waits with.\<close>

datatype hooked =
    H_accept | H_read | H_readv | H_recv | H_recvfrom | H_recvmsg
  | H_write | H_writev | H_send | H_sendto | H_sendmsg

definition hooked_event :: "hooked \<Rightarrow> event \<times> timeout_opt" where
  "hooked_event c =
     (if c \<in> {H_accept, H_read, H_readv, H_recv, H_recvfrom, H_recvmsg}
      then (READ, SO_RCVTIMEO) else (WRITE, SO_SNDTIMEO))"

section \<open>Sleeping\<close>

definition sleep_for :: "ms \<Rightarrow> addr \<Rightarrow> ms \<Rightarrow> hook \<Rightarrow> hook res" where
  "sleep_for now p dur h =
     (if \<not> hk_has_iom h then Inl Null_deref
      else Inr (h\<lparr>hk_io := io_addTimer now p dur (Some (Resume (hk_cur h))) False (hk_io h)\<rparr>))"

text \<open>\<open>secends * 1000\<close> is computed in \<open>unsigned int\<close>.\<close>

definition sleep_ms :: "32 word \<Rightarrow> ms" where
  "sleep_ms secends = ucast (secends * 1000)"

definition usleep_ms :: "32 word \<Rightarrow> ms" where
  "usleep_ms usec = ucast (usec div 1000)"

record timespec =
  tv_sec :: int
  tv_nsec :: int

definition timespec_ms :: "timespec \<Rightarrow> ms" where
  "timespec_ms t = word_of_int (tv_sec t * 1000 + tv_nsec t div 1000 div 1000)"

definition nanosleep_ms :: "int \<Rightarrow> timespec \<Rightarrow> timespec option \<Rightarrow> ms" where
  "nanosleep_ms errno req rem =
     (if errno = EINTR then (case rem of Some r \<Rightarrow> timespec_ms r | None \<Rightarrow> 0)
      else timespec_ms req)"

definition hook_sleep :: "ms \<Rightarrow> addr \<Rightarrow> 32 word \<Rightarrow> hook \<Rightarrow> hook res" where
  "hook_sleep now p secends h = sleep_for now p (sleep_ms secends) h"

definition hook_usleep :: "ms \<Rightarrow> addr \<Rightarrow> 32 word \<Rightarrow> hook \<Rightarrow> hook res" where
  "hook_usleep now p usec h = sleep_for now p (usleep_ms usec) h"

definition hook_nanosleep :: "ms \<Rightarrow> addr \<Rightarrow> timespec \<Rightarrow> timespec option \<Rightarrow> hook \<Rightarrow> hook res" where
  "hook_nanosleep now p req rem h = sleep_for now p (nanosleep_ms (hk_errno h) req rem) h"

section \<open>Sockets\<close>

definition with_ctx :: "int \<Rightarrow> bool \<Rightarrow> hook \<Rightarrow> (fd_ctx option \<times> hook) res" where
  "with_ctx fd auto_create h =
     bindE (get_ctx_fd fd auto_create (hk_fds h) (hk_kernel h)) (\<lambda>(c, fds, k).
     Inr (c, h\<lparr>hk_fds := fds, hk_kernel := k\<rparr>))"

text \<open>\<open>fd\<close> is what the original \<open>socket\<close> returned.\<close>

definition hook_socket :: "int \<Rightarrow> hook \<Rightarrow> (int \<times> hook) res" where
  "hook_socket fd h =
     (if \<not> hk_enable h \<or> fd < 0 then Inr (fd, h)
      else bindE (with_ctx fd True h) (\<lambda>(_, h1). Inr (fd, h1)))"

text \<open>The end of \<open>accept\<close>: \<open>fd\<close> is what \<open>do_io\<close> returned.\<close>

definition hook_accept_end :: "int \<Rightarrow> hook \<Rightarrow> (int \<times> hook) res" where
  "hook_accept_end fd h =
     (if fd \<ge> 0 then bindE (with_ctx fd True h) (\<lambda>(_, h1). Inr (fd, h1)) else Inr (fd, h))"

datatype connect_pc =
    Conn_original
  | Conn_returned int
  | Conn_waiting nat "addr option"
  | Conn_check nat

definition connect_enter :: "int \<Rightarrow> hook \<Rightarrow> (connect_pc option \<times> hook) res" where
  "connect_enter sockfd h =
     (if \<not> hk_enable h then Inr (Some Conn_original, h)
      else bindE (with_ctx sockfd False h) (\<lambda>(ctx, h1).
        case ctx of
          None \<Rightarrow> Inr (Some (Conn_returned (-1)), set_errno EBADF h1)
        | Some c \<Rightarrow>
            if m_isClosed c then Inr (Some (Conn_returned (-1)), set_errno EBADF h1)
            else if \<not> m_isSocket c \<or> m_userNonblock c then Inr (Some Conn_original, h1)
            else Inr (None, h1)))"

definition connect_attempt ::
  "epoll \<Rightarrow> ms \<Rightarrow> addr \<Rightarrow> int \<Rightarrow> timeout \<Rightarrow> nat \<Rightarrow> int \<times> int \<Rightarrow> hook \<Rightarrow> (connect_pc \<times> hook) res" where
  "connect_attempt epoll_ctl now p sockfd timeout_ms ti r h =
     (let (n, err) = r; h1 = (if n = -1 then set_errno err h else h) in
      if n = 0 then Inr (Conn_returned 0, h1)
      else if n \<noteq> -1 \<or> err \<noteq> EINPROGRESS then Inr (Conn_returned n, h1)
      else
        bindE (arm_io epoll_ctl now p sockfd WRITE timeout_ms ti
                 (h1\<lparr>hk_tinfo := (hk_tinfo h1)(ti := Some 0)\<rparr>)) (\<lambda>(ret, timer, h2).
          if ret = 0 then Inr (Conn_waiting ti timer, h2)
          else Inr (Conn_check ti, cancel_timer timer h2)))"

definition connect_resume :: "nat \<Rightarrow> addr option \<Rightarrow> hook \<Rightarrow> (connect_pc \<times> hook) res" where
  "connect_resume ti timer h =
     (let h1 = cancel_timer timer h in
      case hk_tinfo h1 ti of
        None \<Rightarrow> Inl Null_deref
      | Some canceled \<Rightarrow>
          if canceled \<noteq> 0 then
            Inr (Conn_returned (-1), set_errno canceled (h1\<lparr>hk_tinfo := (hk_tinfo h1)(ti := None)\<rparr>))
          else Inr (Conn_check ti, h1))"

text \<open>\<open>SO_ERROR\<close> decides; \<open>None\<close> when \<open>getsockopt\<close> itself fails.\<close>

definition connect_check :: "nat \<Rightarrow> int option \<Rightarrow> hook \<Rightarrow> connect_pc \<times> hook" where
  "connect_check ti so_error h =
     (let h1 = h\<lparr>hk_tinfo := (hk_tinfo h)(ti := None)\<rparr> in
      case so_error of
        None \<Rightarrow> (Conn_returned (-1), h1)
      | Some e \<Rightarrow> (Conn_returned (if e = 0 then 0 else -1), set_errno e h1))"

text \<open>\<open>close\<close> up to the call of the original function.\<close>

definition hook_close :: "epoll \<Rightarrow> int \<Rightarrow> hook \<Rightarrow> hook res" where
  "hook_close epoll_ctl fd h =
     (if \<not> hk_enable h then Inr h
      else bindE (with_ctx fd False h) (\<lambda>(ctx, h1).
        case ctx of
          None \<Rightarrow> Inr h1
        | Some _ \<Rightarrow>
            bindE (if hk_has_iom h1 then cancelAll epoll_ctl fd (hk_io h1) else Inr (False, hk_io h1)) (\<lambda>(_, io1).
            bindE (del_ctx_fd fd (hk_fds h1)) (\<lambda>fds1.
            Inr (h1\<lparr>hk_io := io1, hk_fds := fds1\<rparr>)))))"

section \<open>Flags and options\<close>

definition O_NONBLOCK :: "32 word" where "O_NONBLOCK = 0x800"

definition kernel_setfl :: "int \<Rightarrow> 32 word \<Rightarrow> hook \<Rightarrow> hook" where
  "kernel_setfl fd arg h = h\<lparr>hk_kernel := set_nonblock fd (arg AND O_NONBLOCK \<noteq> 0) (hk_kernel h)\<rparr>"

definition fcntl_setfl :: "int \<Rightarrow> 32 word \<Rightarrow> hook \<Rightarrow> hook res" where
  "fcntl_setfl fd arg h =
     bindE (with_ctx fd False h) (\<lambda>(ctx, h1).
       case ctx of
         None \<Rightarrow> Inr (kernel_setfl fd arg h1)
       | Some c \<Rightarrow>
           if m_isClosed c \<or> \<not> m_isSocket c then Inr (kernel_setfl fd arg h1)
           else
             let c1 = c\<lparr>m_userNonblock := (arg AND O_NONBLOCK \<noteq> 0)\<rparr>;
                 arg1 = (if m_sysNonblock c1 then arg OR O_NONBLOCK else arg AND NOT O_NONBLOCK)
             in Inr (kernel_setfl fd arg1 (h1\<lparr>hk_fds := put_ctx fd c1 (hk_fds h1)\<rparr>)))"

text \<open>\<open>arg\<close> is what the original \<open>F_GETFL\<close> returned.\<close>

definition fcntl_getfl :: "int \<Rightarrow> 32 word \<Rightarrow> hook \<Rightarrow> 32 word res" where
  "fcntl_getfl fd arg h =
     bindE (with_ctx fd False h) (\<lambda>(ctx, _).
       case ctx of
         None \<Rightarrow> Inr arg
       | Some c \<Rightarrow>
           if m_isClosed c \<or> \<not> m_isSocket c then Inr arg
           else Inr (if m_userNonblock c then arg OR O_NONBLOCK else arg AND NOT O_NONBLOCK))"

definition ioctl_fionbio :: "int \<Rightarrow> bool \<Rightarrow> hook \<Rightarrow> hook res" where
  "ioctl_fionbio fd user_nonblock h =
     bindE (with_ctx fd False h) (\<lambda>(ctx, h1).
       let pass = (\<lambda>h. h\<lparr>hk_kernel := set_nonblock fd user_nonblock (hk_kernel h)\<rparr>) in
       case ctx of
         None \<Rightarrow> Inr (pass h1)
       | Some c \<Rightarrow>
           if m_isClosed c \<or> \<not> m_isSocket c then Inr (pass h1)
           else Inr (pass (h1\<lparr>hk_fds := put_ctx fd (c\<lparr>m_userNonblock := user_nonblock\<rparr>) (hk_fds h1)\<rparr>)))"

definition setsockopt_timeout :: "int \<Rightarrow> timeout_opt \<Rightarrow> int \<Rightarrow> int \<Rightarrow> hook \<Rightarrow> hook res" where
  "setsockopt_timeout sockfd optname sec usec h =
     (if \<not> hk_enable h then Inr h
      else bindE (with_ctx sockfd False h) (\<lambda>(ctx, h1).
        case ctx of
          None \<Rightarrow> Inr h1
        | Some c \<Rightarrow>
            Inr (h1\<lparr>hk_fds := put_ctx sockfd
                     (setTimeout optname (word_of_int (sec * 1000 + usec div 1000)) c) (hk_fds h1)\<rparr>)))"

section \<open>Behaviour\<close>

text \<open>A descriptor with an open context.\<close>

definition open_socket :: "int \<Rightarrow> hook \<Rightarrow> bool" where
  "open_socket fd h \<longleftrightarrow>
     0 \<le> fd \<and> nat fd < length (hk_fds h) \<and>
     (case hk_fds h ! nat fd of Some c \<Rightarrow> m_isSocket c \<and> \<not> m_isClosed c | None \<Rightarrow> False)"

lemma open_socketE:
  assumes "open_socket fd h"
  obtains c where "hk_fds h ! nat fd = Some c" and "m_isSocket c" and "\<not> m_isClosed c"
    and "0 \<le> fd" and "nat fd < length (hk_fds h)"
  using assms by (auto simp: open_socket_def split: option.splits)

lemma with_ctx_open:
  assumes "hk_fds h ! nat fd = Some c" and "0 \<le> fd" and "nat fd < length (hk_fds h)"
  shows "with_ctx fd False h = Inr (Some c, h)"
  using assms by (auto simp: with_ctx_def get_ctx_fd_def)

lemma get_ctx_open:
  assumes "hk_fds h ! nat fd = Some c" and "0 \<le> fd" and "nat fd < length (hk_fds h)"
  shows "get_ctx_fd fd False (hk_fds h) (hk_kernel h) = Inr (Some c, hk_fds h, hk_kernel h)"
  using assms by (auto simp: get_ctx_fd_def)

lemma nonblock_bits:
  "(arg OR O_NONBLOCK) AND O_NONBLOCK \<noteq> 0" "(arg AND NOT O_NONBLOCK) AND O_NONBLOCK = 0"
proof -
  have b: "bit O_NONBLOCK 11" by (simp add: O_NONBLOCK_def)
  then have "bit ((arg OR O_NONBLOCK) AND O_NONBLOCK) 11" by (simp add: bit_simps)
  then show "(arg OR O_NONBLOCK) AND O_NONBLOCK \<noteq> 0" by auto
  show "(arg AND NOT O_NONBLOCK) AND O_NONBLOCK = 0"
    by (rule bit_word_eqI) (simp add: bit_simps)
qed

lemma cancel_timer_unchanged [simp]:
  "hk_tinfo (cancel_timer t h) = hk_tinfo h" "hk_fds (cancel_timer t h) = hk_fds h"
  "hk_kernel (cancel_timer t h) = hk_kernel h" "io_fds (hk_io (cancel_timer t h)) = io_fds (hk_io h)"
  "io_pending (hk_io (cancel_timer t h)) = io_pending (hk_io h)"
  by (simp_all add: cancel_timer_def split: option.split)

lemma cancelEvent_fires:
  assumes wf: "wf_io m" and get: "get_fd fd m = Inr fc" and e: "e = READ \<or> e = WRITE"
    and ev: "has_event (fc_events fc) e" and ep: "\<forall>op fd v. 0 \<le> epoll_ctl op fd v"
  shows "\<exists>m1. cancelEvent epoll_ctl fd e m = Inr (True, m1) \<and> wf_io m1
    \<and> s_queue (io_sched m1) = s_queue (io_sched m) @ [ctx_task (if e = READ then fc_read fc else fc_write fc)]"
proof -
  from trigger_at_ok [OF wf get e ev] obtain m1 where "trigger_at fd e m = Inr m1" "wf_io m1"
      "s_queue (io_sched m1) = s_queue (io_sched m) @ [ctx_task (if e = READ then fc_read fc else fc_write fc)]"
    by blast
  moreover have "\<not> int (length (io_fds m)) \<le> fd" using get by (auto simp: get_fd_Inr)
  moreover have "\<not> epoll_ctl op fd v < 0" for op fd v using ep by (simp add: not_less)
  ultimately show ?thesis
    using get ev by (simp add: cancelEvent_def has_event_def Let_def)
qed

text \<open>A program with one open socket, descriptor 0, on which coroutine 3 waits to read.\<close>

definition waiting_io :: "hook_cb io_manager" where
  "waiting_io = \<lparr>io_fds = [\<lparr>fc_fd = 0, fc_read = \<lparr>ec_scheduler = True, ec_cor = Some 3, ec_cb = None\<rparr>,
                               fc_write = empty_ctx, fc_events = READ\<rparr>],
                 io_pending = 1, io_pipe = 0,
                 io_sched = (case Scheduler 2 False False 0 0 of Inr s \<Rightarrow> s),
                 io_timers = TimerManager (\<lambda>_. \<lparr>tr_ms = 0, tr_cb = None, tr_recurring = False, tr_next = 0\<rparr>) 0\<rparr>"

lemma waiting_io_wf: "wf_io waiting_io"
  by (simp add: waiting_io_def wf_io_def fc_ok_def valid_events_def ctx_ok_def has_event_def
      event_count_def pending_sum_def empty_ctx_def READ_def WRITE_def)

definition one_socket :: hook where
  "one_socket = \<lparr>hk_enable = True, hk_has_iom = True, hk_cur = 3, hk_errno = 0, hk_io = waiting_io,
     hk_tinfo = (\<lambda>_. Some 0),
     hk_fds = (replicate 64 None)[0 := Some \<lparr>m_isInit = True, m_isSocket = True, m_userNonblock = False,
        m_sysNonblock = True, m_isClosed = False, m_fd = 0, m_recvTimeout = -1, m_sendTimeout = -1\<rparr>],
     hk_kernel = \<lparr>k_fstat = (\<lambda>_. Some True), k_nonblock = (\<lambda>_. True)\<rparr>\<rparr>"

lemma one_socket_ok: "hk_enable one_socket" "open_socket 0 one_socket" "wf_fds (hk_fds one_socket) (hk_kernel one_socket)"
  by (auto simp: one_socket_def open_socket_def wf_fds_def slot_ok_def nth_list_update)

text \<open>
  C33: When the timer of a suspended \<open>do_io\<close> fires while the call still waits, the waiting
  coroutine is queued again, and once resumed the call returns -1 with \<open>ETIMEDOUT\<close>.
\<close>

theorem do_io_times_out:
  assumes "wf_io (hk_io h)" and "hk_tinfo h ti = Some 0"
    and "get_fd fd (hk_io h) = Inr fc" and "e = READ \<or> e = WRITE" and "has_event (fc_events fc) e"
    and "\<forall>op fd v. 0 \<le> epoll_ctl op fd v"
  shows "\<exists>h1 h2. run_io_timeout epoll_ctl ti fd e h = Inr h1
           \<and> s_queue (io_sched (hk_io h1)) = s_queue (io_sched (hk_io h))
                @ [ctx_task (if e = READ then fc_read fc else fc_write fc)]
           \<and> do_io_resume t ti timer h1 = Inr (Returned (-1), h2)
           \<and> hk_errno h2 = ETIMEDOUT \<and> wf_io (hk_io h2)"
proof -
  let ?h = "h\<lparr>hk_tinfo := (hk_tinfo h)(ti := Some ETIMEDOUT)\<rparr>"
  from cancelEvent_fires [OF assms(1,3-6)] obtain m1 where
    m1: "cancelEvent epoll_ctl fd e (hk_io h) = Inr (True, m1)" "wf_io m1"
      "s_queue (io_sched m1) = s_queue (io_sched (hk_io h)) @ [ctx_task (if e = READ then fc_read fc else fc_write fc)]"
    by blast
  have run: "run_io_timeout epoll_ctl ti fd e h = Inr (?h\<lparr>hk_io := m1\<rparr>)"
    using assms(2) m1(1) by (simp add: run_io_timeout_def)
  have "do_io_resume t ti timer (?h\<lparr>hk_io := m1\<rparr>) =
      finish_io (-1) ti (set_errno ETIMEDOUT (cancel_timer timer (?h\<lparr>hk_io := m1\<rparr>)))"
    by (simp add: do_io_resume_def ETIMEDOUT_def)
  moreover have "wf_io (hk_io (cancel_timer timer (?h\<lparr>hk_io := m1\<rparr>)))"
    using m1(2) by (simp add: wf_io_def)
  ultimately show ?thesis
    using run m1(3) by (simp add: finish_io_def set_errno_def)
qed

theorem do_io_times_out_witness:
  "\<exists>h1 h2. run_io_timeout (\<lambda>_ _ _. 0) 7 0 READ one_socket = Inr h1
     \<and> s_queue (io_sched (hk_io h1)) = s_queue (io_sched (hk_io one_socket))
          @ [ctx_task (if READ = READ then fc_read (io_fds waiting_io ! 0) else fc_write (io_fds waiting_io ! 0))]
     \<and> do_io_resume 100 7 (Some 1) h1 = Inr (Returned (-1), h2)
     \<and> hk_errno h2 = ETIMEDOUT \<and> wf_io (hk_io h2)"
  by (rule do_io_times_out)
    (simp_all add: one_socket_def waiting_io_wf, simp_all add: waiting_io_def get_fd_def has_event_def READ_def)

text \<open>
  On an open socket \<open>fcntl\<close> hides the kernel flag: after \<open>F_SETFL\<close> the kernel stays
  non-blocking whatever the program asked for, and \<open>F_GETFL\<close> reports exactly the
  \<open>O_NONBLOCK\<close> the program set.
\<close>

theorem fcntl_hides_nonblock:
  assumes "wf_fds (hk_fds h) (hk_kernel h)" and "open_socket fd h"
  shows "\<exists>h1 r. fcntl_setfl fd arg h = Inr h1 \<and> k_nonblock (hk_kernel h1) fd
           \<and> wf_fds (hk_fds h1) (hk_kernel h1)
           \<and> fcntl_getfl fd any h1 = Inr r
           \<and> (r AND O_NONBLOCK \<noteq> 0 \<longleftrightarrow> arg AND O_NONBLOCK \<noteq> 0)"
proof -
  obtain c where c: "hk_fds h ! nat fd = Some c" "m_isSocket c" "\<not> m_isClosed c" "0 \<le> fd"
      "nat fd < length (hk_fds h)"
    by (rule open_socketE [OF assms(2)])
  have slot: "slot_ok (hk_kernel h) (nat fd) (Some c)" using assms(1) c by (auto simp: wf_fds_def)
  then have sys: "m_sysNonblock c" "m_fd c = fd" using c by (simp_all add: slot_ok_def)
  let ?c = "c\<lparr>m_userNonblock := (arg AND O_NONBLOCK \<noteq> 0)\<rparr>"
  let ?h = "kernel_setfl fd (arg OR O_NONBLOCK) (h\<lparr>hk_fds := put_ctx fd ?c (hk_fds h)\<rparr>)"
  have run: "fcntl_setfl fd arg h = Inr ?h"
    using c sys by (simp add: fcntl_setfl_def with_ctx_open [OF c(1,4,5)] Let_def)
  have kern: "hk_kernel ?h = set_nonblock fd True (hk_kernel h)"
    using nonblock_bits(1) [of arg] by (simp add: kernel_setfl_def O_NONBLOCK_def)
  have fds: "hk_fds ?h = (hk_fds h)[nat fd := Some ?c]" by (simp add: kernel_setfl_def put_ctx_def)
  have "slot_ok (hk_kernel ?h) (nat fd) (Some ?c)"
    using c sys unfolding kern by (simp add: slot_ok_def set_nonblock_def)
  then have "wf_fds (hk_fds ?h) (hk_kernel ?h)"
    unfolding fds by (rule wf_fds_put [OF assms(1)]) (simp add: kern set_nonblock_def)
  moreover have "hk_fds ?h ! nat fd = Some ?c" "nat fd < length (hk_fds ?h)"
    unfolding fds using c by simp_all
  then have "fcntl_getfl fd any ?h = Inr (if m_userNonblock ?c then any OR O_NONBLOCK else any AND NOT O_NONBLOCK)"
    using c(2,3) with_ctx_open [OF _ c(4), of ?h ?c] by (simp add: fcntl_getfl_def)
  moreover have "k_nonblock (hk_kernel ?h) fd" unfolding kern by (simp add: set_nonblock_def)
  moreover have "((if m_userNonblock ?c then any OR O_NONBLOCK else any AND NOT O_NONBLOCK) AND O_NONBLOCK \<noteq> 0)
      = (arg AND O_NONBLOCK \<noteq> 0)"
    using nonblock_bits [of any] by simp
  ultimately show ?thesis using run by blast
qed

theorem fcntl_hides_nonblock_witness:
  "\<exists>h1 r. fcntl_setfl 0 0 one_socket = Inr h1 \<and> k_nonblock (hk_kernel h1) 0
     \<and> wf_fds (hk_fds h1) (hk_kernel h1) \<and> fcntl_getfl 0 0x802 h1 = Inr r
     \<and> (r AND O_NONBLOCK \<noteq> 0 \<longleftrightarrow> 0 AND O_NONBLOCK \<noteq> 0)"
  by (rule fcntl_hides_nonblock [OF one_socket_ok(3,2)])

text \<open>
  \<open>ioctl(FIONBIO, 0)\<close> on an open socket, unlike \<open>fcntl\<close>, does make the socket blocking
  in the kernel, and the next hooked call on it is not passed through: it will call the
  original function on a blocking descriptor and stop the whole thread.
\<close>

theorem ioctl_makes_blocking:
  assumes "hk_enable h" and "open_socket fd h"
  shows "\<exists>h1 h2 t. ioctl_fionbio fd False h = Inr h1 \<and> \<not> k_nonblock (hk_kernel h1) fd
           \<and> do_io_enter fd so ti h1 = Inr (Attempting t ti, h2)"
proof -
  obtain c where c: "hk_fds h ! nat fd = Some c" "m_isSocket c" "\<not> m_isClosed c" "0 \<le> fd"
      "nat fd < length (hk_fds h)"
    by (rule open_socketE [OF assms(2)])
  let ?c = "c\<lparr>m_userNonblock := False\<rparr>"
  let ?h = "h\<lparr>hk_fds := put_ctx fd ?c (hk_fds h), hk_kernel := set_nonblock fd False (hk_kernel h)\<rparr>"
  have "ioctl_fionbio fd False h = Inr ?h"
    using c by (simp add: ioctl_fionbio_def with_ctx_open [OF c(1,4,5)] Let_def)
  moreover have "hk_fds ?h ! nat fd = Some ?c" "nat fd < length (hk_fds ?h)"
    using c by (simp_all add: put_ctx_def)
  then have "get_ctx_fd fd False (hk_fds ?h) (hk_kernel ?h) = Inr (Some ?c, hk_fds ?h, hk_kernel ?h)"
    using get_ctx_open [of ?h fd ?c] c(4) by simp
  then have "do_io_enter fd so ti ?h
      = Inr (Attempting (getTimeout so ?c) ti, ?h\<lparr>hk_tinfo := (hk_tinfo ?h)(ti := Some 0)\<rparr>)"
    using assms(1) c by (simp add: do_io_enter_def)
  ultimately show ?thesis by (auto simp: set_nonblock_def)
qed

theorem ioctl_makes_blocking_witness:
  "\<exists>h1 h2 t. ioctl_fionbio 0 False one_socket = Inr h1 \<and> \<not> k_nonblock (hk_kernel h1) 0
     \<and> do_io_enter 0 SO_RCVTIMEO 7 h1 = Inr (Attempting t 7, h2)"
  by (rule ioctl_makes_blocking [OF one_socket_ok(1,2)])

text \<open>
  \<open>sleep\<close> waits a thousand milliseconds for each second only while the product fits
  32 bits; beyond that (about fifty days) it wraps and waits less.
\<close>

theorem sleep_ms_exact:
  "unat (sleep_ms s) = unat s * 1000 \<longleftrightarrow> unat s * 1000 < 2 ^ 32"
proof -
  have "unat (s * 1000) < 2 ^ 64" using unsigned_less [of "s * 1000"] by (rule less_le_trans) simp
  then have u: "unat (sleep_ms s) = unat (s * 1000)"
    by (simp add: sleep_ms_def unsigned_ucast_eq take_bit_nat_eq_self)
  show ?thesis
  proof
    assume "unat (sleep_ms s) = unat s * 1000"
    moreover have "unat (s * 1000) < 2 ^ LENGTH(32)" by (rule unsigned_less)
    ultimately show "unat s * 1000 < 2 ^ 32" using u by (simp only: len_num0 len_num1 len_bit0 len_bit1) simp
  next
    assume "unat s * 1000 < 2 ^ 32"
    then have "unat (s * 1000) = unat s * unat (1000 :: 32 word)"
      by (intro unat_mult_lem [THEN iffD1]) simp
    then show "unat (sleep_ms s) = unat s * 1000" using u by simp
  qed
qed

text \<open>
  Setting a timeout of zero, which for the kernel means to wait for ever, makes every
  hooked call that would block give up after zero milliseconds.
\<close>

theorem zero_timeout_is_immediate:
  assumes "hk_enable h" and "open_socket fd h" and "\<forall>c. hk_fds h ! nat fd = Some c \<longrightarrow> \<not> m_userNonblock c"
  shows "\<exists>h1 h2. setsockopt_timeout fd so 0 0 h = Inr h1 \<and> do_io_enter fd so ti h1 = Inr (Attempting 0 ti, h2)"
proof -
  obtain c where c: "hk_fds h ! nat fd = Some c" "m_isSocket c" "\<not> m_isClosed c" "0 \<le> fd"
      "nat fd < length (hk_fds h)"
    by (rule open_socketE [OF assms(2)])
  let ?c = "setTimeout so 0 c"
  let ?h = "h\<lparr>hk_fds := put_ctx fd ?c (hk_fds h)\<rparr>"
  have "setsockopt_timeout fd so 0 0 h = Inr ?h"
    using c assms(1) by (simp add: setsockopt_timeout_def with_ctx_open [OF c(1,4,5)])
  moreover have "hk_fds ?h ! nat fd = Some ?c" "nat fd < length (hk_fds ?h)"
    using c by (simp_all add: put_ctx_def)
  then have "get_ctx_fd fd False (hk_fds ?h) (hk_kernel ?h) = Inr (Some ?c, hk_fds ?h, hk_kernel ?h)"
    using get_ctx_open [of ?h fd ?c] c(4) by simp
  then have "do_io_enter fd so ti ?h
      = Inr (Attempting 0 ti, ?h\<lparr>hk_tinfo := (hk_tinfo ?h)(ti := Some 0)\<rparr>)"
    using assms c by (simp add: do_io_enter_def setTimeout_def getTimeout_def)
  ultimately show ?thesis by blast
qed

theorem zero_timeout_is_immediate_witness:
  "\<exists>h1 h2. setsockopt_timeout 0 SO_RCVTIMEO 0 0 one_socket = Inr h1
     \<and> do_io_enter 0 SO_RCVTIMEO 7 h1 = Inr (Attempting 0 7, h2)"
  by (rule zero_timeout_is_immediate [OF one_socket_ok(1,2)]) (simp add: one_socket_def)

end
