(* ===== verification/Address.thy ===== *)
theory Address
  imports Endian
begin

text \<open>
  \<open>address.h\<close> and \<open>address.cpp\<close>: socket addresses. The fields of the socket structures
  are kept in the byte order of the network, as the structures have them. The
  resolver \<open>getaddrinfo\<close> and the list of interfaces are parameters.
\<close>

unbundle bit_operations_syntax

section \<open>Masks\<close>

text \<open>
  \<open>(1 << (sizeof(T) * 8 - bits)) - 1\<close> is computed in \<open>int\<close>: for a 32-bit \<open>T\<close> and no bits
  the shift is by the whole width.
\<close>

definition CreateHostMask32 :: "nat \<Rightarrow> 32 word res" where
  "CreateHostMask32 bits = (if bits = 0 then Inl Undefined else Inr (push_bit (32 - bits) 1 - 1))"

definition CreateHostMask8 :: "nat \<Rightarrow> byte" where
  "CreateHostMask8 bits = ucast (push_bit (8 - bits) 1 - 1 :: 32 word)"

function CountBytes :: "'a::len word \<Rightarrow> nat" where
  "CountBytes val = (if val = 0 then 0 else Suc (CountBytes (val AND (val - 1))))"
  by pat_completeness auto
termination
proof (relation "measure unat")
  fix val :: "'a word"
  assume "val \<noteq> 0"
  then have "val - 1 < val"
    by (simp add: word_less_nat_alt unat_minus_one unat_gt_0 [THEN iffD2])
  moreover have "val AND (val - 1) \<le> val - 1" by (rule word_and_le1)
  ultimately show "(val AND (val - 1), val) \<in> measure unat"
    by (simp add: word_less_nat_alt word_le_nat_alt)
qed simp

declare CountBytes.simps [simp del]

section \<open>Addresses\<close>

record ipv4 =
  sin_port :: "16 word"
  sin_addr :: "32 word"

record ipv6 =
  sin6_port :: "16 word"
  s6_addr :: "byte list"

datatype address =
    IPv4Address ipv4
  | IPv6Address ipv6
  | UnixAddress "byte list" nat
  | UnkonwAddress nat

definition IPv4 :: "32 word \<Rightarrow> 16 word \<Rightarrow> ipv4" where
  "IPv4 address port = \<lparr>sin_port = byteswapOnSmallEndian port, sin_addr = byteswapOnSmallEndian address\<rparr>"

definition IPv6 :: "byte list \<Rightarrow> 16 word \<Rightarrow> ipv6" where
  "IPv6 address port = \<lparr>sin6_port = byteswapOnSmallEndian port, s6_addr = take 16 address\<rparr>"

definition getPort4 :: "ipv4 \<Rightarrow> 16 word" where
  "getPort4 a = byteswapOnSmallEndian (sin_port a)"

definition setPort4 :: "16 word \<Rightarrow> ipv4 \<Rightarrow> ipv4" where
  "setPort4 val a = a\<lparr>sin_port := byteswapOnSmallEndian val\<rparr>"

definition getPort6 :: "ipv6 \<Rightarrow> 16 word" where
  "getPort6 a = byteswapOnSmallEndian (sin6_port a)"

definition setPort6 :: "16 word \<Rightarrow> ipv6 \<Rightarrow> ipv6" where
  "setPort6 port a = a\<lparr>sin6_port := byteswapOnSmallEndian port\<rparr>"

definition host_order :: "ipv4 \<Rightarrow> 32 word" where
  "host_order a = byteswapOnSmallEndian (sin_addr a)"

subsection \<open>IPv4 networks; \<open>None\<close> is the null pointer\<close>

definition broadcastAddress4 :: "nat \<Rightarrow> ipv4 \<Rightarrow> ipv4 option res" where
  "broadcastAddress4 len a =
     (if len > 32 then Inr None
      else bindE (CreateHostMask32 len) (\<lambda>mask.
        Inr (Some (a\<lparr>sin_addr := sin_addr a OR byteswapOnSmallEndian mask\<rparr>))))"

definition subnetAddress4 :: "nat \<Rightarrow> ipv4 \<Rightarrow> ipv4 option res" where
  "subnetAddress4 len a =
     (if len > 32 then Inr None
      else bindE (CreateHostMask32 len) (\<lambda>mask.
        Inr (Some (a\<lparr>sin_addr := sin_addr a AND NOT (byteswapOnSmallEndian mask)\<rparr>))))"

definition subnetMask4 :: "nat \<Rightarrow> ipv4 option res" where
  "subnetMask4 len =
     (if len > 32 then Inr None
      else bindE (CreateHostMask32 len) (\<lambda>mask.
        Inr (Some \<lparr>sin_port = 0, sin_addr = NOT (byteswapOnSmallEndian mask)\<rparr>)))"

subsection \<open>IPv6 networks\<close>

text \<open>The byte at index \<open>len / 8\<close> is written first; at 128 it lies behind the array.\<close>

definition set_byte :: "nat \<Rightarrow> (byte \<Rightarrow> byte) \<Rightarrow> byte list \<Rightarrow> byte list res" where
  "set_byte i f bs = (if i < length bs then Inr (bs[i := f (bs ! i)]) else Inl Out_of_bounds)"

definition broadcastAddress6 :: "nat \<Rightarrow> ipv6 \<Rightarrow> ipv6 option res" where
  "broadcastAddress6 len a =
     (if len > 128 then Inr None
      else bindE (set_byte (len div 8) (\<lambda>b. b OR CreateHostMask8 (len mod 8)) (s6_addr a)) (\<lambda>bs.
        Inr (Some (a\<lparr>s6_addr := take (len div 8 + 1) bs @ replicate (16 - (len div 8 + 1)) 0xFF\<rparr>))))"

definition subnetAddress6 :: "nat \<Rightarrow> ipv6 \<Rightarrow> ipv6 option res" where
  "subnetAddress6 len a =
     (if len > 128 then Inr None
      else bindE (set_byte (len div 8) (\<lambda>b. b AND NOT (CreateHostMask8 (len mod 8))) (s6_addr a)) (\<lambda>bs.
        Inr (Some (a\<lparr>s6_addr := take (len div 8 + 1) bs @ replicate (16 - (len div 8 + 1)) 0\<rparr>))))"

definition subnetMask6 :: "nat \<Rightarrow> ipv6 option res" where
  "subnetMask6 len =
     (if len > 128 then Inr None
      else bindE (set_byte (len div 8) (\<lambda>_. NOT (CreateHostMask8 (len mod 8))) (replicate 16 0)) (\<lambda>bs.
        Inr (Some \<lparr>sin6_port = 0, s6_addr = replicate (len div 8) 0xFF @ drop (len div 8) bs\<rparr>)))"

section \<open>Text\<close>

definition insert4 :: "ipv4 \<Rightarrow> string" where
  "insert4 a =
     (let addr = byteswapOnSmallEndian (sin_addr a);
          part = (\<lambda>n. dec_digits (unat (drop_bit n addr AND 0xFF)))
      in part 24 @ ''.'' @ part 16 @ ''.'' @ part 8 @ ''.'' @ part 0 @ '':''
         @ dec_digits (unat (byteswapOnSmallEndian (sin_port a))))"

text \<open>
  The groups of an IPv6 address are printed as tokens: colons and the hexadecimal
  numbers. The loop carries the previous group and whether a run of zeros was already
  replaced.
\<close>

datatype tok = Colon | Num "16 word"

fun insert6_loop :: "bool \<Rightarrow> 16 word option \<Rightarrow> 16 word list \<Rightarrow> tok list \<times> bool" where
  "insert6_loop used prev [] = ([], used)"
| "insert6_loop used prev (g # gs) =
     (if g = 0 \<and> \<not> used then insert6_loop used (Some g) gs
      else
        let gap = (prev = Some 0 \<and> \<not> used);
            (rest, used') = insert6_loop (used \<or> gap) (Some g) gs
        in ((if gap then [Colon] else []) @ (if prev \<noteq> None then [Colon] else []) @ [Num g] @ rest, used'))"

definition insert6_tokens :: "16 word list \<Rightarrow> tok list" where
  "insert6_tokens groups =
     (let (ts, used) = insert6_loop False None groups
      in ts @ (if \<not> used \<and> groups \<noteq> [] \<and> last groups = 0 then [Colon, Colon] else []))"

text \<open>The groups as the loop reads them through a \<open>uint16_t*\<close>, each turned to host order.\<close>

fun groups_of :: "byte list \<Rightarrow> 16 word list" where
  "groups_of (a # b # bs) = byteswapOnSmallEndian (of_bytes [a, b]) # groups_of bs"
| "groups_of _ = []"

fun hex_digits :: "nat \<Rightarrow> string" where
  "hex_digits n =
     (let d = (\<lambda>k. ''0123456789abcdef'' ! k) in
      if n < 16 then [d n] else hex_digits (n div 16) @ [d (n mod 16)])"

declare hex_digits.simps [simp del]

fun tok_text :: "tok \<Rightarrow> string" where
  "tok_text Colon = '':''"
| "tok_text (Num g) = hex_digits (unat g)"

definition insert6 :: "ipv6 \<Rightarrow> string" where
  "insert6 a =
     ''['' @ concat (map tok_text (insert6_tokens (groups_of (s6_addr a)))) @ '']:''
       @ dec_digits (unat (byteswapOnSmallEndian (sin6_port a)))"

section \<open>Unix domain\<close>

text \<open>\<open>sun_path\<close> has 108 bytes and starts at offset 2 of the structure.\<close>

definition UnixAddress_path :: "byte list \<Rightarrow> (byte list \<times> nat) res" where
  "UnixAddress_path path =
     (let len = (if path \<noteq> [] \<and> hd path = 0 then length path else length path + 1) in
      if len > 108 then Inl Logic_error
      else Inr (take len (path @ [0]) @ replicate (108 - len) 0, len + 2))"

text \<open>The two loops of the text: up to the first null byte, or all of an abstract name.\<close>

definition insert_unix :: "byte list \<times> nat \<Rightarrow> byte list" where
  "insert_unix a =
     (let (sun_path, len) = a in
      if len > 2 \<and> sun_path ! 0 = 0
      then [0x5C, 0x30] @ take (len - 2 - 1) (drop 1 sun_path)
      else takeWhile (\<lambda>b. b \<noteq> 0) sun_path)"

section \<open>Comparison\<close>

text \<open>\<open>memcmp\<close> on the structures as bytes.\<close>

fun memcmp :: "byte list \<Rightarrow> byte list \<Rightarrow> nat \<Rightarrow> int" where
  "memcmp (a # as) (b # bs) (Suc n) = (if a < b then -1 else if a > b then 1 else memcmp as bs n)"
| "memcmp _ _ _ = 0"

definition addr_less :: "byte list \<Rightarrow> byte list \<Rightarrow> bool" where
  "addr_less a b =
     (let ret = memcmp a b (min (length a) (length b)) in
      if ret < 0 then True else if ret > 0 then False else length a < length b)"

definition addr_eq :: "byte list \<Rightarrow> byte list \<Rightarrow> bool" where
  "addr_eq a b = (length a = length b \<and> memcmp a b (length a) = 0)"

section \<open>Looking up\<close>

text \<open>Splitting the host into node and service; \<open>memchr\<close> finds the first occurrence.\<close>

definition split_bracket :: "string \<Rightarrow> string \<times> string option" where
  "split_bracket host =
     (if host \<noteq> [] \<and> hd host = CHR ''['' then
        let e = Suc (first_index (\<lambda>c. c = CHR '']'') (tl host)) in
        if e < length host then
          (take (e - 1) (drop 1 host),
           if e + 1 < length host \<and> host ! (e + 1) = CHR '':'' then Some (drop (e + 2) host) else None)
        else ([], None)
      else ([], None))"

definition split_colon :: "string \<Rightarrow> string \<times> string option" where
  "split_colon host =
     (let i = first_index (\<lambda>c. c = CHR '':'') host in
      if i < length host then
        if CHR '':'' \<notin> set (drop (i + 1) host) then (take i host, Some (drop (i + 1) host))
        else ([], Some (drop i host))
      else ([], None))"

definition split_host :: "string \<Rightarrow> string \<times> string option" where
  "split_host host =
     (let (node0, service0) = split_bracket host;
          (node1, service1) = (if node0 = [] then split_colon host else (node0, service0))
      in (if node1 = [] then host else node1, service1))"

type_synonym resolver = "string \<Rightarrow> string option \<Rightarrow> int \<Rightarrow> int \<Rightarrow> int \<Rightarrow> address list option"

definition LookUp :: "resolver \<Rightarrow> string \<Rightarrow> int \<Rightarrow> int \<Rightarrow> int \<Rightarrow> address list" where
  "LookUp getaddrinfo host family type protocol =
     (let (node, service) = split_host host in
      case getaddrinfo node service family type protocol of None \<Rightarrow> [] | Some rs \<Rightarrow> rs)"

text \<open>Both callers pass three arguments on, so \<open>type\<close> lands in the place of \<open>family\<close>.\<close>

definition LookUpAny :: "resolver \<Rightarrow> string \<Rightarrow> int \<Rightarrow> int \<Rightarrow> int \<Rightarrow> address option" where
  "LookUpAny getaddrinfo host family type protocol =
     (case LookUp getaddrinfo host type protocol 0 of [] \<Rightarrow> None | r # _ \<Rightarrow> Some r)"

fun is_ip :: "address \<Rightarrow> bool" where
  "is_ip (IPv4Address _) = True"
| "is_ip (IPv6Address _) = True"
| "is_ip _ = False"

definition LookUpAnyIPAddress :: "resolver \<Rightarrow> string \<Rightarrow> int \<Rightarrow> int \<Rightarrow> int \<Rightarrow> address option" where
  "LookUpAnyIPAddress getaddrinfo host family type protocol =
     List.find is_ip (LookUp getaddrinfo host type protocol 0)"

text \<open>The prefix length of an interface, counted over the bytes of its mask.\<close>

definition prefix_length6 :: "byte list \<Rightarrow> nat" where
  "prefix_length6 netmask = sum_list (map CountBytes (take 16 netmask))"

section \<open>Byte order and bits\<close>

lemma bit_byteswap:
  assumes "LENGTH('a::len) = 8 * n"
  shows "bit (byteswap (v :: 'a word)) i \<longleftrightarrow> i < 8 * n \<and> bit v (8 * (n - 1 - i div 8) + i mod 8)"
proof (cases "i < 8 * n")
  case True
  then have k: "i div 8 < n" by (simp add: less_mult_imp_div_less mult.commute)
  have "LENGTH('a) div 8 = n" using assms by simp
  then show ?thesis
    using True k assms by (simp add: byteswap_def bit_of_bytes rev_nth bit_nth_bytes_of)
next
  case False
  then show ?thesis using assms by (auto dest: bit_imp_le_length)
qed

lemma byteswap_bitwise:
  fixes v w :: "'a::len word"
  assumes L: "LENGTH('a) = 8 * n"
  shows "byteswap (v OR w) = byteswap v OR byteswap w"
    and "byteswap (v AND w) = byteswap v AND byteswap w"
    and "byteswap (NOT v) = NOT (byteswap v)"
proof -
  show "byteswap (v OR w) = byteswap v OR byteswap w"
    by (rule bit_word_eqI) (auto simp: bit_byteswap [OF L] bit_or_iff)
  show "byteswap (v AND w) = byteswap v AND byteswap w"
    by (rule bit_word_eqI) (auto simp: bit_byteswap [OF L] bit_and_iff)
  show "byteswap (NOT v) = NOT (byteswap v)"
  proof (rule bit_word_eqI)
    fix i assume i: "i < LENGTH('a)"
    then have "i div 8 < n" using L by (simp add: less_mult_imp_div_less mult.commute)
    then have "8 * (n - 1 - i div 8) + i mod 8 < 8 * n"
      using mod_less_divisor [of 8 i] by linarith
    then show "bit (byteswap (NOT v)) i \<longleftrightarrow> bit (NOT (byteswap v)) i"
      using i by (simp add: bit_byteswap [OF L] bit_not_iff L)
  qed
qed

lemma swap32: "byteswapOnSmallEndian (byteswapOnSmallEndian (v :: 32 word)) = v"
  "byteswapOnSmallEndian (v OR w :: 32 word) = byteswapOnSmallEndian v OR byteswapOnSmallEndian w"
  "byteswapOnSmallEndian (v AND w :: 32 word) = byteswapOnSmallEndian v AND byteswapOnSmallEndian w"
  "byteswapOnSmallEndian (NOT v :: 32 word) = NOT (byteswapOnSmallEndian v)"
  using byteswap_byteswap [where 'a = 32 and n = 4] byteswap_bitwise [where 'a = 32 and n = 4]
  by (simp_all add: byteswapOnSmallEndian_def KIT_BYTE_ORDER_def)

lemma swap16: "byteswapOnSmallEndian (byteswapOnSmallEndian (v :: 16 word)) = v"
  using byteswap_byteswap [where 'a = 16 and n = 2]
  by (simp add: byteswapOnSmallEndian_def KIT_BYTE_ORDER_def)

lemma host_mask: "1 \<le> len \<Longrightarrow> CreateHostMask32 len = Inr (mask (32 - len))"
  by (simp add: CreateHostMask32_def mask_eq_decr_exp push_bit_eq_mult)

section \<open>Properties\<close>

text \<open>
  For a prefix of 1 to 32 bits, in host order the broadcast address sets the host
  bits and keeps the others, and the subnet address clears them; the port stays.
\<close>

theorem ipv4_network:
  assumes "1 \<le> len" and "len \<le> 32"
  shows "\<exists>b s. broadcastAddress4 len a = Inr (Some b) \<and> subnetAddress4 len a = Inr (Some s)
    \<and> host_order b = host_order a OR mask (32 - len)
    \<and> host_order s = host_order a AND NOT (mask (32 - len))
    \<and> getPort4 b = getPort4 a \<and> getPort4 s = getPort4 a"
  using assms
  by (simp add: broadcastAddress4_def subnetAddress4_def host_mask host_order_def getPort4_def swap32)

theorem ipv4_network_witness:
  "\<exists>b s. broadcastAddress4 24 (IPv4 0xC0A80117 80) = Inr (Some b) \<and> subnetAddress4 24 (IPv4 0xC0A80117 80) = Inr (Some s)
    \<and> host_order b = host_order (IPv4 0xC0A80117 80) OR mask (32 - 24)
    \<and> host_order s = host_order (IPv4 0xC0A80117 80) AND NOT (mask (32 - 24))
    \<and> getPort4 b = getPort4 (IPv4 0xC0A80117 80) \<and> getPort4 s = getPort4 (IPv4 0xC0A80117 80)"
  by (rule ipv4_network) simp_all

text \<open>
  A prefix of no bits, which the guard lets pass, shifts a 32-bit 1 by 32: all three
  network functions of an IPv4 address have undefined behaviour there.
\<close>

theorem ipv4_prefix_zero_undefined:
  "broadcastAddress4 0 a = Inl Undefined \<and> subnetAddress4 0 a = Inl Undefined \<and> subnetMask4 0 = Inl Undefined"
  by (simp add: broadcastAddress4_def subnetAddress4_def subnetMask4_def CreateHostMask32_def)

text \<open>
  The network functions of an IPv6 address accept every prefix up to 128 but write one
  byte behind the array at exactly 128; below that they stay inside it.
\<close>

theorem ipv6_prefix_bounds:
  assumes "length (s6_addr a) = 16"
  shows "(\<exists>r. broadcastAddress6 len a = Inr r) \<longleftrightarrow> len \<noteq> 128"
  using assms by (auto simp: broadcastAddress6_def set_byte_def)

theorem ipv6_prefix_bounds_witness:
  "(\<exists>r. broadcastAddress6 64 (IPv6 (replicate 16 0) 80) = Inr r) \<longleftrightarrow> (64::nat) \<noteq> 128"
  by (rule ipv6_prefix_bounds) (simp add: IPv6_def)

text \<open>Clearing the lowest set bit.\<close>

lemma bit_above:
  "bit (push_bit k (drop_bit k (v :: 'a::len word))) n \<longleftrightarrow> k \<le> n \<and> bit v n"
  unfolding bit_push_bit_iff bit_drop_bit_eq comp_apply
  by (auto simp: possible_bit_word dest: bit_imp_le_length)

lemma lowest_bit_split:
  fixes v :: "'a::len word"
  assumes "v \<noteq> 0"
  obtains k where "bit v k" and "\<forall>i. bit (v AND (v - 1)) i \<longleftrightarrow> bit v i \<and> i \<noteq> k"
proof -
  obtain j where "bit v j" using assms by (auto simp: bit_eq_iff)
  define k where "k = (LEAST i. bit v i)"
  have k: "bit v k" "\<And>i. bit v i \<Longrightarrow> k \<le> i"
    unfolding k_def using \<open>bit v j\<close> by (auto intro: LeastI Least_le)
  have kl: "k < LENGTH('a)" using k(1) by (rule bit_imp_le_length)
  define w where "w = push_bit (Suc k) (drop_bit (Suc k) v)"
  have w: "bit w n \<longleftrightarrow> k < n \<and> bit v n" for n
    unfolding w_def bit_above by auto
  have "v = w OR push_bit k 1"
    by (rule bit_word_eqI) (use k kl in \<open>auto simp: w bit_or_iff bit_exp_iff le_neq_implies_less\<close>)
  moreover have "w AND push_bit k 1 = 0"
    by (rule bit_word_eqI) (auto simp: w bit_and_iff bit_exp_iff)
  ultimately have v: "v = w + push_bit k 1" by (metis disjunctive_add_eq_or)
  have "push_bit k (1::'a word) = mask k + 1" by (simp add: mask_eq_decr_exp push_bit_eq_mult)
  then have "v - 1 = w + mask k" using v by (metis add.assoc add_diff_cancel_right')
  moreover have "w AND mask k = 0"
    by (rule bit_word_eqI) (auto simp: w bit_and_iff bit_mask_iff)
  ultimately have v1: "v - 1 = w OR mask k" by (metis disjunctive_add_eq_or)
  have "bit (v AND (v - 1)) i \<longleftrightarrow> bit v i \<and> i \<noteq> k" for i
    unfolding v1 bit_and_iff bit_or_iff w bit_mask_iff using k(2) [of i] by auto
  then show ?thesis using that k(1) by blast
qed

lemma set_bits_finite: "finite {i. bit (v :: 'a::len word) i}"
  by (rule finite_subset [of _ "{..<LENGTH('a)}"]) (auto dest: bit_imp_le_length)

lemma count_bits: "CountBytes v = card {i. bit (v :: 'a::len word) i}"
proof (induction v rule: CountBytes.induct)
  case (1 v)
  show ?case
  proof (cases "v = 0")
    case True
    then show ?thesis by (simp add: CountBytes.simps)
  next
    case False
    obtain k where k: "bit v k" "\<forall>i. bit (v AND (v - 1)) i \<longleftrightarrow> bit v i \<and> i \<noteq> k"
      by (rule lowest_bit_split [OF False])
    then have "{i. bit (v AND (v - 1)) i} = {i. bit v i} - {k}" by blast
    then have "card {i. bit v i} = Suc (card {i. bit (v AND (v - 1)) i})"
      using k(1) card.remove [OF set_bits_finite, of k v] by simp
    moreover have "CountBytes v = Suc (CountBytes (v AND (v - 1)))"
      using False CountBytes.simps [of v] by metis
    ultimately show ?thesis using 1 [OF False] by metis
  qed
qed

text \<open>
  C38: \<open>CountBytes\<close> counts the set bits of its argument, so the prefix length of an interface
  is the number of ones of its mask.
\<close>

theorem CountBytes_counts: "CountBytes v = card {i. bit (v :: 'a::len word) i}"
  by (rule count_bits)

subsection \<open>Reading an IPv6 text back\<close>

text \<open>
  What the tokens denote: the numbers in order, with a double colon standing for as many
  zeros as are missing.
\<close>

fun nums :: "tok list \<Rightarrow> 16 word list" where
  "nums [] = []"
| "nums (Colon # ts) = nums ts"
| "nums (Num g # ts) = g # nums ts"

fun split_gap :: "tok list \<Rightarrow> (tok list \<times> tok list) option" where
  "split_gap (Colon # Colon # ts) = Some ([], ts)"
| "split_gap (t # ts) = map_option (\<lambda>(a, b). (t # a, b)) (split_gap ts)"
| "split_gap [] = None"

definition decode6 :: "nat \<Rightarrow> tok list \<Rightarrow> 16 word list" where
  "decode6 n ts =
     (case split_gap ts of
        None \<Rightarrow> nums ts
      | Some (a, b) \<Rightarrow> nums a @ replicate (n - length (nums a) - length (nums b)) 0 @ nums b)"

text \<open>The tokens denote \<open>gs\<close> whatever the number of groups left out is.\<close>

definition denotes :: "tok list \<Rightarrow> 16 word list \<Rightarrow> bool" where
  "denotes ts gs \<longleftrightarrow>
     (case split_gap ts of
        None \<Rightarrow> nums ts = gs
      | Some (a, b) \<Rightarrow> \<exists>k. gs = nums a @ replicate k 0 @ nums b)"

lemma denotes_decode: "denotes ts gs \<Longrightarrow> decode6 (length gs) ts = gs"
  by (auto simp: denotes_def decode6_def split: option.splits)

lemma denotes_Num: "denotes ts gs \<Longrightarrow> denotes (Num g # ts) (g # gs)"
  by (auto simp: denotes_def split: option.splits)

lemma denotes_Colon_Num: "denotes ts gs \<Longrightarrow> denotes (Colon # Num g # ts) (g # gs)"
  by (auto simp: denotes_def split: option.splits)

lemma insert6_used:
  "snd (insert6_loop True (Some p) gs) \<and> nums (fst (insert6_loop True (Some p) gs)) = gs"
  by (induction gs arbitrary: p) (auto simp: split_beta Let_def)

definition close_gap :: "tok list \<times> bool \<Rightarrow> tok list" where
  "close_gap r = fst r @ (if snd r then [] else [Colon, Colon])"

lemma insert6_zeros:
  "denotes (close_gap (insert6_loop False (Some 0) gs)) (0 # gs)
   \<and> (\<not> snd (insert6_loop False (Some 0) gs) \<longrightarrow> set gs \<subseteq> {0})"
proof (induction gs)
  case Nil
  have "\<exists>k. [0] = replicate k (0 :: 16 word)" by (rule exI [of _ 1]) simp
  then show ?case by (simp add: close_gap_def denotes_def)
next
  case (Cons g gs)
  show ?case
  proof (cases "g = 0")
    case True
    have "denotes ts (0 # 0 # gs)" if d: "denotes ts (0 # gs)" and g: "split_gap ts \<noteq> None"
        "\<forall>a b. split_gap ts = Some (a, b) \<longrightarrow> nums a = []" for ts
    proof -
      obtain a b k where "split_gap ts = Some (a, b)" "nums a = []" "0 # gs = replicate k 0 @ nums b"
        using d g by (auto simp: denotes_def)
      then show ?thesis by (auto simp: denotes_def intro!: exI [of _ "Suc k"])
    qed
    moreover have "\<exists>b. split_gap (close_gap (insert6_loop False (Some 0) gs)) = Some ([], b)"
      by (induction gs) (auto simp: close_gap_def split_beta Let_def)
    ultimately show ?thesis using Cons True by auto
  next
    case False
    let ?r = "insert6_loop True (Some g) gs"
    have r: "snd ?r" "nums (fst ?r) = gs" using insert6_used [of g gs] by simp_all
    have l: "insert6_loop False (Some 0) (g # gs) = ([Colon, Colon, Num g] @ fst ?r, snd ?r)"
      using False by (simp add: split_beta Let_def)
    have "\<exists>k. 0 # g # gs = replicate k 0 @ g # gs" by (rule exI [of _ 1]) simp
    then have "denotes ([Colon, Colon, Num g] @ fst ?r) (0 # g # gs)"
      by (simp add: denotes_def r(2))
    then show ?thesis unfolding l by (simp add: close_gap_def r(1))
  qed
qed

lemma insert6_all_zero:
  assumes "\<not> snd (insert6_loop False (Some 0) gs)"
  shows "last (0 # gs) = 0"
proof -
  have "set gs \<subseteq> {0}" using insert6_zeros assms by blast
  then show ?thesis using last_in_set [of "0 # gs"] by fastforce
qed

lemma insert6_nonzero:
  assumes "p \<noteq> 0"
  shows "denotes (fst (insert6_loop False (Some p) gs)
            @ (if \<not> snd (insert6_loop False (Some p) gs) \<and> gs \<noteq> [] \<and> last gs = 0 then [Colon, Colon] else [])) gs"
  using assms
proof (induction gs arbitrary: p)
  case Nil
  then show ?case by (simp add: denotes_def)
next
  case (Cons g gs)
  show ?case
  proof (cases "g = 0")
    case True
    let ?r = "insert6_loop False (Some 0) gs"
    note insert6_all_zero [of gs]
    then have "fst ?r @ (if \<not> snd ?r \<and> last (0 # gs) = 0 then [Colon, Colon] else []) = close_gap ?r"
      by (simp add: close_gap_def)
    then show ?thesis using insert6_zeros [of gs] True by simp
  next
    case False
    let ?r = "insert6_loop False (Some g) gs"
    have l: "insert6_loop False (Some p) (g # gs) = ([Colon, Num g] @ fst ?r, snd ?r)"
      using False Cons.prems by (simp add: split_beta Let_def)
    have "(g # gs \<noteq> [] \<and> last (g # gs) = 0) = (gs \<noteq> [] \<and> last gs = 0)" using False by simp
    then show ?thesis
      unfolding l using denotes_Colon_Num [OF Cons.IH [OF False], of g] by simp
  qed
qed

text \<open>
  The text of an IPv6 address, with at most one run of zero groups replaced by a double
  colon, denotes the address: reading the printed groups back gives the eight groups.
\<close>

theorem insert6_denotes:
  "decode6 (length gs) (insert6_tokens gs) = gs"
proof (rule denotes_decode, cases gs)
  case Nil
  then show "denotes (insert6_tokens gs) gs" by (simp add: insert6_tokens_def denotes_def)
next
  case (Cons g hs)
  show "denotes (insert6_tokens gs) gs"
  proof (cases "g = 0")
    case True
    let ?r = "insert6_loop False (Some 0) hs"
    note insert6_all_zero [of hs]
    then have "insert6_tokens gs = close_gap ?r"
      using Cons True by (simp add: insert6_tokens_def close_gap_def split_beta Let_def)
    then show ?thesis using insert6_zeros [of hs] Cons True by simp
  next
    case False
    let ?r = "insert6_loop False (Some g) hs"
    have l: "insert6_loop False None gs = (Num g # fst ?r, snd ?r)"
      using False Cons by (simp add: split_beta Let_def)
    have "(gs \<noteq> [] \<and> last gs = 0) = (hs \<noteq> [] \<and> last hs = 0)" using False Cons by simp
    then show ?thesis
      unfolding insert6_tokens_def l using denotes_Num [OF insert6_nonzero [OF False, of hs], of g] Cons
      by simp
  qed
qed

subsection \<open>Hosts and services\<close>

lemma first_index_append: "x \<notin> set xs \<Longrightarrow> first_index (\<lambda>c. c = x) (xs @ x # ys) = length xs"
  by (induction xs) auto

lemma first_index_none: "x \<notin> set xs \<Longrightarrow> first_index (\<lambda>c. c = x) xs = length xs"
  by (induction xs) auto

lemma split_bracket_none: "host = [] \<or> hd host \<noteq> CHR ''['' \<Longrightarrow> split_bracket host = ([], None)"
  by (auto simp: split_bracket_def)

text \<open>
  A host name without colon and bracket is looked up as it is; \<open>name:service\<close> is split at
  the colon, and \<open>[address]:service\<close> at the bracket.
\<close>

theorem split_host_forms:
  assumes "node \<noteq> []" and "CHR '':'' \<notin> set node" and "CHR ''['' \<notin> set node" and "CHR '':'' \<notin> set service"
    and "inner \<noteq> []" and "CHR '']'' \<notin> set inner"
  shows "split_host node = (node, None) \<and> split_host (node @ '':'' @ service) = (node, Some service)
    \<and> split_host (''['' @ inner @ '']:'' @ service) = (inner, Some service)"
proof (intro conjI)
  have nb: "hd (node @ xs) \<noteq> CHR ''[''" for xs using assms(1,3) by (cases node) auto
  show "split_host node = (node, None)"
    using split_bracket_none [of node] nb [of "[]"] assms(1,2)
    by (simp add: split_host_def split_colon_def first_index_none)
  show "split_host (node @ '':'' @ service) = (node, Some service)"
    using split_bracket_none [of "node @ '':'' @ service"] nb assms(1,2,4) first_index_append [OF assms(2), of service]
    by (simp add: split_host_def split_colon_def)
  have "split_bracket (''['' @ inner @ '']:'' @ service) = (inner, Some service)"
    using first_index_append [OF assms(6), of "CHR '':'' # service"]
    by (simp add: split_bracket_def nth_append)
  then show "split_host (''['' @ inner @ '']:'' @ service) = (inner, Some service)"
    using assms(5) by (simp add: split_host_def)
qed

theorem split_host_forms_witness:
  "split_host ''ab'' = (''ab'', None) \<and> split_host (''ab'' @ '':'' @ ''80'') = (''ab'', Some ''80'')
    \<and> split_host (''['' @ ''::1'' @ '']:'' @ ''80'') = (''::1'', Some ''80'')"
  by (rule split_host_forms) simp_all

text \<open>
  A bare IPv6 address is not recognised: the search for a service stops at the first
  colon, sees a second one, and leaves the rest of the address as the service.
\<close>

theorem split_host_bare_ipv6:
  assumes "CHR '':'' \<notin> set a" and "CHR ''['' \<notin> set a" and "CHR '':'' \<in> set b"
  shows "split_host (a @ '':'' @ b) = (a @ '':'' @ b, Some ('':'' @ b))"
proof -
  have "hd (a @ '':'' @ b) \<noteq> CHR ''[''" using assms(2) by (cases a) auto
  then show ?thesis
    using assms(1,3) split_bracket_none [of "a @ '':'' @ b"] first_index_append [OF assms(1), of b]
    by (simp add: split_host_def split_colon_def)
qed

theorem split_host_bare_ipv6_witness:
  "split_host (''fe80'' @ '':'' @ ''a:1'') = (''fe80'' @ '':'' @ ''a:1'', Some ('':'' @ ''a:1''))"
  by (rule split_host_bare_ipv6) simp_all

text \<open>
  The address family given to \<open>LookUpAny\<close> has no influence: the socket type is passed in
  its place, and the protocol in the place of the type.
\<close>

theorem LookUpAny_ignores_family:
  "LookUpAny getaddrinfo host family type protocol = LookUpAny getaddrinfo host family' type protocol
   \<and> LookUpAnyIPAddress getaddrinfo host family type protocol = LookUpAnyIPAddress getaddrinfo host family' type protocol"
  by (simp add: LookUpAny_def LookUpAnyIPAddress_def)

end
