(* ===== verification/Strings.thy ===== *)
theory Strings
  imports Prelude "HOL-Library.List_Lexorder" "HOL-Library.Char_ord"
begin

text \<open>
  The C string functions the HTTP part relies on, and the ordered map it keeps its
  fields in: a \<open>std::map\<close> whose keys are compared without regard to case
  (\<open>CaseInsensitiveLess\<close> of \<open>http.cpp\<close>). The map is the list of its nodes in order; each
  operation walks to the first node that is not before the key. The interface
  \<open>keyed_map\<close> is what every table of named things promises: the fields of a message here,
  the services of a server later.
\<close>

section \<open>C strings\<close>

definition c_str :: "string \<Rightarrow> string" where
  "c_str s = takeWhile (\<lambda>c. c \<noteq> CHR 0x00) s"

definition to_lower :: "char \<Rightarrow> char" where
  "to_lower c = (if 65 \<le> (of_char c :: nat) \<and> (of_char c :: nat) \<le> 90 then char_of ((of_char c :: nat) + 32) else c)"

definition char_code :: "char \<Rightarrow> nat" where
  "char_code c = of_char (to_lower c)"

fun casecmp :: "string \<Rightarrow> string \<Rightarrow> int" where
  "casecmp [] [] = 0"
| "casecmp [] (b # bs) = - int (char_code b)"
| "casecmp (a # as) [] = int (char_code a)"
| "casecmp (a # as) (b # bs) =
     (if char_code a = char_code b then casecmp as bs else int (char_code a) - int (char_code b))"

definition strcasecmp :: "string \<Rightarrow> string \<Rightarrow> int" where
  "strcasecmp l r = casecmp (c_str l) (c_str r)"

definition CaseInsensitiveLess :: "string \<Rightarrow> string \<Rightarrow> bool" where
  "CaseInsensitiveLess l r \<longleftrightarrow> strcasecmp l r < 0"

text \<open>What the comparison sees of a key.\<close>

definition fold_key :: "string \<Rightarrow> nat list" where
  "fold_key s = map char_code (c_str s)"

lemma c_str_no_nul: "CHR 0x00 \<notin> set (c_str s)"
  by (auto simp: c_str_def dest: set_takeWhileD)

lemma c_str_id [simp]: "CHR 0x00 \<notin> set s \<Longrightarrow> c_str s = s"
  by (auto simp: c_str_def takeWhile_eq_all_conv)

lemma char_code_pos: "c \<noteq> CHR 0x00 \<Longrightarrow> 0 < char_code c"
proof -
  assume c: "c \<noteq> CHR 0x00"
  have "of_char c \<noteq> (of_char (CHR 0x00) :: nat)" using c by (simp only: of_char_eq_iff) simp
  then have "0 < (of_char c :: nat)" by simp
  moreover have "0 < (of_char (char_of (n + 32) :: char) :: nat)" if "65 \<le> n" "n \<le> 90" for n :: nat
    using that by (simp add: of_char_of)
  ultimately show ?thesis by (simp add: char_code_def to_lower_def)
qed

lemma casecmp_less:
  assumes "CHR 0x00 \<notin> set as" and "CHR 0x00 \<notin> set bs"
  shows "casecmp as bs < 0 \<longleftrightarrow> map char_code as < map char_code bs"
  using assms
proof (induction as bs rule: casecmp.induct)
  case (2 b bs)
  then show ?case using char_code_pos [of b] by fastforce
next
  case (3 a as)
  then show ?case using char_code_pos [of a] by fastforce
next
  case (4 a as b bs)
  then show ?case by auto
qed simp

lemma casecmp_zero:
  assumes "CHR 0x00 \<notin> set as" and "CHR 0x00 \<notin> set bs"
  shows "casecmp as bs = 0 \<longleftrightarrow> map char_code as = map char_code bs"
  using assms
proof (induction as bs rule: casecmp.induct)
  case (2 b bs)
  then show ?case using char_code_pos [of b] by fastforce
next
  case (3 a as)
  then show ?case using char_code_pos [of a] by fastforce
next
  case (4 a as b bs)
  then show ?case by auto
qed simp

lemma CaseInsensitiveLess_iff: "CaseInsensitiveLess l r \<longleftrightarrow> fold_key l < fold_key r"
  by (simp add: CaseInsensitiveLess_def strcasecmp_def fold_key_def casecmp_less c_str_no_nul)

lemma strcasecmp_zero_iff: "strcasecmp l r = 0 \<longleftrightarrow> fold_key l = fold_key r"
  by (simp add: strcasecmp_def fold_key_def casecmp_zero c_str_no_nul)

section \<open>The ordered map\<close>

type_synonym 'v ci_map = "(string \<times> 'v) list"

fun ci_find :: "string \<Rightarrow> 'v ci_map \<Rightarrow> 'v option" where
  "ci_find key [] = None"
| "ci_find key ((k, v) # m) =
     (if CaseInsensitiveLess k key then ci_find key m
      else if CaseInsensitiveLess key k then None else Some v)"

text \<open>Assigning to an element that is there keeps the key as it was first written.\<close>

fun ci_set :: "string \<Rightarrow> 'v \<Rightarrow> 'v ci_map \<Rightarrow> 'v ci_map" where
  "ci_set key val [] = [(key, val)]"
| "ci_set key val ((k, v) # m) =
     (if CaseInsensitiveLess k key then (k, v) # ci_set key val m
      else if CaseInsensitiveLess key k then (key, val) # (k, v) # m
      else (k, val) # m)"

fun ci_erase :: "string \<Rightarrow> 'v ci_map \<Rightarrow> 'v ci_map" where
  "ci_erase key [] = []"
| "ci_erase key ((k, v) # m) =
     (if CaseInsensitiveLess k key then (k, v) # ci_erase key m
      else if CaseInsensitiveLess key k then (k, v) # m else m)"

definition ci_sorted :: "'v ci_map \<Rightarrow> bool" where
  "ci_sorted m \<longleftrightarrow> sorted_wrt (<) (map (\<lambda>(k, _). fold_key k) m)"

text \<open>The finite map it stands for, from folded keys to values.\<close>

definition ci_abs :: "'v ci_map \<Rightarrow> nat list \<rightharpoonup> 'v" where
  "ci_abs m = map_of (map (\<lambda>(k, v). (fold_key k, v)) m)"

lemma ci_sorted_Nil [simp]: "ci_sorted []"
  by (simp add: ci_sorted_def)

lemma ci_sorted_Cons [simp]:
  "ci_sorted ((k, v) # m) \<longleftrightarrow> (\<forall>(k', v') \<in> set m. fold_key k < fold_key k') \<and> ci_sorted m"
  by (auto simp: ci_sorted_def)

lemma ci_abs_Nil [simp]: "ci_abs [] = Map.empty"
  by (simp add: ci_abs_def)

lemma ci_abs_Cons [simp]: "ci_abs ((k, v) # m) = (ci_abs m)(fold_key k \<mapsto> v)"
  by (simp add: ci_abs_def)

lemma ci_abs_below: "\<forall>(k', v') \<in> set m. q < fold_key k' \<Longrightarrow> ci_abs m q = None"
  by (induction m) auto

lemma ci_find_abs: "ci_sorted m \<Longrightarrow> ci_find key m = ci_abs m (fold_key key)"
proof (induction m)
  case (Cons kv m)
  obtain k v where kv: "kv = (k, v)" by (cases kv)
  have less: "\<forall>(k', v') \<in> set m. fold_key k < fold_key k'" using Cons.prems by (simp add: kv)
  have "ci_abs m (fold_key key) = None" if "fold_key key < fold_key k"
    using less that by (intro ci_abs_below) (auto dest: order_less_trans)
  then show ?case using Cons by (auto simp: kv CaseInsensitiveLess_iff not_less)
qed simp

lemma set_ci_set: "set (ci_set key val m) \<subseteq> {(k, v). fold_key k = fold_key key \<or> (k, v) \<in> set m}"
  by (induction m) (auto simp: CaseInsensitiveLess_iff not_less split: if_splits intro: antisym)

lemma ci_set_sorted: "ci_sorted m \<Longrightarrow> ci_sorted (ci_set key val m)"
proof (induction m)
  case (Cons kv m)
  obtain k v where kv: "kv = (k, v)" by (cases kv)
  have less: "\<forall>(k', v') \<in> set m. fold_key k < fold_key k'" and m: "ci_sorted m"
    using Cons.prems by (simp_all add: kv)
  consider "fold_key k < fold_key key" | "fold_key key < fold_key k" | "fold_key k = fold_key key"
    by (rule linorder_less_linear [THEN disjE]) auto
  then show ?case
  proof cases
    case 1
    then have "\<forall>(k', v') \<in> set (ci_set key val m). fold_key k < fold_key k'"
      using less set_ci_set [of key val m] by fastforce
    then show ?thesis using 1 Cons.IH [OF m] by (simp add: kv CaseInsensitiveLess_iff)
  next
    case 2
    then show ?thesis using less m
      by (auto simp: kv CaseInsensitiveLess_iff not_less dest: order_less_trans intro: less_imp_le)
  next
    case 3
    then show ?thesis using less m by (simp add: kv CaseInsensitiveLess_iff)
  qed
qed simp

lemma ci_set_abs: "ci_abs (ci_set key val m) = (ci_abs m)(fold_key key \<mapsto> val)"
proof (induction m)
  case (Cons kv m)
  obtain k v where kv: "kv = (k, v)" by (cases kv)
  consider "fold_key k < fold_key key" | "fold_key key < fold_key k" | "fold_key k = fold_key key"
    by (rule linorder_less_linear [THEN disjE]) auto
  then show ?case
    by cases (use Cons in \<open>auto simp: kv CaseInsensitiveLess_iff fun_eq_iff\<close>)
qed simp

lemma set_ci_erase: "set (ci_erase key m) \<subseteq> set m"
  by (induction m) (auto split: if_splits)

lemma ci_erase_sorted: "ci_sorted m \<Longrightarrow> ci_sorted (ci_erase key m)"
proof (induction m)
  case (Cons kv m)
  then show ?case using set_ci_erase [of key m] by (cases kv) auto
qed simp

lemma ci_erase_abs: "ci_sorted m \<Longrightarrow> ci_abs (ci_erase key m) = (ci_abs m)(fold_key key := None)"
proof (induction m)
  case (Cons kv m)
  obtain k v where kv: "kv = (k, v)" by (cases kv)
  have less: "\<forall>(k', v') \<in> set m. fold_key k < fold_key k'" and m: "ci_sorted m"
    using Cons.prems by (simp_all add: kv)
  consider "fold_key k < fold_key key" | "fold_key key < fold_key k" | "fold_key k = fold_key key"
    by (rule linorder_less_linear [THEN disjE]) auto
  then show ?case
  proof cases
    case 1
    then show ?thesis using Cons.IH [OF m] by (auto simp: kv CaseInsensitiveLess_iff fun_eq_iff)
  next
    case 2
    then have "ci_abs m (fold_key key) = None"
      using less by (intro ci_abs_below) (auto dest: order_less_trans)
    then show ?thesis using 2 by (auto simp: kv CaseInsensitiveLess_iff fun_eq_iff not_less dest: less_imp_le)
  next
    case 3
    then have "ci_abs m (fold_key key) = None" using less by (intro ci_abs_below) auto
    then show ?thesis using 3 by (auto simp: kv CaseInsensitiveLess_iff fun_eq_iff)
  qed
qed simp

section \<open>The interface of a table of named things\<close>

text \<open>\<open>key\<close> is what the table sees of a name.\<close>

locale keyed_map =
  fixes key :: "string \<Rightarrow> 'k" and inv :: "'s \<Rightarrow> bool" and look :: "'s \<Rightarrow> string \<Rightarrow> 'v option"
    and put :: "string \<Rightarrow> 'v \<Rightarrow> 's \<Rightarrow> 's" and del :: "string \<Rightarrow> 's \<Rightarrow> 's"
  assumes put_inv: "inv s \<Longrightarrow> inv (put k v s)" and del_inv: "inv s \<Longrightarrow> inv (del k s)"
    and look_put: "inv s \<Longrightarrow> look (put k v s) k' = (if key k = key k' then Some v else look s k')"
    and look_del: "inv s \<Longrightarrow> look (del k s) k' = (if key k = key k' then None else look s k')"
begin

lemma put_all_inv: "inv s \<Longrightarrow> inv (fold (\<lambda>(k, v). put k v) kvs s)"
  by (induction kvs arbitrary: s) (auto simp: put_inv)

lemma look_put_all:
  "inv s \<Longrightarrow> look (fold (\<lambda>(k, v). put k v) kvs s) q =
     (case filter (\<lambda>(k, _). key k = key q) kvs of
        [] \<Rightarrow> look s q
      | hits \<Rightarrow> Some (snd (last hits)))"
proof (induction kvs arbitrary: s)
  case (Cons kv kvs)
  obtain k v where kv: "kv = (k, v)" by (cases kv)
  show ?case
    using Cons.IH [OF put_inv [OF Cons.prems], of k v] Cons.prems
    by (auto simp: kv look_put split: list.splits)
qed simp

lemma look_same_key: "inv s \<Longrightarrow> key k = key k' \<Longrightarrow> look (put k v s) k' = Some v"
  by (simp add: look_put)

lemma del_put: "inv s \<Longrightarrow> look (del k (put k v s)) = look (del k s)"
  by (auto simp: look_put look_del put_inv)

end

interpretation ci: keyed_map fold_key ci_sorted "\<lambda>m k. ci_find k m" "ci_set" "ci_erase"
  by unfold_locales (simp_all add: ci_set_sorted ci_erase_sorted ci_find_abs ci_set_abs ci_erase_abs)

end
