(* ===== verification/Http.thy ===== *)
theory Http
  imports Strings
begin

text \<open>
  \<open>http/http.h\<close> and \<open>http/http.cpp\<close>: methods and status codes with their names, requests
  and responses with their fields, and the messages they are printed as. A status is an
  \<open>int\<close>, since the parser casts any number to the enumeration. The conversion
  \<open>boost::lexical_cast\<close> is a parameter.
\<close>

unbundle bit_operations_syntax

section \<open>Methods and status codes\<close>

datatype HttpMethod =
    DELETE | GET | HEAD | POST | PUT | CONNECT | OPTIONS | TRACE | COPY | LOCK | MKCOL | MOVE |
    PROPFIND | PROPPATCH | SEARCH | UNLOCK | BIND | REBIND | UNBIND | ACL | REPORT | MKACTIVITY |
    CHECKOUT | MERGE | MSEARCH | NOTIFY | SUBSCRIBE | UNSUBSCRIBE | PATCH | PURGE | MKCALENDAR |
    LINK | UNLINK | SOURCE | INVALID_METHOD

definition method_strings :: "(HttpMethod \<times> string) list" where
  "method_strings =
    [(DELETE, ''DELETE''), (GET, ''GET''), (HEAD, ''HEAD''), (POST, ''POST''), (PUT, ''PUT''),
     (CONNECT, ''CONNECT''), (OPTIONS, ''OPTIONS''), (TRACE, ''TRACE''), (COPY, ''COPY''),
     (LOCK, ''LOCK''), (MKCOL, ''MKCOL''), (MOVE, ''MOVE''), (PROPFIND, ''PROPFIND''),
     (PROPPATCH, ''PROPPATCH''), (SEARCH, ''SEARCH''), (UNLOCK, ''UNLOCK''), (BIND, ''BIND''),
     (REBIND, ''REBIND''), (UNBIND, ''UNBIND''), (ACL, ''ACL''), (REPORT, ''REPORT''),
     (MKACTIVITY, ''MKACTIVITY''), (CHECKOUT, ''CHECKOUT''), (MERGE, ''MERGE''),
     (MSEARCH, ''M-SEARCH''), (NOTIFY, ''NOTIFY''), (SUBSCRIBE, ''SUBSCRIBE''),
     (UNSUBSCRIBE, ''UNSUBSCRIBE''), (PATCH, ''PATCH''), (PURGE, ''PURGE''),
     (MKCALENDAR, ''MKCALENDAR''), (LINK, ''LINK''), (UNLINK, ''UNLINK''), (SOURCE, ''SOURCE'')]"

fun first_method :: "(string \<Rightarrow> bool) \<Rightarrow> (HttpMethod \<times> string) list \<Rightarrow> HttpMethod" where
  "first_method P [] = INVALID_METHOD"
| "first_method P ((m, s) # ms) = (if P s then m else first_method P ms)"

definition StringToHttpMethod :: "string \<Rightarrow> HttpMethod" where
  "StringToHttpMethod method = first_method (\<lambda>s. s = c_str method) method_strings"

text \<open>\<open>strncmp\<close> over the length of the name: \<open>method\<close> is the memory behind the pointer.\<close>

definition CharsToHttpMethod :: "string \<Rightarrow> HttpMethod" where
  "CharsToHttpMethod method = first_method (\<lambda>s. take (length s) (c_str method) = s) method_strings"

definition HttpMethodToString :: "HttpMethod \<Rightarrow> string" where
  "HttpMethodToString method =
     (case map_of method_strings method of Some s \<Rightarrow> s | None \<Rightarrow> ''<unknown>'')"

definition status_strings :: "(int \<times> string) list" where
  "status_strings =
    [(100, ''Continue''), (101, ''Switching Protocols''), (102, ''Processing''), (200, ''OK''),
     (201, ''Created''), (202, ''Accepted''), (203, ''Non-Authoritative Information''),
     (204, ''No Content''), (205, ''Reset Content''), (206, ''Partial Content''),
     (207, ''Multi-Status''), (208, ''Already Reported''), (226, ''IM Used''),
     (300, ''Multiple Choices''), (301, ''Moved Permanently''), (302, ''Found''),
     (303, ''See Other''), (304, ''Not Modified''), (305, ''Use Proxy''),
     (307, ''Temporary Redirect''), (308, ''Permanent Redirect''), (400, ''Bad Request''),
     (401, ''Unauthorized''), (402, ''Payment Required''), (403, ''Forbidden''),
     (404, ''Not Found''), (405, ''Method Not Allowed''), (406, ''Not Acceptable''),
     (407, ''Proxy Authentication Required''), (408, ''Request Timeout''), (409, ''Conflict''),
     (410, ''Gone''), (411, ''Length Required''), (412, ''Precondition Failed''),
     (413, ''Payload Too Large''), (414, ''URI Too Long''), (415, ''Unsupported Media Type''),
     (416, ''Range Not Satisfiable''), (417, ''Expectation Failed''),
     (421, ''Misdirected Request''), (422, ''Unprocessable Entity''), (423, ''Locked''),
     (424, ''Failed Dependency''), (426, ''Upgrade Required''), (428, ''Precondition Required''),
     (429, ''Too Many Requests''), (431, ''Request Header Fields Too Large''),
     (451, ''Unavailable For Legal Reasons''), (500, ''Internal Server Error''),
     (501, ''Not Implemented''), (502, ''Bad Gateway''), (503, ''Service Unavailable''),
     (504, ''Gateway Timeout''), (505, ''HTTP Version Not Supported''),
     (506, ''Variant Also Negotiates''), (507, ''Insufficient Storage''), (508, ''Loop Detected''),
     (510, ''Not Extended''), (511, ''Network Authentication Required'')]"

definition HttpStatusToString :: "int \<Rightarrow> string" where
  "HttpStatusToString status = (case map_of status_strings status of Some s \<Rightarrow> s | None \<Rightarrow> ''<unknown>'')"

section \<open>Requests\<close>

record request =
  rq_method :: HttpMethod
  rq_version :: "8 word"
  rq_close :: bool
  rq_path :: string
  rq_query :: string
  rq_fragment :: string
  rq_body :: string
  rq_headers :: "string ci_map"
  rq_params :: "string ci_map"
  rq_cookies :: "string ci_map"

definition HttpRequest :: "8 word \<Rightarrow> bool \<Rightarrow> request" where
  "HttpRequest version close =
     \<lparr>rq_method = GET, rq_version = version, rq_close = close, rq_path = ''/'', rq_query = [],
      rq_fragment = [], rq_body = [], rq_headers = [], rq_params = [], rq_cookies = []\<rparr>"

definition setHeader :: "string \<Rightarrow> string \<Rightarrow> request \<Rightarrow> request" where
  "setHeader key val rq = rq\<lparr>rq_headers := ci_set key val (rq_headers rq)\<rparr>"

definition getHeadr :: "string \<Rightarrow> string \<Rightarrow> request \<Rightarrow> string" where
  "getHeadr key def rq = (case ci_find key (rq_headers rq) of None \<Rightarrow> def | Some v \<Rightarrow> v)"

definition delHeader :: "string \<Rightarrow> request \<Rightarrow> request" where
  "delHeader key rq = rq\<lparr>rq_headers := ci_erase key (rq_headers rq)\<rparr>"

text \<open>The second component is what goes to \<open>val\<close>, when the field is there.\<close>

definition hasHeader :: "string \<Rightarrow> request \<Rightarrow> bool \<times> string option" where
  "hasHeader key rq =
     (case ci_find key (rq_headers rq) of None \<Rightarrow> (False, None) | Some v \<Rightarrow> (True, Some v))"

definition setParam :: "string \<Rightarrow> string \<Rightarrow> request \<Rightarrow> request" where
  "setParam key val rq = rq\<lparr>rq_params := ci_set key val (rq_params rq)\<rparr>"

definition getParam :: "string \<Rightarrow> string \<Rightarrow> request \<Rightarrow> string" where
  "getParam key def rq = (case ci_find key (rq_params rq) of None \<Rightarrow> def | Some v \<Rightarrow> v)"

definition delParam :: "string \<Rightarrow> request \<Rightarrow> request" where
  "delParam key rq = rq\<lparr>rq_params := ci_erase key (rq_params rq)\<rparr>"

definition hasParam :: "string \<Rightarrow> request \<Rightarrow> bool \<times> string option" where
  "hasParam key rq =
     (case ci_find key (rq_params rq) of None \<Rightarrow> (False, None) | Some v \<Rightarrow> (True, Some v))"

definition setCookie :: "string \<Rightarrow> string \<Rightarrow> request \<Rightarrow> request" where
  "setCookie key val rq = rq\<lparr>rq_cookies := ci_set key val (rq_cookies rq)\<rparr>"

definition getCookie :: "string \<Rightarrow> string \<Rightarrow> request \<Rightarrow> string" where
  "getCookie key def rq = (case ci_find key (rq_cookies rq) of None \<Rightarrow> def | Some v \<Rightarrow> v)"

definition delCookie :: "string \<Rightarrow> request \<Rightarrow> request" where
  "delCookie key rq = rq\<lparr>rq_cookies := ci_erase key (rq_cookies rq)\<rparr>"

definition hasCookie :: "string \<Rightarrow> request \<Rightarrow> bool \<times> string option" where
  "hasCookie key rq =
     (case ci_find key (rq_cookies rq) of None \<Rightarrow> (False, None) | Some v \<Rightarrow> (True, Some v))"

subsection \<open>Typed access\<close>

definition checkGetAs :: "(string \<Rightarrow> 'a option) \<Rightarrow> string ci_map \<Rightarrow> string \<Rightarrow> 'a \<Rightarrow> bool \<times> 'a" where
  "checkGetAs lexical_cast m key def =
     (case ci_find key m of
        None \<Rightarrow> (False, def)
      | Some s \<Rightarrow> (case lexical_cast s of Some v \<Rightarrow> (True, v) | None \<Rightarrow> (False, def)))"

definition getAs :: "(string \<Rightarrow> 'a option) \<Rightarrow> string ci_map \<Rightarrow> string \<Rightarrow> 'a \<Rightarrow> 'a" where
  "getAs lexical_cast m key def =
     (case ci_find key m of
        None \<Rightarrow> def
      | Some s \<Rightarrow> (case lexical_cast s of Some v \<Rightarrow> v | None \<Rightarrow> def))"

definition checkGetHeaderAs :: "(string \<Rightarrow> 'a option) \<Rightarrow> string \<Rightarrow> 'a \<Rightarrow> request \<Rightarrow> bool \<times> 'a" where
  "checkGetHeaderAs lexical_cast key def rq = checkGetAs lexical_cast (rq_headers rq) key def"

definition GetHeaderAs :: "(string \<Rightarrow> 'a option) \<Rightarrow> string \<Rightarrow> 'a \<Rightarrow> request \<Rightarrow> 'a" where
  "GetHeaderAs lexical_cast key def rq = getAs lexical_cast (rq_headers rq) key def"

definition checkGetParamAs :: "(string \<Rightarrow> 'a option) \<Rightarrow> string \<Rightarrow> 'a \<Rightarrow> request \<Rightarrow> bool \<times> 'a" where
  "checkGetParamAs lexical_cast key def rq = checkGetAs lexical_cast (rq_params rq) key def"

definition GetParamAs :: "(string \<Rightarrow> 'a option) \<Rightarrow> string \<Rightarrow> 'a \<Rightarrow> request \<Rightarrow> 'a" where
  "GetParamAs lexical_cast key def rq = getAs lexical_cast (rq_params rq) key def"

text \<open>The two for cookies look into the parameters.\<close>

definition checkGetCookieAs :: "(string \<Rightarrow> 'a option) \<Rightarrow> string \<Rightarrow> 'a \<Rightarrow> request \<Rightarrow> bool \<times> 'a" where
  "checkGetCookieAs lexical_cast key def rq = checkGetAs lexical_cast (rq_params rq) key def"

definition GetCookieAs :: "(string \<Rightarrow> 'a option) \<Rightarrow> string \<Rightarrow> 'a \<Rightarrow> request \<Rightarrow> 'a" where
  "GetCookieAs lexical_cast key def rq = getAs lexical_cast (rq_params rq) key def"

definition init_request :: "request \<Rightarrow> request" where
  "init_request rq =
     (let connection = getHeadr ''connection'' [] rq in
      if connection \<noteq> [] then rq\<lparr>rq_close := (strcasecmp connection ''keep-alive'' \<noteq> 0)\<rparr> else rq)"

subsection \<open>The message\<close>

definition CRLF :: string where
  "CRLF = [CHR 0x0D, CHR 0x0A]"

definition version_text :: "8 word \<Rightarrow> string" where
  "version_text v = ''HTTP/'' @ dec_digits (unat (drop_bit 4 v)) @ ''.'' @ dec_digits (unat (v AND 0x0F))"

definition dump_fields :: "string ci_map \<Rightarrow> string" where
  "dump_fields m =
     concat (map (\<lambda>(k, v). if strcasecmp k ''connection'' = 0 then [] else k @ '':'' @ v @ CRLF) m)"

definition dump_body :: "string \<Rightarrow> string" where
  "dump_body body =
     (if body \<noteq> [] then ''content-length: '' @ dec_digits (length body) @ CRLF @ CRLF @ body else CRLF)"

definition dump_request :: "request \<Rightarrow> string" where
  "dump_request rq =
     HttpMethodToString (rq_method rq) @ '' '' @ rq_path rq
     @ (if rq_query rq \<noteq> [] then ''?'' else []) @ rq_query rq
     @ (if rq_fragment rq \<noteq> [] then ''#'' else []) @ rq_fragment rq
     @ '' '' @ version_text (rq_version rq) @ CRLF
     @ ''connection:'' @ (if rq_close rq then ''close'' else ''keep-alive'') @ CRLF
     @ dump_fields (rq_headers rq) @ dump_body (rq_body rq)"

section \<open>Responses\<close>

record response =
  rs_status :: int
  rs_version :: "8 word"
  rs_close :: bool
  rs_body :: string
  rs_reason :: string
  rs_headers :: "string ci_map"

definition HttpResponse :: "8 word \<Rightarrow> bool \<Rightarrow> response" where
  "HttpResponse version close =
     \<lparr>rs_status = 200, rs_version = version, rs_close = close, rs_body = [], rs_reason = [], rs_headers = []\<rparr>"

definition rsp_setHeader :: "string \<Rightarrow> string \<Rightarrow> response \<Rightarrow> response" where
  "rsp_setHeader key val rs = rs\<lparr>rs_headers := ci_set key val (rs_headers rs)\<rparr>"

definition rsp_getHeader :: "string \<Rightarrow> string \<Rightarrow> response \<Rightarrow> string" where
  "rsp_getHeader key def rs = (case ci_find key (rs_headers rs) of None \<Rightarrow> def | Some v \<Rightarrow> v)"

definition rsp_delHeader :: "string \<Rightarrow> response \<Rightarrow> response" where
  "rsp_delHeader key rs = rs\<lparr>rs_headers := ci_erase key (rs_headers rs)\<rparr>"

definition dump_response :: "response \<Rightarrow> string" where
  "dump_response rs =
     version_text (rs_version rs) @ '' '' @ dec_digits (nat (rs_status rs mod 2 ^ 32)) @ '' ''
     @ (if rs_reason rs \<noteq> [] then rs_reason rs else HttpStatusToString (rs_status rs)) @ CRLF
     @ dump_fields (rs_headers rs)
     @ ''connection: '' @ (if rs_close rs then ''close'' else ''keep-alive'') @ CRLF
     @ dump_body (rs_body rs)"

section \<open>The fields of requests and responses\<close>

interpretation rq_head: keyed_map fold_key "\<lambda>rq. ci_sorted (rq_headers rq)" "\<lambda>rq k. ci_find k (rq_headers rq)" setHeader delHeader
  by unfold_locales (simp_all add: setHeader_def delHeader_def ci.put_inv ci.del_inv ci.look_put ci.look_del)

interpretation rq_par: keyed_map fold_key "\<lambda>rq. ci_sorted (rq_params rq)" "\<lambda>rq k. ci_find k (rq_params rq)" setParam delParam
  by unfold_locales (simp_all add: setParam_def delParam_def ci.put_inv ci.del_inv ci.look_put ci.look_del)

interpretation rq_cook: keyed_map fold_key "\<lambda>rq. ci_sorted (rq_cookies rq)" "\<lambda>rq k. ci_find k (rq_cookies rq)" setCookie delCookie
  by unfold_locales (simp_all add: setCookie_def delCookie_def ci.put_inv ci.del_inv ci.look_put ci.look_del)

interpretation rs_head: keyed_map fold_key "\<lambda>rs. ci_sorted (rs_headers rs)" "\<lambda>rs k. ci_find k (rs_headers rs)" rsp_setHeader rsp_delHeader
  by unfold_locales (simp_all add: rsp_setHeader_def rsp_delHeader_def ci.put_inv ci.del_inv ci.look_put ci.look_del)

end
