(* ===== verification/Servlet.thy ===== *)
theory Servlet
  imports Http
begin

text \<open>
  \<open>http/servlet.cpp\<close>: the services of a server and the table that picks one for a path.
  A service is a callback or one of the two fixed pages; a callback gets the request and
  the response and gives its return value and the new response. A dispatcher that is a service of
  another one is a callback. The pointers to services may be null. \<open>fnmatch\<close> is a parameter.
\<close>

type_synonym callback = "request \<Rightarrow> response \<Rightarrow> int \<times> response"

datatype servlet =
    FunctionServlet callback string
  | NotFoundServlet string string
  | HelloServlet string string

record servlet_dispatch =
  m_datas :: "string \<rightharpoonup> servlet option"
  m_globs :: "(string \<times> servlet option) list"
  m_default :: "servlet option"

section \<open>The services\<close>

definition not_found_content :: "string \<Rightarrow> string" where
  "not_found_content serverName =
     ''<html><head><title>404 Not Found</title></head><body><center><h1>404 Not Found</hl></center><hr><center>''
     @ serverName @ ''</center></hr></body></html>''"

definition hello_content :: "string \<Rightarrow> string" where
  "hello_content serverName =
     ''<html><head><title>404 Hello, Welcome my server! </title></head><body><center><h1>Hello, Welcome my server!</hl></center><hr><center>''
     @ serverName @ ''</center></hr></body></html>''"

definition page :: "string \<Rightarrow> string \<Rightarrow> response \<Rightarrow> int \<times> response" where
  "page serverName content rsp =
     (0, (rsp_setHeader ''Content-type'' ''text/html''
            (rsp_setHeader ''Server'' serverName (rsp\<lparr>rs_status := 404\<rparr>)))\<lparr>rs_body := content\<rparr>)"

fun handle_servlet :: "servlet \<Rightarrow> callback" where
  "handle_servlet (FunctionServlet cb name) rq rsp = cb rq rsp"
| "handle_servlet (NotFoundServlet serverName name) rq rsp = page serverName (not_found_content serverName) rsp"
| "handle_servlet (HelloServlet serverName name) rq rsp = page serverName (hello_content serverName) rsp"

section \<open>The dispatcher\<close>

definition ServletDispatch :: servlet_dispatch where
  "ServletDispatch = \<lparr>m_datas = Map.empty, m_globs = [],
     m_default = Some (NotFoundServlet ''kit_server/1.0.0'' ''NotFoundServlet'')\<rparr>"

definition addServlet :: "string \<Rightarrow> servlet option \<Rightarrow> servlet_dispatch \<Rightarrow> servlet_dispatch" where
  "addServlet uri slt d = d\<lparr>m_datas := (m_datas d)(uri \<mapsto> slt)\<rparr>"

definition addServlet_cb :: "string \<Rightarrow> callback \<Rightarrow> servlet_dispatch \<Rightarrow> servlet_dispatch" where
  "addServlet_cb uri cb d = d\<lparr>m_datas := (m_datas d)(uri \<mapsto> Some (FunctionServlet cb ''FunctionServlet''))\<rparr>"

fun erase_glob :: "string \<Rightarrow> (string \<times> 'v) list \<Rightarrow> (string \<times> 'v) list" where
  "erase_glob uri [] = []"
| "erase_glob uri ((p, s) # gs) = (if p = uri then gs else (p, s) # erase_glob uri gs)"

definition addGlobServlet :: "string \<Rightarrow> servlet option \<Rightarrow> servlet_dispatch \<Rightarrow> servlet_dispatch" where
  "addGlobServlet uri slt d = d\<lparr>m_globs := erase_glob uri (m_globs d) @ [(uri, slt)]\<rparr>"

definition addGlobServlet_cb :: "string \<Rightarrow> callback \<Rightarrow> servlet_dispatch \<Rightarrow> servlet_dispatch" where
  "addGlobServlet_cb uri cb d = addGlobServlet uri (Some (FunctionServlet cb ''FunctionServlet'')) d"

definition delServlet :: "string \<Rightarrow> servlet_dispatch \<Rightarrow> servlet_dispatch" where
  "delServlet uri d = d\<lparr>m_datas := (m_datas d)(uri := None)\<rparr>"

definition delGlobServlet :: "string \<Rightarrow> servlet_dispatch \<Rightarrow> servlet_dispatch" where
  "delGlobServlet uri d = d\<lparr>m_globs := erase_glob uri (m_globs d)\<rparr>"

fun first_glob :: "(string \<Rightarrow> bool) \<Rightarrow> (string \<times> 'v) list \<Rightarrow> 'v option" where
  "first_glob P [] = None"
| "first_glob P ((p, s) # gs) = (if P p then Some s else first_glob P gs)"

definition getServlet :: "string \<Rightarrow> servlet_dispatch \<Rightarrow> servlet option" where
  "getServlet uri d = (case m_datas d uri of None \<Rightarrow> None | Some s \<Rightarrow> s)"

definition getGlobServlet :: "string \<Rightarrow> servlet_dispatch \<Rightarrow> servlet option" where
  "getGlobServlet uri d = (case first_glob (\<lambda>p. p = uri) (m_globs d) of None \<Rightarrow> None | Some s \<Rightarrow> s)"

definition getMatchedServlet :: "(string \<Rightarrow> string \<Rightarrow> bool) \<Rightarrow> string \<Rightarrow> servlet_dispatch \<Rightarrow> servlet option" where
  "getMatchedServlet fnmatch uri d =
     (case m_datas d uri of
        Some s \<Rightarrow> s
      | None \<Rightarrow>
          (case first_glob (\<lambda>p. fnmatch (c_str p) (c_str uri)) (m_globs d) of
             Some s \<Rightarrow> s
           | None \<Rightarrow> m_default d))"

definition dispatch_handle :: "(string \<Rightarrow> string \<Rightarrow> bool) \<Rightarrow> servlet_dispatch \<Rightarrow> callback" where
  "dispatch_handle fnmatch d rq rsp =
     (case getMatchedServlet fnmatch (rq_path rq) d of
        None \<Rightarrow> (0, rsp)
      | Some slt \<Rightarrow> (0, snd (handle_servlet slt rq rsp)))"

section \<open>The two tables\<close>

definition wf_dispatch :: "servlet_dispatch \<Rightarrow> bool" where
  "wf_dispatch d \<longleftrightarrow> distinct (map fst (m_globs d))"

lemma erase_glob_filter: "distinct (map fst gs) \<Longrightarrow> erase_glob uri gs = filter (\<lambda>(p, _). p \<noteq> uri) gs"
proof (induction gs)
  case (Cons g gs)
  obtain p s where g: "g = (p, s)" by (cases g)
  have "filter (\<lambda>(q, _). q \<noteq> p) gs = gs"
    using Cons.prems by (intro filter_True) (force simp: g)
  then show ?case using Cons by (auto simp: g)
qed simp

lemma first_glob_append:
  "first_glob P (gs @ hs) = (case first_glob P gs of None \<Rightarrow> first_glob P hs | Some s \<Rightarrow> Some s)"
  by (induction gs) auto

lemma first_glob_filter:
  "first_glob P gs = (case filter (\<lambda>(p, _). P p) gs of [] \<Rightarrow> None | (_, s) # _ \<Rightarrow> Some s)"
  by (induction gs) auto

lemma first_glob_filter_same: "first_glob (\<lambda>p. p = uri) (filter (\<lambda>(p, _). p \<noteq> uri) gs) = None"
  by (induction gs) auto

lemma first_glob_filter_other:
  "u \<noteq> uri \<Longrightarrow> first_glob (\<lambda>p. p = u) (filter (\<lambda>(p, _). p \<noteq> uri) gs) = first_glob (\<lambda>p. p = u) gs"
  by (induction gs) auto

lemma distinct_filter_globs: "distinct (map fst gs) \<Longrightarrow> distinct (map fst (filter P gs))"
  by (induction gs) auto

interpretation exact: keyed_map "\<lambda>k. k" "\<lambda>d. True" "\<lambda>d uri. m_datas d uri" addServlet delServlet
  by unfold_locales (auto simp: addServlet_def delServlet_def)

interpretation glob: keyed_map "\<lambda>k. k" wf_dispatch "\<lambda>d uri. first_glob (\<lambda>p. p = uri) (m_globs d)"
  addGlobServlet delGlobServlet
  by unfold_locales
    (auto simp: wf_dispatch_def addGlobServlet_def delGlobServlet_def erase_glob_filter distinct_filter_globs
      first_glob_append first_glob_filter_same first_glob_filter_other split: option.split)

lemma ServletDispatch_wf: "wf_dispatch ServletDispatch"
  by (simp add: wf_dispatch_def ServletDispatch_def)

lemma addServlet_wf [simp]:
  "wf_dispatch (addServlet uri s d) = wf_dispatch d" "wf_dispatch (delServlet uri d) = wf_dispatch d"
  "wf_dispatch (addServlet_cb uri cb d) = wf_dispatch d"
  by (simp_all add: wf_dispatch_def addServlet_def delServlet_def addServlet_cb_def)

section \<open>Which service answers\<close>

text \<open>
  C26: A path is answered by the service registered for exactly this path; else by the glob that was
  registered first among those that match; else by the default service. Registering a glob again
  moves it behind all others.
\<close>

theorem matching_order:
  assumes "wf_dispatch d"
  shows "getMatchedServlet fnmatch uri (addServlet path s d)
           = (if uri = path then s else getMatchedServlet fnmatch uri d)
       \<and> getMatchedServlet fnmatch uri (addGlobServlet pat s d)
           = (case m_datas d uri of
                Some s' \<Rightarrow> s'
              | None \<Rightarrow>
                  (case filter (\<lambda>(p, _). p \<noteq> pat \<and> fnmatch (c_str p) (c_str uri)) (m_globs d) of
                     (_, s') # _ \<Rightarrow> s'
                   | [] \<Rightarrow> if fnmatch (c_str pat) (c_str uri) then s else m_default d))"
proof
  show "getMatchedServlet fnmatch uri (addServlet path s d)
      = (if uri = path then s else getMatchedServlet fnmatch uri d)"
    by (simp add: getMatchedServlet_def addServlet_def split: option.split)
  let ?P = "\<lambda>p. fnmatch (c_str p) (c_str uri)"
  have "filter (\<lambda>(p, _). ?P p) (erase_glob pat (m_globs d)) = filter (\<lambda>(p, _). p \<noteq> pat \<and> ?P p) (m_globs d)"
    using assms by (simp add: wf_dispatch_def erase_glob_filter split_def)
  then have "first_glob ?P (m_globs (addGlobServlet pat s d)) =
      (case filter (\<lambda>(p, _). p \<noteq> pat \<and> ?P p) (m_globs d) of
         [] \<Rightarrow> if ?P pat then Some s else None | (_, s') # _ \<Rightarrow> Some s')"
    by (simp add: addGlobServlet_def first_glob_append first_glob_filter split: list.split)
  moreover have "m_datas (addGlobServlet pat s d) = m_datas d" "m_default (addGlobServlet pat s d) = m_default d"
    by (simp_all add: addGlobServlet_def)
  ultimately show "getMatchedServlet fnmatch uri (addGlobServlet pat s d)
      = (case m_datas d uri of
           Some s' \<Rightarrow> s'
         | None \<Rightarrow>
             (case filter (\<lambda>(p, _). p \<noteq> pat \<and> ?P p) (m_globs d) of
                (_, s') # _ \<Rightarrow> s'
              | [] \<Rightarrow> if ?P pat then s else m_default d))"
    by (simp add: getMatchedServlet_def split: option.split list.split)
qed

definition starts_with :: "string \<Rightarrow> string \<Rightarrow> bool" where
  "starts_with pat s \<longleftrightarrow> take (length pat - 1) s = butlast pat"

theorem matching_order_witness:
  "getMatchedServlet starts_with ''/a/x''
     (addGlobServlet ''/a/*'' (Some (HelloServlet ''s'' ''n'')) (addGlobServlet ''/*'' None ServletDispatch)) = None
   \<and> getMatchedServlet starts_with ''/b'' (addServlet ''/b'' None ServletDispatch) = None"
proof -
  have wf: "wf_dispatch (addGlobServlet ''/*'' None ServletDispatch)"
    by (rule glob.put_inv [OF ServletDispatch_wf])
  show ?thesis
    using matching_order [OF wf, of starts_with "''/a/x''" "''/b''" "Some (HelloServlet ''s'' ''n'')" "''/a/*''"]
      matching_order [OF ServletDispatch_wf, of starts_with "''/b''" "''/b''" None "''/*''"]
    by (simp add: addGlobServlet_def ServletDispatch_def starts_with_def)
qed

end
