(* ===== verification/Http_Parser.thy ===== *)
theory Http_Parser
  imports Http
begin

text \<open>
  \<open>http/http_parser.cpp\<close> and the hand-written frame of the two generated machines
  (\<open>http11_parser\<close> and \<open>httpclient_parser\<close>): the registers, their reset for every buffer,
  the assertions behind a run, and the callbacks that fill the request or the response.
  A machine takes the registers and the buffer, and gives the new registers, the number of
  characters it went over and the callbacks it made, in order; the operations take it as an
  argument, and \<open>Http_Machine\<close> and \<open>Client_Machine\<close> have the generated ones. A pointer into the
  buffer is the text that starts there.
  \<open>atoi\<close> and \<open>lexical_cast\<close> are parameters as well.
\<close>

section \<open>Callbacks\<close>

datatype event =
    Ev_request_method string nat
  | Ev_request_uri string nat
  | Ev_fragment string nat
  | Ev_request_path string nat
  | Ev_query_string string nat
  | Ev_http_version string nat
  | Ev_header_done string nat
  | Ev_http_field string nat string nat
  | Ev_reason_phrase string nat
  | Ev_status_code string nat
  | Ev_chunk_size string nat
  | Ev_last_chunk string nat

text \<open>The two error codes the callbacks set.\<close>

definition INVALID_METHOD_CODE :: int where "INVALID_METHOD_CODE = 1000"
definition INVALID_VERSION_CODE :: int where "INVALID_VERSION_CODE = 1001"

text \<open>\<open>strncmp(at, s, length) == 0\<close>: at most \<open>length\<close> characters are compared.\<close>

definition strncmp_eq :: "string \<Rightarrow> string \<Rightarrow> nat \<Rightarrow> bool" where
  "strncmp_eq at s n \<longleftrightarrow> take n (c_str at) = take n (c_str s)"

definition version_of :: "string \<Rightarrow> nat \<Rightarrow> 8 word option" where
  "version_of at n =
     (if strncmp_eq at ''HTTP/1.1'' n then Some 0x11
      else if strncmp_eq at ''HTTP/1.0'' n then Some 0x10 else None)"

section \<open>The registers of the request machine\<close>

record http_parser =
  p_cs :: int
  p_body_start :: nat
  p_content_len :: int
  p_nread :: nat
  p_mark :: nat
  p_field_start :: nat
  p_field_len :: nat
  p_query_start :: nat
  p_xml_sent :: bool
  p_json_sent :: bool
  p_uri_relaxed :: bool

type_synonym machine = "http_parser \<Rightarrow> string \<Rightarrow> http_parser \<times> nat \<times> event list"

definition http_parser_start :: int where "http_parser_start = 1"
definition http_parser_first_final :: int where "http_parser_first_final = 348"
definition http_parser_error :: int where "http_parser_error = 0"

definition http_parser_init :: "http_parser \<Rightarrow> http_parser" where
  "http_parser_init p = p\<lparr>p_cs := http_parser_start, p_body_start := 0, p_content_len := 0, p_mark := 0,
     p_nread := 0, p_field_len := 0, p_field_start := 0, p_xml_sent := False, p_json_sent := False\<rparr>"

definition http_parser_has_error :: "http_parser \<Rightarrow> bool" where
  "http_parser_has_error p \<longleftrightarrow> p_cs p = http_parser_error"

definition http_parser_is_finished :: "http_parser \<Rightarrow> bool" where
  "http_parser_is_finished p \<longleftrightarrow> http_parser_first_final \<le> p_cs p"

definition http_parser_finish :: "http_parser \<Rightarrow> int" where
  "http_parser_finish p =
     (if http_parser_has_error p then -1 else if http_parser_is_finished p then 1 else 0)"

text \<open>
  One buffer, from its beginning (\<open>off = 0\<close>). The state of the machine is only written back
  when the last one was not the error state.
\<close>

definition http_parser_execute ::
  "machine \<Rightarrow> string \<Rightarrow> http_parser \<Rightarrow> (nat \<times> event list \<times> http_parser) res" where
  "http_parser_execute run buffer p =
     (if buffer = [] then Inr (0, [], p)
      else
        let p0 = p\<lparr>p_nread := 0, p_mark := 0, p_field_len := 0, p_field_start := 0\<rparr>;
            (p1, n, evs) = run p0 buffer;
            p2 = p1\<lparr>p_cs := (if http_parser_has_error p0 then p_cs p0 else p_cs p1), p_nread := n\<rparr>;
            len = length buffer in
        if n \<le> len \<and> p_body_start p2 \<le> len \<and> p_mark p2 < len \<and> p_field_len p2 \<le> len \<and> p_field_start p2 < len
        then Inr (n, evs, p2) else Inl Assert_failed)"

section \<open>The parser of requests\<close>

record request_parser =
  rp_parser :: http_parser
  rp_request :: request
  rp_error :: int

definition HttpRequestParser :: "http_parser \<Rightarrow> request_parser" where
  "HttpRequestParser p =
     \<lparr>rp_parser = http_parser_init p, rp_request = HttpRequest 0x11 True, rp_error = 0\<rparr>"

definition on_request_method :: "string \<Rightarrow> request_parser \<Rightarrow> request_parser" where
  "on_request_method at rp =
     (let method = CharsToHttpMethod at in
      if method = INVALID_METHOD then rp\<lparr>rp_error := INVALID_METHOD_CODE\<rparr>
      else rp\<lparr>rp_request := (rp_request rp)\<lparr>rq_method := method\<rparr>\<rparr>)"

definition on_request_fragment :: "string \<Rightarrow> nat \<Rightarrow> request_parser \<Rightarrow> request_parser" where
  "on_request_fragment at n rp = rp\<lparr>rp_request := (rp_request rp)\<lparr>rq_fragment := take n at\<rparr>\<rparr>"

definition on_request_path :: "string \<Rightarrow> nat \<Rightarrow> request_parser \<Rightarrow> request_parser" where
  "on_request_path at n rp = rp\<lparr>rp_request := (rp_request rp)\<lparr>rq_path := take n at\<rparr>\<rparr>"

definition on_request_query_string :: "string \<Rightarrow> nat \<Rightarrow> request_parser \<Rightarrow> request_parser" where
  "on_request_query_string at n rp = rp\<lparr>rp_request := (rp_request rp)\<lparr>rq_query := take n at\<rparr>\<rparr>"

definition on_request_http_version :: "string \<Rightarrow> nat \<Rightarrow> request_parser \<Rightarrow> request_parser" where
  "on_request_http_version at n rp =
     (case version_of at n of
        None \<Rightarrow> rp\<lparr>rp_error := INVALID_VERSION_CODE\<rparr>
      | Some v \<Rightarrow> rp\<lparr>rp_request := (rp_request rp)\<lparr>rq_version := v\<rparr>\<rparr>)"

definition on_request_http_field :: "string \<Rightarrow> nat \<Rightarrow> string \<Rightarrow> nat \<Rightarrow> request_parser \<Rightarrow> request_parser" where
  "on_request_http_field field flen val vlen rp =
     (if flen = 0 then rp
      else rp\<lparr>rp_request := setHeader (take flen field) (take vlen val) (rp_request rp)\<rparr>)"

fun request_event :: "event \<Rightarrow> request_parser \<Rightarrow> request_parser" where
  "request_event (Ev_request_method at n) rp = on_request_method at rp"
| "request_event (Ev_fragment at n) rp = on_request_fragment at n rp"
| "request_event (Ev_request_path at n) rp = on_request_path at n rp"
| "request_event (Ev_query_string at n) rp = on_request_query_string at n rp"
| "request_event (Ev_http_version at n) rp = on_request_http_version at n rp"
| "request_event (Ev_http_field field flen val vlen) rp = on_request_http_field field flen val vlen rp"
| "request_event _ rp = rp"

text \<open>The characters that were not gone over move to the front of the buffer.\<close>

definition request_execute ::
  "machine \<Rightarrow> string \<Rightarrow> request_parser \<Rightarrow> (nat \<times> string \<times> request_parser) res" where
  "request_execute run data rp =
     bindE (http_parser_execute run data (rp_parser rp)) (\<lambda>(n, evs, p).
       Inr (n, drop n data, (fold request_event evs rp)\<lparr>rp_parser := p\<rparr>))"

definition request_isFinished :: "request_parser \<Rightarrow> int" where
  "request_isFinished rp = http_parser_finish (rp_parser rp)"

definition request_hasError :: "request_parser \<Rightarrow> bool" where
  "request_hasError rp \<longleftrightarrow> rp_error rp \<noteq> 0 \<or> http_parser_has_error (rp_parser rp)"

definition request_getContentLength :: "(string \<Rightarrow> 64 word option) \<Rightarrow> request_parser \<Rightarrow> 64 word" where
  "request_getContentLength cast rp = GetHeaderAs cast ''content-length'' 0 (rp_request rp)"

section \<open>The registers of the response machine\<close>

record httpclient_parser =
  c_cs :: int
  c_body_start :: nat
  c_content_len :: int
  c_chunked :: bool
  c_chunks_done :: bool
  c_close :: bool
  c_nread :: nat
  c_mark :: nat
  c_field_start :: nat
  c_field_len :: nat

type_synonym client_machine = "httpclient_parser \<Rightarrow> string \<Rightarrow> httpclient_parser \<times> nat \<times> event list"

definition httpclient_parser_start :: int where "httpclient_parser_start = 1"
definition httpclient_parser_first_final :: int where "httpclient_parser_first_final = 120"
definition httpclient_parser_error :: int where "httpclient_parser_error = 0"

definition httpclient_parser_init :: "httpclient_parser \<Rightarrow> httpclient_parser" where
  "httpclient_parser_init p = p\<lparr>c_cs := httpclient_parser_start, c_body_start := 0, c_content_len := -1,
     c_chunked := False, c_chunks_done := False, c_mark := 0, c_nread := 0, c_field_len := 0,
     c_field_start := 0, c_close := False\<rparr>"

definition httpclient_parser_has_error :: "httpclient_parser \<Rightarrow> bool" where
  "httpclient_parser_has_error p \<longleftrightarrow> c_cs p = httpclient_parser_error"

definition httpclient_parser_is_finished :: "httpclient_parser \<Rightarrow> bool" where
  "httpclient_parser_is_finished p \<longleftrightarrow> c_cs p = httpclient_parser_first_final"

definition httpclient_parser_finish :: "httpclient_parser \<Rightarrow> int" where
  "httpclient_parser_finish p =
     (if httpclient_parser_has_error p then -1 else if httpclient_parser_is_finished p then 1 else 0)"

text \<open>The checks behind the assertions return -1 instead of the number of characters.\<close>

definition httpclient_parser_execute ::
  "client_machine \<Rightarrow> string \<Rightarrow> httpclient_parser \<Rightarrow> (int \<times> event list \<times> httpclient_parser) res" where
  "httpclient_parser_execute run buffer p =
     (let p0 = p\<lparr>c_nread := 0, c_mark := 0, c_field_len := 0, c_field_start := 0\<rparr>;
          (p1, n, evs) = run p0 buffer;
          p2 = p1\<lparr>c_nread := n\<rparr>;
          len = length buffer in
      if \<not> (n \<le> len \<and> c_body_start p2 \<le> len) then Inl Assert_failed
      else if c_mark p2 < len \<and> c_field_len p2 \<le> len \<and> c_field_start p2 < len
      then Inr (int n, evs, p2) else Inr (-1, evs, p2))"

section \<open>The parser of responses\<close>

record response_parser =
  sp_parser :: httpclient_parser
  sp_response :: response
  sp_error :: int

definition HttpResponseParser :: "httpclient_parser \<Rightarrow> response_parser" where
  "HttpResponseParser p =
     \<lparr>sp_parser = httpclient_parser_init p, sp_response = HttpResponse 0x11 True, sp_error = 0\<rparr>"

definition on_response_reason_phrase :: "string \<Rightarrow> nat \<Rightarrow> response_parser \<Rightarrow> response_parser" where
  "on_response_reason_phrase at n sp = sp\<lparr>sp_response := (sp_response sp)\<lparr>rs_reason := take n at\<rparr>\<rparr>"

definition on_response_status_code :: "(string \<Rightarrow> int) \<Rightarrow> string \<Rightarrow> response_parser \<Rightarrow> response_parser" where
  "on_response_status_code atoi at sp = sp\<lparr>sp_response := (sp_response sp)\<lparr>rs_status := atoi at\<rparr>\<rparr>"

definition on_response_http_version :: "string \<Rightarrow> nat \<Rightarrow> response_parser \<Rightarrow> response_parser" where
  "on_response_http_version at n sp =
     (case version_of at n of
        None \<Rightarrow> sp\<lparr>sp_error := INVALID_VERSION_CODE\<rparr>
      | Some v \<Rightarrow> sp\<lparr>sp_response := (sp_response sp)\<lparr>rs_version := v\<rparr>\<rparr>)"

definition on_response_http_field :: "string \<Rightarrow> nat \<Rightarrow> string \<Rightarrow> nat \<Rightarrow> response_parser \<Rightarrow> response_parser" where
  "on_response_http_field field flen val vlen sp =
     (if flen = 0 then sp
      else sp\<lparr>sp_response := rsp_setHeader (take flen field) (take vlen val) (sp_response sp)\<rparr>)"

fun response_event :: "(string \<Rightarrow> int) \<Rightarrow> event \<Rightarrow> response_parser \<Rightarrow> response_parser" where
  "response_event atoi (Ev_reason_phrase at n) sp = on_response_reason_phrase at n sp"
| "response_event atoi (Ev_status_code at n) sp = on_response_status_code atoi at sp"
| "response_event atoi (Ev_http_version at n) sp = on_response_http_version at n sp"
| "response_event atoi (Ev_http_field field flen val vlen) sp = on_response_http_field field flen val vlen sp"
| "response_event _ _ sp = sp"

text \<open>
  With \<open>chunck\<close> the registers are set up anew. A result of -1 as \<open>size_t\<close> would move the
  memory before the buffer.
\<close>

definition response_execute ::
  "client_machine \<Rightarrow> (string \<Rightarrow> int) \<Rightarrow> string \<Rightarrow> bool \<Rightarrow> response_parser
     \<Rightarrow> (nat \<times> string \<times> response_parser) res" where
  "response_execute run atoi data chunck sp =
     bindE (httpclient_parser_execute run data
              (if chunck then httpclient_parser_init (sp_parser sp) else sp_parser sp)) (\<lambda>(ret, evs, p).
       if ret < 0 then Inl Out_of_bounds
       else Inr (nat ret, drop (nat ret) data, (fold (response_event atoi) evs sp)\<lparr>sp_parser := p\<rparr>))"

definition response_isFinished :: "response_parser \<Rightarrow> int" where
  "response_isFinished sp = httpclient_parser_finish (sp_parser sp)"

definition response_hasError :: "response_parser \<Rightarrow> bool" where
  "response_hasError sp \<longleftrightarrow> sp_error sp \<noteq> 0 \<or> httpclient_parser_has_error (sp_parser sp)"

definition response_getContentLength :: "(string \<Rightarrow> 64 word option) \<Rightarrow> response_parser \<Rightarrow> 64 word" where
  "response_getContentLength cast sp = getAs cast (rs_headers (sp_response sp)) ''content-length'' 0"

section \<open>What the callbacks keep\<close>

lemma request_event_ordered:
  "ci_sorted (rq_headers (rp_request rp)) \<Longrightarrow> ci_sorted (rq_headers (rp_request (request_event e rp)))"
  by (cases e)
    (auto simp: on_request_method_def on_request_fragment_def on_request_path_def on_request_query_string_def
      on_request_http_version_def on_request_http_field_def Let_def rq_head.put_inv split: option.split)

lemma request_events_ordered:
  "ci_sorted (rq_headers (rp_request rp)) \<Longrightarrow> ci_sorted (rq_headers (rp_request (fold request_event evs rp)))"
  by (induction evs arbitrary: rp) (simp_all add: request_event_ordered)

lemma request_event_error: "rp_error rp \<noteq> 0 \<Longrightarrow> rp_error (request_event e rp) \<noteq> 0"
  by (cases e)
    (auto simp: on_request_method_def on_request_fragment_def on_request_path_def on_request_query_string_def
      on_request_http_version_def on_request_http_field_def Let_def INVALID_METHOD_CODE_def
      INVALID_VERSION_CODE_def split: option.split)

lemma request_events_error: "rp_error rp \<noteq> 0 \<Longrightarrow> rp_error (fold request_event evs rp) \<noteq> 0"
  by (induction evs arbitrary: rp) (simp_all add: request_event_error)

lemma request_execute_length:
  "request_execute run data rp = Inr (n, rest, rp') \<Longrightarrow> n \<le> length data \<and> rest = drop n data"
  by (auto simp: request_execute_def http_parser_execute_def bindE_Inr_iff Let_def split: if_splits prod.splits)

lemma response_execute_length:
  "response_execute run atoi data chunck sp = Inr (n, rest, sp') \<Longrightarrow> n \<le> length data \<and> rest = drop n data"
  by (auto simp: response_execute_def httpclient_parser_execute_def bindE_Inr_iff Let_def split: if_splits prod.splits)

end
