(* ===== verification/Http_Session.thy ===== *)
theory Http_Session
  imports Http_Parser Stream_Io
begin

text \<open>
  \<open>http/http_session.cpp\<close>: receiving a request and sending a response. What the reads of the
  socket return is a script; a session runs until it has a request, has closed the connection,
  or waits for a read the script does not answer. A read returns at most what it is asked for.
  Buffers are shorter than 2^31 bytes and memory for the body can be had.
\<close>

datatype 'r received =
    Received 'r "char io_ret list"
  | Closed
  | Waiting

section \<open>The head of a message\<close>

text \<open>
  One round reads behind the \<open>offset\<close> characters that are left, gives everything to the parser
  and keeps what the parser did not go over.
\<close>

fun recv_head ::
  "machine \<Rightarrow> nat \<Rightarrow> string \<Rightarrow> request_parser \<Rightarrow> char io_ret list
     \<Rightarrow> (request_parser \<times> string) received res" where
  "recv_head run buff_size data rp [] = Inr Waiting"
| "recv_head run buff_size data rp (r # rs) =
     (case r of
        Got bs \<Rightarrow>
          let bs' = take (buff_size - length data) bs in
          if bs' = [] then Inr Closed
          else bindE (request_execute run (data @ bs') rp) (\<lambda>(n, rest, rp').
            if request_hasError rp' then Inr Closed
            else if length rest = buff_size then Inr Closed
            else if request_isFinished rp' \<noteq> 0 then Inr (Received (rp', rest) rs)
            else recv_head run buff_size rest rp' rs)
      | _ \<Rightarrow> Inr Closed)"

section \<open>The body\<close>

text \<open>The chunks of a transfer of a fixed size go to the memory of the body from \<open>base\<close> on.\<close>

fun put_chunks :: "nat \<Rightarrow> (64 word \<times> string) list \<Rightarrow> string \<Rightarrow> string res" where
  "put_chunks base [] body = Inr body"
| "put_chunks base ((off, bs) # cs) body =
     (let p = unat (word_of_nat base + off) in
      if p + length bs \<le> length body then put_chunks base cs (splice_at p bs body)
      else Inl Out_of_bounds)"

text \<open>The part of the script that the transfer leaves.\<close>

fun fix_rest :: "64 word \<Rightarrow> 'a io_ret list \<Rightarrow> 'a io_ret list" where
  "fix_rest left rets =
     (if left = 0 then rets
      else case rets of
        [] \<Rightarrow> []
      | r # rs \<Rightarrow> let ret = ret_size r in if ret \<le> 0 then rs else fix_rest (left - ret) rs)"

declare fix_rest.simps [simp del]

text \<open>
  \<open>data\<close> is what came with the head. The length of the transfer is \<open>real_len\<close>, the number of
  bytes that are there already; a transfer that is not longer than nothing counts as a failure.
\<close>

definition recv_body :: "int \<Rightarrow> string \<Rightarrow> char io_ret list \<Rightarrow> string received res" where
  "recv_body len data rets =
     (let n = nat len; offset = length data;
          body = take n data @ replicate (n - offset) (CHR 0x00);
          real_len = (if len \<ge> int offset then offset else n) in
      if len - int offset > 0
      then case readFixSize (word_of_nat real_len) rets of
             Complete chunks \<Rightarrow>
               if real_len = 0 then Inr Closed
               else bindE (put_chunks real_len chunks body) (\<lambda>body'.
                 Inr (Received body' (fix_rest (word_of_nat real_len) rets)))
           | Ended _ \<Rightarrow> Inr Closed
           | Waits _ _ \<Rightarrow> Inr Waiting
      else Inr (Received body rets))"

definition recvRequest ::
  "machine \<Rightarrow> (string \<Rightarrow> 64 word option) \<Rightarrow> nat \<Rightarrow> http_parser \<Rightarrow> char io_ret list \<Rightarrow> request received res" where
  "recvRequest run cast buff_size junk rets =
     bindE (recv_head run buff_size [] (HttpRequestParser junk) rets) (\<lambda>h.
       case h of
         Received (rp, data) rs \<Rightarrow>
           let len = sint (request_getContentLength cast rp); rq = rp_request rp in
           if len > 0
           then bindE (recv_body len data rs) (\<lambda>b.
             case b of
               Received body rs' \<Rightarrow> Inr (Received (init_request (rq\<lparr>rq_body := body\<rparr>)) rs')
             | Closed \<Rightarrow> Inr Closed
             | Waiting \<Rightarrow> Inr Waiting)
           else Inr (Received (init_request rq) rs)
       | Closed \<Rightarrow> Inr Closed
       | Waiting \<Rightarrow> Inr Waiting)"

text \<open>The text that goes out, and what the transfer does with it.\<close>

definition sendResponse :: "response \<Rightarrow> char io_ret list \<Rightarrow> string \<times> char fix_outcome" where
  "sendResponse rs sends =
     (dump_response rs, writeFixSize (word_of_nat (length (dump_response rs))) sends)"

section \<open>Receiving uses up the script\<close>

lemma recv_head_shorter:
  "recv_head run buff data rp rets = Inr (Received h rs) \<Longrightarrow> length rs < length rets"
proof (induction rets arbitrary: data rp)
  case (Cons r rets)
  then show ?case
    by (fastforce simp: Let_def bindE_Inr_iff split: io_ret.splits if_splits)
qed simp

lemma fix_rest_le: "length (fix_rest left rets) \<le> length rets"
proof (induction left rets rule: fix_rest.induct)
  case (1 left rets)
  then show ?case by (subst fix_rest.simps) (fastforce simp: Let_def split: list.split)
qed

lemma recv_body_le: "recv_body len data rets = Inr (Received b rs) \<Longrightarrow> length rs \<le> length rets"
  using fix_rest_le by (auto simp: recv_body_def Let_def bindE_Inr_iff split: if_splits fix_outcome.splits)

lemma recvRequest_cases:
  assumes "recvRequest run cast buff junk rets = Inr (Received rq rs)"
  obtains rp data rs1 where
    "recv_head run buff [] (HttpRequestParser junk) rets = Inr (Received (rp, data) rs1)"
    "\<not> 0 < sint (request_getContentLength cast rp)" "rq = init_request (rp_request rp)" "rs = rs1"
  | rp data rs1 body where
    "recv_head run buff [] (HttpRequestParser junk) rets = Inr (Received (rp, data) rs1)"
    "0 < sint (request_getContentLength cast rp)"
    "recv_body (sint (request_getContentLength cast rp)) data rs1 = Inr (Received body rs)"
    "rq = init_request ((rp_request rp)\<lparr>rq_body := body\<rparr>)"
proof -
  obtain h where h: "recv_head run buff [] (HttpRequestParser junk) rets = Inr h"
    using assms by (auto simp: recvRequest_def bindE_Inr_iff)
  then obtain rp data rs1 where r: "h = Received (rp, data) rs1"
    using assms by (cases h) (auto simp: recvRequest_def)
  show ?thesis
  proof (cases "0 < sint (request_getContentLength cast rp)")
    case True
    then obtain b where b: "recv_body (sint (request_getContentLength cast rp)) data rs1 = Inr b"
      using assms h r by (auto simp: recvRequest_def bindE_Inr_iff)
    then show ?thesis using assms h r True that(2) by (cases b) (auto simp: recvRequest_def)
  next
    case False
    then show ?thesis using assms h r that(1) by (auto simp: recvRequest_def)
  qed
qed

lemma recvRequest_shorter:
  "recvRequest run cast buff junk rets = Inr (Received rq rs) \<Longrightarrow> length rs < length rets"
  by (erule recvRequest_cases; drule recv_head_shorter) (auto dest: recv_body_le)

section \<open>What the body is\<close>

lemma put_chunks_chunks:
  assumes "base + off + length (concat cs) < 2 ^ 64" and "base + off \<le> length body"
  shows "put_chunks base (chunk_offsets off cs) body =
    (if base + off + length (concat cs) \<le> length body
     then Inr (splice_at (base + off) (concat cs) body) else Inl Out_of_bounds)"
  using assms
proof (induction cs arbitrary: off body)
  case (Cons c cs)
  have "(word_of_nat base + word_of_nat off :: 64 word) = word_of_nat (base + off)" by simp
  then have p: "unat (word_of_nat base + word_of_nat off :: 64 word) = base + off"
    using Cons.prems(1) by (simp only: unat_of_nat) simp
  show ?case
  proof (cases "base + off + length c \<le> length body")
    case True
    let ?b = "splice_at (base + off) c body"
    have l: "length ?b = length body" using True by (simp add: length_splice_at)
    have "put_chunks base (chunk_offsets off (c # cs)) body = put_chunks base (chunk_offsets (off + length c) cs) ?b"
      using True by (simp add: p)
    also have "\<dots> = (if base + (off + length c) + length (concat cs) \<le> length ?b
        then Inr (splice_at (base + (off + length c)) (concat cs) ?b) else Inl Out_of_bounds)"
      using Cons.prems(1) True by (intro Cons.IH) (simp_all add: l)
    also have "splice_at (base + (off + length c)) (concat cs) ?b = splice_at (base + off) (concat (c # cs)) body"
      using True by (simp add: splice_at_splice_at add.assoc [symmetric])
    finally show ?thesis by (simp add: l add.assoc)
  next
    case False
    then show ?thesis by (simp add: p)
  qed
qed simp

lemma fix_rest_chunks:
  assumes "left < 2 ^ 64" and "\<forall>c \<in> set cs. c \<noteq> []" and "length (concat cs) = left"
  shows "fix_rest (word_of_nat left) (map Got cs @ rest) = rest"
  using assms
proof (induction cs arbitrary: left)
  case Nil
  then show ?case by (simp add: fix_rest.simps)
next
  case (Cons c cs)
  let ?n = "length c"
  have n: "0 < ?n" "?n \<le> left" "left < 2 ^ 64" using Cons.prems by auto
  have u: "unat (word_of_nat left :: 64 word) = left" "unat (word_of_nat ?n :: 64 word) = ?n"
    using n by (simp_all add: unat_of_nat)
  have nz: "(word_of_nat left :: 64 word) \<noteq> 0" "\<not> (word_of_nat ?n :: 64 word) \<le> 0"
    using n u by (metis unat_0 not_gr_zero less_le_trans, metis unat_0 not_gr_zero word_le_0_iff)
  have l: "word_of_nat left - word_of_nat ?n = (word_of_nat (left - ?n) :: 64 word)"
    using n(2) by (simp add: of_nat_diff)
  have "fix_rest (word_of_nat (left - ?n)) (map Got cs @ rest) = rest"
    using Cons.prems n by (intro Cons.IH) auto
  then show ?case using nz by (subst fix_rest.simps) (simp add: Let_def l)
qed

lemma splice_in_padding:
  "length as \<le> n \<Longrightarrow> splice_at (length xs) as (xs @ replicate n z) = xs @ as @ replicate (n - length as) z"
  by (simp add: splice_at_def)

lemma recv_body_cases:
  assumes "0 < len" and "length data < 2 ^ 31"
    and "int (length data) < len \<longrightarrow> (\<forall>c \<in> set cs. c \<noteq> []) \<and> length (concat cs) = length data"
  shows "recv_body len data (map Got cs @ rest) =
    (if len \<le> int (length data) then Inr (Received (take (nat len) data) (map Got cs @ rest))
     else if data = [] then Inr Closed
     else if 2 * int (length data) \<le> len
     then Inr (Received (data @ concat cs @ replicate (nat len - 2 * length data) (CHR 0x00)) rest)
     else Inl Out_of_bounds)"
proof (cases "len \<le> int (length data)")
  case True
  then show ?thesis using assms(1) by (auto simp: recv_body_def Let_def)
next
  case False
  let ?k = "length data" and ?body = "data @ replicate (nat len - length data) (CHR 0x00)"
  have cs: "\<forall>c \<in> set cs. c \<noteq> []" "length (concat cs) = ?k" using False assms(3) by auto
  have "?k < 2 ^ 64" using assms(2) by simp
  then have run: "readFixSize (word_of_nat ?k) (map Got cs @ rest) = Complete (chunk_offsets 0 cs)"
    "fix_rest (word_of_nat ?k) (map Got cs @ rest) = rest"
    using fix_loop_chunks [of ?k 0 cs "[]" rest] fix_rest_chunks [of ?k cs rest] cs
    by (simp_all add: readFixSize_def)
  have "put_chunks ?k (chunk_offsets 0 cs) ?body =
      (if ?k + ?k \<le> length ?body then Inr (splice_at ?k (concat cs) ?body) else Inl Out_of_bounds)"
    using put_chunks_chunks [of ?k 0 cs ?body] assms(2) cs(2) by simp
  moreover have "length ?body = nat len" using False by simp
  moreover have "splice_at ?k (concat cs) ?body = data @ concat cs @ replicate (nat len - 2 * ?k) (CHR 0x00)"
    if "?k + ?k \<le> nat len"
    using that cs(2) splice_in_padding [of "concat cs" "nat len - ?k" data] by (simp add: mult_2)
  moreover have "take (nat len) data = data" using False by simp
  ultimately show ?thesis using False
    by (auto simp: recv_body_def Let_def run nat_le_iff le_nat_iff)
qed

section \<open>Only requests that are there\<close>

lemma init_request_fields [simp]:
  "rq_body (init_request rq) = rq_body rq" "rq_headers (init_request rq) = rq_headers rq"
  "rq_path (init_request rq) = rq_path rq" "rq_version (init_request rq) = rq_version rq"
  "rq_method (init_request rq) = rq_method rq"
  by (simp_all add: init_request_def Let_def)

lemma recv_head_ordered:
  "recv_head run buff data rp rets = Inr (Received (rp', d) rs) \<Longrightarrow> ci_sorted (rq_headers (rp_request rp)) \<Longrightarrow>
   ci_sorted (rq_headers (rp_request rp')) \<and> \<not> request_hasError rp' \<and> request_isFinished rp' = 1 \<and> length d < max 1 buff"
proof (induction rets arbitrary: data rp)
  case (Cons r rets)
  obtain bs n rest rp1 where
    got: "r = Got bs" "request_execute run (data @ take (buff - length data) bs) rp = Inr (n, rest, rp1)"
      "\<not> request_hasError rp1" "length rest \<noteq> buff" "buff - length data \<noteq> 0"
    and fin: "if request_isFinished rp1 \<noteq> 0 then rp' = rp1 \<and> d = rest
        else recv_head run buff rest rp1 rets = Inr (Received (rp', d) rs)"
    using Cons.prems(1) by (auto simp: Let_def bindE_Inr_iff split: io_ret.splits if_splits)
  have o: "ci_sorted (rq_headers (rp_request rp1))"
    using got(2) Cons.prems(2) by (auto simp: request_execute_def bindE_Inr_iff request_events_ordered)
  have "length rest \<le> buff"
    using request_execute_length [OF got(2)] got(5) by simp
  then show ?case using Cons.IH [of rest rp1] o got(3-5) fin
    by (auto simp: request_isFinished_def http_parser_finish_def request_hasError_def split: if_splits)
qed simp

section \<open>A machine to run examples on\<close>

text \<open>It takes every buffer for one request, whose path is the buffer.\<close>

definition path_machine :: machine where
  "path_machine p buffer = (p\<lparr>p_cs := http_parser_first_final\<rparr>, length buffer, [Ev_request_path buffer (length buffer)])"

definition zero_registers :: http_parser where
  "zero_registers = \<lparr>p_cs = 0, p_body_start = 0, p_content_len = 0, p_nread = 0, p_mark = 0, p_field_start = 0,
     p_field_len = 0, p_query_start = 0, p_xml_sent = False, p_json_sent = False, p_uri_relaxed = False\<rparr>"

lemmas run_path_machine = recvRequest_def request_execute_def http_parser_execute_def path_machine_def
  zero_registers_def HttpRequestParser_def http_parser_init_def request_hasError_def http_parser_has_error_def
  request_isFinished_def http_parser_finish_def http_parser_is_finished_def http_parser_start_def
  http_parser_first_final_def http_parser_error_def on_request_path_def request_getContentLength_def
  GetHeaderAs_def getAs_def HttpRequest_def init_request_def getHeadr_def

end
