(* ===== verification/Http_Messages.thy ===== *)
theory Http_Messages
  imports Http "HOL-Library.Sublist"
begin

text \<open>
  What the messages of \<open>http.cpp\<close> promise: the names of the methods are read back, the
  fields answer by name whatever the case, and a receiver that splits a printed message
  into its lines finds exactly the fields and the body that were put in. \<open>read_head\<close> is
  that receiver: it takes lines until an empty one; the rest is the body.
\<close>

section \<open>Methods\<close>

lemma c_str_append: "CHR 0x00 \<notin> set s \<Longrightarrow> c_str (s @ t) = s @ c_str t"
  by (induction s) (auto simp: c_str_def)

lemma method_strings_no_nul: "\<forall>(m, s) \<in> set method_strings. CHR 0x00 \<notin> set s \<and> CHR 0x0D \<notin> set s"
  by (simp add: method_strings_def)

lemma method_text:
  "CHR 0x00 \<notin> set (HttpMethodToString m)" "CHR 0x0D \<notin> set (HttpMethodToString m)"
  using method_strings_no_nul
  by (auto simp: HttpMethodToString_def dest!: map_of_SomeD split: option.split)

lemma first_method_in:
  "\<exists>s. (m, s) \<in> set ms \<and> P s \<Longrightarrow> \<exists>s. (first_method P ms, s) \<in> set ms \<and> P s"
  by (induction ms) (auto, blast+)

lemma first_method_unique:
  assumes "(m, s) \<in> set ms" and "P s" and "\<And>m' s'. (m', s') \<in> set ms \<Longrightarrow> P s' \<Longrightarrow> m' = m"
  shows "first_method P ms = m"
proof -
  obtain s' where "(first_method P ms, s') \<in> set ms" "P s'"
    using first_method_in [of m ms P] assms(1,2) by blast
  then show ?thesis by (rule assms(3))
qed

text \<open>No name begins another.\<close>

fun prefix_free :: "string list \<Rightarrow> bool" where
  "prefix_free [] = True"
| "prefix_free (s # ss) = ((\<forall>t \<in> set ss. \<not> prefix s t \<and> \<not> prefix t s) \<and> prefix_free ss)"

lemma prefix_freeD: "prefix_free ss \<Longrightarrow> s \<in> set ss \<Longrightarrow> t \<in> set ss \<Longrightarrow> prefix s t \<Longrightarrow> s = t"
  by (induction ss) auto

lemma prefix_free_distinct: "prefix_free ss \<Longrightarrow> distinct ss"
  by (induction ss) auto

lemma names_prefix_free: "prefix_free (map snd method_strings)"
  by (simp add: method_strings_def)

lemmas names_distinct = prefix_free_distinct [OF names_prefix_free]

lemma method_in_table: "m \<noteq> INVALID_METHOD \<Longrightarrow> (m, HttpMethodToString m) \<in> set method_strings"
proof -
  assume "m \<noteq> INVALID_METHOD"
  then have "m \<in> set (map fst method_strings)" by (cases m) (simp_all add: method_strings_def)
  then obtain s where "map_of method_strings m = Some s" by (metis map_of_eq_None_iff not_None_eq set_map)
  then show ?thesis by (auto simp: HttpMethodToString_def dest: map_of_SomeD)
qed

lemma same_name:
  assumes "(m, s) \<in> set method_strings" and "(m', s) \<in> set method_strings"
  shows "m' = m"
  using assms eq_key_imp_eq_value [of "map prod.swap method_strings" s m m'] names_distinct by (simp add: comp_def)

text \<open>
  The name of every method is read back as the method; the reader that the parser uses
  compares a prefix only, so it accepts the name with anything behind it.
\<close>

theorem method_names_read_back:
  assumes "m \<noteq> INVALID_METHOD"
  shows "StringToHttpMethod (HttpMethodToString m) = m \<and> CharsToHttpMethod (HttpMethodToString m @ rest) = m"
proof
  let ?n = "HttpMethodToString m"
  note tab = method_in_table [OF assms]
  show "StringToHttpMethod ?n = m"
    unfolding StringToHttpMethod_def c_str_id [OF method_text(1)]
    by (rule first_method_unique [OF tab]) (auto dest: same_name [OF tab])
  show "CharsToHttpMethod (?n @ rest) = m"
    unfolding CharsToHttpMethod_def c_str_append [OF method_text(1)]
  proof (rule first_method_unique [OF tab])
    fix m' s
    assume s: "(m', s) \<in> set method_strings" "take (length s) (?n @ c_str rest) = s"
    have "prefix s (?n @ c_str rest)" using s(2) by (metis take_is_prefix)
    then have "prefix s ?n \<or> prefix ?n s" using prefix_same_cases [of s "?n @ c_str rest" ?n] by simp
    moreover have "s \<in> set (map snd method_strings)" "?n \<in> set (map snd method_strings)"
      using s(1) tab by force+
    ultimately have "s = ?n" using prefix_freeD [OF names_prefix_free] by metis
    then show "m' = m" using same_name [OF tab] s(1) by simp
  qed simp
qed

theorem method_names_read_back_witness:
  "StringToHttpMethod (HttpMethodToString MSEARCH) = MSEARCH
   \<and> CharsToHttpMethod (HttpMethodToString GET @ ''TER / HTTP/1.1'') = GET"
  using method_names_read_back [of MSEARCH] method_names_read_back [of GET "''TER / HTTP/1.1''"] by simp

section \<open>Fields\<close>

text \<open>
  C16: A request or response answers for its fields like a finite map from names without case to
  values: a field set is found under every spelling of its name, deleting removes it under every
  spelling, the other fields stay, and the fields stay in order.
\<close>

theorem header_fields:
  assumes "ci_sorted (rq_headers rq)"
  shows "getHeadr k' def (setHeader k v rq) = (if fold_key k = fold_key k' then v else getHeadr k' def rq)
       \<and> getHeadr k' def (delHeader k rq) = (if fold_key k = fold_key k' then def else getHeadr k' def rq)
       \<and> hasHeader k' (setHeader k v rq) = (if fold_key k = fold_key k' then (True, Some v) else hasHeader k' rq)
       \<and> ci_sorted (rq_headers (setHeader k v rq)) \<and> ci_sorted (rq_headers (delHeader k rq))
       \<and> ci_abs (rq_headers (setHeader k v rq)) = (ci_abs (rq_headers rq))(fold_key k \<mapsto> v)"
  using rq_head.look_put [OF assms] rq_head.look_del [OF assms] rq_head.put_inv [OF assms] rq_head.del_inv [OF assms]
  by (simp add: getHeadr_def hasHeader_def setHeader_def ci_set_abs)

theorem header_fields_witness:
  "getHeadr ''CONTENT-type'' [] (setHeader ''Content-Type'' ''text'' (HttpRequest 0x11 True)) = ''text''
   \<and> getHeadr ''host'' ''none'' (delHeader ''HOST'' (HttpRequest 0x11 True)) = ''none''"
  using header_fields [of "HttpRequest 0x11 True" "''CONTENT-type''" "[]" "''Content-Type''" "''text''"]
    header_fields [of "HttpRequest 0x11 True" "''host''" "''none''" "''HOST''" "[]"]
  by (simp add: HttpRequest_def fold_key_def c_str_def char_code_def to_lower_def)

text \<open>
  The typed readers of cookies look into the parameters: they answer as if every cookie were
  unset unless a parameter has the name, and setting a cookie never changes their answer.
\<close>

theorem cookie_readers_miss_cookies:
  "checkGetCookieAs lexical_cast k def (setCookie k' v rq) = checkGetParamAs lexical_cast k def rq
   \<and> GetCookieAs lexical_cast k def (setCookie k' v rq) = GetParamAs lexical_cast k def rq"
  by (simp add: checkGetCookieAs_def GetCookieAs_def checkGetParamAs_def GetParamAs_def setCookie_def)

section \<open>Framing\<close>

fun cut_line :: "string \<Rightarrow> (string \<times> string) option" where
  "cut_line [] = None"
| "cut_line [c] = None"
| "cut_line (c # d # s) =
     (if c = CHR 0x0D \<and> d = CHR 0x0A then Some ([], s)
      else map_option (\<lambda>(l, r). (c # l, r)) (cut_line (d # s)))"

lemma cut_line_length: "cut_line s = Some (l, r) \<Longrightarrow> length r < length s"
proof (induction s arbitrary: l r rule: cut_line.induct)
  case (3 c d s)
  then show ?case by (fastforce split: if_splits)
qed simp_all

function read_head :: "string \<Rightarrow> (string list \<times> string) option" where
  "read_head s =
     (case cut_line s of
        None \<Rightarrow> None
      | Some (l, r) \<Rightarrow> if l = [] then Some ([], r) else map_option (\<lambda>(ls, b). (l # ls, b)) (read_head r))"
  by pat_completeness auto
termination
  by (relation "measure length") (auto dest: cut_line_length)

declare read_head.simps [simp del]

lemma cut_line_first: "CHR 0x0D \<notin> set l \<Longrightarrow> cut_line (l @ CRLF @ s) = Some (l, s)"
proof (induction l rule: cut_line.induct)
  case (3 c d l)
  then have "\<not> (c = CHR 0x0D \<and> d = CHR 0x0A)" by auto
  then show ?case using 3 by simp
qed (auto simp: CRLF_def)

definition good_line :: "string \<Rightarrow> bool" where
  "good_line l \<longleftrightarrow> l \<noteq> [] \<and> CHR 0x0D \<notin> set l"

definition with_ends :: "string list \<Rightarrow> string" where
  "with_ends ls = concat (map (\<lambda>l. l @ CRLF) ls)"

lemma with_ends_simps [simp]:
  "with_ends [] = []" "with_ends (l # ls) = l @ CRLF @ with_ends ls"
  "with_ends (ls @ ms) = with_ends ls @ with_ends ms"
  by (simp_all add: with_ends_def)

lemma read_head_lines:
  "\<forall>l \<in> set ls. good_line l \<Longrightarrow> read_head (with_ends ls @ CRLF @ body) = Some (ls, body)"
proof (induction ls)
  case Nil
  show ?case using cut_line_first [of "[]" body] by (subst read_head.simps) simp
next
  case (Cons l ls)
  then have "cut_line (l @ CRLF @ with_ends ls @ CRLF @ body) = Some (l, with_ends ls @ CRLF @ body)" "l \<noteq> []"
    by (simp_all add: cut_line_first good_line_def)
  then show ?case using Cons by (subst read_head.simps) simp
qed

definition field_lines :: "string ci_map \<Rightarrow> string list" where
  "field_lines m = map (\<lambda>(k, v). k @ '':'' @ v) (filter (\<lambda>(k, _). strcasecmp k ''connection'' \<noteq> 0) m)"

definition body_lines :: "string \<Rightarrow> string list" where
  "body_lines body = (if body = [] then [] else [''content-length: '' @ dec_digits (length body)])"

lemma dump_fields_lines: "dump_fields m = with_ends (field_lines m)"
  by (induction m) (auto simp: dump_fields_def field_lines_def)

lemma dump_body_lines: "dump_body body = with_ends (body_lines body) @ CRLF @ body"
  by (simp add: dump_body_def body_lines_def)

definition safe_fields :: "string ci_map \<Rightarrow> bool" where
  "safe_fields m \<longleftrightarrow> (\<forall>(k, v) \<in> set m. CHR 0x0D \<notin> set k \<and> CHR 0x0D \<notin> set v)"

lemma field_lines_good: "safe_fields m \<Longrightarrow> \<forall>l \<in> set (field_lines m). good_line l"
  by (auto simp: safe_fields_def field_lines_def good_line_def)

lemma dec_digits_no_cr: "CHR 0x0D \<notin> set (dec_digits n)"
  using dec_digits_range [of "CHR 0x0D" n] by auto

lemma body_lines_good: "\<forall>l \<in> set (body_lines body). good_line l"
  using dec_digits_no_cr by (simp add: body_lines_def good_line_def)

lemma version_text_no_cr: "CHR 0x0D \<notin> set (version_text v)"
  using dec_digits_no_cr by (simp add: version_text_def)

definition request_line :: "request \<Rightarrow> string" where
  "request_line rq =
     HttpMethodToString (rq_method rq) @ '' '' @ rq_path rq
     @ (if rq_query rq \<noteq> [] then ''?'' else []) @ rq_query rq
     @ (if rq_fragment rq \<noteq> [] then ''#'' else []) @ rq_fragment rq
     @ '' '' @ version_text (rq_version rq)"

text \<open>
  When no field, path, query or fragment holds a carriage return, splitting a printed request
  into lines gives back the request line, the connection line, one line for each other field, the
  length of the body when there is one, and then exactly the body.
\<close>

theorem request_framing:
  assumes "safe_fields (rq_headers rq)" and "CHR 0x0D \<notin> set (rq_path rq @ rq_query rq @ rq_fragment rq)"
  shows "read_head (dump_request rq) =
    Some (request_line rq # (''connection:'' @ (if rq_close rq then ''close'' else ''keep-alive''))
          # field_lines (rq_headers rq) @ body_lines (rq_body rq), rq_body rq)"
proof -
  let ?con = "''connection:'' @ (if rq_close rq then ''close'' else ''keep-alive'')"
  let ?ls = "request_line rq # ?con # field_lines (rq_headers rq) @ body_lines (rq_body rq)"
  have "dump_request rq = with_ends ?ls @ CRLF @ rq_body rq"
    by (simp add: dump_request_def request_line_def dump_fields_lines dump_body_lines)
  moreover have "good_line (request_line rq)" "good_line ?con"
    using assms(2) method_text(2) version_text_no_cr by (simp_all add: good_line_def request_line_def)
  then have "\<forall>l \<in> set ?ls. good_line l"
    using field_lines_good [OF assms(1)] body_lines_good by auto
  ultimately show ?thesis using read_head_lines by presburger
qed

definition sample_request :: request where
  "sample_request = (setHeader ''Host'' ''a.b'' (HttpRequest 0x11 False))\<lparr>rq_path := ''/x'', rq_body := ''hi''\<rparr>"

theorem request_framing_witness:
  "read_head (dump_request sample_request) =
    Some (request_line sample_request # (''connection:'' @ (if rq_close sample_request then ''close'' else ''keep-alive''))
          # field_lines (rq_headers sample_request) @ body_lines (rq_body sample_request), rq_body sample_request)"
  by (rule request_framing) (simp_all add: sample_request_def setHeader_def HttpRequest_def safe_fields_def)

lemma status_text: "CHR 0x0D \<notin> set (HttpStatusToString status)"
proof -
  have "\<forall>(n, s) \<in> set status_strings. CHR 0x0D \<notin> set s" by (simp add: status_strings_def)
  then show ?thesis by (auto simp: HttpStatusToString_def dest!: map_of_SomeD split: option.split)
qed

definition status_line :: "response \<Rightarrow> string" where
  "status_line rs =
     version_text (rs_version rs) @ '' '' @ dec_digits (nat (rs_status rs mod 2 ^ 32)) @ '' ''
     @ (if rs_reason rs \<noteq> [] then rs_reason rs else HttpStatusToString (rs_status rs))"

text \<open>
  The same for a printed response, whose connection line comes behind the fields.
\<close>

theorem response_framing:
  assumes "safe_fields (rs_headers rs)" and "CHR 0x0D \<notin> set (rs_reason rs)"
  shows "read_head (dump_response rs) =
    Some (status_line rs # field_lines (rs_headers rs)
          @ (''connection: '' @ (if rs_close rs then ''close'' else ''keep-alive'')) # body_lines (rs_body rs), rs_body rs)"
proof -
  let ?con = "''connection: '' @ (if rs_close rs then ''close'' else ''keep-alive'')"
  let ?ls = "status_line rs # field_lines (rs_headers rs) @ ?con # body_lines (rs_body rs)"
  have "dump_response rs = with_ends ?ls @ CRLF @ rs_body rs"
    by (simp add: dump_response_def status_line_def dump_fields_lines dump_body_lines)
  moreover have "good_line (status_line rs)" "good_line ?con"
    using assms(2) status_text dec_digits_no_cr version_text_no_cr by (simp_all add: good_line_def status_line_def)
  then have "\<forall>l \<in> set ?ls. good_line l"
    using field_lines_good [OF assms(1)] body_lines_good by auto
  ultimately show ?thesis using read_head_lines by presburger
qed

theorem response_framing_witness:
  "read_head (dump_response ((HttpResponse 0x11 True)\<lparr>rs_body := ''ok''\<rparr>)) =
    Some (status_line ((HttpResponse 0x11 True)\<lparr>rs_body := ''ok''\<rparr>) # field_lines []
          @ (''connection: '' @ (if True then ''close'' else ''keep-alive'')) # body_lines ''ok'', ''ok'')"
  using response_framing [of "(HttpResponse 0x11 True)\<lparr>rs_body := ''ok''\<rparr>"]
  by (simp add: HttpResponse_def safe_fields_def)

end
