(* ===== verification/Http_Server.thy ===== *)
theory Http_Server
  imports Servlet Http_Session Http_Messages
begin

text \<open>
  \<open>http/http_server.cpp\<close>: the loop that serves one client. \<open>answer\<close> is one round: the response
  is made, filled by the dispatcher and sent; whether sending succeeds is not looked at. The loop is
  run against a script of what the socket returns; it gives the requests with their responses, in
  order, and how it ended: the session was closed, it waits, or the program failed.
\<close>

record http_server =
  hs_name :: string
  hs_isKeepalive :: bool
  hs_dispatch :: servlet_dispatch

definition HttpServer :: "bool \<Rightarrow> http_server" where
  "HttpServer keepalive = \<lparr>hs_name = ''kit/1.0.0'', hs_isKeepalive = keepalive, hs_dispatch = ServletDispatch\<rparr>"

definition setName :: "string \<Rightarrow> http_server \<Rightarrow> http_server" where
  "setName v srv = srv\<lparr>hs_name := v,
     hs_dispatch := (hs_dispatch srv)\<lparr>m_default := Some (NotFoundServlet v ''NotFoundServlet'')\<rparr>\<rparr>"

definition last_request :: "http_server \<Rightarrow> request \<Rightarrow> bool" where
  "last_request srv rq \<longleftrightarrow> \<not> hs_isKeepalive srv \<or> rq_close rq"

definition answer :: "(string \<Rightarrow> string \<Rightarrow> bool) \<Rightarrow> http_server \<Rightarrow> request \<Rightarrow> response" where
  "answer fnmatch srv rq =
     snd (dispatch_handle fnmatch (hs_dispatch srv) rq
       (rsp_setHeader ''Server'' (hs_name srv) (HttpResponse (rq_version rq) (rq_close rq \<or> \<not> hs_isKeepalive srv))))"

datatype client_end = Session_closed | Session_waits | Session_fails exn

function handleClient ::
  "machine \<Rightarrow> (string \<Rightarrow> 64 word option) \<Rightarrow> nat \<Rightarrow> http_parser \<Rightarrow> (string \<Rightarrow> string \<Rightarrow> bool)
     \<Rightarrow> http_server \<Rightarrow> char io_ret list \<Rightarrow> (request \<times> response) list \<times> client_end" where
  "handleClient run cast buff junk fnmatch srv rets =
     (case recvRequest run cast buff junk rets of
        Inl e \<Rightarrow> ([], Session_fails e)
      | Inr Closed \<Rightarrow> ([], Session_closed)
      | Inr Waiting \<Rightarrow> ([], Session_waits)
      | Inr (Received rq rs) \<Rightarrow>
          if last_request srv rq then ([(rq, answer fnmatch srv rq)], Session_closed)
          else let (served, e) = handleClient run cast buff junk fnmatch srv rs in
               ((rq, answer fnmatch srv rq) # served, e))"
  by pat_completeness auto
termination
  by (relation "measure (\<lambda>(_, _, _, _, _, _, rets). length rets)") (auto dest: recvRequest_shorter)

declare handleClient.simps [simp del]

section \<open>What a client gets\<close>

text \<open>The requests a script holds, one behind the other, whatever they ask for.\<close>

function requests_of ::
  "machine \<Rightarrow> (string \<Rightarrow> 64 word option) \<Rightarrow> nat \<Rightarrow> http_parser \<Rightarrow> char io_ret list \<Rightarrow> request list" where
  "requests_of run cast buff junk rets =
     (case recvRequest run cast buff junk rets of
        Inr (Received rq rs) \<Rightarrow> rq # requests_of run cast buff junk rs
      | _ \<Rightarrow> [])"
  by pat_completeness auto
termination
  by (relation "measure (\<lambda>(_, _, _, _, rets). length rets)") (auto dest: recvRequest_shorter)

declare requests_of.simps [simp del]

fun up_to :: "('a \<Rightarrow> bool) \<Rightarrow> 'a list \<Rightarrow> 'a list" where
  "up_to P [] = []"
| "up_to P (x # xs) = (if P x then [x] else x # up_to P xs)"

lemma up_to_prefix: "\<exists>ys. xs = up_to P xs @ ys"
  by (induction xs) auto

lemma up_to_butlast: "x \<in> set (butlast (up_to P xs)) \<Longrightarrow> \<not> P x"
  by (induction xs) (auto split: if_splits)



text \<open>The answer of a server that is given a name to a path that nothing is registered for.\<close>

definition not_found_answer :: "string \<Rightarrow> 8 word \<Rightarrow> bool \<Rightarrow> response" where
  "not_found_answer v version close =
     \<lparr>rs_status = 404, rs_version = version, rs_close = close, rs_body = not_found_content v, rs_reason = [],
      rs_headers = [(''Content-type'', ''text/html''), (''Server'', v)]\<rparr>"

lemma unknown_path_answer:
  assumes "getMatchedServlet fnmatch (rq_path rq) (hs_dispatch (setName v srv)) = m_default (hs_dispatch (setName v srv))"
  shows "answer fnmatch (setName v srv) rq = not_found_answer v (rq_version rq) (rq_close rq \<or> \<not> hs_isKeepalive srv)"
  using assms
  by (simp add: answer_def dispatch_handle_def setName_def page_def rsp_setHeader_def HttpResponse_def not_found_answer_def
      CaseInsensitiveLess_iff fold_key_def c_str_def char_code_def to_lower_def)

text \<open>
  On a server that is given a name, a path that nothing is registered for is answered by a message
  that a client splits into the status line of 404, the two fields with the name of the server, the
  connection line, the length of the page, and the page.
\<close>

theorem unknown_path_gets_404:
  assumes "getMatchedServlet fnmatch (rq_path rq) (hs_dispatch (setName v srv)) = m_default (hs_dispatch (setName v srv))"
    and "CHR 0x0D \<notin> set v"
  shows "read_head (dump_response (answer fnmatch (setName v srv) rq)) =
    Some ([version_text (rq_version rq) @ '' 404 Not Found'', ''Content-type:text/html'', ''Server:'' @ v,
       ''connection: '' @ (if rq_close rq \<or> \<not> hs_isKeepalive srv then ''close'' else ''keep-alive''),
       ''content-length: '' @ dec_digits (length (not_found_content v))],
     not_found_content v)"
proof -
  let ?rs = "answer fnmatch (setName v srv) rq"
  note rs = unknown_path_answer [OF assms(1), unfolded not_found_answer_def]
  have lines: "field_lines [(''Content-type'', ''text/html''), (''Server'', v)] = [''Content-type:text/html'', ''Server:'' @ v]"
    by (simp add: field_lines_def strcasecmp_def c_str_def char_code_def to_lower_def)
  have "not_found_content v \<noteq> []" by (simp add: not_found_content_def)
  moreover have "HttpStatusToString 404 = ''Not Found''" by (simp add: HttpStatusToString_def status_strings_def)
  moreover have "dec_digits 404 = ''404''" by code_simp
  ultimately show ?thesis
    using response_framing [of ?rs] assms(2) by (simp add: lines rs safe_fields_def status_line_def body_lines_def)
qed

theorem unknown_path_gets_404_witness:
  "read_head (dump_response (answer (=) (setName ''kit'' (HttpServer True)) (HttpRequest 0x11 True))) =
    Some ([version_text 0x11 @ '' 404 Not Found'', ''Content-type:text/html'', ''Server:'' @ ''kit'',
       ''connection: '' @ ''close'', ''content-length: '' @ dec_digits (length (not_found_content ''kit''))],
     not_found_content ''kit'')"
  using unknown_path_gets_404 [of "(=)" "HttpRequest 0x11 True" "''kit''" "HttpServer True"]
  by (simp add: HttpRequest_def HttpServer_def setName_def ServletDispatch_def getMatchedServlet_def)

end
