(* ===== verification/Uri.thy ===== *)
theory Uri
  imports Address
begin

text \<open>
  The hand-written part of \<open>uri.rl\<close>: a URI with its fields, the default ports, its text and the
  address it stands for; \<open>m_port\<close> is an \<open>int16_t\<close>. \<open>Uri_Machine\<close> has the parser.
\<close>

record uri =
  u_scheme :: string
  u_userinfo :: string
  u_host :: string
  u_port :: "16 word"
  u_path :: string
  u_query :: string
  u_fragment :: string

definition empty_uri :: uri where
  "empty_uri = \<lparr>u_scheme = [], u_userinfo = [], u_host = [], u_port = 0, u_path = [], u_query = [], u_fragment = []\<rparr>"

definition uri_getPort :: "uri \<Rightarrow> 16 word" where
  "uri_getPort u =
     (if u_port u \<noteq> 0 then u_port u
      else if u_scheme u = ''http'' then 80
      else if u_scheme u = ''https'' then 443 else 0)"

definition isDefaultPort :: "uri \<Rightarrow> bool" where
  "isDefaultPort u =
     (if u_port u = 0 then True
      else if u_scheme u = ''http'' then u_port u = 80
      else if u_scheme u = ''https'' then u_port u = 443 else False)"

text \<open>
  \<open>"" + m_port\<close> is a pointer that many characters behind an empty literal, which holds
  one character; reading from any other place is out of bounds.
\<close>

definition literal_at :: "string \<Rightarrow> int \<Rightarrow> string res" where
  "literal_at lit i = (if 0 \<le> i \<and> i \<le> int (length lit) then Inr (drop (nat i) lit) else Inl Out_of_bounds)"

definition uri_dump :: "uri \<Rightarrow> string res" where
  "uri_dump u =
     bindE (if isDefaultPort u then Inr [] else bindE (literal_at [] (sint (u_port u))) (\<lambda>s. Inr ('':'' @ s))) (\<lambda>port.
       Inr (u_scheme u @ ''://'' @ u_userinfo u @ (if u_userinfo u \<noteq> [] then ''@'' else []) @ u_host u @ port
            @ (if u_path u \<noteq> [] then u_path u else ''/'')
            @ (if u_query u \<noteq> [] then ''?'' else []) @ u_query u
            @ (if u_fragment u \<noteq> [] then ''#'' else []) @ u_fragment u))"

fun setPort :: "16 word \<Rightarrow> address \<Rightarrow> address" where
  "setPort val (IPv4Address a) = IPv4Address (setPort4 val a)"
| "setPort val (IPv6Address a) = IPv6Address (setPort6 val a)"
| "setPort val a = a"

text \<open>The family is the default argument, \<open>AF_INET\<close>.\<close>

definition createAddress :: "resolver \<Rightarrow> uri \<Rightarrow> address option" where
  "createAddress getaddrinfo u =
     map_option (setPort (uri_getPort u)) (LookUpAnyIPAddress getaddrinfo (u_host u) 2 0 0)"

fun port_of :: "address \<Rightarrow> 16 word" where
  "port_of (IPv4Address a) = getPort4 a"
| "port_of (IPv6Address a) = getPort6 a"
| "port_of _ = 0"

lemma port_of_setPort: "is_ip a \<Longrightarrow> port_of (setPort val a) = val"
  by (cases a) (simp_all add: setPort4_def getPort4_def setPort6_def getPort6_def swap16)

lemma find_holds: "List.find P xs = Some x \<Longrightarrow> P x"
  by (induction xs) (auto split: if_splits)

text \<open>
  A URI is printed exactly when its port is the default one of its scheme; every other port makes
  the printing read outside the literal it starts from. The address that is made from a URI carries
  the port the URI stands for.
\<close>

theorem uri_ports:
  "(uri_dump u = Inl Out_of_bounds \<longleftrightarrow> u_port u \<noteq> 0 \<and> u_port u \<noteq> uri_getPort (u\<lparr>u_port := 0\<rparr>))
   \<and> (case createAddress getaddrinfo u of None \<Rightarrow> True | Some a \<Rightarrow> port_of a = uri_getPort u)"
proof
  have "sint (u_port u) = 0 \<longleftrightarrow> u_port u = 0" by (metis sint_0 signed_word_eqI)
  then show "uri_dump u = Inl Out_of_bounds \<longleftrightarrow> u_port u \<noteq> 0 \<and> u_port u \<noteq> uri_getPort (u\<lparr>u_port := 0\<rparr>)"
    by (auto simp: uri_dump_def isDefaultPort_def literal_at_def uri_getPort_def)
  show "case createAddress getaddrinfo u of None \<Rightarrow> True | Some a \<Rightarrow> port_of a = uri_getPort u"
    by (auto simp: createAddress_def LookUpAnyIPAddress_def port_of_setPort dest: find_holds split: option.split)
qed

end
