(* ===== verification/Http_Connection.thy ===== *)
theory Http_Connection
  imports Http_Session Uri
begin

text \<open>
  \<open>http/http_connection.cpp\<close>, the client side on one connection: the request that is put together
  from a URI and some fields, sending it, and receiving the response with a plain or a chunked
  body. The plain body is received by the same code as in a session, \<open>recv_body\<close>.
  The text of the reason in a result is left out. \<open>Socket::CreateTCP\<close> never gives a null
  pointer, so the branch for it has no counterpart. That a string is asked for more
  characters than it can hold is \<open>Logic_error\<close> (the code throws \<open>length_error\<close>, which is one).
\<close>

section \<open>Putting a request together\<close>

datatype HttpError =
    OK | INVALID_URL | INVALID_ADDR | INVALID_SOCK | CONNECT_FAIL | SEND_REQ_FAIL | RECV_RSP_TIMEOUT
  | POOL_GET_CONNECT_FAIL | POOL_INVALID_SOCK

record http_result =
  hr_result :: HttpError
  hr_response :: "response option"

text \<open>The loop over the given fields; the flag says whether a host is among them.\<close>

fun add_fields :: "(string \<times> string) list \<Rightarrow> bool \<Rightarrow> request \<Rightarrow> bool \<times> request" where
  "add_fields [] has_host rq = (has_host, rq)"
| "add_fields ((k, v) # kvs) has_host rq =
     (let rq1 = (if strcasecmp k ''connection'' = 0 \<and> strcasecmp v ''keep-alive'' = 0 then rq\<lparr>rq_close := False\<rparr> else rq);
          has_host1 = (if has_host \<and> strcasecmp k ''host'' = 0 then v \<noteq> [] else has_host) in
      add_fields kvs has_host1 (setHeader k v rq1))"

definition assemble :: "HttpMethod \<Rightarrow> uri \<Rightarrow> (string \<times> string) list \<Rightarrow> string \<Rightarrow> request" where
  "assemble method u headers body =
     (let rq = (HttpRequest 0x11 True)\<lparr>rq_method := method, rq_path := u_path u, rq_query := u_query u,
                 rq_fragment := u_fragment u\<rparr>;
          (has_host, rq1) = add_fields headers False rq;
          rq2 = (if \<not> has_host then setHeader ''host'' (u_host u) rq1 else rq1) in
      rq2\<lparr>rq_body := body\<rparr>)"

section \<open>Receiving a response\<close>

text \<open>The loop that reads until the parser is done, for the head and for the head of a chunk.\<close>

fun recv_response_head ::
  "client_machine \<Rightarrow> (string \<Rightarrow> int) \<Rightarrow> nat \<Rightarrow> bool \<Rightarrow> string \<Rightarrow> response_parser \<Rightarrow> char io_ret list
     \<Rightarrow> (response_parser \<times> string) received res" where
  "recv_response_head run atoi buff_size chunck data sp [] = Inr Waiting"
| "recv_response_head run atoi buff_size chunck data sp (r # rs) =
     (case r of
        Got bs \<Rightarrow>
          let bs' = take (buff_size - length data) bs in
          if bs' = [] then Inr Closed
          else bindE (response_execute run atoi (data @ bs') chunck sp) (\<lambda>(n, rest, sp').
            if response_hasError sp' then Inr Closed
            else if length rest = buff_size then Inr Closed
            else if response_isFinished sp' \<noteq> 0 then Inr (Received (sp', rest) rs)
            else recv_response_head run atoi buff_size chunck rest sp' rs)
      | _ \<Rightarrow> Inr Closed)"

text \<open>
  What is taken from the buffer for a chunk, what stays there and how much is still to come.
  Two is subtracted from the number of characters first, on an \<open>int\<close>.
\<close>

definition chunk_take :: "int \<Rightarrow> string \<Rightarrow> (string \<times> string \<times> nat) res" where
  "chunk_take content_len data =
     (let len = int (length data) - 2 in
      if content_len \<le> len then
        if content_len < 0 then Inl Logic_error
        else Inr (take (nat content_len) data, drop (nat content_len) (take (nat len) data), 0)
      else if len < 0 then Inl Logic_error
      else Inr (take (nat len) data, [], nat (content_len - len)))"

fun recv_left :: "nat \<Rightarrow> nat \<Rightarrow> string \<Rightarrow> char io_ret list \<Rightarrow> string received" where
  "recv_left buff_size left body [] = (if left = 0 then Received body [] else Waiting)"
| "recv_left buff_size left body (r # rs) =
     (if left = 0 then Received body (r # rs)
      else case r of
        Got bs \<Rightarrow>
          let bs' = take (min left buff_size) bs in
          if bs' = [] then Closed else recv_left buff_size (left - length bs') (body @ bs') rs
      | _ \<Rightarrow> Closed)"

lemma recv_response_head_shorter:
  "recv_response_head run atoi buff chunck data sp rets = Inr (Received h rs) \<Longrightarrow> length rs < length rets"
proof (induction rets arbitrary: data sp)
  case (Cons r rets)
  then show ?case
    by (fastforce simp: Let_def bindE_Inr_iff split: io_ret.splits if_splits)
qed simp

lemma recv_left_spec:
  "recv_left buff left body rets = Received body' rs \<Longrightarrow>
   length rs \<le> length rets \<and> length body' = length body + left \<and> take (length body) body' = body"
proof (induction rets arbitrary: left body)
  case (Cons r rets)
  show ?case
  proof (cases "left = 0")
    case False
    then obtain bs where bs: "r = Got bs" "recv_left buff (left - length (take (min left buff) bs))
        (body @ take (min left buff) bs) rets = Received body' rs"
      using Cons.prems by (auto simp: Let_def split: io_ret.splits if_splits)
    then have "take (length body + length (take (min left buff) bs)) body' = body @ take (min left buff) bs"
      using Cons.IH [OF bs(2)] by simp
    then have "take (length body) body' = body"
      by (metis append_eq_conv_conj min.absorb1 le_add1 take_take)
    then show ?thesis using Cons.IH [OF bs(2)] by auto
  qed (use Cons.prems in auto)
qed (auto split: if_splits)

function recv_chunks ::
  "client_machine \<Rightarrow> (string \<Rightarrow> int) \<Rightarrow> nat \<Rightarrow> string \<Rightarrow> response_parser \<Rightarrow> string \<Rightarrow> char io_ret list
     \<Rightarrow> (response_parser \<times> string) received res" where
  "recv_chunks run atoi buff_size data sp body rets =
     bindE (recv_response_head run atoi buff_size True data sp rets) (\<lambda>h.
       case h of
         Received (sp', rest) rs \<Rightarrow>
           bindE (chunk_take (c_content_len (sp_parser sp')) rest) (\<lambda>(now, data', left).
             case recv_left buff_size left (body @ now) rs of
               Received body' rs' \<Rightarrow>
                 if c_chunks_done (sp_parser sp') then Inr (Received (sp', body') rs')
                 else recv_chunks run atoi buff_size data' sp' body' rs'
             | Closed \<Rightarrow> Inr Closed
             | Waiting \<Rightarrow> Inr Waiting)
       | Closed \<Rightarrow> Inr Closed
       | Waiting \<Rightarrow> Inr Waiting)"
  by pat_completeness auto
termination
  by (relation "measure (\<lambda>(_, _, _, _, _, _, rets). length rets)")
    (auto dest!: recv_response_head_shorter recv_left_spec)

declare recv_chunks.simps [simp del]

definition recvResponse ::
  "client_machine \<Rightarrow> (string \<Rightarrow> int) \<Rightarrow> (string \<Rightarrow> 64 word option) \<Rightarrow> nat \<Rightarrow> httpclient_parser
     \<Rightarrow> char io_ret list \<Rightarrow> response received res" where
  "recvResponse run atoi cast buff_size junk rets =
     bindE (recv_response_head run atoi buff_size False [] (HttpResponseParser junk) rets) (\<lambda>h.
       case h of
         Received (sp, data) rs \<Rightarrow>
           let rsp = sp_response sp; len = sint (response_getContentLength cast sp) in
           if c_chunked (sp_parser sp)
           then bindE (recv_chunks run atoi buff_size data sp [] rs) (\<lambda>b.
             case b of
               Received (sp', body) rs' \<Rightarrow> Inr (Received ((sp_response sp')\<lparr>rs_body := body\<rparr>) rs')
             | Closed \<Rightarrow> Inr Closed
             | Waiting \<Rightarrow> Inr Waiting)
           else if len > 0
           then bindE (recv_body len data rs) (\<lambda>b.
             case b of
               Received body rs' \<Rightarrow> Inr (Received (rsp\<lparr>rs_body := body\<rparr>) rs')
             | Closed \<Rightarrow> Inr Closed
             | Waiting \<Rightarrow> Inr Waiting)
           else Inr (Received rsp rs)
       | Closed \<Rightarrow> Inr Closed
       | Waiting \<Rightarrow> Inr Waiting)"

section \<open>A whole request\<close>

text \<open>What the fixed-size transfer returns as an \<open>int\<close>, when it returns.\<close>

definition sendRequest :: "request \<Rightarrow> char io_ret list \<Rightarrow> int option" where
  "sendRequest rq sends =
     (let n = word_of_nat (length (dump_request rq)) in
      case writeFixSize n sends of
        Complete _ \<Rightarrow> Some (sint (ucast n :: 32 word))
      | Ended _ \<Rightarrow> Some 0
      | Waits _ _ \<Rightarrow> None)"

text \<open>
  The address is logged before it is looked at, when the logger takes debug messages.
  \<open>None\<close> is a call that still waits.
\<close>

definition DoRequest_on ::
  "bool \<Rightarrow> resolver \<Rightarrow> (address \<Rightarrow> bool) \<Rightarrow> char io_ret list \<Rightarrow> (char io_ret list \<Rightarrow> response received res)
     \<Rightarrow> char io_ret list \<Rightarrow> request \<Rightarrow> uri \<Rightarrow> http_result option res" where
  "DoRequest_on debug getaddrinfo connects sends recv rets rq u =
     (case createAddress getaddrinfo u of
        None \<Rightarrow> if debug then Inl Null_deref else Inr (Some \<lparr>hr_result = INVALID_ADDR, hr_response = None\<rparr>)
      | Some addr \<Rightarrow>
          if \<not> connects addr then Inr (Some \<lparr>hr_result = CONNECT_FAIL, hr_response = None\<rparr>)
          else case sendRequest rq sends of
            None \<Rightarrow> Inr None
          | Some ret \<Rightarrow>
              if ret < 0 then Inr (Some \<lparr>hr_result = SEND_REQ_FAIL, hr_response = None\<rparr>)
              else bindE (recv rets) (\<lambda>r.
                case r of
                  Received rsp _ \<Rightarrow> Inr (Some \<lparr>hr_result = OK, hr_response = Some rsp\<rparr>)
                | Closed \<Rightarrow> Inr (Some \<lparr>hr_result = RECV_RSP_TIMEOUT, hr_response = None\<rparr>)
                | Waiting \<Rightarrow> Inr None))"

definition DoRequest_uri where
  "DoRequest_uri debug getaddrinfo connects sends recv rets method u headers body =
     DoRequest_on debug getaddrinfo connects sends recv rets (assemble method u headers body) u"

definition DoGet_uri where
  "DoGet_uri debug getaddrinfo connects sends recv rets u headers body =
     DoRequest_uri debug getaddrinfo connects sends recv rets GET u headers body"

definition DoPost_uri where
  "DoPost_uri debug getaddrinfo connects sends recv rets u headers body =
     DoRequest_uri debug getaddrinfo connects sends recv rets POST u headers body"

end
