(* ===== verification/Http_Pool.thy ===== *)
theory Http_Pool
  imports Http_Connection
begin

text \<open>
  The pool of connections to one host (\<open>HttpConnectionPool\<close> of \<open>http_connection.cpp\<close>): taking a
  connection, giving it back, and requests over it. A connection is its data; whether it is still
  connected changes behind the back of the pool. \<open>m_total\<close> is an integer, every operation is one
  step, and \<open>now\<close> is what \<open>GetCurrentMs\<close> returns.
\<close>

record con =
  cn_connected :: bool
  cn_createTime :: "64 word"
  cn_requestCount :: "64 word"

record pool =
  pl_host :: string
  pl_vhost :: string
  pl_port :: "16 word"
  pl_maxSize :: "32 word"
  pl_maxAliveTime :: "32 word"
  pl_maxRequest :: "32 word"
  pl_connections :: "con list"
  pl_total :: int

definition HttpConnection :: con where
  "HttpConnection = \<lparr>cn_connected = True, cn_createTime = -1, cn_requestCount = 0\<rparr>"

definition HttpConnectionPool :: "string \<Rightarrow> string \<Rightarrow> 16 word \<Rightarrow> 32 word \<Rightarrow> 32 word \<Rightarrow> 32 word \<Rightarrow> pool" where
  "HttpConnectionPool host vhost port max_size maxAliveTime maxRequest =
     \<lparr>pl_host = host, pl_vhost = vhost, pl_port = port, pl_maxSize = max_size,
      pl_maxAliveTime = maxAliveTime, pl_maxRequest = maxRequest, pl_connections = [], pl_total = 0\<rparr>"

definition addRequestCount :: "con \<Rightarrow> con" where
  "addRequestCount c = c\<lparr>cn_requestCount := cn_requestCount c + 1\<rparr>"

definition too_old :: "64 word \<Rightarrow> pool \<Rightarrow> con \<Rightarrow> bool" where
  "too_old now p c \<longleftrightarrow> cn_createTime c + ucast (pl_maxAliveTime p) \<ge> now"

text \<open>The walk over the idle connections: the one that is taken, those to be deleted, the rest.\<close>

fun find_con :: "64 word \<Rightarrow> pool \<Rightarrow> con list \<Rightarrow> con list \<Rightarrow> con option \<times> con list \<times> con list" where
  "find_con now p [] invalid = (None, invalid, [])"
| "find_con now p (c # cs) invalid =
     (if \<not> cn_connected c then find_con now p cs (invalid @ [c])
      else if too_old now p c then find_con now p cs (invalid @ [c])
      else (Some c, invalid, cs))"

definition getConnection ::
  "64 word \<Rightarrow> resolver \<Rightarrow> (address \<Rightarrow> bool) \<Rightarrow> pool \<Rightarrow> con option \<times> pool" where
  "getConnection now getaddrinfo connects p =
     (let (found, invalid, rest) = find_con now p (pl_connections p) [];
          p1 = p\<lparr>pl_connections := rest, pl_total := pl_total p - int (length invalid)\<rparr> in
      case found of
        Some c \<Rightarrow> (Some c, p1)
      | None \<Rightarrow>
          (case LookUpAnyIPAddress getaddrinfo (pl_host p) 2 0 0 of
             None \<Rightarrow> (None, p1)
           | Some addr \<Rightarrow>
               if \<not> connects (setPort (pl_port p) addr) then (None, p1)
               else (Some HttpConnection, p1\<lparr>pl_total := pl_total p1 + 1\<rparr>)))"

definition ReleasePtr :: "64 word \<Rightarrow> con \<Rightarrow> pool \<Rightarrow> pool" where
  "ReleasePtr now c p =
     (let c1 = addRequestCount c in
      if \<not> cn_connected c1 \<or> too_old now p c1 \<or> cn_requestCount c1 > ucast (pl_maxRequest p)
         \<or> pl_total p > sint (pl_maxSize p)
      then p\<lparr>pl_total := pl_total p - 1\<rparr>
      else p\<lparr>pl_connections := pl_connections p @ [c1]\<rparr>)"

section \<open>Requests over the pool\<close>

definition uri_text :: "uri \<Rightarrow> string" where
  "uri_text u = u_path u @ (if u_query u \<noteq> [] then ''?'' else []) @ u_query u
     @ (if u_fragment u \<noteq> [] then ''#'' else []) @ u_fragment u"

definition pool_assemble :: "pool \<Rightarrow> HttpMethod \<Rightarrow> string \<Rightarrow> (string \<times> string) list \<Rightarrow> string \<Rightarrow> request" where
  "pool_assemble p method url headers body =
     (let rq = (HttpRequest 0x11 True)\<lparr>rq_method := method, rq_path := url, rq_close := False\<rparr>;
          (has_host, rq1) = add_fields headers False rq;
          rq2 = (if \<not> has_host then
                   if pl_vhost p = [] then setHeader ''host'' (pl_host p) rq1 else setHeader ''host'' (pl_vhost p) rq1
                 else rq1) in
      rq2\<lparr>rq_body := body\<rparr>)"

text \<open>
  The connection goes back when the request is over; a failed receiving has closed it.
  \<open>getSocket\<close> is not null for a connection that was made from a socket. A call that waits has
  not given its connection back.
\<close>

definition pool_doRequest ::
  "64 word \<Rightarrow> 64 word \<Rightarrow> resolver \<Rightarrow> (address \<Rightarrow> bool) \<Rightarrow> char io_ret list
     \<Rightarrow> (char io_ret list \<Rightarrow> response received res) \<Rightarrow> char io_ret list \<Rightarrow> request \<Rightarrow> pool
     \<Rightarrow> (http_result option \<times> pool) res" where
  "pool_doRequest now later getaddrinfo connects sends recv rets rq p =
     (case getConnection now getaddrinfo connects p of
        (None, p1) \<Rightarrow> Inr (Some \<lparr>hr_result = POOL_GET_CONNECT_FAIL, hr_response = None\<rparr>, p1)
      | (Some c, p1) \<Rightarrow>
          (case sendRequest rq sends of
             None \<Rightarrow> Inr (None, p1)
           | Some ret \<Rightarrow>
               if ret < 0 then Inr (Some \<lparr>hr_result = SEND_REQ_FAIL, hr_response = None\<rparr>, ReleasePtr later c p1)
               else bindE (recv rets) (\<lambda>r.
                 case r of
                   Received rsp _ \<Rightarrow> Inr (Some \<lparr>hr_result = OK, hr_response = Some rsp\<rparr>, ReleasePtr later c p1)
                 | Closed \<Rightarrow> Inr (Some \<lparr>hr_result = RECV_RSP_TIMEOUT, hr_response = None\<rparr>,
                                   ReleasePtr later (c\<lparr>cn_connected := False\<rparr>) p1)
                 | Waiting \<Rightarrow> Inr (None, p1))))"

definition pool_doRequest_url where
  "pool_doRequest_url now later getaddrinfo connects sends recv rets method url headers body p =
     pool_doRequest now later getaddrinfo connects sends recv rets (pool_assemble p method url headers body) p"

definition pool_doRequest_uri where
  "pool_doRequest_uri now later getaddrinfo connects sends recv rets method u headers body p =
     pool_doRequest_url now later getaddrinfo connects sends recv rets method (uri_text u) headers body p"

definition pool_doGet_url where
  "pool_doGet_url now later getaddrinfo connects sends recv rets url headers body p =
     pool_doRequest_url now later getaddrinfo connects sends recv rets GET url headers body p"

definition pool_doPost_url where
  "pool_doPost_url now later getaddrinfo connects sends recv rets url headers body p =
     pool_doRequest_url now later getaddrinfo connects sends recv rets POST url headers body p"

definition pool_doGet_uri where
  "pool_doGet_uri now later getaddrinfo connects sends recv rets u headers body p =
     pool_doGet_url now later getaddrinfo connects sends recv rets (uri_text u) headers body p"

definition pool_doPost_uri where
  "pool_doPost_uri now later getaddrinfo connects sends recv rets u headers body p =
     pool_doPost_url now later getaddrinfo connects sends recv rets (uri_text u) headers body p"

section \<open>The pool and the connections that are in use\<close>

inductive pool_step :: "pool \<times> con list \<Rightarrow> pool \<times> con list \<Rightarrow> bool" where
  take: "getConnection now getaddrinfo connects p = (Some c, p1) \<Longrightarrow> pool_step (p, used) (p1, c # used)"
| fail: "getConnection now getaddrinfo connects p = (None, p1) \<Longrightarrow> pool_step (p, used) (p1, used)"
| give: "c \<in> set used \<Longrightarrow> pool_step (p, used) (ReleasePtr now c p, remove1 c used)"
| drop_idle: "pl_connections p = cs @ c # ds \<Longrightarrow>
    pool_step (p, used) (p\<lparr>pl_connections := cs @ c\<lparr>cn_connected := False\<rparr> # ds\<rparr>, used)"
| drop_used: "used = cs @ c # ds \<Longrightarrow> pool_step (p, used) (p, cs @ c\<lparr>cn_connected := False\<rparr> # ds)"

inductive pool_run :: "pool \<Rightarrow> pool \<times> con list \<Rightarrow> bool" where
  start: "pool_run p (p, [])"
| step: "pool_run p s \<Longrightarrow> pool_step s s' \<Longrightarrow> pool_run p s'"

definition pool_ok :: "pool \<times> con list \<Rightarrow> bool" where
  "pool_ok = (\<lambda>(p, used).
     pl_total p = int (length (pl_connections p) + length used)
     \<and> (pl_connections p \<noteq> [] \<longrightarrow> pl_total p \<le> sint (pl_maxSize p))
     \<and> (\<forall>c \<in> set (pl_connections p) \<union> set used. cn_createTime c = -1)
     \<and> (\<forall>c \<in> set (pl_connections p). cn_requestCount c \<le> ucast (pl_maxRequest p)))"

lemma find_con_parts:
  "find_con now p cs invalid = (found, invalid', rest) \<Longrightarrow>
   (case found of
      None \<Rightarrow> rest = [] \<and> length invalid' = length invalid + length cs
    | Some c \<Rightarrow> c \<in> set cs \<and> set rest \<subseteq> set cs \<and> cn_connected c \<and> \<not> too_old now p c
        \<and> length invalid' + 1 + length rest = length invalid + length cs)"
proof (induction cs arbitrary: invalid)
  case (Cons c cs)
  show ?case
  proof (cases "\<not> cn_connected c \<or> too_old now p c")
    case True
    then have "find_con now p cs (invalid @ [c]) = (found, invalid', rest)"
      using Cons.prems by (auto split: if_splits)
    from Cons.IH [OF this] show ?thesis by (auto split: option.splits)
  qed (use Cons.prems in auto)
qed auto

lemma getConnection_ok:
  assumes "getConnection now getaddrinfo connects p = (got, p1)" and "pool_ok (p, used)"
  shows "pool_ok (p1, (case got of None \<Rightarrow> used | Some c \<Rightarrow> c # used))"
proof -
  obtain found invalid rest where f: "find_con now p (pl_connections p) [] = (found, invalid, rest)"
    by (metis prod_cases3)
  show ?thesis
  proof (cases found)
    case None
    then show ?thesis using assms f find_con_parts [OF f]
      by (auto simp: getConnection_def pool_ok_def HttpConnection_def Let_def split: option.splits if_splits)
  next
    case (Some c)
    then have "got = Some c"
      "p1 = p\<lparr>pl_connections := rest, pl_total := pl_total p - int (length invalid)\<rparr>"
      using assms(1) f by (auto simp: getConnection_def Let_def)
    moreover have "c \<in> set (pl_connections p)" "set rest \<subseteq> set (pl_connections p)"
      "length invalid + 1 + length rest = length (pl_connections p)"
      using find_con_parts [OF f] Some by auto
    ultimately show ?thesis using assms(2) by (force simp: pool_ok_def)
  qed
qed

lemma ReleasePtr_ok:
  assumes "c \<in> set used" and "pool_ok (p, used)"
  shows "pool_ok (ReleasePtr now c p, remove1 c used)"
proof -
  have n: "Suc (length (remove1 c used)) = length used"
    using assms(1) by (simp add: length_remove1) (metis Suc_pred length_pos_if_in_set)
  moreover have "set (remove1 c used) \<subseteq> set used" by (rule set_remove1_subset)
  ultimately show ?thesis using assms
    by (auto simp: ReleasePtr_def pool_ok_def addRequestCount_def Let_def not_less)
qed

lemma pool_step_ok: "pool_step s s' \<Longrightarrow> pool_ok s \<Longrightarrow> pool_ok s'"
proof (induction rule: pool_step.induct)
  case (take now getaddrinfo connects p c p1 used)
  then show ?case using getConnection_ok by fastforce
next
  case (fail now getaddrinfo connects p p1 used)
  then show ?case using getConnection_ok by fastforce
next
  case (give c used p now)
  then show ?case by (rule ReleasePtr_ok)
qed (auto simp: pool_ok_def)

lemma pool_run_ok: "pool_run p s \<Longrightarrow> pool_ok (p, []) \<Longrightarrow> pool_ok s"
  by (induction rule: pool_run.induct) (auto intro: pool_step_ok)

lemma new_pool_ok: "pool_ok (HttpConnectionPool host vhost port max_size maxAliveTime maxRequest, [])"
  by (simp add: pool_ok_def HttpConnectionPool_def)

end
