(* ===== verification/Http_Properties.thy ===== *)
theory Http_Properties
  imports Http_Server Http_Pool
begin

text \<open>
  What the sessions, the client connections and the pool promise, and where they do not keep it.
\<close>

section \<open>Bodies\<close>

text \<open>
  Receiving a body, by what came with the head (\<open>data\<close>) and what the socket delivers then: a body
  that came whole is taken as it is; when nothing of it came with the head the connection is
  closed; when a part came, exactly as many bytes as had come are read again, so the body is
  right only if half of it was there, its end stays NUL if less was there, and the read runs past
  the end of the memory if more was there.
\<close>

theorem recv_body_by_arrival:
  assumes "0 < len" and "length data < 2 ^ 31"
    and "int (length data) < len \<longrightarrow> (\<forall>c \<in> set cs. c \<noteq> []) \<and> length (concat cs) = length data"
  shows "recv_body len data (map Got cs @ rest) =
    (if len \<le> int (length data) then Inr (Received (take (nat len) data) (map Got cs @ rest))
     else if data = [] then Inr Closed
     else if 2 * int (length data) \<le> len
     then Inr (Received (data @ concat cs @ replicate (nat len - 2 * length data) (CHR 0x00)) rest)
     else Inl Out_of_bounds)"
  by (rule recv_body_cases [OF assms])

theorem recv_body_by_arrival_witness:
  "recv_body 5 ''ab'' (map Got [''c'', ''d''] @ [Got ''e'']) = Inr (Received (''abcd'' @ [CHR 0x00]) [Got ''e''])
   \<and> recv_body 3 ''ab'' (map Got [''cd''] @ []) = Inl Out_of_bounds
   \<and> recv_body 3 ''abcd'' (map Got [] @ []) = Inr (Received ''abc'' [])"
  using recv_body_by_arrival [of 5 "''ab''" "[''c'', ''d'']" "[Got ''e'']"]
    recv_body_by_arrival [of 3 "''ab''" "[''cd'']" "[]"] recv_body_by_arrival [of 3 "''abcd''" "[]" "[]"]
  by simp

section \<open>Requests that are received\<close>

text \<open>
  C15: Every request that a session delivers was parsed without an error by a machine that reached a
  final state, its fields are in order, receiving it used up a part of the script, and whether it
  closes the connection is what its connection field says (anything but \<open>keep-alive\<close> closes).
\<close>

theorem recvRequest_delivers:
  assumes "recvRequest run cast buff junk rets = Inr (Received rq rs)"
  shows "length rs < length rets \<and> ci_sorted (rq_headers rq)
    \<and> (getHeadr ''connection'' [] rq = [] \<or> rq_close rq = (strcasecmp (getHeadr ''connection'' [] rq) ''keep-alive'' \<noteq> 0))
    \<and> (\<exists>rp data rs1. recv_head run buff [] (HttpRequestParser junk) rets = Inr (Received (rp, data) rs1)
         \<and> \<not> request_hasError rp \<and> request_isFinished rp = 1 \<and> rq_headers rq = rq_headers (rp_request rp))"
proof -
  have o: "ci_sorted (rq_headers (rp_request (HttpRequestParser junk)))"
    by (simp add: HttpRequestParser_def HttpRequest_def)
  have close: "getHeadr ''connection'' [] q = [] \<or> rq_close q = (strcasecmp (getHeadr ''connection'' [] q) ''keep-alive'' \<noteq> 0)"
    if "q = init_request q0" for q q0
    using that by (auto simp: init_request_def getHeadr_def Let_def)
  from assms show ?thesis
  proof (cases rule: recvRequest_cases)
    case (1 rp data rs1)
    then show ?thesis using recv_head_ordered [OF 1(1) o] recvRequest_shorter [OF assms] close [OF 1(3)] by auto
  next
    case (2 rp data rs1 body)
    then show ?thesis using recv_head_ordered [OF 2(1) o] recvRequest_shorter [OF assms] close [OF 2(4)] by auto
  qed
qed

theorem recvRequest_delivers_witness:
  "\<exists>rq. recvRequest path_machine (\<lambda>_. None) 9 zero_registers [Got ''/x'', Eof] = Inr (Received rq [Eof])
     \<and> ci_sorted (rq_headers rq)"
proof -
  have "recvRequest path_machine (\<lambda>_. None) 9 zero_registers [Got ''/x'', Eof]
      = Inr (Received (HttpRequest 0x11 True\<lparr>rq_path := ''/x''\<rparr>) [Eof])"
    by (simp add: run_path_machine)
  from recvRequest_delivers [OF this] this show ?thesis by blast
qed

section \<open>Requests that are sent\<close>

lemma add_fields_host: "fst (add_fields kvs False rq) = False"
  by (induction kvs arbitrary: rq) (auto simp: Let_def)

lemma set_fields_headers:
  "rq_headers q = rq_headers q' \<Longrightarrow>
   rq_headers (fold (\<lambda>(k, v). setHeader k v) kvs q) = rq_headers (fold (\<lambda>(k, v). setHeader k v) kvs q')"
proof (induction kvs arbitrary: q q')
  case (Cons kv kvs)
  obtain k v where kv: "kv = (k, v)" by (cases kv)
  have "rq_headers (setHeader k v q) = rq_headers (setHeader k v q')"
    using Cons.prems by (simp add: setHeader_def)
  from Cons.IH [OF this] show ?case by (simp only: kv fold_simps split_conv comp_apply)
qed simp

lemma add_fields_headers:
  "rq_headers (snd (add_fields kvs has_host rq)) = rq_headers (fold (\<lambda>(k, v). setHeader k v) kvs rq)"
proof (induction kvs arbitrary: has_host rq)
  case (Cons kv kvs)
  obtain k v where kv: "kv = (k, v)" by (cases kv)
  define rq1 where "rq1 = (if strcasecmp k ''connection'' = 0 \<and> strcasecmp v ''keep-alive'' = 0 then rq\<lparr>rq_close := False\<rparr> else rq)"
  have "rq_headers (snd (add_fields (kv # kvs) has_host rq)) = rq_headers (fold (\<lambda>(k, v). setHeader k v) kvs (setHeader k v rq1))"
    by (simp only: kv add_fields.simps Let_def rq1_def Cons.IH)
  also have "\<dots> = rq_headers (fold (\<lambda>(k, v). setHeader k v) kvs (setHeader k v rq))"
    by (rule set_fields_headers) (simp add: rq1_def setHeader_def)
  finally show ?case by (simp only: kv fold_simps split_conv comp_apply)
qed simp

text \<open>
  The host field of a request that is put together from a URI is always the host of the URI, also
  when the caller gives one; of every other field the last one given under any spelling counts.
\<close>

theorem assembled_fields:
  "getHeadr k def (assemble method u kvs body) =
     (if fold_key ''host'' = fold_key k then u_host u
      else case filter (\<lambda>(k', _). fold_key k' = fold_key k) kvs of
             [] \<Rightarrow> def
           | hits \<Rightarrow> snd (last hits))"
proof -
  let ?rq = "(HttpRequest 0x11 True)\<lparr>rq_method := method, rq_path := u_path u, rq_query := u_query u, rq_fragment := u_fragment u\<rparr>"
  have o: "ci_sorted (rq_headers ?rq)" and e: "ci_find k (rq_headers ?rq) = None" by (simp_all add: HttpRequest_def)
  let ?r1 = "snd (add_fields kvs False ?rq)"
  have h: "rq_headers (assemble method u kvs body) = rq_headers (setHeader ''host'' (u_host u) ?r1)"
    using add_fields_host [of kvs ?rq] by (simp add: assemble_def Let_def split_def)
  have "ci_sorted (rq_headers ?r1)" unfolding add_fields_headers by (rule rq_head.put_all_inv [OF o])
  from rq_head.look_put [OF this, where k = "''host''" and v = "u_host u" and k' = k]
  have "ci_find k (rq_headers (assemble method u kvs body))
      = (if fold_key ''host'' = fold_key k then Some (u_host u) else ci_find k (rq_headers ?r1))"
    by (simp only: h)
  moreover have "ci_find k (rq_headers ?r1) =
      (case filter (\<lambda>(k', _). fold_key k' = fold_key k) kvs of [] \<Rightarrow> None | hits \<Rightarrow> Some (snd (last hits)))"
    unfolding add_fields_headers using rq_head.look_put_all [OF o, where kvs = kvs and q = k]
    by (simp only: e)
  ultimately show ?thesis by (simp add: getHeadr_def split: list.split)
qed

text \<open>
  A request that fails while it is sent is never reported as such: for messages shorter than
  2^31 bytes the result is one of success, no address, no connection, or no response in time.
\<close>

theorem send_failure_not_reported:
  assumes "length (dump_request rq) < 2 ^ 31"
    and "DoRequest_on debug getaddrinfo connects sends recv rets rq u = Inr (Some r)"
  shows "hr_result r \<in> {OK, INVALID_ADDR, CONNECT_FAIL, RECV_RSP_TIMEOUT}
    \<and> (hr_result r = OK \<longleftrightarrow> hr_response r \<noteq> None)"
proof -
  have "0 \<le> ret" if "sendRequest rq sends = Some ret" for ret
  proof -
    have "sint (ucast (word_of_nat (length (dump_request rq)) :: 64 word) :: 32 word) = int (length (dump_request rq))"
      using assms(1) by (simp add: signed_take_bit_int_eq_self_iff unsigned_of_nat take_bit_nat_eq_self signed_of_nat)
    then show ?thesis using that by (auto simp: sendRequest_def Let_def split: fix_outcome.splits)
  qed
  note ret = this
  show ?thesis
  proof (cases "createAddress getaddrinfo u")
    case None
    then show ?thesis using assms(2) by (auto simp: DoRequest_on_def split: if_splits)
  next
    case (Some addr)
    show ?thesis
    proof (cases "sendRequest rq sends")
      case None
      then show ?thesis using assms(2) Some by (auto simp: DoRequest_on_def split: if_splits)
    next
      case (Some ret)
      then have "\<not> ret < 0" using ret by simp
      then show ?thesis using assms(2) Some \<open>createAddress getaddrinfo u = Some addr\<close>
        by (cases "recv rets") (auto simp: DoRequest_on_def split: if_splits received.splits)
    qed
  qed
qed

theorem send_failure_not_reported_witness:
  "hr_result \<lparr>hr_result = RECV_RSP_TIMEOUT, hr_response = None\<rparr> \<in> {OK, INVALID_ADDR, CONNECT_FAIL, RECV_RSP_TIMEOUT}
   \<and> DoRequest_on False (\<lambda>_ _ _ _ _. Some [IPv4Address (IPv4 1 2)]) (\<lambda>_. True) [Eof] (\<lambda>_. Inr Closed) []
       (HttpRequest 0x11 True) empty_uri = Inr (Some \<lparr>hr_result = RECV_RSP_TIMEOUT, hr_response = None\<rparr>)"
proof -
  let ?t = "dump_request (HttpRequest 0x11 True)"
  have t: "length ?t = 36"
    by (simp add: dump_request_def HttpRequest_def version_text_def HttpMethodToString_def method_strings_def
        dump_fields_def dump_body_def CRLF_def dec_digits.simps)
  then have "sendRequest (HttpRequest 0x11 True) [Eof] = Some 0"
    by (simp add: sendRequest_def writeFixSize_def fix_loop.simps)
  then have "DoRequest_on False (\<lambda>_ _ _ _ _. Some [IPv4Address (IPv4 1 2)]) (\<lambda>_. True) [Eof] (\<lambda>_. Inr Closed) []
       (HttpRequest 0x11 True) empty_uri = Inr (Some \<lparr>hr_result = RECV_RSP_TIMEOUT, hr_response = None\<rparr>)"
    by (simp add: DoRequest_on_def createAddress_def LookUpAnyIPAddress_def LookUp_def split_def)
  moreover have "length ?t < 2 ^ 31" unfolding t by simp
  ultimately show ?thesis using send_failure_not_reported by blast
qed

section \<open>Chunks\<close>

text \<open>
  A chunk of which enough has come is taken whole, and one of which only a part has come is
  completed by reading, so the body grows by exactly the length of the chunk and keeps what it had.
\<close>

theorem chunk_is_complete:
  assumes "chunk_take c data = Inr (now, kept, left)" and "recv_left buff left (body @ now) rets = Received body' rs"
  shows "int (length body') = int (length body) + c
    \<and> take (length body + length now) body' = body @ now \<and> now = take (length now) data"
proof -
  have "int (length now) + int left = c" "now = take (length now) data"
    using assms(1) by (auto simp: chunk_take_def Let_def min_def split: if_splits)
  moreover note recv_left_spec [OF assms(2)]
  ultimately show ?thesis by auto
qed

theorem chunk_is_complete_witness:
  "chunk_take 4 ''abcde'' = Inr (''abc'', [], 1) \<and> recv_left 9 1 (''x'' @ ''abc'') [Got ''d''] = Received ''xabcd'' []
   \<and> int (length ''xabcd'') = int (length ''x'') + 4"
proof -
  have c: "chunk_take 4 ''abcde'' = Inr (''abc'', [], 1)" "recv_left 9 1 (''x'' @ ''abc'') [Got ''d''] = Received ''xabcd'' []"
    by (simp_all add: chunk_take_def)
  from chunk_is_complete [OF c] c show ?thesis by blast
qed

text \<open>
  Behind a chunk that has come whole, with its line end and the text that follows, the last two
  characters received are lost and the line end stays in front of the next chunk; and when fewer
  than two characters have come behind the head of a chunk, also the last one, the code throws.
\<close>

theorem chunk_boundary_lost:
  "chunk_take (int (length d)) (d @ CRLF @ next) = Inr (d, take (length next) (CRLF @ next), 0)
   \<and> (length data < 2 \<longrightarrow> 0 \<le> c \<longrightarrow> chunk_take c data = Inl Logic_error)"
  by (auto simp: chunk_take_def Let_def CRLF_def nat_add_distrib)

theorem chunk_boundary_lost_witness:
  "chunk_take 2 (''ab'' @ CRLF @ ''0123'') = Inr (''ab'', CRLF @ ''01'', 0) \<and> chunk_take 0 [] = Inl Logic_error"
  using chunk_boundary_lost [of "''ab''" "''0123''" "[]" 0] by (simp add: CRLF_def numeral_2_eq_2)

section \<open>The pool\<close>

text \<open>
  C27: Whatever requests, losses of connections and returns happen, one after the other: the count of
  the pool is the number of idle connections and of those in use, no more connections are idle than
  the maximum, and no idle connection has served more requests than allowed.
\<close>

theorem pool_accounting:
  assumes "pool_run (HttpConnectionPool host vhost port max_size maxAliveTime maxRequest) (p, used)"
  shows "pl_total p = int (length (pl_connections p) + length used)
    \<and> int (length (pl_connections p)) \<le> max 0 (sint (pl_maxSize p))
    \<and> list_all (\<lambda>c. cn_requestCount c \<le> ucast (pl_maxRequest p)) (pl_connections p)"
  using pool_run_ok [OF assms new_pool_ok] by (cases "pl_connections p") (auto simp: pool_ok_def list_all_iff)

lemma one_connection:
  "pool_run (HttpConnectionPool ''h'' [] 80 4 9 2)
     (let p = HttpConnectionPool ''h'' [] 80 4 9 2 in p\<lparr>pl_total := 1\<rparr>, [HttpConnection])"
proof -
  let ?p = "HttpConnectionPool ''h'' [] 80 4 9 2"
  have "getConnection 0 (\<lambda>_ _ _ _ _. Some [IPv4Address (IPv4 1 2)]) (\<lambda>_. True) ?p
      = (Some HttpConnection, ?p\<lparr>pl_total := 1\<rparr>)"
    by (simp add: getConnection_def HttpConnectionPool_def LookUpAnyIPAddress_def LookUp_def split_def)
  from pool_run.step [OF pool_run.start pool_step.take [OF this]] show ?thesis by (simp add: Let_def)
qed

theorem pool_accounting_witness:
  "pl_total ((HttpConnectionPool ''h'' [] 80 4 9 2)\<lparr>pl_total := 1\<rparr>) = int (length ([] :: con list) + 1)"
  using pool_accounting [OF one_connection [unfolded Let_def]] by (simp add: HttpConnectionPool_def)

text \<open>
  The limit on the age of a connection has no effect, since the time of creation is never set:
  from the second month of 1970 on, no connection of a pool is ever too old when the limit is
  positive, and every connection is when the limit is zero.
\<close>

theorem pool_age_without_effect:
  assumes "pool_run (HttpConnectionPool host vhost port max_size maxAliveTime maxRequest) (p, used)"
    and "c \<in> set (pl_connections p) \<union> set used" and "2 ^ 32 \<le> now"
  shows "too_old now p c \<longleftrightarrow> pl_maxAliveTime p = 0"
proof -
  have c: "cn_createTime c = -1" using pool_run_ok [OF assms(1) new_pool_ok] assms(2) by (auto simp: pool_ok_def)
  let ?a = "ucast (pl_maxAliveTime p) :: 64 word"
  show ?thesis
  proof (cases "pl_maxAliveTime p = 0")
    case True
    then show ?thesis by (simp add: too_old_def c)
  next
    case False
    have lt: "unat (pl_maxAliveTime p) < 2 ^ 32" by (rule order_less_le_trans [OF unsigned_less]) simp
    then have u: "unat ?a = unat (pl_maxAliveTime p)" by (simp add: unsigned_ucast_eq take_bit_nat_eq_self)
    with False have "?a \<noteq> 0" by (metis unat_0 unat_eq_zero)
    then have "unat (?a - 1) = unat ?a - 1" by (simp add: unat_minus_one)
    moreover have "unat ?a < 2 ^ 32" using lt by (simp add: u)
    moreover have "2 ^ 32 \<le> unat now" using assms(3) by (simp add: word_le_nat_alt)
    ultimately have "?a - 1 < now" by (simp add: word_less_nat_alt)
    then show ?thesis using False by (simp add: too_old_def c)
  qed
qed

theorem pool_age_without_effect_witness:
  "\<not> too_old 0x100000000 ((HttpConnectionPool ''h'' [] 80 4 9 2)\<lparr>pl_total := 1\<rparr>) HttpConnection"
  using pool_age_without_effect [OF one_connection [unfolded Let_def], of HttpConnection "0x100000000"]
  by (simp add: HttpConnectionPool_def)

end
