(* ===== verification/Machine.thy ===== *)
theory Machine
  imports Strings
begin

text \<open>
  The shape of the machines that ragel generates (\<open>http11_parser.rl.cpp\<close>, \<open>httpclient_parser.rl.cpp\<close>
  and \<open>uri.rl.cpp\<close>): a \<open>switch\<close> over the state whose cases look at one character and jump to
  a label. A label \<open>st\<close> goes on to the next character in another state, a label \<open>tr\<close> performs
  actions first. The code of a machine is the list of its cases and transitions in the order of the file;
  \<open>run_machine\<close> is the control flow around them.
\<close>

datatype label = St int | Tr int

datatype 'a block = State int "int \<Rightarrow> label" | Trans int "'a list" int

text \<open>\<open>switch\<close> on a character: the cases, and what stands behind the statement.\<close>

definition switch :: "int \<Rightarrow> (int \<times> label) list \<Rightarrow> label \<Rightarrow> label" where
  "switch c cases rest = (case map_of cases c of Some l \<Rightarrow> l | None \<Rightarrow> rest)"

text \<open>The characters of the buffers are signed.\<close>

definition char_val :: "char \<Rightarrow> int" where
  "char_val ch = (let k = of_char ch in if k < 128 then k else k - 256)"

text \<open>\<open>strtol\<close> of texts that start with digits of the base; the value stops at the largest \<open>long\<close>.\<close>

definition digit_value :: "char \<Rightarrow> nat option" where
  "digit_value ch =
     (let c = char_val ch in
      if 48 \<le> c \<and> c \<le> 57 then Some (nat (c - 48))
      else if 65 \<le> c \<and> c \<le> 90 then Some (nat (c - 55))
      else if 97 \<le> c \<and> c \<le> 122 then Some (nat (c - 87)) else None)"

fun strtol_from :: "nat \<Rightarrow> nat \<Rightarrow> string \<Rightarrow> nat" where
  "strtol_from base acc [] = acc"
| "strtol_from base acc (ch # rest) =
     (case digit_value ch of
        None \<Rightarrow> acc
      | Some d \<Rightarrow> if d < base then strtol_from base (acc * base + d) rest else acc)"

definition strtol :: "nat \<Rightarrow> string \<Rightarrow> int" where
  "strtol base at = sint (word_of_nat (min (strtol_from base 0 at) (2 ^ 63 - 1)) :: 32 word)"

fun state_code :: "'a block list \<Rightarrow> int \<Rightarrow> (int \<Rightarrow> label) option" where
  "state_code [] cs = None"
| "state_code (State n f # bs) cs = (if n = cs then Some f else state_code bs cs)"
| "state_code (Trans n acts t # bs) cs = state_code bs cs"

fun trans_code :: "'a block list \<Rightarrow> int \<Rightarrow> ('a list \<times> int) option" where
  "trans_code [] k = None"
| "trans_code (State n f # bs) k = trans_code bs k"
| "trans_code (Trans n acts t # bs) k = (if n = k then Some (acts, t) else trans_code bs k)"

text \<open>The states and transitions a piece of code has; a look-up goes to the piece that has it.\<close>

fun block_states :: "'a block list \<Rightarrow> int list" where
  "block_states [] = []"
| "block_states (State n f # bs) = n # block_states bs"
| "block_states (Trans n acts t # bs) = block_states bs"

fun block_trans :: "'a block list \<Rightarrow> int list" where
  "block_trans [] = []"
| "block_trans (State n f # bs) = block_trans bs"
| "block_trans (Trans n acts t # bs) = n # block_trans bs"

lemma state_code_first: "cs \<in> set (block_states xs) \<Longrightarrow> state_code (xs @ ys) cs = state_code xs cs"
  by (induction xs cs rule: state_code.induct) auto

lemma state_code_later: "cs \<notin> set (block_states xs) \<Longrightarrow> state_code (xs @ ys) cs = state_code ys cs"
  by (induction xs cs rule: state_code.induct) auto

lemma trans_code_first: "k \<in> set (block_trans xs) \<Longrightarrow> trans_code (xs @ ys) k = trans_code xs k"
  by (induction xs k rule: trans_code.induct) auto

lemma trans_code_later: "k \<notin> set (block_trans xs) \<Longrightarrow> trans_code (xs @ ys) k = trans_code ys k"
  by (induction xs k rule: trans_code.induct) auto

lemmas code_lookup = state_code_first state_code_later trans_code_first trans_code_later

text \<open>
  What a label comes to at a character: the actions and the next state. State 0 is the error, it
  has no case, and no label leads to a missing transition.
\<close>

definition goto_label :: "'a block list \<Rightarrow> label \<Rightarrow> 'a list \<times> int" where
  "goto_label code l =
     (case l of St n \<Rightarrow> ([], n) | Tr k \<Rightarrow> (case trans_code code k of Some at \<Rightarrow> at | None \<Rightarrow> ([], 0)))"

lemma goto_simps:
  "goto_label code (St n) = ([], n)"
  "trans_code code k = Some at \<Longrightarrow> goto_label code (Tr k) = at"
  by (simp_all add: goto_label_def)

lemma switch_simps:
  "switch c [] rest = rest"
  "switch c ((k, l) # cases) rest = (if c = k then l else switch c cases rest)"
  by (simp_all add: switch_def)

text \<open>
  Where a label leads, with what is asked of the character, the actions and the state pushed to the ends of
  a case.
\<close>

definition lands :: "'a block list \<Rightarrow> (int \<Rightarrow> 'a list \<times> int \<Rightarrow> bool) \<Rightarrow> int \<Rightarrow> label \<Rightarrow> bool" where
  "lands code ok c l \<longleftrightarrow> ok c (goto_label code l)"

lemma lands_simps:
  "lands code ok c (if b then l else l') = (if b then lands code ok c l else lands code ok c l')"
  "lands code ok c (switch c [] rest) = lands code ok c rest"
  "lands code ok c (switch c ((k, l) # cases) rest) = (if c = k then lands code ok k l else lands code ok c (switch c cases rest))"
  "lands code ok c (St n) = ok c ([], n)"
  "trans_code code k = Some at \<Longrightarrow> lands code ok c (Tr k) = ok c at"
  by (simp_all add: lands_def switch_simps goto_simps)

text \<open>What finds a case in a piece of code without looking into the cases, and what follows one.\<close>

lemmas code_find = state_code.simps trans_code.simps option.map numeral_eq_iff num.inject num.distinct one_eq_numeral_iff
  numeral_eq_one_iff zero_neq_numeral numeral_neq_zero simp_thms if_True if_False

lemmas code_step = goto_simps switch_simps

definition next_state :: "'a block list \<Rightarrow> int \<Rightarrow> char \<Rightarrow> ('a list \<times> int) option" where
  "next_state code cs ch = map_option (\<lambda>f. goto_label code (f (char_val ch))) (state_code code cs)"

text \<open>
  A run over the rest of the buffer from position \<open>p\<close>. An action of the kind \<open>brk\<close> stops behind the
  character (\<open>fbreak\<close>), an error before it. A state without a case, which only the error state of
  an earlier buffer is, falls out of the \<open>switch\<close> onto the first of the labels behind it, \<open>eof\<close>.
\<close>

fun run_machine ::
  "'a block list \<Rightarrow> ('a \<Rightarrow> nat \<Rightarrow> 'r \<Rightarrow> 'r) \<Rightarrow> ('a \<Rightarrow> bool) \<Rightarrow> int \<Rightarrow> string \<Rightarrow> nat \<Rightarrow> int \<Rightarrow> 'r \<Rightarrow> int \<times> nat \<times> 'r" where
  "run_machine code act brk eof [] p cs r = (cs, p, r)"
| "run_machine code act brk eof (ch # rest) p cs r =
     (case next_state code cs ch of
        None \<Rightarrow> (eof, p, r)
      | Some (acts, n) \<Rightarrow>
          let r1 = fold (\<lambda>a. act a p) acts r in
          if n = 0 then (0, p, r1)
          else if list_ex brk acts then (n, p + 1, r1)
          else run_machine code act brk eof rest (p + 1) n r1)"

section \<open>Runs in pieces\<close>

text \<open>
  The trace over a piece of text that a machine goes over without stopping: the state behind it, and
  the actions with their positions.
\<close>

fun trace :: "'a block list \<Rightarrow> ('a \<Rightarrow> bool) \<Rightarrow> string \<Rightarrow> nat \<Rightarrow> int \<Rightarrow> (int \<times> ('a \<times> nat) list) option" where
  "trace code brk [] p cs = Some (cs, [])"
| "trace code brk (ch # rest) p cs =
     (case next_state code cs ch of
        None \<Rightarrow> None
      | Some (acts, n) \<Rightarrow>
          if n = 0 \<or> list_ex brk acts then None
          else map_option (\<lambda>(s, tr). (s, map (\<lambda>a. (a, p)) acts @ tr)) (trace code brk rest (p + 1) n))"

definition perform :: "('a \<Rightarrow> nat \<Rightarrow> 'r \<Rightarrow> 'r) \<Rightarrow> ('a \<times> nat) list \<Rightarrow> 'r \<Rightarrow> 'r" where
  "perform act tr = fold (\<lambda>(a, p). act a p) tr"

lemma perform_simps [simp]:
  "perform act [] r = r" "perform act ((a, p) # tr) r = perform act tr (act a p r)"
  "perform act (tr @ tr') r = perform act tr' (perform act tr r)"
  by (simp_all add: perform_def)

lemma perform_at: "perform act (map (\<lambda>a. (a, p)) acts) r = fold (\<lambda>a. act a p) acts r"
  by (induction acts arbitrary: r) simp_all

lemma trace_append:
  assumes "trace code brk xs p s = Some (s1, t1)" and "trace code brk ys (p + length xs) s1 = Some (s2, t2)"
  shows "trace code brk (xs @ ys) p s = Some (s2, t1 @ t2)"
  using assms
proof (induction xs arbitrary: p s t1)
  case (Cons ch xs)
  then obtain acts n where n: "next_state code s ch = Some (acts, n)" "\<not> (n = 0 \<or> list_ex brk acts)"
    by (auto split: option.splits if_splits)
  then obtain t where t: "trace code brk xs (p + 1) n = Some (s1, t)" "t1 = map (\<lambda>a. (a, p)) acts @ t"
    using Cons.prems(1) by auto
  show ?case using Cons.IH [OF t(1)] Cons.prems(2) n t(2) by simp
qed simp

lemma run_trace:
  assumes "trace code brk xs p s = Some (s1, tr)"
  shows "run_machine code act brk eof (xs @ rest) p s r = run_machine code act brk eof rest (p + length xs) s1 (perform act tr r)"
  using assms
proof (induction xs arbitrary: p s tr r)
  case (Cons ch xs)
  then obtain acts n where n: "next_state code s ch = Some (acts, n)" "\<not> (n = 0 \<or> list_ex brk acts)"
    by (auto split: option.splits if_splits)
  then obtain t where t: "trace code brk xs (p + 1) n = Some (s1, t)" "tr = map (\<lambda>a. (a, p)) acts @ t"
    using Cons.prems by auto
  show ?case using Cons.IH [OF t(1)] n t(2) by (simp add: perform_at)
qed simp

text \<open>A loop: every character leads from a set of states into it, without actions.\<close>

lemma trace_loop:
  assumes "\<And>s ch. s \<in> S \<Longrightarrow> ch \<in> set xs \<Longrightarrow> \<exists>s' \<in> S. next_state code s ch = Some ([], s')" and "s \<in> S" and "0 \<notin> S"
  shows "\<exists>s' \<in> S. trace code brk xs p s = Some (s', [])"
  using assms(1,2)
proof (induction xs arbitrary: p s)
  case (Cons ch xs)
  obtain s' where s': "s' \<in> S" "next_state code s ch = Some ([], s')" using Cons.prems(1) [of s ch] Cons.prems(2) by auto
  obtain s'' where "s'' \<in> S" "trace code brk xs (p + 1) s' = Some (s'', [])"
    using Cons.IH [of s' "p + 1"] Cons.prems(1) s'(1) by auto
  moreover have "s' \<noteq> 0" using s'(1) assms(3) by auto
  ultimately show ?case using s'(2) by simp
qed simp

corollary trace_self:
  assumes "\<And>ch. ch \<in> set xs \<Longrightarrow> next_state code s ch = Some ([], s)" and "s \<noteq> 0"
  shows "trace code brk xs p s = Some (s, [])"
  using trace_loop [of "{s}" xs code s brk p] assms by auto

section \<open>What every run keeps\<close>

text \<open>
  Registers whose invariant the actions keep at every position of the buffer. It may speak of the
  position, since positions only grow.
\<close>

locale machine_inv =
  fixes act :: "'a \<Rightarrow> nat \<Rightarrow> 'r \<Rightarrow> 'r" and len :: nat and inv :: "nat \<Rightarrow> 'r \<Rightarrow> bool"
  assumes keep: "\<And>a p r. p < len \<Longrightarrow> inv p r \<Longrightarrow> inv p (act a p r)"
    and grow: "\<And>p r. inv p r \<Longrightarrow> inv (p + 1) r"
begin

lemma keep_all:
  assumes "p < len" and "inv p r"
  shows "inv p (fold (\<lambda>a. act a p) acts r)"
  using assms(2) by (induction acts arbitrary: r) (simp_all add: keep [OF assms(1)])

lemma run_keeps:
  assumes "inv p r" and "p + length xs \<le> len"
  shows "case run_machine code act brk eof xs p cs r of (cs', p', r') \<Rightarrow> inv p' r' \<and> p \<le> p' \<and> p' \<le> p + length xs"
  using assms
proof (induction xs arbitrary: p cs r)
  case (Cons ch xs)
  have all: "inv p (fold (\<lambda>a. act a p) acts r)" for acts using keep_all Cons.prems by simp
  show ?case
  proof (cases "next_state code cs ch")
    case None
    then show ?thesis using Cons.prems by simp
  next
    case (Some an)
    obtain acts n where an: "an = (acts, n)" by (cases an)
    show ?thesis
      using Some an all [of acts] grow [OF all [of acts]] Cons.prems(2)
        Cons.IH [OF grow [OF all [of acts]], of n] by (auto simp: Let_def)
  qed
qed simp

end

end
