(* ===== verification/Http_Machine.thy ===== *)
theory Http_Machine
  imports Machine Http_Parser
begin

text \<open>
  \<open>http/http11_parser.rl.cpp\<close>: the machine that reads requests, case by case as the file has it. The
  actions are those of \<open>http11_parser.rl\<close>; \<open>http_act\<close> says what each does to the registers and which
  callback it makes. A pointer into the buffer is the text that starts there. \<open>LEN\<close> is a difference that
  is passed as \<open>size_t\<close> and wraps when the mark is behind the position.
\<close>

section \<open>Actions\<close>

datatype http_action =
    H_Mark | H_Request_method | H_Request_path | H_Request_uri | H_Fragment | H_Start_query | H_Query_string
  | H_Http_version | H_Start_field | H_Write_field | H_Write_value | H_Done | H_Xml | H_Json

definition LEN :: "nat \<Rightarrow> nat \<Rightarrow> nat" where
  "LEN at p = (if at \<le> p then p - at else 2 ^ 64 + p - at)"

text \<open>The registers and the callbacks so far.\<close>

type_synonym http_regs = "http_parser \<times> event list"

fun http_act :: "string \<Rightarrow> http_action \<Rightarrow> nat \<Rightarrow> http_regs \<Rightarrow> http_regs" where
  "http_act buffer H_Mark p (pr, evs) = (pr\<lparr>p_mark := p\<rparr>, evs)"
| "http_act buffer H_Start_field p (pr, evs) = (pr\<lparr>p_field_start := p\<rparr>, evs)"
| "http_act buffer H_Write_field p (pr, evs) = (pr\<lparr>p_field_len := LEN (p_field_start pr) p\<rparr>, evs)"
| "http_act buffer H_Write_value p (pr, evs) =
     (pr, evs @ [Ev_http_field (drop (p_field_start pr) buffer) (p_field_len pr) (drop (p_mark pr) buffer) (LEN (p_mark pr) p)])"
| "http_act buffer H_Request_method p (pr, evs) = (pr, evs @ [Ev_request_method (drop (p_mark pr) buffer) (LEN (p_mark pr) p)])"
| "http_act buffer H_Request_uri p (pr, evs) = (pr, evs @ [Ev_request_uri (drop (p_mark pr) buffer) (LEN (p_mark pr) p)])"
| "http_act buffer H_Fragment p (pr, evs) = (pr, evs @ [Ev_fragment (drop (p_mark pr) buffer) (LEN (p_mark pr) p)])"
| "http_act buffer H_Start_query p (pr, evs) = (pr\<lparr>p_query_start := p\<rparr>, evs)"
| "http_act buffer H_Query_string p (pr, evs) =
     (pr, evs @ [Ev_query_string (drop (p_query_start pr) buffer) (LEN (p_query_start pr) p)])"
| "http_act buffer H_Http_version p (pr, evs) = (pr, evs @ [Ev_http_version (drop (p_mark pr) buffer) (LEN (p_mark pr) p)])"
| "http_act buffer H_Request_path p (pr, evs) = (pr, evs @ [Ev_request_path (drop (p_mark pr) buffer) (LEN (p_mark pr) p)])"
| "http_act buffer H_Xml p (pr, evs) = (pr\<lparr>p_xml_sent := True\<rparr>, evs)"
| "http_act buffer H_Json p (pr, evs) = (pr\<lparr>p_json_sent := True\<rparr>, evs)"
| "http_act buffer H_Done p (pr, evs) =
     (if p_xml_sent pr \<or> p_json_sent pr
      then (pr\<lparr>p_body_start := p_mark pr, p_content_len := int p - int (p_mark pr) + 1\<rparr>, evs)
      else (pr\<lparr>p_body_start := p + 1\<rparr>, evs @ [Ev_header_done (drop (p + 1) buffer) (length buffer - p - 1)]))"

section \<open>The cases\<close>

text \<open>The characters that \<open>uri_relaxed\<close> lets into a URI are looked at as wider numbers.\<close>

definition widec :: "bool \<Rightarrow> int \<Rightarrow> int" where
  "widec relaxed c =
     (let w = 128 + (c - -128) + (if relaxed then 256 else 0) in
      if c < 123 then (if 94 \<le> c \<and> c \<le> 94 then w else c)
      else if c > 123 then (if 125 \<le> c \<and> c \<le> 125 then w else c)
      else w)"

definition http_code_1 :: "bool \<Rightarrow> http_action block list" where
  "http_code_1 relaxed = [
    State 1 (\<lambda>c. switch c [(60, Tr 2), (64, Tr 3)]
        (if c > 57 then (if 65 \<le> c \<and> c \<le> 90 then Tr 0
           else St 0)
         else if c \<ge> 48 then Tr 0
         else St 0)),
    Trans 0 [H_Mark] 2,
    State 2 (\<lambda>c. if c = 32 then Tr 4
      else if c > 57 then (if 65 \<le> c \<and> c \<le> 90 then St 175
        else St 0)
      else if c \<ge> 48 then St 175
      else St 0),
    Trans 4 [H_Request_method] 3,
    State 3 (\<lambda>c. let w = widec relaxed c in switch w [(32, Tr 6), (33, Tr 7), (35, Tr 8), (37, Tr 9), (47, Tr 10), (59, Tr 7), (61, Tr 7), (63, Tr 11), (64, Tr 7), (95, Tr 7), (126, Tr 7), (606, Tr 7), (635, Tr 7), (637, Tr 7)]
        (if w < 65 then (if 36 \<le> w \<and> w \<le> 57 then Tr 7
           else St 0)
         else if w > 90 then (if 97 \<le> w \<and> w \<le> 122 then Tr 12
           else St 0)
         else Tr 12)),
    Trans 6 [H_Mark, H_Request_path, H_Request_uri] 4,
    Trans 37 [H_Request_path, H_Request_uri] 4,
    Trans 43 [H_Mark, H_Fragment] 4,
    Trans 46 [H_Fragment] 4,
    Trans 53 [H_Start_query, H_Query_string, H_Request_uri] 4]"

definition http_code_2 :: "bool \<Rightarrow> http_action block list" where
  "http_code_2 relaxed = [
    Trans 57 [H_Query_string, H_Request_uri] 4,
    State 4 (\<lambda>c. if c = 72 then Tr 13
      else St 0),
    Trans 13 [H_Mark] 5,
    State 5 (\<lambda>c. if c = 84 then St 6
      else St 0),
    State 6 (\<lambda>c. if c = 84 then St 7
      else St 0),
    State 7 (\<lambda>c. if c = 80 then St 8
      else St 0),
    State 8 (\<lambda>c. if c = 47 then St 9
      else St 0),
    State 9 (\<lambda>c. if c = 49 then St 10
      else St 0),
    State 10 (\<lambda>c. if c = 46 then St 11
      else St 0),
    State 11 (\<lambda>c. if 48 \<le> c \<and> c \<le> 49 then St 12
      else St 0),
    State 12 (\<lambda>c. switch c [(10, Tr 21), (13, Tr 22)]
        (St 0)),
    Trans 21 [H_Http_version] 13,
    Trans 30 [H_Mark, H_Write_value] 13,
    Trans 33 [H_Write_value] 13,
    State 13 (\<lambda>c. switch c [(10, Tr 24), (13, Tr 25), (33, Tr 23), (124, Tr 23), (126, Tr 23)]
        (if c < 42 then (if c < 11 then (if 1 \<le> c \<and> c \<le> 8 then Tr 23
             else St 0)
           else if c > 31 then (if 35 \<le> c \<and> c \<le> 39 then Tr 23
             else St 0)
           else Tr 23)
         else if c > 43 then (if c < 48 then (if 45 \<le> c \<and> c \<le> 46 then Tr 23
             else St 0)
           else if c > 57 then (if c > 90 then (if 94 \<le> c \<and> c \<le> 122 then Tr 23
               else St 0)
             else if c \<ge> 65 then Tr 23
             else St 0)
           else Tr 23)
         else Tr 23)),
    Trans 23 [H_Start_field] 14]"

definition http_code_3 :: "bool \<Rightarrow> http_action block list" where
  "http_code_3 relaxed = [
    State 14 (\<lambda>c. switch c [(33, St 14), (58, Tr 27), (124, St 14), (126, St 14)]
        (if c < 42 then (if c < 10 then (if 1 \<le> c \<and> c \<le> 8 then St 14
             else St 0)
           else if c > 31 then (if 35 \<le> c \<and> c \<le> 39 then St 14
             else St 0)
           else St 14)
         else if c > 43 then (if c < 48 then (if 45 \<le> c \<and> c \<le> 46 then St 14
             else St 0)
           else if c > 57 then (if c > 90 then (if 94 \<le> c \<and> c \<le> 122 then St 14
               else St 0)
             else if c \<ge> 65 then St 14
             else St 0)
           else St 14)
         else St 14)),
    Trans 27 [H_Write_field] 15,
    Trans 29 [H_Mark] 15,
    State 15 (\<lambda>c. switch c [(0, St 0), (9, Tr 29), (10, Tr 30), (13, Tr 31), (32, Tr 29), (127, St 0)]
        (Tr 28)),
    Trans 28 [H_Mark] 16,
    State 16 (\<lambda>c. switch c [(0, St 0), (10, Tr 33), (13, Tr 34), (127, St 0)]
        (St 16)),
    Trans 22 [H_Http_version] 17,
    Trans 31 [H_Mark, H_Write_value] 17,
    Trans 34 [H_Write_value] 17,
    State 17 (\<lambda>c. if c = 10 then St 13
      else St 0),
    Trans 24 [H_Start_field, H_Done] 348,
    Trans 36 [H_Done] 348]"

definition http_code_4 :: "bool \<Rightarrow> http_action block list" where
  "http_code_4 relaxed = [
    State 348 (\<lambda>c. switch c [(33, St 14), (58, Tr 27), (124, St 14), (126, St 14)]
        (if c < 42 then (if c < 10 then (if 1 \<le> c \<and> c \<le> 8 then St 14
             else St 0)
           else if c > 31 then (if 35 \<le> c \<and> c \<le> 39 then St 14
             else St 0)
           else St 14)
         else if c > 43 then (if c < 48 then (if 45 \<le> c \<and> c \<le> 46 then St 14
             else St 0)
           else if c > 57 then (if c > 90 then (if 94 \<le> c \<and> c \<le> 122 then St 14
               else St 0)
             else if c \<ge> 65 then St 14
             else St 0)
           else St 14)
         else St 14)),
    Trans 25 [H_Start_field] 18,
    State 18 (\<lambda>c. switch c [(10, Tr 36), (33, St 14), (58, Tr 27), (124, St 14), (126, St 14)]
        (if c < 42 then (if c < 11 then (if 1 \<le> c \<and> c \<le> 8 then St 14
             else St 0)
           else if c > 31 then (if 35 \<le> c \<and> c \<le> 39 then St 14
             else St 0)
           else St 14)
         else if c > 43 then (if c < 48 then (if 45 \<le> c \<and> c \<le> 46 then St 14
             else St 0)
           else if c > 57 then (if c > 90 then (if 94 \<le> c \<and> c \<le> 122 then St 14
               else St 0)
             else if c \<ge> 65 then St 14
             else St 0)
           else St 14)
         else St 14)),
    Trans 7 [H_Mark] 19,
    State 19 (\<lambda>c. let w = widec relaxed c in switch w [(32, Tr 37), (33, St 19), (35, Tr 39), (37, St 24), (47, St 26), (59, St 19), (61, St 19), (63, Tr 42), (95, St 19), (126, St 19), (606, St 19), (635, St 19), (637, St 19)]
        (if w < 64 then (if 36 \<le> w \<and> w \<le> 57 then St 19
           else St 0)
         else if w > 90 then (if 97 \<le> w \<and> w \<le> 122 then St 19
           else St 0)
         else St 19)),
    Trans 8 [H_Mark, H_Request_path, H_Request_uri] 20]"

definition http_code_5 :: "bool \<Rightarrow> http_action block list" where
  "http_code_5 relaxed = [
    Trans 39 [H_Request_path, H_Request_uri] 20,
    Trans 55 [H_Start_query, H_Query_string, H_Request_uri] 20,
    Trans 59 [H_Query_string, H_Request_uri] 20,
    State 20 (\<lambda>c. let w = widec relaxed c in switch w [(32, Tr 43), (33, Tr 44), (37, Tr 45), (61, Tr 44), (95, Tr 44), (126, Tr 44), (606, Tr 44), (635, Tr 44), (637, Tr 44)]
        (if w < 63 then (if 36 \<le> w \<and> w \<le> 59 then Tr 44
           else St 0)
         else if w > 90 then (if 97 \<le> w \<and> w \<le> 122 then Tr 44
           else St 0)
         else Tr 44)),
    Trans 44 [H_Mark] 21,
    State 21 (\<lambda>c. let w = widec relaxed c in switch w [(32, Tr 46), (33, St 21), (37, St 22), (61, St 21), (95, St 21), (126, St 21), (606, St 21), (635, St 21), (637, St 21)]
        (if w < 63 then (if 36 \<le> w \<and> w \<le> 59 then St 21
           else St 0)
         else if w > 90 then (if 97 \<le> w \<and> w \<le> 122 then St 21
           else St 0)
         else St 21)),
    Trans 45 [H_Mark] 22]"

definition http_code_6 :: "bool \<Rightarrow> http_action block list" where
  "http_code_6 relaxed = [
    State 22 (\<lambda>c. if c < 65 then (if 48 \<le> c \<and> c \<le> 57 then St 23
        else St 0)
      else if c > 70 then (if 97 \<le> c \<and> c \<le> 102 then St 23
        else St 0)
      else St 23),
    State 23 (\<lambda>c. if c < 65 then (if 48 \<le> c \<and> c \<le> 57 then St 21
        else St 0)
      else if c > 70 then (if 97 \<le> c \<and> c \<le> 102 then St 21
        else St 0)
      else St 21),
    Trans 9 [H_Mark] 24,
    State 24 (\<lambda>c. if c < 65 then (if 48 \<le> c \<and> c \<le> 57 then St 25
        else St 0)
      else if c > 70 then (if 97 \<le> c \<and> c \<le> 102 then St 25
        else St 0)
      else St 25),
    State 25 (\<lambda>c. if c < 65 then (if 48 \<le> c \<and> c \<le> 57 then St 19
        else St 0)
      else if c > 70 then (if 97 \<le> c \<and> c \<le> 102 then St 19
        else St 0)
      else St 19),
    Trans 203 [H_Mark] 26,
    State 26 (\<lambda>c. let w = widec relaxed c in switch w [(32, Tr 37), (33, St 26), (35, Tr 39), (37, St 27), (61, St 26), (63, Tr 42), (95, St 26), (126, St 26), (606, St 26), (635, St 26), (637, St 26)]
        (if w < 64 then (if 36 \<le> w \<and> w \<le> 59 then St 26
           else St 0)
         else if w > 90 then (if 97 \<le> w \<and> w \<le> 122 then St 26
           else St 0)
         else St 26)),
    Trans 204 [H_Mark] 27,
    State 27 (\<lambda>c. if c < 65 then (if 48 \<le> c \<and> c \<le> 57 then St 28
        else St 0)
      else if c > 70 then (if 97 \<le> c \<and> c \<le> 102 then St 28
        else St 0)
      else St 28),
    State 28 (\<lambda>c. if c < 65 then (if 48 \<le> c \<and> c \<le> 57 then St 26
        else St 0)
      else if c > 70 then (if 97 \<le> c \<and> c \<le> 102 then St 26
        else St 0)
      else St 26),
    Trans 11 [H_Mark, H_Request_path] 29]"

definition http_code_7 :: "bool \<Rightarrow> http_action block list" where
  "http_code_7 relaxed = [
    Trans 42 [H_Request_path] 29,
    State 29 (\<lambda>c. let w = widec relaxed c in switch w [(32, Tr 53), (33, Tr 54), (35, Tr 55), (37, Tr 56), (61, Tr 54), (95, Tr 54), (126, Tr 54), (606, Tr 54), (635, Tr 54), (637, Tr 54)]
        (if w < 63 then (if 36 \<le> w \<and> w \<le> 59 then Tr 54
           else St 0)
         else if w > 90 then (if 97 \<le> w \<and> w \<le> 122 then Tr 54
           else St 0)
         else Tr 54)),
    Trans 54 [H_Start_query] 30,
    State 30 (\<lambda>c. let w = widec relaxed c in switch w [(32, Tr 57), (33, St 30), (35, Tr 59), (37, St 31), (61, St 30), (95, St 30), (126, St 30), (606, St 30), (635, St 30), (637, St 30)]
        (if w < 63 then (if 36 \<le> w \<and> w \<le> 59 then St 30
           else St 0)
         else if w > 90 then (if 97 \<le> w \<and> w \<le> 122 then St 30
           else St 0)
         else St 30)),
    Trans 56 [H_Start_query] 31,
    State 31 (\<lambda>c. if c < 65 then (if 48 \<le> c \<and> c \<le> 57 then St 32
        else St 0)
      else if c > 70 then (if 97 \<le> c \<and> c \<le> 102 then St 32
        else St 0)
      else St 32),
    State 32 (\<lambda>c. if c < 65 then (if 48 \<le> c \<and> c \<le> 57 then St 30
        else St 0)
      else if c > 70 then (if 97 \<le> c \<and> c \<le> 102 then St 30
        else St 0)
      else St 30),
    Trans 10 [H_Mark] 33]"

definition http_code_8 :: "bool \<Rightarrow> http_action block list" where
  "http_code_8 relaxed = [
    State 33 (\<lambda>c. let w = widec relaxed c in switch w [(32, Tr 37), (33, St 26), (35, Tr 39), (37, St 27), (47, St 34), (61, St 26), (63, Tr 42), (95, St 26), (126, St 26), (606, St 26), (635, St 26), (637, St 26)]
        (if w < 64 then (if 36 \<le> w \<and> w \<le> 59 then St 26
           else St 0)
         else if w > 90 then (if 97 \<le> w \<and> w \<le> 122 then St 26
           else St 0)
         else St 26)),
    State 34 (\<lambda>c. let w = widec relaxed c in switch w [(32, Tr 37), (33, St 35), (35, Tr 39), (37, St 36), (47, St 26), (58, St 38), (61, St 35), (63, Tr 42), (64, St 42), (91, St 47), (95, St 35), (126, St 35), (606, St 35), (635, St 35), (637, St 35)]
        (if w < 65 then (if 36 \<le> w \<and> w \<le> 59 then St 35
           else St 0)
         else if w > 90 then (if 97 \<le> w \<and> w \<le> 122 then St 35
           else St 0)
         else St 35)),
    State 35 (\<lambda>c. let w = widec relaxed c in switch w [(32, Tr 37), (33, St 35), (35, Tr 39), (37, St 36), (47, St 26), (58, St 38), (61, St 35), (63, Tr 42), (64, St 42), (95, St 35), (126, St 35), (606, St 35), (635, St 35), (637, St 35)]
        (if w < 65 then (if 36 \<le> w \<and> w \<le> 59 then St 35
           else St 0)
         else if w > 90 then (if 97 \<le> w \<and> w \<le> 122 then St 35
           else St 0)
         else St 35))]"

definition http_code_9 :: "bool \<Rightarrow> http_action block list" where
  "http_code_9 relaxed = [
    State 36 (\<lambda>c. if c < 65 then (if 48 \<le> c \<and> c \<le> 57 then St 37
        else St 0)
      else if c > 70 then (if 97 \<le> c \<and> c \<le> 102 then St 37
        else St 0)
      else St 37),
    State 37 (\<lambda>c. if c < 65 then (if 48 \<le> c \<and> c \<le> 57 then St 35
        else St 0)
      else if c > 70 then (if 97 \<le> c \<and> c \<le> 102 then St 35
        else St 0)
      else St 35),
    State 38 (\<lambda>c. let w = widec relaxed c in switch w [(32, Tr 37), (33, St 39), (35, Tr 39), (37, St 40), (47, St 26), (61, St 39), (63, Tr 42), (64, St 42), (95, St 39), (126, St 39), (606, St 39), (635, St 39), (637, St 39)]
        (if w < 58 then (if w > 46 then (if 48 \<le> w \<and> w \<le> 57 then St 38
             else St 0)
           else if w \<ge> 36 then St 39
           else St 0)
         else if w > 59 then (if w > 90 then (if 97 \<le> w \<and> w \<le> 122 then St 39
             else St 0)
           else if w \<ge> 65 then St 39
           else St 0)
         else St 39)),
    State 39 (\<lambda>c. let w = widec relaxed c in switch w [(33, St 39), (37, St 40), (61, St 39), (64, St 42), (95, St 39), (126, St 39), (606, St 39), (635, St 39), (637, St 39)]
        (if w < 48 then (if 36 \<le> w \<and> w \<le> 46 then St 39
           else St 0)
         else if w > 59 then (if w > 90 then (if 97 \<le> w \<and> w \<le> 122 then St 39
             else St 0)
           else if w \<ge> 65 then St 39
           else St 0)
         else St 39)),
    State 40 (\<lambda>c. if c < 65 then (if 48 \<le> c \<and> c \<le> 57 then St 41
        else St 0)
      else if c > 70 then (if 97 \<le> c \<and> c \<le> 102 then St 41
        else St 0)
      else St 41)]"

definition http_code_10 :: "bool \<Rightarrow> http_action block list" where
  "http_code_10 relaxed = [
    State 41 (\<lambda>c. if c < 65 then (if 48 \<le> c \<and> c \<le> 57 then St 39
        else St 0)
      else if c > 70 then (if 97 \<le> c \<and> c \<le> 102 then St 39
        else St 0)
      else St 39),
    State 42 (\<lambda>c. let w = widec relaxed c in switch w [(32, Tr 37), (33, St 43), (35, Tr 39), (37, St 44), (47, St 26), (58, St 46), (61, St 43), (63, Tr 42), (91, St 47), (95, St 43), (126, St 43), (606, St 43), (635, St 43), (637, St 43)]
        (if w < 65 then (if 36 \<le> w \<and> w \<le> 59 then St 43
           else St 0)
         else if w > 90 then (if 97 \<le> w \<and> w \<le> 122 then St 43
           else St 0)
         else St 43)),
    State 43 (\<lambda>c. let w = widec relaxed c in switch w [(32, Tr 37), (33, St 43), (35, Tr 39), (37, St 44), (47, St 26), (58, St 46), (61, St 43), (63, Tr 42), (95, St 43), (126, St 43), (606, St 43), (635, St 43), (637, St 43)]
        (if w < 65 then (if 36 \<le> w \<and> w \<le> 59 then St 43
           else St 0)
         else if w > 90 then (if 97 \<le> w \<and> w \<le> 122 then St 43
           else St 0)
         else St 43)),
    State 44 (\<lambda>c. if c < 65 then (if 48 \<le> c \<and> c \<le> 57 then St 45
        else St 0)
      else if c > 70 then (if 97 \<le> c \<and> c \<le> 102 then St 45
        else St 0)
      else St 45),
    State 45 (\<lambda>c. if c < 65 then (if 48 \<le> c \<and> c \<le> 57 then St 43
        else St 0)
      else if c > 70 then (if 97 \<le> c \<and> c \<le> 102 then St 43
        else St 0)
      else St 43),
    State 46 (\<lambda>c. switch c [(32, Tr 37), (35, Tr 39), (47, St 26), (63, Tr 42)]
        (if 48 \<le> c \<and> c \<le> 57 then St 46
         else St 0))]"

definition http_code_11 :: "bool \<Rightarrow> http_action block list" where
  "http_code_11 relaxed = [
    State 47 (\<lambda>c. switch c [(6, St 48), (58, St 167), (118, St 169)]
        (if c < 65 then (if 48 \<le> c \<and> c \<le> 57 then St 91
           else St 0)
         else if c > 70 then (if 97 \<le> c \<and> c \<le> 102 then St 91
           else St 0)
         else St 91)),
    State 48 (\<lambda>c. if c < 65 then (if 48 \<le> c \<and> c \<le> 57 then St 49
        else St 0)
      else if c > 70 then (if 97 \<le> c \<and> c \<le> 102 then St 49
        else St 0)
      else St 49),
    State 49 (\<lambda>c. if c = 58 then St 53
      else if c < 65 then (if 48 \<le> c \<and> c \<le> 57 then St 50
        else St 0)
      else if c > 70 then (if 97 \<le> c \<and> c \<le> 102 then St 50
        else St 0)
      else St 50),
    State 50 (\<lambda>c. if c = 58 then St 53
      else if c < 65 then (if 48 \<le> c \<and> c \<le> 57 then St 51
        else St 0)
      else if c > 70 then (if 97 \<le> c \<and> c \<le> 102 then St 51
        else St 0)
      else St 51),
    State 51 (\<lambda>c. if c = 58 then St 53
      else if c < 65 then (if 48 \<le> c \<and> c \<le> 57 then St 52
        else St 0)
      else if c > 70 then (if 97 \<le> c \<and> c \<le> 102 then St 52
        else St 0)
      else St 52),
    State 52 (\<lambda>c. if c = 58 then St 53
      else St 0),
    State 53 (\<lambda>c. switch c [(49, St 84), (50, St 87)]
        (if c < 65 then (if 48 \<le> c \<and> c \<le> 57 then St 54
           else St 0)
         else if c > 70 then (if 97 \<le> c \<and> c \<le> 102 then St 90
           else St 0)
         else St 90)),
    State 54 (\<lambda>c. switch c [(46, St 55), (58, St 80)]
        (if c < 65 then (if 48 \<le> c \<and> c \<le> 57 then St 77
           else St 0)
         else if c > 70 then (if 97 \<le> c \<and> c \<le> 102 then St 77
           else St 0)
         else St 77)),
    State 55 (\<lambda>c. switch c [(49, St 72), (50, St 74)]
        (if 48 \<le> c \<and> c \<le> 57 then St 56
         else St 0)),
    State 56 (\<lambda>c. if c = 46 then St 57
      else St 0),
    State 57 (\<lambda>c. switch c [(49, St 67), (50, St 69)]
        (if 48 \<le> c \<and> c \<le> 57 then St 58
         else St 0)),
    State 58 (\<lambda>c. if c = 46 then St 59
      else St 0)]"

definition http_code_12 :: "bool \<Rightarrow> http_action block list" where
  "http_code_12 relaxed = [
    State 59 (\<lambda>c. switch c [(49, St 62), (50, St 64)]
        (if 48 \<le> c \<and> c \<le> 57 then St 60
         else St 0)),
    State 60 (\<lambda>c. if c = 93 then St 61
      else St 0),
    State 61 (\<lambda>c. switch c [(32, Tr 37), (35, Tr 39), (47, St 26), (58, St 46), (63, Tr 42)]
        (St 0)),
    State 62 (\<lambda>c. if c = 93 then St 61
      else if 48 \<le> c \<and> c \<le> 57 then St 63
      else St 0),
    State 63 (\<lambda>c. if c = 93 then St 61
      else if 48 \<le> c \<and> c \<le> 57 then St 60
      else St 0),
    State 64 (\<lambda>c. switch c [(48, St 65), (53, St 66), (93, St 61)]
        (St 0)),
    State 65 (\<lambda>c. if 48 \<le> c \<and> c \<le> 57 then St 60
      else St 0),
    State 66 (\<lambda>c. if c = 48 then St 60
      else St 0),
    State 67 (\<lambda>c. if c = 46 then St 59
      else if 48 \<le> c \<and> c \<le> 57 then St 68
      else St 0),
    State 68 (\<lambda>c. if c = 46 then St 59
      else if 48 \<le> c \<and> c \<le> 57 then St 58
      else St 0),
    State 69 (\<lambda>c. switch c [(46, St 59), (48, St 70), (53, St 71)]
        (St 0)),
    State 70 (\<lambda>c. if 48 \<le> c \<and> c \<le> 57 then St 58
      else St 0),
    State 71 (\<lambda>c. if c = 48 then St 58
      else St 0),
    State 72 (\<lambda>c. if c = 46 then St 57
      else if 48 \<le> c \<and> c \<le> 57 then St 73
      else St 0),
    State 73 (\<lambda>c. if c = 46 then St 57
      else if 48 \<le> c \<and> c \<le> 57 then St 56
      else St 0),
    State 74 (\<lambda>c. switch c [(46, St 57), (48, St 75), (53, St 76)]
        (St 0)),
    State 75 (\<lambda>c. if 48 \<le> c \<and> c \<le> 57 then St 56
      else St 0)]"

definition http_code_13 :: "bool \<Rightarrow> http_action block list" where
  "http_code_13 relaxed = [
    State 76 (\<lambda>c. if c = 48 then St 56
      else St 0),
    State 77 (\<lambda>c. if c = 58 then St 80
      else if c < 65 then (if 48 \<le> c \<and> c \<le> 57 then St 78
        else St 0)
      else if c > 70 then (if 97 \<le> c \<and> c \<le> 102 then St 78
        else St 0)
      else St 78),
    State 78 (\<lambda>c. if c = 58 then St 80
      else if c < 65 then (if 48 \<le> c \<and> c \<le> 57 then St 79
        else St 0)
      else if c > 70 then (if 97 \<le> c \<and> c \<le> 102 then St 79
        else St 0)
      else St 79),
    State 79 (\<lambda>c. if c = 58 then St 80
      else St 0),
    State 80 (\<lambda>c. if c < 65 then (if 48 \<le> c \<and> c \<le> 57 then St 81
        else St 0)
      else if c > 70 then (if 97 \<le> c \<and> c \<le> 102 then St 81
        else St 0)
      else St 81),
    State 81 (\<lambda>c. if c = 93 then St 61
      else if c < 65 then (if 48 \<le> c \<and> c \<le> 57 then St 82
        else St 0)
      else if c > 70 then (if 97 \<le> c \<and> c \<le> 102 then St 82
        else St 0)
      else St 82),
    State 82 (\<lambda>c. if c = 93 then St 61
      else if c < 65 then (if 48 \<le> c \<and> c \<le> 57 then St 83
        else St 0)
      else if c > 70 then (if 97 \<le> c \<and> c \<le> 102 then St 83
        else St 0)
      else St 83),
    State 83 (\<lambda>c. if c = 93 then St 61
      else if c < 65 then (if 48 \<le> c \<and> c \<le> 57 then St 60
        else St 0)
      else if c > 70 then (if 97 \<le> c \<and> c \<le> 102 then St 60
        else St 0)
      else St 60),
    State 84 (\<lambda>c. switch c [(46, St 55), (58, St 80)]
        (if c < 65 then (if 48 \<le> c \<and> c \<le> 57 then St 85
           else St 0)
         else if c > 70 then (if 97 \<le> c \<and> c \<le> 102 then St 77
           else St 0)
         else St 77)),
    State 85 (\<lambda>c. switch c [(46, St 55), (58, St 80)]
        (if c < 65 then (if 48 \<le> c \<and> c \<le> 57 then St 86
           else St 0)
         else if c > 70 then (if 97 \<le> c \<and> c \<le> 102 then St 78
           else St 0)
         else St 78)),
    State 86 (\<lambda>c. switch c [(46, St 55), (58, St 80)]
        (if c < 65 then (if 48 \<le> c \<and> c \<le> 57 then St 79
           else St 0)
         else if c > 70 then (if 97 \<le> c \<and> c \<le> 102 then St 79
           else St 0)
         else St 79))]"

definition http_code_14 :: "bool \<Rightarrow> http_action block list" where
  "http_code_14 relaxed = [
    State 87 (\<lambda>c. switch c [(46, St 55), (48, St 88), (53, St 89), (58, St 80)]
        (if c < 65 then (if 49 \<le> c \<and> c \<le> 57 then St 77
           else St 0)
         else if c > 70 then (if 97 \<le> c \<and> c \<le> 102 then St 77
           else St 0)
         else St 77)),
    State 88 (\<lambda>c. if c = 58 then St 80
      else if c < 65 then (if 48 \<le> c \<and> c \<le> 57 then St 86
        else St 0)
      else if c > 70 then (if 97 \<le> c \<and> c \<le> 102 then St 78
        else St 0)
      else St 78),
    State 89 (\<lambda>c. switch c [(48, St 86), (58, St 80)]
        (if c < 65 then (if 49 \<le> c \<and> c \<le> 57 then St 78
           else St 0)
         else if c > 70 then (if 97 \<le> c \<and> c \<le> 102 then St 78
           else St 0)
         else St 78)),
    State 90 (\<lambda>c. if c = 58 then St 80
      else if c < 65 then (if 48 \<le> c \<and> c \<le> 57 then St 77
        else St 0)
      else if c > 70 then (if 97 \<le> c \<and> c \<le> 102 then St 77
        else St 0)
      else St 77),
    State 91 (\<lambda>c. if c = 58 then St 95
      else if c < 65 then (if 48 \<le> c \<and> c \<le> 57 then St 92
        else St 0)
      else if c > 70 then (if 97 \<le> c \<and> c \<le> 102 then St 92
        else St 0)
      else St 92),
    State 92 (\<lambda>c. if c = 58 then St 95
      else if c < 65 then (if 48 \<le> c \<and> c \<le> 57 then St 93
        else St 0)
      else if c > 70 then (if 97 \<le> c \<and> c \<le> 102 then St 93
        else St 0)
      else St 93),
    State 93 (\<lambda>c. if c = 58 then St 95
      else if c < 65 then (if 48 \<le> c \<and> c \<le> 57 then St 94
        else St 0)
      else if c > 70 then (if 97 \<le> c \<and> c \<le> 102 then St 94
        else St 0)
      else St 94),
    State 94 (\<lambda>c. if c = 58 then St 95
      else St 0),
    State 95 (\<lambda>c. if c = 58 then St 166
      else if c < 65 then (if 48 \<le> c \<and> c \<le> 57 then St 96
        else St 0)
      else if c > 70 then (if 97 \<le> c \<and> c \<le> 102 then St 96
        else St 0)
      else St 96),
    State 96 (\<lambda>c. if c = 58 then St 100
      else if c < 65 then (if 48 \<le> c \<and> c \<le> 57 then St 97
        else St 0)
      else if c > 70 then (if 97 \<le> c \<and> c \<le> 102 then St 97
        else St 0)
      else St 97)]"

definition http_code_15 :: "bool \<Rightarrow> http_action block list" where
  "http_code_15 relaxed = [
    State 97 (\<lambda>c. if c = 58 then St 100
      else if c < 65 then (if 48 \<le> c \<and> c \<le> 57 then St 98
        else St 0)
      else if c > 70 then (if 97 \<le> c \<and> c \<le> 102 then St 98
        else St 0)
      else St 98),
    State 98 (\<lambda>c. if c = 58 then St 100
      else if c < 65 then (if 48 \<le> c \<and> c \<le> 57 then St 99
        else St 0)
      else if c > 70 then (if 97 \<le> c \<and> c \<le> 102 then St 99
        else St 0)
      else St 99),
    State 99 (\<lambda>c. if c = 58 then St 100
      else St 0),
    State 100 (\<lambda>c. if c = 58 then St 165
      else if c < 65 then (if 48 \<le> c \<and> c \<le> 57 then St 101
        else St 0)
      else if c > 70 then (if 97 \<le> c \<and> c \<le> 102 then St 101
        else St 0)
      else St 101),
    State 101 (\<lambda>c. if c = 58 then St 105
      else if c < 65 then (if 48 \<le> c \<and> c \<le> 57 then St 102
        else St 0)
      else if c > 70 then (if 97 \<le> c \<and> c \<le> 102 then St 102
        else St 0)
      else St 102),
    State 102 (\<lambda>c. if c = 58 then St 105
      else if c < 65 then (if 48 \<le> c \<and> c \<le> 57 then St 103
        else St 0)
      else if c > 70 then (if 97 \<le> c \<and> c \<le> 102 then St 103
        else St 0)
      else St 103),
    State 103 (\<lambda>c. if c = 58 then St 105
      else if c < 65 then (if 48 \<le> c \<and> c \<le> 57 then St 104
        else St 0)
      else if c > 70 then (if 97 \<le> c \<and> c \<le> 102 then St 104
        else St 0)
      else St 104),
    State 104 (\<lambda>c. if c = 58 then St 105
      else St 0),
    State 105 (\<lambda>c. if c = 58 then St 164
      else if c < 65 then (if 48 \<le> c \<and> c \<le> 57 then St 106
        else St 0)
      else if c > 70 then (if 97 \<le> c \<and> c \<le> 102 then St 106
        else St 0)
      else St 106),
    State 106 (\<lambda>c. if c = 58 then St 110
      else if c < 65 then (if 48 \<le> c \<and> c \<le> 57 then St 107
        else St 0)
      else if c > 70 then (if 97 \<le> c \<and> c \<le> 102 then St 107
        else St 0)
      else St 107),
    State 107 (\<lambda>c. if c = 58 then St 110
      else if c < 65 then (if 48 \<le> c \<and> c \<le> 57 then St 108
        else St 0)
      else if c > 70 then (if 97 \<le> c \<and> c \<le> 102 then St 108
        else St 0)
      else St 108)]"

definition http_code_16 :: "bool \<Rightarrow> http_action block list" where
  "http_code_16 relaxed = [
    State 108 (\<lambda>c. if c = 58 then St 110
      else if c < 65 then (if 48 \<le> c \<and> c \<le> 57 then St 109
        else St 0)
      else if c > 70 then (if 97 \<le> c \<and> c \<le> 102 then St 109
        else St 0)
      else St 109),
    State 109 (\<lambda>c. if c = 58 then St 110
      else St 0),
    State 110 (\<lambda>c. if c = 58 then St 163
      else if c < 65 then (if 48 \<le> c \<and> c \<le> 57 then St 111
        else St 0)
      else if c > 70 then (if 97 \<le> c \<and> c \<le> 102 then St 111
        else St 0)
      else St 111),
    State 111 (\<lambda>c. if c = 58 then St 115
      else if c < 65 then (if 48 \<le> c \<and> c \<le> 57 then St 112
        else St 0)
      else if c > 70 then (if 97 \<le> c \<and> c \<le> 102 then St 112
        else St 0)
      else St 112),
    State 112 (\<lambda>c. if c = 58 then St 115
      else if c < 65 then (if 48 \<le> c \<and> c \<le> 57 then St 113
        else St 0)
      else if c > 70 then (if 97 \<le> c \<and> c \<le> 102 then St 113
        else St 0)
      else St 113),
    State 113 (\<lambda>c. if c = 58 then St 115
      else if c < 65 then (if 48 \<le> c \<and> c \<le> 57 then St 114
        else St 0)
      else if c > 70 then (if 97 \<le> c \<and> c \<le> 102 then St 114
        else St 0)
      else St 114),
    State 114 (\<lambda>c. if c = 58 then St 115
      else St 0),
    State 115 (\<lambda>c. if c = 58 then St 151
      else if c < 65 then (if 48 \<le> c \<and> c \<le> 57 then St 116
        else St 0)
      else if c > 70 then (if 97 \<le> c \<and> c \<le> 102 then St 116
        else St 0)
      else St 116),
    State 116 (\<lambda>c. if c = 58 then St 120
      else if c < 65 then (if 48 \<le> c \<and> c \<le> 57 then St 117
        else St 0)
      else if c > 70 then (if 97 \<le> c \<and> c \<le> 102 then St 117
        else St 0)
      else St 117),
    State 117 (\<lambda>c. if c = 58 then St 120
      else if c < 65 then (if 48 \<le> c \<and> c \<le> 57 then St 118
        else St 0)
      else if c > 70 then (if 97 \<le> c \<and> c \<le> 102 then St 118
        else St 0)
      else St 118),
    State 118 (\<lambda>c. if c = 58 then St 120
      else if c < 65 then (if 48 \<le> c \<and> c \<le> 57 then St 119
        else St 0)
      else if c > 70 then (if 97 \<le> c \<and> c \<le> 102 then St 119
        else St 0)
      else St 119)]"

definition http_code_17 :: "bool \<Rightarrow> http_action block list" where
  "http_code_17 relaxed = [
    State 119 (\<lambda>c. if c = 58 then St 120
      else St 0),
    State 120 (\<lambda>c. if c = 58 then St 150
      else if c < 65 then (if 48 \<le> c \<and> c \<le> 57 then St 121
        else St 0)
      else if c > 70 then (if 97 \<le> c \<and> c \<le> 102 then St 121
        else St 0)
      else St 121),
    State 121 (\<lambda>c. if c = 58 then St 125
      else if c < 65 then (if 48 \<le> c \<and> c \<le> 57 then St 122
        else St 0)
      else if c > 70 then (if 97 \<le> c \<and> c \<le> 102 then St 122
        else St 0)
      else St 122),
    State 122 (\<lambda>c. if c = 58 then St 125
      else if c < 65 then (if 48 \<le> c \<and> c \<le> 57 then St 123
        else St 0)
      else if c > 70 then (if 97 \<le> c \<and> c \<le> 102 then St 123
        else St 0)
      else St 123),
    State 123 (\<lambda>c. if c = 58 then St 125
      else if c < 65 then (if 48 \<le> c \<and> c \<le> 57 then St 124
        else St 0)
      else if c > 70 then (if 97 \<le> c \<and> c \<le> 102 then St 124
        else St 0)
      else St 124),
    State 124 (\<lambda>c. if c = 58 then St 125
      else St 0),
    State 125 (\<lambda>c. if c = 58 then St 126
      else if c < 65 then (if 48 \<le> c \<and> c \<le> 57 then St 121
        else St 0)
      else if c > 70 then (if 97 \<le> c \<and> c \<le> 102 then St 121
        else St 0)
      else St 121),
    State 126 (\<lambda>c. switch c [(49, St 143), (50, St 146), (93, St 61)]
        (if c < 48 then (if 2 \<le> c \<and> c \<le> 3 then St 48
           else St 0)
         else if c > 57 then (if c > 70 then (if 97 \<le> c \<and> c \<le> 102 then St 149
             else St 0)
           else if c \<ge> 65 then St 149
           else St 0)
         else St 127)),
    State 127 (\<lambda>c. switch c [(46, St 55), (58, St 131), (93, St 61)]
        (if c < 65 then (if 48 \<le> c \<and> c \<le> 57 then St 128
           else St 0)
         else if c > 70 then (if 97 \<le> c \<and> c \<le> 102 then St 128
           else St 0)
         else St 128)),
    State 128 (\<lambda>c. switch c [(58, St 131), (93, St 61)]
        (if c < 65 then (if 48 \<le> c \<and> c \<le> 57 then St 129
           else St 0)
         else if c > 70 then (if 97 \<le> c \<and> c \<le> 102 then St 129
           else St 0)
         else St 129))]"

definition http_code_18 :: "bool \<Rightarrow> http_action block list" where
  "http_code_18 relaxed = [
    State 129 (\<lambda>c. switch c [(58, St 131), (93, St 61)]
        (if c < 65 then (if 48 \<le> c \<and> c \<le> 57 then St 130
           else St 0)
         else if c > 70 then (if 97 \<le> c \<and> c \<le> 102 then St 130
           else St 0)
         else St 130)),
    State 130 (\<lambda>c. switch c [(58, St 131), (93, St 61)]
        (St 0)),
    State 131 (\<lambda>c. switch c [(49, St 136), (50, St 139)]
        (if c < 65 then (if 48 \<le> c \<and> c \<le> 57 then St 132
           else St 0)
         else if c > 70 then (if 97 \<le> c \<and> c \<le> 102 then St 142
           else St 0)
         else St 142)),
    State 132 (\<lambda>c. switch c [(46, St 55), (58, St 80), (93, St 61)]
        (if c < 65 then (if 48 \<le> c \<and> c \<le> 57 then St 133
           else St 0)
         else if c > 70 then (if 97 \<le> c \<and> c \<le> 102 then St 133
           else St 0)
         else St 133)),
    State 133 (\<lambda>c. switch c [(58, St 80), (93, St 61)]
        (if c < 65 then (if 48 \<le> c \<and> c \<le> 57 then St 134
           else St 0)
         else if c > 70 then (if 97 \<le> c \<and> c \<le> 102 then St 134
           else St 0)
         else St 134)),
    State 134 (\<lambda>c. switch c [(58, St 80), (93, St 61)]
        (if c < 65 then (if 48 \<le> c \<and> c \<le> 57 then St 135
           else St 0)
         else if c > 70 then (if 97 \<le> c \<and> c \<le> 102 then St 135
           else St 0)
         else St 135)),
    State 135 (\<lambda>c. switch c [(58, St 80), (93, St 61)]
        (St 0)),
    State 136 (\<lambda>c. switch c [(46, St 55), (58, St 80), (93, St 61)]
        (if c < 65 then (if 48 \<le> c \<and> c \<le> 57 then St 137
           else St 0)
         else if c > 70 then (if 97 \<le> c \<and> c \<le> 102 then St 133
           else St 0)
         else St 133)),
    State 137 (\<lambda>c. switch c [(46, St 55), (58, St 80), (93, St 61)]
        (if c < 65 then (if 48 \<le> c \<and> c \<le> 57 then St 138
           else St 0)
         else if c > 70 then (if 97 \<le> c \<and> c \<le> 102 then St 134
           else St 0)
         else St 134))]"

definition http_code_19 :: "bool \<Rightarrow> http_action block list" where
  "http_code_19 relaxed = [
    State 138 (\<lambda>c. switch c [(46, St 55), (58, St 80), (93, St 61)]
        (if c < 65 then (if 48 \<le> c \<and> c \<le> 57 then St 135
           else St 0)
         else if c > 70 then (if 97 \<le> c \<and> c \<le> 102 then St 135
           else St 0)
         else St 135)),
    State 139 (\<lambda>c. switch c [(46, St 55), (48, St 140), (53, St 141), (58, St 80), (93, St 61)]
        (if c < 65 then (if 49 \<le> c \<and> c \<le> 57 then St 133
           else St 0)
         else if c > 70 then (if 97 \<le> c \<and> c \<le> 102 then St 133
           else St 0)
         else St 133)),
    State 140 (\<lambda>c. switch c [(58, St 80), (93, St 61)]
        (if c < 65 then (if 48 \<le> c \<and> c \<le> 57 then St 138
           else St 0)
         else if c > 70 then (if 97 \<le> c \<and> c \<le> 102 then St 134
           else St 0)
         else St 134)),
    State 141 (\<lambda>c. switch c [(48, St 138), (58, St 80), (93, St 61)]
        (if c < 65 then (if 49 \<le> c \<and> c \<le> 57 then St 134
           else St 0)
         else if c > 70 then (if 97 \<le> c \<and> c \<le> 102 then St 134
           else St 0)
         else St 134)),
    State 142 (\<lambda>c. switch c [(58, St 80), (93, St 61)]
        (if c < 65 then (if 48 \<le> c \<and> c \<le> 57 then St 133
           else St 0)
         else if c > 70 then (if 97 \<le> c \<and> c \<le> 102 then St 133
           else St 0)
         else St 133)),
    State 143 (\<lambda>c. switch c [(46, St 55), (58, St 131), (93, St 61)]
        (if c < 65 then (if 48 \<le> c \<and> c \<le> 57 then St 144
           else St 0)
         else if c > 70 then (if 97 \<le> c \<and> c \<le> 102 then St 128
           else St 0)
         else St 128)),
    State 144 (\<lambda>c. switch c [(46, St 55), (58, St 131), (93, St 61)]
        (if c < 65 then (if 48 \<le> c \<and> c \<le> 57 then St 145
           else St 0)
         else if c > 70 then (if 97 \<le> c \<and> c \<le> 102 then St 129
           else St 0)
         else St 129)),
    State 145 (\<lambda>c. switch c [(46, St 55), (58, St 131), (93, St 61)]
        (if c < 65 then (if 48 \<le> c \<and> c \<le> 57 then St 130
           else St 0)
         else if c > 70 then (if 97 \<le> c \<and> c \<le> 102 then St 130
           else St 0)
         else St 130))]"

definition http_code_20 :: "bool \<Rightarrow> http_action block list" where
  "http_code_20 relaxed = [
    State 146 (\<lambda>c. switch c [(46, St 55), (48, St 147), (53, St 148), (58, St 131), (93, St 61)]
        (if c < 65 then (if 49 \<le> c \<and> c \<le> 57 then St 128
           else St 0)
         else if c > 70 then (if 97 \<le> c \<and> c \<le> 102 then St 128
           else St 0)
         else St 128)),
    State 147 (\<lambda>c. switch c [(58, St 131), (93, St 61)]
        (if c < 65 then (if 48 \<le> c \<and> c \<le> 57 then St 145
           else St 0)
         else if c > 70 then (if 97 \<le> c \<and> c \<le> 102 then St 129
           else St 0)
         else St 129)),
    State 148 (\<lambda>c. switch c [(48, St 145), (58, St 131), (93, St 61)]
        (if c < 65 then (if 49 \<le> c \<and> c \<le> 57 then St 129
           else St 0)
         else if c > 70 then (if 97 \<le> c \<and> c \<le> 102 then St 129
           else St 0)
         else St 129)),
    State 149 (\<lambda>c. switch c [(58, St 131), (93, St 61)]
        (if c < 65 then (if 48 \<le> c \<and> c \<le> 57 then St 128
           else St 0)
         else if c > 70 then (if 97 \<le> c \<and> c \<le> 102 then St 128
           else St 0)
         else St 128)),
    State 150 (\<lambda>c. switch c [(49, St 143), (50, St 146)]
        (if c < 48 then (if 2 \<le> c \<and> c \<le> 3 then St 48
           else St 0)
         else if c > 57 then (if c > 70 then (if 97 \<le> c \<and> c \<le> 102 then St 149
             else St 0)
           else if c \<ge> 65 then St 149
           else St 0)
         else St 127)),
    State 151 (\<lambda>c. switch c [(49, St 156), (50, St 159)]
        (if c < 48 then (if 2 \<le> c \<and> c \<le> 3 then St 48
           else St 0)
         else if c > 57 then (if c > 70 then (if 97 \<le> c \<and> c \<le> 102 then St 162
             else St 0)
           else if c \<ge> 65 then St 162
           else St 0)
         else St 152)),
    State 152 (\<lambda>c. switch c [(46, St 55), (58, St 131)]
        (if c < 65 then (if 48 \<le> c \<and> c \<le> 57 then St 153
           else St 0)
         else if c > 70 then (if 97 \<le> c \<and> c \<le> 102 then St 153
           else St 0)
         else St 153)),
    State 153 (\<lambda>c. if c = 58 then St 131
      else if c < 65 then (if 48 \<le> c \<and> c \<le> 57 then St 154
        else St 0)
      else if c > 70 then (if 97 \<le> c \<and> c \<le> 102 then St 154
        else St 0)
      else St 154)]"

definition http_code_21 :: "bool \<Rightarrow> http_action block list" where
  "http_code_21 relaxed = [
    State 154 (\<lambda>c. if c = 58 then St 131
      else if c < 65 then (if 48 \<le> c \<and> c \<le> 57 then St 155
        else St 0)
      else if c > 70 then (if 97 \<le> c \<and> c \<le> 102 then St 155
        else St 0)
      else St 155),
    State 155 (\<lambda>c. if c = 58 then St 131
      else St 0),
    State 156 (\<lambda>c. switch c [(46, St 55), (58, St 131)]
        (if c < 65 then (if 48 \<le> c \<and> c \<le> 57 then St 157
           else St 0)
         else if c > 70 then (if 97 \<le> c \<and> c \<le> 102 then St 153
           else St 0)
         else St 153)),
    State 157 (\<lambda>c. switch c [(46, St 55), (58, St 131)]
        (if c < 65 then (if 48 \<le> c \<and> c \<le> 57 then St 158
           else St 0)
         else if c > 70 then (if 97 \<le> c \<and> c \<le> 102 then St 154
           else St 0)
         else St 154)),
    State 158 (\<lambda>c. switch c [(46, St 55), (58, St 131)]
        (if c < 65 then (if 48 \<le> c \<and> c \<le> 57 then St 155
           else St 0)
         else if c > 70 then (if 97 \<le> c \<and> c \<le> 102 then St 155
           else St 0)
         else St 155)),
    State 159 (\<lambda>c. switch c [(46, St 55), (48, St 160), (53, St 161), (58, St 131)]
        (if c < 65 then (if 49 \<le> c \<and> c \<le> 57 then St 153
           else St 0)
         else if c > 70 then (if 97 \<le> c \<and> c \<le> 102 then St 153
           else St 0)
         else St 153)),
    State 160 (\<lambda>c. if c = 58 then St 131
      else if c < 65 then (if 48 \<le> c \<and> c \<le> 57 then St 158
        else St 0)
      else if c > 70 then (if 97 \<le> c \<and> c \<le> 102 then St 154
        else St 0)
      else St 154),
    State 161 (\<lambda>c. switch c [(48, St 158), (58, St 131)]
        (if c < 65 then (if 49 \<le> c \<and> c \<le> 57 then St 154
           else St 0)
         else if c > 70 then (if 97 \<le> c \<and> c \<le> 102 then St 154
           else St 0)
         else St 154)),
    State 162 (\<lambda>c. if c = 58 then St 131
      else if c < 65 then (if 48 \<le> c \<and> c \<le> 57 then St 153
        else St 0)
      else if c > 70 then (if 97 \<le> c \<and> c \<le> 102 then St 153
        else St 0)
      else St 153)]"

definition http_code_22 :: "bool \<Rightarrow> http_action block list" where
  "http_code_22 relaxed = [
    State 163 (\<lambda>c. if c < 48 then (if 2 \<le> c \<and> c \<le> 3 then St 48
        else St 0)
      else if c > 57 then (if c > 70 then (if 97 \<le> c \<and> c \<le> 102 then St 49
          else St 0)
        else if c \<ge> 65 then St 49
        else St 0)
      else St 49),
    State 164 (\<lambda>c. if 2 \<le> c \<and> c \<le> 3 then St 48
      else St 0),
    State 165 (\<lambda>c. if c = 3 then St 48
      else St 0),
    State 166 (\<lambda>c. if c = 4 then St 48
      else St 0),
    State 167 (\<lambda>c. if c = 58 then St 168
      else St 0),
    State 168 (\<lambda>c. switch c [(49, St 143), (50, St 146), (93, St 61)]
        (if c < 48 then (if 2 \<le> c \<and> c \<le> 5 then St 48
           else St 0)
         else if c > 57 then (if c > 70 then (if 97 \<le> c \<and> c \<le> 102 then St 149
             else St 0)
           else if c \<ge> 65 then St 149
           else St 0)
         else St 127)),
    State 169 (\<lambda>c. if c < 65 then (if 48 \<le> c \<and> c \<le> 57 then St 170
        else St 0)
      else if c > 70 then (if 97 \<le> c \<and> c \<le> 102 then St 170
        else St 0)
      else St 170),
    State 170 (\<lambda>c. if c = 46 then St 171
      else if c < 65 then (if 48 \<le> c \<and> c \<le> 57 then St 170
        else St 0)
      else if c > 70 then (if 97 \<le> c \<and> c \<le> 102 then St 170
        else St 0)
      else St 170),
    State 171 (\<lambda>c. let w = widec relaxed c in switch w [(33, St 172), (36, St 172), (61, St 172), (95, St 172), (126, St 172), (606, St 172), (635, St 172), (637, St 172)]
        (if w < 48 then (if 38 \<le> w \<and> w \<le> 46 then St 172
           else St 0)
         else if w > 59 then (if w > 90 then (if 97 \<le> w \<and> w \<le> 122 then St 172
             else St 0)
           else if w \<ge> 65 then St 172
           else St 0)
         else St 172))]"

definition http_code_23 :: "bool \<Rightarrow> http_action block list" where
  "http_code_23 relaxed = [
    State 172 (\<lambda>c. let w = widec relaxed c in switch w [(33, St 172), (36, St 172), (61, St 172), (93, St 61), (95, St 172), (126, St 172), (606, St 172), (635, St 172), (637, St 172)]
        (if w < 48 then (if 38 \<le> w \<and> w \<le> 46 then St 172
           else St 0)
         else if w > 59 then (if w > 90 then (if 97 \<le> w \<and> w \<le> 122 then St 172
             else St 0)
           else if w \<ge> 65 then St 172
           else St 0)
         else St 172)),
    Trans 12 [H_Mark] 173,
    State 173 (\<lambda>c. let w = widec relaxed c in switch w [(32, Tr 37), (33, St 19), (35, Tr 39), (37, St 24), (43, St 173), (47, St 26), (58, St 174), (59, St 19), (61, St 19), (63, Tr 42), (64, St 19), (95, St 19), (126, St 19), (606, St 19), (635, St 19), (637, St 19)]
        (if w < 45 then (if 36 \<le> w \<and> w \<le> 44 then St 19
           else St 0)
         else if w > 57 then (if w > 90 then (if 97 \<le> w \<and> w \<le> 122 then St 173
             else St 0)
           else if w \<ge> 65 then St 173
           else St 0)
         else St 173))]"

definition http_code_24 :: "bool \<Rightarrow> http_action block list" where
  "http_code_24 relaxed = [
    State 174 (\<lambda>c. let w = widec relaxed c in switch w [(32, Tr 6), (33, Tr 203), (35, Tr 8), (37, Tr 204), (47, Tr 10), (61, Tr 203), (63, Tr 11), (95, Tr 203), (126, Tr 203), (606, Tr 203), (635, Tr 203), (637, Tr 203)]
        (if w < 64 then (if 36 \<le> w \<and> w \<le> 59 then Tr 203
           else St 0)
         else if w > 90 then (if 97 \<le> w \<and> w \<le> 122 then Tr 203
           else St 0)
         else Tr 203)),
    State 175 (\<lambda>c. if c = 32 then Tr 4
      else if c > 57 then (if 65 \<le> c \<and> c \<le> 90 then St 176
        else St 0)
      else if c \<ge> 48 then St 176
      else St 0),
    State 176 (\<lambda>c. if c = 32 then Tr 4
      else if c > 57 then (if 65 \<le> c \<and> c \<le> 90 then St 177
        else St 0)
      else if c \<ge> 48 then St 177
      else St 0),
    State 177 (\<lambda>c. if c = 32 then Tr 4
      else if c > 57 then (if 65 \<le> c \<and> c \<le> 90 then St 178
        else St 0)
      else if c \<ge> 48 then St 178
      else St 0),
    State 178 (\<lambda>c. if c = 32 then Tr 4
      else if c > 57 then (if 65 \<le> c \<and> c \<le> 90 then St 179
        else St 0)
      else if c \<ge> 48 then St 179
      else St 0),
    State 179 (\<lambda>c. if c = 32 then Tr 4
      else if c > 57 then (if 65 \<le> c \<and> c \<le> 90 then St 180
        else St 0)
      else if c \<ge> 48 then St 180
      else St 0),
    State 180 (\<lambda>c. if c = 32 then Tr 4
      else if c > 57 then (if 65 \<le> c \<and> c \<le> 90 then St 181
        else St 0)
      else if c \<ge> 48 then St 181
      else St 0),
    State 181 (\<lambda>c. if c = 32 then Tr 4
      else if c > 57 then (if 65 \<le> c \<and> c \<le> 90 then St 182
        else St 0)
      else if c \<ge> 48 then St 182
      else St 0),
    State 182 (\<lambda>c. if c = 32 then Tr 4
      else if c > 57 then (if 65 \<le> c \<and> c \<le> 90 then St 183
        else St 0)
      else if c \<ge> 48 then St 183
      else St 0)]"

definition http_code_25 :: "bool \<Rightarrow> http_action block list" where
  "http_code_25 relaxed = [
    State 183 (\<lambda>c. if c = 32 then Tr 4
      else if c > 57 then (if 65 \<le> c \<and> c \<le> 90 then St 184
        else St 0)
      else if c \<ge> 48 then St 184
      else St 0),
    State 184 (\<lambda>c. if c = 32 then Tr 4
      else if c > 57 then (if 65 \<le> c \<and> c \<le> 90 then St 185
        else St 0)
      else if c \<ge> 48 then St 185
      else St 0),
    State 185 (\<lambda>c. if c = 32 then Tr 4
      else if c > 57 then (if 65 \<le> c \<and> c \<le> 90 then St 186
        else St 0)
      else if c \<ge> 48 then St 186
      else St 0),
    State 186 (\<lambda>c. if c = 32 then Tr 4
      else if c > 57 then (if 65 \<le> c \<and> c \<le> 90 then St 187
        else St 0)
      else if c \<ge> 48 then St 187
      else St 0),
    State 187 (\<lambda>c. if c = 32 then Tr 4
      else if c > 57 then (if 65 \<le> c \<and> c \<le> 90 then St 188
        else St 0)
      else if c \<ge> 48 then St 188
      else St 0),
    State 188 (\<lambda>c. if c = 32 then Tr 4
      else if c > 57 then (if 65 \<le> c \<and> c \<le> 90 then St 189
        else St 0)
      else if c \<ge> 48 then St 189
      else St 0),
    State 189 (\<lambda>c. if c = 32 then Tr 4
      else if c > 57 then (if 65 \<le> c \<and> c \<le> 90 then St 190
        else St 0)
      else if c \<ge> 48 then St 190
      else St 0),
    State 190 (\<lambda>c. if c = 32 then Tr 4
      else if c > 57 then (if 65 \<le> c \<and> c \<le> 90 then St 191
        else St 0)
      else if c \<ge> 48 then St 191
      else St 0),
    State 191 (\<lambda>c. if c = 32 then Tr 4
      else if c > 57 then (if 65 \<le> c \<and> c \<le> 90 then St 192
        else St 0)
      else if c \<ge> 48 then St 192
      else St 0),
    State 192 (\<lambda>c. if c = 32 then Tr 4
      else if c > 57 then (if 65 \<le> c \<and> c \<le> 90 then St 193
        else St 0)
      else if c \<ge> 48 then St 193
      else St 0),
    State 193 (\<lambda>c. if c = 32 then Tr 4
      else St 0),
    Trans 2 [H_Mark] 194,
    State 194 (\<lambda>c. if c < 48 then (if 45 \<le> c \<and> c \<le> 46 then St 195
        else St 0)
      else if c > 57 then (if c > 90 then (if 97 \<le> c \<and> c \<le> 122 then St 195
          else St 0)
        else if c \<ge> 65 then St 195
        else St 0)
      else St 195)]"

definition http_code_26 :: "bool \<Rightarrow> http_action block list" where
  "http_code_26 relaxed = [
    State 195 (\<lambda>c. switch c [(32, Tr 224), (47, Tr 224), (62, Tr 224)]
        (if c < 45 then (if 9 \<le> c \<and> c \<le> 13 then Tr 224
           else St 0)
         else if c > 57 then (if c > 90 then (if 97 \<le> c \<and> c \<le> 122 then St 195
             else St 0)
           else if c \<ge> 65 then St 195
           else St 0)
         else St 195)),
    Trans 224 [H_Request_path] 196,
    State 196 (\<lambda>c. if c = 62 then St 197
      else St 196),
    State 197 (\<lambda>c. switch c [(0, Tr 227), (62, St 197)]
        (St 196)),
    Trans 227 [H_Xml, H_Done] 349,
    Trans 235 [H_Json, H_Done] 349,
    State 349 (\<lambda>c. St 0),
    Trans 3 [H_Mark] 198,
    State 198 (\<lambda>c. let w = widec relaxed c in switch w [(32, Tr 228), (33, St 202), (37, St 203), (47, St 208), (59, St 202), (61, St 202), (95, St 202), (126, St 202), (606, St 202), (635, St 202), (637, St 202)]
        (if w < 64 then (if 36 \<le> w \<and> w \<le> 57 then St 202
           else St 0)
         else if w > 90 then (if 97 \<le> w \<and> w \<le> 122 then St 202
           else St 0)
         else St 202)),
    Trans 228 [H_Request_path] 199]"

definition http_code_27 :: "bool \<Rightarrow> http_action block list" where
  "http_code_27 relaxed = [
    State 199 (\<lambda>c. if c = 123 then Tr 232
      else St 0),
    Trans 232 [H_Mark] 200,
    State 200 (\<lambda>c. if c = 125 then St 201
      else St 200),
    State 201 (\<lambda>c. switch c [(0, Tr 235), (125, St 201)]
        (St 200)),
    State 202 (\<lambda>c. let w = widec relaxed c in switch w [(32, Tr 228), (33, St 202), (37, St 203), (47, St 205), (59, St 202), (61, St 202), (95, St 202), (126, St 202), (606, St 202), (635, St 202), (637, St 202)]
        (if w < 64 then (if 36 \<le> w \<and> w \<le> 57 then St 202
           else St 0)
         else if w > 90 then (if 97 \<le> w \<and> w \<le> 122 then St 202
           else St 0)
         else St 202)),
    State 203 (\<lambda>c. if c < 65 then (if 48 \<le> c \<and> c \<le> 57 then St 204
        else St 0)
      else if c > 70 then (if 97 \<le> c \<and> c \<le> 102 then St 204
        else St 0)
      else St 204),
    State 204 (\<lambda>c. if c < 65 then (if 48 \<le> c \<and> c \<le> 57 then St 202
        else St 0)
      else if c > 70 then (if 97 \<le> c \<and> c \<le> 102 then St 202
        else St 0)
      else St 202),
    State 205 (\<lambda>c. let w = widec relaxed c in switch w [(32, Tr 228), (33, St 205), (37, St 206), (61, St 205), (95, St 205), (126, St 205), (606, St 205), (635, St 205), (637, St 205)]
        (if w < 64 then (if 36 \<le> w \<and> w \<le> 59 then St 205
           else St 0)
         else if w > 90 then (if 97 \<le> w \<and> w \<le> 122 then St 205
           else St 0)
         else St 205))]"

definition http_code_28 :: "bool \<Rightarrow> http_action block list" where
  "http_code_28 relaxed = [
    State 206 (\<lambda>c. if c < 65 then (if 48 \<le> c \<and> c \<le> 57 then St 207
        else St 0)
      else if c > 70 then (if 97 \<le> c \<and> c \<le> 102 then St 207
        else St 0)
      else St 207),
    State 207 (\<lambda>c. if c < 65 then (if 48 \<le> c \<and> c \<le> 57 then St 205
        else St 0)
      else if c > 70 then (if 97 \<le> c \<and> c \<le> 102 then St 205
        else St 0)
      else St 205),
    State 208 (\<lambda>c. let w = widec relaxed c in switch w [(32, Tr 228), (33, St 205), (37, St 206), (47, St 209), (61, St 205), (95, St 205), (126, St 205), (606, St 205), (635, St 205), (637, St 205)]
        (if w < 64 then (if 36 \<le> w \<and> w \<le> 59 then St 205
           else St 0)
         else if w > 90 then (if 97 \<le> w \<and> w \<le> 122 then St 205
           else St 0)
         else St 205)),
    State 209 (\<lambda>c. let w = widec relaxed c in switch w [(32, Tr 228), (33, St 210), (37, St 211), (47, St 205), (58, St 213), (61, St 210), (64, St 217), (91, St 222), (95, St 210), (126, St 210), (606, St 210), (635, St 210), (637, St 210)]
        (if w < 65 then (if 36 \<le> w \<and> w \<le> 59 then St 210
           else St 0)
         else if w > 90 then (if 97 \<le> w \<and> w \<le> 122 then St 210
           else St 0)
         else St 210))]"

definition http_code_29 :: "bool \<Rightarrow> http_action block list" where
  "http_code_29 relaxed = [
    State 210 (\<lambda>c. let w = widec relaxed c in switch w [(32, Tr 228), (33, St 210), (37, St 211), (47, St 205), (58, St 213), (61, St 210), (64, St 217), (95, St 210), (126, St 210), (606, St 210), (635, St 210), (637, St 210)]
        (if w < 65 then (if 36 \<le> w \<and> w \<le> 59 then St 210
           else St 0)
         else if w > 90 then (if 97 \<le> w \<and> w \<le> 122 then St 210
           else St 0)
         else St 210)),
    State 211 (\<lambda>c. if c < 65 then (if 48 \<le> c \<and> c \<le> 57 then St 212
        else St 0)
      else if c > 70 then (if 97 \<le> c \<and> c \<le> 102 then St 212
        else St 0)
      else St 212),
    State 212 (\<lambda>c. if c < 65 then (if 48 \<le> c \<and> c \<le> 57 then St 210
        else St 0)
      else if c > 70 then (if 97 \<le> c \<and> c \<le> 102 then St 210
        else St 0)
      else St 210),
    State 213 (\<lambda>c. let w = widec relaxed c in switch w [(32, Tr 228), (33, St 214), (37, St 215), (47, St 205), (61, St 214), (64, St 217), (95, St 214), (126, St 214), (606, St 214), (635, St 214), (637, St 214)]
        (if w < 58 then (if w > 46 then (if 48 \<le> w \<and> w \<le> 57 then St 213
             else St 0)
           else if w \<ge> 36 then St 214
           else St 0)
         else if w > 59 then (if w > 90 then (if 97 \<le> w \<and> w \<le> 122 then St 214
             else St 0)
           else if w \<ge> 65 then St 214
           else St 0)
         else St 214))]"

definition http_code_30 :: "bool \<Rightarrow> http_action block list" where
  "http_code_30 relaxed = [
    State 214 (\<lambda>c. let w = widec relaxed c in switch w [(33, St 214), (37, St 215), (61, St 214), (64, St 217), (95, St 214), (126, St 214), (606, St 214), (635, St 214), (637, St 214)]
        (if w < 48 then (if 36 \<le> w \<and> w \<le> 46 then St 214
           else St 0)
         else if w > 59 then (if w > 90 then (if 97 \<le> w \<and> w \<le> 122 then St 214
             else St 0)
           else if w \<ge> 65 then St 214
           else St 0)
         else St 214)),
    State 215 (\<lambda>c. if c < 65 then (if 48 \<le> c \<and> c \<le> 57 then St 216
        else St 0)
      else if c > 70 then (if 97 \<le> c \<and> c \<le> 102 then St 216
        else St 0)
      else St 216),
    State 216 (\<lambda>c. if c < 65 then (if 48 \<le> c \<and> c \<le> 57 then St 214
        else St 0)
      else if c > 70 then (if 97 \<le> c \<and> c \<le> 102 then St 214
        else St 0)
      else St 214),
    State 217 (\<lambda>c. let w = widec relaxed c in switch w [(32, Tr 228), (33, St 218), (37, St 219), (47, St 205), (58, St 221), (61, St 218), (91, St 222), (95, St 218), (126, St 218), (606, St 218), (635, St 218), (637, St 218)]
        (if w < 65 then (if 36 \<le> w \<and> w \<le> 59 then St 218
           else St 0)
         else if w > 90 then (if 97 \<le> w \<and> w \<le> 122 then St 218
           else St 0)
         else St 218))]"

definition http_code_31 :: "bool \<Rightarrow> http_action block list" where
  "http_code_31 relaxed = [
    State 218 (\<lambda>c. let w = widec relaxed c in switch w [(32, Tr 228), (33, St 218), (37, St 219), (47, St 205), (58, St 221), (61, St 218), (95, St 218), (126, St 218), (606, St 218), (635, St 218), (637, St 218)]
        (if w < 65 then (if 36 \<le> w \<and> w \<le> 59 then St 218
           else St 0)
         else if w > 90 then (if 97 \<le> w \<and> w \<le> 122 then St 218
           else St 0)
         else St 218)),
    State 219 (\<lambda>c. if c < 65 then (if 48 \<le> c \<and> c \<le> 57 then St 220
        else St 0)
      else if c > 70 then (if 97 \<le> c \<and> c \<le> 102 then St 220
        else St 0)
      else St 220),
    State 220 (\<lambda>c. if c < 65 then (if 48 \<le> c \<and> c \<le> 57 then St 218
        else St 0)
      else if c > 70 then (if 97 \<le> c \<and> c \<le> 102 then St 218
        else St 0)
      else St 218),
    State 221 (\<lambda>c. switch c [(32, Tr 228), (47, St 205)]
        (if 48 \<le> c \<and> c \<le> 57 then St 221
         else St 0)),
    State 222 (\<lambda>c. switch c [(6, St 223), (58, St 342), (118, St 344)]
        (if c < 65 then (if 48 \<le> c \<and> c \<le> 57 then St 266
           else St 0)
         else if c > 70 then (if 97 \<le> c \<and> c \<le> 102 then St 266
           else St 0)
         else St 266)),
    State 223 (\<lambda>c. if c < 65 then (if 48 \<le> c \<and> c \<le> 57 then St 224
        else St 0)
      else if c > 70 then (if 97 \<le> c \<and> c \<le> 102 then St 224
        else St 0)
      else St 224),
    State 224 (\<lambda>c. if c = 58 then St 228
      else if c < 65 then (if 48 \<le> c \<and> c \<le> 57 then St 225
        else St 0)
      else if c > 70 then (if 97 \<le> c \<and> c \<le> 102 then St 225
        else St 0)
      else St 225),
    State 225 (\<lambda>c. if c = 58 then St 228
      else if c < 65 then (if 48 \<le> c \<and> c \<le> 57 then St 226
        else St 0)
      else if c > 70 then (if 97 \<le> c \<and> c \<le> 102 then St 226
        else St 0)
      else St 226)]"

definition http_code_32 :: "bool \<Rightarrow> http_action block list" where
  "http_code_32 relaxed = [
    State 226 (\<lambda>c. if c = 58 then St 228
      else if c < 65 then (if 48 \<le> c \<and> c \<le> 57 then St 227
        else St 0)
      else if c > 70 then (if 97 \<le> c \<and> c \<le> 102 then St 227
        else St 0)
      else St 227),
    State 227 (\<lambda>c. if c = 58 then St 228
      else St 0),
    State 228 (\<lambda>c. switch c [(49, St 259), (50, St 262)]
        (if c < 65 then (if 48 \<le> c \<and> c \<le> 57 then St 229
           else St 0)
         else if c > 70 then (if 97 \<le> c \<and> c \<le> 102 then St 265
           else St 0)
         else St 265)),
    State 229 (\<lambda>c. switch c [(46, St 230), (58, St 255)]
        (if c < 65 then (if 48 \<le> c \<and> c \<le> 57 then St 252
           else St 0)
         else if c > 70 then (if 97 \<le> c \<and> c \<le> 102 then St 252
           else St 0)
         else St 252)),
    State 230 (\<lambda>c. switch c [(49, St 247), (50, St 249)]
        (if 48 \<le> c \<and> c \<le> 57 then St 231
         else St 0)),
    State 231 (\<lambda>c. if c = 46 then St 232
      else St 0),
    State 232 (\<lambda>c. switch c [(49, St 242), (50, St 244)]
        (if 48 \<le> c \<and> c \<le> 57 then St 233
         else St 0)),
    State 233 (\<lambda>c. if c = 46 then St 234
      else St 0),
    State 234 (\<lambda>c. switch c [(49, St 237), (50, St 239)]
        (if 48 \<le> c \<and> c \<le> 57 then St 235
         else St 0)),
    State 235 (\<lambda>c. if c = 93 then St 236
      else St 0),
    State 236 (\<lambda>c. switch c [(32, Tr 228), (47, St 205), (58, St 221)]
        (St 0)),
    State 237 (\<lambda>c. if c = 93 then St 236
      else if 48 \<le> c \<and> c \<le> 57 then St 238
      else St 0),
    State 238 (\<lambda>c. if c = 93 then St 236
      else if 48 \<le> c \<and> c \<le> 57 then St 235
      else St 0),
    State 239 (\<lambda>c. switch c [(48, St 240), (53, St 241), (93, St 236)]
        (St 0))]"

definition http_code_33 :: "bool \<Rightarrow> http_action block list" where
  "http_code_33 relaxed = [
    State 240 (\<lambda>c. if 48 \<le> c \<and> c \<le> 57 then St 235
      else St 0),
    State 241 (\<lambda>c. if c = 48 then St 235
      else St 0),
    State 242 (\<lambda>c. if c = 46 then St 234
      else if 48 \<le> c \<and> c \<le> 57 then St 243
      else St 0),
    State 243 (\<lambda>c. if c = 46 then St 234
      else if 48 \<le> c \<and> c \<le> 57 then St 233
      else St 0),
    State 244 (\<lambda>c. switch c [(46, St 234), (48, St 245), (53, St 246)]
        (St 0)),
    State 245 (\<lambda>c. if 48 \<le> c \<and> c \<le> 57 then St 233
      else St 0),
    State 246 (\<lambda>c. if c = 48 then St 233
      else St 0),
    State 247 (\<lambda>c. if c = 46 then St 232
      else if 48 \<le> c \<and> c \<le> 57 then St 248
      else St 0),
    State 248 (\<lambda>c. if c = 46 then St 232
      else if 48 \<le> c \<and> c \<le> 57 then St 231
      else St 0),
    State 249 (\<lambda>c. switch c [(46, St 232), (48, St 250), (53, St 251)]
        (St 0)),
    State 250 (\<lambda>c. if 48 \<le> c \<and> c \<le> 57 then St 231
      else St 0),
    State 251 (\<lambda>c. if c = 48 then St 231
      else St 0),
    State 252 (\<lambda>c. if c = 58 then St 255
      else if c < 65 then (if 48 \<le> c \<and> c \<le> 57 then St 253
        else St 0)
      else if c > 70 then (if 97 \<le> c \<and> c \<le> 102 then St 253
        else St 0)
      else St 253),
    State 253 (\<lambda>c. if c = 58 then St 255
      else if c < 65 then (if 48 \<le> c \<and> c \<le> 57 then St 254
        else St 0)
      else if c > 70 then (if 97 \<le> c \<and> c \<le> 102 then St 254
        else St 0)
      else St 254),
    State 254 (\<lambda>c. if c = 58 then St 255
      else St 0),
    State 255 (\<lambda>c. if c < 65 then (if 48 \<le> c \<and> c \<le> 57 then St 256
        else St 0)
      else if c > 70 then (if 97 \<le> c \<and> c \<le> 102 then St 256
        else St 0)
      else St 256)]"

definition http_code_34 :: "bool \<Rightarrow> http_action block list" where
  "http_code_34 relaxed = [
    State 256 (\<lambda>c. if c = 93 then St 236
      else if c < 65 then (if 48 \<le> c \<and> c \<le> 57 then St 257
        else St 0)
      else if c > 70 then (if 97 \<le> c \<and> c \<le> 102 then St 257
        else St 0)
      else St 257),
    State 257 (\<lambda>c. if c = 93 then St 236
      else if c < 65 then (if 48 \<le> c \<and> c \<le> 57 then St 258
        else St 0)
      else if c > 70 then (if 97 \<le> c \<and> c \<le> 102 then St 258
        else St 0)
      else St 258),
    State 258 (\<lambda>c. if c = 93 then St 236
      else if c < 65 then (if 48 \<le> c \<and> c \<le> 57 then St 235
        else St 0)
      else if c > 70 then (if 97 \<le> c \<and> c \<le> 102 then St 235
        else St 0)
      else St 235),
    State 259 (\<lambda>c. switch c [(46, St 230), (58, St 255)]
        (if c < 65 then (if 48 \<le> c \<and> c \<le> 57 then St 260
           else St 0)
         else if c > 70 then (if 97 \<le> c \<and> c \<le> 102 then St 252
           else St 0)
         else St 252)),
    State 260 (\<lambda>c. switch c [(46, St 230), (58, St 255)]
        (if c < 65 then (if 48 \<le> c \<and> c \<le> 57 then St 261
           else St 0)
         else if c > 70 then (if 97 \<le> c \<and> c \<le> 102 then St 253
           else St 0)
         else St 253)),
    State 261 (\<lambda>c. switch c [(46, St 230), (58, St 255)]
        (if c < 65 then (if 48 \<le> c \<and> c \<le> 57 then St 254
           else St 0)
         else if c > 70 then (if 97 \<le> c \<and> c \<le> 102 then St 254
           else St 0)
         else St 254)),
    State 262 (\<lambda>c. switch c [(46, St 230), (48, St 263), (53, St 264), (58, St 255)]
        (if c < 65 then (if 49 \<le> c \<and> c \<le> 57 then St 252
           else St 0)
         else if c > 70 then (if 97 \<le> c \<and> c \<le> 102 then St 252
           else St 0)
         else St 252)),
    State 263 (\<lambda>c. if c = 58 then St 255
      else if c < 65 then (if 48 \<le> c \<and> c \<le> 57 then St 261
        else St 0)
      else if c > 70 then (if 97 \<le> c \<and> c \<le> 102 then St 253
        else St 0)
      else St 253),
    State 264 (\<lambda>c. switch c [(48, St 261), (58, St 255)]
        (if c < 65 then (if 49 \<le> c \<and> c \<le> 57 then St 253
           else St 0)
         else if c > 70 then (if 97 \<le> c \<and> c \<le> 102 then St 253
           else St 0)
         else St 253))]"

definition http_code_35 :: "bool \<Rightarrow> http_action block list" where
  "http_code_35 relaxed = [
    State 265 (\<lambda>c. if c = 58 then St 255
      else if c < 65 then (if 48 \<le> c \<and> c \<le> 57 then St 252
        else St 0)
      else if c > 70 then (if 97 \<le> c \<and> c \<le> 102 then St 252
        else St 0)
      else St 252),
    State 266 (\<lambda>c. if c = 58 then St 270
      else if c < 65 then (if 48 \<le> c \<and> c \<le> 57 then St 267
        else St 0)
      else if c > 70 then (if 97 \<le> c \<and> c \<le> 102 then St 267
        else St 0)
      else St 267),
    State 267 (\<lambda>c. if c = 58 then St 270
      else if c < 65 then (if 48 \<le> c \<and> c \<le> 57 then St 268
        else St 0)
      else if c > 70 then (if 97 \<le> c \<and> c \<le> 102 then St 268
        else St 0)
      else St 268),
    State 268 (\<lambda>c. if c = 58 then St 270
      else if c < 65 then (if 48 \<le> c \<and> c \<le> 57 then St 269
        else St 0)
      else if c > 70 then (if 97 \<le> c \<and> c \<le> 102 then St 269
        else St 0)
      else St 269),
    State 269 (\<lambda>c. if c = 58 then St 270
      else St 0),
    State 270 (\<lambda>c. if c = 58 then St 341
      else if c < 65 then (if 48 \<le> c \<and> c \<le> 57 then St 271
        else St 0)
      else if c > 70 then (if 97 \<le> c \<and> c \<le> 102 then St 271
        else St 0)
      else St 271),
    State 271 (\<lambda>c. if c = 58 then St 275
      else if c < 65 then (if 48 \<le> c \<and> c \<le> 57 then St 272
        else St 0)
      else if c > 70 then (if 97 \<le> c \<and> c \<le> 102 then St 272
        else St 0)
      else St 272),
    State 272 (\<lambda>c. if c = 58 then St 275
      else if c < 65 then (if 48 \<le> c \<and> c \<le> 57 then St 273
        else St 0)
      else if c > 70 then (if 97 \<le> c \<and> c \<le> 102 then St 273
        else St 0)
      else St 273),
    State 273 (\<lambda>c. if c = 58 then St 275
      else if c < 65 then (if 48 \<le> c \<and> c \<le> 57 then St 274
        else St 0)
      else if c > 70 then (if 97 \<le> c \<and> c \<le> 102 then St 274
        else St 0)
      else St 274),
    State 274 (\<lambda>c. if c = 58 then St 275
      else St 0),
    State 275 (\<lambda>c. if c = 58 then St 340
      else if c < 65 then (if 48 \<le> c \<and> c \<le> 57 then St 276
        else St 0)
      else if c > 70 then (if 97 \<le> c \<and> c \<le> 102 then St 276
        else St 0)
      else St 276)]"

definition http_code_36 :: "bool \<Rightarrow> http_action block list" where
  "http_code_36 relaxed = [
    State 276 (\<lambda>c. if c = 58 then St 280
      else if c < 65 then (if 48 \<le> c \<and> c \<le> 57 then St 277
        else St 0)
      else if c > 70 then (if 97 \<le> c \<and> c \<le> 102 then St 277
        else St 0)
      else St 277),
    State 277 (\<lambda>c. if c = 58 then St 280
      else if c < 65 then (if 48 \<le> c \<and> c \<le> 57 then St 278
        else St 0)
      else if c > 70 then (if 97 \<le> c \<and> c \<le> 102 then St 278
        else St 0)
      else St 278),
    State 278 (\<lambda>c. if c = 58 then St 280
      else if c < 65 then (if 48 \<le> c \<and> c \<le> 57 then St 279
        else St 0)
      else if c > 70 then (if 97 \<le> c \<and> c \<le> 102 then St 279
        else St 0)
      else St 279),
    State 279 (\<lambda>c. if c = 58 then St 280
      else St 0),
    State 280 (\<lambda>c. if c = 58 then St 339
      else if c < 65 then (if 48 \<le> c \<and> c \<le> 57 then St 281
        else St 0)
      else if c > 70 then (if 97 \<le> c \<and> c \<le> 102 then St 281
        else St 0)
      else St 281),
    State 281 (\<lambda>c. if c = 58 then St 285
      else if c < 65 then (if 48 \<le> c \<and> c \<le> 57 then St 282
        else St 0)
      else if c > 70 then (if 97 \<le> c \<and> c \<le> 102 then St 282
        else St 0)
      else St 282),
    State 282 (\<lambda>c. if c = 58 then St 285
      else if c < 65 then (if 48 \<le> c \<and> c \<le> 57 then St 283
        else St 0)
      else if c > 70 then (if 97 \<le> c \<and> c \<le> 102 then St 283
        else St 0)
      else St 283),
    State 283 (\<lambda>c. if c = 58 then St 285
      else if c < 65 then (if 48 \<le> c \<and> c \<le> 57 then St 284
        else St 0)
      else if c > 70 then (if 97 \<le> c \<and> c \<le> 102 then St 284
        else St 0)
      else St 284),
    State 284 (\<lambda>c. if c = 58 then St 285
      else St 0),
    State 285 (\<lambda>c. if c = 58 then St 338
      else if c < 65 then (if 48 \<le> c \<and> c \<le> 57 then St 286
        else St 0)
      else if c > 70 then (if 97 \<le> c \<and> c \<le> 102 then St 286
        else St 0)
      else St 286),
    State 286 (\<lambda>c. if c = 58 then St 290
      else if c < 65 then (if 48 \<le> c \<and> c \<le> 57 then St 287
        else St 0)
      else if c > 70 then (if 97 \<le> c \<and> c \<le> 102 then St 287
        else St 0)
      else St 287)]"

definition http_code_37 :: "bool \<Rightarrow> http_action block list" where
  "http_code_37 relaxed = [
    State 287 (\<lambda>c. if c = 58 then St 290
      else if c < 65 then (if 48 \<le> c \<and> c \<le> 57 then St 288
        else St 0)
      else if c > 70 then (if 97 \<le> c \<and> c \<le> 102 then St 288
        else St 0)
      else St 288),
    State 288 (\<lambda>c. if c = 58 then St 290
      else if c < 65 then (if 48 \<le> c \<and> c \<le> 57 then St 289
        else St 0)
      else if c > 70 then (if 97 \<le> c \<and> c \<le> 102 then St 289
        else St 0)
      else St 289),
    State 289 (\<lambda>c. if c = 58 then St 290
      else St 0),
    State 290 (\<lambda>c. if c = 58 then St 326
      else if c < 65 then (if 48 \<le> c \<and> c \<le> 57 then St 291
        else St 0)
      else if c > 70 then (if 97 \<le> c \<and> c \<le> 102 then St 291
        else St 0)
      else St 291),
    State 291 (\<lambda>c. if c = 58 then St 295
      else if c < 65 then (if 48 \<le> c \<and> c \<le> 57 then St 292
        else St 0)
      else if c > 70 then (if 97 \<le> c \<and> c \<le> 102 then St 292
        else St 0)
      else St 292),
    State 292 (\<lambda>c. if c = 58 then St 295
      else if c < 65 then (if 48 \<le> c \<and> c \<le> 57 then St 293
        else St 0)
      else if c > 70 then (if 97 \<le> c \<and> c \<le> 102 then St 293
        else St 0)
      else St 293),
    State 293 (\<lambda>c. if c = 58 then St 295
      else if c < 65 then (if 48 \<le> c \<and> c \<le> 57 then St 294
        else St 0)
      else if c > 70 then (if 97 \<le> c \<and> c \<le> 102 then St 294
        else St 0)
      else St 294),
    State 294 (\<lambda>c. if c = 58 then St 295
      else St 0),
    State 295 (\<lambda>c. if c = 58 then St 325
      else if c < 65 then (if 48 \<le> c \<and> c \<le> 57 then St 296
        else St 0)
      else if c > 70 then (if 97 \<le> c \<and> c \<le> 102 then St 296
        else St 0)
      else St 296),
    State 296 (\<lambda>c. if c = 58 then St 300
      else if c < 65 then (if 48 \<le> c \<and> c \<le> 57 then St 297
        else St 0)
      else if c > 70 then (if 97 \<le> c \<and> c \<le> 102 then St 297
        else St 0)
      else St 297),
    State 297 (\<lambda>c. if c = 58 then St 300
      else if c < 65 then (if 48 \<le> c \<and> c \<le> 57 then St 298
        else St 0)
      else if c > 70 then (if 97 \<le> c \<and> c \<le> 102 then St 298
        else St 0)
      else St 298)]"

definition http_code_38 :: "bool \<Rightarrow> http_action block list" where
  "http_code_38 relaxed = [
    State 298 (\<lambda>c. if c = 58 then St 300
      else if c < 65 then (if 48 \<le> c \<and> c \<le> 57 then St 299
        else St 0)
      else if c > 70 then (if 97 \<le> c \<and> c \<le> 102 then St 299
        else St 0)
      else St 299),
    State 299 (\<lambda>c. if c = 58 then St 300
      else St 0),
    State 300 (\<lambda>c. if c = 58 then St 301
      else if c < 65 then (if 48 \<le> c \<and> c \<le> 57 then St 296
        else St 0)
      else if c > 70 then (if 97 \<le> c \<and> c \<le> 102 then St 296
        else St 0)
      else St 296),
    State 301 (\<lambda>c. switch c [(49, St 318), (50, St 321), (93, St 236)]
        (if c < 48 then (if 2 \<le> c \<and> c \<le> 3 then St 223
           else St 0)
         else if c > 57 then (if c > 70 then (if 97 \<le> c \<and> c \<le> 102 then St 324
             else St 0)
           else if c \<ge> 65 then St 324
           else St 0)
         else St 302)),
    State 302 (\<lambda>c. switch c [(46, St 230), (58, St 306), (93, St 236)]
        (if c < 65 then (if 48 \<le> c \<and> c \<le> 57 then St 303
           else St 0)
         else if c > 70 then (if 97 \<le> c \<and> c \<le> 102 then St 303
           else St 0)
         else St 303)),
    State 303 (\<lambda>c. switch c [(58, St 306), (93, St 236)]
        (if c < 65 then (if 48 \<le> c \<and> c \<le> 57 then St 304
           else St 0)
         else if c > 70 then (if 97 \<le> c \<and> c \<le> 102 then St 304
           else St 0)
         else St 304)),
    State 304 (\<lambda>c. switch c [(58, St 306), (93, St 236)]
        (if c < 65 then (if 48 \<le> c \<and> c \<le> 57 then St 305
           else St 0)
         else if c > 70 then (if 97 \<le> c \<and> c \<le> 102 then St 305
           else St 0)
         else St 305)),
    State 305 (\<lambda>c. switch c [(58, St 306), (93, St 236)]
        (St 0)),
    State 306 (\<lambda>c. switch c [(49, St 311), (50, St 314)]
        (if c < 65 then (if 48 \<le> c \<and> c \<le> 57 then St 307
           else St 0)
         else if c > 70 then (if 97 \<le> c \<and> c \<le> 102 then St 317
           else St 0)
         else St 317))]"

definition http_code_39 :: "bool \<Rightarrow> http_action block list" where
  "http_code_39 relaxed = [
    State 307 (\<lambda>c. switch c [(46, St 230), (58, St 255), (93, St 236)]
        (if c < 65 then (if 48 \<le> c \<and> c \<le> 57 then St 308
           else St 0)
         else if c > 70 then (if 97 \<le> c \<and> c \<le> 102 then St 308
           else St 0)
         else St 308)),
    State 308 (\<lambda>c. switch c [(58, St 255), (93, St 236)]
        (if c < 65 then (if 48 \<le> c \<and> c \<le> 57 then St 309
           else St 0)
         else if c > 70 then (if 97 \<le> c \<and> c \<le> 102 then St 309
           else St 0)
         else St 309)),
    State 309 (\<lambda>c. switch c [(58, St 255), (93, St 236)]
        (if c < 65 then (if 48 \<le> c \<and> c \<le> 57 then St 310
           else St 0)
         else if c > 70 then (if 97 \<le> c \<and> c \<le> 102 then St 310
           else St 0)
         else St 310)),
    State 310 (\<lambda>c. switch c [(58, St 255), (93, St 236)]
        (St 0)),
    State 311 (\<lambda>c. switch c [(46, St 230), (58, St 255), (93, St 236)]
        (if c < 65 then (if 48 \<le> c \<and> c \<le> 57 then St 312
           else St 0)
         else if c > 70 then (if 97 \<le> c \<and> c \<le> 102 then St 308
           else St 0)
         else St 308)),
    State 312 (\<lambda>c. switch c [(46, St 230), (58, St 255), (93, St 236)]
        (if c < 65 then (if 48 \<le> c \<and> c \<le> 57 then St 313
           else St 0)
         else if c > 70 then (if 97 \<le> c \<and> c \<le> 102 then St 309
           else St 0)
         else St 309)),
    State 313 (\<lambda>c. switch c [(46, St 230), (58, St 255), (93, St 236)]
        (if c < 65 then (if 48 \<le> c \<and> c \<le> 57 then St 310
           else St 0)
         else if c > 70 then (if 97 \<le> c \<and> c \<le> 102 then St 310
           else St 0)
         else St 310)),
    State 314 (\<lambda>c. switch c [(46, St 230), (48, St 315), (53, St 316), (58, St 255), (93, St 236)]
        (if c < 65 then (if 49 \<le> c \<and> c \<le> 57 then St 308
           else St 0)
         else if c > 70 then (if 97 \<le> c \<and> c \<le> 102 then St 308
           else St 0)
         else St 308)),
    State 315 (\<lambda>c. switch c [(58, St 255), (93, St 236)]
        (if c < 65 then (if 48 \<le> c \<and> c \<le> 57 then St 313
           else St 0)
         else if c > 70 then (if 97 \<le> c \<and> c \<le> 102 then St 309
           else St 0)
         else St 309))]"

definition http_code_40 :: "bool \<Rightarrow> http_action block list" where
  "http_code_40 relaxed = [
    State 316 (\<lambda>c. switch c [(48, St 313), (58, St 255), (93, St 236)]
        (if c < 65 then (if 49 \<le> c \<and> c \<le> 57 then St 309
           else St 0)
         else if c > 70 then (if 97 \<le> c \<and> c \<le> 102 then St 309
           else St 0)
         else St 309)),
    State 317 (\<lambda>c. switch c [(58, St 255), (93, St 236)]
        (if c < 65 then (if 48 \<le> c \<and> c \<le> 57 then St 308
           else St 0)
         else if c > 70 then (if 97 \<le> c \<and> c \<le> 102 then St 308
           else St 0)
         else St 308)),
    State 318 (\<lambda>c. switch c [(46, St 230), (58, St 306), (93, St 236)]
        (if c < 65 then (if 48 \<le> c \<and> c \<le> 57 then St 319
           else St 0)
         else if c > 70 then (if 97 \<le> c \<and> c \<le> 102 then St 303
           else St 0)
         else St 303)),
    State 319 (\<lambda>c. switch c [(46, St 230), (58, St 306), (93, St 236)]
        (if c < 65 then (if 48 \<le> c \<and> c \<le> 57 then St 320
           else St 0)
         else if c > 70 then (if 97 \<le> c \<and> c \<le> 102 then St 304
           else St 0)
         else St 304)),
    State 320 (\<lambda>c. switch c [(46, St 230), (58, St 306), (93, St 236)]
        (if c < 65 then (if 48 \<le> c \<and> c \<le> 57 then St 305
           else St 0)
         else if c > 70 then (if 97 \<le> c \<and> c \<le> 102 then St 305
           else St 0)
         else St 305)),
    State 321 (\<lambda>c. switch c [(46, St 230), (48, St 322), (53, St 323), (58, St 306), (93, St 236)]
        (if c < 65 then (if 49 \<le> c \<and> c \<le> 57 then St 303
           else St 0)
         else if c > 70 then (if 97 \<le> c \<and> c \<le> 102 then St 303
           else St 0)
         else St 303)),
    State 322 (\<lambda>c. switch c [(58, St 306), (93, St 236)]
        (if c < 65 then (if 48 \<le> c \<and> c \<le> 57 then St 320
           else St 0)
         else if c > 70 then (if 97 \<le> c \<and> c \<le> 102 then St 304
           else St 0)
         else St 304)),
    State 323 (\<lambda>c. switch c [(48, St 320), (58, St 306), (93, St 236)]
        (if c < 65 then (if 49 \<le> c \<and> c \<le> 57 then St 304
           else St 0)
         else if c > 70 then (if 97 \<le> c \<and> c \<le> 102 then St 304
           else St 0)
         else St 304))]"

definition http_code_41 :: "bool \<Rightarrow> http_action block list" where
  "http_code_41 relaxed = [
    State 324 (\<lambda>c. switch c [(58, St 306), (93, St 236)]
        (if c < 65 then (if 48 \<le> c \<and> c \<le> 57 then St 303
           else St 0)
         else if c > 70 then (if 97 \<le> c \<and> c \<le> 102 then St 303
           else St 0)
         else St 303)),
    State 325 (\<lambda>c. switch c [(49, St 318), (50, St 321)]
        (if c < 48 then (if 2 \<le> c \<and> c \<le> 3 then St 223
           else St 0)
         else if c > 57 then (if c > 70 then (if 97 \<le> c \<and> c \<le> 102 then St 324
             else St 0)
           else if c \<ge> 65 then St 324
           else St 0)
         else St 302)),
    State 326 (\<lambda>c. switch c [(49, St 331), (50, St 334)]
        (if c < 48 then (if 2 \<le> c \<and> c \<le> 3 then St 223
           else St 0)
         else if c > 57 then (if c > 70 then (if 97 \<le> c \<and> c \<le> 102 then St 337
             else St 0)
           else if c \<ge> 65 then St 337
           else St 0)
         else St 327)),
    State 327 (\<lambda>c. switch c [(46, St 230), (58, St 306)]
        (if c < 65 then (if 48 \<le> c \<and> c \<le> 57 then St 328
           else St 0)
         else if c > 70 then (if 97 \<le> c \<and> c \<le> 102 then St 328
           else St 0)
         else St 328)),
    State 328 (\<lambda>c. if c = 58 then St 306
      else if c < 65 then (if 48 \<le> c \<and> c \<le> 57 then St 329
        else St 0)
      else if c > 70 then (if 97 \<le> c \<and> c \<le> 102 then St 329
        else St 0)
      else St 329),
    State 329 (\<lambda>c. if c = 58 then St 306
      else if c < 65 then (if 48 \<le> c \<and> c \<le> 57 then St 330
        else St 0)
      else if c > 70 then (if 97 \<le> c \<and> c \<le> 102 then St 330
        else St 0)
      else St 330),
    State 330 (\<lambda>c. if c = 58 then St 306
      else St 0),
    State 331 (\<lambda>c. switch c [(46, St 230), (58, St 306)]
        (if c < 65 then (if 48 \<le> c \<and> c \<le> 57 then St 332
           else St 0)
         else if c > 70 then (if 97 \<le> c \<and> c \<le> 102 then St 328
           else St 0)
         else St 328)),
    State 332 (\<lambda>c. switch c [(46, St 230), (58, St 306)]
        (if c < 65 then (if 48 \<le> c \<and> c \<le> 57 then St 333
           else St 0)
         else if c > 70 then (if 97 \<le> c \<and> c \<le> 102 then St 329
           else St 0)
         else St 329))]"

definition http_code_42 :: "bool \<Rightarrow> http_action block list" where
  "http_code_42 relaxed = [
    State 333 (\<lambda>c. switch c [(46, St 230), (58, St 306)]
        (if c < 65 then (if 48 \<le> c \<and> c \<le> 57 then St 330
           else St 0)
         else if c > 70 then (if 97 \<le> c \<and> c \<le> 102 then St 330
           else St 0)
         else St 330)),
    State 334 (\<lambda>c. switch c [(46, St 230), (48, St 335), (53, St 336), (58, St 306)]
        (if c < 65 then (if 49 \<le> c \<and> c \<le> 57 then St 328
           else St 0)
         else if c > 70 then (if 97 \<le> c \<and> c \<le> 102 then St 328
           else St 0)
         else St 328)),
    State 335 (\<lambda>c. if c = 58 then St 306
      else if c < 65 then (if 48 \<le> c \<and> c \<le> 57 then St 333
        else St 0)
      else if c > 70 then (if 97 \<le> c \<and> c \<le> 102 then St 329
        else St 0)
      else St 329),
    State 336 (\<lambda>c. switch c [(48, St 333), (58, St 306)]
        (if c < 65 then (if 49 \<le> c \<and> c \<le> 57 then St 329
           else St 0)
         else if c > 70 then (if 97 \<le> c \<and> c \<le> 102 then St 329
           else St 0)
         else St 329)),
    State 337 (\<lambda>c. if c = 58 then St 306
      else if c < 65 then (if 48 \<le> c \<and> c \<le> 57 then St 328
        else St 0)
      else if c > 70 then (if 97 \<le> c \<and> c \<le> 102 then St 328
        else St 0)
      else St 328),
    State 338 (\<lambda>c. if c < 48 then (if 2 \<le> c \<and> c \<le> 3 then St 223
        else St 0)
      else if c > 57 then (if c > 70 then (if 97 \<le> c \<and> c \<le> 102 then St 224
          else St 0)
        else if c \<ge> 65 then St 224
        else St 0)
      else St 224),
    State 339 (\<lambda>c. if 2 \<le> c \<and> c \<le> 3 then St 223
      else St 0),
    State 340 (\<lambda>c. if c = 3 then St 223
      else St 0),
    State 341 (\<lambda>c. if c = 4 then St 223
      else St 0),
    State 342 (\<lambda>c. if c = 58 then St 343
      else St 0),
    State 343 (\<lambda>c. switch c [(49, St 318), (50, St 321), (93, St 236)]
        (if c < 48 then (if 2 \<le> c \<and> c \<le> 5 then St 223
           else St 0)
         else if c > 57 then (if c > 70 then (if 97 \<le> c \<and> c \<le> 102 then St 324
             else St 0)
           else if c \<ge> 65 then St 324
           else St 0)
         else St 302))]"

definition http_code_43 :: "bool \<Rightarrow> http_action block list" where
  "http_code_43 relaxed = [
    State 344 (\<lambda>c. if c < 65 then (if 48 \<le> c \<and> c \<le> 57 then St 345
        else St 0)
      else if c > 70 then (if 97 \<le> c \<and> c \<le> 102 then St 345
        else St 0)
      else St 345),
    State 345 (\<lambda>c. if c = 46 then St 346
      else if c < 65 then (if 48 \<le> c \<and> c \<le> 57 then St 345
        else St 0)
      else if c > 70 then (if 97 \<le> c \<and> c \<le> 102 then St 345
        else St 0)
      else St 345),
    State 346 (\<lambda>c. let w = widec relaxed c in switch w [(33, St 347), (36, St 347), (61, St 347), (95, St 347), (126, St 347), (606, St 347), (635, St 347), (637, St 347)]
        (if w < 48 then (if 38 \<le> w \<and> w \<le> 46 then St 347
           else St 0)
         else if w > 59 then (if w > 90 then (if 97 \<le> w \<and> w \<le> 122 then St 347
             else St 0)
           else if w \<ge> 65 then St 347
           else St 0)
         else St 347)),
    State 347 (\<lambda>c. let w = widec relaxed c in switch w [(33, St 347), (36, St 347), (61, St 347), (93, St 236), (95, St 347), (126, St 347), (606, St 347), (635, St 347), (637, St 347)]
        (if w < 48 then (if 38 \<le> w \<and> w \<le> 46 then St 347
           else St 0)
         else if w > 59 then (if w > 90 then (if 97 \<le> w \<and> w \<le> 122 then St 347
             else St 0)
           else if w \<ge> 65 then St 347
           else St 0)
         else St 347))]"

definition http_code :: "bool \<Rightarrow> http_action block list" where
  "http_code relaxed =
     http_code_1 relaxed @ http_code_2 relaxed @ http_code_3 relaxed @ http_code_4 relaxed @ http_code_5 relaxed
     @ http_code_6 relaxed @ http_code_7 relaxed @ http_code_8 relaxed @ http_code_9 relaxed @
     http_code_10 relaxed @ http_code_11 relaxed @ http_code_12 relaxed @ http_code_13 relaxed @
     http_code_14 relaxed @ http_code_15 relaxed @ http_code_16 relaxed @ http_code_17 relaxed @
     http_code_18 relaxed @ http_code_19 relaxed @ http_code_20 relaxed @ http_code_21 relaxed @
     http_code_22 relaxed @ http_code_23 relaxed @ http_code_24 relaxed @ http_code_25 relaxed @
     http_code_26 relaxed @ http_code_27 relaxed @ http_code_28 relaxed @ http_code_29 relaxed @
     http_code_30 relaxed @ http_code_31 relaxed @ http_code_32 relaxed @ http_code_33 relaxed @
     http_code_34 relaxed @ http_code_35 relaxed @ http_code_36 relaxed @ http_code_37 relaxed @
     http_code_38 relaxed @ http_code_39 relaxed @ http_code_40 relaxed @ http_code_41 relaxed @
     http_code_42 relaxed @ http_code_43 relaxed"

text \<open>Which cases and transitions each part has.\<close>

lemmas http_code_defs =
  http_code_1_def http_code_2_def http_code_3_def http_code_4_def http_code_5_def http_code_6_def http_code_7_def
  http_code_8_def http_code_9_def http_code_10_def http_code_11_def http_code_12_def http_code_13_def http_code_14_def
  http_code_15_def http_code_16_def http_code_17_def http_code_18_def http_code_19_def http_code_20_def
  http_code_21_def http_code_22_def http_code_23_def http_code_24_def http_code_25_def http_code_26_def
  http_code_27_def http_code_28_def http_code_29_def http_code_30_def http_code_31_def http_code_32_def
  http_code_33_def http_code_34_def http_code_35_def http_code_36_def http_code_37_def http_code_38_def
  http_code_39_def http_code_40_def http_code_41_def http_code_42_def http_code_43_def

lemma http_code_states:
  "block_states (http_code_1 r) = [1, 2, 3]"
  "block_states (http_code_2 r) = [4, 5, 6, 7, 8, 9, 10, 11, 12, 13]"
  "block_states (http_code_3 r) = [14, 15, 16, 17]"
  "block_states (http_code_4 r) = [348, 18, 19]"
  "block_states (http_code_5 r) = [20, 21]"
  "block_states (http_code_6 r) = [22, 23, 24, 25, 26, 27, 28]"
  "block_states (http_code_7 r) = [29, 30, 31, 32]"
  "block_states (http_code_8 r) = [33, 34, 35]"
  "block_states (http_code_9 r) = [36, 37, 38, 39, 40]"
  "block_states (http_code_10 r) = [41, 42, 43, 44, 45, 46]"
  "block_states (http_code_11 r) = [47, 48, 49, 50, 51, 52, 53, 54, 55, 56, 57, 58]"
  "block_states (http_code_12 r) = [59, 60, 61, 62, 63, 64, 65, 66, 67, 68, 69, 70, 71, 72, 73, 74, 75]"
  "block_states (http_code_13 r) = [76, 77, 78, 79, 80, 81, 82, 83, 84, 85, 86]"
  "block_states (http_code_14 r) = [87, 88, 89, 90, 91, 92, 93, 94, 95, 96]"
  "block_states (http_code_15 r) = [97, 98, 99, 100, 101, 102, 103, 104, 105, 106, 107]"
  "block_states (http_code_16 r) = [108, 109, 110, 111, 112, 113, 114, 115, 116, 117, 118]"
  "block_states (http_code_17 r) = [119, 120, 121, 122, 123, 124, 125, 126, 127, 128]"
  "block_states (http_code_18 r) = [129, 130, 131, 132, 133, 134, 135, 136, 137]"
  "block_states (http_code_19 r) = [138, 139, 140, 141, 142, 143, 144, 145]"
  "block_states (http_code_20 r) = [146, 147, 148, 149, 150, 151, 152, 153]"
  "block_states (http_code_21 r) = [154, 155, 156, 157, 158, 159, 160, 161, 162]"
  "block_states (http_code_22 r) = [163, 164, 165, 166, 167, 168, 169, 170, 171]"
  "block_states (http_code_23 r) = [172, 173]"
  "block_states (http_code_24 r) = [174, 175, 176, 177, 178, 179, 180, 181, 182]"
  "block_states (http_code_25 r) = [183, 184, 185, 186, 187, 188, 189, 190, 191, 192, 193, 194]"
  "block_states (http_code_26 r) = [195, 196, 197, 349, 198]"
  "block_states (http_code_27 r) = [199, 200, 201, 202, 203, 204, 205]"
  "block_states (http_code_28 r) = [206, 207, 208, 209]"
  "block_states (http_code_29 r) = [210, 211, 212, 213]"
  "block_states (http_code_30 r) = [214, 215, 216, 217]"
  "block_states (http_code_31 r) = [218, 219, 220, 221, 222, 223, 224, 225]"
  "block_states (http_code_32 r) = [226, 227, 228, 229, 230, 231, 232, 233, 234, 235, 236, 237, 238, 239]"
  "block_states (http_code_33 r) = [240, 241, 242, 243, 244, 245, 246, 247, 248, 249, 250, 251, 252, 253, 254, 255]"
  "block_states (http_code_34 r) = [256, 257, 258, 259, 260, 261, 262, 263, 264]"
  "block_states (http_code_35 r) = [265, 266, 267, 268, 269, 270, 271, 272, 273, 274, 275]"
  "block_states (http_code_36 r) = [276, 277, 278, 279, 280, 281, 282, 283, 284, 285, 286]"
  "block_states (http_code_37 r) = [287, 288, 289, 290, 291, 292, 293, 294, 295, 296, 297]"
  "block_states (http_code_38 r) = [298, 299, 300, 301, 302, 303, 304, 305, 306]"
  "block_states (http_code_39 r) = [307, 308, 309, 310, 311, 312, 313, 314, 315]"
  "block_states (http_code_40 r) = [316, 317, 318, 319, 320, 321, 322, 323]"
  "block_states (http_code_41 r) = [324, 325, 326, 327, 328, 329, 330, 331, 332]"
  "block_states (http_code_42 r) = [333, 334, 335, 336, 337, 338, 339, 340, 341, 342, 343]"
  "block_states (http_code_43 r) = [344, 345, 346, 347]"
  by (simp_all only: http_code_defs block_states.simps)

lemma http_code_trans:
  "block_trans (http_code_1 r) = [0, 4, 6, 37, 43, 46, 53]"
  "block_trans (http_code_2 r) = [57, 13, 21, 30, 33, 23]"
  "block_trans (http_code_3 r) = [27, 29, 28, 22, 31, 34, 24, 36]"
  "block_trans (http_code_4 r) = [25, 7, 8]"
  "block_trans (http_code_5 r) = [39, 55, 59, 44, 45]"
  "block_trans (http_code_6 r) = [9, 203, 204, 11]"
  "block_trans (http_code_7 r) = [42, 54, 56, 10]"
  "block_trans (http_code_8 r) = []"
  "block_trans (http_code_9 r) = []"
  "block_trans (http_code_10 r) = []"
  "block_trans (http_code_11 r) = []"
  "block_trans (http_code_12 r) = []"
  "block_trans (http_code_13 r) = []"
  "block_trans (http_code_14 r) = []"
  "block_trans (http_code_15 r) = []"
  "block_trans (http_code_16 r) = []"
  "block_trans (http_code_17 r) = []"
  "block_trans (http_code_18 r) = []"
  "block_trans (http_code_19 r) = []"
  "block_trans (http_code_20 r) = []"
  "block_trans (http_code_21 r) = []"
  "block_trans (http_code_22 r) = []"
  "block_trans (http_code_23 r) = [12]"
  "block_trans (http_code_24 r) = []"
  "block_trans (http_code_25 r) = [2]"
  "block_trans (http_code_26 r) = [224, 227, 235, 3, 228]"
  "block_trans (http_code_27 r) = [232]"
  "block_trans (http_code_28 r) = []"
  "block_trans (http_code_29 r) = []"
  "block_trans (http_code_30 r) = []"
  "block_trans (http_code_31 r) = []"
  "block_trans (http_code_32 r) = []"
  "block_trans (http_code_33 r) = []"
  "block_trans (http_code_34 r) = []"
  "block_trans (http_code_35 r) = []"
  "block_trans (http_code_36 r) = []"
  "block_trans (http_code_37 r) = []"
  "block_trans (http_code_38 r) = []"
  "block_trans (http_code_39 r) = []"
  "block_trans (http_code_40 r) = []"
  "block_trans (http_code_41 r) = []"
  "block_trans (http_code_42 r) = []"
  "block_trans (http_code_43 r) = []"
  by (simp_all only: http_code_defs block_trans.simps)

section \<open>The machine\<close>

definition http_run :: machine where
  "http_run p0 buffer =
     (let (cs, n, pr, evs) =
        run_machine (http_code (p_uri_relaxed p0)) (http_act buffer) (\<lambda>a. a = H_Done) 2 buffer 0 (p_cs p0) (p0, [])
      in (pr\<lparr>p_cs := cs\<rparr>, n, evs))"

end
