(* ===== verification/Grammar.thy ===== *)
theory Grammar
  imports Machine
begin

text \<open>
  Classes of characters that the machines share, and texts with percent-encoded characters: how a
  machine goes over such a text that stays in one state.
\<close>

section \<open>Characters\<close>

text \<open>The characters of a path, of a query and of a hexadecimal number.\<close>

definition uri_char :: "char \<Rightarrow> bool" where
  "uri_char ch \<longleftrightarrow>
     (let c = char_val ch in c \<in> {33, 36, 61, 95, 126} \<or> 38 \<le> c \<and> c \<le> 59 \<or> 64 \<le> c \<and> c \<le> 90 \<or> 97 \<le> c \<and> c \<le> 122)"

definition query_char :: "char \<Rightarrow> bool" where
  "query_char ch \<longleftrightarrow> uri_char ch \<or> char_val ch = 63"

definition hex_char :: "char \<Rightarrow> bool" where
  "hex_char ch \<longleftrightarrow> (let c = char_val ch in 48 \<le> c \<and> c \<le> 57 \<or> 65 \<le> c \<and> c \<le> 70 \<or> 97 \<le> c \<and> c \<le> 102)"

lemma char_vals [simp]:
  "char_val (CHR '' '') = 32" "char_val (CHR ''/'') = 47" "char_val (CHR ''?'') = 63" "char_val (CHR ''#'') = 35"
  "char_val (CHR ''%'') = 37" "char_val (CHR '':'') = 58" "char_val (CHR ''.'') = 46" "char_val (CHR ''H'') = 72"
  "char_val (CHR ''T'') = 84" "char_val (CHR ''P'') = 80" "char_val (CHR ''0'') = 48" "char_val (CHR ''1'') = 49"
  "char_val (CHR 0x0D) = 13" "char_val (CHR 0x0A) = 10"
  by (simp_all add: char_val_def)

lemma uri_charE:
  assumes "uri_char ch"
  obtains "char_val ch = 33" | "char_val ch = 36" | "char_val ch = 61" | "char_val ch = 95" | "char_val ch = 126"
    | "38 \<le> char_val ch" "char_val ch \<le> 59" | "64 \<le> char_val ch" "char_val ch \<le> 90" | "97 \<le> char_val ch" "char_val ch \<le> 122"
  using assms unfolding uri_char_def hex_char_def Let_def by blast

lemma hex_charE:
  assumes "hex_char ch"
  obtains "48 \<le> char_val ch" "char_val ch \<le> 57" | "65 \<le> char_val ch" "char_val ch \<le> 70" | "97 \<le> char_val ch" "char_val ch \<le> 102"
  using assms unfolding uri_char_def hex_char_def Let_def by blast

section \<open>Percent-encoded texts\<close>

text \<open>A text of good characters and percent-encoded ones.\<close>

fun pct_text :: "(char \<Rightarrow> bool) \<Rightarrow> string \<Rightarrow> bool" where
  "pct_text good [] = True"
| "pct_text good (c # s) =
     (if c = CHR ''%'' then (case s of a # b # s' \<Rightarrow> hex_char a \<and> hex_char b \<and> pct_text good s' | _ \<Rightarrow> False)
      else good c \<and> pct_text good s)"

lemma trace_pct:
  assumes "\<And>c. good c \<Longrightarrow> next_state code a c = Some ([], a)" and "next_state code a (CHR ''%'') = Some ([], b)"
    and "\<And>c. hex_char c \<Longrightarrow> next_state code b c = Some ([], b')" and "\<And>c. hex_char c \<Longrightarrow> next_state code b' c = Some ([], a)"
    and "a \<noteq> 0" and "b \<noteq> 0" and "b' \<noteq> 0" and "pct_text good xs"
  shows "trace code brk xs p a = Some (a, [])"
  using assms
proof (induction good xs arbitrary: p rule: pct_text.induct)
  case (2 good c s)
  show ?case
  proof (cases "c = CHR ''%''")
    case True
    then obtain h h' s' where s: "s = h # h' # s'" "hex_char h" "hex_char h'" "pct_text good s'"
      using "2.prems"(8) by (auto split: list.splits)
    then show ?thesis using True "2.IH"(1) [OF True s(1) refl "2.prems"(1-7) s(4)] "2.prems"(2-7) by simp
  next
    case False
    then show ?thesis using "2.IH"(2) [OF False "2.prems"(1-7)] "2.prems" by simp
  qed
qed simp

lemma trace_pct_from:
  assumes "\<And>c. good c \<Longrightarrow> next_state code a c = Some ([], a)" and "next_state code a (CHR ''%'') = Some ([], b)"
    and "\<And>c. hex_char c \<Longrightarrow> next_state code b c = Some ([], b')" and "\<And>c. hex_char c \<Longrightarrow> next_state code b' c = Some ([], a)"
    and "a \<noteq> 0" and "b \<noteq> 0" and "b' \<noteq> 0" and "pct_text good xs" and "xs \<noteq> []"
    and "good (hd xs) \<Longrightarrow> next_state code s (hd xs) = Some (acts, a)" and "next_state code s (CHR ''%'') = Some (acts, b)"
    and "\<not> list_ex brk acts"
  shows "trace code brk xs p s = Some (a, map (\<lambda>x. (x, p)) acts)"
proof -
  have loop: "trace code brk ys q a = Some (a, [])" if "pct_text good ys" for ys q
    using trace_pct [OF assms(1-7) that] by blast
  show ?thesis
  proof (cases "hd xs = CHR ''%''")
    case True
    then obtain c d ys where xs: "xs = CHR ''%'' # c # d # ys" "hex_char c" "hex_char d" "pct_text good ys"
      using assms(8,9) by (cases xs) (auto split: list.splits)
    then show ?thesis using assms(3,4,5,6,7,11,12) loop [OF xs(4)] by simp
  next
    case False
    then obtain c ys where xs: "xs = c # ys" "good c" "pct_text good ys"
      using assms(8,9) by (cases xs) auto
    then show ?thesis using assms(5,10,12) loop [OF xs(3)] by simp
  qed
qed

section \<open>Numbers\<close>

definition digit_char :: "char \<Rightarrow> bool" where
  "digit_char ch \<longleftrightarrow> 48 \<le> char_val ch \<and> char_val ch \<le> 57"

lemma digit_of_dec: "d < 10 \<Longrightarrow> digit_value (char_of (48 + d :: nat)) = Some d \<and> digit_char (char_of (48 + d :: nat))"
proof -
  assume d: "d < 10"
  have "(of_char (char_of (48 + d :: nat) :: char) :: int) = int (of_char (char_of (48 + d :: nat) :: char))" by (simp only: of_nat_of_char)
  also have "\<dots> = 48 + int d" using d by simp
  finally show ?thesis using d by (simp add: digit_value_def digit_char_def char_val_def Let_def)
qed

lemma strtol_from_digits: "strtol_from 10 0 (dec_digits n @ rest) = strtol_from 10 n rest"
proof (induction n arbitrary: rest rule: dec_digits.induct)
  case (1 n)
  show ?case
  proof (cases "n < 10")
    case True
    then show ?thesis using digit_of_dec [of n] by (subst dec_digits.simps) simp
  next
    case False
    then show ?thesis using 1 [OF False] digit_of_dec [of "n mod 10"] by (subst dec_digits.simps) simp
  qed
qed

text \<open>A text that does not go on with a digit.\<close>

definition number_ends :: "string \<Rightarrow> bool" where
  "number_ends rest \<longleftrightarrow> rest = [] \<or> digit_value (hd rest) = None"

lemma strtol_digits:
  assumes "n < 2 ^ 31" and "number_ends rest"
  shows "strtol 10 (dec_digits n @ rest) = int n"
proof -
  have "strtol_from 10 n rest = n"
    using assms(2) by (cases rest) (auto simp: number_ends_def)
  moreover have "sint (word_of_nat n :: 32 word) = int n"
    using assms(1) by transfer (simp add: signed_take_bit_int_eq_self)
  ultimately show ?thesis using assms(1) by (simp add: strtol_def strtol_from_digits min_def)
qed

lemma dec_digits_chars: "list_all digit_char (dec_digits n) \<and> dec_digits n \<noteq> []"
proof (induction n rule: dec_digits.induct)
  case (1 n)
  then show ?case using digit_of_dec [of n] digit_of_dec [of "n mod 10"] by (subst (1 2) dec_digits.simps) simp
qed

end
