(* ===== verification/Http_Grammar.thy ===== *)
theory Http_Grammar
  imports Http_Machine Http_Messages Grammar
begin

text \<open>
  What the request machine does with the text of a request. A text is followed piece by piece
  through the states it visits; the pieces are put together with \<open>trace_append\<close>.
\<close>

section \<open>The cases that a printed request visits\<close>

lemma http_at:
  "state_code (http_code r) 1 = state_code (http_code_1 r) 1"
  "state_code (http_code r) 2 = state_code (http_code_1 r) 2"
  "state_code (http_code r) 175 = state_code (http_code_24 r) 175"
  "state_code (http_code r) 176 = state_code (http_code_24 r) 176"
  "state_code (http_code r) 177 = state_code (http_code_24 r) 177"
  "state_code (http_code r) 178 = state_code (http_code_24 r) 178"
  "state_code (http_code r) 179 = state_code (http_code_24 r) 179"
  "state_code (http_code r) 180 = state_code (http_code_24 r) 180"
  "state_code (http_code r) 181 = state_code (http_code_24 r) 181"
  "state_code (http_code r) 182 = state_code (http_code_24 r) 182"
  "state_code (http_code r) 183 = state_code (http_code_25 r) 183"
  "state_code (http_code r) 184 = state_code (http_code_25 r) 184"
  "state_code (http_code r) 185 = state_code (http_code_25 r) 185"
  "state_code (http_code r) 186 = state_code (http_code_25 r) 186"
  "state_code (http_code r) 187 = state_code (http_code_25 r) 187"
  "state_code (http_code r) 188 = state_code (http_code_25 r) 188"
  "state_code (http_code r) 189 = state_code (http_code_25 r) 189"
  "state_code (http_code r) 190 = state_code (http_code_25 r) 190"
  "state_code (http_code r) 191 = state_code (http_code_25 r) 191"
  "state_code (http_code r) 192 = state_code (http_code_25 r) 192"
  "state_code (http_code r) 193 = state_code (http_code_25 r) 193"
  "state_code (http_code r) 3 = state_code (http_code_1 r) 3"
  "state_code (http_code r) 33 = state_code (http_code_8 r) 33"
  "state_code (http_code r) 26 = state_code (http_code_6 r) 26"
  "state_code (http_code r) 27 = state_code (http_code_6 r) 27"
  "state_code (http_code r) 28 = state_code (http_code_6 r) 28"
  "state_code (http_code r) 29 = state_code (http_code_7 r) 29"
  "state_code (http_code r) 30 = state_code (http_code_7 r) 30"
  "state_code (http_code r) 31 = state_code (http_code_7 r) 31"
  "state_code (http_code r) 32 = state_code (http_code_7 r) 32"
  "state_code (http_code r) 20 = state_code (http_code_5 r) 20"
  "state_code (http_code r) 21 = state_code (http_code_5 r) 21"
  "state_code (http_code r) 22 = state_code (http_code_6 r) 22"
  "state_code (http_code r) 23 = state_code (http_code_6 r) 23"
  "state_code (http_code r) 4 = state_code (http_code_2 r) 4"
  "state_code (http_code r) 5 = state_code (http_code_2 r) 5"
  "state_code (http_code r) 6 = state_code (http_code_2 r) 6"
  "state_code (http_code r) 7 = state_code (http_code_2 r) 7"
  "state_code (http_code r) 8 = state_code (http_code_2 r) 8"
  "state_code (http_code r) 9 = state_code (http_code_2 r) 9"
  "state_code (http_code r) 10 = state_code (http_code_2 r) 10"
  "state_code (http_code r) 11 = state_code (http_code_2 r) 11"
  "state_code (http_code r) 12 = state_code (http_code_2 r) 12"
  "state_code (http_code r) 13 = state_code (http_code_2 r) 13"
  "state_code (http_code r) 14 = state_code (http_code_3 r) 14"
  "state_code (http_code r) 15 = state_code (http_code_3 r) 15"
  "state_code (http_code r) 16 = state_code (http_code_3 r) 16"
  "state_code (http_code r) 17 = state_code (http_code_3 r) 17"
  "state_code (http_code r) 18 = state_code (http_code_4 r) 18"
  by (simp_all add: http_code_def code_lookup http_code_states http_code_trans)

lemma http_trans:
  "trans_code (http_code r) 0 = Some ([H_Mark], 2)"
  "trans_code (http_code r) 2 = Some ([H_Mark], 194)"
  "trans_code (http_code r) 3 = Some ([H_Mark], 198)"
  "trans_code (http_code r) 4 = Some ([H_Request_method], 3)"
  "trans_code (http_code r) 6 = Some ([H_Mark, H_Request_path, H_Request_uri], 4)"
  "trans_code (http_code r) 7 = Some ([H_Mark], 19)"
  "trans_code (http_code r) 8 = Some ([H_Mark, H_Request_path, H_Request_uri], 20)"
  "trans_code (http_code r) 9 = Some ([H_Mark], 24)"
  "trans_code (http_code r) 10 = Some ([H_Mark], 33)"
  "trans_code (http_code r) 11 = Some ([H_Mark, H_Request_path], 29)"
  "trans_code (http_code r) 12 = Some ([H_Mark], 173)"
  "trans_code (http_code r) 13 = Some ([H_Mark], 5)"
  "trans_code (http_code r) 21 = Some ([H_Http_version], 13)"
  "trans_code (http_code r) 22 = Some ([H_Http_version], 17)"
  "trans_code (http_code r) 23 = Some ([H_Start_field], 14)"
  "trans_code (http_code r) 24 = Some ([H_Start_field, H_Done], 348)"
  "trans_code (http_code r) 25 = Some ([H_Start_field], 18)"
  "trans_code (http_code r) 27 = Some ([H_Write_field], 15)"
  "trans_code (http_code r) 28 = Some ([H_Mark], 16)"
  "trans_code (http_code r) 29 = Some ([H_Mark], 15)"
  "trans_code (http_code r) 30 = Some ([H_Mark, H_Write_value], 13)"
  "trans_code (http_code r) 31 = Some ([H_Mark, H_Write_value], 17)"
  "trans_code (http_code r) 33 = Some ([H_Write_value], 13)"
  "trans_code (http_code r) 34 = Some ([H_Write_value], 17)"
  "trans_code (http_code r) 36 = Some ([H_Done], 348)"
  "trans_code (http_code r) 37 = Some ([H_Request_path, H_Request_uri], 4)"
  "trans_code (http_code r) 39 = Some ([H_Request_path, H_Request_uri], 20)"
  "trans_code (http_code r) 42 = Some ([H_Request_path], 29)"
  "trans_code (http_code r) 43 = Some ([H_Mark, H_Fragment], 4)"
  "trans_code (http_code r) 44 = Some ([H_Mark], 21)"
  "trans_code (http_code r) 45 = Some ([H_Mark], 22)"
  "trans_code (http_code r) 46 = Some ([H_Fragment], 4)"
  "trans_code (http_code r) 53 = Some ([H_Start_query, H_Query_string, H_Request_uri], 4)"
  "trans_code (http_code r) 54 = Some ([H_Start_query], 30)"
  "trans_code (http_code r) 55 = Some ([H_Start_query, H_Query_string, H_Request_uri], 20)"
  "trans_code (http_code r) 56 = Some ([H_Start_query], 31)"
  "trans_code (http_code r) 57 = Some ([H_Query_string, H_Request_uri], 4)"
  "trans_code (http_code r) 59 = Some ([H_Query_string, H_Request_uri], 20)"
  by (simp_all add: http_code_def code_lookup http_code_states http_code_trans) (simp_all only: http_code_defs code_find)

lemmas http_find = next_state_def http_at code_find
  http_code_1_def http_code_2_def http_code_3_def http_code_4_def http_code_5_def http_code_6_def
  http_code_7_def http_code_8_def http_code_23_def http_code_24_def http_code_25_def http_code_26_def

lemmas http_step = code_step http_trans Let_def widec_def

text \<open>The characters of a method, of a name and of a value.\<close>

definition method_char :: "char \<Rightarrow> bool" where
  "method_char ch \<longleftrightarrow> (let c = char_val ch in 48 \<le> c \<and> c \<le> 57 \<or> 65 \<le> c \<and> c \<le> 90)"

definition token_char :: "char \<Rightarrow> bool" where
  "token_char ch \<longleftrightarrow>
     (let c = char_val ch in c \<in> {33, 42, 43, 45, 46, 124, 126} \<or> 35 \<le> c \<and> c \<le> 39 \<or> 48 \<le> c \<and> c \<le> 57
        \<or> 65 \<le> c \<and> c \<le> 90 \<or> 94 \<le> c \<and> c \<le> 122)"

definition value_char :: "char \<Rightarrow> bool" where
  "value_char ch \<longleftrightarrow> char_val ch \<notin> {0, 10, 13, 127}"

lemmas char_class = method_char_def uri_char_def query_char_def hex_char_def token_char_def value_char_def Let_def

lemma token_charE:
  assumes "token_char ch"
  obtains "char_val ch = 33" | "char_val ch = 42" | "char_val ch = 43" | "char_val ch = 45" | "char_val ch = 46" | "char_val ch = 124"
    | "char_val ch = 126" | "35 \<le> char_val ch" "char_val ch \<le> 39" | "48 \<le> char_val ch" "char_val ch \<le> 57"
    | "65 \<le> char_val ch" "char_val ch \<le> 90" | "94 \<le> char_val ch" "char_val ch \<le> 122"
  using assms unfolding char_class by blast

lemma method_charE:
  assumes "method_char ch"
  obtains "48 \<le> char_val ch" "char_val ch \<le> 57" | "65 \<le> char_val ch" "char_val ch \<le> 90"
  using assms unfolding char_class by blast

text \<open>The states behind the first character of a method.\<close>

definition method_states :: "int list" where
  "method_states = [2, 175, 176, 177, 178, 179, 180, 181, 182, 183, 184, 185, 186, 187, 188, 189, 190, 191, 192, 193]"

lemma method_steps:
  assumes "method_char ch"
  shows "next_state (http_code r) 1 ch = Some ([H_Mark], 2)"
    "list_all2 (\<lambda>s s'. next_state (http_code r) s ch = Some ([], s')) (butlast method_states) (tl method_states)"
  by (simp_all add: method_states_def) (simp_all only: http_find, (rule method_charE [OF assms]; simp add: http_step)+)

lemma end_of_method:
  "list_all (\<lambda>s. next_state (http_code r) s (CHR '' '') = Some ([H_Request_method], 3)) method_states"
  by (simp add: method_states_def) (simp only: http_find, simp add: http_step)

lemma uri_steps:
  assumes "uri_char ch"
  shows "next_state (http_code r) 26 ch = Some ([], 26)" "next_state (http_code r) 21 ch = Some ([], 21)"
    "next_state (http_code r) 20 ch = Some ([H_Mark], 21)" "next_state (http_code r) 30 ch = Some ([], 30)"
    "next_state (http_code r) 29 ch = Some ([H_Start_query], 30)"
  by (simp_all only: http_find) (rule uri_charE [OF assms]; simp add: http_step)+

lemma uri_second_step:
  assumes "uri_char ch" and "char_val ch \<noteq> 47"
  shows "next_state (http_code r) 33 ch = Some ([], 26)"
  by (simp only: http_find) (rule uri_charE [OF assms(1)]; use assms(2) in \<open>simp add: http_step\<close>)

lemma question_steps:
  assumes "char_val ch = 63"
  shows "next_state (http_code r) 30 ch = Some ([], 30)" "next_state (http_code r) 29 ch = Some ([H_Start_query], 30)"
    "next_state (http_code r) 20 ch = Some ([H_Mark], 21)" "next_state (http_code r) 21 ch = Some ([], 21)"
  by (simp_all only: http_find) (simp_all add: http_step assms)

lemma percent_steps:
  "next_state (http_code r) 33 (CHR ''%'') = Some ([], 27)" "next_state (http_code r) 26 (CHR ''%'') = Some ([], 27)"
  "next_state (http_code r) 29 (CHR ''%'') = Some ([H_Start_query], 31)" "next_state (http_code r) 30 (CHR ''%'') = Some ([], 31)"
  "next_state (http_code r) 20 (CHR ''%'') = Some ([H_Mark], 22)" "next_state (http_code r) 21 (CHR ''%'') = Some ([], 22)"
  by (simp_all only: http_find) (simp_all add: http_step)

lemma hex_steps:
  assumes "hex_char ch"
  shows "next_state (http_code r) 27 ch = Some ([], 28)" "next_state (http_code r) 28 ch = Some ([], 26)"
    "next_state (http_code r) 31 ch = Some ([], 32)" "next_state (http_code r) 32 ch = Some ([], 30)"
    "next_state (http_code r) 22 ch = Some ([], 23)" "next_state (http_code r) 23 ch = Some ([], 21)"
  by (simp_all only: http_find) (rule hex_charE [OF assms]; simp add: http_step)+

lemma uri_ends:
  "next_state (http_code r) 3 (CHR ''/'') = Some ([H_Mark], 33)"
  "s = 33 \<or> s = 26 \<Longrightarrow> next_state (http_code r) s (CHR '' '') = Some ([H_Request_path, H_Request_uri], 4)"
  "s = 33 \<or> s = 26 \<Longrightarrow> next_state (http_code r) s (CHR ''?'') = Some ([H_Request_path], 29)"
  "s = 33 \<or> s = 26 \<Longrightarrow> next_state (http_code r) s (CHR ''#'') = Some ([H_Request_path, H_Request_uri], 20)"
  "next_state (http_code r) 3 (CHR '' '') = Some ([H_Mark, H_Request_path, H_Request_uri], 4)"
  "next_state (http_code r) 3 (CHR ''?'') = Some ([H_Mark, H_Request_path], 29)"
  "next_state (http_code r) 3 (CHR ''#'') = Some ([H_Mark, H_Request_path, H_Request_uri], 20)"
  "next_state (http_code r) 30 (CHR '' '') = Some ([H_Query_string, H_Request_uri], 4)"
  "next_state (http_code r) 30 (CHR ''#'') = Some ([H_Query_string, H_Request_uri], 20)"
  "next_state (http_code r) 21 (CHR '' '') = Some ([H_Fragment], 4)"
  by (auto simp only: http_find) (simp_all add: http_step)

lemma version_steps:
  "next_state (http_code r) 4 (CHR ''H'') = Some ([H_Mark], 5)" "next_state (http_code r) 5 (CHR ''T'') = Some ([], 6)"
  "next_state (http_code r) 6 (CHR ''T'') = Some ([], 7)" "next_state (http_code r) 7 (CHR ''P'') = Some ([], 8)"
  "next_state (http_code r) 8 (CHR ''/'') = Some ([], 9)" "next_state (http_code r) 9 (CHR ''1'') = Some ([], 10)"
  "next_state (http_code r) 10 (CHR ''.'') = Some ([], 11)" "next_state (http_code r) 11 (CHR ''0'') = Some ([], 12)"
  "next_state (http_code r) 11 (CHR ''1'') = Some ([], 12)" "next_state (http_code r) 12 (CHR 0x0D) = Some ([H_Http_version], 17)"
  "next_state (http_code r) 17 (CHR 0x0A) = Some ([], 13)"
  by (simp_all only: http_find) (simp_all add: http_step)

lemma field_steps:
  "next_state (http_code r) 14 (CHR '':'') = Some ([H_Write_field], 15)"
  "next_state (http_code r) 15 (CHR '' '') = Some ([H_Mark], 15)"
  "next_state (http_code r) 15 (CHR 0x0D) = Some ([H_Mark, H_Write_value], 17)"
  "next_state (http_code r) 16 (CHR 0x0D) = Some ([H_Write_value], 17)"
  "next_state (http_code r) 13 (CHR 0x0D) = Some ([H_Start_field], 18)"
  "next_state (http_code r) 18 (CHR 0x0A) = Some ([H_Done], 348)"
  by (simp_all only: http_find) (simp_all add: http_step)

lemma token_steps:
  assumes "token_char ch"
  shows "next_state (http_code r) 13 ch = Some ([H_Start_field], 14)" "next_state (http_code r) 14 ch = Some ([], 14)"
  by (simp_all only: http_find) (rule token_charE [OF assms]; simp add: http_step)+

lemma value_steps:
  assumes "value_char ch"
  shows "char_val ch \<notin> {9, 32} \<Longrightarrow> next_state (http_code r) 15 ch = Some ([H_Mark], 16)"
    "next_state (http_code r) 16 ch = Some ([], 16)"
  using assms by (simp_all only: http_find) (auto simp: http_step value_char_def)

end
