(* ===== verification/Http_Requests.thy ===== *)
theory Http_Requests
  imports Http_Grammar
begin

text \<open>
  A printed request read back by the machine and the callbacks of the request parser.
\<close>

section \<open>The text and its trace\<close>

abbreviation req_brk :: "http_action \<Rightarrow> bool" where
  "req_brk \<equiv> \<lambda>a. a = H_Done"

lemma trace_method:
  assumes "list_all method_char xs" and "i + length xs < length method_states"
  shows "trace (http_code r) req_brk xs p (method_states ! i) = Some (method_states ! (i + length xs), [])"
  using assms
proof (induction xs arbitrary: p i)
  case (Cons c xs)
  have "next_state (http_code r) (butlast method_states ! i) c = Some ([], tl method_states ! i)"
    using method_steps(2) [of c r] Cons.prems by (simp add: list_all2_conv_all_nth)
  moreover have "butlast method_states ! i = method_states ! i" "tl method_states ! i = method_states ! Suc i"
    using Cons.prems(2) by (simp_all add: nth_butlast nth_tl)
  moreover have "method_states ! Suc i \<noteq> 0"
    using nth_mem [of "Suc i" method_states] Cons.prems(2) by (auto simp: method_states_def)
  ultimately show ?case using Cons.IH [of "Suc i" "p + 1"] Cons.prems by simp
qed simp

lemma trace_request_method:
  assumes "list_all method_char m" and "m \<noteq> []" and "length m \<le> 20"
  shows "trace (http_code r) req_brk (m @ '' '') 0 1 = Some (3, [(H_Mark, 0), (H_Request_method, length m)])"
proof -
  obtain c xs where m: "m = c # xs" "method_char c" "list_all method_char xs" using assms(1,2) by (cases m) auto
  have i: "length xs < length method_states" using assms(3) by (simp add: m method_states_def)
  then have "next_state (http_code r) (method_states ! length xs) (CHR '' '') = Some ([H_Request_method], 3)"
    using end_of_method [of r] by (simp add: list_all_length)
  moreover have "trace (http_code r) req_brk xs 1 2 = Some (method_states ! length xs, [])"
    using trace_method [OF m(3), of 0 r 1] i by (simp add: method_states_def)
  ultimately show ?thesis
    using trace_append [of "http_code r" req_brk m 0 1 "method_states ! length xs" "[(H_Mark, 0)]" "'' ''"]
      method_steps(1) [OF m(2)] by (simp add: m)
qed

text \<open>A path that starts with a slash, but not with two, or none.\<close>

definition good_path :: "string \<Rightarrow> bool" where
  "good_path path \<longleftrightarrow>
     (case path of [] \<Rightarrow> True | c # ps \<Rightarrow> c = CHR ''/'' \<and> pct_text uri_char ps \<and> (ps = [] \<or> char_val (hd ps) \<noteq> 47))"

text \<open>The states behind a path, with what is still done when it ends: without a path, its beginning is marked then.\<close>

definition path_end :: "int \<Rightarrow> http_action list \<Rightarrow> bool" where
  "path_end s acts \<longleftrightarrow> (s = 33 \<or> s = 26) \<and> acts = [] \<or> s = 3 \<and> acts = [H_Mark]"

lemma trace_path:
  assumes "good_path path"
  shows "\<exists>s t acts. path_end s acts \<and> trace (http_code r) req_brk path p 3 = Some (s, t)
    \<and> t @ map (\<lambda>a. (a, p + length path)) acts = [(H_Mark, p)]"
proof (cases path)
  case Nil
  then show ?thesis by (simp add: path_end_def)
next
  case (Cons c ps)
  then have ps: "path = CHR ''/'' # ps" "pct_text uri_char ps" "ps = [] \<or> char_val (hd ps) \<noteq> 47"
    using assms by (auto simp: good_path_def)
  show ?thesis
  proof (cases "ps = []")
    case True
    then show ?thesis by (simp add: ps(1) uri_ends path_end_def)
  next
    case False
    have "trace (http_code r) req_brk ps (p + 1) 33 = Some (26, map (\<lambda>x. (x, p + 1)) [])"
      by (rule trace_pct_from [where good = uri_char and b = 27 and b' = 28])
        (use False ps in \<open>simp_all add: uri_steps uri_second_step percent_steps hex_steps\<close>)
    then have "path_end 26 [] \<and> trace (http_code r) req_brk path p 3 = Some (26, [(H_Mark, p)])"
      by (simp add: ps(1) uri_ends path_end_def)
    then show ?thesis by (intro exI [of _ 26] exI [of _ "[(H_Mark, p)]"] exI [of _ "[]"]) simp
  qed
qed

lemma query_char_steps:
  assumes "query_char ch"
  shows "next_state (http_code r) 30 ch = Some ([], 30)" "next_state (http_code r) 29 ch = Some ([H_Start_query], 30)"
    "next_state (http_code r) 20 ch = Some ([H_Mark], 21)" "next_state (http_code r) 21 ch = Some ([], 21)"
  using assms by (auto simp: query_char_def uri_steps question_steps)

definition query_part :: "string \<Rightarrow> string" where
  "query_part query = (if query \<noteq> [] then ''?'' else []) @ query"

definition query_trace :: "nat \<Rightarrow> string \<Rightarrow> (http_action \<times> nat) list" where
  "query_trace e query =
     (H_Request_path, e) # (if query = [] then [(H_Request_uri, e)]
        else [(H_Start_query, e + 1), (H_Query_string, e + 1 + length query), (H_Request_uri, e + 1 + length query)])"

lemma trace_query:
  assumes "pct_text query_char query" and "path_end s acts" and "c = CHR '' '' \<and> n = 4 \<or> c = CHR ''#'' \<and> n = 20"
  shows "trace (http_code r) req_brk (query_part query @ [c]) e s = Some (n, map (\<lambda>a. (a, e)) acts @ query_trace e query)"
proof (cases "query = []")
  case True
  then show ?thesis using assms(2,3) by (auto simp: query_part_def query_trace_def uri_ends path_end_def)
next
  case False
  have "trace (http_code r) req_brk query (e + 1) 29 = Some (30, map (\<lambda>x. (x, e + 1)) [H_Start_query])"
    by (rule trace_pct_from [where good = query_char and b = 31 and b' = 32])
      (use False assms(1) in \<open>simp_all add: query_char_steps percent_steps hex_steps\<close>)
  then have "trace (http_code r) req_brk (query @ [c]) (e + 1) 29
      = Some (n, [(H_Start_query, e + 1)] @ [(H_Query_string, e + 1 + length query), (H_Request_uri, e + 1 + length query)])"
    by (intro trace_append) (use assms(3) in \<open>auto simp: uri_ends\<close>)
  then show ?thesis using assms(2) False by (auto simp: query_part_def query_trace_def uri_ends path_end_def)
qed

definition fragment_part :: "string \<Rightarrow> string" where
  "fragment_part fragment = (if fragment \<noteq> [] then ''#'' else []) @ fragment"

definition fragment_trace :: "nat \<Rightarrow> string \<Rightarrow> (http_action \<times> nat) list" where
  "fragment_trace q fragment = (if fragment = [] then [] else [(H_Mark, q + 1), (H_Fragment, q + 1 + length fragment)])"

lemma trace_uri:
  assumes "good_path path" and "pct_text query_char query" and "pct_text query_char fragment"
  shows "trace (http_code r) req_brk (path @ query_part query @ fragment_part fragment @ '' '') p 3
    = Some (4, (H_Mark, p) # query_trace (p + length path) query
        @ fragment_trace (p + length path + length (query_part query)) fragment)"
proof -
  let ?e = "p + length path"
  let ?q = "?e + length (query_part query)"
  obtain s t acts where s: "path_end s acts" "trace (http_code r) req_brk path p 3 = Some (s, t)"
    "t @ map (\<lambda>a. (a, ?e)) acts = [(H_Mark, p)]"
    using trace_path [OF assms(1)] by blast
  have "trace (http_code r) req_brk (query_part query @ fragment_part fragment @ '' '') ?e s
      = Some (4, map (\<lambda>a. (a, ?e)) acts @ query_trace ?e query @ fragment_trace ?q fragment)"
  proof (cases "fragment = []")
    case True
    then show ?thesis using trace_query [OF assms(2) s(1)] by (simp add: fragment_part_def fragment_trace_def)
  next
    case False
    have "trace (http_code r) req_brk fragment (?q + 1) 20 = Some (21, map (\<lambda>x. (x, ?q + 1)) [H_Mark])"
      by (rule trace_pct_from [where good = query_char and b = 22 and b' = 23])
        (use False assms(3) in \<open>simp_all add: query_char_steps percent_steps hex_steps\<close>)
    then have "trace (http_code r) req_brk (fragment @ '' '') (?q + 1) 20
        = Some (4, map (\<lambda>x. (x, ?q + 1)) [H_Mark] @ [(H_Fragment, ?q + 1 + length fragment)])"
      by (rule trace_append) (simp add: uri_ends(10))
    then have "trace (http_code r) req_brk ((query_part query @ ''#'') @ fragment @ '' '') ?e s
        = Some (4, (map (\<lambda>a. (a, ?e)) acts @ query_trace ?e query) @ [(H_Mark, ?q + 1)] @ [(H_Fragment, ?q + 1 + length fragment)])"
      by (intro trace_append [OF trace_query [OF assms(2) s(1)]]) simp_all
    then show ?thesis using False by (simp add: fragment_part_def fragment_trace_def)
  qed
  from trace_append [OF s(2) this] show ?thesis using s(3) by (simp flip: append_assoc)
qed

lemma trace_version:
  assumes "v = 0x10 \<or> v = 0x11"
  shows "trace (http_code r) req_brk (version_text v @ CRLF) p 4 = Some (13, [(H_Mark, p), (H_Http_version, p + 8)])"
proof -
  have "version_text 0x10 = ''HTTP/1.0''" "version_text 0x11 = ''HTTP/1.1''" by code_simp+
  then show ?thesis using assms by (auto simp: CRLF_def version_steps)
qed

text \<open>A line of a field: its name, a space or none behind the colon, its value.\<close>

type_synonym field_line = "string \<times> string \<times> string"

definition good_field :: "field_line \<Rightarrow> bool" where
  "good_field = (\<lambda>(k, sp, v). k \<noteq> [] \<and> list_all token_char k \<and> (sp = [] \<or> sp = '' '')
     \<and> list_all value_char v \<and> (v \<noteq> [] \<longrightarrow> char_val (hd v) \<notin> {9, 32}))"

definition field_text :: "field_line \<Rightarrow> string" where
  "field_text = (\<lambda>(k, sp, v). k @ '':'' @ sp @ v @ CRLF)"

definition field_trace :: "nat \<Rightarrow> field_line \<Rightarrow> (http_action \<times> nat) list" where
  "field_trace p = (\<lambda>(k, sp, v). let q = p + length k + 1 in
     [(H_Start_field, p), (H_Write_field, p + length k)] @ (if sp = [] then [] else [(H_Mark, q)])
     @ [(H_Mark, q + length sp), (H_Write_value, q + length sp + length v)])"

lemma trace_value:
  assumes "list_all value_char v" and "v \<noteq> [] \<longrightarrow> char_val (hd v) \<notin> {9, 32}"
  shows "trace (http_code r) req_brk (v @ CRLF) q 15 = Some (13, [(H_Mark, q), (H_Write_value, q + length v)])"
proof (cases v)
  case Nil
  then show ?thesis by (simp add: CRLF_def field_steps version_steps)
next
  case (Cons c cs)
  then have cs: "value_char c" "list_all value_char cs" "char_val c \<notin> {9, 32}" using assms by simp_all
  have "trace (http_code r) req_brk cs (q + 1) 16 = Some (16, [])"
    using cs(2) by (intro trace_self) (auto simp: list_all_iff value_steps)
  then have "trace (http_code r) req_brk (cs @ CRLF) (q + 1) 16 = Some (13, [] @ [(H_Write_value, q + 1 + length cs)])"
    by (rule trace_append) (simp add: CRLF_def field_steps version_steps)
  then show ?thesis using cs by (simp add: Cons value_steps)
qed

lemma trace_field:
  assumes "good_field f"
  shows "trace (http_code r) req_brk (field_text f) p 13 = Some (13, field_trace p f)"
proof -
  obtain k sp v where f: "f = (k, sp, v)" by (cases f)
  then obtain c cs where k: "k = c # cs" "token_char c" "list_all token_char cs"
    using assms by (cases k) (auto simp: good_field_def)
  have sp: "sp = [] \<or> sp = '' ''" and v: "list_all value_char v" "v \<noteq> [] \<longrightarrow> char_val (hd v) \<notin> {9, 32}"
    using assms by (auto simp: good_field_def f)
  have "trace (http_code r) req_brk cs (p + 1) 14 = Some (14, [])"
    using k(3) by (intro trace_self) (auto simp: list_all_iff token_steps)
  then have name: "trace (http_code r) req_brk (cs @ '':'') (p + 1) 14 = Some (15, [] @ [(H_Write_field, p + length k)])"
    by (rule trace_append) (simp add: k(1) field_steps)
  have "trace (http_code r) req_brk (sp @ v @ CRLF) (p + length k + 1) 15
      = Some (13, (if sp = [] then [] else [(H_Mark, p + length k + 1)])
          @ [(H_Mark, p + length k + 1 + length sp), (H_Write_value, p + length k + 1 + length sp + length v)])"
    using sp trace_value [OF v, of r] by (auto simp: field_steps)
  then have "trace (http_code r) req_brk ((cs @ '':'') @ sp @ v @ CRLF) (p + 1) 14
      = Some (13, ([] @ [(H_Write_field, p + length k)]) @ (if sp = [] then [] else [(H_Mark, p + length k + 1)])
          @ [(H_Mark, p + length k + 1 + length sp), (H_Write_value, p + length k + 1 + length sp + length v)])"
    by (intro trace_append [OF name]) (simp add: k(1))
  then show ?thesis using k(2) by (simp add: f field_text_def field_trace_def k(1) token_steps Let_def)
qed

fun fields_trace :: "nat \<Rightarrow> field_line list \<Rightarrow> (http_action \<times> nat) list" where
  "fields_trace p [] = []"
| "fields_trace p (f # fs) = field_trace p f @ fields_trace (p + length (field_text f)) fs"

lemma trace_fields:
  assumes "list_all good_field fs"
  shows "trace (http_code r) req_brk (concat (map field_text fs)) p 13 = Some (13, fields_trace p fs)"
  using assms by (induction fs arbitrary: p) (auto intro: trace_append trace_field)

section \<open>The callbacks\<close>

lemma LEN_le [simp]: "at \<le> p \<Longrightarrow> LEN at p = p - at"
  by (simp add: LEN_def)

text \<open>What a piece of the trace adds to the events, and what these make of the request.\<close>

definition calls :: "string \<Rightarrow> (http_action \<times> nat) list \<Rightarrow> (request_parser \<Rightarrow> request_parser) \<Rightarrow> bool" where
  "calls buf tr f \<longleftrightarrow>
     (\<forall>pr evs. \<exists>pr' evs'. perform (http_act buf) tr (pr, evs) = (pr', evs @ evs')
        \<and> p_xml_sent pr' = p_xml_sent pr \<and> p_json_sent pr' = p_json_sent pr \<and> fold request_event evs' = f)"

lemma calls_append:
  assumes "calls buf tr f" and "calls buf tr' g"
  shows "calls buf (tr @ tr') (g \<circ> f)"
  unfolding calls_def
proof (intro allI)
  fix pr evs
  obtain pr1 evs1 where 1: "perform (http_act buf) tr (pr, evs) = (pr1, evs @ evs1)"
    "p_xml_sent pr1 = p_xml_sent pr" "p_json_sent pr1 = p_json_sent pr" "fold request_event evs1 = f"
    using assms(1) unfolding calls_def by blast
  obtain pr2 evs2 where 2: "perform (http_act buf) tr' (pr1, evs @ evs1) = (pr2, (evs @ evs1) @ evs2)"
    "p_xml_sent pr2 = p_xml_sent pr1" "p_json_sent pr2 = p_json_sent pr1" "fold request_event evs2 = g"
    using assms(2) unfolding calls_def by blast
  have "fold request_event (evs1 @ evs2) = g \<circ> f" using 1(4) 2(4) by simp
  then show "\<exists>pr' evs'. perform (http_act buf) (tr @ tr') (pr, evs) = (pr', evs @ evs')
        \<and> p_xml_sent pr' = p_xml_sent pr \<and> p_json_sent pr' = p_json_sent pr \<and> fold request_event evs' = g \<circ> f"
    using 1 2 by (intro exI [of _ pr2] exI [of _ "evs1 @ evs2"]) simp
qed

abbreviation on_request :: "(request \<Rightarrow> request) \<Rightarrow> request_parser \<Rightarrow> request_parser" where
  "on_request f rp \<equiv> rp\<lparr>rp_request := f (rp_request rp)\<rparr>"

lemma calls_field:
  assumes "buf = pre @ field_text f @ post" and "good_field f"
  shows "calls buf (field_trace (length pre) f) (case f of (k, sp, v) \<Rightarrow> on_request (setHeader k v))"
  using assms by (cases f)
    (auto simp: calls_def field_trace_def field_text_def Let_def good_field_def on_request_http_field_def fun_eq_iff)

lemma calls_fields:
  assumes "buf = pre @ concat (map field_text fs) @ post" and "list_all good_field fs"
  shows "calls buf (fields_trace (length pre) fs) (on_request (fold (\<lambda>(k, sp, v). setHeader k v) fs))"
  using assms
proof (induction fs arbitrary: pre)
  case Nil
  then show ?case by (auto simp: calls_def fun_eq_iff)
next
  case (Cons f fs)
  have "calls buf (field_trace (length pre) f @ fields_trace (length (pre @ field_text f)) fs)
     (on_request (fold (\<lambda>(k, sp, v). setHeader k v) fs) \<circ> (case f of (k, sp, v) \<Rightarrow> on_request (setHeader k v)))"
    by (intro calls_append calls_field Cons.IH) (use Cons.prems in auto)
  moreover have "on_request (fold (\<lambda>(k, sp, v). setHeader k v) fs) \<circ> (case f of (k, sp, v) \<Rightarrow> on_request (setHeader k v))
      = on_request (fold (\<lambda>(k, sp, v). setHeader k v) (f # fs))"
    by (cases f) (simp add: fun_eq_iff)
  ultimately show ?case by simp
qed

lemma calls_uri:
  assumes "buf = pre @ path @ query_part query @ fragment_part fragment @ post"
  shows "calls buf ((H_Mark, length pre) # query_trace (length pre + length path) query
        @ fragment_trace (length pre + length path + length (query_part query)) fragment)
     (on_request (\<lambda>rq. rq\<lparr>rq_path := path, rq_query := (if query = [] then rq_query rq else query),
        rq_fragment := (if fragment = [] then rq_fragment rq else fragment)\<rparr>))"
  using assms
  by (auto simp: calls_def query_trace_def fragment_trace_def query_part_def fragment_part_def fun_eq_iff
      on_request_path_def on_request_query_string_def on_request_fragment_def)

lemma calls_version:
  assumes "buf = pre @ version_text v @ CRLF @ post" and "v = 0x10 \<or> v = 0x11"
  shows "calls buf [(H_Mark, length pre), (H_Http_version, length pre + 8)] (on_request (\<lambda>rq. rq\<lparr>rq_version := v\<rparr>))"
proof -
  have t: "version_text 0x10 = ''HTTP/1.0''" "version_text 0x11 = ''HTTP/1.1''" by code_simp+
  have "version_of (version_text v @ rest) 8 = Some v" for rest
    using assms(2) by (auto simp: t version_of_def strncmp_eq_def c_str_def)
  then show ?thesis using assms(1) by (auto simp: calls_def fun_eq_iff on_request_http_version_def)
qed

lemma calls_method:
  assumes "buf = HttpMethodToString m @ post" and "m \<noteq> INVALID_METHOD"
  shows "calls buf [(H_Mark, 0), (H_Request_method, n)] (on_request (\<lambda>rq. rq\<lparr>rq_method := m\<rparr>))"
  using method_names_read_back [OF assms(2), of post] assms
  by (auto simp: calls_def fun_eq_iff on_request_method_def Let_def)

section \<open>The whole request\<close>

definition request_text :: "HttpMethod \<Rightarrow> string \<Rightarrow> string \<Rightarrow> string \<Rightarrow> 8 word \<Rightarrow> field_line list \<Rightarrow> string" where
  "request_text m path query fragment v fs =
     HttpMethodToString m @ '' '' @ path @ query_part query @ fragment_part fragment @ '' '' @ version_text v @ CRLF
     @ concat (map field_text fs) @ CRLF"

definition good_request :: "HttpMethod \<Rightarrow> string \<Rightarrow> string \<Rightarrow> string \<Rightarrow> 8 word \<Rightarrow> field_line list \<Rightarrow> bool" where
  "good_request m path query fragment v fs \<longleftrightarrow>
     m \<notin> {INVALID_METHOD, MSEARCH} \<and> good_path path \<and> pct_text query_char query \<and> pct_text query_char fragment
     \<and> v \<in> {0x10, 0x11} \<and> list_all good_field fs"

definition read_request :: "HttpMethod \<Rightarrow> string \<Rightarrow> string \<Rightarrow> string \<Rightarrow> 8 word \<Rightarrow> field_line list \<Rightarrow> request \<Rightarrow> request" where
  "read_request m path query fragment v fs rq =
     fold (\<lambda>(k, sp, v). setHeader k v) fs
       (rq\<lparr>rq_method := m, rq_path := path, rq_query := (if query = [] then rq_query rq else query),
          rq_fragment := (if fragment = [] then rq_fragment rq else fragment), rq_version := v\<rparr>)"

lemma method_texts:
  assumes "m \<notin> {INVALID_METHOD, MSEARCH}"
  shows "list_all method_char (HttpMethodToString m)" "HttpMethodToString m \<noteq> []" "length (HttpMethodToString m) \<le> 20"
proof -
  have "\<forall>(m, s) \<in> set method_strings. m \<noteq> MSEARCH \<longrightarrow> list_all method_char s \<and> s \<noteq> [] \<and> length s \<le> 20"
    by (simp add: method_strings_def method_char_def char_val_def)
  moreover have "(m, HttpMethodToString m) \<in> set method_strings" using assms by (intro method_in_table) simp
  ultimately show "list_all method_char (HttpMethodToString m)" "HttpMethodToString m \<noteq> []" "length (HttpMethodToString m) \<le> 20"
    using assms by auto
qed

text \<open>
  The head behind the method, with whatever the machine did (\<open>tm\<close>) and told the callbacks (\<open>evs1\<close>)
  while it came to the blank behind the method.
\<close>

definition rest_text :: "string \<Rightarrow> string \<Rightarrow> string \<Rightarrow> 8 word \<Rightarrow> field_line list \<Rightarrow> string" where
  "rest_text path query fragment v fs =
     path @ query_part query @ fragment_part fragment @ '' '' @ version_text v @ CRLF @ concat (map field_text fs) @ CRLF"

definition read_rest :: "string \<Rightarrow> string \<Rightarrow> string \<Rightarrow> 8 word \<Rightarrow> field_line list \<Rightarrow> request \<Rightarrow> request" where
  "read_rest path query fragment v fs rq =
     fold (\<lambda>(k, sp, v). setHeader k v) fs
       (rq\<lparr>rq_path := path, rq_query := (if query = [] then rq_query rq else query),
          rq_fragment := (if fragment = [] then rq_fragment rq else fragment), rq_version := v\<rparr>)"

lemma rest_text_runs:
  assumes "good_request m path query fragment v fs" and buf: "buf = pre @ rest_text path query fragment v fs @ body"
    and tm: "trace (http_code r) req_brk pre 0 s = Some (3, tm)" and evs1: "perform (http_act buf) tm (pr, []) = (pr1, evs1)"
    and "\<not> p_xml_sent pr1" and "\<not> p_json_sent pr1"
  shows "\<exists>pr' evs. run_machine (http_code r) (http_act buf) req_brk 2 buf 0 s (pr, [])
      = (348, length (pre @ rest_text path query fragment v fs), pr', evs)
    \<and> fold request_event evs = on_request (read_rest path query fragment v fs) \<circ> fold request_event evs1"
proof -
  have ok: "good_path path" "pct_text query_char query" "pct_text query_char fragment"
      "v = 0x10 \<or> v = 0x11" "list_all good_field fs"
    using assms(1) by (auto simp: good_request_def)
  let ?u = "path @ query_part query @ fragment_part fragment @ '' ''"
  let ?v = "version_text v @ CRLF" and ?fs = "concat (map field_text fs)"
  let ?p1 = "length pre" and ?p2 = "length (pre @ ?u)" and ?p3 = "length (pre @ ?u @ ?v)" and ?p4 = "length (pre @ ?u @ ?v @ ?fs)"
  let ?tu = "(H_Mark, ?p1) # query_trace (?p1 + length path) query @ fragment_trace (?p1 + length path + length (query_part query)) fragment"
  let ?tv = "[(H_Mark, ?p2), (H_Http_version, ?p2 + 8)]" and ?tf = "fields_trace ?p3 fs"
  let ?tr = "?tu @ ?tv @ ?tf @ [(H_Start_field, ?p4)]"
  have tr: "trace (http_code r) req_brk (pre @ ?u @ ?v @ ?fs @ [CHR 0x0D]) 0 s = Some (18, tm @ ?tr)"
  proof (intro trace_append)
    show "trace (http_code r) req_brk pre 0 s = Some (3, tm)" by (rule tm)
    show "trace (http_code r) req_brk ?u (0 + length pre) 3 = Some (4, ?tu)" using trace_uri [OF ok(1-3), of r ?p1] by simp
    show "trace (http_code r) req_brk ?v (0 + length pre + length ?u) 4 = Some (13, ?tv)"
      using trace_version [OF ok(4), of r ?p2] by simp
    show "trace (http_code r) req_brk ?fs (0 + length pre + length ?u + length ?v) 13 = Some (13, ?tf)"
      using trace_fields [OF ok(5), of r ?p3] by (simp add: add.assoc)
    show "trace (http_code r) req_brk [CHR 0x0D] (0 + length pre + length ?u + length ?v + length ?fs) 13 = Some (18, [(H_Start_field, ?p4)])"
      by (simp add: field_steps add.assoc)
  qed
  have parts: "calls buf ?tr
      ((((\<lambda>rp. rp) \<circ> on_request (fold (\<lambda>(k, sp, v). setHeader k v) fs)) \<circ> on_request (\<lambda>rq. rq\<lparr>rq_version := v\<rparr>))
        \<circ> on_request (\<lambda>rq. rq\<lparr>rq_path := path, rq_query := (if query = [] then rq_query rq else query),
            rq_fragment := (if fragment = [] then rq_fragment rq else fragment)\<rparr>))"
  proof (intro calls_append)
    show "calls buf ?tv (on_request (\<lambda>rq. rq\<lparr>rq_version := v\<rparr>))"
      using ok(4) by (intro calls_version [where post = "?fs @ CRLF @ body"]) (simp_all add: buf rest_text_def)
    show "calls buf ?tf (on_request (fold (\<lambda>(k, sp, v). setHeader k v) fs))"
      using ok(5) by (intro calls_fields [where post = "CRLF @ body"]) (simp_all add: buf rest_text_def)
    show "calls buf ?tu (on_request (\<lambda>rq. rq\<lparr>rq_path := path, rq_query := (if query = [] then rq_query rq else query),
            rq_fragment := (if fragment = [] then rq_fragment rq else fragment)\<rparr>))"
      by (rule calls_uri [where post = "'' '' @ ?v @ ?fs @ CRLF @ body"]) (simp add: buf rest_text_def)
    show "calls buf [(H_Start_field, ?p4)] (\<lambda>rp. rp)" by (simp add: calls_def fun_eq_iff)
  qed
  have all: "((((\<lambda>rp. rp) \<circ> on_request (fold (\<lambda>(k, sp, v). setHeader k v) fs)) \<circ> on_request (\<lambda>rq. rq\<lparr>rq_version := v\<rparr>))
        \<circ> on_request (\<lambda>rq. rq\<lparr>rq_path := path, rq_query := (if query = [] then rq_query rq else query),
            rq_fragment := (if fragment = [] then rq_fragment rq else fragment)\<rparr>)) = on_request (read_rest path query fragment v fs)"
    by (simp add: fun_eq_iff read_rest_def)
  obtain pr2 evs2 where ev: "perform (http_act buf) ?tr (pr1, evs1) = (pr2, evs1 @ evs2)"
    "p_xml_sent pr2 = p_xml_sent pr1" "p_json_sent pr2 = p_json_sent pr1"
    "fold request_event evs2 = on_request (read_rest path query fragment v fs)"
    using parts unfolding all calls_def by blast
  have ev': "perform (http_act buf) (tm @ ?tr) (pr, []) = (pr2, evs1 @ evs2)" using ev(1) evs1 by simp
  have whole: "(pre @ ?u @ ?v @ ?fs @ [CHR 0x0D]) @ CHR 0x0A # body = buf" by (simp add: buf rest_text_def CRLF_def)
  have len: "length (pre @ rest_text path query fragment v fs) = length (pre @ ?u @ ?v @ ?fs @ [CHR 0x0D]) + 1"
    by (simp add: rest_text_def CRLF_def)
  note run = run_trace [OF tr, of "http_act buf" 2 "CHR 0x0A # body" "(pr, [])", unfolded whole ev' add_0]
  show ?thesis unfolding run len using assms(5,6) ev(2-4) by (simp add: field_steps(6) comp_def fun_eq_iff)
qed

lemma request_text_rest:
  "request_text m path query fragment v fs = (HttpMethodToString m @ '' '') @ rest_text path query fragment v fs"
  "read_request m path query fragment v fs rq = read_rest path query fragment v fs (rq\<lparr>rq_method := m\<rparr>)"
  by (simp_all add: request_text_def rest_text_def read_request_def read_rest_def)

lemma request_text_runs:
  assumes "good_request m path query fragment v fs" and buf: "buf = request_text m path query fragment v fs @ body"
    and "\<not> p_xml_sent pr" and "\<not> p_json_sent pr"
  shows "\<exists>pr' evs. run_machine (http_code r) (http_act buf) req_brk 2 buf 0 1 (pr, [])
      = (348, length (request_text m path query fragment v fs), pr', evs)
    \<and> fold request_event evs = on_request (read_request m path query fragment v fs)"
proof -
  have m: "m \<notin> {INVALID_METHOD, MSEARCH}" using assms(1) by (simp add: good_request_def)
  let ?tm = "[(H_Mark, 0), (H_Request_method, length (HttpMethodToString m))]"
  have "calls buf ?tm (on_request (\<lambda>rq. rq\<lparr>rq_method := m\<rparr>))"
    using m by (intro calls_method) (simp_all add: buf request_text_def)
  then obtain pr1 evs1 where ev: "perform (http_act buf) ?tm (pr, []) = (pr1, [] @ evs1)"
    "p_xml_sent pr1 = p_xml_sent pr" "p_json_sent pr1 = p_json_sent pr"
    "fold request_event evs1 = on_request (\<lambda>rq. rq\<lparr>rq_method := m\<rparr>)"
    unfolding calls_def by blast
  have "\<exists>pr' evs. run_machine (http_code r) (http_act buf) req_brk 2 buf 0 1 (pr, [])
      = (348, length (request_text m path query fragment v fs), pr', evs)
    \<and> fold request_event evs = on_request (read_rest path query fragment v fs) \<circ> fold request_event evs1"
    unfolding request_text_rest(1)
  proof (rule rest_text_runs [OF assms(1)])
    show "buf = (HttpMethodToString m @ '' '') @ rest_text path query fragment v fs @ body" by (simp add: buf request_text_rest)
    show "trace (http_code r) req_brk (HttpMethodToString m @ '' '') 0 1 = Some (3, ?tm)"
      by (rule trace_request_method [OF method_texts [OF m]])
    show "perform (http_act buf) ?tm (pr, []) = (pr1, evs1)" using ev(1) by (simp only: append_Nil)
  qed (use ev(2,3) assms(3,4) in simp_all)
  then show ?thesis unfolding ev(4) by (simp add: fun_eq_iff request_text_rest(2))
qed

section \<open>No assertion fails\<close>

definition http_inv :: "nat \<Rightarrow> nat \<Rightarrow> http_regs \<Rightarrow> bool" where
  "http_inv len p = (\<lambda>(pr, evs). p_mark pr \<le> p \<and> p_mark pr < len \<and> p_field_start pr \<le> p \<and> p_field_start pr < len
     \<and> p_field_len pr \<le> len \<and> p_body_start pr \<le> len)"

interpretation http_keeps: machine_inv "http_act buffer" "length buffer" "http_inv (length buffer)" for buffer
proof
  fix a :: http_action and p r
  assume "p < length buffer" "http_inv (length buffer) p r"
  then show "http_inv (length buffer) p (http_act buffer a p r)"
    by (cases r; cases a) (auto simp: http_inv_def)
qed (auto simp: http_inv_def)

lemma request_execute_run:
  assumes "run_machine (http_code (p_uri_relaxed p0)) (http_act data) req_brk 2 data 0 (p_cs p0) (p0, []) = (cs, n, pr, evs)"
    and "p0 = (rp_parser rp)\<lparr>p_nread := 0, p_mark := 0, p_field_len := 0, p_field_start := 0\<rparr>"
    and "data \<noteq> []" and "p_cs p0 \<noteq> 0" and "p_body_start p0 \<le> length data"
  shows "request_execute http_run data rp
    = Inr (n, drop n data, (fold request_event evs rp)\<lparr>rp_parser := pr\<lparr>p_cs := cs, p_nread := n\<rparr>\<rparr>)"
proof -
  have "http_inv (length data) 0 (p0, [])" using assms(2,3,5) by (simp add: http_inv_def)
  from http_keeps.run_keeps [OF this, of data "http_code (p_uri_relaxed p0)" req_brk 2 "p_cs p0"]
  have "http_inv (length data) n (pr, evs)" "n \<le> length data" unfolding assms(1) prod.case by simp_all
  moreover have "http_run p0 data = (pr\<lparr>p_cs := cs\<rparr>, n, evs)" unfolding http_run_def assms(1) by simp
  ultimately show ?thesis using assms(3,4) unfolding assms(2)
    by (simp add: request_execute_def http_parser_execute_def http_inv_def Let_def http_parser_has_error_def http_parser_error_def)
qed



section \<open>The round trip\<close>

text \<open>The fields as they are printed, and the requests whose text is one the machine knows.\<close>

definition printed_fields :: "request \<Rightarrow> field_line list" where
  "printed_fields rq =
     (''connection'', [], if rq_close rq then ''close'' else ''keep-alive'')
     # map (\<lambda>(k, v). (k, [], v)) (filter (\<lambda>(k, v). strcasecmp k ''connection'' \<noteq> 0) (rq_headers rq))
     @ (if rq_body rq = [] then [] else [(''content-length'', '' '', dec_digits (length (rq_body rq)))])"

definition printable :: "request \<Rightarrow> bool" where
  "printable rq \<longleftrightarrow> rq_method rq \<notin> {INVALID_METHOD, MSEARCH} \<and> good_path (rq_path rq) \<and> pct_text query_char (rq_query rq)
     \<and> pct_text query_char (rq_fragment rq) \<and> rq_version rq \<in> {0x10, 0x11}
     \<and> list_all (\<lambda>(k, v). good_field (k, [], v)) (rq_headers rq)"

text \<open>What is printed in front of the body.\<close>

definition request_head :: "request \<Rightarrow> string" where
  "request_head rq =
     request_text (rq_method rq) (rq_path rq) (rq_query rq) (rq_fragment rq) (rq_version rq) (printed_fields rq)"

lemma dump_request_text: "dump_request rq = request_head rq @ rq_body rq"
proof -
  have "dump_fields m = concat (map field_text (map (\<lambda>(k, v). (k, [], v)) (filter (\<lambda>(k, v). strcasecmp k ''connection'' \<noteq> 0) m)))" for m
    by (induction m) (auto simp: dump_fields_def field_text_def)
  then show ?thesis
    by (simp add: dump_request_def request_head_def request_text_def printed_fields_def dump_body_def query_part_def fragment_part_def field_text_def)
qed

lemma printed_fields_good:
  assumes "list_all (\<lambda>(k, v). good_field (k, [], v)) (rq_headers rq)"
  shows "list_all good_field (printed_fields rq)"
proof -
  have "good_field (''connection'', [], ''close'')" "good_field (''connection'', [], ''keep-alive'')"
    by (simp_all add: good_field_def token_char_def value_char_def char_val_def)
  moreover have "good_field (''content-length'', '' '', dec_digits n)" for n
  proof -
    have "48 \<le> char_val c \<and> char_val c \<le> 57" if "c \<in> set (dec_digits n)" for c
    proof -
      have "(of_char c :: int) = int (of_char c)" by (simp only: of_nat_of_char)
      then show ?thesis using dec_digits_range [OF that] unfolding char_val_def Let_def by auto
    qed
    then have "\<forall>c \<in> set (dec_digits n). value_char c \<and> char_val c \<notin> {9, 32}" by (force simp: value_char_def)
    moreover have "dec_digits n \<noteq> []" by (subst dec_digits.simps) simp
    ultimately show ?thesis using hd_in_set [of "dec_digits n"]
      by (auto simp: good_field_def list_all_iff token_char_def char_val_def)
  qed
  ultimately show ?thesis using assms by (auto simp: printed_fields_def list_all_iff)
qed

lemma ci_abs_fold:
  assumes "ci_sorted m"
  shows "ci_abs (fold (\<lambda>(k, v). ci_set k v) m m0) = ci_abs m0 ++ ci_abs m"
  using assms
proof (induction m arbitrary: m0)
  case (Cons kv m)
  obtain k v where kv: "kv = (k, v)" by (cases kv)
  have "ci_abs m (fold_key k) = None" using Cons.prems by (intro ci_abs_below) (auto simp: kv)
  then show ?case using Cons
    by (auto simp: kv ci_set_abs map_add_def fun_eq_iff split: option.splits)
qed simp

lemma fold_fields:
  assumes "ci_sorted m"
  shows "ci_abs (rq_headers (fold (\<lambda>(k, v). setHeader k v) m rq)) = ci_abs (rq_headers rq) ++ ci_abs m"
proof -
  have "rq_headers (fold (\<lambda>(k, v). setHeader k v) m rq) = fold (\<lambda>(k, v). ci_set k v) m (rq_headers rq)"
    by (induction m arbitrary: rq) (auto simp: setHeader_def)
  then show ?thesis using ci_abs_fold [OF assms] by simp
qed

lemma ci_sorted_filter: "ci_sorted m \<Longrightarrow> ci_sorted (filter P m)"
  by (induction m) auto

lemma setHeader_rest:
  "rq_method (setHeader k v rq) = rq_method rq" "rq_path (setHeader k v rq) = rq_path rq" "rq_query (setHeader k v rq) = rq_query rq"
  "rq_fragment (setHeader k v rq) = rq_fragment rq" "rq_version (setHeader k v rq) = rq_version rq"
  "rq_close (setHeader k v rq) = rq_close rq" "rq_body (setHeader k v rq) = rq_body rq"
  by (simp_all add: setHeader_def)

lemma fold_setHeader_rest:
  "rq_method (fold (\<lambda>(k, v). setHeader k v) m rq) = rq_method rq" "rq_path (fold (\<lambda>(k, v). setHeader k v) m rq) = rq_path rq"
  "rq_query (fold (\<lambda>(k, v). setHeader k v) m rq) = rq_query rq" "rq_fragment (fold (\<lambda>(k, v). setHeader k v) m rq) = rq_fragment rq"
  "rq_version (fold (\<lambda>(k, v). setHeader k v) m rq) = rq_version rq" "rq_body (fold (\<lambda>(k, v). setHeader k v) m rq) = rq_body rq"
  by (induction m arbitrary: rq) (auto simp: setHeader_rest)

lemma ci_abs_filter:
  "ci_abs (filter (\<lambda>(k, v). fold_key k \<noteq> K) m) = (ci_abs m)(K := None)"
  by (induction m) (auto simp: fun_eq_iff)

text \<open>The head is read in the same way whatever has come behind it.\<close>

lemma request_head_read:
  assumes "printable rq" and "ci_sorted (rq_headers rq)"
  shows "\<exists>pr R. request_execute http_run (request_head rq @ rest) (HttpRequestParser p) =
      Inr (length (request_head rq), rest, \<lparr>rp_parser = pr, rp_request = R, rp_error = 0\<rparr>)
    \<and> http_parser_finish pr = 1 \<and> rq_body R = []
    \<and> rq_method R = rq_method rq \<and> rq_path R = rq_path rq \<and> rq_query R = rq_query rq \<and> rq_fragment R = rq_fragment rq
    \<and> rq_version R = rq_version rq \<and> rq_close (init_request R) = rq_close rq
    \<and> (\<forall>key. ci_find key (rq_headers R) =
          (if rq_body rq \<noteq> [] \<and> fold_key key = fold_key ''content-length'' then Some (dec_digits (length (rq_body rq)))
           else if fold_key key = fold_key ''connection'' then Some (if rq_close rq then ''close'' else ''keep-alive'')
           else ci_find key (rq_headers rq)))"
proof -
  let ?t = "request_head rq"
  let ?R = "read_request (rq_method rq) (rq_path rq) (rq_query rq) (rq_fragment rq) (rq_version rq) (printed_fields rq) (HttpRequest 0x11 True)"
  let ?p0 = "(http_parser_init p)\<lparr>p_nread := 0, p_mark := 0, p_field_len := 0, p_field_start := 0\<rparr>"
  have good: "good_request (rq_method rq) (rq_path rq) (rq_query rq) (rq_fragment rq) (rq_version rq) (printed_fields rq)"
    using assms(1) printed_fields_good by (simp add: printable_def good_request_def)
  have flags: "\<not> p_xml_sent ?p0" "\<not> p_json_sent ?p0" by (simp_all add: http_parser_init_def)
  obtain pr evs where run: "run_machine (http_code (p_uri_relaxed ?p0)) (http_act (?t @ rest)) req_brk 2 (?t @ rest) 0 1 (?p0, [])
      = (348, length ?t, pr, evs)" and evs: "fold request_event evs = on_request (read_request (rq_method rq) (rq_path rq) (rq_query rq)
        (rq_fragment rq) (rq_version rq) (printed_fields rq))"
    using request_text_runs [OF good _ flags, of "?t @ rest" rest] unfolding request_head_def by blast
  let ?hs = "filter (\<lambda>(k, v). strcasecmp k ''connection'' \<noteq> 0) (rq_headers rq)"
  let ?con = "if rq_close rq then ''close'' else ''keep-alive''"
  let ?rq0 = "(HttpRequest 0x11 True)\<lparr>rq_method := rq_method rq, rq_path := rq_path rq, rq_query := rq_query rq,
    rq_fragment := rq_fragment rq, rq_version := rq_version rq\<rparr>"
  have hs: "?hs = filter (\<lambda>(k, v). fold_key k \<noteq> fold_key ''connection'') (rq_headers rq)" by (simp add: strcasecmp_zero_iff)
  have split: "?R = (if rq_body rq = [] then id else setHeader ''content-length'' (dec_digits (length (rq_body rq))))
      (fold (\<lambda>(k, v). setHeader k v) ?hs (setHeader ''connection'' ?con ?rq0))"
    by (simp add: read_request_def printed_fields_def fold_map HttpRequest_def comp_def split_def)
  have sorted1: "ci_sorted (rq_headers (setHeader ''connection'' ?con ?rq0))" by (simp add: setHeader_def HttpRequest_def)
  have sorted2: "ci_sorted (rq_headers (fold (\<lambda>(k, v). setHeader k v) ?hs (setHeader ''connection'' ?con ?rq0)))"
    by (rule rq_head.put_all_inv [OF sorted1])
  have abs: "ci_abs (rq_headers (fold (\<lambda>(k, v). setHeader k v) ?hs (setHeader ''connection'' ?con ?rq0)))
      = [fold_key ''connection'' \<mapsto> ?con] ++ (ci_abs (rq_headers rq))(fold_key ''connection'' := None)"
    using fold_fields [OF ci_sorted_filter [OF assms(2)], of "\<lambda>(k, v). fold_key k \<noteq> fold_key ''connection''" "setHeader ''connection'' ?con ?rq0"]
    unfolding hs ci_abs_filter by (simp add: setHeader_def HttpRequest_def)
  have fields: "ci_find key (rq_headers ?R) =
      (if rq_body rq \<noteq> [] \<and> fold_key key = fold_key ''content-length'' then Some (dec_digits (length (rq_body rq)))
       else if fold_key key = fold_key ''connection'' then Some ?con else ci_find key (rq_headers rq))" for key
    unfolding split using rq_head.look_put [OF sorted2] ci_find_abs [OF sorted2] ci_find_abs [OF assms(2)] abs
    by (auto simp: map_add_def split: option.splits)
  have line: "rq_method ?R = rq_method rq" "rq_path ?R = rq_path rq" "rq_query ?R = rq_query rq" "rq_fragment ?R = rq_fragment rq"
    "rq_version ?R = rq_version rq" "rq_body ?R = []"
    unfolding split by (simp_all add: setHeader_rest fold_setHeader_rest HttpRequest_def)
  have fin: "request_execute http_run (?t @ rest) (HttpRequestParser p) =
      Inr (length ?t, rest, \<lparr>rp_parser = pr\<lparr>p_cs := 348, p_nread := length ?t\<rparr>, rp_request = ?R, rp_error = 0\<rparr>)"
    using run evs by (subst request_execute_run [where ?p0.0 = ?p0 and cs = 348 and n = "length ?t" and pr = pr and evs = evs])
      (simp_all add: HttpRequestParser_def http_parser_init_def http_parser_start_def request_head_def request_text_def)
  have "rq_close (init_request ?R) = rq_close rq"
  proof -
    have "strcasecmp ''close'' ''keep-alive'' \<noteq> 0" "strcasecmp ''keep-alive'' ''keep-alive'' = 0"
      "fold_key ''connection'' \<noteq> fold_key ''content-length''" by code_simp+
    then show ?thesis using fields [of "''connection''"] by (simp add: init_request_def getHeadr_def Let_def)
  qed
  moreover have "http_parser_finish (pr\<lparr>p_cs := 348, p_nread := length ?t\<rparr>) = 1"
    by (simp add: http_parser_finish_def http_parser_has_error_def http_parser_is_finished_def http_parser_error_def
        http_parser_first_final_def)
  ultimately show ?thesis using fin line fields by (intro exI [of _ "pr\<lparr>p_cs := 348, p_nread := length ?t\<rparr>"] exI [of _ ?R]) simp
qed

text \<open>
  C7: A request with a known method (except \<open>M-SEARCH\<close>), a path, query and fragment of the characters
  of a URI, and fields that are tokens with values, printed and received in one buffer, is read back: the
  parser goes over exactly the head, is finished without an error, and has the method, path, query,
  fragment and version of the request, its fields, and the connection and length lines.
\<close>

theorem printed_request_is_read:
  assumes "printable rq" and "ci_sorted (rq_headers rq)"
  shows "\<exists>pr R. request_execute http_run (dump_request rq) (HttpRequestParser p) =
      Inr (length (dump_request rq) - length (rq_body rq), rq_body rq, \<lparr>rp_parser = pr, rp_request = R, rp_error = 0\<rparr>)
    \<and> http_parser_finish pr = 1
    \<and> rq_method R = rq_method rq \<and> rq_path R = rq_path rq \<and> rq_query R = rq_query rq \<and> rq_fragment R = rq_fragment rq
    \<and> rq_version R = rq_version rq \<and> rq_close (init_request R) = rq_close rq
    \<and> (\<forall>key. ci_find key (rq_headers R) =
          (if rq_body rq \<noteq> [] \<and> fold_key key = fold_key ''content-length'' then Some (dec_digits (length (rq_body rq)))
           else if fold_key key = fold_key ''connection'' then Some (if rq_close rq then ''close'' else ''keep-alive'')
           else ci_find key (rq_headers rq)))"
  using request_head_read [OF assms, of "rq_body rq" p] unfolding dump_request_text by auto

theorem printed_request_is_read_witness:
  "\<exists>pr R. request_execute http_run (dump_request sample_request)
        (HttpRequestParser (http_parser.make 0 0 0 0 0 0 0 0 False False False)) =
      Inr (length (dump_request sample_request) - 2, ''hi'', \<lparr>rp_parser = pr, rp_request = R, rp_error = 0\<rparr>)
    \<and> http_parser_finish pr = 1 \<and> rq_path R = ''/x''"
proof -
  have "printable sample_request" "ci_sorted (rq_headers sample_request)" by code_simp+
  from printed_request_is_read [OF this, of "http_parser.make 0 0 0 0 0 0 0 0 False False False"]
  show ?thesis by (auto simp: sample_request_def setHeader_def HttpRequest_def)
qed

section \<open>A request in two buffers\<close>

lemma run_all:
  assumes "trace code brk xs p s = Some (s1, tr)"
  shows "run_machine code act brk eof xs p s r = (s1, p + length xs, perform act tr r)"
  using run_trace [OF assms, of act eof "[]" r] by simp

lemma method_cut:
  assumes "list_all method_char m" and "length m \<le> 20" and "0 < k" and "k < length m"
  shows "trace (http_code r) req_brk (take k m) 0 1 = Some (method_states ! (k - 1), [(H_Mark, 0)])"
    and "trace (http_code r) req_brk (drop k m @ '' '') 0 (method_states ! (k - 1)) = Some (3, [(H_Request_method, length m - k)])"
proof -
  obtain c xs where m: "m = c # xs" "method_char c" "list_all method_char xs" using assms by (cases m) auto
  have k: "k = Suc (k - 1)" "k - 1 \<le> length xs" "length xs < length method_states"
    using assms(2-4) by (simp_all add: m method_states_def)
  have xs: "list_all method_char (take (k - 1) xs)" "list_all method_char (drop (k - 1) xs)"
    using m(3) by (auto simp: list_all_iff dest: in_set_takeD in_set_dropD)
  have cut: "take k m = c # take (k - 1) xs" "drop k m = drop (k - 1) xs" using k(1) by (simp_all add: m take_Cons' drop_Cons')
  have "trace (http_code r) req_brk (take (k - 1) xs) 1 2 = Some (method_states ! (k - 1), [])"
    using trace_method [OF xs(1), of 0 r 1] k by (simp add: method_states_def)
  then show "trace (http_code r) req_brk (take k m) 0 1 = Some (method_states ! (k - 1), [(H_Mark, 0)])"
    using method_steps(1) [OF m(2)] by (simp add: cut)
  have "trace (http_code r) req_brk (drop (k - 1) xs) 0 (method_states ! (k - 1)) = Some (method_states ! length xs, [])"
    using trace_method [OF xs(2), of "k - 1" r 0] k by simp
  moreover have "next_state (http_code r) (method_states ! length xs) (CHR '' '') = Some ([H_Request_method], 3)"
    using end_of_method [of r] k(3) by (simp add: list_all_length)
  ultimately show "trace (http_code r) req_brk (drop k m @ '' '') 0 (method_states ! (k - 1)) = Some (3, [(H_Request_method, length m - k)])"
    unfolding cut using k(1) by (intro trace_append [where ?t1.0 = "[]", simplified]) (auto simp: m)
qed

lemma method_states_small: "k < length method_states \<Longrightarrow> 0 < method_states ! k \<and> method_states ! k < 348"
  using nth_mem [of k method_states] by (auto simp: method_states_def)

lemma read_rest_keeps:
  "rq_method (read_rest path query fragment v fs rq) = rq_method rq" "rq_path (read_rest path query fragment v fs rq) = path"
proof -
  have "rq_method (fold (\<lambda>(k, sp, v). setHeader k v) fs rq) = rq_method rq \<and> rq_path (fold (\<lambda>(k, sp, v). setHeader k v) fs rq) = rq_path rq" for rq
    by (induction fs arbitrary: rq) (auto simp: setHeader_rest)
  then show "rq_method (read_rest path query fragment v fs rq) = rq_method rq" "rq_path (read_rest path query fragment v fs rq) = path"
    by (simp_all add: read_rest_def)
qed

text \<open>What is left of a name is never that name.\<close>

lemma first_method_found:
  "first_method P tab \<noteq> INVALID_METHOD \<Longrightarrow> \<exists>s. (first_method P tab, s) \<in> set tab \<and> P s"
  by (induction P tab rule: first_method.induct) (auto split: if_splits)

lemma cut_method_differs:
  assumes "m \<notin> {INVALID_METHOD, MSEARCH}" and "0 < k" and "k < length (HttpMethodToString m)"
  shows "CharsToHttpMethod (drop k (HttpMethodToString m) @ CHR '' '' # rest) \<noteq> m"
proof
  let ?m = "HttpMethodToString m" and ?s = "drop k (HttpMethodToString m) @ CHR '' '' # rest"
  assume found: "CharsToHttpMethod ?s = m"
  have "CharsToHttpMethod ?s \<noteq> INVALID_METHOD" using found assms(1) by simp
  from first_method_found [OF this [unfolded CharsToHttpMethod_def], folded CharsToHttpMethod_def]
  obtain s where s: "(m, s) \<in> set method_strings" "take (length s) (c_str ?s) = s" unfolding found by blast
  have s_m: "s = ?m" using s(1) by (auto simp: HttpMethodToString_def method_strings_def)
  have ch: "list_all method_char ?m" using method_texts(1) [OF assms(1)] .
  then have "list_all method_char (drop k ?m)" by (auto simp: list_all_iff dest: in_set_dropD)
  then have "CHR 0x00 \<notin> set (drop k ?m)" by (auto simp: list_all_iff method_char_def char_val_def)
  then have "c_str ?s = drop k ?m @ CHR '' '' # c_str rest" by (simp add: c_str_append) (simp add: c_str_def)
  moreover have "CHR '' '' \<in> set (take (length ?m) (drop k ?m @ CHR '' '' # c_str rest))"
    using assms(2,3) by (simp add: take_Cons')
  ultimately have "CHR '' '' \<in> set ?m" using s(2) unfolding s_m by metis
  then show False using ch by (auto simp: list_all_iff method_char_def char_val_def)
qed

text \<open>
  The marks are set back for every buffer, so a request whose method arrives in two buffers is never
  read as it was sent: both buffers are taken in whole and the request counts as finished, but its method
  is wrong, or the error of an unknown method is set.
\<close>

theorem cut_method_is_misread:
  assumes "printable rq" and "0 < k" and "k < length (HttpMethodToString (rq_method rq))"
  shows "\<exists>rp1 rp2. request_execute http_run (take k (dump_request rq)) (HttpRequestParser p) = Inr (k, [], rp1)
    \<and> request_isFinished rp1 = 0 \<and> rp_error rp1 = 0
    \<and> request_execute http_run (drop k (dump_request rq)) rp1
        = Inr (length (dump_request rq) - k - length (rq_body rq), rq_body rq, rp2)
    \<and> request_isFinished rp2 = 1 \<and> rq_path (rp_request rp2) = rq_path rq
    \<and> (rp_error rp2 = INVALID_METHOD_CODE \<or> rp_error rp2 = 0 \<and> rq_method (rp_request rp2) \<noteq> rq_method rq)"
proof -
  let ?m = "HttpMethodToString (rq_method rq)" and ?s = "method_states ! (k - 1)"
  let ?r = "rest_text (rq_path rq) (rq_query rq) (rq_fragment rq) (rq_version rq) (printed_fields rq)"
  let ?read = "read_rest (rq_path rq) (rq_query rq) (rq_fragment rq) (rq_version rq) (printed_fields rq)"
  let ?p0 = "(http_parser_init p)\<lparr>p_nread := 0, p_mark := 0, p_field_len := 0, p_field_start := 0\<rparr>"
  let ?p1 = "?p0\<lparr>p_cs := ?s, p_nread := k\<rparr>"
  let ?p2 = "?p1\<lparr>p_nread := 0, p_mark := 0, p_field_len := 0, p_field_start := 0\<rparr>"
  have m: "rq_method rq \<notin> {INVALID_METHOD, MSEARCH}" using assms(1) by (simp add: printable_def)
  note mt = method_texts [OF m]
  have dump: "dump_request rq = (?m @ '' '') @ ?r @ rq_body rq" by (simp add: dump_request_text request_head_def request_text_rest)
  have t: "take k (dump_request rq) = take k ?m" "drop k (dump_request rq) = drop k ?m @ '' '' @ ?r @ rq_body rq"
    using assms(3) by (simp_all add: dump)
  have s: "0 < ?s" "?s < 348" using method_states_small [of "k - 1"] assms(2,3) mt(3) by (simp_all add: method_states_def)
  define rp1 where "rp1 = (HttpRequestParser p)\<lparr>rp_parser := ?p1\<rparr>"
  have one: "request_execute http_run (take k (dump_request rq)) (HttpRequestParser p) = Inr (k, [], rp1)"
    using assms(2,3) mt(2) unfolding t by (subst request_execute_run [where ?p0.0 = ?p0 and cs = ?s and n = k and pr = ?p0 and evs = "[]"])
      (simp_all add: run_all [OF method_cut(1) [OF mt(1,3) assms(2,3)]] HttpRequestParser_def http_parser_init_def http_parser_start_def rp1_def)
  define at where "at = drop k (dump_request rq)"
  have good: "good_request (rq_method rq) (rq_path rq) (rq_query rq) (rq_fragment rq) (rq_version rq) (printed_fields rq)"
    using assms(1) printed_fields_good by (simp add: printable_def good_request_def)
  obtain pr evs where two: "run_machine (http_code (p_uri_relaxed ?p2)) (http_act at) req_brk 2 at 0 ?s (?p2, [])
      = (348, length ((drop k ?m @ '' '') @ ?r), pr, evs)"
    "fold request_event evs = on_request ?read \<circ> fold request_event [Ev_request_method at (length ?m - k)]"
    using rest_text_runs [OF good _ method_cut(2) [OF mt(1,3) assms(2,3)], of at "rq_body rq" "?p2" ?p2 "[Ev_request_method at (length ?m - k)]" "p_uri_relaxed ?p2"]
    by (auto simp: t at_def http_parser_init_def)
  define rest where "rest = (drop k ?m @ '' '') @ ?r"
  have rest: "at = rest @ rq_body rq" "length (dump_request rq) - k - length (rq_body rq) = length rest"
    using assms(3) by (simp_all add: rest_def at_def t dump)
  define rp2 where "rp2 = (fold request_event evs rp1)\<lparr>rp_parser := pr\<lparr>p_cs := 348, p_nread := length rest\<rparr>\<rparr>"
  have "at \<noteq> []" using rest(1) by (simp add: rest_def)
  then have exec: "request_execute http_run at rp1 = Inr (length rest, rq_body rq, rp2)"
    using two(1) [folded rest_def] s
    by (subst request_execute_run [where ?p0.0 = ?p2 and cs = 348 and n = "length rest" and pr = pr and evs = evs])
      (simp_all add: rp1_def rp2_def http_parser_init_def rest(1))
  have "CharsToHttpMethod at \<noteq> rq_method rq"
    using cut_method_differs [OF m assms(2,3), of "?r @ rq_body rq"] by (simp add: at_def t)
  then have "rp_error rp2 = INVALID_METHOD_CODE \<or> rp_error rp2 = 0 \<and> rq_method (rp_request rp2) \<noteq> rq_method rq"
    by (simp add: rp2_def two(2) on_request_method_def Let_def rp1_def HttpRequestParser_def read_rest_keeps INVALID_METHOD_CODE_def)
  moreover have "rq_path (rp_request rp2) = rq_path rq"
    by (simp add: rp2_def two(2) on_request_method_def Let_def rp1_def HttpRequestParser_def read_rest_keeps INVALID_METHOD_CODE_def)
  moreover have "request_isFinished rp1 = 0" "request_isFinished rp2 = 1" "rp_error rp1 = 0" using s
    by (simp_all add: request_isFinished_def rp1_def rp2_def HttpRequestParser_def http_parser_finish_def http_parser_has_error_def
        http_parser_is_finished_def http_parser_error_def http_parser_first_final_def)
  ultimately show ?thesis using one exec unfolding rest(2) at_def by blast
qed

theorem cut_method_is_misread_witness:
  "\<exists>rp1 rp2. request_execute http_run ''UN'' (HttpRequestParser (http_parser.make 0 0 0 0 0 0 0 0 False False False)) = Inr (2, [], rp1)
    \<and> request_execute http_run (drop 2 (dump_request (sample_request\<lparr>rq_method := UNLOCK\<rparr>))) rp1
        = Inr (length (dump_request (sample_request\<lparr>rq_method := UNLOCK\<rparr>)) - 4, ''hi'', rp2)
    \<and> request_isFinished rp2 = 1"
proof -
  let ?rq = "sample_request\<lparr>rq_method := UNLOCK\<rparr>"
  have "printable ?rq" "(2::nat) < length (HttpMethodToString (rq_method ?rq))" "take 2 (dump_request ?rq) = ''UN''" "rq_body ?rq = ''hi''" by code_simp+
  then show ?thesis
    using cut_method_is_misread [of ?rq 2 "http_parser.make 0 0 0 0 0 0 0 0 False False False"] by auto
qed

end
