(* ===== verification/Uri_Machine.thy ===== *)
theory Uri_Machine
  imports Machine Uri
begin

text \<open>
  \<open>uri.rl.cpp\<close>: the machine that reads URIs, case by case as the file has it, and \<open>Uri::Create\<close> around
  it. The mark is a pointer into the text or null. A string made from a null mark throws
  \<open>std::logic_error\<close>, and \<open>atoi\<close> of one is a crash.
\<close>

section \<open>Actions\<close>

datatype uri_action =
    U_Mark | U_Save_scheme | U_Save_userinfo | U_Save_host | U_Save_port | U_Save_path | U_Save_query | U_Save_fragment

type_synonym uri_regs = "uri \<times> nat option"

definition from_mark :: "string \<Rightarrow> nat option \<Rightarrow> nat \<Rightarrow> string res" where
  "from_mark text mark p = (case mark of None \<Rightarrow> Inl Logic_error | Some m \<Rightarrow> Inr (take (p - m) (drop m text)))"

fun uri_save :: "string \<Rightarrow> uri_action \<Rightarrow> nat \<Rightarrow> uri_regs \<Rightarrow> uri_regs res" where
  "uri_save text U_Mark p (u, mark) = Inr (u, Some p)"
| "uri_save text U_Save_scheme p (u, mark) = bindE (from_mark text mark p) (\<lambda>s. Inr (u\<lparr>u_scheme := s\<rparr>, None))"
| "uri_save text U_Save_port p (u, mark) =
     (if mark = Some p then Inr (u, None)
      else case mark of
        None \<Rightarrow> Inl Null_deref
      | Some m \<Rightarrow> Inr (u\<lparr>u_port := word_of_int (strtol 10 (drop m text))\<rparr>, None))"
| "uri_save text U_Save_userinfo p (u, mark) =
     (if mark = None then Inr (u, None) else bindE (from_mark text mark p) (\<lambda>s. Inr (u\<lparr>u_userinfo := s\<rparr>, None)))"
| "uri_save text U_Save_host p (u, mark) =
     (if mark = None then Inr (u, mark) else bindE (from_mark text mark p) (\<lambda>s. Inr (u\<lparr>u_host := s\<rparr>, mark)))"
| "uri_save text U_Save_path p (u, mark) = bindE (from_mark text mark p) (\<lambda>s. Inr (u\<lparr>u_path := s\<rparr>, None))"
| "uri_save text U_Save_query p (u, mark) = bindE (from_mark text mark p) (\<lambda>s. Inr (u\<lparr>u_query := s\<rparr>, None))"
| "uri_save text U_Save_fragment p (u, mark) = bindE (from_mark text mark p) (\<lambda>s. Inr (u\<lparr>u_fragment := s\<rparr>, None))"

definition uri_act :: "string \<Rightarrow> uri_action \<Rightarrow> nat \<Rightarrow> uri_regs res \<Rightarrow> uri_regs res" where
  "uri_act text a p r = bindE r (uri_save text a p)"

section \<open>The cases\<close>

definition uri_code_1 :: "uri_action block list" where
  "uri_code_1 = [
    State 451 (\<lambda>c. switch c [(34, St 0), (35, St 453), (37, St 3), (47, St 458), (58, St 0), (60, St 0), (62, St 0), (63, St 456), (96, St 0), (127, St 0)]
        (if c < 91 then (if c > 32 then (if 65 \<le> c \<and> c \<le> 90 then Tr 461
             else St 452)
           else if c \<ge> 0 then St 0
           else St 452)
         else if c > 94 then (if c > 122 then (if 123 \<le> c \<and> c \<le> 125 then St 0
             else St 452)
           else if c \<ge> 97 then Tr 461
           else St 452)
         else St 0)),
    State 452 (\<lambda>c. switch c [(34, St 0), (35, St 453), (37, St 3), (47, St 455), (58, St 0), (60, St 0), (62, St 0), (63, St 456), (96, St 0), (127, St 0)]
        (if c < 91 then (if 0 \<le> c \<and> c \<le> 32 then St 0
           else St 452)
         else if c > 94 then (if 123 \<le> c \<and> c \<le> 125 then St 0
           else St 452)
         else St 0)),
    Trans 467 [U_Mark, U_Save_query] 453,
    Trans 469 [U_Save_query] 453,
    Trans 474 [U_Mark, U_Save_host] 453,
    Trans 485 [U_Save_host] 453,
    Trans 489 [U_Mark, U_Save_port] 453,
    Trans 493 [U_Save_port] 453,
    Trans 548 [U_Mark, U_Save_host, U_Save_path] 453,
    Trans 559 [U_Save_host, U_Mark, U_Save_path] 453,
    Trans 563 [U_Save_path] 453]"

definition uri_code_2 :: "uri_action block list" where
  "uri_code_2 = [
    Trans 566 [U_Mark, U_Save_port, U_Save_path] 453,
    Trans 570 [U_Save_port, U_Mark, U_Save_path] 453,
    State 453 (\<lambda>c. switch c [(37, Tr 463), (60, St 0), (62, St 0), (96, St 0), (127, St 0)]
        (if c < 34 then (if 0 \<le> c \<and> c \<le> 32 then St 0
           else Tr 462)
         else if c > 35 then (if c > 94 then (if 123 \<le> c \<and> c \<le> 125 then St 0
             else Tr 462)
           else if c \<ge> 91 then St 0
           else Tr 462)
         else St 0)),
    Trans 462 [U_Mark] 454,
    State 454 (\<lambda>c. switch c [(37, St 1), (60, St 0), (62, St 0), (96, St 0), (127, St 0)]
        (if c < 34 then (if 0 \<le> c \<and> c \<le> 32 then St 0
           else St 454)
         else if c > 35 then (if c > 94 then (if 123 \<le> c \<and> c \<le> 125 then St 0
             else St 454)
           else if c \<ge> 91 then St 0
           else St 454)
         else St 0)),
    Trans 463 [U_Mark] 1,
    State 1 (\<lambda>c. if c < 65 then (if 48 \<le> c \<and> c \<le> 57 then St 2
        else St 0)
      else if c > 70 then (if 97 \<le> c \<and> c \<le> 102 then St 2
        else St 0)
      else St 2),
    State 2 (\<lambda>c. if c < 65 then (if 48 \<le> c \<and> c \<le> 57 then St 454
        else St 0)
      else if c > 70 then (if 97 \<le> c \<and> c \<le> 102 then St 454
        else St 0)
      else St 454),
    State 3 (\<lambda>c. if c < 65 then (if 48 \<le> c \<and> c \<le> 57 then St 4
        else St 0)
      else if c > 70 then (if 97 \<le> c \<and> c \<le> 102 then St 4
        else St 0)
      else St 4),
    State 4 (\<lambda>c. if c < 65 then (if 48 \<le> c \<and> c \<le> 57 then St 452
        else St 0)
      else if c > 70 then (if 97 \<le> c \<and> c \<le> 102 then St 452
        else St 0)
      else St 452)]"

definition uri_code_3 :: "uri_action block list" where
  "uri_code_3 = [
    Trans 476 [U_Mark, U_Save_host] 455,
    Trans 486 [U_Save_host] 455,
    Trans 490 [U_Mark, U_Save_port] 455,
    Trans 494 [U_Save_port] 455,
    State 455 (\<lambda>c. switch c [(34, St 0), (35, St 453), (37, St 5), (60, St 0), (62, St 0), (63, St 456), (96, St 0), (127, St 0)]
        (if c < 91 then (if 0 \<le> c \<and> c \<le> 32 then St 0
           else St 455)
         else if c > 94 then (if 123 \<le> c \<and> c \<le> 125 then St 0
           else St 455)
         else St 0)),
    State 5 (\<lambda>c. if c < 65 then (if 48 \<le> c \<and> c \<le> 57 then St 6
        else St 0)
      else if c > 70 then (if 97 \<le> c \<and> c \<le> 102 then St 6
        else St 0)
      else St 6),
    State 6 (\<lambda>c. if c < 65 then (if 48 \<le> c \<and> c \<le> 57 then St 455
        else St 0)
      else if c > 70 then (if 97 \<le> c \<and> c \<le> 102 then St 455
        else St 0)
      else St 455),
    Trans 482 [U_Mark, U_Save_host] 456,
    Trans 488 [U_Save_host] 456,
    Trans 492 [U_Mark, U_Save_port] 456,
    Trans 496 [U_Save_port] 456,
    Trans 556 [U_Mark, U_Save_host, U_Save_path] 456]"

definition uri_code_4 :: "uri_action block list" where
  "uri_code_4 = [
    Trans 562 [U_Save_host, U_Mark, U_Save_path] 456,
    Trans 565 [U_Save_path] 456,
    Trans 569 [U_Mark, U_Save_port, U_Save_path] 456,
    Trans 573 [U_Save_port, U_Mark, U_Save_path] 456,
    State 456 (\<lambda>c. switch c [(34, St 0), (35, Tr 467), (37, Tr 468), (60, St 0), (62, St 0), (96, St 0), (127, St 0)]
        (if c < 91 then (if 0 \<le> c \<and> c \<le> 32 then St 0
           else Tr 466)
         else if c > 94 then (if 123 \<le> c \<and> c \<le> 125 then St 0
           else Tr 466)
         else St 0)),
    Trans 466 [U_Mark] 457,
    State 457 (\<lambda>c. switch c [(34, St 0), (35, Tr 469), (37, St 7), (60, St 0), (62, St 0), (96, St 0), (127, St 0)]
        (if c < 91 then (if 0 \<le> c \<and> c \<le> 32 then St 0
           else St 457)
         else if c > 94 then (if 123 \<le> c \<and> c \<le> 125 then St 0
           else St 457)
         else St 0)),
    Trans 468 [U_Mark] 7,
    State 7 (\<lambda>c. if c < 65 then (if 48 \<le> c \<and> c \<le> 57 then St 8
        else St 0)
      else if c > 70 then (if 97 \<le> c \<and> c \<le> 102 then St 8
        else St 0)
      else St 8),
    State 8 (\<lambda>c. if c < 65 then (if 48 \<le> c \<and> c \<le> 57 then St 457
        else St 0)
      else if c > 70 then (if 97 \<le> c \<and> c \<le> 102 then St 457
        else St 0)
      else St 457)]"

definition uri_code_5 :: "uri_action block list" where
  "uri_code_5 = [
    State 458 (\<lambda>c. switch c [(34, St 0), (35, St 453), (37, St 5), (47, St 459), (60, St 0), (62, St 0), (63, St 456), (96, St 0), (127, St 0)]
        (if c < 91 then (if 0 \<le> c \<and> c \<le> 32 then St 0
           else St 455)
         else if c > 94 then (if 123 \<le> c \<and> c \<le> 125 then St 0
           else St 455)
         else St 0)),
    State 459 (\<lambda>c. switch c [(2, Tr 472), (33, Tr 473), (35, Tr 474), (37, Tr 475), (47, Tr 476), (48, Tr 477), (49, Tr 478), (50, Tr 479), (58, Tr 481), (59, Tr 473), (61, Tr 473), (63, Tr 482), (64, Tr 483), (91, Tr 484), (95, Tr 473), (126, Tr 473)]
        (if c < 51 then (if 36 \<le> c \<and> c \<le> 46 then Tr 473
           else St 0)
         else if c > 57 then (if c > 90 then (if 97 \<le> c \<and> c \<le> 122 then Tr 473
             else St 0)
           else if c \<ge> 65 then Tr 473
           else St 0)
         else Tr 480)),
    Trans 472 [U_Mark] 9,
    State 9 (\<lambda>c. if 48 \<le> c \<and> c \<le> 52 then St 10
      else St 0),
    State 10 (\<lambda>c. if 48 \<le> c \<and> c \<le> 57 then St 11
      else St 0),
    State 11 (\<lambda>c. if c = 46 then St 12
      else St 0),
    State 12 (\<lambda>c. switch c [(2, St 13), (48, St 15), (49, St 27), (50, St 29)]
        (if 51 \<le> c \<and> c \<le> 57 then St 28
         else St 0)),
    State 13 (\<lambda>c. if 48 \<le> c \<and> c \<le> 52 then St 14
      else St 0),
    State 14 (\<lambda>c. if 48 \<le> c \<and> c \<le> 57 then St 15
      else St 0),
    State 15 (\<lambda>c. if c = 46 then St 16
      else St 0),
    State 16 (\<lambda>c. switch c [(2, St 17), (48, St 19), (49, St 23), (50, St 25)]
        (if 51 \<le> c \<and> c \<le> 57 then St 24
         else St 0)),
    State 17 (\<lambda>c. if 48 \<le> c \<and> c \<le> 52 then St 18
      else St 0),
    State 18 (\<lambda>c. if 48 \<le> c \<and> c \<le> 57 then St 19
      else St 0),
    State 19 (\<lambda>c. if c = 46 then St 20
      else St 0)]"

definition uri_code_6 :: "uri_action block list" where
  "uri_code_6 = [
    State 20 (\<lambda>c. switch c [(2, St 21), (48, St 460), (49, St 463), (50, St 465)]
        (if 51 \<le> c \<and> c \<le> 57 then St 464
         else St 0)),
    State 21 (\<lambda>c. if 48 \<le> c \<and> c \<le> 52 then St 22
      else St 0),
    State 22 (\<lambda>c. if 48 \<le> c \<and> c \<le> 57 then St 460
      else St 0),
    State 460 (\<lambda>c. switch c [(35, Tr 485), (47, Tr 486), (58, Tr 487), (63, Tr 488)]
        (St 0)),
    Trans 507 [U_Mark, U_Save_host] 461,
    Trans 487 [U_Save_host] 461,
    State 461 (\<lambda>c. switch c [(35, Tr 489), (47, Tr 490), (63, Tr 492)]
        (if 48 \<le> c \<and> c \<le> 57 then Tr 491
         else St 0)),
    Trans 491 [U_Mark] 462,
    State 462 (\<lambda>c. switch c [(35, Tr 493), (47, Tr 494), (63, Tr 496)]
        (if 48 \<le> c \<and> c \<le> 57 then St 462
         else St 0)),
    State 463 (\<lambda>c. switch c [(35, Tr 485), (47, Tr 486), (58, Tr 487), (63, Tr 488)]
        (if 48 \<le> c \<and> c \<le> 57 then St 464
         else St 0)),
    State 464 (\<lambda>c. switch c [(35, Tr 485), (47, Tr 486), (58, Tr 487), (63, Tr 488)]
        (if 48 \<le> c \<and> c \<le> 57 then St 460
         else St 0)),
    State 465 (\<lambda>c. switch c [(35, Tr 485), (47, Tr 486), (53, St 466), (58, Tr 487), (63, Tr 488)]
        (if 48 \<le> c \<and> c \<le> 57 then St 460
         else St 0)),
    State 466 (\<lambda>c. switch c [(35, Tr 485), (47, Tr 486), (58, Tr 487), (63, Tr 488)]
        (if 48 \<le> c \<and> c \<le> 53 then St 460
         else St 0)),
    State 23 (\<lambda>c. if c = 46 then St 20
      else if 48 \<le> c \<and> c \<le> 57 then St 24
      else St 0)]"

definition uri_code_7 :: "uri_action block list" where
  "uri_code_7 = [
    State 24 (\<lambda>c. if c = 46 then St 20
      else if 48 \<le> c \<and> c \<le> 57 then St 19
      else St 0),
    State 25 (\<lambda>c. switch c [(46, St 20), (53, St 26)]
        (if 48 \<le> c \<and> c \<le> 57 then St 19
         else St 0)),
    State 26 (\<lambda>c. if c = 46 then St 20
      else if 48 \<le> c \<and> c \<le> 53 then St 19
      else St 0),
    State 27 (\<lambda>c. if c = 46 then St 16
      else if 48 \<le> c \<and> c \<le> 57 then St 28
      else St 0),
    State 28 (\<lambda>c. if c = 46 then St 16
      else if 48 \<le> c \<and> c \<le> 57 then St 15
      else St 0),
    State 29 (\<lambda>c. switch c [(46, St 16), (53, St 30)]
        (if 48 \<le> c \<and> c \<le> 57 then St 15
         else St 0)),
    State 30 (\<lambda>c. if c = 46 then St 16
      else if 48 \<le> c \<and> c \<le> 53 then St 15
      else St 0),
    Trans 473 [U_Mark] 467,
    State 467 (\<lambda>c. switch c [(33, St 467), (35, Tr 485), (37, St 31), (47, Tr 486), (58, Tr 499), (61, St 467), (63, Tr 488), (64, Tr 38), (95, St 467), (126, St 467)]
        (if c < 65 then (if 36 \<le> c \<and> c \<le> 59 then St 467
           else St 0)
         else if c > 90 then (if 97 \<le> c \<and> c \<le> 122 then St 467
           else St 0)
         else St 467)),
    Trans 475 [U_Mark] 31,
    State 31 (\<lambda>c. if c < 65 then (if 48 \<le> c \<and> c \<le> 57 then St 32
        else St 0)
      else if c > 70 then (if 97 \<le> c \<and> c \<le> 102 then St 32
        else St 0)
      else St 32),
    State 32 (\<lambda>c. if c < 65 then (if 48 \<le> c \<and> c \<le> 57 then St 467
        else St 0)
      else if c > 70 then (if 97 \<le> c \<and> c \<le> 102 then St 467
        else St 0)
      else St 467),
    Trans 481 [U_Mark, U_Save_host] 468,
    Trans 499 [U_Save_host] 468]"

definition uri_code_8 :: "uri_action block list" where
  "uri_code_8 = [
    State 468 (\<lambda>c. switch c [(33, St 33), (35, Tr 489), (37, St 34), (47, Tr 490), (61, St 33), (63, Tr 492), (64, Tr 38), (95, St 33), (126, St 33)]
        (if c < 58 then (if c > 46 then (if 48 \<le> c \<and> c \<le> 57 then Tr 500
             else St 0)
           else if c \<ge> 36 then St 33
           else St 0)
         else if c > 59 then (if c > 90 then (if 97 \<le> c \<and> c \<le> 122 then St 33
             else St 0)
           else if c \<ge> 65 then St 33
           else St 0)
         else St 33)),
    State 33 (\<lambda>c. switch c [(33, St 33), (37, St 34), (61, St 33), (64, Tr 38), (95, St 33), (126, St 33)]
        (if c < 48 then (if 36 \<le> c \<and> c \<le> 46 then St 33
           else St 0)
         else if c > 59 then (if c > 90 then (if 97 \<le> c \<and> c \<le> 122 then St 33
             else St 0)
           else if c \<ge> 65 then St 33
           else St 0)
         else St 33)),
    State 34 (\<lambda>c. if c < 65 then (if 48 \<le> c \<and> c \<le> 57 then St 35
        else St 0)
      else if c > 70 then (if 97 \<le> c \<and> c \<le> 102 then St 35
        else St 0)
      else St 35),
    State 35 (\<lambda>c. if c < 65 then (if 48 \<le> c \<and> c \<le> 57 then St 33
        else St 0)
      else if c > 70 then (if 97 \<le> c \<and> c \<le> 102 then St 33
        else St 0)
      else St 33),
    Trans 38 [U_Save_userinfo] 469,
    Trans 483 [U_Mark, U_Save_userinfo] 469,
    State 469 (\<lambda>c. switch c [(2, Tr 472), (33, Tr 501), (35, Tr 474), (37, Tr 502), (47, Tr 476), (48, Tr 503), (49, Tr 504), (50, Tr 505), (58, Tr 507), (59, Tr 501), (61, Tr 501), (63, Tr 482), (91, Tr 484), (95, Tr 501), (126, Tr 501)]
        (if c < 51 then (if 36 \<le> c \<and> c \<le> 46 then Tr 501
           else St 0)
         else if c > 57 then (if c > 90 then (if 97 \<le> c \<and> c \<le> 122 then Tr 501
             else St 0)
           else if c \<ge> 65 then Tr 501
           else St 0)
         else Tr 506)),
    Trans 501 [U_Mark] 470]"

definition uri_code_9 :: "uri_action block list" where
  "uri_code_9 = [
    State 470 (\<lambda>c. switch c [(33, St 470), (35, Tr 485), (37, St 36), (47, Tr 486), (58, Tr 487), (61, St 470), (63, Tr 488), (95, St 470), (126, St 470)]
        (if c < 65 then (if 36 \<le> c \<and> c \<le> 59 then St 470
           else St 0)
         else if c > 90 then (if 97 \<le> c \<and> c \<le> 122 then St 470
           else St 0)
         else St 470)),
    Trans 502 [U_Mark] 36,
    State 36 (\<lambda>c. if c < 65 then (if 48 \<le> c \<and> c \<le> 57 then St 37
        else St 0)
      else if c > 70 then (if 97 \<le> c \<and> c \<le> 102 then St 37
        else St 0)
      else St 37),
    State 37 (\<lambda>c. if c < 65 then (if 48 \<le> c \<and> c \<le> 57 then St 470
        else St 0)
      else if c > 70 then (if 97 \<le> c \<and> c \<le> 102 then St 470
        else St 0)
      else St 470),
    Trans 503 [U_Mark] 471,
    State 471 (\<lambda>c. switch c [(33, St 470), (35, Tr 485), (37, St 36), (46, St 472), (47, Tr 486), (58, Tr 487), (61, St 470), (63, Tr 488), (95, St 470), (126, St 470)]
        (if c < 65 then (if 36 \<le> c \<and> c \<le> 59 then St 470
           else St 0)
         else if c > 90 then (if 97 \<le> c \<and> c \<le> 122 then St 470
           else St 0)
         else St 470)),
    State 472 (\<lambda>c. switch c [(2, St 13), (33, St 470), (35, Tr 485), (37, St 36), (47, Tr 486), (48, St 473), (49, St 481), (50, St 483), (58, Tr 487), (59, St 470), (61, St 470), (63, Tr 488), (95, St 470), (126, St 470)]
        (if c < 51 then (if 36 \<le> c \<and> c \<le> 46 then St 470
           else St 0)
         else if c > 57 then (if c > 90 then (if 97 \<le> c \<and> c \<le> 122 then St 470
             else St 0)
           else if c \<ge> 65 then St 470
           else St 0)
         else St 482)),
    State 473 (\<lambda>c. switch c [(33, St 470), (35, Tr 485), (37, St 36), (46, St 474), (47, Tr 486), (58, Tr 487), (61, St 470), (63, Tr 488), (95, St 470), (126, St 470)]
        (if c < 65 then (if 36 \<le> c \<and> c \<le> 59 then St 470
           else St 0)
         else if c > 90 then (if 97 \<le> c \<and> c \<le> 122 then St 470
           else St 0)
         else St 470))]"

definition uri_code_10 :: "uri_action block list" where
  "uri_code_10 = [
    State 474 (\<lambda>c. switch c [(2, St 17), (33, St 470), (35, Tr 485), (37, St 36), (47, Tr 486), (48, St 475), (49, St 477), (50, St 479), (58, Tr 487), (59, St 470), (61, St 470), (63, Tr 488), (95, St 470), (126, St 470)]
        (if c < 51 then (if 36 \<le> c \<and> c \<le> 46 then St 470
           else St 0)
         else if c > 57 then (if c > 90 then (if 97 \<le> c \<and> c \<le> 122 then St 470
             else St 0)
           else if c \<ge> 65 then St 470
           else St 0)
         else St 478)),
    State 475 (\<lambda>c. switch c [(33, St 470), (35, Tr 485), (37, St 36), (46, St 476), (47, Tr 486), (58, Tr 487), (61, St 470), (63, Tr 488), (95, St 470), (126, St 470)]
        (if c < 65 then (if 36 \<le> c \<and> c \<le> 59 then St 470
           else St 0)
         else if c > 90 then (if 97 \<le> c \<and> c \<le> 122 then St 470
           else St 0)
         else St 470)),
    State 476 (\<lambda>c. switch c [(2, St 21), (33, St 470), (35, Tr 485), (37, St 36), (47, Tr 486), (58, Tr 487), (61, St 470), (63, Tr 488), (95, St 470), (126, St 470)]
        (if c < 65 then (if 36 \<le> c \<and> c \<le> 59 then St 470
           else St 0)
         else if c > 90 then (if 97 \<le> c \<and> c \<le> 122 then St 470
           else St 0)
         else St 470)),
    State 477 (\<lambda>c. switch c [(33, St 470), (35, Tr 485), (37, St 36), (46, St 476), (47, Tr 486), (58, Tr 487), (59, St 470), (61, St 470), (63, Tr 488), (95, St 470), (126, St 470)]
        (if c < 48 then (if 36 \<le> c \<and> c \<le> 45 then St 470
           else St 0)
         else if c > 57 then (if c > 90 then (if 97 \<le> c \<and> c \<le> 122 then St 470
             else St 0)
           else if c \<ge> 65 then St 470
           else St 0)
         else St 478)),
    State 478 (\<lambda>c. switch c [(33, St 470), (35, Tr 485), (37, St 36), (46, St 476), (47, Tr 486), (58, Tr 487), (59, St 470), (61, St 470), (63, Tr 488), (95, St 470), (126, St 470)]
        (if c < 48 then (if 36 \<le> c \<and> c \<le> 45 then St 470
           else St 0)
         else if c > 57 then (if c > 90 then (if 97 \<le> c \<and> c \<le> 122 then St 470
             else St 0)
           else if c \<ge> 65 then St 470
           else St 0)
         else St 475))]"

definition uri_code_11 :: "uri_action block list" where
  "uri_code_11 = [
    State 479 (\<lambda>c. switch c [(33, St 470), (35, Tr 485), (37, St 36), (46, St 476), (47, Tr 486), (53, St 480), (58, Tr 487), (59, St 470), (61, St 470), (63, Tr 488), (95, St 470), (126, St 470)]
        (if c < 48 then (if 36 \<le> c \<and> c \<le> 45 then St 470
           else St 0)
         else if c > 57 then (if c > 90 then (if 97 \<le> c \<and> c \<le> 122 then St 470
             else St 0)
           else if c \<ge> 65 then St 470
           else St 0)
         else St 475)),
    State 480 (\<lambda>c. switch c [(33, St 470), (35, Tr 485), (37, St 36), (46, St 476), (47, Tr 486), (58, Tr 487), (61, St 470), (63, Tr 488), (95, St 470), (126, St 470)]
        (if c < 54 then (if c > 45 then (if 48 \<le> c \<and> c \<le> 53 then St 475
             else St 0)
           else if c \<ge> 36 then St 470
           else St 0)
         else if c > 59 then (if c > 90 then (if 97 \<le> c \<and> c \<le> 122 then St 470
             else St 0)
           else if c \<ge> 65 then St 470
           else St 0)
         else St 470)),
    State 481 (\<lambda>c. switch c [(33, St 470), (35, Tr 485), (37, St 36), (46, St 474), (47, Tr 486), (58, Tr 487), (59, St 470), (61, St 470), (63, Tr 488), (95, St 470), (126, St 470)]
        (if c < 48 then (if 36 \<le> c \<and> c \<le> 45 then St 470
           else St 0)
         else if c > 57 then (if c > 90 then (if 97 \<le> c \<and> c \<le> 122 then St 470
             else St 0)
           else if c \<ge> 65 then St 470
           else St 0)
         else St 482)),
    State 482 (\<lambda>c. switch c [(33, St 470), (35, Tr 485), (37, St 36), (46, St 474), (47, Tr 486), (58, Tr 487), (59, St 470), (61, St 470), (63, Tr 488), (95, St 470), (126, St 470)]
        (if c < 48 then (if 36 \<le> c \<and> c \<le> 45 then St 470
           else St 0)
         else if c > 57 then (if c > 90 then (if 97 \<le> c \<and> c \<le> 122 then St 470
             else St 0)
           else if c \<ge> 65 then St 470
           else St 0)
         else St 473)),
    State 483 (\<lambda>c. switch c [(33, St 470), (35, Tr 485), (37, St 36), (46, St 474), (47, Tr 486), (53, St 484), (58, Tr 487), (59, St 470), (61, St 470), (63, Tr 488), (95, St 470), (126, St 470)]
        (if c < 48 then (if 36 \<le> c \<and> c \<le> 45 then St 470
           else St 0)
         else if c > 57 then (if c > 90 then (if 97 \<le> c \<and> c \<le> 122 then St 470
             else St 0)
           else if c \<ge> 65 then St 470
           else St 0)
         else St 473))]"

definition uri_code_12 :: "uri_action block list" where
  "uri_code_12 = [
    State 484 (\<lambda>c. switch c [(33, St 470), (35, Tr 485), (37, St 36), (46, St 474), (47, Tr 486), (58, Tr 487), (61, St 470), (63, Tr 488), (95, St 470), (126, St 470)]
        (if c < 54 then (if c > 45 then (if 48 \<le> c \<and> c \<le> 53 then St 473
             else St 0)
           else if c \<ge> 36 then St 470
           else St 0)
         else if c > 59 then (if c > 90 then (if 97 \<le> c \<and> c \<le> 122 then St 470
             else St 0)
           else if c \<ge> 65 then St 470
           else St 0)
         else St 470)),
    Trans 504 [U_Mark] 485,
    State 485 (\<lambda>c. switch c [(33, St 470), (35, Tr 485), (37, St 36), (46, St 472), (47, Tr 486), (58, Tr 487), (59, St 470), (61, St 470), (63, Tr 488), (95, St 470), (126, St 470)]
        (if c < 48 then (if 36 \<le> c \<and> c \<le> 45 then St 470
           else St 0)
         else if c > 57 then (if c > 90 then (if 97 \<le> c \<and> c \<le> 122 then St 470
             else St 0)
           else if c \<ge> 65 then St 470
           else St 0)
         else St 486)),
    Trans 506 [U_Mark] 486,
    State 486 (\<lambda>c. switch c [(33, St 470), (35, Tr 485), (37, St 36), (46, St 472), (47, Tr 486), (58, Tr 487), (59, St 470), (61, St 470), (63, Tr 488), (95, St 470), (126, St 470)]
        (if c < 48 then (if 36 \<le> c \<and> c \<le> 45 then St 470
           else St 0)
         else if c > 57 then (if c > 90 then (if 97 \<le> c \<and> c \<le> 122 then St 470
             else St 0)
           else if c \<ge> 65 then St 470
           else St 0)
         else St 471)),
    Trans 505 [U_Mark] 487,
    State 487 (\<lambda>c. switch c [(33, St 470), (35, Tr 485), (37, St 36), (46, St 472), (47, Tr 486), (53, St 488), (58, Tr 487), (59, St 470), (61, St 470), (63, Tr 488), (95, St 470), (126, St 470)]
        (if c < 48 then (if 36 \<le> c \<and> c \<le> 45 then St 470
           else St 0)
         else if c > 57 then (if c > 90 then (if 97 \<le> c \<and> c \<le> 122 then St 470
             else St 0)
           else if c \<ge> 65 then St 470
           else St 0)
         else St 471))]"

definition uri_code_13 :: "uri_action block list" where
  "uri_code_13 = [
    State 488 (\<lambda>c. switch c [(33, St 470), (35, Tr 485), (37, St 36), (46, St 472), (47, Tr 486), (58, Tr 487), (61, St 470), (63, Tr 488), (95, St 470), (126, St 470)]
        (if c < 54 then (if c > 45 then (if 48 \<le> c \<and> c \<le> 53 then St 471
             else St 0)
           else if c \<ge> 36 then St 470
           else St 0)
         else if c > 59 then (if c > 90 then (if 97 \<le> c \<and> c \<le> 122 then St 470
             else St 0)
           else if c \<ge> 65 then St 470
           else St 0)
         else St 470)),
    Trans 484 [U_Mark] 38,
    State 38 (\<lambda>c. switch c [(58, St 146), (118, St 225)]
        (if c < 65 then (if 48 \<le> c \<and> c \<le> 57 then St 39
           else St 0)
         else if c > 70 then (if 97 \<le> c \<and> c \<le> 102 then St 39
           else St 0)
         else St 39)),
    State 39 (\<lambda>c. if c = 58 then St 43
      else if c < 65 then (if 48 \<le> c \<and> c \<le> 57 then St 40
        else St 0)
      else if c > 70 then (if 97 \<le> c \<and> c \<le> 102 then St 40
        else St 0)
      else St 40),
    State 40 (\<lambda>c. if c = 58 then St 43
      else if c < 65 then (if 48 \<le> c \<and> c \<le> 57 then St 41
        else St 0)
      else if c > 70 then (if 97 \<le> c \<and> c \<le> 102 then St 41
        else St 0)
      else St 41),
    State 41 (\<lambda>c. if c = 58 then St 43
      else if c < 65 then (if 48 \<le> c \<and> c \<le> 57 then St 42
        else St 0)
      else if c > 70 then (if 97 \<le> c \<and> c \<le> 102 then St 42
        else St 0)
      else St 42),
    State 42 (\<lambda>c. if c = 58 then St 43
      else St 0),
    State 43 (\<lambda>c. if c = 58 then St 141
      else if c < 65 then (if 48 \<le> c \<and> c \<le> 57 then St 44
        else St 0)
      else if c > 70 then (if 97 \<le> c \<and> c \<le> 102 then St 44
        else St 0)
      else St 44),
    State 44 (\<lambda>c. if c = 58 then St 48
      else if c < 65 then (if 48 \<le> c \<and> c \<le> 57 then St 45
        else St 0)
      else if c > 70 then (if 97 \<le> c \<and> c \<le> 102 then St 45
        else St 0)
      else St 45),
    State 45 (\<lambda>c. if c = 58 then St 48
      else if c < 65 then (if 48 \<le> c \<and> c \<le> 57 then St 46
        else St 0)
      else if c > 70 then (if 97 \<le> c \<and> c \<le> 102 then St 46
        else St 0)
      else St 46)]"

definition uri_code_14 :: "uri_action block list" where
  "uri_code_14 = [
    State 46 (\<lambda>c. if c = 58 then St 48
      else if c < 65 then (if 48 \<le> c \<and> c \<le> 57 then St 47
        else St 0)
      else if c > 70 then (if 97 \<le> c \<and> c \<le> 102 then St 47
        else St 0)
      else St 47),
    State 47 (\<lambda>c. if c = 58 then St 48
      else St 0),
    State 48 (\<lambda>c. if c = 58 then St 136
      else if c < 65 then (if 48 \<le> c \<and> c \<le> 57 then St 49
        else St 0)
      else if c > 70 then (if 97 \<le> c \<and> c \<le> 102 then St 49
        else St 0)
      else St 49),
    State 49 (\<lambda>c. if c = 58 then St 53
      else if c < 65 then (if 48 \<le> c \<and> c \<le> 57 then St 50
        else St 0)
      else if c > 70 then (if 97 \<le> c \<and> c \<le> 102 then St 50
        else St 0)
      else St 50),
    State 50 (\<lambda>c. if c = 58 then St 53
      else if c < 65 then (if 48 \<le> c \<and> c \<le> 57 then St 51
        else St 0)
      else if c > 70 then (if 97 \<le> c \<and> c \<le> 102 then St 51
        else St 0)
      else St 51),
    State 51 (\<lambda>c. if c = 58 then St 53
      else if c < 65 then (if 48 \<le> c \<and> c \<le> 57 then St 52
        else St 0)
      else if c > 70 then (if 97 \<le> c \<and> c \<le> 102 then St 52
        else St 0)
      else St 52),
    State 52 (\<lambda>c. if c = 58 then St 53
      else St 0),
    State 53 (\<lambda>c. if c = 58 then St 131
      else if c < 65 then (if 48 \<le> c \<and> c \<le> 57 then St 54
        else St 0)
      else if c > 70 then (if 97 \<le> c \<and> c \<le> 102 then St 54
        else St 0)
      else St 54),
    State 54 (\<lambda>c. if c = 58 then St 58
      else if c < 65 then (if 48 \<le> c \<and> c \<le> 57 then St 55
        else St 0)
      else if c > 70 then (if 97 \<le> c \<and> c \<le> 102 then St 55
        else St 0)
      else St 55),
    State 55 (\<lambda>c. if c = 58 then St 58
      else if c < 65 then (if 48 \<le> c \<and> c \<le> 57 then St 56
        else St 0)
      else if c > 70 then (if 97 \<le> c \<and> c \<le> 102 then St 56
        else St 0)
      else St 56),
    State 56 (\<lambda>c. if c = 58 then St 58
      else if c < 65 then (if 48 \<le> c \<and> c \<le> 57 then St 57
        else St 0)
      else if c > 70 then (if 97 \<le> c \<and> c \<le> 102 then St 57
        else St 0)
      else St 57)]"

definition uri_code_15 :: "uri_action block list" where
  "uri_code_15 = [
    State 57 (\<lambda>c. if c = 58 then St 58
      else St 0),
    State 58 (\<lambda>c. if c = 58 then St 126
      else if c < 65 then (if 48 \<le> c \<and> c \<le> 57 then St 59
        else St 0)
      else if c > 70 then (if 97 \<le> c \<and> c \<le> 102 then St 59
        else St 0)
      else St 59),
    State 59 (\<lambda>c. if c = 58 then St 63
      else if c < 65 then (if 48 \<le> c \<and> c \<le> 57 then St 60
        else St 0)
      else if c > 70 then (if 97 \<le> c \<and> c \<le> 102 then St 60
        else St 0)
      else St 60),
    State 60 (\<lambda>c. if c = 58 then St 63
      else if c < 65 then (if 48 \<le> c \<and> c \<le> 57 then St 61
        else St 0)
      else if c > 70 then (if 97 \<le> c \<and> c \<le> 102 then St 61
        else St 0)
      else St 61),
    State 61 (\<lambda>c. if c = 58 then St 63
      else if c < 65 then (if 48 \<le> c \<and> c \<le> 57 then St 62
        else St 0)
      else if c > 70 then (if 97 \<le> c \<and> c \<le> 102 then St 62
        else St 0)
      else St 62),
    State 62 (\<lambda>c. if c = 58 then St 63
      else St 0),
    State 63 (\<lambda>c. if c = 58 then St 113
      else if c < 65 then (if 48 \<le> c \<and> c \<le> 57 then St 64
        else St 0)
      else if c > 70 then (if 97 \<le> c \<and> c \<le> 102 then St 64
        else St 0)
      else St 64),
    State 64 (\<lambda>c. if c = 58 then St 68
      else if c < 65 then (if 48 \<le> c \<and> c \<le> 57 then St 65
        else St 0)
      else if c > 70 then (if 97 \<le> c \<and> c \<le> 102 then St 65
        else St 0)
      else St 65),
    State 65 (\<lambda>c. if c = 58 then St 68
      else if c < 65 then (if 48 \<le> c \<and> c \<le> 57 then St 66
        else St 0)
      else if c > 70 then (if 97 \<le> c \<and> c \<le> 102 then St 66
        else St 0)
      else St 66),
    State 66 (\<lambda>c. if c = 58 then St 68
      else if c < 65 then (if 48 \<le> c \<and> c \<le> 57 then St 67
        else St 0)
      else if c > 70 then (if 97 \<le> c \<and> c \<le> 102 then St 67
        else St 0)
      else St 67),
    State 67 (\<lambda>c. if c = 58 then St 68
      else St 0)]"

definition uri_code_16 :: "uri_action block list" where
  "uri_code_16 = [
    State 68 (\<lambda>c. switch c [(2, St 69), (48, St 96), (49, St 104), (50, St 107), (58, St 111)]
        (if c < 65 then (if 51 \<le> c \<and> c \<le> 57 then St 110
           else St 0)
         else if c > 70 then (if 97 \<le> c \<and> c \<le> 102 then St 112
           else St 0)
         else St 112)),
    State 69 (\<lambda>c. if 48 \<le> c \<and> c \<le> 52 then St 70
      else St 0),
    State 70 (\<lambda>c. if 48 \<le> c \<and> c \<le> 57 then St 71
      else St 0),
    State 71 (\<lambda>c. if c = 46 then St 72
      else St 0),
    State 72 (\<lambda>c. switch c [(2, St 73), (48, St 75), (49, St 92), (50, St 94)]
        (if 51 \<le> c \<and> c \<le> 57 then St 93
         else St 0)),
    State 73 (\<lambda>c. if 48 \<le> c \<and> c \<le> 52 then St 74
      else St 0),
    State 74 (\<lambda>c. if 48 \<le> c \<and> c \<le> 57 then St 75
      else St 0),
    State 75 (\<lambda>c. if c = 46 then St 76
      else St 0),
    State 76 (\<lambda>c. switch c [(2, St 77), (48, St 79), (49, St 88), (50, St 90)]
        (if 51 \<le> c \<and> c \<le> 57 then St 89
         else St 0)),
    State 77 (\<lambda>c. if 48 \<le> c \<and> c \<le> 52 then St 78
      else St 0),
    State 78 (\<lambda>c. if 48 \<le> c \<and> c \<le> 57 then St 79
      else St 0),
    State 79 (\<lambda>c. if c = 46 then St 80
      else St 0),
    State 80 (\<lambda>c. switch c [(2, St 81), (48, St 83), (49, St 84), (50, St 86)]
        (if 51 \<le> c \<and> c \<le> 57 then St 85
         else St 0)),
    State 81 (\<lambda>c. if 48 \<le> c \<and> c \<le> 52 then St 82
      else St 0),
    State 82 (\<lambda>c. if 48 \<le> c \<and> c \<le> 57 then St 83
      else St 0),
    State 83 (\<lambda>c. if c = 93 then St 460
      else St 0),
    State 84 (\<lambda>c. if c = 93 then St 460
      else if 48 \<le> c \<and> c \<le> 57 then St 85
      else St 0)]"

definition uri_code_17 :: "uri_action block list" where
  "uri_code_17 = [
    State 85 (\<lambda>c. if c = 93 then St 460
      else if 48 \<le> c \<and> c \<le> 57 then St 83
      else St 0),
    State 86 (\<lambda>c. switch c [(53, St 87), (93, St 460)]
        (if 48 \<le> c \<and> c \<le> 57 then St 83
         else St 0)),
    State 87 (\<lambda>c. if c = 93 then St 460
      else if 48 \<le> c \<and> c \<le> 53 then St 83
      else St 0),
    State 88 (\<lambda>c. if c = 46 then St 80
      else if 48 \<le> c \<and> c \<le> 57 then St 89
      else St 0),
    State 89 (\<lambda>c. if c = 46 then St 80
      else if 48 \<le> c \<and> c \<le> 57 then St 79
      else St 0),
    State 90 (\<lambda>c. switch c [(46, St 80), (53, St 91)]
        (if 48 \<le> c \<and> c \<le> 57 then St 79
         else St 0)),
    State 91 (\<lambda>c. if c = 46 then St 80
      else if 48 \<le> c \<and> c \<le> 53 then St 79
      else St 0),
    State 92 (\<lambda>c. if c = 46 then St 76
      else if 48 \<le> c \<and> c \<le> 57 then St 93
      else St 0),
    State 93 (\<lambda>c. if c = 46 then St 76
      else if 48 \<le> c \<and> c \<le> 57 then St 75
      else St 0),
    State 94 (\<lambda>c. switch c [(46, St 76), (53, St 95)]
        (if 48 \<le> c \<and> c \<le> 57 then St 75
         else St 0)),
    State 95 (\<lambda>c. if c = 46 then St 76
      else if 48 \<le> c \<and> c \<le> 53 then St 75
      else St 0),
    State 96 (\<lambda>c. switch c [(46, St 72), (58, St 100)]
        (if c < 65 then (if 48 \<le> c \<and> c \<le> 57 then St 97
           else St 0)
         else if c > 70 then (if 97 \<le> c \<and> c \<le> 102 then St 97
           else St 0)
         else St 97)),
    State 97 (\<lambda>c. if c = 58 then St 100
      else if c < 65 then (if 48 \<le> c \<and> c \<le> 57 then St 98
        else St 0)
      else if c > 70 then (if 97 \<le> c \<and> c \<le> 102 then St 98
        else St 0)
      else St 98),
    State 98 (\<lambda>c. if c = 58 then St 100
      else if c < 65 then (if 48 \<le> c \<and> c \<le> 57 then St 99
        else St 0)
      else if c > 70 then (if 97 \<le> c \<and> c \<le> 102 then St 99
        else St 0)
      else St 99)]"

definition uri_code_18 :: "uri_action block list" where
  "uri_code_18 = [
    State 99 (\<lambda>c. if c = 58 then St 100
      else St 0),
    State 100 (\<lambda>c. if c = 58 then St 83
      else if c < 65 then (if 48 \<le> c \<and> c \<le> 57 then St 101
        else St 0)
      else if c > 70 then (if 97 \<le> c \<and> c \<le> 102 then St 101
        else St 0)
      else St 101),
    State 101 (\<lambda>c. if c = 93 then St 460
      else if c < 65 then (if 48 \<le> c \<and> c \<le> 57 then St 102
        else St 0)
      else if c > 70 then (if 97 \<le> c \<and> c \<le> 102 then St 102
        else St 0)
      else St 102),
    State 102 (\<lambda>c. if c = 93 then St 460
      else if c < 65 then (if 48 \<le> c \<and> c \<le> 57 then St 103
        else St 0)
      else if c > 70 then (if 97 \<le> c \<and> c \<le> 102 then St 103
        else St 0)
      else St 103),
    State 103 (\<lambda>c. if c = 93 then St 460
      else if c < 65 then (if 48 \<le> c \<and> c \<le> 57 then St 83
        else St 0)
      else if c > 70 then (if 97 \<le> c \<and> c \<le> 102 then St 83
        else St 0)
      else St 83),
    State 104 (\<lambda>c. switch c [(46, St 72), (58, St 100)]
        (if c < 65 then (if 48 \<le> c \<and> c \<le> 57 then St 105
           else St 0)
         else if c > 70 then (if 97 \<le> c \<and> c \<le> 102 then St 97
           else St 0)
         else St 97)),
    State 105 (\<lambda>c. switch c [(46, St 72), (58, St 100)]
        (if c < 65 then (if 48 \<le> c \<and> c \<le> 57 then St 106
           else St 0)
         else if c > 70 then (if 97 \<le> c \<and> c \<le> 102 then St 98
           else St 0)
         else St 98)),
    State 106 (\<lambda>c. switch c [(46, St 72), (58, St 100)]
        (if c < 65 then (if 48 \<le> c \<and> c \<le> 57 then St 99
           else St 0)
         else if c > 70 then (if 97 \<le> c \<and> c \<le> 102 then St 99
           else St 0)
         else St 99)),
    State 107 (\<lambda>c. switch c [(46, St 72), (53, St 109), (58, St 100)]
        (if c < 65 then (if 48 \<le> c \<and> c \<le> 57 then St 108
           else St 0)
         else if c > 70 then (if 97 \<le> c \<and> c \<le> 102 then St 97
           else St 0)
         else St 97)),
    State 108 (\<lambda>c. switch c [(46, St 72), (58, St 100)]
        (if c < 65 then (if 48 \<le> c \<and> c \<le> 57 then St 98
           else St 0)
         else if c > 70 then (if 97 \<le> c \<and> c \<le> 102 then St 98
           else St 0)
         else St 98))]"

definition uri_code_19 :: "uri_action block list" where
  "uri_code_19 = [
    State 109 (\<lambda>c. switch c [(46, St 72), (58, St 100)]
        (if c < 54 then (if 48 \<le> c \<and> c \<le> 53 then St 106
           else St 0)
         else if c > 57 then (if c > 70 then (if 97 \<le> c \<and> c \<le> 102 then St 98
             else St 0)
           else if c \<ge> 65 then St 98
           else St 0)
         else St 98)),
    State 110 (\<lambda>c. switch c [(46, St 72), (58, St 100)]
        (if c < 65 then (if 48 \<le> c \<and> c \<le> 57 then St 108
           else St 0)
         else if c > 70 then (if 97 \<le> c \<and> c \<le> 102 then St 97
           else St 0)
         else St 97)),
    State 111 (\<lambda>c. if c < 65 then (if 48 \<le> c \<and> c \<le> 57 then St 101
        else St 0)
      else if c > 70 then (if 97 \<le> c \<and> c \<le> 102 then St 101
        else St 0)
      else St 101),
    State 112 (\<lambda>c. if c = 58 then St 100
      else if c < 65 then (if 48 \<le> c \<and> c \<le> 57 then St 97
        else St 0)
      else if c > 70 then (if 97 \<le> c \<and> c \<le> 102 then St 97
        else St 0)
      else St 97),
    State 113 (\<lambda>c. switch c [(2, St 69), (48, St 114), (49, St 118), (50, St 121)]
        (if c < 65 then (if 51 \<le> c \<and> c \<le> 57 then St 124
           else St 0)
         else if c > 70 then (if 97 \<le> c \<and> c \<le> 102 then St 125
           else St 0)
         else St 125)),
    State 114 (\<lambda>c. switch c [(46, St 72), (58, St 111)]
        (if c < 65 then (if 48 \<le> c \<and> c \<le> 57 then St 115
           else St 0)
         else if c > 70 then (if 97 \<le> c \<and> c \<le> 102 then St 115
           else St 0)
         else St 115)),
    State 115 (\<lambda>c. if c = 58 then St 111
      else if c < 65 then (if 48 \<le> c \<and> c \<le> 57 then St 116
        else St 0)
      else if c > 70 then (if 97 \<le> c \<and> c \<le> 102 then St 116
        else St 0)
      else St 116),
    State 116 (\<lambda>c. if c = 58 then St 111
      else if c < 65 then (if 48 \<le> c \<and> c \<le> 57 then St 117
        else St 0)
      else if c > 70 then (if 97 \<le> c \<and> c \<le> 102 then St 117
        else St 0)
      else St 117),
    State 117 (\<lambda>c. if c = 58 then St 111
      else St 0)]"

definition uri_code_20 :: "uri_action block list" where
  "uri_code_20 = [
    State 118 (\<lambda>c. switch c [(46, St 72), (58, St 111)]
        (if c < 65 then (if 48 \<le> c \<and> c \<le> 57 then St 119
           else St 0)
         else if c > 70 then (if 97 \<le> c \<and> c \<le> 102 then St 115
           else St 0)
         else St 115)),
    State 119 (\<lambda>c. switch c [(46, St 72), (58, St 111)]
        (if c < 65 then (if 48 \<le> c \<and> c \<le> 57 then St 120
           else St 0)
         else if c > 70 then (if 97 \<le> c \<and> c \<le> 102 then St 116
           else St 0)
         else St 116)),
    State 120 (\<lambda>c. switch c [(46, St 72), (58, St 111)]
        (if c < 65 then (if 48 \<le> c \<and> c \<le> 57 then St 117
           else St 0)
         else if c > 70 then (if 97 \<le> c \<and> c \<le> 102 then St 117
           else St 0)
         else St 117)),
    State 121 (\<lambda>c. switch c [(46, St 72), (53, St 123), (58, St 111)]
        (if c < 65 then (if 48 \<le> c \<and> c \<le> 57 then St 122
           else St 0)
         else if c > 70 then (if 97 \<le> c \<and> c \<le> 102 then St 115
           else St 0)
         else St 115)),
    State 122 (\<lambda>c. switch c [(46, St 72), (58, St 111)]
        (if c < 65 then (if 48 \<le> c \<and> c \<le> 57 then St 116
           else St 0)
         else if c > 70 then (if 97 \<le> c \<and> c \<le> 102 then St 116
           else St 0)
         else St 116)),
    State 123 (\<lambda>c. switch c [(46, St 72), (58, St 111)]
        (if c < 54 then (if 48 \<le> c \<and> c \<le> 53 then St 120
           else St 0)
         else if c > 57 then (if c > 70 then (if 97 \<le> c \<and> c \<le> 102 then St 116
             else St 0)
           else if c \<ge> 65 then St 116
           else St 0)
         else St 116)),
    State 124 (\<lambda>c. switch c [(46, St 72), (58, St 111)]
        (if c < 65 then (if 48 \<le> c \<and> c \<le> 57 then St 122
           else St 0)
         else if c > 70 then (if 97 \<le> c \<and> c \<le> 102 then St 115
           else St 0)
         else St 115)),
    State 125 (\<lambda>c. if c = 58 then St 111
      else if c < 65 then (if 48 \<le> c \<and> c \<le> 57 then St 115
        else St 0)
      else if c > 70 then (if 97 \<le> c \<and> c \<le> 102 then St 115
        else St 0)
      else St 115),
    State 126 (\<lambda>c. if c < 65 then (if 48 \<le> c \<and> c \<le> 57 then St 127
        else St 0)
      else if c > 70 then (if 97 \<le> c \<and> c \<le> 102 then St 127
        else St 0)
      else St 127)]"

definition uri_code_21 :: "uri_action block list" where
  "uri_code_21 = [
    State 127 (\<lambda>c. if c = 58 then St 113
      else if c < 65 then (if 48 \<le> c \<and> c \<le> 57 then St 128
        else St 0)
      else if c > 70 then (if 97 \<le> c \<and> c \<le> 102 then St 128
        else St 0)
      else St 128),
    State 128 (\<lambda>c. if c = 58 then St 113
      else if c < 65 then (if 48 \<le> c \<and> c \<le> 57 then St 129
        else St 0)
      else if c > 70 then (if 97 \<le> c \<and> c \<le> 102 then St 129
        else St 0)
      else St 129),
    State 129 (\<lambda>c. if c = 58 then St 113
      else if c < 65 then (if 48 \<le> c \<and> c \<le> 57 then St 130
        else St 0)
      else if c > 70 then (if 97 \<le> c \<and> c \<le> 102 then St 130
        else St 0)
      else St 130),
    State 130 (\<lambda>c. if c = 58 then St 113
      else St 0),
    State 131 (\<lambda>c. if c < 65 then (if 48 \<le> c \<and> c \<le> 57 then St 132
        else St 0)
      else if c > 70 then (if 97 \<le> c \<and> c \<le> 102 then St 132
        else St 0)
      else St 132),
    State 132 (\<lambda>c. if c = 58 then St 126
      else if c < 65 then (if 48 \<le> c \<and> c \<le> 57 then St 133
        else St 0)
      else if c > 70 then (if 97 \<le> c \<and> c \<le> 102 then St 133
        else St 0)
      else St 133),
    State 133 (\<lambda>c. if c = 58 then St 126
      else if c < 65 then (if 48 \<le> c \<and> c \<le> 57 then St 134
        else St 0)
      else if c > 70 then (if 97 \<le> c \<and> c \<le> 102 then St 134
        else St 0)
      else St 134),
    State 134 (\<lambda>c. if c = 58 then St 126
      else if c < 65 then (if 48 \<le> c \<and> c \<le> 57 then St 135
        else St 0)
      else if c > 70 then (if 97 \<le> c \<and> c \<le> 102 then St 135
        else St 0)
      else St 135),
    State 135 (\<lambda>c. if c = 58 then St 126
      else St 0),
    State 136 (\<lambda>c. if c < 65 then (if 48 \<le> c \<and> c \<le> 57 then St 137
        else St 0)
      else if c > 70 then (if 97 \<le> c \<and> c \<le> 102 then St 137
        else St 0)
      else St 137),
    State 137 (\<lambda>c. if c = 58 then St 131
      else if c < 65 then (if 48 \<le> c \<and> c \<le> 57 then St 138
        else St 0)
      else if c > 70 then (if 97 \<le> c \<and> c \<le> 102 then St 138
        else St 0)
      else St 138)]"

definition uri_code_22 :: "uri_action block list" where
  "uri_code_22 = [
    State 138 (\<lambda>c. if c = 58 then St 131
      else if c < 65 then (if 48 \<le> c \<and> c \<le> 57 then St 139
        else St 0)
      else if c > 70 then (if 97 \<le> c \<and> c \<le> 102 then St 139
        else St 0)
      else St 139),
    State 139 (\<lambda>c. if c = 58 then St 131
      else if c < 65 then (if 48 \<le> c \<and> c \<le> 57 then St 140
        else St 0)
      else if c > 70 then (if 97 \<le> c \<and> c \<le> 102 then St 140
        else St 0)
      else St 140),
    State 140 (\<lambda>c. if c = 58 then St 131
      else St 0),
    State 141 (\<lambda>c. if c < 65 then (if 48 \<le> c \<and> c \<le> 57 then St 142
        else St 0)
      else if c > 70 then (if 97 \<le> c \<and> c \<le> 102 then St 142
        else St 0)
      else St 142),
    State 142 (\<lambda>c. if c = 58 then St 136
      else if c < 65 then (if 48 \<le> c \<and> c \<le> 57 then St 143
        else St 0)
      else if c > 70 then (if 97 \<le> c \<and> c \<le> 102 then St 143
        else St 0)
      else St 143),
    State 143 (\<lambda>c. if c = 58 then St 136
      else if c < 65 then (if 48 \<le> c \<and> c \<le> 57 then St 144
        else St 0)
      else if c > 70 then (if 97 \<le> c \<and> c \<le> 102 then St 144
        else St 0)
      else St 144),
    State 144 (\<lambda>c. if c = 58 then St 136
      else if c < 65 then (if 48 \<le> c \<and> c \<le> 57 then St 145
        else St 0)
      else if c > 70 then (if 97 \<le> c \<and> c \<le> 102 then St 145
        else St 0)
      else St 145),
    State 145 (\<lambda>c. if c = 58 then St 136
      else St 0),
    State 146 (\<lambda>c. if c = 58 then St 147
      else St 0),
    State 147 (\<lambda>c. switch c [(2, St 69), (48, St 148), (49, St 217), (50, St 220), (93, St 460)]
        (if c < 65 then (if 51 \<le> c \<and> c \<le> 57 then St 223
           else St 0)
         else if c > 70 then (if 97 \<le> c \<and> c \<le> 102 then St 224
           else St 0)
         else St 224)),
    State 148 (\<lambda>c. switch c [(46, St 72), (58, St 152), (93, St 460)]
        (if c < 65 then (if 48 \<le> c \<and> c \<le> 57 then St 149
           else St 0)
         else if c > 70 then (if 97 \<le> c \<and> c \<le> 102 then St 149
           else St 0)
         else St 149))]"

definition uri_code_23 :: "uri_action block list" where
  "uri_code_23 = [
    State 149 (\<lambda>c. switch c [(58, St 152), (93, St 460)]
        (if c < 65 then (if 48 \<le> c \<and> c \<le> 57 then St 150
           else St 0)
         else if c > 70 then (if 97 \<le> c \<and> c \<le> 102 then St 150
           else St 0)
         else St 150)),
    State 150 (\<lambda>c. switch c [(58, St 152), (93, St 460)]
        (if c < 65 then (if 48 \<le> c \<and> c \<le> 57 then St 151
           else St 0)
         else if c > 70 then (if 97 \<le> c \<and> c \<le> 102 then St 151
           else St 0)
         else St 151)),
    State 151 (\<lambda>c. switch c [(58, St 152), (93, St 460)]
        (St 0)),
    State 152 (\<lambda>c. switch c [(2, St 69), (48, St 153), (49, St 209), (50, St 212)]
        (if c < 65 then (if 51 \<le> c \<and> c \<le> 57 then St 215
           else St 0)
         else if c > 70 then (if 97 \<le> c \<and> c \<le> 102 then St 216
           else St 0)
         else St 216)),
    State 153 (\<lambda>c. switch c [(46, St 72), (58, St 157), (93, St 460)]
        (if c < 65 then (if 48 \<le> c \<and> c \<le> 57 then St 154
           else St 0)
         else if c > 70 then (if 97 \<le> c \<and> c \<le> 102 then St 154
           else St 0)
         else St 154)),
    State 154 (\<lambda>c. switch c [(58, St 157), (93, St 460)]
        (if c < 65 then (if 48 \<le> c \<and> c \<le> 57 then St 155
           else St 0)
         else if c > 70 then (if 97 \<le> c \<and> c \<le> 102 then St 155
           else St 0)
         else St 155)),
    State 155 (\<lambda>c. switch c [(58, St 157), (93, St 460)]
        (if c < 65 then (if 48 \<le> c \<and> c \<le> 57 then St 156
           else St 0)
         else if c > 70 then (if 97 \<le> c \<and> c \<le> 102 then St 156
           else St 0)
         else St 156)),
    State 156 (\<lambda>c. switch c [(58, St 157), (93, St 460)]
        (St 0)),
    State 157 (\<lambda>c. switch c [(2, St 69), (48, St 158), (49, St 201), (50, St 204)]
        (if c < 65 then (if 51 \<le> c \<and> c \<le> 57 then St 207
           else St 0)
         else if c > 70 then (if 97 \<le> c \<and> c \<le> 102 then St 208
           else St 0)
         else St 208))]"

definition uri_code_24 :: "uri_action block list" where
  "uri_code_24 = [
    State 158 (\<lambda>c. switch c [(46, St 72), (58, St 162), (93, St 460)]
        (if c < 65 then (if 48 \<le> c \<and> c \<le> 57 then St 159
           else St 0)
         else if c > 70 then (if 97 \<le> c \<and> c \<le> 102 then St 159
           else St 0)
         else St 159)),
    State 159 (\<lambda>c. switch c [(58, St 162), (93, St 460)]
        (if c < 65 then (if 48 \<le> c \<and> c \<le> 57 then St 160
           else St 0)
         else if c > 70 then (if 97 \<le> c \<and> c \<le> 102 then St 160
           else St 0)
         else St 160)),
    State 160 (\<lambda>c. switch c [(58, St 162), (93, St 460)]
        (if c < 65 then (if 48 \<le> c \<and> c \<le> 57 then St 161
           else St 0)
         else if c > 70 then (if 97 \<le> c \<and> c \<le> 102 then St 161
           else St 0)
         else St 161)),
    State 161 (\<lambda>c. switch c [(58, St 162), (93, St 460)]
        (St 0)),
    State 162 (\<lambda>c. switch c [(2, St 69), (48, St 163), (49, St 193), (50, St 196)]
        (if c < 65 then (if 51 \<le> c \<and> c \<le> 57 then St 199
           else St 0)
         else if c > 70 then (if 97 \<le> c \<and> c \<le> 102 then St 200
           else St 0)
         else St 200)),
    State 163 (\<lambda>c. switch c [(46, St 72), (58, St 167), (93, St 460)]
        (if c < 65 then (if 48 \<le> c \<and> c \<le> 57 then St 164
           else St 0)
         else if c > 70 then (if 97 \<le> c \<and> c \<le> 102 then St 164
           else St 0)
         else St 164)),
    State 164 (\<lambda>c. switch c [(58, St 167), (93, St 460)]
        (if c < 65 then (if 48 \<le> c \<and> c \<le> 57 then St 165
           else St 0)
         else if c > 70 then (if 97 \<le> c \<and> c \<le> 102 then St 165
           else St 0)
         else St 165)),
    State 165 (\<lambda>c. switch c [(58, St 167), (93, St 460)]
        (if c < 65 then (if 48 \<le> c \<and> c \<le> 57 then St 166
           else St 0)
         else if c > 70 then (if 97 \<le> c \<and> c \<le> 102 then St 166
           else St 0)
         else St 166)),
    State 166 (\<lambda>c. switch c [(58, St 167), (93, St 460)]
        (St 0))]"

definition uri_code_25 :: "uri_action block list" where
  "uri_code_25 = [
    State 167 (\<lambda>c. switch c [(2, St 69), (48, St 168), (49, St 185), (50, St 188)]
        (if c < 65 then (if 51 \<le> c \<and> c \<le> 57 then St 191
           else St 0)
         else if c > 70 then (if 97 \<le> c \<and> c \<le> 102 then St 192
           else St 0)
         else St 192)),
    State 168 (\<lambda>c. switch c [(46, St 72), (58, St 172), (93, St 460)]
        (if c < 65 then (if 48 \<le> c \<and> c \<le> 57 then St 169
           else St 0)
         else if c > 70 then (if 97 \<le> c \<and> c \<le> 102 then St 169
           else St 0)
         else St 169)),
    State 169 (\<lambda>c. switch c [(58, St 172), (93, St 460)]
        (if c < 65 then (if 48 \<le> c \<and> c \<le> 57 then St 170
           else St 0)
         else if c > 70 then (if 97 \<le> c \<and> c \<le> 102 then St 170
           else St 0)
         else St 170)),
    State 170 (\<lambda>c. switch c [(58, St 172), (93, St 460)]
        (if c < 65 then (if 48 \<le> c \<and> c \<le> 57 then St 171
           else St 0)
         else if c > 70 then (if 97 \<le> c \<and> c \<le> 102 then St 171
           else St 0)
         else St 171)),
    State 171 (\<lambda>c. switch c [(58, St 172), (93, St 460)]
        (St 0)),
    State 172 (\<lambda>c. switch c [(2, St 69), (48, St 173), (49, St 177), (50, St 180)]
        (if c < 65 then (if 51 \<le> c \<and> c \<le> 57 then St 183
           else St 0)
         else if c > 70 then (if 97 \<le> c \<and> c \<le> 102 then St 184
           else St 0)
         else St 184)),
    State 173 (\<lambda>c. switch c [(46, St 72), (58, St 111), (93, St 460)]
        (if c < 65 then (if 48 \<le> c \<and> c \<le> 57 then St 174
           else St 0)
         else if c > 70 then (if 97 \<le> c \<and> c \<le> 102 then St 174
           else St 0)
         else St 174)),
    State 174 (\<lambda>c. switch c [(58, St 111), (93, St 460)]
        (if c < 65 then (if 48 \<le> c \<and> c \<le> 57 then St 175
           else St 0)
         else if c > 70 then (if 97 \<le> c \<and> c \<le> 102 then St 175
           else St 0)
         else St 175)),
    State 175 (\<lambda>c. switch c [(58, St 111), (93, St 460)]
        (if c < 65 then (if 48 \<le> c \<and> c \<le> 57 then St 176
           else St 0)
         else if c > 70 then (if 97 \<le> c \<and> c \<le> 102 then St 176
           else St 0)
         else St 176))]"

definition uri_code_26 :: "uri_action block list" where
  "uri_code_26 = [
    State 176 (\<lambda>c. switch c [(58, St 111), (93, St 460)]
        (St 0)),
    State 177 (\<lambda>c. switch c [(46, St 72), (58, St 111), (93, St 460)]
        (if c < 65 then (if 48 \<le> c \<and> c \<le> 57 then St 178
           else St 0)
         else if c > 70 then (if 97 \<le> c \<and> c \<le> 102 then St 174
           else St 0)
         else St 174)),
    State 178 (\<lambda>c. switch c [(46, St 72), (58, St 111), (93, St 460)]
        (if c < 65 then (if 48 \<le> c \<and> c \<le> 57 then St 179
           else St 0)
         else if c > 70 then (if 97 \<le> c \<and> c \<le> 102 then St 175
           else St 0)
         else St 175)),
    State 179 (\<lambda>c. switch c [(46, St 72), (58, St 111), (93, St 460)]
        (if c < 65 then (if 48 \<le> c \<and> c \<le> 57 then St 176
           else St 0)
         else if c > 70 then (if 97 \<le> c \<and> c \<le> 102 then St 176
           else St 0)
         else St 176)),
    State 180 (\<lambda>c. switch c [(46, St 72), (53, St 182), (58, St 111), (93, St 460)]
        (if c < 65 then (if 48 \<le> c \<and> c \<le> 57 then St 181
           else St 0)
         else if c > 70 then (if 97 \<le> c \<and> c \<le> 102 then St 174
           else St 0)
         else St 174)),
    State 181 (\<lambda>c. switch c [(46, St 72), (58, St 111), (93, St 460)]
        (if c < 65 then (if 48 \<le> c \<and> c \<le> 57 then St 175
           else St 0)
         else if c > 70 then (if 97 \<le> c \<and> c \<le> 102 then St 175
           else St 0)
         else St 175)),
    State 182 (\<lambda>c. switch c [(46, St 72), (58, St 111), (93, St 460)]
        (if c < 54 then (if 48 \<le> c \<and> c \<le> 53 then St 179
           else St 0)
         else if c > 57 then (if c > 70 then (if 97 \<le> c \<and> c \<le> 102 then St 175
             else St 0)
           else if c \<ge> 65 then St 175
           else St 0)
         else St 175)),
    State 183 (\<lambda>c. switch c [(46, St 72), (58, St 111), (93, St 460)]
        (if c < 65 then (if 48 \<le> c \<and> c \<le> 57 then St 181
           else St 0)
         else if c > 70 then (if 97 \<le> c \<and> c \<le> 102 then St 174
           else St 0)
         else St 174))]"

definition uri_code_27 :: "uri_action block list" where
  "uri_code_27 = [
    State 184 (\<lambda>c. switch c [(58, St 111), (93, St 460)]
        (if c < 65 then (if 48 \<le> c \<and> c \<le> 57 then St 174
           else St 0)
         else if c > 70 then (if 97 \<le> c \<and> c \<le> 102 then St 174
           else St 0)
         else St 174)),
    State 185 (\<lambda>c. switch c [(46, St 72), (58, St 172), (93, St 460)]
        (if c < 65 then (if 48 \<le> c \<and> c \<le> 57 then St 186
           else St 0)
         else if c > 70 then (if 97 \<le> c \<and> c \<le> 102 then St 169
           else St 0)
         else St 169)),
    State 186 (\<lambda>c. switch c [(46, St 72), (58, St 172), (93, St 460)]
        (if c < 65 then (if 48 \<le> c \<and> c \<le> 57 then St 187
           else St 0)
         else if c > 70 then (if 97 \<le> c \<and> c \<le> 102 then St 170
           else St 0)
         else St 170)),
    State 187 (\<lambda>c. switch c [(46, St 72), (58, St 172), (93, St 460)]
        (if c < 65 then (if 48 \<le> c \<and> c \<le> 57 then St 171
           else St 0)
         else if c > 70 then (if 97 \<le> c \<and> c \<le> 102 then St 171
           else St 0)
         else St 171)),
    State 188 (\<lambda>c. switch c [(46, St 72), (53, St 190), (58, St 172), (93, St 460)]
        (if c < 65 then (if 48 \<le> c \<and> c \<le> 57 then St 189
           else St 0)
         else if c > 70 then (if 97 \<le> c \<and> c \<le> 102 then St 169
           else St 0)
         else St 169)),
    State 189 (\<lambda>c. switch c [(46, St 72), (58, St 172), (93, St 460)]
        (if c < 65 then (if 48 \<le> c \<and> c \<le> 57 then St 170
           else St 0)
         else if c > 70 then (if 97 \<le> c \<and> c \<le> 102 then St 170
           else St 0)
         else St 170)),
    State 190 (\<lambda>c. switch c [(46, St 72), (58, St 172), (93, St 460)]
        (if c < 54 then (if 48 \<le> c \<and> c \<le> 53 then St 187
           else St 0)
         else if c > 57 then (if c > 70 then (if 97 \<le> c \<and> c \<le> 102 then St 170
             else St 0)
           else if c \<ge> 65 then St 170
           else St 0)
         else St 170)),
    State 191 (\<lambda>c. switch c [(46, St 72), (58, St 172), (93, St 460)]
        (if c < 65 then (if 48 \<le> c \<and> c \<le> 57 then St 189
           else St 0)
         else if c > 70 then (if 97 \<le> c \<and> c \<le> 102 then St 169
           else St 0)
         else St 169))]"

definition uri_code_28 :: "uri_action block list" where
  "uri_code_28 = [
    State 192 (\<lambda>c. switch c [(58, St 172), (93, St 460)]
        (if c < 65 then (if 48 \<le> c \<and> c \<le> 57 then St 169
           else St 0)
         else if c > 70 then (if 97 \<le> c \<and> c \<le> 102 then St 169
           else St 0)
         else St 169)),
    State 193 (\<lambda>c. switch c [(46, St 72), (58, St 167), (93, St 460)]
        (if c < 65 then (if 48 \<le> c \<and> c \<le> 57 then St 194
           else St 0)
         else if c > 70 then (if 97 \<le> c \<and> c \<le> 102 then St 164
           else St 0)
         else St 164)),
    State 194 (\<lambda>c. switch c [(46, St 72), (58, St 167), (93, St 460)]
        (if c < 65 then (if 48 \<le> c \<and> c \<le> 57 then St 195
           else St 0)
         else if c > 70 then (if 97 \<le> c \<and> c \<le> 102 then St 165
           else St 0)
         else St 165)),
    State 195 (\<lambda>c. switch c [(46, St 72), (58, St 167), (93, St 460)]
        (if c < 65 then (if 48 \<le> c \<and> c \<le> 57 then St 166
           else St 0)
         else if c > 70 then (if 97 \<le> c \<and> c \<le> 102 then St 166
           else St 0)
         else St 166)),
    State 196 (\<lambda>c. switch c [(46, St 72), (53, St 198), (58, St 167), (93, St 460)]
        (if c < 65 then (if 48 \<le> c \<and> c \<le> 57 then St 197
           else St 0)
         else if c > 70 then (if 97 \<le> c \<and> c \<le> 102 then St 164
           else St 0)
         else St 164)),
    State 197 (\<lambda>c. switch c [(46, St 72), (58, St 167), (93, St 460)]
        (if c < 65 then (if 48 \<le> c \<and> c \<le> 57 then St 165
           else St 0)
         else if c > 70 then (if 97 \<le> c \<and> c \<le> 102 then St 165
           else St 0)
         else St 165)),
    State 198 (\<lambda>c. switch c [(46, St 72), (58, St 167), (93, St 460)]
        (if c < 54 then (if 48 \<le> c \<and> c \<le> 53 then St 195
           else St 0)
         else if c > 57 then (if c > 70 then (if 97 \<le> c \<and> c \<le> 102 then St 165
             else St 0)
           else if c \<ge> 65 then St 165
           else St 0)
         else St 165)),
    State 199 (\<lambda>c. switch c [(46, St 72), (58, St 167), (93, St 460)]
        (if c < 65 then (if 48 \<le> c \<and> c \<le> 57 then St 197
           else St 0)
         else if c > 70 then (if 97 \<le> c \<and> c \<le> 102 then St 164
           else St 0)
         else St 164))]"

definition uri_code_29 :: "uri_action block list" where
  "uri_code_29 = [
    State 200 (\<lambda>c. switch c [(58, St 167), (93, St 460)]
        (if c < 65 then (if 48 \<le> c \<and> c \<le> 57 then St 164
           else St 0)
         else if c > 70 then (if 97 \<le> c \<and> c \<le> 102 then St 164
           else St 0)
         else St 164)),
    State 201 (\<lambda>c. switch c [(46, St 72), (58, St 162), (93, St 460)]
        (if c < 65 then (if 48 \<le> c \<and> c \<le> 57 then St 202
           else St 0)
         else if c > 70 then (if 97 \<le> c \<and> c \<le> 102 then St 159
           else St 0)
         else St 159)),
    State 202 (\<lambda>c. switch c [(46, St 72), (58, St 162), (93, St 460)]
        (if c < 65 then (if 48 \<le> c \<and> c \<le> 57 then St 203
           else St 0)
         else if c > 70 then (if 97 \<le> c \<and> c \<le> 102 then St 160
           else St 0)
         else St 160)),
    State 203 (\<lambda>c. switch c [(46, St 72), (58, St 162), (93, St 460)]
        (if c < 65 then (if 48 \<le> c \<and> c \<le> 57 then St 161
           else St 0)
         else if c > 70 then (if 97 \<le> c \<and> c \<le> 102 then St 161
           else St 0)
         else St 161)),
    State 204 (\<lambda>c. switch c [(46, St 72), (53, St 206), (58, St 162), (93, St 460)]
        (if c < 65 then (if 48 \<le> c \<and> c \<le> 57 then St 205
           else St 0)
         else if c > 70 then (if 97 \<le> c \<and> c \<le> 102 then St 159
           else St 0)
         else St 159)),
    State 205 (\<lambda>c. switch c [(46, St 72), (58, St 162), (93, St 460)]
        (if c < 65 then (if 48 \<le> c \<and> c \<le> 57 then St 160
           else St 0)
         else if c > 70 then (if 97 \<le> c \<and> c \<le> 102 then St 160
           else St 0)
         else St 160)),
    State 206 (\<lambda>c. switch c [(46, St 72), (58, St 162), (93, St 460)]
        (if c < 54 then (if 48 \<le> c \<and> c \<le> 53 then St 203
           else St 0)
         else if c > 57 then (if c > 70 then (if 97 \<le> c \<and> c \<le> 102 then St 160
             else St 0)
           else if c \<ge> 65 then St 160
           else St 0)
         else St 160)),
    State 207 (\<lambda>c. switch c [(46, St 72), (58, St 162), (93, St 460)]
        (if c < 65 then (if 48 \<le> c \<and> c \<le> 57 then St 205
           else St 0)
         else if c > 70 then (if 97 \<le> c \<and> c \<le> 102 then St 159
           else St 0)
         else St 159))]"

definition uri_code_30 :: "uri_action block list" where
  "uri_code_30 = [
    State 208 (\<lambda>c. switch c [(58, St 162), (93, St 460)]
        (if c < 65 then (if 48 \<le> c \<and> c \<le> 57 then St 159
           else St 0)
         else if c > 70 then (if 97 \<le> c \<and> c \<le> 102 then St 159
           else St 0)
         else St 159)),
    State 209 (\<lambda>c. switch c [(46, St 72), (58, St 157), (93, St 460)]
        (if c < 65 then (if 48 \<le> c \<and> c \<le> 57 then St 210
           else St 0)
         else if c > 70 then (if 97 \<le> c \<and> c \<le> 102 then St 154
           else St 0)
         else St 154)),
    State 210 (\<lambda>c. switch c [(46, St 72), (58, St 157), (93, St 460)]
        (if c < 65 then (if 48 \<le> c \<and> c \<le> 57 then St 211
           else St 0)
         else if c > 70 then (if 97 \<le> c \<and> c \<le> 102 then St 155
           else St 0)
         else St 155)),
    State 211 (\<lambda>c. switch c [(46, St 72), (58, St 157), (93, St 460)]
        (if c < 65 then (if 48 \<le> c \<and> c \<le> 57 then St 156
           else St 0)
         else if c > 70 then (if 97 \<le> c \<and> c \<le> 102 then St 156
           else St 0)
         else St 156)),
    State 212 (\<lambda>c. switch c [(46, St 72), (53, St 214), (58, St 157), (93, St 460)]
        (if c < 65 then (if 48 \<le> c \<and> c \<le> 57 then St 213
           else St 0)
         else if c > 70 then (if 97 \<le> c \<and> c \<le> 102 then St 154
           else St 0)
         else St 154)),
    State 213 (\<lambda>c. switch c [(46, St 72), (58, St 157), (93, St 460)]
        (if c < 65 then (if 48 \<le> c \<and> c \<le> 57 then St 155
           else St 0)
         else if c > 70 then (if 97 \<le> c \<and> c \<le> 102 then St 155
           else St 0)
         else St 155)),
    State 214 (\<lambda>c. switch c [(46, St 72), (58, St 157), (93, St 460)]
        (if c < 54 then (if 48 \<le> c \<and> c \<le> 53 then St 211
           else St 0)
         else if c > 57 then (if c > 70 then (if 97 \<le> c \<and> c \<le> 102 then St 155
             else St 0)
           else if c \<ge> 65 then St 155
           else St 0)
         else St 155)),
    State 215 (\<lambda>c. switch c [(46, St 72), (58, St 157), (93, St 460)]
        (if c < 65 then (if 48 \<le> c \<and> c \<le> 57 then St 213
           else St 0)
         else if c > 70 then (if 97 \<le> c \<and> c \<le> 102 then St 154
           else St 0)
         else St 154))]"

definition uri_code_31 :: "uri_action block list" where
  "uri_code_31 = [
    State 216 (\<lambda>c. switch c [(58, St 157), (93, St 460)]
        (if c < 65 then (if 48 \<le> c \<and> c \<le> 57 then St 154
           else St 0)
         else if c > 70 then (if 97 \<le> c \<and> c \<le> 102 then St 154
           else St 0)
         else St 154)),
    State 217 (\<lambda>c. switch c [(46, St 72), (58, St 152), (93, St 460)]
        (if c < 65 then (if 48 \<le> c \<and> c \<le> 57 then St 218
           else St 0)
         else if c > 70 then (if 97 \<le> c \<and> c \<le> 102 then St 149
           else St 0)
         else St 149)),
    State 218 (\<lambda>c. switch c [(46, St 72), (58, St 152), (93, St 460)]
        (if c < 65 then (if 48 \<le> c \<and> c \<le> 57 then St 219
           else St 0)
         else if c > 70 then (if 97 \<le> c \<and> c \<le> 102 then St 150
           else St 0)
         else St 150)),
    State 219 (\<lambda>c. switch c [(46, St 72), (58, St 152), (93, St 460)]
        (if c < 65 then (if 48 \<le> c \<and> c \<le> 57 then St 151
           else St 0)
         else if c > 70 then (if 97 \<le> c \<and> c \<le> 102 then St 151
           else St 0)
         else St 151)),
    State 220 (\<lambda>c. switch c [(46, St 72), (53, St 222), (58, St 152), (93, St 460)]
        (if c < 65 then (if 48 \<le> c \<and> c \<le> 57 then St 221
           else St 0)
         else if c > 70 then (if 97 \<le> c \<and> c \<le> 102 then St 149
           else St 0)
         else St 149)),
    State 221 (\<lambda>c. switch c [(46, St 72), (58, St 152), (93, St 460)]
        (if c < 65 then (if 48 \<le> c \<and> c \<le> 57 then St 150
           else St 0)
         else if c > 70 then (if 97 \<le> c \<and> c \<le> 102 then St 150
           else St 0)
         else St 150)),
    State 222 (\<lambda>c. switch c [(46, St 72), (58, St 152), (93, St 460)]
        (if c < 54 then (if 48 \<le> c \<and> c \<le> 53 then St 219
           else St 0)
         else if c > 57 then (if c > 70 then (if 97 \<le> c \<and> c \<le> 102 then St 150
             else St 0)
           else if c \<ge> 65 then St 150
           else St 0)
         else St 150)),
    State 223 (\<lambda>c. switch c [(46, St 72), (58, St 152), (93, St 460)]
        (if c < 65 then (if 48 \<le> c \<and> c \<le> 57 then St 221
           else St 0)
         else if c > 70 then (if 97 \<le> c \<and> c \<le> 102 then St 149
           else St 0)
         else St 149))]"

definition uri_code_32 :: "uri_action block list" where
  "uri_code_32 = [
    State 224 (\<lambda>c. switch c [(58, St 152), (93, St 460)]
        (if c < 65 then (if 48 \<le> c \<and> c \<le> 57 then St 149
           else St 0)
         else if c > 70 then (if 97 \<le> c \<and> c \<le> 102 then St 149
           else St 0)
         else St 149)),
    State 225 (\<lambda>c. if c < 65 then (if 48 \<le> c \<and> c \<le> 57 then St 226
        else St 0)
      else if c > 70 then (if 97 \<le> c \<and> c \<le> 102 then St 226
        else St 0)
      else St 226),
    State 226 (\<lambda>c. if c = 46 then St 227
      else if c < 65 then (if 48 \<le> c \<and> c \<le> 57 then St 226
        else St 0)
      else if c > 70 then (if 97 \<le> c \<and> c \<le> 102 then St 226
        else St 0)
      else St 226),
    State 227 (\<lambda>c. switch c [(33, St 228), (36, St 228), (61, St 228), (95, St 228), (126, St 228)]
        (if c < 48 then (if 38 \<le> c \<and> c \<le> 46 then St 228
           else St 0)
         else if c > 59 then (if c > 90 then (if 97 \<le> c \<and> c \<le> 122 then St 228
             else St 0)
           else if c \<ge> 65 then St 228
           else St 0)
         else St 228)),
    State 228 (\<lambda>c. switch c [(33, St 228), (36, St 228), (61, St 228), (93, St 460), (95, St 228), (126, St 228)]
        (if c < 48 then (if 38 \<le> c \<and> c \<le> 46 then St 228
           else St 0)
         else if c > 59 then (if c > 90 then (if 97 \<le> c \<and> c \<le> 122 then St 228
             else St 0)
           else if c \<ge> 65 then St 228
           else St 0)
         else St 228)),
    Trans 500 [U_Mark] 489,
    State 489 (\<lambda>c. switch c [(33, St 33), (35, Tr 493), (37, St 34), (47, Tr 494), (61, St 33), (63, Tr 496), (64, Tr 38), (95, St 33), (126, St 33)]
        (if c < 58 then (if c > 46 then (if 48 \<le> c \<and> c \<le> 57 then St 489
             else St 0)
           else if c \<ge> 36 then St 33
           else St 0)
         else if c > 59 then (if c > 90 then (if 97 \<le> c \<and> c \<le> 122 then St 33
             else St 0)
           else if c \<ge> 65 then St 33
           else St 0)
         else St 33)),
    Trans 477 [U_Mark] 490]"

definition uri_code_33 :: "uri_action block list" where
  "uri_code_33 = [
    State 490 (\<lambda>c. switch c [(33, St 467), (35, Tr 485), (37, St 31), (46, St 491), (47, Tr 486), (58, Tr 499), (61, St 467), (63, Tr 488), (64, Tr 38), (95, St 467), (126, St 467)]
        (if c < 65 then (if 36 \<le> c \<and> c \<le> 59 then St 467
           else St 0)
         else if c > 90 then (if 97 \<le> c \<and> c \<le> 122 then St 467
           else St 0)
         else St 467)),
    State 491 (\<lambda>c. switch c [(2, St 13), (33, St 467), (35, Tr 485), (37, St 31), (47, Tr 486), (48, St 492), (49, St 500), (50, St 502), (58, Tr 499), (59, St 467), (61, St 467), (63, Tr 488), (64, Tr 38), (95, St 467), (126, St 467)]
        (if c < 51 then (if 36 \<le> c \<and> c \<le> 46 then St 467
           else St 0)
         else if c > 57 then (if c > 90 then (if 97 \<le> c \<and> c \<le> 122 then St 467
             else St 0)
           else if c \<ge> 65 then St 467
           else St 0)
         else St 501)),
    State 492 (\<lambda>c. switch c [(33, St 467), (35, Tr 485), (37, St 31), (46, St 493), (47, Tr 486), (58, Tr 499), (61, St 467), (63, Tr 488), (64, Tr 38), (95, St 467), (126, St 467)]
        (if c < 65 then (if 36 \<le> c \<and> c \<le> 59 then St 467
           else St 0)
         else if c > 90 then (if 97 \<le> c \<and> c \<le> 122 then St 467
           else St 0)
         else St 467)),
    State 493 (\<lambda>c. switch c [(2, St 17), (33, St 467), (35, Tr 485), (37, St 31), (47, Tr 486), (48, St 494), (49, St 496), (50, St 498), (58, Tr 499), (59, St 467), (61, St 467), (63, Tr 488), (64, Tr 38), (95, St 467), (126, St 467)]
        (if c < 51 then (if 36 \<le> c \<and> c \<le> 46 then St 467
           else St 0)
         else if c > 57 then (if c > 90 then (if 97 \<le> c \<and> c \<le> 122 then St 467
             else St 0)
           else if c \<ge> 65 then St 467
           else St 0)
         else St 497)),
    State 494 (\<lambda>c. switch c [(33, St 467), (35, Tr 485), (37, St 31), (46, St 495), (47, Tr 486), (58, Tr 499), (61, St 467), (63, Tr 488), (64, Tr 38), (95, St 467), (126, St 467)]
        (if c < 65 then (if 36 \<le> c \<and> c \<le> 59 then St 467
           else St 0)
         else if c > 90 then (if 97 \<le> c \<and> c \<le> 122 then St 467
           else St 0)
         else St 467))]"

definition uri_code_34 :: "uri_action block list" where
  "uri_code_34 = [
    State 495 (\<lambda>c. switch c [(2, St 21), (33, St 467), (35, Tr 485), (37, St 31), (47, Tr 486), (58, Tr 499), (61, St 467), (63, Tr 488), (64, Tr 38), (95, St 467), (126, St 467)]
        (if c < 65 then (if 36 \<le> c \<and> c \<le> 59 then St 467
           else St 0)
         else if c > 90 then (if 97 \<le> c \<and> c \<le> 122 then St 467
           else St 0)
         else St 467)),
    State 496 (\<lambda>c. switch c [(33, St 467), (35, Tr 485), (37, St 31), (46, St 495), (47, Tr 486), (58, Tr 499), (59, St 467), (61, St 467), (63, Tr 488), (64, Tr 38), (95, St 467), (126, St 467)]
        (if c < 48 then (if 36 \<le> c \<and> c \<le> 45 then St 467
           else St 0)
         else if c > 57 then (if c > 90 then (if 97 \<le> c \<and> c \<le> 122 then St 467
             else St 0)
           else if c \<ge> 65 then St 467
           else St 0)
         else St 497)),
    State 497 (\<lambda>c. switch c [(33, St 467), (35, Tr 485), (37, St 31), (46, St 495), (47, Tr 486), (58, Tr 499), (59, St 467), (61, St 467), (63, Tr 488), (64, Tr 38), (95, St 467), (126, St 467)]
        (if c < 48 then (if 36 \<le> c \<and> c \<le> 45 then St 467
           else St 0)
         else if c > 57 then (if c > 90 then (if 97 \<le> c \<and> c \<le> 122 then St 467
             else St 0)
           else if c \<ge> 65 then St 467
           else St 0)
         else St 494)),
    State 498 (\<lambda>c. switch c [(33, St 467), (35, Tr 485), (37, St 31), (46, St 495), (47, Tr 486), (53, St 499), (58, Tr 499), (59, St 467), (61, St 467), (63, Tr 488), (64, Tr 38), (95, St 467), (126, St 467)]
        (if c < 48 then (if 36 \<le> c \<and> c \<le> 45 then St 467
           else St 0)
         else if c > 57 then (if c > 90 then (if 97 \<le> c \<and> c \<le> 122 then St 467
             else St 0)
           else if c \<ge> 65 then St 467
           else St 0)
         else St 494)),
    State 499 (\<lambda>c. switch c [(33, St 467), (35, Tr 485), (37, St 31), (46, St 495), (47, Tr 486), (58, Tr 499), (61, St 467), (63, Tr 488), (64, Tr 38), (95, St 467), (126, St 467)]
        (if c < 54 then (if c > 45 then (if 48 \<le> c \<and> c \<le> 53 then St 494
             else St 0)
           else if c \<ge> 36 then St 467
           else St 0)
         else if c > 59 then (if c > 90 then (if 97 \<le> c \<and> c \<le> 122 then St 467
             else St 0)
           else if c \<ge> 65 then St 467
           else St 0)
         else St 467))]"

definition uri_code_35 :: "uri_action block list" where
  "uri_code_35 = [
    State 500 (\<lambda>c. switch c [(33, St 467), (35, Tr 485), (37, St 31), (46, St 493), (47, Tr 486), (58, Tr 499), (59, St 467), (61, St 467), (63, Tr 488), (64, Tr 38), (95, St 467), (126, St 467)]
        (if c < 48 then (if 36 \<le> c \<and> c \<le> 45 then St 467
           else St 0)
         else if c > 57 then (if c > 90 then (if 97 \<le> c \<and> c \<le> 122 then St 467
             else St 0)
           else if c \<ge> 65 then St 467
           else St 0)
         else St 501)),
    State 501 (\<lambda>c. switch c [(33, St 467), (35, Tr 485), (37, St 31), (46, St 493), (47, Tr 486), (58, Tr 499), (59, St 467), (61, St 467), (63, Tr 488), (64, Tr 38), (95, St 467), (126, St 467)]
        (if c < 48 then (if 36 \<le> c \<and> c \<le> 45 then St 467
           else St 0)
         else if c > 57 then (if c > 90 then (if 97 \<le> c \<and> c \<le> 122 then St 467
             else St 0)
           else if c \<ge> 65 then St 467
           else St 0)
         else St 492)),
    State 502 (\<lambda>c. switch c [(33, St 467), (35, Tr 485), (37, St 31), (46, St 493), (47, Tr 486), (53, St 503), (58, Tr 499), (59, St 467), (61, St 467), (63, Tr 488), (64, Tr 38), (95, St 467), (126, St 467)]
        (if c < 48 then (if 36 \<le> c \<and> c \<le> 45 then St 467
           else St 0)
         else if c > 57 then (if c > 90 then (if 97 \<le> c \<and> c \<le> 122 then St 467
             else St 0)
           else if c \<ge> 65 then St 467
           else St 0)
         else St 492)),
    State 503 (\<lambda>c. switch c [(33, St 467), (35, Tr 485), (37, St 31), (46, St 493), (47, Tr 486), (58, Tr 499), (61, St 467), (63, Tr 488), (64, Tr 38), (95, St 467), (126, St 467)]
        (if c < 54 then (if c > 45 then (if 48 \<le> c \<and> c \<le> 53 then St 492
             else St 0)
           else if c \<ge> 36 then St 467
           else St 0)
         else if c > 59 then (if c > 90 then (if 97 \<le> c \<and> c \<le> 122 then St 467
             else St 0)
           else if c \<ge> 65 then St 467
           else St 0)
         else St 467)),
    Trans 478 [U_Mark] 504]"

definition uri_code_36 :: "uri_action block list" where
  "uri_code_36 = [
    State 504 (\<lambda>c. switch c [(33, St 467), (35, Tr 485), (37, St 31), (46, St 491), (47, Tr 486), (58, Tr 499), (59, St 467), (61, St 467), (63, Tr 488), (64, Tr 38), (95, St 467), (126, St 467)]
        (if c < 48 then (if 36 \<le> c \<and> c \<le> 45 then St 467
           else St 0)
         else if c > 57 then (if c > 90 then (if 97 \<le> c \<and> c \<le> 122 then St 467
             else St 0)
           else if c \<ge> 65 then St 467
           else St 0)
         else St 505)),
    Trans 480 [U_Mark] 505,
    State 505 (\<lambda>c. switch c [(33, St 467), (35, Tr 485), (37, St 31), (46, St 491), (47, Tr 486), (58, Tr 499), (59, St 467), (61, St 467), (63, Tr 488), (64, Tr 38), (95, St 467), (126, St 467)]
        (if c < 48 then (if 36 \<le> c \<and> c \<le> 45 then St 467
           else St 0)
         else if c > 57 then (if c > 90 then (if 97 \<le> c \<and> c \<le> 122 then St 467
             else St 0)
           else if c \<ge> 65 then St 467
           else St 0)
         else St 490)),
    Trans 479 [U_Mark] 506,
    State 506 (\<lambda>c. switch c [(33, St 467), (35, Tr 485), (37, St 31), (46, St 491), (47, Tr 486), (53, St 507), (58, Tr 499), (59, St 467), (61, St 467), (63, Tr 488), (64, Tr 38), (95, St 467), (126, St 467)]
        (if c < 48 then (if 36 \<le> c \<and> c \<le> 45 then St 467
           else St 0)
         else if c > 57 then (if c > 90 then (if 97 \<le> c \<and> c \<le> 122 then St 467
             else St 0)
           else if c \<ge> 65 then St 467
           else St 0)
         else St 490)),
    State 507 (\<lambda>c. switch c [(33, St 467), (35, Tr 485), (37, St 31), (46, St 491), (47, Tr 486), (58, Tr 499), (61, St 467), (63, Tr 488), (64, Tr 38), (95, St 467), (126, St 467)]
        (if c < 54 then (if c > 45 then (if 48 \<le> c \<and> c \<le> 53 then St 490
             else St 0)
           else if c \<ge> 36 then St 467
           else St 0)
         else if c > 59 then (if c > 90 then (if 97 \<le> c \<and> c \<le> 122 then St 467
             else St 0)
           else if c \<ge> 65 then St 467
           else St 0)
         else St 467)),
    Trans 461 [U_Mark] 508]"

definition uri_code_37 :: "uri_action block list" where
  "uri_code_37 = [
    State 508 (\<lambda>c. switch c [(34, St 0), (35, St 453), (37, St 3), (43, St 508), (47, St 455), (58, Tr 543), (60, St 0), (62, St 0), (63, St 456), (96, St 0), (127, St 0)]
        (if c < 65 then (if c > 32 then (if 45 \<le> c \<and> c \<le> 57 then St 508
             else St 452)
           else if c \<ge> 0 then St 0
           else St 452)
         else if c > 90 then (if c < 97 then (if 91 \<le> c \<and> c \<le> 94 then St 0
             else St 452)
           else if c > 122 then (if 123 \<le> c \<and> c \<le> 125 then St 0
             else St 452)
           else St 508)
         else St 508)),
    Trans 543 [U_Save_scheme] 509,
    State 509 (\<lambda>c. switch c [(34, St 0), (35, St 453), (37, St 5), (47, St 510), (60, St 0), (62, St 0), (63, St 456), (96, St 0), (127, St 0)]
        (if c < 91 then (if 0 \<le> c \<and> c \<le> 32 then St 0
           else St 455)
         else if c > 94 then (if 123 \<le> c \<and> c \<le> 125 then St 0
           else St 455)
         else St 0)),
    State 510 (\<lambda>c. switch c [(34, St 0), (35, St 453), (37, St 5), (47, St 511), (60, St 0), (62, St 0), (63, St 456), (96, St 0), (127, St 0)]
        (if c < 91 then (if 0 \<le> c \<and> c \<le> 32 then St 0
           else St 455)
         else if c > 94 then (if 123 \<le> c \<and> c \<le> 125 then St 0
           else St 455)
         else St 0)),
    State 511 (\<lambda>c. switch c [(2, Tr 546), (33, Tr 547), (35, Tr 548), (37, Tr 549), (47, Tr 550), (48, Tr 551), (49, Tr 552), (50, Tr 553), (58, Tr 555), (59, Tr 547), (61, Tr 547), (63, Tr 556), (64, Tr 557), (91, Tr 558), (95, Tr 547), (126, Tr 547)]
        (if c < 51 then (if 36 \<le> c \<and> c \<le> 46 then Tr 547
           else St 0)
         else if c > 57 then (if c > 90 then (if 97 \<le> c \<and> c \<le> 122 then Tr 547
             else St 0)
           else if c \<ge> 65 then Tr 547
           else St 0)
         else Tr 554)),
    Trans 546 [U_Mark] 229,
    State 229 (\<lambda>c. if 48 \<le> c \<and> c \<le> 52 then St 230
      else St 0),
    State 230 (\<lambda>c. if 48 \<le> c \<and> c \<le> 57 then St 231
      else St 0),
    State 231 (\<lambda>c. if c = 46 then St 232
      else St 0)]"

definition uri_code_38 :: "uri_action block list" where
  "uri_code_38 = [
    State 232 (\<lambda>c. switch c [(2, St 233), (48, St 235), (49, St 249), (50, St 251)]
        (if 51 \<le> c \<and> c \<le> 57 then St 250
         else St 0)),
    State 233 (\<lambda>c. if 48 \<le> c \<and> c \<le> 52 then St 234
      else St 0),
    State 234 (\<lambda>c. if 48 \<le> c \<and> c \<le> 57 then St 235
      else St 0),
    State 235 (\<lambda>c. if c = 46 then St 236
      else St 0),
    State 236 (\<lambda>c. switch c [(2, St 237), (48, St 239), (49, St 245), (50, St 247)]
        (if 51 \<le> c \<and> c \<le> 57 then St 246
         else St 0)),
    State 237 (\<lambda>c. if 48 \<le> c \<and> c \<le> 52 then St 238
      else St 0),
    State 238 (\<lambda>c. if 48 \<le> c \<and> c \<le> 57 then St 239
      else St 0),
    State 239 (\<lambda>c. if c = 46 then St 240
      else St 0),
    State 240 (\<lambda>c. switch c [(2, St 241), (48, St 512), (49, St 516), (50, St 518)]
        (if 51 \<le> c \<and> c \<le> 57 then St 517
         else St 0)),
    State 241 (\<lambda>c. if 48 \<le> c \<and> c \<le> 52 then St 242
      else St 0),
    State 242 (\<lambda>c. if 48 \<le> c \<and> c \<le> 57 then St 512
      else St 0),
    State 512 (\<lambda>c. switch c [(35, Tr 559), (47, Tr 560), (58, Tr 561), (63, Tr 562)]
        (St 0)),
    Trans 550 [U_Mark, U_Save_host] 513,
    Trans 567 [U_Mark, U_Save_port] 513,
    Trans 560 [U_Save_host, U_Mark] 513,
    Trans 571 [U_Save_port, U_Mark] 513]"

definition uri_code_39 :: "uri_action block list" where
  "uri_code_39 = [
    State 513 (\<lambda>c. switch c [(34, St 0), (35, Tr 563), (37, St 243), (60, St 0), (62, St 0), (63, Tr 565), (96, St 0), (127, St 0)]
        (if c < 91 then (if 0 \<le> c \<and> c \<le> 32 then St 0
           else St 513)
         else if c > 94 then (if 123 \<le> c \<and> c \<le> 125 then St 0
           else St 513)
         else St 0)),
    State 243 (\<lambda>c. if c < 65 then (if 48 \<le> c \<and> c \<le> 57 then St 244
        else St 0)
      else if c > 70 then (if 97 \<le> c \<and> c \<le> 102 then St 244
        else St 0)
      else St 244),
    State 244 (\<lambda>c. if c < 65 then (if 48 \<le> c \<and> c \<le> 57 then St 513
        else St 0)
      else if c > 70 then (if 97 \<le> c \<and> c \<le> 102 then St 513
        else St 0)
      else St 513),
    Trans 584 [U_Mark, U_Save_host] 514,
    Trans 561 [U_Save_host] 514,
    State 514 (\<lambda>c. switch c [(35, Tr 566), (47, Tr 567), (63, Tr 569)]
        (if 48 \<le> c \<and> c \<le> 57 then Tr 568
         else St 0)),
    Trans 568 [U_Mark] 515,
    State 515 (\<lambda>c. switch c [(35, Tr 570), (47, Tr 571), (63, Tr 573)]
        (if 48 \<le> c \<and> c \<le> 57 then St 515
         else St 0)),
    State 516 (\<lambda>c. switch c [(35, Tr 559), (47, Tr 560), (58, Tr 561), (63, Tr 562)]
        (if 48 \<le> c \<and> c \<le> 57 then St 517
         else St 0)),
    State 517 (\<lambda>c. switch c [(35, Tr 559), (47, Tr 560), (58, Tr 561), (63, Tr 562)]
        (if 48 \<le> c \<and> c \<le> 57 then St 512
         else St 0)),
    State 518 (\<lambda>c. switch c [(35, Tr 559), (47, Tr 560), (53, St 519), (58, Tr 561), (63, Tr 562)]
        (if 48 \<le> c \<and> c \<le> 57 then St 512
         else St 0)),
    State 519 (\<lambda>c. switch c [(35, Tr 559), (47, Tr 560), (58, Tr 561), (63, Tr 562)]
        (if 48 \<le> c \<and> c \<le> 53 then St 512
         else St 0))]"

definition uri_code_40 :: "uri_action block list" where
  "uri_code_40 = [
    State 245 (\<lambda>c. if c = 46 then St 240
      else if 48 \<le> c \<and> c \<le> 57 then St 246
      else St 0),
    State 246 (\<lambda>c. if c = 46 then St 240
      else if 48 \<le> c \<and> c \<le> 57 then St 239
      else St 0),
    State 247 (\<lambda>c. switch c [(46, St 240), (53, St 248)]
        (if 48 \<le> c \<and> c \<le> 57 then St 239
         else St 0)),
    State 248 (\<lambda>c. if c = 46 then St 240
      else if 48 \<le> c \<and> c \<le> 53 then St 239
      else St 0),
    State 249 (\<lambda>c. if c = 46 then St 236
      else if 48 \<le> c \<and> c \<le> 57 then St 250
      else St 0),
    State 250 (\<lambda>c. if c = 46 then St 236
      else if 48 \<le> c \<and> c \<le> 57 then St 235
      else St 0),
    State 251 (\<lambda>c. switch c [(46, St 236), (53, St 252)]
        (if 48 \<le> c \<and> c \<le> 57 then St 235
         else St 0)),
    State 252 (\<lambda>c. if c = 46 then St 236
      else if 48 \<le> c \<and> c \<le> 53 then St 235
      else St 0),
    Trans 547 [U_Mark] 520,
    State 520 (\<lambda>c. switch c [(33, St 520), (35, Tr 559), (37, St 253), (47, Tr 560), (58, Tr 576), (61, St 520), (63, Tr 562), (64, Tr 263), (95, St 520), (126, St 520)]
        (if c < 65 then (if 36 \<le> c \<and> c \<le> 59 then St 520
           else St 0)
         else if c > 90 then (if 97 \<le> c \<and> c \<le> 122 then St 520
           else St 0)
         else St 520)),
    Trans 549 [U_Mark] 253,
    State 253 (\<lambda>c. if c < 65 then (if 48 \<le> c \<and> c \<le> 57 then St 254
        else St 0)
      else if c > 70 then (if 97 \<le> c \<and> c \<le> 102 then St 254
        else St 0)
      else St 254),
    State 254 (\<lambda>c. if c < 65 then (if 48 \<le> c \<and> c \<le> 57 then St 520
        else St 0)
      else if c > 70 then (if 97 \<le> c \<and> c \<le> 102 then St 520
        else St 0)
      else St 520),
    Trans 555 [U_Mark, U_Save_host] 521]"

definition uri_code_41 :: "uri_action block list" where
  "uri_code_41 = [
    Trans 576 [U_Save_host] 521,
    State 521 (\<lambda>c. switch c [(33, St 255), (35, Tr 566), (37, St 256), (47, Tr 567), (61, St 255), (63, Tr 569), (64, Tr 263), (95, St 255), (126, St 255)]
        (if c < 58 then (if c > 46 then (if 48 \<le> c \<and> c \<le> 57 then Tr 577
             else St 0)
           else if c \<ge> 36 then St 255
           else St 0)
         else if c > 59 then (if c > 90 then (if 97 \<le> c \<and> c \<le> 122 then St 255
             else St 0)
           else if c \<ge> 65 then St 255
           else St 0)
         else St 255)),
    State 255 (\<lambda>c. switch c [(33, St 255), (37, St 256), (61, St 255), (64, Tr 263), (95, St 255), (126, St 255)]
        (if c < 48 then (if 36 \<le> c \<and> c \<le> 46 then St 255
           else St 0)
         else if c > 59 then (if c > 90 then (if 97 \<le> c \<and> c \<le> 122 then St 255
             else St 0)
           else if c \<ge> 65 then St 255
           else St 0)
         else St 255)),
    State 256 (\<lambda>c. if c < 65 then (if 48 \<le> c \<and> c \<le> 57 then St 257
        else St 0)
      else if c > 70 then (if 97 \<le> c \<and> c \<le> 102 then St 257
        else St 0)
      else St 257),
    State 257 (\<lambda>c. if c < 65 then (if 48 \<le> c \<and> c \<le> 57 then St 255
        else St 0)
      else if c > 70 then (if 97 \<le> c \<and> c \<le> 102 then St 255
        else St 0)
      else St 255),
    Trans 263 [U_Save_userinfo] 522,
    Trans 557 [U_Mark, U_Save_userinfo] 522,
    State 522 (\<lambda>c. switch c [(2, Tr 546), (33, Tr 578), (35, Tr 548), (37, Tr 579), (47, Tr 550), (48, Tr 580), (49, Tr 581), (50, Tr 582), (58, Tr 584), (59, Tr 578), (61, Tr 578), (63, Tr 556), (91, Tr 558), (95, Tr 578), (126, Tr 578)]
        (if c < 51 then (if 36 \<le> c \<and> c \<le> 46 then Tr 578
           else St 0)
         else if c > 57 then (if c > 90 then (if 97 \<le> c \<and> c \<le> 122 then Tr 578
             else St 0)
           else if c \<ge> 65 then Tr 578
           else St 0)
         else Tr 583)),
    Trans 578 [U_Mark] 523]"

definition uri_code_42 :: "uri_action block list" where
  "uri_code_42 = [
    State 523 (\<lambda>c. switch c [(33, St 523), (35, Tr 559), (37, St 258), (47, Tr 560), (58, Tr 561), (61, St 523), (63, Tr 562), (95, St 523), (126, St 523)]
        (if c < 65 then (if 36 \<le> c \<and> c \<le> 59 then St 523
           else St 0)
         else if c > 90 then (if 97 \<le> c \<and> c \<le> 122 then St 523
           else St 0)
         else St 523)),
    Trans 579 [U_Mark] 258,
    State 258 (\<lambda>c. if c < 65 then (if 48 \<le> c \<and> c \<le> 57 then St 259
        else St 0)
      else if c > 70 then (if 97 \<le> c \<and> c \<le> 102 then St 259
        else St 0)
      else St 259),
    State 259 (\<lambda>c. if c < 65 then (if 48 \<le> c \<and> c \<le> 57 then St 523
        else St 0)
      else if c > 70 then (if 97 \<le> c \<and> c \<le> 102 then St 523
        else St 0)
      else St 523),
    Trans 580 [U_Mark] 524,
    State 524 (\<lambda>c. switch c [(33, St 523), (35, Tr 559), (37, St 258), (46, St 525), (47, Tr 560), (58, Tr 561), (61, St 523), (63, Tr 562), (95, St 523), (126, St 523)]
        (if c < 65 then (if 36 \<le> c \<and> c \<le> 59 then St 523
           else St 0)
         else if c > 90 then (if 97 \<le> c \<and> c \<le> 122 then St 523
           else St 0)
         else St 523)),
    State 525 (\<lambda>c. switch c [(2, St 233), (33, St 523), (35, Tr 559), (37, St 258), (47, Tr 560), (48, St 526), (49, St 534), (50, St 536), (58, Tr 561), (59, St 523), (61, St 523), (63, Tr 562), (95, St 523), (126, St 523)]
        (if c < 51 then (if 36 \<le> c \<and> c \<le> 46 then St 523
           else St 0)
         else if c > 57 then (if c > 90 then (if 97 \<le> c \<and> c \<le> 122 then St 523
             else St 0)
           else if c \<ge> 65 then St 523
           else St 0)
         else St 535)),
    State 526 (\<lambda>c. switch c [(33, St 523), (35, Tr 559), (37, St 258), (46, St 527), (47, Tr 560), (58, Tr 561), (61, St 523), (63, Tr 562), (95, St 523), (126, St 523)]
        (if c < 65 then (if 36 \<le> c \<and> c \<le> 59 then St 523
           else St 0)
         else if c > 90 then (if 97 \<le> c \<and> c \<le> 122 then St 523
           else St 0)
         else St 523))]"

definition uri_code_43 :: "uri_action block list" where
  "uri_code_43 = [
    State 527 (\<lambda>c. switch c [(2, St 237), (33, St 523), (35, Tr 559), (37, St 258), (47, Tr 560), (48, St 528), (49, St 530), (50, St 532), (58, Tr 561), (59, St 523), (61, St 523), (63, Tr 562), (95, St 523), (126, St 523)]
        (if c < 51 then (if 36 \<le> c \<and> c \<le> 46 then St 523
           else St 0)
         else if c > 57 then (if c > 90 then (if 97 \<le> c \<and> c \<le> 122 then St 523
             else St 0)
           else if c \<ge> 65 then St 523
           else St 0)
         else St 531)),
    State 528 (\<lambda>c. switch c [(33, St 523), (35, Tr 559), (37, St 258), (46, St 529), (47, Tr 560), (58, Tr 561), (61, St 523), (63, Tr 562), (95, St 523), (126, St 523)]
        (if c < 65 then (if 36 \<le> c \<and> c \<le> 59 then St 523
           else St 0)
         else if c > 90 then (if 97 \<le> c \<and> c \<le> 122 then St 523
           else St 0)
         else St 523)),
    State 529 (\<lambda>c. switch c [(2, St 241), (33, St 523), (35, Tr 559), (37, St 258), (47, Tr 560), (58, Tr 561), (61, St 523), (63, Tr 562), (95, St 523), (126, St 523)]
        (if c < 65 then (if 36 \<le> c \<and> c \<le> 59 then St 523
           else St 0)
         else if c > 90 then (if 97 \<le> c \<and> c \<le> 122 then St 523
           else St 0)
         else St 523)),
    State 530 (\<lambda>c. switch c [(33, St 523), (35, Tr 559), (37, St 258), (46, St 529), (47, Tr 560), (58, Tr 561), (59, St 523), (61, St 523), (63, Tr 562), (95, St 523), (126, St 523)]
        (if c < 48 then (if 36 \<le> c \<and> c \<le> 45 then St 523
           else St 0)
         else if c > 57 then (if c > 90 then (if 97 \<le> c \<and> c \<le> 122 then St 523
             else St 0)
           else if c \<ge> 65 then St 523
           else St 0)
         else St 531)),
    State 531 (\<lambda>c. switch c [(33, St 523), (35, Tr 559), (37, St 258), (46, St 529), (47, Tr 560), (58, Tr 561), (59, St 523), (61, St 523), (63, Tr 562), (95, St 523), (126, St 523)]
        (if c < 48 then (if 36 \<le> c \<and> c \<le> 45 then St 523
           else St 0)
         else if c > 57 then (if c > 90 then (if 97 \<le> c \<and> c \<le> 122 then St 523
             else St 0)
           else if c \<ge> 65 then St 523
           else St 0)
         else St 528))]"

definition uri_code_44 :: "uri_action block list" where
  "uri_code_44 = [
    State 532 (\<lambda>c. switch c [(33, St 523), (35, Tr 559), (37, St 258), (46, St 529), (47, Tr 560), (53, St 533), (58, Tr 561), (59, St 523), (61, St 523), (63, Tr 562), (95, St 523), (126, St 523)]
        (if c < 48 then (if 36 \<le> c \<and> c \<le> 45 then St 523
           else St 0)
         else if c > 57 then (if c > 90 then (if 97 \<le> c \<and> c \<le> 122 then St 523
             else St 0)
           else if c \<ge> 65 then St 523
           else St 0)
         else St 528)),
    State 533 (\<lambda>c. switch c [(33, St 523), (35, Tr 559), (37, St 258), (46, St 529), (47, Tr 560), (58, Tr 561), (61, St 523), (63, Tr 562), (95, St 523), (126, St 523)]
        (if c < 54 then (if c > 45 then (if 48 \<le> c \<and> c \<le> 53 then St 528
             else St 0)
           else if c \<ge> 36 then St 523
           else St 0)
         else if c > 59 then (if c > 90 then (if 97 \<le> c \<and> c \<le> 122 then St 523
             else St 0)
           else if c \<ge> 65 then St 523
           else St 0)
         else St 523)),
    State 534 (\<lambda>c. switch c [(33, St 523), (35, Tr 559), (37, St 258), (46, St 527), (47, Tr 560), (58, Tr 561), (59, St 523), (61, St 523), (63, Tr 562), (95, St 523), (126, St 523)]
        (if c < 48 then (if 36 \<le> c \<and> c \<le> 45 then St 523
           else St 0)
         else if c > 57 then (if c > 90 then (if 97 \<le> c \<and> c \<le> 122 then St 523
             else St 0)
           else if c \<ge> 65 then St 523
           else St 0)
         else St 535)),
    State 535 (\<lambda>c. switch c [(33, St 523), (35, Tr 559), (37, St 258), (46, St 527), (47, Tr 560), (58, Tr 561), (59, St 523), (61, St 523), (63, Tr 562), (95, St 523), (126, St 523)]
        (if c < 48 then (if 36 \<le> c \<and> c \<le> 45 then St 523
           else St 0)
         else if c > 57 then (if c > 90 then (if 97 \<le> c \<and> c \<le> 122 then St 523
             else St 0)
           else if c \<ge> 65 then St 523
           else St 0)
         else St 526)),
    State 536 (\<lambda>c. switch c [(33, St 523), (35, Tr 559), (37, St 258), (46, St 527), (47, Tr 560), (53, St 537), (58, Tr 561), (59, St 523), (61, St 523), (63, Tr 562), (95, St 523), (126, St 523)]
        (if c < 48 then (if 36 \<le> c \<and> c \<le> 45 then St 523
           else St 0)
         else if c > 57 then (if c > 90 then (if 97 \<le> c \<and> c \<le> 122 then St 523
             else St 0)
           else if c \<ge> 65 then St 523
           else St 0)
         else St 526))]"

definition uri_code_45 :: "uri_action block list" where
  "uri_code_45 = [
    State 537 (\<lambda>c. switch c [(33, St 523), (35, Tr 559), (37, St 258), (46, St 527), (47, Tr 560), (58, Tr 561), (61, St 523), (63, Tr 562), (95, St 523), (126, St 523)]
        (if c < 54 then (if c > 45 then (if 48 \<le> c \<and> c \<le> 53 then St 526
             else St 0)
           else if c \<ge> 36 then St 523
           else St 0)
         else if c > 59 then (if c > 90 then (if 97 \<le> c \<and> c \<le> 122 then St 523
             else St 0)
           else if c \<ge> 65 then St 523
           else St 0)
         else St 523)),
    Trans 581 [U_Mark] 538,
    State 538 (\<lambda>c. switch c [(33, St 523), (35, Tr 559), (37, St 258), (46, St 525), (47, Tr 560), (58, Tr 561), (59, St 523), (61, St 523), (63, Tr 562), (95, St 523), (126, St 523)]
        (if c < 48 then (if 36 \<le> c \<and> c \<le> 45 then St 523
           else St 0)
         else if c > 57 then (if c > 90 then (if 97 \<le> c \<and> c \<le> 122 then St 523
             else St 0)
           else if c \<ge> 65 then St 523
           else St 0)
         else St 539)),
    Trans 583 [U_Mark] 539,
    State 539 (\<lambda>c. switch c [(33, St 523), (35, Tr 559), (37, St 258), (46, St 525), (47, Tr 560), (58, Tr 561), (59, St 523), (61, St 523), (63, Tr 562), (95, St 523), (126, St 523)]
        (if c < 48 then (if 36 \<le> c \<and> c \<le> 45 then St 523
           else St 0)
         else if c > 57 then (if c > 90 then (if 97 \<le> c \<and> c \<le> 122 then St 523
             else St 0)
           else if c \<ge> 65 then St 523
           else St 0)
         else St 524)),
    Trans 582 [U_Mark] 540,
    State 540 (\<lambda>c. switch c [(33, St 523), (35, Tr 559), (37, St 258), (46, St 525), (47, Tr 560), (53, St 541), (58, Tr 561), (59, St 523), (61, St 523), (63, Tr 562), (95, St 523), (126, St 523)]
        (if c < 48 then (if 36 \<le> c \<and> c \<le> 45 then St 523
           else St 0)
         else if c > 57 then (if c > 90 then (if 97 \<le> c \<and> c \<le> 122 then St 523
             else St 0)
           else if c \<ge> 65 then St 523
           else St 0)
         else St 524))]"

definition uri_code_46 :: "uri_action block list" where
  "uri_code_46 = [
    State 541 (\<lambda>c. switch c [(33, St 523), (35, Tr 559), (37, St 258), (46, St 525), (47, Tr 560), (58, Tr 561), (61, St 523), (63, Tr 562), (95, St 523), (126, St 523)]
        (if c < 54 then (if c > 45 then (if 48 \<le> c \<and> c \<le> 53 then St 524
             else St 0)
           else if c \<ge> 36 then St 523
           else St 0)
         else if c > 59 then (if c > 90 then (if 97 \<le> c \<and> c \<le> 122 then St 523
             else St 0)
           else if c \<ge> 65 then St 523
           else St 0)
         else St 523)),
    Trans 558 [U_Mark] 260,
    State 260 (\<lambda>c. switch c [(58, St 368), (118, St 447)]
        (if c < 65 then (if 48 \<le> c \<and> c \<le> 57 then St 261
           else St 0)
         else if c > 70 then (if 97 \<le> c \<and> c \<le> 102 then St 261
           else St 0)
         else St 261)),
    State 261 (\<lambda>c. if c = 58 then St 265
      else if c < 65 then (if 48 \<le> c \<and> c \<le> 57 then St 262
        else St 0)
      else if c > 70 then (if 97 \<le> c \<and> c \<le> 102 then St 262
        else St 0)
      else St 262),
    State 262 (\<lambda>c. if c = 58 then St 265
      else if c < 65 then (if 48 \<le> c \<and> c \<le> 57 then St 263
        else St 0)
      else if c > 70 then (if 97 \<le> c \<and> c \<le> 102 then St 263
        else St 0)
      else St 263),
    State 263 (\<lambda>c. if c = 58 then St 265
      else if c < 65 then (if 48 \<le> c \<and> c \<le> 57 then St 264
        else St 0)
      else if c > 70 then (if 97 \<le> c \<and> c \<le> 102 then St 264
        else St 0)
      else St 264),
    State 264 (\<lambda>c. if c = 58 then St 265
      else St 0),
    State 265 (\<lambda>c. if c = 58 then St 363
      else if c < 65 then (if 48 \<le> c \<and> c \<le> 57 then St 266
        else St 0)
      else if c > 70 then (if 97 \<le> c \<and> c \<le> 102 then St 266
        else St 0)
      else St 266),
    State 266 (\<lambda>c. if c = 58 then St 270
      else if c < 65 then (if 48 \<le> c \<and> c \<le> 57 then St 267
        else St 0)
      else if c > 70 then (if 97 \<le> c \<and> c \<le> 102 then St 267
        else St 0)
      else St 267),
    State 267 (\<lambda>c. if c = 58 then St 270
      else if c < 65 then (if 48 \<le> c \<and> c \<le> 57 then St 268
        else St 0)
      else if c > 70 then (if 97 \<le> c \<and> c \<le> 102 then St 268
        else St 0)
      else St 268)]"

definition uri_code_47 :: "uri_action block list" where
  "uri_code_47 = [
    State 268 (\<lambda>c. if c = 58 then St 270
      else if c < 65 then (if 48 \<le> c \<and> c \<le> 57 then St 269
        else St 0)
      else if c > 70 then (if 97 \<le> c \<and> c \<le> 102 then St 269
        else St 0)
      else St 269),
    State 269 (\<lambda>c. if c = 58 then St 270
      else St 0),
    State 270 (\<lambda>c. if c = 58 then St 358
      else if c < 65 then (if 48 \<le> c \<and> c \<le> 57 then St 271
        else St 0)
      else if c > 70 then (if 97 \<le> c \<and> c \<le> 102 then St 271
        else St 0)
      else St 271),
    State 271 (\<lambda>c. if c = 58 then St 275
      else if c < 65 then (if 48 \<le> c \<and> c \<le> 57 then St 272
        else St 0)
      else if c > 70 then (if 97 \<le> c \<and> c \<le> 102 then St 272
        else St 0)
      else St 272),
    State 272 (\<lambda>c. if c = 58 then St 275
      else if c < 65 then (if 48 \<le> c \<and> c \<le> 57 then St 273
        else St 0)
      else if c > 70 then (if 97 \<le> c \<and> c \<le> 102 then St 273
        else St 0)
      else St 273),
    State 273 (\<lambda>c. if c = 58 then St 275
      else if c < 65 then (if 48 \<le> c \<and> c \<le> 57 then St 274
        else St 0)
      else if c > 70 then (if 97 \<le> c \<and> c \<le> 102 then St 274
        else St 0)
      else St 274),
    State 274 (\<lambda>c. if c = 58 then St 275
      else St 0),
    State 275 (\<lambda>c. if c = 58 then St 353
      else if c < 65 then (if 48 \<le> c \<and> c \<le> 57 then St 276
        else St 0)
      else if c > 70 then (if 97 \<le> c \<and> c \<le> 102 then St 276
        else St 0)
      else St 276),
    State 276 (\<lambda>c. if c = 58 then St 280
      else if c < 65 then (if 48 \<le> c \<and> c \<le> 57 then St 277
        else St 0)
      else if c > 70 then (if 97 \<le> c \<and> c \<le> 102 then St 277
        else St 0)
      else St 277),
    State 277 (\<lambda>c. if c = 58 then St 280
      else if c < 65 then (if 48 \<le> c \<and> c \<le> 57 then St 278
        else St 0)
      else if c > 70 then (if 97 \<le> c \<and> c \<le> 102 then St 278
        else St 0)
      else St 278),
    State 278 (\<lambda>c. if c = 58 then St 280
      else if c < 65 then (if 48 \<le> c \<and> c \<le> 57 then St 279
        else St 0)
      else if c > 70 then (if 97 \<le> c \<and> c \<le> 102 then St 279
        else St 0)
      else St 279)]"

definition uri_code_48 :: "uri_action block list" where
  "uri_code_48 = [
    State 279 (\<lambda>c. if c = 58 then St 280
      else St 0),
    State 280 (\<lambda>c. if c = 58 then St 348
      else if c < 65 then (if 48 \<le> c \<and> c \<le> 57 then St 281
        else St 0)
      else if c > 70 then (if 97 \<le> c \<and> c \<le> 102 then St 281
        else St 0)
      else St 281),
    State 281 (\<lambda>c. if c = 58 then St 285
      else if c < 65 then (if 48 \<le> c \<and> c \<le> 57 then St 282
        else St 0)
      else if c > 70 then (if 97 \<le> c \<and> c \<le> 102 then St 282
        else St 0)
      else St 282),
    State 282 (\<lambda>c. if c = 58 then St 285
      else if c < 65 then (if 48 \<le> c \<and> c \<le> 57 then St 283
        else St 0)
      else if c > 70 then (if 97 \<le> c \<and> c \<le> 102 then St 283
        else St 0)
      else St 283),
    State 283 (\<lambda>c. if c = 58 then St 285
      else if c < 65 then (if 48 \<le> c \<and> c \<le> 57 then St 284
        else St 0)
      else if c > 70 then (if 97 \<le> c \<and> c \<le> 102 then St 284
        else St 0)
      else St 284),
    State 284 (\<lambda>c. if c = 58 then St 285
      else St 0),
    State 285 (\<lambda>c. if c = 58 then St 335
      else if c < 65 then (if 48 \<le> c \<and> c \<le> 57 then St 286
        else St 0)
      else if c > 70 then (if 97 \<le> c \<and> c \<le> 102 then St 286
        else St 0)
      else St 286),
    State 286 (\<lambda>c. if c = 58 then St 290
      else if c < 65 then (if 48 \<le> c \<and> c \<le> 57 then St 287
        else St 0)
      else if c > 70 then (if 97 \<le> c \<and> c \<le> 102 then St 287
        else St 0)
      else St 287),
    State 287 (\<lambda>c. if c = 58 then St 290
      else if c < 65 then (if 48 \<le> c \<and> c \<le> 57 then St 288
        else St 0)
      else if c > 70 then (if 97 \<le> c \<and> c \<le> 102 then St 288
        else St 0)
      else St 288),
    State 288 (\<lambda>c. if c = 58 then St 290
      else if c < 65 then (if 48 \<le> c \<and> c \<le> 57 then St 289
        else St 0)
      else if c > 70 then (if 97 \<le> c \<and> c \<le> 102 then St 289
        else St 0)
      else St 289),
    State 289 (\<lambda>c. if c = 58 then St 290
      else St 0)]"

definition uri_code_49 :: "uri_action block list" where
  "uri_code_49 = [
    State 290 (\<lambda>c. switch c [(2, St 291), (48, St 318), (49, St 326), (50, St 329), (58, St 333)]
        (if c < 65 then (if 51 \<le> c \<and> c \<le> 57 then St 332
           else St 0)
         else if c > 70 then (if 97 \<le> c \<and> c \<le> 102 then St 334
           else St 0)
         else St 334)),
    State 291 (\<lambda>c. if 48 \<le> c \<and> c \<le> 52 then St 292
      else St 0),
    State 292 (\<lambda>c. if 48 \<le> c \<and> c \<le> 57 then St 293
      else St 0),
    State 293 (\<lambda>c. if c = 46 then St 294
      else St 0),
    State 294 (\<lambda>c. switch c [(2, St 295), (48, St 297), (49, St 314), (50, St 316)]
        (if 51 \<le> c \<and> c \<le> 57 then St 315
         else St 0)),
    State 295 (\<lambda>c. if 48 \<le> c \<and> c \<le> 52 then St 296
      else St 0),
    State 296 (\<lambda>c. if 48 \<le> c \<and> c \<le> 57 then St 297
      else St 0),
    State 297 (\<lambda>c. if c = 46 then St 298
      else St 0),
    State 298 (\<lambda>c. switch c [(2, St 299), (48, St 301), (49, St 310), (50, St 312)]
        (if 51 \<le> c \<and> c \<le> 57 then St 311
         else St 0)),
    State 299 (\<lambda>c. if 48 \<le> c \<and> c \<le> 52 then St 300
      else St 0),
    State 300 (\<lambda>c. if 48 \<le> c \<and> c \<le> 57 then St 301
      else St 0),
    State 301 (\<lambda>c. if c = 46 then St 302
      else St 0),
    State 302 (\<lambda>c. switch c [(2, St 303), (48, St 305), (49, St 306), (50, St 308)]
        (if 51 \<le> c \<and> c \<le> 57 then St 307
         else St 0)),
    State 303 (\<lambda>c. if 48 \<le> c \<and> c \<le> 52 then St 304
      else St 0),
    State 304 (\<lambda>c. if 48 \<le> c \<and> c \<le> 57 then St 305
      else St 0),
    State 305 (\<lambda>c. if c = 93 then St 512
      else St 0),
    State 306 (\<lambda>c. if c = 93 then St 512
      else if 48 \<le> c \<and> c \<le> 57 then St 307
      else St 0)]"

definition uri_code_50 :: "uri_action block list" where
  "uri_code_50 = [
    State 307 (\<lambda>c. if c = 93 then St 512
      else if 48 \<le> c \<and> c \<le> 57 then St 305
      else St 0),
    State 308 (\<lambda>c. switch c [(53, St 309), (93, St 512)]
        (if 48 \<le> c \<and> c \<le> 57 then St 305
         else St 0)),
    State 309 (\<lambda>c. if c = 93 then St 512
      else if 48 \<le> c \<and> c \<le> 53 then St 305
      else St 0),
    State 310 (\<lambda>c. if c = 46 then St 302
      else if 48 \<le> c \<and> c \<le> 57 then St 311
      else St 0),
    State 311 (\<lambda>c. if c = 46 then St 302
      else if 48 \<le> c \<and> c \<le> 57 then St 301
      else St 0),
    State 312 (\<lambda>c. switch c [(46, St 302), (53, St 313)]
        (if 48 \<le> c \<and> c \<le> 57 then St 301
         else St 0)),
    State 313 (\<lambda>c. if c = 46 then St 302
      else if 48 \<le> c \<and> c \<le> 53 then St 301
      else St 0),
    State 314 (\<lambda>c. if c = 46 then St 298
      else if 48 \<le> c \<and> c \<le> 57 then St 315
      else St 0),
    State 315 (\<lambda>c. if c = 46 then St 298
      else if 48 \<le> c \<and> c \<le> 57 then St 297
      else St 0),
    State 316 (\<lambda>c. switch c [(46, St 298), (53, St 317)]
        (if 48 \<le> c \<and> c \<le> 57 then St 297
         else St 0)),
    State 317 (\<lambda>c. if c = 46 then St 298
      else if 48 \<le> c \<and> c \<le> 53 then St 297
      else St 0),
    State 318 (\<lambda>c. switch c [(46, St 294), (58, St 322)]
        (if c < 65 then (if 48 \<le> c \<and> c \<le> 57 then St 319
           else St 0)
         else if c > 70 then (if 97 \<le> c \<and> c \<le> 102 then St 319
           else St 0)
         else St 319)),
    State 319 (\<lambda>c. if c = 58 then St 322
      else if c < 65 then (if 48 \<le> c \<and> c \<le> 57 then St 320
        else St 0)
      else if c > 70 then (if 97 \<le> c \<and> c \<le> 102 then St 320
        else St 0)
      else St 320),
    State 320 (\<lambda>c. if c = 58 then St 322
      else if c < 65 then (if 48 \<le> c \<and> c \<le> 57 then St 321
        else St 0)
      else if c > 70 then (if 97 \<le> c \<and> c \<le> 102 then St 321
        else St 0)
      else St 321)]"

definition uri_code_51 :: "uri_action block list" where
  "uri_code_51 = [
    State 321 (\<lambda>c. if c = 58 then St 322
      else St 0),
    State 322 (\<lambda>c. if c = 58 then St 305
      else if c < 65 then (if 48 \<le> c \<and> c \<le> 57 then St 323
        else St 0)
      else if c > 70 then (if 97 \<le> c \<and> c \<le> 102 then St 323
        else St 0)
      else St 323),
    State 323 (\<lambda>c. if c = 93 then St 512
      else if c < 65 then (if 48 \<le> c \<and> c \<le> 57 then St 324
        else St 0)
      else if c > 70 then (if 97 \<le> c \<and> c \<le> 102 then St 324
        else St 0)
      else St 324),
    State 324 (\<lambda>c. if c = 93 then St 512
      else if c < 65 then (if 48 \<le> c \<and> c \<le> 57 then St 325
        else St 0)
      else if c > 70 then (if 97 \<le> c \<and> c \<le> 102 then St 325
        else St 0)
      else St 325),
    State 325 (\<lambda>c. if c = 93 then St 512
      else if c < 65 then (if 48 \<le> c \<and> c \<le> 57 then St 305
        else St 0)
      else if c > 70 then (if 97 \<le> c \<and> c \<le> 102 then St 305
        else St 0)
      else St 305),
    State 326 (\<lambda>c. switch c [(46, St 294), (58, St 322)]
        (if c < 65 then (if 48 \<le> c \<and> c \<le> 57 then St 327
           else St 0)
         else if c > 70 then (if 97 \<le> c \<and> c \<le> 102 then St 319
           else St 0)
         else St 319)),
    State 327 (\<lambda>c. switch c [(46, St 294), (58, St 322)]
        (if c < 65 then (if 48 \<le> c \<and> c \<le> 57 then St 328
           else St 0)
         else if c > 70 then (if 97 \<le> c \<and> c \<le> 102 then St 320
           else St 0)
         else St 320)),
    State 328 (\<lambda>c. switch c [(46, St 294), (58, St 322)]
        (if c < 65 then (if 48 \<le> c \<and> c \<le> 57 then St 321
           else St 0)
         else if c > 70 then (if 97 \<le> c \<and> c \<le> 102 then St 321
           else St 0)
         else St 321)),
    State 329 (\<lambda>c. switch c [(46, St 294), (53, St 331), (58, St 322)]
        (if c < 65 then (if 48 \<le> c \<and> c \<le> 57 then St 330
           else St 0)
         else if c > 70 then (if 97 \<le> c \<and> c \<le> 102 then St 319
           else St 0)
         else St 319)),
    State 330 (\<lambda>c. switch c [(46, St 294), (58, St 322)]
        (if c < 65 then (if 48 \<le> c \<and> c \<le> 57 then St 320
           else St 0)
         else if c > 70 then (if 97 \<le> c \<and> c \<le> 102 then St 320
           else St 0)
         else St 320))]"

definition uri_code_52 :: "uri_action block list" where
  "uri_code_52 = [
    State 331 (\<lambda>c. switch c [(46, St 294), (58, St 322)]
        (if c < 54 then (if 48 \<le> c \<and> c \<le> 53 then St 328
           else St 0)
         else if c > 57 then (if c > 70 then (if 97 \<le> c \<and> c \<le> 102 then St 320
             else St 0)
           else if c \<ge> 65 then St 320
           else St 0)
         else St 320)),
    State 332 (\<lambda>c. switch c [(46, St 294), (58, St 322)]
        (if c < 65 then (if 48 \<le> c \<and> c \<le> 57 then St 330
           else St 0)
         else if c > 70 then (if 97 \<le> c \<and> c \<le> 102 then St 319
           else St 0)
         else St 319)),
    State 333 (\<lambda>c. if c < 65 then (if 48 \<le> c \<and> c \<le> 57 then St 323
        else St 0)
      else if c > 70 then (if 97 \<le> c \<and> c \<le> 102 then St 323
        else St 0)
      else St 323),
    State 334 (\<lambda>c. if c = 58 then St 322
      else if c < 65 then (if 48 \<le> c \<and> c \<le> 57 then St 319
        else St 0)
      else if c > 70 then (if 97 \<le> c \<and> c \<le> 102 then St 319
        else St 0)
      else St 319),
    State 335 (\<lambda>c. switch c [(2, St 291), (48, St 336), (49, St 340), (50, St 343)]
        (if c < 65 then (if 51 \<le> c \<and> c \<le> 57 then St 346
           else St 0)
         else if c > 70 then (if 97 \<le> c \<and> c \<le> 102 then St 347
           else St 0)
         else St 347)),
    State 336 (\<lambda>c. switch c [(46, St 294), (58, St 333)]
        (if c < 65 then (if 48 \<le> c \<and> c \<le> 57 then St 337
           else St 0)
         else if c > 70 then (if 97 \<le> c \<and> c \<le> 102 then St 337
           else St 0)
         else St 337)),
    State 337 (\<lambda>c. if c = 58 then St 333
      else if c < 65 then (if 48 \<le> c \<and> c \<le> 57 then St 338
        else St 0)
      else if c > 70 then (if 97 \<le> c \<and> c \<le> 102 then St 338
        else St 0)
      else St 338),
    State 338 (\<lambda>c. if c = 58 then St 333
      else if c < 65 then (if 48 \<le> c \<and> c \<le> 57 then St 339
        else St 0)
      else if c > 70 then (if 97 \<le> c \<and> c \<le> 102 then St 339
        else St 0)
      else St 339),
    State 339 (\<lambda>c. if c = 58 then St 333
      else St 0)]"

definition uri_code_53 :: "uri_action block list" where
  "uri_code_53 = [
    State 340 (\<lambda>c. switch c [(46, St 294), (58, St 333)]
        (if c < 65 then (if 48 \<le> c \<and> c \<le> 57 then St 341
           else St 0)
         else if c > 70 then (if 97 \<le> c \<and> c \<le> 102 then St 337
           else St 0)
         else St 337)),
    State 341 (\<lambda>c. switch c [(46, St 294), (58, St 333)]
        (if c < 65 then (if 48 \<le> c \<and> c \<le> 57 then St 342
           else St 0)
         else if c > 70 then (if 97 \<le> c \<and> c \<le> 102 then St 338
           else St 0)
         else St 338)),
    State 342 (\<lambda>c. switch c [(46, St 294), (58, St 333)]
        (if c < 65 then (if 48 \<le> c \<and> c \<le> 57 then St 339
           else St 0)
         else if c > 70 then (if 97 \<le> c \<and> c \<le> 102 then St 339
           else St 0)
         else St 339)),
    State 343 (\<lambda>c. switch c [(46, St 294), (53, St 345), (58, St 333)]
        (if c < 65 then (if 48 \<le> c \<and> c \<le> 57 then St 344
           else St 0)
         else if c > 70 then (if 97 \<le> c \<and> c \<le> 102 then St 337
           else St 0)
         else St 337)),
    State 344 (\<lambda>c. switch c [(46, St 294), (58, St 333)]
        (if c < 65 then (if 48 \<le> c \<and> c \<le> 57 then St 338
           else St 0)
         else if c > 70 then (if 97 \<le> c \<and> c \<le> 102 then St 338
           else St 0)
         else St 338)),
    State 345 (\<lambda>c. switch c [(46, St 294), (58, St 333)]
        (if c < 54 then (if 48 \<le> c \<and> c \<le> 53 then St 342
           else St 0)
         else if c > 57 then (if c > 70 then (if 97 \<le> c \<and> c \<le> 102 then St 338
             else St 0)
           else if c \<ge> 65 then St 338
           else St 0)
         else St 338)),
    State 346 (\<lambda>c. switch c [(46, St 294), (58, St 333)]
        (if c < 65 then (if 48 \<le> c \<and> c \<le> 57 then St 344
           else St 0)
         else if c > 70 then (if 97 \<le> c \<and> c \<le> 102 then St 337
           else St 0)
         else St 337)),
    State 347 (\<lambda>c. if c = 58 then St 333
      else if c < 65 then (if 48 \<le> c \<and> c \<le> 57 then St 337
        else St 0)
      else if c > 70 then (if 97 \<le> c \<and> c \<le> 102 then St 337
        else St 0)
      else St 337),
    State 348 (\<lambda>c. if c < 65 then (if 48 \<le> c \<and> c \<le> 57 then St 349
        else St 0)
      else if c > 70 then (if 97 \<le> c \<and> c \<le> 102 then St 349
        else St 0)
      else St 349)]"

definition uri_code_54 :: "uri_action block list" where
  "uri_code_54 = [
    State 349 (\<lambda>c. if c = 58 then St 335
      else if c < 65 then (if 48 \<le> c \<and> c \<le> 57 then St 350
        else St 0)
      else if c > 70 then (if 97 \<le> c \<and> c \<le> 102 then St 350
        else St 0)
      else St 350),
    State 350 (\<lambda>c. if c = 58 then St 335
      else if c < 65 then (if 48 \<le> c \<and> c \<le> 57 then St 351
        else St 0)
      else if c > 70 then (if 97 \<le> c \<and> c \<le> 102 then St 351
        else St 0)
      else St 351),
    State 351 (\<lambda>c. if c = 58 then St 335
      else if c < 65 then (if 48 \<le> c \<and> c \<le> 57 then St 352
        else St 0)
      else if c > 70 then (if 97 \<le> c \<and> c \<le> 102 then St 352
        else St 0)
      else St 352),
    State 352 (\<lambda>c. if c = 58 then St 335
      else St 0),
    State 353 (\<lambda>c. if c < 65 then (if 48 \<le> c \<and> c \<le> 57 then St 354
        else St 0)
      else if c > 70 then (if 97 \<le> c \<and> c \<le> 102 then St 354
        else St 0)
      else St 354),
    State 354 (\<lambda>c. if c = 58 then St 348
      else if c < 65 then (if 48 \<le> c \<and> c \<le> 57 then St 355
        else St 0)
      else if c > 70 then (if 97 \<le> c \<and> c \<le> 102 then St 355
        else St 0)
      else St 355),
    State 355 (\<lambda>c. if c = 58 then St 348
      else if c < 65 then (if 48 \<le> c \<and> c \<le> 57 then St 356
        else St 0)
      else if c > 70 then (if 97 \<le> c \<and> c \<le> 102 then St 356
        else St 0)
      else St 356),
    State 356 (\<lambda>c. if c = 58 then St 348
      else if c < 65 then (if 48 \<le> c \<and> c \<le> 57 then St 357
        else St 0)
      else if c > 70 then (if 97 \<le> c \<and> c \<le> 102 then St 357
        else St 0)
      else St 357),
    State 357 (\<lambda>c. if c = 58 then St 348
      else St 0),
    State 358 (\<lambda>c. if c < 65 then (if 48 \<le> c \<and> c \<le> 57 then St 359
        else St 0)
      else if c > 70 then (if 97 \<le> c \<and> c \<le> 102 then St 359
        else St 0)
      else St 359),
    State 359 (\<lambda>c. if c = 58 then St 353
      else if c < 65 then (if 48 \<le> c \<and> c \<le> 57 then St 360
        else St 0)
      else if c > 70 then (if 97 \<le> c \<and> c \<le> 102 then St 360
        else St 0)
      else St 360)]"

definition uri_code_55 :: "uri_action block list" where
  "uri_code_55 = [
    State 360 (\<lambda>c. if c = 58 then St 353
      else if c < 65 then (if 48 \<le> c \<and> c \<le> 57 then St 361
        else St 0)
      else if c > 70 then (if 97 \<le> c \<and> c \<le> 102 then St 361
        else St 0)
      else St 361),
    State 361 (\<lambda>c. if c = 58 then St 353
      else if c < 65 then (if 48 \<le> c \<and> c \<le> 57 then St 362
        else St 0)
      else if c > 70 then (if 97 \<le> c \<and> c \<le> 102 then St 362
        else St 0)
      else St 362),
    State 362 (\<lambda>c. if c = 58 then St 353
      else St 0),
    State 363 (\<lambda>c. if c < 65 then (if 48 \<le> c \<and> c \<le> 57 then St 364
        else St 0)
      else if c > 70 then (if 97 \<le> c \<and> c \<le> 102 then St 364
        else St 0)
      else St 364),
    State 364 (\<lambda>c. if c = 58 then St 358
      else if c < 65 then (if 48 \<le> c \<and> c \<le> 57 then St 365
        else St 0)
      else if c > 70 then (if 97 \<le> c \<and> c \<le> 102 then St 365
        else St 0)
      else St 365),
    State 365 (\<lambda>c. if c = 58 then St 358
      else if c < 65 then (if 48 \<le> c \<and> c \<le> 57 then St 366
        else St 0)
      else if c > 70 then (if 97 \<le> c \<and> c \<le> 102 then St 366
        else St 0)
      else St 366),
    State 366 (\<lambda>c. if c = 58 then St 358
      else if c < 65 then (if 48 \<le> c \<and> c \<le> 57 then St 367
        else St 0)
      else if c > 70 then (if 97 \<le> c \<and> c \<le> 102 then St 367
        else St 0)
      else St 367),
    State 367 (\<lambda>c. if c = 58 then St 358
      else St 0),
    State 368 (\<lambda>c. if c = 58 then St 369
      else St 0),
    State 369 (\<lambda>c. switch c [(2, St 291), (48, St 370), (49, St 439), (50, St 442), (93, St 512)]
        (if c < 65 then (if 51 \<le> c \<and> c \<le> 57 then St 445
           else St 0)
         else if c > 70 then (if 97 \<le> c \<and> c \<le> 102 then St 446
           else St 0)
         else St 446)),
    State 370 (\<lambda>c. switch c [(46, St 294), (58, St 374), (93, St 512)]
        (if c < 65 then (if 48 \<le> c \<and> c \<le> 57 then St 371
           else St 0)
         else if c > 70 then (if 97 \<le> c \<and> c \<le> 102 then St 371
           else St 0)
         else St 371))]"

definition uri_code_56 :: "uri_action block list" where
  "uri_code_56 = [
    State 371 (\<lambda>c. switch c [(58, St 374), (93, St 512)]
        (if c < 65 then (if 48 \<le> c \<and> c \<le> 57 then St 372
           else St 0)
         else if c > 70 then (if 97 \<le> c \<and> c \<le> 102 then St 372
           else St 0)
         else St 372)),
    State 372 (\<lambda>c. switch c [(58, St 374), (93, St 512)]
        (if c < 65 then (if 48 \<le> c \<and> c \<le> 57 then St 373
           else St 0)
         else if c > 70 then (if 97 \<le> c \<and> c \<le> 102 then St 373
           else St 0)
         else St 373)),
    State 373 (\<lambda>c. switch c [(58, St 374), (93, St 512)]
        (St 0)),
    State 374 (\<lambda>c. switch c [(2, St 291), (48, St 375), (49, St 431), (50, St 434)]
        (if c < 65 then (if 51 \<le> c \<and> c \<le> 57 then St 437
           else St 0)
         else if c > 70 then (if 97 \<le> c \<and> c \<le> 102 then St 438
           else St 0)
         else St 438)),
    State 375 (\<lambda>c. switch c [(46, St 294), (58, St 379), (93, St 512)]
        (if c < 65 then (if 48 \<le> c \<and> c \<le> 57 then St 376
           else St 0)
         else if c > 70 then (if 97 \<le> c \<and> c \<le> 102 then St 376
           else St 0)
         else St 376)),
    State 376 (\<lambda>c. switch c [(58, St 379), (93, St 512)]
        (if c < 65 then (if 48 \<le> c \<and> c \<le> 57 then St 377
           else St 0)
         else if c > 70 then (if 97 \<le> c \<and> c \<le> 102 then St 377
           else St 0)
         else St 377)),
    State 377 (\<lambda>c. switch c [(58, St 379), (93, St 512)]
        (if c < 65 then (if 48 \<le> c \<and> c \<le> 57 then St 378
           else St 0)
         else if c > 70 then (if 97 \<le> c \<and> c \<le> 102 then St 378
           else St 0)
         else St 378)),
    State 378 (\<lambda>c. switch c [(58, St 379), (93, St 512)]
        (St 0)),
    State 379 (\<lambda>c. switch c [(2, St 291), (48, St 380), (49, St 423), (50, St 426)]
        (if c < 65 then (if 51 \<le> c \<and> c \<le> 57 then St 429
           else St 0)
         else if c > 70 then (if 97 \<le> c \<and> c \<le> 102 then St 430
           else St 0)
         else St 430))]"

definition uri_code_57 :: "uri_action block list" where
  "uri_code_57 = [
    State 380 (\<lambda>c. switch c [(46, St 294), (58, St 384), (93, St 512)]
        (if c < 65 then (if 48 \<le> c \<and> c \<le> 57 then St 381
           else St 0)
         else if c > 70 then (if 97 \<le> c \<and> c \<le> 102 then St 381
           else St 0)
         else St 381)),
    State 381 (\<lambda>c. switch c [(58, St 384), (93, St 512)]
        (if c < 65 then (if 48 \<le> c \<and> c \<le> 57 then St 382
           else St 0)
         else if c > 70 then (if 97 \<le> c \<and> c \<le> 102 then St 382
           else St 0)
         else St 382)),
    State 382 (\<lambda>c. switch c [(58, St 384), (93, St 512)]
        (if c < 65 then (if 48 \<le> c \<and> c \<le> 57 then St 383
           else St 0)
         else if c > 70 then (if 97 \<le> c \<and> c \<le> 102 then St 383
           else St 0)
         else St 383)),
    State 383 (\<lambda>c. switch c [(58, St 384), (93, St 512)]
        (St 0)),
    State 384 (\<lambda>c. switch c [(2, St 291), (48, St 385), (49, St 415), (50, St 418)]
        (if c < 65 then (if 51 \<le> c \<and> c \<le> 57 then St 421
           else St 0)
         else if c > 70 then (if 97 \<le> c \<and> c \<le> 102 then St 422
           else St 0)
         else St 422)),
    State 385 (\<lambda>c. switch c [(46, St 294), (58, St 389), (93, St 512)]
        (if c < 65 then (if 48 \<le> c \<and> c \<le> 57 then St 386
           else St 0)
         else if c > 70 then (if 97 \<le> c \<and> c \<le> 102 then St 386
           else St 0)
         else St 386)),
    State 386 (\<lambda>c. switch c [(58, St 389), (93, St 512)]
        (if c < 65 then (if 48 \<le> c \<and> c \<le> 57 then St 387
           else St 0)
         else if c > 70 then (if 97 \<le> c \<and> c \<le> 102 then St 387
           else St 0)
         else St 387)),
    State 387 (\<lambda>c. switch c [(58, St 389), (93, St 512)]
        (if c < 65 then (if 48 \<le> c \<and> c \<le> 57 then St 388
           else St 0)
         else if c > 70 then (if 97 \<le> c \<and> c \<le> 102 then St 388
           else St 0)
         else St 388)),
    State 388 (\<lambda>c. switch c [(58, St 389), (93, St 512)]
        (St 0))]"

definition uri_code_58 :: "uri_action block list" where
  "uri_code_58 = [
    State 389 (\<lambda>c. switch c [(2, St 291), (48, St 390), (49, St 407), (50, St 410)]
        (if c < 65 then (if 51 \<le> c \<and> c \<le> 57 then St 413
           else St 0)
         else if c > 70 then (if 97 \<le> c \<and> c \<le> 102 then St 414
           else St 0)
         else St 414)),
    State 390 (\<lambda>c. switch c [(46, St 294), (58, St 394), (93, St 512)]
        (if c < 65 then (if 48 \<le> c \<and> c \<le> 57 then St 391
           else St 0)
         else if c > 70 then (if 97 \<le> c \<and> c \<le> 102 then St 391
           else St 0)
         else St 391)),
    State 391 (\<lambda>c. switch c [(58, St 394), (93, St 512)]
        (if c < 65 then (if 48 \<le> c \<and> c \<le> 57 then St 392
           else St 0)
         else if c > 70 then (if 97 \<le> c \<and> c \<le> 102 then St 392
           else St 0)
         else St 392)),
    State 392 (\<lambda>c. switch c [(58, St 394), (93, St 512)]
        (if c < 65 then (if 48 \<le> c \<and> c \<le> 57 then St 393
           else St 0)
         else if c > 70 then (if 97 \<le> c \<and> c \<le> 102 then St 393
           else St 0)
         else St 393)),
    State 393 (\<lambda>c. switch c [(58, St 394), (93, St 512)]
        (St 0)),
    State 394 (\<lambda>c. switch c [(2, St 291), (48, St 395), (49, St 399), (50, St 402)]
        (if c < 65 then (if 51 \<le> c \<and> c \<le> 57 then St 405
           else St 0)
         else if c > 70 then (if 97 \<le> c \<and> c \<le> 102 then St 406
           else St 0)
         else St 406)),
    State 395 (\<lambda>c. switch c [(46, St 294), (58, St 333), (93, St 512)]
        (if c < 65 then (if 48 \<le> c \<and> c \<le> 57 then St 396
           else St 0)
         else if c > 70 then (if 97 \<le> c \<and> c \<le> 102 then St 396
           else St 0)
         else St 396)),
    State 396 (\<lambda>c. switch c [(58, St 333), (93, St 512)]
        (if c < 65 then (if 48 \<le> c \<and> c \<le> 57 then St 397
           else St 0)
         else if c > 70 then (if 97 \<le> c \<and> c \<le> 102 then St 397
           else St 0)
         else St 397)),
    State 397 (\<lambda>c. switch c [(58, St 333), (93, St 512)]
        (if c < 65 then (if 48 \<le> c \<and> c \<le> 57 then St 398
           else St 0)
         else if c > 70 then (if 97 \<le> c \<and> c \<le> 102 then St 398
           else St 0)
         else St 398))]"

definition uri_code_59 :: "uri_action block list" where
  "uri_code_59 = [
    State 398 (\<lambda>c. switch c [(58, St 333), (93, St 512)]
        (St 0)),
    State 399 (\<lambda>c. switch c [(46, St 294), (58, St 333), (93, St 512)]
        (if c < 65 then (if 48 \<le> c \<and> c \<le> 57 then St 400
           else St 0)
         else if c > 70 then (if 97 \<le> c \<and> c \<le> 102 then St 396
           else St 0)
         else St 396)),
    State 400 (\<lambda>c. switch c [(46, St 294), (58, St 333), (93, St 512)]
        (if c < 65 then (if 48 \<le> c \<and> c \<le> 57 then St 401
           else St 0)
         else if c > 70 then (if 97 \<le> c \<and> c \<le> 102 then St 397
           else St 0)
         else St 397)),
    State 401 (\<lambda>c. switch c [(46, St 294), (58, St 333), (93, St 512)]
        (if c < 65 then (if 48 \<le> c \<and> c \<le> 57 then St 398
           else St 0)
         else if c > 70 then (if 97 \<le> c \<and> c \<le> 102 then St 398
           else St 0)
         else St 398)),
    State 402 (\<lambda>c. switch c [(46, St 294), (53, St 404), (58, St 333), (93, St 512)]
        (if c < 65 then (if 48 \<le> c \<and> c \<le> 57 then St 403
           else St 0)
         else if c > 70 then (if 97 \<le> c \<and> c \<le> 102 then St 396
           else St 0)
         else St 396)),
    State 403 (\<lambda>c. switch c [(46, St 294), (58, St 333), (93, St 512)]
        (if c < 65 then (if 48 \<le> c \<and> c \<le> 57 then St 397
           else St 0)
         else if c > 70 then (if 97 \<le> c \<and> c \<le> 102 then St 397
           else St 0)
         else St 397)),
    State 404 (\<lambda>c. switch c [(46, St 294), (58, St 333), (93, St 512)]
        (if c < 54 then (if 48 \<le> c \<and> c \<le> 53 then St 401
           else St 0)
         else if c > 57 then (if c > 70 then (if 97 \<le> c \<and> c \<le> 102 then St 397
             else St 0)
           else if c \<ge> 65 then St 397
           else St 0)
         else St 397)),
    State 405 (\<lambda>c. switch c [(46, St 294), (58, St 333), (93, St 512)]
        (if c < 65 then (if 48 \<le> c \<and> c \<le> 57 then St 403
           else St 0)
         else if c > 70 then (if 97 \<le> c \<and> c \<le> 102 then St 396
           else St 0)
         else St 396))]"

definition uri_code_60 :: "uri_action block list" where
  "uri_code_60 = [
    State 406 (\<lambda>c. switch c [(58, St 333), (93, St 512)]
        (if c < 65 then (if 48 \<le> c \<and> c \<le> 57 then St 396
           else St 0)
         else if c > 70 then (if 97 \<le> c \<and> c \<le> 102 then St 396
           else St 0)
         else St 396)),
    State 407 (\<lambda>c. switch c [(46, St 294), (58, St 394), (93, St 512)]
        (if c < 65 then (if 48 \<le> c \<and> c \<le> 57 then St 408
           else St 0)
         else if c > 70 then (if 97 \<le> c \<and> c \<le> 102 then St 391
           else St 0)
         else St 391)),
    State 408 (\<lambda>c. switch c [(46, St 294), (58, St 394), (93, St 512)]
        (if c < 65 then (if 48 \<le> c \<and> c \<le> 57 then St 409
           else St 0)
         else if c > 70 then (if 97 \<le> c \<and> c \<le> 102 then St 392
           else St 0)
         else St 392)),
    State 409 (\<lambda>c. switch c [(46, St 294), (58, St 394), (93, St 512)]
        (if c < 65 then (if 48 \<le> c \<and> c \<le> 57 then St 393
           else St 0)
         else if c > 70 then (if 97 \<le> c \<and> c \<le> 102 then St 393
           else St 0)
         else St 393)),
    State 410 (\<lambda>c. switch c [(46, St 294), (53, St 412), (58, St 394), (93, St 512)]
        (if c < 65 then (if 48 \<le> c \<and> c \<le> 57 then St 411
           else St 0)
         else if c > 70 then (if 97 \<le> c \<and> c \<le> 102 then St 391
           else St 0)
         else St 391)),
    State 411 (\<lambda>c. switch c [(46, St 294), (58, St 394), (93, St 512)]
        (if c < 65 then (if 48 \<le> c \<and> c \<le> 57 then St 392
           else St 0)
         else if c > 70 then (if 97 \<le> c \<and> c \<le> 102 then St 392
           else St 0)
         else St 392)),
    State 412 (\<lambda>c. switch c [(46, St 294), (58, St 394), (93, St 512)]
        (if c < 54 then (if 48 \<le> c \<and> c \<le> 53 then St 409
           else St 0)
         else if c > 57 then (if c > 70 then (if 97 \<le> c \<and> c \<le> 102 then St 392
             else St 0)
           else if c \<ge> 65 then St 392
           else St 0)
         else St 392)),
    State 413 (\<lambda>c. switch c [(46, St 294), (58, St 394), (93, St 512)]
        (if c < 65 then (if 48 \<le> c \<and> c \<le> 57 then St 411
           else St 0)
         else if c > 70 then (if 97 \<le> c \<and> c \<le> 102 then St 391
           else St 0)
         else St 391))]"

definition uri_code_61 :: "uri_action block list" where
  "uri_code_61 = [
    State 414 (\<lambda>c. switch c [(58, St 394), (93, St 512)]
        (if c < 65 then (if 48 \<le> c \<and> c \<le> 57 then St 391
           else St 0)
         else if c > 70 then (if 97 \<le> c \<and> c \<le> 102 then St 391
           else St 0)
         else St 391)),
    State 415 (\<lambda>c. switch c [(46, St 294), (58, St 389), (93, St 512)]
        (if c < 65 then (if 48 \<le> c \<and> c \<le> 57 then St 416
           else St 0)
         else if c > 70 then (if 97 \<le> c \<and> c \<le> 102 then St 386
           else St 0)
         else St 386)),
    State 416 (\<lambda>c. switch c [(46, St 294), (58, St 389), (93, St 512)]
        (if c < 65 then (if 48 \<le> c \<and> c \<le> 57 then St 417
           else St 0)
         else if c > 70 then (if 97 \<le> c \<and> c \<le> 102 then St 387
           else St 0)
         else St 387)),
    State 417 (\<lambda>c. switch c [(46, St 294), (58, St 389), (93, St 512)]
        (if c < 65 then (if 48 \<le> c \<and> c \<le> 57 then St 388
           else St 0)
         else if c > 70 then (if 97 \<le> c \<and> c \<le> 102 then St 388
           else St 0)
         else St 388)),
    State 418 (\<lambda>c. switch c [(46, St 294), (53, St 420), (58, St 389), (93, St 512)]
        (if c < 65 then (if 48 \<le> c \<and> c \<le> 57 then St 419
           else St 0)
         else if c > 70 then (if 97 \<le> c \<and> c \<le> 102 then St 386
           else St 0)
         else St 386)),
    State 419 (\<lambda>c. switch c [(46, St 294), (58, St 389), (93, St 512)]
        (if c < 65 then (if 48 \<le> c \<and> c \<le> 57 then St 387
           else St 0)
         else if c > 70 then (if 97 \<le> c \<and> c \<le> 102 then St 387
           else St 0)
         else St 387)),
    State 420 (\<lambda>c. switch c [(46, St 294), (58, St 389), (93, St 512)]
        (if c < 54 then (if 48 \<le> c \<and> c \<le> 53 then St 417
           else St 0)
         else if c > 57 then (if c > 70 then (if 97 \<le> c \<and> c \<le> 102 then St 387
             else St 0)
           else if c \<ge> 65 then St 387
           else St 0)
         else St 387)),
    State 421 (\<lambda>c. switch c [(46, St 294), (58, St 389), (93, St 512)]
        (if c < 65 then (if 48 \<le> c \<and> c \<le> 57 then St 419
           else St 0)
         else if c > 70 then (if 97 \<le> c \<and> c \<le> 102 then St 386
           else St 0)
         else St 386))]"

definition uri_code_62 :: "uri_action block list" where
  "uri_code_62 = [
    State 422 (\<lambda>c. switch c [(58, St 389), (93, St 512)]
        (if c < 65 then (if 48 \<le> c \<and> c \<le> 57 then St 386
           else St 0)
         else if c > 70 then (if 97 \<le> c \<and> c \<le> 102 then St 386
           else St 0)
         else St 386)),
    State 423 (\<lambda>c. switch c [(46, St 294), (58, St 384), (93, St 512)]
        (if c < 65 then (if 48 \<le> c \<and> c \<le> 57 then St 424
           else St 0)
         else if c > 70 then (if 97 \<le> c \<and> c \<le> 102 then St 381
           else St 0)
         else St 381)),
    State 424 (\<lambda>c. switch c [(46, St 294), (58, St 384), (93, St 512)]
        (if c < 65 then (if 48 \<le> c \<and> c \<le> 57 then St 425
           else St 0)
         else if c > 70 then (if 97 \<le> c \<and> c \<le> 102 then St 382
           else St 0)
         else St 382)),
    State 425 (\<lambda>c. switch c [(46, St 294), (58, St 384), (93, St 512)]
        (if c < 65 then (if 48 \<le> c \<and> c \<le> 57 then St 383
           else St 0)
         else if c > 70 then (if 97 \<le> c \<and> c \<le> 102 then St 383
           else St 0)
         else St 383)),
    State 426 (\<lambda>c. switch c [(46, St 294), (53, St 428), (58, St 384), (93, St 512)]
        (if c < 65 then (if 48 \<le> c \<and> c \<le> 57 then St 427
           else St 0)
         else if c > 70 then (if 97 \<le> c \<and> c \<le> 102 then St 381
           else St 0)
         else St 381)),
    State 427 (\<lambda>c. switch c [(46, St 294), (58, St 384), (93, St 512)]
        (if c < 65 then (if 48 \<le> c \<and> c \<le> 57 then St 382
           else St 0)
         else if c > 70 then (if 97 \<le> c \<and> c \<le> 102 then St 382
           else St 0)
         else St 382)),
    State 428 (\<lambda>c. switch c [(46, St 294), (58, St 384), (93, St 512)]
        (if c < 54 then (if 48 \<le> c \<and> c \<le> 53 then St 425
           else St 0)
         else if c > 57 then (if c > 70 then (if 97 \<le> c \<and> c \<le> 102 then St 382
             else St 0)
           else if c \<ge> 65 then St 382
           else St 0)
         else St 382)),
    State 429 (\<lambda>c. switch c [(46, St 294), (58, St 384), (93, St 512)]
        (if c < 65 then (if 48 \<le> c \<and> c \<le> 57 then St 427
           else St 0)
         else if c > 70 then (if 97 \<le> c \<and> c \<le> 102 then St 381
           else St 0)
         else St 381))]"

definition uri_code_63 :: "uri_action block list" where
  "uri_code_63 = [
    State 430 (\<lambda>c. switch c [(58, St 384), (93, St 512)]
        (if c < 65 then (if 48 \<le> c \<and> c \<le> 57 then St 381
           else St 0)
         else if c > 70 then (if 97 \<le> c \<and> c \<le> 102 then St 381
           else St 0)
         else St 381)),
    State 431 (\<lambda>c. switch c [(46, St 294), (58, St 379), (93, St 512)]
        (if c < 65 then (if 48 \<le> c \<and> c \<le> 57 then St 432
           else St 0)
         else if c > 70 then (if 97 \<le> c \<and> c \<le> 102 then St 376
           else St 0)
         else St 376)),
    State 432 (\<lambda>c. switch c [(46, St 294), (58, St 379), (93, St 512)]
        (if c < 65 then (if 48 \<le> c \<and> c \<le> 57 then St 433
           else St 0)
         else if c > 70 then (if 97 \<le> c \<and> c \<le> 102 then St 377
           else St 0)
         else St 377)),
    State 433 (\<lambda>c. switch c [(46, St 294), (58, St 379), (93, St 512)]
        (if c < 65 then (if 48 \<le> c \<and> c \<le> 57 then St 378
           else St 0)
         else if c > 70 then (if 97 \<le> c \<and> c \<le> 102 then St 378
           else St 0)
         else St 378)),
    State 434 (\<lambda>c. switch c [(46, St 294), (53, St 436), (58, St 379), (93, St 512)]
        (if c < 65 then (if 48 \<le> c \<and> c \<le> 57 then St 435
           else St 0)
         else if c > 70 then (if 97 \<le> c \<and> c \<le> 102 then St 376
           else St 0)
         else St 376)),
    State 435 (\<lambda>c. switch c [(46, St 294), (58, St 379), (93, St 512)]
        (if c < 65 then (if 48 \<le> c \<and> c \<le> 57 then St 377
           else St 0)
         else if c > 70 then (if 97 \<le> c \<and> c \<le> 102 then St 377
           else St 0)
         else St 377)),
    State 436 (\<lambda>c. switch c [(46, St 294), (58, St 379), (93, St 512)]
        (if c < 54 then (if 48 \<le> c \<and> c \<le> 53 then St 433
           else St 0)
         else if c > 57 then (if c > 70 then (if 97 \<le> c \<and> c \<le> 102 then St 377
             else St 0)
           else if c \<ge> 65 then St 377
           else St 0)
         else St 377)),
    State 437 (\<lambda>c. switch c [(46, St 294), (58, St 379), (93, St 512)]
        (if c < 65 then (if 48 \<le> c \<and> c \<le> 57 then St 435
           else St 0)
         else if c > 70 then (if 97 \<le> c \<and> c \<le> 102 then St 376
           else St 0)
         else St 376))]"

definition uri_code_64 :: "uri_action block list" where
  "uri_code_64 = [
    State 438 (\<lambda>c. switch c [(58, St 379), (93, St 512)]
        (if c < 65 then (if 48 \<le> c \<and> c \<le> 57 then St 376
           else St 0)
         else if c > 70 then (if 97 \<le> c \<and> c \<le> 102 then St 376
           else St 0)
         else St 376)),
    State 439 (\<lambda>c. switch c [(46, St 294), (58, St 374), (93, St 512)]
        (if c < 65 then (if 48 \<le> c \<and> c \<le> 57 then St 440
           else St 0)
         else if c > 70 then (if 97 \<le> c \<and> c \<le> 102 then St 371
           else St 0)
         else St 371)),
    State 440 (\<lambda>c. switch c [(46, St 294), (58, St 374), (93, St 512)]
        (if c < 65 then (if 48 \<le> c \<and> c \<le> 57 then St 441
           else St 0)
         else if c > 70 then (if 97 \<le> c \<and> c \<le> 102 then St 372
           else St 0)
         else St 372)),
    State 441 (\<lambda>c. switch c [(46, St 294), (58, St 374), (93, St 512)]
        (if c < 65 then (if 48 \<le> c \<and> c \<le> 57 then St 373
           else St 0)
         else if c > 70 then (if 97 \<le> c \<and> c \<le> 102 then St 373
           else St 0)
         else St 373)),
    State 442 (\<lambda>c. switch c [(46, St 294), (53, St 444), (58, St 374), (93, St 512)]
        (if c < 65 then (if 48 \<le> c \<and> c \<le> 57 then St 443
           else St 0)
         else if c > 70 then (if 97 \<le> c \<and> c \<le> 102 then St 371
           else St 0)
         else St 371)),
    State 443 (\<lambda>c. switch c [(46, St 294), (58, St 374), (93, St 512)]
        (if c < 65 then (if 48 \<le> c \<and> c \<le> 57 then St 372
           else St 0)
         else if c > 70 then (if 97 \<le> c \<and> c \<le> 102 then St 372
           else St 0)
         else St 372)),
    State 444 (\<lambda>c. switch c [(46, St 294), (58, St 374), (93, St 512)]
        (if c < 54 then (if 48 \<le> c \<and> c \<le> 53 then St 441
           else St 0)
         else if c > 57 then (if c > 70 then (if 97 \<le> c \<and> c \<le> 102 then St 372
             else St 0)
           else if c \<ge> 65 then St 372
           else St 0)
         else St 372)),
    State 445 (\<lambda>c. switch c [(46, St 294), (58, St 374), (93, St 512)]
        (if c < 65 then (if 48 \<le> c \<and> c \<le> 57 then St 443
           else St 0)
         else if c > 70 then (if 97 \<le> c \<and> c \<le> 102 then St 371
           else St 0)
         else St 371))]"

definition uri_code_65 :: "uri_action block list" where
  "uri_code_65 = [
    State 446 (\<lambda>c. switch c [(58, St 374), (93, St 512)]
        (if c < 65 then (if 48 \<le> c \<and> c \<le> 57 then St 371
           else St 0)
         else if c > 70 then (if 97 \<le> c \<and> c \<le> 102 then St 371
           else St 0)
         else St 371)),
    State 447 (\<lambda>c. if c < 65 then (if 48 \<le> c \<and> c \<le> 57 then St 448
        else St 0)
      else if c > 70 then (if 97 \<le> c \<and> c \<le> 102 then St 448
        else St 0)
      else St 448),
    State 448 (\<lambda>c. if c = 46 then St 449
      else if c < 65 then (if 48 \<le> c \<and> c \<le> 57 then St 448
        else St 0)
      else if c > 70 then (if 97 \<le> c \<and> c \<le> 102 then St 448
        else St 0)
      else St 448),
    State 449 (\<lambda>c. switch c [(33, St 450), (36, St 450), (61, St 450), (95, St 450), (126, St 450)]
        (if c < 48 then (if 38 \<le> c \<and> c \<le> 46 then St 450
           else St 0)
         else if c > 59 then (if c > 90 then (if 97 \<le> c \<and> c \<le> 122 then St 450
             else St 0)
           else if c \<ge> 65 then St 450
           else St 0)
         else St 450)),
    State 450 (\<lambda>c. switch c [(33, St 450), (36, St 450), (61, St 450), (93, St 512), (95, St 450), (126, St 450)]
        (if c < 48 then (if 38 \<le> c \<and> c \<le> 46 then St 450
           else St 0)
         else if c > 59 then (if c > 90 then (if 97 \<le> c \<and> c \<le> 122 then St 450
             else St 0)
           else if c \<ge> 65 then St 450
           else St 0)
         else St 450)),
    Trans 577 [U_Mark] 542,
    State 542 (\<lambda>c. switch c [(33, St 255), (35, Tr 570), (37, St 256), (47, Tr 571), (61, St 255), (63, Tr 573), (64, Tr 263), (95, St 255), (126, St 255)]
        (if c < 58 then (if c > 46 then (if 48 \<le> c \<and> c \<le> 57 then St 542
             else St 0)
           else if c \<ge> 36 then St 255
           else St 0)
         else if c > 59 then (if c > 90 then (if 97 \<le> c \<and> c \<le> 122 then St 255
             else St 0)
           else if c \<ge> 65 then St 255
           else St 0)
         else St 255)),
    Trans 551 [U_Mark] 543]"

definition uri_code_66 :: "uri_action block list" where
  "uri_code_66 = [
    State 543 (\<lambda>c. switch c [(33, St 520), (35, Tr 559), (37, St 253), (46, St 544), (47, Tr 560), (58, Tr 576), (61, St 520), (63, Tr 562), (64, Tr 263), (95, St 520), (126, St 520)]
        (if c < 65 then (if 36 \<le> c \<and> c \<le> 59 then St 520
           else St 0)
         else if c > 90 then (if 97 \<le> c \<and> c \<le> 122 then St 520
           else St 0)
         else St 520)),
    State 544 (\<lambda>c. switch c [(2, St 233), (33, St 520), (35, Tr 559), (37, St 253), (47, Tr 560), (48, St 545), (49, St 553), (50, St 555), (58, Tr 576), (59, St 520), (61, St 520), (63, Tr 562), (64, Tr 263), (95, St 520), (126, St 520)]
        (if c < 51 then (if 36 \<le> c \<and> c \<le> 46 then St 520
           else St 0)
         else if c > 57 then (if c > 90 then (if 97 \<le> c \<and> c \<le> 122 then St 520
             else St 0)
           else if c \<ge> 65 then St 520
           else St 0)
         else St 554)),
    State 545 (\<lambda>c. switch c [(33, St 520), (35, Tr 559), (37, St 253), (46, St 546), (47, Tr 560), (58, Tr 576), (61, St 520), (63, Tr 562), (64, Tr 263), (95, St 520), (126, St 520)]
        (if c < 65 then (if 36 \<le> c \<and> c \<le> 59 then St 520
           else St 0)
         else if c > 90 then (if 97 \<le> c \<and> c \<le> 122 then St 520
           else St 0)
         else St 520)),
    State 546 (\<lambda>c. switch c [(2, St 237), (33, St 520), (35, Tr 559), (37, St 253), (47, Tr 560), (48, St 547), (49, St 549), (50, St 551), (58, Tr 576), (59, St 520), (61, St 520), (63, Tr 562), (64, Tr 263), (95, St 520), (126, St 520)]
        (if c < 51 then (if 36 \<le> c \<and> c \<le> 46 then St 520
           else St 0)
         else if c > 57 then (if c > 90 then (if 97 \<le> c \<and> c \<le> 122 then St 520
             else St 0)
           else if c \<ge> 65 then St 520
           else St 0)
         else St 550)),
    State 547 (\<lambda>c. switch c [(33, St 520), (35, Tr 559), (37, St 253), (46, St 548), (47, Tr 560), (58, Tr 576), (61, St 520), (63, Tr 562), (64, Tr 263), (95, St 520), (126, St 520)]
        (if c < 65 then (if 36 \<le> c \<and> c \<le> 59 then St 520
           else St 0)
         else if c > 90 then (if 97 \<le> c \<and> c \<le> 122 then St 520
           else St 0)
         else St 520))]"

definition uri_code_67 :: "uri_action block list" where
  "uri_code_67 = [
    State 548 (\<lambda>c. switch c [(2, St 241), (33, St 520), (35, Tr 559), (37, St 253), (47, Tr 560), (58, Tr 576), (61, St 520), (63, Tr 562), (64, Tr 263), (95, St 520), (126, St 520)]
        (if c < 65 then (if 36 \<le> c \<and> c \<le> 59 then St 520
           else St 0)
         else if c > 90 then (if 97 \<le> c \<and> c \<le> 122 then St 520
           else St 0)
         else St 520)),
    State 549 (\<lambda>c. switch c [(33, St 520), (35, Tr 559), (37, St 253), (46, St 548), (47, Tr 560), (58, Tr 576), (59, St 520), (61, St 520), (63, Tr 562), (64, Tr 263), (95, St 520), (126, St 520)]
        (if c < 48 then (if 36 \<le> c \<and> c \<le> 45 then St 520
           else St 0)
         else if c > 57 then (if c > 90 then (if 97 \<le> c \<and> c \<le> 122 then St 520
             else St 0)
           else if c \<ge> 65 then St 520
           else St 0)
         else St 550)),
    State 550 (\<lambda>c. switch c [(33, St 520), (35, Tr 559), (37, St 253), (46, St 548), (47, Tr 560), (58, Tr 576), (59, St 520), (61, St 520), (63, Tr 562), (64, Tr 263), (95, St 520), (126, St 520)]
        (if c < 48 then (if 36 \<le> c \<and> c \<le> 45 then St 520
           else St 0)
         else if c > 57 then (if c > 90 then (if 97 \<le> c \<and> c \<le> 122 then St 520
             else St 0)
           else if c \<ge> 65 then St 520
           else St 0)
         else St 547)),
    State 551 (\<lambda>c. switch c [(33, St 520), (35, Tr 559), (37, St 253), (46, St 548), (47, Tr 560), (53, St 552), (58, Tr 576), (59, St 520), (61, St 520), (63, Tr 562), (64, Tr 263), (95, St 520), (126, St 520)]
        (if c < 48 then (if 36 \<le> c \<and> c \<le> 45 then St 520
           else St 0)
         else if c > 57 then (if c > 90 then (if 97 \<le> c \<and> c \<le> 122 then St 520
             else St 0)
           else if c \<ge> 65 then St 520
           else St 0)
         else St 547)),
    State 552 (\<lambda>c. switch c [(33, St 520), (35, Tr 559), (37, St 253), (46, St 548), (47, Tr 560), (58, Tr 576), (61, St 520), (63, Tr 562), (64, Tr 263), (95, St 520), (126, St 520)]
        (if c < 54 then (if c > 45 then (if 48 \<le> c \<and> c \<le> 53 then St 547
             else St 0)
           else if c \<ge> 36 then St 520
           else St 0)
         else if c > 59 then (if c > 90 then (if 97 \<le> c \<and> c \<le> 122 then St 520
             else St 0)
           else if c \<ge> 65 then St 520
           else St 0)
         else St 520))]"

definition uri_code_68 :: "uri_action block list" where
  "uri_code_68 = [
    State 553 (\<lambda>c. switch c [(33, St 520), (35, Tr 559), (37, St 253), (46, St 546), (47, Tr 560), (58, Tr 576), (59, St 520), (61, St 520), (63, Tr 562), (64, Tr 263), (95, St 520), (126, St 520)]
        (if c < 48 then (if 36 \<le> c \<and> c \<le> 45 then St 520
           else St 0)
         else if c > 57 then (if c > 90 then (if 97 \<le> c \<and> c \<le> 122 then St 520
             else St 0)
           else if c \<ge> 65 then St 520
           else St 0)
         else St 554)),
    State 554 (\<lambda>c. switch c [(33, St 520), (35, Tr 559), (37, St 253), (46, St 546), (47, Tr 560), (58, Tr 576), (59, St 520), (61, St 520), (63, Tr 562), (64, Tr 263), (95, St 520), (126, St 520)]
        (if c < 48 then (if 36 \<le> c \<and> c \<le> 45 then St 520
           else St 0)
         else if c > 57 then (if c > 90 then (if 97 \<le> c \<and> c \<le> 122 then St 520
             else St 0)
           else if c \<ge> 65 then St 520
           else St 0)
         else St 545)),
    State 555 (\<lambda>c. switch c [(33, St 520), (35, Tr 559), (37, St 253), (46, St 546), (47, Tr 560), (53, St 556), (58, Tr 576), (59, St 520), (61, St 520), (63, Tr 562), (64, Tr 263), (95, St 520), (126, St 520)]
        (if c < 48 then (if 36 \<le> c \<and> c \<le> 45 then St 520
           else St 0)
         else if c > 57 then (if c > 90 then (if 97 \<le> c \<and> c \<le> 122 then St 520
             else St 0)
           else if c \<ge> 65 then St 520
           else St 0)
         else St 545)),
    State 556 (\<lambda>c. switch c [(33, St 520), (35, Tr 559), (37, St 253), (46, St 546), (47, Tr 560), (58, Tr 576), (61, St 520), (63, Tr 562), (64, Tr 263), (95, St 520), (126, St 520)]
        (if c < 54 then (if c > 45 then (if 48 \<le> c \<and> c \<le> 53 then St 545
             else St 0)
           else if c \<ge> 36 then St 520
           else St 0)
         else if c > 59 then (if c > 90 then (if 97 \<le> c \<and> c \<le> 122 then St 520
             else St 0)
           else if c \<ge> 65 then St 520
           else St 0)
         else St 520)),
    Trans 552 [U_Mark] 557]"

definition uri_code_69 :: "uri_action block list" where
  "uri_code_69 = [
    State 557 (\<lambda>c. switch c [(33, St 520), (35, Tr 559), (37, St 253), (46, St 544), (47, Tr 560), (58, Tr 576), (59, St 520), (61, St 520), (63, Tr 562), (64, Tr 263), (95, St 520), (126, St 520)]
        (if c < 48 then (if 36 \<le> c \<and> c \<le> 45 then St 520
           else St 0)
         else if c > 57 then (if c > 90 then (if 97 \<le> c \<and> c \<le> 122 then St 520
             else St 0)
           else if c \<ge> 65 then St 520
           else St 0)
         else St 558)),
    Trans 554 [U_Mark] 558,
    State 558 (\<lambda>c. switch c [(33, St 520), (35, Tr 559), (37, St 253), (46, St 544), (47, Tr 560), (58, Tr 576), (59, St 520), (61, St 520), (63, Tr 562), (64, Tr 263), (95, St 520), (126, St 520)]
        (if c < 48 then (if 36 \<le> c \<and> c \<le> 45 then St 520
           else St 0)
         else if c > 57 then (if c > 90 then (if 97 \<le> c \<and> c \<le> 122 then St 520
             else St 0)
           else if c \<ge> 65 then St 520
           else St 0)
         else St 543)),
    Trans 553 [U_Mark] 559,
    State 559 (\<lambda>c. switch c [(33, St 520), (35, Tr 559), (37, St 253), (46, St 544), (47, Tr 560), (53, St 560), (58, Tr 576), (59, St 520), (61, St 520), (63, Tr 562), (64, Tr 263), (95, St 520), (126, St 520)]
        (if c < 48 then (if 36 \<le> c \<and> c \<le> 45 then St 520
           else St 0)
         else if c > 57 then (if c > 90 then (if 97 \<le> c \<and> c \<le> 122 then St 520
             else St 0)
           else if c \<ge> 65 then St 520
           else St 0)
         else St 543)),
    State 560 (\<lambda>c. switch c [(33, St 520), (35, Tr 559), (37, St 253), (46, St 544), (47, Tr 560), (58, Tr 576), (61, St 520), (63, Tr 562), (64, Tr 263), (95, St 520), (126, St 520)]
        (if c < 54 then (if c > 45 then (if 48 \<le> c \<and> c \<le> 53 then St 543
             else St 0)
           else if c \<ge> 36 then St 520
           else St 0)
         else if c > 59 then (if c > 90 then (if 97 \<le> c \<and> c \<le> 122 then St 520
             else St 0)
           else if c \<ge> 65 then St 520
           else St 0)
         else St 520))]"

definition uri_code :: "uri_action block list" where
  "uri_code =
     uri_code_1 @ uri_code_2 @ uri_code_3 @ uri_code_4 @ uri_code_5 @ uri_code_6 @ uri_code_7 @ uri_code_8 @
     uri_code_9 @ uri_code_10 @ uri_code_11 @ uri_code_12 @ uri_code_13 @ uri_code_14 @ uri_code_15 @
     uri_code_16 @ uri_code_17 @ uri_code_18 @ uri_code_19 @ uri_code_20 @ uri_code_21 @ uri_code_22 @
     uri_code_23 @ uri_code_24 @ uri_code_25 @ uri_code_26 @ uri_code_27 @ uri_code_28 @ uri_code_29 @
     uri_code_30 @ uri_code_31 @ uri_code_32 @ uri_code_33 @ uri_code_34 @ uri_code_35 @ uri_code_36 @
     uri_code_37 @ uri_code_38 @ uri_code_39 @ uri_code_40 @ uri_code_41 @ uri_code_42 @ uri_code_43 @
     uri_code_44 @ uri_code_45 @ uri_code_46 @ uri_code_47 @ uri_code_48 @ uri_code_49 @ uri_code_50 @
     uri_code_51 @ uri_code_52 @ uri_code_53 @ uri_code_54 @ uri_code_55 @ uri_code_56 @ uri_code_57 @
     uri_code_58 @ uri_code_59 @ uri_code_60 @ uri_code_61 @ uri_code_62 @ uri_code_63 @ uri_code_64 @
     uri_code_65 @ uri_code_66 @ uri_code_67 @ uri_code_68 @ uri_code_69"

text \<open>Which cases and transitions each part has.\<close>

lemmas uri_code_defs =
  uri_code_1_def uri_code_2_def uri_code_3_def uri_code_4_def uri_code_5_def uri_code_6_def uri_code_7_def
  uri_code_8_def uri_code_9_def uri_code_10_def uri_code_11_def uri_code_12_def uri_code_13_def uri_code_14_def
  uri_code_15_def uri_code_16_def uri_code_17_def uri_code_18_def uri_code_19_def uri_code_20_def uri_code_21_def
  uri_code_22_def uri_code_23_def uri_code_24_def uri_code_25_def uri_code_26_def uri_code_27_def uri_code_28_def
  uri_code_29_def uri_code_30_def uri_code_31_def uri_code_32_def uri_code_33_def uri_code_34_def uri_code_35_def
  uri_code_36_def uri_code_37_def uri_code_38_def uri_code_39_def uri_code_40_def uri_code_41_def uri_code_42_def
  uri_code_43_def uri_code_44_def uri_code_45_def uri_code_46_def uri_code_47_def uri_code_48_def uri_code_49_def
  uri_code_50_def uri_code_51_def uri_code_52_def uri_code_53_def uri_code_54_def uri_code_55_def uri_code_56_def
  uri_code_57_def uri_code_58_def uri_code_59_def uri_code_60_def uri_code_61_def uri_code_62_def uri_code_63_def
  uri_code_64_def uri_code_65_def uri_code_66_def uri_code_67_def uri_code_68_def uri_code_69_def

lemma uri_code_states:
  "block_states (uri_code_1) = [451, 452]"
  "block_states (uri_code_2) = [453, 454, 1, 2, 3, 4]"
  "block_states (uri_code_3) = [455, 5, 6]"
  "block_states (uri_code_4) = [456, 457, 7, 8]"
  "block_states (uri_code_5) = [458, 459, 9, 10, 11, 12, 13, 14, 15, 16, 17, 18, 19]"
  "block_states (uri_code_6) = [20, 21, 22, 460, 461, 462, 463, 464, 465, 466, 23]"
  "block_states (uri_code_7) = [24, 25, 26, 27, 28, 29, 30, 467, 31, 32]"
  "block_states (uri_code_8) = [468, 33, 34, 35, 469]"
  "block_states (uri_code_9) = [470, 36, 37, 471, 472, 473]"
  "block_states (uri_code_10) = [474, 475, 476, 477, 478]"
  "block_states (uri_code_11) = [479, 480, 481, 482, 483]"
  "block_states (uri_code_12) = [484, 485, 486, 487]"
  "block_states (uri_code_13) = [488, 38, 39, 40, 41, 42, 43, 44, 45]"
  "block_states (uri_code_14) = [46, 47, 48, 49, 50, 51, 52, 53, 54, 55, 56]"
  "block_states (uri_code_15) = [57, 58, 59, 60, 61, 62, 63, 64, 65, 66, 67]"
  "block_states (uri_code_16) = [68, 69, 70, 71, 72, 73, 74, 75, 76, 77, 78, 79, 80, 81, 82, 83, 84]"
  "block_states (uri_code_17) = [85, 86, 87, 88, 89, 90, 91, 92, 93, 94, 95, 96, 97, 98]"
  "block_states (uri_code_18) = [99, 100, 101, 102, 103, 104, 105, 106, 107, 108]"
  "block_states (uri_code_19) = [109, 110, 111, 112, 113, 114, 115, 116, 117]"
  "block_states (uri_code_20) = [118, 119, 120, 121, 122, 123, 124, 125, 126]"
  "block_states (uri_code_21) = [127, 128, 129, 130, 131, 132, 133, 134, 135, 136, 137]"
  "block_states (uri_code_22) = [138, 139, 140, 141, 142, 143, 144, 145, 146, 147, 148]"
  "block_states (uri_code_23) = [149, 150, 151, 152, 153, 154, 155, 156, 157]"
  "block_states (uri_code_24) = [158, 159, 160, 161, 162, 163, 164, 165, 166]"
  "block_states (uri_code_25) = [167, 168, 169, 170, 171, 172, 173, 174, 175]"
  "block_states (uri_code_26) = [176, 177, 178, 179, 180, 181, 182, 183]"
  "block_states (uri_code_27) = [184, 185, 186, 187, 188, 189, 190, 191]"
  "block_states (uri_code_28) = [192, 193, 194, 195, 196, 197, 198, 199]"
  "block_states (uri_code_29) = [200, 201, 202, 203, 204, 205, 206, 207]"
  "block_states (uri_code_30) = [208, 209, 210, 211, 212, 213, 214, 215]"
  "block_states (uri_code_31) = [216, 217, 218, 219, 220, 221, 222, 223]"
  "block_states (uri_code_32) = [224, 225, 226, 227, 228, 489]"
  "block_states (uri_code_33) = [490, 491, 492, 493, 494]"
  "block_states (uri_code_34) = [495, 496, 497, 498, 499]"
  "block_states (uri_code_35) = [500, 501, 502, 503]"
  "block_states (uri_code_36) = [504, 505, 506, 507]"
  "block_states (uri_code_37) = [508, 509, 510, 511, 229, 230, 231]"
  "block_states (uri_code_38) = [232, 233, 234, 235, 236, 237, 238, 239, 240, 241, 242, 512]"
  "block_states (uri_code_39) = [513, 243, 244, 514, 515, 516, 517, 518, 519]"
  "block_states (uri_code_40) = [245, 246, 247, 248, 249, 250, 251, 252, 520, 253, 254]"
  "block_states (uri_code_41) = [521, 255, 256, 257, 522]"
  "block_states (uri_code_42) = [523, 258, 259, 524, 525, 526]"
  "block_states (uri_code_43) = [527, 528, 529, 530, 531]"
  "block_states (uri_code_44) = [532, 533, 534, 535, 536]"
  "block_states (uri_code_45) = [537, 538, 539, 540]"
  "block_states (uri_code_46) = [541, 260, 261, 262, 263, 264, 265, 266, 267]"
  "block_states (uri_code_47) = [268, 269, 270, 271, 272, 273, 274, 275, 276, 277, 278]"
  "block_states (uri_code_48) = [279, 280, 281, 282, 283, 284, 285, 286, 287, 288, 289]"
  "block_states (uri_code_49) = [290, 291, 292, 293, 294, 295, 296, 297, 298, 299, 300, 301, 302, 303, 304, 305, 306]"
  "block_states (uri_code_50) = [307, 308, 309, 310, 311, 312, 313, 314, 315, 316, 317, 318, 319, 320]"
  "block_states (uri_code_51) = [321, 322, 323, 324, 325, 326, 327, 328, 329, 330]"
  "block_states (uri_code_52) = [331, 332, 333, 334, 335, 336, 337, 338, 339]"
  "block_states (uri_code_53) = [340, 341, 342, 343, 344, 345, 346, 347, 348]"
  "block_states (uri_code_54) = [349, 350, 351, 352, 353, 354, 355, 356, 357, 358, 359]"
  "block_states (uri_code_55) = [360, 361, 362, 363, 364, 365, 366, 367, 368, 369, 370]"
  "block_states (uri_code_56) = [371, 372, 373, 374, 375, 376, 377, 378, 379]"
  "block_states (uri_code_57) = [380, 381, 382, 383, 384, 385, 386, 387, 388]"
  "block_states (uri_code_58) = [389, 390, 391, 392, 393, 394, 395, 396, 397]"
  "block_states (uri_code_59) = [398, 399, 400, 401, 402, 403, 404, 405]"
  "block_states (uri_code_60) = [406, 407, 408, 409, 410, 411, 412, 413]"
  "block_states (uri_code_61) = [414, 415, 416, 417, 418, 419, 420, 421]"
  "block_states (uri_code_62) = [422, 423, 424, 425, 426, 427, 428, 429]"
  "block_states (uri_code_63) = [430, 431, 432, 433, 434, 435, 436, 437]"
  "block_states (uri_code_64) = [438, 439, 440, 441, 442, 443, 444, 445]"
  "block_states (uri_code_65) = [446, 447, 448, 449, 450, 542]"
  "block_states (uri_code_66) = [543, 544, 545, 546, 547]"
  "block_states (uri_code_67) = [548, 549, 550, 551, 552]"
  "block_states (uri_code_68) = [553, 554, 555, 556]"
  "block_states (uri_code_69) = [557, 558, 559, 560]"
  by (simp_all only: uri_code_defs block_states.simps)

lemma uri_code_trans:
  "block_trans (uri_code_1) = [467, 469, 474, 485, 489, 493, 548, 559, 563]"
  "block_trans (uri_code_2) = [566, 570, 462, 463]"
  "block_trans (uri_code_3) = [476, 486, 490, 494, 482, 488, 492, 496, 556]"
  "block_trans (uri_code_4) = [562, 565, 569, 573, 466, 468]"
  "block_trans (uri_code_5) = [472]"
  "block_trans (uri_code_6) = [507, 487, 491]"
  "block_trans (uri_code_7) = [473, 475, 481, 499]"
  "block_trans (uri_code_8) = [38, 483, 501]"
  "block_trans (uri_code_9) = [502, 503]"
  "block_trans (uri_code_10) = []"
  "block_trans (uri_code_11) = []"
  "block_trans (uri_code_12) = [504, 506, 505]"
  "block_trans (uri_code_13) = [484]"
  "block_trans (uri_code_14) = []"
  "block_trans (uri_code_15) = []"
  "block_trans (uri_code_16) = []"
  "block_trans (uri_code_17) = []"
  "block_trans (uri_code_18) = []"
  "block_trans (uri_code_19) = []"
  "block_trans (uri_code_20) = []"
  "block_trans (uri_code_21) = []"
  "block_trans (uri_code_22) = []"
  "block_trans (uri_code_23) = []"
  "block_trans (uri_code_24) = []"
  "block_trans (uri_code_25) = []"
  "block_trans (uri_code_26) = []"
  "block_trans (uri_code_27) = []"
  "block_trans (uri_code_28) = []"
  "block_trans (uri_code_29) = []"
  "block_trans (uri_code_30) = []"
  "block_trans (uri_code_31) = []"
  "block_trans (uri_code_32) = [500, 477]"
  "block_trans (uri_code_33) = []"
  "block_trans (uri_code_34) = []"
  "block_trans (uri_code_35) = [478]"
  "block_trans (uri_code_36) = [480, 479, 461]"
  "block_trans (uri_code_37) = [543, 546]"
  "block_trans (uri_code_38) = [550, 567, 560, 571]"
  "block_trans (uri_code_39) = [584, 561, 568]"
  "block_trans (uri_code_40) = [547, 549, 555]"
  "block_trans (uri_code_41) = [576, 263, 557, 578]"
  "block_trans (uri_code_42) = [579, 580]"
  "block_trans (uri_code_43) = []"
  "block_trans (uri_code_44) = []"
  "block_trans (uri_code_45) = [581, 583, 582]"
  "block_trans (uri_code_46) = [558]"
  "block_trans (uri_code_47) = []"
  "block_trans (uri_code_48) = []"
  "block_trans (uri_code_49) = []"
  "block_trans (uri_code_50) = []"
  "block_trans (uri_code_51) = []"
  "block_trans (uri_code_52) = []"
  "block_trans (uri_code_53) = []"
  "block_trans (uri_code_54) = []"
  "block_trans (uri_code_55) = []"
  "block_trans (uri_code_56) = []"
  "block_trans (uri_code_57) = []"
  "block_trans (uri_code_58) = []"
  "block_trans (uri_code_59) = []"
  "block_trans (uri_code_60) = []"
  "block_trans (uri_code_61) = []"
  "block_trans (uri_code_62) = []"
  "block_trans (uri_code_63) = []"
  "block_trans (uri_code_64) = []"
  "block_trans (uri_code_65) = [577, 551]"
  "block_trans (uri_code_66) = []"
  "block_trans (uri_code_67) = []"
  "block_trans (uri_code_68) = [552]"
  "block_trans (uri_code_69) = [554, 553]"
  by (simp_all only: uri_code_defs block_trans.simps)

section \<open>The end of the text\<close>

definition uri_eof_actions :: "int \<Rightarrow> uri_action list" where
  "uri_eof_actions cs =
     (if cs = 462 \<or> cs = 489 then [U_Save_port]
      else if cs = 460 \<or> 463 \<le> cs \<and> cs \<le> 467 \<or> 470 \<le> cs \<and> cs \<le> 488 \<or> 490 \<le> cs \<and> cs \<le> 507 then [U_Save_host]
      else if cs = 513 then [U_Save_path]
      else if cs = 457 then [U_Save_query]
      else if cs = 454 then [U_Save_fragment]
      else if cs = 456 then [U_Mark, U_Save_query]
      else if cs = 453 then [U_Mark, U_Save_fragment]
      else if cs = 461 \<or> cs = 468 then [U_Mark, U_Save_port]
      else if cs = 459 \<or> cs = 469 then [U_Mark, U_Save_host]
      else if cs = 514 \<or> cs = 521 then [U_Mark, U_Save_port, U_Save_path]
      else if cs = 511 \<or> cs = 522 then [U_Mark, U_Save_host, U_Save_path]
      else if cs = 515 \<or> cs = 542 then [U_Save_port, U_Mark, U_Save_path]
      else if cs = 512 \<or> 516 \<le> cs \<and> cs \<le> 520 \<or> 523 \<le> cs \<and> cs \<le> 541 \<or> 543 \<le> cs \<and> cs \<le> 560
        then [U_Save_host, U_Mark, U_Save_path]
      else [])"

text \<open>\<open>None\<close> is the null pointer \<open>Uri::Create\<close> returns for a text it does not take.\<close>

definition uri_parser_start :: int where "uri_parser_start = 451"
definition uri_parser_first_final :: int where "uri_parser_first_final = 451"
definition uri_parser_error :: int where "uri_parser_error = 0"

definition Uri_Create :: "string \<Rightarrow> uri option res" where
  "Uri_Create text =
     (case run_machine uri_code (uri_act text) (\<lambda>a. False) uri_parser_error text 0 uri_parser_start (Inr (empty_uri, None)) of
        (cs, n, r) \<Rightarrow>
          bindE (if n = length text then fold (\<lambda>a. uri_act text a n) (uri_eof_actions cs) r else r) (\<lambda>(u, mark).
            Inr (if cs = uri_parser_error then None else if uri_parser_first_final \<le> cs then Some u else None)))"

end
