(* ===== verification/Uri_Grammar.thy ===== *)
theory Uri_Grammar
  imports Uri_Machine Grammar
begin

text \<open>
  What the URI machine does with the text of a URI that has a scheme and a host, state by state.
\<close>

section \<open>The cases that such a URI visits\<close>

lemma uri_at:
  "state_code uri_code 451 = state_code uri_code_1 451"
  "state_code uri_code 508 = state_code uri_code_37 508"
  "state_code uri_code 509 = state_code uri_code_37 509"
  "state_code uri_code 510 = state_code uri_code_37 510"
  "state_code uri_code 511 = state_code uri_code_37 511"
  "state_code uri_code 521 = state_code uri_code_41 521"
  "state_code uri_code 542 = state_code uri_code_65 542"
  "state_code uri_code 514 = state_code uri_code_39 514"
  "state_code uri_code 515 = state_code uri_code_39 515"
  "state_code uri_code 513 = state_code uri_code_39 513"
  "state_code uri_code 243 = state_code uri_code_39 243"
  "state_code uri_code 244 = state_code uri_code_39 244"
  "state_code uri_code 456 = state_code uri_code_4 456"
  "state_code uri_code 457 = state_code uri_code_4 457"
  "state_code uri_code 7 = state_code uri_code_4 7"
  "state_code uri_code 8 = state_code uri_code_4 8"
  "state_code uri_code 453 = state_code uri_code_2 453"
  "state_code uri_code 454 = state_code uri_code_2 454"
  "state_code uri_code 1 = state_code uri_code_2 1"
  "state_code uri_code 2 = state_code uri_code_2 2"
  "state_code uri_code 520 = state_code uri_code_40 520"
  "state_code uri_code 543 = state_code uri_code_66 543"
  "state_code uri_code 544 = state_code uri_code_66 544"
  "state_code uri_code 545 = state_code uri_code_66 545"
  "state_code uri_code 546 = state_code uri_code_66 546"
  "state_code uri_code 547 = state_code uri_code_66 547"
  "state_code uri_code 548 = state_code uri_code_67 548"
  "state_code uri_code 549 = state_code uri_code_67 549"
  "state_code uri_code 550 = state_code uri_code_67 550"
  "state_code uri_code 551 = state_code uri_code_67 551"
  "state_code uri_code 552 = state_code uri_code_67 552"
  "state_code uri_code 553 = state_code uri_code_68 553"
  "state_code uri_code 554 = state_code uri_code_68 554"
  "state_code uri_code 555 = state_code uri_code_68 555"
  "state_code uri_code 556 = state_code uri_code_68 556"
  "state_code uri_code 557 = state_code uri_code_69 557"
  "state_code uri_code 558 = state_code uri_code_69 558"
  "state_code uri_code 559 = state_code uri_code_69 559"
  "state_code uri_code 560 = state_code uri_code_69 560"
  "state_code uri_code 522 = state_code uri_code_41 522"
  "state_code uri_code 523 = state_code uri_code_42 523"
  "state_code uri_code 524 = state_code uri_code_42 524"
  "state_code uri_code 525 = state_code uri_code_42 525"
  "state_code uri_code 526 = state_code uri_code_42 526"
  "state_code uri_code 527 = state_code uri_code_43 527"
  "state_code uri_code 528 = state_code uri_code_43 528"
  "state_code uri_code 529 = state_code uri_code_43 529"
  "state_code uri_code 530 = state_code uri_code_43 530"
  "state_code uri_code 531 = state_code uri_code_43 531"
  "state_code uri_code 532 = state_code uri_code_44 532"
  "state_code uri_code 533 = state_code uri_code_44 533"
  "state_code uri_code 534 = state_code uri_code_44 534"
  "state_code uri_code 535 = state_code uri_code_44 535"
  "state_code uri_code 536 = state_code uri_code_44 536"
  "state_code uri_code 537 = state_code uri_code_45 537"
  "state_code uri_code 538 = state_code uri_code_45 538"
  "state_code uri_code 539 = state_code uri_code_45 539"
  "state_code uri_code 540 = state_code uri_code_45 540"
  "state_code uri_code 541 = state_code uri_code_46 541"
  by (simp_all add: uri_code_def code_lookup uri_code_states uri_code_trans)

lemma uri_trans:
  "trans_code uri_code 263 = Some ([U_Save_userinfo], 522)"
  "trans_code uri_code 461 = Some ([U_Mark], 508)"
  "trans_code uri_code 462 = Some ([U_Mark], 454)"
  "trans_code uri_code 463 = Some ([U_Mark], 1)"
  "trans_code uri_code 466 = Some ([U_Mark], 457)"
  "trans_code uri_code 467 = Some ([U_Mark, U_Save_query], 453)"
  "trans_code uri_code 468 = Some ([U_Mark], 7)"
  "trans_code uri_code 469 = Some ([U_Save_query], 453)"
  "trans_code uri_code 543 = Some ([U_Save_scheme], 509)"
  "trans_code uri_code 546 = Some ([U_Mark], 229)"
  "trans_code uri_code 547 = Some ([U_Mark], 520)"
  "trans_code uri_code 548 = Some ([U_Mark, U_Save_host, U_Save_path], 453)"
  "trans_code uri_code 549 = Some ([U_Mark], 253)"
  "trans_code uri_code 550 = Some ([U_Mark, U_Save_host], 513)"
  "trans_code uri_code 551 = Some ([U_Mark], 543)"
  "trans_code uri_code 552 = Some ([U_Mark], 557)"
  "trans_code uri_code 553 = Some ([U_Mark], 559)"
  "trans_code uri_code 554 = Some ([U_Mark], 558)"
  "trans_code uri_code 555 = Some ([U_Mark, U_Save_host], 521)"
  "trans_code uri_code 556 = Some ([U_Mark, U_Save_host, U_Save_path], 456)"
  "trans_code uri_code 557 = Some ([U_Mark, U_Save_userinfo], 522)"
  "trans_code uri_code 558 = Some ([U_Mark], 260)"
  "trans_code uri_code 559 = Some ([U_Save_host, U_Mark, U_Save_path], 453)"
  "trans_code uri_code 560 = Some ([U_Save_host, U_Mark], 513)"
  "trans_code uri_code 561 = Some ([U_Save_host], 514)"
  "trans_code uri_code 562 = Some ([U_Save_host, U_Mark, U_Save_path], 456)"
  "trans_code uri_code 563 = Some ([U_Save_path], 453)"
  "trans_code uri_code 565 = Some ([U_Save_path], 456)"
  "trans_code uri_code 566 = Some ([U_Mark, U_Save_port, U_Save_path], 453)"
  "trans_code uri_code 567 = Some ([U_Mark, U_Save_port], 513)"
  "trans_code uri_code 568 = Some ([U_Mark], 515)"
  "trans_code uri_code 569 = Some ([U_Mark, U_Save_port, U_Save_path], 456)"
  "trans_code uri_code 570 = Some ([U_Save_port, U_Mark, U_Save_path], 453)"
  "trans_code uri_code 571 = Some ([U_Save_port, U_Mark], 513)"
  "trans_code uri_code 573 = Some ([U_Save_port, U_Mark, U_Save_path], 456)"
  "trans_code uri_code 576 = Some ([U_Save_host], 521)"
  "trans_code uri_code 577 = Some ([U_Mark], 542)"
  "trans_code uri_code 578 = Some ([U_Mark], 523)"
  "trans_code uri_code 579 = Some ([U_Mark], 258)"
  "trans_code uri_code 580 = Some ([U_Mark], 524)"
  "trans_code uri_code 581 = Some ([U_Mark], 538)"
  "trans_code uri_code 582 = Some ([U_Mark], 540)"
  "trans_code uri_code 583 = Some ([U_Mark], 539)"
  "trans_code uri_code 584 = Some ([U_Mark, U_Save_host], 514)"
  by (simp_all add: uri_code_def code_lookup uri_code_states uri_code_trans) (simp_all only: uri_code_defs code_find)

lemmas uri_find = next_state_def uri_at code_find
  uri_code_1_def uri_code_2_def uri_code_3_def uri_code_4_def uri_code_36_def uri_code_37_def uri_code_38_def
  uri_code_39_def uri_code_40_def uri_code_41_def uri_code_42_def uri_code_43_def uri_code_44_def
  uri_code_45_def uri_code_46_def uri_code_65_def uri_code_66_def uri_code_67_def uri_code_68_def
  uri_code_69_def

lemmas uri_step = code_step uri_trans

text \<open>The characters of a host or user, of a path, of a query or fragment, and of a scheme.\<close>

definition host_char :: "char \<Rightarrow> bool" where
  "host_char ch \<longleftrightarrow> uri_char ch \<and> char_val ch \<notin> {47, 58, 64}"

definition path_char :: "char \<Rightarrow> bool" where
  "path_char ch \<longleftrightarrow> uri_char ch \<or> char_val ch < 0"

definition tail_char :: "char \<Rightarrow> bool" where
  "tail_char ch \<longleftrightarrow> path_char ch \<or> char_val ch = 63"

definition alpha_char :: "char \<Rightarrow> bool" where
  "alpha_char ch \<longleftrightarrow> (let c = char_val ch in 65 \<le> c \<and> c \<le> 90 \<or> 97 \<le> c \<and> c \<le> 122)"

definition scheme_char :: "char \<Rightarrow> bool" where
  "scheme_char ch \<longleftrightarrow> alpha_char ch \<or> digit_char ch \<or> char_val ch \<in> {43, 45, 46}"

lemma host_charE:
  assumes "host_char ch"
  obtains "char_val ch = 33" | "char_val ch = 36" | "char_val ch = 61" | "char_val ch = 95" | "char_val ch = 126" | "char_val ch = 59"
    | "char_val ch = 46" | "38 \<le> char_val ch" "char_val ch \<le> 45" | "48 \<le> char_val ch" "char_val ch \<le> 57"
    | "65 \<le> char_val ch" "char_val ch \<le> 90" | "97 \<le> char_val ch" "char_val ch \<le> 122"
proof -
  have c: "uri_char ch" "char_val ch \<noteq> 47" "char_val ch \<noteq> 58" "char_val ch \<noteq> 64" using assms by (auto simp: host_char_def)
  show ?thesis by (rule uri_charE [OF c(1)]) (use c that in \<open>(force | linarith)+\<close>)
qed

text \<open>The states in a host, and in a host behind a user: which one tells how much of an IPv4 address it is.\<close>

definition host_states :: "int list" where
  "host_states = [520, 543, 544, 545, 546, 547, 548, 549, 550, 551, 552, 553, 554, 555, 556, 557, 558, 559, 560]"

definition user_host_states :: "int list" where
  "user_host_states = [523, 524, 525, 526, 527, 528, 529, 530, 531, 532, 533, 534, 535, 536, 537, 538, 539, 540, 541]"

definition stays :: "int list \<Rightarrow> uri_action list \<Rightarrow> int \<Rightarrow> char \<Rightarrow> bool" where
  "stays S acts s ch \<longleftrightarrow> (case next_state uri_code s ch of None \<Rightarrow> False | Some (acts', n) \<Rightarrow> acts' = acts \<and> n \<in> set S)"

lemma host_steps:
  assumes "host_char ch"
  shows "stays host_states [U_Mark] 511 ch" "list_all (\<lambda>s. stays host_states [] s ch) host_states"
    "stays user_host_states [U_Mark] 522 ch" "list_all (\<lambda>s. stays user_host_states [] s ch) user_host_states"
  by (simp_all only: stays_def host_states_def user_host_states_def list.pred_inject uri_find option.case)
    (rule host_charE [OF assms]; simp add: uri_step)+

lemma scheme_steps:
  "alpha_char ch \<Longrightarrow> next_state uri_code 451 ch = Some ([U_Mark], 508)"
  "scheme_char ch \<Longrightarrow> next_state uri_code 508 ch = Some ([], 508)"
  "next_state uri_code 508 (CHR '':'') = Some ([U_Save_scheme], 509)"
  "next_state uri_code 509 (CHR ''/'') = Some ([], 510)" "next_state uri_code 510 (CHR ''/'') = Some ([], 511)"
  by (simp_all only: uri_find) (auto simp: uri_step scheme_char_def alpha_char_def digit_char_def Let_def)

lemma host_ends:
  "list_all (\<lambda>s. next_state uri_code s (CHR '':'') = Some ([U_Save_host], 521)) host_states"
  "list_all (\<lambda>s. next_state uri_code s (CHR ''@'') = Some ([U_Save_userinfo], 522)) host_states"
  "list_all (\<lambda>s. next_state uri_code s (CHR '':'') = Some ([U_Save_host], 514)) user_host_states"
  by (simp_all only: host_states_def user_host_states_def list.pred_inject uri_find) (simp_all add: uri_step char_val_def)

lemma port_steps:
  assumes "digit_char ch" and "(s, s') = (521, 542) \<or> (s, s') = (514, 515)"
  shows "next_state uri_code s ch = Some ([U_Mark], s')" "next_state uri_code s' ch = Some ([], s')"
  using assms by (auto simp only: uri_find prod.inject) (auto simp: uri_step digit_char_def)

text \<open>
  Where the authority ends, with the actions that end it: the host or the port is saved and the path
  begins, but the mark of an empty port is cleared last.
\<close>

definition authority_end :: "int \<Rightarrow> uri_action list \<Rightarrow> bool" where
  "authority_end s acts \<longleftrightarrow>
     s \<in> set (host_states @ user_host_states) \<and> acts = [U_Save_host, U_Mark]
     \<or> s \<in> {542, 515} \<and> acts = [U_Save_port, U_Mark] \<or> s \<in> {521, 514} \<and> acts = [U_Mark, U_Save_port]"

lemma authority_steps:
  assumes "authority_end s acts"
  shows "next_state uri_code s (CHR ''/'') = Some (acts, 513)"
    "next_state uri_code s (CHR ''?'') = Some (acts @ [U_Save_path], 456)"
    "next_state uri_code s (CHR ''#'') = Some (acts @ [U_Save_path], 453)"
    "uri_eof_actions s = acts @ [U_Save_path]" "451 \<le> s"
proof -
  let ?ok = "\<lambda>acts s. next_state uri_code s (CHR ''/'') = Some (acts, 513)
    \<and> next_state uri_code s (CHR ''?'') = Some (acts @ [U_Save_path], 456)
    \<and> next_state uri_code s (CHR ''#'') = Some (acts @ [U_Save_path], 453) \<and> uri_eof_actions s = acts @ [U_Save_path] \<and> 451 \<le> s"
  have "list_all (?ok [U_Save_host, U_Mark]) (host_states @ user_host_states)"
    by (simp only: host_states_def user_host_states_def append.simps list.pred_inject uri_find) (simp add: uri_step uri_eof_actions_def)
  moreover have "list_all (?ok [U_Save_port, U_Mark]) [542, 515]" "list_all (?ok [U_Mark, U_Save_port]) [521, 514]"
    by (simp_all only: list.pred_inject uri_find) (simp_all add: uri_step uri_eof_actions_def)
  ultimately have "?ok acts s" using assms unfolding authority_end_def list_all_iff by fastforce
  then show "next_state uri_code s (CHR ''/'') = Some (acts, 513)"
    "next_state uri_code s (CHR ''?'') = Some (acts @ [U_Save_path], 456)"
    "next_state uri_code s (CHR ''#'') = Some (acts @ [U_Save_path], 453)"
    "uri_eof_actions s = acts @ [U_Save_path]" "451 \<le> s" by simp_all
qed

lemma path_steps:
  assumes "path_char ch"
  shows "next_state uri_code 513 ch = Some ([], 513)" "next_state uri_code 457 ch = Some ([], 457)"
    "next_state uri_code 456 ch = Some ([U_Mark], 457)" "next_state uri_code 454 ch = Some ([], 454)"
    "next_state uri_code 453 ch = Some ([U_Mark], 454)"
proof -
  have "(of_char ch :: int) = int (of_char ch)" by (simp only: of_nat_of_char)
  then have lo: "-128 \<le> char_val ch" by (simp add: char_val_def Let_def)
  have "char_val ch < 0 \<or> uri_char ch" using assms by (auto simp: path_char_def)
  then show "next_state uri_code 513 ch = Some ([], 513)" "next_state uri_code 457 ch = Some ([], 457)"
    "next_state uri_code 456 ch = Some ([U_Mark], 457)" "next_state uri_code 454 ch = Some ([], 454)"
    "next_state uri_code 453 ch = Some ([U_Mark], 454)"
    using lo by (simp_all only: uri_find) (elim disjE uri_charE; simp add: uri_step)+
qed

lemma uri_question_steps:
  assumes "char_val ch = 63"
  shows "next_state uri_code 457 ch = Some ([], 457)" "next_state uri_code 456 ch = Some ([U_Mark], 457)"
    "next_state uri_code 454 ch = Some ([], 454)" "next_state uri_code 453 ch = Some ([U_Mark], 454)"
  by (simp_all only: uri_find) (simp_all add: uri_step assms)

lemma tail_ends:
  "next_state uri_code 513 (CHR ''?'') = Some ([U_Save_path], 456)" "next_state uri_code 513 (CHR ''#'') = Some ([U_Save_path], 453)"
  "next_state uri_code 457 (CHR ''#'') = Some ([U_Save_query], 453)"
  "uri_eof_actions 513 = [U_Save_path]" "uri_eof_actions 457 = [U_Save_query]" "uri_eof_actions 454 = [U_Save_fragment]"
  by (simp_all only: uri_find) (simp_all add: uri_step uri_eof_actions_def)

lemma uri_percent_steps:
  "next_state uri_code 513 (CHR ''%'') = Some ([], 243)" "next_state uri_code 457 (CHR ''%'') = Some ([], 7)"
  "next_state uri_code 456 (CHR ''%'') = Some ([U_Mark], 7)" "next_state uri_code 454 (CHR ''%'') = Some ([], 1)"
  "next_state uri_code 453 (CHR ''%'') = Some ([U_Mark], 1)"
  by (simp_all only: uri_find) (simp_all add: uri_step)

lemma uri_hex_steps:
  assumes "hex_char ch"
  shows "next_state uri_code 243 ch = Some ([], 244)" "next_state uri_code 244 ch = Some ([], 513)"
    "next_state uri_code 7 ch = Some ([], 8)" "next_state uri_code 8 ch = Some ([], 457)"
    "next_state uri_code 1 ch = Some ([], 2)" "next_state uri_code 2 ch = Some ([], 454)"
  by (simp_all only: uri_find) (rule hex_charE [OF assms]; simp add: uri_step)+

end
