(* ===== verification/Uri_Texts.thy ===== *)
theory Uri_Texts
  imports Uri_Grammar
begin

text \<open>
  The texts of URIs with a scheme and a host, read by \<open>Uri::Create\<close>: which fields they get, and that
  an empty port makes the reading throw.
\<close>

section \<open>Traces\<close>

abbreviation never :: "uri_action \<Rightarrow> bool" where
  "never \<equiv> \<lambda>a. False"

lemma list_ex_never [simp]: "\<not> list_ex never acts"
  by (induction acts) simp_all

lemma trace_scheme:
  assumes "scheme \<noteq> []" and "alpha_char (hd scheme)" and "list_all scheme_char (tl scheme)"
  shows "trace uri_code never (scheme @ ''://'') 0 451 = Some (511, [(U_Mark, 0), (U_Save_scheme, length scheme)])"
proof -
  obtain c cs where s: "scheme = c # cs" "alpha_char c" "list_all scheme_char cs" using assms by (cases scheme) auto
  have "trace uri_code never cs 1 508 = Some (508, [])"
    using s(3) by (intro trace_self) (auto simp: list_all_iff scheme_steps)
  then have "trace uri_code never (cs @ ''://'') 1 508 = Some (511, [] @ [(U_Save_scheme, 1 + length cs)])"
    by (rule trace_append) (simp add: scheme_steps)
  then show ?thesis using s(2) by (simp add: s(1) scheme_steps)
qed

lemma trace_stays:
  assumes "stays S [U_Mark] a (hd host)" and "\<And>ch. ch \<in> set host \<Longrightarrow> list_all (\<lambda>s. stays S [] s ch) S"
    and "host \<noteq> []" and "0 \<notin> set S"
  shows "\<exists>s \<in> set S. trace uri_code never host p a = Some (s, [(U_Mark, p)])"
proof -
  obtain c cs where h: "host = c # cs" using assms(3) by (cases host) auto
  obtain s where s: "s \<in> set S" "next_state uri_code a c = Some ([U_Mark], s)"
    using assms(1) by (auto simp: h stays_def split: option.splits)
  have "\<exists>s' \<in> set S. trace uri_code never cs (p + 1) s = Some (s', [])"
  proof (rule trace_loop [OF _ s(1) assms(4)])
    fix t ch
    assume "t \<in> set S" "ch \<in> set cs"
    then show "\<exists>s' \<in> set S. next_state uri_code t ch = Some ([], s')"
      using assms(2) [of ch] by (auto simp: h list_all_iff stays_def split: option.splits)
  qed
  then show ?thesis using s assms(4) by (auto simp: h)
qed

lemma trace_host:
  assumes "host \<noteq> []" and "list_all host_char host"
  shows "\<exists>s \<in> set host_states. trace uri_code never host p 511 = Some (s, [(U_Mark, p)])"
    and "\<exists>s \<in> set user_host_states. trace uri_code never host p 522 = Some (s, [(U_Mark, p)])"
proof -
  have all: "host_char ch" if "ch \<in> set host" for ch using assms(2) that by (simp add: list_all_iff)
  have hd: "host_char (hd host)" using all [OF hd_in_set [OF assms(1)]] .
  show "\<exists>s \<in> set host_states. trace uri_code never host p 511 = Some (s, [(U_Mark, p)])"
    by (rule trace_stays [OF host_steps(1) [OF hd] host_steps(2) [OF all] assms(1)]) (simp_all add: host_states_def)
  show "\<exists>s \<in> set user_host_states. trace uri_code never host p 522 = Some (s, [(U_Mark, p)])"
    by (rule trace_stays [OF host_steps(3) [OF hd] host_steps(4) [OF all] assms(1)]) (simp_all add: user_host_states_def)
qed

definition user_part :: "string \<Rightarrow> string" where
  "user_part user = (if user = [] then [] else user @ ''@'')"

definition user_trace :: "nat \<Rightarrow> string \<Rightarrow> (uri_action \<times> nat) list" where
  "user_trace p user = (if user = [] then [] else [(U_Mark, p), (U_Save_userinfo, p + length user)])"

text \<open>The states that are left by a colon to the state of an empty port, with the one of its digits.\<close>

definition before_port :: "int \<Rightarrow> int \<Rightarrow> int \<Rightarrow> bool" where
  "before_port s e d \<longleftrightarrow> s \<in> set host_states \<and> (e, d) = (521, 542) \<or> s \<in> set user_host_states \<and> (e, d) = (514, 515)"

lemma trace_user_host:
  assumes "list_all host_char user" and "host \<noteq> []" and "list_all host_char host"
  shows "\<exists>s e d. before_port s e d
    \<and> trace uri_code never (user_part user @ host) p 511 = Some (s, user_trace p user @ [(U_Mark, p + length (user_part user))])"
proof (cases "user = []")
  case True
  then show ?thesis using trace_host(1) [OF assms(2,3), of p] by (auto simp: user_part_def user_trace_def before_port_def)
next
  case False
  obtain s where s: "s \<in> set host_states" "trace uri_code never user p 511 = Some (s, [(U_Mark, p)])"
    using trace_host(1) [OF False assms(1)] by blast
  have "next_state uri_code s (CHR ''@'') = Some ([U_Save_userinfo], 522)" using host_ends(2) s(1) by (simp add: list_all_iff)
  then have user: "trace uri_code never (user @ ''@'') p 511 = Some (522, [(U_Mark, p)] @ [(U_Save_userinfo, p + length user)])"
    by (intro trace_append [OF s(2)]) simp
  obtain s' where s': "s' \<in> set user_host_states" "trace uri_code never host (p + length (user @ ''@'')) 522 = Some (s', [(U_Mark, p + length (user @ ''@''))])"
    using trace_host(2) [OF assms(2,3)] by blast
  from trace_append [OF user s'(2)] show ?thesis using False s'(1) by (auto simp: user_part_def user_trace_def before_port_def)
qed

definition tail_text :: "string \<Rightarrow> string \<Rightarrow> string \<Rightarrow> string" where
  "tail_text path query fragment =
     path @ (if query = [] then [] else ''?'' @ query) @ (if fragment = [] then [] else ''#'' @ fragment)"

definition good_tail :: "string \<Rightarrow> string \<Rightarrow> string \<Rightarrow> bool" where
  "good_tail path query fragment \<longleftrightarrow>
     (path \<noteq> [] \<longrightarrow> hd path = CHR ''/'') \<and> pct_text path_char path \<and> pct_text tail_char query \<and> pct_text tail_char fragment"

text \<open>The whole of the actions from the end of the authority to the end of the text.\<close>

definition tail_trace :: "nat \<Rightarrow> uri_action list \<Rightarrow> string \<Rightarrow> string \<Rightarrow> string \<Rightarrow> (uri_action \<times> nat) list" where
  "tail_trace p acts path query fragment =
     (let q = p + length path; f = q + (if query = [] then 0 else length query + 1) in
      map (\<lambda>a. (a, p)) acts @ [(U_Save_path, q)]
      @ (if query = [] then [] else [(U_Mark, q + 1), (U_Save_query, q + 1 + length query)])
      @ (if fragment = [] then [] else [(U_Mark, f + 1), (U_Save_fragment, f + 1 + length fragment)]))"

definition reads :: "string \<Rightarrow> nat \<Rightarrow> int \<Rightarrow> (uri_action \<times> nat) list \<Rightarrow> bool" where
  "reads text p s tr \<longleftrightarrow>
     (\<exists>s' tr'. trace uri_code never text p s = Some (s', tr') \<and> 451 \<le> s'
        \<and> tr = tr' @ map (\<lambda>a. (a, p + length text)) (uri_eof_actions s'))"

lemma reads_append:
  assumes "trace uri_code never xs p s = Some (s1, t1)" and "reads ys (p + length xs) s1 t2"
  shows "reads (xs @ ys) p s (t1 @ t2)"
  using assms(2) trace_append [OF assms(1)] unfolding reads_def by (fastforce simp: add.assoc)

lemma tail_char_steps:
  assumes "tail_char ch"
  shows "next_state uri_code 457 ch = Some ([], 457)" "next_state uri_code 456 ch = Some ([U_Mark], 457)"
    "next_state uri_code 454 ch = Some ([], 454)" "next_state uri_code 453 ch = Some ([U_Mark], 454)"
  using assms by (auto simp: tail_char_def path_steps uri_question_steps)

lemma trace_fragment:
  assumes "pct_text tail_char fragment" and "fragment \<noteq> []"
  shows "reads fragment p 453 [(U_Mark, p), (U_Save_fragment, p + length fragment)]"
proof -
  have "trace uri_code never fragment p 453 = Some (454, map (\<lambda>x. (x, p)) [U_Mark])"
    by (rule trace_pct_from [where good = tail_char and b = 1 and b' = 2])
      (use assms in \<open>simp_all add: tail_char_steps uri_percent_steps uri_hex_steps\<close>)
  then show ?thesis by (simp add: reads_def tail_ends)
qed

text \<open>A query, or the end of a path.\<close>

lemma reads_tail:
  assumes "\<And>c n. (c, n) \<in> {(CHR ''?'', 456), (CHR ''#'', 453)} \<Longrightarrow> next_state uri_code s c = Some (acts @ [U_Save_path], n)"
    and "uri_eof_actions s = acts @ [U_Save_path]" and "451 \<le> s" and "pct_text tail_char query" and "pct_text tail_char fragment"
  shows "reads (tail_text [] query fragment) p s (tail_trace p acts [] query fragment)"
proof (cases "query = []")
  case True
  show ?thesis
  proof (cases "fragment = []")
    case True
    then show ?thesis using \<open>query = []\<close> assms(2,3) by (simp add: reads_def tail_text_def tail_trace_def)
  next
    case False
    have "trace uri_code never ''#'' p s = Some (453, map (\<lambda>a. (a, p)) (acts @ [U_Save_path]))"
      using assms(1) [of "CHR ''#''" 453] by simp
    from reads_append [OF this trace_fragment [OF assms(5) False]] show ?thesis
      using False \<open>query = []\<close> by (simp add: tail_text_def tail_trace_def)
  qed
next
  case False
  have "trace uri_code never query (p + 1) 456 = Some (457, map (\<lambda>x. (x, p + 1)) [U_Mark])"
    by (rule trace_pct_from [where good = tail_char and b = 7 and b' = 8])
      (use False assms(4) in \<open>simp_all add: tail_char_steps uri_percent_steps uri_hex_steps\<close>)
  then have q: "trace uri_code never (CHR ''?'' # query) p s
      = Some (457, map (\<lambda>a. (a, p)) (acts @ [U_Save_path]) @ [(U_Mark, p + 1)])"
    using assms(1) [of "CHR ''?''" 456] by simp
  show ?thesis
  proof (cases "fragment = []")
    case True
    then show ?thesis using q False by (simp add: reads_def tail_text_def tail_trace_def tail_ends)
  next
    case fr: False
    have "trace uri_code never ''#'' (p + length (CHR ''?'' # query)) 457 = Some (453, [(U_Save_query, p + 1 + length query)])"
      by (simp add: tail_ends)
    from reads_append [OF trace_append [OF q this] trace_fragment [OF assms(5) fr]] show ?thesis
      using False fr by (simp add: tail_text_def tail_trace_def)
  qed
qed

lemma reads_path:
  assumes "authority_end s acts" and "good_tail path query fragment"
  shows "reads (tail_text path query fragment) p s (tail_trace p acts path query fragment)"
proof -
  note good = assms(2) [unfolded good_tail_def]
  note ends = authority_steps [OF assms(1)]
  show ?thesis
  proof (cases path)
    case Nil
    show ?thesis unfolding Nil by (rule reads_tail) (use ends good in auto)
  next
    case (Cons c ps)
    then have c: "c = CHR ''/''" "pct_text path_char ps" using good by auto
    have "trace uri_code never ps (p + 1) 513 = Some (513, [])"
      by (rule trace_pct [where good = path_char and b = 243 and b' = 244])
        (use c(2) in \<open>simp_all add: path_steps uri_percent_steps uri_hex_steps\<close>)
    then have path: "trace uri_code never path p s = Some (513, map (\<lambda>a. (a, p)) acts)" using ends(1) by (simp add: Cons c(1))
    have "reads (tail_text [] query fragment) (p + length path) 513 (tail_trace (p + length path) [] [] query fragment)"
      by (rule reads_tail) (use good in \<open>auto simp: tail_ends\<close>)
    from reads_append [OF path this] show ?thesis by (simp add: tail_text_def tail_trace_def Let_def)
  qed
qed

section \<open>The fields\<close>

definition front_text :: "string \<Rightarrow> string \<Rightarrow> string \<Rightarrow> string" where
  "front_text scheme user host = scheme @ ''://'' @ user_part user @ host"

definition good_front :: "string \<Rightarrow> string \<Rightarrow> string \<Rightarrow> bool" where
  "good_front scheme user host \<longleftrightarrow>
     scheme \<noteq> [] \<and> alpha_char (hd scheme) \<and> list_all scheme_char (tl scheme)
     \<and> list_all host_char user \<and> host \<noteq> [] \<and> list_all host_char host"

definition front_trace :: "string \<Rightarrow> string \<Rightarrow> (uri_action \<times> nat) list" where
  "front_trace scheme user =
     [(U_Mark, 0), (U_Save_scheme, length scheme)] @ user_trace (length scheme + 3) user
     @ [(U_Mark, length scheme + 3 + length (user_part user))]"

lemma trace_front:
  assumes "good_front scheme user host"
  shows "\<exists>s e d. before_port s e d \<and> trace uri_code never (front_text scheme user host) 0 451 = Some (s, front_trace scheme user)"
proof -
  note good = assms [unfolded good_front_def]
  have len: "0 + length (scheme @ ''://'') = length scheme + 3" by simp
  have scheme: "trace uri_code never (scheme @ ''://'') 0 451 = Some (511, [(U_Mark, 0), (U_Save_scheme, length scheme)])"
    using good by (intro trace_scheme) simp_all
  obtain s e d where s: "before_port s e d" "trace uri_code never (user_part user @ host) (0 + length (scheme @ ''://'')) 511
      = Some (s, user_trace (length scheme + 3) user @ [(U_Mark, length scheme + 3 + length (user_part user))])"
    using trace_user_host [of user host "0 + length (scheme @ ''://'')"] good len by (metis (no_types, lifting))
  from trace_append [OF scheme s(2)] show ?thesis using s(1) by (auto simp: front_text_def front_trace_def)
qed

lemma Uri_Create_reads:
  assumes "reads text 0 451 tr"
  shows "Uri_Create text = bindE (perform (uri_act text) tr (Inr (empty_uri, None))) (\<lambda>(u, mark). Inr (Some u))"
proof -
  obtain s' tr' where s': "trace uri_code never text 0 451 = Some (s', tr')" "451 \<le> s'"
    "tr = tr' @ map (\<lambda>a. (a, length text)) (uri_eof_actions s')"
    using assms by (auto simp: reads_def)
  have run: "run_machine uri_code (uri_act text) never uri_parser_error text 0 uri_parser_start (Inr (empty_uri, None))
      = (s', length text, perform (uri_act text) tr' (Inr (empty_uri, None)))"
    using run_trace [OF s'(1), of "uri_act text" uri_parser_error "[]"] by (simp add: uri_parser_start_def)
  show ?thesis unfolding Uri_Create_def run using s'(2)
    by (simp add: s'(3) perform_at uri_parser_error_def uri_parser_first_final_def case_prod_unfold)
qed

lemma perform_saves [simp]:
  "uri_act text a p (Inl e) = Inl e" "uri_act text a p (Inr r) = uri_save text a p r"
  by (simp_all add: uri_act_def)

lemma perform_then: "perform act t1 r = r1 \<Longrightarrow> perform act (t1 @ t2) r = perform act t2 r1"
  by simp

lemma perform_stops: "perform (uri_act text) tr (Inl e) = Inl e"
  by (induction tr) (auto simp: perform_def)

lemma from_mark_slice: "text = pre @ xs @ post \<Longrightarrow> length pre = m \<Longrightarrow> p = m + length xs \<Longrightarrow> from_mark text (Some m) p = Inr xs"
  by (simp add: from_mark_def)

lemma perform_front:
  assumes "text = front_text scheme user host @ post" and "p = length (front_text scheme user host)"
  shows "perform (uri_act text) (front_trace scheme user @ [(U_Save_host, p)]) (Inr (empty_uri, None))
    = Inr (empty_uri\<lparr>u_scheme := scheme, u_userinfo := user, u_host := host\<rparr>, Some (p - length host))"
proof -
  have 1: "from_mark text (Some 0) (length scheme) = Inr scheme"
    by (rule from_mark_slice [of _ "[]" _ "''://'' @ user_part user @ host @ post"]) (simp_all add: assms(1) front_text_def)
  have 2: "from_mark text (Some (length scheme + 3)) (length scheme + 3 + length user) = Inr user" if "user \<noteq> []"
    by (rule from_mark_slice [of _ "scheme @ ''://''" _ "''@'' @ host @ post"])
      (use that in \<open>simp_all add: assms(1) front_text_def user_part_def\<close>)
  have 3: "from_mark text (Some (length scheme + 3 + length (user_part user))) p = Inr host"
    by (rule from_mark_slice [of _ "scheme @ ''://'' @ user_part user" _ post]) (simp_all add: assms front_text_def)
  have p: "p - length host = length scheme + 3 + length (user_part user)" using assms(2) by (simp add: front_text_def)
  show ?thesis
  proof (cases "user = []")
    case True
    then show ?thesis using 1 3 p by (simp add: front_trace_def user_trace_def empty_uri_def)
  next
    case False
    then show ?thesis using 1 2 [OF False] 3 p by (simp add: front_trace_def user_trace_def)
  qed
qed

lemma perform_tail:
  assumes "text = pre @ tail_text path query fragment" and "length pre = p"
  shows "perform (uri_act text) (tail_trace p [] path query fragment) (Inr (u, Some p))
    = Inr (u\<lparr>u_path := path, u_query := (if query = [] then u_query u else query),
        u_fragment := (if fragment = [] then u_fragment u else fragment)\<rparr>, None)"
proof -
  let ?q = "if query = [] then [] else ''?'' @ query" and ?f = "if fragment = [] then [] else ''#'' @ fragment"
  have 1: "from_mark text (Some p) (p + length path) = Inr path"
    by (rule from_mark_slice [of _ pre _ "?q @ ?f"]) (use assms in \<open>simp_all add: tail_text_def\<close>)
  have 2: "from_mark text (Some (p + length path + 1)) (p + length path + 1 + length query) = Inr query" if "query \<noteq> []"
    by (rule from_mark_slice [of _ "pre @ path @ ''?''" _ ?f]) (use assms that in \<open>simp_all add: tail_text_def\<close>)
  have 3: "from_mark text (Some (p + length path + length ?q + 1)) (p + length path + length ?q + 1 + length fragment) = Inr fragment"
    if "fragment \<noteq> []"
    by (rule from_mark_slice [of _ "pre @ path @ ?q @ ''#''" _ "[]"]) (use assms that in \<open>simp_all add: tail_text_def\<close>)
  show ?thesis using 1 2 3 by (cases "query = []"; cases "fragment = []") (simp_all add: tail_trace_def Let_def)
qed

text \<open>A port as it is printed, or none.\<close>

definition port_part :: "nat option \<Rightarrow> string" where
  "port_part port = (case port of None \<Rightarrow> [] | Some n \<Rightarrow> CHR '':'' # dec_digits n)"

lemma front_colon:
  assumes "good_front scheme user host"
  shows "\<exists>e d. (e, d) \<in> {(521::int, 542::int), (514, 515)} \<and> trace uri_code never (front_text scheme user host @ '':'') 0 451
    = Some (e, front_trace scheme user @ [(U_Save_host, length (front_text scheme user host))])"
proof -
  obtain s e d where s: "before_port s e d" "trace uri_code never (front_text scheme user host) 0 451 = Some (s, front_trace scheme user)"
    using trace_front [OF assms] by blast
  have "(e, d) \<in> {(521, 542), (514, 515)}" "next_state uri_code s (CHR '':'') = Some ([U_Save_host], e)" "e \<noteq> 0"
    using s(1) host_ends(1,3) by (auto simp: before_port_def list_all_iff)
  then show ?thesis using trace_append [OF s(2), of "'':''"] by (intro exI [of _ e] exI [of _ d]) simp
qed

lemma trace_port:
  assumes "(e, d) \<in> {(521, 542), (514, 515)}"
  shows "trace uri_code never (dec_digits n) p e = Some (d, [(U_Mark, p)])"
proof -
  obtain c cs where cs: "dec_digits n = c # cs" "digit_char c" "list_all digit_char cs"
    using dec_digits_chars [of n] by (cases "dec_digits n") auto
  have ed: "(e, d) = (521, 542) \<or> (e, d) = (514, 515)" using assms by auto
  then have "d \<noteq> 0" by auto
  have "trace uri_code never cs (p + 1) d = Some (d, [])"
    using cs(3) \<open>d \<noteq> 0\<close> by (intro trace_self) (auto simp: list_all_iff port_steps(2) [OF _ ed])
  then show ?thesis using port_steps(1) [OF cs(2) ed] \<open>d \<noteq> 0\<close> by (simp add: cs(1))
qed

lemma tail_starts: "good_tail path query fragment \<Longrightarrow> number_ends (tail_text path query fragment)"
  by (cases path) (auto simp: good_tail_def number_ends_def tail_text_def digit_value_def)

lemma tail_trace_acts: "tail_trace p acts path query fragment = map (\<lambda>a. (a, p)) acts @ tail_trace p [] path query fragment"
  by (simp add: tail_trace_def Let_def)

lemma uri_read:
  assumes "good_front scheme user host" and "good_tail path query fragment"
    and "case port of None \<Rightarrow> True | Some n \<Rightarrow> n < 2 ^ 31"
  shows "Uri_Create (front_text scheme user host @ port_part port @ tail_text path query fragment) =
    Inr (Some \<lparr>u_scheme = scheme, u_userinfo = user, u_host = host,
       u_port = (case port of None \<Rightarrow> 0 | Some n \<Rightarrow> word_of_nat n), u_path = path, u_query = query, u_fragment = fragment\<rparr>)"
proof (cases port)
  case None
  let ?front = "front_text scheme user host" and ?tail = "tail_text path query fragment"
  obtain s e d where s: "before_port s e d" "trace uri_code never ?front 0 451 = Some (s, front_trace scheme user)"
    using trace_front [OF assms(1)] by blast
  have "authority_end s [U_Save_host, U_Mark]" using s(1) by (auto simp: authority_end_def before_port_def)
  from reads_append [OF s(2) reads_path [OF this assms(2)]]
  have reads: "reads (?front @ ?tail) 0 451
    ((front_trace scheme user @ [(U_Save_host, length ?front)]) @ (U_Mark, length ?front) # tail_trace (length ?front) [] path query fragment)"
    by (simp add: tail_trace_acts [of _ "[U_Save_host, U_Mark]"])
  show ?thesis unfolding None port_part_def option.case append_Nil Uri_Create_reads [OF reads]
    perform_then [OF perform_front [OF refl refl]]
    by (simp add: perform_tail [of _ ?front] empty_uri_def)
next
  case (Some n)
  let ?front = "front_text scheme user host" and ?tail = "tail_text path query fragment" and ?n = "dec_digits n"
  let ?text = "(?front @ '':'') @ ?n @ ?tail" and ?p = "length (?front @ '':'')" and ?q = "length (?front @ '':'' @ dec_digits n)"
  obtain e d where e: "(e, d) \<in> {(521::int, 542::int), (514, 515)}"
    "trace uri_code never (?front @ '':'') 0 451 = Some (e, front_trace scheme user @ [(U_Save_host, length ?front)])"
    using front_colon [OF assms(1)] by blast
  have "authority_end d [U_Save_port, U_Mark]" using e(1) by (auto simp: authority_end_def)
  from reads_append [OF trace_port [OF e(1), of n ?p] reads_path [OF this assms(2)]]
  have "reads (?n @ ?tail) (0 + length (?front @ '':'')) e
      ([(U_Mark, ?p), (U_Save_port, ?q), (U_Mark, ?q)] @ tail_trace ?q [] path query fragment)"
    by (simp add: tail_trace_acts [of _ "[U_Save_port, U_Mark]"] add.assoc)
  from reads_append [OF e(2) this] have reads: "reads ?text 0 451
    ((front_trace scheme user @ [(U_Save_host, length ?front)])
      @ [(U_Mark, ?p), (U_Save_port, ?q), (U_Mark, ?q)] @ tail_trace ?q [] path query fragment)" by simp
  have port: "strtol 10 (drop ?p ?text) = int n" "?q \<noteq> ?p"
    using strtol_digits [OF _ tail_starts [OF assms(2)], of n] assms(3) dec_digits_chars [of n] by (simp_all add: Some)
  have front: "perform (uri_act ?text) (front_trace scheme user @ [(U_Save_host, length ?front)]) (Inr (empty_uri, None))
    = Inr (empty_uri\<lparr>u_scheme := scheme, u_userinfo := user, u_host := host\<rparr>, Some (length ?front - length host))"
    by (rule perform_front) simp_all
  have whole: "front_text scheme user host @ port_part port @ tail_text path query fragment = ?text"
    by (simp add: Some port_part_def)
  have mid: "perform (uri_act ?text) [(U_Mark, ?p), (U_Save_port, ?q), (U_Mark, ?q)] (Inr (u, m)) = Inr (u\<lparr>u_port := word_of_nat n\<rparr>, Some ?q)" for u m
    using port by (simp del: length_append drop_append)
  have tail: "perform (uri_act ?text) (tail_trace ?q [] path query fragment) (Inr (u, Some ?q))
    = Inr (u\<lparr>u_path := path, u_query := (if query = [] then u_query u else query),
        u_fragment := (if fragment = [] then u_fragment u else fragment)\<rparr>, None)" for u
    by (rule perform_tail [where pre = "?front @ '':'' @ dec_digits n"]) simp_all
  show ?thesis unfolding whole Uri_Create_reads [OF reads] perform_then [OF front] perform_then [OF mid] tail
    by (simp add: Some empty_uri_def)
qed

text \<open>
  C13: The text of a URI with a scheme, a host of the characters of names and addresses, with or without a
  user and a port, with a path, a query and a fragment in which characters may be percent-encoded or not
  ASCII, is taken by \<open>Uri::Create\<close>, and every field gets its part of the text. The port is the
  number modulo the width of its field.
\<close>

theorem uri_text_is_read:
  assumes "good_front scheme user host" and "good_tail path query fragment"
    and "case port of None \<Rightarrow> True | Some n \<Rightarrow> n < 2 ^ 31"
  shows "Uri_Create (front_text scheme user host @ port_part port @ tail_text path query fragment) =
    Inr (Some \<lparr>u_scheme = scheme, u_userinfo = user, u_host = host,
       u_port = (case port of None \<Rightarrow> 0 | Some n \<Rightarrow> word_of_nat n), u_path = path, u_query = query, u_fragment = fragment\<rparr>)"
  by (rule uri_read [OF assms])

theorem uri_text_is_read_witness:
  "Uri_Create ''http://me@10.1.2.3:80/a%20b?x=1#top'' =
    Inr (Some \<lparr>u_scheme = ''http'', u_userinfo = ''me'', u_host = ''10.1.2.3'', u_port = 80, u_path = ''/a%20b'',
       u_query = ''x=1'', u_fragment = ''top''\<rparr>)"
proof -
  have "good_front ''http'' ''me'' ''10.1.2.3''" "good_tail ''/a%20b'' ''x=1'' ''top''" by code_simp+
  moreover have "''http://me@10.1.2.3:80/a%20b?x=1#top''
    = front_text ''http'' ''me'' ''10.1.2.3'' @ port_part (Some 80) @ tail_text ''/a%20b'' ''x=1'' ''top''" by code_simp
  ultimately show ?thesis using uri_text_is_read [of _ _ _ _ _ _ "Some 80"] by simp
qed

text \<open>
  A colon without a port behind the host makes \<open>Uri::Create\<close> throw a \<open>std::logic_error\<close>, whatever
  path, query and fragment follow: the mark is cleared for the empty port and the path is made from it.
\<close>

theorem empty_port_throws:
  assumes "good_front scheme user host" and "good_tail path query fragment"
  shows "Uri_Create (front_text scheme user host @ '':'' @ tail_text path query fragment) = Inl Logic_error"
proof -
  let ?front = "front_text scheme user host" and ?tail = "tail_text path query fragment"
  let ?text = "(?front @ '':'') @ ?tail" and ?p = "length (?front @ '':'')"
  obtain e d where e: "(e, d) \<in> {(521::int, 542::int), (514, 515)}"
    "trace uri_code never (?front @ '':'') 0 451 = Some (e, front_trace scheme user @ [(U_Save_host, length ?front)])"
    using front_colon [OF assms(1)] by blast
  have "authority_end e [U_Mark, U_Save_port]" using e(1) by (auto simp: authority_end_def)
  from reads_append [OF e(2) reads_path [OF this assms(2)]]
  have reads: "reads ?text 0 451 ((front_trace scheme user @ [(U_Save_host, length ?front)])
      @ [(U_Mark, ?p), (U_Save_port, ?p)] @ tail_trace ?p [] path query fragment)"
    by (simp add: tail_trace_acts [of _ "[U_Mark, U_Save_port]"])
  have front: "perform (uri_act ?text) (front_trace scheme user @ [(U_Save_host, length ?front)]) (Inr (empty_uri, None))
    = Inr (empty_uri\<lparr>u_scheme := scheme, u_userinfo := user, u_host := host\<rparr>, Some (length ?front - length host))"
    by (rule perform_front) simp_all
  have "perform (uri_act ?text) (tail_trace ?p [] path query fragment) (Inr (u, None)) = Inl Logic_error" for u
    by (simp add: tail_trace_def Let_def from_mark_def perform_stops)
  then have "Uri_Create ?text = Inl Logic_error"
    unfolding Uri_Create_reads [OF reads] perform_then [OF front] by simp
  then show ?thesis by simp
qed

theorem empty_port_throws_witness: "Uri_Create ''http://a:/x'' = Inl Logic_error"
proof -
  have "good_front ''http'' [] ''a''" "good_tail ''/x'' [] []" by code_simp+
  from empty_port_throws [OF this] show ?thesis by (simp add: front_text_def user_part_def tail_text_def)
qed

text \<open>
  Whatever URI is printed, its text is read back to the same URI, with the path \<open>/\<close> for an empty one and
  without the default port.
\<close>

theorem printed_uri_is_read:
  assumes "good_front (u_scheme u) (u_userinfo u) (u_host u)" and "good_tail (u_path u) (u_query u) (u_fragment u)"
    and "uri_dump u = Inr printed"
  shows "Uri_Create printed = Inr (Some (u\<lparr>u_port := 0, u_path := (if u_path u = [] then ''/'' else u_path u)\<rparr>))"
proof -
  let ?path = "if u_path u = [] then ''/'' else u_path u"
  have "isDefaultPort u"
  proof (rule ccontr)
    assume port: "\<not> isDefaultPort u"
    then have "u_port u \<noteq> 0" by (auto simp: isDefaultPort_def)
    then have "sint (u_port u) \<noteq> 0" by (metis sint_0 signed_word_eqI)
    then show False using assms(3) port by (simp add: uri_dump_def literal_at_def split: if_splits)
  qed
  then have printed: "printed = front_text (u_scheme u) (u_userinfo u) (u_host u) @ port_part None @ tail_text ?path (u_query u) (u_fragment u)"
    using assms(3) by (auto simp: uri_dump_def front_text_def user_part_def port_part_def tail_text_def)
  have "good_tail ?path (u_query u) (u_fragment u)" using assms(2)
    by (simp add: good_tail_def path_char_def uri_char_def Let_def)
  from uri_read [OF assms(1) this, of None] show ?thesis unfolding printed by simp
qed

theorem printed_uri_is_read_witness:
  "uri_dump (empty_uri\<lparr>u_scheme := ''http'', u_host := ''a.b'', u_port := 80\<rparr>) = Inr ''http://a.b/''
   \<and> Uri_Create ''http://a.b/'' = Inr (Some (empty_uri\<lparr>u_scheme := ''http'', u_host := ''a.b'', u_path := ''/''\<rparr>))"
proof -
  let ?u = "empty_uri\<lparr>u_scheme := ''http'', u_host := ''a.b'', u_port := 80\<rparr>"
  have "good_front (u_scheme ?u) (u_userinfo ?u) (u_host ?u)" "good_tail (u_path ?u) (u_query ?u) (u_fragment ?u)"
    "uri_dump ?u = Inr ''http://a.b/''" by code_simp+
  from this(3) printed_uri_is_read [OF this] show ?thesis by (simp add: empty_uri_def)
qed

end
