(* ===== verification/Http_Client.thy ===== *)
theory Http_Client
  imports Http_Requests Http_Properties Uri_Texts
begin

text \<open>
  The calls of \<open>http/http_connection.cpp\<close> that take the text of a URI, and the way of a request from that
  text through the URI machine, the assembled and printed request and the request machine of a server.
  \<open>Inr None\<close> of \<open>Uri_Create\<close> is the null pointer; an exception of \<open>Uri::Create\<close> is not caught.
\<close>

section \<open>Calls with the text of a URI\<close>

definition DoRequest_url where
  "DoRequest_url debug getaddrinfo connects sends recv rets method url headers body =
     bindE (Uri_Create url) (\<lambda>created. case created of
        None \<Rightarrow> Inr (Some \<lparr>hr_result = INVALID_URL, hr_response = None\<rparr>)
      | Some u \<Rightarrow> DoRequest_uri debug getaddrinfo connects sends recv rets method u headers body)"

definition DoGet_url where
  "DoGet_url debug getaddrinfo connects sends recv rets url headers body =
     bindE (Uri_Create url) (\<lambda>created. case created of
        None \<Rightarrow> Inr (Some \<lparr>hr_result = INVALID_URL, hr_response = None\<rparr>)
      | Some u \<Rightarrow> DoGet_uri debug getaddrinfo connects sends recv rets u headers body)"

definition DoPost_url where
  "DoPost_url debug getaddrinfo connects sends recv rets url headers body =
     bindE (Uri_Create url) (\<lambda>created. case created of
        None \<Rightarrow> Inr (Some \<lparr>hr_result = INVALID_URL, hr_response = None\<rparr>)
      | Some u \<Rightarrow> DoPost_uri debug getaddrinfo connects sends recv rets u headers body)"

section \<open>From the text of a URI to a server\<close>

lemma setHeader_good:
  assumes "list_all (\<lambda>(k, v). good_field (k, [], v)) (rq_headers rq)" and "good_field (k, [], v)"
  shows "list_all (\<lambda>(k, v). good_field (k, [], v)) (rq_headers (setHeader k v rq))"
proof -
  have "list_all (\<lambda>(k, v). good_field (k, [], v)) (ci_set k v m)" if "list_all (\<lambda>(k, v). good_field (k, [], v)) m" for m
    using that assms(2) by (induction m) (auto simp: good_field_def split: if_splits)
  then show ?thesis using assms(1) by (simp add: setHeader_def)
qed

lemma setHeaders_good:
  assumes "list_all (\<lambda>(k, v). good_field (k, [], v)) (rq_headers rq)" and "list_all (\<lambda>(k, v). good_field (k, [], v)) kvs"
  shows "list_all (\<lambda>(k, v). good_field (k, [], v)) (rq_headers (fold (\<lambda>(k, v). setHeader k v) kvs rq))"
  using assms by (induction kvs arbitrary: rq) (auto simp: setHeader_good)

lemma add_fields_line:
  "rq_method (snd (add_fields kvs h rq)) = rq_method rq" "rq_path (snd (add_fields kvs h rq)) = rq_path rq"
  "rq_query (snd (add_fields kvs h rq)) = rq_query rq" "rq_fragment (snd (add_fields kvs h rq)) = rq_fragment rq"
  "rq_version (snd (add_fields kvs h rq)) = rq_version rq"
  by (induction kvs h rq rule: add_fields.induct) (auto simp: Let_def setHeader_rest)

lemma assemble_parts:
  "rq_method (assemble m u kvs body) = m" "rq_path (assemble m u kvs body) = u_path u"
  "rq_query (assemble m u kvs body) = u_query u" "rq_fragment (assemble m u kvs body) = u_fragment u"
  "rq_version (assemble m u kvs body) = 0x11" "rq_body (assemble m u kvs body) = body"
  by (simp_all add: assemble_def Let_def split_def add_fields_line setHeader_rest HttpRequest_def)

lemma assemble_headers:
  "rq_headers (assemble m u kvs body) = rq_headers (setHeader ''host'' (u_host u)
     (fold (\<lambda>(k, v). setHeader k v) kvs (HttpRequest 0x11 True)))"
proof -
  let ?rq = "(HttpRequest 0x11 True)\<lparr>rq_method := m, rq_path := u_path u, rq_query := u_query u, rq_fragment := u_fragment u\<rparr>"
  have "rq_headers (assemble m u kvs body) = rq_headers (setHeader ''host'' (u_host u) (snd (add_fields kvs False ?rq)))"
    using add_fields_host [of kvs ?rq] by (simp add: assemble_def Let_def split_def)
  also have "\<dots> = ci_set ''host'' (u_host u) (rq_headers (fold (\<lambda>(k, v). setHeader k v) kvs ?rq))"
    by (simp add: setHeader_def add_fields_headers)
  also have "rq_headers (fold (\<lambda>(k, v). setHeader k v) kvs ?rq) = rq_headers (fold (\<lambda>(k, v). setHeader k v) kvs (HttpRequest 0x11 True))"
    by (rule set_fields_headers) simp
  finally show ?thesis by (simp add: setHeader_def)
qed

lemma host_is_value: "host_char ch \<Longrightarrow> value_char ch \<and> char_val ch \<notin> {9, 32}"
  by (erule host_charE) (auto simp: value_char_def)

lemma host_field_good:
  assumes "list_all host_char host"
  shows "good_field (''host'', [], host)"
proof -
  have "value_char c \<and> char_val c \<notin> {9, 32}" if "c \<in> set host" for c
    using assms that by (intro host_is_value) (simp add: list_all_iff)
  then show ?thesis using hd_in_set [of host] by (auto simp: good_field_def list_all_iff token_char_def char_val_def)
qed

lemma assemble_printable:
  assumes "m \<notin> {INVALID_METHOD, MSEARCH}" and "good_path (u_path u)" and "pct_text query_char (u_query u)"
    and "pct_text query_char (u_fragment u)" and "list_all host_char (u_host u)"
    and "list_all (\<lambda>(k, v). good_field (k, [], v)) kvs"
  shows "printable (assemble m u kvs body)" and "ci_sorted (rq_headers (assemble m u kvs body))"
proof -
  have "list_all (\<lambda>(k, v). good_field (k, [], v)) (rq_headers (assemble m u kvs body))"
    unfolding assemble_headers by (intro setHeader_good setHeaders_good host_field_good assms) (simp add: HttpRequest_def)
  then show "printable (assemble m u kvs body)" using assms(1-4) by (simp add: printable_def assemble_parts)
  have "ci_sorted (rq_headers (HttpRequest 0x11 True))" by (simp add: HttpRequest_def)
  from rq_head.put_all_inv [OF this] show "ci_sorted (rq_headers (assemble m u kvs body))"
    unfolding assemble_headers by (rule rq_head.put_inv)
qed

lemma pct_text_mono: "pct_text good xs \<Longrightarrow> (\<And>c. good c \<Longrightarrow> good' c) \<Longrightarrow> pct_text good' xs"
  by (induction good xs rule: pct_text.induct) (auto split: if_splits list.splits)

lemma good_path_tail:
  assumes "good_path path" and "pct_text query_char query" and "pct_text query_char fragment"
  shows "good_tail path query fragment"
proof -
  have "pct_text uri_char path" using assms(1)
    by (cases path) (auto simp: good_path_def uri_char_def Let_def)
  then have "pct_text path_char path" by (rule pct_text_mono) (simp add: path_char_def)
  moreover have "pct_text tail_char query" "pct_text tail_char fragment"
    by (rule pct_text_mono [OF assms(2)], force simp: query_char_def tail_char_def path_char_def,
        rule pct_text_mono [OF assms(3)], force simp: query_char_def tail_char_def path_char_def)
  ultimately show ?thesis using assms(1) by (auto simp: good_tail_def good_path_def split: list.splits)
qed



end
