(* ===== verification/Client_Machine.thy ===== *)
theory Client_Machine
  imports Http_Machine
begin

text \<open>
  \<open>http/httpclient_parser.rl.cpp\<close>: the machine that reads responses and the heads of chunks. \<open>strtol\<close>
  on what starts at the mark gives a \<open>long\<close> that is kept in an \<open>int\<close>. The register \<open>status\<close> is only
  written and left out. All callbacks are set.
\<close>

section \<open>Actions\<close>

datatype client_action =
    C_Mark | C_Chunk_size | C_Done | C_Write_field | C_Write_value | C_Connection_close | C_Start_field | C_Http_version
  | C_Status_code | C_Reason_phrase | C_Transfer_chunked | C_Content_length

type_synonym client_regs = "httpclient_parser \<times> event list"

fun client_act :: "string \<Rightarrow> client_action \<Rightarrow> nat \<Rightarrow> client_regs \<Rightarrow> client_regs" where
  "client_act buffer C_Mark p (pr, evs) = (pr\<lparr>c_mark := p\<rparr>, evs)"
| "client_act buffer C_Start_field p (pr, evs) = (pr\<lparr>c_field_start := p\<rparr>, evs)"
| "client_act buffer C_Write_field p (pr, evs) = (pr\<lparr>c_field_len := LEN (c_field_start pr) p\<rparr>, evs)"
| "client_act buffer C_Write_value p (pr, evs) =
     (pr, evs @ [Ev_http_field (drop (c_field_start pr) buffer) (c_field_len pr) (drop (c_mark pr) buffer) (LEN (c_mark pr) p)])"
| "client_act buffer C_Http_version p (pr, evs) = (pr, evs @ [Ev_http_version (drop (c_mark pr) buffer) (LEN (c_mark pr) p)])"
| "client_act buffer C_Status_code p (pr, evs) = (pr, evs @ [Ev_status_code (drop (c_mark pr) buffer) (LEN (c_mark pr) p)])"
| "client_act buffer C_Reason_phrase p (pr, evs) = (pr, evs @ [Ev_reason_phrase (drop (c_mark pr) buffer) (LEN (c_mark pr) p)])"
| "client_act buffer C_Connection_close p (pr, evs) = (pr\<lparr>c_close := True\<rparr>, evs)"
| "client_act buffer C_Transfer_chunked p (pr, evs) = (pr\<lparr>c_chunked := True\<rparr>, evs)"
| "client_act buffer C_Content_length p (pr, evs) = (pr\<lparr>c_content_len := strtol 10 (drop (c_mark pr) buffer)\<rparr>, evs)"
| "client_act buffer C_Chunk_size p (pr, evs) =
     (let len = strtol 16 (drop (c_mark pr) buffer); at = drop (c_mark pr) buffer; n = LEN (c_mark pr) p in
      (pr\<lparr>c_chunked := True, c_content_len := len, c_chunks_done := (len \<le> 0)\<rparr>,
       evs @ [if len \<le> 0 then Ev_last_chunk at n else Ev_chunk_size at n]))"
| "client_act buffer C_Done p (pr, evs) =
     (pr\<lparr>c_body_start := p + 1\<rparr>, evs @ [Ev_header_done (drop (p + 1) buffer) (length buffer - p - 1)])"

section \<open>The cases\<close>

definition client_code_1 :: "client_action block list" where
  "client_code_1 = [
    State 1 (\<lambda>c. if c = 72 then Tr 2
      else if c < 65 then (if 48 \<le> c \<and> c \<le> 57 then Tr 0
        else St 0)
      else if c > 70 then (if 97 \<le> c \<and> c \<le> 102 then Tr 0
        else St 0)
      else Tr 0),
    Trans 0 [C_Mark] 2,
    State 2 (\<lambda>c. switch c [(10, Tr 3), (13, Tr 4), (59, Tr 6)]
        (if c < 65 then (if 48 \<le> c \<and> c \<le> 57 then St 2
           else St 0)
         else if c > 70 then (if 97 \<le> c \<and> c \<le> 102 then St 2
           else St 0)
         else St 2)),
    Trans 3 [C_Chunk_size, C_Done] 120,
    Trans 7 [C_Done] 120,
    Trans 9 [C_Write_field, C_Mark, C_Write_value, C_Done] 120,
    Trans 15 [C_Write_value, C_Done] 120,
    Trans 74 [C_Connection_close, C_Done] 120,
    State 120 (\<lambda>c. St 0),
    Trans 4 [C_Chunk_size] 3]"

definition client_code_2 :: "client_action block list" where
  "client_code_2 = [
    Trans 10 [C_Write_field, C_Mark, C_Write_value] 3,
    Trans 16 [C_Write_value] 3,
    Trans 75 [C_Connection_close] 3,
    State 3 (\<lambda>c. if c = 10 then Tr 7
      else St 0),
    Trans 6 [C_Chunk_size] 4,
    Trans 12 [C_Write_field, C_Mark, C_Write_value] 4,
    Trans 18 [C_Write_value] 4,
    State 4 (\<lambda>c. switch c [(33, Tr 8), (124, Tr 8), (126, Tr 8)]
        (if c < 45 then (if c > 39 then (if 42 \<le> c \<and> c \<le> 43 then Tr 8
             else St 0)
           else if c \<ge> 35 then Tr 8
           else St 0)
         else if c > 46 then (if c < 65 then (if 48 \<le> c \<and> c \<le> 57 then Tr 8
             else St 0)
           else if c > 90 then (if 94 \<le> c \<and> c \<le> 122 then Tr 8
             else St 0)
           else Tr 8)
         else Tr 8)),
    Trans 8 [C_Start_field] 5,
    State 5 (\<lambda>c. switch c [(10, Tr 9), (13, Tr 10), (33, St 5), (59, Tr 12), (61, Tr 13), (124, St 5), (126, St 5)]
        (if c < 45 then (if c > 39 then (if 42 \<le> c \<and> c \<le> 43 then St 5
             else St 0)
           else if c \<ge> 35 then St 5
           else St 0)
         else if c > 46 then (if c < 65 then (if 48 \<le> c \<and> c \<le> 57 then St 5
             else St 0)
           else if c > 90 then (if 94 \<le> c \<and> c \<le> 122 then St 5
             else St 0)
           else St 5)
         else St 5)),
    Trans 13 [C_Write_field, C_Mark] 6]"

definition client_code_3 :: "client_action block list" where
  "client_code_3 = [
    State 6 (\<lambda>c. switch c [(33, Tr 14), (124, Tr 14), (126, Tr 14)]
        (if c < 45 then (if c > 39 then (if 42 \<le> c \<and> c \<le> 43 then Tr 14
             else St 0)
           else if c \<ge> 35 then Tr 14
           else St 0)
         else if c > 46 then (if c < 65 then (if 48 \<le> c \<and> c \<le> 57 then Tr 14
             else St 0)
           else if c > 90 then (if 94 \<le> c \<and> c \<le> 122 then Tr 14
             else St 0)
           else Tr 14)
         else Tr 14)),
    Trans 14 [C_Mark] 7,
    State 7 (\<lambda>c. switch c [(10, Tr 15), (13, Tr 16), (33, St 7), (59, Tr 18), (124, St 7), (126, St 7)]
        (if c < 45 then (if c > 39 then (if 42 \<le> c \<and> c \<le> 43 then St 7
             else St 0)
           else if c \<ge> 35 then St 7
           else St 0)
         else if c > 46 then (if c < 65 then (if 48 \<le> c \<and> c \<le> 57 then St 7
             else St 0)
           else if c > 90 then (if 94 \<le> c \<and> c \<le> 122 then St 7
             else St 0)
           else St 7)
         else St 7)),
    Trans 2 [C_Mark] 8,
    State 8 (\<lambda>c. if c = 84 then St 9
      else St 0),
    State 9 (\<lambda>c. if c = 84 then St 10
      else St 0),
    State 10 (\<lambda>c. if c = 80 then St 11
      else St 0),
    State 11 (\<lambda>c. if c = 47 then St 12
      else St 0),
    State 12 (\<lambda>c. if 48 \<le> c \<and> c \<le> 57 then St 13
      else St 0),
    State 13 (\<lambda>c. if c = 46 then St 14
      else if 48 \<le> c \<and> c \<le> 57 then St 13
      else St 0),
    State 14 (\<lambda>c. if 48 \<le> c \<and> c \<le> 57 then St 15
      else St 0),
    State 15 (\<lambda>c. if c = 32 then Tr 26
      else if 48 \<le> c \<and> c \<le> 57 then St 15
      else St 0),
    Trans 26 [C_Http_version] 16,
    State 16 (\<lambda>c. if 48 \<le> c \<and> c \<le> 57 then Tr 27
      else St 0),
    Trans 27 [C_Mark] 17]"

definition client_code_4 :: "client_action block list" where
  "client_code_4 = [
    State 17 (\<lambda>c. if c = 32 then Tr 28
      else if 48 \<le> c \<and> c \<le> 57 then St 17
      else St 0),
    Trans 28 [C_Status_code] 18,
    State 18 (\<lambda>c. if c = 10 then St 0
      else Tr 30),
    Trans 30 [C_Mark] 19,
    State 19 (\<lambda>c. switch c [(10, Tr 32), (13, Tr 33)]
        (St 19)),
    Trans 45 [C_Write_value] 20,
    Trans 32 [C_Reason_phrase] 20,
    Trans 42 [C_Mark, C_Write_value] 20,
    Trans 111 [C_Write_value, C_Transfer_chunked] 20,
    Trans 113 [C_Transfer_chunked] 20,
    Trans 158 [C_Content_length, C_Write_value] 20,
    State 20 (\<lambda>c. switch c [(10, Tr 7), (13, St 3), (33, Tr 35), (67, Tr 36), (84, Tr 37), (99, Tr 36), (116, Tr 37), (124, Tr 35), (126, Tr 35)]
        (if c < 45 then (if c > 39 then (if 42 \<le> c \<and> c \<le> 43 then Tr 35
             else St 0)
           else if c \<ge> 35 then Tr 35
           else St 0)
         else if c > 46 then (if c < 65 then (if 48 \<le> c \<and> c \<le> 57 then Tr 35
             else St 0)
           else if c > 90 then (if 94 \<le> c \<and> c \<le> 122 then Tr 35
             else St 0)
           else Tr 35)
         else Tr 35)),
    Trans 35 [C_Start_field] 21,
    Trans 76 [C_Connection_close, C_Start_field] 21]"

definition client_code_5 :: "client_action block list" where
  "client_code_5 = [
    State 21 (\<lambda>c. switch c [(33, St 21), (58, Tr 39), (124, St 21), (126, St 21)]
        (if c < 45 then (if c > 39 then (if 42 \<le> c \<and> c \<le> 43 then St 21
             else St 0)
           else if c \<ge> 35 then St 21
           else St 0)
         else if c > 46 then (if c < 65 then (if 48 \<le> c \<and> c \<le> 57 then St 21
             else St 0)
           else if c > 90 then (if 94 \<le> c \<and> c \<le> 122 then St 21
             else St 0)
           else St 21)
         else St 21)),
    Trans 41 [C_Mark] 22,
    Trans 39 [C_Write_field] 22,
    State 22 (\<lambda>c. switch c [(10, Tr 42), (13, Tr 43), (32, Tr 41)]
        (if 9 \<le> c \<and> c \<le> 12 then Tr 41
         else Tr 40)),
    Trans 40 [C_Mark] 23,
    State 23 (\<lambda>c. switch c [(10, Tr 45), (13, Tr 46)]
        (St 23)),
    Trans 46 [C_Write_value] 24,
    Trans 33 [C_Reason_phrase] 24,
    Trans 43 [C_Mark, C_Write_value] 24,
    Trans 159 [C_Content_length, C_Write_value] 24,
    State 24 (\<lambda>c. if c = 10 then St 20
      else St 0),
    Trans 36 [C_Start_field] 25,
    Trans 77 [C_Connection_close, C_Start_field] 25]"

definition client_code_6 :: "client_action block list" where
  "client_code_6 = [
    State 25 (\<lambda>c. switch c [(33, St 21), (58, Tr 39), (79, St 26), (111, St 26), (124, St 21), (126, St 21)]
        (if c < 45 then (if c > 39 then (if 42 \<le> c \<and> c \<le> 43 then St 21
             else St 0)
           else if c \<ge> 35 then St 21
           else St 0)
         else if c > 46 then (if c < 65 then (if 48 \<le> c \<and> c \<le> 57 then St 21
             else St 0)
           else if c > 90 then (if 94 \<le> c \<and> c \<le> 122 then St 21
             else St 0)
           else St 21)
         else St 21)),
    State 26 (\<lambda>c. switch c [(33, St 21), (58, Tr 39), (78, St 27), (110, St 27), (124, St 21), (126, St 21)]
        (if c < 45 then (if c > 39 then (if 42 \<le> c \<and> c \<le> 43 then St 21
             else St 0)
           else if c \<ge> 35 then St 21
           else St 0)
         else if c > 46 then (if c < 65 then (if 48 \<le> c \<and> c \<le> 57 then St 21
             else St 0)
           else if c > 90 then (if 94 \<le> c \<and> c \<le> 122 then St 21
             else St 0)
           else St 21)
         else St 21)),
    State 27 (\<lambda>c. switch c [(33, St 21), (58, Tr 39), (78, St 28), (84, St 101), (110, St 28), (116, St 101), (124, St 21), (126, St 21)]
        (if c < 45 then (if c > 39 then (if 42 \<le> c \<and> c \<le> 43 then St 21
             else St 0)
           else if c \<ge> 35 then St 21
           else St 0)
         else if c > 46 then (if c < 65 then (if 48 \<le> c \<and> c \<le> 57 then St 21
             else St 0)
           else if c > 90 then (if 94 \<le> c \<and> c \<le> 122 then St 21
             else St 0)
           else St 21)
         else St 21)),
    State 28 (\<lambda>c. switch c [(33, St 21), (58, Tr 39), (69, St 29), (101, St 29), (124, St 21), (126, St 21)]
        (if c < 45 then (if c > 39 then (if 42 \<le> c \<and> c \<le> 43 then St 21
             else St 0)
           else if c \<ge> 35 then St 21
           else St 0)
         else if c > 46 then (if c < 65 then (if 48 \<le> c \<and> c \<le> 57 then St 21
             else St 0)
           else if c > 90 then (if 94 \<le> c \<and> c \<le> 122 then St 21
             else St 0)
           else St 21)
         else St 21)),
    State 29 (\<lambda>c. switch c [(33, St 21), (58, Tr 39), (67, St 30), (99, St 30), (124, St 21), (126, St 21)]
        (if c < 45 then (if c > 39 then (if 42 \<le> c \<and> c \<le> 43 then St 21
             else St 0)
           else if c \<ge> 35 then St 21
           else St 0)
         else if c > 46 then (if c < 65 then (if 48 \<le> c \<and> c \<le> 57 then St 21
             else St 0)
           else if c > 90 then (if 94 \<le> c \<and> c \<le> 122 then St 21
             else St 0)
           else St 21)
         else St 21))]"

definition client_code_7 :: "client_action block list" where
  "client_code_7 = [
    State 30 (\<lambda>c. switch c [(33, St 21), (58, Tr 39), (84, St 31), (116, St 31), (124, St 21), (126, St 21)]
        (if c < 45 then (if c > 39 then (if 42 \<le> c \<and> c \<le> 43 then St 21
             else St 0)
           else if c \<ge> 35 then St 21
           else St 0)
         else if c > 46 then (if c < 65 then (if 48 \<le> c \<and> c \<le> 57 then St 21
             else St 0)
           else if c > 90 then (if 94 \<le> c \<and> c \<le> 122 then St 21
             else St 0)
           else St 21)
         else St 21)),
    State 31 (\<lambda>c. switch c [(33, St 21), (58, Tr 39), (73, St 32), (105, St 32), (124, St 21), (126, St 21)]
        (if c < 45 then (if c > 39 then (if 42 \<le> c \<and> c \<le> 43 then St 21
             else St 0)
           else if c \<ge> 35 then St 21
           else St 0)
         else if c > 46 then (if c < 65 then (if 48 \<le> c \<and> c \<le> 57 then St 21
             else St 0)
           else if c > 90 then (if 94 \<le> c \<and> c \<le> 122 then St 21
             else St 0)
           else St 21)
         else St 21)),
    State 32 (\<lambda>c. switch c [(33, St 21), (58, Tr 39), (79, St 33), (111, St 33), (124, St 21), (126, St 21)]
        (if c < 45 then (if c > 39 then (if 42 \<le> c \<and> c \<le> 43 then St 21
             else St 0)
           else if c \<ge> 35 then St 21
           else St 0)
         else if c > 46 then (if c < 65 then (if 48 \<le> c \<and> c \<le> 57 then St 21
             else St 0)
           else if c > 90 then (if 94 \<le> c \<and> c \<le> 122 then St 21
             else St 0)
           else St 21)
         else St 21)),
    State 33 (\<lambda>c. switch c [(33, St 21), (58, Tr 39), (78, St 34), (110, St 34), (124, St 21), (126, St 21)]
        (if c < 45 then (if c > 39 then (if 42 \<le> c \<and> c \<le> 43 then St 21
             else St 0)
           else if c \<ge> 35 then St 21
           else St 0)
         else if c > 46 then (if c < 65 then (if 48 \<le> c \<and> c \<le> 57 then St 21
             else St 0)
           else if c > 90 then (if 94 \<le> c \<and> c \<le> 122 then St 21
             else St 0)
           else St 21)
         else St 21)),
    State 34 (\<lambda>c. switch c [(33, St 21), (58, Tr 58), (124, St 21), (126, St 21)]
        (if c < 45 then (if c > 39 then (if 42 \<le> c \<and> c \<le> 43 then St 21
             else St 0)
           else if c \<ge> 35 then St 21
           else St 0)
         else if c > 46 then (if c < 65 then (if 48 \<le> c \<and> c \<le> 57 then St 21
             else St 0)
           else if c > 90 then (if 94 \<le> c \<and> c \<le> 122 then St 21
             else St 0)
           else St 21)
         else St 21)),
    Trans 59 [C_Mark] 35]"

definition client_code_8 :: "client_action block list" where
  "client_code_8 = [
    Trans 58 [C_Write_field] 35,
    State 35 (\<lambda>c. switch c [(10, Tr 60), (13, Tr 61), (32, Tr 59), (67, Tr 62), (99, Tr 62)]
        (if 9 \<le> c \<and> c \<le> 12 then Tr 59
         else Tr 40)),
    Trans 60 [C_Mark, C_Write_value] 36,
    State 36 (\<lambda>c. switch c [(10, Tr 64), (13, St 89), (32, St 37), (33, Tr 35), (67, Tr 66), (84, Tr 37), (99, Tr 66), (116, Tr 37), (124, Tr 35), (126, Tr 35)]
        (if c < 45 then (if c < 35 then (if 9 \<le> c \<and> c \<le> 12 then St 37
             else St 0)
           else if c > 39 then (if 42 \<le> c \<and> c \<le> 43 then Tr 35
             else St 0)
           else Tr 35)
         else if c > 46 then (if c < 65 then (if 48 \<le> c \<and> c \<le> 57 then Tr 35
             else St 0)
           else if c > 90 then (if 94 \<le> c \<and> c \<le> 122 then Tr 35
             else St 0)
           else Tr 35)
         else Tr 35)),
    State 37 (\<lambda>c. switch c [(32, St 37), (67, St 38), (99, St 38)]
        (if 9 \<le> c \<and> c \<le> 13 then St 37
         else St 0)),
    State 38 (\<lambda>c. switch c [(76, St 39), (108, St 39)]
        (St 0)),
    State 39 (\<lambda>c. switch c [(79, St 40), (111, St 40)]
        (St 0)),
    State 40 (\<lambda>c. switch c [(83, St 41), (115, St 41)]
        (St 0)),
    State 41 (\<lambda>c. switch c [(69, St 42), (101, St 42)]
        (St 0)),
    State 42 (\<lambda>c. switch c [(10, St 43), (13, St 88)]
        (St 0)),
    Trans 136 [C_Write_value] 43]"

definition client_code_9 :: "client_action block list" where
  "client_code_9 = [
    State 43 (\<lambda>c. switch c [(10, Tr 74), (13, Tr 75), (33, Tr 76), (67, Tr 77), (84, Tr 78), (99, Tr 77), (116, Tr 78), (124, Tr 76), (126, Tr 76)]
        (if c < 45 then (if c > 39 then (if 42 \<le> c \<and> c \<le> 43 then Tr 76
             else St 0)
           else if c \<ge> 35 then Tr 76
           else St 0)
         else if c > 46 then (if c < 65 then (if 48 \<le> c \<and> c \<le> 57 then Tr 76
             else St 0)
           else if c > 90 then (if 94 \<le> c \<and> c \<le> 122 then Tr 76
             else St 0)
           else Tr 76)
         else Tr 76)),
    Trans 37 [C_Start_field] 44,
    Trans 78 [C_Connection_close, C_Start_field] 44,
    State 44 (\<lambda>c. switch c [(33, St 21), (58, Tr 39), (82, St 45), (114, St 45), (124, St 21), (126, St 21)]
        (if c < 45 then (if c > 39 then (if 42 \<le> c \<and> c \<le> 43 then St 21
             else St 0)
           else if c \<ge> 35 then St 21
           else St 0)
         else if c > 46 then (if c < 65 then (if 48 \<le> c \<and> c \<le> 57 then St 21
             else St 0)
           else if c > 90 then (if 94 \<le> c \<and> c \<le> 122 then St 21
             else St 0)
           else St 21)
         else St 21)),
    State 45 (\<lambda>c. switch c [(33, St 21), (58, Tr 39), (65, St 46), (97, St 46), (124, St 21), (126, St 21)]
        (if c < 45 then (if c > 39 then (if 42 \<le> c \<and> c \<le> 43 then St 21
             else St 0)
           else if c \<ge> 35 then St 21
           else St 0)
         else if c > 46 then (if c < 66 then (if 48 \<le> c \<and> c \<le> 57 then St 21
             else St 0)
           else if c > 90 then (if 94 \<le> c \<and> c \<le> 122 then St 21
             else St 0)
           else St 21)
         else St 21)),
    State 46 (\<lambda>c. switch c [(33, St 21), (58, Tr 39), (78, St 47), (110, St 47), (124, St 21), (126, St 21)]
        (if c < 45 then (if c > 39 then (if 42 \<le> c \<and> c \<le> 43 then St 21
             else St 0)
           else if c \<ge> 35 then St 21
           else St 0)
         else if c > 46 then (if c < 65 then (if 48 \<le> c \<and> c \<le> 57 then St 21
             else St 0)
           else if c > 90 then (if 94 \<le> c \<and> c \<le> 122 then St 21
             else St 0)
           else St 21)
         else St 21))]"

definition client_code_10 :: "client_action block list" where
  "client_code_10 = [
    State 47 (\<lambda>c. switch c [(33, St 21), (58, Tr 39), (83, St 48), (115, St 48), (124, St 21), (126, St 21)]
        (if c < 45 then (if c > 39 then (if 42 \<le> c \<and> c \<le> 43 then St 21
             else St 0)
           else if c \<ge> 35 then St 21
           else St 0)
         else if c > 46 then (if c < 65 then (if 48 \<le> c \<and> c \<le> 57 then St 21
             else St 0)
           else if c > 90 then (if 94 \<le> c \<and> c \<le> 122 then St 21
             else St 0)
           else St 21)
         else St 21)),
    State 48 (\<lambda>c. switch c [(33, St 21), (58, Tr 39), (70, St 49), (102, St 49), (124, St 21), (126, St 21)]
        (if c < 45 then (if c > 39 then (if 42 \<le> c \<and> c \<le> 43 then St 21
             else St 0)
           else if c \<ge> 35 then St 21
           else St 0)
         else if c > 46 then (if c < 65 then (if 48 \<le> c \<and> c \<le> 57 then St 21
             else St 0)
           else if c > 90 then (if 94 \<le> c \<and> c \<le> 122 then St 21
             else St 0)
           else St 21)
         else St 21)),
    State 49 (\<lambda>c. switch c [(33, St 21), (58, Tr 39), (69, St 50), (101, St 50), (124, St 21), (126, St 21)]
        (if c < 45 then (if c > 39 then (if 42 \<le> c \<and> c \<le> 43 then St 21
             else St 0)
           else if c \<ge> 35 then St 21
           else St 0)
         else if c > 46 then (if c < 65 then (if 48 \<le> c \<and> c \<le> 57 then St 21
             else St 0)
           else if c > 90 then (if 94 \<le> c \<and> c \<le> 122 then St 21
             else St 0)
           else St 21)
         else St 21)),
    State 50 (\<lambda>c. switch c [(33, St 21), (58, Tr 39), (82, St 51), (114, St 51), (124, St 21), (126, St 21)]
        (if c < 45 then (if c > 39 then (if 42 \<le> c \<and> c \<le> 43 then St 21
             else St 0)
           else if c \<ge> 35 then St 21
           else St 0)
         else if c > 46 then (if c < 65 then (if 48 \<le> c \<and> c \<le> 57 then St 21
             else St 0)
           else if c > 90 then (if 94 \<le> c \<and> c \<le> 122 then St 21
             else St 0)
           else St 21)
         else St 21)),
    State 51 (\<lambda>c. switch c [(33, St 21), (45, St 52), (46, St 21), (58, Tr 39), (124, St 21), (126, St 21)]
        (if c < 48 then (if c > 39 then (if 42 \<le> c \<and> c \<le> 43 then St 21
             else St 0)
           else if c \<ge> 35 then St 21
           else St 0)
         else if c > 57 then (if c > 90 then (if 94 \<le> c \<and> c \<le> 122 then St 21
             else St 0)
           else if c \<ge> 65 then St 21
           else St 0)
         else St 21))]"

definition client_code_11 :: "client_action block list" where
  "client_code_11 = [
    State 52 (\<lambda>c. switch c [(33, St 21), (58, Tr 39), (69, St 53), (101, St 53), (124, St 21), (126, St 21)]
        (if c < 45 then (if c > 39 then (if 42 \<le> c \<and> c \<le> 43 then St 21
             else St 0)
           else if c \<ge> 35 then St 21
           else St 0)
         else if c > 46 then (if c < 65 then (if 48 \<le> c \<and> c \<le> 57 then St 21
             else St 0)
           else if c > 90 then (if 94 \<le> c \<and> c \<le> 122 then St 21
             else St 0)
           else St 21)
         else St 21)),
    State 53 (\<lambda>c. switch c [(33, St 21), (58, Tr 39), (78, St 54), (110, St 54), (124, St 21), (126, St 21)]
        (if c < 45 then (if c > 39 then (if 42 \<le> c \<and> c \<le> 43 then St 21
             else St 0)
           else if c \<ge> 35 then St 21
           else St 0)
         else if c > 46 then (if c < 65 then (if 48 \<le> c \<and> c \<le> 57 then St 21
             else St 0)
           else if c > 90 then (if 94 \<le> c \<and> c \<le> 122 then St 21
             else St 0)
           else St 21)
         else St 21)),
    State 54 (\<lambda>c. switch c [(33, St 21), (58, Tr 39), (67, St 55), (99, St 55), (124, St 21), (126, St 21)]
        (if c < 45 then (if c > 39 then (if 42 \<le> c \<and> c \<le> 43 then St 21
             else St 0)
           else if c \<ge> 35 then St 21
           else St 0)
         else if c > 46 then (if c < 65 then (if 48 \<le> c \<and> c \<le> 57 then St 21
             else St 0)
           else if c > 90 then (if 94 \<le> c \<and> c \<le> 122 then St 21
             else St 0)
           else St 21)
         else St 21)),
    State 55 (\<lambda>c. switch c [(33, St 21), (58, Tr 39), (79, St 56), (111, St 56), (124, St 21), (126, St 21)]
        (if c < 45 then (if c > 39 then (if 42 \<le> c \<and> c \<le> 43 then St 21
             else St 0)
           else if c \<ge> 35 then St 21
           else St 0)
         else if c > 46 then (if c < 65 then (if 48 \<le> c \<and> c \<le> 57 then St 21
             else St 0)
           else if c > 90 then (if 94 \<le> c \<and> c \<le> 122 then St 21
             else St 0)
           else St 21)
         else St 21)),
    State 56 (\<lambda>c. switch c [(33, St 21), (58, Tr 39), (68, St 57), (100, St 57), (124, St 21), (126, St 21)]
        (if c < 45 then (if c > 39 then (if 42 \<le> c \<and> c \<le> 43 then St 21
             else St 0)
           else if c \<ge> 35 then St 21
           else St 0)
         else if c > 46 then (if c < 65 then (if 48 \<le> c \<and> c \<le> 57 then St 21
             else St 0)
           else if c > 90 then (if 94 \<le> c \<and> c \<le> 122 then St 21
             else St 0)
           else St 21)
         else St 21))]"

definition client_code_12 :: "client_action block list" where
  "client_code_12 = [
    State 57 (\<lambda>c. switch c [(33, St 21), (58, Tr 39), (73, St 58), (105, St 58), (124, St 21), (126, St 21)]
        (if c < 45 then (if c > 39 then (if 42 \<le> c \<and> c \<le> 43 then St 21
             else St 0)
           else if c \<ge> 35 then St 21
           else St 0)
         else if c > 46 then (if c < 65 then (if 48 \<le> c \<and> c \<le> 57 then St 21
             else St 0)
           else if c > 90 then (if 94 \<le> c \<and> c \<le> 122 then St 21
             else St 0)
           else St 21)
         else St 21)),
    State 58 (\<lambda>c. switch c [(33, St 21), (58, Tr 39), (78, St 59), (110, St 59), (124, St 21), (126, St 21)]
        (if c < 45 then (if c > 39 then (if 42 \<le> c \<and> c \<le> 43 then St 21
             else St 0)
           else if c \<ge> 35 then St 21
           else St 0)
         else if c > 46 then (if c < 65 then (if 48 \<le> c \<and> c \<le> 57 then St 21
             else St 0)
           else if c > 90 then (if 94 \<le> c \<and> c \<le> 122 then St 21
             else St 0)
           else St 21)
         else St 21)),
    State 59 (\<lambda>c. switch c [(33, St 21), (58, Tr 39), (71, St 60), (103, St 60), (124, St 21), (126, St 21)]
        (if c < 45 then (if c > 39 then (if 42 \<le> c \<and> c \<le> 43 then St 21
             else St 0)
           else if c \<ge> 35 then St 21
           else St 0)
         else if c > 46 then (if c < 65 then (if 48 \<le> c \<and> c \<le> 57 then St 21
             else St 0)
           else if c > 90 then (if 94 \<le> c \<and> c \<le> 122 then St 21
             else St 0)
           else St 21)
         else St 21)),
    State 60 (\<lambda>c. switch c [(33, St 21), (58, Tr 95), (124, St 21), (126, St 21)]
        (if c < 45 then (if c > 39 then (if 42 \<le> c \<and> c \<le> 43 then St 21
             else St 0)
           else if c \<ge> 35 then St 21
           else St 0)
         else if c > 46 then (if c < 65 then (if 48 \<le> c \<and> c \<le> 57 then St 21
             else St 0)
           else if c > 90 then (if 94 \<le> c \<and> c \<le> 122 then St 21
             else St 0)
           else St 21)
         else St 21)),
    Trans 96 [C_Mark] 61,
    Trans 95 [C_Write_field] 61,
    State 61 (\<lambda>c. switch c [(10, Tr 97), (13, Tr 98), (32, Tr 96), (67, Tr 99), (99, Tr 99)]
        (if 9 \<le> c \<and> c \<le> 12 then Tr 96
         else Tr 40)),
    Trans 97 [C_Mark, C_Write_value] 62]"

definition client_code_13 :: "client_action block list" where
  "client_code_13 = [
    State 62 (\<lambda>c. switch c [(10, Tr 101), (13, St 72), (32, St 63), (33, Tr 35), (67, Tr 103), (84, Tr 37), (99, Tr 103), (116, Tr 37), (124, Tr 35), (126, Tr 35)]
        (if c < 45 then (if c < 35 then (if 9 \<le> c \<and> c \<le> 12 then St 63
             else St 0)
           else if c > 39 then (if 42 \<le> c \<and> c \<le> 43 then Tr 35
             else St 0)
           else Tr 35)
         else if c > 46 then (if c < 65 then (if 48 \<le> c \<and> c \<le> 57 then Tr 35
             else St 0)
           else if c > 90 then (if 94 \<le> c \<and> c \<le> 122 then Tr 35
             else St 0)
           else Tr 35)
         else Tr 35)),
    State 63 (\<lambda>c. switch c [(32, St 63), (67, Tr 104), (99, Tr 104)]
        (if 9 \<le> c \<and> c \<le> 13 then St 63
         else St 0)),
    Trans 104 [C_Mark] 64,
    State 64 (\<lambda>c. switch c [(72, St 65), (104, St 65)]
        (St 0)),
    State 65 (\<lambda>c. switch c [(85, St 66), (117, St 66)]
        (St 0)),
    State 66 (\<lambda>c. switch c [(78, St 67), (110, St 67)]
        (St 0)),
    State 67 (\<lambda>c. switch c [(75, St 68), (107, St 68)]
        (St 0)),
    State 68 (\<lambda>c. switch c [(69, St 69), (101, St 69)]
        (St 0)),
    State 69 (\<lambda>c. switch c [(68, St 70), (100, St 70)]
        (St 0)),
    State 70 (\<lambda>c. switch c [(10, Tr 111), (13, Tr 112)]
        (St 0)),
    Trans 112 [C_Write_value] 71,
    State 71 (\<lambda>c. if c = 10 then Tr 113
      else St 0),
    Trans 101 [C_Done] 121]"

definition client_code_14 :: "client_action block list" where
  "client_code_14 = [
    State 121 (\<lambda>c. switch c [(32, St 63), (67, Tr 104), (99, Tr 104)]
        (if 9 \<le> c \<and> c \<le> 13 then St 63
         else St 0)),
    State 72 (\<lambda>c. switch c [(10, Tr 101), (32, St 63), (67, Tr 104), (99, Tr 104)]
        (if 9 \<le> c \<and> c \<le> 13 then St 63
         else St 0)),
    Trans 103 [C_Mark, C_Start_field] 73,
    State 73 (\<lambda>c. switch c [(33, St 21), (58, Tr 39), (72, St 74), (79, St 26), (104, St 74), (111, St 26), (124, St 21), (126, St 21)]
        (if c < 45 then (if c > 39 then (if 42 \<le> c \<and> c \<le> 43 then St 21
             else St 0)
           else if c \<ge> 35 then St 21
           else St 0)
         else if c > 46 then (if c < 65 then (if 48 \<le> c \<and> c \<le> 57 then St 21
             else St 0)
           else if c > 90 then (if 94 \<le> c \<and> c \<le> 122 then St 21
             else St 0)
           else St 21)
         else St 21)),
    State 74 (\<lambda>c. switch c [(33, St 21), (58, Tr 39), (85, St 75), (117, St 75), (124, St 21), (126, St 21)]
        (if c < 45 then (if c > 39 then (if 42 \<le> c \<and> c \<le> 43 then St 21
             else St 0)
           else if c \<ge> 35 then St 21
           else St 0)
         else if c > 46 then (if c < 65 then (if 48 \<le> c \<and> c \<le> 57 then St 21
             else St 0)
           else if c > 90 then (if 94 \<le> c \<and> c \<le> 122 then St 21
             else St 0)
           else St 21)
         else St 21)),
    State 75 (\<lambda>c. switch c [(33, St 21), (58, Tr 39), (78, St 76), (110, St 76), (124, St 21), (126, St 21)]
        (if c < 45 then (if c > 39 then (if 42 \<le> c \<and> c \<le> 43 then St 21
             else St 0)
           else if c \<ge> 35 then St 21
           else St 0)
         else if c > 46 then (if c < 65 then (if 48 \<le> c \<and> c \<le> 57 then St 21
             else St 0)
           else if c > 90 then (if 94 \<le> c \<and> c \<le> 122 then St 21
             else St 0)
           else St 21)
         else St 21))]"

definition client_code_15 :: "client_action block list" where
  "client_code_15 = [
    State 76 (\<lambda>c. switch c [(33, St 21), (58, Tr 39), (75, St 77), (107, St 77), (124, St 21), (126, St 21)]
        (if c < 45 then (if c > 39 then (if 42 \<le> c \<and> c \<le> 43 then St 21
             else St 0)
           else if c \<ge> 35 then St 21
           else St 0)
         else if c > 46 then (if c < 65 then (if 48 \<le> c \<and> c \<le> 57 then St 21
             else St 0)
           else if c > 90 then (if 94 \<le> c \<and> c \<le> 122 then St 21
             else St 0)
           else St 21)
         else St 21)),
    State 77 (\<lambda>c. switch c [(33, St 21), (58, Tr 39), (69, St 78), (101, St 78), (124, St 21), (126, St 21)]
        (if c < 45 then (if c > 39 then (if 42 \<le> c \<and> c \<le> 43 then St 21
             else St 0)
           else if c \<ge> 35 then St 21
           else St 0)
         else if c > 46 then (if c < 65 then (if 48 \<le> c \<and> c \<le> 57 then St 21
             else St 0)
           else if c > 90 then (if 94 \<le> c \<and> c \<le> 122 then St 21
             else St 0)
           else St 21)
         else St 21)),
    State 78 (\<lambda>c. switch c [(33, St 21), (58, Tr 39), (68, St 79), (100, St 79), (124, St 21), (126, St 21)]
        (if c < 45 then (if c > 39 then (if 42 \<le> c \<and> c \<le> 43 then St 21
             else St 0)
           else if c \<ge> 35 then St 21
           else St 0)
         else if c > 46 then (if c < 65 then (if 48 \<le> c \<and> c \<le> 57 then St 21
             else St 0)
           else if c > 90 then (if 94 \<le> c \<and> c \<le> 122 then St 21
             else St 0)
           else St 21)
         else St 21)),
    State 79 (\<lambda>c. switch c [(10, Tr 111), (13, Tr 112), (33, St 21), (58, Tr 39), (124, St 21), (126, St 21)]
        (if c < 45 then (if c > 39 then (if 42 \<le> c \<and> c \<le> 43 then St 21
             else St 0)
           else if c \<ge> 35 then St 21
           else St 0)
         else if c > 46 then (if c < 65 then (if 48 \<le> c \<and> c \<le> 57 then St 21
             else St 0)
           else if c > 90 then (if 94 \<le> c \<and> c \<le> 122 then St 21
             else St 0)
           else St 21)
         else St 21)),
    Trans 98 [C_Mark, C_Write_value] 80,
    State 80 (\<lambda>c. switch c [(10, St 62), (32, St 63), (67, Tr 104), (99, Tr 104)]
        (if 9 \<le> c \<and> c \<le> 13 then St 63
         else St 0)),
    Trans 99 [C_Mark] 81]"

definition client_code_16 :: "client_action block list" where
  "client_code_16 = [
    State 81 (\<lambda>c. switch c [(10, Tr 45), (13, Tr 46), (72, St 82), (104, St 82)]
        (St 23)),
    State 82 (\<lambda>c. switch c [(10, Tr 45), (13, Tr 46), (85, St 83), (117, St 83)]
        (St 23)),
    State 83 (\<lambda>c. switch c [(10, Tr 45), (13, Tr 46), (78, St 84), (110, St 84)]
        (St 23)),
    State 84 (\<lambda>c. switch c [(10, Tr 45), (13, Tr 46), (75, St 85), (107, St 85)]
        (St 23)),
    State 85 (\<lambda>c. switch c [(10, Tr 45), (13, Tr 46), (69, St 86), (101, St 86)]
        (St 23)),
    State 86 (\<lambda>c. switch c [(10, Tr 45), (13, Tr 46), (68, St 87), (100, St 87)]
        (St 23)),
    State 87 (\<lambda>c. switch c [(10, Tr 111), (13, Tr 112)]
        (St 23)),
    Trans 137 [C_Write_value] 88,
    State 88 (\<lambda>c. if c = 10 then St 43
      else St 0),
    Trans 64 [C_Done] 122,
    State 122 (\<lambda>c. switch c [(32, St 37), (67, St 38), (99, St 38)]
        (if 9 \<le> c \<and> c \<le> 13 then St 37
         else St 0)),
    State 89 (\<lambda>c. switch c [(10, Tr 64), (32, St 37), (67, St 38), (99, St 38)]
        (if 9 \<le> c \<and> c \<le> 13 then St 37
         else St 0)),
    Trans 66 [C_Start_field] 90]"

definition client_code_17 :: "client_action block list" where
  "client_code_17 = [
    State 90 (\<lambda>c. switch c [(33, St 21), (58, Tr 39), (76, St 91), (79, St 26), (108, St 91), (111, St 26), (124, St 21), (126, St 21)]
        (if c < 45 then (if c > 39 then (if 42 \<le> c \<and> c \<le> 43 then St 21
             else St 0)
           else if c \<ge> 35 then St 21
           else St 0)
         else if c > 46 then (if c < 65 then (if 48 \<le> c \<and> c \<le> 57 then St 21
             else St 0)
           else if c > 90 then (if 94 \<le> c \<and> c \<le> 122 then St 21
             else St 0)
           else St 21)
         else St 21)),
    State 91 (\<lambda>c. switch c [(33, St 21), (58, Tr 39), (79, St 92), (111, St 92), (124, St 21), (126, St 21)]
        (if c < 45 then (if c > 39 then (if 42 \<le> c \<and> c \<le> 43 then St 21
             else St 0)
           else if c \<ge> 35 then St 21
           else St 0)
         else if c > 46 then (if c < 65 then (if 48 \<le> c \<and> c \<le> 57 then St 21
             else St 0)
           else if c > 90 then (if 94 \<le> c \<and> c \<le> 122 then St 21
             else St 0)
           else St 21)
         else St 21)),
    State 92 (\<lambda>c. switch c [(33, St 21), (58, Tr 39), (83, St 93), (115, St 93), (124, St 21), (126, St 21)]
        (if c < 45 then (if c > 39 then (if 42 \<le> c \<and> c \<le> 43 then St 21
             else St 0)
           else if c \<ge> 35 then St 21
           else St 0)
         else if c > 46 then (if c < 65 then (if 48 \<le> c \<and> c \<le> 57 then St 21
             else St 0)
           else if c > 90 then (if 94 \<le> c \<and> c \<le> 122 then St 21
             else St 0)
           else St 21)
         else St 21)),
    State 93 (\<lambda>c. switch c [(33, St 21), (58, Tr 39), (69, St 94), (101, St 94), (124, St 21), (126, St 21)]
        (if c < 45 then (if c > 39 then (if 42 \<le> c \<and> c \<le> 43 then St 21
             else St 0)
           else if c \<ge> 35 then St 21
           else St 0)
         else if c > 46 then (if c < 65 then (if 48 \<le> c \<and> c \<le> 57 then St 21
             else St 0)
           else if c > 90 then (if 94 \<le> c \<and> c \<le> 122 then St 21
             else St 0)
           else St 21)
         else St 21)),
    State 94 (\<lambda>c. switch c [(10, St 43), (13, St 88), (33, St 21), (58, Tr 39), (124, St 21), (126, St 21)]
        (if c < 45 then (if c > 39 then (if 42 \<le> c \<and> c \<le> 43 then St 21
             else St 0)
           else if c \<ge> 35 then St 21
           else St 0)
         else if c > 46 then (if c < 65 then (if 48 \<le> c \<and> c \<le> 57 then St 21
             else St 0)
           else if c > 90 then (if 94 \<le> c \<and> c \<le> 122 then St 21
             else St 0)
           else St 21)
         else St 21))]"

definition client_code_18 :: "client_action block list" where
  "client_code_18 = [
    Trans 61 [C_Mark, C_Write_value] 95,
    State 95 (\<lambda>c. switch c [(10, St 36), (32, St 37), (67, St 38), (99, St 38)]
        (if 9 \<le> c \<and> c \<le> 13 then St 37
         else St 0)),
    Trans 62 [C_Mark] 96,
    State 96 (\<lambda>c. switch c [(10, Tr 45), (13, Tr 46), (76, St 97), (108, St 97)]
        (St 23)),
    State 97 (\<lambda>c. switch c [(10, Tr 45), (13, Tr 46), (79, St 98), (111, St 98)]
        (St 23)),
    State 98 (\<lambda>c. switch c [(10, Tr 45), (13, Tr 46), (83, St 99), (115, St 99)]
        (St 23)),
    State 99 (\<lambda>c. switch c [(10, Tr 45), (13, Tr 46), (69, St 100), (101, St 100)]
        (St 23)),
    State 100 (\<lambda>c. switch c [(10, Tr 136), (13, Tr 137)]
        (St 23)),
    State 101 (\<lambda>c. switch c [(33, St 21), (58, Tr 39), (69, St 102), (101, St 102), (124, St 21), (126, St 21)]
        (if c < 45 then (if c > 39 then (if 42 \<le> c \<and> c \<le> 43 then St 21
             else St 0)
           else if c \<ge> 35 then St 21
           else St 0)
         else if c > 46 then (if c < 65 then (if 48 \<le> c \<and> c \<le> 57 then St 21
             else St 0)
           else if c > 90 then (if 94 \<le> c \<and> c \<le> 122 then St 21
             else St 0)
           else St 21)
         else St 21)),
    State 102 (\<lambda>c. switch c [(33, St 21), (58, Tr 39), (78, St 103), (110, St 103), (124, St 21), (126, St 21)]
        (if c < 45 then (if c > 39 then (if 42 \<le> c \<and> c \<le> 43 then St 21
             else St 0)
           else if c \<ge> 35 then St 21
           else St 0)
         else if c > 46 then (if c < 65 then (if 48 \<le> c \<and> c \<le> 57 then St 21
             else St 0)
           else if c > 90 then (if 94 \<le> c \<and> c \<le> 122 then St 21
             else St 0)
           else St 21)
         else St 21))]"

definition client_code_19 :: "client_action block list" where
  "client_code_19 = [
    State 103 (\<lambda>c. switch c [(33, St 21), (58, Tr 39), (84, St 104), (116, St 104), (124, St 21), (126, St 21)]
        (if c < 45 then (if c > 39 then (if 42 \<le> c \<and> c \<le> 43 then St 21
             else St 0)
           else if c \<ge> 35 then St 21
           else St 0)
         else if c > 46 then (if c < 65 then (if 48 \<le> c \<and> c \<le> 57 then St 21
             else St 0)
           else if c > 90 then (if 94 \<le> c \<and> c \<le> 122 then St 21
             else St 0)
           else St 21)
         else St 21)),
    State 104 (\<lambda>c. switch c [(33, St 21), (45, St 105), (46, St 21), (58, Tr 39), (124, St 21), (126, St 21)]
        (if c < 48 then (if c > 39 then (if 42 \<le> c \<and> c \<le> 43 then St 21
             else St 0)
           else if c \<ge> 35 then St 21
           else St 0)
         else if c > 57 then (if c > 90 then (if 94 \<le> c \<and> c \<le> 122 then St 21
             else St 0)
           else if c \<ge> 65 then St 21
           else St 0)
         else St 21)),
    State 105 (\<lambda>c. switch c [(33, St 21), (58, Tr 39), (76, St 106), (108, St 106), (124, St 21), (126, St 21)]
        (if c < 45 then (if c > 39 then (if 42 \<le> c \<and> c \<le> 43 then St 21
             else St 0)
           else if c \<ge> 35 then St 21
           else St 0)
         else if c > 46 then (if c < 65 then (if 48 \<le> c \<and> c \<le> 57 then St 21
             else St 0)
           else if c > 90 then (if 94 \<le> c \<and> c \<le> 122 then St 21
             else St 0)
           else St 21)
         else St 21)),
    State 106 (\<lambda>c. switch c [(33, St 21), (58, Tr 39), (69, St 107), (101, St 107), (124, St 21), (126, St 21)]
        (if c < 45 then (if c > 39 then (if 42 \<le> c \<and> c \<le> 43 then St 21
             else St 0)
           else if c \<ge> 35 then St 21
           else St 0)
         else if c > 46 then (if c < 65 then (if 48 \<le> c \<and> c \<le> 57 then St 21
             else St 0)
           else if c > 90 then (if 94 \<le> c \<and> c \<le> 122 then St 21
             else St 0)
           else St 21)
         else St 21)),
    State 107 (\<lambda>c. switch c [(33, St 21), (58, Tr 39), (78, St 108), (110, St 108), (124, St 21), (126, St 21)]
        (if c < 45 then (if c > 39 then (if 42 \<le> c \<and> c \<le> 43 then St 21
             else St 0)
           else if c \<ge> 35 then St 21
           else St 0)
         else if c > 46 then (if c < 65 then (if 48 \<le> c \<and> c \<le> 57 then St 21
             else St 0)
           else if c > 90 then (if 94 \<le> c \<and> c \<le> 122 then St 21
             else St 0)
           else St 21)
         else St 21))]"

definition client_code_20 :: "client_action block list" where
  "client_code_20 = [
    State 108 (\<lambda>c. switch c [(33, St 21), (58, Tr 39), (71, St 109), (103, St 109), (124, St 21), (126, St 21)]
        (if c < 45 then (if c > 39 then (if 42 \<le> c \<and> c \<le> 43 then St 21
             else St 0)
           else if c \<ge> 35 then St 21
           else St 0)
         else if c > 46 then (if c < 65 then (if 48 \<le> c \<and> c \<le> 57 then St 21
             else St 0)
           else if c > 90 then (if 94 \<le> c \<and> c \<le> 122 then St 21
             else St 0)
           else St 21)
         else St 21)),
    State 109 (\<lambda>c. switch c [(33, St 21), (58, Tr 39), (84, St 110), (116, St 110), (124, St 21), (126, St 21)]
        (if c < 45 then (if c > 39 then (if 42 \<le> c \<and> c \<le> 43 then St 21
             else St 0)
           else if c \<ge> 35 then St 21
           else St 0)
         else if c > 46 then (if c < 65 then (if 48 \<le> c \<and> c \<le> 57 then St 21
             else St 0)
           else if c > 90 then (if 94 \<le> c \<and> c \<le> 122 then St 21
             else St 0)
           else St 21)
         else St 21)),
    State 110 (\<lambda>c. switch c [(33, St 21), (58, Tr 39), (72, St 111), (104, St 111), (124, St 21), (126, St 21)]
        (if c < 45 then (if c > 39 then (if 42 \<le> c \<and> c \<le> 43 then St 21
             else St 0)
           else if c \<ge> 35 then St 21
           else St 0)
         else if c > 46 then (if c < 65 then (if 48 \<le> c \<and> c \<le> 57 then St 21
             else St 0)
           else if c > 90 then (if 94 \<le> c \<and> c \<le> 122 then St 21
             else St 0)
           else St 21)
         else St 21)),
    State 111 (\<lambda>c. switch c [(33, St 21), (58, Tr 148), (124, St 21), (126, St 21)]
        (if c < 45 then (if c > 39 then (if 42 \<le> c \<and> c \<le> 43 then St 21
             else St 0)
           else if c \<ge> 35 then St 21
           else St 0)
         else if c > 46 then (if c < 65 then (if 48 \<le> c \<and> c \<le> 57 then St 21
             else St 0)
           else if c > 90 then (if 94 \<le> c \<and> c \<le> 122 then St 21
             else St 0)
           else St 21)
         else St 21)),
    Trans 149 [C_Mark] 112,
    Trans 148 [C_Write_field] 112,
    State 112 (\<lambda>c. switch c [(10, Tr 150), (13, Tr 151), (32, Tr 149)]
        (if c > 12 then (if 48 \<le> c \<and> c \<le> 57 then Tr 152
           else Tr 40)
         else if c \<ge> 9 then Tr 149
         else Tr 40))]"

definition client_code_21 :: "client_action block list" where
  "client_code_21 = [
    Trans 150 [C_Mark, C_Write_value] 113,
    State 113 (\<lambda>c. switch c [(10, Tr 154), (13, St 116), (32, St 114), (33, Tr 35), (67, Tr 36), (84, Tr 37), (99, Tr 36), (116, Tr 37), (124, Tr 35), (126, Tr 35)]
        (if c < 45 then (if c < 35 then (if 9 \<le> c \<and> c \<le> 12 then St 114
             else St 0)
           else if c > 39 then (if 42 \<le> c \<and> c \<le> 43 then Tr 35
             else St 0)
           else Tr 35)
         else if c > 46 then (if c < 65 then (if 48 \<le> c \<and> c \<le> 57 then Tr 156
             else St 0)
           else if c > 90 then (if 94 \<le> c \<and> c \<le> 122 then Tr 35
             else St 0)
           else Tr 35)
         else Tr 35)),
    State 114 (\<lambda>c. if c = 32 then St 114
      else if c > 13 then (if 48 \<le> c \<and> c \<le> 57 then Tr 157
        else St 0)
      else if c \<ge> 9 then St 114
      else St 0),
    Trans 157 [C_Mark] 115,
    State 115 (\<lambda>c. switch c [(10, Tr 158), (13, Tr 159)]
        (if 48 \<le> c \<and> c \<le> 57 then St 115
         else St 0)),
    Trans 154 [C_Done] 123,
    State 123 (\<lambda>c. if c = 32 then St 114
      else if c > 13 then (if 48 \<le> c \<and> c \<le> 57 then Tr 157
        else St 0)
      else if c \<ge> 9 then St 114
      else St 0),
    State 116 (\<lambda>c. switch c [(10, Tr 154), (32, St 114)]
        (if c > 13 then (if 48 \<le> c \<and> c \<le> 57 then Tr 157
           else St 0)
         else if c \<ge> 9 then St 114
         else St 0)),
    Trans 156 [C_Mark, C_Start_field] 117,
    State 117 (\<lambda>c. switch c [(10, Tr 158), (13, Tr 159), (33, St 21), (58, Tr 39), (124, St 21), (126, St 21)]
        (if c < 45 then (if c > 39 then (if 42 \<le> c \<and> c \<le> 43 then St 21
             else St 0)
           else if c \<ge> 35 then St 21
           else St 0)
         else if c > 46 then (if c < 65 then (if 48 \<le> c \<and> c \<le> 57 then St 117
             else St 0)
           else if c > 90 then (if 94 \<le> c \<and> c \<le> 122 then St 21
             else St 0)
           else St 21)
         else St 21))]"

definition client_code_22 :: "client_action block list" where
  "client_code_22 = [
    Trans 151 [C_Mark, C_Write_value] 118,
    State 118 (\<lambda>c. switch c [(10, St 113), (32, St 114)]
        (if c > 13 then (if 48 \<le> c \<and> c \<le> 57 then Tr 157
           else St 0)
         else if c \<ge> 9 then St 114
         else St 0)),
    Trans 152 [C_Mark] 119,
    State 119 (\<lambda>c. switch c [(10, Tr 158), (13, Tr 159)]
        (if 48 \<le> c \<and> c \<le> 57 then St 119
         else St 23))]"

definition client_code :: "client_action block list" where
  "client_code =
     client_code_1 @ client_code_2 @ client_code_3 @ client_code_4 @ client_code_5 @ client_code_6 @
     client_code_7 @ client_code_8 @ client_code_9 @ client_code_10 @ client_code_11 @ client_code_12 @
     client_code_13 @ client_code_14 @ client_code_15 @ client_code_16 @ client_code_17 @ client_code_18 @
     client_code_19 @ client_code_20 @ client_code_21 @ client_code_22"

text \<open>Which cases and transitions each part has.\<close>

lemmas client_code_defs =
  client_code_1_def client_code_2_def client_code_3_def client_code_4_def client_code_5_def client_code_6_def
  client_code_7_def client_code_8_def client_code_9_def client_code_10_def client_code_11_def client_code_12_def
  client_code_13_def client_code_14_def client_code_15_def client_code_16_def client_code_17_def client_code_18_def
  client_code_19_def client_code_20_def client_code_21_def client_code_22_def

lemma client_code_states:
  "block_states (client_code_1) = [1, 2, 120]"
  "block_states (client_code_2) = [3, 4, 5]"
  "block_states (client_code_3) = [6, 7, 8, 9, 10, 11, 12, 13, 14, 15, 16]"
  "block_states (client_code_4) = [17, 18, 19, 20]"
  "block_states (client_code_5) = [21, 22, 23, 24]"
  "block_states (client_code_6) = [25, 26, 27, 28, 29]"
  "block_states (client_code_7) = [30, 31, 32, 33, 34]"
  "block_states (client_code_8) = [35, 36, 37, 38, 39, 40, 41, 42]"
  "block_states (client_code_9) = [43, 44, 45, 46]"
  "block_states (client_code_10) = [47, 48, 49, 50, 51]"
  "block_states (client_code_11) = [52, 53, 54, 55, 56]"
  "block_states (client_code_12) = [57, 58, 59, 60, 61]"
  "block_states (client_code_13) = [62, 63, 64, 65, 66, 67, 68, 69, 70, 71]"
  "block_states (client_code_14) = [121, 72, 73, 74, 75]"
  "block_states (client_code_15) = [76, 77, 78, 79, 80]"
  "block_states (client_code_16) = [81, 82, 83, 84, 85, 86, 87, 88, 122, 89]"
  "block_states (client_code_17) = [90, 91, 92, 93, 94]"
  "block_states (client_code_18) = [95, 96, 97, 98, 99, 100, 101, 102]"
  "block_states (client_code_19) = [103, 104, 105, 106, 107]"
  "block_states (client_code_20) = [108, 109, 110, 111, 112]"
  "block_states (client_code_21) = [113, 114, 115, 123, 116, 117]"
  "block_states (client_code_22) = [118, 119]"
  by (simp_all only: client_code_defs block_states.simps)

lemma client_code_trans:
  "block_trans (client_code_1) = [0, 3, 7, 9, 15, 74, 4]"
  "block_trans (client_code_2) = [10, 16, 75, 6, 12, 18, 8, 13]"
  "block_trans (client_code_3) = [14, 2, 26, 27]"
  "block_trans (client_code_4) = [28, 30, 45, 32, 42, 111, 113, 158, 35, 76]"
  "block_trans (client_code_5) = [41, 39, 40, 46, 33, 43, 159, 36, 77]"
  "block_trans (client_code_6) = []"
  "block_trans (client_code_7) = [59]"
  "block_trans (client_code_8) = [58, 60, 136]"
  "block_trans (client_code_9) = [37, 78]"
  "block_trans (client_code_10) = []"
  "block_trans (client_code_11) = []"
  "block_trans (client_code_12) = [96, 95, 97]"
  "block_trans (client_code_13) = [104, 112, 101]"
  "block_trans (client_code_14) = [103]"
  "block_trans (client_code_15) = [98, 99]"
  "block_trans (client_code_16) = [137, 64, 66]"
  "block_trans (client_code_17) = []"
  "block_trans (client_code_18) = [61, 62]"
  "block_trans (client_code_19) = []"
  "block_trans (client_code_20) = [149, 148]"
  "block_trans (client_code_21) = [150, 157, 154, 156]"
  "block_trans (client_code_22) = [151, 152]"
  by (simp_all only: client_code_defs block_trans.simps)

section \<open>The machine\<close>

definition client_run :: client_machine where
  "client_run p0 buffer =
     (let (cs, n, pr, evs) =
        run_machine client_code (client_act buffer) (\<lambda>a. a = C_Done) 2 buffer 0 (c_cs p0) (p0, [])
      in (pr\<lparr>c_cs := cs\<rparr>, n, evs))"

end
