(* ===== verification/Response_Grammar.thy ===== *)
theory Response_Grammar
  imports Client_Machine Http_Grammar
begin

text \<open>
  What the response machine does with the text of a response. It knows the names \<open>connection\<close>,
  \<open>content-length\<close> and \<open>transfer-encoding\<close> and follows them letter by letter beside all other names, so
  the lemmas speak of sets of states.
\<close>

section \<open>The cases that a printed response visits\<close>

lemma client_at:
  "state_code client_code 1 = state_code client_code_1 1"
  "state_code client_code 8 = state_code client_code_3 8"
  "state_code client_code 9 = state_code client_code_3 9"
  "state_code client_code 10 = state_code client_code_3 10"
  "state_code client_code 11 = state_code client_code_3 11"
  "state_code client_code 12 = state_code client_code_3 12"
  "state_code client_code 13 = state_code client_code_3 13"
  "state_code client_code 14 = state_code client_code_3 14"
  "state_code client_code 15 = state_code client_code_3 15"
  "state_code client_code 16 = state_code client_code_3 16"
  "state_code client_code 17 = state_code client_code_4 17"
  "state_code client_code 18 = state_code client_code_4 18"
  "state_code client_code 19 = state_code client_code_4 19"
  "state_code client_code 24 = state_code client_code_5 24"
  "state_code client_code 20 = state_code client_code_4 20"
  "state_code client_code 43 = state_code client_code_9 43"
  "state_code client_code 3 = state_code client_code_2 3"
  "state_code client_code 21 = state_code client_code_5 21"
  "state_code client_code 25 = state_code client_code_6 25"
  "state_code client_code 26 = state_code client_code_6 26"
  "state_code client_code 27 = state_code client_code_6 27"
  "state_code client_code 28 = state_code client_code_6 28"
  "state_code client_code 29 = state_code client_code_6 29"
  "state_code client_code 30 = state_code client_code_7 30"
  "state_code client_code 31 = state_code client_code_7 31"
  "state_code client_code 32 = state_code client_code_7 32"
  "state_code client_code 33 = state_code client_code_7 33"
  "state_code client_code 34 = state_code client_code_7 34"
  "state_code client_code 44 = state_code client_code_9 44"
  "state_code client_code 45 = state_code client_code_9 45"
  "state_code client_code 46 = state_code client_code_9 46"
  "state_code client_code 47 = state_code client_code_10 47"
  "state_code client_code 48 = state_code client_code_10 48"
  "state_code client_code 49 = state_code client_code_10 49"
  "state_code client_code 50 = state_code client_code_10 50"
  "state_code client_code 51 = state_code client_code_10 51"
  "state_code client_code 52 = state_code client_code_11 52"
  "state_code client_code 53 = state_code client_code_11 53"
  "state_code client_code 54 = state_code client_code_11 54"
  "state_code client_code 55 = state_code client_code_11 55"
  "state_code client_code 56 = state_code client_code_11 56"
  "state_code client_code 57 = state_code client_code_12 57"
  "state_code client_code 58 = state_code client_code_12 58"
  "state_code client_code 59 = state_code client_code_12 59"
  "state_code client_code 60 = state_code client_code_12 60"
  "state_code client_code 101 = state_code client_code_18 101"
  "state_code client_code 102 = state_code client_code_18 102"
  "state_code client_code 103 = state_code client_code_19 103"
  "state_code client_code 104 = state_code client_code_19 104"
  "state_code client_code 105 = state_code client_code_19 105"
  "state_code client_code 106 = state_code client_code_19 106"
  "state_code client_code 107 = state_code client_code_19 107"
  "state_code client_code 108 = state_code client_code_20 108"
  "state_code client_code 109 = state_code client_code_20 109"
  "state_code client_code 110 = state_code client_code_20 110"
  "state_code client_code 111 = state_code client_code_20 111"
  "state_code client_code 22 = state_code client_code_5 22"
  "state_code client_code 35 = state_code client_code_8 35"
  "state_code client_code 61 = state_code client_code_12 61"
  "state_code client_code 112 = state_code client_code_20 112"
  "state_code client_code 23 = state_code client_code_5 23"
  "state_code client_code 81 = state_code client_code_16 81"
  "state_code client_code 82 = state_code client_code_16 82"
  "state_code client_code 83 = state_code client_code_16 83"
  "state_code client_code 84 = state_code client_code_16 84"
  "state_code client_code 85 = state_code client_code_16 85"
  "state_code client_code 86 = state_code client_code_16 86"
  "state_code client_code 87 = state_code client_code_16 87"
  "state_code client_code 96 = state_code client_code_18 96"
  "state_code client_code 97 = state_code client_code_18 97"
  "state_code client_code 98 = state_code client_code_18 98"
  "state_code client_code 99 = state_code client_code_18 99"
  "state_code client_code 100 = state_code client_code_18 100"
  "state_code client_code 119 = state_code client_code_22 119"
  "state_code client_code 88 = state_code client_code_16 88"
  "state_code client_code 71 = state_code client_code_13 71"
  by (simp_all add: client_code_def code_lookup client_code_states client_code_trans)

lemma client_trans:
  "trans_code client_code 0 = Some ([C_Mark], 2)"
  "trans_code client_code 2 = Some ([C_Mark], 8)"
  "trans_code client_code 7 = Some ([C_Done], 120)"
  "trans_code client_code 26 = Some ([C_Http_version], 16)"
  "trans_code client_code 27 = Some ([C_Mark], 17)"
  "trans_code client_code 28 = Some ([C_Status_code], 18)"
  "trans_code client_code 30 = Some ([C_Mark], 19)"
  "trans_code client_code 32 = Some ([C_Reason_phrase], 20)"
  "trans_code client_code 33 = Some ([C_Reason_phrase], 24)"
  "trans_code client_code 35 = Some ([C_Start_field], 21)"
  "trans_code client_code 36 = Some ([C_Start_field], 25)"
  "trans_code client_code 37 = Some ([C_Start_field], 44)"
  "trans_code client_code 39 = Some ([C_Write_field], 22)"
  "trans_code client_code 40 = Some ([C_Mark], 23)"
  "trans_code client_code 41 = Some ([C_Mark], 22)"
  "trans_code client_code 42 = Some ([C_Mark, C_Write_value], 20)"
  "trans_code client_code 43 = Some ([C_Mark, C_Write_value], 24)"
  "trans_code client_code 45 = Some ([C_Write_value], 20)"
  "trans_code client_code 46 = Some ([C_Write_value], 24)"
  "trans_code client_code 58 = Some ([C_Write_field], 35)"
  "trans_code client_code 59 = Some ([C_Mark], 35)"
  "trans_code client_code 60 = Some ([C_Mark, C_Write_value], 36)"
  "trans_code client_code 61 = Some ([C_Mark, C_Write_value], 95)"
  "trans_code client_code 62 = Some ([C_Mark], 96)"
  "trans_code client_code 74 = Some ([C_Connection_close, C_Done], 120)"
  "trans_code client_code 75 = Some ([C_Connection_close], 3)"
  "trans_code client_code 76 = Some ([C_Connection_close, C_Start_field], 21)"
  "trans_code client_code 77 = Some ([C_Connection_close, C_Start_field], 25)"
  "trans_code client_code 78 = Some ([C_Connection_close, C_Start_field], 44)"
  "trans_code client_code 95 = Some ([C_Write_field], 61)"
  "trans_code client_code 96 = Some ([C_Mark], 61)"
  "trans_code client_code 97 = Some ([C_Mark, C_Write_value], 62)"
  "trans_code client_code 98 = Some ([C_Mark, C_Write_value], 80)"
  "trans_code client_code 99 = Some ([C_Mark], 81)"
  "trans_code client_code 111 = Some ([C_Write_value, C_Transfer_chunked], 20)"
  "trans_code client_code 112 = Some ([C_Write_value], 71)"
  "trans_code client_code 113 = Some ([C_Transfer_chunked], 20)"
  "trans_code client_code 136 = Some ([C_Write_value], 43)"
  "trans_code client_code 137 = Some ([C_Write_value], 88)"
  "trans_code client_code 148 = Some ([C_Write_field], 112)"
  "trans_code client_code 149 = Some ([C_Mark], 112)"
  "trans_code client_code 150 = Some ([C_Mark, C_Write_value], 113)"
  "trans_code client_code 151 = Some ([C_Mark, C_Write_value], 118)"
  "trans_code client_code 152 = Some ([C_Mark], 119)"
  "trans_code client_code 158 = Some ([C_Content_length, C_Write_value], 20)"
  "trans_code client_code 159 = Some ([C_Content_length, C_Write_value], 24)"
  by (simp_all add: client_code_def code_lookup client_code_states client_code_trans) (simp_all only: client_code_defs code_find)

lemmas client_find = client_at code_find option.case
  client_code_1_def client_code_2_def client_code_3_def client_code_4_def client_code_5_def client_code_6_def
  client_code_7_def client_code_8_def client_code_9_def client_code_10_def client_code_11_def client_code_12_def
  client_code_13_def client_code_16_def client_code_18_def client_code_19_def client_code_20_def
  client_code_22_def

lemmas client_step = code_step client_trans

text \<open>The actions that only note what the known fields say; no callback looks at what they write.\<close>

definition noted :: "client_action \<Rightarrow> bool" where
  "noted a \<longleftrightarrow> a = C_Connection_close \<or> a = C_Content_length"

text \<open>A character leads from a state into a set of states, with the given actions beside noted ones.\<close>

definition leads :: "int \<Rightarrow> char \<Rightarrow> client_action list \<Rightarrow> int list \<Rightarrow> bool" where
  "leads s ch acts S \<longleftrightarrow>
     (case next_state client_code s ch of None \<Rightarrow> False | Some (acts', n) \<Rightarrow> filter (\<lambda>a. \<not> noted a) acts' = acts \<and> n \<in> set S)"

lemma leads_lands:
  "leads s ch acts S \<longleftrightarrow>
     (case state_code client_code s of None \<Rightarrow> False
      | Some f \<Rightarrow> lands client_code (\<lambda>c (acts', n). filter (\<lambda>a. \<not> noted a) acts' = acts \<and> n \<in> set S) (char_val ch) (f (char_val ch)))"
  by (simp add: leads_def lands_def next_state_def split: option.split)

definition line_states :: "int list" where "line_states = [20, 43]"

text \<open>The states in a name, by the known names: \<open>connection\<close> and all others, \<open>content-length\<close>, \<open>transfer-encoding\<close>.\<close>

definition connection_states :: "int list" where "connection_states = [21, 25, 26, 27, 28, 29, 30, 31, 32, 33, 34]"
definition length_states :: "int list" where "length_states = [101, 102, 103, 104, 105, 106, 107, 108, 109, 110, 111]"
definition other_states :: "int list" where "other_states = connection_states @ length_states"
definition encoding_states :: "int list" where "encoding_states = [44, 45, 46, 47, 48, 49, 50, 51, 52, 53, 54, 55, 56, 57, 58, 59, 60]"

text \<open>The states behind the letters of \<open>transfer-encoding\<close>, with the letters.\<close>

definition encoding_letters :: "(int \<times> int) list" where
  "encoding_letters =
    [(44, 116), (44, 84), (45, 114), (45, 82), (46, 97), (46, 65), (47, 110), (47, 78), (48, 115), (48, 83), (49, 102), (49, 70),
     (50, 101), (50, 69), (51, 114), (51, 82), (52, 45), (53, 101), (53, 69), (54, 110), (54, 78), (55, 99), (55, 67),
     (56, 111), (56, 79), (57, 100), (57, 68), (58, 105), (58, 73), (59, 110), (59, 78), (60, 103), (60, 71)]"

text \<open>A character leads to the states of other names, or with a letter of the known name to the given state.\<close>

definition follows :: "int \<Rightarrow> char \<Rightarrow> client_action list \<Rightarrow> int \<Rightarrow> bool" where
  "follows s ch acts m \<longleftrightarrow>
     (case next_state client_code s ch of None \<Rightarrow> False
      | Some (acts', n) \<Rightarrow> filter (\<lambda>a. \<not> noted a) acts' = acts
          \<and> (n \<in> set other_states \<or> n = m \<and> (m, char_val ch) \<in> set encoding_letters))"

lemma follows_lands:
  "follows s ch acts m \<longleftrightarrow>
     (case state_code client_code s of None \<Rightarrow> False
      | Some f \<Rightarrow> lands client_code (\<lambda>c (acts', n). filter (\<lambda>a. \<not> noted a) acts' = acts
          \<and> (n \<in> set other_states \<or> n = m \<and> (m, c) \<in> set encoding_letters)) (char_val ch) (f (char_val ch)))"
  by (simp add: follows_def lands_def next_state_def split: option.split)

definition colon_states :: "int list" where "colon_states = [22, 35, 112]"

definition value_states :: "int list" where "value_states = [23, 96, 97, 98, 99, 100, 119]"

definition value_ends :: "int list" where "value_ends = [24, 88]"

lemmas state_sets = line_states_def other_states_def connection_states_def length_states_def encoding_states_def append.simps
  encoding_letters_def colon_states_def value_states_def value_ends_def

section \<open>The status line\<close>

lemma status_steps:
  "next_state client_code 1 (CHR ''H'') = Some ([C_Mark], 8)" "next_state client_code 8 (CHR ''T'') = Some ([], 9)"
  "next_state client_code 9 (CHR ''T'') = Some ([], 10)" "next_state client_code 10 (CHR ''P'') = Some ([], 11)"
  "next_state client_code 11 (CHR ''/'') = Some ([], 12)" "next_state client_code 12 (CHR ''1'') = Some ([], 13)"
  "next_state client_code 13 (CHR ''.'') = Some ([], 14)" "next_state client_code 14 (CHR ''0'') = Some ([], 15)"
  "next_state client_code 14 (CHR ''1'') = Some ([], 15)" "next_state client_code 15 (CHR '' '') = Some ([C_Http_version], 16)"
  "next_state client_code 17 (CHR '' '') = Some ([C_Status_code], 18)"
  "next_state client_code 19 (CHR 0x0D) = Some ([C_Reason_phrase], 24)" "next_state client_code 24 (CHR 0x0A) = Some ([], 20)"
  by (simp_all only: next_state_def client_find) (simp_all add: client_step)

lemma status_code_steps:
  assumes "digit_char ch"
  shows "next_state client_code 16 ch = Some ([C_Mark], 17)" "next_state client_code 17 ch = Some ([], 17)"
  using assms by (simp_all only: next_state_def client_find) (simp_all add: client_step digit_char_def)

definition reason_char :: "char \<Rightarrow> bool" where
  "reason_char ch \<longleftrightarrow> char_val ch \<notin> {10, 13}"

lemma reason_steps:
  assumes "reason_char ch"
  shows "next_state client_code 18 ch = Some ([C_Mark], 19)" "next_state client_code 19 ch = Some ([], 19)"
  using assms by (simp_all only: next_state_def client_find) (simp_all add: client_step reason_char_def)

section \<open>Fields\<close>

lemma name_first:
  assumes "token_char ch"
  shows "list_all (\<lambda>s. follows s ch [C_Start_field] 44) line_states"
  by (simp only: follows_lands state_sets list.pred_inject client_find)
    (rule token_charE [OF assms]; simp add: lands_simps client_trans noted_def)

lemma name_connection:
  assumes "token_char ch"
  shows "list_all (\<lambda>s. leads s ch [] other_states) connection_states"
  by (simp only: leads_lands state_sets list.pred_inject client_find)
    (rule token_charE [OF assms]; simp add: lands_simps client_trans noted_def)

lemma name_length:
  assumes "token_char ch"
  shows "list_all (\<lambda>s. leads s ch [] other_states) length_states"
  by (simp only: leads_lands state_sets list.pred_inject client_find)
    (rule token_charE [OF assms]; simp add: lands_simps client_trans noted_def)

lemma name_other: "token_char ch \<Longrightarrow> list_all (\<lambda>s. leads s ch [] other_states) other_states"
  using name_connection [of ch] name_length [of ch] by (simp add: other_states_def)

lemma name_encoding:
  assumes "token_char ch"
  shows "list_all (\<lambda>s. follows s ch [] (s + 1)) encoding_states"
  by (simp only: follows_lands state_sets list.pred_inject client_find)
    (rule token_charE [OF assms]; simp add: lands_simps client_trans noted_def)

lemma name_colon:
  "list_all (\<lambda>s. leads s (CHR '':'') [C_Write_field] colon_states) (other_states @ butlast encoding_states)"
  by (simp add: encoding_states_def other_states_def connection_states_def length_states_def)
    (simp only: leads_lands client_find, simp add: lands_simps client_trans noted_def state_sets)

lemma colon_space: "list_all (\<lambda>s. leads s (CHR '' '') [C_Mark] colon_states) colon_states"
  by (simp only: leads_lands state_sets list.pred_inject client_find) (simp add: lands_simps client_trans noted_def)

lemma value_charE:
  assumes "value_char ch"
  obtains "char_val ch < 0" | "1 \<le> char_val ch" "char_val ch \<le> 9" | "11 \<le> char_val ch" "char_val ch \<le> 12"
    | "14 \<le> char_val ch" "char_val ch \<le> 126" | "128 \<le> char_val ch"
  using assms unfolding value_char_def by force

lemma blank_charE:
  assumes "value_char ch" and "char_val ch \<notin> {9, 11, 12, 32}"
  obtains "char_val ch < 0" | "1 \<le> char_val ch" "char_val ch \<le> 8" | "14 \<le> char_val ch" "char_val ch \<le> 31"
    | "33 \<le> char_val ch" "char_val ch \<le> 126" | "128 \<le> char_val ch"
  using assms unfolding value_char_def by force

lemma value_first:
  assumes "value_char ch" and "char_val ch \<notin> {9, 11, 12, 32}"
  shows "list_all (\<lambda>s. leads s ch [C_Mark] value_states) colon_states"
  by (simp only: leads_lands state_sets list.pred_inject client_find)
    (rule blank_charE [OF assms]; simp add: lands_simps client_trans noted_def)

lemma value_next:
  assumes "value_char ch"
  shows "list_all (\<lambda>s. leads s ch [] value_states) value_states"
  by (simp only: leads_lands state_sets list.pred_inject client_find)
    (rule value_charE [OF assms]; simp add: lands_simps client_trans noted_def)

lemma value_return: "list_all (\<lambda>s. leads s (CHR 0x0D) [C_Write_value] value_ends) value_states"
  by (simp only: leads_lands state_sets list.pred_inject client_find) (simp add: lands_simps client_trans noted_def)

lemma value_newline: "list_all (\<lambda>s. leads s (CHR 0x0A) [] line_states) value_ends"
  by (simp only: leads_lands state_sets list.pred_inject client_find) (simp add: lands_simps client_trans noted_def)

lemma head_return: "list_all (\<lambda>s. leads s (CHR 0x0D) [] [3]) line_states"
  by (simp only: leads_lands state_sets list.pred_inject client_find) (simp add: lands_simps client_trans noted_def)

lemma head_newline: "next_state client_code 3 (CHR 0x0A) = Some ([C_Done], 120)"
  by (simp only: next_state_def client_find) (simp add: client_step)

end
