(* ===== verification/Http_Responses.thy ===== *)
theory Http_Responses
  imports Response_Grammar Http_Requests
begin

text \<open>
  A printed response read back by the machine and the callbacks of the response parser.
\<close>

section \<open>Traces beside noted actions\<close>

abbreviation rsp_brk :: "client_action \<Rightarrow> bool" where
  "rsp_brk \<equiv> \<lambda>a. a = C_Done"

definition visible :: "(client_action \<times> nat) list \<Rightarrow> (client_action \<times> nat) list" where
  "visible tr = filter (\<lambda>(a, p). \<not> noted a) tr"

lemma visible_simps [simp]:
  "visible [] = []" "visible ((a, p) # tr) = (if noted a then visible tr else (a, p) # visible tr)"
  "visible (tr @ tr') = visible tr @ visible tr'"
  "visible (map (\<lambda>a. (a, p)) acts) = map (\<lambda>a. (a, p)) (filter (\<lambda>a. \<not> noted a) acts)"
proof -
  show "visible (map (\<lambda>a. (a, p)) acts) = map (\<lambda>a. (a, p)) (filter (\<lambda>a. \<not> noted a) acts)"
    by (induction acts) (simp_all add: visible_def)
qed (simp_all add: visible_def)

text \<open>A piece of text leads from a state into a set of states, with the given trace beside noted actions.\<close>

definition goes :: "string \<Rightarrow> nat \<Rightarrow> int \<Rightarrow> (client_action \<times> nat) list \<Rightarrow> int list \<Rightarrow> bool" where
  "goes xs p s t S \<longleftrightarrow> (\<exists>s' tr. trace client_code rsp_brk xs p s = Some (s', tr) \<and> visible tr = t \<and> s' \<in> set S)"

lemma goes_append:
  assumes "goes xs p s t S" and "\<And>s'. s' \<in> set S \<Longrightarrow> goes ys (p + length xs) s' t' S'"
  shows "goes (xs @ ys) p s (t @ t') S'"
proof -
  obtain s1 tr1 where 1: "trace client_code rsp_brk xs p s = Some (s1, tr1)" "visible tr1 = t" "s1 \<in> set S"
    using assms(1) by (auto simp: goes_def)
  obtain s2 tr2 where 2: "trace client_code rsp_brk ys (p + length xs) s1 = Some (s2, tr2)" "visible tr2 = t'" "s2 \<in> set S'"
    using assms(2) [OF 1(3)] by (auto simp: goes_def)
  show ?thesis unfolding goes_def using trace_append [OF 1(1) 2(1)] 1(2) 2(2,3) by auto
qed

lemma goes_char:
  assumes "list_all (\<lambda>s. leads s ch acts S) S0" and "s \<in> set S0" and "0 \<notin> set S" and "C_Done \<notin> set acts"
  shows "goes [ch] p s (map (\<lambda>a. (a, p)) acts) S"
proof -
  obtain acts' n where n: "next_state client_code s ch = Some (acts', n)" "filter (\<lambda>a. \<not> noted a) acts' = acts" "n \<in> set S"
    using assms(1,2) by (auto simp: list_all_iff leads_def split: option.splits)
  have "\<not> noted C_Done" by (simp add: noted_def)
  then have "C_Done \<notin> set acts'" using n(2) assms(4) by auto
  then have "\<not> list_ex rsp_brk acts'" by (auto simp: list_ex_iff)
  moreover have "n \<noteq> 0" using n(3) assms(3) by auto
  ultimately have "trace client_code rsp_brk [ch] p s = Some (n, map (\<lambda>a. (a, p)) acts')" using n(1) by simp
  then show ?thesis using n(2,3) by (auto simp: goes_def)
qed

lemma goes_loop:
  assumes "\<And>ch. ch \<in> set xs \<Longrightarrow> list_all (\<lambda>s. leads s ch [] S) S" and "s \<in> set S" and "0 \<notin> set S"
  shows "goes xs p s [] S"
  using assms(1,2)
proof (induction xs arbitrary: p s)
  case Nil
  then show ?case by (auto simp: goes_def)
next
  case (Cons ch xs)
  have "goes [ch] p s (map (\<lambda>a. (a, p)) []) S"
    by (rule goes_char [OF Cons.prems(1)]) (use Cons.prems(2) assms(3) in auto)
  from goes_append [OF this, of xs "[]" S] show ?case using Cons by auto
qed

lemma goes_trace: "trace client_code rsp_brk xs p s = Some (s', tr) \<Longrightarrow> visible tr = t \<Longrightarrow> s' \<in> set S \<Longrightarrow> goes xs p s t S"
  by (auto simp: goes_def)

section \<open>The status line\<close>

lemma goes_version:
  assumes "v = 0x10 \<or> v = 0x11"
  shows "goes (version_text v @ '' '') p 1 [(C_Mark, p), (C_Http_version, p + 8)] [16]"
proof -
  have t: "version_text 0x10 = ''HTTP/1.0''" "version_text 0x11 = ''HTTP/1.1''" by code_simp+
  show ?thesis by (rule goes_trace [of _ _ _ 16 "[(C_Mark, p), (C_Http_version, p + 8)]"])
      (use assms in \<open>auto simp: t status_steps noted_def\<close>)
qed

lemma goes_status: "goes (dec_digits n @ '' '') p 16 [(C_Mark, p), (C_Status_code, p + length (dec_digits n))] [18]"
proof -
  obtain c cs where cs: "dec_digits n = c # cs" "digit_char c" "list_all digit_char cs"
    using dec_digits_chars [of n] by (cases "dec_digits n") auto
  have "trace client_code rsp_brk cs (p + 1) 17 = Some (17, [])"
    using cs(3) by (intro trace_self) (auto simp: list_all_iff status_code_steps)
  then have "trace client_code rsp_brk (cs @ '' '') (p + 1) 17 = Some (18, [] @ [(C_Status_code, p + 1 + length cs)])"
    by (rule trace_append) (simp add: status_steps)
  then have "trace client_code rsp_brk (dec_digits n @ '' '') p 16 = Some (18, [(C_Mark, p), (C_Status_code, p + length (dec_digits n))])"
    using cs(2) by (simp add: cs(1) status_code_steps)
  then show ?thesis by (rule goes_trace) (simp_all add: noted_def)
qed

lemma goes_reason:
  assumes "reason \<noteq> []" and "list_all reason_char reason"
  shows "goes (reason @ CRLF) p 18 [(C_Mark, p), (C_Reason_phrase, p + length reason)] line_states"
proof -
  obtain c cs where cs: "reason = c # cs" "reason_char c" "list_all reason_char cs" using assms by (cases reason) auto
  have "trace client_code rsp_brk cs (p + 1) 19 = Some (19, [])"
    using cs(3) by (intro trace_self) (auto simp: list_all_iff reason_steps)
  then have "trace client_code rsp_brk (cs @ CRLF) (p + 1) 19 = Some (20, [] @ [(C_Reason_phrase, p + 1 + length cs)])"
    by (rule trace_append) (simp add: status_steps CRLF_def)
  then have "trace client_code rsp_brk (reason @ CRLF) p 18 = Some (20, [(C_Mark, p), (C_Reason_phrase, p + length reason)])"
    using cs(2) by (simp add: cs(1) reason_steps)
  then show ?thesis by (rule goes_trace) (simp_all add: noted_def line_states_def)
qed

section \<open>Fields\<close>

text \<open>
  Fields of requests whose value is there and starts with no blank, of which this machine knows more, and
  whose name is not the one that announces chunks.
\<close>

definition good_value_field :: "field_line \<Rightarrow> bool" where
  "good_value_field f \<longleftrightarrow> good_field f \<and> (case f of (k, sp, v) \<Rightarrow> v \<noteq> [] \<and> char_val (hd v) \<notin> {11, 12} \<and> fold_key k \<noteq> fold_key ''transfer-encoding'')"

definition value_field_trace :: "nat \<Rightarrow> field_line \<Rightarrow> (client_action \<times> nat) list" where
  "value_field_trace p = (\<lambda>(k, sp, v). let q = p + length k + 1 in
     [(C_Start_field, p), (C_Write_field, p + length k)] @ (if sp = [] then [] else [(C_Mark, q)])
     @ [(C_Mark, q + length sp), (C_Write_value, q + length sp + length v)])"

lemma no_error_states:
  "0 \<notin> set line_states" "0 \<notin> set other_states" "0 \<notin> set colon_states" "0 \<notin> set value_states" "0 \<notin> set value_ends"
  by (simp_all add: state_sets)

text \<open>Where a part of a name has led: only the beginning of the known name leads to the states of its letters.\<close>

definition name_at :: "string \<Rightarrow> int \<Rightarrow> bool" where
  "name_at xs s \<longleftrightarrow> s \<in> set other_states
     \<or> s = 43 + int (length xs) \<and> length xs \<in> {1..17} \<and> (\<forall>i<length xs. (44 + int i, char_val (xs ! i)) \<in> set encoding_letters)"

lemma followed:
  assumes "follows s ch acts m" and "C_Done \<notin> set acts" and "0 < m"
  obtains acts' n where "next_state client_code s ch = Some (acts', n)" "filter (\<lambda>a. \<not> noted a) acts' = acts" "n \<noteq> 0"
    "\<not> list_ex rsp_brk acts'" "n \<in> set other_states \<or> n = m \<and> (m, char_val ch) \<in> set encoding_letters"
proof -
  obtain acts' n where n: "next_state client_code s ch = Some (acts', n)" "filter (\<lambda>a. \<not> noted a) acts' = acts"
    "n \<in> set other_states \<or> n = m \<and> (m, char_val ch) \<in> set encoding_letters"
    using assms(1) by (auto simp: follows_def split: option.splits)
  have "\<not> noted C_Done" by (simp add: noted_def)
  then have "\<not> list_ex rsp_brk acts'" using n(2) assms(2) by (auto simp: list_ex_iff)
  moreover have "n \<noteq> 0" using n(3) assms(3) no_error_states(2) by auto
  ultimately show ?thesis using that n by blast
qed

lemma encoding_range:
  "44 \<le> s \<Longrightarrow> s \<le> 60 \<Longrightarrow> s \<in> set encoding_states"
  "44 \<le> s \<Longrightarrow> s \<le> 59 \<Longrightarrow> s \<in> set (butlast encoding_states)"
proof -
  have "butlast encoding_states = [44, 45, 46, 47, 48, 49, 50, 51, 52, 53, 54, 55, 56, 57, 58, 59]" by (simp add: encoding_states_def)
  then have "s \<in> {44..60} \<longleftrightarrow> s \<in> set encoding_states" "s \<in> {44..59} \<longleftrightarrow> s \<in> set (butlast encoding_states)"
    unfolding encoding_states_def by (simp_all only: list.set atLeastAtMost_iff insert_iff empty_iff) presburger+
  then show "44 \<le> s \<Longrightarrow> s \<le> 60 \<Longrightarrow> s \<in> set encoding_states"
    "44 \<le> s \<Longrightarrow> s \<le> 59 \<Longrightarrow> s \<in> set (butlast encoding_states)" by auto
qed

lemma name_at_step:
  assumes "name_at xs s" and "token_char ch"
  shows "\<exists>s' acts. next_state client_code s ch = Some (acts, s') \<and> filter (\<lambda>a. \<not> noted a) acts = [] \<and> s' \<noteq> 0
    \<and> \<not> list_ex rsp_brk acts \<and> name_at (xs @ [ch]) s'"
proof (cases "s \<in> set other_states")
  case True
  then have "leads s ch [] other_states" using name_other [OF assms(2)] by (simp add: list_all_iff)
  then obtain acts n where n: "next_state client_code s ch = Some (acts, n)" "filter (\<lambda>a. \<not> noted a) acts = []" "n \<in> set other_states"
    by (auto simp: leads_def split: option.splits)
  have "\<not> noted C_Done" by (simp add: noted_def)
  then have "\<not> list_ex rsp_brk acts" using n(2) by (auto simp: list_ex_iff filter_empty_conv)
  moreover have "n \<noteq> 0" using n(3) no_error_states(2) by auto
  ultimately show ?thesis using n by (auto simp: name_at_def)
next
  case False
  then have s: "s = 43 + int (length xs)" "length xs \<in> {1..17}" "\<forall>i<length xs. (44 + int i, char_val (xs ! i)) \<in> set encoding_letters"
    using assms(1) by (auto simp: name_at_def)
  have "s \<in> set encoding_states" using s(1,2) by (intro encoding_range) auto
  then have "follows s ch [] (s + 1)" using name_encoding [OF assms(2)] by (auto simp: list_all_iff)
  then obtain acts n where n: "next_state client_code s ch = Some (acts, n)" "filter (\<lambda>a. \<not> noted a) acts = []" "n \<noteq> 0"
    "\<not> list_ex rsp_brk acts" "n \<in> set other_states \<or> n = s + 1 \<and> (s + 1, char_val ch) \<in> set encoding_letters"
    by (rule followed) (use s in auto)
  have "name_at (xs @ [ch]) n" if "n = s + 1" "(s + 1, char_val ch) \<in> set encoding_letters"
  proof -
    have "s + 1 \<le> 60" using that(2) by (auto simp: encoding_letters_def)
    moreover have "(44 + int i, char_val ((xs @ [ch]) ! i)) \<in> set encoding_letters" if "i < length (xs @ [ch])" for i
    proof (cases "i < length xs")
      case True
      then show ?thesis using s(3) by (simp add: nth_append)
    next
      case False
      then have "i = length xs" using that by simp
      then show ?thesis using \<open>(s + 1, char_val ch) \<in> set encoding_letters\<close> s(1) by (simp add: add.commute)
    qed
    ultimately show ?thesis using s(1) that(1) by (simp add: name_at_def)
  qed
  then show ?thesis using n by (auto simp: name_at_def)
qed

lemma trace_name_at:
  assumes "name_at xs s" and "list_all token_char ys"
  shows "\<exists>s' tr. trace client_code rsp_brk ys p s = Some (s', tr) \<and> visible tr = [] \<and> name_at (xs @ ys) s'"
  using assms
proof (induction ys arbitrary: xs s p)
  case (Cons ch ys)
  obtain s1 acts where s1: "next_state client_code s ch = Some (acts, s1)" "filter (\<lambda>a. \<not> noted a) acts = []" "s1 \<noteq> 0"
    "\<not> list_ex rsp_brk acts" "name_at (xs @ [ch]) s1"
    using name_at_step [OF Cons.prems(1), of ch] Cons.prems(2) by auto
  obtain s' tr where s': "trace client_code rsp_brk ys (p + 1) s1 = Some (s', tr)" "visible tr = []" "name_at ((xs @ [ch]) @ ys) s'"
    using Cons.IH [OF s1(5), of "p + 1"] Cons.prems(2) by auto
  then show ?case using s1 by auto
qed auto

text \<open>The letters of the known name, which are all that leads to its last state.\<close>

lemma char_code_val:
  assumes "0 \<le> char_val c"
  shows "int (char_code c) = (if 65 \<le> char_val c \<and> char_val c \<le> 90 then char_val c + 32 else char_val c)"
proof -
  obtain k where k_def: "k = (of_char c :: nat)" by simp
  have bound: "k < 256" unfolding k_def by (rule nat_of_char_less_256)
  have "char_val c = (if int k < 128 then int k else int k - 256)"
    unfolding char_val_def Let_def k_def by (simp only: of_nat_of_char)
  with assms bound have n: "char_val c = int k" by (simp split: if_splits)
  have "char_code c = (if 65 \<le> k \<and> k \<le> 90 then k + 32 else k)"
    unfolding char_code_def to_lower_def k_def by (auto simp: of_char_of)
  then show ?thesis unfolding n by simp
qed

lemma encoding_name:
  assumes "list_all token_char k" and "length k = 17" and "\<forall>i<length k. (44 + int i, char_val (k ! i)) \<in> set encoding_letters"
  shows "fold_key k = fold_key ''transfer-encoding''"
proof -
  have code: "char_code (k ! i) = fold_key ''transfer-encoding'' ! i" if "i < 17" for i
  proof -
    have "(44 + int i, char_val (k ! i)) \<in> set encoding_letters" using assms(2,3) that by simp
    moreover have "list_all (\<lambda>(n, c). 0 \<le> c \<and> 44 \<le> n \<and> (if 65 \<le> c \<and> c \<le> 90 then c + 32 else c)
        = int (fold_key ''transfer-encoding'' ! nat (n - 44))) encoding_letters"
      by code_simp
    ultimately show ?thesis using char_code_val [of "k ! i"] by (auto simp: list_all_iff)
  qed
  have "c \<noteq> CHR 0x00" if "c \<in> set k" for c using assms(1) that by (auto simp: list_all_iff token_char_def char_val_def)
  then have "c_str k = k" by (intro c_str_id) auto
  then have "fold_key k = map char_code k" by (simp add: fold_key_def)
  moreover have "map char_code k = fold_key ''transfer-encoding''"
  proof (rule nth_equalityI)
    show "length (map char_code k) = length (fold_key ''transfer-encoding'')" using assms(2) by (simp add: fold_key_def c_str_def)
  qed (use code assms(2) in auto)
  ultimately show ?thesis by simp
qed

lemma goes_name:
  assumes "k \<noteq> []" and "list_all token_char k" and "fold_key k \<noteq> fold_key ''transfer-encoding''" and "s \<in> set line_states"
  shows "goes (k @ '':'') p s [(C_Start_field, p), (C_Write_field, p + length k)] colon_states"
proof -
  obtain c cs where k: "k = c # cs" "token_char c" "list_all token_char cs" using assms(1,2) by (cases k) auto
  have "follows s c [C_Start_field] 44" using name_first [OF k(2)] assms(4) by (simp add: list_all_iff)
  then obtain acts n where n: "next_state client_code s c = Some (acts, n)" "filter (\<lambda>a. \<not> noted a) acts = [C_Start_field]" "n \<noteq> 0"
    "\<not> list_ex rsp_brk acts" "n \<in> set other_states \<or> n = 44 \<and> (44, char_val c) \<in> set encoding_letters"
    by (rule followed) auto
  have "name_at [c] n" using n(5) by (auto simp: name_at_def)
  from trace_name_at [OF this k(3), of "p + 1"] obtain s' tr where s': "trace client_code rsp_brk cs (p + 1) n = Some (s', tr)"
    "visible tr = []" "name_at k s'" by (auto simp: k(1))
  have first: "goes k p s [(C_Start_field, p)] [s']"
    by (rule goes_trace [where s' = s' and tr = "map (\<lambda>a. (a, p)) acts @ tr"]) (use n s' in \<open>simp_all add: k(1)\<close>)
  have "s' \<in> set (other_states @ butlast encoding_states)"
  proof (cases "s' \<in> set other_states")
    case False
    then have at: "s' = 43 + int (length k)" "length k \<in> {1..17}" "\<forall>i<length k. (44 + int i, char_val (k ! i)) \<in> set encoding_letters"
      using s'(3) by (auto simp: name_at_def)
    then have "length k \<noteq> 17" using encoding_name [OF assms(2)] assms(3) by blast
    then have "s' \<in> set (butlast encoding_states)" using at(1,2) by (intro encoding_range) auto
    then show ?thesis by simp
  qed simp
  from goes_char [OF name_colon this] have "goes '':'' (p + length k) s' [(C_Write_field, p + length k)] colon_states"
    by (simp add: no_error_states)
  then show ?thesis using goes_append [OF first, of "'':''" "[(C_Write_field, p + length k)]" colon_states] by simp
qed

lemma goes_value:
  assumes "v \<noteq> []" and "list_all value_char v" and "char_val (hd v) \<notin> {9, 11, 12, 32}" and "s \<in> set colon_states"
  shows "goes (v @ CRLF) p s [(C_Mark, p), (C_Write_value, p + length v)] line_states"
proof -
  obtain c cs where v: "v = c # cs" "value_char c" "list_all value_char cs" "char_val c \<notin> {9, 11, 12, 32}"
    using assms(1-3) by (cases v) auto
  have "goes [c] p s (map (\<lambda>a. (a, p)) [C_Mark]) value_states"
    by (rule goes_char [OF value_first [OF v(2,4)] assms(4)]) (simp_all add: no_error_states)
  moreover have "goes cs (p + length [c]) s' [] value_states" if "s' \<in> set value_states" for s'
    by (rule goes_loop [OF value_next that]) (use v(3) in \<open>auto simp: list_all_iff no_error_states\<close>)
  ultimately have "goes ([c] @ cs) p s (map (\<lambda>a. (a, p)) [C_Mark] @ []) value_states" by (rule goes_append)
  moreover have "goes CRLF (p + length ([c] @ cs)) s' [(C_Write_value, p + length ([c] @ cs))] line_states" if "s' \<in> set value_states" for s'
  proof -
    let ?q = "p + length ([c] @ cs)"
    have "goes [CHR 0x0D] ?q s' (map (\<lambda>a. (a, ?q)) [C_Write_value]) value_ends"
      by (rule goes_char [OF value_return that]) (simp_all add: no_error_states)
    moreover have "goes [CHR 0x0A] (?q + length [CHR 0x0D]) s'' (map (\<lambda>a. (a, ?q + length [CHR 0x0D])) []) line_states" if "s'' \<in> set value_ends" for s''
      by (rule goes_char [OF value_newline that]) (simp_all add: no_error_states)
    ultimately show ?thesis using goes_append [of "[CHR 0x0D]" ?q s' "[(C_Write_value, ?q)]" value_ends "[CHR 0x0A]" "[]" line_states]
      by (simp add: CRLF_def)
  qed
  ultimately have "goes (([c] @ cs) @ CRLF) p s ((map (\<lambda>a. (a, p)) [C_Mark] @ []) @ [(C_Write_value, p + length ([c] @ cs))]) line_states"
    by (rule goes_append)
  then show ?thesis by (simp add: v(1))
qed

lemma goes_field:
  assumes "good_value_field f" and "s \<in> set line_states"
  shows "goes (field_text f) p s (value_field_trace p f) line_states"
proof -
  obtain k sp v where f: "f = (k, sp, v)" by (cases f)
  note good = assms(1) [unfolded good_value_field_def good_field_def f prod.case]
  let ?q = "p + length (k @ '':'')"
  have val: "goes (v @ CRLF) q s' [(C_Mark, q), (C_Write_value, q + length v)] line_states" if "s' \<in> set colon_states" for s' q
    by (rule goes_value [OF _ _ _ that]) (use good in auto)
  have "goes (sp @ v @ CRLF) ?q s' ((if sp = [] then [] else [(C_Mark, ?q)])
      @ [(C_Mark, ?q + length sp), (C_Write_value, ?q + length sp + length v)]) line_states" if "s' \<in> set colon_states" for s'
  proof (cases "sp = []")
    case True
    then show ?thesis using val [OF that, of ?q] by simp
  next
    case False
    then have sp: "sp = '' ''" using good by auto
    have "goes '' '' ?q s' (map (\<lambda>a. (a, ?q)) [C_Mark]) colon_states"
      by (rule goes_char [OF colon_space that]) (simp_all add: no_error_states)
    from goes_append [OF this val] show ?thesis by (simp add: sp)
  qed
  from goes_append [OF goes_name [OF _ _ _ assms(2)] this] show ?thesis
    using good by (cases "sp = []") (simp_all add: f field_text_def value_field_trace_def Let_def)
qed

fun value_fields_trace :: "nat \<Rightarrow> field_line list \<Rightarrow> (client_action \<times> nat) list" where
  "value_fields_trace p [] = []"
| "value_fields_trace p (f # fs) = value_field_trace p f @ value_fields_trace (p + length (field_text f)) fs"

lemma goes_fields:
  assumes "list_all good_value_field fs" and "s \<in> set line_states"
  shows "goes (concat (map field_text fs)) p s (value_fields_trace p fs) line_states"
  using assms
proof (induction fs arbitrary: p s)
  case Nil
  then show ?case by (auto simp: goes_def)
next
  case (Cons f fs)
  have "goes (field_text f @ concat (map field_text fs)) p s (value_field_trace p f @ value_fields_trace (p + length (field_text f)) fs) line_states"
    by (rule goes_append [OF goes_field]) (use Cons in auto)
  then show ?case by simp
qed

section \<open>The callbacks\<close>

text \<open>What the callbacks get does not depend on what the noted actions write.\<close>

definition same_marks :: "client_regs \<Rightarrow> client_regs \<Rightarrow> bool" where
  "same_marks r r' \<longleftrightarrow> snd r = snd r' \<and> c_chunked (fst r) = c_chunked (fst r') \<and> c_mark (fst r) = c_mark (fst r') \<and> c_field_start (fst r) = c_field_start (fst r')
     \<and> c_field_len (fst r) = c_field_len (fst r')"

lemma same_marks_act:
  assumes "same_marks r r'"
  shows "same_marks (client_act buf a p r) (client_act buf a p r')"
  using assms by (cases r; cases r'; cases a) (auto simp: same_marks_def Let_def)

lemma same_marks_noted: "noted a \<Longrightarrow> same_marks (client_act buf a p r) r"
  by (cases r) (auto simp: same_marks_def noted_def)

lemma perform_visible:
  assumes "same_marks r r'"
  shows "same_marks (perform (client_act buf) tr r) (perform (client_act buf) (visible tr) r')"
  using assms
proof (induction tr arbitrary: r r')
  case (Cons ap tr)
  obtain a p where ap: "ap = (a, p)" by (cases ap)
  show ?case
  proof (cases "noted a")
    case True
    have "same_marks (client_act buf a p r) r'" using same_marks_noted [OF True, of buf p r] Cons.prems by (simp add: same_marks_def)
    then show ?thesis using Cons.IH True by (simp add: ap)
  next
    case False
    then show ?thesis using Cons.IH [OF same_marks_act [OF Cons.prems]] by (simp add: ap)
  qed
qed simp

definition rsp_calls :: "(string \<Rightarrow> int) \<Rightarrow> string \<Rightarrow> (client_action \<times> nat) list \<Rightarrow> (response_parser \<Rightarrow> response_parser) \<Rightarrow> bool" where
  "rsp_calls atoi buf tr f \<longleftrightarrow>
     (\<forall>pr evs. \<exists>pr' evs'. perform (client_act buf) tr (pr, evs) = (pr', evs @ evs') \<and> c_chunked pr' = c_chunked pr
        \<and> fold (response_event atoi) evs' = f)"

lemma rsp_calls_append:
  assumes "rsp_calls atoi buf tr f" and "rsp_calls atoi buf tr' g"
  shows "rsp_calls atoi buf (tr @ tr') (g \<circ> f)"
  unfolding rsp_calls_def
proof (intro allI)
  fix pr evs
  obtain pr1 evs1 where 1: "perform (client_act buf) tr (pr, evs) = (pr1, evs @ evs1)" "fold (response_event atoi) evs1 = f"
    "c_chunked pr1 = c_chunked pr"
    using assms(1) unfolding rsp_calls_def by blast
  obtain pr2 evs2 where 2: "perform (client_act buf) tr' (pr1, evs @ evs1) = (pr2, (evs @ evs1) @ evs2)" "fold (response_event atoi) evs2 = g"
    "c_chunked pr2 = c_chunked pr1"
    using assms(2) unfolding rsp_calls_def by blast
  have "fold (response_event atoi) (evs1 @ evs2) = g \<circ> f" using 1(2) 2(2) by simp
  then show "\<exists>pr' evs'. perform (client_act buf) (tr @ tr') (pr, evs) = (pr', evs @ evs') \<and> c_chunked pr' = c_chunked pr
      \<and> fold (response_event atoi) evs' = g \<circ> f"
    using 1 2 by (intro exI [of _ pr2] exI [of _ "evs1 @ evs2"]) simp
qed

abbreviation on_response :: "(response \<Rightarrow> response) \<Rightarrow> response_parser \<Rightarrow> response_parser" where
  "on_response f sp \<equiv> sp\<lparr>sp_response := f (sp_response sp)\<rparr>"

lemma rsp_calls_field:
  assumes "buf = pre @ field_text f @ post" and "good_field f"
  shows "rsp_calls atoi buf (value_field_trace (length pre) f) (case f of (k, sp, v) \<Rightarrow> on_response (rsp_setHeader k v))"
  using assms by (cases f)
    (auto simp: rsp_calls_def value_field_trace_def field_text_def Let_def good_field_def on_response_http_field_def fun_eq_iff)

lemma rsp_calls_fields:
  assumes "buf = pre @ concat (map field_text fs) @ post" and "list_all good_value_field fs"
  shows "rsp_calls atoi buf (value_fields_trace (length pre) fs) (on_response (fold (\<lambda>(k, sp, v). rsp_setHeader k v) fs))"
  using assms
proof (induction fs arbitrary: pre)
  case Nil
  then show ?case by (auto simp: rsp_calls_def fun_eq_iff)
next
  case (Cons f fs)
  have "rsp_calls atoi buf (value_field_trace (length pre) f @ value_fields_trace (length (pre @ field_text f)) fs)
     (on_response (fold (\<lambda>(k, sp, v). rsp_setHeader k v) fs) \<circ> (case f of (k, sp, v) \<Rightarrow> on_response (rsp_setHeader k v)))"
    by (intro rsp_calls_append rsp_calls_field Cons.IH) (use Cons.prems in \<open>auto simp: good_value_field_def\<close>)
  moreover have "on_response (fold (\<lambda>(k, sp, v). rsp_setHeader k v) fs) \<circ> (case f of (k, sp, v) \<Rightarrow> on_response (rsp_setHeader k v))
      = on_response (fold (\<lambda>(k, sp, v). rsp_setHeader k v) (f # fs))"
    by (cases f) (simp add: fun_eq_iff)
  ultimately show ?case by simp
qed

lemma rsp_calls_version:
  assumes "buf = pre @ version_text v @ '' '' @ post" and "v = 0x10 \<or> v = 0x11"
  shows "rsp_calls atoi buf [(C_Mark, length pre), (C_Http_version, length pre + 8)] (on_response (\<lambda>rs. rs\<lparr>rs_version := v\<rparr>))"
proof -
  have t: "version_text 0x10 = ''HTTP/1.0''" "version_text 0x11 = ''HTTP/1.1''" by code_simp+
  have "version_of (version_text v @ rest) 8 = Some v" for rest
    using assms(2) by (auto simp: t version_of_def strncmp_eq_def c_str_def)
  then show ?thesis using assms(1) by (auto simp: rsp_calls_def fun_eq_iff on_response_http_version_def)
qed

lemma rsp_calls_status:
  assumes "buf = pre @ dec_digits n @ '' '' @ post" and "n < 2 ^ 31"
  shows "rsp_calls (strtol 10) buf [(C_Mark, length pre), (C_Status_code, length pre + length (dec_digits n))]
    (on_response (\<lambda>rs. rs\<lparr>rs_status := int n\<rparr>))"
proof -
  have "strtol 10 (dec_digits n @ CHR '' '' # post) = int n"
    using assms(2) by (intro strtol_digits) (simp_all add: number_ends_def digit_value_def)
  then show ?thesis using assms(1) by (auto simp: rsp_calls_def fun_eq_iff on_response_status_code_def)
qed

lemma rsp_calls_reason:
  assumes "buf = pre @ reason @ post"
  shows "rsp_calls atoi buf [(C_Mark, length pre), (C_Reason_phrase, length pre + length reason)]
    (on_response (\<lambda>rs. rs\<lparr>rs_reason := reason\<rparr>))"
  using assms by (auto simp: rsp_calls_def fun_eq_iff on_response_reason_phrase_def)

section \<open>The whole head\<close>

definition response_text :: "8 word \<Rightarrow> nat \<Rightarrow> string \<Rightarrow> field_line list \<Rightarrow> string" where
  "response_text v n reason fs =
     version_text v @ '' '' @ dec_digits n @ '' '' @ reason @ CRLF @ concat (map field_text fs) @ CRLF"

definition good_response :: "8 word \<Rightarrow> nat \<Rightarrow> string \<Rightarrow> field_line list \<Rightarrow> bool" where
  "good_response v n reason fs \<longleftrightarrow>
     v \<in> {0x10, 0x11} \<and> n < 2 ^ 31 \<and> reason \<noteq> [] \<and> list_all reason_char reason \<and> list_all good_value_field fs"

definition read_response :: "8 word \<Rightarrow> nat \<Rightarrow> string \<Rightarrow> field_line list \<Rightarrow> response \<Rightarrow> response" where
  "read_response v n reason fs rs =
     fold (\<lambda>(k, sp, v). rsp_setHeader k v) fs (rs\<lparr>rs_version := v, rs_status := int n, rs_reason := reason\<rparr>)"

lemma response_text_runs:
  assumes "good_response v n reason fs" and buf: "buf = response_text v n reason fs @ body"
  shows "\<exists>pr' evs. run_machine client_code (client_act buf) rsp_brk 2 buf 0 1 (pr, [])
      = (120, length (response_text v n reason fs), pr', evs)
    \<and> c_chunked pr' = c_chunked pr \<and> fold (response_event (strtol 10)) evs = on_response (read_response v n reason fs)"
proof -
  have ok: "v = 0x10 \<or> v = 0x11" "n < 2 ^ 31" "reason \<noteq> []" "list_all reason_char reason" "list_all good_value_field fs"
    using assms(1) by (auto simp: good_response_def)
  let ?v = "version_text v @ '' ''" and ?n = "dec_digits n @ '' ''" and ?r = "reason @ CRLF" and ?fs = "concat (map field_text fs)"
  let ?p1 = "length ?v" and ?p2 = "length (?v @ ?n)" and ?p3 = "length (?v @ ?n @ ?r)"
  let ?tv = "[(C_Mark, 0), (C_Http_version, 8)]" and ?tn = "[(C_Mark, ?p1), (C_Status_code, ?p1 + length (dec_digits n))]"
    and ?tr = "[(C_Mark, ?p2), (C_Reason_phrase, ?p2 + length reason)]" and ?tf = "value_fields_trace ?p3 fs"
  have "goes (?v @ ?n @ ?r @ ?fs @ [CHR 0x0D]) 0 1 (?tv @ ?tn @ ?tr @ ?tf @ []) [3]"
  proof (intro goes_append)
    show "goes ?v 0 1 ?tv [16]" using goes_version [OF ok(1), of 0] by simp
    show "goes ?n (0 + length ?v) s' ?tn [18]" if "s' \<in> set [16]" for s' using goes_status [of n ?p1] that by simp
    show "goes ?r (0 + length ?v + length ?n) s' ?tr line_states" if "s' \<in> set [18]" for s'
      using goes_reason [OF ok(3,4), of ?p2] that by simp
    show "goes ?fs (0 + length ?v + length ?n + length ?r) s' ?tf line_states" if "s' \<in> set line_states" for s'
      using goes_fields [OF ok(5) that, of ?p3] by (simp add: add.assoc)
    show "goes [CHR 0x0D] (0 + length ?v + length ?n + length ?r + length ?fs) s' [] [3]" if "s' \<in> set line_states" for s'
      using goes_char [OF head_return that] by simp
  qed
  then obtain tr where tr: "trace client_code rsp_brk (?v @ ?n @ ?r @ ?fs @ [CHR 0x0D]) 0 1 = Some (3, tr)"
    "visible tr = ?tv @ ?tn @ ?tr @ ?tf" by (auto simp: goes_def)
  have parts: "rsp_calls (strtol 10) buf (?tv @ ?tn @ ?tr @ ?tf)
      (((on_response (fold (\<lambda>(k, sp, v). rsp_setHeader k v) fs) \<circ> on_response (\<lambda>rs. rs\<lparr>rs_reason := reason\<rparr>))
        \<circ> on_response (\<lambda>rs. rs\<lparr>rs_status := int n\<rparr>)) \<circ> on_response (\<lambda>rs. rs\<lparr>rs_version := v\<rparr>))"
  proof (intro rsp_calls_append)
    show "rsp_calls (strtol 10) buf ?tv (on_response (\<lambda>rs. rs\<lparr>rs_version := v\<rparr>))"
      using rsp_calls_version [of buf "[]" v "?n @ ?r @ ?fs @ CRLF @ body"] ok(1) by (simp add: buf response_text_def)
    show "rsp_calls (strtol 10) buf ?tn (on_response (\<lambda>rs. rs\<lparr>rs_status := int n\<rparr>))"
      using ok(2) by (intro rsp_calls_status [where post = "?r @ ?fs @ CRLF @ body"]) (simp_all add: buf response_text_def)
    show "rsp_calls (strtol 10) buf ?tr (on_response (\<lambda>rs. rs\<lparr>rs_reason := reason\<rparr>))"
      by (rule rsp_calls_reason [where post = "CRLF @ ?fs @ CRLF @ body"]) (simp add: buf response_text_def)
    show "rsp_calls (strtol 10) buf ?tf (on_response (fold (\<lambda>(k, sp, v). rsp_setHeader k v) fs))"
      by (rule rsp_calls_fields [where post = "CRLF @ body", OF _ ok(5)]) (simp add: buf response_text_def)
  qed
  have all: "(((on_response (fold (\<lambda>(k, sp, v). rsp_setHeader k v) fs) \<circ> on_response (\<lambda>rs. rs\<lparr>rs_reason := reason\<rparr>))
        \<circ> on_response (\<lambda>rs. rs\<lparr>rs_status := int n\<rparr>)) \<circ> on_response (\<lambda>rs. rs\<lparr>rs_version := v\<rparr>)) = on_response (read_response v n reason fs)"
    by (simp add: fun_eq_iff read_response_def)
  obtain pr1 evs where ev: "perform (client_act buf) (?tv @ ?tn @ ?tr @ ?tf) (pr, []) = (pr1, [] @ evs)"
    "c_chunked pr1 = c_chunked pr" "fold (response_event (strtol 10)) evs = on_response (read_response v n reason fs)"
    using parts unfolding all rsp_calls_def by blast
  have "same_marks (perform (client_act buf) tr (pr, [])) (pr1, evs)"
    using perform_visible [of "(pr, [])" "(pr, [])" buf tr] ev(1) by (simp add: tr(2) same_marks_def)
  then obtain pr2 where performed: "perform (client_act buf) tr (pr, []) = (pr2, evs)" "c_chunked pr2 = c_chunked pr1" by (auto simp: same_marks_def prod_eq_iff)
  have whole: "(?v @ ?n @ ?r @ ?fs @ [CHR 0x0D]) @ CHR 0x0A # body = buf" by (simp add: buf response_text_def CRLF_def)
  have len: "length (response_text v n reason fs) = length (?v @ ?n @ ?r @ ?fs @ [CHR 0x0D]) + 1"
    by (simp add: response_text_def CRLF_def)
  note run = run_trace [OF tr(1), of "client_act buf" 2 "CHR 0x0A # body" "(pr, [])", unfolded whole performed(1) add_0]
  show ?thesis unfolding run len using ev(2,3) performed(2) by (simp add: head_newline comp_def)
qed

section \<open>No assertion fails\<close>

definition client_inv :: "nat \<Rightarrow> nat \<Rightarrow> client_regs \<Rightarrow> bool" where
  "client_inv len p = (\<lambda>(pr, evs). c_mark pr \<le> p \<and> c_mark pr < len \<and> c_field_start pr \<le> p \<and> c_field_start pr < len
     \<and> c_field_len pr \<le> len \<and> c_body_start pr \<le> len)"

interpretation client_keeps: machine_inv "client_act buffer" "length buffer" "client_inv (length buffer)" for buffer
proof
  fix a :: client_action and p r
  assume "p < length buffer" "client_inv (length buffer) p r"
  then show "client_inv (length buffer) p (client_act buffer a p r)"
    by (cases r; cases a) (auto simp: client_inv_def Let_def)
qed (auto simp: client_inv_def)

lemma response_execute_run:
  assumes "run_machine client_code (client_act data) rsp_brk 2 data 0 (c_cs p0) (p0, []) = (cs, n, pr, evs)"
    and "p0 = (if chunck then httpclient_parser_init (sp_parser sp) else sp_parser sp)\<lparr>c_nread := 0, c_mark := 0, c_field_len := 0, c_field_start := 0\<rparr>"
    and "data \<noteq> []" and "chunck \<or> c_body_start (sp_parser sp) \<le> length data"
  shows "response_execute client_run atoi data chunck sp
    = Inr (n, drop n data, (fold (response_event atoi) evs sp)\<lparr>sp_parser := pr\<lparr>c_cs := cs, c_nread := n\<rparr>\<rparr>)" and "n \<le> length data"
proof -
  have "client_inv (length data) 0 (p0, [])" using assms(2-4) by (auto simp: client_inv_def httpclient_parser_init_def)
  from client_keeps.run_keeps [OF this, of data client_code rsp_brk 2 "c_cs p0"]
  have inv: "client_inv (length data) n (pr, evs)" "n \<le> length data" unfolding assms(1) prod.case by simp_all
  have "client_run p0 data = (pr\<lparr>c_cs := cs\<rparr>, n, evs)" unfolding client_run_def assms(1) by simp
  then show "response_execute client_run atoi data chunck sp
    = Inr (n, drop n data, (fold (response_event atoi) evs sp)\<lparr>sp_parser := pr\<lparr>c_cs := cs, c_nread := n\<rparr>\<rparr>)"
    using inv assms(3) unfolding assms(2)
    by (simp add: response_execute_def httpclient_parser_execute_def client_inv_def Let_def)
  show "n \<le> length data" by (rule inv(2))
qed



section \<open>The round trip\<close>

definition printed_reason :: "response \<Rightarrow> string" where
  "printed_reason rs = (if rs_reason rs \<noteq> [] then rs_reason rs else HttpStatusToString (rs_status rs))"

definition printed_response_fields :: "response \<Rightarrow> field_line list" where
  "printed_response_fields rs =
     map (\<lambda>(k, v). (k, [], v)) (filter (\<lambda>(k, v). strcasecmp k ''connection'' \<noteq> 0) (rs_headers rs))
     @ [(''connection'', '' '', if rs_close rs then ''close'' else ''keep-alive'')]
     @ (if rs_body rs = [] then [] else [(''content-length'', '' '', dec_digits (length (rs_body rs)))])"

definition printable_response :: "response \<Rightarrow> bool" where
  "printable_response rs \<longleftrightarrow> rs_version rs \<in> {0x10, 0x11} \<and> 0 \<le> rs_status rs \<and> rs_status rs < 2 ^ 31
     \<and> list_all reason_char (rs_reason rs) \<and> list_all (\<lambda>(k, v). good_value_field (k, [], v)) (rs_headers rs)"

text \<open>What is printed in front of the body.\<close>

definition response_head :: "response \<Rightarrow> string" where
  "response_head rs = response_text (rs_version rs) (nat (rs_status rs)) (printed_reason rs) (printed_response_fields rs)"

lemma dump_response_text:
  assumes "0 \<le> rs_status rs" and "rs_status rs < 2 ^ 31"
  shows "dump_response rs = response_head rs @ rs_body rs"
proof -
  have "dump_fields m = concat (map field_text (map (\<lambda>(k, v). (k, [], v)) (filter (\<lambda>(k, v). strcasecmp k ''connection'' \<noteq> 0) m)))" for m
    by (induction m) (auto simp: dump_fields_def field_text_def)
  moreover have "rs_status rs mod 2 ^ 32 = rs_status rs" using assms by simp
  ultimately show ?thesis
    by (simp add: dump_response_def response_head_def response_text_def printed_response_fields_def printed_reason_def dump_body_def field_text_def)
qed

lemma printed_reason_good:
  assumes "list_all reason_char (rs_reason rs)"
  shows "printed_reason rs \<noteq> [] \<and> list_all reason_char (printed_reason rs)"
proof -
  have "\<forall>(n, s) \<in> set status_strings. s \<noteq> [] \<and> list_all reason_char s" by (simp add: status_strings_def reason_char_def char_val_def)
  then have "HttpStatusToString n \<noteq> [] \<and> list_all reason_char (HttpStatusToString n)" for n
    by (auto simp: HttpStatusToString_def reason_char_def char_val_def dest!: map_of_SomeD split: option.split)
  then show ?thesis using assms by (simp add: printed_reason_def)
qed

lemma printed_response_fields_good:
  assumes "list_all (\<lambda>(k, v). good_value_field (k, [], v)) (rs_headers rs)"
  shows "list_all good_value_field (printed_response_fields rs)"
proof -
  have names: "fold_key ''connection'' \<noteq> fold_key ''transfer-encoding''" "fold_key ''content-length'' \<noteq> fold_key ''transfer-encoding''" by code_simp+
  then have "good_value_field (''connection'', '' '', ''close'')" "good_value_field (''connection'', '' '', ''keep-alive'')"
    by (simp_all add: good_value_field_def good_field_def token_char_def value_char_def char_val_def)
  moreover have "good_value_field (''content-length'', '' '', dec_digits n)" for n
  proof -
    have digits: "list_all digit_char (dec_digits n)" "dec_digits n \<noteq> []" using dec_digits_chars by auto
    then have "digit_char (hd (dec_digits n))" by (simp add: list_all_iff)
    moreover have "list_all value_char (dec_digits n)" using digits(1) by (auto simp: list_all_iff digit_char_def value_char_def)
    ultimately show ?thesis using digits(2) names
      by (auto simp: good_value_field_def good_field_def token_char_def digit_char_def char_val_def)
  qed
  ultimately show ?thesis using assms by (auto simp: printed_response_fields_def list_all_iff)
qed

lemma fold_rsp_setHeader:
  "rs_headers (fold (\<lambda>(k, v). rsp_setHeader k v) m rs) = fold (\<lambda>(k, v). ci_set k v) m (rs_headers rs)"
  "rs_status (fold (\<lambda>(k, v). rsp_setHeader k v) m rs) = rs_status rs"
  "rs_version (fold (\<lambda>(k, v). rsp_setHeader k v) m rs) = rs_version rs"
  "rs_reason (fold (\<lambda>(k, v). rsp_setHeader k v) m rs) = rs_reason rs"
  "rs_body (fold (\<lambda>(k, v). rsp_setHeader k v) m rs) = rs_body rs"
  by (induction m arbitrary: rs) (auto simp: rsp_setHeader_def)

text \<open>The head is read in the same way whatever has come behind it.\<close>

lemma response_head_read:
  assumes "printable_response rs" and "ci_sorted (rs_headers rs)"
  shows "\<exists>pr R. response_execute client_run (strtol 10) (response_head rs @ rest) False (HttpResponseParser p) =
      Inr (length (response_head rs), rest, \<lparr>sp_parser = pr, sp_response = R, sp_error = 0\<rparr>)
    \<and> httpclient_parser_finish pr = 1 \<and> \<not> c_chunked pr \<and> rs_body R = []
    \<and> rs_status R = rs_status rs \<and> rs_version R = rs_version rs
    \<and> rs_reason R = (if rs_reason rs \<noteq> [] then rs_reason rs else HttpStatusToString (rs_status rs))
    \<and> (\<forall>key. ci_find key (rs_headers R) =
          (if rs_body rs \<noteq> [] \<and> fold_key key = fold_key ''content-length'' then Some (dec_digits (length (rs_body rs)))
           else if fold_key key = fold_key ''connection'' then Some (if rs_close rs then ''close'' else ''keep-alive'')
           else ci_find key (rs_headers rs)))"
proof -
  let ?n = "nat (rs_status rs)" and ?reason = "printed_reason rs" and ?fs = "printed_response_fields rs"
  let ?t = "response_head rs"
  let ?R = "read_response (rs_version rs) ?n ?reason ?fs (HttpResponse 0x11 True)"
  let ?p0 = "(httpclient_parser_init p)\<lparr>c_nread := 0, c_mark := 0, c_field_len := 0, c_field_start := 0\<rparr>"
  have status: "0 \<le> rs_status rs" "rs_status rs < 2 ^ 31" using assms(1) by (simp_all add: printable_response_def)
  have good: "good_response (rs_version rs) ?n ?reason ?fs"
    using assms(1) printed_reason_good printed_response_fields_good by (auto simp: printable_response_def good_response_def)
  obtain pr evs where run: "run_machine client_code (client_act (?t @ rest)) rsp_brk 2 (?t @ rest) 0 1 (?p0, [])
      = (120, length ?t, pr, evs)" and plain: "\<not> c_chunked pr" and evs: "fold (response_event (strtol 10)) evs = on_response (read_response (rs_version rs) ?n ?reason ?fs)"
    using response_text_runs [OF good, of "?t @ rest" rest ?p0] by (auto simp: httpclient_parser_init_def response_head_def)
  have ne: "?t \<noteq> []" by (simp add: response_head_def response_text_def CRLF_def)
  have fin: "response_execute client_run (strtol 10) (?t @ rest) False (HttpResponseParser p) =
      Inr (length ?t, rest, \<lparr>sp_parser = pr\<lparr>c_cs := 120, c_nread := length ?t\<rparr>, sp_response = ?R, sp_error = 0\<rparr>)"
    using run evs ne by (subst response_execute_run [where ?p0.0 = ?p0 and cs = 120 and n = "length ?t" and pr = pr and evs = evs])
      (simp_all add: HttpResponseParser_def httpclient_parser_init_def httpclient_parser_start_def)
  have finish: "httpclient_parser_finish (pr\<lparr>c_cs := 120, c_nread := length ?t\<rparr>) = 1"
    by (simp add: httpclient_parser_finish_def httpclient_parser_has_error_def httpclient_parser_is_finished_def
        httpclient_parser_error_def httpclient_parser_first_final_def)
  let ?hs = "filter (\<lambda>(k, v). fold_key k \<noteq> fold_key ''connection'') (rs_headers rs)"
  let ?con = "if rs_close rs then ''close'' else ''keep-alive''"
  let ?rs0 = "(HttpResponse 0x11 True)\<lparr>rs_version := rs_version rs, rs_status := int ?n, rs_reason := ?reason\<rparr>"
  let ?kvs = "?hs @ [(''connection'', ?con)] @ (if rs_body rs = [] then [] else [(''content-length'', dec_digits (length (rs_body rs)))])"
  have R: "?R = fold (\<lambda>(k, v). rsp_setHeader k v) ?kvs ?rs0"
    by (simp add: read_response_def printed_response_fields_def strcasecmp_zero_iff fold_map comp_def split_def)
  have line: "rs_status ?R = rs_status rs" "rs_version ?R = rs_version rs" "rs_reason ?R = ?reason" "rs_body ?R = []"
    unfolding R fold_rsp_setHeader using status by (simp_all add: HttpResponse_def)
  have sorted: "ci_sorted (fold (\<lambda>(k, v). ci_set k v) m m0)" if "ci_sorted m0" for m m0 :: "string ci_map"
    using that by (induction m arbitrary: m0) (auto simp: ci_set_sorted)
  have hs: "ci_abs (fold (\<lambda>(k, v). ci_set k v) ?hs []) = (ci_abs (rs_headers rs))(fold_key ''connection'' := None)"
    using ci_abs_fold [OF ci_sorted_filter [OF assms(2)], of "\<lambda>(k, v). fold_key k \<noteq> fold_key ''connection''" "[]"]
    by (simp add: ci_abs_filter)
  have headers: "rs_headers ?R = fold (\<lambda>(k, v). ci_set k v) ?kvs []"
    unfolding R fold_rsp_setHeader by (simp add: HttpResponse_def)
  have "ci_abs (rs_headers ?R) = (if rs_body rs = [] then (ci_abs (rs_headers rs))(fold_key ''connection'' \<mapsto> ?con)
      else (ci_abs (rs_headers rs))(fold_key ''connection'' \<mapsto> ?con, fold_key ''content-length'' \<mapsto> dec_digits (length (rs_body rs))))"
    unfolding headers fold_append comp_apply by (simp add: ci_set_abs hs)
  moreover have "ci_sorted (rs_headers ?R)" unfolding headers by (rule sorted) simp
  ultimately have fields: "ci_find key (rs_headers ?R) =
      (if rs_body rs \<noteq> [] \<and> fold_key key = fold_key ''content-length'' then Some (dec_digits (length (rs_body rs)))
       else if fold_key key = fold_key ''connection'' then Some ?con else ci_find key (rs_headers rs))" for key
    by (simp add: ci_find_abs ci_find_abs [OF assms(2)])
  show ?thesis using fin finish plain line fields unfolding printed_reason_def [of rs, symmetric]
    by (intro exI [of _ "pr\<lparr>c_cs := 120, c_nread := length ?t\<rparr>"] exI [of _ ?R]) simp
qed

text \<open>
  C8: A response whose reason has no line break and whose fields are tokens with values that start with no
  blank, printed and received in one buffer, is read back: the parser goes over exactly the head and is finished
  without an error, with the status, the version and the reason of the response, its fields, and the
  connection and length lines. Fields that announce chunks are left out.
\<close>

theorem printed_response_is_read:
  assumes "printable_response rs" and "ci_sorted (rs_headers rs)"
  shows "\<exists>pr R. response_execute client_run (strtol 10) (dump_response rs) False (HttpResponseParser p) =
      Inr (length (dump_response rs) - length (rs_body rs), rs_body rs, \<lparr>sp_parser = pr, sp_response = R, sp_error = 0\<rparr>)
    \<and> httpclient_parser_finish pr = 1 \<and> \<not> c_chunked pr
    \<and> rs_status R = rs_status rs \<and> rs_version R = rs_version rs
    \<and> rs_reason R = (if rs_reason rs \<noteq> [] then rs_reason rs else HttpStatusToString (rs_status rs))
    \<and> (\<forall>key. ci_find key (rs_headers R) =
          (if rs_body rs \<noteq> [] \<and> fold_key key = fold_key ''content-length'' then Some (dec_digits (length (rs_body rs)))
           else if fold_key key = fold_key ''connection'' then Some (if rs_close rs then ''close'' else ''keep-alive'')
           else ci_find key (rs_headers rs)))"
  using response_head_read [OF assms, of "rs_body rs" p] dump_response_text [of rs] assms(1)
  by (auto simp: printable_response_def)

definition sample_page :: response where
  "sample_page = (rsp_setHeader ''Server'' ''kit'' (HttpResponse 0x11 False))\<lparr>rs_status := 404, rs_body := ''no''\<rparr>"

theorem printed_response_is_read_witness:
  "\<exists>pr R. response_execute client_run (strtol 10) (dump_response sample_page) False
        (HttpResponseParser (httpclient_parser.make 0 0 0 False False False 0 0 0 0)) =
      Inr (length (dump_response sample_page) - 2, ''no'', \<lparr>sp_parser = pr, sp_response = R, sp_error = 0\<rparr>)
    \<and> rs_status R = 404 \<and> rs_reason R = ''Not Found''"
proof -
  have "printable_response sample_page" "ci_sorted (rs_headers sample_page)" "rs_reason sample_page = []" "rs_body sample_page = ''no''" "rs_status sample_page = 404"
    "HttpStatusToString 404 = ''Not Found''" by code_simp+
  then show ?thesis using printed_response_is_read [of sample_page "httpclient_parser.make 0 0 0 False False False 0 0 0 0"] by auto
qed

end
