(* ===== verification/Log_Formatter.thy ===== *)
theory Log_Formatter
  imports Strings
begin

text \<open>
  \<open>Log.cpp\<close>, levels and formatting: the names of the levels, the parser of a pattern with its
  little automaton for braces, and the text that a formatter makes of an event. A level is the
  number behind the enumeration, since 100 is used as a level as well. What \<open>strftime\<close> makes of a
  format and a time is a parameter.
\<close>

section \<open>Levels\<close>

type_synonym level = nat

definition level_names :: "(level \<times> string) list" where
  "level_names = [(1, ''DEBUG''), (2, ''INFO''), (3, ''WARN''), (5, ''FATAL''), (4, ''ERROR'')]"

definition LogLevel_ToString :: "level \<Rightarrow> string" where
  "LogLevel_ToString l = (case map_of level_names l of None \<Rightarrow> ''UNKNOW'' | Some s \<Rightarrow> s)"

definition LogLevel_FromString :: "string \<Rightarrow> level" where
  "LogLevel_FromString val =
     (case List.find (\<lambda>(l, s). strcasecmp val s = 0) level_names of None \<Rightarrow> 0 | Some (l, s) \<Rightarrow> l)"

section \<open>Events and items\<close>

record log_event =
  ev_file :: string
  ev_line :: nat
  ev_elapse :: nat
  ev_threadid :: nat
  ev_thread_name :: string
  ev_coroutineid :: nat
  ev_time :: nat
  ev_content :: string
  ev_logger :: string
  ev_level :: level

datatype format_item =
    MessageFormatItem | LevelFormatItem | ElapseFormatItem | LogNameFormatItem | ThreadIdFormatItem
  | ThreadNameFormatItem | CoroutineIdFormatItem | DateTimeFormatItem string | LineFormatItem
  | NewLineFormatItem | FileNameFormatItem | StringFormatItem string | TabFormatItem

fun item_format :: "(string \<Rightarrow> nat \<Rightarrow> string) \<Rightarrow> level \<Rightarrow> log_event \<Rightarrow> format_item \<Rightarrow> string" where
  "item_format strftime level ev MessageFormatItem = ev_content ev"
| "item_format strftime level ev LevelFormatItem = LogLevel_ToString level"
| "item_format strftime level ev ElapseFormatItem = dec_digits (ev_elapse ev)"
| "item_format strftime level ev LogNameFormatItem = ev_logger ev"
| "item_format strftime level ev ThreadIdFormatItem = dec_digits (ev_threadid ev)"
| "item_format strftime level ev ThreadNameFormatItem = ev_thread_name ev"
| "item_format strftime level ev CoroutineIdFormatItem = dec_digits (ev_coroutineid ev)"
| "item_format strftime level ev (DateTimeFormatItem fmt) = strftime (c_str fmt) (ev_time ev)"
| "item_format strftime level ev LineFormatItem = dec_digits (ev_line ev)"
| "item_format strftime level ev NewLineFormatItem = [CHR 0x0A]"
| "item_format strftime level ev FileNameFormatItem = ev_file ev"
| "item_format strftime level ev (StringFormatItem s) = s"
| "item_format strftime level ev TabFormatItem = [CHR 0x09]"

definition new_DateTimeFormatItem :: "string \<Rightarrow> format_item" where
  "new_DateTimeFormatItem fmt = DateTimeFormatItem (if fmt = [] then ''%Y-%m-%d %H:%M:%S'' else fmt)"

definition s_format_items :: "(string \<times> (string \<Rightarrow> format_item)) list" where
  "s_format_items =
    [(''m'', \<lambda>_. MessageFormatItem), (''p'', \<lambda>_. LevelFormatItem), (''r'', \<lambda>_. ElapseFormatItem),
     (''t'', \<lambda>_. ThreadIdFormatItem), (''tn'', \<lambda>_. ThreadNameFormatItem), (''d'', new_DateTimeFormatItem),
     (''l'', \<lambda>_. LineFormatItem), (''n'', \<lambda>_. NewLineFormatItem), (''f'', \<lambda>_. FileNameFormatItem),
     (''T'', \<lambda>_. TabFormatItem), (''c'', \<lambda>_. CoroutineIdFormatItem), (''g'', \<lambda>_. LogNameFormatItem)]"

section \<open>The parser of patterns\<close>

definition isalpha :: "char \<Rightarrow> bool" where
  "isalpha c \<longleftrightarrow> (let n = of_char c :: nat in 65 \<le> n \<and> n \<le> 90 \<or> 97 \<le> n \<and> n \<le> 122)"

definition substr :: "nat \<Rightarrow> nat \<Rightarrow> string \<Rightarrow> string" where
  "substr p n s = take n (drop p s)"

text \<open>The inner loop: the index it stops at, the name, the text between braces, and the state.\<close>

function scan_item ::
  "string \<Rightarrow> nat \<Rightarrow> nat \<Rightarrow> string \<Rightarrow> nat \<Rightarrow> nat \<Rightarrow> nat \<times> string \<times> string \<times> nat" where
  "scan_item pat i index pcahr fmt_status fmt_begin =
     (if index < length pat then
        let c = pat ! index in
        if fmt_status = 0 \<and> \<not> isalpha c \<and> c \<noteq> CHR ''{'' \<and> c \<noteq> CHR ''}''
        then (index, substr (i + 1) (index - i - 1) pat, [], fmt_status)
        else if fmt_status = 0 \<and> c = CHR ''{''
        then scan_item pat i (index + 1) (substr (i + 1) (index - i - 1) pat) 1 index
        else if fmt_status = 1 \<and> c = CHR ''}''
        then (index + 1, pcahr, substr (fmt_begin + 1) (index - fmt_begin - 1) pat, 0)
        else scan_item pat i (index + 1)
               (if index + 1 = length pat \<and> pcahr = [] then drop (i + 1) pat else pcahr) fmt_status fmt_begin
      else (index, pcahr, [], fmt_status))"
  by pat_completeness auto
termination
  by (relation "measure (\<lambda>(pat, i, index, _). length pat - index)") auto

declare scan_item.simps [simp del]

lemma scan_item_forward: "index \<le> fst (scan_item pat i index pcahr st b)"
proof (induction pat i index pcahr st b rule: scan_item.induct)
  case (1 pat i index pcahr st b)
  show ?case
  proof (cases "index < length pat")
    case True
    let ?c = "pat ! index"
    consider "st = 0 \<and> \<not> isalpha ?c \<and> ?c \<noteq> CHR ''{'' \<and> ?c \<noteq> CHR ''}''"
      | "\<not> (st = 0 \<and> \<not> isalpha ?c \<and> ?c \<noteq> CHR ''{'' \<and> ?c \<noteq> CHR ''}'')" "st = 0 \<and> ?c = CHR ''{''"
      | "\<not> (st = 0 \<and> \<not> isalpha ?c \<and> ?c \<noteq> CHR ''{'' \<and> ?c \<noteq> CHR ''}'')" "\<not> (st = 0 \<and> ?c = CHR ''{'')"
          "st = 1 \<and> ?c = CHR ''}''"
      | "\<not> (st = 0 \<and> \<not> isalpha ?c \<and> ?c \<noteq> CHR ''{'' \<and> ?c \<noteq> CHR ''}'')" "\<not> (st = 0 \<and> ?c = CHR ''{'')"
          "\<not> (st = 1 \<and> ?c = CHR ''}'')"
      by blast
    then show ?thesis
    proof cases
      case 1
      then show ?thesis using True by (subst scan_item.simps) simp
    next
      case 2
      then show ?thesis using 1(1) [OF True refl 2] True by (subst scan_item.simps) simp
    next
      case 3
      then show ?thesis using True by (subst scan_item.simps) simp
    next
      case 4
      have "scan_item pat i index pcahr st b =
          scan_item pat i (index + 1) (if index + 1 = length pat \<and> pcahr = [] then drop (i + 1) pat else pcahr) st b"
        by (subst scan_item.simps) (simp only: Let_def if_P [OF True] if_not_P [OF 4(1)] if_not_P [OF 4(2)] if_not_P [OF 4(3)])
      then show ?thesis using 1(2) [OF True refl 4] by simp
    qed
  qed (subst scan_item.simps, simp)
qed

text \<open>The pieces: text or name, what was between braces, and whether it is a name.\<close>

type_synonym piece = "string \<times> string \<times> bool"

function parse_pattern :: "string \<Rightarrow> nat \<Rightarrow> string \<Rightarrow> piece list \<Rightarrow> bool \<Rightarrow> piece list \<times> bool" where
  "parse_pattern pat i str mv err =
     (if i < length pat then
        if pat ! i \<noteq> CHR ''%'' then parse_pattern pat (i + 1) (str @ [pat ! i]) mv err
        else if i + 1 < length pat \<and> pat ! (i + 1) = CHR ''%''
        then parse_pattern pat (i + 1) (str @ ''%'') mv err
        else
          let (index, pcahr, fmt, st) = scan_item pat i (i + 1) [] 0 0 in
          if st = 0
          then parse_pattern pat index (if pcahr \<noteq> [] then [] else str)
                 (mv @ (if pcahr \<noteq> [] then [(str, [], False)] else []) @ [(pcahr, fmt, True)]) err
          else parse_pattern pat (i + 1) str (mv @ [(''<<pattern error>>'', fmt, False)]) True
      else (mv @ (if str \<noteq> [] then [(str, [], False)] else []), err))"
  by pat_completeness auto
termination
proof (relation "measure (\<lambda>(pat, i, _). length pat - i)", goal_cases)
  case (4 pat i str mv err x index y pcahr z fmt st)
  then have "fst (scan_item pat i (i + 1) [] 0 0) = index" by (metis fst_conv)
  then have "i + 1 \<le> index" using scan_item_forward [of "i + 1" pat i "[]" 0 0] by simp
  then show ?case using 4 by simp
qed auto

declare parse_pattern.simps [simp del]

record log_formatter =
  f_pattern :: string
  f_items :: "format_item list"
  f_error :: bool

fun piece_item :: "piece \<Rightarrow> format_item" where
  "piece_item (s, fmt, False) = StringFormatItem s"
| "piece_item (s, fmt, True) =
     (case map_of s_format_items s of
        None \<Rightarrow> StringFormatItem (''<<error_format %'' @ s @ ''>>'')
      | Some build \<Rightarrow> build fmt)"

fun piece_bad :: "piece \<Rightarrow> bool" where
  "piece_bad (s, fmt, is_name) \<longleftrightarrow> is_name \<and> map_of s_format_items s = None"

definition LogFormatter :: "string \<Rightarrow> log_formatter" where
  "LogFormatter pattern =
     (let (mv, err) = parse_pattern pattern 0 [] [] False in
      \<lparr>f_pattern = pattern, f_items = map piece_item mv, f_error = (err \<or> list_ex piece_bad mv)\<rparr>)"

definition formatter_format :: "(string \<Rightarrow> nat \<Rightarrow> string) \<Rightarrow> log_formatter \<Rightarrow> level \<Rightarrow> log_event \<Rightarrow> string" where
  "formatter_format strftime f level ev = concat (map (item_format strftime level ev) (f_items f))"

section \<open>Patterns that are written piece by piece\<close>

datatype part = Lit string | Dir string | Dir_with string string

fun part_text :: "part \<Rightarrow> string" where
  "part_text (Lit s) = s"
| "part_text (Dir name) = CHR ''%'' # name"
| "part_text (Dir_with name fmt) = CHR ''%'' # name @ ''{'' @ fmt @ ''}''"

definition pattern_of :: "part list \<Rightarrow> string" where
  "pattern_of ps = concat (map part_text ps)"

definition known :: "string \<Rightarrow> bool" where
  "known name \<longleftrightarrow> name \<noteq> [] \<and> list_all isalpha name \<and> map_of s_format_items name \<noteq> None"

definition ends_name :: "string \<Rightarrow> bool" where
  "ends_name rest \<longleftrightarrow> rest = [] \<or> \<not> isalpha (hd rest) \<and> hd rest \<noteq> CHR ''{'' \<and> hd rest \<noteq> CHR ''}''"

fun good_parts :: "part list \<Rightarrow> bool" where
  "good_parts [] = True"
| "good_parts (Lit s # ps) = (CHR ''%'' \<notin> set s \<and> good_parts ps)"
| "good_parts (Dir name # ps) = (known name \<and> ends_name (pattern_of ps) \<and> good_parts ps)"
| "good_parts (Dir_with name fmt # ps) = (known name \<and> CHR ''}'' \<notin> set fmt \<and> good_parts ps)"

fun part_item :: "part \<Rightarrow> format_item" where
  "part_item (Lit s) = StringFormatItem s"
| "part_item (Dir name) = the (map_of s_format_items name) []"
| "part_item (Dir_with name fmt) = the (map_of s_format_items name) fmt"

lemma pattern_of_simps [simp]: "pattern_of [] = []" "pattern_of (p # ps) = part_text p @ pattern_of ps"
  by (simp_all add: pattern_of_def)

lemma isalpha_special [simp]:
  "\<not> isalpha (CHR ''{'')" "\<not> isalpha (CHR ''}'')" "\<not> isalpha (CHR ''%'')"
  by (simp_all add: isalpha_def Let_def)

lemma known_start:
  assumes "known name"
  obtains c ns where "name = c # ns" "c \<noteq> CHR ''%''"
proof (cases name)
  case (Cons c ns)
  then have "isalpha c" using assms by (simp add: known_def)
  then have "c \<noteq> CHR ''%''" using isalpha_special(3) by blast
  then show ?thesis using that Cons by blast
qed (use assms in \<open>simp add: known_def\<close>)

lemma drop_step: "drop i pat = c # r \<Longrightarrow> i < length pat \<and> pat ! i = c \<and> drop (i + 1) pat = r"
  by (metis Suc_eq_plus1 drop_Suc drop_all hd_drop_conv_nth list.sel(1,3) list.simps(3) not_le_imp_less tl_drop)

lemma drop_plus: "drop i pat = s @ r \<Longrightarrow> drop (i + length s) pat = r"
  by (metis add.commute append_eq_conv_conj drop_drop)

lemma parse_literal:
  "CHR ''%'' \<notin> set s \<Longrightarrow> drop i pat = s @ r \<Longrightarrow>
   parse_pattern pat i str mv err = parse_pattern pat (i + length s) (str @ s) mv err"
proof (induction s arbitrary: i str)
  case (Cons c s)
  have st: "i < length pat" "pat ! i = c" "drop (i + 1) pat = s @ r" using drop_step [of i pat c "s @ r"] Cons.prems(2) by auto
  have "parse_pattern pat i str mv err = parse_pattern pat (i + 1) (str @ [c]) mv err"
    using st Cons.prems(1) by (subst parse_pattern.simps) auto
  also have "\<dots> = parse_pattern pat (i + 1 + length s) ((str @ [c]) @ s) mv err"
    using Cons.prems(1) by (intro Cons.IH [OF _ st(3)]) auto
  finally show ?case by simp
qed simp

text \<open>Going over letters in the first state, and over anything but a closing brace in the second.\<close>

lemma scan_letters:
  "list_all isalpha name \<Longrightarrow> drop index pat = name @ r \<Longrightarrow> r \<noteq> [] \<Longrightarrow>
   scan_item pat i index [] 0 b = scan_item pat i (index + length name) [] 0 b"
proof (induction name arbitrary: index)
  case (Cons c name)
  have st: "index < length pat" "pat ! index = c" "drop (index + 1) pat = name @ r"
    using drop_step [of index pat c "name @ r"] Cons.prems(2) by auto
  then have "index + 1 \<noteq> length pat" using Cons.prems(3) by auto
  moreover have "c \<noteq> CHR ''{''" "c \<noteq> CHR ''}''" using Cons.prems(1) by auto
  ultimately have "scan_item pat i index [] 0 b = scan_item pat i (index + 1) [] 0 b"
    using st Cons.prems(1) by (subst scan_item.simps) (simp add: Let_def)
  also have "\<dots> = scan_item pat i (index + 1 + length name) [] 0 b"
    using Cons.prems by (intro Cons.IH [OF _ st(3)]) auto
  finally show ?case by simp
qed simp

lemma scan_braced:
  "CHR ''}'' \<notin> set fmt \<Longrightarrow> drop index pat = fmt @ ''}'' @ r \<Longrightarrow> pcahr \<noteq> [] \<Longrightarrow>
   scan_item pat i index pcahr 1 b = scan_item pat i (index + length fmt) pcahr 1 b"
proof (induction fmt arbitrary: index)
  case (Cons c fmt)
  have st: "index < length pat" "pat ! index = c" "drop (index + 1) pat = fmt @ ''}'' @ r"
    using drop_step [of index pat c "fmt @ ''}'' @ r"] Cons.prems(2) by auto
  have "scan_item pat i index pcahr 1 b = scan_item pat i (index + 1) pcahr 1 b"
    using st Cons.prems by (subst scan_item.simps) (auto simp: Let_def)
  also have "\<dots> = scan_item pat i (index + 1 + length fmt) pcahr 1 b"
    using Cons.prems by (intro Cons.IH [OF _ st(3)]) auto
  finally show ?case by simp
qed simp

lemma scan_last_letters:
  assumes "list_all isalpha name" and "name \<noteq> []" and "drop (i + 1) pat = name"
  shows "scan_item pat i (i + 1) [] 0 b = (length pat, name, [], 0)"
proof -
  obtain ns c where name: "name = ns @ [c]" using assms(2) by (cases name rule: rev_cases) auto
  have len: "length pat = i + 1 + length name"
    using assms(2,3) by (metis add.commute diff_add length_drop length_greater_0_conv less_imp_le_nat zero_less_diff)
  have d: "drop (i + 1 + length ns) pat = [c]" using drop_plus [of "i + 1" pat ns "[c]"] assms(3) name by simp
  have st: "i + 1 + length ns < length pat" "pat ! (i + 1 + length ns) = c" using drop_step [OF d] by auto
  have "scan_item pat i (i + 1) [] 0 b = scan_item pat i (i + 1 + length ns) [] 0 b"
    using assms name by (intro scan_letters) auto
  also have "\<dots> = scan_item pat i (i + 1 + length ns + 1) name 0 b"
    using st assms(1,3) len by (subst scan_item.simps) (auto simp: name Let_def)
  also have "\<dots> = (length pat, name, [], 0)"
    using len by (subst scan_item.simps) (simp add: name)
  finally show ?thesis .
qed

lemma scan_name:
  assumes "known name" and "drop (i + 1) pat = name @ r" and "ends_name r"
  shows "scan_item pat i (i + 1) [] 0 b = (i + 1 + length name, name, [], 0)"
proof (cases r)
  case Nil
  have n: "list_all isalpha name" "name \<noteq> []" using assms(1) by (auto simp: known_def)
  have "length pat = i + 1 + length name"
    using assms(2) Nil n(2) by (metis add.commute append_Nil2 diff_add length_drop length_greater_0_conv less_imp_le_nat zero_less_diff)
  then show ?thesis using scan_last_letters [of name i pat b] assms(2) Nil n by simp
next
  case (Cons c r')
  have n: "list_all isalpha name" using assms(1) by (simp add: known_def)
  have d: "drop (i + 1 + length name) pat = c # r'" using drop_plus [OF assms(2)] Cons by simp
  have st: "i + 1 + length name < length pat" "pat ! (i + 1 + length name) = c" using drop_step [OF d] by auto
  have "scan_item pat i (i + 1) [] 0 b = scan_item pat i (i + 1 + length name) [] 0 b"
    using n assms(2) Cons by (intro scan_letters) auto
  also have "\<dots> = (i + 1 + length name, name, [], 0)"
    using st assms(2,3) Cons by (subst scan_item.simps) (auto simp: Let_def ends_name_def substr_def)
  finally show ?thesis .
qed

lemma scan_name_braces:
  assumes "known name" and "CHR ''}'' \<notin> set fmt" and d: "drop (i + 1) pat = name @ ''{'' @ fmt @ ''}'' @ r"
  shows "scan_item pat i (i + 1) [] 0 b = (i + length name + length fmt + 3, name, fmt, 0)"
proof -
  let ?j = "i + 1 + length name"
  have n: "list_all isalpha name" "name \<noteq> []" using assms(1) by (auto simp: known_def)
  have d1: "drop ?j pat = CHR ''{'' # (fmt @ ''}'' @ r)" using drop_plus [OF d] by simp
  have st1: "?j < length pat" "pat ! ?j = CHR ''{''" "drop (?j + 1) pat = fmt @ ''}'' @ r" using drop_step [OF d1] by auto
  have d2: "drop (?j + 1 + length fmt) pat = CHR ''}'' # r" using drop_plus [OF st1(3)] by simp
  have st2: "?j + 1 + length fmt < length pat" "pat ! (?j + 1 + length fmt) = CHR ''}''" using drop_step [OF d2] by auto
  have "scan_item pat i (i + 1) [] 0 b = scan_item pat i ?j [] 0 b"
    using n d by (intro scan_letters [where r = "''{'' @ fmt @ ''}'' @ r"]) auto
  also have "\<dots> = scan_item pat i (?j + 1) name 1 ?j"
    using st1 d by (subst scan_item.simps) (simp add: Let_def substr_def)
  also have "\<dots> = scan_item pat i (?j + 1 + length fmt) name 1 ?j"
    using n by (intro scan_braced [OF assms(2) st1(3)]) auto
  also have "\<dots> = (?j + 1 + length fmt + 1, name, fmt, 0)"
    using st2 st1(3) by (subst scan_item.simps) (simp add: Let_def substr_def)
  finally show ?thesis by simp
qed

lemma parse_name:
  assumes "i < length pat" and "pat ! i = CHR ''%''" and "pat ! (i + 1) \<noteq> CHR ''%''"
    and "scan_item pat i (i + 1) [] 0 0 = (index, name, fmt, 0)" and "name \<noteq> []"
  shows "parse_pattern pat i str mv err = parse_pattern pat index [] (mv @ [(str, [], False)] @ [(name, fmt, True)]) err"
  by (subst parse_pattern.simps) (use assms in simp)

text \<open>The pieces, with the empty texts that the parser puts between two names.\<close>

fun pieces :: "string \<Rightarrow> part list \<Rightarrow> piece list" where
  "pieces str [] = (if str \<noteq> [] then [(str, [], False)] else [])"
| "pieces str (Lit s # ps) = pieces (str @ s) ps"
| "pieces str (Dir name # ps) = (str, [], False) # (name, [], True) # pieces [] ps"
| "pieces str (Dir_with name fmt # ps) = (str, [], False) # (name, fmt, True) # pieces [] ps"

lemma parse_parts:
  "good_parts ps \<Longrightarrow> drop i pat = pattern_of ps \<Longrightarrow> parse_pattern pat i str mv err = (mv @ pieces str ps, err)"
proof (induction ps arbitrary: i str mv)
  case Nil
  then have "\<not> i < length pat" by auto
  then show ?case by (subst parse_pattern.simps) simp
next
  case (Cons p ps)
  show ?case
  proof (cases p)
    case (Lit s)
    then have s: "CHR ''%'' \<notin> set s" "good_parts ps" "drop i pat = s @ pattern_of ps" using Cons.prems by auto
    show ?thesis using parse_literal [OF s(1,3)] Cons.IH [OF s(2) drop_plus [OF s(3)]] by (simp add: Lit)
  next
    case (Dir name)
    then have g: "known name" "ends_name (pattern_of ps)" "good_parts ps" and d: "drop i pat = CHR ''%'' # (name @ pattern_of ps)"
      using Cons.prems by auto
    have st: "i < length pat" "pat ! i = CHR ''%''" "drop (i + 1) pat = name @ pattern_of ps" using drop_step [OF d] by auto
    obtain c ns where name: "name = c # ns" "c \<noteq> CHR ''%''" by (rule known_start [OF g(1)])
    then have "pat ! (i + 1) \<noteq> CHR ''%''" using drop_step [of "i + 1" pat c "ns @ pattern_of ps"] st(3) by auto
    then have "parse_pattern pat i str mv err =
        parse_pattern pat (i + 1 + length name) [] (mv @ [(str, [], False)] @ [(name, [], True)]) err"
      using parse_name [OF st(1,2) _ scan_name [OF g(1) st(3) g(2)]] name(1) by blast
    then show ?thesis using Cons.IH [OF g(3) drop_plus [OF st(3)]] by (simp add: Dir)
  next
    case (Dir_with name fmt)
    then have g: "known name" "CHR ''}'' \<notin> set fmt" "good_parts ps"
      and d: "drop i pat = CHR ''%'' # (name @ ''{'' @ fmt @ ''}'' @ pattern_of ps)"
      using Cons.prems by auto
    have st: "i < length pat" "pat ! i = CHR ''%''" "drop (i + 1) pat = name @ ''{'' @ fmt @ ''}'' @ pattern_of ps"
      using drop_step [OF d] by auto
    obtain c ns where name: "name = c # ns" "c \<noteq> CHR ''%''" by (rule known_start [OF g(1)])
    then have "pat ! (i + 1) \<noteq> CHR ''%''" using drop_step [of "i + 1" pat c] st(3) by auto
    then have "parse_pattern pat i str mv err =
        parse_pattern pat (i + length name + length fmt + 3) [] (mv @ [(str, [], False)] @ [(name, fmt, True)]) err"
      using parse_name [OF st(1,2) _ scan_name_braces [OF g(1,2) st(3)]] name(1) by blast
    moreover have "drop (i + length name + length fmt + 3) pat = pattern_of ps"
      using drop_plus [of "i + 1" pat "name @ ''{'' @ fmt @ ''}''" "pattern_of ps"] st(3)
      by (simp add: ac_simps numeral_3_eq_3)
    ultimately show ?thesis using Cons.IH [OF g(3)] by (simp add: Dir_with)
  qed
qed

lemma pieces_good: "good_parts ps \<Longrightarrow> \<not> list_ex piece_bad (pieces str ps)"
  by (induction str ps rule: pieces.induct) (auto simp: known_def)

lemma pieces_text:
  "good_parts ps \<Longrightarrow>
   concat (map (item_format strftime l ev) (map piece_item (pieces str ps)))
     = str @ concat (map (item_format strftime l ev \<circ> part_item) ps)"
  by (induction str ps rule: pieces.induct) (auto simp: known_def)

text \<open>
  C24: A pattern that is put together from plain text without a percent sign and known directives,
  with or without braces, each followed by something that ends its name, is parsed without an
  error, and an event is printed as the texts and the values of the directives in this order.
\<close>

theorem pattern_prints:
  assumes "good_parts ps"
  shows "\<not> f_error (LogFormatter (pattern_of ps))
    \<and> formatter_format strftime (LogFormatter (pattern_of ps)) level ev
        = concat (map (item_format strftime level ev \<circ> part_item) ps)"
  using parse_parts [OF assms, of 0 "pattern_of ps" "[]" "[]" False] pieces_good [OF assms, of "[]"]
    pieces_text [OF assms, of strftime level ev "[]"]
  by (simp add: LogFormatter_def formatter_format_def)

definition sample_event :: log_event where
  "sample_event = \<lparr>ev_file = ''a.cpp'', ev_line = 7, ev_elapse = 0, ev_threadid = 1, ev_thread_name = ''main'',
     ev_coroutineid = 2, ev_time = 0, ev_content = ''hello'', ev_logger = ''root'', ev_level = 2\<rparr>"

theorem pattern_prints_witness:
  "\<not> f_error (LogFormatter ''[%p]%T%d{%H:%M} %m%n'')
   \<and> formatter_format (\<lambda>f t. f) (LogFormatter ''[%p]%T%d{%H:%M} %m%n'') 2 sample_event
       = ''[INFO]'' @ [CHR 0x09] @ ''%H:%M hello'' @ [CHR 0x0A]"
  using pattern_prints [of "[Lit ''['', Dir ''p'', Lit '']'', Dir ''T'', Dir_with ''d'' ''%H:%M'', Lit '' '', Dir ''m'', Dir ''n'']"
      "\<lambda>f t. f" 2 sample_event]
  by (simp add: known_def ends_name_def isalpha_def s_format_items_def new_DateTimeFormatItem_def
      LogLevel_ToString_def level_names_def sample_event_def)

text \<open>
  The two percent signs that stand for one in a pattern are not read as one: alone they make the
  pattern wrong, and before a directive they print a percent sign and the value of the directive.
  The names of the levels are read back under any spelling.
\<close>

theorem percent_escape_misread:
  "f_error (LogFormatter ''%%'')
   \<and> formatter_format strftime (LogFormatter ''%%m'') level ev = ''%'' @ ev_content ev
   \<and> list_all (\<lambda>l. LogLevel_FromString (map to_lower (LogLevel_ToString l)) = l) [1, 2, 3, 4, 5]"
proof (intro conjI)
  show "f_error (LogFormatter ''%%'')" by code_simp
  have "f_items (LogFormatter ''%%m'') = [StringFormatItem ''%'', MessageFormatItem]" by code_simp
  then show "formatter_format strftime (LogFormatter ''%%m'') level ev = ''%'' @ ev_content ev"
    by (simp add: formatter_format_def)
  show "list_all (\<lambda>l. LogLevel_FromString (map to_lower (LogLevel_ToString l)) = l) [1, 2, 3, 4, 5]"
    by code_simp
qed

end
