(* ===== verification/Loggers.thy ===== *)
theory Loggers
  imports Log_Formatter
begin

text \<open>
  \<open>Log.cpp\<close>, loggers and appenders: appenders are shared objects, so they live in a store and a
  logger holds their numbers; the loggers are found by name in the manager. A file appender opens
  its file anew once a second, which shows only in the time it notes (the file is in \<open>Log_Output\<close>). The level of an appender is
  not initialised by the code, so it is an argument of the constructors. Output is appended to the
  text of the appender. Each operation holds the lock of its logger for its whole run.
\<close>

record appender =
  ap_file :: "string option"
  ap_level :: level
  ap_formatter :: "log_formatter option"
  ap_is_set :: bool
  ap_last_time :: nat
  ap_out :: string

record logger =
  lg_name :: string
  lg_level :: level
  lg_appenders :: "nat list"
  lg_formatter :: log_formatter
  lg_default_root :: "string option"

record log_world =
  w_appenders :: "nat \<rightharpoonup> appender"
  w_loggers :: "string \<rightharpoonup> logger"

definition default_pattern :: string where
  "default_pattern = ''[%p]%T<%f:%l>%T%d{%Y-%m-%d %H:%M:%S}%T%t(%tn)%T%c%T%g%T%m%n''"

section \<open>Appenders\<close>

definition StdoutLogAppender :: "level \<Rightarrow> appender" where
  "StdoutLogAppender junk = \<lparr>ap_file = None, ap_level = junk, ap_formatter = None, ap_is_set = False, ap_last_time = 0, ap_out = []\<rparr>"

definition FileLogAppender :: "level \<Rightarrow> string \<Rightarrow> appender" where
  "FileLogAppender junk filename =
     \<lparr>ap_file = Some filename, ap_level = junk, ap_formatter = None, ap_is_set = False, ap_last_time = 0, ap_out = []\<rparr>"

definition ap_setFormatter :: "log_formatter option \<Rightarrow> appender \<Rightarrow> appender" where
  "ap_setFormatter val ap = ap\<lparr>ap_formatter := val, ap_is_set := (val \<noteq> None)\<rparr>"

definition appender_log ::
  "(string \<Rightarrow> nat \<Rightarrow> string) \<Rightarrow> nat \<Rightarrow> level \<Rightarrow> log_event \<Rightarrow> appender \<Rightarrow> appender res" where
  "appender_log strftime now level ev ap =
     (if level \<ge> ap_level ap then
        let ap1 = (if ap_file ap \<noteq> None \<and> now \<noteq> ap_last_time ap then ap\<lparr>ap_last_time := now\<rparr> else ap) in
        case ap_formatter ap1 of
          None \<Rightarrow> Inl Null_deref
        | Some f \<Rightarrow> Inr (ap1\<lparr>ap_out := ap_out ap1 @ formatter_format strftime f level ev\<rparr>)
      else Inr ap)"

section \<open>Loggers\<close>

definition new_Logger :: "string \<Rightarrow> logger" where
  "new_Logger name = \<lparr>lg_name = name, lg_level = 1, lg_appenders = [],
     lg_formatter = LogFormatter default_pattern, lg_default_root = None\<rparr>"

text \<open>The appender numbered \<open>a\<close>; a number without an appender is a null pointer.\<close>

definition addAppender :: "nat \<Rightarrow> logger \<Rightarrow> log_world \<Rightarrow> (logger \<times> log_world) res" where
  "addAppender a lg w =
     (case w_appenders w a of
        None \<Rightarrow> Inl Null_deref
      | Some ap \<Rightarrow>
          let w1 = (if ap_formatter ap = None
                    then w\<lparr>w_appenders := (w_appenders w)(a \<mapsto> ap_setFormatter (Some (lg_formatter lg)) ap)\<rparr> else w) in
          Inr (lg\<lparr>lg_appenders := lg_appenders lg @ [a]\<rparr>, w1))"

definition delAppender :: "nat \<Rightarrow> logger \<Rightarrow> logger res" where
  "delAppender a lg =
     (if a \<in> set (lg_appenders lg) then Inr (lg\<lparr>lg_appenders := remove1 a (lg_appenders lg)\<rparr>) else Inl Out_of_bounds)"

definition clearAppender :: "logger \<Rightarrow> logger" where
  "clearAppender lg = lg\<lparr>lg_appenders := []\<rparr>"

definition sync_appender :: "log_formatter \<Rightarrow> nat \<Rightarrow> log_world \<Rightarrow> log_world" where
  "sync_appender f a w =
     (case w_appenders w a of
        None \<Rightarrow> w
      | Some ap \<Rightarrow> if \<not> ap_is_set ap then w\<lparr>w_appenders := (w_appenders w)(a \<mapsto> ap_setFormatter (Some f) ap)\<rparr> else w)"

definition lg_setFormatter :: "string \<Rightarrow> logger \<Rightarrow> log_world \<Rightarrow> logger \<times> log_world" where
  "lg_setFormatter val lg w =
     (let f = LogFormatter val in
      if f_error f then (lg, w)
      else (lg\<lparr>lg_formatter := f\<rparr>, fold (sync_appender f) (lg_appenders lg) w))"

fun log_appenders ::
  "(string \<Rightarrow> nat \<Rightarrow> string) \<Rightarrow> nat \<Rightarrow> level \<Rightarrow> log_event \<Rightarrow> nat list \<Rightarrow> log_world \<Rightarrow> log_world res" where
  "log_appenders strftime now level ev [] w = Inr w"
| "log_appenders strftime now level ev (a # as) w =
     (case w_appenders w a of
        None \<Rightarrow> Inl Null_deref
      | Some ap \<Rightarrow> bindE (appender_log strftime now level ev ap) (\<lambda>ap1.
          log_appenders strftime now level ev as (w\<lparr>w_appenders := (w_appenders w)(a \<mapsto> ap1)\<rparr>)))"

text \<open>
  A logger without appenders hands the event to its default logger. The manager sets only the
  root as a default, which has none itself; the bound on the hand-overs is for any other chain.
\<close>

fun Logger_log ::
  "(string \<Rightarrow> nat \<Rightarrow> string) \<Rightarrow> nat \<Rightarrow> nat \<Rightarrow> level \<Rightarrow> log_event \<Rightarrow> logger \<Rightarrow> log_world \<Rightarrow> log_world res" where
  "Logger_log strftime now 0 level ev lg w = Inl Diverges"
| "Logger_log strftime now (Suc fuel) level ev lg w =
     (if level \<ge> lg_level lg then
        if lg_appenders lg \<noteq> [] then log_appenders strftime now level ev (lg_appenders lg) w
        else case lg_default_root lg of
               None \<Rightarrow> Inr w
             | Some r \<Rightarrow>
                 (case w_loggers w r of
                    None \<Rightarrow> Inl Null_deref
                  | Some root \<Rightarrow> Logger_log strftime now fuel level ev root w)
      else Inr w)"

section \<open>The manager\<close>

definition LogManager :: "level \<Rightarrow> log_world" where
  "LogManager junk =
     (let f = LogFormatter default_pattern in
      \<lparr>w_appenders = [0 \<mapsto> ap_setFormatter (Some f) (StdoutLogAppender junk)],
       w_loggers = [''root'' \<mapsto> (new_Logger ''root'')\<lparr>lg_appenders := [0]\<rparr>]\<rparr>)"

definition getLogger :: "string \<Rightarrow> log_world \<Rightarrow> logger \<times> log_world" where
  "getLogger name w =
     (case w_loggers w name of
        Some lg \<Rightarrow> (lg, w)
      | None \<Rightarrow>
          let lg = (new_Logger name)\<lparr>lg_default_root := Some ''root''\<rparr> in
          (lg, w\<lparr>w_loggers := (w_loggers w)(name \<mapsto> lg)\<rparr>))"

definition put_logger :: "logger \<Rightarrow> log_world \<Rightarrow> log_world" where
  "put_logger lg w = w\<lparr>w_loggers := (w_loggers w)(lg_name lg \<mapsto> lg)\<rparr>"

text \<open>The macro \<open>KIT_LOG_LEVEL\<close>: the event is only made when the logger takes its level.\<close>

definition log_macro ::
  "(string \<Rightarrow> nat \<Rightarrow> string) \<Rightarrow> nat \<Rightarrow> string \<Rightarrow> level \<Rightarrow> log_event \<Rightarrow> log_world \<Rightarrow> log_world res" where
  "log_macro strftime now name level ev w =
     (let (lg, w1) = getLogger name w in
      if lg_level lg \<le> level then Logger_log strftime now 2 level ev lg w1 else Inr w1)"

section \<open>Steps of a program that uses loggers\<close>

text \<open>
  Getting a logger, making an appender that no logger has yet, the operations on a logger of the
  manager, giving an appender a formatter, and logging.
\<close>

inductive log_step :: "log_world \<Rightarrow> log_world \<Rightarrow> bool" where
  getLogger: "getLogger name w = (lg, w') \<Longrightarrow> log_step w w'"
| new_appender: "w_appenders w a = None \<Longrightarrow> ap_formatter ap = None \<Longrightarrow> \<not> ap_is_set ap \<Longrightarrow>
    log_step w (w\<lparr>w_appenders := (w_appenders w)(a \<mapsto> ap)\<rparr>)"
| addAppender: "w_loggers w name = Some lg \<Longrightarrow> addAppender a lg w = Inr (lg', w') \<Longrightarrow> log_step w (put_logger lg' w')"
| delAppender: "w_loggers w name = Some lg \<Longrightarrow> delAppender a lg = Inr lg' \<Longrightarrow> log_step w (put_logger lg' w)"
| clearAppender: "w_loggers w name = Some lg \<Longrightarrow> log_step w (put_logger (clearAppender lg) w)"
| setLevel: "w_loggers w name = Some lg \<Longrightarrow> log_step w (put_logger (lg\<lparr>lg_level := l\<rparr>) w)"
| setFormatter: "w_loggers w name = Some lg \<Longrightarrow> lg_setFormatter val lg w = (lg', w') \<Longrightarrow> log_step w (put_logger lg' w')"
| ap_setFormatter: "w_appenders w a = Some ap \<Longrightarrow>
    log_step w (w\<lparr>w_appenders := (w_appenders w)(a \<mapsto> ap_setFormatter (Some f) ap)\<rparr>)"
| ap_setLevel: "w_appenders w a = Some ap \<Longrightarrow>
    log_step w (w\<lparr>w_appenders := (w_appenders w)(a \<mapsto> ap\<lparr>ap_level := l\<rparr>)\<rparr>)"
| log: "w_loggers w name = Some lg \<Longrightarrow> Logger_log strftime now fuel level ev lg w = Inr w' \<Longrightarrow> log_step w w'"

inductive log_run :: "level \<Rightarrow> log_world \<Rightarrow> bool" where
  start: "log_run junk (LogManager junk)"
| step: "log_run junk w \<Longrightarrow> log_step w w' \<Longrightarrow> log_run junk w'"

text \<open>
  Every appender of a logger has a formatter and counts as one whose formatter was set; loggers are
  found under their names; the root has no default and is the only default of the others.
\<close>

definition ap_ok :: "log_world \<Rightarrow> nat \<Rightarrow> bool" where
  "ap_ok w a \<longleftrightarrow> (\<exists>ap. w_appenders w a = Some ap \<and> ap_formatter ap \<noteq> None \<and> ap_is_set ap)"

definition lg_ok :: "log_world \<Rightarrow> logger \<Rightarrow> bool" where
  "lg_ok w lg \<longleftrightarrow> (\<forall>a \<in> set (lg_appenders lg). ap_ok w a)
     \<and> lg_default_root lg = (if lg_name lg = ''root'' then None else Some ''root'')"

definition aps_ok :: "log_world \<Rightarrow> bool" where
  "aps_ok w \<longleftrightarrow> (\<forall>a ap. w_appenders w a = Some ap \<longrightarrow> ap_is_set ap = (ap_formatter ap \<noteq> None))"

definition log_ok :: "log_world \<Rightarrow> bool" where
  "log_ok w \<longleftrightarrow> (\<forall>name lg. w_loggers w name = Some lg \<longrightarrow> lg_name lg = name \<and> lg_ok w lg)
     \<and> w_loggers w ''root'' \<noteq> None \<and> aps_ok w"

text \<open>Appenders keep what makes them usable.\<close>

definition ap_grows :: "log_world \<Rightarrow> log_world \<Rightarrow> bool" where
  "ap_grows w w' \<longleftrightarrow> w_loggers w' = w_loggers w \<and> (\<forall>a. ap_ok w a \<longrightarrow> ap_ok w' a)
     \<and> (aps_ok w \<longrightarrow> aps_ok w')"

lemma ap_grows_refl: "ap_grows w w"
  by (simp add: ap_grows_def)

lemma ap_grows_trans: "ap_grows w w1 \<Longrightarrow> ap_grows w1 w2 \<Longrightarrow> ap_grows w w2"
  by (simp add: ap_grows_def)

lemma ap_grows_ok:
  assumes "ap_grows w w'" and "log_ok w"
  shows "log_ok w'"
proof -
  have "lg_ok w lg \<Longrightarrow> lg_ok w' lg" for lg using assms(1) by (simp add: lg_ok_def ap_grows_def)
  moreover have "w_loggers w' = w_loggers w" using assms(1) by (simp add: ap_grows_def)
  moreover have "aps_ok w'" using assms by (simp add: ap_grows_def log_ok_def)
  ultimately show ?thesis using assms(2) by (simp add: log_ok_def)
qed

lemma ap_grows_update:
  assumes "ap_ok w a \<longrightarrow> ap_formatter ap \<noteq> None \<and> ap_is_set ap" and "ap_is_set ap = (ap_formatter ap \<noteq> None)"
  shows "ap_grows w (w\<lparr>w_appenders := (w_appenders w)(a \<mapsto> ap)\<rparr>)"
  using assms by (auto simp: ap_grows_def ap_ok_def aps_ok_def)

lemma appender_log_keeps:
  "appender_log strftime now level ev ap = Inr ap' \<Longrightarrow> ap_formatter ap' = ap_formatter ap \<and> ap_is_set ap' = ap_is_set ap"
  by (auto simp: appender_log_def Let_def split: if_splits option.splits)

lemma ap_grows_same:
  assumes "w_appenders w a = Some ap" and "ap_formatter ap' = ap_formatter ap" and "ap_is_set ap' = ap_is_set ap"
  shows "ap_grows w (w\<lparr>w_appenders := (w_appenders w)(a \<mapsto> ap')\<rparr>)"
  using assms by (auto simp: ap_grows_def ap_ok_def aps_ok_def)

lemma log_appenders_grows:
  "log_appenders strftime now level ev as w = Inr w' \<Longrightarrow> ap_grows w w'"
proof (induction as arbitrary: w)
  case (Cons a as)
  then obtain ap ap1 where ap: "w_appenders w a = Some ap" "appender_log strftime now level ev ap = Inr ap1"
    "log_appenders strftime now level ev as (w\<lparr>w_appenders := (w_appenders w)(a \<mapsto> ap1)\<rparr>) = Inr w'"
    by (auto simp: bindE_Inr_iff split: option.splits)
  show ?case
    using ap_grows_trans [OF ap_grows_same Cons.IH [OF ap(3)]] appender_log_keeps [OF ap(2)] ap(1) by metis
qed (simp add: ap_grows_refl)

lemma Logger_log_grows: "Logger_log strftime now fuel level ev lg w = Inr w' \<Longrightarrow> ap_grows w w'"
  by (induction fuel arbitrary: lg)
    (auto simp: ap_grows_refl log_appenders_grows split: if_splits option.splits)

lemma sync_appenders_same:
  "\<forall>a \<in> set as. ap_ok w a \<Longrightarrow> fold (sync_appender f) as w = w"
  by (induction as) (auto simp: sync_appender_def ap_ok_def)

lemma lg_ok_loggers [simp]: "lg_ok (w\<lparr>w_loggers := x\<rparr>) lg = lg_ok w lg"
  by (simp add: lg_ok_def ap_ok_def)

lemma enter_logger_ok:
  assumes "log_ok w" and "lg_name lg = name" and "lg_ok w lg"
  shows "log_ok (w\<lparr>w_loggers := (w_loggers w)(name \<mapsto> lg)\<rparr>)"
  using assms by (simp add: log_ok_def aps_ok_def)

lemma put_logger_ok:
  assumes "log_ok w" and "w_loggers w name = Some lg" and "lg_name lg' = lg_name lg"
    and "lg_default_root lg' = lg_default_root lg" and "\<forall>a \<in> set (lg_appenders lg'). ap_ok w a"
  shows "log_ok (put_logger lg' w)"
proof -
  have "lg_ok w lg" using assms(1,2) by (simp add: log_ok_def)
  then have "lg_ok w lg'" using assms(3-5) by (simp add: lg_ok_def)
  then show ?thesis unfolding put_logger_def by (intro enter_logger_ok [OF assms(1)]) simp_all
qed

lemma log_step_ok: "log_step w w' \<Longrightarrow> log_ok w \<Longrightarrow> log_ok w'"
proof (induction rule: log_step.induct)
  case (getLogger name w lg w')
  show ?case
  proof (cases "w_loggers w name")
    case None
    then have "name \<noteq> ''root''" using getLogger(2) by (auto simp: log_ok_def)
    then have "lg_ok w lg" "lg_name lg = name" "w' = w\<lparr>w_loggers := (w_loggers w)(name \<mapsto> lg)\<rparr>"
      using getLogger(1) None by (auto simp: getLogger_def new_Logger_def Let_def lg_ok_def)
    then show ?thesis using enter_logger_ok [OF getLogger(2), of lg name] by simp
  qed (use getLogger in \<open>auto simp: getLogger_def\<close>)
next
  case (new_appender w a ap)
  have "ap_grows w (w\<lparr>w_appenders := (w_appenders w)(a \<mapsto> ap)\<rparr>)"
    using new_appender(1-3) by (intro ap_grows_update) (auto simp: ap_ok_def)
  then show ?case using new_appender(4) by (rule ap_grows_ok)
next
  case (addAppender w name lg a lg' w')
  obtain ap where ap: "w_appenders w a = Some ap" using addAppender(2) by (auto simp: addAppender_def split: option.splits)
  have lg': "lg' = lg\<lparr>lg_appenders := lg_appenders lg @ [a]\<rparr>"
    "w' = (if ap_formatter ap = None
       then w\<lparr>w_appenders := (w_appenders w)(a \<mapsto> ap_setFormatter (Some (lg_formatter lg)) ap)\<rparr> else w)"
    using addAppender(2) ap by (auto simp: addAppender_def Let_def)
  have g: "ap_grows w w'" unfolding lg'(2)
    by (cases "ap_formatter ap") (auto simp: ap_grows_refl ap_setFormatter_def intro: ap_grows_update)
  have "ap_is_set ap = (ap_formatter ap \<noteq> None)" using addAppender(3) ap by (simp add: log_ok_def aps_ok_def)
  then have a: "ap_ok w' a" by (auto simp: lg'(2) ap_ok_def ap ap_setFormatter_def)
  have "lg_ok w lg" using addAppender(1,3) by (simp add: log_ok_def)
  then have "\<forall>a \<in> set (lg_appenders lg'). ap_ok w' a"
    using a g by (auto simp: lg'(1) lg_ok_def ap_grows_def)
  moreover have "w_loggers w' name = Some lg" using addAppender(1) g by (simp add: ap_grows_def)
  ultimately show ?case
    by (intro put_logger_ok [where name = name and lg = lg, OF ap_grows_ok [OF g addAppender(3)]]) (simp_all add: lg'(1))
next
  case (delAppender w name lg a lg')
  then have "lg_ok w lg" by (simp add: log_ok_def)
  then show ?case using delAppender
    by (intro put_logger_ok [OF delAppender(3,1)]) (auto simp: delAppender_def lg_ok_def split: if_splits dest: notin_set_remove1)
next
  case (clearAppender w name lg)
  then show ?case by (intro put_logger_ok [OF clearAppender(2,1)]) (simp_all add: clearAppender_def)
next
  case (setLevel w name lg l)
  then have "lg_ok w lg" by (simp add: log_ok_def)
  then show ?case by (intro put_logger_ok [OF setLevel(2,1)]) (simp_all add: lg_ok_def)
next
  case (setFormatter w name lg val lg' w')
  then have ok: "lg_ok w lg" by (simp add: log_ok_def)
  then have "w' = w" "lg_name lg' = lg_name lg" "lg_default_root lg' = lg_default_root lg" "lg_appenders lg' = lg_appenders lg"
    using setFormatter(2) by (auto simp: lg_setFormatter_def Let_def lg_ok_def sync_appenders_same split: if_splits)
  then show ?case using ok setFormatter(1,3) by (auto simp: lg_ok_def intro: put_logger_ok)
next
  case (ap_setFormatter w a ap f)
  have "ap_grows w (w\<lparr>w_appenders := (w_appenders w)(a \<mapsto> ap_setFormatter (Some f) ap)\<rparr>)"
    by (intro ap_grows_update) (auto simp: ap_setFormatter_def)
  then show ?case using ap_setFormatter(2) by (rule ap_grows_ok)
next
  case (ap_setLevel w a ap l)
  have "ap_grows w (w\<lparr>w_appenders := (w_appenders w)(a \<mapsto> ap\<lparr>ap_level := l\<rparr>)\<rparr>)"
    using ap_setLevel(1) by (rule ap_grows_same) simp_all
  then show ?case using ap_setLevel(2) by (rule ap_grows_ok)
next
  case (log w name lg strftime now fuel level ev w')
  then show ?case using ap_grows_ok [OF Logger_log_grows] by blast
qed

lemma LogManager_ok: "log_ok (LogManager junk)"
  by (simp add: log_ok_def aps_ok_def LogManager_def new_Logger_def lg_ok_def ap_ok_def ap_setFormatter_def StdoutLogAppender_def Let_def)

lemma log_run_ok: "log_run junk w \<Longrightarrow> log_ok w"
  by (induction rule: log_run.induct) (auto simp: LogManager_ok intro: log_step_ok)

section \<open>What a logger writes\<close>

lemma log_appenders_writes:
  assumes "\<forall>a \<in> set as. ap_ok w a" and "distinct as"
  shows "\<exists>w'. log_appenders strftime now level ev as w = Inr w'
    \<and> (\<forall>a ap. w_appenders w a = Some ap \<longrightarrow> (\<exists>ap'. w_appenders w' a = Some ap'
          \<and> ap_out ap' = ap_out ap @ (if a \<in> set as \<and> ap_level ap \<le> level
               then formatter_format strftime (the (ap_formatter ap)) level ev else [])))"
  using assms
proof (induction as arbitrary: w)
  case (Cons a as)
  obtain ap f where ap: "w_appenders w a = Some ap" "ap_formatter ap = Some f"
    using Cons.prems(1) by (auto simp: ap_ok_def)
  have "\<exists>ap1. appender_log strftime now level ev ap = Inr ap1
      \<and> ap_out ap1 = ap_out ap @ (if ap_level ap \<le> level then formatter_format strftime f level ev else [])"
    using ap(2) by (simp add: appender_log_def Let_def)
  then obtain ap1 where ap1: "appender_log strftime now level ev ap = Inr ap1"
      "ap_out ap1 = ap_out ap @ (if ap_level ap \<le> level then formatter_format strftime f level ev else [])"
    by blast
  let ?w1 = "w\<lparr>w_appenders := (w_appenders w)(a \<mapsto> ap1)\<rparr>"
  have "ap_grows w ?w1" using appender_log_keeps [OF ap1(1)] ap(1) by (intro ap_grows_same) auto
  then have "\<forall>a \<in> set as. ap_ok ?w1 a" using Cons.prems(1) by (simp add: ap_grows_def)
  then obtain w' where w': "log_appenders strftime now level ev as ?w1 = Inr w'"
      "\<And>b bp. w_appenders ?w1 b = Some bp \<Longrightarrow> \<exists>bp'. w_appenders w' b = Some bp'
          \<and> ap_out bp' = ap_out bp @ (if b \<in> set as \<and> ap_level bp \<le> level
               then formatter_format strftime (the (ap_formatter bp)) level ev else [])"
    using Cons.IH [of ?w1] Cons.prems(2) by auto
  have "\<exists>bp'. w_appenders w' b = Some bp' \<and> ap_out bp' = ap_out bp @ (if b \<in> set (a # as) \<and> ap_level bp \<le> level
               then formatter_format strftime (the (ap_formatter bp)) level ev else [])"
    if b: "w_appenders w b = Some bp" for b bp
  proof (cases "b = a")
    case True
    then have "bp = ap" using b ap(1) by simp
    then show ?thesis using w'(2) [of a ap1] True Cons.prems(2) ap(2) ap1(2) by auto
  next
    case False
    then show ?thesis using w'(2) [of b bp] b by simp
  qed
  then show ?case using w'(1) ap(1) ap1(1) by auto
qed auto

text \<open>
  C23: In a program that uses loggers in any order, logging through a logger of the manager never
  fails, and the event is appended, formatted, to exactly those appenders whose level it reaches:
  those of the logger, or of the root when the logger has none, provided it reaches the levels
  of the loggers.
\<close>

theorem log_reaches_appenders:
  assumes "log_run junk w" and "w_loggers w name = Some lg" and "w_loggers w ''root'' = Some root"
    and "distinct (lg_appenders lg)" and "distinct (lg_appenders root)" and "2 \<le> fuel"
  shows "\<exists>w'. Logger_log strftime now fuel level ev lg w = Inr w'
    \<and> (\<forall>a ap. w_appenders w a = Some ap \<longrightarrow> (\<exists>ap'. w_appenders w' a = Some ap'
          \<and> ap_out ap' = ap_out ap @
              (if lg_level lg \<le> level \<and> ap_level ap \<le> level
                  \<and> (a \<in> set (lg_appenders lg)
                     \<or> lg_appenders lg = [] \<and> lg_level root \<le> level \<and> a \<in> set (lg_appenders root))
               then formatter_format strftime (the (ap_formatter ap)) level ev else [])))"
proof -
  have ok: "log_ok w" by (rule log_run_ok [OF assms(1)])
  have lg: "\<forall>a \<in> set (lg_appenders lg). ap_ok w a" "lg_default_root lg = (if name = ''root'' then None else Some ''root'')"
    and root: "\<forall>a \<in> set (lg_appenders root). ap_ok w a" "lg_default_root root = None"
    using ok assms(2,3) by (auto simp: log_ok_def lg_ok_def)
  obtain n where n: "fuel = Suc (Suc n)" using assms(6) by (metis Suc_le_D numeral_2_eq_2 Suc_le_mono)
  let ?goal = "\<lambda>r P. \<exists>w'. r = Inr w' \<and> (\<forall>a ap. w_appenders w a = Some ap \<longrightarrow> (\<exists>ap'. w_appenders w' a = Some ap'
      \<and> ap_out ap' = ap_out ap @ (if P a ap then formatter_format strftime (the (ap_formatter ap)) level ev else [])))"
  note own = log_appenders_writes [OF lg(1) assms(4), of strftime now level ev]
  note def = log_appenders_writes [OF root(1) assms(5), of strftime now level ev]
  have quiet: "?goal (Inr w) (\<lambda>_ _. False)" by simp
  consider "\<not> lg_level lg \<le> level" | "lg_level lg \<le> level" "lg_appenders lg \<noteq> []"
    | "lg_level lg \<le> level" "lg_appenders lg = []" "name = ''root''"
    | "lg_level lg \<le> level" "lg_appenders lg = []" "name \<noteq> ''root''" "\<not> lg_level root \<le> level"
    | "lg_level lg \<le> level" "lg_appenders lg = []" "name \<noteq> ''root''" "lg_level root \<le> level" "lg_appenders root = []"
    | "lg_level lg \<le> level" "lg_appenders lg = []" "name \<noteq> ''root''" "lg_level root \<le> level" "lg_appenders root \<noteq> []"
    by blast
  then show ?thesis
  proof cases
    case 2
    then have "Logger_log strftime now fuel level ev lg w = log_appenders strftime now level ev (lg_appenders lg) w"
      by (simp add: n)
    then show ?thesis using own 2 by (simp add: conj_commute)
  next
    case 3
    then have "root = lg" using assms(2,3) by simp
    then show ?thesis using 3 lg(2) by (simp add: n)
  next
    case 6
    then have "Logger_log strftime now fuel level ev lg w = log_appenders strftime now level ev (lg_appenders root) w"
      using lg(2) assms(3) by (simp add: n)
    then show ?thesis using def 6 by (simp add: conj_commute)
  qed (use lg(2) root(2) assms(3) in \<open>simp_all add: n\<close>)
qed

theorem log_reaches_appenders_witness:
  "\<exists>w'. Logger_log (\<lambda>f t. f) 0 2 4 sample_event ((new_Logger ''root'')\<lparr>lg_appenders := [0]\<rparr>) (LogManager 2) = Inr w'"
  using log_reaches_appenders [OF log_run.start [of 2], of "''root''" "(new_Logger ''root'')\<lparr>lg_appenders := [0]\<rparr>"
      "(new_Logger ''root'')\<lparr>lg_appenders := [0]\<rparr>" 2 "\<lambda>f t. f" 0 4 sample_event]
  by (auto simp: LogManager_def Let_def)

text \<open>
  A new pattern for a logger never reaches an appender: adding an appender without a formatter
  gives it the one of the logger and marks it as its own, so when the logger gets another pattern
  all its appenders keep what they have.
\<close>

theorem pattern_stays_with_logger:
  assumes "log_run junk w" and "w_loggers w name = Some lg"
  shows "w_appenders (snd (lg_setFormatter val lg w)) = w_appenders w
    \<and> lg_formatter (fst (lg_setFormatter val lg w)) = (if f_error (LogFormatter val) then lg_formatter lg else LogFormatter val)"
proof -
  have "\<forall>a \<in> set (lg_appenders lg). ap_ok w a"
    using log_run_ok [OF assms(1)] assms(2) by (auto simp: log_ok_def lg_ok_def)
  then show ?thesis by (simp add: lg_setFormatter_def Let_def sync_appenders_same)
qed

theorem pattern_stays_with_logger_witness:
  "w_appenders (snd (lg_setFormatter ''%m'' ((new_Logger ''root'')\<lparr>lg_appenders := [0]\<rparr>) (LogManager 2))) = w_appenders (LogManager 2)"
  using pattern_stays_with_logger [OF log_run.start [of 2], of "''root''" "(new_Logger ''root'')\<lparr>lg_appenders := [0]\<rparr>" "''%m''"]
  by (simp add: LogManager_def Let_def)

end
