(* ===== verification/Config.thy ===== *)
theory Config
  imports Strings "HOL-Library.Countable"
begin

text \<open>
  \<open>config.h\<close> and \<open>config.cpp\<close>: configuration variables with their listeners, the registry of
  variables, and loading from YAML documents and from a directory. The YAML library is a
  parameter: \<open>load\<close> and \<open>emit\<close> convert between text and nodes (\<open>None\<close> is an exception) and
  \<open>items\<close> are the elements of a node by index. A value of any type is of the type \<open>'v\<close>; the type
  of a variable is a name, and \<open>from_str\<close> is the conversion of the type. What the listeners
  change is a state \<open>'s\<close>.
\<close>

datatype yaml = Y_null | Y_scalar string | Y_seq "yaml list" | Y_map "(yaml \<times> yaml) list"

instance yaml :: countable
  by countable_datatype

text \<open>A printer and a reader that are inverse to each other, to run examples on.\<close>

definition yaml_text :: "yaml \<Rightarrow> string" where
  "yaml_text n = replicate (to_nat n) (CHR ''a'')"

definition yaml_read :: "string \<Rightarrow> yaml option" where
  "yaml_read s = Some (from_nat (length s))"

lemma yaml_read_text [simp]: "yaml_read (yaml_text n) = Some n"
  by (simp add: yaml_read_def yaml_text_def)

fun yaml_items :: "yaml \<Rightarrow> yaml list" where
  "yaml_items (Y_seq ns) = ns"
| "yaml_items _ = []"

section \<open>Conversions of containers\<close>

fun all_some :: "'a option list \<Rightarrow> 'a list option" where
  "all_some [] = Some []"
| "all_some (x # xs) =
     (case x of None \<Rightarrow> None | Some v \<Rightarrow> map_option (\<lambda>vs. v # vs) (all_some xs))"

definition vector_from :: "(string \<Rightarrow> yaml option) \<Rightarrow> (yaml \<Rightarrow> string) \<Rightarrow> (yaml \<Rightarrow> yaml list)
    \<Rightarrow> (string \<Rightarrow> 'a option) \<Rightarrow> string \<Rightarrow> 'a list option" where
  "vector_from load emit items from v =
     (case load v of None \<Rightarrow> None | Some node \<Rightarrow> all_some (map (\<lambda>n. from (emit n)) (items node)))"

text \<open>A node that nothing is pushed to stays null.\<close>

definition seq_node :: "yaml list \<Rightarrow> yaml" where
  "seq_node ns = (if ns = [] then Y_null else Y_seq ns)"

definition vector_to :: "(string \<Rightarrow> yaml option) \<Rightarrow> (yaml \<Rightarrow> string) \<Rightarrow> ('a \<Rightarrow> string) \<Rightarrow> 'a list \<Rightarrow> string option" where
  "vector_to load emit to_str xs =
     map_option (\<lambda>ns. emit (seq_node ns)) (all_some (map (\<lambda>x. load (to_str x)) xs))"

definition set_from :: "(string \<Rightarrow> yaml option) \<Rightarrow> (yaml \<Rightarrow> string) \<Rightarrow> (yaml \<Rightarrow> yaml list)
    \<Rightarrow> (string \<Rightarrow> 'a option) \<Rightarrow> string \<Rightarrow> 'a set option" where
  "set_from load emit items from v =
     (case load v of None \<Rightarrow> None | Some node \<Rightarrow> map_option set (all_some (map (\<lambda>n. from (emit n)) (items node))))"

definition set_to :: "(string \<Rightarrow> yaml option) \<Rightarrow> (yaml \<Rightarrow> string) \<Rightarrow> ('a::linorder \<Rightarrow> string) \<Rightarrow> 'a set \<Rightarrow> string option" where
  "set_to load emit to_str A =
     map_option (\<lambda>ns. emit (seq_node ns)) (all_some (map (\<lambda>x. load (to_str x)) (sorted_list_of_set A)))"

text \<open>Both texts of a pair, or an exception; a key that is inserted twice keeps its first value.\<close>

definition both :: "'a option \<Rightarrow> 'b option \<Rightarrow> ('a \<times> 'b) option" where
  "both x y = (case (x, y) of (Some a, Some b) \<Rightarrow> Some (a, b) | _ \<Rightarrow> None)"

lemma both_simps [simp]: "both (Some a) (Some b) = Some (a, b)" "both None y = None" "both x None = None"
  by (simp_all add: both_def split: option.split)

definition map_from :: "(string \<Rightarrow> yaml option) \<Rightarrow> (yaml \<Rightarrow> string) \<Rightarrow> (yaml \<Rightarrow> (yaml \<times> yaml) list)
    \<Rightarrow> (string \<Rightarrow> 'a option) \<Rightarrow> (string \<Rightarrow> 'b option) \<Rightarrow> string \<Rightarrow> ('a \<rightharpoonup> 'b) option" where
  "map_from load emit pairs from1 from2 v =
     (case load v of None \<Rightarrow> None
      | Some node \<Rightarrow> map_option map_of (all_some (map (\<lambda>(k, n). both (from1 (emit k)) (from2 (emit n))) (pairs node))))"

definition map_node :: "(yaml \<times> yaml) list \<Rightarrow> yaml" where
  "map_node kvs = (if kvs = [] then Y_null else Y_map kvs)"

definition map_to :: "(string \<Rightarrow> yaml option) \<Rightarrow> (yaml \<Rightarrow> string) \<Rightarrow> ('a::linorder \<Rightarrow> string) \<Rightarrow> ('b \<Rightarrow> string)
    \<Rightarrow> ('a \<rightharpoonup> 'b) \<Rightarrow> string option" where
  "map_to load emit to_str1 to_str2 m =
     map_option (\<lambda>kvs. emit (map_node kvs))
       (all_some (map (\<lambda>k. both (load (to_str1 k)) (load (to_str2 (the (m k))))) (sorted_list_of_set (dom m))))"

fun yaml_pairs :: "yaml \<Rightarrow> (yaml \<times> yaml) list" where
  "yaml_pairs (Y_map kvs) = kvs"
| "yaml_pairs _ = []"

lemma all_some_map:
  "(\<And>x. x \<in> set xs \<Longrightarrow> f x = Some (g x)) \<Longrightarrow> all_some (map f xs) = Some (map g xs)"
  by (induction xs) auto

section \<open>Variables\<close>

record ('v, 's) config_var =
  cv_name :: string
  cv_description :: string
  cv_type :: string
  cv_val :: 'v
  cv_cbs :: "(nat \<times> ('v \<Rightarrow> 'v \<Rightarrow> 's \<Rightarrow> 's)) list"

definition lower_case :: "string \<Rightarrow> string" where
  "lower_case s = map to_lower s"

definition ConfigVar :: "string \<Rightarrow> string \<Rightarrow> 'v \<Rightarrow> string \<Rightarrow> ('v, 's) config_var" where
  "ConfigVar typ name default_value description =
     \<lparr>cv_name = lower_case name, cv_description = description, cv_type = typ, cv_val = default_value, cv_cbs = []\<rparr>"

text \<open>Setting a value calls the listeners with the old and the new value, in the order of their keys, before it is stored.\<close>

definition setValue :: "'v \<Rightarrow> ('v, 's) config_var \<Rightarrow> 's \<Rightarrow> ('v, 's) config_var \<times> 's" where
  "setValue val cv s =
     (if val = cv_val cv then (cv, s)
      else (cv\<lparr>cv_val := val\<rparr>, fold (\<lambda>(k, cb). cb (cv_val cv) val) (cv_cbs cv) s))"

text \<open>The keys come from a counter that all variables of a type share.\<close>

definition addListener ::
  "('v \<Rightarrow> 'v \<Rightarrow> 's \<Rightarrow> 's) \<Rightarrow> nat \<Rightarrow> ('v, 's) config_var \<Rightarrow> nat \<times> nat \<times> ('v, 's) config_var" where
  "addListener cb cb_fun_id cv =
     (let k = cb_fun_id + 1 in (k, k, cv\<lparr>cv_cbs := insort_key fst (k, cb) (filter (\<lambda>(j, _). j \<noteq> k) (cv_cbs cv))\<rparr>))"

definition delListener :: "nat \<Rightarrow> ('v, 's) config_var \<Rightarrow> ('v, 's) config_var" where
  "delListener key cv = cv\<lparr>cv_cbs := filter (\<lambda>(j, _). j \<noteq> key) (cv_cbs cv)\<rparr>"

definition getListener :: "nat \<Rightarrow> ('v, 's) config_var \<Rightarrow> ('v \<Rightarrow> 'v \<Rightarrow> 's \<Rightarrow> 's) option" where
  "getListener key cv = map_of (cv_cbs cv) key"

definition clearListener :: "('v, 's) config_var \<Rightarrow> ('v, 's) config_var" where
  "clearListener cv = cv\<lparr>cv_cbs := []\<rparr>"

text \<open>An exception of the conversion is caught; the result is \<open>false\<close> in every case.\<close>

definition fromString ::
  "(string \<Rightarrow> string \<Rightarrow> 'v option) \<Rightarrow> string \<Rightarrow> ('v, 's) config_var \<Rightarrow> 's \<Rightarrow> bool \<times> ('v, 's) config_var \<times> 's" where
  "fromString from_str v cv s =
     (case from_str (cv_type cv) v of None \<Rightarrow> (False, cv, s) | Some val \<Rightarrow> (False, setValue val cv s))"

text \<open>\<open>to_str\<close> is the conversion of the type of the variable; an exception gives the empty string.\<close>

definition cv_toString :: "(string \<Rightarrow> 'v \<Rightarrow> string option) \<Rightarrow> ('v, 's) config_var \<Rightarrow> string" where
  "cv_toString to_str cv = (case to_str (cv_type cv) (cv_val cv) of None \<Rightarrow> [] | Some t \<Rightarrow> t)"

section \<open>The registry\<close>

type_synonym ('v, 's) registry = "string \<rightharpoonup> ('v, 's) config_var"

definition name_chars :: string where
  "name_chars = ''abcdefghijklmnopqrstuvwxyz_.0123456789''"

definition good_name :: "string \<Rightarrow> bool" where
  "good_name name \<longleftrightarrow> list_all (\<lambda>c. c \<in> set name_chars) name"

text \<open>A null pointer is \<open>None\<close>, a variable is its name.\<close>

definition Config_LookUp ::
  "string \<Rightarrow> string \<Rightarrow> 'v \<Rightarrow> string \<Rightarrow> ('v, 's) registry \<Rightarrow> (string option \<times> ('v, 's) registry) res" where
  "Config_LookUp typ name default_value description reg =
     (case reg name of
        Some cv \<Rightarrow> if cv_type cv = typ then Inr (Some name, reg) else Inr (None, reg)
      | None \<Rightarrow>
          if \<not> good_name name then Inl Invalid_argument
          else Inr (Some name, reg(name \<mapsto> ConfigVar typ name default_value description)))"

definition Config_LookUp_typed :: "string \<Rightarrow> string \<Rightarrow> ('v, 's) registry \<Rightarrow> string option" where
  "Config_LookUp_typed typ name reg =
     (case reg name of None \<Rightarrow> None | Some cv \<Rightarrow> if cv_type cv = typ then Some name else None)"

definition LookUpBase :: "string \<Rightarrow> ('v, 's) registry \<Rightarrow> ('v, 's) config_var option" where
  "LookUpBase name reg = reg name"

section \<open>Loading\<close>

fun Scalar :: "yaml \<Rightarrow> string" where
  "Scalar (Y_scalar s) = s"
| "Scalar _ = []"

definition join_key :: "string \<Rightarrow> string \<Rightarrow> string" where
  "join_key prefix k = (if prefix \<noteq> [] then prefix @ ''.'' @ k else k)"

fun ListAllMember :: "string \<Rightarrow> yaml \<Rightarrow> (string \<times> yaml) list res"
and list_members :: "string \<Rightarrow> (yaml \<times> yaml) list \<Rightarrow> (string \<times> yaml) list res" where
  "ListAllMember prefix (Y_map kvs) =
     (if \<not> good_name prefix then Inl Invalid_argument
      else bindE (list_members prefix kvs) (\<lambda>xs. Inr ((prefix, Y_map kvs) # xs)))"
| "ListAllMember prefix node = (if \<not> good_name prefix then Inl Invalid_argument else Inr [(prefix, node)])"
| "list_members prefix [] = Inr []"
| "list_members prefix ((k, v) # kvs) =
     bindE (ListAllMember (join_key prefix (Scalar k)) v) (\<lambda>xs.
       bindE (list_members prefix kvs) (\<lambda>ys. Inr (xs @ ys)))"

definition load_entry ::
  "(yaml \<Rightarrow> string) \<Rightarrow> (string \<Rightarrow> string \<Rightarrow> 'v option) \<Rightarrow> string \<times> yaml
     \<Rightarrow> ('v, 's) registry \<times> 's \<Rightarrow> ('v, 's) registry \<times> 's" where
  "load_entry emit from_str = (\<lambda>(key0, node) (reg, s).
     if key0 = [] then (reg, s)
     else
       let key = lower_case key0 in
       case LookUpBase key reg of
         None \<Rightarrow> (reg, s)
       | Some cv \<Rightarrow>
           let text = (case node of Y_scalar t \<Rightarrow> t | _ \<Rightarrow> emit node);
               (_, cv', s') = fromString from_str text cv s in
           (reg(key \<mapsto> cv'), s'))"

definition LoadFromYaml ::
  "(yaml \<Rightarrow> string) \<Rightarrow> (string \<Rightarrow> string \<Rightarrow> 'v option) \<Rightarrow> yaml
     \<Rightarrow> ('v, 's) registry \<times> 's \<Rightarrow> (('v, 's) registry \<times> 's) res" where
  "LoadFromYaml emit from_str root st =
     bindE (ListAllMember [] root) (\<lambda>nodes. Inr (fold (load_entry emit from_str) nodes st))"

text \<open>
  The files of a directory, in order: \<open>lstat\<close> gives the time of the last change, \<open>load_file\<close> the
  document. The time is noted before the file is loaded; exceptions are caught.
\<close>

fun load_files ::
  "(string \<Rightarrow> nat option) \<Rightarrow> (string \<Rightarrow> yaml option) \<Rightarrow> (yaml \<Rightarrow> string) \<Rightarrow> (string \<Rightarrow> string \<Rightarrow> 'v option)
     \<Rightarrow> string list \<Rightarrow> (string \<Rightarrow> nat) \<Rightarrow> ('v, 's) registry \<times> 's \<Rightarrow> (string \<Rightarrow> nat) \<times> ('v, 's) registry \<times> 's" where
  "load_files lstat load_file emit from_str [] seen st = (seen, st)"
| "load_files lstat load_file emit from_str (x # xs) seen st =
     (case lstat x of
        None \<Rightarrow> (seen, st)
      | Some mtime \<Rightarrow>
          if seen x = mtime then load_files lstat load_file emit from_str xs seen st
          else
            let st' = (case load_file x of
                         None \<Rightarrow> st
                       | Some root \<Rightarrow> (case LoadFromYaml emit from_str root st of Inl _ \<Rightarrow> st | Inr st1 \<Rightarrow> st1)) in
            load_files lstat load_file emit from_str xs (seen(x := mtime)) st')"

text \<open>Every variable in the order of the names, which are given.\<close>

definition Config_Visit ::
  "(('v, 's) config_var \<Rightarrow> 's \<Rightarrow> ('v, 's) config_var \<times> 's) \<Rightarrow> string list \<Rightarrow> ('v, 's) registry \<times> 's \<Rightarrow> ('v, 's) registry \<times> 's" where
  "Config_Visit cb names = fold (\<lambda>name (reg, s).
     case reg name of None \<Rightarrow> (reg, s) | Some cv \<Rightarrow> (let (cv', s') = cb cv s in (reg(name \<mapsto> cv'), s'))) names"

section \<open>Containers are read back\<close>

lemma map_of_graph:
  assumes "finite (dom m)"
  shows "map_of (map (\<lambda>k. (k, the (m k))) (sorted_list_of_set (dom m))) = m"
proof
  fix k
  show "map_of (map (\<lambda>k. (k, the (m k))) (sorted_list_of_set (dom m))) k = m k"
    using assms by (cases "k \<in> dom m") (auto simp: map_of_map_keys domIff)
qed

lemma map_round_trip:
  assumes "\<And>n. load (emit n) = Some n" and "\<And>kvs. pairs (Y_map kvs) = kvs" and "pairs Y_null = []"
    and "\<And>x. load (to_str x) = Some (node x) \<and> from (emit (node x)) = Some x"
    and "\<And>y. load (to_str2 y) = Some (node2 y) \<and> from2 (emit (node2 y)) = Some y"
    and "finite (dom (m :: 'a::linorder \<rightharpoonup> 'b))"
  shows "\<exists>t. map_to load emit to_str to_str2 m = Some t \<and> map_from load emit pairs from from2 t = Some m"
proof -
  let ?ks = "sorted_list_of_set (dom m)" and ?kv = "\<lambda>k. (node k, node2 (the (m k)))"
  have to: "all_some (map (\<lambda>k. both (load (to_str k)) (load (to_str2 (the (m k))))) ?ks) = Some (map ?kv ?ks)"
    using assms(4,5) by (intro all_some_map) simp
  have "pairs (map_node (map ?kv ?ks)) = map ?kv ?ks" using assms(2,3) by (simp add: map_node_def)
  moreover have "all_some (map (\<lambda>(k, n). both (from (emit k)) (from2 (emit n))) (map ?kv ?ks))
      = Some (map (\<lambda>k. (k, the (m k))) ?ks)"
    using assms(4,5) all_some_map [of ?ks "\<lambda>k. both (from (emit (node k))) (from2 (emit (node2 (the (m k)))))"
        "\<lambda>k. (k, the (m k))"] by (simp add: comp_def)
  ultimately show ?thesis
    using assms(1) to map_of_graph [OF assms(6)] by (simp add: map_to_def map_from_def)
qed

text \<open>
  When the YAML library reads back what it prints, takes a sequence or a map apart into its
  elements and a null node into none, and every element is read back from the node of its text, then
  a vector, a finite set and a finite map of configuration values are read back from their texts.
\<close>

theorem container_round_trip:
  assumes "\<And>n. load (emit n) = Some n" and "\<And>ns. items (Y_seq ns) = ns" and "items Y_null = []"
    and "\<And>kvs. pairs (Y_map kvs) = kvs" and "pairs Y_null = []"
    and "\<And>x. \<exists>n. load (to_str x) = Some n \<and> from (emit n) = Some x"
    and "\<And>y. \<exists>n. load (to_str2 y) = Some n \<and> from2 (emit n) = Some y"
    and "finite (A :: 'a::linorder set)" and "finite (dom (m :: 'a \<rightharpoonup> 'b))"
  shows "(\<exists>t. vector_to load emit to_str (xs :: 'a list) = Some t \<and> vector_from load emit items from t = Some xs)
       \<and> (\<exists>t. set_to load emit to_str A = Some t \<and> set_from load emit items from t = Some A)
       \<and> (\<exists>t. map_to load emit to_str to_str2 m = Some t \<and> map_from load emit pairs from from2 t = Some m)"
proof -
  obtain node where node: "\<And>x. load (to_str x) = Some (node x) \<and> from (emit (node x)) = Some x"
    using assms(6) by metis
  obtain node2 where node2: "\<And>y. load (to_str2 y) = Some (node2 y) \<and> from2 (emit (node2 y)) = Some y"
    using assms(7) by metis
  have to: "all_some (map (\<lambda>x. load (to_str x)) ys) = Some (map node ys)" for ys
    using node by (intro all_some_map) auto
  have "items (seq_node (map node ys)) = map node ys" for ys
    using assms(2,3) by (simp add: seq_node_def)
  then have back': "all_some (map (\<lambda>n. from (emit n)) (items (seq_node (map node ys)))) = Some ys" for ys
    using node all_some_map [of ys "\<lambda>x. from (emit (node x))" "\<lambda>x. x"] by (simp add: comp_def)
  show ?thesis using assms(1,8) to back' map_round_trip [OF assms(1,4,5) node node2 assms(9)]
    by (simp add: vector_to_def vector_from_def set_to_def set_from_def)
qed

definition nat_text :: "nat \<Rightarrow> string" where
  "nat_text k = yaml_text (Y_scalar (replicate k (CHR ''x'')))"

definition nat_read :: "string \<Rightarrow> nat option" where
  "nat_read s = (case yaml_read s of Some (Y_scalar t) \<Rightarrow> Some (length t) | _ \<Rightarrow> None)"

theorem container_round_trip_witness:
  "(\<exists>t. vector_to yaml_read yaml_text nat_text [3, 1] = Some t \<and> vector_from yaml_read yaml_text yaml_items nat_read t = Some [3, 1])
   \<and> (\<exists>t. set_to yaml_read yaml_text nat_text {2} = Some t \<and> set_from yaml_read yaml_text yaml_items nat_read t = Some {2})
   \<and> (\<exists>t. map_to yaml_read yaml_text nat_text nat_text [1 \<mapsto> 5] = Some t
        \<and> map_from yaml_read yaml_text yaml_pairs nat_read nat_read t = Some [1 \<mapsto> 5])"
proof (rule container_round_trip)
  show "\<exists>n. yaml_read (nat_text x) = Some n \<and> nat_read (yaml_text n) = Some x" for x
    by (simp add: nat_text_def nat_read_def)
  then show "\<exists>n. yaml_read (nat_text x) = Some n \<and> nat_read (yaml_text n) = Some x" for x .
qed simp_all

section \<open>Setting values\<close>

text \<open>
  Setting a variable to a new value calls every listener once with the old and the new value, in
  the order in which they were added, and stores the value; setting it to the value it has does
  nothing; and a text that is not of the type leaves the variable alone.
\<close>

theorem setValue_notifies:
  "snd (setValue val cv s) = (if val = cv_val cv then s else fold (\<lambda>(k, cb). cb (cv_val cv) val) (cv_cbs cv) s)
   \<and> cv_val (fst (setValue val cv s)) = val \<and> cv_cbs (fst (setValue val cv s)) = cv_cbs cv
   \<and> (case from_str (cv_type cv) t of
        None \<Rightarrow> fromString from_str t cv s = (False, cv, s)
      | Some v \<Rightarrow> cv_val (fst (snd (fromString from_str t cv s))) = v)"
  by (auto simp: setValue_def fromString_def split: option.split)

section \<open>Loading a document\<close>

lemma name_chars_lower: "c \<in> set name_chars \<Longrightarrow> to_lower c = c"
proof -
  have "list_all (\<lambda>c. to_lower c = c) name_chars" by code_simp
  then show "c \<in> set name_chars \<Longrightarrow> to_lower c = c" by (simp add: list_all_iff)
qed

lemma lower_good: "good_name s \<Longrightarrow> lower_case s = s"
  by (auto simp: good_name_def lower_case_def list_all_iff name_chars_lower intro: map_idI)

text \<open>The entries of a document with their paths, whatever characters these have.\<close>

fun members :: "string \<Rightarrow> yaml \<Rightarrow> (string \<times> yaml) list"
and members_of :: "string \<Rightarrow> (yaml \<times> yaml) list \<Rightarrow> (string \<times> yaml) list" where
  "members prefix (Y_map kvs) = (prefix, Y_map kvs) # members_of prefix kvs"
| "members prefix node = [(prefix, node)]"
| "members_of prefix [] = []"
| "members_of prefix ((k, v) # kvs) = members (join_key prefix (Scalar k)) v @ members_of prefix kvs"

definition good_members :: "(string \<times> yaml) list \<Rightarrow> bool" where
  "good_members ns \<longleftrightarrow> list_all (\<lambda>(k, n). good_name k) ns"

lemma ListAllMember_members:
  "ListAllMember prefix node = (if good_members (members prefix node) then Inr (members prefix node) else Inl Invalid_argument)"
  "list_members prefix kvs = (if good_members (members_of prefix kvs) then Inr (members_of prefix kvs) else Inl Invalid_argument)"
  by (induction prefix node and prefix kvs rule: ListAllMember_list_members.induct) (auto simp: good_members_def)

text \<open>The value that the entries of a document give to one variable.\<close>

definition entry_value :: "(yaml \<Rightarrow> string) \<Rightarrow> (string \<Rightarrow> 'v option) \<Rightarrow> yaml \<Rightarrow> 'v \<Rightarrow> 'v" where
  "entry_value emit from node old =
     (case from (case node of Y_scalar t \<Rightarrow> t | _ \<Rightarrow> emit node) of None \<Rightarrow> old | Some v \<Rightarrow> v)"

lemma load_entry_var:
  assumes "reg key = Some cv" and "good_name k" and "key \<noteq> []"
  shows "\<exists>cv'. fst (load_entry emit from_str (k, node) (reg, s)) key = Some cv' \<and> cv_type cv' = cv_type cv
    \<and> cv_val cv' = (if k = key then entry_value emit (from_str (cv_type cv)) node (cv_val cv) else cv_val cv)"
  using assms
  by (auto simp: load_entry_def Let_def lower_good LookUpBase_def fromString_def setValue_def entry_value_def
      split: option.splits prod.splits)

lemma load_entries_var:
  assumes "\<forall>(k, n) \<in> set nodes. good_name k" and "reg key = Some cv" and "key \<noteq> []"
  shows "\<exists>cv'. fst (fold (load_entry emit from_str) nodes (reg, s)) key = Some cv' \<and> cv_type cv' = cv_type cv
    \<and> cv_val cv' = fold (\<lambda>(k, n). if k = key then entry_value emit (from_str (cv_type cv)) n else id) nodes (cv_val cv)"
  using assms
proof (induction nodes arbitrary: reg s cv)
  case (Cons e nodes)
  obtain k node where e: "e = (k, node)" by (cases e)
  obtain reg1 s1 where st: "load_entry emit from_str e (reg, s) = (reg1, s1)" by fastforce
  obtain cv1 where cv1: "reg1 key = Some cv1" "cv_type cv1 = cv_type cv"
      "cv_val cv1 = (if k = key then entry_value emit (from_str (cv_type cv)) node (cv_val cv) else cv_val cv)"
    using load_entry_var [where reg = reg and key = key and cv = cv and k = k and emit = emit and from_str = from_str and node = node and s = s]
      Cons.prems st e by auto
  have good: "\<forall>(k, n) \<in> set nodes. good_name k" using Cons.prems(1) by simp
  have "fold (load_entry emit from_str) (e # nodes) (reg, s) = fold (load_entry emit from_str) nodes (reg1, s1)"
    using st by simp
  then show ?case
    using Cons.IH [where reg = reg1, OF good cv1(1) Cons.prems(3), of s1] unfolding cv1(2,3)
    by (cases "k = key") (simp_all add: e)
qed auto

lemma load_entry_none:
  "reg key = None \<Longrightarrow> fst (load_entry emit from_str e (reg, s)) key = None"
  by (auto simp: load_entry_def Let_def LookUpBase_def split: option.splits prod.splits)

text \<open>
  C25: Loading a document throws when the path of some entry has a character that names may not have
  (capital letters are among them, though the code means to turn them into small ones). Otherwise
  it gives every registered variable the value of the last entry of its path whose text is of its
  type, leaves the variables without an entry alone, and registers nothing new.
\<close>

theorem load_sets_variables:
  assumes "key \<noteq> []"
  shows "if good_members (members [] root)
    then \<exists>reg' s'. LoadFromYaml emit from_str root (reg, s) = Inr (reg', s')
      \<and> (case reg key of
           None \<Rightarrow> reg' key = None
         | Some cv \<Rightarrow>
             (\<exists>cv'. reg' key = Some cv' \<and> cv_type cv' = cv_type cv
                \<and> cv_val cv' = fold (\<lambda>(k, n). if k = key then entry_value emit (from_str (cv_type cv)) n else id)
                                 (members [] root) (cv_val cv)))
    else LoadFromYaml emit from_str root (reg, s) = Inl Invalid_argument"
proof (cases "good_members (members [] root)")
  case True
  let ?ns = "members [] root"
  have good: "\<forall>(k, n) \<in> set ?ns. good_name k" using True by (simp add: good_members_def list_all_iff)
  obtain reg' s' where r: "fold (load_entry emit from_str) ?ns (reg, s) = (reg', s')" by fastforce
  have none: "fst (fold (load_entry emit from_str) ns (r, t)) key = None" if "r key = None" for ns and r :: "('a, 'b) registry" and t
    using that
  proof (induction ns arbitrary: r t)
    case (Cons e ns)
    then show ?case
      using load_entry_none [where reg = r and key = key and emit = emit and from_str = from_str and e = e and s = t] Cons
      by (cases "load_entry emit from_str e (r, t)") simp
  qed simp
  show ?thesis
    using True r none [of reg ?ns s]
      load_entries_var [where reg = reg and key = key and emit = emit and from_str = from_str and s = s, OF good _ assms]
    by (cases "reg key") (auto simp: LoadFromYaml_def ListAllMember_members)
qed (simp add: LoadFromYaml_def ListAllMember_members)

definition sample_registry :: "(nat, unit) registry" where
  "sample_registry = [''a.b'' \<mapsto> ConfigVar ''int'' ''a.b'' 0 []]"

definition sample_document :: yaml where
  "sample_document = Y_map [(Y_scalar ''a'', Y_map [(Y_scalar ''b'', Y_scalar ''xyz'')])]"

theorem load_sets_variables_witness:
  "(\<exists>reg' s'. LoadFromYaml (\<lambda>_. []) (\<lambda>_ t. Some (length t)) sample_document (sample_registry, ()) = Inr (reg', s')
      \<and> (\<exists>cv'. reg' ''a.b'' = Some cv' \<and> cv_val cv' = 3))
   \<and> LoadFromYaml (\<lambda>_. []) (\<lambda>_ t. Some (length t)) (Y_map [(Y_scalar ''A'', Y_null)]) (sample_registry, ()) = Inl Invalid_argument"
proof -
  have m: "members [] sample_document = [([], sample_document),
      (''a'', Y_map [(Y_scalar ''b'', Y_scalar ''xyz'')]), (''a.b'', Y_scalar ''xyz'')]"
    "good_members (members [] sample_document)" "\<not> good_members (members [] (Y_map [(Y_scalar ''A'', Y_null)]))"
    by (simp_all add: sample_document_def good_members_def good_name_def name_chars_def join_key_def)
  show ?thesis
    using load_sets_variables [of "''a.b''" sample_document "\<lambda>_. []" "\<lambda>_ t. Some (length t)" sample_registry "()"]
      load_sets_variables [of "''a.b''" "Y_map [(Y_scalar ''A'', Y_null)]" "\<lambda>_. []" "\<lambda>_ t. Some (length t)" sample_registry "()"] m
    by (fastforce simp: sample_registry_def ConfigVar_def entry_value_def)
qed

section \<open>Loading a directory\<close>

lemma load_files_keeps:
  "seen x = the (lstat x) \<Longrightarrow> fst (load_files lstat load_file emit from_str xs seen st) x = the (lstat x)"
  by (induction xs arbitrary: seen st) (auto simp: Let_def split: option.split)

lemma load_files_seen:
  "\<forall>x \<in> set (takeWhile (\<lambda>x. lstat x \<noteq> None) xs).
     fst (load_files lstat load_file emit from_str xs seen st) x = the (lstat x)"
proof (induction xs arbitrary: seen st)
  case (Cons x xs)
  show ?case
  proof (cases "lstat x")
    case (Some mtime)
    then obtain seen1 st1 where
      "load_files lstat load_file emit from_str (x # xs) seen st = load_files lstat load_file emit from_str xs seen1 st1"
      "seen1 x = the (lstat x)"
      by (cases "seen x = mtime") (auto simp: Let_def)
    then show ?thesis
      using Cons.IH [of seen1 st1] load_files_keeps [of seen1 x lstat load_file emit from_str xs st1] Some
      by (simp del: load_files.simps)
  qed simp
qed simp

lemma load_files_all_seen:
  "\<forall>x \<in> set (takeWhile (\<lambda>x. lstat x \<noteq> None) xs). seen x = the (lstat x) \<Longrightarrow>
   load_files lstat load_file emit from_str xs seen st = (seen, st)"
  by (induction xs) (auto split: option.split)

text \<open>
  Loading a directory whose files have not been changed since it was loaded last does nothing,
  whatever the variables are by then: also a file that could not be loaded is not tried again.
\<close>

theorem unchanged_files_not_loaded:
  "load_files lstat load_file emit from_str xs (fst (load_files lstat load_file0 emit0 from_str0 xs seen st0)) st
     = (fst (load_files lstat load_file0 emit0 from_str0 xs seen st0), st)"
  by (rule load_files_all_seen) (rule load_files_seen)

end
