(* ===== verification/Log_Config.thy ===== *)
theory Log_Config
  imports Loggers Config
begin

text \<open>
  The last part of \<open>Log.cpp\<close>: the definitions of loggers in the configuration, their conversion to
  and from text, and the listener that makes the loggers follow the configuration. A set of
  definitions is the list of its elements, ordered by name. \<open>as_str\<close> is the conversion of a node
  to a string. The message that the listener logs itself is left out.
\<close>

record appender_define =
  ad_type :: int
  ad_name :: string
  ad_level :: level
  ad_formatter :: string
  ad_file :: string

record log_define =
  ld_name :: string
  ld_level :: level
  ld_formatter :: string
  ld_appenders :: "appender_define list"

definition ad_eq :: "appender_define \<Rightarrow> appender_define \<Rightarrow> bool" where
  "ad_eq p d \<longleftrightarrow> ad_type p = ad_type d \<and> ad_level p = ad_level d \<and> ad_formatter p = ad_formatter d \<and> ad_file p = ad_file d"

definition ld_eq :: "log_define \<Rightarrow> log_define \<Rightarrow> bool" where
  "ld_eq p d \<longleftrightarrow> ld_name p = ld_name d \<and> ld_level p = ld_level d \<and> ld_formatter p = ld_formatter d
     \<and> list_all2 ad_eq (ld_appenders p) (ld_appenders d)"

section \<open>Conversions\<close>

text \<open>\<open>node[key]\<close>, when it is defined.\<close>

fun field :: "yaml \<Rightarrow> string \<Rightarrow> yaml option" where
  "field (Y_map kvs) key = map_of (map (\<lambda>(k, v). (Scalar k, v)) kvs) key"
| "field _ key = None"

definition opt_field :: "(yaml \<Rightarrow> string option) \<Rightarrow> yaml \<Rightarrow> string \<Rightarrow> string option" where
  "opt_field as_str node key = (case field node key of None \<Rightarrow> Some [] | Some n \<Rightarrow> as_str n)"

text \<open>The kind of an appender and the file it writes to, or an exception.\<close>

definition appender_kind :: "(yaml \<Rightarrow> string option) \<Rightarrow> yaml \<Rightarrow> (int \<times> string \<times> string) option" where
  "appender_kind as_str node =
     (case field node ''type'' of
        None \<Rightarrow> None
      | Some t \<Rightarrow>
          (case as_str t of
             None \<Rightarrow> None
           | Some name \<Rightarrow>
               if name = ''FileLogAppender'' then
                 (case field node ''file'' of None \<Rightarrow> None | Some f \<Rightarrow> map_option (\<lambda>file. (1, name, file)) (as_str f))
               else if name = ''StdoutLogAppender'' then Some (0, name, [])
               else None))"

definition appender_from :: "(string \<Rightarrow> yaml option) \<Rightarrow> (yaml \<Rightarrow> string option) \<Rightarrow> string \<Rightarrow> appender_define option" where
  "appender_from load as_str val =
     (case load val of
        None \<Rightarrow> None
      | Some node \<Rightarrow>
          (case (appender_kind as_str node, opt_field as_str node ''level'', opt_field as_str node ''formatter'') of
             (Some (typ, name, file), Some level, Some formatter) \<Rightarrow>
               Some \<lparr>ad_type = typ, ad_name = name, ad_level = LogLevel_FromString level,
                     ad_formatter = formatter, ad_file = file\<rparr>
           | _ \<Rightarrow> None))"

definition appender_node :: "appender_define \<Rightarrow> yaml" where
  "appender_node p =
     (let str = (if ad_type p = 0 then ''FileLogAppender'' else if ad_type p = 1 then ''StdoutLogAppender'' else []) in
      Y_map [(Y_scalar ''type'', Y_scalar str), (Y_scalar ''level'', Y_scalar (LogLevel_ToString (ad_level p))),
             (Y_scalar ''formatter'', Y_scalar (ad_formatter p)), (Y_scalar ''file'', Y_scalar (ad_file p))])"

definition appender_to :: "(yaml \<Rightarrow> string) \<Rightarrow> appender_define \<Rightarrow> string" where
  "appender_to emit p = emit (appender_node p)"

definition define_from ::
  "(string \<Rightarrow> yaml option) \<Rightarrow> (yaml \<Rightarrow> string) \<Rightarrow> (yaml \<Rightarrow> yaml list) \<Rightarrow> (yaml \<Rightarrow> string option) \<Rightarrow> string \<Rightarrow> log_define option" where
  "define_from load emit items as_str val =
     (case load val of
        None \<Rightarrow> None
      | Some node \<Rightarrow>
          (case field node ''name'' of
             None \<Rightarrow> None
           | Some n \<Rightarrow>
               let aps = (case field node ''appender'' of
                            None \<Rightarrow> Some []
                          | Some a \<Rightarrow> all_some (map (\<lambda>x. appender_from load as_str (emit x)) (items a))) in
               (case (as_str n, opt_field as_str node ''level'', opt_field as_str node ''formatter'', aps) of
                  (Some name, Some level, Some formatter, Some appenders) \<Rightarrow>
                    Some \<lparr>ld_name = name, ld_level = LogLevel_FromString level, ld_formatter = formatter,
                          ld_appenders = appenders\<rparr>
                | _ \<Rightarrow> None)))"

definition define_to :: "(string \<Rightarrow> yaml option) \<Rightarrow> (yaml \<Rightarrow> string) \<Rightarrow> log_define \<Rightarrow> string option" where
  "define_to load emit p =
     map_option (\<lambda>ns. emit (Y_map
       ([(Y_scalar ''name'', Y_scalar (ld_name p)), (Y_scalar ''level'', Y_scalar (LogLevel_ToString (ld_level p))),
         (Y_scalar ''formatter'', Y_scalar (ld_formatter p))]
        @ (if ns = [] then [] else [(Y_scalar ''appender'', Y_seq ns)]))))
       (all_some (map (\<lambda>x. load (appender_to emit x)) (ld_appenders p)))"

text \<open>
  The definition of an appender is not read back from its text: the names of the two kinds are
  exchanged, so one that writes to the console comes back as one that writes to a file, and one
  that writes to a file comes back as one for the console and without its file.
\<close>

theorem appender_kinds_exchanged:
  assumes "\<And>n. load (emit n) = Some n" and "\<And>s. as_str (Y_scalar s) = Some s" and "ad_level p \<in> {0..5}"
  shows "appender_from load as_str (appender_to emit p) =
    (if ad_type p = 0 then Some (p\<lparr>ad_type := 1, ad_name := ''FileLogAppender''\<rparr>)
     else if ad_type p = 1 then Some (p\<lparr>ad_type := 0, ad_name := ''StdoutLogAppender'', ad_file := []\<rparr>)
     else None)"
proof -
  have "list_all (\<lambda>l. LogLevel_FromString (LogLevel_ToString l) = l) [0, 1, 2, 3, 4, 5]" by code_simp
  moreover have "ad_level p \<in> set [0, 1, 2, 3, 4, 5]" using assms(3) by auto
  ultimately have "LogLevel_FromString (LogLevel_ToString (ad_level p)) = ad_level p" by (simp only: list_all_iff)
  then show ?thesis using assms(1,2)
    by (cases p) (simp add: appender_from_def appender_to_def appender_kind_def appender_node_def opt_field_def Let_def)
qed

definition console_define :: appender_define where
  "console_define = \<lparr>ad_type = 0, ad_name = ''StdoutLogAppender'', ad_level = 2, ad_formatter = [], ad_file = []\<rparr>"

theorem appender_kinds_exchanged_witness:
  "appender_from yaml_read (\<lambda>n. Some (Scalar n)) (appender_to yaml_text console_define)
     = Some (console_define\<lparr>ad_type := 1, ad_name := ''FileLogAppender''\<rparr>)"
  using appender_kinds_exchanged [of yaml_read yaml_text "\<lambda>n. Some (Scalar n)" console_define]
  by (simp add: console_define_def)

section \<open>Following the configuration\<close>

text \<open>
  A new appender takes the next free number \<open>n\<close>; one of an unknown kind is a null pointer. Its
  uninitialised level is set at once.
\<close>

definition configure_appender :: "appender_define \<Rightarrow> nat \<times> logger \<times> log_world \<Rightarrow> (nat \<times> logger \<times> log_world) res" where
  "configure_appender k = (\<lambda>(n, lg, w).
     if ad_type k \<noteq> 0 \<and> ad_type k \<noteq> 1 then Inl Null_deref
     else
       let p = (if ad_type k = 0 then StdoutLogAppender (ad_level k) else FileLogAppender (ad_level k) (ad_file k));
           f = LogFormatter (ad_formatter k);
           p1 = (if ad_formatter k \<noteq> [] \<and> \<not> f_error f then ap_setFormatter (Some f) p else p) in
       bindE (addAppender n lg (w\<lparr>w_appenders := (w_appenders w)(n \<mapsto> p1)\<rparr>)) (\<lambda>(lg', w'). Inr (n + 1, lg', w')))"

definition configure_logger :: "log_define \<Rightarrow> nat \<times> log_world \<Rightarrow> (nat \<times> log_world) res" where
  "configure_logger x = (\<lambda>(n, w).
     let (lg0, w0) = getLogger (ld_name x) w;
         lg1 = lg0\<lparr>lg_level := ld_level x\<rparr>;
         (lg2, w2) = (if ld_formatter x \<noteq> [] then lg_setFormatter (ld_formatter x) lg1 w0 else (lg1, w0)) in
     bindE (foldE configure_appender (ld_appenders x) (n, clearAppender lg2, w2)) (\<lambda>(n', lg', w').
       Inr (n', put_logger lg' w')))"

definition silence_logger :: "string \<Rightarrow> log_world \<Rightarrow> log_world" where
  "silence_logger name w =
     (let (lg, w1) = getLogger name w in put_logger (clearAppender (lg\<lparr>lg_level := 100\<rparr>)) w1)"

definition find_define :: "string \<Rightarrow> log_define list \<Rightarrow> log_define option" where
  "find_define name xs = List.find (\<lambda>y. ld_name y = name) xs"

definition configure_changed :: "log_define list \<Rightarrow> log_define \<Rightarrow> nat \<times> log_world \<Rightarrow> (nat \<times> log_world) res" where
  "configure_changed old x st =
     (case find_define (ld_name x) old of
        None \<Rightarrow> configure_logger x st
      | Some y \<Rightarrow> if \<not> ld_eq x y then configure_logger x st else Inr st)"

definition on_logs_change :: "log_define list \<Rightarrow> log_define list \<Rightarrow> nat \<times> log_world \<Rightarrow> (nat \<times> log_world) res" where
  "on_logs_change old new st =
     bindE (foldE (configure_changed old) new st) (\<lambda>(n, w).
       Inr (n, fold silence_logger (map ld_name (filter (\<lambda>y. find_define (ld_name y) new = None) old)) w))"

text \<open>What is seen of the appenders: their levels.\<close>

definition level_of :: "log_world \<Rightarrow> nat \<Rightarrow> level option" where
  "level_of w a = map_option ap_level (w_appenders w a)"

definition named :: "log_world \<Rightarrow> bool" where
  "named w \<longleftrightarrow> (\<forall>name lg. w_loggers w name = Some lg \<longrightarrow> lg_name lg = name)"

lemma configure_appender_spec:
  assumes "configure_appender k (n, lg, w) = Inr (n', lg', w')"
  shows "n' = n + 1 \<and> lg' = lg\<lparr>lg_appenders := lg_appenders lg @ [n]\<rparr> \<and> w_loggers w' = w_loggers w
    \<and> level_of w' n = Some (ad_level k) \<and> (\<forall>a. a \<noteq> n \<longrightarrow> level_of w' a = level_of w a)"
  using assms
  by (auto simp: configure_appender_def addAppender_def ap_setFormatter_def StdoutLogAppender_def FileLogAppender_def
      level_of_def Let_def split: if_splits)

lemma configure_appenders_spec:
  assumes "foldE configure_appender ks (n, lg, w) = Inr (n', lg', w')"
  shows "n' = n + length ks \<and> lg' = lg\<lparr>lg_appenders := lg_appenders lg @ [n..<n']\<rparr> \<and> w_loggers w' = w_loggers w
    \<and> map (level_of w') [n..<n'] = map (Some \<circ> ad_level) ks \<and> (\<forall>a<n. level_of w' a = level_of w a)"
  using assms
proof (induction ks arbitrary: n lg w)
  case (Cons k ks)
  obtain n1 lg1 w1 where st: "configure_appender k (n, lg, w) = Inr (n1, lg1, w1)"
      "foldE configure_appender ks (n1, lg1, w1) = Inr (n', lg', w')"
    using Cons.prems by (auto simp: bindE_Inr_iff)
  note one = configure_appender_spec [OF st(1)]
  note rest = Cons.IH [OF st(2)]
  have "n' = Suc (n + length ks)" "n1 = Suc n" using one rest by auto
  moreover from this have "[n..<n'] = n # [Suc n..<n']" using upt_conv_Cons [of n n'] by simp
  ultimately have "[n..<n'] = n # [n1..<n']" by simp
  then show ?case using one rest by auto
qed simp

lemma sync_appender_levels: "level_of (fold (sync_appender f) as w) = level_of w \<and> w_loggers (fold (sync_appender f) as w) = w_loggers w"
proof (induction as arbitrary: w)
  case (Cons a as)
  have "level_of (sync_appender f a w) = level_of w" "w_loggers (sync_appender f a w) = w_loggers w"
    by (auto simp: sync_appender_def level_of_def ap_setFormatter_def fun_eq_iff split: option.split)
  then show ?case using Cons.IH by simp
qed simp

lemma getLogger_spec:
  assumes "getLogger name w = (lg, w')" and "named w"
  shows "lg_name lg = name \<and> named w' \<and> level_of w' = level_of w \<and> (\<forall>m. m \<noteq> name \<longrightarrow> w_loggers w' m = w_loggers w m)"
  using assms by (auto simp: getLogger_def named_def new_Logger_def level_of_def fun_eq_iff Let_def split: option.splits if_splits)

text \<open>A configured logger: its level, and the levels of its appenders, all numbered below \<open>n\<close>.\<close>

definition configured :: "log_define \<Rightarrow> nat \<times> log_world \<Rightarrow> bool" where
  "configured x = (\<lambda>(n, w). \<exists>lg. w_loggers w (ld_name x) = Some lg \<and> lg_level lg = ld_level x
     \<and> (\<forall>a \<in> set (lg_appenders lg). a < n)
     \<and> map (level_of w) (lg_appenders lg) = map (Some \<circ> ad_level) (ld_appenders x))"

lemma configured_kept:
  assumes "configured x (n, w)" and "n \<le> n'" and "\<forall>a<n. level_of w' a = level_of w a"
    and "w_loggers w' (ld_name x) = w_loggers w (ld_name x)"
  shows "configured x (n', w')"
proof -
  obtain lg where lg: "w_loggers w (ld_name x) = Some lg" "lg_level lg = ld_level x" "\<forall>a \<in> set (lg_appenders lg). a < n"
      "map (level_of w) (lg_appenders lg) = map (Some \<circ> ad_level) (ld_appenders x)"
    using assms(1) by (auto simp: configured_def)
  have "map (level_of w') (lg_appenders lg) = map (level_of w) (lg_appenders lg)"
    using lg(3) assms(3) by simp
  then have "w_loggers w' (ld_name x) = Some lg \<and> lg_level lg = ld_level x \<and> (\<forall>a \<in> set (lg_appenders lg). a < n')
      \<and> map (level_of w') (lg_appenders lg) = map (Some \<circ> ad_level) (ld_appenders x)"
    using lg assms(2,4) by auto
  then show ?thesis unfolding configured_def by blast
qed

lemma configure_logger_spec:
  assumes "configure_logger x (n, w) = Inr (n', w')" and "named w"
  shows "n \<le> n' \<and> named w' \<and> configured x (n', w') \<and> (\<forall>a<n. level_of w' a = level_of w a)
    \<and> (\<forall>m. m \<noteq> ld_name x \<longrightarrow> w_loggers w' m = w_loggers w m)"
proof -
  obtain lg0 w0 where get: "getLogger (ld_name x) w = (lg0, w0)" by fastforce
  let ?lg1 = "lg0\<lparr>lg_level := ld_level x\<rparr>"
  obtain lg2 w2 where fmt: "(if ld_formatter x \<noteq> [] then lg_setFormatter (ld_formatter x) ?lg1 w0 else (?lg1, w0)) = (lg2, w2)"
    by fastforce
  obtain lg' w3 where aps: "foldE configure_appender (ld_appenders x) (n, clearAppender lg2, w2) = Inr (n', lg', w3)"
      "w' = put_logger lg' w3"
    using assms(1) get fmt by (auto simp: configure_logger_def Let_def bindE_Inr_iff)
  have two: "lg_name lg2 = lg_name lg0" "lg_level lg2 = ld_level x" "level_of w2 = level_of w0" "w_loggers w2 = w_loggers w0"
    using fmt sync_appender_levels by (auto simp: lg_setFormatter_def Let_def split: if_splits)
  note g = getLogger_spec [OF get assms(2)]
  note a = configure_appenders_spec [OF aps(1)]
  have lg': "lg_name lg' = ld_name x" "lg_level lg' = ld_level x" "lg_appenders lg' = [n..<n']"
    using a two g by (simp_all add: clearAppender_def)
  have lev: "level_of w' = level_of w3" by (simp add: fun_eq_iff aps(2) level_of_def put_logger_def)
  have "map (level_of w') [n..<n'] = map (Some \<circ> ad_level) (ld_appenders x)" using a unfolding lev by blast
  moreover have "w_loggers w' (ld_name x) = Some lg'" using lg'(1) by (simp add: aps(2) put_logger_def)
  ultimately have "configured x (n', w')" using lg' by (auto simp: configured_def)
  moreover have "named w'" using g a two lg'(1) by (simp add: named_def aps(2) put_logger_def)
  ultimately show ?thesis using a two g lg'(1) by (simp add: lev) (simp add: aps(2) put_logger_def)
qed

lemma configure_changed_spec:
  assumes "configure_changed old x (n, w) = Inr (n', w')" and "named w"
  shows "n \<le> n' \<and> named w' \<and> (\<forall>a<n. level_of w' a = level_of w a)
    \<and> (\<forall>m. m \<noteq> ld_name x \<longrightarrow> w_loggers w' m = w_loggers w m)
    \<and> (configured x (n', w') \<or> (\<exists>y. find_define (ld_name x) old = Some y \<and> ld_eq x y))"
  using assms configure_logger_spec [of x n w n' w']
  by (auto simp: configure_changed_def split: option.splits if_splits)

lemma configure_all_spec:
  assumes "foldE (configure_changed old) new (n, w) = Inr (n', w')" and "named w" and "distinct (map ld_name new)"
  shows "n \<le> n' \<and> named w' \<and> (\<forall>a<n. level_of w' a = level_of w a)
    \<and> (\<forall>m. m \<notin> ld_name ` set new \<longrightarrow> w_loggers w' m = w_loggers w m)
    \<and> (\<forall>x \<in> set new. configured x (n', w') \<or> (\<exists>y. find_define (ld_name x) old = Some y \<and> ld_eq x y))"
  using assms
proof (induction new arbitrary: n w)
  case (Cons x new)
  obtain n1 w1 where st: "configure_changed old x (n, w) = Inr (n1, w1)" "foldE (configure_changed old) new (n1, w1) = Inr (n', w')"
    using Cons.prems(1) by (auto simp: bindE_Inr_iff)
  note one = configure_changed_spec [OF st(1) Cons.prems(2)]
  have "named w1" "distinct (map ld_name new)" using one Cons.prems(3) by auto
  note rest = Cons.IH [OF st(2) this]
  have "configured x (n', w') \<or> (\<exists>y. find_define (ld_name x) old = Some y \<and> ld_eq x y)"
    using one rest Cons.prems(3) configured_kept [of x n1 w1 n' w'] by auto
  then show ?case using one rest by auto
qed simp

lemma silence_spec:
  assumes "named w"
  shows "named (silence_logger name w) \<and> level_of (silence_logger name w) = level_of w
    \<and> (\<forall>m. m \<noteq> name \<longrightarrow> w_loggers (silence_logger name w) m = w_loggers w m)
    \<and> (\<exists>lg. w_loggers (silence_logger name w) name = Some lg \<and> lg_level lg = 100 \<and> lg_appenders lg = [])"
proof -
  obtain lg w1 where g: "getLogger name w = (lg, w1)" by fastforce
  note s = getLogger_spec [OF g assms]
  then show ?thesis
    by (simp add: silence_logger_def g put_logger_def clearAppender_def named_def level_of_def fun_eq_iff)
qed

lemma silence_all_spec:
  "named w \<Longrightarrow> level_of (fold silence_logger ms w) = level_of w
    \<and> (\<forall>m. m \<notin> set ms \<longrightarrow> w_loggers (fold silence_logger ms w) m = w_loggers w m)
    \<and> (\<forall>m \<in> set ms. \<exists>lg. w_loggers (fold silence_logger ms w) m = Some lg \<and> lg_level lg = 100 \<and> lg_appenders lg = [])"
proof (induction ms arbitrary: w)
  case (Cons m ms)
  note one = silence_spec [OF Cons.prems, of m]
  note rest = Cons.IH [of "silence_logger m w"]
  show ?case using one rest by (cases "m \<in> set ms") auto
qed simp

lemma find_define_None: "find_define name xs = None \<longleftrightarrow> name \<notin> ld_name ` set xs"
  by (auto simp: find_define_def find_None_iff)


definition app_define :: log_define where
  "app_define = \<lparr>ld_name = ''app'', ld_level = 3, ld_formatter = [], ld_appenders = [console_define]\<rparr>"

definition old_define :: log_define where
  "old_define = \<lparr>ld_name = ''old'', ld_level = 1, ld_formatter = [], ld_appenders = []\<rparr>"


section \<open>Showing the loggers\<close>

definition appender_yaml :: "appender \<Rightarrow> yaml" where
  "appender_yaml ap = Y_map
     ((case ap_file ap of
         None \<Rightarrow> [(Y_scalar ''type'', Y_scalar ''StdoutLogAppender'')]
       | Some f \<Rightarrow> [(Y_scalar ''type'', Y_scalar ''FileLogAppender''), (Y_scalar ''file'', Y_scalar f)])
      @ [(Y_scalar ''level'', Y_scalar (LogLevel_ToString (ap_level ap)))]
      @ (case ap_formatter ap of
           None \<Rightarrow> []
         | Some f \<Rightarrow> if ap_is_set ap then [(Y_scalar ''formatter'', Y_scalar (f_pattern f))] else []))"

definition appender_toYamlString :: "(yaml \<Rightarrow> string) \<Rightarrow> appender \<Rightarrow> string" where
  "appender_toYamlString emit ap = emit (appender_yaml ap)"

text \<open>\<open>None\<close> is a null pointer or an exception of the library.\<close>

definition shown_appender :: "(string \<Rightarrow> yaml option) \<Rightarrow> (yaml \<Rightarrow> string) \<Rightarrow> log_world \<Rightarrow> nat \<Rightarrow> yaml option" where
  "shown_appender load emit w a =
     (case w_appenders w a of None \<Rightarrow> None | Some ap \<Rightarrow> load (appender_toYamlString emit ap))"

definition logger_toYamlString :: "(string \<Rightarrow> yaml option) \<Rightarrow> (yaml \<Rightarrow> string) \<Rightarrow> logger \<Rightarrow> log_world \<Rightarrow> string option" where
  "logger_toYamlString load emit lg w =
     map_option (\<lambda>ns. emit (Y_map
       [(Y_scalar ''name'', Y_scalar (lg_name lg)), (Y_scalar ''level'', Y_scalar (LogLevel_ToString (lg_level lg))),
        (Y_scalar ''formatter'', Y_scalar (f_pattern (lg_formatter lg))),
        (Y_scalar ''appender'', if ns = [] then Y_scalar ''NULL'' else Y_seq ns)]))
     (all_some (map (shown_appender load emit w) (lg_appenders lg)))"

text \<open>The loggers in the order of their names, which are given.\<close>

definition manager_toYamlString :: "(string \<Rightarrow> yaml option) \<Rightarrow> (yaml \<Rightarrow> string) \<Rightarrow> string list \<Rightarrow> log_world \<Rightarrow> yaml option" where
  "manager_toYamlString load emit names w =
     map_option seq_node (all_some (map (\<lambda>name.
       case w_loggers w name of
         None \<Rightarrow> None
       | Some lg \<Rightarrow> (case logger_toYamlString load emit lg w of None \<Rightarrow> None | Some t \<Rightarrow> load t)) names))"

text \<open>The appender that the listener makes of a definition, for a logger with the formatter \<open>f\<close>.\<close>

definition made_appender :: "log_formatter \<Rightarrow> appender_define \<Rightarrow> appender" where
  "made_appender f k =
     \<lparr>ap_file = (if ad_type k = 0 then None else Some (ad_file k)), ap_level = ad_level k,
      ap_formatter = Some (if ad_formatter k \<noteq> [] \<and> \<not> f_error (LogFormatter (ad_formatter k))
                           then LogFormatter (ad_formatter k) else f),
      ap_is_set = True, ap_last_time = 0, ap_out = []\<rparr>"

lemma configure_appender_makes:
  assumes "ad_type k \<in> {0, 1}"
  shows "\<exists>w'. configure_appender k (n, lg, w) = Inr (n + 1, lg\<lparr>lg_appenders := lg_appenders lg @ [n]\<rparr>, w')
    \<and> w_loggers w' = w_loggers w \<and> w_appenders w' = (w_appenders w)(n \<mapsto> made_appender (lg_formatter lg) k)"
  using assms
  by (auto simp: configure_appender_def addAppender_def ap_setFormatter_def StdoutLogAppender_def FileLogAppender_def
      made_appender_def Let_def)

lemma configure_appenders_make:
  assumes "\<forall>k \<in> set ks. ad_type k \<in> {0, 1}"
  shows "\<exists>w'. foldE configure_appender ks (n, lg, w)
      = Inr (n + length ks, lg\<lparr>lg_appenders := lg_appenders lg @ [n..<n + length ks]\<rparr>, w')
    \<and> w_loggers w' = w_loggers w
    \<and> map (w_appenders w') [n..<n + length ks] = map (\<lambda>k. Some (made_appender (lg_formatter lg) k)) ks
    \<and> (\<forall>a<n. w_appenders w' a = w_appenders w a)"
  using assms
proof (induction ks arbitrary: n lg w)
  case (Cons k ks)
  let ?lg = "lg\<lparr>lg_appenders := lg_appenders lg @ [n]\<rparr>"
  obtain w1 where w1: "configure_appender k (n, lg, w) = Inr (n + 1, ?lg, w1)" "w_loggers w1 = w_loggers w"
      "w_appenders w1 = (w_appenders w)(n \<mapsto> made_appender (lg_formatter lg) k)"
    using configure_appender_makes [of k n lg w] Cons.prems by auto
  obtain w' where w': "foldE configure_appender ks (n + 1, ?lg, w1)
        = Inr (n + 1 + length ks, ?lg\<lparr>lg_appenders := lg_appenders ?lg @ [n + 1..<n + 1 + length ks]\<rparr>, w')"
      "w_loggers w' = w_loggers w1" "\<forall>a<n + 1. w_appenders w' a = w_appenders w1 a"
      "map (w_appenders w') [n + 1..<n + 1 + length ks] = map (\<lambda>k. Some (made_appender (lg_formatter ?lg) k)) ks"
    using Cons.IH [of "n + 1" ?lg w1] Cons.prems by auto
  have "[n..<n + length (k # ks)] = n # [n + 1..<n + 1 + length ks]" using upt_conv_Cons [of n "n + length (k # ks)"] by simp
  then show ?case using w1 w' by auto
qed simp

text \<open>The definition that is shown: its own formatter, or the one of the logger when it has none that is valid.\<close>

definition shown_define :: "string \<Rightarrow> appender_define \<Rightarrow> appender_define" where
  "shown_define fmt k =
     k\<lparr>ad_name := (if ad_type k = 0 then ''StdoutLogAppender'' else ''FileLogAppender''),
       ad_file := (if ad_type k = 0 then [] else ad_file k),
       ad_formatter := (if ad_formatter k \<noteq> [] \<and> \<not> f_error (LogFormatter (ad_formatter k)) then ad_formatter k else fmt)\<rparr>"

lemma level_read_back: "l \<le> 5 \<Longrightarrow> LogLevel_FromString (LogLevel_ToString l) = l"
proof -
  have "list_all (\<lambda>l. LogLevel_FromString (LogLevel_ToString l) = l) [0, 1, 2, 3, 4, 5]" by code_simp
  moreover assume "l \<le> 5"
  then have "l \<in> set [0, 1, 2, 3, 4, 5]" by auto
  ultimately show ?thesis by (simp only: list_all_iff)
qed

lemma LogFormatter_pattern [simp]: "f_pattern (LogFormatter p) = p"
  by (simp add: LogFormatter_def split_def Let_def)

lemma made_appender_read:
  assumes "\<And>n. load (emit n) = Some n" and "\<And>s. as_str (Y_scalar s) = Some s" and "ad_type k \<in> {0, 1}" and "ad_level k \<le> 5"
  shows "appender_from load as_str (emit (appender_yaml (made_appender f k))) = Some (shown_define (f_pattern f) k)"
  using assms
  by (cases k) (auto simp: appender_from_def appender_yaml_def made_appender_def appender_kind_def opt_field_def shown_define_def
      level_read_back)

lemma shown_appenders_read:
  assumes "\<And>n. load (emit n) = Some n" and "\<And>s. as_str (Y_scalar s) = Some s"
    and "map (w_appenders w) as = map (\<lambda>k. Some (made_appender f k)) ks"
    and "\<forall>k \<in> set ks. ad_type k \<in> {0, 1} \<and> ad_level k \<le> 5"
  shows "\<exists>ns. all_some (map (shown_appender load emit w) as) = Some ns \<and> (ns = [] \<longleftrightarrow> as = [])
    \<and> all_some (map (\<lambda>x. appender_from load as_str (emit x)) ns) = Some (map (shown_define (f_pattern f)) ks)"
  using assms(3,4)
proof (induction as arbitrary: ks)
  case (Cons a as)
  then obtain k ks' where ks: "ks = k # ks'" "w_appenders w a = Some (made_appender f k)"
      "map (w_appenders w) as = map (\<lambda>k. Some (made_appender f k)) ks'"
    by (cases ks) auto
  then show ?case
    using Cons.IH [OF ks(3)] Cons.prems(2) assms(1) made_appender_read [OF assms(1,2), of k f]
    by (auto simp: shown_appender_def appender_toYamlString_def)
qed simp

text \<open>
  A logger that the listener configured from a definition with a valid formatter and appenders of
  the two kinds shows itself as that definition: what it prints is read back as the definition,
  except that an appender without a valid formatter of its own shows the one it got from the logger
  (which the listener means to hide).
\<close>

theorem configured_logger_shows_definition:
  assumes "log_run junk w" and "ld_formatter x \<noteq> []" and "\<not> f_error (LogFormatter (ld_formatter x))" and "ld_level x \<le> 5"
    and "\<forall>k \<in> set (ld_appenders x). ad_type k \<in> {0, 1} \<and> ad_level k \<le> 5"
    and "\<And>n. load (emit n) = Some n" and "\<And>s. as_str (Y_scalar s) = Some s"
    and "\<And>ns. items (Y_seq ns) = ns" and "\<And>s. items (Y_scalar s) = []"
  shows "\<exists>n' w' lg t. configure_logger x (n, w) = Inr (n', w') \<and> w_loggers w' (ld_name x) = Some lg
    \<and> logger_toYamlString load emit lg w' = Some t
    \<and> define_from load emit items as_str t
        = Some (x\<lparr>ld_appenders := map (shown_define (ld_formatter x)) (ld_appenders x)\<rparr>)"
proof -
  have nm: "named w" using log_run_ok [OF assms(1)] by (simp add: log_ok_def named_def)
  obtain lg0 w0 where get: "getLogger (ld_name x) w = (lg0, w0)" by fastforce
  obtain lg2 w2 where fmt: "lg_setFormatter (ld_formatter x) (lg0\<lparr>lg_level := ld_level x\<rparr>) w0 = (lg2, w2)" by fastforce
  have lg2: "lg_name lg2 = ld_name x" "lg_level lg2 = ld_level x" "lg_formatter lg2 = LogFormatter (ld_formatter x)"
    using fmt assms(3) getLogger_spec [OF get nm] by (auto simp: lg_setFormatter_def Let_def)
  let ?lg = "clearAppender lg2" and ?ks = "ld_appenders x"
  have "\<forall>k \<in> set ?ks. ad_type k \<in> {0, 1}" using assms(5) by blast
  from configure_appenders_make [OF this, of n ?lg w2] obtain w3 where w3:
      "foldE configure_appender ?ks (n, ?lg, w2)
        = Inr (n + length ?ks, ?lg\<lparr>lg_appenders := lg_appenders ?lg @ [n..<n + length ?ks]\<rparr>, w3)"
      "map (w_appenders w3) [n..<n + length ?ks] = map (\<lambda>k. Some (made_appender (lg_formatter ?lg) k)) ?ks"
    by blast
  let ?lg' = "lg2\<lparr>lg_appenders := [n..<n + length ?ks]\<rparr>"
  have run: "configure_logger x (n, w) = Inr (n + length ?ks, put_logger ?lg' w3)"
    using w3(1) assms(2) by (simp add: configure_logger_def get fmt clearAppender_def)
  have aps: "map (w_appenders (put_logger ?lg' w3)) (lg_appenders ?lg')
      = map (\<lambda>k. Some (made_appender (LogFormatter (ld_formatter x)) k)) ?ks"
    using w3(2) lg2(3) by (simp add: put_logger_def clearAppender_def)
  obtain ns where ns: "all_some (map (shown_appender load emit (put_logger ?lg' w3)) (lg_appenders ?lg')) = Some ns"
      "ns = [] \<longleftrightarrow> lg_appenders ?lg' = []"
      "all_some (map (\<lambda>x. appender_from load as_str (emit x)) ns) = Some (map (shown_define (ld_formatter x)) ?ks)"
    using shown_appenders_read [OF assms(6,7) aps assms(5)] by auto
  let ?node = "Y_map [(Y_scalar ''name'', Y_scalar (ld_name x)), (Y_scalar ''level'', Y_scalar (LogLevel_ToString (ld_level x))),
        (Y_scalar ''formatter'', Y_scalar (ld_formatter x)),
        (Y_scalar ''appender'', if ns = [] then Y_scalar ''NULL'' else Y_seq ns)]"
  have printed: "logger_toYamlString load emit ?lg' (put_logger ?lg' w3) = Some (emit ?node)"
    using ns(1) lg2 by (simp add: logger_toYamlString_def)
  have "all_some (map (\<lambda>x. appender_from load as_str (emit x)) (items (if ns = [] then Y_scalar ''NULL'' else Y_seq ns)))
      = Some (map (shown_define (ld_formatter x)) ?ks)"
    using ns assms(8,9) by (cases "ns = []") auto
  then have read: "define_from load emit items as_str (emit ?node)
      = Some (x\<lparr>ld_appenders := map (shown_define (ld_formatter x)) ?ks\<rparr>)"
    using assms(4,6,7) by (cases x) (simp add: define_from_def opt_field_def level_read_back)
  have "w_loggers (put_logger ?lg' w3) (ld_name x) = Some ?lg'" using lg2(1) by (simp add: put_logger_def)
  then show ?thesis using run printed read by blast
qed

definition shown_app :: log_define where
  "shown_app = app_define\<lparr>ld_formatter := ''%m%n''\<rparr>"

theorem configured_logger_shows_definition_witness:
  "\<exists>n' w' lg t. configure_logger shown_app (1, LogManager 0) = Inr (n', w') \<and> w_loggers w' ''app'' = Some lg
    \<and> logger_toYamlString yaml_read yaml_text lg w' = Some t
    \<and> define_from yaml_read yaml_text yaml_items (\<lambda>n. Some (Scalar n)) t
        = Some (shown_app\<lparr>ld_appenders := [console_define\<lparr>ad_formatter := ''%m%n''\<rparr>]\<rparr>)"
proof -
  have "\<not> f_error (LogFormatter ''%m%n'')" by code_simp
  then show ?thesis
    using configured_logger_shows_definition [OF log_run.start, of shown_app yaml_read yaml_text "\<lambda>n. Some (Scalar n)" yaml_items 1 0]
    by (simp add: shown_app_def app_define_def console_define_def shown_define_def)
qed

end
