(* ===== verification/Locks.thy ===== *)
theory Locks
  imports Prelude
begin

text \<open>
  \<open>mutex.h\<close>, \<open>mutex.cpp\<close> and \<open>thread.cpp\<close>: the locks that the code implements itself over atomic
  operations and system calls, and the start of a thread. Threads are interleaved: a step is one
  atomic operation of one thread.
\<close>

section \<open>Scoped locks\<close>

text \<open>
  \<open>ScopedLockImpl\<close>, \<open>ReadScopedLockImpl\<close> and \<open>WriteScopedLockImpl\<close> differ in the call they lock with.
  A guard is its flag; the calls it makes on the mutex are a list.
\<close>

datatype lock_call = C_lock | C_rdlock | C_wrlock | C_unlock

record guard =
  m_locked :: bool
  g_calls :: "lock_call list"

definition call_on :: "lock_call \<Rightarrow> guard \<Rightarrow> guard" where
  "call_on c g = g\<lparr>g_calls := g_calls g @ [c]\<rparr>"

definition ScopedLock :: "lock_call \<Rightarrow> guard" where
  "ScopedLock c = (call_on c \<lparr>m_locked = False, g_calls = []\<rparr>)\<lparr>m_locked := True\<rparr>"

definition guard_lock :: "lock_call \<Rightarrow> guard \<Rightarrow> guard" where
  "guard_lock c g = (if \<not> m_locked g then call_on c (g\<lparr>m_locked := True\<rparr>) else g)"

definition guard_unlock :: "guard \<Rightarrow> guard" where
  "guard_unlock g = (if m_locked g then (call_on C_unlock g)\<lparr>m_locked := False\<rparr> else g)"

datatype guard_op = G_lock | G_unlock

definition guard_do :: "lock_call \<Rightarrow> guard_op \<Rightarrow> guard \<Rightarrow> guard" where
  "guard_do c op g = (case op of G_lock \<Rightarrow> guard_lock c g | G_unlock \<Rightarrow> guard_unlock g)"

text \<open>The life of a guard: constructor, operations, destructor.\<close>

definition guard_life :: "lock_call \<Rightarrow> guard_op list \<Rightarrow> lock_call list" where
  "guard_life c ops = g_calls (guard_unlock (fold (guard_do c) ops (ScopedLock c)))"

lemma guard_ops:
  "\<exists>k. g_calls (fold (guard_do c) ops g) = g_calls g
       @ (if m_locked g then concat (replicate k [C_unlock, c]) else concat (replicate k [c, C_unlock]))
       @ (if m_locked (fold (guard_do c) ops g) = m_locked g then [] else if m_locked g then [C_unlock] else [c])"
proof (induction ops arbitrary: g)
  case (Cons op ops)
  let ?g = "guard_do c op g"
  obtain k where k: "g_calls (fold (guard_do c) ops ?g) = g_calls ?g
       @ (if m_locked ?g then concat (replicate k [C_unlock, c]) else concat (replicate k [c, C_unlock]))
       @ (if m_locked (fold (guard_do c) ops ?g) = m_locked ?g then [] else if m_locked ?g then [C_unlock] else [c])"
    using Cons.IH [of ?g] by blast
  have rot: "x # concat (replicate k [y, x]) = concat (replicate k [x, y]) @ [x]" for k and x y :: lock_call
    by (induction k) auto
  show ?case
  proof (cases "m_locked ?g = m_locked g")
    case True
    then have "?g = g" by (auto simp: guard_do_def guard_lock_def guard_unlock_def call_on_def split: guard_op.splits if_splits)
    then show ?thesis using k by auto
  next
    case False
    then have g: "g_calls ?g = g_calls g @ [if m_locked g then C_unlock else c]"
      by (auto simp: guard_do_def guard_lock_def guard_unlock_def call_on_def split: guard_op.splits if_splits)
    show ?thesis
    proof (cases "m_locked (fold (guard_do c) ops ?g) = m_locked ?g")
      case True
      then show ?thesis using k g False rot by (intro exI [of _ k]) (auto simp: replicate_append_same)
    next
      case neq: False
      have "x # concat (replicate k [y, x]) @ [y] = concat (replicate (Suc k) [x, y])" for x y :: lock_call
        by (induction k) auto
      then show ?thesis using k g False neq by (intro exI [of _ "Suc k"]) auto
    qed
  qed
qed (auto intro: exI [of _ 0])

text \<open>
  However a scope locks and unlocks its guard, the mutex sees strictly alternating calls that start
  with a lock and end with an unlock: it is never locked twice, never unlocked while free, and free
  when the scope is left.
\<close>

theorem guard_calls_alternate: "\<exists>k. guard_life c ops = concat (replicate (Suc k) [c, C_unlock])"
proof -
  obtain k where k: "g_calls (fold (guard_do c) ops (ScopedLock c)) = [c] @ concat (replicate k [C_unlock, c])
      @ (if m_locked (fold (guard_do c) ops (ScopedLock c)) then [] else [C_unlock])"
    using guard_ops [of c ops "ScopedLock c"] by (auto simp: ScopedLock_def call_on_def)
  have "c # concat (replicate k [C_unlock, c]) @ [C_unlock] = concat (replicate (Suc k) [c, C_unlock])" for k
    by (induction k) auto
  then show ?thesis using k by (intro exI [of _ k]) (auto simp: guard_life_def guard_unlock_def call_on_def)
qed

section \<open>The lock of an atomic flag\<close>

datatype cas_pc = Outside | Spinning | Inside

record cas_mutex =
  cas_flag :: bool
  cas_pc :: "nat \<Rightarrow> cas_pc"

definition CASMutex :: cas_mutex where
  "CASMutex = \<lparr>cas_flag = False, cas_pc = (\<lambda>_. Outside)\<rparr>"

text \<open>\<open>test_and_set\<close> sets the flag and gives its old value; the loop of \<open>lock\<close> goes on while it was set.\<close>

definition test_and_set :: "cas_mutex \<Rightarrow> bool \<times> cas_mutex" where
  "test_and_set m = (cas_flag m, m\<lparr>cas_flag := True\<rparr>)"

definition cas_clear :: "cas_mutex \<Rightarrow> cas_mutex" where
  "cas_clear m = m\<lparr>cas_flag := False\<rparr>"

definition at_pc :: "nat \<Rightarrow> cas_pc \<Rightarrow> cas_mutex \<Rightarrow> cas_mutex" where
  "at_pc t pc m = m\<lparr>cas_pc := (cas_pc m)(t := pc)\<rparr>"

definition cas_step :: "nat \<Rightarrow> cas_mutex \<Rightarrow> cas_mutex" where
  "cas_step t m =
     (case cas_pc m t of
        Outside \<Rightarrow> at_pc t Spinning m
      | Spinning \<Rightarrow> (let (old, m1) = test_and_set m in if old then m1 else at_pc t Inside m1)
      | Inside \<Rightarrow> at_pc t Outside (cas_clear m))"

definition cas_ok :: "cas_mutex \<Rightarrow> bool" where
  "cas_ok m \<longleftrightarrow> (\<forall>t u. cas_pc m t = Inside \<longrightarrow> cas_pc m u = Inside \<longrightarrow> t = u) \<and> (cas_flag m \<longleftrightarrow> (\<exists>t. cas_pc m t = Inside))"

lemma cas_step_ok:
  assumes "cas_ok m"
  shows "cas_ok (cas_step t m)"
proof (cases "cas_pc m t")
  case Outside
  then have "(\<exists>u. ((cas_pc m)(t := Spinning)) u = Inside) \<longleftrightarrow> (\<exists>u. cas_pc m u = Inside)" by (metis cas_pc.distinct fun_upd_apply)
  then show ?thesis using assms Outside by (auto simp: cas_ok_def cas_step_def at_pc_def)
next
  case Spinning
  then show ?thesis using assms by (auto simp: cas_ok_def cas_step_def at_pc_def test_and_set_def)
next
  case Inside
  then show ?thesis using assms by (auto simp: cas_ok_def cas_step_def at_pc_def cas_clear_def)
qed

lemma cas_run_ok: "cas_ok (fold cas_step ts CASMutex)"
proof -
  have "cas_ok (fold cas_step ts m)" if "cas_ok m" for m
    using that by (induction ts arbitrary: m) (auto intro: cas_step_ok)
  moreover have "cas_ok CASMutex" by (simp add: cas_ok_def CASMutex_def)
  ultimately show ?thesis by blast
qed

text \<open>
  C40: Under every interleaving of any number of threads at most one of them holds the lock of an atomic
  flag; and whenever nobody holds it, the next attempt of a thread that waits succeeds.
\<close>

theorem cas_mutual_exclusion:
  "(\<forall>u v. cas_pc (fold cas_step ts CASMutex) u = Inside \<longrightarrow> cas_pc (fold cas_step ts CASMutex) v = Inside \<longrightarrow> u = v)
   \<and> (cas_pc (fold cas_step ts CASMutex) t = Spinning \<longrightarrow> (\<forall>u. cas_pc (fold cas_step ts CASMutex) u \<noteq> Inside)
        \<longrightarrow> cas_pc (cas_step t (fold cas_step ts CASMutex)) t = Inside)"
  using cas_run_ok [of ts] by (auto simp: cas_ok_def cas_step_def test_and_set_def at_pc_def)

theorem cas_mutual_exclusion_witness:
  "cas_pc (cas_step 1 (fold cas_step [1, 2, 2, 1, 2] CASMutex)) 1 = Inside"
proof -
  have s: "cas_pc (fold cas_step [1, 2, 2, 1, 2] CASMutex) 1 = Spinning" "\<not> cas_flag (fold cas_step [1, 2, 2, 1, 2] CASMutex)"
    by code_simp+
  then have "\<forall>u. cas_pc (fold cas_step [1, 2, 2, 1, 2] CASMutex) u \<noteq> Inside"
    using cas_run_ok [of "[1, 2, 2, 1, 2]"] unfolding cas_ok_def by blast
  then show ?thesis using cas_mutual_exclusion [of "[1, 2, 2, 1, 2]" 1] s(1) by blast
qed

section \<open>Semaphores\<close>

text \<open>The results of \<open>sem_wait\<close>: done, interrupted, or another error; an empty script still waits.\<close>

datatype sem_ret = Sem_ok | Sem_eintr | Sem_error

datatype sem_outcome = Sem_passed | Sem_waits

fun sem_wait :: "sem_ret list \<Rightarrow> sem_outcome res" where
  "sem_wait [] = Inr Sem_waits"
| "sem_wait (r # rs) =
     (case r of Sem_ok \<Rightarrow> Inr Sem_passed | Sem_eintr \<Rightarrow> sem_wait rs | Sem_error \<Rightarrow> Inl Logic_error)"

definition sem_notify :: "bool \<Rightarrow> unit res" where
  "sem_notify ok = (if ok then Inr () else Inl Logic_error)"

section \<open>Starting a thread\<close>

text \<open>
  The constructor creates the thread and waits on the semaphore of the object; \<open>run\<close> sets what belongs
  to the thread, notifies and calls the callback. \<open>ret\<close> is what \<open>pthread_create\<close> returns: 0, or the
  positive number of an error. \<open>tid\<close> is what the kernel numbers the thread with.
\<close>

datatype ctor_pc = Ctor_create | Ctor_wait | Ctor_done | Ctor_throws
datatype run_pc = Run_none | Run_this | Run_id | Run_setname | Run_swap | Run_notify | Run_call | Run_done

record thread =
  th_ctor :: ctor_pc
  th_run :: run_pc
  th_sem :: nat
  th_id :: int
  th_name :: string
  th_kernel_name :: string
  th_local_name :: string
  th_cb_taken :: bool

definition Thread :: "string \<Rightarrow> thread" where
  "Thread name = \<lparr>th_ctor = Ctor_create, th_run = Run_none, th_sem = 0, th_id = -1,
     th_name = (if name \<noteq> [] then name else ''UNKNOW''), th_kernel_name = [], th_local_name = ''unknow'', th_cb_taken = False\<rparr>"

text \<open>One step of the creating thread, or of the new one; a step that cannot go on changes nothing.\<close>

definition ctor_step :: "int \<Rightarrow> thread \<Rightarrow> thread" where
  "ctor_step ret th =
     (case th_ctor th of
        Ctor_create \<Rightarrow>
          if ret < 0 then th\<lparr>th_ctor := Ctor_throws\<rparr>
          else th\<lparr>th_ctor := Ctor_wait, th_run := (if ret = 0 then Run_this else Run_none)\<rparr>
      | Ctor_wait \<Rightarrow> if th_sem th > 0 then th\<lparr>th_sem := th_sem th - 1, th_ctor := Ctor_done\<rparr> else th
      | Ctor_done \<Rightarrow> th
      | Ctor_throws \<Rightarrow> th)"

definition run_step :: "int \<Rightarrow> thread \<Rightarrow> thread" where
  "run_step tid th =
     (case th_run th of
        Run_none \<Rightarrow> th
      | Run_this \<Rightarrow> th\<lparr>th_local_name := th_name th, th_run := Run_id\<rparr>
      | Run_id \<Rightarrow> th\<lparr>th_id := tid, th_run := Run_setname\<rparr>
      | Run_setname \<Rightarrow> th\<lparr>th_kernel_name := take 15 (th_name th), th_run := Run_swap\<rparr>
      | Run_swap \<Rightarrow> th\<lparr>th_cb_taken := True, th_run := Run_notify\<rparr>
      | Run_notify \<Rightarrow> th\<lparr>th_sem := th_sem th + 1, th_run := Run_call\<rparr>
      | Run_call \<Rightarrow> th\<lparr>th_run := Run_done\<rparr>
      | Run_done \<Rightarrow> th)"

definition thread_step :: "int \<Rightarrow> int \<Rightarrow> bool \<Rightarrow> thread \<Rightarrow> thread" where
  "thread_step ret tid creator th = (if creator then ctor_step ret th else run_step tid th)"

definition prepared :: "int \<Rightarrow> thread \<Rightarrow> bool" where
  "prepared tid th \<longleftrightarrow> th_id th = tid \<and> th_local_name th = th_name th \<and> th_kernel_name th = take 15 (th_name th) \<and> th_cb_taken th"

text \<open>How far the new thread has come.\<close>

fun run_rank :: "run_pc \<Rightarrow> nat" where
  "run_rank Run_none = 0" | "run_rank Run_this = 1" | "run_rank Run_id = 2" | "run_rank Run_setname = 3"
| "run_rank Run_swap = 4" | "run_rank Run_notify = 5" | "run_rank Run_call = 6" | "run_rank Run_done = 7"

definition start_ok :: "int \<Rightarrow> thread \<Rightarrow> bool" where
  "start_ok tid th \<longleftrightarrow>
     (2 \<le> run_rank (th_run th) \<longrightarrow> th_local_name th = th_name th) \<and> (3 \<le> run_rank (th_run th) \<longrightarrow> th_id th = tid)
     \<and> (4 \<le> run_rank (th_run th) \<longrightarrow> th_kernel_name th = take 15 (th_name th)) \<and> (5 \<le> run_rank (th_run th) \<longrightarrow> th_cb_taken th)
     \<and> (0 < th_sem th \<or> th_ctor th = Ctor_done \<longrightarrow> 6 \<le> run_rank (th_run th))
     \<and> (th_ctor th = Ctor_create \<longrightarrow> run_rank (th_run th) = 0)"

lemma start_ok_run: "start_ok tid th \<Longrightarrow> start_ok tid (run_step tid th)"
  by (cases "th_run th") (simp_all add: start_ok_def run_step_def)

lemma start_ok_ctor: "start_ok tid th \<Longrightarrow> start_ok tid (ctor_step ret th)"
  by (cases "th_ctor th") (auto simp: start_ok_def ctor_step_def)

lemma start_ok_step: "start_ok tid th \<Longrightarrow> start_ok tid (thread_step ret tid b th)"
  by (simp add: thread_step_def start_ok_run start_ok_ctor)

lemma start_ok_done: "start_ok tid th \<Longrightarrow> th_ctor th = Ctor_done \<Longrightarrow> prepared tid th"
  by (simp add: start_ok_def prepared_def)

text \<open>
  However the two threads are interleaved, when the constructor of a thread has returned, the new
  thread has its number and its name and holds its callback. When creating the thread fails,
  though, the constructor neither returns nor throws: \<open>pthread_create\<close> reports errors with positive
  numbers, the code looks for negative ones and waits for a thread that does not exist.
\<close>

theorem thread_is_prepared:
  "(th_ctor (fold (thread_step ret tid) bs (Thread name)) = Ctor_done \<longrightarrow> prepared tid (fold (thread_step ret tid) bs (Thread name)))
   \<and> th_ctor (fold (thread_step 0 tid) ([True] @ replicate 5 False @ [True]) (Thread name)) = Ctor_done
   \<and> (0 < ret \<longrightarrow> th_ctor (fold (thread_step ret tid) bs (Thread name)) \<in> {Ctor_create, Ctor_wait})"
proof -
  have "start_ok tid (fold (thread_step ret tid) bs th)" if "start_ok tid th" for th
    using that by (induction bs arbitrary: th) (auto intro: start_ok_step)
  moreover have "start_ok tid (Thread name)" by (simp add: start_ok_def Thread_def)
  ultimately have "start_ok tid (fold (thread_step ret tid) bs (Thread name))" by blast
  then have "th_ctor (fold (thread_step ret tid) bs (Thread name)) = Ctor_done
      \<longrightarrow> prepared tid (fold (thread_step ret tid) bs (Thread name))" using start_ok_done by blast
  moreover have "th_ctor (fold (thread_step 0 tid) ([True] @ replicate 5 False @ [True]) (Thread name)) = Ctor_done"
    by (simp add: Thread_def thread_step_def ctor_step_def run_step_def numeral_eq_Suc)
  moreover have "th_ctor (fold (thread_step ret tid) bs th) \<in> {Ctor_create, Ctor_wait}"
    if "0 < ret" "th_ctor th \<in> {Ctor_create, Ctor_wait} \<and> th_run th = Run_none \<and> th_sem th = 0" for th
    using that(2)
  proof (induction bs arbitrary: th)
    case (Cons b bs)
    have "th_ctor (thread_step ret tid b th) \<in> {Ctor_create, Ctor_wait} \<and> th_run (thread_step ret tid b th) = Run_none
        \<and> th_sem (thread_step ret tid b th) = 0"
      using Cons.prems that(1) by (auto simp: thread_step_def ctor_step_def run_step_def)
    then show ?case using Cons.IH by simp
  qed simp
  ultimately show ?thesis by (simp add: Thread_def)
qed

theorem thread_is_prepared_witness:
  "prepared 77 (fold (thread_step 0 77) [True, True, False, False, False, False, False, True] (Thread ''worker''))
   \<and> th_ctor (fold (thread_step 11 77) [True, False, True] (Thread ''worker'')) \<in> {Ctor_create, Ctor_wait}"
proof -
  have "th_ctor (fold (thread_step 0 77) [True, True, False, False, False, False, False, True] (Thread ''worker'')) = Ctor_done"
    by (simp add: Thread_def thread_step_def ctor_step_def run_step_def)
  then show ?thesis
    using thread_is_prepared [of 0 77 "[True, True, False, False, False, False, False, True]" "''worker''"]
      thread_is_prepared [of 11 77 "[True, False, True]" "''worker''"] by simp
qed

end
