(* ===== verification/Sync.thy ===== *)
theory Sync
  imports Locks
begin

text \<open>
  The locks of \<open>mutex.h\<close> that call POSIX threads, and the rest of \<open>thread.cpp\<close>. \<open>guarded_lock\<close> is what a
  scoped lock needs of its mutex; inside it threads that take and leave scopes are interleaved. The
  mutexes and the read-write lock provide it, with the results of POSIX written out; the wrappers
  ignore error results, so a lock that reports an error counts as taken.
\<close>

section \<open>Scopes over a lock\<close>

datatype 'm scope_pc = Out_of_scope | Entering 'm | In_scope 'm

record ('l, 'm) scopes =
  sc_lock :: 'l
  sc_pc :: "nat \<Rightarrow> 'm scope_pc"

text \<open>
  A step of a thread: it starts to construct its guard, it gets the lock or goes on waiting for it, or
  its guard is destroyed. \<open>acquire\<close> gives \<open>None\<close> as long as it waits.
\<close>

definition scope_step ::
  "('m \<Rightarrow> nat \<Rightarrow> 'l \<Rightarrow> 'l option) \<Rightarrow> (nat \<Rightarrow> 'l \<Rightarrow> 'l) \<Rightarrow> nat \<times> 'm \<Rightarrow> ('l, 'm) scopes \<Rightarrow> ('l, 'm) scopes" where
  "scope_step acquire release tm s =
     (let (t, m) = tm in
      case sc_pc s t of
        Out_of_scope \<Rightarrow> s\<lparr>sc_pc := (sc_pc s)(t := Entering m)\<rparr>
      | Entering m' \<Rightarrow>
          (case acquire m' t (sc_lock s) of
             None \<Rightarrow> s
           | Some l \<Rightarrow> s\<lparr>sc_lock := l, sc_pc := (sc_pc s)(t := In_scope m')\<rparr>)
      | In_scope m' \<Rightarrow> s\<lparr>sc_lock := release t (sc_lock s), sc_pc := (sc_pc s)(t := Out_of_scope)\<rparr>)"

definition scope_run where
  "scope_run acquire release l0 tms = fold (scope_step acquire release) tms \<lparr>sc_lock = l0, sc_pc = (\<lambda>_. Out_of_scope)\<rparr>"

text \<open>
  \<open>view\<close> is what a thread holds and \<open>valid\<close> what every lock satisfies; \<open>excl\<close> says which modes exclude
  every other.
\<close>

locale guarded_lock =
  fixes acquire :: "'m \<Rightarrow> nat \<Rightarrow> 'l \<Rightarrow> 'l option" and release :: "nat \<Rightarrow> 'l \<Rightarrow> 'l"
    and view :: "'l \<Rightarrow> nat \<Rightarrow> 'm option" and excl :: "'m \<Rightarrow> bool" and l0 :: 'l and valid :: "'l \<Rightarrow> bool"
  assumes start: "valid l0 \<and> view l0 t = None"
    and acquired: "valid l \<Longrightarrow> acquire m t l = Some l' \<Longrightarrow> view l t = None \<Longrightarrow> valid l' \<and> view l' = (view l)(t := Some m)"
    and compatible: "valid l \<Longrightarrow> acquire m t l = Some l' \<Longrightarrow> view l t = None \<Longrightarrow> u \<noteq> t \<Longrightarrow> view l u = Some m'
      \<Longrightarrow> \<not> excl m \<and> \<not> excl m'"
    and released: "valid l \<Longrightarrow> view l t \<noteq> None \<Longrightarrow> valid (release t l) \<and> view (release t l) = (view l)(t := None)"
    and granted: "valid l \<Longrightarrow> (\<And>u. view l u = None) \<Longrightarrow> \<exists>l'. acquire m t l = Some l'"
begin

definition held :: "('l, 'm) scopes \<Rightarrow> bool" where
  "held s \<longleftrightarrow> valid (sc_lock s) \<and> (\<forall>t. view (sc_lock s) t = (case sc_pc s t of In_scope m \<Rightarrow> Some m | _ \<Rightarrow> None))
     \<and> (\<forall>t u m m'. t \<noteq> u \<longrightarrow> sc_pc s t = In_scope m \<longrightarrow> sc_pc s u = In_scope m' \<longrightarrow> \<not> excl m)"

lemma heldI:
  assumes "valid (sc_lock s)" "\<And>t. view (sc_lock s) t = (case sc_pc s t of In_scope m \<Rightarrow> Some m | _ \<Rightarrow> None)"
    "\<And>t u m m'. t \<noteq> u \<Longrightarrow> sc_pc s t = In_scope m \<Longrightarrow> sc_pc s u = In_scope m' \<Longrightarrow> \<not> excl m"
  shows "held s"
  using assms unfolding held_def by blast

lemma held_step:
  assumes h: "held s"
  shows "held (scope_step acquire release tm s)"
proof -
  obtain t m where tm: "tm = (t, m)" by (cases tm)
  have ok: "valid (sc_lock s)" and v: "\<And>t. view (sc_lock s) t = (case sc_pc s t of In_scope m \<Rightarrow> Some m | _ \<Rightarrow> None)"
    and ex: "\<And>t u m m'. t \<noteq> u \<Longrightarrow> sc_pc s t = In_scope m \<Longrightarrow> sc_pc s u = In_scope m' \<Longrightarrow> \<not> excl m"
    using h unfolding held_def by blast+
  show ?thesis
  proof (cases "sc_pc s t")
    case Out_of_scope
    show ?thesis by (rule heldI) (use ok v ex Out_of_scope in \<open>auto simp: tm scope_step_def split: if_splits\<close>)
  next
    case (Entering n)
    have none: "view (sc_lock s) t = None" using v [of t] Entering by simp
    show ?thesis
    proof (cases "acquire n t (sc_lock s)")
      case (Some l)
      have l: "valid l" "view l = (view (sc_lock s))(t := Some n)" using acquired [OF ok Some none] by blast+
      have others: "\<not> excl n \<and> \<not> excl m2" if "u \<noteq> t" "sc_pc s u = In_scope m2" for u m2
        by (rule compatible [OF ok Some none that(1)]) (simp add: v that(2))
      have s': "scope_step acquire release tm s = s\<lparr>sc_lock := l, sc_pc := (sc_pc s)(t := In_scope n)\<rparr>"
        using Entering Some by (simp add: tm scope_step_def)
      show ?thesis unfolding s'
      proof (rule heldI)
        fix u w m1 m2 assume *: "u \<noteq> w" "sc_pc (s\<lparr>sc_lock := l, sc_pc := (sc_pc s)(t := In_scope n)\<rparr>) u = In_scope m1"
          "sc_pc (s\<lparr>sc_lock := l, sc_pc := (sc_pc s)(t := In_scope n)\<rparr>) w = In_scope m2"
        show "\<not> excl m1"
          using * others [of u m1] others [of w m2] ex [of u w m1 m2] by (cases "u = t"; cases "w = t") simp_all
      qed (use l v in simp_all)
    qed (use Entering h in \<open>simp add: tm scope_step_def\<close>)
  next
    case (In_scope n)
    have r: "valid (release t (sc_lock s)) \<and> view (release t (sc_lock s)) = (view (sc_lock s))(t := None)"
      using v [of t] In_scope by (intro released ok) simp
    show ?thesis by (rule heldI) (use In_scope r v ex in \<open>auto simp: tm scope_step_def split: if_splits\<close>)
  qed
qed

lemma held_run: "held (scope_run acquire release l0 tms)"
proof -
  have "held (fold (scope_step acquire release) tms s)" if "held s" for s
    using that by (induction tms arbitrary: s) (auto intro: held_step)
  moreover have "held \<lparr>sc_lock = l0, sc_pc = (\<lambda>_. Out_of_scope)\<rparr>" by (rule heldI) (use start in simp_all)
  ultimately show ?thesis unfolding scope_run_def by blast
qed

lemma exclusion:
  "sc_pc (scope_run acquire release l0 tms) t = In_scope m \<Longrightarrow> excl m \<Longrightarrow> u \<noteq> t
     \<Longrightarrow> sc_pc (scope_run acquire release l0 tms) u \<noteq> In_scope m'"
  using held_run [of tms] unfolding held_def by metis

lemma entered:
  assumes "sc_pc (scope_run acquire release l0 tms) t = Entering m" and "\<And>u m'. sc_pc (scope_run acquire release l0 tms) u \<noteq> In_scope m'"
  shows "sc_pc (scope_run acquire release l0 (tms @ [(t, n)])) t = In_scope m"
proof -
  let ?s = "scope_run acquire release l0 tms"
  have v: "valid (sc_lock ?s)" using held_run [of tms] by (simp add: held_def)
  have "view (sc_lock ?s) u = None" for u
    using held_run [of tms] assms(2) [of u] by (auto simp: held_def split: scope_pc.split)
  then obtain l where "acquire m t (sc_lock ?s) = Some l" using granted [OF v, of m t] by blast
  moreover have "scope_run acquire release l0 (tms @ [(t, n)]) = scope_step acquire release (t, n) ?s" by (simp add: scope_run_def)
  ultimately show ?thesis using assms(1) by (simp add: scope_step_def)
qed

end

section \<open>Mutexes\<close>

text \<open>A POSIX mutex or spin lock by its owner; locking it again in its owner waits forever.\<close>

type_synonym pmutex = "nat option"

definition Mutex_lock :: "unit \<Rightarrow> nat \<Rightarrow> pmutex \<Rightarrow> pmutex option" where
  "Mutex_lock m t l = (if l = None then Some (Some t) else None)"

definition Mutex_unlock :: "nat \<Rightarrow> pmutex \<Rightarrow> pmutex" where
  "Mutex_unlock t l = None"

definition SpinMutex_lock :: "unit \<Rightarrow> nat \<Rightarrow> pmutex \<Rightarrow> pmutex option" where
  "SpinMutex_lock m t l = (if l = None then Some (Some t) else None)"

definition SpinMutex_unlock :: "nat \<Rightarrow> pmutex \<Rightarrow> pmutex" where
  "SpinMutex_unlock t l = None"

text \<open>The empty lock keeps nobody out.\<close>

definition NullMutex_lock :: "unit \<Rightarrow> nat \<Rightarrow> unit \<Rightarrow> unit option" where
  "NullMutex_lock m t l = Some l"

definition NullMutex_unlock :: "nat \<Rightarrow> unit \<Rightarrow> unit" where
  "NullMutex_unlock t l = l"

definition mutex_view :: "pmutex \<Rightarrow> nat \<Rightarrow> unit option" where
  "mutex_view l t = (if l = Some t then Some () else None)"

lemma mutex_free: "(\<And>u. mutex_view l u = None) \<Longrightarrow> l = None"
  by (cases l) (simp, simp add: mutex_view_def, metis option.distinct(1))

interpretation mutex: guarded_lock Mutex_lock Mutex_unlock mutex_view "\<lambda>_. True" None "\<lambda>_. True"
  by unfold_locales (use mutex_free in \<open>auto simp: Mutex_lock_def Mutex_unlock_def mutex_view_def fun_eq_iff split: if_splits\<close>)

interpretation spin: guarded_lock SpinMutex_lock SpinMutex_unlock mutex_view "\<lambda>_. True" None "\<lambda>_. True"
  by unfold_locales (use mutex_free in \<open>auto simp: SpinMutex_lock_def SpinMutex_unlock_def mutex_view_def fun_eq_iff split: if_splits\<close>)

section \<open>The read-write lock\<close>

datatype rw_mode = Read_lock | Write_lock

record rw_lock =
  rw_writer :: "nat option"
  rw_readers :: "nat list"

definition RWMutex :: rw_lock where
  "RWMutex = \<lparr>rw_writer = None, rw_readers = []\<rparr>"

definition EDEADLK :: int where "EDEADLK = 35"

text \<open>
  The POSIX functions: \<open>None\<close> waits, otherwise the result and the lock. The library refuses to let the
  writer wait for itself; a reader that asks to write does wait for itself.
\<close>

definition pthread_rwlock_rdlock :: "nat \<Rightarrow> rw_lock \<Rightarrow> (int \<times> rw_lock) option" where
  "pthread_rwlock_rdlock t l =
     (case rw_writer l of
        None \<Rightarrow> Some (0, l\<lparr>rw_readers := t # rw_readers l\<rparr>)
      | Some w \<Rightarrow> if w = t then Some (EDEADLK, l) else None)"

definition pthread_rwlock_wrlock :: "nat \<Rightarrow> rw_lock \<Rightarrow> (int \<times> rw_lock) option" where
  "pthread_rwlock_wrlock t l =
     (case rw_writer l of
        None \<Rightarrow> if rw_readers l = [] then Some (0, l\<lparr>rw_writer := Some t\<rparr>) else None
      | Some w \<Rightarrow> if w = t then Some (EDEADLK, l) else None)"

definition pthread_rwlock_unlock :: "nat \<Rightarrow> rw_lock \<Rightarrow> int \<times> rw_lock" where
  "pthread_rwlock_unlock t l =
     (if rw_writer l \<noteq> None then (0, l\<lparr>rw_writer := None\<rparr>) else (0, l\<lparr>rw_readers := remove1 t (rw_readers l)\<rparr>))"

text \<open>The methods do not look at the results.\<close>

definition rdlock :: "nat \<Rightarrow> rw_lock \<Rightarrow> rw_lock option" where
  "rdlock t l = map_option snd (pthread_rwlock_rdlock t l)"

definition wrlock :: "nat \<Rightarrow> rw_lock \<Rightarrow> rw_lock option" where
  "wrlock t l = map_option snd (pthread_rwlock_wrlock t l)"

definition RWMutex_unlock :: "nat \<Rightarrow> rw_lock \<Rightarrow> rw_lock" where
  "RWMutex_unlock t l = snd (pthread_rwlock_unlock t l)"

text \<open>What the two kinds of scopes call on it, and a sequence of calls of several threads.\<close>

definition RWMutex_lock :: "rw_mode \<Rightarrow> nat \<Rightarrow> rw_lock \<Rightarrow> rw_lock option" where
  "RWMutex_lock m t l = (case m of Read_lock \<Rightarrow> rdlock t l | Write_lock \<Rightarrow> wrlock t l)"

fun rw_calls :: "(nat \<times> lock_call) list \<Rightarrow> rw_lock \<Rightarrow> rw_lock option" where
  "rw_calls [] l = Some l"
| "rw_calls ((t, c) # cs) l =
     Option.bind (case c of C_rdlock \<Rightarrow> rdlock t l | C_wrlock \<Rightarrow> wrlock t l | C_unlock \<Rightarrow> Some (RWMutex_unlock t l) | C_lock \<Rightarrow> None)
       (rw_calls cs)"

definition rw_view :: "rw_lock \<Rightarrow> nat \<Rightarrow> rw_mode option" where
  "rw_view l t = (if rw_writer l = Some t then Some Write_lock else if t \<in> set (rw_readers l) then Some Read_lock else None)"

definition rw_valid :: "rw_lock \<Rightarrow> bool" where
  "rw_valid l \<longleftrightarrow> distinct (rw_readers l) \<and> (rw_writer l \<noteq> None \<longrightarrow> rw_readers l = [])"

lemmas rw_defs = RWMutex_lock_def rdlock_def wrlock_def RWMutex_unlock_def pthread_rwlock_rdlock_def pthread_rwlock_wrlock_def
  pthread_rwlock_unlock_def

lemma rw_free:
  assumes "\<And>u. rw_view l u = None"
  shows "rw_writer l = None \<and> rw_readers l = []"
proof (rule conjI; rule ccontr)
  assume "rw_writer l \<noteq> None"
  then show False using assms [of "the (rw_writer l)"] by (auto simp: rw_view_def)
next
  assume "rw_readers l \<noteq> []"
  then show False using assms [of "hd (rw_readers l)"] by (auto simp: rw_view_def split: if_splits)
qed

lemma rw_taken:
  assumes "rw_valid l" "RWMutex_lock m t l = Some l'" "rw_view l t = None"
  shows "rw_valid l' \<and> rw_view l' = (rw_view l)(t := Some m)" and "u \<noteq> t \<Longrightarrow> rw_view l u = Some n \<Longrightarrow> m \<noteq> Write_lock \<and> n \<noteq> Write_lock"
  using assms by (auto simp: rw_defs rw_valid_def rw_view_def fun_eq_iff split: rw_mode.splits option.splits if_splits)

lemma rw_released:
  assumes "rw_valid l" "rw_view l t \<noteq> None"
  shows "rw_valid (RWMutex_unlock t l) \<and> rw_view (RWMutex_unlock t l) = (rw_view l)(t := None)"
  using assms by (auto simp: rw_defs rw_valid_def rw_view_def fun_eq_iff split: if_splits)

interpretation rw: guarded_lock RWMutex_lock RWMutex_unlock rw_view "\<lambda>m. m = Write_lock" RWMutex rw_valid
proof
  show "rw_valid RWMutex \<and> rw_view RWMutex t = None" for t by (simp add: RWMutex_def rw_valid_def rw_view_def)
  show "\<exists>l'. RWMutex_lock m t l = Some l'" if "rw_valid l" "\<And>u. rw_view l u = None" for l m t
    using rw_free [OF that(2)] by (simp add: rw_defs split: rw_mode.split)
qed (use rw_taken rw_released in blast)+



text \<open>A mutex and a spin lock let one thread in at a time; the empty lock lets in whoever comes.\<close>

lemma mutex_scopes:
  "sc_pc (scope_run Mutex_lock Mutex_unlock None tms) t = In_scope () \<Longrightarrow> u \<noteq> t
     \<Longrightarrow> sc_pc (scope_run Mutex_lock Mutex_unlock None tms) u \<noteq> In_scope ()"
  by (rule mutex.exclusion) simp_all

lemma spin_scopes:
  "sc_pc (scope_run SpinMutex_lock SpinMutex_unlock None tms) t = In_scope () \<Longrightarrow> u \<noteq> t
     \<Longrightarrow> sc_pc (scope_run SpinMutex_lock SpinMutex_unlock None tms) u \<noteq> In_scope ()"
  by (rule spin.exclusion) simp_all

lemma null_mutex_excludes_nobody:
  "t \<noteq> u \<Longrightarrow> sc_pc (scope_run NullMutex_lock NullMutex_unlock () [(t, ()), (u, ()), (t, ()), (u, ())]) t = In_scope ()
     \<and> sc_pc (scope_run NullMutex_lock NullMutex_unlock () [(t, ()), (u, ()), (t, ()), (u, ())]) u = In_scope ()"
  by (simp add: scope_run_def scope_step_def NullMutex_lock_def)

section \<open>Leaving and naming threads\<close>

text \<open>
  The object of a thread by its handle, and what each thread keeps for itself: the object it runs and
  its name. \<open>pthread_join\<close> reports errors with positive numbers, and the code looks for negative ones.
\<close>

definition Thread_join :: "(nat \<Rightarrow> int) \<Rightarrow> nat \<Rightarrow> nat res" where
  "Thread_join pthread_join m_thread =
     (if m_thread \<noteq> 0 then (if pthread_join m_thread < 0 then Inl Logic_error else Inr 0) else Inr m_thread)"

definition Thread_dtor :: "nat \<Rightarrow> nat option" where
  "Thread_dtor m_thread = (if m_thread \<noteq> 0 then Some m_thread else None)"

definition Semaphore :: "(nat \<Rightarrow> int) \<Rightarrow> nat \<Rightarrow> nat res" where
  "Semaphore sem_init count = (if sem_init count < 0 then Inl Logic_error else Inr count)"

record thread_local =
  t_this :: "thread option"
  t_thread_name :: string

definition unnamed_thread :: thread_local where
  "unnamed_thread = \<lparr>t_this = None, t_thread_name = ''unknow''\<rparr>"

definition GetThis_thread :: "thread_local \<Rightarrow> thread option" where
  "GetThis_thread l = t_this l"

definition GetName_thread :: "thread_local \<Rightarrow> string" where
  "GetName_thread l = t_thread_name l"

definition SetName :: "string \<Rightarrow> thread_local \<Rightarrow> thread_local" where
  "SetName name l = l\<lparr>t_this := map_option (th_name_update (\<lambda>_. name)) (t_this l), t_thread_name := name\<rparr>"

text \<open>A thread that was joined is not detached as well, even when the join failed.\<close>

lemma joined_is_not_detached: "Thread_join pthread_join h = Inr h' \<Longrightarrow> Thread_dtor h' = None"
  by (auto simp: Thread_join_def Thread_dtor_def split: if_splits)

lemma SetName_GetName:
  "GetName_thread (SetName name l) = name \<and> (GetThis_thread (SetName name l) = Some th \<longrightarrow> th_name th = name)
   \<and> (GetThis_thread (SetName name l) = None \<longleftrightarrow> GetThis_thread l = None)"
  by (auto simp: SetName_def GetName_thread_def GetThis_thread_def)

end
