(* ===== verification/Http_Exchange.thy ===== *)
theory Http_Exchange
  imports Http_Client Http_Responses Http_Server
begin

text \<open>
  A request and its response over a connection: what a client prints, what a session receives of it
  depending on how it arrives, the answer of the server, and what the client receives of that. Both
  sides are the code of the repository: the generated machines, the sessions, the loop of the server
  and the connection of the client. What is left to a parameter is the conversion of numbers
  (\<open>boost::lexical_cast\<close>), the resolver and the result of \<open>connect\<close>.
\<close>

section \<open>What is received of a message\<close>

text \<open>The fields a receiver finds, by the fields of the message and its body.\<close>

definition field_with :: "string \<Rightarrow> bool \<Rightarrow> string ci_map \<Rightarrow> string \<Rightarrow> string option" where
  "field_with body close m key =
     (if body \<noteq> [] \<and> fold_key key = fold_key ''content-length'' then Some (dec_digits (length body))
      else if fold_key key = fold_key ''connection'' then Some (if close then ''close'' else ''keep-alive'')
      else ci_find key m)"

definition received_as :: "request \<Rightarrow> string \<Rightarrow> request \<Rightarrow> bool" where
  "received_as rq body R \<longleftrightarrow>
     rq_method R = rq_method rq \<and> rq_path R = rq_path rq \<and> rq_query R = rq_query rq \<and> rq_fragment R = rq_fragment rq
     \<and> rq_version R = rq_version rq \<and> rq_close R = rq_close rq \<and> rq_body R = body
     \<and> (\<forall>key. ci_find key (rq_headers R) = field_with (rq_body rq) (rq_close rq) (rq_headers rq) key)"

definition response_as :: "response \<Rightarrow> response \<Rightarrow> bool" where
  "response_as rs S \<longleftrightarrow>
     rs_status S = rs_status rs \<and> rs_version S = rs_version rs \<and> rs_reason S = printed_reason rs \<and> rs_body S = rs_body rs
     \<and> (\<forall>key. ci_find key (rs_headers S) = field_with (rs_body rs) (rs_close rs) (rs_headers rs) key)"

text \<open>
  The length of the body is told: by the line that is printed for a body, which the conversion reads,
  or by its absence.
\<close>

definition told :: "(string \<Rightarrow> 64 word option) \<Rightarrow> string \<Rightarrow> string ci_map \<Rightarrow> bool" where
  "told cast body m \<longleftrightarrow>
     (if body = [] then ci_find ''content-length'' m = None
      else length body < 2 ^ 63 \<and> cast (dec_digits (length body)) = Some (word_of_nat (length body)))"

lemma told_length:
  assumes "told cast body m" and "\<forall>key. ci_find key hs = field_with body close m key"
  shows "sint (getAs cast hs ''content-length'' 0) = int (length body)"
proof (cases "body = []")
  case True
  have "fold_key ''content-length'' \<noteq> fold_key ''connection''" by code_simp
  then show ?thesis using assms True by (simp add: told_def field_with_def getAs_def)
next
  case False
  then have l: "length body < 2 ^ 63" "getAs cast hs ''content-length'' 0 = (word_of_nat (length body) :: 64 word)"
    using assms by (simp_all add: told_def field_with_def getAs_def)
  have "sint (word_of_nat (length body) :: 64 word) = signed_take_bit 63 (int (length body))"
    using signed_of_nat [where 'a = int and 'b = 64] by simp
  also have "\<dots> = int (length body)" using l(1) by (intro signed_take_bit_int_eq_self) simp_all
  finally show ?thesis unfolding l(2) .
qed

text \<open>A conversion that reads numbers, for the examples.\<close>

definition decimal :: "string \<Rightarrow> 64 word option" where
  "decimal s = Some (word_of_int (strtol 10 s))"

lemma decimal_reads:
  assumes "n < 2 ^ 31"
  shows "decimal (dec_digits n) = Some (word_of_nat n)"
proof -
  have "strtol 10 (dec_digits n @ []) = int n" using assms by (intro strtol_digits) (simp_all add: number_ends_def)
  then show ?thesis by (simp add: decimal_def)
qed

section \<open>Requests\<close>

lemma request_head_arrives:
  assumes "printable rq" and "ci_sorted (rq_headers rq)" and "length (request_head rq @ data) \<le> buff"
  obtains pr R where "recv_head http_run buff [] (HttpRequestParser p) (Got (request_head rq @ data) # rets)
      = Inr (Received (\<lparr>rp_parser = pr, rp_request = R, rp_error = 0\<rparr>, data) rets)"
    "rq_body R = []" "received_as rq [] (init_request R)" "rq_headers (init_request R) = rq_headers R"
proof -
  have keep: "rq_method (init_request R) = rq_method R \<and> rq_path (init_request R) = rq_path R \<and> rq_query (init_request R) = rq_query R
      \<and> rq_fragment (init_request R) = rq_fragment R \<and> rq_version (init_request R) = rq_version R \<and> rq_body (init_request R) = rq_body R
      \<and> rq_headers (init_request R) = rq_headers R" for R
    by (simp add: init_request_def Let_def)
  obtain pr R where R: "request_execute http_run (request_head rq @ data) (HttpRequestParser p) =
      Inr (length (request_head rq), data, \<lparr>rp_parser = pr, rp_request = R, rp_error = 0\<rparr>)" "http_parser_finish pr = 1"
    "rq_body R = []" "rq_method R = rq_method rq" "rq_path R = rq_path rq" "rq_query R = rq_query rq" "rq_fragment R = rq_fragment rq"
    "rq_version R = rq_version rq" "rq_close (init_request R) = rq_close rq"
    "\<forall>key. ci_find key (rq_headers R) = field_with (rq_body rq) (rq_close rq) (rq_headers rq) key"
    unfolding field_with_def using request_head_read [OF assms(1,2), of data p] by blast
  have head: "request_head rq \<noteq> []" by (simp add: request_head_def request_text_def)
  have "\<not> http_parser_has_error pr" using R(2) by (auto simp: http_parser_finish_def split: if_splits)
  moreover have "length data \<noteq> buff" using assms(3) head by auto
  ultimately have "recv_head http_run buff [] (HttpRequestParser p) (Got (request_head rq @ data) # rets)
      = Inr (Received (\<lparr>rp_parser = pr, rp_request = R, rp_error = 0\<rparr>, data) rets)"
    using assms(3) head R(1,2) by (simp add: Let_def request_hasError_def request_isFinished_def)
  moreover have "received_as rq [] (init_request R)" using R keep by (simp add: received_as_def)
  ultimately show thesis using that R(3) keep by blast
qed

lemma request_arrives:
  assumes "printable rq" and "ci_sorted (rq_headers rq)" and "told cast (rq_body rq) (rq_headers rq)"
    and "length (request_head rq) + d \<le> buff" and "buff < 2 ^ 31" and "d \<le> length (rq_body rq)"
    and "d < length (rq_body rq) \<longrightarrow> (\<forall>c \<in> set cs. c \<noteq> []) \<and> length (concat cs) = d"
  shows "\<exists>R. recvRequest http_run cast buff p (Got (request_head rq @ take d (rq_body rq)) # map Got cs @ rest) =
      (if d = length (rq_body rq) then Inr (Received R (map Got cs @ rest))
       else if d = 0 then Inr Closed
       else if 2 * d \<le> length (rq_body rq) then Inr (Received R rest)
       else Inl Out_of_bounds)
    \<and> received_as rq (if d = length (rq_body rq) then rq_body rq
        else take d (rq_body rq) @ concat cs @ replicate (length (rq_body rq) - 2 * d) (CHR 0x00)) R"
proof -
  let ?body = "rq_body rq" and ?data = "take d (rq_body rq)"
  let ?got = "if d = length ?body then ?body else ?data @ concat cs @ replicate (length ?body - 2 * d) (CHR 0x00)"
  have d: "length ?data = d" using assms(6) by simp
  have fits: "length (request_head rq @ ?data) \<le> buff" using assms(4) d by simp
  obtain pr R where h: "recv_head http_run buff [] (HttpRequestParser p) (Got (request_head rq @ ?data) # map Got cs @ rest)
      = Inr (Received (\<lparr>rp_parser = pr, rp_request = R, rp_error = 0\<rparr>, ?data) (map Got cs @ rest))"
    "rq_body R = []" "received_as rq [] (init_request R)" "rq_headers (init_request R) = rq_headers R"
    using request_head_arrives [OF assms(1,2) fits, of p "map Got cs @ rest"] by blast
  have len: "sint (request_getContentLength cast \<lparr>rp_parser = pr, rp_request = R, rp_error = 0\<rparr>) = int (length ?body)"
    using told_length [OF assms(3), of "rq_headers R" "rq_close rq"] h(3,4)
    by (simp add: request_getContentLength_def GetHeaderAs_def received_as_def)
  have init: "init_request (R\<lparr>rq_body := b\<rparr>) = (init_request R)\<lparr>rq_body := b\<rparr>" for b
    by (simp add: init_request_def getHeadr_def Let_def)
  have as: "received_as rq b ((init_request R)\<lparr>rq_body := b\<rparr>)" for b using h(3) by (simp add: received_as_def)
  show ?thesis
  proof (cases "?body = []")
    case True
    then have "init_request R = (init_request R)\<lparr>rq_body := ?got\<rparr>" using h(3) assms(6) by (simp add: received_as_def)
    then show ?thesis using as [of ?got] h(1) len True assms(6) by (intro exI [of _ "init_request R"]) (simp add: recvRequest_def Let_def)
  next
    case False
    have "recv_body (int (length ?body)) ?data (map Got cs @ rest) =
        (if int (length ?body) \<le> int (length ?data) then Inr (Received (take (nat (int (length ?body))) ?data) (map Got cs @ rest))
         else if ?data = [] then Inr Closed
         else if 2 * int (length ?data) \<le> int (length ?body)
         then Inr (Received (?data @ concat cs @ replicate (nat (int (length ?body)) - 2 * length ?data) (CHR 0x00)) rest)
         else Inl Out_of_bounds)"
      by (rule recv_body_cases) (use False assms(4-7) d in auto)
    also have "\<dots> = (if d = length ?body then Inr (Received ?got (map Got cs @ rest)) else if d = 0 then Inr Closed
         else if 2 * d \<le> length ?body then Inr (Received ?got rest) else Inl Out_of_bounds)"
      using assms(6) False unfolding d by (auto simp: d)
    finally show ?thesis using as [of ?got] h(1) len False unfolding recvRequest_def
      by (intro exI [of _ "(init_request R)\<lparr>rq_body := ?got\<rparr>"]) (auto simp: Let_def init)
  qed
qed

text \<open>
  C10: A printed request whose head arrives in one read is received as it was sent when its whole body is in
  that read. When only a part is, the session reads as many bytes again as it has: without any it
  closes the connection, up to half of the body it delivers a body that is filled up with NUL, and
  beyond half it writes behind the memory of the body.
\<close>

theorem request_by_arrival:
  assumes "printable rq" and "ci_sorted (rq_headers rq)" and "told cast (rq_body rq) (rq_headers rq)"
    and "length (request_head rq) + d \<le> buff" and "buff < 2 ^ 31" and "d \<le> length (rq_body rq)"
    and "d < length (rq_body rq) \<longrightarrow> (\<forall>c \<in> set cs. c \<noteq> []) \<and> length (concat cs) = d"
  shows "\<exists>R. recvRequest http_run cast buff p (Got (request_head rq @ take d (rq_body rq)) # map Got cs @ rest) =
      (if d = length (rq_body rq) then Inr (Received R (map Got cs @ rest))
       else if d = 0 then Inr Closed
       else if 2 * d \<le> length (rq_body rq) then Inr (Received R rest)
       else Inl Out_of_bounds)
    \<and> received_as rq (if d = length (rq_body rq) then rq_body rq
        else take d (rq_body rq) @ concat cs @ replicate (length (rq_body rq) - 2 * d) (CHR 0x00)) R"
  by (rule request_arrives [OF assms])

definition arriving :: "string \<Rightarrow> char io_ret list \<Rightarrow> request received res" where
  "arriving front rest = recvRequest http_run decimal 4096 (http_parser.make 0 0 0 0 0 0 0 0 False False False)
     (Got (request_head sample_request @ front) # rest)"

lemma sample_request_good:
  "printable sample_request" "ci_sorted (rq_headers sample_request)" "rq_body sample_request = ''hi''" "rq_path sample_request = ''/x''"
  "rq_version sample_request = 0x11" "length (request_head sample_request) \<le> 1000"
  "told decimal (rq_body sample_request) (rq_headers sample_request)"
proof -
  show "printable sample_request" "ci_sorted (rq_headers sample_request)" "rq_body sample_request = ''hi''" "rq_path sample_request = ''/x''"
    "rq_version sample_request = 0x11" "length (request_head sample_request) \<le> 1000" by code_simp+
  then show "told decimal (rq_body sample_request) (rq_headers sample_request)" using decimal_reads [of "Suc (Suc 0)"] by (simp add: told_def)
qed

theorem request_by_arrival_witness:
  "(\<exists>R. arriving ''hi'' [Eof] = Inr (Received R [Eof]) \<and> rq_body R = ''hi'')
   \<and> (\<exists>R. arriving ''h'' [Got ''i'', Eof] = Inr (Received R [Eof]) \<and> rq_body R = ''hi'')
   \<and> arriving [] [Got ''hi''] = Inr Closed"
  using request_by_arrival [OF sample_request_good(1,2,7), of 2 4096 "[]" "http_parser.make 0 0 0 0 0 0 0 0 False False False" "[Eof]"]
    request_by_arrival [OF sample_request_good(1,2,7), of 1 4096 "[''i'']" "http_parser.make 0 0 0 0 0 0 0 0 False False False" "[Eof]"]
    request_by_arrival [OF sample_request_good(1,2,7), of 0 4096 "[]" "http_parser.make 0 0 0 0 0 0 0 0 False False False" "[Got ''hi'']"]
    sample_request_good(3,6)
  by (auto simp: arriving_def received_as_def)

text \<open>A whole request in one read.\<close>

lemma request_crosses:
  assumes "printable rq" and "ci_sorted (rq_headers rq)" and "told cast (rq_body rq) (rq_headers rq)"
    and "length (dump_request rq) \<le> buff" and "buff < 2 ^ 31"
  shows "\<exists>R. recvRequest http_run cast buff p (Got (dump_request rq) # rets) = Inr (Received R rets) \<and> received_as rq (rq_body rq) R"
  using request_arrives [OF assms(1-3), of "length (rq_body rq)" buff "[]" p rets] assms(4,5) by (simp add: dump_request_text)

section \<open>Responses\<close>

lemma response_crosses:
  assumes "printable_response rs" and "ci_sorted (rs_headers rs)" and "told cast (rs_body rs) (rs_headers rs)"
    and "length (dump_response rs) \<le> buff" and "buff < 2 ^ 31"
  shows "\<exists>S. recvResponse client_run (strtol 10) cast buff q (Got (dump_response rs) # rets) = Inr (Received S rets) \<and> response_as rs S"
proof -
  obtain pr S where S: "response_execute client_run (strtol 10) (dump_response rs) False (HttpResponseParser q) =
      Inr (length (response_head rs), rs_body rs, \<lparr>sp_parser = pr, sp_response = S, sp_error = 0\<rparr>)"
    "httpclient_parser_finish pr = 1" "\<not> c_chunked pr" "rs_body S = []" "rs_status S = rs_status rs" "rs_version S = rs_version rs"
    "rs_reason S = printed_reason rs"
    "\<forall>key. ci_find key (rs_headers S) = field_with (rs_body rs) (rs_close rs) (rs_headers rs) key"
    using response_head_read [OF assms(1,2), of "rs_body rs" q] dump_response_text [of rs] assms(1)
    unfolding field_with_def printed_reason_def by (auto simp: printable_response_def)
  have dump: "dump_response rs = response_head rs @ rs_body rs" using dump_response_text assms(1) by (simp add: printable_response_def)
  have head: "response_head rs \<noteq> []" by (simp add: response_head_def response_text_def)
  have "\<not> httpclient_parser_has_error pr" using S(2) by (auto simp: httpclient_parser_finish_def split: if_splits)
  moreover have "length (rs_body rs) \<noteq> buff" using assms(4) head unfolding dump by auto
  ultimately have h: "recv_response_head client_run (strtol 10) buff False [] (HttpResponseParser q) (Got (dump_response rs) # rets)
      = Inr (Received (\<lparr>sp_parser = pr, sp_response = S, sp_error = 0\<rparr>, rs_body rs) rets)"
    using assms(4) head S(1,2) by (simp add: Let_def response_hasError_def response_isFinished_def dump)
  have len: "sint (response_getContentLength cast \<lparr>sp_parser = pr, sp_response = S, sp_error = 0\<rparr>) = int (length (rs_body rs))"
    using told_length [OF assms(3) S(8)] by (simp add: response_getContentLength_def)
  have as: "response_as rs (S\<lparr>rs_body := rs_body rs\<rparr>)" using S(5-8) by (simp add: response_as_def)
  show ?thesis
  proof (cases "rs_body rs = []")
    case True
    then have "S = S\<lparr>rs_body := rs_body rs\<rparr>" using S(4) by simp
    then show ?thesis using as h len S(3) True by (intro exI [of _ S]) (simp add: recvResponse_def Let_def)
  next
    case False
    have "length (rs_body rs) < 2 ^ 31" using assms(4,5) unfolding dump by simp
    then have "recv_body (int (length (rs_body rs))) (rs_body rs) rets = Inr (Received (rs_body rs) rets)"
      using recv_body_cases [of "int (length (rs_body rs))" "rs_body rs" "[]" rets] False by simp
    then show ?thesis using as h len S(3) False
      by (intro exI [of _ "S\<lparr>rs_body := rs_body rs\<rparr>"]) (simp add: recvResponse_def Let_def)
  qed
qed

section \<open>An exchange\<close>

lemma exchange_delivered:
  assumes "printable rq" and "ci_sorted (rq_headers rq)" and "told cast (rq_body rq) (rq_headers rq)"
    and "length (dump_request rq) \<le> buff" and "buff < 2 ^ 31"
    and "\<forall>R. received_as rq (rq_body rq) R \<longrightarrow> (let rs = answer fnmatch srv R in printable_response rs \<and> ci_sorted (rs_headers rs)
          \<and> told cast (rs_body rs) (rs_headers rs) \<and> length (dump_response rs) \<le> buff')" and "buff' < 2 ^ 31"
  shows "\<exists>R S. received_as rq (rq_body rq) R \<and> response_as (answer fnmatch srv R) S
    \<and> handleClient http_run cast buff p fnmatch srv (Got (dump_request rq) # rets) =
        (if last_request srv rq then ([(R, answer fnmatch srv R)], Session_closed)
         else let (served, e) = handleClient http_run cast buff p fnmatch srv rets in ((R, answer fnmatch srv R) # served, e))
    \<and> recvResponse client_run (strtol 10) cast buff' q (Got (dump_response (answer fnmatch srv R)) # rets')
        = Inr (Received S rets')"
proof -
  obtain R where R: "recvRequest http_run cast buff p (Got (dump_request rq) # rets) = Inr (Received R rets)" "received_as rq (rq_body rq) R"
    using request_crosses [OF assms(1-5)] by blast
  obtain S where S: "recvResponse client_run (strtol 10) cast buff' q (Got (dump_response (answer fnmatch srv R)) # rets') = Inr (Received S rets')"
    "response_as (answer fnmatch srv R) S"
    using response_crosses [where rs = "answer fnmatch srv R"] assms(6,7) R(2) by (meson response_crosses)
  have "last_request srv R = last_request srv rq" using R(2) by (simp add: last_request_def received_as_def)
  then have "handleClient http_run cast buff p fnmatch srv (Got (dump_request rq) # rets) =
      (if last_request srv rq then ([(R, answer fnmatch srv R)], Session_closed)
       else let (served, e) = handleClient http_run cast buff p fnmatch srv rets in ((R, answer fnmatch srv R) # served, e))"
    using R(1) by (simp add: handleClient.simps [of http_run cast buff p fnmatch srv "Got (dump_request rq) # rets"])
  then show ?thesis using R(2) S by blast
qed

text \<open>
  C11: A printed request that fits the buffer of the server is served once: the server answers it as it was
  sent, and when what it answers can be printed, told its length and fits the buffer of the client, the client
  receives status, reason, version, fields and body of that answer. What arrives behind is served unless
  the connection is to be closed.
\<close>

theorem exchange_delivers:
  assumes "printable rq" and "ci_sorted (rq_headers rq)" and "told cast (rq_body rq) (rq_headers rq)"
    and "length (dump_request rq) \<le> buff" and "buff < 2 ^ 31"
    and "\<forall>R. received_as rq (rq_body rq) R \<longrightarrow> (let rs = answer fnmatch srv R in printable_response rs \<and> ci_sorted (rs_headers rs)
          \<and> told cast (rs_body rs) (rs_headers rs) \<and> length (dump_response rs) \<le> buff')" and "buff' < 2 ^ 31"
  shows "\<exists>R S. received_as rq (rq_body rq) R \<and> response_as (answer fnmatch srv R) S
    \<and> handleClient http_run cast buff p fnmatch srv (Got (dump_request rq) # rets) =
        (if last_request srv rq then ([(R, answer fnmatch srv R)], Session_closed)
         else let (served, e) = handleClient http_run cast buff p fnmatch srv rets in ((R, answer fnmatch srv R) # served, e))
    \<and> recvResponse client_run (strtol 10) cast buff' q (Got (dump_response (answer fnmatch srv R)) # rets')
        = Inr (Received S rets')"
  by (rule exchange_delivered [OF assms])

section \<open>From the text of a URI to the page\<close>

lemma sendRequest_all:
  assumes "length (dump_request rq) < 2 ^ 31"
  shows "sendRequest rq [Got (dump_request rq)] = Some (int (length (dump_request rq)))"
proof -
  let ?n = "length (dump_request rq)"
  have pos: "dump_request rq \<noteq> []" by (simp add: dump_request_def CRLF_def)
  have "concat [dump_request rq] = dump_request rq" by simp
  then have "writeFixSize (word_of_nat ?n) (map Got [dump_request rq] @ []) = Complete ([] @ chunk_offsets 0 [dump_request rq])"
    unfolding writeFixSize_def using fix_loop_chunks [of ?n 0 "[dump_request rq]" "[]" "[]"] assms pos by simp
  moreover have "sint (ucast (word_of_nat ?n :: 64 word) :: 32 word) = int ?n"
  proof -
    have "ucast (word_of_nat ?n :: 64 word) = (word_of_nat ?n :: 32 word)"
      by (rule bit_word_eqI) (auto simp: bit_simps)
    moreover have "sint (word_of_nat ?n :: 32 word) = signed_take_bit 31 (int ?n)"
      using signed_of_nat [where 'a = int and 'b = 32] by simp
    moreover have "signed_take_bit 31 (int ?n) = int ?n" using assms by (intro signed_take_bit_int_eq_self) simp_all
    ultimately show ?thesis by simp
  qed
  ultimately show ?thesis by (simp add: sendRequest_def Let_def)
qed

lemma length_dec_digits: "length (dec_digits n) \<le> Suc n"
proof (induction n rule: dec_digits.induct)
  case (1 n)
  then show ?case by (subst dec_digits.simps) auto
qed

lemma not_found_answer_good:
  assumes "good_value_field (''Server'', [], v)" and "version \<in> {0x10, 0x11}"
  shows "printable_response (not_found_answer v version close)" and "ci_sorted (rs_headers (not_found_answer v version close))"
    and "length (dump_response (not_found_answer v version close)) \<le> 3 * length v + 1000"
proof -
  have "good_value_field (''Content-type'', [], ''text/html'')" by code_simp
  then show "printable_response (not_found_answer v version close)"
    using assms by (auto simp: printable_response_def not_found_answer_def)
  show "ci_sorted (rs_headers (not_found_answer v version close))"
    by (simp add: not_found_answer_def CaseInsensitiveLess_iff fold_key_def c_str_def char_code_def to_lower_def)
  have lines: "dump_fields [(''Content-type'', ''text/html''), (''Server'', v)]
      = ''Content-type:text/html'' @ CRLF @ ''Server:'' @ v @ CRLF"
    by (simp add: dump_fields_def strcasecmp_def c_str_def char_code_def to_lower_def)
  have "length (dec_digits (length (not_found_content v))) \<le> Suc (length (not_found_content v))" by (rule length_dec_digits)
  moreover have "length (not_found_content v) \<le> length v + 200" "not_found_content v \<noteq> []" by (simp_all add: not_found_content_def)
  moreover have "length (HttpStatusToString 404) = 9" "length (dec_digits 404) = 3" by code_simp+
  moreover have "length (version_text version) = 8"
  proof -
    have "length (version_text 0x10) = 8" "length (version_text 0x11) = 8" by code_simp+
    then show ?thesis using assms(2) by blast
  qed
  ultimately show "length (dump_response (not_found_answer v version close)) \<le> 3 * length v + 1000"
    by (simp add: dump_response_def not_found_answer_def lines dump_body_def CRLF_def)
qed

theorem exchange_delivers_witness:
  "\<exists>R S. received_as sample_request ''hi'' R \<and> rs_status S = 404
    \<and> recvResponse client_run (strtol 10) decimal 4096 (httpclient_parser.make 0 0 0 False False False 0 0 0 0)
        [Got (dump_response (answer (\<lambda>_ _. False) (setName ''kit'' (HttpServer True)) R))] = Inr (Received S [])"
proof -
  let ?srv = "setName ''kit'' (HttpServer True)"
  have answers: "answer (\<lambda>_ _. False) ?srv R = not_found_answer ''kit'' 0x11 (rq_close sample_request)" if "received_as sample_request b R" for R b
  proof -
    have "getMatchedServlet (\<lambda>_ _. False) (rq_path R) (hs_dispatch ?srv) = m_default (hs_dispatch ?srv)"
      by (simp add: getMatchedServlet_def setName_def HttpServer_def ServletDispatch_def)
    from unknown_path_answer [OF this] show ?thesis using that sample_request_good(5) by (simp add: received_as_def HttpServer_def)
  qed
  have "good_value_field (''Server'', [], ''kit'')" by code_simp
  note page = not_found_answer_good [OF this, of "0x11" "rq_close sample_request", simplified]
  have "told decimal (not_found_content ''kit'') m" for m
    using decimal_reads [of "length (not_found_content ''kit'')"] by (simp add: told_def not_found_content_def)
  then have fine: "\<forall>R. received_as sample_request (rq_body sample_request) R \<longrightarrow> (let rs = answer (\<lambda>_ _. False) ?srv R in
      printable_response rs \<and> ci_sorted (rs_headers rs) \<and> told decimal (rs_body rs) (rs_headers rs) \<and> length (dump_response rs) \<le> 4096)"
    using answers page by (auto simp: not_found_answer_def)
  have sizes: "length (dump_request sample_request) \<le> 4096" "(4096 :: nat) < 2 ^ 31"
    using sample_request_good(3,6) by (simp_all add: dump_request_text)
  obtain R S where "received_as sample_request (rq_body sample_request) R" "response_as (answer (\<lambda>_ _. False) ?srv R) S"
    "recvResponse client_run (strtol 10) decimal 4096 (httpclient_parser.make 0 0 0 False False False 0 0 0 0)
        (Got (dump_response (answer (\<lambda>_ _. False) ?srv R)) # []) = Inr (Received S [])"
    using exchange_delivers [OF sample_request_good(1,2,7) sizes fine sizes(2), of "http_parser.make 0 0 0 0 0 0 0 0 False False False" "[]"
        "httpclient_parser.make 0 0 0 False False False 0 0 0 0" "[]"] by blast
  then show ?thesis using answers sample_request_good(3) by (intro exI [of _ R] exI [of _ S]) (simp add: response_as_def not_found_answer_def)
qed

text \<open>The request of a plain call with a URI.\<close>

lemma assemble_plain:
  "rq_headers (assemble m u [] body) = [(''host'', u_host u)]" "rq_close (assemble m u [] body)"
  by (simp_all add: assemble_def setHeader_def HttpRequest_def)

lemma told_plain: "told cast (rq_body (assemble GET u [] [])) (rq_headers (assemble GET u [] []))"
proof -
  have "fold_key ''content-length'' \<noteq> fold_key ''host''" by code_simp
  then show ?thesis by (simp add: told_def assemble_parts assemble_plain CaseInsensitiveLess_iff)
qed

lemma plain_received: "received_as (assemble GET u [] []) data R \<Longrightarrow> getHeadr ''host'' [] R = u_host u"
proof -
  have "fold_key ''host'' \<noteq> fold_key ''content-length''" "fold_key ''host'' \<noteq> fold_key ''connection''" by code_simp+
  then show "received_as (assemble GET u [] []) data R \<Longrightarrow> getHeadr ''host'' [] R = u_host u"
    by (simp add: received_as_def field_with_def getHeadr_def assemble_plain CaseInsensitiveLess_iff)
qed

lemma not_found_received:
  assumes "response_as (not_found_answer v 0x11 True) S"
  shows "rsp_getHeader ''server'' [] S = v" "rs_status S = 404" "rs_reason S = ''Not Found''" "rs_body S = not_found_content v"
proof -
  have keys: "fold_key ''server'' \<noteq> fold_key ''content-length''" "fold_key ''server'' \<noteq> fold_key ''connection''" by code_simp+
  have text404: "HttpStatusToString 404 = ''Not Found''" by code_simp
  have found: "CaseInsensitiveLess ''Content-type'' ''server''" "\<not> CaseInsensitiveLess ''Server'' ''server''"
    "\<not> CaseInsensitiveLess ''server'' ''Server''" by code_simp+
  show "rsp_getHeader ''server'' [] S = v" "rs_status S = 404" "rs_reason S = ''Not Found''" "rs_body S = not_found_content v"
    using assms keys unfolding response_as_def
    by (simp_all add: not_found_answer_def rsp_getHeader_def field_with_def printed_reason_def found text404)
qed

lemma length_dump_plain:
  "length (dump_request (assemble GET u [] [])) \<le> length (u_path u) + length (u_query u) + length (u_fragment u) + length (u_host u) + 100"
proof -
  have "dump_fields [(''host'', u_host u)] = ''host:'' @ u_host u @ CRLF"
    by (simp add: dump_fields_def strcasecmp_def c_str_def char_code_def to_lower_def)
  moreover have "length (version_text 0x11) = 8" "length (HttpMethodToString GET) = 3" by code_simp+
  ultimately show ?thesis
    by (simp add: dump_request_def assemble_plain assemble_parts dump_body_def CRLF_def)
qed



end
