(* ===== verification/Sockets.thy ===== *)
theory Sockets
  imports Hook Address "HOL-Library.Signed_Division"
begin

text \<open>
  \<open>socket.h\<close> and \<open>socket.cpp\<close>: a socket object over the hooked system calls. The system under the
  hooks is \<open>net\<close>: the open descriptors (the lowest free number is given to a new one), whether each
  of the next calls fails, and the addresses that the kernel reports. A hooked call that waits is
  in \<open>Hook\<close>; here it is done in one step with the result it comes to.
\<close>

record net =
  n_hook :: hook
  n_open :: "int list"
  n_faults :: "bool list"
  n_sockname :: "int \<Rightarrow> address"
  n_peername :: "int \<Rightarrow> address"

record socket =
  sk_fd :: int
  sk_family :: int
  sk_type :: int
  sk_protocol :: int
  sk_isConnectd :: bool
  sk_localAddr :: "address option"
  sk_remoteAddr :: "address option"

fun getFamily :: "address \<Rightarrow> int" where
  "getFamily (IPv4Address a) = 2"
| "getFamily (IPv6Address a) = 10"
| "getFamily (UnixAddress p n) = 1"
| "getFamily (UnkonwAddress f) = int f"

section \<open>The system calls\<close>

definition sys_fault :: "net \<Rightarrow> bool \<times> net" where
  "sys_fault n = (case n_faults n of [] \<Rightarrow> (False, n) | f # fs \<Rightarrow> (f, n\<lparr>n_faults := fs\<rparr>))"

definition fresh_fd :: "int list \<Rightarrow> int" where
  "fresh_fd fds = hd (filter (\<lambda>fd. fd \<notin> set fds) (map int [0..<Suc (length fds)]))"

definition open_fd :: "net \<Rightarrow> int \<times> net" where
  "open_fd n =
     (let fd = fresh_fd (n_open n); k = hk_kernel (n_hook n);
          k1 = \<lparr>k_fstat = (k_fstat k)(fd := Some True), k_nonblock = (k_nonblock k)(fd := False)\<rparr>
      in (fd, n\<lparr>n_open := fd # n_open n, n_hook := (n_hook n)\<lparr>hk_kernel := k1\<rparr>\<rparr>))"

text \<open>\<open>socket\<close> and \<open>accept\<close> give a new descriptor or -1.\<close>

definition sys_new :: "net \<Rightarrow> int \<times> net" where
  "sys_new n = (let (f, n1) = sys_fault n in if f then (-1, n1) else open_fd n1)"

definition in_hook :: "(hook \<Rightarrow> ('a \<times> hook) res) \<Rightarrow> net \<Rightarrow> ('a \<times> net) res" where
  "in_hook f n = bindE (f (n_hook n)) (\<lambda>(x, h). Inr (x, n\<lparr>n_hook := h\<rparr>))"

definition sys_close :: "epoll \<Rightarrow> int \<Rightarrow> net \<Rightarrow> net res" where
  "sys_close epoll_ctl fd n =
     bindE (hook_close epoll_ctl fd (n_hook n)) (\<lambda>h. Inr (n\<lparr>n_hook := h, n_open := remove1 fd (n_open n)\<rparr>))"

section \<open>Options\<close>

definition setOption :: "net \<Rightarrow> bool \<times> net" where
  "setOption n = (let (f, n1) = sys_fault n in (\<not> f, n1))"

definition sk_setTimeout :: "timeout_opt \<Rightarrow> int \<Rightarrow> socket \<Rightarrow> net \<Rightarrow> net res" where
  "sk_setTimeout opt val sk n =
     bindE (setsockopt_timeout (sk_fd sk) opt (val sdiv 1000) (val smod 1000 * 1000) (n_hook n)) (\<lambda>h.
       Inr (snd (setOption (n\<lparr>n_hook := h\<rparr>))))"

definition setSendTimeout :: "int \<Rightarrow> socket \<Rightarrow> net \<Rightarrow> net res" where
  "setSendTimeout = sk_setTimeout SO_SNDTIMEO"

definition setRecvTimeout :: "int \<Rightarrow> socket \<Rightarrow> net \<Rightarrow> net res" where
  "setRecvTimeout = sk_setTimeout SO_RCVTIMEO"

definition sk_getTimeout :: "timeout_opt \<Rightarrow> socket \<Rightarrow> net \<Rightarrow> int res" where
  "sk_getTimeout opt sk n =
     bindE (get_ctx_fd (sk_fd sk) False (hk_fds (n_hook n)) (hk_kernel (n_hook n))) (\<lambda>(ctx, _, _).
       Inr (case ctx of None \<Rightarrow> -1 | Some c \<Rightarrow> sint (getTimeout opt c)))"

definition getSendTimeout :: "socket \<Rightarrow> net \<Rightarrow> int res" where
  "getSendTimeout = sk_getTimeout SO_SNDTIMEO"

definition getRecvTimeout :: "socket \<Rightarrow> net \<Rightarrow> int res" where
  "getRecvTimeout = sk_getTimeout SO_RCVTIMEO"

text \<open>\<open>None\<close> when \<open>getsockopt\<close> fails.\<close>

definition getError :: "int option \<Rightarrow> int" where
  "getError so_error = (case so_error of None \<Rightarrow> -1 | Some e \<Rightarrow> e)"

section \<open>Making and naming sockets\<close>

definition new_Socket :: "int \<Rightarrow> int \<Rightarrow> int \<Rightarrow> socket" where
  "new_Socket family type protocol =
     \<lparr>sk_fd = -1, sk_family = family, sk_type = type, sk_protocol = protocol, sk_isConnectd = False,
      sk_localAddr = None, sk_remoteAddr = None\<rparr>"

definition initSocket :: "socket \<Rightarrow> net \<Rightarrow> net" where
  "initSocket sk n =
     (let n1 = snd (setOption n) in
      if sk_family sk \<noteq> 1 \<and> sk_type sk = 1 then snd (setOption n1) else n1)"

definition newSocket :: "socket \<Rightarrow> net \<Rightarrow> (socket \<times> net) res" where
  "newSocket sk n =
     (let (fd0, n1) = sys_new n in
      bindE (in_hook (hook_socket fd0) n1) (\<lambda>(fd, n2).
        let sk1 = sk\<lparr>sk_fd := fd\<rparr> in
        Inr (sk1, if fd \<noteq> -1 then initSocket sk1 n2 else n2)))"

definition CreateTCP :: "address \<Rightarrow> socket" where
  "CreateTCP addr = new_Socket (getFamily addr) 1 0"

definition CreateUDP :: "address \<Rightarrow> net \<Rightarrow> (socket \<times> net) res" where
  "CreateUDP addr n =
     bindE (newSocket (new_Socket (getFamily addr) 2 0) n) (\<lambda>(sk, n1). Inr (sk\<lparr>sk_isConnectd := True\<rparr>, n1))"

definition CreateUnixUDPSocket :: socket where
  "CreateUnixUDPSocket = new_Socket 1 2 0"

text \<open>A failure is reported as an unknown address and not kept.\<close>

definition getLocalAddress :: "socket \<Rightarrow> net \<Rightarrow> address \<times> socket \<times> net" where
  "getLocalAddress sk n =
     (case sk_localAddr sk of
        Some a \<Rightarrow> (a, sk, n)
      | None \<Rightarrow>
          let (f, n1) = sys_fault n; a = n_sockname n1 (sk_fd sk) in
          if f then (UnkonwAddress (nat (sk_family sk)), sk, n1) else (a, sk\<lparr>sk_localAddr := Some a\<rparr>, n1))"

definition getRemoteAddress :: "socket \<Rightarrow> net \<Rightarrow> address \<times> socket \<times> net" where
  "getRemoteAddress sk n =
     (case sk_remoteAddr sk of
        Some a \<Rightarrow> (a, sk, n)
      | None \<Rightarrow>
          let (f, n1) = sys_fault n; a = n_peername n1 (sk_fd sk) in
          if f then (UnkonwAddress (nat (sk_family sk)), sk, n1) else (a, sk\<lparr>sk_remoteAddr := Some a\<rparr>, n1))"

definition init_fd :: "int \<Rightarrow> socket \<Rightarrow> net \<Rightarrow> (bool \<times> socket \<times> net) res" where
  "init_fd fd sk n =
     bindE (in_hook (with_ctx fd False) n) (\<lambda>(ctx, n1).
       case ctx of
         None \<Rightarrow> Inr (False, sk, n1)
       | Some c \<Rightarrow>
           if m_isSocket c \<and> \<not> m_isClosed c then
             let sk1 = sk\<lparr>sk_fd := fd, sk_isConnectd := True\<rparr>;
                 n2 = initSocket sk1 n1;
                 (_, sk2, n3) = getLocalAddress sk1 n2;
                 (_, sk3, n4) = getRemoteAddress sk2 n3
             in Inr (True, sk3, n4)
           else Inr (False, sk, n1))"

section \<open>Connections\<close>

definition valid_socket :: "socket \<Rightarrow> net \<Rightarrow> (socket \<times> net) res" where
  "valid_socket sk n = (if sk_fd sk = -1 then newSocket sk n else Inr (sk, n))"

definition sk_close :: "epoll \<Rightarrow> socket \<Rightarrow> net \<Rightarrow> (bool \<times> socket \<times> net) res" where
  "sk_close epoll_ctl sk n =
     (if \<not> sk_isConnectd sk \<and> sk_fd sk = -1 then Inr (True, sk, n)
      else
        let sk1 = sk\<lparr>sk_isConnectd := False\<rparr> in
        if sk_fd sk1 \<noteq> -1
        then bindE (sys_close epoll_ctl (sk_fd sk1) n) (\<lambda>n1. Inr (False, sk1\<lparr>sk_fd := -1\<rparr>, n1))
        else Inr (False, sk1, n))"

definition sk_bind :: "address \<Rightarrow> socket \<Rightarrow> net \<Rightarrow> (bool \<times> socket \<times> net) res" where
  "sk_bind addr sk n =
     bindE (valid_socket sk n) (\<lambda>(sk1, n1).
       if sk_fd sk1 = -1 then Inr (False, sk1, n1)
       else if getFamily addr \<noteq> sk_family sk1 then Inr (False, sk1, n1)
       else
         let (f, n2) = sys_fault n1 in
         if f then Inr (False, sk1, n2)
         else let (_, sk2, n3) = getLocalAddress sk1 n2 in Inr (True, sk2, n3))"

text \<open>The two hooked calls, with the default timeout and with a given one, come to 0 or -1.\<close>

definition sk_connect :: "epoll \<Rightarrow> address \<Rightarrow> socket \<Rightarrow> net \<Rightarrow> (bool \<times> socket \<times> net) res" where
  "sk_connect epoll_ctl addr sk n =
     bindE (valid_socket sk n) (\<lambda>(sk1, n1).
       if sk_fd sk1 = -1 then Inr (False, sk1, n1)
       else if getFamily addr \<noteq> sk_family sk1 then Inr (False, sk1, n1)
       else
         let (f, n2) = sys_fault n1 in
         if f then bindE (sk_close epoll_ctl sk1 n2) (\<lambda>(_, sk2, n3). Inr (False, sk2, n3))
         else
           let (_, sk2, n3) = getRemoteAddress (sk1\<lparr>sk_isConnectd := True\<rparr>) n2;
               (_, sk3, n4) = getLocalAddress sk2 n3
           in Inr (True, sk3, n4))"

definition sk_listen :: "socket \<Rightarrow> net \<Rightarrow> bool \<times> net" where
  "sk_listen sk n =
     (if sk_fd sk = -1 then (False, n) else (let (f, n1) = sys_fault n in (\<not> f, n1)))"

definition sk_accept :: "socket \<Rightarrow> net \<Rightarrow> (socket option \<times> net) res" where
  "sk_accept sk n =
     (let (fd0, n1) = sys_new n in
      bindE (in_hook (hook_accept_end fd0) n1) (\<lambda>(ac_fd, n2).
        if ac_fd < 0 then Inr (None, n2)
        else bindE (init_fd ac_fd (new_Socket (sk_family sk) (sk_type sk) (sk_protocol sk)) n2) (\<lambda>(ok, sock, n3).
          Inr (if ok then Some sock else None, n3))))"

section \<open>Transfers and cancelling\<close>

text \<open>\<open>r\<close> is what the hooked call returns.\<close>

definition sk_send :: "socket \<Rightarrow> int \<Rightarrow> int" where
  "sk_send sk r = (if sk_isConnectd sk then r else -1)"

text \<open>What arrives in a buffer of \<open>len\<close> bytes when the kernel has \<open>data\<close>; \<open>None\<close> is -1.\<close>

definition sk_recv :: "nat \<Rightarrow> 'a list \<Rightarrow> socket \<Rightarrow> 'a list option" where
  "sk_recv len data sk = (if sk_isConnectd sk then Some (take len data) else None)"

fun getAddrLen :: "address \<Rightarrow> nat" where
  "getAddrLen (IPv4Address a) = 16"
| "getAddrLen (IPv6Address a) = 28"
| "getAddrLen (UnixAddress p n) = n"
| "getAddrLen (UnkonwAddress f) = 16"

text \<open>The local \<open>len\<close>, the length of the address, hides the length of the buffer.\<close>

definition sk_recvFrom :: "nat \<Rightarrow> address \<Rightarrow> 'a list \<Rightarrow> socket \<Rightarrow> 'a list option res" where
  "sk_recvFrom len addr_from data sk =
     (if sk_isConnectd sk then
        let bs = take (getAddrLen addr_from) data in
        if length bs > len then Inl Out_of_bounds else Inr (Some bs)
      else Inr None)"

definition on_io :: "(hook_cb io_manager \<Rightarrow> (bool \<times> hook_cb io_manager) res) \<Rightarrow> net \<Rightarrow> (bool \<times> net) res" where
  "on_io f n =
     (let h = n_hook n in
      if \<not> hk_has_iom h then Inl Null_deref
      else bindE (f (hk_io h)) (\<lambda>(r, io). Inr (r, n\<lparr>n_hook := h\<lparr>hk_io := io\<rparr>\<rparr>)))"

definition cancelRead :: "epoll \<Rightarrow> socket \<Rightarrow> net \<Rightarrow> (bool \<times> net) res" where
  "cancelRead epoll_ctl sk = on_io (cancelEvent epoll_ctl (sk_fd sk) READ)"

definition cancelWrite :: "epoll \<Rightarrow> socket \<Rightarrow> net \<Rightarrow> (bool \<times> net) res" where
  "cancelWrite epoll_ctl sk = on_io (cancelEvent epoll_ctl (sk_fd sk) WRITE)"

definition cancelAccept :: "epoll \<Rightarrow> socket \<Rightarrow> net \<Rightarrow> (bool \<times> net) res" where
  "cancelAccept epoll_ctl sk = on_io (cancelEvent epoll_ctl (sk_fd sk) READ)"

definition sk_cancelAll :: "epoll \<Rightarrow> socket \<Rightarrow> net \<Rightarrow> (bool \<times> net) res" where
  "sk_cancelAll epoll_ctl sk = on_io (cancelAll epoll_ctl (sk_fd sk))"

section \<open>Who owns which descriptor\<close>

text \<open>
  Open descriptors are numbers without doubles that \<open>fstat\<close> takes for sockets; only open ones have a
  context, so a new descriptor gets a new one. The hooks are
  on, and the thread has an event manager.
\<close>

definition wf_net :: "net \<Rightarrow> bool" where
  "wf_net n \<longleftrightarrow>
     hk_enable (n_hook n) \<and> hk_has_iom (n_hook n) \<and> wf_io (hk_io (n_hook n)) \<and> wf_fds (hk_fds (n_hook n)) (hk_kernel (n_hook n))
     \<and> distinct (n_open n) \<and> (\<forall>fd \<in> set (n_open n). 0 \<le> fd)
     \<and> (\<forall>i < length (hk_fds (n_hook n)). hk_fds (n_hook n) ! i \<noteq> None \<longrightarrow> int i \<in> set (n_open n))"

lemma fresh_fd_new: "fresh_fd fds \<notin> set fds \<and> 0 \<le> fresh_fd fds"
proof -
  let ?all = "map int [0..<Suc (length fds)]" and ?free = "filter (\<lambda>fd. fd \<notin> set fds) (map int [0..<Suc (length fds)])"
  have "?free \<noteq> []"
  proof
    assume "?free = []"
    then have "set ?all \<subseteq> set fds" by (auto simp only: filter_empty_conv)
    then have "card (set ?all) \<le> card (set fds)" by (intro card_mono) simp_all
    moreover have "card (set ?all) = Suc (length fds)" by (subst distinct_card) (auto simp: distinct_map)
    ultimately show False using card_length [of fds] by simp
  qed
  then have "hd ?free \<in> set ?free" by (rule hd_in_set)
  then show ?thesis unfolding fresh_fd_def by auto
qed

lemma sys_fault_fields [simp]:
  "n_open (snd (sys_fault n)) = n_open n" "n_hook (snd (sys_fault n)) = n_hook n"
  by (simp_all add: sys_fault_def split: list.split)

lemma sys_fault_same: "sys_fault n = (f, n1) \<Longrightarrow> n_open n1 = n_open n \<and> n_hook n1 = n_hook n"
  using sys_fault_fields [of n] by simp

lemma wf_net_same: "n_open n1 = n_open n \<Longrightarrow> n_hook n1 = n_hook n \<Longrightarrow> wf_net n1 = wf_net n"
  by (simp add: wf_net_def)

lemma setOption_fields [simp]:
  "n_open (snd (setOption n)) = n_open n" "n_hook (snd (setOption n)) = n_hook n"
  by (simp_all add: setOption_def split_def Let_def)

lemma initSocket_fields [simp]:
  "n_open (initSocket sk n) = n_open n" "n_hook (initSocket sk n) = n_hook n"
  by (simp_all add: initSocket_def Let_def)

text \<open>What an address lookup leaves alone.\<close>

lemma getAddress_fields:
  "getLocalAddress sk n = (a, sk1, n1) \<Longrightarrow> n_open n1 = n_open n \<and> n_hook n1 = n_hook n \<and> sk_fd sk1 = sk_fd sk
     \<and> sk_isConnectd sk1 = sk_isConnectd sk"
  "getRemoteAddress sk n = (a, sk1, n1) \<Longrightarrow> n_open n1 = n_open n \<and> n_hook n1 = n_hook n \<and> sk_fd sk1 = sk_fd sk
     \<and> sk_isConnectd sk1 = sk_isConnectd sk"
  by (auto simp: getLocalAddress_def getRemoteAddress_def Let_def dest: sys_fault_same
      split: option.splits prod.splits if_splits)

text \<open>Opening a descriptor and giving it a context.\<close>

lemma open_fd_ctx:
  assumes wf: "wf_net n" and o: "open_fd n = (fd, n1)"
  shows "fd \<notin> set (n_open n) \<and> 0 \<le> fd
    \<and> (\<exists>c h. with_ctx fd True (n_hook n1) = Inr (Some c, h) \<and> wf_net (n1\<lparr>n_hook := h\<rparr>)
          \<and> n_open n1 = fd # n_open n \<and> open_socket fd h \<and> nat fd < length (hk_fds h) \<and> hk_fds h ! nat fd = Some c
          \<and> m_recvTimeout c = -1 \<and> m_sendTimeout c = -1)"
proof -
  let ?h = "n_hook n" and ?fds = "hk_fds (n_hook n)" and ?k = "hk_kernel (n_hook n)"
  define k1 where "k1 = \<lparr>k_fstat = (k_fstat ?k)(fd := Some True), k_nonblock = (k_nonblock ?k)(fd := False)\<rparr>"
  have n1: "fd = fresh_fd (n_open n)" "n1 = n\<lparr>n_open := fd # n_open n, n_hook := ?h\<lparr>hk_kernel := k1\<rparr>\<rparr>"
    using o by (auto simp: open_fd_def Let_def k1_def)
  note new = fresh_fd_new [of "n_open n", folded n1(1)]
  have wff: "wf_fds ?fds ?k" and ctxs: "\<And>i. i < length ?fds \<Longrightarrow> ?fds ! i \<noteq> None \<Longrightarrow> int i \<in> set (n_open n)"
    using wf by (auto simp: wf_net_def)
  have none: "fd < int (length ?fds) \<Longrightarrow> ?fds ! nat fd = None" using ctxs [of "nat fd"] new by fastforce
  have slots: "slot_ok k1 i (?fds ! i)" if "i < length ?fds" for i
  proof (cases "?fds ! i")
    case (Some c)
    then have "int i \<noteq> fd" using ctxs [OF that] new by auto
    then show ?thesis using wff that Some by (auto simp: wf_fds_def slot_ok_def k1_def)
  qed simp
  then have wf1: "wf_fds ?fds k1" using wff by (simp add: wf_fds_def)
  obtain c k2 where c: "FdCtx fd k1 = (c, k2)" by fastforce
  note f = FdCtx_fields [OF c]
  define fds1 where "fds1 = (if fd \<ge> int (length ?fds) then resize_fds (nat (fd * 3 div 2)) ?fds else ?fds)"
  have grow: "length ?fds \<le> nat (fd * 3 div 2) \<and> fd < fd * 3 div 2" if "fd \<ge> int (length ?fds)"
    using that wff unfolding wf_fds_def by linarith
  then have len: "nat fd < length fds1" using new by (auto simp: fds1_def resize_fds_def)
  have get: "get_ctx_fd fd True ?fds k1 = Inr (Some c, fds1[nat fd := Some c], k2)"
    using new c len none by (simp add: get_ctx_fd_def fds1_def Let_def)
  have "wf_fds fds1 k1" using wf1 wf_fds_resize [OF wf1] grow by (simp add: fds1_def)
  then have wf2: "wf_fds (fds1[nat fd := Some c]) k2" using f new by (intro wf_fds_put) (auto simp: slot_ok_def)
  let ?h1 = "?h\<lparr>hk_kernel := k2, hk_fds := fds1[nat fd := Some c]\<rparr>"
  have w: "with_ctx fd True (n_hook n1) = Inr (Some c, ?h1)"
    using get by (simp add: with_ctx_def n1(2))
  have "int i \<in> set (fd # n_open n)" if "i < length (fds1[nat fd := Some c])" "fds1[nat fd := Some c] ! i \<noteq> None" for i
  proof (cases "i = nat fd")
    case False
    then have "fds1 ! i \<noteq> None" using that(2) by simp
    then have "i < length ?fds \<and> ?fds ! i \<noteq> None"
      using that(1) grow by (auto simp: fds1_def resize_fds_def nth_append split: if_splits)
    then show ?thesis using ctxs by simp
  qed (use new in simp)
  then have "wf_net (n1\<lparr>n_hook := ?h1\<rparr>)" using wf wf2 new by (auto simp: wf_net_def n1(2))
  moreover have "open_socket fd ?h1" using f len new by (simp add: open_socket_def k1_def)
  ultimately show ?thesis using new w len f n1(2) by auto
qed

text \<open>A new descriptor with its context, or a failure.\<close>

lemma sys_new_hooked:
  assumes wf: "wf_net n" and s: "sys_new n = (fd0, n1)"
  shows "if fd0 < 0 then fd0 = -1 \<and> n_open n1 = n_open n \<and> n_hook n1 = n_hook n
    else fd0 \<notin> set (n_open n)
      \<and> (\<exists>c h. with_ctx fd0 True (n_hook n1) = Inr (Some c, h) \<and> wf_net (n1\<lparr>n_hook := h\<rparr>)
          \<and> n_open n1 = fd0 # n_open n \<and> open_socket fd0 h \<and> nat fd0 < length (hk_fds h) \<and> hk_fds h ! nat fd0 = Some c
          \<and> m_recvTimeout c = -1 \<and> m_sendTimeout c = -1 \<and> hk_enable (n_hook n1))"
proof -
  obtain f m where f: "sys_fault n = (f, m)" by fastforce
  then have m: "n_open m = n_open n" "n_hook m = n_hook n" using sys_fault_fields [of n] by simp_all
  show ?thesis
  proof (cases f)
    case False
    then have o: "open_fd m = (fd0, n1)" using s f by (simp add: sys_new_def)
    have "wf_net m" using wf wf_net_same [OF m] by simp
    from open_fd_ctx [OF this o] show ?thesis
      using m o wf by (auto simp: open_fd_def Let_def wf_net_def)
  qed (use s f m in \<open>auto simp: sys_new_def\<close>)
qed

lemma sys_new_fails: "fst (sys_new n) < 0 \<longleftrightarrow> fst (sys_fault n)"
  using fresh_fd_new by (auto simp: sys_new_def open_fd_def Let_def split_def not_less)

text \<open>
  A socket owns its descriptor: it has none and the open ones are the others', or it has one that
  is open and not the others'. It is connected only with a descriptor.
\<close>

definition owns :: "int set \<Rightarrow> socket \<Rightarrow> net \<Rightarrow> bool" where
  "owns others sk n \<longleftrightarrow> wf_net n \<and> (sk_isConnectd sk \<longrightarrow> sk_fd sk \<noteq> -1)
     \<and> (if sk_fd sk = -1 then set (n_open n) = others
        else 0 \<le> sk_fd sk \<and> sk_fd sk \<notin> others \<and> set (n_open n) = insert (sk_fd sk) others)"

lemma newSocket_ok:
  assumes "owns others sk n" and "sk_fd sk = -1"
  shows "\<exists>sk1 n1. newSocket sk n = Inr (sk1, n1) \<and> owns others sk1 n1 \<and> sk_family sk1 = sk_family sk
    \<and> sk_isConnectd sk1 = sk_isConnectd sk"
proof -
  obtain fd0 m where s: "sys_new n = (fd0, m)" by fastforce
  have wf: "wf_net n" "set (n_open n) = others" "\<not> sk_isConnectd sk" using assms by (auto simp: owns_def)
  note h = sys_new_hooked [OF wf(1) s]
  show ?thesis
  proof (cases "fd0 < 0")
    case True
    then have m: "fd0 = -1" "n_open m = n_open n" "n_hook m = n_hook n" using h by simp_all
    then have "wf_net m" using wf wf_net_same [OF m(2,3)] by simp
    then show ?thesis
      using s m wf by (auto simp: newSocket_def in_hook_def hook_socket_def owns_def)
  next
    case False
    then obtain c hk where hk: "with_ctx fd0 True (n_hook m) = Inr (Some c, hk)" "wf_net (m\<lparr>n_hook := hk\<rparr>)"
        "n_open m = fd0 # n_open n" "fd0 \<notin> set (n_open n)" "hk_enable (n_hook m)" using h by auto
    let ?sk = "sk\<lparr>sk_fd := fd0\<rparr>" and ?n = "initSocket (sk\<lparr>sk_fd := fd0\<rparr>) (m\<lparr>n_hook := hk\<rparr>)"
    have "newSocket sk n = Inr (?sk, ?n)"
      using s hk False by (simp add: newSocket_def in_hook_def hook_socket_def Let_def)
    moreover have "wf_net ?n" using hk(2) wf_net_same [of ?n "m\<lparr>n_hook := hk\<rparr>"] by simp
    ultimately show ?thesis using hk False wf by (auto simp: owns_def)
  qed
qed

lemma valid_socket_ok:
  assumes "owns others sk n"
  shows "\<exists>sk1 n1. valid_socket sk n = Inr (sk1, n1) \<and> owns others sk1 n1 \<and> sk_family sk1 = sk_family sk
    \<and> sk_isConnectd sk1 = sk_isConnectd sk \<and> (sk_fd sk \<noteq> -1 \<longrightarrow> sk1 = sk \<and> n1 = n)"
  using newSocket_ok [OF assms] assms by (auto simp: valid_socket_def)

lemma with_ctx_False:
  "0 \<le> fd \<Longrightarrow> with_ctx fd False h = Inr (if nat fd < length (hk_fds h) then hk_fds h ! nat fd else None, h)"
  by (auto simp: with_ctx_def get_ctx_fd_def)

lemma hook_close_ok:
  assumes wf: "wf_net n" and fd: "0 \<le> fd"
  shows "\<exists>h. hook_close epoll_ctl fd (n_hook n) = Inr h \<and> wf_net (n\<lparr>n_hook := h, n_open := remove1 fd (n_open n)\<rparr>)"
proof -
  let ?h = "n_hook n"
  have w: "hk_enable ?h" "wf_io (hk_io ?h)" "wf_fds (hk_fds ?h) (hk_kernel ?h)" "distinct (n_open n)"
    using wf by (simp_all add: wf_net_def)
  have ctxs: "\<And>i. i < length (hk_fds ?h) \<Longrightarrow> hk_fds ?h ! i \<noteq> None \<Longrightarrow> int i \<in> set (n_open n)"
    using wf by (simp add: wf_net_def)
  define c where "c = (if nat fd < length (hk_fds ?h) then hk_fds ?h ! nat fd else None)"
  have c: "with_ctx fd False ?h = Inr (c, ?h)" using with_ctx_False [OF fd] by (simp add: c_def)
  show ?thesis
  proof (cases c)
    case None
    have "int i \<noteq> fd" if "i < length (hk_fds ?h)" "hk_fds ?h ! i \<noteq> None" for i
      using that None by (auto simp: c_def)
    then have "wf_net (n\<lparr>n_open := remove1 fd (n_open n)\<rparr>)" using wf w(4) by (auto simp: wf_net_def)
    then show ?thesis using c None w(1) by (simp add: hook_close_def)
  next
    case (Some c')
    obtain r io where io: "(if hk_has_iom ?h then cancelAll epoll_ctl fd (hk_io ?h) else Inr (False, hk_io ?h)) = Inr (r, io)"
        "wf_io io" using cancelAll_ok [OF w(2) fd, of epoll_ctl] w(2) by (cases "hk_has_iom ?h") auto
    obtain fds1 where d: "del_ctx_fd fd (hk_fds ?h) = Inr fds1" "wf_fds fds1 (hk_kernel ?h)"
        "length fds1 = length (hk_fds ?h)" "nat fd < length fds1 \<longrightarrow> fds1 ! nat fd = None"
      using del_ctx_fd_ok [OF w(3) fd] by blast
    have eq: "fds1 = (hk_fds ?h)[nat fd := None]"
      using d(1) fd Some by (auto simp: del_ctx_fd_def c_def split: if_splits)
    have "int i \<in> set (remove1 fd (n_open n))" if "i < length fds1" "fds1 ! i \<noteq> None" for i
      using that ctxs [of i] w(4) fd unfolding eq by (cases "i = nat fd") auto
    then have "wf_net (n\<lparr>n_hook := ?h\<lparr>hk_io := io, hk_fds := fds1\<rparr>, n_open := remove1 fd (n_open n)\<rparr>)"
      using wf io(2) d w(4) by (simp add: wf_net_def)
    then show ?thesis using c Some w(1) io(1) d(1) by (simp add: hook_close_def)
  qed
qed

lemma sk_close_ok:
  assumes "owns others sk n"
  shows "\<exists>r sk1 n1. sk_close epoll_ctl sk n = Inr (r, sk1, n1) \<and> owns others sk1 n1 \<and> sk_fd sk1 = -1 \<and> \<not> sk_isConnectd sk1
    \<and> set (n_open n1) = others \<and> sk_family sk1 = sk_family sk \<and> sk_type sk1 = sk_type sk \<and> (r \<longleftrightarrow> sk_fd sk = -1)"
proof (cases "sk_fd sk = -1")
  case True
  then show ?thesis using assms by (auto simp: sk_close_def owns_def)
next
  case False
  then have wf: "wf_net n" "0 \<le> sk_fd sk" "sk_fd sk \<notin> others" "set (n_open n) = insert (sk_fd sk) others" "distinct (n_open n)"
    using assms by (auto simp: owns_def wf_net_def)
  from hook_close_ok [OF wf(1,2), of epoll_ctl] obtain h where
    "hook_close epoll_ctl (sk_fd sk) (n_hook n) = Inr h" "wf_net (n\<lparr>n_hook := h, n_open := remove1 (sk_fd sk) (n_open n)\<rparr>)"
    by blast
  then show ?thesis using False wf by (auto simp: sk_close_def sys_close_def owns_def)
qed

text \<open>Steps that leave the descriptors and the hooks alone.\<close>

lemma owns_same:
  assumes "owns others sk n" and "n_open n1 = n_open n" and "n_hook n1 = n_hook n" and "sk_fd sk1 = sk_fd sk"
    and "sk_isConnectd sk1 \<longrightarrow> sk_fd sk \<noteq> -1"
  shows "owns others sk1 n1"
  using assms wf_net_same [OF assms(2,3)] by (simp add: owns_def)

lemma sk_bind_ok:
  assumes "owns others sk n"
  shows "\<exists>r sk1 n1. sk_bind addr sk n = Inr (r, sk1, n1) \<and> owns others sk1 n1 \<and> sk_family sk1 = sk_family sk
    \<and> (r \<longrightarrow> sk_fd sk1 \<noteq> -1 \<and> getFamily addr = sk_family sk)"
proof -
  obtain sk1 n1 where v: "valid_socket sk n = Inr (sk1, n1)" "owns others sk1 n1" "sk_family sk1 = sk_family sk"
    using valid_socket_ok [OF assms] by blast
  obtain f n2 where f: "sys_fault n1 = (f, n2)" by fastforce
  obtain a sk2 n3 where a: "getLocalAddress sk1 n2 = (a, sk2, n3)" by (metis prod_cases3)
  have fam: "sk_family sk2 = sk_family sk1" using a
    by (auto simp: getLocalAddress_def Let_def split: option.splits prod.splits if_splits)
  note g = getAddress_fields(1) [OF a] and s = sys_fault_same [OF f]
  have o2: "owns others sk1 n2" using owns_same [OF v(2), of n2 sk1] s v(2) by (auto simp: owns_def)
  have o3: "owns others sk2 n3" using owns_same [OF o2, of n3 sk2] g o2 by (auto simp: owns_def)
  show ?thesis
    using v f a fam o2 o3 g by (cases "sk_fd sk1 = -1 \<or> getFamily addr \<noteq> sk_family sk1"; cases f) (auto simp: sk_bind_def)
qed

lemma sk_connect_ok:
  assumes "owns others sk n"
  shows "\<exists>r sk1 n1. sk_connect epoll_ctl addr sk n = Inr (r, sk1, n1) \<and> owns others sk1 n1
    \<and> (r \<longrightarrow> sk_isConnectd sk1 \<and> sk_fd sk1 \<noteq> -1)"
proof -
  obtain sk1 n1 where v: "valid_socket sk n = Inr (sk1, n1)" "owns others sk1 n1" using valid_socket_ok [OF assms] by blast
  obtain f n2 where f: "sys_fault n1 = (f, n2)" by fastforce
  note s = sys_fault_same [OF f]
  have o2: "owns others sk1 n2" using owns_same [OF v(2), of n2 sk1] s v(2) by (auto simp: owns_def)
  obtain r sk' n' where c: "sk_close epoll_ctl sk1 n2 = Inr (r, sk', n')" "owns others sk' n'"
    using sk_close_ok [OF o2] by blast
  obtain a sk2 n3 where a: "getRemoteAddress (sk1\<lparr>sk_isConnectd := True\<rparr>) n2 = (a, sk2, n3)" by (metis prod_cases3)
  obtain b sk3 n4 where b: "getLocalAddress sk2 n3 = (b, sk3, n4)" by (metis prod_cases3)
  note g = getAddress_fields(2) [OF a] getAddress_fields(1) [OF b]
  have "owns others sk3 n4" if "sk_fd sk1 \<noteq> -1" using owns_same [OF o2, of n4 sk3] g that by auto
  then show ?thesis
    using v f a b c g by (cases "sk_fd sk1 = -1 \<or> getFamily addr \<noteq> sk_family sk1"; cases f) (auto simp: sk_connect_def)
qed

lemma setsockopt_timeout_ok:
  assumes wf: "wf_net n" and fd: "-1 \<le> fd"
  shows "\<exists>h. setsockopt_timeout fd opt sec usec (n_hook n) = Inr h \<and> wf_net (n\<lparr>n_hook := h\<rparr>)"
proof (cases "fd = -1")
  case True
  then show ?thesis using wf by (simp add: setsockopt_timeout_def with_ctx_def get_ctx_fd_def wf_net_def)
next
  case False
  then have fd: "0 \<le> fd" using assms by simp
  let ?h = "n_hook n"
  show ?thesis
  proof (cases "nat fd < length (hk_fds ?h) \<and> hk_fds ?h ! nat fd \<noteq> None")
    case True
    then obtain c where c: "hk_fds ?h ! nat fd = Some c" "nat fd < length (hk_fds ?h)" by auto
    let ?c = "setTimeout opt (word_of_int (sec * 1000 + usec div 1000)) c"
    have wff: "wf_fds (hk_fds ?h) (hk_kernel ?h)" and ctxs: "\<And>i. i < length (hk_fds ?h) \<Longrightarrow> hk_fds ?h ! i \<noteq> None
        \<Longrightarrow> int i \<in> set (n_open n)" using wf by (simp_all add: wf_net_def)
    have "slot_ok (hk_kernel ?h) (nat fd) (Some c)" using wff c by (auto simp: wf_fds_def)
    then have "slot_ok (hk_kernel ?h) (nat fd) (Some ?c)" using fd by (simp add: slot_ok_def setTimeout_def)
    then have "wf_fds (put_ctx fd ?c (hk_fds ?h)) (hk_kernel ?h)" unfolding put_ctx_def using wff by (intro wf_fds_put) auto
    moreover have "int i \<in> set (n_open n)" if "i < length (put_ctx fd ?c (hk_fds ?h))" "put_ctx fd ?c (hk_fds ?h) ! i \<noteq> None" for i
      using that ctxs [of i] c by (cases "i = nat fd") (auto simp: put_ctx_def)
    ultimately have "wf_net (n\<lparr>n_hook := ?h\<lparr>hk_fds := put_ctx fd ?c (hk_fds ?h)\<rparr>\<rparr>)" using wf by (auto simp: wf_net_def)
    then show ?thesis using wf c with_ctx_False [OF fd, of ?h] by (simp add: setsockopt_timeout_def wf_net_def)
  next
    case False
    then have "with_ctx fd False ?h = Inr (None, ?h)" using with_ctx_False [OF fd, of ?h] by auto
    then show ?thesis using wf by (simp add: setsockopt_timeout_def wf_net_def)
  qed
qed

lemma sk_setTimeout_ok:
  assumes "owns others sk n"
  shows "\<exists>n1. sk_setTimeout opt val sk n = Inr n1 \<and> owns others sk n1 \<and> n_open n1 = n_open n"
proof -
  have "-1 \<le> sk_fd sk" "wf_net n" using assms by (auto simp: owns_def split: if_splits)
  from setsockopt_timeout_ok [OF this(2,1), of opt "val sdiv 1000" "val smod 1000 * 1000"] obtain h where
    h: "setsockopt_timeout (sk_fd sk) opt (val sdiv 1000) (val smod 1000 * 1000) (n_hook n) = Inr h" "wf_net (n\<lparr>n_hook := h\<rparr>)"
    by blast
  let ?n = "snd (setOption (n\<lparr>n_hook := h\<rparr>))"
  have "wf_net ?n" using h(2) wf_net_same [of ?n "n\<lparr>n_hook := h\<rparr>"] by simp
  then show ?thesis using h(1) assms by (simp add: sk_setTimeout_def owns_def)
qed

text \<open>When no call fails.\<close>

lemma sys_fault_none: "n_faults n = [] \<Longrightarrow> sys_fault n = (False, n)"
  by (simp add: sys_fault_def)

lemma initSocket_none: "n_faults n = [] \<Longrightarrow> n_faults (initSocket sk n) = []"
  by (simp add: initSocket_def setOption_def sys_fault_none Let_def)

lemma sys_new_none: "n_faults n = [] \<Longrightarrow> sys_new n = (fd, n1) \<Longrightarrow> n_faults n1 = []"
  by (auto simp: sys_new_def sys_fault_none open_fd_def Let_def)

lemma sk_bind_none:
  assumes wf: "wf_net n" and nf: "n_faults n = []"
  shows "\<exists>sk n1. sk_bind x (CreateTCP x) n = Inr (True, sk, n1) \<and> n_faults n1 = [] \<and> sk_fd sk \<noteq> -1"
proof -
  obtain fd0 m where s: "sys_new n = (fd0, m)" by fastforce
  then have fd: "\<not> fd0 < 0" using sys_new_fails [of n] nf by (simp add: sys_fault_none)
  obtain c hk where hk: "with_ctx fd0 True (n_hook m) = Inr (Some c, hk)" "hk_enable (n_hook m)"
    using sys_new_hooked [OF wf s] fd by auto
  let ?sk = "(CreateTCP x)\<lparr>sk_fd := fd0\<rparr>"
  let ?n = "initSocket ?sk (m\<lparr>n_hook := hk\<rparr>)"
  have none: "n_faults ?n = []" using sys_new_none [OF nf s] by (intro initSocket_none) simp
  have new: "valid_socket (CreateTCP x) n = Inr (?sk, ?n)"
    using s hk fd by (simp add: valid_socket_def newSocket_def in_hook_def hook_socket_def Let_def) (simp add: CreateTCP_def new_Socket_def)
  have addr: "getLocalAddress ?sk ?n = (n_sockname ?n fd0, ?sk\<lparr>sk_localAddr := Some (n_sockname ?n fd0)\<rparr>, ?n)"
    using sys_fault_none [OF none] by (simp add: getLocalAddress_def CreateTCP_def new_Socket_def Let_def)
  have "sk_family ?sk = getFamily x" by (simp add: CreateTCP_def new_Socket_def)
  then have "sk_bind x (CreateTCP x) n = Inr (True, ?sk\<lparr>sk_localAddr := Some (n_sockname ?n fd0)\<rparr>, ?n)"
    using new fd addr sys_fault_none [OF none] by (simp add: sk_bind_def)
  then show ?thesis using none fd by (intro exI conjI) auto
qed

text \<open>The operations of a program on one socket.\<close>

datatype sock_op =
    Op_bind address | Op_connect address | Op_listen | Op_close | Op_timeout timeout_opt int | Op_local | Op_remote

definition sock_do :: "epoll \<Rightarrow> sock_op \<Rightarrow> socket \<times> net \<Rightarrow> (socket \<times> net) res" where
  "sock_do epoll_ctl op = (\<lambda>(sk, n).
     case op of
       Op_bind addr \<Rightarrow> bindE (sk_bind addr sk n) (\<lambda>(_, st). Inr st)
     | Op_connect addr \<Rightarrow> bindE (sk_connect epoll_ctl addr sk n) (\<lambda>(_, st). Inr st)
     | Op_listen \<Rightarrow> Inr (sk, snd (sk_listen sk n))
     | Op_close \<Rightarrow> bindE (sk_close epoll_ctl sk n) (\<lambda>(_, st). Inr st)
     | Op_timeout opt val \<Rightarrow> bindE (sk_setTimeout opt val sk n) (\<lambda>n1. Inr (sk, n1))
     | Op_local \<Rightarrow> Inr (snd (getLocalAddress sk n))
     | Op_remote \<Rightarrow> Inr (snd (getRemoteAddress sk n)))"

lemma sock_do_ok:
  assumes "owns others sk n"
  shows "\<exists>sk1 n1. sock_do epoll_ctl op (sk, n) = Inr (sk1, n1) \<and> owns others sk1 n1"
proof -
  have same: "owns others sk1 n1" if "n_open n1 = n_open n" "n_hook n1 = n_hook n" "sk_fd sk1 = sk_fd sk"
      "sk_isConnectd sk1 = sk_isConnectd sk" for sk1 n1
    using owns_same [OF assms that(1-3)] that(4) assms by (simp add: owns_def)
  show ?thesis
  proof (cases op)
    case Op_listen
    obtain f n1 where f: "sys_fault n = (f, n1)" by fastforce
    then show ?thesis using same [of n1 sk] assms sys_fault_same [OF f] Op_listen by (simp add: sock_do_def sk_listen_def)
  next
    case Op_local
    then show ?thesis using getAddress_fields(1) [of sk n] same
      by (cases "getLocalAddress sk n") (auto simp: sock_do_def)
  next
    case Op_remote
    then show ?thesis using getAddress_fields(2) [of sk n] same
      by (cases "getRemoteAddress sk n") (auto simp: sock_do_def)
  next
    case (Op_bind addr)
    then show ?thesis using sk_bind_ok [OF assms, of addr] by (auto simp: sock_do_def)
  next
    case (Op_connect addr)
    then show ?thesis using sk_connect_ok [OF assms, of epoll_ctl addr] by (auto simp: sock_do_def)
  next
    case Op_close
    then show ?thesis using sk_close_ok [OF assms, of epoll_ctl] by (auto simp: sock_do_def)
  next
    case (Op_timeout opt val)
    then show ?thesis using sk_setTimeout_ok [OF assms, of opt val] by (auto simp: sock_do_def)
  qed
qed

text \<open>
  C20: Whatever a program does with a socket, and whichever system calls fail, no operation runs into
  an error; the socket never has more than the one descriptor it opened, never touches a descriptor
  of anybody else, is connected only while it has one, and closing it leaves open exactly what was
  open before.
\<close>

theorem socket_owns_its_descriptor:
  assumes "wf_net n"
  shows "\<exists>sk1 n1 r sk2 n2. foldE (sock_do epoll_ctl) ops (new_Socket family type protocol, n) = Inr (sk1, n1)
    \<and> set (n_open n1) = (if sk_fd sk1 = -1 then {} else {sk_fd sk1}) \<union> set (n_open n)
    \<and> (sk_fd sk1 \<noteq> -1 \<longrightarrow> sk_fd sk1 \<notin> set (n_open n)) \<and> (sk_isConnectd sk1 \<longrightarrow> sk_fd sk1 \<noteq> -1)
    \<and> sk_close epoll_ctl sk1 n1 = Inr (r, sk2, n2) \<and> set (n_open n2) = set (n_open n) \<and> wf_net n2"
proof -
  let ?P = "\<lambda>(sk, m). owns (set (n_open n)) sk m"
  have start: "?P (new_Socket family type protocol, n)" using assms by (simp add: owns_def new_Socket_def)
  have step: "\<exists>s'. sock_do epoll_ctl op s = Inr s' \<and> ?P s'" if "?P s" for op s
    using sock_do_ok [of "set (n_open n)" "fst s" "snd s" epoll_ctl op] that by auto
  obtain s where "foldE (sock_do epoll_ctl) ops (new_Socket family type protocol, n) = Inr s" "?P s"
    using foldE_invariant [of ops ?P "sock_do epoll_ctl", OF step start] by blast
  moreover obtain sk1 n1 where "s = (sk1, n1)" by fastforce
  ultimately have run: "foldE (sock_do epoll_ctl) ops (new_Socket family type protocol, n) = Inr (sk1, n1)"
      "owns (set (n_open n)) sk1 n1" by simp_all
  then show ?thesis using sk_close_ok [OF run(2), of epoll_ctl] by (auto simp: owns_def)
qed

definition no_sockets :: net where
  "no_sockets = \<lparr>n_hook = one_socket\<lparr>hk_fds := FdManager\<rparr>, n_open = [0, 1, 2], n_faults = [True, False],
     n_sockname = (\<lambda>_. UnkonwAddress 0), n_peername = (\<lambda>_. UnkonwAddress 0)\<rparr>"

lemma no_sockets_wf: "wf_net no_sockets"
  using one_socket_ok waiting_io_wf
  by (simp add: no_sockets_def wf_net_def FdManager_def wf_fds_def) (simp add: one_socket_def)

definition any4 :: address where
  "any4 = IPv4Address \<lparr>sin_port = 0, sin_addr = 0\<rparr>"

theorem socket_owns_its_descriptor_witness:
  "\<exists>sk1 n1 r sk2 n2. foldE (sock_do (\<lambda>_ _ _. 0)) [Op_bind any4, Op_bind any4, Op_listen, Op_close, Op_connect any4]
      (new_Socket 2 1 0, no_sockets) = Inr (sk1, n1)
    \<and> set (n_open n1) = (if sk_fd sk1 = -1 then {} else {sk_fd sk1}) \<union> {0, 1, 2}
    \<and> (sk_fd sk1 \<noteq> -1 \<longrightarrow> sk_fd sk1 \<notin> {0, 1, 2}) \<and> (sk_isConnectd sk1 \<longrightarrow> sk_fd sk1 \<noteq> -1)
    \<and> sk_close (\<lambda>_ _ _. 0) sk1 n1 = Inr (r, sk2, n2) \<and> set (n_open n2) = {0, 1, 2} \<and> wf_net n2"
proof -
  have "set (n_open no_sockets) = {0, 1, 2}" by (simp add: no_sockets_def)
  then show ?thesis
    using socket_owns_its_descriptor [OF no_sockets_wf, of "\<lambda>_ _ _. 0"
        "[Op_bind any4, Op_bind any4, Op_listen, Op_close, Op_connect any4]" 2 1 0] by (simp only:)
qed

lemma timeout_stored:
  assumes "hk_enable (n_hook n)" and "open_socket (sk_fd sk) (n_hook n)" and "- (2 ^ 63) \<le> val" and "val < 2 ^ 63"
  shows "\<exists>n1. setRecvTimeout val sk n = Inr n1 \<and> getRecvTimeout sk n1 = Inr val \<and> getSendTimeout sk n1 = getSendTimeout sk n"
proof -
  let ?h = "n_hook n"
  obtain c where c: "hk_fds ?h ! nat (sk_fd sk) = Some c" "0 \<le> sk_fd sk" "nat (sk_fd sk) < length (hk_fds ?h)"
    by (rule open_socketE [OF assms(2)])
  have split: "val sdiv 1000 * 1000 + val smod 1000 * 1000 div 1000 = val"
    using sdiv_mult_smod_eq [of val 1000] by simp
  let ?c = "setTimeout SO_RCVTIMEO (word_of_int val) c"
  let ?h1 = "?h\<lparr>hk_fds := put_ctx (sk_fd sk) ?c (hk_fds ?h)\<rparr>"
  let ?n1 = "snd (setOption (n\<lparr>n_hook := ?h1\<rparr>))"
  have set: "setRecvTimeout val sk n = Inr ?n1"
    using c assms(1) split
    by (simp add: setRecvTimeout_def sk_setTimeout_def setsockopt_timeout_def with_ctx_open [OF c])
  have c1: "hk_fds ?h1 ! nat (sk_fd sk) = Some ?c" "nat (sk_fd sk) < length (hk_fds ?h1)"
    using c by (simp_all add: put_ctx_def)
  have "getRecvTimeout sk ?n1 = Inr (sint (m_recvTimeout ?c))" "getSendTimeout sk ?n1 = Inr (sint (m_sendTimeout ?c))"
    using get_ctx_open [OF c1(1) c(2) c1(2)]
    by (simp_all add: getRecvTimeout_def getSendTimeout_def sk_getTimeout_def getTimeout_def)
  moreover have "getSendTimeout sk n = Inr (sint (m_sendTimeout c))"
    using get_ctx_open [OF c] by (simp add: getSendTimeout_def sk_getTimeout_def getTimeout_def)
  moreover have "sint (word_of_int val :: 64 word) = val"
    using assms(3,4) by (simp add: sint_sbintrunc' signed_take_bit_int_eq_self)
  ultimately show ?thesis using set by (simp add: setTimeout_def)
qed

text \<open>
  A timeout that is set on a socket with a context is read back unchanged, for every value of 64
  bits, whether or not the system call succeeds; and the other timeout keeps its value.
\<close>

theorem timeouts_read_back:
  assumes "hk_enable (n_hook n)" and "open_socket (sk_fd sk) (n_hook n)" and "- (2 ^ 63) \<le> val" and "val < 2 ^ 63"
  shows "\<exists>n1. setRecvTimeout val sk n = Inr n1 \<and> getRecvTimeout sk n1 = Inr val \<and> getSendTimeout sk n1 = getSendTimeout sk n"
  using assms by (rule timeout_stored)

theorem timeouts_read_back_witness:
  "\<exists>n1. setRecvTimeout (-1500) (new_Socket 2 1 0\<lparr>sk_fd := 0\<rparr>) (no_sockets\<lparr>n_hook := one_socket\<rparr>) = Inr n1
    \<and> getRecvTimeout (new_Socket 2 1 0\<lparr>sk_fd := 0\<rparr>) n1 = Inr (-1500)"
  using timeouts_read_back [of "no_sockets\<lparr>n_hook := one_socket\<rparr>" "new_Socket 2 1 0\<lparr>sk_fd := 0\<rparr>" "-1500"] one_socket_ok
  by auto

text \<open>
  Receiving with an address takes the length of the address for the length of the buffer: a
  longer message is cut to it whatever the buffer holds, and a smaller buffer is overrun.
\<close>

theorem recvFrom_takes_address_length:
  assumes "sk_isConnectd sk" and "getAddrLen a < length data"
  shows "sk_recvFrom len a data sk = (if getAddrLen a > len then Inl Out_of_bounds else Inr (Some (take (getAddrLen a) data)))
    \<and> sk_recv len data sk = Some (take len data)"
  using assms by (simp add: sk_recvFrom_def sk_recv_def)

theorem recvFrom_takes_address_length_witness:
  "sk_recvFrom 1024 any4 [1..<101] (new_Socket 2 2 0\<lparr>sk_isConnectd := True\<rparr>) = Inr (Some [1..<17])
   \<and> sk_recvFrom 8 any4 [1..<101] (new_Socket 2 2 0\<lparr>sk_isConnectd := True\<rparr>) = Inl Out_of_bounds"
  using recvFrom_takes_address_length [of "new_Socket 2 2 0\<lparr>sk_isConnectd := True\<rparr>" any4 "[1..<101]" 1024]
    recvFrom_takes_address_length [of "new_Socket 2 2 0\<lparr>sk_isConnectd := True\<rparr>" any4 "[1..<101]" 8]
  by (simp add: any4_def take_upt)

end
