(* ===== verification/Interfaces.thy ===== *)
theory Interfaces
  imports Sockets Strings
begin

text \<open>
  The rest of \<open>address.cpp\<close>: addresses made from structures and from texts, their printing and their
  order, and the addresses of the network interfaces. \<open>getifaddrs\<close> is a parameter: the list it gives,
  or its failure; \<open>inet_pton\<close> is written out for the one family the code asks it for.
\<close>

section \<open>Addresses from structures\<close>

text \<open>A \<open>sockaddr\<close> is what the family of its header says it is.\<close>

datatype sockaddr =
    Sockaddr_in ipv4
  | Sockaddr_in6 ipv6
  | Sockaddr_un "byte list"
  | Sockaddr_family nat

fun sa_family :: "sockaddr \<Rightarrow> int" where
  "sa_family (Sockaddr_in a) = 2"
| "sa_family (Sockaddr_in6 a) = 10"
| "sa_family (Sockaddr_un p) = 1"
| "sa_family (Sockaddr_family f) = int f"

text \<open>
  The constructor of a Unix address from a structure leaves the length as it was in memory
  (\<open>junk_len\<close>).
\<close>

definition CreateFromText :: "nat \<Rightarrow> sockaddr option \<Rightarrow> address option" where
  "CreateFromText junk_len sockaddr =
     (case sockaddr of
        None \<Rightarrow> None
      | Some (Sockaddr_in a) \<Rightarrow> Some (IPv4Address a)
      | Some (Sockaddr_in6 a) \<Rightarrow> Some (IPv6Address a)
      | Some (Sockaddr_un p) \<Rightarrow> Some (UnixAddress p junk_len)
      | Some (Sockaddr_family f) \<Rightarrow> Some (UnkonwAddress f))"

definition IPv6_any :: ipv6 where
  "IPv6_any = \<lparr>sin6_port = 0, s6_addr = replicate 16 0\<rparr>"

definition UnixAddress_any :: "byte list \<times> nat" where
  "UnixAddress_any = (replicate 108 0, 2 + 107)"

section \<open>Addresses from texts\<close>

text \<open>\<open>inet_pton\<close> for \<open>AF_INET\<close>: four decimal numbers up to 255 without leading zeros, with dots between them.\<close>

fun split_at :: "char \<Rightarrow> string \<Rightarrow> string list" where
  "split_at d [] = [[]]"
| "split_at d (c # cs) =
     (if c = d then [] # split_at d cs else (case split_at d cs of p # ps \<Rightarrow> (c # p) # ps | [] \<Rightarrow> [[c]]))"

definition dec_value :: "string \<Rightarrow> nat" where
  "dec_value s = foldl (\<lambda>n c. 10 * n + (of_char c - 48)) 0 s"

definition octet :: "string \<Rightarrow> byte option" where
  "octet s =
     (if s \<noteq> [] \<and> list_all (\<lambda>c. 48 \<le> (of_char c :: nat) \<and> (of_char c :: nat) \<le> 57) s \<and> (hd s = CHR ''0'' \<longrightarrow> length s = 1)
         \<and> length s \<le> 3 \<and> dec_value s \<le> 255
      then Some (word_of_nat (dec_value s)) else None)"

definition inet_pton4 :: "string \<Rightarrow> byte list option" where
  "inet_pton4 s =
     (case map octet (split_at (CHR ''.'') (c_str s)) of
        [Some a, Some b, Some c, Some d] \<Rightarrow> Some [a, b, c, d]
      | _ \<Rightarrow> None)"

text \<open>The four bytes are in the order of the network; as a number of the machine the first one is the lowest.\<close>

definition IPv4_CreateFromText :: "string \<Rightarrow> 16 word \<Rightarrow> ipv4 option" where
  "IPv4_CreateFromText addr port =
     (case inet_pton4 addr of
        None \<Rightarrow> None
      | Some bs \<Rightarrow> Some ((IPv4 0 0)\<lparr>sin_port := byteswapOnSmallEndian port, sin_addr := of_bytes bs\<rparr>))"

text \<open>The same call with the same family: the four bytes go to the front of the sixteen.\<close>

definition IPv6_CreateFromText :: "string \<Rightarrow> 16 word \<Rightarrow> ipv6 option" where
  "IPv6_CreateFromText addr port =
     (case inet_pton4 addr of
        None \<Rightarrow> None
      | Some bs \<Rightarrow> Some (IPv6_any\<lparr>sin6_port := byteswapOnSmallEndian port, s6_addr := bs @ drop 4 (s6_addr IPv6_any)\<rparr>))"

definition IPAddress_CreateFromText :: "resolver \<Rightarrow> string \<Rightarrow> 16 word \<Rightarrow> address option res" where
  "IPAddress_CreateFromText getaddrinfo address port =
     (case getaddrinfo address None 0 0 0 of
        None \<Rightarrow> Inr None
      | Some [] \<Rightarrow> Inl Null_deref
      | Some (IPv4Address a # _) \<Rightarrow> Inr (Some (IPv4Address (setPort4 port a)))
      | Some (IPv6Address a # _) \<Rightarrow> Inr (Some (IPv6Address (setPort6 port a)))
      | Some (_ # _) \<Rightarrow> Inr None)"

section \<open>Printing and comparing\<close>

fun insert_address :: "address \<Rightarrow> string" where
  "insert_address (IPv4Address a) = insert4 a"
| "insert_address (IPv6Address a) = insert6 a"
| "insert_address (UnixAddress p n) = map (\<lambda>b. char_of (unat b)) (insert_unix (p, n))"
| "insert_address (UnkonwAddress f) = ''[UnkonwAdress family='' @ dec_digits f @ '']''"

definition addr_neq :: "byte list \<Rightarrow> byte list \<Rightarrow> bool" where
  "addr_neq a b \<longleftrightarrow> \<not> addr_eq a b"

section \<open>Interfaces\<close>

text \<open>A node of the list; both pointers may be null.\<close>

record ifaddr =
  ifa_name :: string
  ifa_addr :: "sockaddr option"
  ifa_netmask :: "sockaddr option"

type_synonym prefixed = "address \<times> 32 word"

text \<open>Inserting into a \<open>multimap\<close> puts a value behind those of the same key.\<close>

fun multi_insert :: "string \<Rightarrow> 'v \<Rightarrow> (string \<times> 'v) list \<Rightarrow> (string \<times> 'v) list" where
  "multi_insert k v [] = [(k, v)]"
| "multi_insert k v ((k', v') # m) = (if k < k' then (k, v) # (k', v') # m else (k', v') # multi_insert k v m)"

definition equal_range :: "string \<Rightarrow> (string \<times> 'v) list \<Rightarrow> 'v list" where
  "equal_range k m = map snd (takeWhile (\<lambda>(k', _). k' = k) (dropWhile (\<lambda>(k', _). k' < k) m))"

text \<open>
  One node: the family is looked at first, through a pointer that may be null. The mask is read as the
  structure of the family of the address; a mask of another family is not modelled further.
\<close>

definition interface_step :: "int \<Rightarrow> ifaddr \<Rightarrow> (string \<times> prefixed) list \<Rightarrow> (string \<times> prefixed) list res" where
  "interface_step family node m =
     (case ifa_addr node of
        None \<Rightarrow> Inl Null_deref
      | Some sa \<Rightarrow>
          if family \<noteq> 0 \<and> family \<noteq> sa_family sa then Inr m
          else case sa of
            Sockaddr_in a \<Rightarrow>
              (case ifa_netmask node of
                 None \<Rightarrow> Inl Null_deref
               | Some (Sockaddr_in nm) \<Rightarrow> Inr (multi_insert (ifa_name node) (IPv4Address a, word_of_nat (CountBytes (sin_addr nm))) m)
               | Some _ \<Rightarrow> Inl Undefined)
          | Sockaddr_in6 a \<Rightarrow>
              (case ifa_netmask node of
                 None \<Rightarrow> Inl Null_deref
               | Some (Sockaddr_in6 nm) \<Rightarrow> Inr (multi_insert (ifa_name node) (IPv6Address a, word_of_nat (prefix_length6 (s6_addr nm))) m)
               | Some _ \<Rightarrow> Inl Undefined)
          | _ \<Rightarrow> Inr m)"

text \<open>When the list cannot be had, a pointer that was never set is freed.\<close>

definition GetInertfaceAddresses_all ::
  "ifaddr list option \<Rightarrow> int \<Rightarrow> (string \<times> prefixed) list \<Rightarrow> (bool \<times> (string \<times> prefixed) list) res" where
  "GetInertfaceAddresses_all getifaddrs family result =
     (case getifaddrs of
        None \<Rightarrow> Inl Undefined
      | Some nodes \<Rightarrow> bindE (foldE (interface_step family) nodes result) (\<lambda>m. Inr (True, m)))"

definition GetInertfaceAddresses ::
  "ifaddr list option \<Rightarrow> int \<Rightarrow> string \<Rightarrow> prefixed list \<Rightarrow> (bool \<times> prefixed list) res" where
  "GetInertfaceAddresses getifaddrs family iface result =
     (if iface = [] \<or> iface = ''*'' then
        Inr (True, result
          @ (if family = 2 \<or> family = 0 then [(IPv4Address (IPv4 0 0), 0)] else [])
          @ (if family = 10 \<or> family = 0 then [(IPv6Address IPv6_any, 0)] else []))
      else bindE (GetInertfaceAddresses_all getifaddrs family []) (\<lambda>(ok, results).
        if \<not> ok then Inr (False, result) else Inr (True, result @ equal_range iface results)))"

subsection \<open>What is listed\<close>

lemma count_bits_list: "map CountBytes bs = map (\<lambda>b. card {i. bit b i}) bs"
  by (simp add: count_bits)

lemma multi_insert_sorted:
  "sorted (map fst m) \<Longrightarrow> sorted (map fst (multi_insert k v m)) \<and> set (map fst (multi_insert k v m)) = insert k (set (map fst m))"
  by (induction k v m rule: multi_insert.induct) (auto simp: less_imp_le intro: order.trans)

lemma equal_range_filter:
  "sorted (map fst m) \<Longrightarrow> equal_range k m = map snd (filter (\<lambda>(k', _). k' = k) m)"
proof (induction m)
  case (Cons kv m)
  obtain k' v where kv: "kv = (k', v)" by (cases kv)
  have m: "sorted (map fst m)" "\<forall>x \<in> fst ` set m. k' \<le> x" using Cons.prems by (auto simp: kv)
  consider "k' < k" | "k' = k" | "k < k'" by fastforce
  then show ?case
  proof cases
    case 2
    have "dropWhile (\<lambda>(k', _). k' < k) m = m" using m(2) 2 by (cases m) auto
    then show ?thesis using Cons.IH [OF m(1)] 2 by (simp add: kv equal_range_def)
  next
    case 3
    then have "filter (\<lambda>(k', _). k' = k) m = []" using m(2) by (force simp: filter_empty_conv)
    moreover have "\<not> k' < k" "k' \<noteq> k" using 3 by auto
    ultimately show ?thesis by (simp add: kv equal_range_def)
  qed (use Cons.IH [OF m(1)] in \<open>auto simp: kv equal_range_def\<close>)
qed (simp add: equal_range_def)

lemma multi_insert_filter:
  "sorted (map fst m) \<Longrightarrow> filter (\<lambda>(k', _). k' = q) (multi_insert k v m)
     = filter (\<lambda>(k', _). k' = q) m @ (if k = q then [(k, v)] else [])"
proof (induction k v m rule: multi_insert.induct)
  case (2 k v k' v' m)
  show ?case
  proof (cases "k < k'")
    case True
    then have "filter (\<lambda>(k', _). k' = k) ((k', v') # m) = []" using 2(2) by (force simp: filter_empty_conv)
    then show ?thesis using True by auto
  next
    case False
    then show ?thesis using 2 by auto
  qed
qed auto

text \<open>The address and the prefix of a node, when it is one of an IP family with a mask of that family.\<close>

definition prefix_of :: "ifaddr \<Rightarrow> prefixed option" where
  "prefix_of node =
     (case (ifa_addr node, ifa_netmask node) of
        (Some (Sockaddr_in a), Some (Sockaddr_in nm)) \<Rightarrow> Some (IPv4Address a, word_of_nat (card {i. bit (sin_addr nm) i}))
      | (Some (Sockaddr_in6 a), Some (Sockaddr_in6 nm)) \<Rightarrow>
          Some (IPv6Address a, word_of_nat (sum_list (map (\<lambda>b. card {i. bit b i}) (take 16 (s6_addr nm)))))
      | _ \<Rightarrow> None)"

definition sound_node :: "ifaddr \<Rightarrow> bool" where
  "sound_node node \<longleftrightarrow> (\<exists>sa. ifa_addr node = Some sa \<and> (sa_family sa \<in> {2, 10} \<longrightarrow> prefix_of node \<noteq> None))"

definition of_family :: "int \<Rightarrow> ifaddr \<Rightarrow> bool" where
  "of_family family node \<longleftrightarrow> family = 0 \<or> (\<exists>sa. ifa_addr node = Some sa \<and> sa_family sa = family)"

lemma interface_step_sound:
  assumes "sound_node node"
  shows "interface_step family node m =
    Inr (case prefix_of node of Some p \<Rightarrow> if of_family family node then multi_insert (ifa_name node) p m else m | None \<Rightarrow> m)"
  using assms
  by (auto simp: interface_step_def sound_node_def prefix_of_def of_family_def prefix_length6_def count_bits_list count_bits
      split: sockaddr.splits option.splits)

lemma interfaces_listed:
  assumes "list_all sound_node nodes" and "sorted (map fst m)"
  shows "\<exists>m'. foldE (interface_step family) nodes m = Inr m' \<and> sorted (map fst m')
    \<and> filter (\<lambda>(k, _). k = iface) m' = filter (\<lambda>(k, _). k = iface) m
        @ map (Pair iface) (List.map_filter (\<lambda>node. if ifa_name node = iface \<and> of_family family node then prefix_of node else None) nodes)"
  using assms
proof (induction nodes arbitrary: m)
  case (Cons node nodes)
  let ?m = "case prefix_of node of Some p \<Rightarrow> if of_family family node then multi_insert (ifa_name node) p m else m | None \<Rightarrow> m"
  have s: "sorted (map fst ?m)" using multi_insert_sorted [OF Cons.prems(2)] Cons.prems(2) by (simp split: option.split)
  have "list_all sound_node nodes" using Cons.prems(1) by simp
  from Cons.IH [OF this s] obtain m' where m': "foldE (interface_step family) nodes ?m = Inr m'" "sorted (map fst m')"
    "filter (\<lambda>(k, _). k = iface) m' = filter (\<lambda>(k, _). k = iface) ?m
        @ map (Pair iface) (List.map_filter (\<lambda>node. if ifa_name node = iface \<and> of_family family node then prefix_of node else None) nodes)"
    by blast
  have "filter (\<lambda>(k, _). k = iface) ?m = filter (\<lambda>(k, _). k = iface) m
      @ (case if ifa_name node = iface \<and> of_family family node then prefix_of node else None of None \<Rightarrow> [] | Some p \<Rightarrow> [(iface, p)])"
    using multi_insert_filter [OF Cons.prems(2)] by (auto split: option.split)
  then show ?case using m' interface_step_sound [of node family m] Cons.prems(1)
    by (auto simp: List.map_filter_def split: option.split)
qed (simp add: List.map_filter_def)

text \<open>
  C35: The addresses of a named interface are those the system lists for it, in that order, of the family asked for
  and with the number of ones of their masks as the length of the prefix, behind what the result had before.
  A node without an address, which the system may list, makes the program follow a null pointer.
\<close>

theorem interface_addresses:
  assumes "list_all sound_node nodes" and "iface \<noteq> []" and "iface \<noteq> ''*''"
  shows "GetInertfaceAddresses (Some nodes) family iface result = Inr (True, result
      @ List.map_filter (\<lambda>node. if ifa_name node = iface \<and> of_family family node then prefix_of node else None) nodes)
    \<and> (ifa_addr node = None \<longrightarrow> GetInertfaceAddresses (Some (nodes @ node # nodes')) family iface result = Inl Null_deref)"
proof
  obtain m where m: "foldE (interface_step family) nodes [] = Inr m" "sorted (map fst m)"
    "filter (\<lambda>(k, _). k = iface) m =
        map (Pair iface) (List.map_filter (\<lambda>node. if ifa_name node = iface \<and> of_family family node then prefix_of node else None) nodes)"
    using interfaces_listed [OF assms(1), of "[]" family iface] by auto
  then show "GetInertfaceAddresses (Some nodes) family iface result = Inr (True, result
      @ List.map_filter (\<lambda>node. if ifa_name node = iface \<and> of_family family node then prefix_of node else None) nodes)"
    using assms(2,3) equal_range_filter [OF m(2), of iface] by (simp add: GetInertfaceAddresses_def GetInertfaceAddresses_all_def comp_def)
  show "ifa_addr node = None \<longrightarrow> GetInertfaceAddresses (Some (nodes @ node # nodes')) family iface result = Inl Null_deref"
    using m(1) assms(2,3) by (simp add: GetInertfaceAddresses_def GetInertfaceAddresses_all_def foldE_append interface_step_def)
qed

definition loopback :: ifaddr where
  "loopback = \<lparr>ifa_name = ''lo'', ifa_addr = Some (Sockaddr_in (IPv4 0x7F000001 0)), ifa_netmask = Some (Sockaddr_in (IPv4 0xFF000000 0))\<rparr>"

theorem interface_addresses_witness:
  "GetInertfaceAddresses (Some [loopback]) 2 ''lo'' [] = Inr (True, [(IPv4Address (IPv4 0x7F000001 0), 8)])
   \<and> GetInertfaceAddresses (Some ([loopback] @ \<lparr>ifa_name = ''tun'', ifa_addr = None, ifa_netmask = None\<rparr> # [])) 2 ''lo'' [] = Inl Null_deref"
proof -
  have "CountBytes (sin_addr (IPv4 0xFF000000 0)) = 8" by code_simp
  then have "prefix_of loopback = Some (IPv4Address (IPv4 0x7F000001 0), 8)" by (simp add: prefix_of_def loopback_def count_bits)
  then show ?thesis
    using interface_addresses [of "[loopback]" "''lo''" 2 "[]" "\<lparr>ifa_name = ''tun'', ifa_addr = None, ifa_netmask = None\<rparr>" "[]"]
    by (simp add: sound_node_def of_family_def List.map_filter_def loopback_def)
qed

section \<open>Texts\<close>

text \<open>The part of a printed IPv4 address in front of the colon.\<close>

lemma split_at_other: "d \<notin> set xs \<Longrightarrow> split_at d xs = [xs]"
  by (induction xs) auto

lemma split_at_append: "d \<notin> set xs \<Longrightarrow> split_at d (xs @ d # ys) = xs # split_at d ys"
  by (induction xs) auto

lemma dec_value_digits: "dec_value (dec_digits n) = n"
proof (induction n rule: dec_digits.induct)
  case (1 n)
  have d: "(of_char (char_of (48 + d) :: char) :: nat) = 48 + d" if "d < 10" for d :: nat
    using that by simp
  show ?case
  proof (cases "n < 10")
    case False
    have "dec_value (dec_digits n) = 10 * dec_value (dec_digits (n div 10)) + n mod 10"
      using False d [of "n mod 10"] by (subst dec_digits.simps) (simp add: dec_value_def)
    then show ?thesis using 1 [OF False] by simp
  qed (use d [of n] in \<open>subst dec_digits.simps, simp add: dec_value_def\<close>)
qed

lemma dec_digits_lead: "n \<noteq> 0 \<Longrightarrow> hd (dec_digits n) \<noteq> CHR ''0''"
proof (induction n rule: dec_digits.induct)
  case (1 n)
  show ?case
  proof (cases "n < 10")
    case True
    then have "(of_char (char_of (48 + n) :: char) :: nat) = 48 + n" by simp
    moreover have "(of_char (CHR ''0'') :: nat) = 48" by simp
    ultimately have "(char_of (48 + n) :: char) \<noteq> CHR ''0''" using 1(2) by (metis add_cancel_left_right)
    then show ?thesis using True by (subst dec_digits.simps) simp
  next
    case False
    moreover have "dec_digits (n div 10) \<noteq> []" by (subst dec_digits.simps) simp
    ultimately show ?thesis using 1(1) [OF False] by (subst dec_digits.simps) simp
  qed
qed

lemma octet_digits:
  assumes "n < 256"
  shows "octet (dec_digits n) = Some (word_of_nat n)"
proof -
  have "length (dec_digits n) \<le> 3"
    using assms by (simp add: dec_digits.simps [of n] dec_digits.simps [of "n div 10"] dec_digits.simps [of "n div 10 div 10"])
  moreover have "dec_digits n \<noteq> []" "n = 0 \<longrightarrow> length (dec_digits n) = 1" by (subst dec_digits.simps, simp)+
  ultimately show ?thesis
    using assms dec_digits_range [of _ n] dec_digits_lead [of n] unfolding octet_def dec_value_digits by (auto simp: list_all_iff)
qed

lemma dotless: "n < 256 \<Longrightarrow> CHR ''.'' \<notin> set (dec_digits n) \<and> CHR 0x00 \<notin> set (dec_digits n) \<and> CHR '':'' \<notin> set (dec_digits n)"
  using dec_digits_range by fastforce

lemma inet_pton4_digits:
  assumes "a < 256" and "b < 256" and "c < 256" and "d < 256"
  shows "inet_pton4 (dec_digits a @ ''.'' @ dec_digits b @ ''.'' @ dec_digits c @ ''.'' @ dec_digits d)
    = Some [word_of_nat a, word_of_nat b, word_of_nat c, word_of_nat d]"
  using assms by (simp add: inet_pton4_def dotless split_at_append split_at_other octet_digits)

lemma host_octets:
  "sin_addr a = of_bytes (map (\<lambda>n. word_of_nat (unat (drop_bit n (host_order a) AND 0xFF))) [24, 16, 8, 0])"
proof -
  have "(word_of_nat (unat (w AND 0xFF :: 32 word)) :: byte) = ucast w" for w :: "32 word"
  proof -
    have ones: "(0xFF :: 32 word) = mask 8" by (simp add: mask_eq_exp_minus_1)
    show ?thesis unfolding ones by (intro bit_word_eqI) (auto simp: bit_simps)
  qed
  moreover have "rev (bytes_of 4 w) = map (\<lambda>n. ucast (drop_bit n w)) [24, 16, 8, 0]" for w :: "32 word"
    by (simp add: bytes_of_def upt_rec)
  ultimately show ?thesis
    using swap32(1) [of "sin_addr a"] by (simp add: host_order_def byteswapOnSmallEndian_def KIT_BYTE_ORDER_def byteswap_def)
qed



section \<open>The order of addresses\<close>

lemma memcmp_prefix:
  "n \<le> length a \<Longrightarrow> n \<le> length b \<Longrightarrow>
   memcmp a b n = (if take n a = take n b then 0 else if take n a < take n b then -1 else 1)"
proof (induction a b n rule: memcmp.induct)
  case (1 a as b bs n)
  then show ?case by (cases a b rule: linorder_cases) auto
qed auto

text \<open>
  The comparison of addresses is the lexicographic order of their bytes, so it is a strict linear order, and
  two addresses are equal in its sense exactly when the operator for equality says so.
\<close>

theorem addresses_are_ordered:
  "addr_less a b = (a < b) \<and> addr_eq a b = (a = b) \<and> addr_neq a b = (a \<noteq> b)
   \<and> (\<not> addr_less a b \<and> \<not> addr_less b a \<longleftrightarrow> addr_eq a b)"
proof -
  have less: "addr_less a b = (a < b)" for a b :: "byte list"
  proof -
    let ?n = "min (length a) (length b)"
    have m: "memcmp a b ?n = (if take ?n a = take ?n b then 0 else if take ?n a < take ?n b then -1 else 1)"
      by (rule memcmp_prefix) simp_all
    have "a < b \<longleftrightarrow> (if take ?n a = take ?n b then length a < length b else take ?n a < take ?n b)"
    proof (induction a arbitrary: b)
      case (Cons x a)
      then show ?case by (cases b) auto
    qed (auto simp: less_le)
    then show ?thesis unfolding addr_less_def m Let_def by auto
  qed
  have eq: "addr_eq a b = (a = b)"
    unfolding addr_eq_def using memcmp_prefix [of "length a" a b] by (auto split: if_splits)
  show ?thesis using less [of a b] less [of b a] eq by (auto simp: addr_neq_def)
qed

end
