(* ===== verification/Settings.thy ===== *)
theory Settings
  imports Config Hook
begin

text \<open>
  The settings that a component copies out of the configuration: \<open>_RequestSizeIniter\<close> of
  \<open>http/http_parser.cpp\<close> and \<open>_HookIniter\<close> of \<open>hook.cpp\<close> look their variables up before \<open>main\<close>, copy the
  values into static variables, and add listeners that keep the copies. The static variables are a
  function from \<open>setting\<close>; the variables are those with integers as values.
\<close>

datatype setting = Request_buffer | Request_max_body | Response_buffer | Response_max_body | Connect_timeout

type_synonym settings = "setting \<Rightarrow> 64 word"

fun setting_name :: "setting \<Rightarrow> string" where
  "setting_name Request_buffer = ''http.request.buffer_size''"
| "setting_name Request_max_body = ''http.request.max_body_size''"
| "setting_name Response_buffer = ''http.response.buffer_size''"
| "setting_name Response_max_body = ''http.response.max_body_size''"
| "setting_name Connect_timeout = ''tcp.connect.timeout''"

fun setting_default :: "setting \<Rightarrow> int" where
  "setting_default Request_buffer = 4 * 1024"
| "setting_default Request_max_body = 64 * 1024 * 1024"
| "setting_default Response_buffer = 4 * 1024"
| "setting_default Response_max_body = 64 * 1024 * 1024"
| "setting_default Connect_timeout = 5000"

fun setting_type :: "setting \<Rightarrow> string" where
  "setting_type Connect_timeout = ''int''"
| "setting_type _ = ''uint64_t''"

definition http_settings :: "setting list" where
  "http_settings = [Request_buffer, Request_max_body, Response_buffer, Response_max_body]"

definition http_listeners :: "setting list" where
  "http_listeners = [Request_buffer, Response_max_body, Response_buffer, Request_max_body]"

type_synonym configured = "(int, settings) registry \<times> settings"

text \<open>Looking a variable up; a variable of that name and another type is a null pointer.\<close>

definition look_up_setting :: "setting \<Rightarrow> configured \<Rightarrow> configured res" where
  "look_up_setting k st =
     bindE (Config_LookUp (setting_type k) (setting_name k) (setting_default k) [] (fst st)) (\<lambda>(v, reg).
       case v of None \<Rightarrow> Inl Null_deref | Some _ \<Rightarrow> Inr (reg, snd st))"

definition copy_setting :: "setting \<Rightarrow> configured \<Rightarrow> configured res" where
  "copy_setting k st =
     (case fst st (setting_name k) of
        None \<Rightarrow> Inl Null_deref
      | Some cv \<Rightarrow> Inr (fst st, (snd st)(k := word_of_int (cv_val cv))))"

definition setting_listener :: "setting \<Rightarrow> int \<Rightarrow> int \<Rightarrow> settings \<Rightarrow> settings" where
  "setting_listener k old_value new_value s = s(k := word_of_int new_value)"

text \<open>The number of the listener comes from a counter; the first component is the counter.\<close>

definition follow_setting :: "setting \<Rightarrow> nat \<times> configured \<Rightarrow> (nat \<times> configured) res" where
  "follow_setting k st =
     (case fst (snd st) (setting_name k) of
        None \<Rightarrow> Inl Null_deref
      | Some cv \<Rightarrow>
          let (i, _, cv') = addListener (setting_listener k) (fst st) cv in
          Inr (i, (fst (snd st))(setting_name k \<mapsto> cv'), snd (snd st)))"

definition RequestSizeIniter :: "nat \<Rightarrow> configured \<Rightarrow> (nat \<times> configured) res" where
  "RequestSizeIniter i st =
     bindE (foldE look_up_setting http_settings st) (\<lambda>st1.
     bindE (foldE copy_setting http_settings st1) (\<lambda>st2.
       foldE follow_setting http_listeners (i, st2)))"

definition HookIniter :: "nat \<Rightarrow> configured \<Rightarrow> (nat \<times> configured) res" where
  "HookIniter i st =
     bindE (look_up_setting Connect_timeout st) (\<lambda>st1.
     bindE (copy_setting Connect_timeout st1) (\<lambda>st2.
       follow_setting Connect_timeout (i, st2)))"

text \<open>Before \<open>main\<close>: both, over statics of zero and, for the timeout, of -1.\<close>

definition before_main :: "(nat \<times> configured) res" where
  "before_main =
     bindE (RequestSizeIniter 0 (Map.empty, (\<lambda>_. 0)(Connect_timeout := -1))) (\<lambda>(_, st). HookIniter 0 st)"

definition GetHttpRequestBufferSize :: "settings \<Rightarrow> 64 word" where
  "GetHttpRequestBufferSize s = s Request_buffer"

definition GetHttpResponseBufferSize :: "settings \<Rightarrow> 64 word" where
  "GetHttpResponseBufferSize s = s Response_buffer"

definition GetHttpMaxBodySize :: "bool \<Rightarrow> settings \<Rightarrow> 64 word" where
  "GetHttpMaxBodySize of_request s = s (if of_request then Request_max_body else Response_max_body)"

text \<open>\<open>connect\<close> waits with the setting as its timeout.\<close>

definition hook_connect_attempt ::
  "settings \<Rightarrow> epoll \<Rightarrow> ms \<Rightarrow> addr \<Rightarrow> int \<Rightarrow> nat \<Rightarrow> int \<times> int \<Rightarrow> hook \<Rightarrow> (connect_pc \<times> hook) res" where
  "hook_connect_attempt s epoll_ctl now p sockfd ti r h =
     connect_attempt epoll_ctl now p sockfd (s Connect_timeout) ti r h"

section \<open>The copies follow the configuration\<close>

text \<open>Every setting has one listener, its own, and its copy; no other variable listens.\<close>

definition followed :: "configured \<Rightarrow> bool" where
  "followed st \<longleftrightarrow>
     (\<forall>k. \<exists>cv i. fst st (setting_name k) = Some cv \<and> cv_cbs cv = [(i, setting_listener k)] \<and> snd st k = word_of_int (cv_val cv))
     \<and> (\<forall>name cv. fst st name = Some cv \<longrightarrow> name \<notin> range setting_name \<longrightarrow> cv_cbs cv = [])"

lemma setting_name_inj: "setting_name j = setting_name k \<longleftrightarrow> j = k"
  by (cases j; cases k) simp_all

lemma load_entry_followed:
  assumes "followed st"
  shows "followed (load_entry emit from_str e st)"
proof (cases "fst e = [] \<or> fst st (lower_case (fst e)) = None")
  case True
  then show ?thesis using assms by (cases e; cases st) (auto simp: load_entry_def LookUpBase_def Let_def split: option.split)
next
  case False
  obtain reg s where st: "st = (reg, s)" by (cases st)
  let ?key = "lower_case (fst e)" and ?t = "case snd e of Y_scalar t \<Rightarrow> t | _ \<Rightarrow> emit (snd e)"
  obtain cv where cv: "reg ?key = Some cv" using False st by auto
  obtain b cv' s' where read: "fromString from_str ?t cv s = (b, cv', s')" by (cases "fromString from_str ?t cv s")
  then have new: "load_entry emit from_str e st = (reg(?key \<mapsto> cv'), s')" using False cv
    by (simp add: st load_entry_def LookUpBase_def Let_def split_def)
  have same: "(cv', s') = (cv, s) \<or> (\<exists>val. (cv', s') = setValue val cv s)"
    using read by (auto simp: fromString_def split: option.splits prod.splits) metis+
  have regs: "\<And>k. \<exists>cv i. reg (setting_name k) = Some cv \<and> cv_cbs cv = [(i, setting_listener k)] \<and> s k = word_of_int (cv_val cv)"
    "\<And>name cv. reg name = Some cv \<Longrightarrow> name \<notin> range setting_name \<Longrightarrow> cv_cbs cv = []"
    using assms by (auto simp: followed_def st)
  show ?thesis
  proof (cases "?key \<in> range setting_name")
    case True
    then obtain k where key: "?key = setting_name k" by blast
    obtain i where k: "?key = setting_name k" "cv_cbs cv = [(i, setting_listener k)]" "s k = word_of_int (cv_val cv)"
      using regs(1) [of k] cv key by auto
    have "cv_cbs cv' = [(i, setting_listener k)]" "s' = s(k := word_of_int (cv_val cv'))"
      using same k(2,3) by (auto simp: setValue_def setting_listener_def split: if_splits)
    then show ?thesis using regs unfolding new followed_def k(1)
      by (auto simp: setting_name_inj)
  next
    case False
    then have "cv_cbs cv = []" using regs(2) cv by blast
    then have "cv_cbs cv' = []" "s' = s" using same by (auto simp: setValue_def split: if_splits)
    moreover have "setting_name k \<noteq> ?key" for k using False by (metis rangeI)
    ultimately show ?thesis using regs unfolding new followed_def by auto
  qed
qed

lemma all_settings:
  "(\<forall>k. P k) \<longleftrightarrow> P Request_buffer \<and> P Request_max_body \<and> P Response_buffer \<and> P Response_max_body \<and> P Connect_timeout"
  by (metis setting.exhaust)

lemma before_main_followed: "\<exists>i st. before_main = Inr (i, st) \<and> followed st"
proof -
  have names: "good_name (setting_name Request_buffer)" "good_name (setting_name Request_max_body)" "good_name (setting_name Response_buffer)"
    "good_name (setting_name Response_max_body)" "good_name (setting_name Connect_timeout)" by code_simp+
  have other: "name \<notin> range setting_name \<longleftrightarrow> (\<forall>k. name \<noteq> setting_name k)" for name by auto
  show ?thesis
    unfolding followed_def other all_settings using names
    by (simp add: before_main_def RequestSizeIniter_def HookIniter_def http_settings_def http_listeners_def look_up_setting_def
        copy_setting_def follow_setting_def Config_LookUp_def addListener_def ConfigVar_def)
qed

text \<open>
  C34: Whatever documents are loaded after the start, the buffer sizes, the body limits and the connect
  timeout in use are the values of their configuration variables.
\<close>

theorem settings_follow:
  assumes "before_main = Inr (i, st)" and "foldE (LoadFromYaml emit from_str) roots st = Inr (reg, s)"
  shows "\<exists>cv. reg (setting_name k) = Some cv \<and> s k = word_of_int (cv_val cv)"
proof -
  obtain j st0 where "before_main = Inr (j, st0)" "followed st0" using before_main_followed by blast
  then have start: "followed st" using assms(1) by (metis Pair_inject sum.inject(2))
  have fold: "followed (fold (load_entry emit from_str) es st)" if "followed st" for es and st :: configured
    using that
  proof (induction es arbitrary: st)
    case (Cons e es)
    then show ?case using load_entry_followed [OF Cons.prems, of emit from_str e] by simp
  qed simp
  have "followed st'" if "followed st" "foldE (LoadFromYaml emit from_str) roots st = Inr st'" for st st' :: configured
    using that
  proof (induction roots arbitrary: st)
    case (Cons root roots)
    then obtain st1 where st1: "LoadFromYaml emit from_str root st = Inr st1" "foldE (LoadFromYaml emit from_str) roots st1 = Inr st'"
      by (simp only: foldE.simps bindE_Inr_iff) blast
    have "followed st1" using st1(1) fold [OF Cons.prems(1)] unfolding LoadFromYaml_def bindE_Inr_iff by auto
    then show ?case using Cons.IH st1(2) by blast
  qed simp
  from this [OF start assms(2)] have "followed (reg, s)" .
  then show ?thesis by (auto simp: followed_def)
qed

text \<open>Integers in decimal.\<close>

definition read_nat :: "string \<Rightarrow> string \<Rightarrow> int option" where
  "read_nat typ t = (if t = [] then None else Some (foldl (\<lambda>n c. 10 * n + (of_char c - 48)) 0 t))"

definition small_buffer :: yaml where
  "small_buffer = Y_map [(Y_scalar ''http.request.buffer_size'', Y_scalar ''64'')]"

theorem settings_follow_witness:
  "\<exists>i st reg s cv. before_main = Inr (i, st) \<and> foldE (LoadFromYaml (\<lambda>_. []) read_nat) [small_buffer] st = Inr (reg, s)
    \<and> reg (setting_name Request_buffer) = Some cv \<and> s Request_buffer = word_of_int (cv_val cv)"
proof -
  obtain i st where start: "before_main = Inr (i, st)" using before_main_followed by blast
  have "\<exists>r. foldE (LoadFromYaml (\<lambda>_. []) read_nat) [small_buffer] st = Inr r"
  proof -
    have "good_name ''http.request.buffer_size''" "good_name []" by code_simp+
    then show ?thesis by (simp add: LoadFromYaml_def small_buffer_def join_key_def)
  qed
  then obtain reg s where "foldE (LoadFromYaml (\<lambda>_. []) read_nat) [small_buffer] st = Inr (reg, s)" by auto
  then show ?thesis using settings_follow [OF start, of "\<lambda>_. []" read_nat "[small_buffer]" reg s Request_buffer] start by blast
qed

end
