(* ===== verification/Environment.thy ===== *)
theory Environment
  imports Strings
begin

text \<open>
  \<open>env.cpp\<close> and the file helpers of \<open>util.cpp\<close>: the arguments of the program, the help texts, paths,
  and making and listing directories. The operating system is a parameter: the path behind the link
  to the executable, the environment of the process, what \<open>mkdir\<close> does to the set of existing paths,
  and the tree of a directory.
\<close>

section \<open>The environment of the program\<close>

record env =
  m_args :: "string \<rightharpoonup> string"
  m_helps :: "(string \<times> string) list"
  m_programName :: string
  m_exe :: string
  m_cwd :: string

definition env_add :: "string \<Rightarrow> string \<Rightarrow> env \<Rightarrow> env" where
  "env_add key val e = e\<lparr>m_args := (m_args e)(key \<mapsto> val)\<rparr>"

definition env_has :: "string \<Rightarrow> env \<Rightarrow> bool" where
  "env_has key e \<longleftrightarrow> m_args e key \<noteq> None"

definition env_get :: "string \<Rightarrow> string \<Rightarrow> env \<Rightarrow> string" where
  "env_get key default_val e = (case m_args e key of None \<Rightarrow> default_val | Some v \<Rightarrow> v)"

definition env_del :: "string \<Rightarrow> env \<Rightarrow> env" where
  "env_del key e = e\<lparr>m_args := (m_args e)(key := None)\<rparr>"

interpretation args: keyed_map "\<lambda>k. k" "\<lambda>e. True" "\<lambda>e k. m_args e k" env_add env_del
  by unfold_locales (auto simp: env_add_def env_del_def)

fun set_help :: "string \<Rightarrow> string \<Rightarrow> (string \<times> string) list \<Rightarrow> (string \<times> string) list" where
  "set_help key description [] = [(key, description)]"
| "set_help key description ((k, d) # hs) =
     (if k = key then (k, description) # hs else (k, d) # set_help key description hs)"

definition addHelp :: "string \<Rightarrow> string \<Rightarrow> env \<Rightarrow> env" where
  "addHelp key description e = e\<lparr>m_helps := set_help key description (m_helps e)\<rparr>"

fun erase_help :: "string \<Rightarrow> (string \<times> string) list \<Rightarrow> (string \<times> string) list" where
  "erase_help key [] = []"
| "erase_help key ((k, d) # hs) = (if k = key then hs else (k, d) # erase_help key hs)"

definition delHelp :: "string \<Rightarrow> env \<Rightarrow> env" where
  "delHelp key e = e\<lparr>m_helps := erase_help key (m_helps e)\<rparr>"

text \<open>What is printed: the options in the order of the vector, the arguments in the order of their names.\<close>

definition option_line :: "string \<Rightarrow> string \<times> string \<Rightarrow> string" where
  "option_line sep kv = ''    -'' @ fst kv @ sep @ snd kv @ [CHR 0x0A]"

definition printHelp :: "env \<Rightarrow> string" where
  "printHelp e = ''Usage: '' @ m_programName e @ '' [options]'' @ [CHR 0x0A] @ concat (map (option_line '': '') (m_helps e))"

definition printArgs :: "env \<Rightarrow> string" where
  "printArgs e = ''Usage: '' @ m_programName e @ '' [args]'' @ [CHR 0x0A]
     @ concat (map (\<lambda>k. option_line '':'' (k, the (m_args e k))) (sorted_list_of_set (dom (m_args e))))"

section \<open>Reading the arguments\<close>

text \<open>Everything up to the last slash; without one \<open>substr(0, npos)\<close> is the whole path.\<close>

definition up_to_slash :: "string \<Rightarrow> string" where
  "up_to_slash p =
     (if CHR ''/'' \<in> set p then rev (tl (dropWhile (\<lambda>c. c \<noteq> CHR ''/'') (rev p))) else p)"

fun parse_args :: "string list \<Rightarrow> string option \<Rightarrow> env \<Rightarrow> bool \<times> env" where
  "parse_args [] now_key e = (True, case now_key of None \<Rightarrow> e | Some k \<Rightarrow> env_add k [] e)"
| "parse_args (a # as) now_key e =
     (if a \<noteq> [] \<and> hd a = CHR ''-'' then
        if length a > 1
        then parse_args as (Some (tl a)) (case now_key of None \<Rightarrow> e | Some k \<Rightarrow> env_add k [] e)
        else (False, e)
      else
        (case now_key of
           Some k \<Rightarrow> parse_args as None (env_add k a e)
         | None \<Rightarrow> (False, e)))"

text \<open>\<open>link\<close> is what \<open>readlink\<close> gives for the executable, \<open>argv\<close> has at least one element.\<close>

definition env_init :: "string option \<Rightarrow> string list \<Rightarrow> env \<Rightarrow> bool \<times> env" where
  "env_init link argv e =
     (case link of
        None \<Rightarrow> (False, e)
      | Some path \<Rightarrow>
          parse_args (tl argv) None
            (e\<lparr>m_exe := path, m_cwd := up_to_slash path @ ''/'', m_programName := hd argv\<rparr>))"

definition getAbsolutePath :: "string \<Rightarrow> env \<Rightarrow> string" where
  "getAbsolutePath path e =
     (if path = [] then ''/'' else if hd path = CHR ''/'' then path else m_cwd e @ path)"

definition getConfigPath :: "env \<Rightarrow> string" where
  "getConfigPath e = getAbsolutePath (env_get ''c'' ''conf'' e) e"

text \<open>The variables of the process; \<open>setenv\<close> refuses names that are empty or have an equals sign.\<close>

definition setEnv :: "string \<Rightarrow> string \<Rightarrow> (string \<rightharpoonup> string) \<Rightarrow> bool \<times> (string \<rightharpoonup> string)" where
  "setEnv name val vars =
     (if c_str name = [] \<or> CHR ''='' \<in> set (c_str name) then (False, vars)
      else (True, vars(c_str name \<mapsto> c_str val)))"

definition getEnv :: "string \<Rightarrow> string \<Rightarrow> (string \<rightharpoonup> string) \<Rightarrow> string" where
  "getEnv name default_val vars = (case vars (c_str name) of None \<Rightarrow> default_val | Some v \<Rightarrow> v)"

subsection \<open>Options are read as they are written\<close>

text \<open>An option with or without a value, as a user writes it.\<close>

fun written :: "string \<times> string option \<Rightarrow> string list" where
  "written (k, None) = [CHR ''-'' # k]"
| "written (k, Some v) = [CHR ''-'' # k, v]"

definition plain :: "string \<times> string option \<Rightarrow> bool" where
  "plain kv \<longleftrightarrow> fst kv \<noteq> [] \<and> (case snd kv of None \<Rightarrow> True | Some v \<Rightarrow> v = [] \<or> hd v \<noteq> CHR ''-'')"

definition value_of :: "string \<times> string option \<Rightarrow> string \<times> string" where
  "value_of kv = (fst kv, case snd kv of None \<Rightarrow> [] | Some v \<Rightarrow> v)"

lemma parse_written:
  assumes "list_all plain opts"
  shows "parse_args (concat (map written opts)) now e =
    (True, fold (\<lambda>(k, v). env_add k v) (map value_of opts) (case now of None \<Rightarrow> e | Some k \<Rightarrow> env_add k [] e))"
  using assms
proof (induction opts arbitrary: now e)
  case (Cons kv opts)
  obtain k v where kv: "kv = (k, v)" by (cases kv)
  have "k \<noteq> []" "v = Some u \<Longrightarrow> u = [] \<or> hd u \<noteq> CHR ''-''" for u using Cons.prems by (auto simp: kv plain_def)
  then show ?case using Cons by (cases v) (auto simp: kv value_of_def)
qed simp

text \<open>
  A command line of options, each with a name and with or without a value that does not start
  with a dash, is accepted, and afterwards every option has the value it was last given, the empty
  one when it was given none; what was not given has no value.
\<close>

theorem options_are_read:
  assumes "list_all plain opts"
  shows "fst (env_init (Some path) (prog # concat (map written opts)) e)
    \<and> m_args (snd (env_init (Some path) (prog # concat (map written opts)) e)) q =
        (case filter (\<lambda>(k, _). k = q) (map value_of opts) of [] \<Rightarrow> m_args e q | hits \<Rightarrow> Some (snd (last hits)))
    \<and> getAbsolutePath p (snd (env_init (Some path) (prog # concat (map written opts)) e)) =
        (if p = [] then ''/'' else if hd p = CHR ''/'' then p else up_to_slash path @ ''/'' @ p)"
proof -
  let ?e = "e\<lparr>m_exe := path, m_cwd := up_to_slash path @ ''/'', m_programName := prog\<rparr>"
  let ?kvs = "map value_of opts"
  have init: "env_init (Some path) (prog # concat (map written opts)) e = (True, fold (\<lambda>(k, v). env_add k v) ?kvs ?e)"
    using parse_written [OF assms, of None ?e] by (simp add: env_init_def)
  have cwd: "m_cwd (fold (\<lambda>(k, v). env_add k v) kvs x) = m_cwd x" for kvs and x :: env
    by (induction kvs arbitrary: x) (auto simp: env_add_def)
  have same: "m_args ?e = m_args e" by simp
  show ?thesis
    using args.look_put_all [where s = ?e and kvs = ?kvs and q = q] unfolding init same by (simp add: getAbsolutePath_def cwd)
qed

theorem options_are_read_witness:
  "fst (env_init (Some ''/opt/kit/server'') (''server'' # concat (map written [(''d'', None), (''c'', Some ''etc''), (''c'', Some ''conf2'')]))
      \<lparr>m_args = Map.empty, m_helps = [], m_programName = [], m_exe = [], m_cwd = []\<rparr>)
   \<and> m_args (snd (env_init (Some ''/opt/kit/server'') (''server'' # concat (map written [(''d'', None), (''c'', Some ''etc''), (''c'', Some ''conf2'')]))
      \<lparr>m_args = Map.empty, m_helps = [], m_programName = [], m_exe = [], m_cwd = []\<rparr>)) ''c'' = Some ''conf2''
   \<and> getAbsolutePath ''conf2'' (snd (env_init (Some ''/opt/kit/server'') (''server'' # concat (map written [(''d'', None), (''c'', Some ''etc''), (''c'', Some ''conf2'')]))
      \<lparr>m_args = Map.empty, m_helps = [], m_programName = [], m_exe = [], m_cwd = []\<rparr>)) = ''/opt/kit/conf2''"
  using options_are_read [of "[(''d'', None), (''c'', Some ''etc''), (''c'', Some ''conf2'')]" "''/opt/kit/server''" "''server''"
      "\<lparr>m_args = Map.empty, m_helps = [], m_programName = [], m_exe = [], m_cwd = []\<rparr>" "''c''" "''conf2''"]
  by (simp add: plain_def value_of_def up_to_slash_def)

section \<open>Directories\<close>

text \<open>Listing: a directory that cannot be opened is \<open>Closed_dir\<close>.\<close>

datatype entry = Dir_entry string "entry list" | File_entry string | Other_entry string | Closed_dir string

definition has_suffix :: "string \<Rightarrow> string \<Rightarrow> bool" where
  "has_suffix subfix name \<longleftrightarrow>
     (if subfix = [] then True
      else if length name < length subfix then False
      else drop (length name - length subfix) name = subfix)"

fun ListAllFile :: "string \<Rightarrow> string \<Rightarrow> entry list \<Rightarrow> string list \<Rightarrow> string list" where
  "ListAllFile path subfix [] files = files"
| "ListAllFile path subfix (Dir_entry n es # rest) files =
     (if n = ''.'' \<or> n = ''..'' then ListAllFile path subfix rest files
      else ListAllFile path subfix rest (ListAllFile (path @ ''/'' @ n) subfix es files))"
| "ListAllFile path subfix (File_entry n # rest) files =
     ListAllFile path subfix rest (if has_suffix subfix n then files @ [path @ ''/'' @ n] else files)"
| "ListAllFile path subfix (Other_entry n # rest) files = ListAllFile path subfix rest files"
| "ListAllFile path subfix (Closed_dir n # rest) files = ListAllFile path subfix rest files"

text \<open>Making: the paths that exist are a set, \<open>sys_mkdir\<close> gives the new set or fails.\<close>

type_synonym paths = "string set"

definition mkdir_one :: "(string \<Rightarrow> paths \<Rightarrow> paths option) \<Rightarrow> string \<Rightarrow> paths \<Rightarrow> paths option" where
  "mkdir_one sys_mkdir dirname fs = (if dirname \<in> fs then Some fs else sys_mkdir dirname fs)"

text \<open>The paths up to each slash behind the first character.\<close>

definition parents :: "string \<Rightarrow> string list" where
  "parents path = map (\<lambda>i. take i path) (filter (\<lambda>i. path ! i = CHR ''/'') [1..<length path])"

fun mkdir_loop :: "(string \<Rightarrow> paths \<Rightarrow> paths option) \<Rightarrow> string list \<Rightarrow> paths \<Rightarrow> bool \<times> paths" where
  "mkdir_loop sys_mkdir [] fs = (True, fs)"
| "mkdir_loop sys_mkdir (p # ps) fs =
     (case mkdir_one sys_mkdir p fs of None \<Rightarrow> (False, fs) | Some fs' \<Rightarrow> mkdir_loop sys_mkdir ps fs')"

definition Mkdir :: "(string \<Rightarrow> paths \<Rightarrow> paths option) \<Rightarrow> string \<Rightarrow> paths \<Rightarrow> bool \<times> paths" where
  "Mkdir sys_mkdir dirname fs =
     (if c_str dirname \<in> fs then (True, fs)
      else if parents (c_str dirname) = [] then (False, fs)
      else mkdir_loop sys_mkdir (parents (c_str dirname) @ [c_str dirname]) fs)"

lemma mkdir_loop_made:
  assumes "\<And>p fs fs'. sys_mkdir p fs = Some fs' \<Longrightarrow> fs' = insert p fs"
  shows "fs \<subseteq> snd (mkdir_loop sys_mkdir ps fs) \<and> snd (mkdir_loop sys_mkdir ps fs) \<subseteq> fs \<union> set ps
    \<and> (fst (mkdir_loop sys_mkdir ps fs) \<longrightarrow> set ps \<subseteq> snd (mkdir_loop sys_mkdir ps fs))"
proof (induction ps arbitrary: fs)
  case (Cons p ps)
  show ?case
  proof (cases "mkdir_one sys_mkdir p fs")
    case (Some fs')
    then have "fs' = insert p fs" using assms by (auto simp: mkdir_one_def split: if_splits)
    then show ?thesis using Cons.IH [of fs'] Some by auto
  qed auto
qed simp

lemma mkdir_loop_succeeds:
  assumes "\<And>p fs. sys_mkdir p fs = Some (insert p fs)"
  shows "fst (mkdir_loop sys_mkdir ps fs)"
  by (induction ps arbitrary: fs) (simp_all add: mkdir_one_def assms)

text \<open>
  Making a directory adds at most the directory and the paths above it; when it reports success
  on a path that was not there, all of them exist. A relative path of one component is refused even
  when the system would make it; any other path is made when the system makes what it is asked for.
\<close>

theorem Mkdir_makes_path:
  assumes "\<And>p fs fs'. sys_mkdir p fs = Some fs' \<Longrightarrow> fs' = insert p fs"
  shows "fs \<subseteq> snd (Mkdir sys_mkdir dirname fs) \<and> snd (Mkdir sys_mkdir dirname fs) \<subseteq> fs \<union> set (parents (c_str dirname)) \<union> {c_str dirname}
    \<and> (fst (Mkdir sys_mkdir dirname fs) \<longrightarrow> c_str dirname \<in> snd (Mkdir sys_mkdir dirname fs)
         \<and> (c_str dirname \<in> fs \<or> set (parents (c_str dirname)) \<subseteq> snd (Mkdir sys_mkdir dirname fs)))
    \<and> (CHR ''/'' \<notin> set (tl (c_str dirname)) \<and> c_str dirname \<notin> fs \<longrightarrow> \<not> fst (Mkdir sys_mkdir dirname fs))"
proof -
  have "parents p = []" if "CHR ''/'' \<notin> set (tl p)" for p :: string
  proof -
    have "p ! i \<noteq> CHR ''/''" if "1 \<le> i" "i < length p" for i
    proof -
      have "tl p ! (i - 1) \<in> set (tl p)" using that by (intro nth_mem) auto
      moreover have "tl p ! (i - 1) = p ! i" using that by (simp add: nth_tl)
      ultimately show ?thesis using \<open>CHR ''/'' \<notin> set (tl p)\<close> by auto
    qed
    then show ?thesis by (simp add: parents_def filter_empty_conv)
  qed
  then show ?thesis
    using mkdir_loop_made [where sys_mkdir = sys_mkdir and ps = "parents (c_str dirname) @ [c_str dirname]" and fs = fs, OF assms]
    by (auto simp: Mkdir_def)
qed

theorem Mkdir_makes_path_witness:
  "snd (Mkdir (\<lambda>p fs. Some (insert p fs)) ''/a/b'' {}) \<subseteq> {} \<union> set (parents (c_str ''/a/b'')) \<union> {c_str ''/a/b''}
   \<and> \<not> fst (Mkdir (\<lambda>p fs. Some (insert p fs)) ''conf'' {})"
  using Mkdir_makes_path [of "\<lambda>p fs. Some (insert p fs)" "{}" "''/a/b''"] Mkdir_makes_path [of "\<lambda>p fs. Some (insert p fs)" "{}" "''conf''"]
  by simp

text \<open>
  The file of the running process: \<open>line\<close> is its first line, if there is one, \<open>alive\<close> says whether a
  signal can be sent to a process.
\<close>

definition IsRunningPidFile :: "string option \<Rightarrow> (string \<Rightarrow> int) \<Rightarrow> (int \<Rightarrow> bool) \<Rightarrow> bool" where
  "IsRunningPidFile line atoi alive =
     (case line of
        None \<Rightarrow> False
      | Some l \<Rightarrow> l \<noteq> [] \<and> atoi l > 1 \<and> alive (atoi l))"

end
