(* ===== verification/Tcp_Server.thy ===== *)
theory Tcp_Server
  imports Sockets
begin

text \<open>
  \<open>tcp_server.h\<close> and \<open>tcp_server.cpp\<close>: a server that listens on several addresses. The two workers
  are the lists of the tasks they were given. A socket is a shared object that is destroyed, and
  closed, with its last reference: the list of listening sockets, the tasks that are queued and the
  accept loops that run each hold one. A loop is either about to test \<open>m_stopped\<close> or in \<open>accept\<close>.
\<close>

datatype server_task = Start_accept socket | Clean_up

datatype loop_pc = Testing | In_accept

record tcp_server =
  m_listenSockets :: "socket list"
  srv_recvTimeout :: int
  srv_name :: string
  m_stopped :: bool
  acceptWorker :: "server_task list"
  worker :: "socket list"
  accept_loops :: "(socket \<times> loop_pc) list"

definition TcpServer :: "int \<Rightarrow> tcp_server" where
  "TcpServer read_timeout =
     \<lparr>m_listenSockets = [], srv_recvTimeout = read_timeout, srv_name = ''kit/1.0.0'', m_stopped = True,
      acceptWorker = [], worker = [], accept_loops = []\<rparr>"

section \<open>References\<close>

fun task_socket :: "server_task \<Rightarrow> socket list" where
  "task_socket (Start_accept s) = [s]"
| "task_socket Clean_up = []"

text \<open>The sockets that tasks and loops hold.\<close>

definition held :: "tcp_server \<Rightarrow> socket list" where
  "held srv = concat (map task_socket (acceptWorker srv)) @ map fst (accept_loops srv)"

definition close_all :: "epoll \<Rightarrow> socket list \<Rightarrow> net \<Rightarrow> net res" where
  "close_all epoll_ctl = foldE (\<lambda>sk n. bindE (sk_close epoll_ctl sk n) (\<lambda>(_, _, n1). Inr n1))"

text \<open>\<open>m_listenSockets.clear()\<close>.\<close>

definition clear_listen :: "epoll \<Rightarrow> tcp_server \<Rightarrow> net \<Rightarrow> (tcp_server \<times> net) res" where
  "clear_listen epoll_ctl srv n =
     bindE (close_all epoll_ctl (filter (\<lambda>s. s \<notin> set (held srv)) (m_listenSockets srv)) n) (\<lambda>n1.
       Inr (srv\<lparr>m_listenSockets := []\<rparr>, n1))"

section \<open>Binding\<close>

text \<open>One address; a socket that is given up is destroyed.\<close>

definition listen_on :: "epoll \<Rightarrow> address \<Rightarrow> socket list \<times> address list \<times> net \<Rightarrow> (socket list \<times> address list \<times> net) res" where
  "listen_on epoll_ctl x = (\<lambda>(socks, out_addrs, n).
     bindE (sk_bind x (CreateTCP x) n) (\<lambda>(ok, sk, n1).
       if \<not> ok then bindE (sk_close epoll_ctl sk n1) (\<lambda>(_, _, n2). Inr (socks, out_addrs @ [x], n2))
       else
         let (ok', n2) = sk_listen sk n1 in
         if \<not> ok' then bindE (sk_close epoll_ctl sk n2) (\<lambda>(_, _, n3). Inr (socks, out_addrs @ [x], n3))
         else Inr (socks @ [sk], out_addrs, n2)))"

definition srv_bind_all ::
  "epoll \<Rightarrow> address list \<Rightarrow> address list \<Rightarrow> tcp_server \<Rightarrow> net \<Rightarrow> (bool \<times> address list \<times> tcp_server \<times> net) res" where
  "srv_bind_all epoll_ctl in_addrs out_addrs srv n =
     bindE (foldE (listen_on epoll_ctl) in_addrs (m_listenSockets srv, out_addrs, n)) (\<lambda>(socks, out1, n1).
       let srv1 = srv\<lparr>m_listenSockets := socks\<rparr> in
       if out1 \<noteq> [] then bindE (clear_listen epoll_ctl srv1 n1) (\<lambda>(srv2, n2). Inr (False, out1, srv2, n2))
       else Inr (True, out1, srv1, n1))"

definition srv_bind :: "epoll \<Rightarrow> address \<Rightarrow> tcp_server \<Rightarrow> net \<Rightarrow> (bool \<times> tcp_server \<times> net) res" where
  "srv_bind epoll_ctl addr srv n =
     bindE (srv_bind_all epoll_ctl [addr] [] srv n) (\<lambda>(ok, _, srv1, n1). Inr (ok, srv1, n1))"

section \<open>Starting, accepting, stopping\<close>

definition srv_start :: "tcp_server \<Rightarrow> bool \<times> tcp_server" where
  "srv_start srv =
     (if \<not> m_stopped srv then (True, srv)
      else (True, srv\<lparr>m_stopped := False, acceptWorker := acceptWorker srv @ map Start_accept (m_listenSockets srv)\<rparr>))"

definition srv_stop :: "tcp_server \<Rightarrow> bool \<times> tcp_server" where
  "srv_stop srv =
     (if m_stopped srv then (True, srv)
      else (True, srv\<lparr>m_stopped := True, acceptWorker := acceptWorker srv @ [Clean_up]\<rparr>))"

text \<open>The task that \<open>stop\<close> leaves behind.\<close>

definition clean_up :: "epoll \<Rightarrow> tcp_server \<Rightarrow> net \<Rightarrow> (tcp_server \<times> net) res" where
  "clean_up epoll_ctl srv n =
     bindE (foldE (\<lambda>s n. bindE (sk_cancelAll epoll_ctl s n) (\<lambda>(_, n1). Inr n1)) (m_listenSockets srv) n) (\<lambda>n1.
       clear_listen epoll_ctl srv n1)"

text \<open>One call of \<open>accept\<close> in the loop has returned.\<close>

definition accepted :: "socket \<Rightarrow> tcp_server \<Rightarrow> net \<Rightarrow> (tcp_server \<times> net) res" where
  "accepted sock srv n =
     bindE (sk_accept sock n) (\<lambda>(client, n1).
       case client of
         Some c \<Rightarrow> bindE (setRecvTimeout (srv_recvTimeout srv) c n1) (\<lambda>n2. Inr (srv\<lparr>worker := worker srv @ [c]\<rparr>, n2))
       | None \<Rightarrow> Inr (srv, n1))"

text \<open>
  The loop of \<open>startAccept\<close>, cut where it tests \<open>m_stopped\<close> and where \<open>accept\<close> returns; at its end
  its reference is given up.
\<close>

definition loop_test :: "epoll \<Rightarrow> nat \<Rightarrow> tcp_server \<Rightarrow> net \<Rightarrow> (tcp_server \<times> net) res" where
  "loop_test epoll_ctl i srv n =
     (let (s, _) = accept_loops srv ! i in
      if \<not> m_stopped srv then Inr (srv\<lparr>accept_loops := (accept_loops srv)[i := (s, In_accept)]\<rparr>, n)
      else
        let srv1 = srv\<lparr>accept_loops := take i (accept_loops srv) @ drop (Suc i) (accept_loops srv)\<rparr> in
        if s \<in> set (m_listenSockets srv1) \<union> set (held srv1) then Inr (srv1, n)
        else bindE (sk_close epoll_ctl s n) (\<lambda>(_, _, n1). Inr (srv1, n1)))"

definition loop_accepted :: "nat \<Rightarrow> tcp_server \<Rightarrow> net \<Rightarrow> (tcp_server \<times> net) res" where
  "loop_accepted i srv n =
     (let s = fst (accept_loops srv ! i) in
      accepted s (srv\<lparr>accept_loops := (accept_loops srv)[i := (s, Testing)]\<rparr>) n)"

text \<open>The next task of the accepting worker.\<close>

definition run_task :: "epoll \<Rightarrow> tcp_server \<Rightarrow> net \<Rightarrow> (tcp_server \<times> net) res" where
  "run_task epoll_ctl srv n =
     (case acceptWorker srv of
        [] \<Rightarrow> Inr (srv, n)
      | Start_accept s # ts \<Rightarrow> Inr (srv\<lparr>acceptWorker := ts, accept_loops := accept_loops srv @ [(s, Testing)]\<rparr>, n)
      | Clean_up # ts \<Rightarrow> clean_up epoll_ctl (srv\<lparr>acceptWorker := ts\<rparr>) n)"

text \<open>The next task of the other worker: \<open>handleClient\<close> of this class only logs, and the client goes with it.\<close>

definition run_client :: "epoll \<Rightarrow> tcp_server \<Rightarrow> net \<Rightarrow> (tcp_server \<times> net) res" where
  "run_client epoll_ctl srv n =
     (case worker srv of
        [] \<Rightarrow> Inr (srv, n)
      | c # cs \<Rightarrow> bindE (sk_close epoll_ctl c n) (\<lambda>(_, _, n1). Inr (srv\<lparr>worker := cs\<rparr>, n1)))"

datatype server_event =
    Ev_bind "address list" | Ev_start | Ev_stop | Ev_task | Ev_test nat | Ev_accepted nat | Ev_client

definition server_do :: "epoll \<Rightarrow> server_event \<Rightarrow> tcp_server \<times> net \<Rightarrow> (tcp_server \<times> net) res" where
  "server_do epoll_ctl ev = (\<lambda>(srv, n).
     case ev of
       Ev_bind addrs \<Rightarrow> bindE (srv_bind_all epoll_ctl addrs [] srv n) (\<lambda>(_, _, st). Inr st)
     | Ev_start \<Rightarrow> Inr (snd (srv_start srv), n)
     | Ev_stop \<Rightarrow> Inr (snd (srv_stop srv), n)
     | Ev_task \<Rightarrow> run_task epoll_ctl srv n
     | Ev_test i \<Rightarrow> if i < length (accept_loops srv) then loop_test epoll_ctl i srv n else Inr (srv, n)
     | Ev_accepted i \<Rightarrow> if i < length (accept_loops srv) then loop_accepted i srv n else Inr (srv, n)
     | Ev_client \<Rightarrow> run_client epoll_ctl srv n)"

definition srv_destroy :: "epoll \<Rightarrow> tcp_server \<Rightarrow> net \<Rightarrow> net res" where
  "srv_destroy epoll_ctl srv n = close_all epoll_ctl (m_listenSockets srv) n"

section \<open>Every descriptor has its holder\<close>

definition holders :: "tcp_server \<Rightarrow> socket set" where
  "holders srv = set (m_listenSockets srv) \<union> set (held srv)"

text \<open>
  What is open beyond the descriptors of others is held by the server or by a client that waits to
  be handled, each by one socket.
\<close>

definition srv_ok :: "int set \<Rightarrow> tcp_server \<times> net \<Rightarrow> bool" where
  "srv_ok others = (\<lambda>(srv, n). wf_net n
     \<and> distinct (map sk_fd (m_listenSockets srv)) \<and> inj_on sk_fd (holders srv) \<and> distinct (map sk_fd (worker srv))
     \<and> sk_fd ` holders srv \<inter> sk_fd ` set (worker srv) = {}
     \<and> others \<inter> sk_fd ` (holders srv \<union> set (worker srv)) = {}
     \<and> set (n_open n) = others \<union> sk_fd ` (holders srv \<union> set (worker srv)))"

lemma close_one:
  assumes "wf_net n" and "sk_fd s \<in> set (n_open n)"
  shows "\<exists>r s1 n1. sk_close epoll_ctl s n = Inr (r, s1, n1) \<and> wf_net n1 \<and> set (n_open n1) = set (n_open n) - {sk_fd s}"
proof -
  have "0 \<le> sk_fd s" using assms by (auto simp: wf_net_def)
  then have "owns (set (n_open n) - {sk_fd s}) s n" using assms by (auto simp: owns_def)
  from sk_close_ok [OF this, of epoll_ctl] show ?thesis by (auto simp: owns_def)
qed

lemma close_all_ok:
  assumes "wf_net n" and "distinct (map sk_fd ss)" and "sk_fd ` set ss \<subseteq> set (n_open n)"
  shows "\<exists>n1. close_all epoll_ctl ss n = Inr n1 \<and> wf_net n1 \<and> set (n_open n1) = set (n_open n) - sk_fd ` set ss"
  using assms
proof (induction ss arbitrary: n)
  case (Cons s ss)
  obtain r s1 n1 where c: "sk_close epoll_ctl s n = Inr (r, s1, n1)" "wf_net n1" "set (n_open n1) = set (n_open n) - {sk_fd s}"
    using close_one [OF Cons.prems(1), of s epoll_ctl] Cons.prems(3) by auto
  have "sk_fd s \<notin> sk_fd ` set ss" using Cons.prems(2) by simp
  then have "distinct (map sk_fd ss)" "sk_fd ` set ss \<subseteq> set (n_open n1)"
    using Cons.prems(2,3) unfolding c(3) by (simp_all add: subset_Diff_insert)
  from Cons.IH [OF c(2) this] obtain n2 where "close_all epoll_ctl ss n1 = Inr n2" "wf_net n2"
      "set (n_open n2) = set (n_open n1) - sk_fd ` set ss" by blast
  then show ?case using c by (auto simp: close_all_def)
qed (simp add: close_all_def)

lemma srv_ok_same:
  assumes "srv_ok others (srv, n)" and "holders srv1 = holders srv" and "m_listenSockets srv1 = m_listenSockets srv"
    and "worker srv1 = worker srv" and "wf_net n1" and "set (n_open n1) = set (n_open n)"
  shows "srv_ok others (srv1, n1)"
  using assms by (simp add: srv_ok_def)

lemma srv_ok_wf: "srv_ok others (srv, n) \<Longrightarrow> wf_net n"
  by (simp add: srv_ok_def)

lemma drop_sets:
  assumes "H1 \<subseteq> H" and "A \<inter> (H \<union> W) = {}" and "H \<inter> W = {}"
  shows "A \<union> (H \<union> W) - (H - H1) = A \<union> (H1 \<union> W)" and "H1 \<inter> W = {}" and "A \<inter> (H1 \<union> W) = {}"
  using assms by blast+

text \<open>Sockets that nobody else holds are given up and closed.\<close>

lemma srv_ok_drop:
  assumes ok: "srv_ok others (srv, n)" and sub: "holders srv1 \<subseteq> holders srv" and w: "worker srv1 = worker srv"
    and l: "distinct (map sk_fd (m_listenSockets srv1))" and wf: "wf_net n1"
    and op: "set (n_open n1) = set (n_open n) - sk_fd ` (holders srv - holders srv1)"
  shows "srv_ok others (srv1, n1)"
proof -
  have o: "others \<inter> sk_fd ` (holders srv \<union> set (worker srv)) = {}" "sk_fd ` holders srv \<inter> sk_fd ` set (worker srv) = {}"
      "set (n_open n) = others \<union> sk_fd ` (holders srv \<union> set (worker srv))" "inj_on sk_fd (holders srv)"
    using ok by (simp_all add: srv_ok_def)
  have d: "sk_fd ` (holders srv - holders srv1) = sk_fd ` holders srv - sk_fd ` holders srv1"
    by (rule inj_on_image_set_diff [OF o(4)]) (use sub in auto)
  have "sk_fd ` holders srv1 \<subseteq> sk_fd ` holders srv" using sub by (rule image_mono)
  note sets = drop_sets [OF this o(1) [unfolded image_Un] o(2)]
  have "set (n_open n1) = others \<union> sk_fd ` (holders srv1 \<union> set (worker srv1))"
    unfolding op d o(3) w image_Un by (rule sets(1))
  moreover have "inj_on sk_fd (holders srv1)" using o(4) sub by (rule inj_on_subset)
  moreover have "sk_fd ` holders srv1 \<inter> sk_fd ` set (worker srv1) = {}" "others \<inter> sk_fd ` (holders srv1 \<union> set (worker srv1)) = {}"
    unfolding w image_Un by (rule sets(2), rule sets(3))
  moreover have "distinct (map sk_fd (worker srv1))" using ok w by (simp add: srv_ok_def)
  ultimately show ?thesis using l wf by (simp add: srv_ok_def)
qed

lemma clear_listen_ok:
  assumes ok: "srv_ok others (srv, n)"
  shows "\<exists>srv1 n1. clear_listen epoll_ctl srv n = Inr (srv1, n1) \<and> srv_ok others (srv1, n1) \<and> m_listenSockets srv1 = []
    \<and> srv1 = srv\<lparr>m_listenSockets := []\<rparr>"
proof -
  let ?gone = "filter (\<lambda>s. s \<notin> set (held srv)) (m_listenSockets srv)" and ?srv = "srv\<lparr>m_listenSockets := []\<rparr>"
  have d: "distinct (map sk_fd ?gone)" using ok by (simp add: srv_ok_def distinct_map_filter)
  have sub: "set ?gone \<subseteq> holders srv" by (auto simp: holders_def)
  have "sk_fd ` set ?gone \<subseteq> set (n_open n)" using ok image_mono [OF sub, of sk_fd] unfolding srv_ok_def by auto
  from close_all_ok [OF srv_ok_wf [OF ok] d this, of epoll_ctl] obtain n1 where
    n1: "close_all epoll_ctl ?gone n = Inr n1" "wf_net n1" "set (n_open n1) = set (n_open n) - sk_fd ` set ?gone" by blast
  have h: "held ?srv = held srv" by (simp add: held_def)
  then have "holders srv - holders ?srv = set ?gone" by (auto simp: holders_def)
  then have "srv_ok others (?srv, n1)" using n1 by (intro srv_ok_drop [OF ok]) (auto simp: holders_def h)
  then show ?thesis using n1(1) by (simp add: clear_listen_def)
qed

text \<open>A new socket joins.\<close>

lemma srv_ok_listen:
  assumes "srv_ok others (srv, n)" and "wf_net n1" and "sk_fd s \<notin> set (n_open n)" and "set (n_open n1) = insert (sk_fd s) (set (n_open n))"
  shows "srv_ok others (srv\<lparr>m_listenSockets := m_listenSockets srv @ [s]\<rparr>, n1)"
proof -
  have h: "holders (srv\<lparr>m_listenSockets := m_listenSockets srv @ [s]\<rparr>) = insert s (holders srv)"
    by (auto simp: holders_def held_def)
  have new: "sk_fd s \<notin> sk_fd ` (holders srv \<union> set (worker srv))" "sk_fd s \<notin> others" using assms(1,3) by (auto simp: srv_ok_def)
  have "sk_fd s \<notin> sk_fd ` set (m_listenSockets srv)" using new by (auto simp: holders_def)
  then show ?thesis using assms new unfolding srv_ok_def by (auto simp: h)
qed

lemma srv_ok_client:
  assumes "srv_ok others (srv, n)" and "wf_net n1" and "sk_fd s \<notin> set (n_open n)" and "set (n_open n1) = insert (sk_fd s) (set (n_open n))"
  shows "srv_ok others (srv\<lparr>worker := worker srv @ [s]\<rparr>, n1)"
proof -
  have h: "holders (srv\<lparr>worker := worker srv @ [s]\<rparr>) = holders srv" by (simp add: holders_def held_def)
  have new: "sk_fd s \<notin> sk_fd ` holders srv" "sk_fd s \<notin> sk_fd ` set (worker srv)" "sk_fd s \<notin> others"
    using assms(1,3) by (auto simp: srv_ok_def)
  then show ?thesis using assms unfolding srv_ok_def by (auto simp: h)
qed

lemma appended_differs [simp]: "xs @ [x] \<noteq> xs" "xs \<noteq> xs @ [x]"
  by (simp_all)

lemma listen_on_ok:
  assumes ok: "srv_ok others (srv\<lparr>m_listenSockets := socks\<rparr>, n)"
  shows "\<exists>socks1 out1 n1. listen_on epoll_ctl x (socks, out, n) = Inr (socks1, out1, n1)
    \<and> srv_ok others (srv\<lparr>m_listenSockets := socks1\<rparr>, n1)
    \<and> (if out1 = out then \<exists>s. socks1 = socks @ [s] \<and> sk_fd s \<noteq> -1 else out1 = out @ [x] \<and> socks1 = socks)"
proof -
  let ?srv = "srv\<lparr>m_listenSockets := socks\<rparr>"
  have wf: "wf_net n" by (rule srv_ok_wf [OF ok])
  then have "owns (set (n_open n)) (CreateTCP x) n" by (simp add: owns_def CreateTCP_def new_Socket_def)
  from sk_bind_ok [OF this, of x] obtain r sk n1 where b: "sk_bind x (CreateTCP x) n = Inr (r, sk, n1)"
      "owns (set (n_open n)) sk n1" "r \<longrightarrow> sk_fd sk \<noteq> -1" by blast
  obtain l n2 where l: "sk_listen sk n1 = (l, n2)" by fastforce
  have same: "n_open n2 = n_open n1" "n_hook n2 = n_hook n1" using l sys_fault_same [of n1]
    by (auto simp: sk_listen_def split: prod.splits if_splits)
  have b2: "owns (set (n_open n)) sk n2" using owns_same [OF b(2) same, of sk] b(2) by (auto simp: owns_def)
  have give_up: "\<exists>r sk' n'. sk_close epoll_ctl sk m = Inr (r, sk', n') \<and> srv_ok others (?srv, n')"
    if "owns (set (n_open n)) sk m" for m
  proof -
    from sk_close_ok [OF that, of epoll_ctl] obtain r sk' n' where
      "sk_close epoll_ctl sk m = Inr (r, sk', n')" "owns (set (n_open n)) sk' n'" "set (n_open n') = set (n_open n)" by blast
    moreover from this have "srv_ok others (?srv, n')" using srv_ok_same [OF ok, of ?srv n'] by (simp add: owns_def)
    ultimately show ?thesis by blast
  qed
  consider "\<not> r" | "r" "\<not> l" | "r" "l" by blast
  then show ?thesis
  proof cases
    case 1
    obtain r' sk' n' where "sk_close epoll_ctl sk n1 = Inr (r', sk', n')" "srv_ok others (?srv, n')" using give_up [OF b(2)] by blast
    then have "listen_on epoll_ctl x (socks, out, n) = Inr (socks, out @ [x], n')" using b 1 by (simp add: listen_on_def)
    then show ?thesis using \<open>srv_ok others (?srv, n')\<close> by (intro exI [of _ socks] exI [of _ "out @ [x]"] exI [of _ n']) simp
  next
    case 2
    obtain r' sk' n' where "sk_close epoll_ctl sk n2 = Inr (r', sk', n')" "srv_ok others (?srv, n')" using give_up [OF b2] by blast
    then have "listen_on epoll_ctl x (socks, out, n) = Inr (socks, out @ [x], n')" using b l 2 by (simp add: listen_on_def)
    then show ?thesis using \<open>srv_ok others (?srv, n')\<close> by (intro exI [of _ socks] exI [of _ "out @ [x]"] exI [of _ n']) simp
  next
    case 3
    then have "sk_fd sk \<noteq> -1" using b(3) by simp
    then have "srv_ok others (?srv\<lparr>m_listenSockets := m_listenSockets ?srv @ [sk]\<rparr>, n2)"
      using b2 by (intro srv_ok_listen [OF ok]) (auto simp: owns_def)
    then show ?thesis using 3 b l by (auto simp: listen_on_def)
  qed
qed

lemma listen_all_ok:
  assumes "srv_ok others (srv\<lparr>m_listenSockets := socks\<rparr>, n)"
  shows "\<exists>socks1 out1 n1. foldE (listen_on epoll_ctl) xs (socks, out, n) = Inr (socks1, out1, n1)
    \<and> srv_ok others (srv\<lparr>m_listenSockets := socks1\<rparr>, n1)
    \<and> (\<exists>more. out1 = out @ more \<and> set more \<subseteq> set xs \<and> length socks1 + length more = length socks + length xs
          \<and> (\<exists>new. socks1 = socks @ new \<and> (\<forall>s \<in> set new. sk_fd s \<noteq> -1)))"
  using assms
proof (induction xs arbitrary: socks out n)
  case (Cons x xs)
  obtain socks1 out1 n1 where 1: "listen_on epoll_ctl x (socks, out, n) = Inr (socks1, out1, n1)"
      "srv_ok others (srv\<lparr>m_listenSockets := socks1\<rparr>, n1)"
      "if out1 = out then \<exists>s. socks1 = socks @ [s] \<and> sk_fd s \<noteq> -1 else out1 = out @ [x] \<and> socks1 = socks"
    using listen_on_ok [OF Cons.prems, of epoll_ctl x out] by blast
  obtain socks2 out2 n2 more new where 2: "foldE (listen_on epoll_ctl) xs (socks1, out1, n1) = Inr (socks2, out2, n2)"
      "srv_ok others (srv\<lparr>m_listenSockets := socks2\<rparr>, n2)" "out2 = out1 @ more" "set more \<subseteq> set xs"
      "length socks2 + length more = length socks1 + length xs" "socks2 = socks1 @ new" "\<forall>s \<in> set new. sk_fd s \<noteq> -1"
    using Cons.IH [OF 1(2), of out1] by blast
  have run: "foldE (listen_on epoll_ctl) (x # xs) (socks, out, n) = Inr (socks2, out2, n2)" using 1(1) 2(1) by simp
  show ?case
  proof (cases "out1 = out")
    case True
    then obtain s where s: "socks1 = socks @ [s]" "sk_fd s \<noteq> -1" using 1(3) by auto
    then show ?thesis using run 2 True
      by (intro exI [of _ socks2] exI [of _ out2] exI [of _ n2] conjI exI [of _ more] exI [of _ "s # new"]) auto
  next
    case False
    then have s: "out1 = out @ [x]" "socks1 = socks" using 1(3) by simp_all
    then show ?thesis using run 2
      by (intro exI [of _ socks2] exI [of _ out2] exI [of _ n2] conjI exI [of _ "x # more"] exI [of _ new]) auto
  qed
qed auto

text \<open>Without failures every address is listened on.\<close>

lemma listen_all_none:
  assumes "srv_ok others (srv\<lparr>m_listenSockets := socks\<rparr>, n)" and "n_faults n = []"
  shows "\<exists>socks1 n1. foldE (listen_on epoll_ctl) xs (socks, out, n) = Inr (socks1, out, n1) \<and> n_faults n1 = []"
  using assms
proof (induction xs arbitrary: socks n)
  case (Cons x xs)
  obtain sk n1 where b: "sk_bind x (CreateTCP x) n = Inr (True, sk, n1)" "n_faults n1 = []" "sk_fd sk \<noteq> -1"
    using sk_bind_none [OF srv_ok_wf [OF Cons.prems(1)] Cons.prems(2)] by blast
  have run: "listen_on epoll_ctl x (socks, out, n) = Inr (socks @ [sk], out, n1)"
    using b by (simp add: listen_on_def sk_listen_def sys_fault_none)
  then have "srv_ok others (srv\<lparr>m_listenSockets := socks @ [sk]\<rparr>, n1)"
    using listen_on_ok [OF Cons.prems(1), of epoll_ctl x out] by auto
  from Cons.IH [OF this b(2)] show ?case using run by simp
qed simp

lemma srv_bind_all_ok:
  assumes "srv_ok others (srv, n)"
  shows "\<exists>r out1 srv1 n1. srv_bind_all epoll_ctl xs out srv n = Inr (r, out1, srv1, n1) \<and> srv_ok others (srv1, n1)
    \<and> (r \<longleftrightarrow> out1 = [])
    \<and> (if r then \<exists>new. srv1 = srv\<lparr>m_listenSockets := m_listenSockets srv @ new\<rparr> \<and> length new = length xs \<and> (\<forall>s \<in> set new. sk_fd s \<noteq> -1)
       else srv1 = srv\<lparr>m_listenSockets := []\<rparr>)"
proof -
  have "srv_ok others (srv\<lparr>m_listenSockets := m_listenSockets srv\<rparr>, n)" using assms by simp
  from listen_all_ok [OF this, of epoll_ctl xs out] obtain socks out1 n1 more new where
    l: "foldE (listen_on epoll_ctl) xs (m_listenSockets srv, out, n) = Inr (socks, out1, n1)"
      "srv_ok others (srv\<lparr>m_listenSockets := socks\<rparr>, n1)" "out1 = out @ more" "socks = m_listenSockets srv @ new"
      "length socks + length more = length (m_listenSockets srv) + length xs" "\<forall>s \<in> set new. sk_fd s \<noteq> -1"
    by blast
  show ?thesis
  proof (cases "out1 = []")
    case True
    have "srv_bind_all epoll_ctl xs out srv n = Inr (True, out1, srv\<lparr>m_listenSockets := socks\<rparr>, n1)"
      using l(1) True by (simp add: srv_bind_all_def)
    then show ?thesis using l True by auto
  next
    case False
    from clear_listen_ok [OF l(2), of epoll_ctl] obtain srv1 n2 where
      c: "clear_listen epoll_ctl (srv\<lparr>m_listenSockets := socks\<rparr>) n1 = Inr (srv1, n2)" "srv_ok others (srv1, n2)"
        "srv1 = srv\<lparr>m_listenSockets := []\<rparr>" by auto
    have "srv_bind_all epoll_ctl xs out srv n = Inr (False, out1, srv1, n2)"
      using l(1) c(1) False by (simp add: srv_bind_all_def)
    then show ?thesis using c False by auto
  qed
qed

text \<open>What \<open>accept\<close> gives: nothing, or a connected socket with a new descriptor and no timeout yet.\<close>

lemma sk_accept_ok:
  assumes wf: "wf_net n"
  shows "\<exists>c n1. sk_accept s n = Inr (c, n1) \<and> wf_net n1
    \<and> (case c of None \<Rightarrow> n_open n1 = n_open n
       | Some k \<Rightarrow> sk_fd k \<notin> set (n_open n) \<and> n_open n1 = sk_fd k # n_open n \<and> sk_isConnectd k \<and> open_socket (sk_fd k) (n_hook n1))
    \<and> (c = None \<longleftrightarrow> fst (sys_fault n))"
proof -
  obtain fd0 m where new: "sys_new n = (fd0, m)" by fastforce
  note h = sys_new_hooked [OF wf new]
  have fails: "fd0 < 0 \<longleftrightarrow> fst (sys_fault n)" using sys_new_fails [of n] new by simp
  show ?thesis
  proof (cases "fd0 < 0")
    case True
    then have m: "fd0 = -1" "n_open m = n_open n" "n_hook m = n_hook n" using h by simp_all
    then have "wf_net m" using wf wf_net_same [OF m(2,3)] by simp
    then show ?thesis using new m fails True by (simp add: sk_accept_def in_hook_def hook_accept_end_def)
  next
    case False
    then obtain c hk where hk: "with_ctx fd0 True (n_hook m) = Inr (Some c, hk)" "wf_net (m\<lparr>n_hook := hk\<rparr>)"
        "n_open m = fd0 # n_open n" "fd0 \<notin> set (n_open n)" "open_socket fd0 hk" using h by auto
    obtain d where d: "hk_fds hk ! nat fd0 = Some d" "m_isSocket d" "\<not> m_isClosed d" "0 \<le> fd0" "nat fd0 < length (hk_fds hk)"
      by (rule open_socketE [OF hk(5)])
    let ?m = "m\<lparr>n_hook := hk\<rparr>"
      and ?sk = "(new_Socket (sk_family s) (sk_type s) (sk_protocol s))\<lparr>sk_fd := fd0, sk_isConnectd := True\<rparr>"
    obtain a sk2 n3 where a: "getLocalAddress ?sk (initSocket ?sk ?m) = (a, sk2, n3)" by (metis prod_cases3)
    obtain b sk3 n4 where b: "getRemoteAddress sk2 n3 = (b, sk3, n4)" by (metis prod_cases3)
    note g = getAddress_fields(1) [OF a] getAddress_fields(2) [OF b]
    have i: "init_fd fd0 (new_Socket (sk_family s) (sk_type s) (sk_protocol s)) ?m = Inr (True, sk3, n4)"
      using d a b with_ctx_open [OF d(1,4,5)] by (simp add: init_fd_def in_hook_def)
    have n4: "n_open n4 = n_open m" "n_hook n4 = hk" "sk_fd sk3 = fd0" "sk_isConnectd sk3" using g by simp_all
    have "sk_accept s n = Inr (Some sk3, n4)"
      using new hk False i by (simp add: sk_accept_def in_hook_def hook_accept_end_def)
    moreover have "wf_net n4" using hk(2) wf_net_same [of n4 ?m] n4 by simp
    ultimately show ?thesis using n4 hk fails False by simp
  qed
qed

lemma accepted_ok:
  assumes ok: "srv_ok others (srv, n)"
  shows "\<exists>srv1 n1. accepted s srv n = Inr (srv1, n1) \<and> srv_ok others (srv1, n1)"
proof -
  note wf = srv_ok_wf [OF ok]
  obtain c n1 where c: "sk_accept s n = Inr (c, n1)" "wf_net n1"
    "case c of None \<Rightarrow> n_open n1 = n_open n
       | Some k \<Rightarrow> sk_fd k \<notin> set (n_open n) \<and> n_open n1 = sk_fd k # n_open n \<and> sk_isConnectd k \<and> open_socket (sk_fd k) (n_hook n1)"
    using sk_accept_ok [OF wf, of s] by blast
  show ?thesis
  proof (cases c)
    case None
    then show ?thesis using c srv_ok_same [OF ok, of srv n1] by (simp add: accepted_def)
  next
    case (Some k)
    then have k: "sk_fd k \<notin> set (n_open n)" "n_open n1 = sk_fd k # n_open n" "open_socket (sk_fd k) (n_hook n1)" using c(3) by simp_all
    then have "owns (set (n_open n)) k n1" using c(2) by (auto simp: owns_def open_socket_def)
    from sk_setTimeout_ok [OF this, of SO_RCVTIMEO "srv_recvTimeout srv"] obtain n2 where
      n2: "setRecvTimeout (srv_recvTimeout srv) k n1 = Inr n2" "owns (set (n_open n)) k n2" "n_open n2 = n_open n1"
      by (auto simp: setRecvTimeout_def)
    have "srv_ok others (srv\<lparr>worker := worker srv @ [k]\<rparr>, n2)"
      using n2 k by (intro srv_ok_client [OF ok]) (auto simp: owns_def)
    then show ?thesis using c(1) Some n2(1) by (simp add: accepted_def)
  qed
qed

lemma cancel_listen_ok:
  assumes "wf_net n" and "sk_fd s \<in> set (n_open n)"
  shows "\<exists>r n1. sk_cancelAll epoll_ctl s n = Inr (r, n1) \<and> wf_net n1 \<and> n_open n1 = n_open n"
proof -
  have "0 \<le> sk_fd s" "wf_io (hk_io (n_hook n))" "hk_has_iom (n_hook n)" using assms by (auto simp: wf_net_def)
  then show ?thesis using cancelAll_ok [of "hk_io (n_hook n)" "sk_fd s" epoll_ctl] assms(1)
    by (auto simp: sk_cancelAll_def on_io_def Let_def wf_net_def)
qed

lemma clean_up_ok:
  assumes ok: "srv_ok others (srv, n)"
  shows "\<exists>srv1 n1. clean_up epoll_ctl srv n = Inr (srv1, n1) \<and> srv_ok others (srv1, n1)
    \<and> srv1 = srv\<lparr>m_listenSockets := []\<rparr>"
proof -
  let ?P = "\<lambda>m. wf_net m \<and> n_open m = n_open n"
  define f where "f = (\<lambda>s n. bindE (sk_cancelAll epoll_ctl s n) (\<lambda>(_, n1). Inr n1))"
  have step: "\<exists>m'. f s m = Inr m' \<and> ?P m'" if "s \<in> set (m_listenSockets srv)" "?P m" for s m
  proof -
    have "sk_fd s \<in> set (n_open m)" using that ok by (auto simp: srv_ok_def holders_def)
    then show ?thesis using cancel_listen_ok [of m s epoll_ctl] that(2) by (auto simp: f_def)
  qed
  obtain m where m: "foldE f (m_listenSockets srv) n = Inr m" "?P m"
    using foldE_invariant [where f = f and P = ?P and xs = "m_listenSockets srv" and s = n] step srv_ok_wf [OF ok] by blast
  then have "srv_ok others (srv, m)" using srv_ok_same [OF ok, of srv m] by simp
  from clear_listen_ok [OF this, of epoll_ctl] m(1) show ?thesis by (auto simp: clean_up_def f_def)
qed

lemma srv_ok_keep:
  assumes "srv_ok others (srv, n)" and "holders srv1 = holders srv" and "m_listenSockets srv1 = m_listenSockets srv" and "worker srv1 = worker srv"
  shows "srv_ok others (srv1, n)"
  using srv_ok_same [OF assms srv_ok_wf [OF assms(1)]] by simp

lemma task_ok:
  assumes ok: "srv_ok others (srv, n)"
  shows "\<exists>st1. server_do epoll_ctl Ev_task (srv, n) = Inr st1 \<and> srv_ok others st1"
proof -
  note wf = srv_ok_wf [OF ok] and same = srv_ok_keep [OF ok]
  show ?thesis
  proof (cases "acceptWorker srv")
    case Nil
    then show ?thesis using ok by (simp add: server_do_def run_task_def)
  next
    case (Cons t ts)
    show ?thesis
    proof (cases t)
      case (Start_accept s)
      have "srv_ok others (srv\<lparr>acceptWorker := ts, accept_loops := accept_loops srv @ [(s, Testing)]\<rparr>, n)"
        by (rule same) (auto simp: holders_def held_def Cons Start_accept)
      then show ?thesis using Cons Start_accept by (simp add: server_do_def run_task_def)
    next
      case Clean_up
      have "srv_ok others (srv\<lparr>acceptWorker := ts\<rparr>, n)"
        by (rule same) (auto simp: holders_def held_def Cons Clean_up)
      from clean_up_ok [OF this, of epoll_ctl] show ?thesis
        using Cons Clean_up by (auto simp: server_do_def run_task_def)
    qed
  qed
qed

lemma test_ok:
  assumes ok: "srv_ok others (srv, n)"
  shows "\<exists>st1. server_do epoll_ctl (Ev_test i) (srv, n) = Inr st1 \<and> srv_ok others st1"
proof -
  note wf = srv_ok_wf [OF ok] and same = srv_ok_keep [OF ok]
  show ?thesis
  proof (cases "i < length (accept_loops srv)")
    case True
    obtain s pc where s: "accept_loops srv ! i = (s, pc)" by fastforce
    have split: "accept_loops srv = take i (accept_loops srv) @ (s, pc) # drop (Suc i) (accept_loops srv)"
      using id_take_nth_drop [OF True] s by simp
    let ?in = "srv\<lparr>accept_loops := (accept_loops srv)[i := (s, In_accept)]\<rparr>"
    let ?out = "srv\<lparr>accept_loops := take i (accept_loops srv) @ drop (Suc i) (accept_loops srv)\<rparr>"
    have upd: "map fst ((accept_loops srv)[i := (s, In_accept)]) = map fst (accept_loops srv)"
      using True s by (simp add: map_update list_update_same_conv)
    have "srv_ok others (?in, n)" by (rule same) (auto simp: holders_def held_def upd simp del: map_update)
    moreover have holders: "holders srv = insert s (holders ?out)"
      using arg_cong [OF split, of "\<lambda>xs. set (map fst xs)"] by (auto simp: holders_def held_def)
    have "\<exists>st1. (if s \<in> set (m_listenSockets ?out) \<union> set (held ?out) then Inr (?out, n)
        else bindE (sk_close epoll_ctl s n) (\<lambda>(_, _, n1). Inr (?out, n1))) = Inr st1 \<and> srv_ok others st1"
    proof (cases "s \<in> holders ?out")
      case True
      then have "srv_ok others (?out, n)" using holders by (intro same) auto
      then show ?thesis using True by (simp add: holders_def)
    next
      case False
      have "sk_fd s \<in> set (n_open n)" using ok holders by (auto simp: srv_ok_def)
      from close_one [OF wf this, of epoll_ctl] obtain r s1 n1 where
        c: "sk_close epoll_ctl s n = Inr (r, s1, n1)" "wf_net n1" "set (n_open n1) = set (n_open n) - {sk_fd s}" by blast
      have "holders srv - holders ?out = {s}" using holders False by auto
      then have "srv_ok others (?out, n1)"
        using c holders ok by (intro srv_ok_drop [OF ok]) (auto simp: srv_ok_def)
      then show ?thesis using c(1) False by (simp add: holders_def)
    qed
    ultimately show ?thesis using True s by (cases "m_stopped srv") (auto simp: server_do_def loop_test_def Let_def)
  qed (use ok in \<open>simp add: server_do_def\<close>)
qed

lemma accepted_step_ok:
  assumes ok: "srv_ok others (srv, n)"
  shows "\<exists>st1. server_do epoll_ctl (Ev_accepted i) (srv, n) = Inr st1 \<and> srv_ok others st1"
proof -
  note wf = srv_ok_wf [OF ok] and same = srv_ok_keep [OF ok]
  show ?thesis
  proof (cases "i < length (accept_loops srv)")
    case True
    let ?srv = "srv\<lparr>accept_loops := (accept_loops srv)[i := (fst (accept_loops srv ! i), Testing)]\<rparr>"
    have upd: "map fst ((accept_loops srv)[i := (fst (accept_loops srv ! i), Testing)]) = map fst (accept_loops srv)"
      using True by (simp add: map_update list_update_same_conv)
    have "srv_ok others (?srv, n)" by (rule same) (auto simp: holders_def held_def upd simp del: map_update)
    from accepted_ok [OF this, of "fst (accept_loops srv ! i)"] show ?thesis
      using True by (auto simp: server_do_def loop_accepted_def Let_def)
  qed (use ok in \<open>simp add: server_do_def\<close>)
qed

lemma client_ok:
  assumes ok: "srv_ok others (srv, n)"
  shows "\<exists>st1. server_do epoll_ctl Ev_client (srv, n) = Inr st1 \<and> srv_ok others st1"
proof -
  note wf = srv_ok_wf [OF ok] and same = srv_ok_keep [OF ok]
  show ?thesis
  proof (cases "worker srv")
    case Nil
    then show ?thesis using ok by (simp add: server_do_def run_client_def)
  next
    case (Cons c cs)
    then have "sk_fd c \<in> set (n_open n)" using ok by (auto simp: srv_ok_def)
    from close_one [OF wf this, of epoll_ctl] obtain r s1 n1 where
      c: "sk_close epoll_ctl c n = Inr (r, s1, n1)" "wf_net n1" "set (n_open n1) = set (n_open n) - {sk_fd c}" by blast
    let ?srv = "srv\<lparr>worker := cs\<rparr>"
    have h: "holders ?srv = holders srv" by (simp add: holders_def held_def)
    have o: "sk_fd c \<notin> sk_fd ` set cs" "sk_fd c \<notin> sk_fd ` holders srv" "sk_fd c \<notin> others"
        "set (n_open n) = insert (sk_fd c) (others \<union> sk_fd ` (holders srv \<union> set cs))"
      using ok Cons by (auto simp: srv_ok_def)
    then have "set (n_open n1) = others \<union> sk_fd ` (holders srv \<union> set cs)" unfolding c(3) o(4) by auto
    then have "srv_ok others (?srv, n1)" using ok Cons c(2) by (auto simp: srv_ok_def h)
    then show ?thesis using Cons c(1) by (simp add: server_do_def run_client_def)
  qed
qed

lemma server_do_ok:
  assumes ok: "srv_ok others st"
  shows "\<exists>st1. server_do epoll_ctl ev st = Inr st1 \<and> srv_ok others st1"
proof -
  obtain srv n where st: "st = (srv, n)" by fastforce
  note ok = ok [unfolded st]
  show ?thesis unfolding st
  proof (cases ev)
    case (Ev_bind addrs)
    then show "\<exists>st1. server_do epoll_ctl ev (srv, n) = Inr st1 \<and> srv_ok others st1"
      using srv_bind_all_ok [OF ok, of epoll_ctl addrs "[]"] by (auto simp: server_do_def)
  next
    case Ev_start
    have "srv_ok others (snd (srv_start srv), n)" by (rule srv_ok_keep [OF ok]) (auto simp: srv_start_def holders_def held_def)
    then show "\<exists>st1. server_do epoll_ctl ev (srv, n) = Inr st1 \<and> srv_ok others st1" using Ev_start by (simp add: server_do_def)
  next
    case Ev_stop
    have "srv_ok others (snd (srv_stop srv), n)" by (rule srv_ok_keep [OF ok]) (auto simp: srv_stop_def holders_def held_def)
    then show "\<exists>st1. server_do epoll_ctl ev (srv, n) = Inr st1 \<and> srv_ok others st1" using Ev_stop by (simp add: server_do_def)
  qed (use task_ok [OF ok] test_ok [OF ok] accepted_step_ok [OF ok] client_ok [OF ok] in blast)+
qed

text \<open>
  C19: Whatever is bound, started, stopped, accepted, tested and handled in whatever order, and whichever
  system calls fail, no step of the server runs into an error, and the open descriptors beyond the
  ones of others are exactly those of the listening sockets, of the sockets that tasks and accept
  loops hold, and of the clients that wait to be handled: none is leaked and none is closed twice.
\<close>

theorem server_leaks_nothing:
  assumes "wf_net n"
  shows "\<exists>srv1 n1. foldE (server_do epoll_ctl) evs (TcpServer t, n) = Inr (srv1, n1) \<and> wf_net n1
    \<and> set (n_open n1) = set (n_open n) \<union> sk_fd ` (holders srv1 \<union> set (worker srv1))
    \<and> set (n_open n) \<inter> sk_fd ` (holders srv1 \<union> set (worker srv1)) = {}
    \<and> distinct (map sk_fd (m_listenSockets srv1 @ worker srv1))"
proof -
  let ?P = "srv_ok (set (n_open n))"
  have start: "?P (TcpServer t, n)" using assms by (simp add: srv_ok_def TcpServer_def holders_def held_def)
  obtain st where st: "foldE (server_do epoll_ctl) evs (TcpServer t, n) = Inr st" "?P st"
    using foldE_invariant [where f = "server_do epoll_ctl" and P = ?P and xs = evs and s = "(TcpServer t, n)"]
      server_do_ok start by blast
  then show ?thesis by (cases st) (auto simp: srv_ok_def holders_def)
qed

text \<open>A run that binds twice, accepts a client, stops and cleans up, with failures among its calls.\<close>

definition busy_day :: "server_event list" where
  "busy_day = [Ev_bind [any4, any4], Ev_bind [any4], Ev_start, Ev_task, Ev_test 0, Ev_accepted 0, Ev_stop, Ev_client, Ev_task, Ev_test 0]"

theorem server_leaks_nothing_witness:
  "\<exists>srv1 n1. foldE (server_do (\<lambda>_ _ _. 0)) busy_day (TcpServer 120000, no_sockets) = Inr (srv1, n1) \<and> wf_net n1
    \<and> set (n_open n1) = set (n_open no_sockets) \<union> sk_fd ` (holders srv1 \<union> set (worker srv1))
    \<and> set (n_open no_sockets) \<inter> sk_fd ` (holders srv1 \<union> set (worker srv1)) = {}
    \<and> distinct (map sk_fd (m_listenSockets srv1 @ worker srv1))"
  by (rule server_leaks_nothing [OF no_sockets_wf])

lemma server_run_ok:
  assumes "wf_net n" and "foldE (server_do epoll_ctl) evs (TcpServer t, n) = Inr st"
  shows "srv_ok (set (n_open n)) st"
proof -
  have "srv_ok (set (n_open n)) (TcpServer t, n)" using assms(1) by (simp add: srv_ok_def TcpServer_def holders_def held_def)
  from foldE_invariant [where f = "server_do epoll_ctl" and P = "srv_ok (set (n_open n))" and xs = evs, OF server_do_ok this] assms(2)
  show ?thesis by simp
qed

text \<open>
  Binding listens either on all of the addresses or on none at all: when one of them fails, the
  failed ones are reported, every listening socket of the server is given up (those of earlier calls
  as well), and what stays open is what tasks, loops and clients still hold.
\<close>

theorem bind_all_or_nothing:
  assumes "wf_net n0" and "foldE (server_do epoll_ctl) evs (TcpServer t, n0) = Inr (srv, n)"
  shows "\<exists>r out srv1 n1. srv_bind_all epoll_ctl addrs [] srv n = Inr (r, out, srv1, n1) \<and> (r \<longleftrightarrow> out = [])
    \<and> (if r then \<exists>new. m_listenSockets srv1 = m_listenSockets srv @ new \<and> length new = length addrs
            \<and> sk_fd ` set new \<subseteq> set (n_open n1)
       else m_listenSockets srv1 = []
            \<and> set (n_open n1) = set (n_open n0) \<union> sk_fd ` (set (held srv) \<union> set (worker srv)))"
proof -
  from srv_bind_all_ok [OF server_run_ok [OF assms], of epoll_ctl addrs "[]"] obtain r out srv1 n1 where
    b: "srv_bind_all epoll_ctl addrs [] srv n = Inr (r, out, srv1, n1)" "srv_ok (set (n_open n0)) (srv1, n1)" "r \<longleftrightarrow> out = []"
      "if r then \<exists>new. srv1 = srv\<lparr>m_listenSockets := m_listenSockets srv @ new\<rparr> \<and> length new = length addrs \<and> (\<forall>s \<in> set new. sk_fd s \<noteq> -1)
       else srv1 = srv\<lparr>m_listenSockets := []\<rparr>"
    by blast
  have op: "set (n_open n1) = set (n_open n0) \<union> sk_fd ` (holders srv1 \<union> set (worker srv1))" using b(2) by (simp add: srv_ok_def)
  show ?thesis
  proof (cases r)
    case True
    then obtain new where "srv1 = srv\<lparr>m_listenSockets := m_listenSockets srv @ new\<rparr>" "length new = length addrs" using b(4) by auto
    then show ?thesis using b(1,3) True op by (auto simp: holders_def)
  next
    case False
    then have "srv1 = srv\<lparr>m_listenSockets := []\<rparr>" using b(4) by simp
    then show ?thesis using b(1,3) False op by (auto simp: holders_def held_def)
  qed
qed

theorem bind_all_or_nothing_witness:
  "\<exists>r out srv1 n1. srv_bind_all (\<lambda>_ _ _. 0) [any4, any4] [] (TcpServer 120000) no_sockets = Inr (r, out, srv1, n1) \<and> (r \<longleftrightarrow> out = [])
    \<and> (if r then \<exists>new. m_listenSockets srv1 = m_listenSockets (TcpServer 120000) @ new \<and> length new = length [any4, any4]
            \<and> sk_fd ` set new \<subseteq> set (n_open n1)
       else m_listenSockets srv1 = []
            \<and> set (n_open n1) = set (n_open no_sockets) \<union> sk_fd ` (set (held (TcpServer 120000)) \<union> set (worker (TcpServer 120000))))"
  by (rule bind_all_or_nothing [OF no_sockets_wf, of "\<lambda>_ _ _. 0" "[]" 120000]) simp

text \<open>
  A connection that \<open>accept\<close> delivers becomes one task of the worker with a new, connected socket
  of its own whose read timeout is that of the server; a failure of \<open>accept\<close> changes nothing.
\<close>

theorem accepted_client_is_scheduled:
  assumes "wf_net n" and "0 \<le> srv_recvTimeout srv" and "srv_recvTimeout srv < 2 ^ 63"
  shows "\<exists>srv1 n1. accepted s srv n = Inr (srv1, n1)
    \<and> (if fst (sys_fault n) then srv1 = srv \<and> n_open n1 = n_open n
       else \<exists>c. srv1 = srv\<lparr>worker := worker srv @ [c]\<rparr> \<and> n_open n1 = sk_fd c # n_open n \<and> sk_fd c \<notin> set (n_open n)
              \<and> sk_isConnectd c \<and> getRecvTimeout c n1 = Inr (srv_recvTimeout srv))"
proof -
  obtain c n1 where c: "sk_accept s n = Inr (c, n1)" "wf_net n1" "c = None \<longleftrightarrow> fst (sys_fault n)"
    "case c of None \<Rightarrow> n_open n1 = n_open n
       | Some k \<Rightarrow> sk_fd k \<notin> set (n_open n) \<and> n_open n1 = sk_fd k # n_open n \<and> sk_isConnectd k \<and> open_socket (sk_fd k) (n_hook n1)"
    using sk_accept_ok [OF assms(1), of s] by blast
  show ?thesis
  proof (cases c)
    case None
    then show ?thesis using c by (simp add: accepted_def)
  next
    case (Some k)
    then have k: "sk_fd k \<notin> set (n_open n)" "n_open n1 = sk_fd k # n_open n" "open_socket (sk_fd k) (n_hook n1)" "sk_isConnectd k"
      using c(4) by simp_all
    have "hk_enable (n_hook n1)" using c(2) by (simp add: wf_net_def)
    from timeout_stored [OF this k(3), of "srv_recvTimeout srv"] assms(2,3) obtain n2 where
      n2: "setRecvTimeout (srv_recvTimeout srv) k n1 = Inr n2" "getRecvTimeout k n2 = Inr (srv_recvTimeout srv)" by auto
    have "owns (set (n_open n)) k n1" using c(2) k by (auto simp: owns_def open_socket_def)
    from sk_setTimeout_ok [OF this, of SO_RCVTIMEO "srv_recvTimeout srv"] n2(1) have "n_open n2 = n_open n1"
      by (auto simp: setRecvTimeout_def)
    then show ?thesis using c(1,3) Some n2 k by (auto simp: accepted_def)
  qed
qed

theorem accepted_client_is_scheduled_witness:
  "\<exists>srv1 n1. accepted (new_Socket 2 1 0) (TcpServer 120000) (no_sockets\<lparr>n_faults := []\<rparr>) = Inr (srv1, n1)
    \<and> (\<exists>c. worker srv1 = [c] \<and> sk_isConnectd c \<and> getRecvTimeout c n1 = Inr 120000)"
proof -
  have "wf_net (no_sockets\<lparr>n_faults := []\<rparr>)" using no_sockets_wf by (simp add: wf_net_def)
  from accepted_client_is_scheduled [OF this, of "TcpServer 120000" "new_Socket 2 1 0"] show ?thesis
    by (auto simp: TcpServer_def sys_fault_def)
qed

section \<open>Stopping\<close>

text \<open>Cancelling all events of a descriptor that only a reader waits on.\<close>

lemma cancelAll_reader:
  assumes wf: "wf_io m" and get: "get_fd fd m = Inr fc" and r: "fc_events fc = READ" and ep: "\<forall>op fd v. 0 \<le> epoll_ctl op fd v"
  shows "\<exists>m1. cancelAll epoll_ctl fd m = Inr (True, m1) \<and> wf_io m1 \<and> length (io_fds m1) = length (io_fds m)
    \<and> s_queue (io_sched m1) = s_queue (io_sched m) @ [ctx_task (fc_read fc)]
    \<and> (\<exists>fc1. get_fd fd m1 = Inr fc1 \<and> fc_events fc1 = 0)"
proof -
  have ev: "has_event (fc_events fc) READ" by (simp add: r has_event_def READ_def)
  from trigger_at_ok [OF wf get _ ev] obtain m1 where
    t: "trigger_at fd READ m = Inr m1" "wf_io m1" "s_queue (io_sched m1) = s_queue (io_sched m) @ [ctx_task (fc_read fc)]"
      "get_fd fd m1 = Inr (setEventContext READ empty_ctx (fc\<lparr>fc_events := fc_events fc AND NOT READ\<rparr>))" by auto
  have z: "fc_events (setEventContext READ empty_ctx (fc\<lparr>fc_events := fc_events fc AND NOT READ\<rparr>)) = 0" by (simp add: r)
  have "\<not> int (length (io_fds m)) \<le> fd" using get by (auto simp: get_fd_Inr)
  moreover have "\<not> epoll_ctl op fd v < 0" for op fd v using ep by (simp add: not_less)
  moreover have "trigger_if (fc_events fc) fd READ m = Inr m1" "trigger_if 0 fd WRITE m1 = Inr m1"
    using t(1) by (simp_all add: trigger_if_def r) (simp add: READ_def)
  moreover have "fc_events fc \<noteq> 0" by (simp add: r READ_def)
  ultimately have "cancelAll epoll_ctl fd m = Inr (True, m1)" using get t(4) z by (simp add: cancelAll_def)
  moreover have "length (io_fds m1) = length (io_fds m)"
    using t(1) get by (auto simp: trigger_at_def triggerEvent_def bindE_Inr_iff put_fd_def getEventContext_def assert_that_def Let_def
        split: if_splits prod.splits)
  ultimately show ?thesis using t z by blast
qed

lemma addEvent_succeeds:
  "addEvent epoll_ctl True cur st fd e cb m = Inr (r, m1) \<Longrightarrow> \<forall>op fd v. 0 \<le> epoll_ctl op fd v \<Longrightarrow> r = 0"
  by (auto simp: addEvent_def assert_that_def bindE_Inr_iff Let_def not_less [symmetric] split: if_splits)

text \<open>
  \<open>stop\<close> does not end an accept loop that waits. Its clean-up empties the list of listening sockets and
  wakes the coroutine in \<open>accept\<close>, but the loop still holds the socket, so the descriptor stays open;
  the woken call was not timed out, so it tries again, finds no connection and waits as before. The
  next client that connects is still accepted and handed to the worker.
\<close>

theorem stop_leaves_accept_running:
  assumes "wf_net n" and "m_listenSockets srv = [s]" and "acceptWorker srv = []" and "\<not> m_stopped srv"
    and "accept_loops srv = [(s, In_accept)]"
    and "get_fd (sk_fd s) (hk_io (n_hook n)) = Inr fc" and "fc_events fc = READ" and "2 \<le> length (io_fds (hk_io (n_hook n)))"
    and "hk_tinfo (n_hook n) ti = Some 0" and "\<forall>op fd v. 0 \<le> epoll_ctl op fd v"
  shows "\<exists>n1 h1 h2. run_task epoll_ctl (snd (srv_stop srv)) n
        = Inr (srv\<lparr>m_stopped := True, m_listenSockets := [], acceptWorker := []\<rparr>, n1)
    \<and> n_open n1 = n_open n
    \<and> s_queue (io_sched (hk_io (n_hook n1))) = s_queue (io_sched (hk_io (n_hook n))) @ [ctx_task (fc_read fc)]
    \<and> do_io_resume (-1) ti None (n_hook n1) = Inr (Attempting (-1) ti, h1)
    \<and> do_io_attempt epoll_ctl now p (sk_fd s) READ (-1) ti (-1, EAGAIN) h1 = Inr (Waiting (-1) ti None, h2)
    \<and> (\<exists>fc2. get_fd (sk_fd s) (hk_io h2) = Inr fc2 \<and> has_event (fc_events fc2) READ)"
proof -
  let ?h = "n_hook n" and ?srv = "srv\<lparr>m_stopped := True, acceptWorker := []\<rparr>"
  have wf: "wf_io (hk_io ?h)" "hk_has_iom ?h" using assms(1) by (simp_all add: wf_net_def)
  from cancelAll_reader [OF wf(1) assms(6,7,10)] obtain io fc1 where
    c: "cancelAll epoll_ctl (sk_fd s) (hk_io ?h) = Inr (True, io)" "wf_io io" "length (io_fds io) = length (io_fds (hk_io ?h))"
      "s_queue (io_sched io) = s_queue (io_sched (hk_io ?h)) @ [ctx_task (fc_read fc)]"
      "get_fd (sk_fd s) io = Inr fc1" "fc_events fc1 = 0" by blast
  let ?n1 = "n\<lparr>n_hook := ?h\<lparr>hk_io := io\<rparr>\<rparr>" and ?h1 = "?h\<lparr>hk_io := io\<rparr>"
  have "snd (srv_stop srv) = srv\<lparr>m_stopped := True, acceptWorker := [Clean_up]\<rparr>"
    using assms(3,4) by (simp add: srv_stop_def)
  moreover have "clean_up epoll_ctl ?srv n = Inr (srv\<lparr>m_stopped := True, m_listenSockets := [], acceptWorker := []\<rparr>, ?n1)"
    using c(1) wf(2) assms(2,5)
    by (simp add: clean_up_def sk_cancelAll_def on_io_def clear_listen_def held_def close_all_def)
  ultimately have run: "run_task epoll_ctl (snd (srv_stop srv)) n
      = Inr (srv\<lparr>m_stopped := True, m_listenSockets := [], acceptWorker := []\<rparr>, ?n1)"
    by (simp add: run_task_def)
  have resume: "do_io_resume (-1) ti None ?h1 = Inr (Attempting (-1) ti, ?h1)"
    using assms(9) by (simp add: do_io_resume_def cancel_timer_def)
  have fd: "0 \<le> sk_fd s" "fc1 = io_fds io ! nat (sk_fd s)" using c(5) by (auto simp: get_fd_Inr)
  have free: "\<not> has_event (fc_events (io_fds io ! nat (sk_fd s))) READ" using c(6) fd(2) by (simp add: has_event_def)
  let ?h2 = "set_errno EAGAIN ?h1"
  have len: "2 \<le> length (io_fds (hk_io ?h2))" using c(3) assms(8) by (simp add: set_errno_def)
  have "wf_io (hk_io ?h2)" "hk_io ?h2 = io" using c(2) by (simp_all add: set_errno_def)
  from addEvent_ok [OF this(1) len, of READ "sk_fd s" None EXEC epoll_ctl "hk_cur ?h2"] fd(1) free this(2)
  obtain r io2 where a: "addEvent epoll_ctl True (hk_cur ?h2) EXEC (sk_fd s) READ None io = Inr (r, io2)"
      "r = 0 \<longrightarrow> (\<exists>fc. get_fd (sk_fd s) io2 = Inr fc \<and> has_event (fc_events fc) READ)"
    by auto
  have r: "r = 0" by (rule addEvent_succeeds [OF a(1) assms(10)])
  have "do_io_attempt epoll_ctl now p (sk_fd s) READ (-1) ti (-1, EAGAIN) ?h1 = Inr (Waiting (-1) ti None, ?h2\<lparr>hk_io := io2\<rparr>)"
    using a(1) r wf(2) by (simp add: do_io_attempt_def arm_io_def set_errno_def)
  then show ?thesis using run resume a(2) r c(4) by auto
qed

definition one_listener :: socket where
  "one_listener = (new_Socket 2 1 0)\<lparr>sk_fd := 0\<rparr>"

definition waiting_net :: net where
  "waiting_net = \<lparr>n_hook = one_socket\<lparr>hk_io := waiting_io\<lparr>io_fds := io_fds waiting_io @ [new_fd_context 1]\<rparr>\<rparr>,
     n_open = [0], n_faults = [], n_sockname = (\<lambda>_. any4), n_peername = (\<lambda>_. any4)\<rparr>"

lemma waiting_net_wf: "wf_net waiting_net"
proof -
  have "wf_io (waiting_io\<lparr>io_fds := io_fds waiting_io @ [new_fd_context 1]\<rparr>)"
    by (simp add: waiting_io_def wf_io_def fc_ok_def valid_events_def ctx_ok_def has_event_def new_fd_context_def NONE_def
        event_count_def pending_sum_def empty_ctx_def READ_def WRITE_def less_Suc_eq nth_Cons split: nat.split)
  then show ?thesis using one_socket_ok by (auto simp: wf_net_def waiting_net_def one_socket_def nth_list_update split: if_splits)
qed

definition waiting_server :: tcp_server where
  "waiting_server = (TcpServer 1000)\<lparr>m_listenSockets := [one_listener], m_stopped := False, accept_loops := [(one_listener, In_accept)]\<rparr>"

theorem stop_leaves_accept_running_witness:
  "\<exists>srv1 n1 h1 h2. run_task (\<lambda>_ _ _. 0) (snd (srv_stop waiting_server)) waiting_net = Inr (srv1, n1)
    \<and> m_stopped srv1 \<and> m_listenSockets srv1 = [] \<and> n_open n1 = [0]
    \<and> do_io_resume (-1) 7 None (n_hook n1) = Inr (Attempting (-1) 7, h1)
    \<and> do_io_attempt (\<lambda>_ _ _. 0) 0 1 0 READ (-1) 7 (-1, EAGAIN) h1 = Inr (Waiting (-1) 7 None, h2)"
  using stop_leaves_accept_running [OF waiting_net_wf, of waiting_server one_listener "io_fds waiting_io ! 0" 7 "\<lambda>_ _ _. 0" 0 1]
  by (auto simp: waiting_server_def TcpServer_def waiting_net_def one_socket_def waiting_io_def get_fd_def one_listener_def)

end
