(* ===== verification/Application.thy ===== *)
theory Application
  imports Environment Log_Config Tcp_Server Http_Server Uri
begin

text \<open>
  \<open>application.cpp\<close>: the configuration of the HTTP servers, the start of the program up to the choice
  of how to run, and the coroutine that makes and starts the configured servers. What the operating
  system and the YAML library answer is a parameter. Running the program is in \<open>Process\<close>.
\<close>

section \<open>The configuration of a server\<close>

record http_conf =
  hc_address :: "string list"
  hc_keepalive :: int
  hc_recv_timeout :: int
  hc_name :: string

definition HttpServerConf :: http_conf where
  "HttpServerConf = \<lparr>hc_address = [], hc_keepalive = 0, hc_recv_timeout = 2 * 60 * 1000, hc_name = ''http_server''\<rparr>"

definition conf_isValid :: "http_conf \<Rightarrow> bool" where
  "conf_isValid conf \<longleftrightarrow> hc_address conf \<noteq> []"

text \<open>\<open>node[key].as<T>(fallback)\<close>.\<close>

definition as_or :: "(yaml \<Rightarrow> 'a option) \<Rightarrow> 'a \<Rightarrow> yaml \<Rightarrow> string \<Rightarrow> 'a" where
  "as_or as fallback node key =
     (case field node key of None \<Rightarrow> fallback | Some n \<Rightarrow> (case as n of None \<Rightarrow> fallback | Some v \<Rightarrow> v))"

text \<open>Indexing a scalar by a name throws.\<close>

definition conf_from :: "(string \<Rightarrow> yaml option) \<Rightarrow> (yaml \<Rightarrow> string) \<Rightarrow> (yaml \<Rightarrow> yaml list) \<Rightarrow> (yaml \<Rightarrow> string option)
    \<Rightarrow> (yaml \<Rightarrow> int option) \<Rightarrow> string \<Rightarrow> http_conf option" where
  "conf_from load emit items as_str as_int val =
     (case load val of
        None \<Rightarrow> None
      | Some (Y_scalar _) \<Rightarrow> None
      | Some node \<Rightarrow>
          Some \<lparr>hc_address = (case field node ''address'' of None \<Rightarrow> [] | Some a \<Rightarrow> map emit (items a)),
                hc_keepalive = as_or as_int (hc_keepalive HttpServerConf) node ''keppalive'',
                hc_recv_timeout = as_or as_int (hc_recv_timeout HttpServerConf) node ''recv_timeout'',
                hc_name = as_or as_str (hc_name HttpServerConf) node ''name''\<rparr>)"

definition conf_to :: "(yaml \<Rightarrow> string) \<Rightarrow> (int \<Rightarrow> string) \<Rightarrow> http_conf \<Rightarrow> string" where
  "conf_to emit int_text conf = emit (Y_map
     ([(Y_scalar ''name'', Y_scalar (hc_name conf)), (Y_scalar ''keepalive'', Y_scalar (int_text (hc_keepalive conf))),
       (Y_scalar ''recv_timeout'', Y_scalar (int_text (hc_recv_timeout conf)))]
      @ (if hc_address conf = [] then [] else [(Y_scalar ''address'', Y_seq (map Y_scalar (hc_address conf)))])))"

text \<open>
  The configuration of a server is read back from its text except for its keep-alive flag, which is
  written under one name and read under another (\<open>keppalive\<close>): what is read is always the default.
\<close>

theorem conf_loses_keepalive:
  assumes "\<And>n. load (emit n) = Some n" and "\<And>s. as_str (Y_scalar s) = Some s" and "\<And>i. as_int (Y_scalar (int_text i)) = Some i"
    and "\<And>ns. items (Y_seq ns) = ns" and "\<forall>x \<in> set (hc_address conf). emit (Y_scalar x) = x"
  shows "conf_from load emit items as_str as_int (conf_to emit int_text conf) = Some (conf\<lparr>hc_keepalive := 0\<rparr>)"
proof -
  have "map emit (map Y_scalar (hc_address conf)) = hc_address conf" using assms(5) by (simp add: map_idI)
  then show ?thesis using assms(1-4) by (cases conf) (auto simp: conf_from_def conf_to_def as_or_def HttpServerConf_def)
qed

definition local_conf :: http_conf where
  "local_conf = \<lparr>hc_address = [''h:80''], hc_keepalive = 1, hc_recv_timeout = 500, hc_name = ''kit''\<rparr>"

definition emit_local :: "yaml \<Rightarrow> string" where
  "emit_local n = (if n = Y_scalar ''h:80'' then ''h:80'' else yaml_text n)"

definition read_local :: "string \<Rightarrow> yaml option" where
  "read_local s = (if s = ''h:80'' then Some (Y_scalar ''h:80'') else yaml_read s)"

lemma yaml_text_other: "CHR ''h'' # s \<noteq> yaml_text n"
proof
  assume "CHR ''h'' # s = yaml_text n"
  then have "CHR ''h'' \<in> set (yaml_text n)" by (metis list.set_intros(1))
  then show False by (simp add: yaml_text_def split: if_splits)
qed

lemma read_emit_local: "read_local (emit_local n) = Some n"
  using yaml_text_other [symmetric] by (simp add: read_local_def emit_local_def)

definition int_text :: "int \<Rightarrow> string" where
  "int_text i = replicate (to_nat i) (CHR ''x'')"

definition int_of_node :: "yaml \<Rightarrow> int option" where
  "int_of_node n = Some (from_nat (length (Scalar n)))"

theorem conf_loses_keepalive_witness:
  "conf_from read_local emit_local yaml_items (\<lambda>n. Some (Scalar n)) int_of_node (conf_to emit_local int_text local_conf)
   = Some (local_conf\<lparr>hc_keepalive := 0\<rparr>) \<and> hc_keepalive local_conf = 1"
proof
  show "conf_from read_local emit_local yaml_items (\<lambda>n. Some (Scalar n)) int_of_node (conf_to emit_local int_text local_conf)
      = Some (local_conf\<lparr>hc_keepalive := 0\<rparr>)"
  proof (rule conf_loses_keepalive [OF read_emit_local])
    show "int_of_node (Y_scalar (int_text i)) = Some i" for i by (simp add: int_text_def int_of_node_def)
    show "\<forall>x \<in> set (hc_address local_conf). emit_local (Y_scalar x) = x" by (simp add: local_conf_def emit_local_def)
  qed simp_all
qed (simp add: local_conf_def)

section \<open>The start of the program\<close>

text \<open>Configuration values by type.\<close>

datatype conf_value = V_string string | V_servers "http_conf list" | V_other string

record app_os =
  os_link :: "string option"
  os_tree :: "string \<Rightarrow> entry list"
  os_lstat :: "string \<Rightarrow> nat option"
  os_yaml :: "string \<Rightarrow> yaml option"
  os_first_line :: "string \<Rightarrow> string option"
  os_atoi :: "string \<Rightarrow> int"
  os_alive :: "int \<Rightarrow> bool"
  os_mkdir :: "string \<Rightarrow> paths \<Rightarrow> paths option"

record 's app =
  app_env :: env
  app_reg :: "(conf_value, 's) registry"
  app_state :: 's
  app_seen :: "string \<Rightarrow> nat"
  app_fs :: paths
  app_out :: string

definition LoadFromConfigDir ::
  "app_os \<Rightarrow> (yaml \<Rightarrow> string) \<Rightarrow> (string \<Rightarrow> string \<Rightarrow> conf_value option) \<Rightarrow> string \<Rightarrow> 's app \<Rightarrow> 's app" where
  "LoadFromConfigDir os emit from_str path a =
     (let absolute_path = getAbsolutePath path (app_env a);
          files = ListAllFile absolute_path ''.yaml'' (os_tree os absolute_path) [];
          (seen, reg, s) = load_files (os_lstat os) (os_yaml os) emit from_str files (app_seen a) (app_reg a, app_state a)
      in a\<lparr>app_seen := seen, app_reg := reg, app_state := s\<rparr>)"

definition string_value :: "string \<Rightarrow> (conf_value, 's) registry \<Rightarrow> string" where
  "string_value name reg =
     (case reg name of Some cv \<Rightarrow> (case cv_val cv of V_string s \<Rightarrow> s | _ \<Rightarrow> []) | None \<Rightarrow> [])"

definition pid_path :: "(conf_value, 's) registry \<Rightarrow> string" where
  "pid_path reg = string_value ''server.work_path'' reg @ ''/'' @ string_value ''server.pid_file'' reg"

definition app_helps :: "env \<Rightarrow> env" where
  "app_helps e = addHelp ''h'' ''see help'' (addHelp ''c'' ''config file peth, default: \"./conf\"''
     (addHelp ''d'' ''run as daemon'' (addHelp ''s'' ''start with the terminal'' e)))"

definition app_init ::
  "app_os \<Rightarrow> (yaml \<Rightarrow> string) \<Rightarrow> (string \<Rightarrow> string \<Rightarrow> conf_value option) \<Rightarrow> string list \<Rightarrow> 's app \<Rightarrow> bool \<times> 's app" where
  "app_init os emit from_str argv a =
     (let (ok, e) = env_init (os_link os) argv (app_helps (app_env a));
          is_print_help = (\<not> ok \<or> env_has ''h'' e);
          a1 = LoadFromConfigDir os emit from_str (getConfigPath e) (a\<lparr>app_env := e\<rparr>);
          a2 = a1\<lparr>app_out := app_out a1 @ printHelp e\<rparr>
      in if is_print_help then (False, a2)
         else if \<not> env_has ''s'' e \<and> \<not> env_has ''d'' e then (False, a2)
         else if IsRunningPidFile (os_first_line os (pid_path (app_reg a1))) (os_atoi os) (os_alive os) then (False, a1)
         else
           let (made, fs) = Mkdir (os_mkdir os) (string_value ''server.work_path'' (app_reg a1)) (app_fs a1)
           in (made, a1\<lparr>app_fs := fs\<rparr>))"

text \<open>
  The program goes on to run exactly when its options could be read, help was not asked for, one of
  the two ways to run was, no process of an earlier start is alive and the working directory can be
  made; it prints the help texts exactly in the first three cases.
\<close>

lemma app_init_decides:
  assumes "env_init (os_link os) argv (app_helps (app_env a)) = (ok, e)"
    and "LoadFromConfigDir os emit from_str (getConfigPath e) (a\<lparr>app_env := e\<rparr>) = a1"
  shows "(fst (app_init os emit from_str argv a) \<longleftrightarrow>
        ok \<and> \<not> env_has ''h'' e \<and> (env_has ''s'' e \<or> env_has ''d'' e)
        \<and> \<not> IsRunningPidFile (os_first_line os (pid_path (app_reg a1))) (os_atoi os) (os_alive os)
        \<and> fst (Mkdir (os_mkdir os) (string_value ''server.work_path'' (app_reg a1)) (app_fs a1)))
    \<and> app_out (snd (app_init os emit from_str argv a)) = app_out a1 @
        (if \<not> ok \<or> env_has ''h'' e \<or> \<not> env_has ''s'' e \<and> \<not> env_has ''d'' e then printHelp e else [])"
  using assms by (simp add: app_init_def Let_def split_def)

section \<open>Starting the servers\<close>

text \<open>
  The addresses that one text stands for: itself resolved, or the addresses of an interface with the
  port behind the colon. An address that is not an IP address becomes a null pointer.
\<close>

definition conf_addresses ::
  "resolver \<Rightarrow> (string \<Rightarrow> address list option) \<Rightarrow> (string \<Rightarrow> int) \<Rightarrow> string \<Rightarrow> address option list" where
  "conf_addresses getaddrinfo interfaces atoi x =
     (if CHR '':'' \<notin> set x then []
      else case LookUpAny getaddrinfo x 2 0 0 of
        Some addr \<Rightarrow> [Some addr]
      | None \<Rightarrow>
          (case interfaces (takeWhile (\<lambda>c. c \<noteq> CHR '':'') x) of
             None \<Rightarrow> []
           | Some result \<Rightarrow>
               map (\<lambda>a. if is_ip a then Some (setPort (word_of_int (atoi (tl (dropWhile (\<lambda>c. c \<noteq> CHR '':'') x)))) a) else None)
                 result))"

record server =
  s_tcp :: tcp_server
  s_http :: http_server

datatype app_result =
    App_running "(string \<times> server) list" net
  | App_exit "address list"

definition start_server ::
  "epoll \<Rightarrow> resolver \<Rightarrow> (string \<Rightarrow> address list option) \<Rightarrow> (string \<Rightarrow> int) \<Rightarrow> int \<Rightarrow> http_conf \<Rightarrow> net
     \<Rightarrow> (address list + server \<times> net) res" where
  "start_server epoll_ctl getaddrinfo interfaces atoi read_timeout conf n =
     (let address = concat (map (conf_addresses getaddrinfo interfaces atoi) (hc_address conf));
          http = HttpServer (hc_keepalive conf \<noteq> 0) in
      if None \<in> set address then Inl Null_deref
      else bindE (srv_bind_all epoll_ctl (map the address) [] (TcpServer read_timeout) n) (\<lambda>(ok, fails, tcp, n1).
        if \<not> ok then Inr (Inl fails)
        else Inr (Inr (\<lparr>s_tcp = snd (srv_start tcp), s_http = (if hc_name conf \<noteq> [] then setName (hc_name conf) http else http)\<rparr>, n1))))"

text \<open>\<open>m_servers\<close> is the list of what was pushed, with the names.\<close>

fun run_coroutine ::
  "epoll \<Rightarrow> resolver \<Rightarrow> (string \<Rightarrow> address list option) \<Rightarrow> (string \<Rightarrow> int) \<Rightarrow> int \<Rightarrow> http_conf list
     \<Rightarrow> (string \<times> server) list \<Rightarrow> net \<Rightarrow> app_result res" where
  "run_coroutine epoll_ctl getaddrinfo interfaces atoi read_timeout [] servers n = Inr (App_running servers n)"
| "run_coroutine epoll_ctl getaddrinfo interfaces atoi read_timeout (conf # confs) servers n =
     bindE (start_server epoll_ctl getaddrinfo interfaces atoi read_timeout conf n) (\<lambda>r.
       case r of
         Inl fails \<Rightarrow> Inr (App_exit fails)
       | Inr (srv, n1) \<Rightarrow>
           run_coroutine epoll_ctl getaddrinfo interfaces atoi read_timeout confs (servers @ [(hc_name conf, srv)]) n1)"

definition getServer :: "string \<Rightarrow> (string \<times> server) list \<Rightarrow> server list option" where
  "getServer type servers =
     (let found = filter (\<lambda>(name, _). name = type) servers in if found = [] then None else Some (map snd found))"

text \<open>What a started server is: it runs, with a socket for each address and a task for each socket.\<close>

definition started ::
  "resolver \<Rightarrow> (string \<Rightarrow> address list option) \<Rightarrow> (string \<Rightarrow> int) \<Rightarrow> int \<Rightarrow> http_conf \<Rightarrow> string \<times> server \<Rightarrow> bool" where
  "started getaddrinfo interfaces atoi read_timeout conf named_server \<longleftrightarrow>
     (let (name, srv) = named_server; tcp = s_tcp srv in
      name = hc_name conf \<and> \<not> m_stopped tcp \<and> srv_recvTimeout tcp = read_timeout
      \<and> length (m_listenSockets tcp) = length (concat (map (conf_addresses getaddrinfo interfaces atoi) (hc_address conf)))
      \<and> acceptWorker tcp = map Start_accept (m_listenSockets tcp)
      \<and> hs_isKeepalive (s_http srv) = (hc_keepalive conf \<noteq> 0)
      \<and> hs_name (s_http srv) = (if hc_name conf \<noteq> [] then hc_name conf else ''kit/1.0.0''))"

lemma start_server_ok:
  assumes "wf_net n" and "start_server epoll_ctl getaddrinfo interfaces atoi t conf n = Inr (Inr (srv, n1))"
  shows "started getaddrinfo interfaces atoi t conf (hc_name conf, srv) \<and> wf_net n1
    \<and> set (n_open n1) = set (n_open n) \<union> sk_fd ` set (m_listenSockets (s_tcp srv))
    \<and> set (n_open n) \<inter> sk_fd ` set (m_listenSockets (s_tcp srv)) = {}"
proof -
  define address where "address = concat (map (conf_addresses getaddrinfo interfaces atoi) (hc_address conf))"
  have "srv_ok (set (n_open n)) (TcpServer t, n)" using assms(1) by (simp add: srv_ok_def TcpServer_def holders_def held_def)
  from srv_bind_all_ok [OF this, of epoll_ctl "map the address" "[]"] obtain r out tcp n2 where
    b: "srv_bind_all epoll_ctl (map the address) [] (TcpServer t) n = Inr (r, out, tcp, n2)" "srv_ok (set (n_open n)) (tcp, n2)"
      "if r then \<exists>new. tcp = (TcpServer t)\<lparr>m_listenSockets := m_listenSockets (TcpServer t) @ new\<rparr>
          \<and> length new = length (map the address) \<and> (\<forall>s \<in> set new. sk_fd s \<noteq> -1)
       else tcp = (TcpServer t)\<lparr>m_listenSockets := []\<rparr>" by blast
  have "None \<notin> set address" "r" using assms(2) b(1) by (auto simp: start_server_def address_def [symmetric] Let_def split: if_splits)
  then obtain new where new: "tcp = (TcpServer t)\<lparr>m_listenSockets := new\<rparr>" "length new = length address"
    using b(3) by (auto simp: TcpServer_def)
  have srv: "n1 = n2" "s_tcp srv = snd (srv_start tcp)"
      "s_http srv = (if hc_name conf \<noteq> [] then setName (hc_name conf) (HttpServer (hc_keepalive conf \<noteq> 0)) else HttpServer (hc_keepalive conf \<noteq> 0))"
    using assms(2) b(1) \<open>None \<notin> set address\<close> \<open>r\<close> by (auto simp: start_server_def address_def [symmetric] Let_def)
  have tcp: "s_tcp srv = tcp\<lparr>m_stopped := False, acceptWorker := map Start_accept new\<rparr>"
    using srv(2) new(1) by (simp add: srv_start_def TcpServer_def)
  have "started getaddrinfo interfaces atoi t conf (hc_name conf, srv)"
    using new tcp srv(3) by (simp add: started_def Let_def address_def TcpServer_def HttpServer_def setName_def)
  moreover have "holders tcp = set new" "worker tcp = []" using new(1) by (simp_all add: holders_def held_def TcpServer_def)
  ultimately show ?thesis using b(2) srv(1) tcp new(1) by (simp add: srv_ok_def)
qed

lemma run_coroutine_ok:
  assumes "wf_net n" and "run_coroutine epoll_ctl getaddrinfo interfaces atoi t confs servers n = Inr (App_running servers' n')"
  shows "\<exists>new. servers' = servers @ new \<and> list_all2 (started getaddrinfo interfaces atoi t) confs new \<and> wf_net n'
    \<and> set (n_open n') = set (n_open n) \<union> (\<Union>s \<in> set new. sk_fd ` set (m_listenSockets (s_tcp (snd s))))"
  using assms
proof (induction confs arbitrary: servers n)
  case (Cons conf confs)
  obtain r where r: "start_server epoll_ctl getaddrinfo interfaces atoi t conf n = Inr r"
    using Cons.prems(2) by (auto simp: bindE_Inr_iff)
  then obtain srv n1 where s: "r = Inr (srv, n1)"
      "run_coroutine epoll_ctl getaddrinfo interfaces atoi t confs (servers @ [(hc_name conf, srv)]) n1 = Inr (App_running servers' n')"
    using Cons.prems(2) by (cases r) auto
  note one = start_server_ok [OF Cons.prems(1) r [unfolded s(1)]]
  then have "wf_net n1" by blast
  from Cons.IH [OF this s(2)] obtain new where new: "servers' = (servers @ [(hc_name conf, srv)]) @ new"
      "list_all2 (started getaddrinfo interfaces atoi t) confs new" "wf_net n'"
      "set (n_open n') = set (n_open n1) \<union> (\<Union>s \<in> set new. sk_fd ` set (m_listenSockets (s_tcp (snd s))))" by blast
  then show ?case using one by (intro exI [of _ "(hc_name conf, srv) # new"]) auto
qed auto



end
