(* ===== verification/Process.thy ===== *)
theory Process
  imports Application
begin

text \<open>
  The process behind the application: \<open>Application::run\<close> and \<open>Application::main\<close> with the file of the process
  number, and \<open>daemon.cpp\<close>, the parent process that starts the program again after a crash. What
  \<open>fork\<close> and \<open>waitpid\<close> come to is a script. A stream that is open for writing keeps a short text in its
  buffer until it is closed.
\<close>

section \<open>Information about the process\<close>

record process_info =
  parent_pid :: int
  main_pid :: int
  parent_start_time :: "64 word"
  main_start_time :: "64 word"
  restart_count :: "32 word"

text \<open>\<open>Timer2Str\<close> prints a time by \<open>strftime\<close>.\<close>

definition info_toString :: "(64 word \<Rightarrow> string) \<Rightarrow> (int \<Rightarrow> string) \<Rightarrow> process_info \<Rightarrow> string" where
  "info_toString Timer2Str pid_text i =
     [CHR 0x0A] @ ''[ProcessInfo]:'' @ [CHR 0x0A]
     @ ''paent_pid= '' @ pid_text (parent_pid i) @ [CHR 0x0A]
     @ ''main_pid= '' @ pid_text (main_pid i) @ [CHR 0x0A]
     @ ''parent_start_time= '' @ Timer2Str (parent_start_time i) @ [CHR 0x0A]
     @ ''main_start_time= '' @ Timer2Str (main_start_time i) @ [CHR 0x0A]
     @ ''restart_count= '' @ dec_digits (unat (restart_count i))"

section \<open>The daemon\<close>

text \<open>What \<open>fork\<close> comes to: the child with its number and the time, the parent that sees the child end, or a failure.\<close>

datatype fork_ret = Forked_child int "64 word" | Forked_parent int | Fork_failed

datatype daemon_end = Returns int | Waits_for_child

definition real_start :: "string list \<Rightarrow> (string list \<Rightarrow> int) \<Rightarrow> int" where
  "real_start argv main_cb = main_cb argv"

fun daemon_loop :: "string list \<Rightarrow> (string list \<Rightarrow> int) \<Rightarrow> fork_ret list \<Rightarrow> process_info \<Rightarrow> daemon_end \<times> process_info" where
  "daemon_loop argv main_cb [] i = (Waits_for_child, i)"
| "daemon_loop argv main_cb (r # rs) i =
     (case r of
        Forked_child pid now \<Rightarrow> (Returns (real_start argv main_cb), i\<lparr>main_pid := pid, main_start_time := now\<rparr>)
      | Forked_parent status \<Rightarrow>
          if status \<noteq> 0 then daemon_loop argv main_cb rs (i\<lparr>restart_count := restart_count i + 1\<rparr>)
          else (Returns 0, i)
      | Fork_failed \<Rightarrow> (Returns (-1), i))"

text \<open>\<open>daemon_ret\<close> is what the system call \<open>daemon\<close> returns.\<close>

definition real_daemon ::
  "string list \<Rightarrow> (string list \<Rightarrow> int) \<Rightarrow> int \<Rightarrow> int \<Rightarrow> 64 word \<Rightarrow> fork_ret list \<Rightarrow> process_info \<Rightarrow> daemon_end \<times> process_info" where
  "real_daemon argv main_cb daemon_ret pid now rs i =
     (if daemon_ret < 0 then (Returns (-1), i)
      else daemon_loop argv main_cb rs (i\<lparr>parent_pid := pid, parent_start_time := now\<rparr>))"

definition start_daemon ::
  "string list \<Rightarrow> (string list \<Rightarrow> int) \<Rightarrow> bool \<Rightarrow> int \<Rightarrow> int \<Rightarrow> 64 word \<Rightarrow> fork_ret list \<Rightarrow> process_info \<Rightarrow> daemon_end \<times> process_info" where
  "start_daemon argv main_cb is_daemon daemon_ret pid now rs i =
     (if \<not> is_daemon then (Returns (real_start argv main_cb), i)
      else real_daemon argv main_cb daemon_ret pid now rs i)"

text \<open>\<open>run\<close> gives the number back as a truth value, so a failure is \<open>True\<close>.\<close>

definition app_run ::
  "string list \<Rightarrow> (string list \<Rightarrow> int) \<Rightarrow> int \<Rightarrow> int \<Rightarrow> 64 word \<Rightarrow> fork_ret list \<Rightarrow> 's app \<Rightarrow> process_info \<Rightarrow> bool option \<times> process_info" where
  "app_run argv app_main daemon_ret pid now rs a i =
     (case start_daemon argv app_main (env_has ''d'' (app_env a)) daemon_ret pid now rs i of
        (Returns r, i') \<Rightarrow> (Some (r \<noteq> 0), i')
      | (Waits_for_child, i') \<Rightarrow> (None, i'))"

lemma daemon_loop_crashes:
  "\<forall>s \<in> set crashes. s \<noteq> 0 \<Longrightarrow>
   daemon_loop argv main_cb (map Forked_parent crashes @ rest) i
     = daemon_loop argv main_cb rest (i\<lparr>restart_count := restart_count i + word_of_nat (length crashes)\<rparr>)"
  by (induction crashes arbitrary: i) (simp_all add: algebra_simps)

text \<open>
  A daemon starts its program again after every crash and counts the crashes, each time in a child that
  runs the program; it returns success after the first orderly end and an error when a child cannot be made,
  and without the option the program is run in the process itself.
\<close>

theorem daemon_restarts:
  assumes "\<forall>s \<in> set crashes. s \<noteq> 0" and "daemon_ret \<ge> 0"
  shows "start_daemon argv main_cb True daemon_ret pid now (map Forked_parent crashes @ [Forked_child cpid cnow]) i
      = (Returns (main_cb argv), i\<lparr>parent_pid := pid, parent_start_time := now,
           restart_count := restart_count i + word_of_nat (length crashes), main_pid := cpid, main_start_time := cnow\<rparr>)
    \<and> fst (start_daemon argv main_cb True daemon_ret pid now (map Forked_parent crashes @ Forked_parent 0 # rest) i) = Returns 0
    \<and> fst (start_daemon argv main_cb True daemon_ret pid now (map Forked_parent crashes @ Fork_failed # rest) i) = Returns (-1)
    \<and> start_daemon argv main_cb False daemon_ret pid now rest i = (Returns (main_cb argv), i)"
  using assms by (simp add: start_daemon_def real_daemon_def real_start_def daemon_loop_crashes)

theorem daemon_restarts_witness:
  "fst (start_daemon [''kit''] (\<lambda>_. 7) True 0 100 5 (map Forked_parent [9, 9] @ [Forked_child 101 6])
     \<lparr>parent_pid = 0, main_pid = 0, parent_start_time = 0, main_start_time = 0, restart_count = 0\<rparr>) = Returns 7"
  using daemon_restarts [of "[9, 9]" 0 "[''kit'']" "\<lambda>_. 7" 100 5 101 6
      "\<lparr>parent_pid = 0, main_pid = 0, parent_start_time = 0, main_start_time = 0, restart_count = 0\<rparr>" "[]"]
  by simp

section \<open>The file of the process number\<close>

datatype main_pc = Main_start | Main_opened | Main_running | Main_returned int

record app_main =
  am_pc :: main_pc
  am_files :: "string \<rightharpoonup> string"
  am_buffer :: string

text \<open>
  The steps of \<open>main\<close>: the file is opened, which empties it, the number goes to the buffer of the stream, the
  event manager runs until it is stopped, and the stream is closed when the function returns.
\<close>

definition main_step :: "(string \<Rightarrow> bool) \<Rightarrow> string \<Rightarrow> nat \<Rightarrow> app_main \<Rightarrow> app_main" where
  "main_step can_open pid_file pid m =
     (case am_pc m of
        Main_start \<Rightarrow>
          if can_open pid_file then m\<lparr>am_pc := Main_opened, am_files := (am_files m)(pid_file \<mapsto> []), am_buffer := []\<rparr>
          else m\<lparr>am_pc := Main_returned (-1)\<rparr>
      | Main_opened \<Rightarrow> m\<lparr>am_pc := Main_running, am_buffer := am_buffer m @ dec_digits pid\<rparr>
      | Main_running \<Rightarrow> m\<lparr>am_pc := Main_returned 0, am_files := (am_files m)(pid_file \<mapsto> am_buffer m), am_buffer := []\<rparr>
      | Main_returned _ \<Rightarrow> m)"

text \<open>What \<open>getline\<close> reads first; it fails on an empty file.\<close>

definition first_line :: "(string \<rightharpoonup> string) \<Rightarrow> string \<Rightarrow> string option" where
  "first_line files file =
     (case files file of
        None \<Rightarrow> None
      | Some t \<Rightarrow> if t = [] then None else Some (takeWhile (\<lambda>c. c \<noteq> CHR 0x0A) t))"

lemma main_steps:
  "(main_step can_open pid_file pid ^^ n) \<lparr>am_pc = Main_start, am_files = files, am_buffer = []\<rparr> =
     (if n = 0 then \<lparr>am_pc = Main_start, am_files = files, am_buffer = []\<rparr>
      else if \<not> can_open pid_file then \<lparr>am_pc = Main_returned (-1), am_files = files, am_buffer = []\<rparr>
      else if n = 1 then \<lparr>am_pc = Main_opened, am_files = files(pid_file \<mapsto> []), am_buffer = []\<rparr>
      else if n = 2 then \<lparr>am_pc = Main_running, am_files = files(pid_file \<mapsto> []), am_buffer = dec_digits pid\<rparr>
      else \<lparr>am_pc = Main_returned 0, am_files = files(pid_file \<mapsto> dec_digits pid), am_buffer = []\<rparr>)"
  by (induction n) (auto simp: main_step_def)

text \<open>
  While the program runs, the file that holds its number is empty, because the number is only written when
  the file is closed at the end: a second start with the same configuration is not refused, although a
  process of the first one is alive. Once it has ended, the file names it.
\<close>

theorem second_start_is_not_refused:
  assumes "m = (main_step can_open (pid_path (app_reg a1)) pid ^^ n) \<lparr>am_pc = Main_start, am_files = files, am_buffer = []\<rparr>"
    and "env_init (os_link os) argv (app_helps (app_env a)) = (ok, e)"
    and "LoadFromConfigDir os emit from_str (getConfigPath e) (a\<lparr>app_env := e\<rparr>) = a1"
    and "os_first_line os = first_line (am_files m)"
  shows "(am_pc m \<in> {Main_opened, Main_running} \<longrightarrow>
        (fst (app_init os emit from_str argv a) \<longleftrightarrow> ok \<and> \<not> env_has ''h'' e \<and> (env_has ''s'' e \<or> env_has ''d'' e)
          \<and> fst (Mkdir (os_mkdir os) (string_value ''server.work_path'' (app_reg a1)) (app_fs a1))))
    \<and> (am_pc m = Main_returned 0 \<longrightarrow> os_first_line os (pid_path (app_reg a1)) = Some (dec_digits pid))"
proof -
  have no_break: "takeWhile (\<lambda>c. c \<noteq> CHR 0x0A) (dec_digits pid) = dec_digits pid"
    using dec_digits_range [of "CHR 0x0A" pid] by (auto simp: takeWhile_eq_all_conv)
  have "dec_digits pid \<noteq> []" by (subst dec_digits.simps) simp
  then have ended: "am_pc m = Main_returned 0 \<longrightarrow> os_first_line os (pid_path (app_reg a1)) = Some (dec_digits pid)"
    unfolding assms(1,4) main_steps by (simp add: first_line_def no_break)
  have "os_first_line os (pid_path (app_reg a1)) = None" if "am_pc m \<in> {Main_opened, Main_running}"
    using that unfolding assms(1,4) main_steps by (auto simp: first_line_def split: if_splits)
  then have "\<not> IsRunningPidFile (os_first_line os (pid_path (app_reg a1))) (os_atoi os) (os_alive os)" if "am_pc m \<in> {Main_opened, Main_running}"
    using that by (simp add: IsRunningPidFile_def)
  then show ?thesis using app_init_decides [OF assms(2,3)] ended by blast
qed

text \<open>A system without configuration files, on which the file is that of a running program.\<close>

definition quiet_env :: env where
  "quiet_env = \<lparr>m_args = Map.empty, m_helps = [], m_programName = [], m_exe = [], m_cwd = []\<rparr>"

definition quiet_os :: app_os where
  "quiet_os = \<lparr>os_link = Some ''/kit/server'', os_tree = (\<lambda>_. []), os_lstat = (\<lambda>_. None), os_yaml = (\<lambda>_. None),
     os_first_line = first_line (Map.empty(''/'' \<mapsto> [])), os_atoi = (\<lambda>_. 77), os_alive = (\<lambda>_. True), os_mkdir = (\<lambda>p fs. Some (insert p fs))\<rparr>"

theorem second_start_is_not_refused_witness:
  "fst (app_init quiet_os (\<lambda>_. []) (\<lambda>_ _. None) [''server'', ''-s'']
     (\<lparr>app_env = quiet_env, app_reg = Map.empty, app_state = (), app_seen = (\<lambda>_. 0), app_fs = {[]}, app_out = []\<rparr> :: unit app))"
proof -
  let ?a = "\<lparr>app_env = quiet_env, app_reg = Map.empty, app_state = (), app_seen = (\<lambda>_. 0), app_fs = {[]}, app_out = []\<rparr> :: unit app"
  obtain ok e where init: "env_init (os_link quiet_os) [''server'', ''-s''] (app_helps (app_env ?a)) = (ok, e)" by fastforce
  then have opts: "ok" "\<not> env_has ''h'' e" "env_has ''s'' e"
    by (auto simp: env_init_def quiet_os_def quiet_env_def app_helps_def addHelp_def env_has_def env_add_def)
  let ?a1 = "LoadFromConfigDir quiet_os (\<lambda>_. []) (\<lambda>_ _. None) (getConfigPath e) (?a\<lparr>app_env := e\<rparr>)"
  have a1: "app_reg ?a1 = Map.empty" "app_fs ?a1 = {[]}"
    by (simp_all add: LoadFromConfigDir_def quiet_os_def Let_def)
  have path: "pid_path (app_reg ?a1) = ''/''" unfolding a1(1) by (simp add: pid_path_def string_value_def)
  let ?m = "(main_step (\<lambda>_. True) (pid_path (app_reg ?a1)) 77 ^^ 2) \<lparr>am_pc = Main_start, am_files = Map.empty, am_buffer = []\<rparr>"
  have m: "am_pc ?m = Main_running" "os_first_line quiet_os = first_line (am_files ?m)"
    unfolding path main_steps by (simp_all add: quiet_os_def)
  have "fst (Mkdir (os_mkdir quiet_os) (string_value ''server.work_path'' (app_reg ?a1)) (app_fs ?a1))"
    unfolding a1 by (simp add: string_value_def Mkdir_def c_str_def)
  then show ?thesis using second_start_is_not_refused [OF refl init refl m(2)] m(1) opts by blast
qed

text \<open>The servers of the application by name.\<close>

definition listAllServer :: "(string \<times> server) list \<Rightarrow> (string \<times> server) list" where
  "listAllServer servers = servers"

definition http_conf_equal :: "http_conf \<Rightarrow> http_conf \<Rightarrow> bool" where
  "http_conf_equal c d \<longleftrightarrow> hc_address d = hc_address c \<and> hc_keepalive d = hc_keepalive c
     \<and> hc_recv_timeout d = hc_recv_timeout c \<and> hc_name d = hc_name c"

end
