(* ===== verification/Calls.thy ===== *)
theory Calls
  imports Hook
begin

text \<open>
  The rest of \<open>hook.cpp\<close>: finding the original functions, the switch of a thread, and the whole of
  \<open>fcntl\<close>, \<open>ioctl\<close> and \<open>setsockopt\<close>. The original functions are parameters over the kernel's side of the
  descriptors. The argument behind the named ones is the 64 bits that the caller left there; what is
  read of it depends on the command.
\<close>

section \<open>The original functions\<close>

definition hooked_names :: "string list" where
  "hooked_names = [''sleep'', ''usleep'', ''nanosleep'', ''socket'', ''connect'', ''accept'', ''read'', ''readv'', ''recv'',
     ''recvfrom'', ''recvmsg'', ''write'', ''writev'', ''send'', ''sendto'', ''sendmsg'', ''close'', ''fcntl'', ''ioctl'',
     ''setsockopt'', ''getsockopt'']"

text \<open>The pointers by name; the flag that the function looks at first is never set.\<close>

definition hook_init :: "(string \<Rightarrow> nat option) \<Rightarrow> (string \<rightharpoonup> nat) \<Rightarrow> (string \<rightharpoonup> nat)" where
  "hook_init dlsym originals = fold (\<lambda>name m. m(name := dlsym name)) hooked_names originals"

definition IsHookEnable :: "hook \<Rightarrow> bool" where
  "IsHookEnable h = hk_enable h"

definition SetHookEnable :: "bool \<Rightarrow> hook \<Rightarrow> hook" where
  "SetHookEnable flag h = h\<lparr>hk_enable := flag\<rparr>"

section \<open>fcntl\<close>

text \<open>What the original function is given behind the command.\<close>

datatype call_arg = No_arg | Int_arg "32 word" | Ptr_arg "64 word"

type_synonym fcntl_f = "int \<Rightarrow> int \<Rightarrow> call_arg \<Rightarrow> kernel \<Rightarrow> 32 word \<times> kernel"

definition F_GETFL :: int where "F_GETFL = 3"
definition F_SETFL :: int where "F_SETFL = 4"

text \<open>
  \<open>F_DUPFD\<close>, \<open>F_DUPFD_CLOEXEC\<close>, \<open>F_SETFD\<close>, \<open>F_SETOWN\<close>, \<open>F_SETSIG\<close>, \<open>F_SETLEASE\<close>, \<open>F_NOTIFY\<close>, \<open>F_SETPIPE_SZ\<close>; \<open>F_GETFD\<close>,
  \<open>F_GETOWN\<close>, \<open>F_GETSIG\<close>, \<open>F_GETLEASE\<close>, \<open>F_GETPIPE_SZ\<close>; the six commands of locks and the two of owners.
\<close>

definition int_commands :: "int list" where
  "int_commands = [0, 1030, 2, 8, 10, 1024, 1026, 1031]"

definition void_commands :: "int list" where
  "void_commands = [1, 9, 11, 1025, 1032]"

definition lock_commands :: "int list" where
  "lock_commands = [6, 7, 5, 37, 38, 36]"

definition owner_commands :: "int list" where
  "owner_commands = [16, 15]"

definition call_fcntl :: "fcntl_f \<Rightarrow> int \<Rightarrow> int \<Rightarrow> call_arg \<Rightarrow> hook \<Rightarrow> 32 word \<times> hook" where
  "call_fcntl fcntl_f fd cmd arg h =
     (let (r, k) = fcntl_f fd cmd arg (hk_kernel h) in (r, h\<lparr>hk_kernel := k\<rparr>))"

definition hook_fcntl :: "fcntl_f \<Rightarrow> int \<Rightarrow> int \<Rightarrow> 64 word \<Rightarrow> hook \<Rightarrow> (32 word \<times> hook) res" where
  "hook_fcntl fcntl_f fd cmd va h =
     (if cmd = F_SETFL then
        let arg = ucast va :: 32 word in
        bindE (with_ctx fd False h) (\<lambda>(ctx, h1).
          case ctx of
            None \<Rightarrow> Inr (call_fcntl fcntl_f fd cmd (Int_arg arg) h1)
          | Some c \<Rightarrow>
              if m_isClosed c \<or> \<not> m_isSocket c then Inr (call_fcntl fcntl_f fd cmd (Int_arg arg) h1)
              else
                let c1 = c\<lparr>m_userNonblock := (arg AND O_NONBLOCK \<noteq> 0)\<rparr>;
                    arg1 = (if m_sysNonblock c1 then arg OR O_NONBLOCK else arg AND NOT O_NONBLOCK)
                in Inr (call_fcntl fcntl_f fd cmd (Int_arg arg1) (h1\<lparr>hk_fds := put_ctx fd c1 (hk_fds h1)\<rparr>)))
      else if cmd = F_GETFL then
        let (arg, h1) = call_fcntl fcntl_f fd cmd No_arg h in
        bindE (with_ctx fd False h1) (\<lambda>(ctx, h2).
          case ctx of
            None \<Rightarrow> Inr (arg, h2)
          | Some c \<Rightarrow>
              if m_isClosed c \<or> \<not> m_isSocket c then Inr (arg, h2)
              else Inr (if m_userNonblock c then arg OR O_NONBLOCK else arg AND NOT O_NONBLOCK, h2))
      else if cmd \<in> set int_commands then Inr (call_fcntl fcntl_f fd cmd (Int_arg (ucast va)) h)
      else if cmd \<in> set void_commands then Inr (call_fcntl fcntl_f fd cmd No_arg h)
      else if cmd \<in> set lock_commands \<or> cmd \<in> set owner_commands then Inr (call_fcntl fcntl_f fd cmd (Ptr_arg va) h)
      else Inr (call_fcntl fcntl_f fd cmd No_arg h))"

section \<open>ioctl and options of sockets\<close>

type_synonym ioctl_f = "int \<Rightarrow> 64 word \<Rightarrow> 64 word \<Rightarrow> kernel \<Rightarrow> int \<times> kernel"

definition FIONBIO :: "64 word" where "FIONBIO = 0x5421"

definition call_ioctl :: "ioctl_f \<Rightarrow> int \<Rightarrow> 64 word \<Rightarrow> 64 word \<Rightarrow> hook \<Rightarrow> int \<times> hook" where
  "call_ioctl ioctl_f fd request arg h =
     (let (r, k) = ioctl_f fd request arg (hk_kernel h) in (r, h\<lparr>hk_kernel := k\<rparr>))"

text \<open>\<open>mem\<close> reads an \<open>int\<close> at an address; at 0 there is none.\<close>

definition hook_ioctl :: "ioctl_f \<Rightarrow> (64 word \<Rightarrow> 32 word) \<Rightarrow> int \<Rightarrow> 64 word \<Rightarrow> 64 word \<Rightarrow> hook \<Rightarrow> (int \<times> hook) res" where
  "hook_ioctl ioctl_f mem fd request arg h =
     (if request = FIONBIO then
        if arg = 0 then Inl Null_deref
        else
          bindE (with_ctx fd False h) (\<lambda>(ctx, h1).
            case ctx of
              None \<Rightarrow> Inr (call_ioctl ioctl_f fd request arg h1)
            | Some c \<Rightarrow>
                if m_isClosed c \<or> \<not> m_isSocket c then Inr (call_ioctl ioctl_f fd request arg h1)
                else Inr (call_ioctl ioctl_f fd request arg
                            (h1\<lparr>hk_fds := put_ctx fd (c\<lparr>m_userNonblock := (mem arg \<noteq> 0)\<rparr>) (hk_fds h1)\<rparr>)))
      else Inr (call_ioctl ioctl_f fd request arg h))"

definition SOL_SOCKET :: int where "SOL_SOCKET = 1"

definition timeout_name :: "int \<Rightarrow> timeout_opt option" where
  "timeout_name optname = (if optname = 20 then Some SO_RCVTIMEO else if optname = 21 then Some SO_SNDTIMEO else None)"

text \<open>\<open>ret\<close> is what the original function returns; \<open>tv\<close> is what the value is when it is read as a \<open>timeval\<close>.\<close>

definition hook_setsockopt :: "int \<Rightarrow> int \<Rightarrow> int \<Rightarrow> int \<Rightarrow> int \<times> int \<Rightarrow> hook \<Rightarrow> (int \<times> hook) res" where
  "hook_setsockopt ret sockfd level optname tv h =
     (if \<not> hk_enable h then Inr (ret, h)
      else bindE
        (if level = SOL_SOCKET
         then case timeout_name optname of None \<Rightarrow> Inr h | Some opt \<Rightarrow> setsockopt_timeout sockfd opt (fst tv) (snd tv) h
         else Inr h)
        (\<lambda>h1. Inr (ret, h1)))"

definition hook_getsockopt :: "(int \<Rightarrow> int \<Rightarrow> int \<Rightarrow> int \<times> 'v) \<Rightarrow> int \<Rightarrow> int \<Rightarrow> int \<Rightarrow> int \<times> 'v" where
  "hook_getsockopt getsockopt_f sockfd level optname = getsockopt_f sockfd level optname"

section \<open>The kernel's flag\<close>

text \<open>
  What the two commands of the original \<open>fcntl\<close> are documented to do with \<open>O_NONBLOCK\<close>: one sets the flag of
  its descriptor and leaves the others, the other one shows it.
\<close>

locale descriptor_flags =
  fixes fcntl_f :: fcntl_f
  assumes sets_flag: "snd (fcntl_f fd F_SETFL (Int_arg w) k) = set_nonblock fd (w AND O_NONBLOCK \<noteq> 0) k"
    and shows_flag: "snd (fcntl_f fd F_GETFL No_arg k) = k \<and> (fst (fcntl_f fd F_GETFL No_arg k) AND O_NONBLOCK \<noteq> 0 \<longleftrightarrow> k_nonblock k fd)"
begin

lemma setfl_kernel: "hk_kernel (snd (call_fcntl fcntl_f fd F_SETFL (Int_arg w) h)) = set_nonblock fd (w AND O_NONBLOCK \<noteq> 0) (hk_kernel h)"
  "hk_fds (snd (call_fcntl fcntl_f fd F_SETFL (Int_arg w) h)) = hk_fds h"
  using sets_flag [of fd w "hk_kernel h"] by (auto simp: call_fcntl_def split: prod.split)

lemma getfl_same: "snd (call_fcntl fcntl_f fd F_GETFL No_arg h) = h"
  "fst (call_fcntl fcntl_f fd F_GETFL No_arg h) = fst (fcntl_f fd F_GETFL No_arg (hk_kernel h))"
  using shows_flag [of fd "hk_kernel h"] by (auto simp: call_fcntl_def split: prod.split)

lemma getfl_socket:
  assumes "with_ctx fd False h = Inr (Some c, h)" and "m_isSocket c" and "\<not> m_isClosed c"
  shows "hook_fcntl fcntl_f fd F_GETFL vb h = Inr (let s = fst (fcntl_f fd F_GETFL No_arg (hk_kernel h)) in
    if m_userNonblock c then s OR O_NONBLOCK else s AND NOT O_NONBLOCK, h)"
proof -
  obtain s h1 where call: "call_fcntl fcntl_f fd F_GETFL No_arg h = (s, h1)" by fastforce
  then have "h1 = h" "s = fst (fcntl_f fd F_GETFL No_arg (hk_kernel h))" using getfl_same [of fd h] by simp_all
  then show ?thesis using assms call by (simp add: hook_fcntl_def F_SETFL_def F_GETFL_def Let_def)
qed

lemma getfl_plain:
  assumes "with_ctx fd False h = Inr (ctx, h)" and "\<And>c. ctx = Some c \<Longrightarrow> m_isClosed c \<or> \<not> m_isSocket c"
  shows "hook_fcntl fcntl_f fd F_GETFL vb h = Inr (call_fcntl fcntl_f fd F_GETFL No_arg h)"
proof -
  obtain s h1 where call: "call_fcntl fcntl_f fd F_GETFL No_arg h = (s, h1)" by fastforce
  then have "h1 = h" using getfl_same(1) [of fd h] by simp
  then show ?thesis using assms call by (auto simp: hook_fcntl_def F_SETFL_def F_GETFL_def split: option.split)
qed

text \<open>A socket that the hooks know shows the flag that was asked for and stays non-blocking.\<close>

lemma flag_of_socket:
  assumes "wf_fds (hk_fds h) (hk_kernel h)" and "open_socket fd h"
  shows "\<exists>r h1 s. hook_fcntl fcntl_f fd F_SETFL va h = Inr (r, h1) \<and> k_nonblock (hk_kernel h1) fd \<and> wf_fds (hk_fds h1) (hk_kernel h1)
    \<and> hook_fcntl fcntl_f fd F_GETFL vb h1 = Inr (s, h1)
    \<and> (s AND O_NONBLOCK \<noteq> 0 \<longleftrightarrow> (ucast va :: 32 word) AND O_NONBLOCK \<noteq> 0)
    \<and> s OR O_NONBLOCK = fst (fcntl_f fd F_GETFL No_arg (hk_kernel h1)) OR O_NONBLOCK"
proof -
  obtain c where c: "hk_fds h ! nat fd = Some c" "m_isSocket c" "\<not> m_isClosed c" "0 \<le> fd" "nat fd < length (hk_fds h)"
    by (rule open_socketE [OF assms(2)])
  have slot: "slot_ok (hk_kernel h) (nat fd) (Some c)" using assms(1) c by (auto simp: wf_fds_def)
  then have sys: "m_sysNonblock c" "m_fd c = fd" using c by (simp_all add: slot_ok_def)
  let ?arg = "ucast va :: 32 word"
  let ?c = "c\<lparr>m_userNonblock := (?arg AND O_NONBLOCK \<noteq> 0)\<rparr>"
  let ?call = "call_fcntl fcntl_f fd F_SETFL (Int_arg (?arg OR O_NONBLOCK)) (h\<lparr>hk_fds := put_ctx fd ?c (hk_fds h)\<rparr>)"
  let ?h = "snd ?call" and ?s = "fst (fcntl_f fd F_GETFL No_arg (hk_kernel (snd ?call)))"
  have run: "hook_fcntl fcntl_f fd F_SETFL va h = Inr (fst ?call, ?h)"
    using c sys by (simp add: hook_fcntl_def with_ctx_open [OF c(1,4,5)] Let_def)
  have kern: "hk_kernel ?h = set_nonblock fd True (hk_kernel h)" using setfl_kernel(1) nonblock_bits(1) [of ?arg] by simp
  have fds: "hk_fds ?h = (hk_fds h)[nat fd := Some ?c]" by (simp add: setfl_kernel(2) put_ctx_def)
  have "slot_ok (hk_kernel ?h) (nat fd) (Some ?c)" using c sys unfolding kern by (simp add: slot_ok_def set_nonblock_def)
  then have wf: "wf_fds (hk_fds ?h) (hk_kernel ?h)"
    unfolding fds by (rule wf_fds_put [OF assms(1)]) (simp add: kern set_nonblock_def)
  have at: "hk_fds ?h ! nat fd = Some ?c" "nat fd < length (hk_fds ?h)" unfolding fds using c by simp_all
  have get: "hook_fcntl fcntl_f fd F_GETFL vb ?h = Inr (if m_userNonblock ?c then ?s OR O_NONBLOCK else ?s AND NOT O_NONBLOCK, ?h)"
    using getfl_socket [OF with_ctx_open [OF at(1) c(4) at(2)], of vb] c(2,3) unfolding Let_def by simp
  have "(if b then s OR O_NONBLOCK else s AND NOT O_NONBLOCK) OR O_NONBLOCK = s OR O_NONBLOCK" for b and s :: "32 word"
    by (rule bit_word_eqI) (auto simp: bit_simps)
  moreover have "((if b then s OR O_NONBLOCK else s AND NOT O_NONBLOCK) AND O_NONBLOCK \<noteq> 0) = b" for b and s :: "32 word"
    using nonblock_bits [of s] by (cases b) simp_all
  then have "((if m_userNonblock ?c then ?s OR O_NONBLOCK else ?s AND NOT O_NONBLOCK) AND O_NONBLOCK \<noteq> 0) = m_userNonblock ?c" by blast
  moreover have "m_userNonblock ?c = (?arg AND O_NONBLOCK \<noteq> 0)" by simp
  moreover have "k_nonblock (hk_kernel ?h) fd" unfolding kern by (simp add: set_nonblock_def)
  ultimately show ?thesis using run get wf by (metis (no_types, lifting))
qed

end

text \<open>A kernel that keeps only the one flag.\<close>

definition flag_fcntl :: fcntl_f where
  "flag_fcntl fd cmd arg k =
     (if cmd = F_GETFL then (if k_nonblock k fd then 0x802 else 0x002, k)
      else case arg of Int_arg w \<Rightarrow> (0, if cmd = F_SETFL then set_nonblock fd (w AND O_NONBLOCK \<noteq> 0) k else k) | _ \<Rightarrow> (0, k))"

interpretation flags: descriptor_flags flag_fcntl
proof
  show "snd (flag_fcntl fd F_SETFL (Int_arg w) k) = set_nonblock fd (w AND O_NONBLOCK \<noteq> 0) k" for fd w k
    by (simp add: flag_fcntl_def F_SETFL_def F_GETFL_def)
  have "(0x802 :: 32 word) AND O_NONBLOCK \<noteq> 0" "(2 :: 32 word) AND O_NONBLOCK = 0" by (simp_all add: O_NONBLOCK_def)
  then show "snd (flag_fcntl fd F_GETFL No_arg k) = k \<and> (fst (flag_fcntl fd F_GETFL No_arg k) AND O_NONBLOCK \<noteq> 0) = k_nonblock k fd" for fd k
    by (simp add: flag_fcntl_def)
qed

lemma other_commands:
  "cmd \<noteq> F_SETFL \<Longrightarrow> cmd \<noteq> F_GETFL \<Longrightarrow> hook_fcntl fcntl_f fd cmd va h = Inr (call_fcntl fcntl_f fd cmd
     (if cmd \<in> set int_commands then Int_arg (ucast va)
      else if cmd \<in> set lock_commands \<union> set owner_commands then Ptr_arg va else No_arg) h)"
  by (auto simp: hook_fcntl_def void_commands_def lock_commands_def owner_commands_def)



text \<open>Finding the pointers again changes nothing.\<close>

lemma hook_init_again: "hook_init dlsym (hook_init dlsym originals) = hook_init dlsym originals"
proof -
  have "fold (\<lambda>name m. m(name := dlsym name)) names m = (\<lambda>n. if n \<in> set names then dlsym n else m n)" for names and m :: "string \<rightharpoonup> nat"
    by (induction names arbitrary: m) (auto simp: fun_eq_iff)
  then show ?thesis by (auto simp: hook_init_def fun_eq_iff)
qed

text \<open>A timeout of a hooked socket is kept in milliseconds and still goes to the kernel; other options only go there.\<close>

lemma setsockopt_cases:
  "hk_enable h \<Longrightarrow> hook_setsockopt ret fd SOL_SOCKET 20 tv h = bindE (setsockopt_timeout fd SO_RCVTIMEO (fst tv) (snd tv) h) (\<lambda>h1. Inr (ret, h1))"
  "level \<noteq> SOL_SOCKET \<or> timeout_name optname = None \<Longrightarrow> hook_setsockopt ret fd level optname tv h = Inr (ret, h)"
  by (auto simp: hook_setsockopt_def timeout_name_def)

text \<open>\<open>ioctl\<close> hands the request on as it is: with \<open>FIONBIO\<close> and 0 the kernel does make a hooked socket blocking.\<close>

lemma ioctl_hands_on:
  "hook_ioctl ioctl_f mem fd request arg h = Inr (r, h1) \<Longrightarrow> (r, hk_kernel h1) = ioctl_f fd request arg (hk_kernel h)
     \<or> (\<exists>ctx h2. with_ctx fd False h = Inr (ctx, h2) \<and> (r, hk_kernel h1) = ioctl_f fd request arg (hk_kernel h2))"
  by (auto simp: hook_ioctl_def call_ioctl_def bindE_Inr_iff split: if_splits option.splits prod.splits)

end
