(* ===== verification/Waiting.thy ===== *)
theory Waiting
  imports Hook
begin

text \<open>
  A hooked call that has to wait, over the hooks, the event manager and the timers together: entering,
  the first attempt, the report of the kernel in \<open>idle\<close>, the resumption and the next attempt.
\<close>

section \<open>What the steps leave alone\<close>

lemma trigger_at_timers: "trigger_at fd e m = Inr m1 \<Longrightarrow> io_timers m1 = io_timers m"
  by (auto simp: trigger_at_def triggerEvent_def assert_that_def put_fd_def bindE_Inr_iff Let_def split: if_splits)

lemma addEvent_timers: "addEvent epoll_ctl on cur st fd e cb m = Inr (r, m1) \<Longrightarrow> io_timers m1 = io_timers m"
  by (auto simp: addEvent_def assert_that_def put_fd_def contextResize_def bindE_Inr_iff Let_def split: if_splits)

lemma addEvent_accepted:
  "addEvent epoll_ctl on cur st fd e cb m = Inr (r, m1) \<Longrightarrow> (\<forall>op ev. 0 \<le> epoll_ctl op fd ev) \<Longrightarrow> r = 0"
  by (auto simp: addEvent_def assert_that_def bindE_Inr_iff Let_def not_le [symmetric] split: if_splits)

lemma io_addTimer_fields:
  "io_fds (io_addTimer now p dur cb rec m) = io_fds m" "io_pending (io_addTimer now p dur cb rec m) = io_pending m"
  "io_sched (io_addTimer now p dur cb rec m) = io_sched m"
  "io_timers (io_addTimer now p dur cb rec m) = fst (addTimer now p dur cb rec (io_timers m))"
  by (auto simp: io_addTimer_def onTimerInsertedAtFront_def io_tickle_def Let_def split: prod.split)

lemma io_addTimer_wf: "wf_io (io_addTimer now p dur cb rec m) = wf_io m"
  by (simp add: wf_io_def io_addTimer_fields)

lemma remove_inserted: "p \<notin> set ps \<Longrightarrow> remove1 p (set_insert h p ps) = ps"
  by (simp add: set_insert_def insort_insert_key_def remove1_insort_key image_iff)

text \<open>A new timer that is cancelled again leaves the timers that waited before.\<close>

lemma cancel_added:
  "p \<notin> set (tm_timers m) \<Longrightarrow> cb \<noteq> None \<Longrightarrow> tm_timers (snd (cancel p (fst (addTimer now p dur cb rec m)))) = tm_timers m"
  by (simp add: addTimer_def insert_timer_def new_timer_def cancel_def remove_inserted Let_def)

section \<open>The steps\<close>

text \<open>One reported event of a descriptor.\<close>

lemma ready_one:
  assumes "wf_io m" and "get_fd fd m = Inr fc" and e: "e = READ \<or> e = WRITE" and "has_event (fc_events fc) e"
    and "\<forall>op ev. 0 \<le> epoll_ctl op fd ev"
  shows "\<exists>m1. handle_ready epoll_ctl (Fd_ready fd e) m = Inr m1 \<and> wf_io m1 \<and> Suc (io_pending m1) = io_pending m
    \<and> io_timers m1 = io_timers m
    \<and> s_queue (io_sched m1) = s_queue (io_sched m) @ [ctx_task (if e = READ then fc_read fc else fc_write fc)]"
proof -
  obtain m1 where m1: "trigger_at fd e m = Inr m1" "wf_io m1" "Suc (io_pending m1) = io_pending m"
    "s_queue (io_sched m1) = s_queue (io_sched m) @ [ctx_task (if e = READ then fc_read fc else fc_write fc)]"
    using trigger_at_ok [OF assms(1-4)] by blast
  have fd: "fc_fd fc = fd" using get_fd_ok [OF assms(1,2)] by simp
  have bits: "e AND (EPOLLERR OR EPOLLHUP) = 0" "(if e AND READ \<noteq> 0 then READ else NONE) OR (if e AND WRITE \<noteq> 0 then WRITE else NONE) = e"
    using e by (auto simp: READ_def WRITE_def EPOLLERR_def EPOLLHUP_def NONE_def)
  have set: "fc_events fc AND e \<noteq> NONE" using assms(4) by (simp add: has_event_def NONE_def)
  have "bindE (trigger_if e fd READ m) (trigger_if e fd WRITE) = Inr m1"
    using e m1(1) by (auto simp: trigger_if_def READ_def WRITE_def)
  moreover have "\<not> epoll_ctl op fd ev < 0" for op ev using assms(5) by (simp add: not_less)
  ultimately have "handle_ready epoll_ctl (Fd_ready fd e) m = Inr m1"
    using assms(2) set bits fd by (simp add: handle_ready_def Let_def)
  then show ?thesis using m1 trigger_at_timers [OF m1(1)] by blast
qed

text \<open>Arming the event and the timer; whatever happens to the descriptors then, cancelling the timer takes it out again.\<close>

lemma arm_io_waits:
  assumes "wf_io (hk_io h)" and "2 \<le> length (io_fds (hk_io h))" and "hk_has_iom h" and e: "e = READ \<or> e = WRITE" and "0 \<le> fd"
    and "nat fd < length (io_fds (hk_io h)) \<Longrightarrow> \<not> has_event (fc_events (io_fds (hk_io h) ! nat fd)) e"
    and "\<forall>op ev. 0 \<le> epoll_ctl op fd ev" and "p \<notin> set (tm_timers (io_timers (hk_io h)))"
  obtains timer m fc where "arm_io epoll_ctl now p fd e t ti h = Inr (0, timer, h\<lparr>hk_io := m\<rparr>)" "wf_io m"
    "io_pending m = Suc (io_pending (hk_io h))" "io_sched m = io_sched (hk_io h)" "get_fd fd m = Inr fc" "has_event (fc_events fc) e"
    "ctx_task (if e = READ then fc_read fc else fc_write fc) = \<lparr>t_cor = Some (hk_cur h), t_cb = None, t_thread = -1\<rparr>"
    "\<And>m1 h1. hk_io h1 = m1 \<Longrightarrow> io_timers m1 = io_timers m \<Longrightarrow> (\<exists>ts. cancel_timer timer h1 = h1\<lparr>hk_io := m1\<lparr>io_timers := ts\<rparr>\<rparr>
        \<and> tm_timers ts = tm_timers (io_timers (hk_io h)))"
proof -
  define m0 where "m0 = (if t \<noteq> -1 then io_addTimer now p t (Some (Io_timeout ti fd e)) False (hk_io h) else hk_io h)"
  define timer where "timer = (if t \<noteq> -1 then Some p else None)"
  have same: "io_fds m0 = io_fds (hk_io h)" "io_pending m0 = io_pending (hk_io h)" "io_sched m0 = io_sched (hk_io h)"
    by (simp_all add: m0_def io_addTimer_fields)
  have "wf_io m0" using assms(1) by (simp add: m0_def io_addTimer_wf)
  from addEvent_ok [OF this, of e fd None EXEC epoll_ctl "hk_cur h"] assms(2,5,6) e same
  obtain r m where m: "addEvent epoll_ctl True (hk_cur h) EXEC fd e None m0 = Inr (r, m)" "wf_io m" "io_sched m = io_sched m0"
    "io_pending m = io_pending m0 + (if r = 0 then 1 else 0)"
    "r = 0 \<longrightarrow> (\<exists>fc. get_fd fd m = Inr fc \<and> has_event (fc_events fc) e
        \<and> ctx_task (if e = READ then fc_read fc else fc_write fc) = \<lparr>t_cor = Some (hk_cur h), t_cb = None, t_thread = -1\<rparr>)"
    by auto
  have r: "r = 0" by (rule addEvent_accepted [OF m(1) assms(7)])
  then obtain fc where fc: "get_fd fd m = Inr fc" "has_event (fc_events fc) e"
      "ctx_task (if e = READ then fc_read fc else fc_write fc) = \<lparr>t_cor = Some (hk_cur h), t_cb = None, t_thread = -1\<rparr>" using m(5) by blast
  have timers: "io_timers m = io_timers m0" by (rule addEvent_timers [OF m(1)])
  have arm: "arm_io epoll_ctl now p fd e t ti h = Inr (0, timer, h\<lparr>hk_io := m\<rparr>)"
    using assms(3) m(1) r by (simp add: arm_io_def m0_def timer_def split: if_splits)
  have "\<exists>ts. cancel_timer timer h1 = h1\<lparr>hk_io := m1\<lparr>io_timers := ts\<rparr>\<rparr> \<and> tm_timers ts = tm_timers (io_timers (hk_io h))"
    if "hk_io h1 = m1" "io_timers m1 = io_timers m" for m1 h1
  proof (cases "t = -1")
    case True
    then show ?thesis using that timers by (intro exI [of _ "io_timers m1"]) (cases h1; cases m1; simp add: timer_def cancel_timer_def m0_def)
  next
    case False
    then show ?thesis using that timers assms(8) cancel_added [of p "io_timers (hk_io h)"]
      by (intro exI [of _ "snd (cancel p (io_timers m1))"]) (simp add: timer_def cancel_timer_def m0_def io_addTimer_fields)
  qed
  note cancels = this
  have "io_pending m = Suc (io_pending (hk_io h))" "io_sched m = io_sched (hk_io h)" using m(3,4) r same by simp_all
  with arm m(2) show thesis using fc cancels by (rule that)
qed

section \<open>The whole call\<close>

text \<open>
  C28: C1. A hooked call on a blocking socket whose first attempt would block gives up the processor with its coroutine
  armed for the event; when the kernel reports the event, that coroutine is queued, once, and when it is
  resumed the call tries again and returns what the original function does. Nothing is left behind: the
  number of pending events and the timers are those from before the call, and what it shared with its timer is freed.
\<close>

theorem hooked_call_is_resumed:
  assumes "wf_io (hk_io h)" and "2 \<le> length (io_fds (hk_io h))" and "hk_enable h" and "hk_has_iom h"
    and "hk_fds h ! nat fd = Some c" and "m_isSocket c" and "\<not> m_isClosed c" and "\<not> m_userNonblock c"
    and "0 \<le> fd" and "nat fd < length (hk_fds h)" and "e = READ \<or> e = WRITE"
    and "nat fd < length (io_fds (hk_io h)) \<Longrightarrow> \<not> has_event (fc_events (io_fds (hk_io h) ! nat fd)) e"
    and "\<forall>op ev. 0 \<le> epoll_ctl op fd ev" and "p \<notin> set (tm_timers (io_timers (hk_io h)))"
    and "n \<noteq> -1 \<or> err \<noteq> EAGAIN"
  shows "\<exists>t h1 timer h2 io h3 h4. do_io_enter fd so ti h = Inr (Attempting t ti, h1) \<and> t = getTimeout so c
    \<and> do_io_attempt epoll_ctl now p fd e t ti (-1, EAGAIN) h1 = Inr (Waiting t ti timer, h2)
    \<and> handle_ready epoll_ctl (Fd_ready fd e) (hk_io h2) = Inr io
    \<and> s_queue (io_sched io) = s_queue (io_sched (hk_io h)) @ [\<lparr>t_cor = Some (hk_cur h), t_cb = None, t_thread = -1\<rparr>]
    \<and> do_io_resume t ti timer (h2\<lparr>hk_io := io\<rparr>) = Inr (Attempting t ti, h3)
    \<and> do_io_attempt epoll_ctl now' p' fd e t ti (n, err) h3 = Inr (Returned n, h4)
    \<and> (n = -1 \<longrightarrow> hk_errno h4 = err) \<and> wf_io (hk_io h4) \<and> io_pending (hk_io h4) = io_pending (hk_io h)
    \<and> tm_timers (io_timers (hk_io h4)) = tm_timers (io_timers (hk_io h)) \<and> hk_tinfo h4 ti = None
    \<and> hk_fds h4 = hk_fds h \<and> hk_kernel h4 = hk_kernel h"
proof -
  let ?t = "getTimeout so c"
  let ?h1 = "h\<lparr>hk_tinfo := (hk_tinfo h)(ti := Some 0)\<rparr>"
  let ?h1e = "set_errno EAGAIN ?h1"
  have enter: "do_io_enter fd so ti h = Inr (Attempting ?t ti, ?h1)"
    using assms(3,6-8) get_ctx_open [OF assms(5,9,10)] by (simp add: do_io_enter_def)
  obtain timer m fc where arm: "arm_io epoll_ctl now p fd e ?t ti ?h1e = Inr (0, timer, ?h1e\<lparr>hk_io := m\<rparr>)" "wf_io m"
    "io_pending m = Suc (io_pending (hk_io h))" "io_sched m = io_sched (hk_io h)" "get_fd fd m = Inr fc" "has_event (fc_events fc) e"
    "ctx_task (if e = READ then fc_read fc else fc_write fc) = \<lparr>t_cor = Some (hk_cur h), t_cb = None, t_thread = -1\<rparr>"
    "\<And>m1 h1. hk_io h1 = m1 \<Longrightarrow> io_timers m1 = io_timers m \<Longrightarrow> (\<exists>ts. cancel_timer timer h1 = h1\<lparr>hk_io := m1\<lparr>io_timers := ts\<rparr>\<rparr>
        \<and> tm_timers ts = tm_timers (io_timers (hk_io h)))"
    using arm_io_waits [of ?h1e e fd epoll_ctl p now ?t ti] assms(1,2,4,9,11-14) by (simp add: set_errno_def) metis
  let ?h2 = "?h1e\<lparr>hk_io := m\<rparr>"
  have wait: "do_io_attempt epoll_ctl now p fd e ?t ti (-1, EAGAIN) ?h1 = Inr (Waiting ?t ti timer, ?h2)"
    using arm(1) by (simp add: do_io_attempt_def)
  obtain io where io: "handle_ready epoll_ctl (Fd_ready fd e) m = Inr io" "wf_io io" "Suc (io_pending io) = io_pending m"
    "io_timers io = io_timers m"
    "s_queue (io_sched io) = s_queue (io_sched m) @ [ctx_task (if e = READ then fc_read fc else fc_write fc)]"
    using ready_one [where epoll_ctl = epoll_ctl, OF arm(2,5) assms(11) arm(6)] assms(13) by blast
  obtain ts where ts: "cancel_timer timer (?h2\<lparr>hk_io := io\<rparr>) = ?h2\<lparr>hk_io := io\<lparr>io_timers := ts\<rparr>\<rparr>"
    "tm_timers ts = tm_timers (io_timers (hk_io h))" using arm(8) [of "?h2\<lparr>hk_io := io\<rparr>" io] io(4) by auto
  let ?h3 = "?h2\<lparr>hk_io := io\<lparr>io_timers := ts\<rparr>\<rparr>"
  have resume: "do_io_resume ?t ti timer (?h2\<lparr>hk_io := io\<rparr>) = Inr (Attempting ?t ti, ?h3)"
    unfolding do_io_resume_def ts(1) Let_def by (simp add: set_errno_def)
  let ?h3e = "if n = -1 then set_errno err ?h3 else ?h3"
  let ?h4 = "?h3e\<lparr>hk_tinfo := (hk_tinfo ?h3e)(ti := None)\<rparr>"
  have again: "do_io_attempt epoll_ctl now' p' fd e ?t ti (n, err) ?h3 = Inr (Returned n, ?h4)"
    using assms(15) by (auto simp: do_io_attempt_def finish_io_def Let_def)
  have "wf_io (io\<lparr>io_timers := ts\<rparr>)" using io(2) by (simp add: wf_io_def)
  then show ?thesis
    using enter wait io(1,3,5) arm(3,4,7) resume again ts(2)
    by (intro exI [of _ ?t] exI [of _ ?h1] exI [of _ timer] exI [of _ ?h2] exI [of _ io] exI [of _ ?h3] exI [of _ ?h4])
      (simp add: set_errno_def)
qed

text \<open>The same socket with a timeout of half a second and nobody waiting.\<close>

definition quiet_io :: "hook_cb io_manager" where
  "quiet_io = contextResize 4 (waiting_io\<lparr>io_fds := [], io_pending := 0\<rparr>)"

definition half_second :: fd_ctx where
  "half_second = \<lparr>m_isInit = True, m_isSocket = True, m_userNonblock = False, m_sysNonblock = True, m_isClosed = False, m_fd = 0,
     m_recvTimeout = 500, m_sendTimeout = -1\<rparr>"

definition quiet_socket :: hook where
  "quiet_socket = one_socket\<lparr>hk_io := quiet_io, hk_fds := [Some half_second]\<rparr>"

lemma quiet_io_ok: "wf_io quiet_io" "length (io_fds quiet_io) = 4" "fc_events (io_fds quiet_io ! 0) = 0" "tm_timers (io_timers quiet_io) = []"
proof -
  have "wf_io (waiting_io\<lparr>io_fds := [], io_pending := 0\<rparr>)" by (simp add: wf_io_def pending_sum_def)
  then show "wf_io quiet_io" unfolding quiet_io_def by (rule contextResize_wf) simp
  show "length (io_fds quiet_io) = 4" "fc_events (io_fds quiet_io ! 0) = 0" "tm_timers (io_timers quiet_io) = []"
    by (simp_all add: quiet_io_def contextResize_def waiting_io_def TimerManager_def new_fd_context_def NONE_def)
qed

theorem hooked_call_is_resumed_witness:
  "\<exists>t h1 timer h2 io h3 h4. do_io_enter 0 SO_RCVTIMEO 7 quiet_socket = Inr (Attempting t 7, h1) \<and> t = 500
    \<and> do_io_attempt (\<lambda>_ _ _. 0) 10 1 0 READ t 7 (-1, EAGAIN) h1 = Inr (Waiting t 7 timer, h2)
    \<and> handle_ready (\<lambda>_ _ _. 0) (Fd_ready 0 READ) (hk_io h2) = Inr io
    \<and> s_queue (io_sched io) = s_queue (io_sched (hk_io quiet_socket)) @ [\<lparr>t_cor = Some 3, t_cb = None, t_thread = -1\<rparr>]
    \<and> do_io_resume t 7 timer (h2\<lparr>hk_io := io\<rparr>) = Inr (Attempting t 7, h3)
    \<and> do_io_attempt (\<lambda>_ _ _. 0) 20 2 0 READ t 7 (5, 0) h3 = Inr (Returned 5, h4)"
proof -
  have h: "hk_enable quiet_socket" "hk_has_iom quiet_socket" "hk_io quiet_socket = quiet_io" "hk_fds quiet_socket = [Some half_second]"
    "hk_cur quiet_socket = 3" by (simp_all add: quiet_socket_def one_socket_def)
  have "\<exists>t h1 timer h2 io h3 h4. do_io_enter 0 SO_RCVTIMEO 7 quiet_socket = Inr (Attempting t 7, h1) \<and> t = getTimeout SO_RCVTIMEO half_second
    \<and> do_io_attempt (\<lambda>_ _ _. 0) 10 1 0 READ t 7 (-1, EAGAIN) h1 = Inr (Waiting t 7 timer, h2)
    \<and> handle_ready (\<lambda>_ _ _. 0) (Fd_ready 0 READ) (hk_io h2) = Inr io
    \<and> s_queue (io_sched io) = s_queue (io_sched (hk_io quiet_socket)) @ [\<lparr>t_cor = Some (hk_cur quiet_socket), t_cb = None, t_thread = -1\<rparr>]
    \<and> do_io_resume t 7 timer (h2\<lparr>hk_io := io\<rparr>) = Inr (Attempting t 7, h3)
    \<and> do_io_attempt (\<lambda>_ _ _. 0) 20 2 0 READ t 7 (5, 0) h3 = Inr (Returned 5, h4)
    \<and> (5 = (-1 :: int) \<longrightarrow> hk_errno h4 = 0) \<and> wf_io (hk_io h4) \<and> io_pending (hk_io h4) = io_pending (hk_io quiet_socket)
    \<and> tm_timers (io_timers (hk_io h4)) = tm_timers (io_timers (hk_io quiet_socket)) \<and> hk_tinfo h4 7 = None
    \<and> hk_fds h4 = hk_fds quiet_socket \<and> hk_kernel h4 = hk_kernel quiet_socket"
    by (rule hooked_call_is_resumed) (use h quiet_io_ok in \<open>simp_all add: half_second_def has_event_def\<close>)
  moreover have "getTimeout SO_RCVTIMEO half_second = 500" "hk_cur quiet_socket = 3" using h by (simp_all add: getTimeout_def half_second_def)
  ultimately show ?thesis by (elim exE conjE) (intro exI conjI, assumption+, simp_all)
qed

end
