(* ===== verification/Sleeping.thy ===== *)
theory Sleeping
  imports Hook
begin

text \<open>
  A coroutine that sleeps, over the hooks, the event manager and the timers: \<open>sleep\<close> adds a timer and
  gives up the processor, and a round of \<open>idle\<close> that comes back from \<open>epoll_wait\<close> looks which timers fire.
\<close>

lemma io_schedule_all_fields:
  "io_timers (io_schedule_all ts m) = io_timers m" "io_fds (io_schedule_all ts m) = io_fds m"
  by (auto simp: io_schedule_all_def io_tickle_def Let_def split: prod.split)

lemma io_schedule_all_one:
  "s_queue (io_sched (io_schedule_all [\<lparr>t_cor = None, t_cb = Some cb, t_thread = -1\<rparr>] m))
     = s_queue (io_sched m) @ [\<lparr>t_cor = None, t_cb = Some cb, t_thread = -1\<rparr>]"
  by (simp add: io_schedule_all_def scheduleNoLock_def io_tickle_def Let_def)

text \<open>The timers after a coroutine went to sleep while no other timer waited.\<close>

definition sleeper :: "ms \<Rightarrow> addr \<Rightarrow> ms \<Rightarrow> cor_addr \<Rightarrow> hook_cb timer_manager \<Rightarrow> bool" where
  "sleeper now p dur cur t \<longleftrightarrow> tm_timers t = [p]
     \<and> tm_heap t p = \<lparr>tr_ms = dur, tr_cb = Some (Resume cur), tr_recurring = False, tr_next = now + dur\<rparr>"

lemma sleep_for_sleeper:
  assumes "hk_has_iom h" and "tm_timers (io_timers (hk_io h)) = []"
  shows "\<exists>h1. sleep_for now p dur h = Inr h1 \<and> sleeper now p dur (hk_cur h) (io_timers (hk_io h1))
    \<and> io_sched (hk_io h1) = io_sched (hk_io h) \<and> tm_previousTime (io_timers (hk_io h1)) = tm_previousTime (io_timers (hk_io h))"
  using assms
  by (auto simp: sleep_for_def sleeper_def io_addTimer_def onTimerInsertedAtFront_def io_tickle_def addTimer_def insert_timer_def
      new_timer_def set_insert_def insort_insert_key_def Let_def split: prod.split)

text \<open>Which timers a round hands out: it depends on how the clock stands to the one deadline.\<close>

lemma sleeper_expires:
  assumes "sleeper now p dur cur t" and "tm_previousTime t \<le> clock"
  shows "listExpiredCb clock q t =
    (if clock = now + dur then ([Some (Resume cur)], (fire clock p (t\<lparr>tm_previousTime := clock, tm_timers := []\<rparr>)))
     else ([], t\<lparr>tm_previousTime := clock\<rparr>))"
proof -
  have changed: "checkClockChange clock t = (False, t\<lparr>tm_previousTime := clock\<rparr>)"
    using assms(2) by (simp add: checkClockChange_def not_less)
  have t: "tm_timers t = [p]" "tr_next (tm_heap t p) = now + dur" "tr_cb (tm_heap t p) = Some (Resume cur)"
    using assms(1) by (simp_all add: sleeper_def)
  consider "now + dur < clock" | "now + dur = clock" | "clock < now + dur" by (meson linorder_less_linear)
  then show ?thesis
  proof cases
    case 1
    then show ?thesis using t by (auto simp: listExpiredCb_def changed)
  next
    case 2
    have "expired_count clock q False (t\<lparr>tm_previousTime := clock\<rparr>) = 1"
      using t 2 by (auto simp: expired_count_def lower_bound_def Let_def)
    then show ?thesis using t 2 by (simp add: listExpiredCb_def changed Let_def)
  next
    case 3
    then have "\<not> (now + dur, p) < (clock, q)" by auto
    then have "expired_count clock q False (t\<lparr>tm_previousTime := clock\<rparr>) = 0"
      using t 3 by (auto simp: expired_count_def lower_bound_def Let_def)
    then show ?thesis using t 3 by (auto simp: listExpiredCb_def changed Let_def)
  qed
qed




end
