(* ===== verification/Socket_Stream.thy ===== *)
theory Socket_Stream
  imports Interfaces Stream_Io
begin

text \<open>
  \<open>socket_stream.cpp\<close>, the stream on a socket and who closes that socket, and the rest of \<open>socket.cpp\<close>:
  the sockets of given families, options, and printing.
\<close>

section \<open>The rest of sockets\<close>

definition CreateTCPSocket :: socket where
  "CreateTCPSocket = new_Socket 2 1 0"

definition CreateUDPSocket :: "net \<Rightarrow> (socket \<times> net) res" where
  "CreateUDPSocket n = bindE (newSocket (new_Socket 2 2 0) n) (\<lambda>(sk, n1). Inr (sk\<lparr>sk_isConnectd := True\<rparr>, n1))"

definition CreateTCPSocket6 :: socket where
  "CreateTCPSocket6 = new_Socket 10 1 0"

definition CreateUDPSocket6 :: "net \<Rightarrow> (socket \<times> net) res" where
  "CreateUDPSocket6 n = bindE (newSocket (new_Socket 10 2 0) n) (\<lambda>(sk, n1). Inr (sk\<lparr>sk_isConnectd := True\<rparr>, n1))"

definition CreateUnixTCPSocket :: socket where
  "CreateUnixTCPSocket = new_Socket 1 1 0"

definition Socket_dtor :: "epoll \<Rightarrow> socket \<Rightarrow> net \<Rightarrow> net res" where
  "Socket_dtor epoll_ctl sk n = bindE (sk_close epoll_ctl sk n) (\<lambda>(_, _, n1). Inr n1)"

text \<open>\<open>result\<close> is what the kernel says; it is written only when the call succeeds.\<close>

definition getOption :: "'v \<Rightarrow> 'v \<Rightarrow> net \<Rightarrow> (bool \<times> 'v) \<times> net" where
  "getOption kernel_value result n =
     (let (f, n1) = sys_fault n in if f then ((False, result), n1) else ((True, kernel_value), n1))"

text \<open>Into several buffers; here their lengths count, and not the length of the address.\<close>

definition sk_recvFrom_iov :: "nat list \<Rightarrow> 'a list \<Rightarrow> socket \<Rightarrow> 'a list option" where
  "sk_recvFrom_iov lens data sk = (if sk_isConnectd sk then Some (take (sum_list lens) data) else None)"

definition sk_isValid :: "socket \<Rightarrow> bool" where
  "sk_isValid sk \<longleftrightarrow> sk_fd sk \<noteq> -1"

definition signed_digits :: "int \<Rightarrow> string" where
  "signed_digits i = (if i < 0 then ''-'' @ dec_digits (nat (- i)) else dec_digits (nat i))"

definition sk_dump :: "socket \<Rightarrow> string" where
  "sk_dump sk =
     ''[Socket fd='' @ signed_digits (sk_fd sk) @ '',connected='' @ (if sk_isConnectd sk then ''1'' else ''0'')
     @ '',family='' @ signed_digits (sk_family sk) @ '',type='' @ signed_digits (sk_type sk)
     @ '',protocol='' @ signed_digits (sk_protocol sk)
     @ (case sk_localAddr sk of None \<Rightarrow> [] | Some a \<Rightarrow> '',local addr='' @ insert_address a)
     @ (case sk_remoteAddr sk of None \<Rightarrow> [] | Some a \<Rightarrow> '', remote addr='' @ insert_address a) @ '']''"

definition sk_toString :: "socket \<Rightarrow> string" where
  "sk_toString sk = sk_dump sk"

section \<open>The stream\<close>

record socket_stream =
  m_sock :: "socket option"
  m_owner :: bool

definition SocketStream :: "socket option \<Rightarrow> bool \<Rightarrow> socket_stream" where
  "SocketStream sock owner = \<lparr>m_sock = sock, m_owner = owner\<rparr>"

definition isConnected :: "socket_stream \<Rightarrow> bool" where
  "isConnected s = (case m_sock s of None \<Rightarrow> False | Some sk \<Rightarrow> sk_isConnectd sk)"

text \<open>\<open>r\<close> is what the hooked call comes to: bytes, the end, or an error.\<close>

definition ss_read :: "nat \<Rightarrow> 'a io_ret \<Rightarrow> socket_stream \<Rightarrow> 'a io_ret" where
  "ss_read len r s =
     (if \<not> isConnected s then Err
      else case r of
        Got bs \<Rightarrow> (case sk_recv len bs (the (m_sock s)) of None \<Rightarrow> Err | Some bs' \<Rightarrow> Got bs')
      | Eof \<Rightarrow> Eof
      | Err \<Rightarrow> Err)"

definition ss_write :: "int \<Rightarrow> socket_stream \<Rightarrow> int" where
  "ss_write r s = (if \<not> isConnected s then -1 else sk_send (the (m_sock s)) r)"

definition close_sock :: "epoll \<Rightarrow> socket_stream \<Rightarrow> net \<Rightarrow> (socket_stream \<times> net) res" where
  "close_sock epoll_ctl s n =
     (case m_sock s of
        None \<Rightarrow> Inl Null_deref
      | Some sk \<Rightarrow> bindE (sk_close epoll_ctl sk n) (\<lambda>(_, sk1, n1). Inr (s\<lparr>m_sock := Some sk1\<rparr>, n1)))"

definition ss_close :: "epoll \<Rightarrow> socket_stream \<Rightarrow> net \<Rightarrow> (socket_stream \<times> net) res" where
  "ss_close epoll_ctl s n = (if m_sock s \<noteq> None \<and> isConnected s then close_sock epoll_ctl s n else Inr (s, n))"

definition SocketStream_dtor :: "epoll \<Rightarrow> socket_stream \<Rightarrow> net \<Rightarrow> (socket_stream \<times> net) res" where
  "SocketStream_dtor epoll_ctl s n = (if m_owner s \<and> m_sock s \<noteq> None then close_sock epoll_ctl s n else Inr (s, n))"

text \<open>The life of a stream: its constructor, any number of calls of \<open>close\<close>, its destructor.\<close>

definition stream_life :: "epoll \<Rightarrow> bool \<Rightarrow> nat \<Rightarrow> socket option \<Rightarrow> net \<Rightarrow> (socket_stream \<times> net) res" where
  "stream_life epoll_ctl owner closes sock n =
     bindE (foldE (\<lambda>_ (s, n). ss_close epoll_ctl s n) [0..<closes] (SocketStream sock owner, n)) (\<lambda>(s, n1).
       SocketStream_dtor epoll_ctl s n1)"

section \<open>Who closes the socket\<close>

text \<open>A stream whose socket owns its descriptor, and whether it has given it up.\<close>

definition stream_ok :: "int set \<Rightarrow> socket_stream \<Rightarrow> net \<Rightarrow> bool" where
  "stream_ok others s n \<longleftrightarrow> (\<exists>sk. m_sock s = Some sk \<and> owns others sk n)"

definition given_up :: "int set \<Rightarrow> socket_stream \<Rightarrow> net \<Rightarrow> bool" where
  "given_up others s n \<longleftrightarrow> (\<exists>sk. m_sock s = Some sk \<and> sk_fd sk = -1 \<and> \<not> sk_isConnectd sk) \<and> set (n_open n) = others"

lemma close_sock_ok:
  assumes "stream_ok others s n"
  shows "\<exists>s1 n1. close_sock epoll_ctl s n = Inr (s1, n1) \<and> stream_ok others s1 n1 \<and> given_up others s1 n1 \<and> m_owner s1 = m_owner s"
proof -
  obtain sk where sk: "m_sock s = Some sk" "owns others sk n" using assms by (auto simp: stream_ok_def)
  obtain r sk1 n1 where "sk_close epoll_ctl sk n = Inr (r, sk1, n1)" "owns others sk1 n1" "sk_fd sk1 = -1" "\<not> sk_isConnectd sk1"
    "set (n_open n1) = others" using sk_close_ok [OF sk(2), of epoll_ctl] by blast
  then show ?thesis using sk(1) by (auto simp: close_sock_def stream_ok_def given_up_def)
qed

lemma ss_close_ok:
  assumes "stream_ok others s n"
  shows "\<exists>s1 n1. ss_close epoll_ctl s n = Inr (s1, n1) \<and> stream_ok others s1 n1 \<and> m_owner s1 = m_owner s
    \<and> (if isConnected s then given_up others s1 n1 else s1 = s \<and> n1 = n)"
  using close_sock_ok [OF assms, of epoll_ctl] assms by (auto simp: ss_close_def stream_ok_def isConnected_def)

lemma given_up_closed: "given_up others s n \<Longrightarrow> \<not> isConnected s"
  by (auto simp: given_up_def isConnected_def)

lemma closes_ok:
  assumes "stream_ok others s n"
  shows "\<exists>s1 n1. foldE (\<lambda>_ (s, n). ss_close epoll_ctl s n) ks (s, n) = Inr (s1, n1) \<and> stream_ok others s1 n1 \<and> m_owner s1 = m_owner s
    \<and> (if isConnected s \<and> ks \<noteq> [] then given_up others s1 n1 else s1 = s \<and> n1 = n)"
  using assms
proof (induction ks arbitrary: s n)
  case (Cons k ks)
  obtain s1 n1 where c: "ss_close epoll_ctl s n = Inr (s1, n1)" "stream_ok others s1 n1" "m_owner s1 = m_owner s"
    "if isConnected s then given_up others s1 n1 else s1 = s \<and> n1 = n" using ss_close_ok [OF Cons.prems, of epoll_ctl] by blast
  obtain s2 n2 where "foldE (\<lambda>_ (s, n). ss_close epoll_ctl s n) ks (s1, n1) = Inr (s2, n2)" "stream_ok others s2 n2" "m_owner s2 = m_owner s1"
    "if isConnected s1 \<and> ks \<noteq> [] then given_up others s2 n2 else s2 = s1 \<and> n2 = n1" using Cons.IH [OF c(2)] by blast
  then show ?case using c given_up_closed by (cases "isConnected s") (auto split: if_splits)
qed simp

text \<open>
  C31: C1. Whatever is called on a stream, its socket is closed at most once and no other descriptor is: a stream that
  owns its socket, or that was closed while the socket was connected, leaves the descriptor closed and the
  socket without it; any other stream leaves socket and system as they were, and a socket that is
  destroyed later closes what is still open. On a stream whose socket is closed a transfer of a fixed size
  goes round as long as it is let.
\<close>

theorem stream_closes_its_socket:
  assumes "owns others sk n"
  shows "\<exists>s1 n1 sk1 n2. stream_life epoll_ctl owner closes (Some sk) n = Inr (s1, n1) \<and> m_sock s1 = Some sk1 \<and> owns others sk1 n1
    \<and> (if owner \<or> (sk_isConnectd sk \<and> 0 < closes) then sk_fd sk1 = -1 \<and> set (n_open n1) = others else sk1 = sk \<and> n1 = n)
    \<and> Socket_dtor epoll_ctl sk1 n1 = Inr n2 \<and> set (n_open n2) = others \<and> wf_net n2
    \<and> (\<not> isConnected s1 \<longrightarrow> len \<noteq> 0 \<longrightarrow> unat len + k < 2 ^ 64
        \<longrightarrow> readFixSize len (replicate k (ss_read (unat len) r s1)) = Waits (len + word_of_nat k) (- word_of_nat k))"
proof -
  let ?s = "SocketStream (Some sk) owner"
  have start: "stream_ok others ?s n" "m_owner ?s = owner" "m_sock ?s = Some sk" "isConnected ?s = sk_isConnectd sk"
    using assms by (simp_all add: stream_ok_def SocketStream_def isConnected_def)
  obtain s1 n1 where c: "foldE (\<lambda>_ (s, n). ss_close epoll_ctl s n) [0..<closes] (?s, n) = Inr (s1, n1)" "stream_ok others s1 n1"
    "m_owner s1 = owner" "if sk_isConnectd sk \<and> [0..<closes] \<noteq> [] then given_up others s1 n1 else s1 = ?s \<and> n1 = n"
    using closes_ok [OF start(1), of epoll_ctl "[0..<closes]"] start by auto
  have "\<exists>s2 n2. stream_life epoll_ctl owner closes (Some sk) n = Inr (s2, n2) \<and> stream_ok others s2 n2
      \<and> (if owner then given_up others s2 n2 else s2 = s1 \<and> n2 = n1)"
    using close_sock_ok [OF c(2), of epoll_ctl] c(1-3) by (auto simp: stream_life_def SocketStream_dtor_def stream_ok_def)
  then obtain s2 n2 sk2 where l: "stream_life epoll_ctl owner closes (Some sk) n = Inr (s2, n2)" "m_sock s2 = Some sk2" "owns others sk2 n2"
    "if owner then given_up others s2 n2 else s2 = s1 \<and> n2 = n1" by (auto simp: stream_ok_def)
  have closed: "if owner \<or> (sk_isConnectd sk \<and> 0 < closes) then sk_fd sk2 = -1 \<and> set (n_open n2) = others else sk2 = sk \<and> n2 = n"
    using l c(4) start(3) by (auto simp: given_up_def split: if_splits)
  obtain n3 where d: "Socket_dtor epoll_ctl sk2 n2 = Inr n3" "set (n_open n3) = others" "wf_net n3"
    using sk_close_ok [OF l(3), of epoll_ctl] by (auto simp: Socket_dtor_def owns_def)
  have "readFixSize len (replicate k (ss_read (unat len) r s2)) = Waits (len + word_of_nat k) (- word_of_nat k)"
    if "\<not> isConnected s2" "len \<noteq> 0" "unat len + k < 2 ^ 64"
    using fix_loop_errors [OF that(2,3), of 0 "[]"] that(1) by (simp add: ss_read_def readFixSize_def)
  then show ?thesis using l(1-3) closed d by blast
qed

definition one_more :: socket where
  "one_more = (new_Socket 2 1 0)\<lparr>sk_fd := 2, sk_isConnectd := True\<rparr>"

theorem stream_closes_its_socket_witness:
  "(\<exists>s1 n1. stream_life (\<lambda>_ _ _. 0) False 2 (Some one_more) no_sockets = Inr (s1, n1) \<and> set (n_open n1) = {0, 1})
   \<and> (\<exists>s1. stream_life (\<lambda>_ _ _. 0) False 0 (Some one_more) no_sockets = Inr (s1, no_sockets))"
proof -
  have "owns {0, 1} one_more no_sockets" using no_sockets_wf by (auto simp: owns_def one_more_def no_sockets_def)
  note life = stream_closes_its_socket [OF this, of "\<lambda>_ _ _. 0" False _ 0 0 "Eof :: char io_ret"]
  show ?thesis using life [of 2] life [of 0] by (auto simp: one_more_def)
qed

text \<open>Reads and writes go to the socket while it is connected and fail otherwise.\<close>

lemma stream_transfers:
  "isConnected s \<Longrightarrow> ss_read len (Got bs) s = Got (take len bs) \<and> ss_write r s = r"
  "\<not> isConnected s \<Longrightarrow> ss_read len ret s = Err \<and> ss_write r s = -1"
  by (auto simp: isConnected_def ss_read_def ss_write_def sk_recv_def sk_send_def split: option.splits)

end
