(* ===== verification/Log_Output.thy ===== *)
theory Log_Output
  imports Loggers
begin

text \<open>
  \<open>Log.cpp\<close>, what \<open>Loggers\<close> leaves out: making the content of an event, the wrapper that logs its event when
  it is destroyed, and the file behind a \<open>FileLogAppender\<close> with the states of its stream. Whether the
  file can be opened and whether a write succeeds are arguments.
\<close>

section \<open>Events\<close>

text \<open>\<open>vasprintf\<close> gives a text or fails.\<close>

definition LogEvent_format :: "string option \<Rightarrow> log_event \<Rightarrow> log_event" where
  "LogEvent_format vasprintf ev =
     (case vasprintf of None \<Rightarrow> ev | Some text \<Rightarrow> ev\<lparr>ev_content := ev_content ev @ text\<rparr>)"

definition event_getSS :: "string \<Rightarrow> log_event \<Rightarrow> log_event" where
  "event_getSS text ev = ev\<lparr>ev_content := ev_content ev @ text\<rparr>"

text \<open>The end of the wrapper; the logger is the one that made the event.\<close>

definition LogEventWrap_dtor ::
  "(string \<Rightarrow> nat \<Rightarrow> string) \<Rightarrow> nat \<Rightarrow> logger \<Rightarrow> log_event \<Rightarrow> log_world \<Rightarrow> log_world res" where
  "LogEventWrap_dtor strftime now lg ev w = Logger_log strftime now 2 (ev_level ev) ev lg w"

text \<open>The macros \<open>KIT_LOG_LEVEL\<close> and \<open>KIT_LOG_FMT_LEVEL\<close>: \<open>ev\<close> is a new event, without content.\<close>

definition log_stream_macro ::
  "(string \<Rightarrow> nat \<Rightarrow> string) \<Rightarrow> nat \<Rightarrow> string list \<Rightarrow> logger \<Rightarrow> log_event \<Rightarrow> log_world \<Rightarrow> log_world res" where
  "log_stream_macro strftime now parts lg ev w =
     (if lg_level lg \<le> ev_level ev then LogEventWrap_dtor strftime now lg (fold event_getSS parts ev) w else Inr w)"

definition log_fmt_macro ::
  "(string \<Rightarrow> nat \<Rightarrow> string) \<Rightarrow> nat \<Rightarrow> string option \<Rightarrow> logger \<Rightarrow> log_event \<Rightarrow> log_world \<Rightarrow> log_world res" where
  "log_fmt_macro strftime now vasprintf lg ev w =
     (if ev_level ev \<ge> lg_level lg then LogEventWrap_dtor strftime now lg (LogEvent_format vasprintf ev) w else Inr w)"

text \<open>\<open>debug\<close>, \<open>info\<close>, \<open>warn\<close>, \<open>error\<close> and \<open>fatal\<close> log with their own level whatever the event says.\<close>

definition log_at ::
  "level \<Rightarrow> (string \<Rightarrow> nat \<Rightarrow> string) \<Rightarrow> nat \<Rightarrow> log_event \<Rightarrow> logger \<Rightarrow> log_world \<Rightarrow> log_world res" where
  "log_at level strftime now ev lg w = Logger_log strftime now 2 level ev lg w"

definition Logger_debug where "Logger_debug = log_at 1"
definition Logger_info where "Logger_info = log_at 2"
definition Logger_warn where "Logger_warn = log_at 3"
definition Logger_error where "Logger_error = log_at 4"
definition Logger_fatal where "Logger_fatal = log_at 5"

section \<open>Appenders and their files\<close>

definition getFormatter_ap :: "appender \<Rightarrow> log_formatter option" where
  "getFormatter_ap ap = ap_formatter ap"

definition StdoutLogAppender_log ::
  "(string \<Rightarrow> nat \<Rightarrow> string) \<Rightarrow> level \<Rightarrow> log_event \<Rightarrow> appender \<Rightarrow> appender res" where
  "StdoutLogAppender_log strftime level ev ap =
     (if level \<ge> ap_level ap then
        case ap_formatter ap of
          None \<Rightarrow> Inl Null_deref
        | Some f \<Rightarrow> Inr (ap\<lparr>ap_out := ap_out ap @ formatter_format strftime f level ev\<rparr>)
      else Inr ap)"

text \<open>A file stream: whether a file is open, whether no operation failed, and what was written.\<close>

record log_file =
  lf_open :: bool
  lf_good :: bool
  lf_text :: string

definition new_file :: log_file where
  "new_file = \<lparr>lf_open = False, lf_good = True, lf_text = []\<rparr>"

text \<open>Closing a stream without a file fails; opening one that has a file fails, and success forgets earlier failures.\<close>

definition file_close :: "log_file \<Rightarrow> log_file" where
  "file_close f = (if lf_open f then f\<lparr>lf_open := False\<rparr> else f\<lparr>lf_good := False\<rparr>)"

definition file_open :: "bool \<Rightarrow> log_file \<Rightarrow> log_file" where
  "file_open can_open f =
     (if lf_open f \<or> \<not> can_open then f\<lparr>lf_good := False\<rparr> else f\<lparr>lf_open := True, lf_good := True\<rparr>)"

definition file_write :: "bool \<Rightarrow> string \<Rightarrow> log_file \<Rightarrow> log_file" where
  "file_write write_ok text f =
     (if \<not> lf_good f then f
      else if lf_open f \<and> write_ok then f\<lparr>lf_text := lf_text f @ text\<rparr>
      else f\<lparr>lf_good := False\<rparr>)"

definition reopen :: "bool \<Rightarrow> log_file \<Rightarrow> bool \<times> log_file" where
  "reopen can_open f =
     (let f1 = file_open can_open (if lf_good f then file_close f else f) in (\<not> lf_good f1, f1))"

text \<open>The constructor opens the file.\<close>

definition FileLogAppender_file :: "bool \<Rightarrow> log_file" where
  "FileLogAppender_file can_open = snd (reopen can_open new_file)"

definition FileLogAppender_log ::
  "(string \<Rightarrow> nat \<Rightarrow> string) \<Rightarrow> nat \<Rightarrow> bool \<Rightarrow> bool \<Rightarrow> level \<Rightarrow> log_event \<Rightarrow> appender \<times> log_file \<Rightarrow> (appender \<times> log_file) res" where
  "FileLogAppender_log strftime now can_open write_ok level ev apf =
     (let (ap, f) = apf in
      if level \<ge> ap_level ap then
        let (ap1, f1) = (if now \<noteq> ap_last_time ap then (ap\<lparr>ap_last_time := now\<rparr>, snd (reopen can_open f)) else (ap, f)) in
        case ap_formatter ap1 of
          None \<Rightarrow> Inl Null_deref
        | Some fm \<Rightarrow> Inr (ap1, file_write write_ok (formatter_format strftime fm level ev) f1)
      else Inr (ap, f))"

section \<open>The file and the text of the appender\<close>

text \<open>An event with its time, whether the file can be opened then, and whether writing it succeeds.\<close>

type_synonym logged = "nat \<times> bool \<times> bool \<times> level \<times> log_event"

definition file_logs :: "(string \<Rightarrow> nat \<Rightarrow> string) \<Rightarrow> logged list \<Rightarrow> appender \<times> log_file \<Rightarrow> (appender \<times> log_file) res" where
  "file_logs strftime evs =
     foldE (\<lambda>(now, can_open, write_ok, level, ev) apf. FileLogAppender_log strftime now can_open write_ok level ev apf) evs"

lemma appender_log_stdout: "ap_file ap = None \<Longrightarrow> appender_log strftime now level ev ap = StdoutLogAppender_log strftime level ev ap"
  by (simp add: appender_log_def StdoutLogAppender_log_def)

lemma opened: "lf_open f \<longrightarrow> lf_good f \<Longrightarrow> snd (reopen True f) = f\<lparr>lf_open := True, lf_good := True\<rparr>"
  by (cases f) (auto simp: reopen_def file_close_def file_open_def)

lemma new_file_opened: "FileLogAppender_file True = \<lparr>lf_open = True, lf_good = True, lf_text = []\<rparr>"
  by (simp add: FileLogAppender_file_def new_file_def reopen_def file_close_def file_open_def)

text \<open>Without failures the file is the text that \<open>appender_log\<close> keeps.\<close>

lemma file_log_refines:
  assumes "ap_file ap \<noteq> None" and "appender_log strftime now level ev (ap\<lparr>ap_out := lf_text f\<rparr>) = Inr ap'"
    and "lf_open f \<longrightarrow> lf_good f" and "now = ap_last_time ap \<longrightarrow> lf_open f"
  shows "\<exists>f'. FileLogAppender_log strftime now True True level ev (ap, f) = Inr (ap'\<lparr>ap_out := ap_out ap\<rparr>, f') \<and> lf_text f' = ap_out ap'
    \<and> (lf_open f' \<longrightarrow> lf_good f') \<and> (ap_last_time ap' = ap_last_time ap \<longrightarrow> lf_open f' = lf_open f)
    \<and> (ap_last_time ap' \<noteq> ap_last_time ap \<longrightarrow> lf_open f') \<and> ap_file ap' \<noteq> None"
  using assms opened [OF assms(3)]
  by (cases ap; cases f) (auto simp: appender_log_def FileLogAppender_log_def file_write_def Let_def split: if_splits option.splits)

text \<open>A stream that failed with its file open stays so.\<close>

definition stuck :: "log_file \<Rightarrow> bool" where
  "stuck f \<longleftrightarrow> lf_open f \<and> \<not> lf_good f"

lemma stuck_stays:
  assumes "stuck f" and "ap_formatter ap \<noteq> None"
  shows "\<exists>ap'. FileLogAppender_log strftime now can_open write_ok level ev (ap, f) = Inr (ap', f) \<and> ap_formatter ap' \<noteq> None"
  using assms by (cases f) (auto simp: stuck_def FileLogAppender_log_def reopen_def file_open_def file_write_def Let_def)

lemma stuck_run:
  assumes "stuck f" and "ap_formatter ap \<noteq> None"
  shows "\<exists>ap'. file_logs strftime evs (ap, f) = Inr (ap', f)"
  using assms(2)
proof (induction evs arbitrary: ap)
  case (Cons e evs)
  obtain now can_open write_ok level ev where e: "e = (now, can_open, write_ok, level, ev)" by (cases e) auto
  obtain ap' where "FileLogAppender_log strftime now can_open write_ok level ev (ap, f) = Inr (ap', f)" "ap_formatter ap' \<noteq> None"
    using stuck_stays [OF assms(1) Cons.prems] by blast
  then show ?case using Cons.IH by (simp add: file_logs_def e)
qed (simp add: file_logs_def)

lemma open_file_log:
  assumes "ap_formatter ap = Some fm" and "lf_open f" and "lf_good f"
  shows "FileLogAppender_log strftime now True write_ok level ev (ap, f) =
    Inr (if level \<ge> ap_level ap then (ap\<lparr>ap_last_time := now\<rparr>, file_write write_ok (formatter_format strftime fm level ev) f) else (ap, f))"
proof -
  have "snd (reopen True f) = f" using assms(2,3) opened [of f] by (cases f) simp
  moreover have "ap\<lparr>ap_last_time := ap_last_time ap\<rparr> = ap" by (cases ap) simp
  ultimately show ?thesis using assms by (cases "now = ap_last_time ap") (simp_all add: FileLogAppender_log_def Let_def)
qed

text \<open>What should be in the file: the events that reach the level of the appender.\<close>

definition expected :: "(string \<Rightarrow> nat \<Rightarrow> string) \<Rightarrow> appender \<Rightarrow> logged list \<Rightarrow> string" where
  "expected strftime ap evs =
     concat (map (\<lambda>(now, can_open, write_ok, level, ev).
       if level \<ge> ap_level ap then formatter_format strftime (the (ap_formatter ap)) level ev else []) evs)"

lemma file_logs_append: "file_logs strftime (xs @ ys) apf = bindE (file_logs strftime xs apf) (file_logs strftime ys)"
  by (simp add: file_logs_def foldE_append)

lemma unfailing_run:
  assumes "\<forall>(now, can_open, write_ok, level, ev) \<in> set evs. can_open \<and> write_ok"
    and "ap_formatter ap \<noteq> None" and "lf_open f" and "lf_good f"
  shows "\<exists>t f'. file_logs strftime evs (ap, f) = Inr (ap\<lparr>ap_last_time := t\<rparr>, f') \<and> lf_open f' \<and> lf_good f'
    \<and> lf_text f' = lf_text f @ expected strftime ap evs"
  using assms
proof (induction evs arbitrary: ap f)
  case Nil
  then show ?case by (cases ap) (auto simp: file_logs_def expected_def)
next
  case (Cons e evs)
  obtain now level ev where e: "e = (now, True, True, level, ev)" using Cons.prems(1) by (cases e) auto
  obtain fm where fm: "ap_formatter ap = Some fm" using Cons.prems(2) by blast
  have same: "ap\<lparr>ap_last_time := ap_last_time ap\<rparr> = ap" by (cases ap) simp
  obtain t f' where s: "FileLogAppender_log strftime now True True level ev (ap, f) = Inr (ap\<lparr>ap_last_time := t\<rparr>, f')"
      "lf_open f'" "lf_good f'" "lf_text f' = lf_text f @ expected strftime ap [e]"
  proof (cases "level \<ge> ap_level ap")
    case True
    then show thesis
      by (intro that [of now "file_write True (formatter_format strftime fm level ev) f"])
        (use Cons.prems(3,4) fm in \<open>simp_all add: open_file_log [OF fm] file_write_def expected_def e\<close>)
  next
    case False
    then show thesis
      by (intro that [of "ap_last_time ap" f]) (use Cons.prems(3,4) fm same in \<open>simp_all add: open_file_log [OF fm] expected_def e\<close>)
  qed
  have "expected strftime (ap\<lparr>ap_last_time := t\<rparr>) evs = expected strftime ap evs" by (simp add: expected_def cong: if_cong)
  moreover obtain t' f'' where "file_logs strftime evs (ap\<lparr>ap_last_time := t\<rparr>, f') = Inr (ap\<lparr>ap_last_time := t\<rparr>\<lparr>ap_last_time := t'\<rparr>, f'')"
      "lf_open f''" "lf_good f''" "lf_text f'' = lf_text f' @ expected strftime (ap\<lparr>ap_last_time := t\<rparr>) evs"
    using Cons.IH [of "ap\<lparr>ap_last_time := t\<rparr>" f'] Cons.prems(1,2) s(2,3) by auto
  ultimately show ?case using s(1,4) by (auto simp: file_logs_def e expected_def)
qed

text \<open>
  C32: C1. As long as the file can be opened and written, it holds the events that reach the level of the appender,
  in their order and behind what it had. After the first write that fails nothing is written any more,
  although the file is to be opened anew every second: the stream is not closed because it failed, and
  opening a stream that still has its file fails again.
\<close>

theorem log_file_follows:
  assumes "\<forall>(now, can_open, write_ok, level, ev) \<in> set good. can_open \<and> write_ok"
    and "ap_formatter ap \<noteq> None" and "lf_open f" and "lf_good f" and "level \<ge> ap_level ap"
  shows "\<exists>ap' f' ap''. file_logs strftime good (ap, f) = Inr (ap', f') \<and> lf_text f' = lf_text f @ expected strftime ap good
    \<and> file_logs strftime (good @ (now, True, False, level, ev) # later) (ap, f)
        = Inr (ap'', f'\<lparr>lf_open := True, lf_good := False\<rparr>)"
proof -
  obtain t f' where g: "file_logs strftime good (ap, f) = Inr (ap\<lparr>ap_last_time := t\<rparr>, f')" "lf_open f'" "lf_good f'"
      "lf_text f' = lf_text f @ expected strftime ap good"
    using unfailing_run [OF assms(1-4)] by blast
  obtain fm where fm: "ap_formatter (ap\<lparr>ap_last_time := t\<rparr>) = Some fm" using assms(2) by auto
  define t' where "t' = now"
  have w: "FileLogAppender_log strftime now True False level ev (ap\<lparr>ap_last_time := t\<rparr>, f')
      = Inr (ap\<lparr>ap_last_time := t'\<rparr>, f'\<lparr>lf_open := True, lf_good := False\<rparr>)"
    using assms(5) g(2,3) by (cases f') (simp add: open_file_log [OF fm] file_write_def t'_def)
  obtain ap'' where "file_logs strftime later (ap\<lparr>ap_last_time := t'\<rparr>, f'\<lparr>lf_open := True, lf_good := False\<rparr>)
      = Inr (ap'', f'\<lparr>lf_open := True, lf_good := False\<rparr>)"
    using stuck_run [of "f'\<lparr>lf_open := True, lf_good := False\<rparr>" "ap\<lparr>ap_last_time := t'\<rparr>"] assms(2) by (auto simp: stuck_def)
  then have "file_logs strftime ((now, True, False, level, ev) # later) (ap\<lparr>ap_last_time := t\<rparr>, f')
      = Inr (ap'', f'\<lparr>lf_open := True, lf_good := False\<rparr>)" using w by (simp add: file_logs_def)
  then show ?thesis using g(1,4) by (auto simp: file_logs_append)
qed

definition text_appender :: appender where
  "text_appender = ap_setFormatter (Some (LogFormatter ''%m'')) (FileLogAppender 2 ''a.log'')"

theorem log_file_follows_witness:
  "\<exists>ap' f' ap''. file_logs (\<lambda>f t. f) [(1, True, True, 4, sample_event), (2, True, True, 1, sample_event)]
        (text_appender, \<lparr>lf_open = True, lf_good = True, lf_text = []\<rparr>) = Inr (ap', f')
    \<and> lf_text f' = ev_content sample_event
    \<and> file_logs (\<lambda>f t. f) ([(1, True, True, 4, sample_event), (2, True, True, 1, sample_event)] @ (2, True, False, 4, sample_event)
          # [(3, True, True, 4, sample_event)]) (text_appender, \<lparr>lf_open = True, lf_good = True, lf_text = []\<rparr>)
      = Inr (ap'', f'\<lparr>lf_open := True, lf_good := False\<rparr>)"
proof -
  have f: "ap_formatter text_appender = Some (LogFormatter ''%m'')" "ap_level text_appender = 2"
    by (simp_all add: text_appender_def ap_setFormatter_def FileLogAppender_def)
  have "formatter_format (\<lambda>f t. f) (LogFormatter ''%m'') 4 sample_event = ev_content sample_event" by code_simp
  then have e: "expected (\<lambda>f t. f) text_appender [(1, True, True, 4, sample_event), (2, True, True, 1, sample_event)] = ev_content sample_event"
    using f by (simp add: expected_def)
  have "\<forall>(now, can_open, write_ok, level, ev) \<in> set [(1 :: nat, True, True, 4 :: level, sample_event), (2, True, True, 1, sample_event)]. can_open \<and> write_ok"
    by simp
  from log_file_follows [OF this, of text_appender "\<lparr>lf_open = True, lf_good = True, lf_text = []\<rparr>" 4 "\<lambda>f t. f" 2 sample_event
      "[(3, True, True, 4, sample_event)]"]
  show ?thesis using f unfolding e by simp
qed

end
