(* ===== verification/Util.thy ===== *)
theory Util
  imports Prelude
begin

text \<open>
  The functions of \<open>util.cpp\<close> that read the system: backtraces, clocks, times as texts, and the call of
  \<open>lstat\<close>. What the system gives is an argument.
\<close>

section \<open>Backtraces\<close>

text \<open>
  The frames, at most \<open>depth\<close> of them, and their names; \<open>None\<close> when these cannot be had. The count of skipped
  frames is turned into an unsigned number.
\<close>

definition BackTrace :: "nat list \<Rightarrow> (nat list \<Rightarrow> string list option) \<Rightarrow> nat \<Rightarrow> int \<Rightarrow> string list \<Rightarrow> string list" where
  "BackTrace frames backtrace_symbols depth skip bt =
     (let arr = take depth frames in
      case backtrace_symbols arr of
        None \<Rightarrow> bt
      | Some strings \<Rightarrow> bt @ drop (unat (word_of_int skip :: 64 word)) (take (length arr) strings))"

definition BackTraceToString :: "nat list \<Rightarrow> (nat list \<Rightarrow> string list option) \<Rightarrow> nat \<Rightarrow> string \<Rightarrow> int \<Rightarrow> string" where
  "BackTraceToString frames backtrace_symbols depth prefix skip =
     concat (map (\<lambda>s. prefix @ s @ [CHR 0x0A]) (BackTrace frames backtrace_symbols depth skip []))"

section \<open>Clocks\<close>

text \<open>A \<open>timeval\<close> is its seconds and its microseconds.\<close>

definition GetCurrentMs :: "int \<times> int \<Rightarrow> 64 word" where
  "GetCurrentMs tv = word_of_int (fst tv) * 1000 + word_of_int (snd tv div 1000)"

definition GetCurrentUs :: "int \<times> int \<Rightarrow> 64 word" where
  "GetCurrentUs tv = word_of_int (fst tv * 1000) * 1000 + word_of_int (snd tv)"

text \<open>\<open>strftime\<close> leaves the buffer of 100 bytes undefined when the text and its end do not fit.\<close>

definition Timer2Str :: "(string \<Rightarrow> int \<Rightarrow> string) \<Rightarrow> int \<Rightarrow> string \<Rightarrow> string res" where
  "Timer2Str strftime ts format =
     (let text = strftime format ts in if length text < 100 then Inr (takeWhile (\<lambda>c. c \<noteq> CHR 0x00) text) else Inl Undefined)"

section \<open>Files\<close>

text \<open>\<open>lstat\<close> gives the kind of a file or fails; \<open>st\<close> is where it is to be stored, if anywhere.\<close>

definition lstat_wrapped :: "(string \<Rightarrow> nat option) \<Rightarrow> string \<Rightarrow> nat option \<Rightarrow> nat \<Rightarrow> int \<times> nat option" where
  "lstat_wrapped lstat file st junk =
     (let (ret, new_st) = (case lstat file of None \<Rightarrow> (-1, junk) | Some s \<Rightarrow> (0, s)) in
      (ret, map_option (\<lambda>_. new_st) st))"

section \<open>What they give\<close>

text \<open>A backtrace has at most as many lines as asked for, without the skipped ones; skipping a negative number skips all.\<close>

lemma length_BackTrace:
  "0 \<le> skip \<Longrightarrow> skip < 2 ^ 63 \<Longrightarrow> backtrace_symbols (take depth frames) = Some strings \<Longrightarrow> length strings = length (take depth frames)
     \<Longrightarrow> BackTrace frames backtrace_symbols depth skip bt = bt @ drop (nat skip) strings"
proof -
  assume a: "0 \<le> skip" "skip < 2 ^ 63" "backtrace_symbols (take depth frames) = Some strings" "length strings = length (take depth frames)"
  have "unat (word_of_int skip :: 64 word) = nat skip" using a(1,2) by (simp add: unat_eq_nat_uint uint_word_of_int)
  then show ?thesis using a(3,4) by (simp add: BackTrace_def Let_def)
qed

lemma negative_skip:
  "skip < 0 \<Longrightarrow> - (2 ^ 31) \<le> skip \<Longrightarrow> depth < 2 ^ 31 \<Longrightarrow> BackTrace frames backtrace_symbols depth skip bt = bt"
proof -
  assume s: "skip < 0" "- (2 ^ 31) \<le> skip" "depth < 2 ^ 31"
  have "uint (word_of_int skip :: 64 word) = skip + 2 ^ 64"
  proof -
    have "skip mod 2 ^ 64 = (skip + 2 ^ 64) mod 2 ^ 64" by simp
    also have "\<dots> = skip + 2 ^ 64" using s by (intro mod_pos_pos_trivial) simp_all
    finally show ?thesis by (simp add: uint_word_of_int)
  qed
  then have "depth \<le> unat (word_of_int skip :: 64 word)" using s by (simp add: unat_eq_nat_uint)
  then show ?thesis by (auto simp: BackTrace_def Let_def split: option.split)
qed

text \<open>The two clocks agree as long as the microseconds fit.\<close>

lemma clocks_agree:
  assumes "0 \<le> s" and "s < 2 ^ 43" and "0 \<le> us" and "us < 1000000"
  shows "uint (GetCurrentMs (s, us)) = s * 1000 + us div 1000 \<and> uint (GetCurrentUs (s, us)) = s * 1000000 + us
    \<and> GetCurrentUs (s, us) div 1000 = GetCurrentMs (s, us)"
proof -
  have u: "uint (word_of_int x :: 64 word) = x" if "0 \<le> x" "x < 2 ^ 64" for x using that by (simp add: uint_word_of_int)
  have ms: "GetCurrentMs (s, us) = word_of_int (s * 1000 + us div 1000)" by (simp add: GetCurrentMs_def)
  have usec: "GetCurrentUs (s, us) = word_of_int (s * 1000000 + us)" by (simp add: GetCurrentUs_def)
  have m: "uint (GetCurrentMs (s, us)) = s * 1000 + us div 1000" unfolding ms using assms by (intro u) auto
  have n: "uint (GetCurrentUs (s, us)) = s * 1000000 + us" unfolding usec using assms by (intro u) auto
  have "uint (GetCurrentUs (s, us) div 1000) = (s * 1000000 + us) div 1000" by (simp add: uint_div n)
  then have "GetCurrentUs (s, us) div 1000 = GetCurrentMs (s, us)" using m by (intro word_uint_eqI) auto
  then show ?thesis using m n by blast
qed

end
