(* ===== verification/Spec2Isabelle.thy ===== *)
theory Spec2Isabelle
  imports Byte_Properties Runtime_Properties Hook Address Http_Properties Http_Client Http_Responses Log_Config Sync
    Http_Exchange Interfaces Settings Process Calls Waiting Sleeping Socket_Stream Log_Output Util
begin

text \<open>
  A model of kit_server, a C++ network library (\<open>src/kit_server\<close>): coroutines on a scheduler with
  timers and an event loop over epoll, hooked system calls that give up the processor instead of
  blocking, a pool of memory for serialised data, sockets, an HTTP server and client, a logger and a
  configuration, and the application that starts servers from configuration files.

  How the parts of the program work together. An \<open>IOManager\<close> is a \<open>Scheduler\<close> and a
  \<open>TimerManager\<close>: worker threads take tasks (coroutines or callbacks) from one queue, and a thread
  without work waits in \<open>idle\<close> for descriptors and deadlines and puts what is due into the queue.
  The hooks register a descriptor and a timeout there, suspend the coroutine and try again when it is
  resumed; \<open>FdManager\<close> knows the timeouts and flags of descriptors. \<open>Socket\<close> and \<open>TcpServer\<close>
  make hooked calls; \<open>HttpSession\<close> reads requests through \<open>Stream::readFixSize\<close> and the parser,
  \<open>HttpServer\<close> answers them with servlets, \<open>HttpConnection\<close> is the client and keeps pools of
  connections. \<open>Application\<close> reads options (\<open>Env\<close>) and YAML files (\<open>Config\<close>), whose listeners set
  up the loggers, and starts the configured servers, possibly under a daemon that restarts them.

  Theories, by the files they model:
  \<^item> \<open>Prelude\<close>: results (an error of the program or a value), the sequencing \<open>bindE\<close>/\<open>foldE\<close>, lists and words.
  \<^item> \<open>Endian\<close> (\<open>endian.h\<close>); \<open>Byte_Stream\<close> (interfaces), \<open>Byte_Array\<close>, \<open>Byte_Codec\<close>,
    \<open>Byte_Buffers\<close>, \<open>Byte_Properties\<close> (\<open>bytearray.cpp\<close>); \<open>Stream_Io\<close> (\<open>stream.cpp\<close>), \<open>Socket_Stream\<close> (\<open>socket_stream.cpp\<close>).
  \<^item> \<open>Timer\<close>, \<open>Coroutine\<close>, \<open>Scheduler\<close>, \<open>Io_Manager\<close> (the files of these names) and \<open>Runtime_Properties\<close>.
  \<^item> \<open>Fd_Manager\<close>, \<open>Hook\<close>, \<open>Calls\<close> (\<open>fdmanager.cpp\<close>; \<open>hook.cpp\<close>, where \<open>Calls\<close> has \<open>fcntl\<close>, \<open>ioctl\<close> and the options of
    sockets by their numbers), \<open>Waiting\<close> (a call that waits, through hooks, event manager and timers), \<open>Sleeping\<close>
    (a coroutine that sleeps, and the rounds of \<open>idle\<close> that come back before, at and after its deadline); \<open>Locks\<close>, \<open>Sync\<close> (\<open>mutex.h\<close>, \<open>mutex.cpp\<close>, \<open>thread.cpp\<close>, where \<open>Sync\<close> has the locks over POSIX).
  \<^item> \<open>Address\<close>, \<open>Interfaces\<close> (\<open>address.cpp\<close>), \<open>Sockets\<close>, \<open>Tcp_Server\<close> (\<open>socket.cpp\<close>, \<open>tcp_server.cpp\<close>).
  \<^item> \<open>Strings\<close>, \<open>Http\<close>, \<open>Http_Messages\<close> (\<open>http.h\<close>, \<open>http.cpp\<close>), \<open>Http_Parser\<close> (\<open>http_parser.cpp\<close>),
    \<open>Http_Session\<close>, \<open>Servlet\<close>, \<open>Http_Server\<close>, \<open>Http_Connection\<close>, \<open>Http_Pool\<close> (the files of these
    names), \<open>Http_Properties\<close>, \<open>Http_Client\<close> (calls with the text of a URI), \<open>Http_Exchange\<close> (client and server
    joined by what they print); \<open>Uri\<close> (\<open>uri.rl\<close>).
  \<^item> \<open>Machine\<close>: the shape of the machines that ragel generates. \<open>Http_Machine\<close>, \<open>Client_Machine\<close>,
    \<open>Uri_Machine\<close>: the three machines, case by case in the order of \<open>http11_parser.rl.cpp\<close>,
    \<open>httpclient_parser.rl.cpp\<close> and \<open>uri.rl.cpp\<close>, in pieces of at most 150 lines of the file, with their actions.
    \<open>Grammar\<close>, \<open>Http_Grammar\<close>, \<open>Response_Grammar\<close>, \<open>Uri_Grammar\<close>: which states texts visit.
    \<open>Http_Requests\<close>, \<open>Http_Responses\<close>, \<open>Uri_Texts\<close>: what is read from whole texts.
  \<^item> \<open>Log_Formatter\<close>, \<open>Loggers\<close>, \<open>Log_Output\<close>, \<open>Log_Config\<close> (\<open>Log.cpp\<close>), \<open>Config\<close> (\<open>config.h\<close>, \<open>config.cpp\<close>),
    \<open>Settings\<close> (the variables that \<open>http_parser.cpp\<close> and \<open>hook.cpp\<close> copy before \<open>main\<close>).
  \<^item> \<open>Environment\<close>, \<open>Util\<close> (\<open>env.cpp\<close>, \<open>util.cpp\<close>), \<open>Application\<close>, \<open>Process\<close> (\<open>application.cpp\<close>, \<open>daemon.cpp\<close>).

  State and operations. Classes are records with the members of the source as fields; an object that is
  shared by pointer is an address of a map (timers, coroutines, appenders) or has one owner. An
  operation that can fail returns \<open>Inl\<close> of an error: an exception of the source, or what the source
  never intends, such as a null pointer that is dereferenced. Where several threads run, what one
  thread does between two points where others can see the state is one step, and a run is any
  list of steps (\<open>sched_step\<close>, \<open>cas_step\<close>, \<open>scope_step\<close>, \<open>server_do\<close>); a lock that covers a whole operation is
  left out. Blocking calls are cut at the point where they wait.

  Interfaces. \<open>byte_stream\<close>, \<open>value_codec\<close> and \<open>length_prefixed\<close> (a store with a cursor and what is
  encoded through it), \<open>task_sink\<close> (what accepts tasks), \<open>keyed_map\<close> (a table of named things),
  \<open>machine_inv\<close> (registers of a machine and what its actions keep), \<open>guarded_lock\<close> (a lock that scopes
  take and leave) and \<open>descriptor_flags\<close> (the flag of a descriptor behind \<open>fcntl\<close>) are
  locales; they are interpreted on the pool and its codecs, the scheduler and the event manager, header
  fields, parameters, cookies, servlets and program options, the actions of the HTTP machines, the mutexes
  and the read-write lock, and a kernel that keeps that flag.

  What the lemmas show. Pools keep their shape and read back what was written, in every encoding; the
  timer set stays ordered and fires what is due; the counters of the scheduler count its threads,
  coroutines are switched safely, a hooked call that waits is resumed and leaves nothing behind; registrations of events agree with the kernel, and cancelling wakes who
  waits; printed requests, responses and URIs are read back by the
  generated machines, which stay in their buffers whatever bytes arrive, a request for the text of a URI
  reaches a server as it was meant, a request and its answer cross between client and server, header fields are a map, a server answers the
  requests of a client in order, a connection pool counts its connections; a server neither leaks
  descriptors nor closes them twice whatever fails; loggers write to the right appenders in the
  right format, into their files until a write fails, and follow their configuration, as do the copied settings; scopes over
  locks exclude each other; streams close their sockets once; the replaced \<open>fcntl\<close> cannot be told from the
  original one. Some theorems pin down where the code departs from its
  intention; the findings of the manifest name them.

  Bounds. Integers of the program are words of their width wherever they can wrap; sizes of buffers
  and positions in them are natural numbers, which agrees with \<open>size_t\<close> since a buffer is shorter than
  2^31 bytes. \<open>Logger_log\<close> has fuel for the step from a logger to the root; the root has no root, so two
  suffice. Loops over the scripts of what the system returns end with the script and then wait.

  Parameters. What is not under \<open>src\<close> is an argument: \<open>epoll_ctl\<close>, \<open>getaddrinfo\<close>, \<open>getifaddrs\<close>,
  the original \<open>fcntl\<close> and \<open>ioctl\<close>, \<open>vasprintf\<close>, \<open>backtrace\<close>, \<open>fnmatch\<close>, \<open>boost::lexical_cast\<close>, \<open>atoi\<close> (\<open>strtol 10\<close> where its texts matter), \<open>strftime\<close>, the YAML library (its loader and emitter), \<open>lstat\<close>
  and \<open>mkdir\<close>, and scripts of what \<open>read\<close>, \<open>accept\<close>, \<open>fork\<close> and other calls come to.

  The code of \<open>Http_Session\<close>, \<open>Http_Server\<close> and \<open>Http_Connection\<close> takes the machine as an argument, so its theorems
  hold whatever the machine does; \<open>http_run\<close> and \<open>client_run\<close> are the generated ones.

  The results of POSIX locks and \<open>inet_pton\<close> for its one use are written out.

  Not modelled: what only hands a value on (\<open>GetThreadId\<close> and plain getters), the allocation of stacks of
  coroutines, the destructors of managers that live as long as the program, the register \<open>status\<close> of the
  response machine, which is only written, declarations, tests and examples.
\<close>

end
